(* ===== verification/Gxfp_Prelude.thy ===== *)
theory Gxfp_Prelude
  imports Main "HOL-Library.Word"
begin

unbundle bit_operations_syntax

text \<open>
  The vocabulary shared by all components: fixed-width integers, nullable buffers, the
  errno values, the memory primitives of C (\<open>memcpy\<close>, \<open>memset\<close>), little-endian
  encodings, and the lemmas on them.

  Conventions of the whole development.
  \<^item> A C pointer to bytes that the code compares with NULL is a \<open>u8 list option\<close>
    (\<open>None\<close> is NULL); the list holds the bytes the pointer designates, and the length
    argument of the C function stays a separate argument.
  \<^item> A buffer the code writes is returned; writing is \<open>memcpy_at\<close>, which keeps the length
    of the buffer exactly when the write stays inside it.
  \<^item> \<open>size_t\<close> is \<open>nat\<close>; \<open>uint8_t\<close> to \<open>uint64_t\<close> are words; \<open>int\<close> return codes are
    \<open>int\<close>, 0 for success and a negated errno for a failure.
\<close>

section \<open>Types\<close>

type_synonym u8 = "8 word"
type_synonym u16 = "16 word"
type_synonym u32 = "32 word"
type_synonym u64 = "64 word"
type_synonym bytes = "u8 list"
type_synonym ptr = "u8 list option"

named_theorems errno_simps \<open>facts on return codes\<close>
named_theorems mem_simps \<open>facts on buffers and memcpy\<close>
named_theorems le_simps \<open>facts on little-endian encodings\<close>

section \<open>Errno values\<close>

abbreviation EPERM :: int where "EPERM \<equiv> 1"
abbreviation ENOENT :: int where "ENOENT \<equiv> 2"
abbreviation EINTR :: int where "EINTR \<equiv> 4"
abbreviation EIO :: int where "EIO \<equiv> 5"
abbreviation EAGAIN :: int where "EAGAIN \<equiv> 11"
abbreviation ENOMEM :: int where "ENOMEM \<equiv> 12"
abbreviation EFAULT :: int where "EFAULT \<equiv> 14"
abbreviation EBUSY :: int where "EBUSY \<equiv> 16"
abbreviation ENODEV :: int where "ENODEV \<equiv> 19"
abbreviation EINVAL :: int where "EINVAL \<equiv> 22"
abbreviation ENOTTY :: int where "ENOTTY \<equiv> 25"
abbreviation ENOSPC :: int where "ENOSPC \<equiv> 28"
abbreviation EPIPE :: int where "EPIPE \<equiv> 32"
abbreviation ENODATA :: int where "ENODATA \<equiv> 61"
abbreviation EBADMSG :: int where "EBADMSG \<equiv> 74"
abbreviation EOVERFLOW :: int where "EOVERFLOW \<equiv> 75"
abbreviation EMSGSIZE :: int where "EMSGSIZE \<equiv> 90"
abbreviation ETIMEDOUT :: int where "ETIMEDOUT \<equiv> 110"
abbreviation EALREADY :: int where "EALREADY \<equiv> 114"
abbreviation ECANCELED :: int where "ECANCELED \<equiv> 125"
abbreviation EPROBE_DEFER :: int where "EPROBE_DEFER \<equiv> 517"

section \<open>Buffers\<close>

definition ptr_bytes :: "ptr \<Rightarrow> nat \<Rightarrow> bytes" where
  "ptr_bytes p n = (case p of None \<Rightarrow> [] | Some xs \<Rightarrow> take n xs)"

text \<open>\<open>memcpy (dst + off, src, length src)\<close>.\<close>

definition memcpy_at :: "'a list \<Rightarrow> nat \<Rightarrow> 'a list \<Rightarrow> 'a list" where
  "memcpy_at dst off src = take off dst @ src @ drop (off + length src) dst"

definition zeros :: "nat \<Rightarrow> bytes" where
  "zeros n = replicate n 0"

lemma ptr_bytes_None [simp]: "ptr_bytes None n = []"
  by (simp add: ptr_bytes_def)

lemma ptr_bytes_Some [simp]: "ptr_bytes (Some xs) n = take n xs"
  by (simp add: ptr_bytes_def)

lemma length_memcpy_at [simp, mem_simps]:
  "off + length src \<le> length dst \<Longrightarrow> length (memcpy_at dst off src) = length dst"
  by (simp add: memcpy_at_def)

lemma memcpy_at_Nil [simp]: "memcpy_at dst off [] = dst"
  by (simp add: memcpy_at_def)

lemma memcpy_at_0 [mem_simps]: "memcpy_at dst 0 src = src @ drop (length src) dst"
  by (simp add: memcpy_at_def)

lemma take_memcpy_at_0 [mem_simps]:
  "n \<le> length src \<Longrightarrow> take n (memcpy_at dst 0 src) = take n src"
  by (simp add: memcpy_at_def)

lemma memcpy_at_append [mem_simps]:
  assumes "off \<le> length dst"
  shows "memcpy_at (memcpy_at dst off xs) (off + length xs) ys = memcpy_at dst off (xs @ ys)"
  using assms by (simp add: memcpy_at_def ac_simps)

lemma take_memcpy_at_end [mem_simps]:
  "off \<le> length dst \<Longrightarrow> take (off + length src) (memcpy_at dst off src) = take off dst @ src"
  by (simp add: memcpy_at_def)

lemma nth_memcpy_at [mem_simps]:
  assumes "off + length src \<le> length dst" and "i < length dst"
  shows "memcpy_at dst off src ! i =
    (if off \<le> i \<and> i < off + length src then src ! (i - off) else dst ! i)"
  using assms by (auto simp: memcpy_at_def nth_append add.commute)

lemma length_zeros [simp]: "length (zeros n) = n"
  by (simp add: zeros_def)

lemma zeros_update [simp]: "(zeros n)[i := 0] = zeros n"
proof (cases "i < n")
  case True
  then show ?thesis by (simp add: zeros_def list_update_same_conv)
next
  case False
  then show ?thesis by (intro list_update_beyond) simp
qed

lemma take_zeros [simp]: "take m (zeros n) = zeros (min m n)"
  by (simp add: zeros_def)

section \<open>Little-endian encodings\<close>

text \<open>\<open>(uint16_t)b0 | ((uint16_t)b1 << 8)\<close>.\<close>

definition le16 :: "u8 \<Rightarrow> u8 \<Rightarrow> u16" where
  "le16 b0 b1 = ucast b0 OR push_bit 8 (ucast b1)"

definition lo8 :: "u16 \<Rightarrow> u8" where
  "lo8 v = ucast (v AND 0xff)"

definition hi8 :: "u16 \<Rightarrow> u8" where
  "hi8 v = ucast (drop_bit 8 v AND 0xff)"

definition le32 :: "bytes \<Rightarrow> u32" where
  "le32 p = ucast (p ! 0) OR push_bit 8 (ucast (p ! 1)) OR
            push_bit 16 (ucast (p ! 2)) OR push_bit 24 (ucast (p ! 3))"

definition le32enc :: "u32 \<Rightarrow> bytes" where
  "le32enc v = [ucast (v AND 0xff), ucast (drop_bit 8 v AND 0xff),
                ucast (drop_bit 16 v AND 0xff), ucast (drop_bit 24 v AND 0xff)]"

text \<open>The eight bytes of a \<open>__u64\<close> in memory on the little-endian host.\<close>

definition le64_bytes :: "u64 \<Rightarrow> bytes" where
  "le64_bytes v = map (\<lambda>i. ucast (drop_bit (8 * i) v)) [0..<8]"

definition le64_word :: "bytes \<Rightarrow> u64" where
  "le64_word bs = foldr (\<lambda>b acc. ucast b OR push_bit 8 acc) (take 8 bs) 0"

lemma length_le32enc [simp]: "length (le32enc v) = 4"
  by (simp add: le32enc_def)

lemma length_le64_bytes [simp]: "length (le64_bytes v) = 8"
  by (simp add: le64_bytes_def)

lemma bit_byte_mask [le_simps]:
  "bit (0xff :: 'a :: len word) n \<longleftrightarrow> n < 8 \<and> n < LENGTH('a)"
proof -
  have eq: "(0xff :: 'a word) = mask 8" by (simp add: mask_eq_exp_minus_1)
  show ?thesis by (subst eq) (auto simp only: bit_mask_iff possible_bit_word)
qed

lemma bit_255_int [le_simps]: "bit (255 :: int) n \<longleftrightarrow> n < 8"
proof -
  have eq: "(255 :: int) = mask 8" by (simp add: mask_eq_exp_minus_1)
  show ?thesis by (subst eq) (simp only: bit_mask_iff possible_bit_int simp_thms)
qed

lemma bit_u8_out [le_simps]: "8 \<le> n \<Longrightarrow> \<not> bit (b :: u8) n"
  using bit_imp_le_length [of b n] by auto

lemma le16_lo8_hi8 [simp, le_simps]: "le16 (lo8 v) (hi8 v) = v"
  unfolding le16_def lo8_def hi8_def
  by (rule bit_word_eqI) (auto simp: bit_simps le_simps)

lemma lo8_le16 [simp, le_simps]: "lo8 (le16 b0 b1) = b0"
  unfolding le16_def lo8_def
  by (rule bit_word_eqI) (auto simp: bit_simps le_simps)

lemma hi8_le16 [simp, le_simps]: "hi8 (le16 b0 b1) = b1"
  unfolding le16_def hi8_def
  by (rule bit_word_eqI) (auto simp: bit_simps le_simps)

text \<open>The bytes of a little-endian word, and the word of its bytes, bit by bit.\<close>

definition le_word :: "bytes \<Rightarrow> 'a :: len word" where
  "le_word bs = foldr (\<lambda>b acc. ucast b OR push_bit 8 acc) bs 0"

definition le_bytes :: "nat \<Rightarrow> 'a :: len word \<Rightarrow> bytes" where
  "le_bytes k v = map (\<lambda>i. ucast (drop_bit (8 * i) v)) [0..<k]"

lemma length_le_bytes [simp]: "length (le_bytes k v) = k"
  by (simp add: le_bytes_def)

lemma bit_le_word:
  "bit (le_word bs :: 'a :: len word) n \<longleftrightarrow>
     n < LENGTH('a) \<and> n < 8 * length bs \<and> bit (bs ! (n div 8)) (n mod 8)"
proof (induction bs arbitrary: n)
  case Nil
  then show ?case by (simp add: le_word_def)
next
  case (Cons b bs)
  have step: "bit (le_word (b # bs) :: 'a word) n \<longleftrightarrow>
      n < LENGTH('a) \<and> (bit b n \<or> 8 \<le> n \<and> bit (le_word bs :: 'a word) (n - 8))"
    by (auto simp: le_word_def bit_simps)
  show ?case
  proof (cases "n < 8")
    case True
    then show ?thesis by (simp add: step)
  next
    case False
    then have "n = 8 + (n - 8)" by simp
    then obtain m where m: "n = 8 + m" by blast
    have "(8 + m) div 8 = Suc (m div 8)" by simp
    then show ?thesis unfolding step by (auto simp: m Cons.IH bit_u8_out)
  qed
qed

lemma nth_le_bytes: "i < k \<Longrightarrow> le_bytes k v ! i = ucast (drop_bit (8 * i) v)"
  by (simp add: le_bytes_def)

lemma le_word_le_bytes:
  assumes "LENGTH('a) \<le> 8 * k"
  shows "le_word (le_bytes k v) = (v :: 'a :: len word)"
proof (rule bit_word_eqI)
  fix n assume n: "n < LENGTH('a)"
  have "n div 8 < k" using n assms by linarith
  then show "bit (le_word (le_bytes k v) :: 'a word) n = bit v n"
    using n assms by (auto simp: bit_le_word nth_le_bytes bit_simps)
qed

lemma length_ge_4E:
  assumes "4 \<le> length p"
  obtains a b c d r where "p = a # b # c # d # r"
  using assms by (auto simp: numeral_eq_Suc Suc_le_length_iff)

lemma drop_4_plus [simp]: "drop (4 + n) (a # b # c # d # r) = drop n r"
  by (simp add: numeral_eq_Suc)

lemma le32_le_word: "4 \<le> length p \<Longrightarrow> le32 p = le_word (take 4 p)"
proof -
  assume "4 \<le> length p"
  then obtain a b c d r where "p = a # b # c # d # r" by (rule length_ge_4E)
  then show ?thesis
    by (simp add: le32_def le_word_def or.assoc push_bit_push_bit add.commute)
qed

lemma le32enc_le_bytes: "le32enc v = le_bytes 4 v"
proof -
  have m: "ucast (w AND 0xff) = (ucast w :: u8)" for w :: u32
    by (rule bit_word_eqI) (auto simp: bit_simps le_simps)
  have u: "[0..<4] = [0, 1, 2, 3 :: nat]" by (simp add: upt_rec)
  show ?thesis unfolding le32enc_def le_bytes_def u by (simp add: m)
qed

lemma le32_le32enc [simp, le_simps]: "le32 (le32enc v @ r) = v"
  by (simp add: le32_le_word) (simp add: le32enc_le_bytes le_word_le_bytes)

lemma le32_le32enc_Nil [simp, le_simps]: "le32 (le32enc v) = v"
  using le32_le32enc [of v "[]"] by simp

lemma le64_word_le64_bytes [simp, le_simps]: "le64_word (le64_bytes v @ r) = v"
proof -
  have "le64_word (le64_bytes v @ r) = le_word (le_bytes 8 v)"
    by (simp add: le64_word_def le64_bytes_def le_word_def le_bytes_def)
  then show ?thesis by (simp add: le_word_le_bytes)
qed

lemma u8_less: "unat (b :: u8) < 256"
  using unsigned_less [of b, where ?'a = nat] by simp

lemma u16_less: "unat (w :: u16) < 65536"
  using unsigned_less [of w, where ?'a = nat] by simp

lemma unat_ucast_up:
  assumes "LENGTH('a) \<le> LENGTH('b)"
  shows "unat (ucast (x :: 'a :: len word) :: 'b :: len word) = unat x"
proof -
  have "unat x < 2 ^ LENGTH('a)" by (rule unsigned_less)
  also have "\<dots> \<le> (2 :: nat) ^ LENGTH('b)" using assms by (rule power_increasing) simp
  finally show ?thesis by (simp add: unsigned_ucast_eq take_bit_nat_eq_self)
qed

lemma unat_ucast_u8 [simp]:
  "unat (ucast (b :: u8) :: u16) = unat b"
  "unat (ucast (b :: u8) :: u32) = unat b"
  by (simp_all add: unat_ucast_up)

lemma ucast_ucast_id [simp]:
  "(ucast (ucast (b :: u8) :: u32) :: u8) = b"
  "(ucast (ucast (b :: u8) :: u16) :: u8) = b"
  by (rule bit_word_eqI; auto simp: bit_simps)+

lemma ucast_add_down:
  assumes "LENGTH('b) \<le> LENGTH('a)"
  shows "(ucast (x + y :: 'a :: len word) :: 'b :: len word) = ucast x + ucast y"
proof -
  have "take_bit LENGTH('b) (take_bit LENGTH('a) (a + b)) = take_bit LENGTH('b) (a + b)"
    for a b :: int
    using assms by (simp add: min_def)
  then show ?thesis
    by transfer (metis take_bit_add take_bit_take_bit min_def assms)
qed

lemma sum_list_upd_group:
  "i < length xs \<Longrightarrow>
     sum_list (xs[i := x]) = sum_list xs - xs ! i + (x :: 'a :: ab_group_add)"
proof (induction xs arbitrary: i)
  case Nil
  then show ?case by simp
next
  case (Cons y ys)
  then show ?case by (cases i) (simp_all add: algebra_simps)
qed

lemma unat_le16: "unat (le16 b0 b1) = unat b0 + 256 * unat b1"
proof -
  have "le16 b0 b1 = ucast b0 + push_bit 8 (ucast b1)"
    unfolding le16_def
    by (rule disjunctive_add [symmetric]) (auto simp: bit_simps le_simps)
  moreover have "unat b0 + 256 * unat b1 < 2 ^ 16"
    using u8_less [of b0] u8_less [of b1] by simp
  ultimately show ?thesis
    by (simp add: unat_word_ariths push_bit_eq_mult)
qed

end
