(* ===== verification/Goodix_Proto.thy ===== *)
theory Goodix_Proto
  imports Gxfp_Prelude
begin

unbundle bit_operations_syntax

text \<open>
  The Goodix body framing \<open>cmd, len_lo, len_hi, payload, checksum\<close>, in its two
  implementations: the kernel's (\<open>kernel/proto/gxfp_goodix_proto.c\<close>, suffix \<open>_k\<close>) and the
  userspace library's (\<open>userspace/src/proto/goodix_proto.c\<close>). The declared length counts the
  payload and the checksum byte. The interface both offer is the locale \<open>body_codec\<close>, with one
  interpretation per implementation.
\<close>

section \<open>Definitions\<close>

definition GXFP_GOODIX_PAYLOAD_U16_MAX :: nat where
  "GXFP_GOODIX_PAYLOAD_U16_MAX = 0xFF00"

definition GOODIX_PAYLOAD_MAX :: nat where
  "GOODIX_PAYLOAD_MAX = 0xFF00"

record gxfp_frame_parsed =
  fr_valid :: bool
  fr_proto_checksum_ok :: bool
  fr_cmd :: u8
  fr_decl_len :: u16
  fr_payload :: ptr
  fr_payload_len :: u16
  fr_proto_checksum :: u8

text \<open>\<open>memset (out, 0, sizeof (*out))\<close>.\<close>

definition frame_zero :: gxfp_frame_parsed where
  "frame_zero = \<lparr>fr_valid = False, fr_proto_checksum_ok = False, fr_cmd = 0, fr_decl_len = 0,
     fr_payload = None, fr_payload_len = 0, fr_proto_checksum = 0\<rparr>"

subsection \<open>Kernel\<close>

definition gxfp_goodix_proto_checksum_k :: "u8 \<Rightarrow> u16 \<Rightarrow> ptr \<Rightarrow> nat \<Rightarrow> u8" where
  "gxfp_goodix_proto_checksum_k cmd decl_len payload payload_len =
    (let sum = (ucast cmd :: u32) + ucast (decl_len AND 0xff) + ucast (drop_bit 8 decl_len AND 0xff);
         sum = foldl (\<lambda>sum b. sum + ucast b) sum (ptr_bytes payload payload_len)
     in 0xaa - ucast sum)"

definition gxfp_parse_goodix_body_k ::
  "ptr \<Rightarrow> nat \<Rightarrow> gxfp_frame_parsed option \<Rightarrow> bool \<times> gxfp_frame_parsed option" where
  "gxfp_parse_goodix_body_k buf buf_len out =
    (case (out, buf) of
       (Some _, Some b) \<Rightarrow>
         if buf_len < 4 then (False, out)
         else
           let cmd = b ! 0;
               decl_len = le16 (b ! 1) (b ! 2)
           in if decl_len < 1 then (False, Some frame_zero)
              else
                let payload_len = decl_len - 1;
                    need = 3 + unat payload_len + 1
                in if need > buf_len then (False, Some frame_zero)
                   else
                     let payload = Some (drop 3 b);
                         proto_ck = b ! (3 + unat payload_len);
                         ok = (gxfp_goodix_proto_checksum_k cmd decl_len payload
                                 (unat payload_len) = proto_ck)
                     in (True, Some \<lparr>fr_valid = True, fr_proto_checksum_ok = ok, fr_cmd = cmd,
                           fr_decl_len = decl_len, fr_payload = payload,
                           fr_payload_len = payload_len, fr_proto_checksum = proto_ck\<rparr>)
     | _ \<Rightarrow> (False, out))"

definition gxfp_goodix_build_frame_k ::
  "u8 \<Rightarrow> ptr \<Rightarrow> nat \<Rightarrow> ptr \<Rightarrow> nat \<Rightarrow> int \<times> ptr" where
  "gxfp_goodix_build_frame_k cmd payload payload_len out out_cap =
    (case out of
       None \<Rightarrow> (- EINVAL, out)
     | Some o1 \<Rightarrow>
         if out_cap < 4 then (- EINVAL, out)
         else if payload_len \<noteq> 0 \<and> payload = None then (- EINVAL, out)
         else if payload_len > GXFP_GOODIX_PAYLOAD_U16_MAX then (- EOVERFLOW, out)
         else
           let decl_len = (of_nat (1 + payload_len) :: u16);
               total = 1 + 2 + payload_len + 1
           in if total > out_cap then (- EMSGSIZE, out)
              else
                let o1 = o1[0 := cmd];
                    o1 = o1[1 := lo8 decl_len];
                    o1 = o1[2 := hi8 decl_len];
                    o1 = (if payload_len \<noteq> 0
                          then memcpy_at o1 3 (ptr_bytes payload payload_len) else o1);
                    o1 = o1[3 + payload_len :=
                           gxfp_goodix_proto_checksum_k cmd decl_len payload payload_len]
                in (int total, Some o1))"

subsection \<open>Userspace\<close>

definition gxfp_goodix_proto_checksum :: "u8 \<Rightarrow> u16 \<Rightarrow> ptr \<Rightarrow> nat \<Rightarrow> u8" where
  "gxfp_goodix_proto_checksum cmd decl_len payload payload_len =
    (let sum = (ucast cmd :: u32) + ucast (decl_len AND 0xff) + ucast (drop_bit 8 decl_len AND 0xff);
         sum = foldl (\<lambda>sum b. sum + ucast b) sum (ptr_bytes payload payload_len)
     in 0xaa - ucast sum)"

definition gxfp_goodix_build_frame ::
  "u8 \<Rightarrow> ptr \<Rightarrow> nat \<Rightarrow> ptr \<Rightarrow> nat \<Rightarrow> int \<times> ptr" where
  "gxfp_goodix_build_frame cmd payload payload_len out out_cap =
    (case out of
       None \<Rightarrow> (- EINVAL, out)
     | Some o1 \<Rightarrow>
         if payload_len \<noteq> 0 \<and> payload = None then (- EINVAL, out)
         else if payload_len > GOODIX_PAYLOAD_MAX then (- EOVERFLOW, out)
         else
           let decl_len = (of_nat (1 + payload_len) :: u16);
               total = 1 + 2 + payload_len + 1
           in if total > out_cap then (- ENOSPC, out)
              else
                let o1 = o1[0 := cmd];
                    o1 = o1[1 := lo8 decl_len];
                    o1 = o1[2 := hi8 decl_len];
                    o1 = (if payload_len \<noteq> 0
                          then memcpy_at o1 3 (ptr_bytes payload payload_len) else o1);
                    o1 = o1[3 + payload_len :=
                           gxfp_goodix_proto_checksum cmd decl_len payload payload_len]
                in (int total, Some o1))"

definition gxfp_parse_goodix_body ::
  "ptr \<Rightarrow> nat \<Rightarrow> gxfp_frame_parsed option \<Rightarrow> bool \<times> gxfp_frame_parsed option" where
  "gxfp_parse_goodix_body buf buf_len out =
    (case (buf, out) of
       (Some b, Some _) \<Rightarrow>
         if buf_len < 4 then (False, out)
         else
           let cmd = b ! 0;
               decl_len = le16 (b ! 1) (b ! 2)
           in if decl_len < 1 then (False, Some frame_zero)
              else
                let payload_len = decl_len - 1;
                    need = 3 + unat payload_len + 1
                in if need > buf_len then (False, Some frame_zero)
                   else
                     let payload = Some (drop 3 b);
                         proto_ck = b ! (3 + unat payload_len);
                         ok = (gxfp_goodix_proto_checksum cmd decl_len payload
                                 (unat payload_len) = proto_ck)
                     in (True, Some \<lparr>fr_valid = True, fr_proto_checksum_ok = ok, fr_cmd = cmd,
                           fr_decl_len = decl_len, fr_payload = payload,
                           fr_payload_len = payload_len, fr_proto_checksum = proto_ck\<rparr>)
     | _ \<Rightarrow> (False, out))"

section \<open>The checksum\<close>

text \<open>The 32-bit accumulator is truncated at the end, so the checksum is a sum of bytes.\<close>

lemma ucast_foldl_sum:
  "(ucast (foldl (\<lambda>sum b. sum + ucast b) (s :: u32) bs) :: u8) = ucast s + sum_list bs"
proof (induction bs arbitrary: s)
  case Nil
  then show ?case by simp
next
  case (Cons b bs)
  have "(ucast (s + ucast b) :: u8) = ucast s + b"
    by (simp add: ucast_add_down)
  then show ?case using Cons.IH by (simp add: add.assoc)
qed

definition body_checksum :: "u8 \<Rightarrow> u16 \<Rightarrow> bytes \<Rightarrow> u8" where
  "body_checksum cmd dl pl = 0xaa - (cmd + lo8 dl + hi8 dl + sum_list pl)"

lemma checksum_k_eq:
  "gxfp_goodix_proto_checksum_k cmd dl p n = body_checksum cmd dl (ptr_bytes p n)"
proof -
  have "ucast (ucast (dl AND 0xff) :: u32) = lo8 dl"
    "ucast (ucast (drop_bit 8 dl AND 0xff) :: u32) = hi8 dl"
    unfolding lo8_def hi8_def by (rule bit_word_eqI; auto simp: bit_simps le_simps)+
  then show ?thesis
    unfolding gxfp_goodix_proto_checksum_k_def body_checksum_def Let_def ucast_foldl_sum
    by (simp add: ucast_add_down)
qed

lemma checksum_user_eq_kernel:
  "gxfp_goodix_proto_checksum cmd dl p n = gxfp_goodix_proto_checksum_k cmd dl p n"
  by (simp add: gxfp_goodix_proto_checksum_def gxfp_goodix_proto_checksum_k_def)

lemmas checksum_eqs = checksum_k_eq checksum_user_eq_kernel

section \<open>The frame a body designates\<close>

definition body_bytes :: "u8 \<Rightarrow> bytes \<Rightarrow> bytes" where
  "body_bytes cmd pl =
    (let dl = of_nat (1 + length pl)
     in [cmd, lo8 dl, hi8 dl] @ pl @ [body_checksum cmd dl pl])"

definition body_frame :: "u8 \<Rightarrow> bytes \<Rightarrow> bytes \<Rightarrow> gxfp_frame_parsed" where
  "body_frame cmd pl rest =
    (let dl = of_nat (1 + length pl)
     in \<lparr>fr_valid = True, fr_proto_checksum_ok = True, fr_cmd = cmd, fr_decl_len = dl,
         fr_payload = Some (pl @ [body_checksum cmd dl pl] @ rest),
         fr_payload_len = of_nat (length pl), fr_proto_checksum = body_checksum cmd dl pl\<rparr>)"

lemma length_body_bytes [simp]: "length (body_bytes cmd pl) = length pl + 4"
  by (simp add: body_bytes_def Let_def)

lemma body_bytes_sum: "sum_list (body_bytes cmd pl) = 0xaa"
  by (simp add: body_bytes_def body_checksum_def Let_def)

lemma unat_of_nat_u16: "n < 65536 \<Longrightarrow> unat (of_nat n :: u16) = n"
  by (simp add: unsigned_of_nat take_bit_nat_eq_self)

lemma decl_len_facts:
  assumes "length pl \<le> 0xFF00"
  shows "\<not> (of_nat (1 + length pl) :: u16) < 1"
    and "(of_nat (1 + length pl) :: u16) - 1 = of_nat (length pl)"
    and "unat (of_nat (length pl) :: u16) = length pl"
proof -
  have "unat (of_nat (1 + length pl) :: u16) = 1 + length pl"
    using assms by (intro unat_of_nat_u16) simp
  then show "\<not> (of_nat (1 + length pl) :: u16) < 1"
    by (simp add: word_less_nat_alt)
  show "(of_nat (1 + length pl) :: u16) - 1 = of_nat (length pl)" by simp
  show "unat (of_nat (length pl) :: u16) = length pl"
    using assms by (intro unat_of_nat_u16) simp
qed

text \<open>What a parser must report of a buffer, and when it must accept it.\<close>

definition body_fits :: "bytes \<Rightarrow> nat \<Rightarrow> bool" where
  "body_fits b n \<longleftrightarrow>
     4 \<le> n \<and> 1 \<le> unat (le16 (b ! 1) (b ! 2)) \<and> 3 + unat (le16 (b ! 1) (b ! 2)) \<le> n"

definition body_view :: "bytes \<Rightarrow> gxfp_frame_parsed" where
  "body_view b =
    (let dl = le16 (b ! 1) (b ! 2); pl = take (unat dl - 1) (drop 3 b); ck = b ! (2 + unat dl)
     in \<lparr>fr_valid = True, fr_proto_checksum_ok = (body_checksum (b ! 0) dl pl = ck),
         fr_cmd = b ! 0, fr_decl_len = dl, fr_payload = Some (drop 3 b),
         fr_payload_len = dl - 1, fr_proto_checksum = ck\<rparr>)"

lemma unat_minus_1: "1 \<le> unat (w :: u16) \<Longrightarrow> unat (w - 1) = unat w - 1"
  by (subst unat_sub) (simp_all add: word_le_nat_alt)

lemma body_view_raw:
  assumes "length q \<le> 0xFF00" and dl: "dl = of_nat (1 + length q)"
  shows "body_view (cmd # lo8 dl # hi8 dl # q @ c # rest) =
      \<lparr>fr_valid = True, fr_proto_checksum_ok = (body_checksum cmd dl q = c), fr_cmd = cmd,
       fr_decl_len = dl, fr_payload = Some (q @ c # rest), fr_payload_len = of_nat (length q),
       fr_proto_checksum = c\<rparr>"
    and "length q + 4 \<le> n \<Longrightarrow> body_fits (cmd # lo8 dl # hi8 dl # q @ c # rest) n"
proof -
  have u: "unat dl = 1 + length q"
    unfolding dl using assms(1) by (intro unat_of_nat_u16) simp
  have d: "dl - 1 = of_nat (length q)" by (simp add: dl)
  show "body_view (cmd # lo8 dl # hi8 dl # q @ c # rest) =
      \<lparr>fr_valid = True, fr_proto_checksum_ok = (body_checksum cmd dl q = c), fr_cmd = cmd,
       fr_decl_len = dl, fr_payload = Some (q @ c # rest), fr_payload_len = of_nat (length q),
       fr_proto_checksum = c\<rparr>"
    by (simp add: body_view_def Let_def u d nth_append)
  show "length q + 4 \<le> n \<Longrightarrow> body_fits (cmd # lo8 dl # hi8 dl # q @ c # rest) n"
    by (simp add: body_fits_def u)
qed

lemma body_view_bytes:
  assumes "length pl \<le> 0xFF00"
  shows "body_view (body_bytes cmd pl @ rest) = body_frame cmd pl rest"
    and "length pl + 4 \<le> n \<Longrightarrow> body_fits (body_bytes cmd pl @ rest) n"
  using body_view_raw [OF assms refl]
  by (simp_all add: body_bytes_def body_frame_def Let_def)

section \<open>The interface of a body codec\<close>

text \<open>
  What the callers of either implementation rely on: building writes exactly the frame's bytes at
  the front of the output buffer and nothing behind them; parsing accepts exactly the buffers that
  hold the declared frame and reports it.
\<close>

locale body_codec =
  fixes build :: "u8 \<Rightarrow> ptr \<Rightarrow> nat \<Rightarrow> ptr \<Rightarrow> nat \<Rightarrow> int \<times> ptr"
    and parse :: "ptr \<Rightarrow> nat \<Rightarrow> gxfp_frame_parsed option \<Rightarrow> bool \<times> gxfp_frame_parsed option"
  assumes build_frame:
    "length pl \<le> 0xFF00 \<Longrightarrow> length pl + 4 \<le> cap \<Longrightarrow> cap \<le> length out \<Longrightarrow>
     build cmd (Some pl) (length pl) (Some out) cap =
       (int (length pl + 4), Some (memcpy_at out 0 (body_bytes cmd pl)))"
    and parse_accepts:
    "body_fits b n \<Longrightarrow> parse (Some b) n (Some f) = (True, Some (body_view b))"
    and parse_rejects: "\<not> body_fits b n \<Longrightarrow> \<not> fst (parse (Some b) n (Some f))"
begin

lemma build_then_parse:
  assumes "length pl \<le> 0xFF00" and "length pl + 4 \<le> cap" and "cap \<le> length out"
  shows "\<exists>out'. build cmd (Some pl) (length pl) (Some out) cap = (int (length pl + 4), Some out') \<and>
           length out' = length out \<and>
           parse (Some out') (length pl + 4) (Some f) =
             (True, Some (body_frame cmd pl (drop (length pl + 4) out)))"
proof -
  let ?out = "memcpy_at out 0 (body_bytes cmd pl)"
  have "?out = body_bytes cmd pl @ drop (length pl + 4) out"
    by (simp add: memcpy_at_0)
  moreover have "length ?out = length out" using assms by simp
  ultimately show ?thesis
    using build_frame [OF assms] parse_accepts body_view_bytes [OF assms(1)] by simp
qed

text \<open>One altered payload byte always shows in the checksum verdict.\<close>

lemma altered_byte_detected:
  assumes "length pl \<le> 0xFF00" and "i < length pl" and "x \<noteq> pl ! i"
    and "length pl + 4 \<le> n"
  shows "\<exists>g. parse (Some ((body_bytes cmd pl)[3 + i := x])) n (Some f) = (True, Some g) \<and>
           \<not> fr_proto_checksum_ok g"
proof -
  let ?dl = "of_nat (1 + length pl) :: u16"
  have b: "(body_bytes cmd pl)[3 + i := x] =
      cmd # lo8 ?dl # hi8 ?dl # pl[i := x] @ body_checksum cmd ?dl pl # []"
    using assms(2) by (simp add: body_bytes_def Let_def list_update_append numeral_eq_Suc)
  have "body_checksum cmd ?dl (pl[i := x]) \<noteq> body_checksum cmd ?dl pl"
    using assms(2,3) by (simp add: body_checksum_def sum_list_upd_group)
  moreover have len: "length (pl[i := x]) \<le> 0xFF00" using assms(1) by simp
  ultimately show ?thesis
    using body_view_raw [OF len, of ?dl] assms(4) parse_accepts unfolding b by simp
qed

text \<open>Whatever is accepted, the reported payload and its checksum byte lie inside the buffer.\<close>

lemma accepted_in_bounds:
  assumes "parse (Some b) n (Some f) = (True, Some g)"
  shows "unat (fr_payload_len g) + 4 \<le> n \<and> fr_payload g = Some (drop 3 b)"
proof -
  have "body_fits b n" using assms parse_rejects [of b n f] by auto
  moreover from this have "g = body_view b" using assms parse_accepts [of b n f] by simp
  ultimately show ?thesis by (auto simp: body_fits_def body_view_def Let_def unat_minus_1)
qed

end

lemma parse_k_eq:
  "gxfp_parse_goodix_body_k (Some b) n (Some f) =
    (if body_fits b n then (True, Some (body_view b))
     else (False, if n < 4 then Some f else Some frame_zero))"
proof -
  let ?dl = "le16 (b ! 1) (b ! 2)"
  have z: "?dl < 1 \<longleftrightarrow> unat ?dl < 1" by (simp add: word_less_nat_alt)
  show ?thesis
  proof (cases "1 \<le> unat ?dl")
    case True
    then have "3 + unat (?dl - 1) = 2 + unat ?dl" and "unat (?dl - 1) = unat ?dl - 1"
      by (simp_all add: unat_minus_1)
    then show ?thesis using True z
      by (simp add: gxfp_parse_goodix_body_k_def body_fits_def body_view_def Let_def checksum_k_eq)
  next
    case False
    then show ?thesis using z
      by (simp add: gxfp_parse_goodix_body_k_def body_fits_def Let_def)
  qed
qed

lemma parse_user_eq_kernel: "gxfp_parse_goodix_body p n f = gxfp_parse_goodix_body_k p n f"
  by (simp add: gxfp_parse_goodix_body_def gxfp_parse_goodix_body_k_def checksum_user_eq_kernel
      Let_def split: option.split)


section \<open>The two implementations meet the interface\<close>

lemma build_stores:
  assumes "length pl + 4 \<le> length out" and "dl = of_nat (1 + length pl)"
  shows "(memcpy_at (out[0 := cmd, 1 := lo8 dl, 2 := hi8 dl]) 3 pl)
           [3 + length pl := body_checksum cmd dl pl] = memcpy_at out 0 (body_bytes cmd pl)"
proof (rule nth_equalityI)
  let ?o1 = "out[0 := cmd, 1 := lo8 dl, 2 := hi8 dl]"
  have l: "length (memcpy_at ?o1 3 pl) = length out" using assms(1) by simp
  then show "length ((memcpy_at ?o1 3 pl)[3 + length pl := body_checksum cmd dl pl]) =
      length (memcpy_at out 0 (body_bytes cmd pl))" using assms(1) by simp
  fix i assume "i < length ((memcpy_at ?o1 3 pl)[3 + length pl := body_checksum cmd dl pl])"
  then have i: "i < length out" using l by simp
  have b: "body_bytes cmd pl = cmd # lo8 dl # hi8 dl # pl @ [body_checksum cmd dl pl]"
    by (simp add: body_bytes_def assms(2) Let_def)
  have "i = 0 \<or> i = 1 \<or> i = 2 \<or> (\<exists>k. i = 3 + k)" by presburger
  then consider "i = 0" | "i = 1" | "i = 2" | k where "i = 3 + k" "k < length pl"
    | "i = 3 + length pl" | "3 + length pl < i"
    by (metis linorder_neqE_nat nat_add_left_cancel_less)
  then show "(memcpy_at ?o1 3 pl)[3 + length pl := body_checksum cmd dl pl] ! i =
      memcpy_at out 0 (body_bytes cmd pl) ! i"
    using assms(1) i
    by cases (simp_all add: nth_memcpy_at nth_list_update b nth_append l numeral_eq_Suc)
qed

lemma build_k_eq:
  assumes "length pl \<le> 0xFF00" and "length pl + 4 \<le> cap" and "cap \<le> length out"
  shows "gxfp_goodix_build_frame_k cmd (Some pl) (length pl) (Some out) cap =
       (int (length pl + 4), Some (memcpy_at out 0 (body_bytes cmd pl)))"
  using assms build_stores [of pl out "of_nat (1 + length pl)" cmd]
  by (cases "pl = []")
     (simp_all add: gxfp_goodix_build_frame_k_def GXFP_GOODIX_PAYLOAD_U16_MAX_def Let_def checksum_eqs)

lemma build_user_eq:
  assumes "length pl \<le> 0xFF00" and "length pl + 4 \<le> cap" and "cap \<le> length out"
  shows "gxfp_goodix_build_frame cmd (Some pl) (length pl) (Some out) cap =
       (int (length pl + 4), Some (memcpy_at out 0 (body_bytes cmd pl)))"
  using assms build_stores [of pl out "of_nat (1 + length pl)" cmd]
  by (cases "pl = []")
     (simp_all add: gxfp_goodix_build_frame_def GOODIX_PAYLOAD_MAX_def Let_def checksum_eqs)

lemma build_user_NULL:
  assumes "4 \<le> cap" and "cap \<le> length out"
  shows "gxfp_goodix_build_frame cmd None 0 (Some out) cap =
       (4, Some (memcpy_at out 0 (body_bytes cmd [])))"
  using assms build_stores [of "[]" out 1 cmd]
  by (simp add: gxfp_goodix_build_frame_def GOODIX_PAYLOAD_MAX_def Let_def checksum_eqs)

interpretation kbody: body_codec gxfp_goodix_build_frame_k gxfp_parse_goodix_body_k
  by unfold_locales (simp_all only: build_k_eq, simp_all add: parse_k_eq)

interpretation ubody: body_codec gxfp_goodix_build_frame gxfp_parse_goodix_body
  by unfold_locales (simp_all only: build_user_eq, simp_all add: parse_user_eq_kernel parse_k_eq)

section \<open>Properties\<close>

text \<open>C12: Both ends of the wire agree. A body built by the userspace library is parsed by the
  kernel to the same command and payload with a good checksum, and a body built by the kernel is
  parsed so by the library; the bytes behind the frame are left as they were.\<close>

theorem goodix_body_roundtrip:
  assumes "length pl \<le> 0xFF00" and "length pl + 4 \<le> cap" and "cap \<le> length out"
  shows "(\<exists>out'. gxfp_goodix_build_frame cmd (Some pl) (length pl) (Some out) cap =
                  (int (length pl + 4), Some out') \<and>
           drop (length pl + 4) out' = drop (length pl + 4) out \<and>
           gxfp_parse_goodix_body_k (Some out') (length pl + 4) (Some f) =
             (True, Some (body_frame cmd pl (drop (length pl + 4) out)))) \<and>
         (\<exists>out'. gxfp_goodix_build_frame_k cmd (Some pl) (length pl) (Some out) cap =
                  (int (length pl + 4), Some out') \<and>
           drop (length pl + 4) out' = drop (length pl + 4) out \<and>
           gxfp_parse_goodix_body (Some out') (length pl + 4) (Some f) =
             (True, Some (body_frame cmd pl (drop (length pl + 4) out))))"
  using kbody.build_then_parse [OF assms, of cmd f] ubody.build_then_parse [OF assms, of cmd f]
    kbody.build_frame [OF assms, of cmd] ubody.build_frame [OF assms, of cmd]
  by (simp add: parse_user_eq_kernel memcpy_at_0)

theorem goodix_body_roundtrip_witness:
  "\<exists>out'. gxfp_goodix_build_frame 0x82 (Some [0, 1]) 2 (Some (zeros 8)) 8 = (6, Some out') \<and>
     gxfp_parse_goodix_body_k (Some out') 6 (Some frame_zero) =
       (True, Some (body_frame 0x82 [0, 1] (zeros 2)))"
  using goodix_body_roundtrip [of "[0, 1]" 8 "zeros 8" "0x82" frame_zero]
  by (auto simp: zeros_def numeral_2_eq_2)

text \<open>C23: A single corrupted payload byte never passes: whatever byte of the payload is replaced
  by another value, both parsers still delimit the body and both report a bad checksum.\<close>

theorem goodix_corruption_detected:
  assumes "length pl \<le> 0xFF00" and "i < length pl" and "x \<noteq> pl ! i"
  shows "(\<exists>g. gxfp_parse_goodix_body_k (Some ((body_bytes cmd pl)[3 + i := x])) (length pl + 4)
                (Some f) = (True, Some g) \<and> \<not> fr_proto_checksum_ok g) \<and>
         (\<exists>g. gxfp_parse_goodix_body (Some ((body_bytes cmd pl)[3 + i := x])) (length pl + 4)
                (Some f) = (True, Some g) \<and> \<not> fr_proto_checksum_ok g)"
  using kbody.altered_byte_detected [OF assms order.refl]
    ubody.altered_byte_detected [OF assms order.refl] by blast

theorem goodix_corruption_detected_witness:
  "\<exists>g. gxfp_parse_goodix_body (Some ((body_bytes 0x32 [5, 6, 7])[3 + 1 := 9])) 7
          (Some frame_zero) = (True, Some g) \<and> \<not> fr_proto_checksum_ok g"
  using goodix_corruption_detected [of "[5, 6, 7]" 1 9 "0x32" frame_zero] by simp

end
