(* ===== verification/Mp_Proto.thy ===== *)
theory Mp_Proto
  imports Gxfp_Prelude
begin

unbundle bit_operations_syntax

text \<open>
  The MP package framing of \<open>kernel/proto/gxfp_mp_proto.c\<close>: a four-byte head
  \<open>flags, len_lo, len_hi, head checksum\<close> in front of the payload. The upper nibble of
  \<open>flags\<close> is the package type. The theory shows which buffers the head check accepts, that a
  parsed payload stays inside its buffer, and that what the builder emits is parsed back for every
  length below the limit (and rejected at the limit itself, which the builder still accepts).
\<close>

section \<open>Definitions\<close>

definition GXFP_GOODIX_MP_LEN_MAX :: nat where
  "GXFP_GOODIX_MP_LEN_MAX = 0x6c00"

definition GXFP_MP_TYPE_A :: u8 where
  "GXFP_MP_TYPE_A = 0xA"

definition GXFP_MP_TYPE_B :: u8 where
  "GXFP_MP_TYPE_B = 0xB"

definition GXFP_MP_TYPE_C :: u8 where
  "GXFP_MP_TYPE_C = 0xC"

lemmas mp_type_defs = GXFP_MP_TYPE_A_def GXFP_MP_TYPE_B_def GXFP_MP_TYPE_C_def

record gxfp_mp_frame_parsed =
  mp_valid :: bool
  mp_flags :: u8
  mp_payload_len :: u16
  mp_payload :: ptr

definition mp_frame_zero :: gxfp_mp_frame_parsed where
  "mp_frame_zero = \<lparr>mp_valid = False, mp_flags = 0, mp_payload_len = 0, mp_payload = None\<rparr>"

definition gxfp_check_mp_head :: "ptr \<Rightarrow> nat \<Rightarrow> u16 option \<Rightarrow> bool \<times> u16 option" where
  "gxfp_check_mp_head buf buf_len out_mp_len =
    (let out0 = map_option (\<lambda>_. 0) out_mp_len
     in case buf of
          None \<Rightarrow> (False, out0)
        | Some b \<Rightarrow>
            if buf_len < 4 then (False, out0)
            else
              let flags = b ! 0;
                  type = drop_bit 4 flags
              in if type \<noteq> GXFP_MP_TYPE_A \<and> type \<noteq> GXFP_MP_TYPE_B \<and> type \<noteq> GXFP_MP_TYPE_C
                 then (False, out0)
                 else
                   let mp_len = le16 (b ! 1) (b ! 2)
                   in if of_nat GXFP_GOODIX_MP_LEN_MAX \<le> mp_len then (False, out0)
                      else
                        let ck_expect = flags + b ! 1 + b ! 2
                        in if b ! 3 \<noteq> ck_expect then (False, out0)
                           else (True, map_option (\<lambda>_. mp_len) out_mp_len))"

definition gxfp_parse_mp_frame ::
  "ptr \<Rightarrow> nat \<Rightarrow> gxfp_mp_frame_parsed option \<Rightarrow> bool \<times> gxfp_mp_frame_parsed option" where
  "gxfp_parse_mp_frame buf buf_len out =
    (case (out, buf) of
       (Some _, Some b) \<Rightarrow>
         if buf_len < 4 then (False, out)
         else
           (case gxfp_check_mp_head buf 4 (Some 0) of
              (True, Some mp_len) \<Rightarrow>
                let total = 4 + unat mp_len
                in if total > buf_len then (False, Some mp_frame_zero)
                   else (True, Some \<lparr>mp_valid = True, mp_flags = b ! 0, mp_payload_len = mp_len,
                                  mp_payload = Some (drop 4 b)\<rparr>)
            | _ \<Rightarrow> (False, Some mp_frame_zero))
     | _ \<Rightarrow> (False, out))"

definition gxfp_mp_build_frame ::
  "u8 \<Rightarrow> ptr \<Rightarrow> nat \<Rightarrow> ptr \<Rightarrow> nat \<Rightarrow> int \<times> ptr" where
  "gxfp_mp_build_frame mp_type payload payload_len out out_cap =
    (case out of
       None \<Rightarrow> (- EINVAL, out)
     | Some o1 \<Rightarrow>
         if out_cap < 4 then (- EINVAL, out)
         else if payload_len \<noteq> 0 \<and> payload = None then (- EINVAL, out)
         else if payload_len > GXFP_GOODIX_MP_LEN_MAX then (- EOVERFLOW, out)
         else if mp_type \<noteq> GXFP_MP_TYPE_A \<and> mp_type \<noteq> GXFP_MP_TYPE_B \<and> mp_type \<noteq> GXFP_MP_TYPE_C
           then (- EINVAL, out)
         else
           let mp_len = (of_nat payload_len :: u16);
               total = 4 + payload_len
           in if total > out_cap then (- EMSGSIZE, out)
              else
                let flags = push_bit 4 mp_type;
                    o1 = o1[0 := flags];
                    o1 = o1[1 := lo8 mp_len];
                    o1 = o1[2 := hi8 mp_len];
                    o1 = o1[3 := o1 ! 0 + o1 ! 1 + o1 ! 2];
                    o1 = (if payload_len \<noteq> 0
                          then memcpy_at o1 4 (ptr_bytes payload payload_len) else o1)
                in (int total, Some o1))"

section \<open>Accepted heads\<close>

definition mp_type_ok :: "u8 \<Rightarrow> bool" where
  "mp_type_ok t \<longleftrightarrow> t = GXFP_MP_TYPE_A \<or> t = GXFP_MP_TYPE_B \<or> t = GXFP_MP_TYPE_C"

definition mp_head_ok :: "bytes \<Rightarrow> bool" where
  "mp_head_ok b \<longleftrightarrow> mp_type_ok (drop_bit 4 (b ! 0)) \<and>
     unat (le16 (b ! 1) (b ! 2)) < GXFP_GOODIX_MP_LEN_MAX \<and> b ! 3 = b ! 0 + b ! 1 + b ! 2"

text \<open>The bytes of a package.\<close>

definition mp_head :: "u8 \<Rightarrow> nat \<Rightarrow> bytes" where
  "mp_head flags n =
    (let l = of_nat n in [flags, lo8 l, hi8 l, flags + lo8 l + hi8 l])"

definition mp_bytes :: "u8 \<Rightarrow> bytes \<Rightarrow> bytes" where
  "mp_bytes flags pl = mp_head flags (length pl) @ pl"

definition mp_view :: "bytes \<Rightarrow> gxfp_mp_frame_parsed" where
  "mp_view b = \<lparr>mp_valid = True, mp_flags = b ! 0, mp_payload_len = le16 (b ! 1) (b ! 2),
     mp_payload = Some (drop 4 b)\<rparr>"

lemma length_mp_head [simp]: "length (mp_head f n) = 4"
  by (simp add: mp_head_def Let_def)

lemma length_mp_bytes [simp]: "length (mp_bytes f pl) = 4 + length pl"
  by (simp add: mp_bytes_def)

lemma mp_len_le_iff:
  "of_nat GXFP_GOODIX_MP_LEN_MAX \<le> (l :: u16) \<longleftrightarrow> GXFP_GOODIX_MP_LEN_MAX \<le> unat l"
  by (simp add: word_le_nat_alt GXFP_GOODIX_MP_LEN_MAX_def)

lemma check_mp_head_eq:
  "gxfp_check_mp_head (Some b) n (Some l) =
     (if 4 \<le> n \<and> mp_head_ok b then (True, Some (le16 (b ! 1) (b ! 2))) else (False, Some 0))"
  by (auto simp: gxfp_check_mp_head_def mp_head_ok_def mp_type_ok_def Let_def mp_len_le_iff)

lemma parse_mp_frame_eq:
  "gxfp_parse_mp_frame (Some b) n (Some f) =
    (if n < 4 then (False, Some f)
     else if mp_head_ok b \<and> 4 + unat (le16 (b ! 1) (b ! 2)) \<le> n then (True, Some (mp_view b))
     else (False, Some mp_frame_zero))"
  by (auto simp: gxfp_parse_mp_frame_def check_mp_head_eq mp_view_def Let_def)

lemma parse_mp_frame_bounds:
  assumes "gxfp_parse_mp_frame (Some b) n (Some f) = (True, Some g)"
  shows "g = mp_view b" and "mp_head_ok b" and "4 + unat (mp_payload_len g) \<le> n"
  using assms by (auto simp: parse_mp_frame_eq mp_view_def split: if_splits)

lemma unat_of_nat_16: "n < 65536 \<Longrightarrow> unat (of_nat n :: u16) = n"
  by (simp add: unsigned_of_nat take_bit_nat_eq_self)

lemma mp_head_nth [simp]:
  "(mp_bytes f pl @ r) ! 0 = f"
  "(mp_bytes f pl @ r) ! 1 = lo8 (of_nat (length pl))"
  "(mp_bytes f pl @ r) ! Suc 0 = lo8 (of_nat (length pl))"
  "(mp_bytes f pl @ r) ! 2 = hi8 (of_nat (length pl))"
  "(mp_bytes f pl @ r) ! 3 = f + lo8 (of_nat (length pl)) + hi8 (of_nat (length pl))"
  by (simp_all add: mp_bytes_def mp_head_def Let_def)

lemma drop_mp_bytes [simp]: "drop 4 (mp_bytes f pl) = pl"
  by (simp add: mp_bytes_def)

lemma mp_head_ok_bytes:
  assumes "mp_type_ok (drop_bit 4 f)" and "length pl < GXFP_GOODIX_MP_LEN_MAX"
  shows "mp_head_ok (mp_bytes f pl @ r)"
  using assms by (simp add: mp_head_ok_def GXFP_GOODIX_MP_LEN_MAX_def unat_of_nat_16)

lemma parse_mp_bytes:
  assumes "mp_type_ok (drop_bit 4 f)" and "length pl < GXFP_GOODIX_MP_LEN_MAX"
    and "4 + length pl \<le> n"
  shows "gxfp_parse_mp_frame (Some (mp_bytes f pl @ r)) n (Some g) =
    (True, Some \<lparr>mp_valid = True, mp_flags = f, mp_payload_len = of_nat (length pl),
                 mp_payload = Some (pl @ r)\<rparr>)"
  using assms mp_head_ok_bytes [OF assms(1,2), of r]
  by (simp add: parse_mp_frame_eq mp_view_def unat_of_nat_16 GXFP_GOODIX_MP_LEN_MAX_def)

lemma mp_build_frame_eq:
  assumes "mp_type_ok t" and "length pl \<le> GXFP_GOODIX_MP_LEN_MAX" and "4 + length pl \<le> cap"
    and "cap \<le> length out"
  shows "gxfp_mp_build_frame t (Some pl) (length pl) (Some out) cap =
    (int (4 + length pl), Some (memcpy_at out 0 (mp_bytes (push_bit 4 t) pl)))"
proof -
  have "4 \<le> length out" using assms(3,4) by simp
  then obtain a b c d r where out: "out = a # b # c # d # r" by (rule length_ge_4E)
  show ?thesis
    using assms
    by (cases "pl = []")
       (auto simp: gxfp_mp_build_frame_def mp_type_ok_def Let_def out memcpy_at_def mp_bytes_def
         mp_head_def numeral_2_eq_2 numeral_3_eq_3)
qed

lemma type_nibble: "mp_type_ok t \<Longrightarrow> drop_bit 4 (push_bit 4 t) = t"
  by (auto simp: mp_type_ok_def mp_type_defs)

section \<open>Properties\<close>

text \<open>C13: Every package the builder emits below the length limit is parsed back, whatever follows it in memory: the bytes
  behind the package are untouched, and for every tail and every length of the buffer the parser accepts exactly when the buffer covers the package, and then
  reports the flags, of which the upper half is the type and the lower half is zero, the length, and a payload pointer at the
  payload and the tail.\<close>

theorem mp_frame_roundtrip:
  assumes "mp_type_ok t" and "length pl < GXFP_GOODIX_MP_LEN_MAX" and "4 + length pl \<le> cap"
    and "cap \<le> length out"
  shows "\<exists>out' pkg. gxfp_mp_build_frame t (Some pl) (length pl) (Some out) cap =
             (int (4 + length pl), Some out') \<and> length pkg = 4 + length pl \<and> out' = pkg @ drop (4 + length pl) out \<and>
           drop_bit 4 (push_bit 4 t :: u8) = t \<and>
           (\<forall>tail n f. fst (gxfp_parse_mp_frame (Some (pkg @ tail)) n (Some f)) \<longleftrightarrow> 4 + length pl \<le> n) \<and>
           (\<forall>tail n f. 4 + length pl \<le> n \<longrightarrow> gxfp_parse_mp_frame (Some (pkg @ tail)) n (Some f) =
              (True, Some \<lparr>mp_valid = True, mp_flags = push_bit 4 t, mp_payload_len = of_nat (length pl), mp_payload = Some (pl @ tail)\<rparr>) \<and>
              unat (of_nat (length pl) :: u16) = length pl)"
proof (intro exI conjI allI impI)
  let ?pkg = "mp_bytes (push_bit 4 t) pl"
  have ok: "mp_type_ok (drop_bit 4 (push_bit 4 t :: u8))" using assms(1) by (simp add: type_nibble)
  show "gxfp_mp_build_frame t (Some pl) (length pl) (Some out) cap = (int (4 + length pl), Some (?pkg @ drop (4 + length pl) out))"
    using mp_build_frame_eq [of t pl cap out] assms by (simp add: memcpy_at_0)
  show "drop_bit 4 (push_bit 4 t :: u8) = t" using assms(1) by (rule type_nibble)
  show "fst (gxfp_parse_mp_frame (Some (?pkg @ tail)) n (Some f)) \<longleftrightarrow> 4 + length pl \<le> n" for tail n f
    using mp_head_ok_bytes [OF ok assms(2), of tail] assms(2) by (simp add: parse_mp_frame_eq unat_of_nat_16 GXFP_GOODIX_MP_LEN_MAX_def)
  show "gxfp_parse_mp_frame (Some (?pkg @ tail)) n (Some f) =
      (True, Some \<lparr>mp_valid = True, mp_flags = push_bit 4 t, mp_payload_len = of_nat (length pl), mp_payload = Some (pl @ tail)\<rparr>)"
    if "4 + length pl \<le> n" for tail n f
    by (rule parse_mp_bytes [OF ok assms(2) that])
  show "unat (of_nat (length pl) :: u16) = length pl" using assms(2) by (simp add: unat_of_nat_16 GXFP_GOODIX_MP_LEN_MAX_def)
qed simp_all

theorem mp_frame_roundtrip_witness:
  "\<exists>out' pkg. gxfp_mp_build_frame 0xA (Some [1, 2, 3]) 3 (Some (zeros 16)) 16 = (7, Some out') \<and> out' = pkg @ zeros 9 \<and>
     gxfp_parse_mp_frame (Some (pkg @ [9, 9])) 9 (Some mp_frame_zero) =
       (True, Some \<lparr>mp_valid = True, mp_flags = 0xA0, mp_payload_len = 3, mp_payload = Some [1, 2, 3, 9, 9]\<rparr>)"
proof -
  have t: "mp_type_ok 0xA" "length [1, 2, 3 :: u8] < GXFP_GOODIX_MP_LEN_MAX" "4 + length [1, 2, 3 :: u8] \<le> 16" "16 \<le> length (zeros 16)"
    by (simp_all add: mp_type_ok_def mp_type_defs GXFP_GOODIX_MP_LEN_MAX_def)
  obtain out' pkg where r: "gxfp_mp_build_frame 0xA (Some [1, 2, 3]) (length [1, 2, 3 :: u8]) (Some (zeros 16)) 16 =
      (int (4 + length [1, 2, 3 :: u8]), Some out')" "out' = pkg @ drop (4 + length [1, 2, 3 :: u8]) (zeros 16)"
    "gxfp_parse_mp_frame (Some (pkg @ [9, 9])) 9 (Some mp_frame_zero) =
      (True, Some \<lparr>mp_valid = True, mp_flags = push_bit 4 0xA, mp_payload_len = of_nat (length [1, 2, 3 :: u8]), mp_payload = Some ([1, 2, 3] @ [9, 9])\<rparr>)"
    using mp_frame_roundtrip [OF t] by auto
  show ?thesis using r by (intro exI [of _ out'] exI [of _ pkg]) (simp add: numeral_3_eq_3 zeros_def)
qed

text \<open>The length limit is read differently by the two sides of the module: a package of
  exactly \<open>GXFP_GOODIX_MP_LEN_MAX\<close> payload bytes is built without error, and the head check of
  the same module then rejects it.\<close>

theorem mp_limit_length_rejected:
  assumes "mp_type_ok t" and "length pl = GXFP_GOODIX_MP_LEN_MAX"
    and "4 + length pl \<le> length out"
  shows "\<exists>out'. gxfp_mp_build_frame t (Some pl) (length pl) (Some out) (length out) =
             (int (4 + length pl), Some out') \<and>
           \<not> fst (gxfp_parse_mp_frame (Some out') (length out') (Some f))"
proof -
  let ?out = "memcpy_at out 0 (mp_bytes (push_bit 4 t) pl)"
  have "?out = mp_bytes (push_bit 4 t) pl @ drop (4 + length pl) out"
    by (simp add: memcpy_at_0)
  then have "\<not> mp_head_ok ?out"
    using assms(2) by (simp add: mp_head_ok_def unat_of_nat_16 GXFP_GOODIX_MP_LEN_MAX_def)
  then show ?thesis
    using mp_build_frame_eq [of t pl "length out" out] assms by (simp add: parse_mp_frame_eq)
qed

theorem mp_limit_length_rejected_witness:
  "\<exists>out'. gxfp_mp_build_frame 0xB (Some (zeros 0x6c00)) 0x6c00 (Some (zeros 0x6c04)) 0x6c04 =
       (0x6c04, Some out') \<and>
     \<not> fst (gxfp_parse_mp_frame (Some out') (length out') (Some mp_frame_zero))"
  using mp_limit_length_rejected [of "0xB" "zeros 0x6c00" "zeros 0x6c04" mp_frame_zero]
  by (simp add: mp_type_ok_def mp_type_defs GXFP_GOODIX_MP_LEN_MAX_def)

end
