(* ===== verification/Kernel_Hw.thy ===== *)
theory Kernel_Hw
  imports Gxfp_Prelude
begin

unbundle bit_operations_syntax

text \<open>
  The hardware layer of the kernel module (\<open>kernel/hw/\<close>) and the state all kernel theories share.

  \<open>gxfp_dev\<close> is \<open>struct gxfp_dev\<close> of \<open>kernel/include/gxfp_priv.h\<close>; a descriptor or mapping
  pointer is a boolean that says whether it is non-NULL. The world outside the module is seen in
  two ways. Everything the module does to it is an event in the history \<open>kev\<close> (newest first):
  register accesses, GPIO levels, delays, allocations, locks, log calls. Everything the world
  answers is an oracle in \<open>kenv\<close> that may depend on that whole history: the value a register
  read returns, whether an allocation succeeds, the contents of fresh memory, the clocks. A
  function of the module is a function of its arguments and the state that returns its result and
  the next state. Debug and warning messages have no event.
\<close>

section \<open>State and environment\<close>

record gxfp_dev =
  mailbox_seq16 :: u32
  mailbox_mmio :: bool
  mailbox_size :: nat
  gpio_write_done :: bool
  gpio_read_done :: bool
  gpio_irq :: bool
  hw_irq :: int
  irq_rx_buf :: ptr
  irq_rx_cap :: nat
  irq_rx_tmp :: ptr
  assem_active :: bool
  assem_total :: nat
  assem_copied :: nat
  misc_registered :: bool
  rxq_fifo :: bytes
  rxq_buf :: bool
  rxq_inited :: bool
  rxq_reader_open :: bool

datatype klock = DevLock | RxqMutex | RxqLock

datatype kevent =
    EvReadq nat
  | EvWriteq nat u64
  | EvWriteDone bool
  | EvReadDone bool
  | EvUdelay nat
  | EvUsleepRange nat nat
  | EvMsleep nat
  | EvKmalloc nat
  | EvKfree nat
  | EvTrace string
  | EvLock klock
  | EvUnlock klock
  | EvWakeUp
  | EvPollWait
  | EvWaitEvent
  | EvMiscRegister
  | EvMiscDeregister
  | EvTraceInit
  | EvTraceExit
  | EvIrqSetType int
  | EvIrqRequest int
  | EvIrqEnable int
  | EvIrqDisable int
  | EvIrqSync int
  | EvCopyToUser bytes

record kenv =
  env_readq :: "kevent list \<Rightarrow> nat \<Rightarrow> u64"
  env_kmalloc :: "kevent list \<Rightarrow> nat \<Rightarrow> bool"
  env_garbage :: "kevent list \<Rightarrow> nat \<Rightarrow> u8"
  env_ktime_ns :: "kevent list \<Rightarrow> u64"
  env_real_ts :: "kevent list \<Rightarrow> int \<times> int"
  env_capable :: "kevent list \<Rightarrow> bool"
  env_copy_user_fails :: "kevent list \<Rightarrow> bool"
  env_lock_interrupted :: "kevent list \<Rightarrow> int"
  env_misc_register :: "kevent list \<Rightarrow> int"
  env_kfifo_init :: "kevent list \<Rightarrow> int"

record kst =
  kdev :: gxfp_dev
  kev :: "kevent list"

definition ev :: "kevent \<Rightarrow> kst \<Rightarrow> kst" where
  "ev e s = s\<lparr>kev := e # kev s\<rparr>"

definition upd_dev :: "(gxfp_dev \<Rightarrow> gxfp_dev) \<Rightarrow> kst \<Rightarrow> kst" where
  "upd_dev f s = s\<lparr>kdev := f (kdev s)\<rparr>"

text \<open>The contents of memory that has been allocated and not yet written.\<close>

definition fresh :: "kenv \<Rightarrow> kevent list \<Rightarrow> nat \<Rightarrow> bytes" where
  "fresh env h n = map (env_garbage env h) [0..<n]"

text \<open>\<open>kmalloc (n)\<close>: NULL, or a block with arbitrary contents.\<close>

definition kmalloc :: "kenv \<Rightarrow> nat \<Rightarrow> kst \<Rightarrow> ptr \<times> kst" where
  "kmalloc env n s =
    (if env_kmalloc env (kev s) n
     then (Some (fresh env (kev s) n), ev (EvKmalloc n) s)
     else (None, s))"

definition kfree :: "nat \<Rightarrow> kst \<Rightarrow> kst" where
  "kfree n s = ev (EvKfree n) s"

text \<open>\<open>gxfp_trace_logf\<close> as its callers see it: the call is recorded under its format tag. What
  the call does to the trace ring is the subject of the theory \<open>Kernel_Trace\<close>.\<close>

definition trace_logf :: "string \<Rightarrow> kst \<Rightarrow> kst" where
  "trace_logf tag s = ev (EvTrace tag) s"

definition lock :: "klock \<Rightarrow> kst \<Rightarrow> kst" where
  "lock l s = ev (EvLock l) s"

definition unlock :: "klock \<Rightarrow> kst \<Rightarrow> kst" where
  "unlock l s = ev (EvUnlock l) s"

section \<open>Delays (\<open>gxfp_delay.c\<close>)\<close>

definition gxfp_busy_wait_us :: "nat \<Rightarrow> kst \<Rightarrow> kst" where
  "gxfp_busy_wait_us us s =
    (if us = 0 then s
     else if us \<le> 2000 then ev (EvUdelay us) s
     else ev (EvUsleepRange us (us + 200)) s)"

section \<open>GPIO lines (\<open>gxfp_gpio.c\<close>)\<close>

definition GXFP_GPIO_PULSE_HIGH_US :: nat where
  "GXFP_GPIO_PULSE_HIGH_US = 4000"

definition GXFP_GPIO_READ_DONE_CLEAR_DELAY_US :: nat where
  "GXFP_GPIO_READ_DONE_CLEAR_DELAY_US = 200"

definition GXFP_GPIO_READ_DONE_HIGH_US :: nat where
  "GXFP_GPIO_READ_DONE_HIGH_US = 50"

definition GXFP_GPIO_WRITE_DONE_PRE_US :: nat where
  "GXFP_GPIO_WRITE_DONE_PRE_US = 50"

text \<open>\<open>gpiod_set_value_cansleep\<close> on the two done lines; a NULL descriptor is ignored.\<close>

definition gpiod_set_write_done :: "bool \<Rightarrow> kst \<Rightarrow> kst" where
  "gpiod_set_write_done v s = (if gpio_write_done (kdev s) then ev (EvWriteDone v) s else s)"

definition gpiod_set_read_done :: "bool \<Rightarrow> kst \<Rightarrow> kst" where
  "gpiod_set_read_done v s = (if gpio_read_done (kdev s) then ev (EvReadDone v) s else s)"

definition gxfp_gpio_pulse_delay_us :: "nat \<Rightarrow> kst \<Rightarrow> kst" where
  "gxfp_gpio_pulse_delay_us us s = (if us \<noteq> 0 then gxfp_busy_wait_us us s else s)"

definition gxfp_gpio_pulse_write_done :: "kst \<Rightarrow> kst" where
  "gxfp_gpio_pulse_write_done s =
    (let s = (if gpio_write_done (kdev s)
              then gxfp_gpio_pulse_delay_us GXFP_GPIO_WRITE_DONE_PRE_US
                     (gpiod_set_write_done False s)
              else s);
         s = gpiod_set_write_done True s;
         s = gxfp_gpio_pulse_delay_us GXFP_GPIO_PULSE_HIGH_US s;
         s = gpiod_set_write_done False s
     in gxfp_gpio_pulse_delay_us GXFP_GPIO_READ_DONE_CLEAR_DELAY_US s)"

definition gxfp_gpio_set_read_done :: "bool \<Rightarrow> kst \<Rightarrow> kst" where
  "gxfp_gpio_set_read_done v s =
    (if \<not> gpio_read_done (kdev s) then s
     else
       let s = gpiod_set_read_done v s
       in if \<not> v then gxfp_gpio_pulse_delay_us GXFP_GPIO_READ_DONE_CLEAR_DELAY_US s else s)"

definition gxfp_gpio_pulse_read_done :: "kst \<Rightarrow> kst" where
  "gxfp_gpio_pulse_read_done s =
    (let s = gxfp_gpio_set_read_done True s;
         s = gxfp_gpio_pulse_delay_us GXFP_GPIO_READ_DONE_HIGH_US s
     in gxfp_gpio_set_read_done False s)"

definition gxfp_gpio_force_done_deassert :: "kst \<Rightarrow> kst" where
  "gxfp_gpio_force_done_deassert s =
    (if \<not> gpio_write_done (kdev s) \<or> \<not> gpio_read_done (kdev s) then s
     else gpiod_set_read_done False (gpiod_set_write_done False s))"

section \<open>Mailbox registers (\<open>gxfp_mmio.c\<close>)\<close>

text \<open>\<open>for (i = 0; i < qwords; i++) writeq (v, mmio + i * 8)\<close>, \<open>v\<close> the eight bytes at
  \<open>buf + i * 8\<close>.\<close>

fun write_qwords :: "nat \<Rightarrow> nat \<Rightarrow> bytes \<Rightarrow> kst \<Rightarrow> kst" where
  "write_qwords 0 off buf s = s"
| "write_qwords (Suc n) off buf s =
     write_qwords n (off + 8) (drop 8 buf) (ev (EvWriteq off (le64_word buf)) s)"

definition gxfp_mmio_write_qword_aligned ::
  "bool \<Rightarrow> nat \<Rightarrow> ptr \<Rightarrow> nat \<Rightarrow> kst \<Rightarrow> int \<times> kst" where
  "gxfp_mmio_write_qword_aligned mmio off buf len s =
    (case buf of
       None \<Rightarrow> (- EINVAL, s)
     | Some b \<Rightarrow>
         if \<not> mmio then (- EINVAL, s)
         else if len mod 8 \<noteq> 0 then (- EINVAL, s)
         else (0, write_qwords (len div 8) off b s))"

fun read_qwords :: "kenv \<Rightarrow> nat \<Rightarrow> nat \<Rightarrow> kst \<Rightarrow> bytes \<times> kst" where
  "read_qwords env 0 off s = ([], s)"
| "read_qwords env (Suc n) off s =
     (let v = env_readq env (kev s) off;
          (rest, s) = read_qwords env n (off + 8) (ev (EvReadq off) s)
      in (le64_bytes v @ rest, s))"

definition gxfp_mmio_read_qword_aligned ::
  "kenv \<Rightarrow> ptr \<Rightarrow> bool \<Rightarrow> nat \<Rightarrow> nat \<Rightarrow> kst \<Rightarrow> (int \<times> ptr) \<times> kst" where
  "gxfp_mmio_read_qword_aligned env buf mmio off len s =
    (case buf of
       None \<Rightarrow> ((- EINVAL, buf), s)
     | Some b \<Rightarrow>
         if \<not> mmio then ((- EINVAL, buf), s)
         else if len mod 8 \<noteq> 0 then ((- EINVAL, buf), s)
         else
           let (data, s) = read_qwords env (len div 8) off s
           in ((0, Some (memcpy_at b 0 data)), s))"

section \<open>Lemmas\<close>

lemma kev_ev [simp]: "kev (ev e s) = e # kev s"
  by (simp add: ev_def)

lemma kdev_ev [simp]: "kdev (ev e s) = kdev s"
  by (simp add: ev_def)

lemma upd_dev_sel [simp]: "kdev (upd_dev f s) = f (kdev s)" "kev (upd_dev f s) = kev s"
  by (simp_all add: upd_dev_def)

lemma length_fresh [simp]: "length (fresh env h n) = n"
  by (simp add: fresh_def)

text \<open>What the helpers below the transport never touch: the device record.\<close>

lemma kdev_helpers [simp]:
  "kdev (kfree n s) = kdev s"
  "kdev (trace_logf t s) = kdev s"
  "kdev (lock l s) = kdev s"
  "kdev (unlock l s) = kdev s"
  "kdev (gxfp_busy_wait_us us s) = kdev s"
  "kdev (gpiod_set_write_done b s) = kdev s"
  "kdev (gpiod_set_read_done b s) = kdev s"
  by (simp_all add: kfree_def trace_logf_def lock_def unlock_def gxfp_busy_wait_us_def
      gpiod_set_write_done_def gpiod_set_read_done_def)

lemma kdev_gpio [simp]:
  "kdev (gxfp_gpio_pulse_delay_us us s) = kdev s"
  "kdev (gxfp_gpio_pulse_write_done s) = kdev s"
  "kdev (gxfp_gpio_set_read_done b s) = kdev s"
  "kdev (gxfp_gpio_force_done_deassert s) = kdev s"
  by (simp_all add: gxfp_gpio_pulse_delay_us_def gxfp_gpio_pulse_write_done_def
      gxfp_gpio_set_read_done_def gxfp_gpio_force_done_deassert_def Let_def)

lemma kdev_pulse_read_done [simp]: "kdev (gxfp_gpio_pulse_read_done s) = kdev s"
  by (simp add: gxfp_gpio_pulse_read_done_def Let_def)

lemma kdev_kmalloc [simp]: "kdev (snd (kmalloc env n s)) = kdev s"
  by (simp add: kmalloc_def)

lemma kmalloc_length: "kmalloc env n s = (Some b, s') \<Longrightarrow> length b = n"
  by (auto simp: kmalloc_def split: if_splits)

lemma kdev_write_qwords [simp]: "kdev (write_qwords n off buf s) = kdev s"
  by (induction n off buf s rule: write_qwords.induct) simp_all

lemma kdev_read_qwords [simp]: "kdev (snd (read_qwords env n off s)) = kdev s"
  by (induction env n off s rule: read_qwords.induct) (simp_all add: Let_def split_beta)

lemma length_read_qwords [simp]: "length (fst (read_qwords env n off s)) = 8 * n"
  by (induction env n off s rule: read_qwords.induct) (simp_all add: Let_def split_beta)

subsection \<open>Views of a history\<close>

text \<open>The memory the event history writes: register writes seen as bytes, each with its offset in the mailbox, oldest first.\<close>

fun written :: "kevent list \<Rightarrow> (nat \<times> u8) list" where
  "written [] = []"
| "written (EvWriteq off v # h) = written h @ enumerate off (le64_bytes v)"
| "written (_ # h) = written h"

text \<open>How often the host raised the read-done line: one pulse is one message to the device that
  the mailbox window has been consumed.\<close>

fun read_done_pulses :: "kevent list \<Rightarrow> nat" where
  "read_done_pulses [] = 0"
| "read_done_pulses (EvReadDone True # h) = Suc (read_done_pulses h)"
| "read_done_pulses (_ # h) = read_done_pulses h"

fun write_done_pulses :: "kevent list \<Rightarrow> nat" where
  "write_done_pulses [] = 0"
| "write_done_pulses (EvWriteDone True # h) = Suc (write_done_pulses h)"
| "write_done_pulses (_ # h) = write_done_pulses h"

text \<open>Live allocations: blocks allocated and not yet freed.\<close>

fun live_blocks :: "kevent list \<Rightarrow> int" where
  "live_blocks [] = 0"
| "live_blocks (EvKmalloc n # h) = live_blocks h + 1"
| "live_blocks (EvKfree n # h) = live_blocks h - 1"
| "live_blocks (_ # h) = live_blocks h"

lemmas gpio_defs = gxfp_busy_wait_us_def gxfp_gpio_pulse_delay_us_def gpiod_set_write_done_def
  gpiod_set_read_done_def gxfp_gpio_pulse_write_done_def gxfp_gpio_set_read_done_def
  gxfp_gpio_pulse_read_done_def GXFP_GPIO_PULSE_HIGH_US_def GXFP_GPIO_READ_DONE_CLEAR_DELAY_US_def
  GXFP_GPIO_READ_DONE_HIGH_US_def GXFP_GPIO_WRITE_DONE_PRE_US_def

lemma views_helpers [simp]:
  "written (kev (trace_logf t s)) = written (kev s)"
  "written (kev (kfree n s)) = written (kev s)"
  "written (kev (gxfp_busy_wait_us us s)) = written (kev s)"
  "written (kev (gxfp_gpio_pulse_write_done s)) = written (kev s)"
  "written (kev (gxfp_gpio_pulse_read_done s)) = written (kev s)"
  "written (kev (gxfp_gpio_set_read_done b s)) = written (kev s)"
  "read_done_pulses (kev (trace_logf t s)) = read_done_pulses (kev s)"
  "read_done_pulses (kev (kfree n s)) = read_done_pulses (kev s)"
  "read_done_pulses (kev (gxfp_busy_wait_us us s)) = read_done_pulses (kev s)"
  "read_done_pulses (kev (gxfp_gpio_pulse_write_done s)) = read_done_pulses (kev s)"
  "write_done_pulses (kev (trace_logf t s)) = write_done_pulses (kev s)"
  "write_done_pulses (kev (kfree n s)) = write_done_pulses (kev s)"
  "live_blocks (kev (trace_logf t s)) = live_blocks (kev s)"
  "live_blocks (kev (kfree n s)) = live_blocks (kev s) - 1"
  "live_blocks (kev (gxfp_busy_wait_us us s)) = live_blocks (kev s)"
  "live_blocks (kev (gxfp_gpio_pulse_write_done s)) = live_blocks (kev s)"
  "live_blocks (kev (gxfp_gpio_pulse_read_done s)) = live_blocks (kev s)"
  "live_blocks (kev (gxfp_gpio_set_read_done b s)) = live_blocks (kev s)"
  by (simp_all add: trace_logf_def kfree_def gpio_defs Let_def)

text \<open>A pulse is visible to the device exactly once, when the line exists.\<close>

lemma read_done_pulse_once:
  "read_done_pulses (kev (gxfp_gpio_pulse_read_done s)) =
     read_done_pulses (kev s) + (if gpio_read_done (kdev s) then 1 else 0)"
  by (simp add: gpio_defs Let_def)

lemma set_read_done_pulses:
  "read_done_pulses (kev (gxfp_gpio_set_read_done b s)) =
     read_done_pulses (kev s) + (if b \<and> gpio_read_done (kdev s) then 1 else 0)"
  by (simp add: gpio_defs Let_def)

lemma write_done_pulse_once:
  "write_done_pulses (kev (gxfp_gpio_pulse_write_done s)) =
     write_done_pulses (kev s) + (if gpio_write_done (kdev s) then 1 else 0)"
  by (simp add: gpio_defs Let_def)

lemma views_read_qwords [simp]:
  "written (kev (snd (read_qwords env n off s))) = written (kev s)"
  "read_done_pulses (kev (snd (read_qwords env n off s))) = read_done_pulses (kev s)"
  "write_done_pulses (kev (snd (read_qwords env n off s))) = write_done_pulses (kev s)"
  "live_blocks (kev (snd (read_qwords env n off s))) = live_blocks (kev s)"
  by (induction env n off s rule: read_qwords.induct) (simp_all add: Let_def split_beta)

lemma views_write_qwords [simp]:
  "read_done_pulses (kev (write_qwords n off buf s)) = read_done_pulses (kev s)"
  "write_done_pulses (kev (write_qwords n off buf s)) = write_done_pulses (kev s)"
  "live_blocks (kev (write_qwords n off buf s)) = live_blocks (kev s)"
  by (induction n off buf s rule: write_qwords.induct) simp_all

lemma le64_bytes_le64_word: "8 \<le> length bs \<Longrightarrow> le64_bytes (le64_word bs) = take 8 bs"
proof (rule nth_equalityI)
  assume l: "8 \<le> length bs"
  then show "length (le64_bytes (le64_word bs)) = length (take 8 bs)" by simp
  fix i assume "i < length (le64_bytes (le64_word bs))"
  then have i: "i < 8" by simp
  have "bit (le64_bytes (le64_word bs) ! i) n \<longleftrightarrow> bit (take 8 bs ! i) n" if "n < 8" for n
  proof -
    have "le64_word bs = (le_word (take 8 bs) :: u64)"
      by (simp add: le64_word_def le_word_def)
    moreover have "le64_bytes (le64_word bs) ! i = ucast (drop_bit (8 * i) (le64_word bs))"
      using i by (simp add: le64_bytes_def)
    moreover have "(8 * i + n) div 8 = i" and "(8 * i + n) mod 8 = n" and "8 * i + n < 64"
      using i that by auto
    ultimately show ?thesis
      using l that i by (simp add: bit_simps bit_le_word)
  qed
  then show "le64_bytes (le64_word bs) ! i = take 8 bs ! i"
    by (intro bit_word_eqI) simp
qed

text \<open>The register writes of one transfer are the bytes of the buffer, in order and at consecutive offsets.\<close>

lemma written_write_qwords:
  "8 * n \<le> length buf \<Longrightarrow> written (kev (write_qwords n off buf s)) = written (kev s) @ enumerate off (take (8 * n) buf)"
proof (induction n off buf s rule: write_qwords.induct)
  case (1 off buf s)
  then show ?case by simp
next
  case (2 n off buf s)
  have "take (8 + 8 * n) buf = take 8 buf @ take (8 * n) (drop 8 buf)"
    by (rule take_add)
  then show ?case using 2 by (simp add: le64_bytes_le64_word enumerate_append_eq)
qed

text \<open>Reading registers that hold \<open>w\<close> (as long as the device leaves them alone while they are
  read) returns \<open>w\<close>.\<close>

lemma read_qwords_window:
  assumes "\<And>h k. k < n \<Longrightarrow> read_done_pulses h = read_done_pulses (kev s) \<Longrightarrow>
             env_readq env h (off + 8 * k) = le64_word (drop (8 * k) w)"
    and "8 * n \<le> length w"
  shows "fst (read_qwords env n off s) = take (8 * n) w"
  using assms
proof (induction n arbitrary: off s w)
  case 0
  then show ?case by simp
next
  case (Suc n)
  have v: "env_readq env (kev s) off = le64_word w" using Suc.prems(1) [of 0 "kev s"] by simp
  have rd: "env_readq env h (off + 8 + 8 * k) = le64_word (drop (8 * k) (drop 8 w))"
    if "k < n" "read_done_pulses h = read_done_pulses (kev (ev (EvReadq off) s))" for h k
    using Suc.prems(1) [of "Suc k" h] that by (simp add: add.assoc add.commute [of "8 * k" 8])
  have "fst (read_qwords env n (off + 8) (ev (EvReadq off) s)) = take (8 * n) (drop 8 w)"
    by (rule Suc.IH) (use rd Suc.prems(2) in auto)
  moreover have "take (8 + 8 * n) w = take 8 w @ take (8 * n) (drop 8 w)" by (rule take_add)
  ultimately show ?case using Suc.prems(2) v
    by (simp add: Let_def split_beta le64_bytes_le64_word)
qed

end
