(* ===== verification/Espi_Transport.thy ===== *)
theory Espi_Transport
  imports Kernel_Hw Mp_Proto
begin

unbundle bit_operations_syntax

text \<open>
  The eSPI mailbox transport of \<open>kernel/transport/\<close>. A write wraps an MP package in an
  eight-byte header, pads it to eight bytes, copies it to the mailbox and pulses the write-done
  line. A read takes \<open>GXFP_ESPI_CHUNK_MAX\<close> bytes from the read window at offset
  \<open>GXFP_ESPI_RX_OFF\<close>; a package that is longer than one window arrives in several windows, and
  the host pulses read-done to ask for the next one. The interrupt path assembles a package over
  several interrupts (\<open>gxfp_espi_irq_read_step\<close>), the synchronous path in one loop
  (\<open>gxfp_espi_read_assemble\<close>). Out parameters that the callers always pass are results.
\<close>

section \<open>Definitions\<close>

definition GXFP_MAILBOX_MIN_SIZE :: nat where
  "GXFP_MAILBOX_MIN_SIZE = 0x1000"

definition GXFP_TX_BUFFER_SIZE :: nat where
  "GXFP_TX_BUFFER_SIZE = 0x200"

definition GXFP_ESPI_RX_OFF :: nat where
  "GXFP_ESPI_RX_OFF = 0x200"

definition GXFP_ESPI_CHUNK_MAX :: nat where
  "GXFP_ESPI_CHUNK_MAX = 0xe00"

definition GXFP_ESPI_ALIGN :: nat where
  "GXFP_ESPI_ALIGN = 8"

definition GXFP_ESPI_WRAPPER_MAGIC :: u8 where
  "GXFP_ESPI_WRAPPER_MAGIC = 0xF0"

definition GXFP_DEFAULT_TIMEOUT_US :: nat where
  "GXFP_DEFAULT_TIMEOUT_US = 15000"

lemmas espi_consts = GXFP_MAILBOX_MIN_SIZE_def GXFP_TX_BUFFER_SIZE_def GXFP_ESPI_RX_OFF_def
  GXFP_ESPI_CHUNK_MAX_def GXFP_ESPI_ALIGN_def

subsection \<open>Common part (\<open>gxfp_espi_common.c\<close>)\<close>

definition gxfp_espi_irq_assem_reset :: "kst \<Rightarrow> kst" where
  "gxfp_espi_irq_assem_reset =
    upd_dev (\<lambda>d. d\<lparr>assem_active := False, assem_total := 0, assem_copied := 0\<rparr>)"

definition gxfp_espi_rx_read_window :: "kenv \<Rightarrow> bytes \<Rightarrow> kst \<Rightarrow> (int \<times> bytes) \<times> kst" where
  "gxfp_espi_rx_read_window env dst s =
    (case gxfp_mmio_read_qword_aligned env (Some dst) (mailbox_mmio (kdev s)) GXFP_ESPI_RX_OFF
            GXFP_ESPI_CHUNK_MAX s of
       ((ret, buf), s) \<Rightarrow>
         if ret \<noteq> 0 then ((- EIO, dst), s)
         else ((0, the buf), s))"

definition gxfp_espi_rx_chunk_calc :: "nat \<Rightarrow> nat \<times> nat \<times> nat" where
  "gxfp_espi_rx_chunk_calc remain =
    (let chunk = min remain GXFP_ESPI_CHUNK_MAX;
         pad = (GXFP_ESPI_ALIGN - (chunk AND (GXFP_ESPI_ALIGN - 1))) AND (GXFP_ESPI_ALIGN - 1);
         do_read = chunk + pad
     in (chunk, pad, do_read))"

text \<open>The result is an error, or the package's total length and the length of its first chunk.\<close>

definition gxfp_espi_rx_start_packet ::
  "kenv \<Rightarrow> bytes \<Rightarrow> nat \<Rightarrow> bool \<Rightarrow> kst \<Rightarrow> ((int + nat \<times> nat) \<times> bytes) \<times> kst" where
  "gxfp_espi_rx_start_packet env rx_buf rx_cap validate_head s =
    (case gxfp_espi_rx_read_window env rx_buf s of
       ((ret, rx_buf), s) \<Rightarrow>
         if ret \<noteq> 0 then ((Inl ret, rx_buf), s)
         else
           (case (if validate_head then gxfp_check_mp_head (Some rx_buf) 4 (Some 0)
                  else (True, Some (le16 (rx_buf ! 1) (rx_buf ! 2)))) of
              (True, Some mp_len) \<Rightarrow>
                let tot = 4 + unat mp_len
                in if tot = 0 \<or> tot > rx_cap then ((Inl (- EMSGSIZE), rx_buf), s)
                   else ((Inr (tot, min tot GXFP_ESPI_CHUNK_MAX), rx_buf), s)
            | _ \<Rightarrow> ((Inl (- EBADMSG), rx_buf), s)))"

subsection \<open>Interrupt path (\<open>gxfp_espi_rx_irq.c\<close>)\<close>

text \<open>Result: return code, \<open>*out_rx_len\<close>, \<open>*complete\<close>, and the receive buffer.\<close>

definition gxfp_espi_irq_read_step ::
  "kenv \<Rightarrow> ptr \<Rightarrow> nat \<Rightarrow> kst \<Rightarrow> (int \<times> nat \<times> bool \<times> ptr) \<times> kst" where
  "gxfp_espi_irq_read_step env rx rx_cap s =
    (case rx of
       None \<Rightarrow> ((- EINVAL, 0, False, rx), s)
     | Some rx_buf \<Rightarrow>
         if rx_cap < GXFP_ESPI_CHUNK_MAX then ((- EINVAL, 0, False, rx), s)
         else if \<not> mailbox_mmio (kdev s) then ((- ENODEV, 0, False, rx), s)
         else if mailbox_size (kdev s) < GXFP_ESPI_RX_OFF + GXFP_ESPI_CHUNK_MAX
           then ((- ENODEV, 0, False, rx), s)
         else if \<not> assem_active (kdev s) then
           (case gxfp_espi_rx_start_packet env rx_buf rx_cap True s of
              ((Inl ret, rx_buf), s) \<Rightarrow>
                ((ret, 0, False, Some rx_buf), gxfp_espi_irq_assem_reset s)
            | ((Inr (tot, first_chunk), rx_buf), s) \<Rightarrow>
                let s = upd_dev (\<lambda>d. d\<lparr>assem_total := tot, assem_copied := first_chunk,
                                   assem_active := True\<rparr>) s;
                    copied = assem_copied (kdev s)
                in if copied \<ge> tot then
                     let s = gxfp_gpio_set_read_done True s;
                         s = gxfp_espi_irq_assem_reset s
                     in ((0, tot, True, Some rx_buf), s)
                   else ((0, copied, False, Some rx_buf), gxfp_gpio_pulse_read_done s))
         else
           let tot = assem_total (kdev s);
               copied = assem_copied (kdev s)
           in if tot = 0 \<or> copied = 0 \<or> copied > rx_cap
              then ((- EINVAL, 0, False, rx), gxfp_espi_irq_assem_reset s)
              else
                let remain = (if copied < tot then tot - copied else 0);
                    (chunk, pad, do_read) = gxfp_espi_rx_chunk_calc remain
                in if chunk = 0 then ((0, tot, True, rx), gxfp_espi_irq_assem_reset s)
                   else if copied + chunk > rx_cap
                     then ((- EMSGSIZE, 0, False, rx), gxfp_espi_irq_assem_reset s)
                   else
                     (case irq_rx_tmp (kdev s) of
                        None \<Rightarrow> ((- ENODEV, 0, False, rx), gxfp_espi_irq_assem_reset s)
                      | Some tmp \<Rightarrow>
                          (case gxfp_espi_rx_read_window env tmp s of
                             ((ret, tmp), s) \<Rightarrow>
                               let s = upd_dev (\<lambda>d. d\<lparr>irq_rx_tmp := Some tmp\<rparr>) s
                               in if ret \<noteq> 0
                                  then ((ret, 0, False, rx), gxfp_espi_irq_assem_reset s)
                                  else
                                    let rx_buf = memcpy_at rx_buf copied (take chunk tmp);
                                        copied = copied + chunk;
                                        s = upd_dev (\<lambda>d. d\<lparr>assem_copied := copied\<rparr>) s
                                    in if copied < tot
                                       then ((0, copied, False, Some rx_buf),
                                              gxfp_gpio_pulse_read_done s)
                                       else
                                         let s = gxfp_gpio_set_read_done True s;
                                             s = gxfp_espi_irq_assem_reset s
                                         in ((0, tot, True, Some rx_buf), s))))"

subsection \<open>Synchronous path (\<open>gxfp_espi_rx_sync.c\<close>)\<close>

text \<open>The \<open>while (off < tot)\<close> loop of \<open>gxfp_espi_read_assemble\<close>.\<close>

function read_assemble_loop ::
  "kenv \<Rightarrow> nat \<Rightarrow> nat \<Rightarrow> nat \<Rightarrow> bytes \<Rightarrow> kst \<Rightarrow> (int \<times> bytes) \<times> kst" where
  "read_assemble_loop env dst_cap tot off dst s =
    (if off < tot then
       let remain = tot - off;
           (chunk, pad, do_read) = gxfp_espi_rx_chunk_calc remain
       in (case irq_rx_tmp (kdev s) of
             None \<Rightarrow> ((- ENODEV, dst), s)
           | Some tmp \<Rightarrow>
               if off + chunk > dst_cap then ((- EMSGSIZE, dst), s)
               else
                 (case gxfp_espi_rx_read_window env tmp s of
                    ((ret, tmp), s) \<Rightarrow>
                      let s = upd_dev (\<lambda>d. d\<lparr>irq_rx_tmp := Some tmp\<rparr>) s
                      in if ret \<noteq> 0 then ((ret, dst), s)
                         else
                           let dst = memcpy_at dst off (take chunk tmp);
                               off = off + chunk;
                               s = (if off < tot
                                    then gxfp_busy_wait_us GXFP_DEFAULT_TIMEOUT_US
                                           (gxfp_gpio_pulse_read_done s)
                                    else s)
                           in read_assemble_loop env dst_cap tot off dst s))
     else ((0, dst), s))"
  by pat_completeness auto
termination
  by (relation "measure (\<lambda>(env, cap, tot, off, dst, s). tot - off)")
     (auto simp: gxfp_espi_rx_chunk_calc_def Let_def GXFP_ESPI_CHUNK_MAX_def)

declare read_assemble_loop.simps [simp del]

definition gxfp_espi_read_assemble ::
  "kenv \<Rightarrow> ptr \<Rightarrow> nat \<Rightarrow> kst \<Rightarrow> (int \<times> ptr \<times> nat) \<times> kst" where
  "gxfp_espi_read_assemble env dst dst_cap s =
    (case dst of
       None \<Rightarrow> ((- EINVAL, dst, 0), s)
     | Some d0 \<Rightarrow>
         if dst_cap < GXFP_ESPI_CHUNK_MAX then ((- EINVAL, dst, 0), s)
         else if \<not> mailbox_mmio (kdev s) then ((- ENODEV, dst, 0), s)
         else if mailbox_size (kdev s) < GXFP_ESPI_RX_OFF + GXFP_ESPI_CHUNK_MAX
           then ((- ENODEV, dst, 0), s)
         else
           let d1 = memcpy_at d0 0 (zeros dst_cap)
           in (case gxfp_espi_rx_start_packet env d1 dst_cap False s of
                 ((Inl ret, d1), s) \<Rightarrow> ((ret, Some d1, 0), s)
               | ((Inr (tot, first_chunk), d1), s) \<Rightarrow>
                   (case read_assemble_loop env dst_cap tot first_chunk d1 s of
                      ((ret, d1), s) \<Rightarrow>
                        if ret \<noteq> 0 then ((ret, Some d1, 0), s)
                        else ((0, Some d1, tot), gxfp_gpio_pulse_read_done s))))"

definition gxfp_espi_read :: "kenv \<Rightarrow> ptr \<Rightarrow> nat \<Rightarrow> kst \<Rightarrow> (int \<times> ptr \<times> nat) \<times> kst" where
  "gxfp_espi_read env rx_buf rx_cap s =
    (if rx_buf = None \<or> rx_cap = 0 then ((- EINVAL, rx_buf, 0), s)
     else if \<not> mailbox_mmio (kdev s) then ((- ENODEV, rx_buf, 0), s)
     else gxfp_espi_read_assemble env rx_buf rx_cap s)"

subsection \<open>Transmit path (\<open>gxfp_espi_tx.c\<close>)\<close>

text \<open>\<open>ALIGN (x, a)\<close> of the kernel, for \<open>a\<close> a power of two.\<close>

definition ALIGN :: "nat \<Rightarrow> nat \<Rightarrow> nat" where
  "ALIGN x a = (x + (a - 1)) div a * a"

text \<open>The stores to the transmit buffer: \<open>memset\<close>, wrapper header, sequence number, package.\<close>

definition espi_tx_fill :: "bytes \<Rightarrow> nat \<Rightarrow> u16 \<Rightarrow> ptr \<Rightarrow> nat \<Rightarrow> bytes" where
  "espi_tx_fill tx tx_len seq16 mp_frame mp_frame_len =
    (let tx = memcpy_at tx 0 (zeros tx_len);
         tx = tx[0 := GXFP_ESPI_WRAPPER_MAGIC];
         tx = tx[1 := lo8 (of_nat mp_frame_len)];
         tx = tx[2 := hi8 (of_nat mp_frame_len)];
         tx = tx[3 := tx ! 0 + tx ! 1 + tx ! 2];
         tx = tx[4 := lo8 seq16];
         tx = tx[5 := hi8 seq16]
     in memcpy_at tx 8 (ptr_bytes mp_frame mp_frame_len))"

definition gxfp_espi_write :: "kenv \<Rightarrow> ptr \<Rightarrow> nat \<Rightarrow> kst \<Rightarrow> int \<times> kst" where
  "gxfp_espi_write env mp_frame mp_frame_len s =
    (if mp_frame = None \<or> mp_frame_len = 0 then (- EINVAL, s)
     else if \<not> mailbox_mmio (kdev s) then (- ENODEV, s)
     else
       let pad = (GXFP_ESPI_ALIGN - (mp_frame_len AND (GXFP_ESPI_ALIGN - 1)))
                   AND (GXFP_ESPI_ALIGN - 1);
           tx_len = 8 + mp_frame_len + pad
       in if tx_len > GXFP_TX_BUFFER_SIZE then (- EOVERFLOW, s)
          else
            (case kmalloc env tx_len s of
               (None, s) \<Rightarrow> (- ENOMEM, s)
             | (Some tx, s) \<Rightarrow>
                 let s = upd_dev (\<lambda>d. d\<lparr>mailbox_seq16 := mailbox_seq16 d + 1\<rparr>) s;
                     seq16 = (ucast (mailbox_seq16 (kdev s) AND 0xFFFF) :: u16);
                     tx = espi_tx_fill tx tx_len seq16 mp_frame mp_frame_len
                 in (case gxfp_mmio_write_qword_aligned (mailbox_mmio (kdev s)) 0 (Some tx)
                            (ALIGN tx_len GXFP_ESPI_ALIGN) s of
                       (ret, s) \<Rightarrow>
                         let s = trace_logf ''espi_tx'' s
                         in if ret \<noteq> 0 then (- EIO, kfree tx_len s)
                            else (0, gxfp_gpio_pulse_write_done (kfree tx_len s)))))"

definition gxfp_espi_xfer ::
  "kenv \<Rightarrow> ptr \<Rightarrow> nat \<Rightarrow> ptr \<Rightarrow> nat \<Rightarrow> kst \<Rightarrow> (int \<times> ptr \<times> nat) \<times> kst" where
  "gxfp_espi_xfer env mp_frame mp_frame_len rx_buf rx_cap s =
    (case gxfp_espi_write env mp_frame mp_frame_len s of
       (ret, s) \<Rightarrow>
         if ret \<noteq> 0 then ((ret, rx_buf, 0), s)
         else gxfp_espi_read env rx_buf rx_cap (gxfp_busy_wait_us 1000 s))"


section \<open>Writing\<close>

definition espi_pad :: "nat \<Rightarrow> nat" where
  "espi_pad n = (8 - n mod 8) mod 8"

lemma and_7: "(n :: nat) AND 7 = n mod 8"
proof -
  have "(7 :: nat) = mask 3" by (simp add: mask_eq_exp_minus_1)
  then have "n AND 7 = take_bit 3 n" by (simp add: take_bit_eq_mask)
  then show ?thesis by (simp add: take_bit_eq_mod)
qed

lemma pad_eq:
  "(GXFP_ESPI_ALIGN - (n AND (GXFP_ESPI_ALIGN - 1))) AND (GXFP_ESPI_ALIGN - 1) = espi_pad n"
  by (simp add: GXFP_ESPI_ALIGN_def espi_pad_def and_7)

lemma espi_pad_aligned: "(n + espi_pad n) mod 8 = 0"
proof -
  define q r where "q = n div 8" and "r = n mod 8"
  then have n: "n = 8 * q + r" and r: "r < 8" by simp_all
  have "(n + espi_pad n) mod 8 = (n + (8 - r)) mod 8"
    by (simp only: espi_pad_def mod_add_right_eq r_def)
  also have "n + (8 - r) = 8 * (q + 1)" using n r by simp
  finally show ?thesis by simp
qed

lemma espi_len_aligned: "(8 + n + espi_pad n) mod 8 = 0"
proof -
  have "(8 + n + espi_pad n) mod 8 = (n + espi_pad n) mod 8" by (simp add: add.assoc)
  then show ?thesis by (simp add: espi_pad_aligned)
qed

lemma ALIGN_aligned: "n mod 8 = 0 \<Longrightarrow> ALIGN n GXFP_ESPI_ALIGN = n"
  by (auto simp: ALIGN_def GXFP_ESPI_ALIGN_def)

text \<open>What the device finds in the mailbox: the wrapper header, the package, zero padding.\<close>

definition espi_wrap :: "u16 \<Rightarrow> bytes \<Rightarrow> bytes" where
  "espi_wrap seq mp =
    (let l = of_nat (length mp)
     in [0xF0, lo8 l, hi8 l, 0xF0 + lo8 l + hi8 l, lo8 seq, hi8 seq, 0, 0] @ mp
        @ zeros (espi_pad (length mp)))"

lemma length_espi_wrap [simp]:
  "length (espi_wrap seq mp) = 8 + length mp + espi_pad (length mp)"
  by (simp add: espi_wrap_def Let_def)

lemma zeros_8: "zeros (8 + n) = 0 # 0 # 0 # 0 # 0 # 0 # 0 # 0 # zeros n"
  by (simp add: zeros_def numeral_eq_Suc)

lemma drop_8_plus: "drop (8 + n) (a # b # c # d # e # f # g # h # r) = drop n r"
  by (simp add: numeral_eq_Suc)

lemma header_updates:
  "(x0 # x1 # x2 # x3 # x4 # x5 # r)[0 := a, 1 := b, 2 := c, 3 := d, 4 := e, 5 := f] =
     a # b # c # d # e # f # r"
  by (simp add: eval_nat_numeral)

lemma memcpy_at_8:
  "memcpy_at (a # b # c # d # e # f # g # h # r) 8 xs =
     a # b # c # d # e # f # g # h # xs @ drop (length xs) r"
  by (simp add: memcpy_at_def drop_8_plus)

lemma espi_tx_fill_eq:
  assumes "length tx0 = 8 + length mp + espi_pad (length mp)"
  shows "espi_tx_fill tx0 (8 + length mp + espi_pad (length mp)) seq (Some mp) (length mp) =
    espi_wrap seq mp"
proof -
  have z: "memcpy_at tx0 0 (zeros (8 + length mp + espi_pad (length mp))) =
      0 # 0 # 0 # 0 # 0 # 0 # 0 # 0 # zeros (length mp + espi_pad (length mp))"
    using assms by (simp add: memcpy_at_0 zeros_8 add.assoc)
  have d: "drop (length mp) (zeros (length mp + k)) = zeros k" for k
    by (simp add: zeros_def)
  show ?thesis
    unfolding espi_tx_fill_def Let_def z ptr_bytes_Some header_updates memcpy_at_8
    by (simp add: espi_wrap_def GXFP_ESPI_WRAPPER_MAGIC_def Let_def d)
qed

text \<open>The state after a successful write.\<close>

definition after_write :: "nat \<Rightarrow> bytes \<Rightarrow> kst \<Rightarrow> kst" where
  "after_write n wire s =
    gxfp_gpio_pulse_write_done (kfree n (trace_logf ''espi_tx''
      (write_qwords (n div 8) 0 wire
        (upd_dev (\<lambda>d. d\<lparr>mailbox_seq16 := mailbox_seq16 d + 1\<rparr>) (ev (EvKmalloc n) s)))))"

definition next_seq :: "kst \<Rightarrow> u16" where
  "next_seq s = ucast ((mailbox_seq16 (kdev s) + 1) AND 0xFFFF)"

definition write_ready :: "kenv \<Rightarrow> nat \<Rightarrow> kst \<Rightarrow> bool" where
  "write_ready env n s \<longleftrightarrow> mailbox_mmio (kdev s) \<and> 0 < n \<and> 8 + n + espi_pad n \<le> GXFP_TX_BUFFER_SIZE
     \<and> env_kmalloc env (kev s) (8 + n + espi_pad n)"

lemma espi_write_ok:
  assumes "write_ready env (length mp) s"
  shows "gxfp_espi_write env (Some mp) (length mp) s =
    (0, after_write (8 + length mp + espi_pad (length mp)) (espi_wrap (next_seq s) mp) s)"
proof -
  let ?n = "8 + length mp + espi_pad (length mp)"
  have al: "ALIGN ?n GXFP_ESPI_ALIGN = ?n" by (rule ALIGN_aligned) (rule espi_len_aligned)
  have w: "mailbox_mmio (kdev s)" "length mp \<noteq> 0" "\<not> ?n > GXFP_TX_BUFFER_SIZE"
    "env_kmalloc env (kev s) ?n"
    using assms by (auto simp: write_ready_def)
  show ?thesis
    unfolding gxfp_espi_write_def pad_eq Let_def kmalloc_def
    using w by (simp add: espi_tx_fill_eq al gxfp_mmio_write_qword_aligned_def after_write_def
        next_seq_def espi_len_aligned)
qed

text \<open>Every refusal leaves the state as it was.\<close>

lemma espi_write_fail:
  assumes "\<not> write_ready env (length mp) s"
  shows "\<exists>e. e \<in> {EINVAL, ENODEV, EOVERFLOW, ENOMEM} \<and>
    gxfp_espi_write env (Some mp) (length mp) s = (- e, s)"
proof -
  consider "length mp = 0" | "length mp \<noteq> 0" "\<not> mailbox_mmio (kdev s)"
    | "length mp \<noteq> 0" "mailbox_mmio (kdev s)"
      "8 + length mp + espi_pad (length mp) > GXFP_TX_BUFFER_SIZE"
    | "length mp \<noteq> 0" "mailbox_mmio (kdev s)"
      "\<not> 8 + length mp + espi_pad (length mp) > GXFP_TX_BUFFER_SIZE"
      "\<not> env_kmalloc env (kev s) (8 + length mp + espi_pad (length mp))"
    using assms unfolding write_ready_def by linarith
  then show ?thesis
    unfolding gxfp_espi_write_def pad_eq Let_def kmalloc_def
    by cases simp_all
qed

lemma after_write_views:
  assumes "length wire = n" and "n mod 8 = 0"
  shows "written (kev (after_write n wire s)) = written (kev s) @ enumerate 0 wire"
    and "live_blocks (kev (after_write n wire s)) = live_blocks (kev s)"
    and "read_done_pulses (kev (after_write n wire s)) = read_done_pulses (kev s)"
    and "kdev (after_write n wire s) = (kdev s)\<lparr>mailbox_seq16 := mailbox_seq16 (kdev s) + 1\<rparr>"
    and "write_done_pulses (kev (after_write n wire s)) = write_done_pulses (kev s) + (if gpio_write_done (kdev s) then 1 else 0)"
proof -
  have "8 * (n div 8) = n" using assms(2) by auto
  then show "written (kev (after_write n wire s)) = written (kev s) @ enumerate 0 wire"
    using assms(1) by (simp add: after_write_def written_write_qwords)
qed (simp_all add: after_write_def write_done_pulse_once kfree_def trace_logf_def)

lemma espi_write_no_leak:
  "live_blocks (kev (snd (gxfp_espi_write env (Some mp) (length mp) s))) = live_blocks (kev s)"
proof (cases "write_ready env (length mp) s")
  case True
  then show ?thesis
    using espi_write_ok [OF True] by (simp add: after_write_views espi_len_aligned)
next
  case False
  then obtain e where "gxfp_espi_write env (Some mp) (length mp) s = (- e, s)"
    using espi_write_fail by blast
  then show ?thesis by simp
qed


section \<open>Reading\<close>

text \<open>
  The device's side of a read, as the hardware notes in \<open>kernel/docs/gxfp5130.rst\<close> describe it:
  after the host's \<open>j\<close>-th read-done pulse the read window holds \<open>W j\<close>, until the next pulse.
\<close>

definition mailbox_windows :: "kenv \<Rightarrow> (nat \<Rightarrow> bytes) \<Rightarrow> bool" where
  "mailbox_windows env W \<longleftrightarrow> (\<forall>j. length (W j) = GXFP_ESPI_CHUNK_MAX) \<and>
     (\<forall>h k. k < 448 \<longrightarrow> env_readq env h (GXFP_ESPI_RX_OFF + 8 * k) =
                          le64_word (drop (8 * k) (W (read_done_pulses h))))"

text \<open>The windows from the \<open>p\<close>-th on carry the package \<open>m\<close>, chunk by chunk.\<close>

definition windows_show :: "(nat \<Rightarrow> bytes) \<Rightarrow> nat \<Rightarrow> bytes \<Rightarrow> bool" where
  "windows_show W p m \<longleftrightarrow>
     (\<forall>i. take (length (take 0xe00 (drop (0xe00 * i) m))) (W (p + i)) = take 0xe00 (drop (0xe00 * i) m))"

definition after_window :: "kenv \<Rightarrow> kst \<Rightarrow> kst" where
  "after_window env s = snd (read_qwords env 448 GXFP_ESPI_RX_OFF s)"

lemma after_window_views [simp]:
  "kdev (after_window env s) = kdev s"
  "read_done_pulses (kev (after_window env s)) = read_done_pulses (kev s)"
  "live_blocks (kev (after_window env s)) = live_blocks (kev s)"
  "written (kev (after_window env s)) = written (kev s)"
  by (simp_all add: after_window_def)

lemma read_window_eq:
  assumes "mailbox_windows env W" and "mailbox_mmio (kdev s)"
  shows "gxfp_espi_rx_read_window env dst s =
    ((0, memcpy_at dst 0 (W (read_done_pulses (kev s)))), after_window env s)"
proof -
  have l: "length (W j) = 0xe00" for j
    using assms(1) by (simp add: mailbox_windows_def GXFP_ESPI_CHUNK_MAX_def)
  have "fst (read_qwords env 448 GXFP_ESPI_RX_OFF s) = take (8 * 448) (W (read_done_pulses (kev s)))"
    by (rule read_qwords_window) (use assms(1) l in \<open>simp_all add: mailbox_windows_def\<close>)
  then show ?thesis
    using assms(2) l
    by (simp add: gxfp_espi_rx_read_window_def gxfp_mmio_read_qword_aligned_def after_window_def
        GXFP_ESPI_CHUNK_MAX_def split_beta)
qed

lemma mp_head_ok_cong:
  assumes "take 4 a = take 4 b" and "4 \<le> length a" and "4 \<le> length b"
  shows "mp_head_ok a \<longleftrightarrow> mp_head_ok b" and "a ! 1 = b ! 1" and "a ! 2 = b ! 2"
proof -
  have e: "a ! i = b ! i" if "i < 4" for i
    using assms(1) that by (metis nth_take)
  show "mp_head_ok a \<longleftrightarrow> mp_head_ok b" using e by (simp add: mp_head_ok_def)
  show "a ! 1 = b ! 1" "a ! 2 = b ! 2" using e by simp_all
qed

text \<open>A whole package: its head is good and declares its length.\<close>

definition mp_package :: "bytes \<Rightarrow> bool" where
  "mp_package m \<longleftrightarrow> 4 \<le> length m \<and> mp_head_ok m \<and> length m = 4 + unat (le16 (m ! 1) (m ! 2))"

definition rx_ready :: "kst \<Rightarrow> bool" where
  "rx_ready s \<longleftrightarrow> mailbox_mmio (kdev s) \<and> GXFP_MAILBOX_MIN_SIZE \<le> mailbox_size (kdev s) \<and>
     gpio_read_done (kdev s) \<and> (\<exists>t. irq_rx_tmp (kdev s) = Some t \<and> length t = 0xe00)"

text \<open>\<open>k\<close> chunks of \<open>m\<close> have arrived.\<close>

definition assembling :: "nat \<Rightarrow> bytes \<Rightarrow> nat \<Rightarrow> bytes \<Rightarrow> kst \<Rightarrow> bool" where
  "assembling p m k rx s \<longleftrightarrow>
     (if k = 0 then \<not> assem_active (kdev s)
      else assem_active (kdev s) \<and> assem_total (kdev s) = length m \<and>
           assem_copied (kdev s) = 0xe00 * k \<and> 0xe00 * k < length m \<and>
           take (0xe00 * k) rx = take (0xe00 * k) m) \<and>
     read_done_pulses (kev s) = p + k"

lemma start_packet_ok:
  assumes "mailbox_windows env W" and "mailbox_mmio (kdev s)" and "mp_package m"
    and "windows_show W (read_done_pulses (kev s)) m" and "length m \<le> cap" and "0xe00 \<le> length rx"
  shows "gxfp_espi_rx_start_packet env rx cap validate s =
    ((Inr (length m, min (length m) 0xe00), memcpy_at rx 0 (W (read_done_pulses (kev s)))),
     after_window env s)"
proof -
  let ?w = "W (read_done_pulses (kev s))"
  let ?rx = "memcpy_at rx 0 ?w"
  have lw: "length ?w = 0xe00"
    using assms(1) by (simp add: mailbox_windows_def GXFP_ESPI_CHUNK_MAX_def)
  have m4: "4 \<le> length m" using assms(3) by (simp add: mp_package_def)
  have "take (min (length m) 0xe00) ?w = take 0xe00 m"
    using assms(4) unfolding windows_show_def by (metis add_0_right drop0 length_take mult_0_right)
  then have "take 4 (take (min (length m) 0xe00) ?w) = take 4 (take 0xe00 m)" by simp
  then have "take 4 ?w = take 4 m" using m4 by (simp add: min_def split: if_splits)
  then have t: "take 4 ?rx = take 4 m" using lw by (simp add: take_memcpy_at_0)
  have "length ?rx = length rx" using lw assms(6) by simp
  then have h: "mp_head_ok ?rx \<longleftrightarrow> mp_head_ok m" "?rx ! 1 = m ! 1" "?rx ! 2 = m ! 2"
    using mp_head_ok_cong [OF t _ m4] assms(6) by auto
  show ?thesis
    using assms(3,5) h
    by (simp add: gxfp_espi_rx_start_packet_def read_window_eq [OF assms(1,2)] check_mp_head_eq
        mp_package_def Let_def GXFP_ESPI_CHUNK_MAX_def)
qed

lemma assem_reset_views [simp]:
  "kev (gxfp_espi_irq_assem_reset s) = kev s"
  "kdev (gxfp_espi_irq_assem_reset s) =
     (kdev s)\<lparr>assem_active := False, assem_total := 0, assem_copied := 0\<rparr>"
  by (simp_all add: gxfp_espi_irq_assem_reset_def)

definition step_post ::
  "nat \<Rightarrow> bytes \<Rightarrow> nat \<Rightarrow> bytes \<Rightarrow> (int \<times> nat \<times> bool \<times> ptr) \<times> kst \<Rightarrow> kst \<Rightarrow> bool" where
  "step_post p m k rx r s \<longleftrightarrow>
    (case r of ((ret, len, complete, rxp), s') \<Rightarrow>
       ret = 0 \<and> rx_ready s' \<and> live_blocks (kev s') = live_blocks (kev s) \<and>
       (\<exists>rx'. rxp = Some rx' \<and> length rx' = length rx \<and>
          (if 0xe00 * Suc k < length m
           then \<not> complete \<and> len = 0xe00 * Suc k \<and> assembling p m (Suc k) rx' s'
           else complete \<and> len = length m \<and> take (length m) rx' = m \<and>
                assembling (p + Suc k) m 0 rx' s')) \<and>
       (kdev s')\<lparr>assem_active := False, assem_total := 0, assem_copied := 0, irq_rx_tmp := None\<rparr> =
       (kdev s)\<lparr>assem_active := False, assem_total := 0, assem_copied := 0, irq_rx_tmp := None\<rparr>)"

lemma irq_step_first:
  assumes "mailbox_windows env W" and "rx_ready s" and "mp_package m" and "windows_show W p m"
    and "length m \<le> cap" and "0xe00 \<le> cap" and "length rx = cap" and "assembling p m 0 rx s"
  shows "step_post p m 0 rx (gxfp_espi_irq_read_step env (Some rx) cap s) s"
proof -
  let ?w = "W p"
  have p: "read_done_pulses (kev s) = p" and inact: "\<not> assem_active (kdev s)"
    using assms(8) by (simp_all add: assembling_def)
  have lw: "length ?w = 0xe00"
    using assms(1) by (simp add: mailbox_windows_def GXFP_ESPI_CHUNK_MAX_def)
  have d: "mailbox_mmio (kdev s)" "\<not> mailbox_size (kdev s) < GXFP_ESPI_RX_OFF + GXFP_ESPI_CHUNK_MAX"
    "gpio_read_done (kdev s)"
    using assms(2) by (auto simp: rx_ready_def espi_consts)
  note st = start_packet_ok [OF assms(1) d(1) assms(3), of cap rx True]
  have w0: "take (min (length m) 0xe00) ?w = take 0xe00 m"
    using assms(4) unfolding windows_show_def by (metis add_0_right drop0 length_take mult_0_right)
  have l: "length (memcpy_at rx 0 ?w) = length rx" using lw assms(6,7) by simp
  have t: "take (min (length m) 0xe00) (memcpy_at rx 0 ?w) = take 0xe00 m"
    using lw w0 by (simp add: take_memcpy_at_0)
  show ?thesis
  proof (cases "length m \<le> 0xe00")
    case True
    then show ?thesis
      using st assms(2,4,5,6,7) p inact d t l
      by (simp add: gxfp_espi_irq_read_step_def step_post_def Let_def GXFP_ESPI_CHUNK_MAX_def
          rx_ready_def assembling_def set_read_done_pulses)
  next
    case False
    then show ?thesis
      using st assms(2,4,5,6,7) p inact d t l
      by (simp add: gxfp_espi_irq_read_step_def step_post_def Let_def GXFP_ESPI_CHUNK_MAX_def
          rx_ready_def assembling_def read_done_pulse_once)
  qed
qed

lemma append_chunk:
  assumes "take n rx = take n m" and "n \<le> length m" and "n + length c \<le> length rx"
    and "c = take j (drop n m)"
  shows "take (n + length c) (memcpy_at rx n c) = take (n + length c) m"
proof -
  have "take (n + length c) (memcpy_at rx n c) = take n m @ c"
    using assms(1,3) by (simp add: take_memcpy_at_end)
  also have "\<dots> = take n m @ take (length c) (drop n m)" using assms(4) by (simp add: min_def)
  finally show ?thesis by (simp add: take_add)
qed

lemma irq_step_next:
  assumes "mailbox_windows env W" and "rx_ready s" and "mp_package m" and "windows_show W p m"
    and "length m \<le> cap" and "0xe00 \<le> cap" and "length rx = cap" and "assembling p m k rx s"
    and "k \<noteq> 0"
  shows "step_post p m k rx (gxfp_espi_irq_read_step env (Some rx) cap s) s"
proof -
  define n where "n = 0xe00 * k"
  define c where "c = take 0xe00 (drop n m)"
  have a: "assem_active (kdev s)" "assem_total (kdev s) = length m" "assem_copied (kdev s) = n"
    "n < length m" "take n rx = take n m" "read_done_pulses (kev s) = p + k" "0 < n"
    using assms(8,9) by (simp_all add: assembling_def n_def)
  have d: "mailbox_mmio (kdev s)" "\<not> mailbox_size (kdev s) < GXFP_ESPI_RX_OFF + GXFP_ESPI_CHUNK_MAX"
    "gpio_read_done (kdev s)"
    using assms(2) by (auto simp: rx_ready_def espi_consts)
  obtain t where tmp: "irq_rx_tmp (kdev s) = Some t" "length t = 0xe00"
    using assms(2) by (auto simp: rx_ready_def)
  have lw: "length (W (p + k)) = 0xe00"
    using assms(1) by (simp add: mailbox_windows_def GXFP_ESPI_CHUNK_MAX_def)
  have lc: "length c = min (length m - n) 0xe00" by (simp add: c_def min.commute)
  have wc: "take (min (length m - n) 0xe00) (W (p + k)) = c"
    using assms(4) lc unfolding windows_show_def c_def n_def by metis
  have rd: "gxfp_espi_rx_read_window env t s = ((0, W (p + k)), after_window env s)"
    using read_window_eq [OF assms(1) d(1), of t] tmp(2) lw a(6) by (simp add: memcpy_at_0)
  have fit: "n + length c \<le> length rx" using lc a(4) assms(5,7) by simp
  have t': "take (n + length c) (memcpy_at rx n c) = take (n + length c) m"
    using append_chunk [OF a(5) _ fit c_def] a(4) by simp
  have lr: "length (memcpy_at rx n c) = length rx" using fit by simp
  have mne: "m \<noteq> []" using a(4) by auto
  show ?thesis
  proof (cases "0xe00 * Suc k < length m")
    case True
    then have "length c = 0xe00" "0xe00 * Suc k = 0xe00 + n" using lc by (simp_all add: n_def)
    then show ?thesis
      using True a d tmp rd wc t' [unfolded add.commute [of n]] lr lc fit lw mne assms(2,5,6,7)
      by (simp add: gxfp_espi_irq_read_step_def step_post_def Let_def GXFP_ESPI_CHUNK_MAX_def
          rx_ready_def assembling_def read_done_pulse_once gxfp_espi_rx_chunk_calc_def)
  next
    case False
    then have "length m - n \<le> 0xe00" "n + length c = length m" using lc a(4)
      by (simp_all add: n_def)
    then show ?thesis
      using False a d tmp rd wc t' lr lc fit lw mne assms(2,5,6,7)
      by (simp add: gxfp_espi_irq_read_step_def step_post_def Let_def GXFP_ESPI_CHUNK_MAX_def
          rx_ready_def assembling_def set_read_done_pulses gxfp_espi_rx_chunk_calc_def)
  qed
qed

lemma irq_step:
  assumes "mailbox_windows env W" and "rx_ready s" and "mp_package m" and "windows_show W p m"
    and "length m \<le> cap" and "0xe00 \<le> cap" and "length rx = cap" and "assembling p m k rx s"
  shows "step_post p m k rx (gxfp_espi_irq_read_step env (Some rx) cap s) s"
  using irq_step_first [OF assms(1-7)] irq_step_next [OF assms(1-7)] assms(8)
  by (cases "k = 0") auto

subsection \<open>The synchronous read\<close>

lemma read_loop_done:
  "\<not> off < tot \<Longrightarrow> read_assemble_loop env cap tot off dst s = ((0, dst), s)"
  by (subst read_assemble_loop.simps) simp

text \<open>A package that fits one window is read whole.\<close>

lemma espi_read_single:
  assumes "mailbox_windows env W" and "rx_ready s" and "mp_package m"
    and "windows_show W (read_done_pulses (kev s)) m" and "length m \<le> 0xe00"
    and "0xe00 \<le> cap" and "length rx = cap"
  shows "\<exists>rx' s'. gxfp_espi_read env (Some rx) cap s = ((0, Some rx', length m), s') \<and>
    take (length m) rx' = m \<and> length rx' = cap \<and> kdev s' = kdev s \<and>
    read_done_pulses (kev s') = Suc (read_done_pulses (kev s)) \<and>
    live_blocks (kev s') = live_blocks (kev s) \<and> written (kev s') = written (kev s)"
proof -
  let ?w = "W (read_done_pulses (kev s))"
  have d: "mailbox_mmio (kdev s)" "\<not> mailbox_size (kdev s) < GXFP_ESPI_RX_OFF + GXFP_ESPI_CHUNK_MAX"
    "gpio_read_done (kdev s)"
    using assms(2) by (auto simp: rx_ready_def espi_consts)
  have lw: "length ?w = 0xe00"
    using assms(1) by (simp add: mailbox_windows_def GXFP_ESPI_CHUNK_MAX_def)
  have w0: "take (length m) ?w = m"
    using assms(4,5) unfolding windows_show_def
    by (metis add_0_right drop0 take_all mult_0_right)
  have t: "take (length m) (memcpy_at (memcpy_at rx 0 (zeros cap)) 0 ?w) = m"
    using lw w0 assms(5) by (simp add: take_memcpy_at_0)
  have l: "length (memcpy_at (memcpy_at rx 0 (zeros cap)) 0 ?w) = cap"
    using lw assms(6,7) by simp
  have st: "gxfp_espi_rx_start_packet env (memcpy_at rx 0 (zeros cap)) cap False s =
      ((Inr (length m, length m), memcpy_at (memcpy_at rx 0 (zeros cap)) 0 ?w), after_window env s)"
    using start_packet_ok [OF assms(1) d(1) assms(3,4), of cap "memcpy_at rx 0 (zeros cap)" False]
      assms(5,6,7) by (simp add: min_absorb1)
  show ?thesis
    using st d t l assms(6)
    by (simp add: gxfp_espi_read_def gxfp_espi_read_assemble_def read_loop_done Let_def
        GXFP_ESPI_CHUNK_MAX_def read_done_pulse_once)
qed

text \<open>
  A package that needs a second window is not: no pulse separates the first window from the
  second, so the device still shows the first one and its front is copied again.
\<close>

lemma espi_read_two_windows:
  assumes "mailbox_windows env W" and "rx_ready s" and "mp_package m"
    and "windows_show W (read_done_pulses (kev s)) m" and "0xe00 < length m"
    and "length m \<le> 2 * 0xe00" and "length m \<le> cap" and "length rx = cap"
  shows "\<exists>rx' s'. gxfp_espi_read env (Some rx) cap s = ((0, Some rx', length m), s') \<and>
    take (length m) rx' = take 0xe00 m @ take (length m - 0xe00) m"
proof -
  let ?w = "W (read_done_pulses (kev s))"
  let ?j = "length m - 0xe00"
  have d: "mailbox_mmio (kdev s)" "\<not> mailbox_size (kdev s) < GXFP_ESPI_RX_OFF + GXFP_ESPI_CHUNK_MAX"
    "gpio_read_done (kdev s)"
    using assms(2) by (auto simp: rx_ready_def espi_consts)
  obtain t where tmp: "irq_rx_tmp (kdev s) = Some t" "length t = 0xe00"
    using assms(2) by (auto simp: rx_ready_def)
  have lw: "length ?w = 0xe00"
    using assms(1) by (simp add: mailbox_windows_def GXFP_ESPI_CHUNK_MAX_def)
  have "take (length (take 0xe00 m)) ?w = take 0xe00 m"
    using assms(4) unfolding windows_show_def by (metis add_0_right drop0 mult_0_right)
  then have w: "?w = take 0xe00 m" using lw assms(5) by simp
  let ?d = "memcpy_at (memcpy_at rx 0 (zeros cap)) 0 ?w"
  have st: "gxfp_espi_rx_start_packet env (memcpy_at rx 0 (zeros cap)) cap False s =
      ((Inr (length m, 0xe00), ?d), after_window env s)"
    using start_packet_ok [OF assms(1) d(1) assms(3,4), of cap "memcpy_at rx 0 (zeros cap)" False]
      assms(5,7,8) by (simp add: min_absorb2)
  have rd: "gxfp_espi_rx_read_window env t (after_window env s) =
      ((0, ?w), after_window env (after_window env s))"
    using read_window_eq [OF assms(1), of "after_window env s" t] d(1) tmp(2) lw
    by (simp add: memcpy_at_0)
  have lp: "\<exists>s'. read_assemble_loop env cap (length m) 0xe00 ?d (after_window env s) =
      ((0, memcpy_at ?d 0xe00 (take ?j ?w)), s')"
    using assms(5,6,7) tmp rd
    by (subst read_assemble_loop.simps)
       (simp add: gxfp_espi_rx_chunk_calc_def Let_def GXFP_ESPI_CHUNK_MAX_def read_loop_done)
  have ld: "length ?d = cap" using lw assms(5,7,8) by simp
  have d1: "take 0xe00 ?d = take 0xe00 m" using lw w by (simp add: take_memcpy_at_0)
  have "take (0xe00 + length (take ?j ?w)) (memcpy_at ?d 0xe00 (take ?j ?w)) =
      take 0xe00 ?d @ take ?j ?w"
    by (rule take_memcpy_at_end) (use ld assms(5,7) in simp)
  moreover have "0xe00 + length (take ?j ?w) = length m" using lw assms(5,6) by simp
  moreover have "take ?j ?w = take ?j m"
  proof -
    have "?j \<le> 0xe00" using assms(6) by simp
    then show ?thesis by (simp add: w min_absorb1)
  qed
  ultimately have "take (length m) (memcpy_at ?d 0xe00 (take ?j ?w)) = take 0xe00 m @ take ?j m"
    using d1 by simp
  then show ?thesis
    using st lp d assms(5,7)
    by (auto simp: gxfp_espi_read_def gxfp_espi_read_assemble_def Let_def GXFP_ESPI_CHUNK_MAX_def)
qed

section \<open>A concrete device\<close>

text \<open>
  An environment in which the device shows the windows \<open>W\<close>, every allocation succeeds, fresh
  memory holds \<open>0x5a\<close> and the clocks stand at fixed values: the instance on which the properties
  of the kernel theories are exercised.
\<close>

definition sim_env :: "(nat \<Rightarrow> bytes) \<Rightarrow> kenv" where
  "sim_env W = \<lparr>env_readq = (\<lambda>h off. le64_word (drop (off - GXFP_ESPI_RX_OFF) (W (read_done_pulses h)))),
     env_kmalloc = (\<lambda>h n. True), env_garbage = (\<lambda>h i. 0x5a), env_ktime_ns = (\<lambda>h. 7),
     env_real_ts = (\<lambda>h. (61, 5000000)), env_capable = (\<lambda>h. True),
     env_copy_user_fails = (\<lambda>h. False), env_lock_interrupted = (\<lambda>h. 0),
     env_misc_register = (\<lambda>h. 0), env_kfifo_init = (\<lambda>h. 0)\<rparr>"

definition sim_windows :: "bytes \<Rightarrow> nat \<Rightarrow> bytes" where
  "sim_windows m j = take 0xe00 (drop (0xe00 * j) m @ zeros 0xe00)"

definition sim_dev :: gxfp_dev where
  "sim_dev = \<lparr>mailbox_seq16 = 0x8881, mailbox_mmio = True, mailbox_size = 0x1000,
     gpio_write_done = True, gpio_read_done = True, gpio_irq = True, hw_irq = 31,
     irq_rx_buf = Some (zeros 0x20000), irq_rx_cap = 0x20000, irq_rx_tmp = Some (zeros 0xe00),
     assem_active = False, assem_total = 0, assem_copied = 0, misc_registered = True,
     rxq_fifo = [], rxq_buf = True, rxq_inited = True, rxq_reader_open = False\<rparr>"

definition sim_state :: kst where
  "sim_state = \<lparr>kdev = sim_dev, kev = []\<rparr>"

lemma length_sim_windows [simp]: "length (sim_windows m j) = 0xe00"
  by (simp add: sim_windows_def)

lemma sim_env_windows: "(\<And>j. length (W j) = 0xe00) \<Longrightarrow> mailbox_windows (sim_env W) W"
  by (simp add: mailbox_windows_def sim_env_def espi_consts)

lemma sim_windows_show: "windows_show (sim_windows m) 0 m"
  by (auto simp: windows_show_def sim_windows_def min_def)

lemma sim_state_ready: "rx_ready sim_state"
  by (simp add: rx_ready_def sim_state_def sim_dev_def espi_consts)

lemma mp_package_bytes:
  assumes "mp_type_ok (drop_bit 4 f)" and "length pl < GXFP_GOODIX_MP_LEN_MAX"
  shows "mp_package (mp_bytes f pl)"
  using mp_head_ok_bytes [OF assms, of "[]"] mp_head_nth [of f pl "[]"] assms
  by (simp add: mp_package_def unat_of_nat_16 GXFP_GOODIX_MP_LEN_MAX_def)

section \<open>Properties\<close>

text \<open>C14: A write either puts exactly the wrapped package into the mailbox (header with the
  length, its checksum and the next sequence number, then the package, then zero padding to eight
  bytes, stored at consecutive registers from the start of the mailbox), tells the device once, and advances the sequence number; or it fails and changes nothing.
  It succeeds exactly when the mailbox is mapped, the package is not empty, the wrapped package fits
  the 512-byte window and the allocation succeeds. No memory is leaked either way.\<close>

theorem espi_write_all_or_nothing:
  "\<exists>r s'. gxfp_espi_write env (Some mp) (length mp) s = (r, s') \<and>
     live_blocks (kev s') = live_blocks (kev s) \<and>
     (if write_ready env (length mp) s
      then r = 0 \<and> written (kev s') = written (kev s) @ enumerate 0 (espi_wrap (next_seq s) mp) \<and>
           write_done_pulses (kev s') =
             write_done_pulses (kev s) + (if gpio_write_done (kdev s) then 1 else 0) \<and>
           kdev s' = (kdev s)\<lparr>mailbox_seq16 := mailbox_seq16 (kdev s) + 1\<rparr>
      else r < 0 \<and> s' = s)"
proof (cases "write_ready env (length mp) s")
  case True
  then show ?thesis
    using espi_write_ok [OF True] by (simp add: after_write_views espi_len_aligned)
next
  case False
  then show ?thesis using espi_write_fail [OF False] by force
qed

text \<open>The synchronous read delivers a package that fits one read window exactly as the device
  presents it, with one read-done pulse and no allocation.\<close>

theorem espi_read_one_window:
  assumes "mailbox_windows env W" and "rx_ready s" and "mp_package m"
    and "windows_show W (read_done_pulses (kev s)) m" and "length m \<le> 0xe00"
    and "0xe00 \<le> cap" and "length rx = cap"
  shows "\<exists>rx' s'. gxfp_espi_read env (Some rx) cap s = ((0, Some rx', length m), s') \<and>
    take (length m) rx' = m \<and> kdev s' = kdev s \<and>
    read_done_pulses (kev s') = Suc (read_done_pulses (kev s)) \<and>
    live_blocks (kev s') = live_blocks (kev s)"
  using espi_read_single [OF assms] by blast

theorem espi_read_one_window_witness:
  "\<exists>rx' s'. gxfp_espi_read (sim_env (sim_windows (mp_bytes 0xA0 [1, 2, 3]))) (Some (zeros 0x1000))
       0x1000 sim_state = ((0, Some rx', 7), s') \<and> take 7 rx' = mp_bytes 0xA0 [1, 2, 3]"
  using espi_read_one_window [OF sim_env_windows sim_state_ready mp_package_bytes,
      of "sim_windows (mp_bytes 0xA0 [1, 2, 3])" "0xA0" "[1, 2, 3]" "0x1000" "zeros 0x1000"]
    sim_windows_show [of "mp_bytes 0xA0 [1, 2, 3]"]
  by (auto simp: mp_type_ok_def mp_type_defs GXFP_GOODIX_MP_LEN_MAX_def sim_state_def)

text \<open>A package longer than one read window is not read correctly by the synchronous path. No
  read-done pulse is sent between the first and the second window, so a device that shows the next
  window only after a pulse shows the first one again, and the call returns success with the front
  of the package repeated in place of its tail.\<close>

theorem espi_read_repeats_first_window:
  assumes "mailbox_windows env W" and "rx_ready s" and "mp_package m"
    and "windows_show W (read_done_pulses (kev s)) m" and "0xe00 < length m"
    and "length m \<le> 2 * 0xe00" and "length m \<le> cap" and "length rx = cap"
  shows "\<exists>rx' s'. gxfp_espi_read env (Some rx) cap s = ((0, Some rx', length m), s') \<and>
    take (length m) rx' = take 0xe00 m @ take (length m - 0xe00) m"
  by (rule espi_read_two_windows [OF assms])

theorem espi_read_repeats_first_window_witness:
  "\<exists>rx' s'. gxfp_espi_read (sim_env (sim_windows (mp_bytes 0xA0 (zeros 0xf00)))) (Some (zeros 0x1000))
       0x1000 sim_state = ((0, Some rx', 0xf04), s') \<and>
     take 0xf04 rx' = take 0xe00 (mp_bytes 0xA0 (zeros 0xf00)) @ take 0x104 (mp_bytes 0xA0 (zeros 0xf00))"
  using espi_read_repeats_first_window [OF sim_env_windows sim_state_ready mp_package_bytes,
      of "sim_windows (mp_bytes 0xA0 (zeros 0xf00))" "0xA0" "zeros 0xf00" "0x1000" "zeros 0x1000"]
    sim_windows_show [of "mp_bytes 0xA0 (zeros 0xf00)"]
  by (auto simp: mp_type_ok_def mp_type_defs GXFP_GOODIX_MP_LEN_MAX_def sim_state_def)

end
