(* ===== verification/Kernel_Cmd.thy ===== *)
theory Kernel_Cmd
  imports Espi_Transport Goodix_Proto
begin

unbundle bit_operations_syntax

text \<open>
  The command layer of the kernel module (\<open>kernel/cmd/\<close>): one Goodix request/response exchange
  over the mailbox with retries (\<open>gxfp_xfer\<close>), and the commands built on it: firmware version,
  MCU state, power notification, sleep, reset, TLS unlock, protocol init, configuration upload and
  the session recovery sequence. What every command promises whatever the device answers (it
  leaks no memory, touches no state of the driver but the sequence number and the scratch window)
  is the locale \<open>kernel_command\<close>, interpreted on each command; the retry loops of the recovery
  sequence are proved once in it.
\<close>

section \<open>Definitions\<close>

definition GXFP_CMD_FIRMWARE_VERSION :: u8 where "GXFP_CMD_FIRMWARE_VERSION = 0xA8"
definition GXFP_CMD_TRIGGER_MCU_STATE :: u8 where "GXFP_CMD_TRIGGER_MCU_STATE = 0xAF"
definition GXFP_CMD_QUERY_MCU_STATE :: u8 where "GXFP_CMD_QUERY_MCU_STATE = 0xAE"
definition GXFP_CMD_ACK :: u8 where "GXFP_CMD_ACK = 0xB0"
definition GXFP_CMD_UPLOAD_CONFIG_MCU :: u8 where "GXFP_CMD_UPLOAD_CONFIG_MCU = 0x90"
definition GXFP_CMD_NOTIFY_POWER_STATE :: u8 where "GXFP_CMD_NOTIFY_POWER_STATE = 0x0E"
definition GXFP_CMD_PROTOCOL_INIT :: u8 where "GXFP_CMD_PROTOCOL_INIT = 0x01"
definition GXFP_CMD_SLEEP_CLEANUP :: u8 where "GXFP_CMD_SLEEP_CLEANUP = 0xD2"
definition GXFP_CMD_RESET_DEVICE :: u8 where "GXFP_CMD_RESET_DEVICE = 0xA1"
definition GXFP_CMD_TLS_UNLOCK :: u8 where "GXFP_CMD_TLS_UNLOCK = 0xD4"
definition GXFP_MAX_VERSION_RAW :: nat where "GXFP_MAX_VERSION_RAW = 512"
definition GXFP_MAX_VERSION_ASCII :: nat where "GXFP_MAX_VERSION_ASCII = 32"
definition GXFP_MAX_MCU_STATE_PAYLOAD :: nat where "GXFP_MAX_MCU_STATE_PAYLOAD = 256"
definition GXFP_DEFAULT_RETRY_COUNT :: nat where "GXFP_DEFAULT_RETRY_COUNT = 8"
definition GXFP_RESET_DELAY_US :: nat where "GXFP_RESET_DELAY_US = 200000"
definition GXFP_MCU_STATE_LEN :: nat where "GXFP_MCU_STATE_LEN = 20"
definition GXFP_RESET_FLAG_MCU_SENSOR :: u8 where "GXFP_RESET_FLAG_MCU_SENSOR = 0x02 OR 0x01"

subsection \<open>The exchange (\<open>gxfp_cmd.c\<close>)\<close>

record gxfp_xfer_req =
  rq_req_cmd :: u8
  rq_expect_cmd :: u8
  rq_require_proto_ck_ok :: bool
  rq_tries :: nat
  rq_retry_delay_us :: nat
  rq_req_payload :: ptr
  rq_req_payload_len :: nat
  rq_resp_payload :: ptr
  rq_resp_payload_cap :: nat

text \<open>What an exchange leaves in the caller's memory: the response buffer and, on success only,
  \<open>*out_frame\<close> with \<open>*out_resp_payload_len\<close> (its payload length).\<close>

record xfer_out =
  xo_resp_payload :: ptr
  xo_frame :: "gxfp_frame_parsed option"

definition xfer_none :: "gxfp_xfer_req \<Rightarrow> xfer_out" where
  "xfer_none req = \<lparr>xo_resp_payload = rq_resp_payload req, xo_frame = None\<rparr>"

text \<open>The body of the retry loop after a package has been received: \<open>None\<close> is \<open>continue\<close>.\<close>

definition xfer_accept ::
  "gxfp_xfer_req \<Rightarrow> ptr \<Rightarrow> nat \<Rightarrow> kst \<Rightarrow> ((int \<times> xfer_out) option \<times> kst)" where
  "xfer_accept req rx rx_len s =
    (case gxfp_parse_mp_frame rx (min rx_len GXFP_MAILBOX_MIN_SIZE) (Some mp_frame_zero) of
       (True, Some mp) \<Rightarrow>
         (case gxfp_parse_goodix_body_k (mp_payload mp) (unat (mp_payload_len mp))
                 (Some frame_zero) of
            (True, Some p) \<Rightarrow>
              if \<not> fr_valid p then (None, gxfp_busy_wait_us (rq_retry_delay_us req) s)
              else if rq_require_proto_ck_ok req \<and> \<not> fr_proto_checksum_ok p
                then (None, gxfp_busy_wait_us (rq_retry_delay_us req) s)
              else if fr_cmd p \<noteq> rq_expect_cmd req
                then (None, gxfp_busy_wait_us (rq_retry_delay_us req)
                              (trace_logf ''cmd_unexpected'' s))
              else
                (case rq_resp_payload req of
                   Some resp \<Rightarrow>
                     if unat (fr_payload_len p) > rq_resp_payload_cap req
                     then (Some (- EMSGSIZE, xfer_none req), s)
                     else
                       let resp = memcpy_at resp 0
                                    (ptr_bytes (fr_payload p) (unat (fr_payload_len p)))
                       in (Some (0, \<lparr>xo_resp_payload = Some resp,
                                     xo_frame = Some (p\<lparr>fr_payload := Some resp\<rparr>)\<rparr>),
                           trace_logf ''cmd_ok'' s)
                 | None \<Rightarrow>
                     (Some (0, \<lparr>xo_resp_payload = None, xo_frame = Some (p\<lparr>fr_payload := None\<rparr>)\<rparr>),
                      trace_logf ''cmd_ok'' s))
          | _ \<Rightarrow> (None, gxfp_busy_wait_us (rq_retry_delay_us req) s))
     | _ \<Rightarrow> (None, gxfp_busy_wait_us (rq_retry_delay_us req) (trace_logf ''cmd_bad_mp'' s)))"

fun xfer_loop ::
  "kenv \<Rightarrow> gxfp_xfer_req \<Rightarrow> ptr \<Rightarrow> nat \<Rightarrow> nat \<Rightarrow> ptr \<Rightarrow> kst \<Rightarrow> (int \<times> xfer_out) \<times> kst" where
  "xfer_loop env req tx frame_len 0 rx s =
     ((- ETIMEDOUT, xfer_none req), trace_logf ''cmd_timeout'' s)"
| "xfer_loop env req tx frame_len (Suc n) rx s =
     (case gxfp_espi_xfer env tx frame_len rx GXFP_MAILBOX_MIN_SIZE s of
        ((ret, rx, rx_len), s) \<Rightarrow>
          if ret \<noteq> 0
          then xfer_loop env req tx frame_len n rx
                 (gxfp_busy_wait_us (rq_retry_delay_us req) (trace_logf ''cmd_retry'' s))
          else
            (case xfer_accept req rx rx_len s of
               (None, s) \<Rightarrow> xfer_loop env req tx frame_len n rx s
             | (Some r, s) \<Rightarrow> (r, s)))"

text \<open>Framing the request and the retry loop, with the three buffers allocated.\<close>

definition xfer_run ::
  "kenv \<Rightarrow> gxfp_xfer_req \<Rightarrow> bytes \<Rightarrow> bytes \<Rightarrow> bytes \<Rightarrow> kst \<Rightarrow> (int \<times> xfer_out) \<times> kst" where
  "xfer_run env req tx body rx s =
    (case gxfp_goodix_build_frame_k (rq_req_cmd req) (rq_req_payload req)
            (rq_req_payload_len req) (Some body) GXFP_TX_BUFFER_SIZE of
       (body_len, body) \<Rightarrow>
         if body_len < 0 then ((body_len, xfer_none req), s)
         else
           (case gxfp_mp_build_frame GXFP_MP_TYPE_A body (nat body_len) (Some tx)
                   GXFP_TX_BUFFER_SIZE of
              (frame_len, tx) \<Rightarrow>
                if frame_len < 0 then ((frame_len, xfer_none req), s)
                else
                  xfer_loop env req tx (nat frame_len)
                    (if rq_tries req \<noteq> 0 then rq_tries req else 1) (Some rx)
                    (trace_logf ''cmd_req'' s)))"

definition gxfp_xfer :: "kenv \<Rightarrow> gxfp_xfer_req \<Rightarrow> kst \<Rightarrow> (int \<times> xfer_out) \<times> kst" where
  "gxfp_xfer env req s =
    (if rq_req_payload_len req \<noteq> 0 \<and> rq_req_payload req = None then ((- EINVAL, xfer_none req), s)
     else if rq_resp_payload req \<noteq> None \<and> rq_resp_payload_cap req = 0
       then ((- EINVAL, xfer_none req), s)
     else if rq_resp_payload req = None \<and> rq_resp_payload_cap req \<noteq> 0
       then ((- EINVAL, xfer_none req), s)
     else
       (case kmalloc env GXFP_TX_BUFFER_SIZE s of
          (None, s) \<Rightarrow> ((- ENOMEM, xfer_none req), s)
        | (Some tx, s) \<Rightarrow>
       (case kmalloc env GXFP_TX_BUFFER_SIZE s of
          (None, s) \<Rightarrow> ((- ENOMEM, xfer_none req), kfree GXFP_TX_BUFFER_SIZE s)
        | (Some body, s) \<Rightarrow>
       (case kmalloc env GXFP_MAILBOX_MIN_SIZE s of
          (None, s) \<Rightarrow>
            ((- ENOMEM, xfer_none req), kfree GXFP_TX_BUFFER_SIZE (kfree GXFP_TX_BUFFER_SIZE s))
        | (Some rx, s) \<Rightarrow>
            (case xfer_run env req tx body rx s of
               (r, s) \<Rightarrow>
                 (r, kfree GXFP_TX_BUFFER_SIZE (kfree GXFP_TX_BUFFER_SIZE
                       (kfree GXFP_MAILBOX_MIN_SIZE s))))))))"

text \<open>Result: return code, response buffer, \<open>*out_resp_payload_len\<close> (0 as the callers
  initialise it, when the exchange fails).\<close>

definition gxfp_cmd_xfer ::
  "kenv \<Rightarrow> u8 \<Rightarrow> ptr \<Rightarrow> nat \<Rightarrow> u8 \<Rightarrow> ptr \<Rightarrow> nat \<Rightarrow> nat \<Rightarrow> nat \<Rightarrow> kst \<Rightarrow> (int \<times> ptr \<times> nat) \<times> kst" where
  "gxfp_cmd_xfer env req_cmd req_payload req_payload_len expect_cmd resp_payload resp_payload_cap
      tries retry_delay_us s =
    (if resp_payload = None \<or> resp_payload_cap = 0 then ((- EINVAL, resp_payload, 0), s)
     else
       (case gxfp_xfer env \<lparr>rq_req_cmd = req_cmd, rq_expect_cmd = expect_cmd,
               rq_require_proto_ck_ok = True, rq_tries = tries,
               rq_retry_delay_us = retry_delay_us, rq_req_payload = req_payload,
               rq_req_payload_len = req_payload_len, rq_resp_payload = resp_payload,
               rq_resp_payload_cap = resp_payload_cap\<rparr> s of
          ((ret, xo), s) \<Rightarrow>
            if ret \<noteq> 0 then ((ret, xo_resp_payload xo, 0), s)
            else ((0, xo_resp_payload xo,
                   case xo_frame xo of None \<Rightarrow> 0 | Some p \<Rightarrow> unat (fr_payload_len p)), s)))"

subsection \<open>Configuration upload (\<open>gxfp_cmd_mcu_config.c\<close>)\<close>

definition gxfp_cmd_upload_config_mcu :: "kenv \<Rightarrow> ptr \<Rightarrow> nat \<Rightarrow> kst \<Rightarrow> int \<times> kst" where
  "gxfp_cmd_upload_config_mcu env cfg cfg_len s =
    (if cfg = None \<or> cfg_len = 0 then (- EINVAL, s)
     else
       (case gxfp_cmd_xfer env GXFP_CMD_UPLOAD_CONFIG_MCU cfg cfg_len GXFP_CMD_ACK
               (Some (fresh env (kev s) 32)) 32 GXFP_DEFAULT_RETRY_COUNT
               GXFP_DEFAULT_TIMEOUT_US s of
          ((rc, _), s) \<Rightarrow> (rc, s)))"

subsection \<open>MCU state (\<open>gxfp_cmd_mcu_state.c\<close>)\<close>

record gxfp_mcu_state_k =
  ms_version :: u8
  ms_b1_raw :: u8
  ms_is_pov_image_valid :: u8
  ms_is_tls_connected :: u8
  ms_is_tls_used :: u8
  ms_is_locked :: u8
  ms_reserved :: bytes

definition mcu_state_zero :: gxfp_mcu_state_k where
  "mcu_state_zero = \<lparr>ms_version = 0, ms_b1_raw = 0, ms_is_pov_image_valid = 0,
     ms_is_tls_connected = 0, ms_is_tls_used = 0, ms_is_locked = 0, ms_reserved = zeros 18\<rparr>"

definition gxfp_cmd_parse_mcu_state_payload ::
  "ptr \<Rightarrow> nat \<Rightarrow> gxfp_mcu_state_k option \<Rightarrow> int \<times> gxfp_mcu_state_k option" where
  "gxfp_cmd_parse_mcu_state_payload buf len out =
    (case (buf, out) of
       (Some b, Some _) \<Rightarrow>
         if len < GXFP_MCU_STATE_LEN then (- EBADMSG, Some mcu_state_zero)
         else (0, Some \<lparr>ms_version = b ! 0, ms_b1_raw = b ! 1,
                ms_is_pov_image_valid = drop_bit 0 (b ! 1) AND 1,
                ms_is_tls_connected = drop_bit 1 (b ! 1) AND 1,
                ms_is_tls_used = drop_bit 2 (b ! 1) AND 1,
                ms_is_locked = drop_bit 3 (b ! 1) AND 1,
                ms_reserved = take 18 (drop 2 b)\<rparr>)
     | _ \<Rightarrow> (- EINVAL, out))"

text \<open>The trigger payload carries the milliseconds of the current minute.\<close>

definition mcu_trigger_payload :: "int \<times> int \<Rightarrow> bytes" where
  "mcu_trigger_payload ts =
    (let ts_u16 = (word_of_int (fst ts mod 60 * 1000 + snd ts div 1000000) :: u16)
     in [0x55, lo8 ts_u16, hi8 ts_u16, 0, 0])"

definition gxfp_do_query_mcu_state ::
  "kenv \<Rightarrow> gxfp_mcu_state_k option \<Rightarrow> kst \<Rightarrow> (int \<times> gxfp_mcu_state_k option) \<times> kst" where
  "gxfp_do_query_mcu_state env out s =
    (case out of
       None \<Rightarrow> ((- EINVAL, out), s)
     | Some _ \<Rightarrow>
         if \<not> mailbox_mmio (kdev s) \<or> mailbox_size (kdev s) < GXFP_MAILBOX_MIN_SIZE
         then ((- ENODEV, Some mcu_state_zero), s)
         else
           (case gxfp_cmd_xfer env GXFP_CMD_TRIGGER_MCU_STATE
                   (Some (mcu_trigger_payload (env_real_ts env (kev s)))) 5
                   GXFP_CMD_QUERY_MCU_STATE
                   (Some (fresh env (kev s) GXFP_MAX_MCU_STATE_PAYLOAD))
                   GXFP_MAX_MCU_STATE_PAYLOAD
                   GXFP_DEFAULT_RETRY_COUNT GXFP_DEFAULT_TIMEOUT_US s of
              ((ret, payload, payload_len), s) \<Rightarrow>
                if ret \<noteq> 0 then ((ret, Some mcu_state_zero), s)
                else (gxfp_cmd_parse_mcu_state_payload payload payload_len (Some mcu_state_zero), s)))"

definition gxfp_cmd_query_mcu_state ::
  "kenv \<Rightarrow> gxfp_mcu_state_k option \<Rightarrow> kst \<Rightarrow> (int \<times> gxfp_mcu_state_k option) \<times> kst" where
  "gxfp_cmd_query_mcu_state env out s = gxfp_do_query_mcu_state env out s"

subsection \<open>Power, reset and recovery (\<open>gxfp_cmd_reset.c\<close>)\<close>

text \<open>The exchange the five acknowledged commands share: eight bytes for the acknowledgement, one
  try.\<close>

definition ack_xfer :: "kenv \<Rightarrow> u8 \<Rightarrow> bytes \<Rightarrow> kst \<Rightarrow> int \<times> kst" where
  "ack_xfer env cmd payload s =
    (case gxfp_cmd_xfer env cmd (Some payload) (length payload) GXFP_CMD_ACK
            (Some (fresh env (kev s) 8)) 8 1 GXFP_DEFAULT_TIMEOUT_US s of
       ((rc, _), s) \<Rightarrow> (rc, s))"

definition gxfp_cmd_notify_power_state :: "kenv \<Rightarrow> u8 \<Rightarrow> kst \<Rightarrow> int \<times> kst" where
  "gxfp_cmd_notify_power_state env state s =
    ack_xfer env GXFP_CMD_NOTIFY_POWER_STATE [state] s"

definition gxfp_cmd_sleep_cleanup :: "kenv \<Rightarrow> nat \<Rightarrow> kst \<Rightarrow> int \<times> kst" where
  "gxfp_cmd_sleep_cleanup env post_delay_ms s =
    (case ack_xfer env GXFP_CMD_SLEEP_CLEANUP [0, 0] s of
       (rc, s) \<Rightarrow> (rc, if post_delay_ms \<noteq> 0 then ev (EvMsleep post_delay_ms) s else s))"

definition gxfp_cmd_reset_device :: "kenv \<Rightarrow> u8 \<Rightarrow> kst \<Rightarrow> int \<times> kst" where
  "gxfp_cmd_reset_device env reset_flags s =
    ack_xfer env GXFP_CMD_RESET_DEVICE [reset_flags, 0x14] s"

definition gxfp_cmd_tls_unlock :: "kenv \<Rightarrow> kst \<Rightarrow> int \<times> kst" where
  "gxfp_cmd_tls_unlock env s = ack_xfer env GXFP_CMD_TLS_UNLOCK [0, 0] s"

definition gxfp_cmd_protocol_init :: "kenv \<Rightarrow> kst \<Rightarrow> int \<times> kst" where
  "gxfp_cmd_protocol_init env s = ack_xfer env GXFP_CMD_PROTOCOL_INIT [0, 0, 0, 0] s"

text \<open>\<open>for (tries = 0; tries < n; tries++)\<close> around a command, with a pause between tries.\<close>

fun retry_loop :: "(kst \<Rightarrow> int \<times> kst) \<Rightarrow> (kst \<Rightarrow> kst) \<Rightarrow> nat \<Rightarrow> kst \<Rightarrow> int \<times> kst" where
  "retry_loop cmd pause 0 s = (0, s)"
| "retry_loop cmd pause (Suc n) s =
     (case cmd s of
        (r, s) \<Rightarrow>
          if r = 0 then (0, s)
          else if n = 0 then (r, s)
          else retry_loop cmd pause n (pause s))"

definition first_err :: "int \<Rightarrow> int \<Rightarrow> int" where
  "first_err rc r = (if r \<noteq> 0 \<and> rc = 0 then r else rc)"

definition gxfp_cmd_recover_session :: "kenv \<Rightarrow> bool \<Rightarrow> kst \<Rightarrow> int \<times> kst" where
  "gxfp_cmd_recover_session env unstick_tls s =
    (let (r, s) = retry_loop (gxfp_cmd_notify_power_state env 1) (ev (EvUsleepRange 10000 11000)) 3 s;
         rc = first_err 0 r;
         s = gxfp_busy_wait_us GXFP_RESET_DELAY_US s;
         (rc, s) =
           (if unstick_tls then
              let (r, s) = gxfp_cmd_protocol_init env s;
                  rc = first_err rc r;
                  s = gxfp_busy_wait_us 1000 s;
                  (r, s) = gxfp_cmd_tls_unlock env s;
                  rc = first_err rc r
              in (rc, gxfp_busy_wait_us 1000 s)
            else (rc, s));
         (r, s) = gxfp_cmd_sleep_cleanup env 200 s;
         rc = first_err rc r;
         (r, s) = retry_loop (gxfp_cmd_reset_device env GXFP_RESET_FLAG_MCU_SENSOR)
                    (gxfp_busy_wait_us 500000) 6 s;
         rc = first_err rc r
     in (rc, gxfp_busy_wait_us GXFP_RESET_DELAY_US s))"

subsection \<open>Firmware version (\<open>gxfp_cmd_version.c\<close>)\<close>

record gxfp_get_version_result =
  gv_status :: u32
  gv_gpio_status :: u32
  gv_tx_status :: u32
  gv_rx_status :: u32
  gv_bytes_read :: u32
  gv_version_ascii :: bytes
  gv_raw :: bytes

definition version_zero :: gxfp_get_version_result where
  "version_zero = \<lparr>gv_status = 0, gv_gpio_status = 0, gv_tx_status = 0, gv_rx_status = 0,
     gv_bytes_read = 0, gv_version_ascii = zeros GXFP_MAX_VERSION_ASCII,
     gv_raw = zeros GXFP_MAX_VERSION_RAW\<rparr>"

fun ascii_loop :: "nat \<Rightarrow> nat \<Rightarrow> bytes \<Rightarrow> bytes \<Rightarrow> bytes \<times> nat" where
  "ascii_loop 0 j data out = (out, j)"
| "ascii_loop (Suc n) j data out =
     (let ch = data ! j
      in if ch = 0 \<or> ch < 0x20 \<or> ch > 0x7e then (out, j)
         else ascii_loop n (Suc j) data (out[j := ch]))"

definition gxfp_extract_ascii_version :: "ptr \<Rightarrow> ptr \<Rightarrow> nat \<Rightarrow> bool \<times> ptr" where
  "gxfp_extract_ascii_version data out out_len =
    (case out of
       None \<Rightarrow> (False, out)
     | Some o1 \<Rightarrow>
         if out_len = 0 then (False, out)
         else
           let o1 = o1[0 := 0]
           in (case data of
                 None \<Rightarrow> (False, Some o1)
               | Some d \<Rightarrow>
                   let (o1, j) = ascii_loop (out_len - 1) 0 d o1
                   in (j \<noteq> 0, Some (o1[j := 0]))))"

definition gxfp_do_get_version ::
  "kenv \<Rightarrow> kst \<Rightarrow> (int \<times> gxfp_get_version_result) \<times> kst" where
  "gxfp_do_get_version env s =
    (let out = version_zero\<lparr>gv_status := word_of_int (- EIO), gv_gpio_status := word_of_int (- EIO),
           gv_tx_status := word_of_int (- EIO), gv_rx_status := word_of_int (- EIO)\<rparr>
     in if \<not> mailbox_mmio (kdev s) \<or> mailbox_size (kdev s) < GXFP_MAILBOX_MIN_SIZE
        then ((- ENODEV, out\<lparr>gv_status := word_of_int (- ENODEV),
                gv_gpio_status := word_of_int (- ENODEV), gv_tx_status := word_of_int (- ENODEV),
                gv_rx_status := word_of_int (- ENODEV)\<rparr>), s)
        else
          (case gxfp_cmd_xfer env GXFP_CMD_FIRMWARE_VERSION (Some [0x01]) 1
                  GXFP_CMD_FIRMWARE_VERSION (Some (fresh env (kev s) GXFP_MAX_VERSION_RAW))
                  GXFP_MAX_VERSION_RAW GXFP_DEFAULT_RETRY_COUNT GXFP_DEFAULT_TIMEOUT_US s of
             ((ret, payload, rx_len), s) \<Rightarrow>
               let out = out\<lparr>gv_tx_status := 0, gv_gpio_status := 0,
                              gv_rx_status := word_of_int (if ret \<noteq> 0 then ret else 0)\<rparr>
               in if ret \<noteq> 0 then ((ret, out\<lparr>gv_status := word_of_int ret\<rparr>), s)
                  else
                    let bytes_read = min rx_len GXFP_MAX_VERSION_RAW;
                        out = out\<lparr>gv_bytes_read := of_nat bytes_read,
                                  gv_raw := memcpy_at (zeros GXFP_MAX_VERSION_RAW) 0
                                              (ptr_bytes payload bytes_read)\<rparr>;
                        ascii = the (snd (gxfp_extract_ascii_version payload
                                   (Some (gv_version_ascii out)) GXFP_MAX_VERSION_ASCII));
                        out = out\<lparr>gv_version_ascii := ascii\<rparr>
                    in if ascii ! 0 = 0
                       then ((0, out\<lparr>gv_status := word_of_int (- ENODATA)\<rparr>), s)
                       else ((0, out\<lparr>gv_status := 0\<rparr>), s)))"

definition gxfp_cmd_get_version ::
  "kenv \<Rightarrow> kst \<Rightarrow> (int \<times> gxfp_get_version_result) \<times> kst" where
  "gxfp_cmd_get_version env s = gxfp_do_get_version env s"


section \<open>What no exchange disturbs\<close>

text \<open>The state after a command differs from the state before only in the sequence number, the
  contents of the scratch window and the history; nothing stays allocated.\<close>

definition kframe :: "kst \<Rightarrow> kst \<Rightarrow> bool" where
  "kframe s s' \<longleftrightarrow>
     (kdev s')\<lparr>mailbox_seq16 := 0, irq_rx_tmp := None\<rparr> =
       (kdev s)\<lparr>mailbox_seq16 := 0, irq_rx_tmp := None\<rparr> \<and>
     (rx_ready s \<longrightarrow> rx_ready s') \<and> live_blocks (kev s') = live_blocks (kev s)"

lemma kframe_refl [simp, intro]: "kframe s s"
  by (simp add: kframe_def)

lemma kframe_trans [trans]: "kframe s t \<Longrightarrow> kframe t u \<Longrightarrow> kframe s u"
  by (auto simp: kframe_def)

lemma kframe_kdev:
  "kdev s' = kdev s \<Longrightarrow> live_blocks (kev s') = live_blocks (kev s) \<Longrightarrow> kframe s s'"
  by (simp add: kframe_def rx_ready_def)

lemma kframe_seq:
  "kdev s' = (kdev s)\<lparr>mailbox_seq16 := q\<rparr> \<Longrightarrow> live_blocks (kev s') = live_blocks (kev s) \<Longrightarrow>
   kframe s s'"
  by (simp add: kframe_def rx_ready_def)

lemma kframe_helpers [simp]:
  "kframe s (gxfp_busy_wait_us us s)"
  "kframe s (trace_logf t s)"
  "kframe s (gxfp_gpio_pulse_read_done s)"
  "kframe s (ev (EvUsleepRange a b) s)"
  "kframe s (ev (EvMsleep a) s)"
  by (simp_all add: kframe_kdev)

lemma kframe_after_write:
  assumes "length wire = n" and "n mod 8 = 0"
  shows "kframe s (after_write n wire s)"
  using after_write_views [OF assms] by (intro kframe_seq) simp_all

lemma espi_write_prefix:
  "gxfp_espi_write env (Some b) n s = gxfp_espi_write env (Some (take n b)) n s"
proof -
  have fill: "espi_tx_fill tx tl q (Some (take n b)) n = espi_tx_fill tx tl q (Some b) n"
    for tx tl q by (simp add: espi_tx_fill_def)
  show ?thesis unfolding gxfp_espi_write_def fill by simp
qed

lemma kframe_write:
  assumes "n \<le> length b"
  shows "kframe s (snd (gxfp_espi_write env (Some b) n s))"
proof (cases "write_ready env n s")
  case True
  then have "write_ready env (length (take n b)) s" using assms by simp
  from espi_write_ok [OF this] show ?thesis
    using assms espi_len_aligned [of n]
    by (subst espi_write_prefix) (auto intro!: kframe_after_write)
next
  case False
  then have "\<not> write_ready env (length (take n b)) s" using assms by simp
  from espi_write_fail [OF this] obtain e where
    "gxfp_espi_write env (Some (take n b)) n s = (- e, s)" using assms by auto
  then show ?thesis by (subst espi_write_prefix) simp
qed

lemma read_window_frame:
  "kdev (snd (gxfp_espi_rx_read_window env dst s)) = kdev s"
  "live_blocks (kev (snd (gxfp_espi_rx_read_window env dst s))) = live_blocks (kev s)"
  "length dst = 0xe00 \<Longrightarrow> length (snd (fst (gxfp_espi_rx_read_window env dst s))) = 0xe00"
  by (simp_all add: gxfp_espi_rx_read_window_def gxfp_mmio_read_qword_aligned_def Let_def
      split_beta GXFP_ESPI_CHUNK_MAX_def)

lemma kframe_window:
  assumes "gxfp_espi_rx_read_window env t s = ((ret, t'), s')" and "irq_rx_tmp (kdev s) = Some t"
  shows "kframe s (upd_dev (\<lambda>d. d\<lparr>irq_rx_tmp := Some t'\<rparr>) s')"
  using read_window_frame [where env = env and dst = t and s = s] assms by (auto simp: kframe_def rx_ready_def)

lemma kframe_start_packet:
  "kframe s (snd (gxfp_espi_rx_start_packet env rx cap v s))"
proof -
  have "snd (gxfp_espi_rx_start_packet env rx cap v s) = snd (gxfp_espi_rx_read_window env rx s)"
    by (simp add: gxfp_espi_rx_start_packet_def Let_def split: prod.split option.split bool.split)
  then show ?thesis using read_window_frame by (simp add: kframe_kdev)
qed

lemma kframe_read_loop: "kframe s (snd (read_assemble_loop env cap tot off dst s))"
proof (induction env cap tot off dst s rule: read_assemble_loop.induct)
  case (1 env cap tot off dst s)
  show ?case
  proof (cases "off < tot")
    case False
    then show ?thesis by (simp add: read_loop_done)
  next
    case True
    show ?thesis
    proof (cases "irq_rx_tmp (kdev s)")
      case None
      then show ?thesis
        by (subst read_assemble_loop.simps) (simp add: Let_def split: prod.split)
    next
      case (Some t)
      obtain chunk pad dr where c: "gxfp_espi_rx_chunk_calc (tot - off) = (chunk, pad, dr)"
        by (metis prod_cases3)
      obtain ret t' s' where w: "gxfp_espi_rx_read_window env t s = ((ret, t'), s')"
        by (metis surj_pair)
      let ?u = "upd_dev (\<lambda>d. d\<lparr>irq_rx_tmp := Some t'\<rparr>) s'"
      let ?v = "if off + chunk < tot then gxfp_busy_wait_us GXFP_DEFAULT_TIMEOUT_US
                   (gxfp_gpio_pulse_read_done ?u) else ?u"
      have u: "kframe s ?u" by (rule kframe_window [OF w Some])
      moreover have uv: "kframe ?u ?v"
        using kframe_trans [OF kframe_helpers(3) kframe_helpers(1)] by simp
      moreover have "kframe ?v (snd (read_assemble_loop env cap tot (off + chunk)
          (memcpy_at dst off (take chunk t')) ?v))"
        if "ret = 0" "\<not> off + chunk > cap"
        using 1 [OF True refl refl c [symmetric] refl Some that(2) w [symmetric] refl refl _
            refl refl refl] that(1) by simp
      ultimately show ?thesis
        using True Some c w
        by (subst read_assemble_loop.simps) (auto simp: Let_def intro: kframe_trans)
    qed
  qed
qed

lemma read_assemble_cases:
  obtains (early) r s' where "gxfp_espi_read_assemble env (Some d0) cap s = (r, s')"
      "s' = s" "r = (- EINVAL, Some d0, 0) \<or> r = (- ENODEV, Some d0, 0)"
  | (start) ret d1 s1 where "0xe00 \<le> cap"
      "gxfp_espi_rx_start_packet env (memcpy_at d0 0 (zeros cap)) cap False s = ((Inl ret, d1), s1)"
      "gxfp_espi_read_assemble env (Some d0) cap s = ((ret, Some d1, 0), s1)"
  | (loop) tot n d1 s1 ret d2 s2 where "0xe00 \<le> cap"
      "gxfp_espi_rx_start_packet env (memcpy_at d0 0 (zeros cap)) cap False s = ((Inr (tot, n), d1), s1)"
      "read_assemble_loop env cap tot n d1 s1 = ((ret, d2), s2)"
      "gxfp_espi_read_assemble env (Some d0) cap s =
         (if ret \<noteq> 0 then ((ret, Some d2, 0), s2) else ((0, Some d2, tot), gxfp_gpio_pulse_read_done s2))"
proof (cases "cap < GXFP_ESPI_CHUNK_MAX \<or> \<not> mailbox_mmio (kdev s) \<or>
    mailbox_size (kdev s) < GXFP_ESPI_RX_OFF + GXFP_ESPI_CHUNK_MAX")
  case True
  then have "gxfp_espi_read_assemble env (Some d0) cap s = ((- EINVAL, Some d0, 0), s) \<or>
      gxfp_espi_read_assemble env (Some d0) cap s = ((- ENODEV, Some d0, 0), s)"
    by (auto simp: gxfp_espi_read_assemble_def)
  then show ?thesis using early by blast
next
  case False
  then have c: "0xe00 \<le> cap" by (simp add: GXFP_ESPI_CHUNK_MAX_def)
  obtain r d1 s1 where st: "gxfp_espi_rx_start_packet env (memcpy_at d0 0 (zeros cap)) cap False s =
      ((r, d1), s1)" by (metis surj_pair)
  show ?thesis
  proof (cases r)
    case (Inl e)
    then show ?thesis using start [OF c st [unfolded Inl]] st False
      by (simp add: gxfp_espi_read_assemble_def Let_def)
  next
    case (Inr tn)
    obtain tot n where tn: "tn = (tot, n)" by force
    obtain ret d2 s2 where lp: "read_assemble_loop env cap tot n d1 s1 = ((ret, d2), s2)"
      by (metis surj_pair)
    show ?thesis using loop [OF c st [unfolded Inr tn] lp] st lp Inr tn False
      by (simp add: gxfp_espi_read_assemble_def Let_def)
  qed
qed

lemma kframe_read_assemble: "kframe s (snd (gxfp_espi_read_assemble env (Some d0) cap s))"
proof (cases rule: read_assemble_cases [of env d0 cap s])
  case (early r s')
  then show ?thesis by simp
next
  case (start ret d1 s1)
  then show ?thesis
    using kframe_start_packet [of s env "memcpy_at d0 0 (zeros cap)" cap False] by simp
next
  case (loop tot n d1 s1 ret d2 s2)
  have "kframe s s1"
    using kframe_start_packet [of s env "memcpy_at d0 0 (zeros cap)" cap False] loop(2) by simp
  also have "kframe s1 s2"
    using kframe_read_loop [of s1 env cap tot n d1] loop(3) by simp
  finally show ?thesis using loop(4) kframe_trans [OF _ kframe_helpers(3)] by simp
qed

lemma read_loop_length:
  "off \<le> length dst \<Longrightarrow> cap \<le> length dst \<Longrightarrow>
   length (snd (fst (read_assemble_loop env cap tot off dst s))) = length dst"
proof (induction env cap tot off dst s rule: read_assemble_loop.induct)
  case (1 env cap tot off dst s)
  show ?case
  proof (cases "off < tot \<and> irq_rx_tmp (kdev s) \<noteq> None")
    case False
    then show ?thesis
      by (subst read_assemble_loop.simps) (auto simp: Let_def split: prod.split)
  next
    case True
    then obtain t where lt: "off < tot" and Some: "irq_rx_tmp (kdev s) = Some t" by auto
    obtain chunk pad dr where c: "gxfp_espi_rx_chunk_calc (tot - off) = (chunk, pad, dr)"
      by (metis prod_cases3)
    obtain ret t' s' where w: "gxfp_espi_rx_read_window env t s = ((ret, t'), s')"
      by (metis surj_pair)
    let ?d = "memcpy_at dst off (take chunk t')"
    have ld: "length ?d = length dst" if "\<not> off + chunk > cap"
      using that 1(3) by (intro length_memcpy_at) simp
    have "length (snd (fst (read_assemble_loop env cap tot (off + chunk) ?d v))) = length dst"
      if "ret = 0" "\<not> off + chunk > cap"
        "v = (if off + chunk < tot then gxfp_busy_wait_us GXFP_DEFAULT_TIMEOUT_US
           (gxfp_gpio_pulse_read_done (upd_dev (\<lambda>d. d\<lparr>irq_rx_tmp := Some t'\<rparr>) s'))
           else upd_dev (\<lambda>d. d\<lparr>irq_rx_tmp := Some t'\<rparr>) s')" for v
      using 1(1) [OF lt refl refl c [symmetric] refl Some that(2) w [symmetric] refl refl _
          refl refl that(3)] that(1,2) ld 1(2,3) by simp
    then show ?thesis
      using lt Some c w by (subst read_assemble_loop.simps) (simp add: Let_def)
  qed
qed

lemma start_packet_length:
  assumes "gxfp_espi_rx_start_packet env rx cap v s = ((r, rx'), s')" and "0xe00 \<le> length rx"
  shows "length rx' = length rx" and "r = Inr (tot, n) \<Longrightarrow> n \<le> 0xe00"
proof -
  have "length (snd (fst (gxfp_espi_rx_read_window env rx s))) = length rx"
    using assms(2) by (simp add: gxfp_espi_rx_read_window_def gxfp_mmio_read_qword_aligned_def
        Let_def split_beta GXFP_ESPI_CHUNK_MAX_def)
  then show "length rx' = length rx"
    using assms(1) by (auto simp: gxfp_espi_rx_start_packet_def Let_def
        split: prod.splits option.splits bool.splits if_splits)
  show "r = Inr (tot, n) \<Longrightarrow> n \<le> 0xe00"
    using assms(1) by (auto simp: gxfp_espi_rx_start_packet_def Let_def GXFP_ESPI_CHUNK_MAX_def
        split: prod.splits option.splits bool.splits if_splits)
qed

lemma espi_read_length:
  assumes "gxfp_espi_read env (Some rx) cap s = ((r, rx', n), s')" and "length rx = cap"
  shows "\<exists>b. rx' = Some b \<and> length b = cap"
proof (cases "cap = 0 \<or> \<not> mailbox_mmio (kdev s)")
  case True
  then show ?thesis using assms by (auto simp: gxfp_espi_read_def split: if_splits)
next
  case False
  then have eq: "gxfp_espi_read env (Some rx) cap s = gxfp_espi_read_assemble env (Some rx) cap s"
    by (simp add: gxfp_espi_read_def)
  have z: "length (memcpy_at rx 0 (zeros cap)) = cap" using assms(2) by simp
  show ?thesis
  proof (cases rule: read_assemble_cases [of env rx cap s])
    case (early r s')
    then show ?thesis using assms eq by auto
  next
    case (start ret d1 s1)
    then show ?thesis using assms eq start_packet_length(1) [OF start(2)] z by auto
  next
    case (loop tot n d1 s1 ret d2 s2)
    have "length d1 = cap" "n \<le> 0xe00"
      using start_packet_length [OF loop(2)] z loop(1) by auto
    then have "length d2 = cap"
      using read_loop_length [of n d1 cap env tot s1] loop(1,3) by simp
    then show ?thesis using assms eq loop(4) by (auto split: if_splits)
  qed
qed

lemma kframe_espi_xfer:
  assumes "n \<le> length b"
  shows "kframe s (snd (gxfp_espi_xfer env (Some b) n (Some rx) cap s))"
proof -
  obtain ret s1 where w: "gxfp_espi_write env (Some b) n s = (ret, s1)" by force
  have 1: "kframe s s1" using kframe_write [OF assms, of s env] w by simp
  have "kframe s2 (snd (gxfp_espi_read env (Some rx) cap s2))" for s2
    using kframe_read_assemble by (simp add: gxfp_espi_read_def)
  then have "kframe s1 (snd (gxfp_espi_read env (Some rx) cap (gxfp_busy_wait_us 1000 s1)))"
    using kframe_helpers(1) kframe_trans by blast
  then show ?thesis using 1 w kframe_trans by (auto simp: gxfp_espi_xfer_def)
qed

lemma espi_xfer_length:
  assumes "gxfp_espi_xfer env tx n (Some rx) cap s = ((r, rx', l), s')" and "length rx = cap"
  shows "\<exists>b. rx' = Some b \<and> length b = cap"
  using assms espi_read_length
  by (auto simp: gxfp_espi_xfer_def split: prod.splits if_splits)

lemma kframe_xfer_accept: "kframe s (snd (xfer_accept req rx n s))"
  using kframe_trans [OF kframe_helpers(2) kframe_helpers(1)]
  by (auto simp: xfer_accept_def Let_def split: prod.split option.split bool.split)

lemma kframe_xfer_loop:
  assumes "n \<le> length b" and "length rx = GXFP_MAILBOX_MIN_SIZE"
  shows "kframe s (snd (xfer_loop env req (Some b) n k (Some rx) s))"
  using assms(2)
proof (induction k arbitrary: rx s)
  case 0
  then show ?case by simp
next
  case (Suc k)
  obtain ret rx' l s1 where x:
    "gxfp_espi_xfer env (Some b) n (Some rx) GXFP_MAILBOX_MIN_SIZE s = ((ret, rx', l), s1)"
    by (metis surj_pair)
  obtain r1 where r1: "rx' = Some r1" "length r1 = GXFP_MAILBOX_MIN_SIZE"
    using espi_xfer_length [OF x Suc.prems] by blast
  have 1: "kframe s s1" using kframe_espi_xfer [OF assms(1)] x by (metis snd_conv)
  obtain o1 s2 where a: "xfer_accept req rx' l s1 = (o1, s2)" by force
  have 2: "kframe s1 s2" using kframe_xfer_accept [of s1 req rx' l] a by simp
  have 3: "kframe s1 (gxfp_busy_wait_us us (trace_logf t s1))" for us t
    using kframe_trans [OF kframe_helpers(2) kframe_helpers(1)] .
  note ih = Suc.IH [OF r1(2)]
  have "kframe s (snd (xfer_loop env req (Some b) n k (Some r1)
      (gxfp_busy_wait_us us (trace_logf t s1))))" for us t
    using kframe_trans [OF kframe_trans [OF 1 3] ih] .
  moreover have "kframe s (snd (xfer_loop env req (Some b) n k (Some r1) s2))"
    using kframe_trans [OF kframe_trans [OF 1 2] ih] .
  ultimately show ?case
    using x r1 kframe_trans [OF 1 2] a by (auto split: option.split)
qed

lemma mp_build_buffer:
  assumes "gxfp_mp_build_frame t p n (Some o1) cap = (fl, o2)" and "\<not> fl < 0" and "cap \<le> length o1"
  shows "\<exists>b. o2 = Some b \<and> length b = length o1 \<and> nat fl \<le> cap"
proof -
  have "length (ptr_bytes p n) \<le> n" by (simp add: ptr_bytes_def split: option.split)
  then show ?thesis using assms
    by (auto simp: gxfp_mp_build_frame_def Let_def split: if_splits)
qed

lemma kmalloc_cases:
  obtains "kmalloc env n s = (None, s)"
  | b where "kmalloc env n s = (Some b, ev (EvKmalloc n) s)" "length b = n"
  by (cases "env_kmalloc env (kev s) n") (auto simp: kmalloc_def)

text \<open>An exchange allocates three blocks and frees them on every path.\<close>

lemma kframe_free3:
  assumes "kframe (ev (EvKmalloc c) (ev (EvKmalloc b) (ev (EvKmalloc a) s))) s'"
  shows "kframe s (kfree x (kfree y (kfree z s')))"
  using assms by (simp add: kframe_def rx_ready_def)

lemma kframe_xfer_run:
  assumes "length tx = GXFP_TX_BUFFER_SIZE" and "length rx = GXFP_MAILBOX_MIN_SIZE"
  shows "kframe s (snd (xfer_run env req tx body rx s))"
proof -
  obtain bl b' where g: "gxfp_goodix_build_frame_k (rq_req_cmd req) (rq_req_payload req)
      (rq_req_payload_len req) (Some body) GXFP_TX_BUFFER_SIZE = (bl, b')" by force
  obtain fl t' where m: "gxfp_mp_build_frame GXFP_MP_TYPE_A b' (nat bl) (Some tx)
      GXFP_TX_BUFFER_SIZE = (fl, t')" by force
  have "kframe s (snd (xfer_loop env req t' (nat fl) k (Some rx) (trace_logf ''cmd_req'' s)))"
    if nn: "\<not> fl < 0" for k
  proof -
    obtain b where b: "t' = Some b" "nat fl \<le> length b"
      using mp_build_buffer [OF m nn] assms(1) by auto
    show ?thesis
      using kframe_trans [OF kframe_helpers(2) kframe_xfer_loop [OF b(2) assms(2)]] b(1) by simp
  qed
  then show ?thesis using g m by (simp add: xfer_run_def)
qed

text \<open>How an exchange can go: refused before anything is sent, or run between the allocations and
  the frees.\<close>

lemma xfer_cases:
  obtains (refused) e s' where "e < 0" "gxfp_xfer env req s = ((e, xfer_none req), s')" "kframe s s'"
  | (run) tx body rx r s' where "length tx = GXFP_TX_BUFFER_SIZE"
      "length body = GXFP_TX_BUFFER_SIZE" "length rx = GXFP_MAILBOX_MIN_SIZE"
      "xfer_run env req tx body rx (ev (EvKmalloc GXFP_MAILBOX_MIN_SIZE)
         (ev (EvKmalloc GXFP_TX_BUFFER_SIZE) (ev (EvKmalloc GXFP_TX_BUFFER_SIZE) s))) = (r, s')"
      "gxfp_xfer env req s = (r, kfree GXFP_TX_BUFFER_SIZE (kfree GXFP_TX_BUFFER_SIZE
         (kfree GXFP_MAILBOX_MIN_SIZE s')))"
      "rq_resp_payload req = None \<longleftrightarrow> rq_resp_payload_cap req = 0"
proof (cases "(rq_req_payload_len req \<noteq> 0 \<and> rq_req_payload req = None) \<or>
    (rq_resp_payload req \<noteq> None \<and> rq_resp_payload_cap req = 0) \<or>
    (rq_resp_payload req = None \<and> rq_resp_payload_cap req \<noteq> 0)")
  case True
  then have "gxfp_xfer env req s = ((- EINVAL, xfer_none req), s)" by (auto simp: gxfp_xfer_def)
  then show ?thesis using refused [OF _ _ kframe_refl, of "- EINVAL"] by simp
next
  case bad: False
  let ?s1 = "ev (EvKmalloc GXFP_TX_BUFFER_SIZE) s"
  let ?s2 = "ev (EvKmalloc GXFP_TX_BUFFER_SIZE) ?s1"
  consider (n1) "kmalloc env GXFP_TX_BUFFER_SIZE s = (None, s)"
    | (n2) tx where "kmalloc env GXFP_TX_BUFFER_SIZE s = (Some tx, ?s1)"
        "kmalloc env GXFP_TX_BUFFER_SIZE ?s1 = (None, ?s1)"
    | (n3) tx body where "kmalloc env GXFP_TX_BUFFER_SIZE s = (Some tx, ?s1)"
        "kmalloc env GXFP_TX_BUFFER_SIZE ?s1 = (Some body, ?s2)"
        "kmalloc env GXFP_MAILBOX_MIN_SIZE ?s2 = (None, ?s2)"
    | (all) tx body rx where "kmalloc env GXFP_TX_BUFFER_SIZE s = (Some tx, ?s1)"
        "kmalloc env GXFP_TX_BUFFER_SIZE ?s1 = (Some body, ?s2)"
        "kmalloc env GXFP_MAILBOX_MIN_SIZE ?s2 = (Some rx, ev (EvKmalloc GXFP_MAILBOX_MIN_SIZE) ?s2)"
    using kmalloc_cases by metis
  then show ?thesis
  proof cases
    case n1
    then have "gxfp_xfer env req s = ((- ENOMEM, xfer_none req), s)"
      using bad by (auto simp: gxfp_xfer_def)
    then show ?thesis using refused [OF _ _ kframe_refl, of "- ENOMEM"] by simp
  next
    case n2
    then have "gxfp_xfer env req s = ((- ENOMEM, xfer_none req), kfree GXFP_TX_BUFFER_SIZE ?s1)"
      using bad by (auto simp: gxfp_xfer_def)
    from refused [OF _ this] show ?thesis by (simp add: kframe_kdev)
  next
    case n3
    then have "gxfp_xfer env req s = ((- ENOMEM, xfer_none req),
        kfree GXFP_TX_BUFFER_SIZE (kfree GXFP_TX_BUFFER_SIZE ?s2))"
      using bad by (auto simp: gxfp_xfer_def)
    from refused [OF _ this] show ?thesis by (simp add: kframe_kdev)
  next
    case all
    obtain r s' where "xfer_run env req tx body rx (ev (EvKmalloc GXFP_MAILBOX_MIN_SIZE) ?s2) = (r, s')"
      by (metis surj_pair)
    moreover from this have "gxfp_xfer env req s = (r, kfree GXFP_TX_BUFFER_SIZE
        (kfree GXFP_TX_BUFFER_SIZE (kfree GXFP_MAILBOX_MIN_SIZE s')))"
      using all bad by (auto simp: gxfp_xfer_def)
    ultimately show ?thesis
      using run [OF kmalloc_length [OF all(1)] kmalloc_length [OF all(2)] kmalloc_length [OF all(3)]]
        bad by auto
  qed
qed

lemma kframe_xfer: "kframe s (snd (gxfp_xfer env req s))"
proof (cases rule: xfer_cases [of env req s])
  case (refused e s')
  then show ?thesis by simp
next
  case (run tx body rx r s')
  then have "kframe (ev (EvKmalloc GXFP_MAILBOX_MIN_SIZE)
      (ev (EvKmalloc GXFP_TX_BUFFER_SIZE) (ev (EvKmalloc GXFP_TX_BUFFER_SIZE) s))) s'"
    using kframe_xfer_run [OF run(1,3)] by (metis snd_conv)
  then show ?thesis using run(5) by (simp add: kframe_free3)
qed

lemma kframe_cmd_xfer:
  "kframe s (snd (gxfp_cmd_xfer env c p n e rp rc t d s))"
  using kframe_xfer by (auto simp: gxfp_cmd_xfer_def split: prod.split) (metis snd_conv)+

section \<open>What a successful exchange has received\<close>

text \<open>The response carries the expected command, its payload fits the caller's buffer and is what
  the buffer now holds, and (when asked for) the payload sums up to the received checksum.\<close>

definition xfer_good :: "gxfp_xfer_req \<Rightarrow> xfer_out \<Rightarrow> bool" where
  "xfer_good req xo \<longleftrightarrow>
    (\<exists>p pl. xo_frame xo = Some p \<and> fr_cmd p = rq_expect_cmd req \<and>
       length pl = unat (fr_payload_len p) \<and>
       (rq_require_proto_ck_ok req \<longrightarrow>
          body_checksum (fr_cmd p) (fr_decl_len p) pl = fr_proto_checksum p) \<and>
       (case rq_resp_payload req of
          None \<Rightarrow> xo_resp_payload xo = None
        | Some resp \<Rightarrow> length pl \<le> rq_resp_payload_cap req \<and>
                       xo_resp_payload xo = Some (memcpy_at resp 0 pl)))"

lemma accept_sound:
  assumes "xfer_accept req (Some rx) n s = (Some (r, xo), s')"
    and "length rx = GXFP_MAILBOX_MIN_SIZE"
  shows "r = 0 \<and> xfer_good req xo \<or> r = - EMSGSIZE"
proof (cases "gxfp_parse_mp_frame (Some rx) (min n GXFP_MAILBOX_MIN_SIZE) (Some mp_frame_zero)")
  case (Pair ok mp0)
  then obtain mp where mp: "gxfp_parse_mp_frame (Some rx) (min n GXFP_MAILBOX_MIN_SIZE)
      (Some mp_frame_zero) = (True, Some mp)"
    using assms(1) by (auto simp: xfer_accept_def split: option.splits bool.splits)
  let ?b = "drop 4 rx" and ?m = "unat (mp_payload_len mp)"
  have v: "mp = mp_view rx" "4 + ?m \<le> length rx"
    using parse_mp_frame_bounds [OF mp] assms(2) by auto
  have pp: "mp_payload mp = Some ?b" by (simp add: v(1) mp_view_def)
  have bf: "body_fits ?b ?m"
    using assms(1) mp pp by (auto simp: xfer_accept_def parse_k_eq split: if_splits)
  define pl where "pl = take (unat (le16 (?b ! 1) (?b ! 2)) - 1) (drop 3 ?b)"
  let ?p = "body_view ?b"
  have ul: "unat (fr_payload_len ?p) = unat (le16 (?b ! 1) (?b ! 2)) - 1"
    using bf by (simp add: body_view_def Let_def body_fits_def unat_minus_1)
  then have len: "length pl = unat (fr_payload_len ?p)"
    using bf v(2) by (auto simp: pl_def body_fits_def)
  have bytes: "ptr_bytes (fr_payload ?p) (unat (fr_payload_len ?p)) = pl"
    unfolding ul by (simp add: pl_def body_view_def Let_def)
  have ck: "fr_proto_checksum_ok ?p \<longleftrightarrow>
      body_checksum (fr_cmd ?p) (fr_decl_len ?p) pl = fr_proto_checksum ?p"
    by (simp add: body_view_def Let_def pl_def)
  have valid: "fr_valid ?p" by (simp add: body_view_def Let_def)
  show ?thesis
  proof (cases "rq_resp_payload req")
    case None
    then show ?thesis
      using assms(1) mp pp bf len ck valid
      by (auto simp: xfer_accept_def parse_k_eq xfer_good_def split: if_splits)
  next
    case (Some resp)
    then show ?thesis
      using assms(1) mp pp bf len ck valid
      by (auto simp: xfer_accept_def parse_k_eq xfer_good_def Let_def bytes
          intro!: exI [of _ pl] split: if_splits)
  qed
qed

lemma loop_sound:
  assumes "xfer_loop env req tx n k (Some rx) s = ((r, xo), s')"
    and "length rx = GXFP_MAILBOX_MIN_SIZE"
  shows "r = 0 \<and> xfer_good req xo \<or> r = - EMSGSIZE \<or> r = - ETIMEDOUT"
  using assms
proof (induction k arbitrary: rx s)
  case 0
  then show ?case by simp
next
  case (Suc k)
  obtain ret rx' l s1 where x:
    "gxfp_espi_xfer env tx n (Some rx) GXFP_MAILBOX_MIN_SIZE s = ((ret, rx', l), s1)"
    by (metis surj_pair)
  obtain r1 where r1: "rx' = Some r1" "length r1 = GXFP_MAILBOX_MIN_SIZE"
    using espi_xfer_length [OF x Suc.prems(2)] by blast
  obtain o1 s2 where a: "xfer_accept req rx' l s1 = (o1, s2)" by force
  show ?case
    using Suc.prems(1) x r1 a Suc.IH [OF _ r1(2)] accept_sound [of req r1 l s1 r xo s2]
    by (auto split: if_splits option.splits)
qed

lemma xfer_sound:
  assumes "gxfp_xfer env req s = ((r, xo), s')"
  shows "r = 0 \<and> xfer_good req xo \<or> r < 0"
proof (cases rule: xfer_cases [of env req s])
  case (refused e s')
  then show ?thesis using assms by simp
next
  case (run tx body rx r' s1)
  then have e: "r' = (r, xo)" using assms by simp
  show ?thesis
    using run(4) [unfolded e] loop_sound [OF _ run(3)]
    by (auto simp: xfer_run_def simp del: xfer_loop.simps split: prod.splits if_splits) fastforce+
qed

section \<open>A well-behaved device gets through\<close>

lemma mp_build_prefix:
  "gxfp_mp_build_frame t (Some b) n o1 cap = gxfp_mp_build_frame t (Some (take n b)) n o1 cap"
proof -
  have "ptr_bytes (Some (take n b)) n = ptr_bytes (Some b) n" by simp
  then show ?thesis unfolding gxfp_mp_build_frame_def by (simp only: option.simps)
qed

definition request_wire :: "u8 \<Rightarrow> bytes \<Rightarrow> bytes" where
  "request_wire cmd pl = mp_bytes 0xA0 (body_bytes cmd pl)"

definition response_wire :: "u8 \<Rightarrow> bytes \<Rightarrow> bytes" where
  "response_wire cmd pl = mp_bytes 0xA0 (body_bytes cmd pl)"

lemma xfer_run_framed:
  assumes "rq_req_payload req = Some pl" and "rq_req_payload_len req = length pl"
    and "length pl + 8 \<le> GXFP_TX_BUFFER_SIZE"
    and "length tx = GXFP_TX_BUFFER_SIZE" and "length body = GXFP_TX_BUFFER_SIZE"
  shows "\<exists>tx'. length tx' = GXFP_TX_BUFFER_SIZE \<and>
    take (length pl + 8) tx' = request_wire (rq_req_cmd req) pl \<and>
    xfer_run env req tx body rx s =
      xfer_loop env req (Some tx') (length pl + 8) (if rq_tries req \<noteq> 0 then rq_tries req else 1)
        (Some rx) (trace_logf ''cmd_req'' s)"
proof -
  let ?bb = "body_bytes (rq_req_cmd req) pl"
  let ?tx = "memcpy_at tx 0 (mp_bytes 0xA0 ?bb)"
  have 1: "gxfp_goodix_build_frame_k (rq_req_cmd req) (Some pl) (length pl) (Some body)
      GXFP_TX_BUFFER_SIZE = (int (length pl + 4), Some (memcpy_at body 0 ?bb))"
    using assms(3,5) by (intro build_k_eq) (simp_all add: GXFP_TX_BUFFER_SIZE_def)
  have 2: "gxfp_mp_build_frame GXFP_MP_TYPE_A (Some (memcpy_at body 0 ?bb)) (length pl + 4) (Some tx)
      GXFP_TX_BUFFER_SIZE = (int (length pl + 8), Some ?tx)"
    using mp_build_frame_eq [of GXFP_MP_TYPE_A ?bb GXFP_TX_BUFFER_SIZE tx] assms(3,4)
    by (subst mp_build_prefix)
       (simp add: take_memcpy_at_0 mp_type_ok_def GXFP_GOODIX_MP_LEN_MAX_def GXFP_TX_BUFFER_SIZE_def
         GXFP_MP_TYPE_A_def)
  have l: "length ?tx = GXFP_TX_BUFFER_SIZE"
    using assms(3,4) by (subst length_memcpy_at) (simp_all add: GXFP_TX_BUFFER_SIZE_def)
  have t: "take (length pl + 8) ?tx = request_wire (rq_req_cmd req) pl"
    by (simp add: request_wire_def take_memcpy_at_0)
  have "xfer_run env req tx body rx s = xfer_loop env req (Some ?tx) (length pl + 8)
      (if rq_tries req \<noteq> 0 then rq_tries req else 1) (Some rx) (trace_logf ''cmd_req'' s)"
    using 1 2 assms(1,2) unfolding xfer_run_def by (simp del: xfer_loop.simps of_nat_add)
  then show ?thesis using l t by blast
qed

lemma accept_response:
  assumes "take (length m) rx = m" and "m = response_wire (rq_expect_cmd req) rpl"
    and "rq_resp_payload req = Some resp" and "length rpl \<le> rq_resp_payload_cap req"
    and "length m \<le> 0xe00"
  shows "xfer_accept req (Some rx) (length m) s =
    (Some (0, \<lparr>xo_resp_payload = Some (memcpy_at resp 0 rpl),
       xo_frame = Some ((body_frame (rq_expect_cmd req) rpl (drop (length m) rx))
                          \<lparr>fr_payload := Some (memcpy_at resp 0 rpl)\<rparr>)\<rparr>),
     trace_logf ''cmd_ok'' s)"
proof -
  let ?bb = "body_bytes (rq_expect_cmd req) rpl" and ?r = "drop (length m) rx"
  have rx: "rx = mp_bytes 0xA0 ?bb @ ?r"
    using assms(1,2) append_take_drop_id [of "length m" rx] by (simp add: response_wire_def)
  have lm: "length m = length rpl + 8" using assms(2) by (simp add: response_wire_def)
  have mt: "mp_type_ok (drop_bit 4 (0xA0 :: u8))" by (simp add: mp_type_ok_def mp_type_defs)
  have 1: "gxfp_parse_mp_frame (Some rx) (min (length m) GXFP_MAILBOX_MIN_SIZE) (Some mp_frame_zero) =
      (True, Some \<lparr>mp_valid = True, mp_flags = 0xA0, mp_payload_len = of_nat (length rpl + 4),
         mp_payload = Some (?bb @ ?r)\<rparr>)"
    using parse_mp_bytes [OF mt, of ?bb "length m" ?r mp_frame_zero] rx lm assms(5)
    by (simp add: GXFP_GOODIX_MP_LEN_MAX_def GXFP_MAILBOX_MIN_SIZE_def)
  have un: "unat (of_nat (length rpl + 4) :: u16) = length rpl + 4"
    using lm assms(5) by (intro unat_of_nat_16) simp
  have 2: "gxfp_parse_goodix_body_k (Some (?bb @ ?r)) (length rpl + 4) (Some frame_zero) =
      (True, Some (body_frame (rq_expect_cmd req) rpl ?r))"
    using body_view_bytes [where pl = rpl and rest = ?r] lm assms(5) by (simp add: parse_k_eq)
  have f: "fr_valid (body_frame c rpl r)" "fr_proto_checksum_ok (body_frame c rpl r)"
    "fr_cmd (body_frame c rpl r) = c" "unat (fr_payload_len (body_frame c rpl r)) = length rpl"
    "ptr_bytes (fr_payload (body_frame c rpl r)) (length rpl) = rpl" for c r
    using lm assms(5) by (simp_all add: body_frame_def Let_def unat_of_nat_16)
  show ?thesis
    using assms(3,4) f unfolding xfer_accept_def 1
    by (simp add: un 2 Let_def del: of_nat_add)
qed

text \<open>The whole exchange: the device presents its answer in the read window, and the first try
  succeeds.\<close>

lemma xfer_succeeds:
  assumes "mailbox_windows env W" and "rx_ready s" and "\<And>h n. env_kmalloc env h n"
    and "windows_show W (read_done_pulses (kev s)) (response_wire (rq_expect_cmd req) rpl)"
    and "length rpl + 8 \<le> 0xe00" and "rq_resp_payload req = Some resp"
    and "length rpl \<le> rq_resp_payload_cap req" and "0 < rq_resp_payload_cap req"
    and "rq_req_payload req = Some pl" and "rq_req_payload_len req = length pl"
    and "8 + (length pl + 8) + espi_pad (length pl + 8) \<le> GXFP_TX_BUFFER_SIZE"
  shows "\<exists>xo s'. gxfp_xfer env req s = ((0, xo), s') \<and>
    xo_resp_payload xo = Some (memcpy_at resp 0 rpl) \<and>
    map_option (\<lambda>p. unat (fr_payload_len p)) (xo_frame xo) = Some (length rpl) \<and>
    written (kev s') = written (kev s) @ enumerate 0 (espi_wrap (next_seq s) (request_wire (rq_req_cmd req) pl))"
proof -
  define tx body rx s3 where "tx = fresh env (kev s) GXFP_TX_BUFFER_SIZE"
    and "body = fresh env (kev (ev (EvKmalloc GXFP_TX_BUFFER_SIZE) s)) GXFP_TX_BUFFER_SIZE"
    and "rx = fresh env (kev (ev (EvKmalloc GXFP_TX_BUFFER_SIZE)
           (ev (EvKmalloc GXFP_TX_BUFFER_SIZE) s))) GXFP_MAILBOX_MIN_SIZE"
    and "s3 = trace_logf ''cmd_req'' (ev (EvKmalloc GXFP_MAILBOX_MIN_SIZE)
           (ev (EvKmalloc GXFP_TX_BUFFER_SIZE) (ev (EvKmalloc GXFP_TX_BUFFER_SIZE) s)))"
  let ?m = "response_wire (rq_expect_cmd req) rpl" and ?q = "request_wire (rq_req_cmd req) pl"
  have lm: "length ?m = length rpl + 8" and lq: "length ?q = length pl + 8"
    by (simp_all add: response_wire_def request_wire_def)
  have k: "kmalloc env n t = (Some (fresh env (kev t) n), ev (EvKmalloc n) t)" for n t
    using assms(3) by (simp add: kmalloc_def)
  have x: "gxfp_xfer env req s = (case xfer_run env req tx body rx (ev (EvKmalloc GXFP_MAILBOX_MIN_SIZE)
       (ev (EvKmalloc GXFP_TX_BUFFER_SIZE) (ev (EvKmalloc GXFP_TX_BUFFER_SIZE) s))) of
       (r, s) \<Rightarrow> (r, kfree GXFP_TX_BUFFER_SIZE (kfree GXFP_TX_BUFFER_SIZE
         (kfree GXFP_MAILBOX_MIN_SIZE s))))"
    using assms(6,8,9) by (simp add: gxfp_xfer_def k tx_def body_def rx_def)
  obtain tx' where tx': "take (length pl + 8) tx' = ?q" "length tx' = GXFP_TX_BUFFER_SIZE"
    and lp: "xfer_run env req tx body rx (ev (EvKmalloc GXFP_MAILBOX_MIN_SIZE)
       (ev (EvKmalloc GXFP_TX_BUFFER_SIZE) (ev (EvKmalloc GXFP_TX_BUFFER_SIZE) s))) =
       xfer_loop env req (Some tx') (length pl + 8) (if rq_tries req \<noteq> 0 then rq_tries req else 1)
        (Some rx) s3"
    using xfer_run_framed [OF assms(9,10), of tx body env rx] assms(11)
    unfolding s3_def tx_def body_def by (metis add_leE length_fresh add.commute)
  obtain t where t: "(if rq_tries req \<noteq> 0 then rq_tries req else 1) = Suc t"
    by (cases "rq_tries req") auto
  have wr: "write_ready env (length ?q) s3"
    using assms(2,3,11) lq by (simp add: write_ready_def s3_def rx_ready_def)
  define s4 where "s4 = gxfp_busy_wait_us 1000 (after_write (8 + length ?q + espi_pad (length ?q))
      (espi_wrap (next_seq s3) ?q) s3)"
  note aw = after_write_views [OF length_espi_wrap espi_len_aligned]
  have w: "gxfp_espi_write env (Some tx') (length pl + 8) s3 =
      (0, after_write (8 + length ?q + espi_pad (length ?q)) (espi_wrap (next_seq s3) ?q) s3)"
    using espi_write_ok [OF wr] by (subst espi_write_prefix) (simp add: tx'(1) lq)
  have p4: "read_done_pulses (kev s4) = read_done_pulses (kev s)"
    by (simp add: s4_def aw(3)) (simp add: s3_def)
  have r4: "rx_ready s4" using assms(2) by (simp add: s4_def rx_ready_def aw(4)) (simp add: s3_def)
  have pk: "mp_package ?m"
    using assms(5) unfolding response_wire_def
    by (intro mp_package_bytes) (simp_all add: mp_type_ok_def mp_type_defs GXFP_GOODIX_MP_LEN_MAX_def)
  obtain rx' s5 where rd: "gxfp_espi_read env (Some rx) GXFP_MAILBOX_MIN_SIZE s4 =
      ((0, Some rx', length ?m), s5)" "take (length ?m) rx' = ?m" "written (kev s5) = written (kev s4)"
    using espi_read_single [OF assms(1) r4 pk, of GXFP_MAILBOX_MIN_SIZE rx] assms(4,5) lm p4
    by (auto simp: rx_def GXFP_MAILBOX_MIN_SIZE_def)
  have "gxfp_espi_xfer env (Some tx') (length pl + 8) (Some rx) GXFP_MAILBOX_MIN_SIZE s3 =
      ((0, Some rx', length ?m), s5)"
    using w rd(1) by (simp add: gxfp_espi_xfer_def s4_def)
  moreover note accept_response [OF rd(2) refl assms(6,7), of s5]
  moreover have "written (kev s5) = written (kev s) @ enumerate 0 (espi_wrap (next_seq s) ?q)"
    unfolding rd(3) s4_def by (simp add: aw(1)) (simp add: s3_def next_seq_def)
  ultimately show ?thesis
    using lm assms(5) unfolding x lp t
    by (simp add: body_frame_def Let_def unat_of_nat_16)
qed

section \<open>The contract of a command\<close>

text \<open>The state in which a retry loop makes its \<open>i\<close>-th attempt if all earlier ones failed.
  A command is one or more exchanges with a return code. Whatever the device does, it keeps
  the frame and its code is zero or a negated errno.\<close>

fun attempt :: "(kst \<Rightarrow> int \<times> kst) \<Rightarrow> (kst \<Rightarrow> kst) \<Rightarrow> nat \<Rightarrow> kst \<Rightarrow> kst" where
  "attempt cmd pause 0 s = s"
| "attempt cmd pause (Suc i) s = attempt cmd pause i (pause (snd (cmd s)))"

locale kernel_command =
  fixes cmd :: "kst \<Rightarrow> int \<times> kst"
  assumes cmd_frame: "kframe s (snd (cmd s))"
    and cmd_code: "fst (cmd s) \<le> 0"
begin

lemma retry_frame:
  assumes "\<And>s. kframe s (pause s)"
  shows "kframe s (snd (retry_loop cmd pause n s))"
proof (induction n arbitrary: s)
  case 0
  then show ?case by simp
next
  case (Suc n)
  obtain r s1 where c: "cmd s = (r, s1)" by force
  have 1: "kframe s s1" using cmd_frame [of s] c by simp
  have "kframe s1 (snd (retry_loop cmd pause n (pause s1)))"
    using kframe_trans [OF assms Suc.IH] .
  then show ?case using 1 c kframe_trans by auto
qed

lemma retry_code: "fst (retry_loop cmd pause n s) \<le> 0"
proof (induction n arbitrary: s)
  case 0
  then show ?case by simp
next
  case (Suc n)
  obtain r s1 where c: "cmd s = (r, s1)" by force
  then show ?case using cmd_code [of s] Suc.IH by auto
qed

text \<open>The loop reports success exactly when one of its first \<open>n\<close> attempts did.\<close>

lemma retry_zero_iff:
  "0 < n \<Longrightarrow>
   fst (retry_loop cmd pause n s) = 0 \<longleftrightarrow> (\<exists>i<n. fst (cmd (attempt cmd pause i s)) = 0)"
proof (induction n arbitrary: s)
  case 0
  then show ?case by simp
next
  case (Suc n)
  obtain r s1 where c: "cmd s = (r, s1)" by force
  have "(\<exists>i<Suc n. fst (cmd (attempt cmd pause i s)) = 0) \<longleftrightarrow>
      r = 0 \<or> (\<exists>i<n. fst (cmd (attempt cmd pause i (pause s1))) = 0)"
    using c by (simp add: Ex_less_Suc2)
  then show ?case using c Suc.IH [of "pause s1"] by (cases n) auto
qed

end

lemma cmd_xfer_code: "fst (fst (gxfp_cmd_xfer env c p n e rp rc t d s)) \<le> 0"
  using xfer_sound by (auto simp: gxfp_cmd_xfer_def split: prod.split) fastforce+

lemma ack_frame: "kframe s (snd (ack_xfer env c pl s))"
  using kframe_cmd_xfer by (auto simp: ack_xfer_def split: prod.split) (metis snd_conv)

lemma ack_code: "fst (ack_xfer env c pl s) \<le> 0"
  using cmd_xfer_code by (auto simp: ack_xfer_def split: prod.split) (metis fst_conv)

lemmas ack_command_defs = gxfp_cmd_notify_power_state_def gxfp_cmd_reset_device_def
  gxfp_cmd_tls_unlock_def gxfp_cmd_protocol_init_def

interpretation notify_power: kernel_command "gxfp_cmd_notify_power_state env st"
  by unfold_locales (simp_all add: ack_command_defs ack_frame ack_code)

interpretation reset_device: kernel_command "gxfp_cmd_reset_device env fl"
  by unfold_locales (simp_all add: ack_command_defs ack_frame ack_code)

interpretation tls_unlock: kernel_command "gxfp_cmd_tls_unlock env"
  by unfold_locales (simp_all add: ack_command_defs ack_frame ack_code)

interpretation protocol_init: kernel_command "gxfp_cmd_protocol_init env"
  by unfold_locales (simp_all add: ack_command_defs ack_frame ack_code)

lemma sleep_cleanup_split:
  "gxfp_cmd_sleep_cleanup env ms s =
    (fst (ack_xfer env GXFP_CMD_SLEEP_CLEANUP [0, 0] s),
     if ms \<noteq> 0 then ev (EvMsleep ms) (snd (ack_xfer env GXFP_CMD_SLEEP_CLEANUP [0, 0] s))
     else snd (ack_xfer env GXFP_CMD_SLEEP_CLEANUP [0, 0] s))"
  by (simp add: gxfp_cmd_sleep_cleanup_def split_beta)

interpretation sleep_cleanup: kernel_command "gxfp_cmd_sleep_cleanup env ms"
  by unfold_locales
     (auto simp: sleep_cleanup_split ack_frame ack_code intro: kframe_trans [OF ack_frame kframe_helpers(5)])

interpretation upload_config: kernel_command "gxfp_cmd_upload_config_mcu env cfg len"
proof
  fix s
  show "kframe s (snd (gxfp_cmd_upload_config_mcu env cfg len s))"
    using kframe_cmd_xfer by (auto simp: gxfp_cmd_upload_config_mcu_def split: prod.split) (metis snd_conv)
  show "fst (gxfp_cmd_upload_config_mcu env cfg len s) \<le> 0"
    using cmd_xfer_code by (auto simp: gxfp_cmd_upload_config_mcu_def split: prod.split) (metis fst_conv)
qed

lemma first_err_le: "rc \<le> 0 \<Longrightarrow> r \<le> 0 \<Longrightarrow> first_err rc r \<le> 0"
  by (simp add: first_err_def)

lemma first_err_zero [simp]: "first_err rc r = 0 \<longleftrightarrow> rc = 0 \<and> r = 0"
  by (simp add: first_err_def)

lemma recover_stages:
  "gxfp_cmd_recover_session env unstick s =
    (let (r1, s1) = retry_loop (gxfp_cmd_notify_power_state env 1) (ev (EvUsleepRange 10000 11000)) 3 s;
         s1 = gxfp_busy_wait_us GXFP_RESET_DELAY_US s1;
         (r2, s2) = (if unstick then gxfp_cmd_protocol_init env s1 else (0, s1));
         s2 = (if unstick then gxfp_busy_wait_us 1000 s2 else s2);
         (r3, s3) = (if unstick then gxfp_cmd_tls_unlock env s2 else (0, s2));
         s3 = (if unstick then gxfp_busy_wait_us 1000 s3 else s3);
         (r4, s4) = gxfp_cmd_sleep_cleanup env 200 s3;
         (r5, s5) = retry_loop (gxfp_cmd_reset_device env GXFP_RESET_FLAG_MCU_SENSOR)
                      (gxfp_busy_wait_us 500000) 6 s4
     in (first_err (first_err (first_err (first_err (first_err 0 r1) r2) r3) r4) r5,
         gxfp_busy_wait_us GXFP_RESET_DELAY_US s5))"
  by (simp add: gxfp_cmd_recover_session_def Let_def split_beta first_err_def)

lemma recover_frame: "kframe s (snd (gxfp_cmd_recover_session env unstick s))"
proof -
  note n = notify_power.retry_frame [of "ev (EvUsleepRange 10000 11000)", OF kframe_helpers(4)]
  note r = reset_device.retry_frame [of "gxfp_busy_wait_us 500000", OF kframe_helpers(1)]
  note pause = kframe_trans [OF _ kframe_helpers(1)]
  note tail = pause [OF kframe_trans [OF kframe_trans [OF _ sleep_cleanup.cmd_frame] r]]
  note mid = pause [OF kframe_trans [OF pause [OF kframe_trans [OF _ protocol_init.cmd_frame]]
        tls_unlock.cmd_frame]]
  show ?thesis
    unfolding recover_stages Let_def split_beta snd_conv
    by (rule tail, cases unstick) (simp_all add: mid [OF pause [OF n]] pause [OF n])
qed

lemma recover_code: "fst (gxfp_cmd_recover_session env unstick s) \<le> 0"
  unfolding recover_stages Let_def split_beta fst_conv
  by (intro first_err_le notify_power.retry_code reset_device.retry_code sleep_cleanup.cmd_code)
     (simp_all add: protocol_init.cmd_code tls_unlock.cmd_code)

interpretation recover_session: kernel_command "gxfp_cmd_recover_session env unstick"
  by unfold_locales (rule recover_frame, rule recover_code)

section \<open>The version string\<close>

definition printable :: "u8 \<Rightarrow> bool" where
  "printable ch \<longleftrightarrow> \<not> (ch = 0 \<or> ch < 0x20 \<or> ch > 0x7e)"

lemma ascii_loop_Suc:
  "ascii_loop (Suc n) j d o1 =
    (if printable (d ! j) then ascii_loop n (Suc j) d (o1[j := d ! j]) else (o1, j))"
  by (simp add: printable_def Let_def)

lemma ascii_loop_eq:
  "j + n \<le> length d \<Longrightarrow> j + n \<le> length o1 \<Longrightarrow>
   ascii_loop n j d o1 =
     (let v = takeWhile printable (take n (drop j d)) in (memcpy_at o1 j v, j + length v))"
proof (induction n arbitrary: j o1)
  case 0
  then show ?case by simp
next
  case (Suc n)
  have d: "drop j d = d ! j # drop (Suc j) d" using Suc.prems(1) by (simp add: Cons_nth_drop_Suc)
  show ?case
  proof (cases "printable (d ! j)")
    case True
    let ?v = "takeWhile printable (take n (drop (Suc j) d))"
    have "memcpy_at (o1[j := d ! j]) (Suc j) ?v = memcpy_at o1 j (d ! j # ?v)"
      using Suc.prems(2) by (simp add: memcpy_at_def upd_conv_take_nth_drop min_def add.commute)
    then show ?thesis
      using True Suc.IH [of "Suc j" "o1[j := d ! j]"] Suc.prems d
      by (simp add: Let_def ascii_loop_Suc del: ascii_loop.simps)
  next
    case False
    then show ?thesis using d by (simp add: Let_def ascii_loop_Suc del: ascii_loop.simps)
  qed
qed

lemma extract_ascii_eq:
  assumes "0 < n" and "n - 1 \<le> length d" and "length o1 = n"
  shows "gxfp_extract_ascii_version (Some d) (Some o1) n =
    (let v = takeWhile printable (take (n - 1) d)
     in (v \<noteq> [], Some ((memcpy_at (o1[0 := 0]) 0 v)[length v := 0])))"
  using assms ascii_loop_eq [of 0 "n - 1" d "o1[0 := 0]"]
  by (simp add: gxfp_extract_ascii_version_def Let_def)

section \<open>Properties\<close>

text \<open>C10: Whatever the device sends, an exchange is safe. It returns 0 only with a response whose
  command is the expected one, whose payload sums up to the received checksum and fits the caller's
  buffer, which then holds exactly that payload; every other outcome is a negated errno. No outcome
  leaks memory or disturbs the driver's state.\<close>

theorem xfer_safe_against_any_device:
  "case gxfp_xfer env req s of
     ((r, xo), s') \<Rightarrow> kframe s s' \<and> (if r = 0 then xfer_good req xo else r < 0)"
proof (cases "gxfp_xfer env req s")
  case (Pair rxo s')
  obtain r xo where rxo: "rxo = (r, xo)" by force
  have "kframe s s'" using kframe_xfer [of s env req] Pair by simp
  moreover have "r = 0 \<and> xfer_good req xo \<or> r < 0"
    using xfer_sound [of env req s r xo s'] Pair rxo by simp
  ultimately show ?thesis using Pair rxo by auto
qed

text \<open>C11: An exchange with a device that answers succeeds at the first try: the mailbox receives
  the wrapped, framed request once, and the caller's buffer receives the response payload and its
  length.\<close>

theorem xfer_completes:
  assumes "mailbox_windows env W" and "rx_ready s" and "\<And>h n. env_kmalloc env h n"
    and "windows_show W (read_done_pulses (kev s)) (response_wire (rq_expect_cmd req) rpl)"
    and "length rpl + 8 \<le> 0xe00" and "rq_resp_payload req = Some resp"
    and "length rpl \<le> rq_resp_payload_cap req" and "0 < rq_resp_payload_cap req"
    and "rq_req_payload req = Some pl" and "rq_req_payload_len req = length pl"
    and "8 + (length pl + 8) + espi_pad (length pl + 8) \<le> GXFP_TX_BUFFER_SIZE"
  shows "\<exists>xo s'. gxfp_xfer env req s = ((0, xo), s') \<and>
    xo_resp_payload xo = Some (memcpy_at resp 0 rpl) \<and>
    map_option (\<lambda>p. unat (fr_payload_len p)) (xo_frame xo) = Some (length rpl) \<and>
    written (kev s') = written (kev s) @ enumerate 0 (espi_wrap (next_seq s) (request_wire (rq_req_cmd req) pl))"
  by (rule xfer_succeeds [OF assms])

definition sim_req :: gxfp_xfer_req where
  "sim_req = \<lparr>rq_req_cmd = 0x0E, rq_expect_cmd = 0xB0, rq_require_proto_ck_ok = True, rq_tries = 1,
     rq_retry_delay_us = 15000, rq_req_payload = Some [1], rq_req_payload_len = 1,
     rq_resp_payload = Some (zeros 8), rq_resp_payload_cap = 8\<rparr>"

theorem xfer_completes_witness:
  "\<exists>xo s'. gxfp_xfer (sim_env (sim_windows (response_wire 0xB0 [0x0E, 1]))) sim_req sim_state =
       ((0, xo), s') \<and> xo_resp_payload xo = Some (0x0E # 1 # zeros 6) \<and>
     written (kev s') = enumerate 0 (espi_wrap 0x8882 (request_wire 0x0E [1]))"
proof -
  let ?W = "sim_windows (response_wire 0xB0 [0x0E, 1])"
  have "windows_show ?W (read_done_pulses (kev sim_state)) (response_wire (rq_expect_cmd sim_req) [0x0E, 1])"
    using sim_windows_show [of "response_wire 0xB0 [0x0E, 1]"] by (simp add: sim_state_def sim_req_def)
  moreover have "env_kmalloc (sim_env ?W) h n" for h n by (simp add: sim_env_def)
  ultimately show ?thesis
    using xfer_completes [OF sim_env_windows sim_state_ready, of ?W sim_req "[0x0E, 1]" "zeros 8" "[1]"]
    by (auto simp: sim_req_def zeros_def memcpy_at_def espi_pad_def GXFP_TX_BUFFER_SIZE_def
        sim_state_def sim_dev_def next_seq_def)
qed

text \<open>C26: The session recovery runs its stages in order, keeps the driver's state whatever the
  device answers, and reports success exactly when every stage did: a power notification among
  three attempts, the two TLS steps when they are asked for, the sleep command, and a reset among
  six attempts.\<close>

theorem recover_session_contract:
  "kframe s (snd (gxfp_cmd_recover_session env unstick s)) \<and>
   fst (gxfp_cmd_recover_session env unstick s) \<le> 0 \<and>
   (fst (gxfp_cmd_recover_session env unstick s) = 0 \<longleftrightarrow>
     (let n = gxfp_cmd_notify_power_state env 1; np = ev (EvUsleepRange 10000 11000);
          s1 = gxfp_busy_wait_us GXFP_RESET_DELAY_US (snd (retry_loop n np 3 s));
          (r2, s2) = (if unstick then gxfp_cmd_protocol_init env s1 else (0, s1));
          s2 = (if unstick then gxfp_busy_wait_us 1000 s2 else s2);
          (r3, s3) = (if unstick then gxfp_cmd_tls_unlock env s2 else (0, s2));
          s3 = (if unstick then gxfp_busy_wait_us 1000 s3 else s3);
          (r4, s4) = gxfp_cmd_sleep_cleanup env 200 s3;
          r = gxfp_cmd_reset_device env GXFP_RESET_FLAG_MCU_SENSOR; rp = gxfp_busy_wait_us 500000
      in (\<exists>i<3. fst (n (attempt n np i s)) = 0) \<and> r2 = 0 \<and> r3 = 0 \<and> r4 = 0 \<and>
         (\<exists>i<6. fst (r (attempt r rp i s4)) = 0)))"
  using recover_session.cmd_frame recover_session.cmd_code
  by (simp add: recover_stages Let_def split_beta notify_power.retry_zero_iff
      reset_device.retry_zero_iff)

text \<open>The version string is the longest printable prefix of the first 31 bytes of the payload
  buffer. When the device's answer is shorter than that and does not end in a non-printable byte,
  the string runs on into the uninitialised rest of the buffer.\<close>

theorem version_string_runs_past_response:
  assumes "mailbox_windows env W" and "rx_ready s" and "\<And>h n. env_kmalloc env h n"
    and "windows_show W (read_done_pulses (kev s)) (response_wire 0xA8 rpl)" and "length rpl < 31"
  shows "\<exists>out s'. gxfp_cmd_get_version env s = ((0, out), s') \<and>
    (let v = takeWhile printable (rpl @ take (31 - length rpl) (drop (length rpl) (fresh env (kev s) 512)))
     in gv_version_ascii out = (memcpy_at (zeros 32) 0 v)[length v := 0]) \<and>
    take (length rpl) (gv_raw out) = rpl"
proof -
  let ?req = "\<lparr>rq_req_cmd = 0xA8, rq_expect_cmd = 0xA8, rq_require_proto_ck_ok = True, rq_tries = 8,
     rq_retry_delay_us = GXFP_DEFAULT_TIMEOUT_US, rq_req_payload = Some [1], rq_req_payload_len = 1,
     rq_resp_payload = Some (fresh env (kev s) 512), rq_resp_payload_cap = 512\<rparr>"
  let ?buf = "memcpy_at (fresh env (kev s) 512) 0 rpl"
  obtain xo s' where x: "gxfp_xfer env ?req s = ((0, xo), s')" "xo_resp_payload xo = Some ?buf"
    "map_option (\<lambda>p. unat (fr_payload_len p)) (xo_frame xo) = Some (length rpl)"
    using xfer_succeeds [OF assms(1-3), of ?req rpl "fresh env (kev s) 512" "[1]"] assms(4,5)
    by (auto simp: espi_pad_def GXFP_TX_BUFFER_SIZE_def)
  have b: "take 31 ?buf = rpl @ take (31 - length rpl) (drop (length rpl) (fresh env (kev s) 512))"
    using assms(5) by (simp add: memcpy_at_0)
  have "gxfp_cmd_xfer env 0xA8 (Some [1]) 1 0xA8 (Some (fresh env (kev s) 512)) 512 8
      GXFP_DEFAULT_TIMEOUT_US s = ((0, Some ?buf, length rpl), s')"
    using x by (auto simp: gxfp_cmd_xfer_def split: option.split)
  moreover have "length ?buf = 512" "take (length rpl) ?buf = rpl"
    using assms(5) by (simp_all add: memcpy_at_0)
  ultimately show ?thesis
    using assms(2,5) extract_ascii_eq [of 32 ?buf "zeros 32"] b
    by (simp add: gxfp_cmd_get_version_def gxfp_do_get_version_def GXFP_CMD_FIRMWARE_VERSION_def
        GXFP_MAX_VERSION_RAW_def GXFP_MAX_VERSION_ASCII_def GXFP_DEFAULT_RETRY_COUNT_def Let_def
        rx_ready_def version_zero_def take_memcpy_at_0)
qed

theorem version_string_runs_past_response_witness:
  "\<exists>out s'. gxfp_cmd_get_version (sim_env (sim_windows (response_wire 0xA8 [0x47, 0x46]))) sim_state =
       ((0, out), s') \<and> gv_version_ascii out = 0x47 # 0x46 # replicate 29 0x5a @ [0]"
proof -
  let ?W = "sim_windows (response_wire 0xA8 [0x47, 0x46])"
  have k: "env_kmalloc (sim_env ?W) h n" for h n by (simp add: sim_env_def)
  have g: "fresh (sim_env W) [] 512 = replicate 512 0x5a" for W
    by (simp add: fresh_def sim_env_def map_replicate_const)
  have p: "printable 0x47" "printable 0x46" "printable 0x5a" by (simp_all add: printable_def)
  have v: "takeWhile printable (replicate 29 0x5a) = replicate 29 0x5a"
    by (simp add: p takeWhile_eq_all_conv)
  have "(memcpy_at (zeros 32) 0 (0x47 # 0x46 # replicate 29 0x5a))[Suc (Suc 29) := 0] =
      0x47 # 0x46 # replicate 29 0x5a @ [0]"
    by (simp add: memcpy_at_0 zeros_def list_update_append)
  then show ?thesis
    using version_string_runs_past_response [OF sim_env_windows sim_state_ready k, of "[0x47, 0x46]"]
      sim_windows_show [of "response_wire 0xA8 [0x47, 0x46]"]
    by (auto simp: g v p Let_def sim_state_def)
qed

end
