(* ===== verification/Kernel_Uapi.thy ===== *)
theory Kernel_Uapi
  imports Kernel_Cmd
begin

unbundle bit_operations_syntax

text \<open>
  The character device of the kernel module: \<open>driver/gxfp_uapi_fifo.c\<close> (the receive queue,
  \<open>read\<close>, \<open>poll\<close>), \<open>driver/gxfp_uapi_ctrl.c\<close> (\<open>open\<close>, \<open>release\<close>, \<open>write\<close>,
  \<open>ioctl\<close>), \<open>driver/gxfp_uapi_misc.c\<close> (registration) and the interrupt thread
  \<open>driver/gxfp_irq.c\<close> that feeds it. The kfifo is the list of its bytes; the abstract view is the
  list of records it holds, and the locale \<open>record_queue\<close> states what a queue of records promises
  its users. The functions take the locks of the code and record them as events; a wait for the
  queue to fill is an argument that says what the rest of the system did meanwhile.
\<close>

section \<open>Definitions\<close>

definition GXFP_RXQ_FIFO_BYTES :: nat where "GXFP_RXQ_FIFO_BYTES = 0x100000"
definition GXFP_IOCTL_TX_PAYLOAD_MAX :: nat where "GXFP_IOCTL_TX_PAYLOAD_MAX = 508"
definition GXFP_IOCTL_FLUSH_RXQ :: u32 where "GXFP_IOCTL_FLUSH_RXQ = 0x4711"
definition TAP_HDR_SIZE :: nat where "TAP_HDR_SIZE = 40"
definition TX_PKT_HDR_SIZE :: nat where "TX_PKT_HDR_SIZE = 8"
definition EPOLLIN :: u32 where "EPOLLIN = 1"
definition EPOLLERR :: u32 where "EPOLLERR = 8"
definition EPOLLRDNORM :: u32 where "EPOLLRDNORM = 0x40"

text \<open>\<open>struct gxfp_tap_hdr\<close>, and its 40 bytes in memory (four bytes of padding before the
  64-bit time stamp).\<close>

record gxfp_tap_hdr =
  th_len :: u32
  th_type :: u32
  th_rsvd0 :: u32
  th_ts_ns :: u64
  th_head16 :: bytes

definition tap_hdr_bytes :: "gxfp_tap_hdr \<Rightarrow> bytes" where
  "tap_hdr_bytes h = le32enc (th_len h) @ le32enc (th_type h) @ le32enc (th_rsvd0 h) @ zeros 4 @
     le64_bytes (th_ts_ns h) @ th_head16 h"

record kfile =
  f_mode_read :: bool
  f_nonblock :: bool
  f_private :: bool

subsection \<open>The kfifo\<close>

definition kfifo_avail :: "bytes \<Rightarrow> nat" where
  "kfifo_avail fifo = GXFP_RXQ_FIFO_BYTES - length fifo"

definition kfifo_in :: "bytes \<Rightarrow> bytes \<Rightarrow> bytes" where
  "kfifo_in fifo buf = fifo @ take (kfifo_avail fifo) buf"

definition kfifo_out :: "bytes \<Rightarrow> nat \<Rightarrow> bytes \<times> bytes" where
  "kfifo_out fifo n = (take n fifo, drop n fifo)"

subsection \<open>The receive queue (\<open>gxfp_uapi_fifo.c\<close>)\<close>

definition gxfp_uapi_rxq_flush_locked :: "kst \<Rightarrow> kst" where
  "gxfp_uapi_rxq_flush_locked s =
    (if \<not> rxq_inited (kdev s) then s else upd_dev (\<lambda>d. d\<lparr>rxq_fifo := []\<rparr>) s)"

definition gxfp_uapi_rxq_push :: "kenv \<Rightarrow> ptr \<Rightarrow> nat \<Rightarrow> kst \<Rightarrow> kst" where
  "gxfp_uapi_rxq_push env buf len s =
    (if \<not> rxq_inited (kdev s) \<or> buf = None \<or> len = 0 then s
     else
       (case gxfp_parse_mp_frame buf len (Some mp_frame_zero) of
          (True, Some mp) \<Rightarrow>
            if \<not> mp_valid mp then s
            else if unat (mp_payload_len mp) > 0xFFFFFFFF then s
            else
              let payload = ptr_bytes (mp_payload mp) (unat (mp_payload_len mp));
                  hdr = \<lparr>th_len = ucast (mp_payload_len mp),
                         th_type = ucast (drop_bit 4 (mp_flags mp)), th_rsvd0 = 0,
                         th_ts_ns = env_ktime_ns env (kev s),
                         th_head16 = memcpy_at (zeros 16) 0
                           (take (min (unat (mp_payload_len mp)) 16) payload)\<rparr>;
                  s = lock RxqLock s
              in if \<not> rxq_inited (kdev s) then unlock RxqLock s
                 else
                   let need = TAP_HDR_SIZE + unat (mp_payload_len mp)
                   in if kfifo_avail (rxq_fifo (kdev s)) < need then unlock RxqLock s
                      else
                        let s = upd_dev (\<lambda>d. d\<lparr>rxq_fifo := kfifo_in (rxq_fifo d) (tap_hdr_bytes hdr)\<rparr>) s;
                            s = upd_dev (\<lambda>d. d\<lparr>rxq_fifo := kfifo_in (rxq_fifo d) payload\<rparr>) s;
                            s = unlock RxqLock s
                        in ev EvWakeUp s
        | _ \<Rightarrow> s))"

definition gxfp_uapi_rxq_push_packet :: "kenv \<Rightarrow> ptr \<Rightarrow> nat \<Rightarrow> kst \<Rightarrow> kst" where
  "gxfp_uapi_rxq_push_packet env buf len s = gxfp_uapi_rxq_push env buf len s"

definition gxfp_uapi_rxq_ready :: "kst \<Rightarrow> bool \<times> kst" where
  "gxfp_uapi_rxq_ready s =
    (let s = lock RxqLock s;
         ready = (rxq_inited (kdev s) \<and> rxq_fifo (kdev s) \<noteq> [])
     in (ready, unlock RxqLock s))"

text \<open>\<open>wait\<close> is \<open>wait_event_interruptible\<close>: its code, and the state the rest of the system has
  reached when it returns, or \<open>None\<close> when it sleeps for ever. The loop may go round again, so it is a partial function.\<close>

partial_function (option) gxfp_uapi_wait_nonempty ::
  "(kst \<Rightarrow> (int \<times> kst) option) \<Rightarrow> kfile \<Rightarrow> kst \<Rightarrow> (int \<times> kst) option" where
  "gxfp_uapi_wait_nonempty wait file s =
    (let s = lock RxqLock s
     in if \<not> rxq_inited (kdev s) then Some (- ENODEV, unlock RxqLock s)
        else if rxq_fifo (kdev s) \<noteq> [] then Some (0, unlock RxqLock s)
        else
          let s = unlock RxqLock s
          in if f_nonblock file then Some (- EAGAIN, s)
             else
               Option.bind (wait (ev EvWaitEvent s))
                 (\<lambda>(ret, s).
                    if ret \<noteq> 0 then Some (ret, s)
                    else gxfp_uapi_wait_nonempty wait file s))"

definition gxfp_uapi_peek_need :: "nat \<Rightarrow> kst \<Rightarrow> (int \<times> nat) \<times> kst" where
  "gxfp_uapi_peek_need count s =
    (let s = lock RxqLock s; fifo = rxq_fifo (kdev s)
     in if \<not> rxq_inited (kdev s) then ((- ENODEV, 0), unlock RxqLock s)
        else if length fifo < TAP_HDR_SIZE then ((- EIO, 0), unlock RxqLock s)
        else
          let hdr = take TAP_HDR_SIZE fifo
          in if length hdr \<noteq> TAP_HDR_SIZE then ((- EIO, 0), unlock RxqLock s)
             else
               let need = TAP_HDR_SIZE + unat (le32 hdr)
               in if length fifo < need then ((- EIO, 0), unlock RxqLock s)
                  else if count < need then ((- EMSGSIZE, 0), unlock RxqLock s)
                  else ((0, need), unlock RxqLock s))"

definition gxfp_uapi_pop_record :: "nat \<Rightarrow> kst \<Rightarrow> (int \<times> bytes \<times> nat) \<times> kst" where
  "gxfp_uapi_pop_record need s =
    (let s = lock RxqLock s
     in if \<not> rxq_inited (kdev s) then ((- ENODEV, [], 0), unlock RxqLock s)
        else
          (case kfifo_out (rxq_fifo (kdev s)) need of
             (tmp, rest) \<Rightarrow>
               let s = upd_dev (\<lambda>d. d\<lparr>rxq_fifo := rest\<rparr>) s
               in ((0, tmp, length tmp), unlock RxqLock s)))"

text \<open>The part of \<open>gxfp_uapi_read\<close> between the wait and the release of the mutex.\<close>

definition read_one :: "kenv \<Rightarrow> nat \<Rightarrow> kst \<Rightarrow> int \<times> kst" where
  "read_one env count s =
    (case gxfp_uapi_peek_need count s of
       ((ret, need), s) \<Rightarrow>
         if ret \<noteq> 0 then (ret, s)
         else
           (case kmalloc env need s of
              (None, s) \<Rightarrow> (- ENOMEM, s)
            | (Some tmp, s) \<Rightarrow>
                (case gxfp_uapi_pop_record need s of
                   ((ret, data, popped), s) \<Rightarrow>
                     if ret \<noteq> 0 then (ret, kfree need s)
                     else if popped \<noteq> need then (- EIO, kfree need s)
                     else if env_copy_user_fails env (kev s) then (- EFAULT, kfree need s)
                     else (int popped, kfree need (ev (EvCopyToUser data) s)))))"

definition gxfp_uapi_read ::
  "kenv \<Rightarrow> (kst \<Rightarrow> (int \<times> kst) option) \<Rightarrow> kfile \<Rightarrow> nat \<Rightarrow> kst \<Rightarrow> (int \<times> kst) option" where
  "gxfp_uapi_read env wait file count s =
    (if \<not> f_private file \<or> \<not> rxq_inited (kdev s) then Some (- ENODEV, s)
     else if count = 0 then Some (0, s)
     else
       let ret = env_lock_interrupted env (kev s)
       in if ret \<noteq> 0 then Some (ret, s)
          else
            (case gxfp_uapi_wait_nonempty wait file (lock RxqMutex s) of
               None \<Rightarrow> None
             | Some (ret, s) \<Rightarrow>
                 if ret \<noteq> 0 then Some (ret, unlock RxqMutex s)
                 else (case read_one env count s of (ret, s) \<Rightarrow> Some (ret, unlock RxqMutex s))))"

definition gxfp_uapi_poll :: "kfile \<Rightarrow> kst \<Rightarrow> u32 \<times> kst" where
  "gxfp_uapi_poll file s =
    (if \<not> f_private file \<or> \<not> rxq_inited (kdev s) then (EPOLLERR, s)
     else
       let s = lock RxqLock (ev EvPollWait s)
       in if \<not> rxq_inited (kdev s) then (EPOLLERR, unlock RxqLock s)
          else
            let mask = (if rxq_fifo (kdev s) \<noteq> [] then 0 OR (EPOLLIN OR EPOLLRDNORM) else 0)
            in (mask, unlock RxqLock s))"

subsection \<open>Control operations (\<open>gxfp_uapi_ctrl.c\<close>)\<close>

definition gxfp_uapi_open :: "kenv \<Rightarrow> kfile \<Rightarrow> kst \<Rightarrow> (int \<times> kfile) \<times> kst" where
  "gxfp_uapi_open env file s =
    (if \<not> env_capable env (kev s) then ((- EPERM, file), s)
     else if f_mode_read file then
       let s = lock RxqLock s
       in if \<not> rxq_inited (kdev s) then ((- ENODEV, file), unlock RxqLock s)
          else if rxq_reader_open (kdev s) then ((- EBUSY, file), unlock RxqLock s)
          else
            let s = upd_dev (\<lambda>d. d\<lparr>rxq_reader_open := True\<rparr>) s;
                s = unlock RxqLock s
            in ((0, file\<lparr>f_private := True\<rparr>), trace_logf ''uapi_open'' s)
     else ((0, file\<lparr>f_private := True\<rparr>), trace_logf ''uapi_open'' s))"

definition gxfp_uapi_release :: "kfile \<Rightarrow> kst \<Rightarrow> int \<times> kst" where
  "gxfp_uapi_release file s =
    (if \<not> f_private file then (0, s)
     else if f_mode_read file then
       let s = lock RxqLock s;
           s = upd_dev (\<lambda>d. d\<lparr>rxq_reader_open := False\<rparr>) s
       in (0, unlock RxqLock s)
     else (0, s))"

text \<open>\<open>ubuf\<close> is the user's buffer; \<open>struct gxfp_tx_pkt_hdr\<close> is its first eight bytes
  (\<open>mp_flags\<close>, a pad byte, \<open>payload_len\<close>, \<open>flags\<close>).\<close>

definition gxfp_uapi_write :: "kenv \<Rightarrow> kfile \<Rightarrow> ptr \<Rightarrow> nat \<Rightarrow> kst \<Rightarrow> int \<times> kst" where
  "gxfp_uapi_write env file ubuf count s =
    (case ubuf of
       None \<Rightarrow> (- ENODEV, s)
     | Some u \<Rightarrow>
         if \<not> f_private file then (- ENODEV, s)
         else if count < TX_PKT_HDR_SIZE then (- EINVAL, s)
         else if env_copy_user_fails env (kev s) then (- EFAULT, s)
         else
           let mp_flags = u ! 0;
               payload_len = unat (le16 (u ! 2) (u ! 3))
           in if payload_len > GXFP_IOCTL_TX_PAYLOAD_MAX then (- EINVAL, s)
              else
                let need = TX_PKT_HDR_SIZE + payload_len
                in if count \<noteq> need then (- EINVAL, s)
                   else
                     (case kmalloc env (4 + payload_len) s of
                        (None, s) \<Rightarrow> (- ENOMEM, s)
                      | (Some mp_local, s) \<Rightarrow>
                          let mp_local = mp_local[0 := mp_flags];
                              mp_local = mp_local[1 := lo8 (of_nat payload_len)];
                              mp_local = mp_local[2 := hi8 (of_nat payload_len)];
                              mp_local = mp_local[3 := mp_local ! 0 + mp_local ! 1 + mp_local ! 2]
                          in if payload_len \<noteq> 0 \<and> env_copy_user_fails env (kev s)
                             then (- EFAULT, kfree (4 + payload_len) s)
                             else
                               let mp_local = memcpy_at mp_local 4
                                     (take payload_len (drop TX_PKT_HDR_SIZE u));
                                   s = lock DevLock s
                               in (case gxfp_espi_write env (Some mp_local) (4 + payload_len) s of
                                     (ret, s) \<Rightarrow>
                                       let s = unlock DevLock s;
                                           s = trace_logf ''uapi_write'' s;
                                           s = kfree (4 + payload_len) s
                                       in if ret \<noteq> 0 then (ret, s) else (int count, s))))"

definition gxfp_uapi_unlocked_ioctl :: "kenv \<Rightarrow> kfile \<Rightarrow> u32 \<Rightarrow> kst \<Rightarrow> int \<times> kst" where
  "gxfp_uapi_unlocked_ioctl env file cmd s =
    (if \<not> f_private file then (- ENODEV, s)
     else if cmd = GXFP_IOCTL_FLUSH_RXQ then
       let ret = env_lock_interrupted env (kev s)
       in if ret \<noteq> 0 then (ret, s)
          else
            let s = lock RxqLock (lock RxqMutex s);
                s = gxfp_uapi_rxq_flush_locked s;
                s = unlock RxqMutex (unlock RxqLock s)
            in (0, trace_logf ''uapi_ioctl'' s)
     else (- ENOTTY, s))"

subsection \<open>Registration (\<open>gxfp_uapi_misc.c\<close>)\<close>

definition gxfp_uapi_register :: "kenv \<Rightarrow> kst \<Rightarrow> int \<times> kst" where
  "gxfp_uapi_register env s =
    (if misc_registered (kdev s) then (0, s)
     else
       let s = upd_dev (\<lambda>d. d\<lparr>rxq_inited := False, rxq_reader_open := False\<rparr>) s
       in (case kmalloc env GXFP_RXQ_FIFO_BYTES s of
             (None, s) \<Rightarrow> (- ENOMEM, upd_dev (\<lambda>d. d\<lparr>rxq_buf := False\<rparr>) s)
           | (Some _, s) \<Rightarrow>
               let s = upd_dev (\<lambda>d. d\<lparr>rxq_buf := True\<rparr>) s;
                   rc_fifo = env_kfifo_init env (kev s)
               in if rc_fifo \<noteq> 0
                  then (rc_fifo, upd_dev (\<lambda>d. d\<lparr>rxq_buf := False\<rparr>) (kfree GXFP_RXQ_FIFO_BYTES s))
                  else
                    let s = upd_dev (\<lambda>d. d\<lparr>rxq_fifo := [], rxq_inited := True\<rparr>) s;
                        ret = env_misc_register env (kev s)
                    in if ret \<noteq> 0
                       then (ret, upd_dev (\<lambda>d. d\<lparr>rxq_buf := False, rxq_inited := False\<rparr>)
                                    (kfree GXFP_RXQ_FIFO_BYTES s))
                       else (0, upd_dev (\<lambda>d. d\<lparr>misc_registered := True\<rparr>) (ev EvMiscRegister s))))"

definition gxfp_uapi_unregister :: "kst \<Rightarrow> kst" where
  "gxfp_uapi_unregister s =
    (if \<not> misc_registered (kdev s) \<and> \<not> rxq_inited (kdev s) then s
     else
       let s = (if misc_registered (kdev s)
                then upd_dev (\<lambda>d. d\<lparr>misc_registered := False\<rparr>) (ev EvMiscDeregister s) else s)
       in if rxq_inited (kdev s) then
            let s = lock RxqLock (lock RxqMutex s);
                s = upd_dev (\<lambda>d. d\<lparr>rxq_inited := False, rxq_reader_open := False, rxq_fifo := []\<rparr>) s;
                s = ev EvWakeUp (unlock RxqLock s);
                s = kfree GXFP_RXQ_FIFO_BYTES s;
                s = upd_dev (\<lambda>d. d\<lparr>rxq_buf := False\<rparr>) s
            in unlock RxqMutex s
          else s)"

subsection \<open>The interrupt thread (\<open>gxfp_irq.c\<close>)\<close>

datatype irqreturn = IRQ_NONE | IRQ_HANDLED

definition gxfp_irq_thread :: "kenv \<Rightarrow> kst \<Rightarrow> irqreturn \<times> kst" where
  "gxfp_irq_thread env s =
    (if irq_rx_buf (kdev s) = None \<or> irq_rx_cap (kdev s) < 16 then (IRQ_NONE, s)
     else
       (case gxfp_espi_irq_read_step env (irq_rx_buf (kdev s)) (irq_rx_cap (kdev s))
               (lock DevLock s) of
          ((ret, rx_len, complete, rx), s) \<Rightarrow>
            let s = upd_dev (\<lambda>d. d\<lparr>irq_rx_buf := rx\<rparr>) s;
                s = (if ret \<noteq> 0 then trace_logf ''irq_read_step'' s else s);
                push = (ret = 0 \<and> complete \<and> rx_len \<noteq> 0);
                s = gxfp_gpio_set_read_done False s;
                s = unlock DevLock s;
                s = (if push then trace_logf ''irq_rx_complete'' s else s);
                s = (if push then gxfp_uapi_rxq_push_packet env rx rx_len s else s)
            in (IRQ_HANDLED, s)))"


section \<open>Records\<close>

record tap_rec =
  tr_type :: u32
  tr_ts :: u64
  tr_payload :: bytes

definition rec_hdr :: "tap_rec \<Rightarrow> gxfp_tap_hdr" where
  "rec_hdr r = \<lparr>th_len = of_nat (length (tr_payload r)), th_type = tr_type r, th_rsvd0 = 0,
     th_ts_ns = tr_ts r, th_head16 = take 16 (tr_payload r @ zeros 16)\<rparr>"

definition rec_bytes :: "tap_rec \<Rightarrow> bytes" where
  "rec_bytes r = tap_hdr_bytes (rec_hdr r) @ tr_payload r"

definition rec_ok :: "tap_rec \<Rightarrow> bool" where
  "rec_ok r \<longleftrightarrow> length (tr_payload r) < GXFP_GOODIX_MP_LEN_MAX"

lemma length_tap_hdr_bytes [simp]:
  "length (tap_hdr_bytes h) = 24 + length (th_head16 h)"
  by (simp add: tap_hdr_bytes_def)

lemma length_head16 [simp]: "length (th_head16 (rec_hdr r)) = 16"
  by (simp add: rec_hdr_def)

lemma length_rec_bytes [simp]: "length (rec_bytes r) = 40 + length (tr_payload r)"
  by (simp add: rec_bytes_def)

lemma le32_take_4: "4 \<le> n \<Longrightarrow> le32 (take n p) = le32 p"
  by (simp add: le32_def)

lemma rec_bytes_len:
  assumes "rec_ok r"
  shows "unat (le32 (take 40 (rec_bytes r @ rest))) = length (tr_payload r)"
proof -
  have "le32 (take 40 (rec_bytes r @ rest)) = of_nat (length (tr_payload r))"
    by (simp add: le32_take_4 rec_bytes_def tap_hdr_bytes_def rec_hdr_def)
  then show ?thesis
    using assms by (simp add: rec_ok_def GXFP_GOODIX_MP_LEN_MAX_def unsigned_of_nat take_bit_nat_eq_self)
qed

text \<open>The queue holds whole records only, in the order of their arrival.\<close>

definition rxq_holds :: "kst \<Rightarrow> tap_rec list \<Rightarrow> bool" where
  "rxq_holds s rs \<longleftrightarrow> rxq_fifo (kdev s) = concat (map rec_bytes rs) \<and> list_all rec_ok rs \<and>
     length (rxq_fifo (kdev s)) \<le> GXFP_RXQ_FIFO_BYTES"

definition rxq_inv :: "kst \<Rightarrow> bool" where
  "rxq_inv s \<longleftrightarrow> (\<exists>rs. rxq_holds s rs)"

lemma rxq_holds_kdev: "rxq_fifo (kdev s') = rxq_fifo (kdev s) \<Longrightarrow> rxq_holds s' rs = rxq_holds s rs"
  by (simp add: rxq_holds_def)

section \<open>Pushing\<close>

definition packet_ok :: "bytes \<Rightarrow> nat \<Rightarrow> bool" where
  "packet_ok b n \<longleftrightarrow> 4 \<le> n \<and> mp_head_ok b \<and> 4 + unat (le16 (b ! 1) (b ! 2)) \<le> n"

definition packet_rec :: "kenv \<Rightarrow> bytes \<Rightarrow> kst \<Rightarrow> tap_rec" where
  "packet_rec env b s = \<lparr>tr_type = ucast (drop_bit 4 (b ! 0)), tr_ts = env_ktime_ns env (kev s),
     tr_payload = take (unat (le16 (b ! 1) (b ! 2))) (drop 4 b)\<rparr>"

lemma memcpy_zeros_16: "memcpy_at (zeros 16) 0 (take (min k 16) (xs :: bytes)) =
    take 16 (take k xs @ zeros 16)"
proof -
  have "drop (length (take (min k 16) xs)) (zeros 16) = zeros (16 - length (take (min k 16) xs))"
    by (simp add: zeros_def)
  moreover have "take 16 (take k xs @ zeros 16) =
      take (min k 16) xs @ zeros (16 - length (take (min k 16) xs))"
    by (auto simp: min_def)
  ultimately show ?thesis by (simp add: memcpy_at_0)
qed

lemma push_eq:
  assumes "rxq_inited (kdev s)" and "n \<le> length b"
  shows "kdev (gxfp_uapi_rxq_push env (Some b) n s) =
    (if packet_ok b n \<and> 40 + length (tr_payload (packet_rec env b s)) \<le> kfifo_avail (rxq_fifo (kdev s))
     then (kdev s)\<lparr>rxq_fifo := rxq_fifo (kdev s) @ rec_bytes (packet_rec env b s)\<rparr>
     else kdev s)"
proof (cases "packet_ok b n")
  case False
  then obtain g where "gxfp_parse_mp_frame (Some b) n (Some mp_frame_zero) = (False, g)"
    by (auto simp: packet_ok_def parse_mp_frame_eq)
  then have "gxfp_uapi_rxq_push env (Some b) n s = s" by (simp add: gxfp_uapi_rxq_push_def)
  then show ?thesis using False by simp
next
  case True
  let ?l = "le16 (b ! 1) (b ! 2)"
  have n: "4 \<le> n" "mp_head_ok b" "4 + unat ?l \<le> n" using True by (auto simp: packet_ok_def)
  have parse: "gxfp_parse_mp_frame (Some b) n (Some mp_frame_zero) = (True, Some (mp_view b))"
    using n by (simp add: parse_mp_frame_eq)
  have len: "length (take (unat ?l) (drop 4 b)) = unat ?l" using n assms(2) by simp
  have small: "\<not> unat ?l > 0xFFFFFFFF" using u16_less [of ?l] by simp
  let ?hdr = "\<lparr>th_len = ucast ?l, th_type = ucast (drop_bit 4 (b ! 0)), th_rsvd0 = 0,
      th_ts_ns = env_ktime_ns env (kev s),
      th_head16 = memcpy_at (zeros 16) 0 (take (min (unat ?l) 16) (take (unat ?l) (drop 4 b)))\<rparr>"
  have hdr: "?hdr = rec_hdr (packet_rec env b s)"
    using len unfolding memcpy_zeros_16 by (simp add: rec_hdr_def packet_rec_def)
  have pl: "tr_payload (packet_rec env b s) = take (unat ?l) (drop 4 b)"
    by (simp add: packet_rec_def)
  have room: "kfifo_in (kfifo_in f (tap_hdr_bytes ?hdr)) (take (unat ?l) (drop 4 b)) =
      f @ rec_bytes (packet_rec env b s)" if "40 + unat ?l \<le> kfifo_avail f" for f
    using that len unfolding hdr by (simp add: kfifo_in_def kfifo_avail_def rec_bytes_def pl)
  let ?s = "lock RxqLock s"
  have "gxfp_uapi_rxq_push env (Some b) n s =
      (if kfifo_avail (rxq_fifo (kdev s)) < 40 + unat ?l then unlock RxqLock ?s
       else ev EvWakeUp (unlock RxqLock
         (upd_dev (\<lambda>d. d\<lparr>rxq_fifo := kfifo_in (rxq_fifo d) (take (unat ?l) (drop 4 b))\<rparr>)
           (upd_dev (\<lambda>d. d\<lparr>rxq_fifo := kfifo_in (rxq_fifo d) (tap_hdr_bytes ?hdr)\<rparr>) ?s))))"
    using assms(1) n(1) small
    unfolding gxfp_uapi_rxq_push_def parse
    by (simp add: mp_view_def TAP_HDR_SIZE_def Let_def)
  then show ?thesis
    using True room [of "rxq_fifo (kdev s)"] len by (simp add: pl)
qed

lemma push_holds:
  assumes "rxq_inited (kdev s)" and "n \<le> length b" and "rxq_holds s rs"
  shows "rxq_holds (gxfp_uapi_rxq_push env (Some b) n s)
    (if packet_ok b n \<and> 40 + length (tr_payload (packet_rec env b s)) \<le> kfifo_avail (rxq_fifo (kdev s))
     then rs @ [packet_rec env b s] else rs)"
proof -
  have "rec_ok (packet_rec env b s)" if "packet_ok b n"
    using that assms(2)
    by (auto simp: packet_ok_def rec_ok_def packet_rec_def mp_head_ok_def min_def)
  then show ?thesis
    using assms push_eq [OF assms(1,2), of env]
    by (auto simp: rxq_holds_def kfifo_avail_def)
qed

section \<open>Reading\<close>

text \<open>The last block copied to the user.\<close>

fun copied :: "kevent list \<Rightarrow> bytes" where
  "copied [] = []"
| "copied (EvCopyToUser b # h) = b"
| "copied (_ # h) = copied h"

lemma kdev_peek [simp]: "kdev (snd (gxfp_uapi_peek_need count s)) = kdev s"
  by (simp add: gxfp_uapi_peek_need_def Let_def)

lemma peek_need_eq:
  assumes "rxq_inited (kdev s)" and "rxq_holds s (r # rs)"
  shows "fst (gxfp_uapi_peek_need count s) =
    (if count < 40 + length (tr_payload r) then (- EMSGSIZE, 0) else (0, 40 + length (tr_payload r)))"
  using assms rec_bytes_len [of r "concat (map rec_bytes rs)"]
  by (simp add: gxfp_uapi_peek_need_def Let_def rxq_holds_def TAP_HDR_SIZE_def)

lemma pop_record_eq:
  assumes "rxq_inited (kdev s)" and "rxq_holds s (r # rs)"
  shows "gxfp_uapi_pop_record (40 + length (tr_payload r)) s =
    ((0, rec_bytes r, 40 + length (tr_payload r)),
     unlock RxqLock (upd_dev (\<lambda>d. d\<lparr>rxq_fifo := concat (map rec_bytes rs)\<rparr>) (lock RxqLock s)))"
proof -
  have "rxq_fifo (kdev s) = rec_bytes r @ concat (map rec_bytes rs)"
    using assms(2) by (simp add: rxq_holds_def)
  then show ?thesis
    using assms(1) by (simp add: gxfp_uapi_pop_record_def Let_def kfifo_out_def min_def)
qed

text \<open>Every branch of a read on a queue with a first record.\<close>

lemma read_one_cases:
  assumes "rxq_inited (kdev s)" and "rxq_holds s (r # rs)"
  obtains (small) s' where "count < 40 + length (tr_payload r)"
      "read_one env count s = (- EMSGSIZE, s')" "kdev s' = kdev s"
  | (nomem) s' where "read_one env count s = (- ENOMEM, s')" "kdev s' = kdev s"
      "\<exists>h. \<not> env_kmalloc env h (40 + length (tr_payload r))"
  | (fault) s' where "read_one env count s = (- EFAULT, s')"
      "kdev s' = (kdev s)\<lparr>rxq_fifo := concat (map rec_bytes rs)\<rparr>"
      "\<exists>h. env_copy_user_fails env h"
  | (got) s' where "40 + length (tr_payload r) \<le> count"
      "read_one env count s = (int (40 + length (tr_payload r)), s')"
      "kdev s' = (kdev s)\<lparr>rxq_fifo := concat (map rec_bytes rs)\<rparr>" "copied (kev s') = rec_bytes r"
proof -
  let ?n = "40 + length (tr_payload r)"
  obtain ret need s1 where pk: "gxfp_uapi_peek_need count s = ((ret, need), s1)"
    by (metis surj_pair)
  have k1: "kdev s1 = kdev s" using kdev_peek [of count s] pk by simp
  have rn: "(ret, need) = (if count < ?n then (- EMSGSIZE, 0) else (0, ?n))"
    using peek_need_eq [OF assms, of count] pk by simp
  let ?s2 = "ev (EvKmalloc ?n) s1"
  have h2: "rxq_holds ?s2 (r # rs)" "rxq_inited (kdev ?s2)"
    using assms k1 rxq_holds_kdev [of ?s2 s "r # rs"] by simp_all
  note pop = pop_record_eq [OF h2(2,1)]
  let ?s3 = "unlock RxqLock (upd_dev (\<lambda>d. d\<lparr>rxq_fifo := concat (map rec_bytes rs)\<rparr>) (lock RxqLock ?s2))"
  have k3: "kdev ?s3 = (kdev s)\<lparr>rxq_fifo := concat (map rec_bytes rs)\<rparr>" using k1 by simp
  consider "count < ?n" | "?n \<le> count" "\<not> env_kmalloc env (kev s1) ?n"
    | "?n \<le> count" "env_kmalloc env (kev s1) ?n" by linarith
  then show ?thesis
  proof cases
    case 1
    then have "read_one env count s = (- EMSGSIZE, s1)" using pk rn by (simp add: read_one_def)
    then show ?thesis using small 1 k1 by blast
  next
    case 2
    then have "ret = 0" "need = ?n" using rn by simp_all
    then have "read_one env count s = (- ENOMEM, s1)"
      using 2 pk by (simp add: read_one_def kmalloc_def)
    then show ?thesis using nomem 2 k1 by blast
  next
    case 3
    then have "ret = 0" "need = ?n" using rn by simp_all
    moreover have "kmalloc env ?n s1 = (Some (fresh env (kev s1) ?n), ?s2)"
      using 3 by (simp add: kmalloc_def)
    ultimately have eq: "read_one env count s =
        (if env_copy_user_fails env (kev ?s3) then (- EFAULT, kfree ?n ?s3)
         else (int ?n, kfree ?n (ev (EvCopyToUser (rec_bytes r)) ?s3)))"
      using pk pop by (simp add: read_one_def)
    show ?thesis
    proof (cases "env_copy_user_fails env (kev ?s3)")
      case True
      then show ?thesis using fault [OF _ _ exI, of "kfree ?n ?s3"] eq k3 by simp
    next
      case False
      then have "read_one env count s = (int ?n, kfree ?n (ev (EvCopyToUser (rec_bytes r)) ?s3))"
        using eq by simp
      then show ?thesis using got [OF 3(1)] k3 by (simp add: kfree_def)
    qed
  qed
qed


subsection \<open>Waiting\<close>

lemma wait_nonempty_ready:
  assumes "rxq_inited (kdev s)" and "rxq_fifo (kdev s) \<noteq> []"
  shows "gxfp_uapi_wait_nonempty wait f s = Some (0, unlock RxqLock (lock RxqLock s))"
  by (subst gxfp_uapi_wait_nonempty.simps) (use assms in \<open>simp add: Let_def\<close>)

lemma wait_nonempty_gone:
  assumes "\<not> rxq_inited (kdev s)"
  shows "gxfp_uapi_wait_nonempty wait f s = Some (- ENODEV, unlock RxqLock (lock RxqLock s))"
  by (subst gxfp_uapi_wait_nonempty.simps) (use assms in \<open>simp add: Let_def\<close>)

text \<open>What \<open>wait_event_interruptible\<close> documents: it returns 0 only when its condition holds.\<close>

definition wait_contract :: "(kst \<Rightarrow> (int \<times> kst) option) \<Rightarrow> bool" where
  "wait_contract wait \<longleftrightarrow>
    (\<forall>s s'. wait s = Some (0, s') \<longrightarrow> rxq_inited (kdev s') \<and> rxq_fifo (kdev s') \<noteq> [] \<or> \<not> rxq_inited (kdev s'))"

text \<open>The loop waits at most once: a wait that reports success has found its condition.\<close>

definition relocked :: "kst \<Rightarrow> kst" where
  "relocked s = unlock RxqLock (lock RxqLock s)"

lemma kdev_relocked [simp]: "kdev (relocked s) = kdev s"
  by (simp add: relocked_def)

lemma wait_nonempty_once:
  assumes "wait_contract wait"
  shows "gxfp_uapi_wait_nonempty wait f s =
    (if \<not> rxq_inited (kdev s) then Some (- ENODEV, relocked s)
     else if rxq_fifo (kdev s) \<noteq> [] then Some (0, relocked s)
     else if f_nonblock f then Some (- EAGAIN, relocked s)
     else map_option (\<lambda>(r, s1). if r \<noteq> 0 then (r, s1) else (if rxq_inited (kdev s1) then 0 else - ENODEV, relocked s1))
       (wait (ev EvWaitEvent (relocked s))))"
proof (cases "wait (ev EvWaitEvent (relocked s))")
  case None
  then show ?thesis by (subst gxfp_uapi_wait_nonempty.simps) (simp add: Let_def relocked_def)
next
  case (Some rs)
  obtain r s1 where rs: "rs = (r, s1)" by force
  have "rxq_inited (kdev s1) \<and> rxq_fifo (kdev s1) \<noteq> [] \<or> \<not> rxq_inited (kdev s1)" if "r = 0"
    using assms Some rs that unfolding wait_contract_def by blast
  then have "gxfp_uapi_wait_nonempty wait f s1 = Some (if rxq_inited (kdev s1) then 0 else - ENODEV, relocked s1)" if "r = 0"
    using that wait_nonempty_ready [of s1 wait f] wait_nonempty_gone [of s1 wait f] by (auto simp: relocked_def)
  then show ?thesis
    using Some rs by (subst gxfp_uapi_wait_nonempty.simps) (auto simp: Let_def relocked_def)
qed

section \<open>The queue as its users see it\<close>

text \<open>A queue of records: a packet that is pushed is appended as one record or dropped whole, and
  taking from the queue yields its first record.\<close>

fun arrivals :: "('m \<Rightarrow> 's \<Rightarrow> 's) \<Rightarrow> ('m \<Rightarrow> 's \<Rightarrow> 'r option) \<Rightarrow> 'm list \<Rightarrow> 's \<Rightarrow> 'r list" where
  "arrivals push acc [] s = []"
| "arrivals push acc (m # ms) s =
     (case acc m s of None \<Rightarrow> [] | Some r \<Rightarrow> [r]) @ arrivals push acc ms (push m s)"

fun drain :: "('s \<Rightarrow> 'b \<times> 's) \<Rightarrow> nat \<Rightarrow> 's \<Rightarrow> 'b list" where
  "drain pop 0 s = []"
| "drain pop (Suc n) s = fst (pop s) # drain pop n (snd (pop s))"

locale record_queue =
  fixes holds :: "'s \<Rightarrow> 'r list \<Rightarrow> bool"
    and push :: "'m \<Rightarrow> 's \<Rightarrow> 's"
    and acc :: "'m \<Rightarrow> 's \<Rightarrow> 'r option"
    and pop :: "'s \<Rightarrow> 'b \<times> 's"
    and out :: "'r \<Rightarrow> 'b"
  assumes push_law:
      "holds s rs \<Longrightarrow> holds (push m s) (rs @ (case acc m s of None \<Rightarrow> [] | Some r \<Rightarrow> [r]))"
    and pop_law: "holds s (r # rs) \<Longrightarrow> fst (pop s) = out r \<and> holds (snd (pop s)) rs"
begin

lemma holds_fold: "holds s rs \<Longrightarrow> holds (fold push ms s) (rs @ arrivals push acc ms s)"
proof (induction ms arbitrary: s rs)
  case Nil
  then show ?case by simp
next
  case (Cons m ms)
  then show ?case using Cons.IH [OF push_law [OF Cons.prems, of m]] by simp
qed

lemma drain_holds: "holds s rs \<Longrightarrow> drain pop (length rs) s = map out rs"
  by (induction rs arbitrary: s) (use pop_law in auto)

lemma first_in_first_out:
  assumes "holds s []"
  shows "drain pop (length (arrivals push acc ms s)) (fold push ms s) = map out (arrivals push acc ms s)"
  using drain_holds [OF holds_fold [OF assms]] by simp

end

text \<open>The interface of the driver's queue: packets come from the interrupt thread, records leave
  through \<open>read\<close> with a large enough buffer, in an environment where allocations and copies work.\<close>

definition quiet :: "kenv \<Rightarrow> kenv" where
  "quiet env = env\<lparr>env_kmalloc := (\<lambda>_ _. True), env_copy_user_fails := (\<lambda>_. False)\<rparr>"

definition rxq_push_bytes :: "kenv \<Rightarrow> bytes \<Rightarrow> kst \<Rightarrow> kst" where
  "rxq_push_bytes env b s = gxfp_uapi_rxq_push env (Some b) (length b) s"

definition rxq_accepted :: "kenv \<Rightarrow> bytes \<Rightarrow> kst \<Rightarrow> tap_rec option" where
  "rxq_accepted env b s =
    (if packet_ok b (length b) \<and>
        40 + length (tr_payload (packet_rec env b s)) \<le> kfifo_avail (rxq_fifo (kdev s))
     then Some (packet_rec env b s) else None)"

definition rxq_take :: "kenv \<Rightarrow> kst \<Rightarrow> bytes \<times> kst" where
  "rxq_take env s = (let s' = snd (read_one (quiet env) 0x8000 s) in (copied (kev s'), s'))"

lemma push_inited: "rxq_inited (kdev (rxq_push_bytes env b s)) = rxq_inited (kdev s)"
proof (cases "rxq_inited (kdev s)")
  case True
  then show ?thesis using push_eq [OF True order.refl, where env = env and b = b] by (simp add: rxq_push_bytes_def)
next
  case False
  then show ?thesis by (simp add: rxq_push_bytes_def gxfp_uapi_rxq_push_def)
qed

interpretation rxq: record_queue "\<lambda>s rs. rxq_inited (kdev s) \<and> rxq_holds s rs" "rxq_push_bytes env"
    "rxq_accepted env" "rxq_take env" rec_bytes
proof
  fix s rs b
  assume h: "rxq_inited (kdev s) \<and> rxq_holds s rs"
  then have "rxq_holds (rxq_push_bytes env b s)
      (rs @ (case rxq_accepted env b s of None \<Rightarrow> [] | Some r \<Rightarrow> [r]))"
    using push_holds [of s "length b" b rs env]
    by (auto simp: rxq_push_bytes_def rxq_accepted_def)
  then show "rxq_inited (kdev (rxq_push_bytes env b s)) \<and> rxq_holds (rxq_push_bytes env b s)
      (rs @ (case rxq_accepted env b s of None \<Rightarrow> [] | Some r \<Rightarrow> [r]))"
    using h push_inited by simp
next
  fix s r rs
  assume h: "rxq_inited (kdev s) \<and> rxq_holds s (r # rs)"
  have l: "40 + length (tr_payload r) \<le> 0x8000"
    using h by (auto simp: rxq_holds_def rec_ok_def GXFP_GOODIX_MP_LEN_MAX_def)
  from h have "rxq_inited (kdev s)" "rxq_holds s (r # rs)" by auto
  then show "fst (rxq_take env s) = rec_bytes r \<and>
      rxq_inited (kdev (snd (rxq_take env s))) \<and> rxq_holds (snd (rxq_take env s)) rs"
  proof (cases rule: read_one_cases [where count = "0x8000" and env = "quiet env"])
    case (got s')
    then show ?thesis using h by (auto simp: rxq_take_def Let_def rxq_holds_def)
  qed (use l in \<open>simp_all add: quiet_def\<close>)
qed


section \<open>From interrupts to records\<close>

lemma pulses_lock [simp]:
  "read_done_pulses (kev (lock l s)) = read_done_pulses (kev s)"
  "read_done_pulses (kev (unlock l s)) = read_done_pulses (kev s)"
  "live_blocks (kev (lock l s)) = live_blocks (kev s)"
  "live_blocks (kev (unlock l s)) = live_blocks (kev s)"
  "write_done_pulses (kev (lock l s)) = write_done_pulses (kev s)"
  "write_done_pulses (kev (unlock l s)) = write_done_pulses (kev s)"
  "written (kev (lock l s)) = written (kev s)"
  "written (kev (unlock l s)) = written (kev s)"
  by (simp_all add: lock_def unlock_def)

text \<open>The part of the device record that the receive path leaves alone.\<close>

definition rx_frame :: "gxfp_dev \<Rightarrow> gxfp_dev \<Rightarrow> bool" where
  "rx_frame d d' \<longleftrightarrow> irq_rx_cap d' = irq_rx_cap d \<and> rxq_fifo d' = rxq_fifo d \<and>
     rxq_inited d' = rxq_inited d"

definition irq_ok :: "bytes \<Rightarrow> bytes \<Rightarrow> kst \<Rightarrow> bool" where
  "irq_ok m rx s \<longleftrightarrow> rx_ready s \<and> irq_rx_buf (kdev s) = Some rx \<and>
     length rx = irq_rx_cap (kdev s) \<and> 0xe00 \<le> irq_rx_cap (kdev s) \<and> length m \<le> irq_rx_cap (kdev s)"

lemma irq_thread_step:
  assumes "mailbox_windows env W" and "mp_package m" and "windows_show W p m"
    and "irq_ok m rx s" and "assembling p m k rx s"
  obtains (more) rx' s' where "0xe00 * Suc k < length m" "gxfp_irq_thread env s = (IRQ_HANDLED, s')"
      "irq_ok m rx' s'" "assembling p m (Suc k) rx' s'" "rx_frame (kdev s) (kdev s')"
  | (last) rx' u where "\<not> 0xe00 * Suc k < length m"
      "gxfp_irq_thread env s = (IRQ_HANDLED, gxfp_uapi_rxq_push env (Some rx') (length m) u)"
      "take (length m) rx' = m" "length m \<le> length rx'" "rx_frame (kdev s) (kdev u)"
proof -
  let ?s = "lock DevLock s"
  have ok: "rx_ready ?s" "irq_rx_buf (kdev s) = Some rx" "length rx = irq_rx_cap (kdev s)"
    "0xe00 \<le> irq_rx_cap (kdev s)" "length m \<le> irq_rx_cap (kdev s)"
    using assms(4) by (auto simp: irq_ok_def rx_ready_def)
  have asm: "assembling p m k rx ?s" using assms(5) by (simp add: assembling_def)
  obtain ret len complete rxp s1 where st: "gxfp_espi_irq_read_step env (Some rx)
      (irq_rx_cap (kdev s)) ?s = ((ret, len, complete, rxp), s1)" by (metis surj_pair)
  have post: "step_post p m k rx ((ret, len, complete, rxp), s1) ?s"
    using irq_step [OF assms(1) ok(1) assms(2,3) ok(5,4,3) asm] st by simp
  then obtain rx' where rx': "rxp = Some rx'" "length rx' = length rx" and r0: "ret = 0"
    and rd: "rx_ready s1"
    and dev: "(kdev s1)\<lparr>assem_active := False, assem_total := 0, assem_copied := 0, irq_rx_tmp := None\<rparr>
       = (kdev s)\<lparr>assem_active := False, assem_total := 0, assem_copied := 0, irq_rx_tmp := None\<rparr>"
    unfolding step_post_def by auto
  have fr: "irq_rx_cap (kdev s1) = irq_rx_cap (kdev s)" "rxq_fifo (kdev s1) = rxq_fifo (kdev s)"
    "rxq_inited (kdev s1) = rxq_inited (kdev s)"
    using arg_cong [OF dev, of irq_rx_cap] arg_cong [OF dev, of rxq_fifo]
      arg_cong [OF dev, of rxq_inited] by simp_all
  let ?u0 = "unlock DevLock (gxfp_gpio_set_read_done False
      (upd_dev (\<lambda>d. d\<lparr>irq_rx_buf := Some rx'\<rparr>) s1))"
  have th: "gxfp_irq_thread env s = (IRQ_HANDLED,
      if complete \<and> len \<noteq> 0
      then gxfp_uapi_rxq_push env (Some rx') len (trace_logf ''irq_rx_complete'' ?u0) else ?u0)"
    using st ok(2,4) rx'(1) r0
    by (simp add: gxfp_irq_thread_def Let_def gxfp_uapi_rxq_push_packet_def)
  show ?thesis
  proof (cases "0xe00 * Suc k < length m")
    case True
    then have c: "\<not> complete" "assembling p m (Suc k) rx' s1"
      using post rx'(1) unfolding step_post_def by auto
    have "gxfp_irq_thread env s = (IRQ_HANDLED, ?u0)" using th c by simp
    moreover have "irq_ok m rx' ?u0"
      using rd ok rx'(2) fr by (simp add: irq_ok_def rx_ready_def)
    moreover have "assembling p m (Suc k) rx' ?u0"
      using c(2) by (simp add: assembling_def set_read_done_pulses)
    ultimately show ?thesis using more True fr by (simp add: rx_frame_def)
  next
    case False
    then have c: "complete" "len = length m" "take (length m) rx' = m"
      using post rx'(1) unfolding step_post_def by auto
    have "len \<noteq> 0" using c(2) assms(2) by (auto simp: mp_package_def)
    then show ?thesis
      using last [OF False _ c(3)] th c rx'(2) ok fr by (simp add: rx_frame_def)
  qed
qed

fun irq_threads :: "kenv \<Rightarrow> nat \<Rightarrow> kst \<Rightarrow> kst" where
  "irq_threads env 0 s = s"
| "irq_threads env (Suc n) s = irq_threads env n (snd (gxfp_irq_thread env s))"

definition msg_rec :: "bytes \<Rightarrow> u64 \<Rightarrow> tap_rec" where
  "msg_rec m ts = \<lparr>tr_type = ucast (drop_bit 4 (m ! 0)), tr_ts = ts, tr_payload = drop 4 m\<rparr>"

lemma push_message:
  assumes "mp_package m" and "take (length m) rx = m" and "length m \<le> length rx"
    and "rxq_inited (kdev u)" and "rxq_holds u rs" and "36 + length m \<le> kfifo_avail (rxq_fifo (kdev u))"
  shows "\<exists>ts. rxq_holds (gxfp_uapi_rxq_push env (Some rx) (length m) u) (rs @ [msg_rec m ts])"
proof -
  have m4: "4 \<le> length m" using assms(1) by (simp add: mp_package_def)
  have n: "rx ! i = m ! i" if "i < length m" for i
    using assms(2) that by (metis nth_take)
  have pk: "packet_ok rx (length m)"
    using assms(1) m4 n by (simp add: packet_ok_def mp_package_def mp_head_ok_def)
  have l: "unat (le16 (rx ! 1) (rx ! 2)) = length m - 4"
    using assms(1) n m4 by (simp add: mp_package_def)
  have "take (length m - 4) (drop 4 rx) = drop 4 (take (length m) rx)" by (simp add: drop_take)
  moreover have "rx ! 0 = m ! 0" using n [of 0] m4 by linarith
  ultimately have "packet_rec env rx u = msg_rec m (env_ktime_ns env (kev u))"
    unfolding packet_rec_def msg_rec_def l using assms(2) by simp
  then show ?thesis
    using push_holds [OF assms(4,3,5), of env] pk assms(6) m4
    by (auto simp: msg_rec_def)
qed

lemma irq_threads_deliver:
  assumes "mailbox_windows env W" and "mp_package m" and "windows_show W p m"
    and "irq_ok m rx s" and "assembling p m k rx s" and "rxq_inited (kdev s)" and "rxq_holds s rs"
    and "36 + length m \<le> kfifo_avail (rxq_fifo (kdev s))"
    and "0xe00 * (k + j) < length m" and "length m \<le> 0xe00 * (k + Suc j)"
  shows "\<exists>ts. rxq_holds (irq_threads env (Suc j) s) (rs @ [msg_rec m ts])"
  using assms(4-)
proof (induction j arbitrary: k rx s)
  case 0
  from assms(1-3) 0(1,2) show ?case
  proof (cases rule: irq_thread_step)
    case (more rx' s')
    then show ?thesis using 0 by simp
  next
    case (last rx' u)
    have fr: "rxq_fifo (kdev u) = rxq_fifo (kdev s)" "rxq_inited (kdev u) = rxq_inited (kdev s)"
      using last(5) by (simp_all add: rx_frame_def)
    have "rxq_holds u rs" using rxq_holds_kdev [OF fr(1)] 0(4) by blast
    then show ?thesis
      using push_message [OF assms(2) last(3,4), of u rs env] 0 fr last(2) by simp
  qed
next
  case (Suc j)
  from assms(1-3) Suc(2,3) show ?case
  proof (cases rule: irq_thread_step)
    case (more rx' s')
    have fr: "rxq_fifo (kdev s') = rxq_fifo (kdev s)" "rxq_inited (kdev s') = rxq_inited (kdev s)"
      using more(5) by (simp_all add: rx_frame_def)
    have "rxq_holds s' rs" using rxq_holds_kdev [OF fr(1)] Suc(5) by blast
    then have "\<exists>ts. rxq_holds (irq_threads env (Suc j) s') (rs @ [msg_rec m ts])"
      using Suc.IH [OF more(3,4)] fr Suc(4,6-) by simp
    then show ?thesis using more(2) by simp
  next
    case (last rx' u)
    then show ?thesis using Suc(7) by simp
  qed
qed


section \<open>Writing\<close>

text \<open>What a client writes: \<open>struct gxfp_tx_pkt_hdr\<close> and the payload.\<close>

definition tx_record :: "u8 \<Rightarrow> bytes \<Rightarrow> bytes" where
  "tx_record flags pl =
    [flags, 0, lo8 (of_nat (length pl)), hi8 (of_nat (length pl)), 0, 0, 0, 0] @ pl"

lemma length_tx_record [simp]: "length (tx_record f pl) = 8 + length pl"
  by (simp add: tx_record_def)

lemma tx_record_nth [simp]:
  "tx_record f pl ! 0 = f" "tx_record f pl ! 2 = lo8 (of_nat (length pl))"
  "tx_record f pl ! 3 = hi8 (of_nat (length pl))" "drop 8 (tx_record f pl) = pl"
  by (simp_all add: tx_record_def)

lemma mp_local_image:
  assumes "length b = 4 + length pl"
  shows "memcpy_at (b[0 := f, 1 := lo8 l, 2 := hi8 l, 3 := f + lo8 l + hi8 l]) 4 pl =
    [f, lo8 l, hi8 l, f + lo8 l + hi8 l] @ pl"
proof -
  have "4 \<le> length b" using assms by simp
  then obtain x y z w r where b: "b = x # y # z # w # r" by (rule length_ge_4E)
  then have "length r = length pl" using assms by simp
  then show ?thesis by (simp add: b memcpy_at_def numeral_2_eq_2 numeral_3_eq_3)
qed

text \<open>The answer to a \<open>write\<close>: the driver's checks in the order of the code, the two allocations, the two copies from the
  client, and the limit of the mailbox.\<close>

definition write_answer :: "kenv \<Rightarrow> kfile \<Rightarrow> ptr \<Rightarrow> nat \<Rightarrow> kst \<Rightarrow> int" where
  "write_answer env f ubuf count s =
    (case ubuf of
       None \<Rightarrow> - ENODEV
     | Some u \<Rightarrow>
         let n = unat (le16 (u ! 2) (u ! 3)); h = EvKmalloc (4 + n) # kev s
         in if \<not> f_private f then - ENODEV
            else if count < 8 then - EINVAL
            else if env_copy_user_fails env (kev s) then - EFAULT
            else if n > 508 \<or> count \<noteq> 8 + n then - EINVAL
            else if \<not> env_kmalloc env (kev s) (4 + n) then - ENOMEM
            else if n \<noteq> 0 \<and> env_copy_user_fails env h then - EFAULT
            else if \<not> mailbox_mmio (kdev s) then - ENODEV
            else if n > 500 then - EOVERFLOW
            else if \<not> env_kmalloc env (EvLock DevLock # h) (12 + n + espi_pad (4 + n)) then - ENOMEM
            else int count)"

lemma uapi_write_reaches_espi:
  assumes "f_private f" and "\<not> env_copy_user_fails env (kev s)" and "env_kmalloc env (kev s) (4 + n)"
    and "n = 0 \<or> \<not> env_copy_user_fails env (EvKmalloc (4 + n) # kev s)"
    and "n = unat (le16 (u ! 2) (u ! 3))" and "n \<le> 508" and "8 + n \<le> length u"
  shows "gxfp_uapi_write env f (Some u) (8 + n) s =
    (let (r, s') = gxfp_espi_write env (Some (mp_bytes (u ! 0) (take n (drop 8 u)))) (4 + n) (lock DevLock (ev (EvKmalloc (4 + n)) s))
     in (if r \<noteq> 0 then r else int (8 + n), kfree (4 + n) (trace_logf ''uapi_write'' (unlock DevLock s'))))"
proof -
  let ?pl = "take n (drop 8 u)" and ?b = "fresh env (kev s) (4 + n)" and ?l = "of_nat n :: u16"
  have l: "length ?pl = n" using assms(7) by simp
  have img: "memcpy_at (?b[0 := u ! 0, Suc 0 := lo8 ?l, 2 := hi8 ?l, 3 := u ! 0 + lo8 ?l + hi8 ?l]) 4 ?pl = mp_bytes (u ! 0) ?pl"
    using mp_local_image [of ?b ?pl "u ! 0" ?l] l by (simp add: mp_bytes_def mp_head_def Let_def)
  show ?thesis
    using assms(1-4,6) assms(5) [symmetric] img
    by (cases "n = 0") (simp_all add: gxfp_uapi_write_def TX_PKT_HDR_SIZE_def GXFP_IOCTL_TX_PAYLOAD_MAX_def kmalloc_def Let_def split_beta)
qed

lemma wrapped_fits: "8 + (4 + n) + espi_pad (4 + n) \<le> GXFP_TX_BUFFER_SIZE \<longleftrightarrow> n \<le> 500"
proof -
  obtain q where q: "8 + (4 + n) + espi_pad (4 + n) = 8 * q" using espi_len_aligned [of "4 + n"] by (auto simp: mod_eq_0_iff_dvd elim: dvdE)
  have "espi_pad (4 + n) < 8" by (simp add: espi_pad_def)
  then show ?thesis using q by (simp add: GXFP_TX_BUFFER_SIZE_def) linarith
qed

section \<open>The interrupt path against any device\<close>

text \<open>Whatever the read window holds, the assembly state stays consistent with the buffer: the
  buffer keeps its length, a pending total and a completed length fit it.\<close>

definition rx_same :: "gxfp_dev \<Rightarrow> gxfp_dev \<Rightarrow> bool" where
  "rx_same d d' \<longleftrightarrow> rx_frame d d' \<and> rxq_reader_open d' = rxq_reader_open d \<and>
     irq_rx_buf d' = irq_rx_buf d"

definition assem_ok :: "nat \<Rightarrow> gxfp_dev \<Rightarrow> bool" where
  "assem_ok cap d \<longleftrightarrow> (assem_active d \<longrightarrow> assem_total d \<le> cap)"

definition irq_post :: "nat \<Rightarrow> (int \<times> nat \<times> bool \<times> ptr) \<times> kst \<Rightarrow> gxfp_dev \<Rightarrow> bool" where
  "irq_post cap r d \<longleftrightarrow>
    (case r of ((ret, len, complete, rxp), s') \<Rightarrow>
       (\<exists>rx'. rxp = Some rx' \<and> length rx' = cap) \<and> len \<le> cap \<and>
       assem_ok cap (kdev s') \<and> rx_same d (kdev s'))"

lemma window_read_length:
  assumes "gxfp_espi_rx_read_window env rx s = ((ret, rx'), s')" and "0xe00 \<le> length rx"
  shows "length rx' = length rx" and "kdev s' = kdev s"
proof -
  have "length (snd (fst (gxfp_espi_rx_read_window env rx s))) = length rx"
    using assms(2) by (simp add: gxfp_espi_rx_read_window_def gxfp_mmio_read_qword_aligned_def
        Let_def split_beta GXFP_ESPI_CHUNK_MAX_def)
  then show "length rx' = length rx" using assms(1) by simp
  show "kdev s' = kdev s" using read_window_frame(1) [of env rx s] assms(1) by simp
qed

lemma start_packet_kdev:
  assumes "gxfp_espi_rx_start_packet env rx cap v s = ((r, rx'), s')"
  shows "kdev s' = kdev s" and "r = Inr (tot, n) \<Longrightarrow> tot \<le> cap \<and> n \<le> tot"
proof -
  have "snd (gxfp_espi_rx_start_packet env rx cap v s) = snd (gxfp_espi_rx_read_window env rx s)"
    by (simp add: gxfp_espi_rx_start_packet_def Let_def split: prod.split option.split bool.split)
  then show "kdev s' = kdev s" using assms read_window_frame(1) [of env rx s] by simp
  show "r = Inr (tot, n) \<Longrightarrow> tot \<le> cap \<and> n \<le> tot"
    using assms by (auto simp: gxfp_espi_rx_start_packet_def Let_def
        split: prod.splits option.splits bool.splits if_splits)
qed

lemma rx_same_reset [simp]:
  "rx_same d (d'\<lparr>assem_active := a\<rparr>) = rx_same d d'"
  "rx_same d (d'\<lparr>assem_total := t\<rparr>) = rx_same d d'"
  "rx_same d (d'\<lparr>assem_copied := c\<rparr>) = rx_same d d'"
  "rx_same d (d'\<lparr>irq_rx_tmp := w\<rparr>) = rx_same d d'"
  "rx_same d d"
  by (simp_all add: rx_same_def rx_frame_def)

lemma irq_step_inactive:
  assumes "\<not> assem_active (kdev s)" and "length rx = cap" and "0xe00 \<le> cap"
    and "mailbox_mmio (kdev s)" and "\<not> mailbox_size (kdev s) < GXFP_ESPI_RX_OFF + GXFP_ESPI_CHUNK_MAX"
  shows "irq_post cap (gxfp_espi_irq_read_step env (Some rx) cap s) (kdev s)"
proof -
  obtain r rx1 s1 where st: "gxfp_espi_rx_start_packet env rx cap True s = ((r, rx1), s1)"
    by (metis surj_pair)
  have l: "length rx1 = cap" using start_packet_length(1) [OF st] assms(2,3) by simp
  have k: "kdev s1 = kdev s" by (rule start_packet_kdev(1) [OF st])
  show ?thesis
  proof (cases r)
    case (Inl e)
    then show ?thesis using st assms l k
      by (simp add: gxfp_espi_irq_read_step_def irq_post_def assem_ok_def GXFP_ESPI_CHUNK_MAX_def)
  next
    case (Inr tn)
    obtain tot n where tn: "tn = (tot, n)" by force
    have "tot \<le> cap" "n \<le> tot" using start_packet_kdev(2) [OF st] Inr tn by auto
    then show ?thesis using st assms l k Inr tn
      by (simp add: gxfp_espi_irq_read_step_def irq_post_def assem_ok_def Let_def GXFP_ESPI_CHUNK_MAX_def)
  qed
qed

lemma irq_step_active:
  assumes "assem_active (kdev s)" and "assem_total (kdev s) \<le> cap" and "length rx = cap"
    and "0xe00 \<le> cap" and "mailbox_mmio (kdev s)"
    and "\<not> mailbox_size (kdev s) < GXFP_ESPI_RX_OFF + GXFP_ESPI_CHUNK_MAX"
  shows "irq_post cap (gxfp_espi_irq_read_step env (Some rx) cap s) (kdev s)"
proof -
  let ?tot = "assem_total (kdev s)" and ?c = "assem_copied (kdev s)"
  obtain chunk pad dr where cc: "gxfp_espi_rx_chunk_calc (if ?c < ?tot then ?tot - ?c else 0) =
      (chunk, pad, dr)" by (metis prod_cases3)
  have chunk: "chunk \<le> ?tot - ?c" using cc by (auto simp: gxfp_espi_rx_chunk_calc_def Let_def split: if_splits)
  have e: "\<not> cap < GXFP_ESPI_CHUNK_MAX" using assms(4) by (simp add: GXFP_ESPI_CHUNK_MAX_def)
  consider "?tot = 0 \<or> ?c = 0 \<or> ?c > cap"
    | "\<not> (?tot = 0 \<or> ?c = 0 \<or> ?c > cap)" "chunk = 0 \<or> ?c + chunk > cap \<or> irq_rx_tmp (kdev s) = None"
    | t where "\<not> (?tot = 0 \<or> ?c = 0 \<or> ?c > cap)" "chunk \<noteq> 0" "\<not> ?c + chunk > cap"
        "irq_rx_tmp (kdev s) = Some t" by blast
  then show ?thesis
  proof cases
    case 1
    then show ?thesis using assms e
      by (simp add: gxfp_espi_irq_read_step_def irq_post_def assem_ok_def Let_def)
  next
    case 2
    then show ?thesis using assms e cc
      by (simp add: gxfp_espi_irq_read_step_def irq_post_def assem_ok_def Let_def split: option.split) auto
  next
    case 3
    obtain ret t' s1 where w: "gxfp_espi_rx_read_window env t s = ((ret, t'), s1)" by (metis surj_pair)
    have k: "kdev s1 = kdev s" using read_window_frame(1) [of env t s] w by simp
    have l: "length (memcpy_at rx ?c (take chunk t')) = cap"
      using 3(3) assms(3) by (subst length_memcpy_at) simp_all
    then show ?thesis using assms(1,2,3,5,6) e cc 3 w k l chunk
      by (simp add: gxfp_espi_irq_read_step_def irq_post_def assem_ok_def Let_def)
  qed
qed

section \<open>The device under its clients\<close>

text \<open>
  The driver as a state machine: its state and the files that are open, driven by the operations of
  the character device and by interrupts, in any order. Waiting readers sleep outside of it, so a
  blocking read is a step whose wait finds the queue as the other steps left it.
\<close>

record ksys =
  sys_st :: kst
  sys_files :: "kfile list"

inductive uapi_step :: "kenv \<Rightarrow> ksys \<Rightarrow> ksys \<Rightarrow> bool" for env where
  Open: "gxfp_uapi_open env f (sys_st x) = ((0, f'), s') \<Longrightarrow>
      uapi_step env x \<lparr>sys_st = s', sys_files = f' # sys_files x\<rparr>"
| OpenFails: "gxfp_uapi_open env f (sys_st x) = ((r, f'), s') \<Longrightarrow> r \<noteq> 0 \<Longrightarrow>
      uapi_step env x (x\<lparr>sys_st := s'\<rparr>)"
| Release: "f \<in> set (sys_files x) \<Longrightarrow> gxfp_uapi_release f (sys_st x) = (r, s') \<Longrightarrow>
      uapi_step env x \<lparr>sys_st = s', sys_files = remove1 f (sys_files x)\<rparr>"
| Read: "f \<in> set (sys_files x) \<Longrightarrow> f_nonblock f \<or> rxq_fifo (kdev (sys_st x)) \<noteq> [] \<Longrightarrow>
      gxfp_uapi_read env wait f count (sys_st x) = Some (r, s') \<Longrightarrow>
      uapi_step env x (x\<lparr>sys_st := s'\<rparr>)"
| Write: "f \<in> set (sys_files x) \<Longrightarrow> gxfp_uapi_write env f ubuf count (sys_st x) = (r, s') \<Longrightarrow>
      uapi_step env x (x\<lparr>sys_st := s'\<rparr>)"
| Ioctl: "f \<in> set (sys_files x) \<Longrightarrow> gxfp_uapi_unlocked_ioctl env f cmd (sys_st x) = (r, s') \<Longrightarrow>
      uapi_step env x (x\<lparr>sys_st := s'\<rparr>)"
| Irq: "gxfp_irq_thread env (sys_st x) = (h, s') \<Longrightarrow> uapi_step env x (x\<lparr>sys_st := s'\<rparr>)"
| Poll: "f \<in> set (sys_files x) \<Longrightarrow> gxfp_uapi_poll f (sys_st x) = (m, s') \<Longrightarrow>
      uapi_step env x (x\<lparr>sys_st := s'\<rparr>)"

inductive_cases uapi_stepE: "uapi_step env x y"

definition readers :: "kfile list \<Rightarrow> nat" where
  "readers fs = length (filter f_mode_read fs)"

text \<open>What holds in every reachable state: the queue holds whole records, every open file belongs
  to the device, and at most one of them reads, exactly when the driver says so.\<close>

definition irq_inv :: "gxfp_dev \<Rightarrow> bool" where
  "irq_inv d \<longleftrightarrow> 0xe00 \<le> irq_rx_cap d \<and> (\<exists>rx. irq_rx_buf d = Some rx \<and> length rx = irq_rx_cap d) \<and>
     assem_ok (irq_rx_cap d) d"

definition sys_inv :: "ksys \<Rightarrow> bool" where
  "sys_inv x \<longleftrightarrow> rxq_inited (kdev (sys_st x)) \<and> rxq_inv (sys_st x) \<and> irq_inv (kdev (sys_st x)) \<and>
     list_all f_private (sys_files x) \<and>
     readers (sys_files x) = (if rxq_reader_open (kdev (sys_st x)) then 1 else 0)"

lemma rxq_inv_fifo: "rxq_fifo (kdev s') = rxq_fifo (kdev s) \<Longrightarrow> rxq_inv s \<Longrightarrow> rxq_inv s'"
  by (auto simp: rxq_inv_def rxq_holds_def)

lemma rxq_inv_empty: "rxq_fifo (kdev s) = [] \<Longrightarrow> rxq_inv s"
  by (auto simp: rxq_inv_def rxq_holds_def GXFP_RXQ_FIFO_BYTES_def intro!: exI [of _ "[]"])

text \<open>What the operations do to the three fields the invariant speaks of.\<close>

definition uapi_same :: "kst \<Rightarrow> kst \<Rightarrow> bool" where
  "uapi_same s s' \<longleftrightarrow> rxq_inited (kdev s') = rxq_inited (kdev s) \<and>
     rxq_reader_open (kdev s') = rxq_reader_open (kdev s) \<and> (rxq_inv s \<longrightarrow> rxq_inv s') \<and>
     (irq_inv (kdev s) \<longrightarrow> irq_inv (kdev s'))"

lemma uapi_same_kframe: "kframe s s' \<Longrightarrow> uapi_same s s'"
proof -
  assume "kframe s s'"
  then have d: "(kdev s')\<lparr>mailbox_seq16 := 0, irq_rx_tmp := None\<rparr> =
      (kdev s)\<lparr>mailbox_seq16 := 0, irq_rx_tmp := None\<rparr>" by (simp add: kframe_def)
  have "rxq_inited (kdev s') = rxq_inited (kdev s)" "rxq_reader_open (kdev s') = rxq_reader_open (kdev s)"
    "rxq_fifo (kdev s') = rxq_fifo (kdev s)"
    using arg_cong [OF d, of rxq_inited] arg_cong [OF d, of rxq_reader_open]
      arg_cong [OF d, of rxq_fifo] by simp_all
  moreover have "irq_inv (kdev s') = irq_inv (kdev s)"
    using arg_cong [OF d, of irq_inv] by (simp add: irq_inv_def assem_ok_def)
  ultimately show ?thesis using rxq_inv_fifo by (auto simp: uapi_same_def)
qed

lemma uapi_same_kdev: "kdev s' = kdev s \<Longrightarrow> uapi_same s s'"
  using rxq_inv_fifo [of s' s] by (simp add: uapi_same_def)

lemma uapi_same_trans: "uapi_same s t \<Longrightarrow> uapi_same t u \<Longrightarrow> uapi_same s u"
  by (auto simp: uapi_same_def)

lemma read_one_same:
  assumes "rxq_inited (kdev s)" and "rxq_inv s" and "rxq_fifo (kdev s) \<noteq> []"
    and "read_one env count s = (r, s')"
  shows "uapi_same s s'"
proof -
  from assms(2) obtain rs where rs: "rxq_holds s rs" by (auto simp: rxq_inv_def)
  with assms(3) obtain r1 rs1 where "rs = r1 # rs1" by (cases rs) (auto simp: rxq_holds_def)
  with rs have h: "rxq_holds s (r1 # rs1)" by simp
  have pop: "uapi_same s t" if "kdev t = (kdev s)\<lparr>rxq_fifo := concat (map rec_bytes rs1)\<rparr>" for t
    using that h
    by (auto simp: uapi_same_def rxq_inv_def rxq_holds_def irq_inv_def assem_ok_def intro!: exI [of _ rs1])
  from assms(1) h show ?thesis
  proof (cases rule: read_one_cases [where count = count and env = env])
    case (small t)
    then show ?thesis using assms(4) uapi_same_kdev by simp
  next
    case (nomem t)
    then show ?thesis using assms(4) uapi_same_kdev by simp
  next
    case (fault t)
    then show ?thesis using assms(4) pop by simp
  next
    case (got t)
    then show ?thesis using assms(4) pop by simp
  qed
qed

lemma read_same:
  assumes "rxq_inited (kdev s)" and "rxq_inv s" and "f_nonblock f \<or> rxq_fifo (kdev s) \<noteq> []"
    and "gxfp_uapi_read env wait f count s = Some (r, s')"
  shows "uapi_same s s'"
proof -
  let ?s1 = "lock RxqMutex s" and ?s2 = "unlock RxqLock (lock RxqLock (lock RxqMutex s))"
  consider "kdev s' = kdev s" | r1 s1 where "rxq_fifo (kdev s) \<noteq> []"
      "read_one env count ?s2 = (r1, s1)" "s' = unlock RxqMutex s1"
  proof (cases "rxq_fifo (kdev s) = []")
    case True
    then have "gxfp_uapi_wait_nonempty wait f ?s1 = Some (- EAGAIN, ?s2)"
      using assms(1,3) by (subst gxfp_uapi_wait_nonempty.simps) (simp add: Let_def)
    then have "kdev s' = kdev s"
      using assms(4) by (auto simp: gxfp_uapi_read_def Let_def split: if_splits)
    then show ?thesis using that(1) by blast
  next
    case False
    then have w: "gxfp_uapi_wait_nonempty wait f ?s1 = Some (0, ?s2)"
      using wait_nonempty_ready [of ?s1] assms(1) by simp
    obtain r1 s1 where r1: "read_one env count ?s2 = (r1, s1)" by force
    show ?thesis
      using assms(4) w r1 that False
      by (auto simp: gxfp_uapi_read_def Let_def split: if_splits)
  qed
  then show ?thesis
  proof cases
    case 1
    then show ?thesis by (rule uapi_same_kdev)
  next
    case (2 r1 s1)
    have i: "rxq_inv ?s2" using rxq_inv_fifo [of ?s2 s] assms(2) by simp
    have "uapi_same ?s2 s1" using read_one_same [OF _ i _ 2(2)] 2(1) assms(1) by simp
    then have "uapi_same ?s2 s'"
      using uapi_same_trans uapi_same_kdev [of s' s1] 2(3) by simp
    moreover have "uapi_same s ?s2" by (rule uapi_same_kdev) simp
    ultimately show ?thesis using uapi_same_trans by blast
  qed
qed

lemma kdev_espi_write_seq: "\<exists>q. kdev (snd (gxfp_espi_write env p n s)) = (kdev s)\<lparr>mailbox_seq16 := q\<rparr>"
proof -
  have 0: "\<exists>q. kdev s = (kdev s)\<lparr>mailbox_seq16 := q\<rparr>" by (rule exI [of _ "mailbox_seq16 (kdev s)"]) simp
  have mm: "kdev (snd (gxfp_mmio_write_qword_aligned a b c d u)) = kdev u" for a b c d u
    by (simp add: gxfp_mmio_write_qword_aligned_def split: option.split)
  show ?thesis
    unfolding gxfp_espi_write_def Let_def kmalloc_def using 0
    by (auto simp: split_beta mm)
qed

lemma uapi_same_seq: "kdev s' = (kdev s)\<lparr>mailbox_seq16 := q\<rparr> \<Longrightarrow> uapi_same s s'"
  using rxq_inv_fifo [of s' s] by (simp add: uapi_same_def irq_inv_def assem_ok_def)

lemma write_same:
  assumes "gxfp_uapi_write env f ubuf count s = (r, s')"
  shows "uapi_same s s'"
proof -
  have km: "kdev (snd (kmalloc env n s)) = kdev s" for n by simp
  have "\<exists>q. kdev (snd (gxfp_uapi_write env f ubuf count s)) = (kdev s)\<lparr>mailbox_seq16 := q\<rparr>"
  proof -
    have 0: "\<exists>q. kdev s = (kdev s)\<lparr>mailbox_seq16 := q\<rparr>" by (rule exI [of _ "mailbox_seq16 (kdev s)"]) simp
    have w: "\<exists>q. kdev (snd (gxfp_espi_write env p n (lock DevLock (ev (EvKmalloc k) s)))) =
        (kdev s)\<lparr>mailbox_seq16 := q\<rparr>" for p n k
      using kdev_espi_write_seq [of env p n "lock DevLock (ev (EvKmalloc k) s)"] by simp
    show ?thesis
      unfolding gxfp_uapi_write_def Let_def kmalloc_def using 0 w
      by (simp add: split_beta split: option.split) 
  qed
  then show ?thesis using assms uapi_same_seq by auto
qed

lemma irq_same:
  assumes "rxq_inited (kdev s)" and "rxq_inv s" and "irq_inv (kdev s)"
    and "gxfp_irq_thread env s = (h, s')"
  shows "uapi_same s s'"
proof -
  let ?s = "lock DevLock s" and ?cap = "irq_rx_cap (kdev s)"
  obtain rx where rx: "irq_rx_buf (kdev s) = Some rx" "length rx = ?cap" and cap: "0xe00 \<le> ?cap"
    and ao: "assem_ok ?cap (kdev s)" using assms(3) by (auto simp: irq_inv_def)
  obtain ret len complete rxp s1 where st: "gxfp_espi_irq_read_step env (Some rx) ?cap ?s =
      ((ret, len, complete, rxp), s1)" by (metis surj_pair)
  have post: "irq_post ?cap ((ret, len, complete, rxp), s1) (kdev s)"
  proof (cases "mailbox_mmio (kdev s) \<and> \<not> mailbox_size (kdev s) < GXFP_ESPI_RX_OFF + GXFP_ESPI_CHUNK_MAX")
    case True
    then show ?thesis
      using irq_step_inactive [of ?s rx ?cap env] irq_step_active [of ?s ?cap rx env] rx cap ao st
      by (cases "assem_active (kdev s)") (simp_all add: assem_ok_def)
  next
    case False
    then show ?thesis
      using st cap ao rx(2)
      by (auto simp: gxfp_espi_irq_read_step_def irq_post_def GXFP_ESPI_CHUNK_MAX_def split: if_splits)
  qed
  then obtain rx' where rx': "rxp = Some rx'" "length rx' = ?cap" and len: "len \<le> ?cap"
    and ao1: "assem_ok ?cap (kdev s1)" and sm: "rx_same (kdev s) (kdev s1)"
    by (auto simp: irq_post_def)
  define u where "u = (let s = upd_dev (\<lambda>d. d\<lparr>irq_rx_buf := rxp\<rparr>) s1;
       s = (if ret \<noteq> 0 then trace_logf ''irq_read_step'' s else s);
       s = unlock DevLock (gxfp_gpio_set_read_done False s)
     in if ret = 0 \<and> complete \<and> len \<noteq> 0 then trace_logf ''irq_rx_complete'' s else s)"
  have s': "s' = (if ret = 0 \<and> complete \<and> len \<noteq> 0 then gxfp_uapi_rxq_push env (Some rx') len u else u)"
    using assms(4) st rx cap rx'(1)
    by (auto simp: gxfp_irq_thread_def Let_def u_def gxfp_uapi_rxq_push_packet_def)
  have ku: "kdev u = (kdev s1)\<lparr>irq_rx_buf := Some rx'\<rparr>" using rx' by (simp add: u_def Let_def)
  have "uapi_same s u"
    using rxq_inv_fifo [of u s] sm ao1 rx'(2) cap
    by (simp add: uapi_same_def ku rx_same_def rx_frame_def irq_inv_def assem_ok_def)
  moreover have "uapi_same u (gxfp_uapi_rxq_push env (Some rx') len u)"
  proof -
    have i: "rxq_inited (kdev u)" using ku sm assms(1) by (simp add: rx_same_def rx_frame_def)
    have l: "len \<le> length rx'" using len rx' by simp
    have "rxq_inv u \<Longrightarrow> rxq_inv (gxfp_uapi_rxq_push env (Some rx') len u)"
      using push_holds [OF i l] unfolding rxq_inv_def by blast
    then show ?thesis by (simp add: uapi_same_def push_eq [OF i l] irq_inv_def assem_ok_def)
  qed
  ultimately show ?thesis using s' uapi_same_trans by auto
qed

lemma sys_inv_same:
  assumes "sys_inv x" and "uapi_same (sys_st x) s'"
  shows "sys_inv (x\<lparr>sys_st := s'\<rparr>)"
  using assms by (simp add: sys_inv_def uapi_same_def)

lemma open_reader:
  assumes "gxfp_uapi_open env f s = ((r, f'), s')" and "rxq_inited (kdev s)"
  shows "if r = 0 then f_private f' \<and> f_mode_read f' = f_mode_read f \<and>
      (if f_mode_read f then \<not> rxq_reader_open (kdev s) \<and> kdev s' = (kdev s)\<lparr>rxq_reader_open := True\<rparr>
       else kdev s' = kdev s)
    else kdev s' = kdev s"
  using assms by (auto simp: gxfp_uapi_open_def Let_def split: if_splits)

lemma readers_pos: "f \<in> set fs \<Longrightarrow> f_mode_read f \<Longrightarrow> 0 < readers fs"
  by (auto simp: readers_def filter_empty_conv)

lemma readers_remove1:
  "f \<in> set fs \<Longrightarrow> readers (remove1 f fs) = readers fs - (if f_mode_read f then 1 else 0)"
proof (induction fs)
  case Nil
  then show ?case by simp
next
  case (Cons a fs)
  then show ?case using readers_pos [of f fs] by (cases "a = f") (auto simp: readers_def)
qed

lemma irq_inv_reader [simp]: "irq_inv (d\<lparr>rxq_reader_open := b\<rparr>) = irq_inv d"
  by (simp add: irq_inv_def assem_ok_def)

lemma sys_inv_step: "uapi_step env x y \<Longrightarrow> sys_inv x \<Longrightarrow> sys_inv y"
proof (induction rule: uapi_step.induct)
  case (Open f x f' s')
  have inv: "rxq_inited (kdev (sys_st x))" "rxq_inv (sys_st x)" "irq_inv (kdev (sys_st x))"
    using Open(2) by (simp_all add: sys_inv_def)
  note o = open_reader [OF Open(1) inv(1)]
  have "rxq_fifo (kdev s') = rxq_fifo (kdev (sys_st x))" "irq_inv (kdev s')"
    using o inv(3) by (cases "f_mode_read f"; simp)+
  then have "rxq_inv s'" "irq_inv (kdev s')" using rxq_inv_fifo inv(2) by blast+
  then show ?case
    using o Open(2) by (cases "f_mode_read f") (simp_all add: sys_inv_def readers_def)
next
  case (OpenFails f x r f' s')
  then have "kdev s' = kdev (sys_st x)"
    using open_reader [OF OpenFails(1)] by (simp add: sys_inv_def)
  then show ?case using sys_inv_same [OF OpenFails(3)] uapi_same_kdev by simp
next
  case (Release f x r s')
  have p: "f_private f" using Release by (auto simp: sys_inv_def list_all_iff)
  have r: "readers (remove1 f (sys_files x)) = readers (sys_files x) - (if f_mode_read f then 1 else 0)"
    by (rule readers_remove1 [OF Release(1)])
  have pos: "f_mode_read f \<Longrightarrow> 0 < readers (sys_files x)" by (rule readers_pos [OF Release(1)])
  have k: "kdev s' = (if f_mode_read f then (kdev (sys_st x))\<lparr>rxq_reader_open := False\<rparr> else kdev (sys_st x))"
    using Release(2) p by (auto simp: gxfp_uapi_release_def Let_def split: if_splits)
  have i: "rxq_inv s'"
    using Release(3) rxq_inv_fifo [of s' "sys_st x"] k by (simp add: sys_inv_def split: if_splits)
  have "list_all f_private (remove1 f (sys_files x))"
    using Release(3) set_remove1_subset [of f "sys_files x"] unfolding sys_inv_def list_all_iff
    by blast
  then show ?case
    using Release(3) r pos k i
    by (cases "f_mode_read f") (auto simp: sys_inv_def split: if_splits)
next
  case (Read f x wait count r s')
  then have "rxq_inited (kdev (sys_st x))" "rxq_inv (sys_st x)" by (simp_all add: sys_inv_def)
  from sys_inv_same [OF Read(4) read_same [OF this Read(2,3)]] show ?case .
next
  case (Write f x ubuf count r s')
  from sys_inv_same [OF Write(3) write_same [OF Write(2)]] show ?case .
next
  case (Ioctl f x cmd r s')
  let ?s = "sys_st x"
  have "kdev s' = kdev ?s \<or> kdev s' = (kdev ?s)\<lparr>rxq_fifo := []\<rparr>"
    using Ioctl(2) by (auto simp: gxfp_uapi_unlocked_ioctl_def Let_def gxfp_uapi_rxq_flush_locked_def
        split: if_splits)
  then have "uapi_same ?s s'"
  proof
    assume "kdev s' = kdev ?s"
    then show ?thesis by (rule uapi_same_kdev)
  next
    assume "kdev s' = (kdev ?s)\<lparr>rxq_fifo := []\<rparr>"
    then show ?thesis
      using rxq_inv_empty [of s'] by (simp add: uapi_same_def irq_inv_def assem_ok_def)
  qed
  from sys_inv_same [OF Ioctl(3) this] show ?case .
next
  case (Irq x h s')
  then have "rxq_inited (kdev (sys_st x))" "rxq_inv (sys_st x)" "irq_inv (kdev (sys_st x))"
    by (simp_all add: sys_inv_def)
  from sys_inv_same [OF Irq(2) irq_same [OF this Irq(1)]] show ?case .
next
  case (Poll f x m s')
  then have "kdev s' = kdev (sys_st x)"
    by (auto simp: gxfp_uapi_poll_def Let_def split: if_splits)
  then show ?case using sys_inv_same [OF Poll(3)] uapi_same_kdev by simp
qed

lemma sys_inv_reachable: "(uapi_step env)\<^sup>*\<^sup>* x y \<Longrightarrow> sys_inv x \<Longrightarrow> sys_inv y"
  by (induction rule: rtranclp_induct) (auto intro: sys_inv_step)


section \<open>Properties\<close>

text \<open>C9: The receive queue is first in, first out, on whole records. Starting from an empty
  queue, after any sequence of packets reading returns, in order of arrival, exactly the records of
  the packets that were well formed and found room, each with its header and its whole payload.\<close>

theorem rxq_first_in_first_out:
  assumes "rxq_inited (kdev s)" and "rxq_holds s []"
  shows "drain (rxq_take env) (length (arrivals (rxq_push_bytes env) (rxq_accepted env) bs s))
           (fold (rxq_push_bytes env) bs s) =
         map rec_bytes (arrivals (rxq_push_bytes env) (rxq_accepted env) bs s)"
  by (rule rxq.first_in_first_out) (simp add: assms)

lemma sim_state_queue: "rxq_inited (kdev sim_state)" "rxq_holds sim_state []"
  by (simp_all add: sim_state_def sim_dev_def rxq_holds_def GXFP_RXQ_FIFO_BYTES_def)

lemma accepted_bytes:
  assumes "mp_type_ok (drop_bit 4 f)" and "length pl < GXFP_GOODIX_MP_LEN_MAX"
    and "40 + length pl \<le> kfifo_avail (rxq_fifo (kdev s))"
  shows "rxq_accepted env (mp_bytes f pl) s =
    Some \<lparr>tr_type = ucast (drop_bit 4 f), tr_ts = env_ktime_ns env (kev s), tr_payload = pl\<rparr>"
proof -
  have h: "mp_head_ok (mp_bytes f pl)" using mp_head_ok_bytes [OF assms(1,2), of "[]"] by simp
  have l: "unat (le16 (mp_bytes f pl ! 1) (mp_bytes f pl ! 2)) = length pl"
    using mp_head_nth [of f pl "[]"] assms(2) by (simp add: unat_of_nat_16 GXFP_GOODIX_MP_LEN_MAX_def)
  show ?thesis
    using h assms(3) mp_head_nth(1) [of f pl "[]"] unfolding rxq_accepted_def packet_ok_def packet_rec_def l
    by simp
qed

theorem rxq_first_in_first_out_witness:
  "drain (rxq_take (sim_env (\<lambda>j. zeros 0xe00))) 1
     (rxq_push_bytes (sim_env (\<lambda>j. zeros 0xe00)) (mp_bytes 0xA0 [1, 2, 3]) sim_state) =
   [rec_bytes \<lparr>tr_type = 0xA, tr_ts = 7, tr_payload = [1, 2, 3]\<rparr>]"
proof -
  let ?env = "sim_env (\<lambda>j. zeros 0xe00)"
  have "rxq_accepted ?env (mp_bytes 0xA0 [1, 2, 3]) sim_state =
      Some \<lparr>tr_type = 0xA, tr_ts = 7, tr_payload = [1, 2, 3]\<rparr>"
    using accepted_bytes [of "0xA0" "[1, 2, 3]" sim_state ?env]
    by (simp add: mp_type_ok_def mp_type_defs GXFP_GOODIX_MP_LEN_MAX_def kfifo_avail_def
        GXFP_RXQ_FIFO_BYTES_def sim_state_def sim_dev_def sim_env_def)
  then show ?thesis
    using rxq_first_in_first_out [OF sim_state_queue, of ?env "[mp_bytes 0xA0 [1, 2, 3]]"] by simp
qed

text \<open>C7: The interrupt path reassembles a package of any admissible length. When the device
  presents a package in successive read windows, the interrupt thread run once per window leaves
  exactly one new record in the queue, carrying the package's type and its whole payload.\<close>

theorem irq_reassembles_package:
  assumes "mailbox_windows env W" and "mp_package m" and "windows_show W (read_done_pulses (kev s)) m"
    and "irq_ok m rx s" and "\<not> assem_active (kdev s)" and "rxq_inited (kdev s)" and "rxq_holds s rs"
    and "36 + length m \<le> kfifo_avail (rxq_fifo (kdev s))"
  shows "\<exists>ts. rxq_holds (irq_threads env ((length m + 0xdff) div 0xe00) s) (rs @ [msg_rec m ts])"
proof -
  define j where "j = (length m - 1) div 0xe00"
  have m: "0 < length m" using assms(2) by (auto simp: mp_package_def)
  have n: "(length m + 0xdff) div 0xe00 = Suc j"
  proof -
    have "length m + 0xdff = 0xe00 + (length m - 1)" using m by simp
    then show ?thesis by (simp only: j_def div_add_self1)
  qed
  have "0xe00 * j \<le> length m - 1" unfolding j_def by simp
  then have "0xe00 * j < length m" using m by (metis One_nat_def Suc_pred le_imp_less_Suc)
  then have b1: "0xe00 * (0 + j) < length m" by simp
  have "length m - 1 < 0xe00 * Suc j"
    using mod_less_divisor [of "0xe00" "length m - 1"] div_mult_mod_eq [of "length m - 1" "0xe00"]
    unfolding j_def by simp
  then have b2: "length m \<le> 0xe00 * (0 + Suc j)" using m by simp
  have a: "assembling (read_done_pulses (kev s)) m 0 rx s" using assms(5) by (simp add: assembling_def)
  show ?thesis
    unfolding n by (rule irq_threads_deliver [OF assms(1-4) a assms(6-8) b1 b2])
qed

theorem irq_reassembles_package_witness:
  "\<exists>ts. rxq_holds (irq_threads (sim_env (sim_windows (mp_bytes 0xB0 (zeros 0x2000)))) 3 sim_state)
     [msg_rec (mp_bytes 0xB0 (zeros 0x2000)) ts]"
proof -
  let ?m = "mp_bytes 0xB0 (zeros 0x2000)"
  have pk: "mp_package ?m"
    by (rule mp_package_bytes) (simp_all add: mp_type_ok_def mp_type_defs GXFP_GOODIX_MP_LEN_MAX_def)
  have ok: "irq_ok ?m (zeros 0x20000) sim_state"
    using sim_state_ready by (simp add: irq_ok_def sim_state_def sim_dev_def)
  show ?thesis
    using irq_reassembles_package [OF sim_env_windows pk _ ok _ sim_state_queue, of "sim_windows ?m"]
      sim_windows_show [of ?m]
    by (simp add: sim_state_def sim_dev_def kfifo_avail_def GXFP_RXQ_FIFO_BYTES_def)
qed

text \<open>C1: In every state the driver can reach through its operations and interrupts, in any order
  and against any device: the queue holds whole records within its capacity, every open file
  belongs to the device, and at most one file is open for reading, exactly when the driver records
  a reader.\<close>

theorem uapi_invariant_reachable:
  assumes "(uapi_step env)\<^sup>*\<^sup>* x y" and "sys_inv x"
  shows "sys_inv y"
  by (rule sys_inv_reachable [OF assms])

definition sim_file :: kfile where
  "sim_file = \<lparr>f_mode_read = True, f_nonblock = True, f_private = False\<rparr>"

definition sim_sys :: ksys where
  "sim_sys = \<lparr>sys_st = sim_state, sys_files = []\<rparr>"

lemma sim_sys_inv: "sys_inv sim_sys"
proof -
  have "rxq_inv sim_state" by (rule rxq_inv_empty) (simp add: sim_state_def sim_dev_def)
  then show ?thesis
    by (simp add: sys_inv_def sim_sys_def sim_state_def sim_dev_def readers_def irq_inv_def assem_ok_def)
qed

theorem uapi_invariant_reachable_witness:
  "\<exists>y. (uapi_step (sim_env (\<lambda>j. zeros 0xe00)))\<^sup>*\<^sup>* sim_sys y \<and> sys_files y = [sim_file\<lparr>f_private := True\<rparr>] \<and>
     sys_inv y \<and> rxq_reader_open (kdev (sys_st y))"
proof -
  let ?env = "sim_env (\<lambda>j. zeros 0xe00)"
  let ?r = "gxfp_uapi_open ?env sim_file sim_state"
  have o: "fst ?r = (0, sim_file\<lparr>f_private := True\<rparr>)" "rxq_reader_open (kdev (snd ?r))"
    by (simp_all add: gxfp_uapi_open_def sim_env_def sim_file_def sim_state_def sim_dev_def Let_def)
  let ?y = "\<lparr>sys_st = snd ?r, sys_files = [sim_file\<lparr>f_private := True\<rparr>]\<rparr>"
  have "uapi_step ?env sim_sys ?y"
    using uapi_step.Open [of ?env sim_file sim_sys "sim_file\<lparr>f_private := True\<rparr>" "snd ?r"] o(1)
    by (simp add: sim_sys_def) (metis prod.collapse)
  then have st: "(uapi_step ?env)\<^sup>*\<^sup>* sim_sys ?y" by blast
  show ?thesis using uapi_invariant_reachable [OF st sim_sys_inv] st o(2) by auto
qed

text \<open>C8: A client's packet reaches the mailbox, or nothing does. For every buffer, length, file and state of the driver, a \<open>write\<close>
  returns the answer its checks give in the order of the code: \<open>ENODEV\<close> without a device, \<open>EINVAL\<close> for a record that is short, announces more
  than 508 bytes or does not have the length it announces, \<open>EFAULT\<close> and \<open>ENOMEM\<close> where a copy or an allocation fails, and \<open>EOVERFLOW\<close>
  for 501 to 508 bytes, which pass the driver's own check although the eight-byte wrapper does not fit any more. A write that
  fails touches neither mailbox nor write-done line nor device state. A write that succeeds stores at consecutive registers from the start of the mailbox the
  wrapped MP package with the client's flags and payload, raises write-done once, and advances the sequence number by
  one. No memory is leaked.\<close>

theorem uapi_write_delivers:
  assumes "\<And>u. ubuf = Some u \<Longrightarrow> count \<le> length u"
  shows "\<exists>s'. gxfp_uapi_write env f ubuf count s = (write_answer env f ubuf count s, s') \<and>
    live_blocks (kev s') = live_blocks (kev s) \<and>
    (if write_answer env f ubuf count s < 0
     then written (kev s') = written (kev s) \<and> write_done_pulses (kev s') = write_done_pulses (kev s) \<and> kdev s' = kdev s
     else written (kev s') = written (kev s) @ enumerate 0 (espi_wrap (next_seq s) (mp_bytes (the ubuf ! 0) (drop 8 (take count (the ubuf))))) \<and>
          write_done_pulses (kev s') = write_done_pulses (kev s) + (if gpio_write_done (kdev s) then 1 else 0) \<and>
          kdev s' = (kdev s)\<lparr>mailbox_seq16 := mailbox_seq16 (kdev s) + 1\<rparr>)"
proof (cases ubuf)
  case None
  then show ?thesis by (simp add: gxfp_uapi_write_def write_answer_def)
next
  case (Some u)
  define n where "n = unat (le16 (u ! 2) (u ! 3))"
  let ?m = "mp_bytes (u ! 0) (take n (drop 8 u))" and ?s1 = "lock DevLock (ev (EvKmalloc (4 + n)) s)"
  show ?thesis
  proof (cases "f_private f \<and> \<not> env_copy_user_fails env (kev s) \<and> n \<le> 508 \<and> count = 8 + n \<and> env_kmalloc env (kev s) (4 + n) \<and>
      (n = 0 \<or> \<not> env_copy_user_fails env (EvKmalloc (4 + n) # kev s))")
    case False
    then show ?thesis using Some n_def [symmetric]
      by (auto simp: gxfp_uapi_write_def write_answer_def TX_PKT_HDR_SIZE_def GXFP_IOCTL_TX_PAYLOAD_MAX_def kmalloc_def Let_def split: option.split)
  next
    case ok: True
    have len: "8 + n \<le> length u" using assms [OF Some] ok by simp
    have eq: "gxfp_uapi_write env f (Some u) (8 + n) s =
       (let (r, s') = gxfp_espi_write env (Some ?m) (4 + n) ?s1 in (if r \<noteq> 0 then r else int (8 + n), kfree (4 + n) (trace_logf ''uapi_write'' (unlock DevLock s'))))"
      by (rule uapi_write_reaches_espi) (use ok len n_def in simp_all)
    have answer: "write_answer env f ubuf count s = (if \<not> mailbox_mmio (kdev s) then - ENODEV else if n > 500 then - EOVERFLOW
        else if \<not> env_kmalloc env (kev ?s1) (12 + n + espi_pad (4 + n)) then - ENOMEM else int (8 + n))"
      using ok Some n_def [symmetric] by (auto simp: write_answer_def Let_def lock_def)
    have lm: "length ?m = 4 + n" using len by simp
    show ?thesis
    proof (cases "write_ready env (length ?m) ?s1")
      case True
      let ?k = "8 + length ?m + espi_pad (length ?m)"
      note w = espi_write_ok [OF True]
      have seq: "next_seq ?s1 = next_seq s" by (simp add: next_seq_def)
      have good: "mailbox_mmio (kdev s)" "n \<le> 500" "env_kmalloc env (kev ?s1) (12 + n + espi_pad (4 + n))"
        using True [unfolded lm write_ready_def] wrapped_fits [of n] by simp_all
      have a: "write_answer env f ubuf count s = int (8 + n)" unfolding answer using good by simp
      have pl: "drop 8 (take count u) = take n (drop 8 u)" using ok by (simp add: drop_take)
      show ?thesis
        unfolding a using eq w lm ok Some after_write_views [OF length_espi_wrap espi_len_aligned, of ?m "next_seq ?s1" ?s1] pl seq
        by (simp add: Let_def)
    next
      case no: False
      have "gxfp_espi_write env (Some ?m) (4 + n) ?s1 = (write_answer env f ubuf count s, ?s1) \<and> write_answer env f ubuf count s < 0"
        using no wrapped_fits [of n] unfolding answer gxfp_espi_write_def pad_eq Let_def kmalloc_def write_ready_def lm by auto
      then show ?thesis using eq ok Some by (simp add: Let_def)
    qed
  qed
qed

theorem uapi_write_delivers_witness:
  "\<exists>s'. gxfp_uapi_write (sim_env (\<lambda>j. zeros 0xe00)) (sim_file\<lparr>f_private := True\<rparr>) (Some (tx_record 0xA0 [1, 2])) 10 sim_state = (10, s') \<and>
     written (kev s') = enumerate 0 (espi_wrap 0x8882 (mp_bytes 0xA0 [1, 2])) \<and> write_done_pulses (kev s') = 1 \<and>
   fst (gxfp_uapi_write (sim_env (\<lambda>j. zeros 0xe00)) (sim_file\<lparr>f_private := True\<rparr>) (Some (tx_record 0xA0 (zeros 501))) 509 sim_state) = - EOVERFLOW"
proof -
  let ?env = "sim_env (\<lambda>j. zeros 0xe00)" and ?f = "sim_file\<lparr>f_private := True\<rparr>"
  have a: "write_answer ?env ?f (Some (tx_record 0xA0 [1, 2])) 10 sim_state = 10"
    "write_answer ?env ?f (Some (tx_record 0xA0 (zeros 501))) 509 sim_state = - EOVERFLOW"
    by (simp_all add: write_answer_def sim_env_def sim_state_def sim_dev_def unat_of_nat_16 Let_def)
  have d: "written (kev sim_state) = []" "write_done_pulses (kev sim_state) = 0" "gpio_write_done (kdev sim_state)" "next_seq sim_state = 0x8882"
    by (simp_all add: sim_state_def sim_dev_def next_seq_def)
  have l: "drop 8 (take 10 (tx_record 0xA0 [1, 2])) = [1, 2]" by (simp add: tx_record_def)
  show ?thesis
    using uapi_write_delivers [of "Some (tx_record 0xA0 [1, 2])" 10 ?env ?f sim_state] uapi_write_delivers [of "Some (tx_record 0xA0 (zeros 501))" 509 ?env ?f sim_state]
      a d l by auto
qed

text \<open>When a read goes to sleep, and in which state.\<close>

definition read_blocks :: "kenv \<Rightarrow> kfile \<Rightarrow> nat \<Rightarrow> kst \<Rightarrow> bool" where
  "read_blocks env f count s \<longleftrightarrow> f_private f \<and> rxq_inited (kdev s) \<and> count \<noteq> 0 \<and> env_lock_interrupted env (kev s) = 0 \<and>
     rxq_fifo (kdev s) = [] \<and> \<not> f_nonblock f"

definition asleep :: "kst \<Rightarrow> kst" where
  "asleep s = ev EvWaitEvent (relocked (lock RxqMutex s))"

text \<open>C27: A read never spins. Under the documented contract of \<open>wait_event_interruptible\<close> (it returns success only when there is something
  to read or the device is gone) a \<open>read\<close> sleeps at most once, and only when it is allowed to block, holds the mutex and finds the queue empty; in
  every state and for every buffer size it returns unless that one wait sleeps for ever. After the wait it returns the wait's error,
  \<open>ENODEV\<close> when the device is gone, and otherwise what reading one record gives.\<close>

theorem uapi_read_returns:
  assumes "wait_contract wait"
  shows "(gxfp_uapi_read env wait f count s = None \<longleftrightarrow> read_blocks env f count s \<and> wait (asleep s) = None) \<and>
    (\<forall>r s1. read_blocks env f count s \<and> wait (asleep s) = Some (r, s1) \<longrightarrow>
       (\<exists>r' s'. gxfp_uapi_read env wait f count s = Some (r', unlock RxqMutex s') \<and>
          (if r \<noteq> 0 then r' = r \<and> s' = s1
           else if \<not> rxq_inited (kdev s1) then r' = - ENODEV \<and> s' = relocked s1
           else read_one env count (relocked s1) = (r', s'))))"
proof (cases "read_blocks env f count s")
  case True
  then have b: "f_private f" "rxq_inited (kdev s)" "count \<noteq> 0" "env_lock_interrupted env (kev s) = 0" "rxq_fifo (kdev s) = []" "\<not> f_nonblock f"
    by (simp_all add: read_blocks_def)
  have w: "gxfp_uapi_wait_nonempty wait f (lock RxqMutex s) =
      map_option (\<lambda>(r, s1). if r \<noteq> 0 then (r, s1) else (if rxq_inited (kdev s1) then 0 else - ENODEV, relocked s1)) (wait (asleep s))"
    using wait_nonempty_once [OF assms, of f "lock RxqMutex s"] b by (simp add: asleep_def)
  show ?thesis
  proof (cases "wait (asleep s)")
    case None
    then show ?thesis using True b w by (simp add: gxfp_uapi_read_def)
  next
    case (Some rs)
    obtain r s1 where rs: "rs = (r, s1)" by force
    obtain r2 s2 where one: "read_one env count (relocked s1) = (r2, s2)" by force
    show ?thesis using True b w Some rs one by (auto simp: gxfp_uapi_read_def)
  qed
next
  case False
  then have "gxfp_uapi_read env wait f count s \<noteq> None"
    using wait_nonempty_once [OF assms, of f "lock RxqMutex s"]
    by (auto simp: gxfp_uapi_read_def read_blocks_def Let_def split: prod.splits)
  then show ?thesis using False by simp
qed

text \<open>A wait that is ended by the arrival of a record without payload; the record is read.\<close>

definition record_arrives :: "kst \<Rightarrow> (int \<times> kst) option" where
  "record_arrives s = Some (0, upd_dev (\<lambda>d. d\<lparr>rxq_inited := True, rxq_fifo := zeros TAP_HDR_SIZE\<rparr>) s)"

theorem uapi_read_returns_witness:
  "\<exists>s'. gxfp_uapi_read (sim_env (\<lambda>j. zeros 0xe00)) record_arrives
      \<lparr>f_mode_read = True, f_nonblock = False, f_private = True\<rparr> 4096 sim_state = Some (int TAP_HDR_SIZE, s') \<and>
    gxfp_uapi_read (sim_env (\<lambda>j. zeros 0xe00)) (\<lambda>s. None)
      \<lparr>f_mode_read = True, f_nonblock = False, f_private = True\<rparr> 4096 sim_state = None"
proof -
  let ?env = "sim_env (\<lambda>j. zeros 0xe00)" and ?f = "\<lparr>f_mode_read = True, f_nonblock = False, f_private = True\<rparr>"
  let ?s1 = "upd_dev (\<lambda>d. d\<lparr>rxq_inited := True, rxq_fifo := zeros TAP_HDR_SIZE\<rparr>) (asleep sim_state)"
  have c: "wait_contract record_arrives" "wait_contract (\<lambda>s. None)" by (simp_all add: wait_contract_def record_arrives_def zeros_def TAP_HDR_SIZE_def)
  have b: "read_blocks ?env ?f 4096 sim_state" by (simp add: read_blocks_def sim_env_def sim_state_def sim_dev_def)
  have one: "\<exists>s'. read_one ?env 4096 (relocked ?s1) = (int TAP_HDR_SIZE, s')"
    by (simp add: read_one_def gxfp_uapi_peek_need_def gxfp_uapi_pop_record_def kfifo_out_def kmalloc_def sim_env_def TAP_HDR_SIZE_def le32_def zeros_def Let_def)
  show ?thesis
    using uapi_read_returns [OF c(1), of ?env ?f 4096 sim_state] uapi_read_returns [OF c(2), of ?env ?f 4096 sim_state] b one
    by (auto simp: record_arrives_def)
qed

text \<open>Registration owns its resources. It either succeeds with an empty, initialised queue and
  exactly one block more than before, or fails with nothing allocated and no queue; and
  unregistering afterwards gives everything back.\<close>

theorem uapi_register_resources:
  "case gxfp_uapi_register env s of
     (r, s') \<Rightarrow>
       if misc_registered (kdev s) then r = 0 \<and> s' = s
       else if r = 0
       then misc_registered (kdev s') \<and> rxq_inited (kdev s') \<and> rxq_holds s' [] \<and>
            live_blocks (kev s') = live_blocks (kev s) + 1 \<and>
            (let u = gxfp_uapi_unregister s'
             in live_blocks (kev u) = live_blocks (kev s) \<and> \<not> misc_registered (kdev u) \<and>
                \<not> rxq_inited (kdev u) \<and> \<not> rxq_buf (kdev u) \<and> \<not> rxq_reader_open (kdev u))
       else \<not> rxq_inited (kdev s') \<and> \<not> rxq_buf (kdev s') \<and> \<not> misc_registered (kdev s') \<and>
            live_blocks (kev s') = live_blocks (kev s)"
proof (cases "misc_registered (kdev s)")
  case True
  then show ?thesis by (simp add: gxfp_uapi_register_def)
next
  case False
  let ?s0 = "upd_dev (\<lambda>d. d\<lparr>rxq_inited := False, rxq_reader_open := False\<rparr>) s"
  show ?thesis
  proof (cases "env_kmalloc env (kev s) GXFP_RXQ_FIFO_BYTES")
    case F: False
    then show ?thesis using False by (simp add: gxfp_uapi_register_def kmalloc_def Let_def)
  next
    case T: True
    then show ?thesis
      using False
      by (simp add: gxfp_uapi_register_def gxfp_uapi_unregister_def kmalloc_def Let_def rxq_holds_def
          GXFP_RXQ_FIFO_BYTES_def)
  qed
qed

end
