(* ===== verification/Kernel_Trace.thy ===== *)
theory Kernel_Trace
  imports Kernel_Hw
begin

text \<open>
  The trace facility of the kernel module (\<open>driver/gxfp_trace.c\<close>): a ring of 1024 lines with a
  head index and a fill count, written by \<open>gxfp_trace_logf\<close>, cleared and dumped through debugfs.
  The interface \<open>bounded_log\<close> says what its users see, the last lines in order; the ring is shown
  to provide it, and the dump to print it. The formatted message (before truncation) and the time
  stamp are arguments of the log call.
\<close>

section \<open>Definitions\<close>

definition GXFP_TRACE_RING_SIZE :: nat where "GXFP_TRACE_RING_SIZE = 1024"
definition GXFP_TRACE_LINE_MAX :: nat where "GXFP_TRACE_LINE_MAX = 192"
definition GXFP_TRACE_DEFAULT_ENABLE :: bool where "GXFP_TRACE_DEFAULT_ENABLE = False"

record gxfp_trace =
  tr_inited :: bool
  tr_enabled :: bool
  tr_seq :: u32
  tr_head :: nat
  tr_count :: nat
  tr_lines :: "string list"
  tr_dir :: bool

text \<open>\<open>strscpy (dst, src, n)\<close> and \<open>scnprintf\<close> into \<open>n\<close> bytes: at most \<open>n - 1\<close> characters.\<close>

definition strscpy :: "string \<Rightarrow> nat \<Rightarrow> string" where
  "strscpy src n = take (n - 1) src"

definition digit :: "nat \<Rightarrow> char" where
  "digit d = ''0123456789'' ! d"

text \<open>\<open>%u\<close> and \<open>%llu\<close>.\<close>

fun dec :: "nat \<Rightarrow> string" where
  "dec n = (if n < 10 then [digit n] else dec (n div 10) @ [digit (n mod 10)])"

declare dec.simps [simp del]

definition gxfp_trace_push_locked :: "string option \<Rightarrow> gxfp_trace \<Rightarrow> gxfp_trace" where
  "gxfp_trace_push_locked line t =
    (case line of
       None \<Rightarrow> t
     | Some l \<Rightarrow>
         let idx = tr_head t;
             t = t\<lparr>tr_lines := (tr_lines t)[idx := strscpy l GXFP_TRACE_LINE_MAX]\<rparr>;
             t = t\<lparr>tr_head := (idx + 1) mod GXFP_TRACE_RING_SIZE\<rparr>
         in if tr_count t < GXFP_TRACE_RING_SIZE then t\<lparr>tr_count := tr_count t + 1\<rparr> else t)"

definition trace_line :: "u32 \<Rightarrow> u64 \<Rightarrow> string \<Rightarrow> string" where
  "trace_line seq ts msg =
    strscpy (dec (unat seq) @ '' '' @ dec (unat ts) @ '' '' @ msg) GXFP_TRACE_LINE_MAX"

definition gxfp_trace_logf :: "string option \<Rightarrow> u64 \<Rightarrow> gxfp_trace \<Rightarrow> gxfp_trace" where
  "gxfp_trace_logf formatted ts t =
    (case formatted of
       None \<Rightarrow> t
     | Some full \<Rightarrow>
         if \<not> tr_inited t \<or> \<not> tr_enabled t then t
         else
           let msg = strscpy full 128;
               t = t\<lparr>tr_seq := tr_seq t + 1\<rparr>;
               line = trace_line (tr_seq t) ts msg
           in gxfp_trace_push_locked (Some line) t)"

definition gxfp_trace_clear :: "gxfp_trace \<Rightarrow> gxfp_trace" where
  "gxfp_trace_clear t = t\<lparr>tr_head := 0, tr_count := 0\<rparr>"

definition trace_snapshot :: "gxfp_trace \<Rightarrow> string list" where
  "trace_snapshot t =
    (let count = tr_count t;
         start = (tr_head t + GXFP_TRACE_RING_SIZE - count) mod GXFP_TRACE_RING_SIZE
     in map (\<lambda>i. strscpy (tr_lines t ! ((start + i) mod GXFP_TRACE_RING_SIZE)) GXFP_TRACE_LINE_MAX)
          [0..<count])"

text \<open>Result: the return code and the text of the seq file.\<close>

definition gxfp_trace_dump_show :: "bool \<Rightarrow> gxfp_trace \<Rightarrow> int \<times> string" where
  "gxfp_trace_dump_show kcalloc_ok t =
    (if \<not> kcalloc_ok then (- ENOMEM, [])
     else
       (0, ''enabled='' @ dec (if tr_enabled t then 1 else 0) @ '' ring_size='' @
           dec GXFP_TRACE_RING_SIZE @ '' count='' @ dec (tr_count t) @ [CHR 0x0A] @
           ''# seq ts_ns message'' @ [CHR 0x0A] @
           concat (map (\<lambda>l. l @ [CHR 0x0A]) (trace_snapshot t))))"

definition gxfp_trace_clear_write :: "nat \<Rightarrow> gxfp_trace \<Rightarrow> int \<times> gxfp_trace" where
  "gxfp_trace_clear_write count t = (int count, gxfp_trace_clear t)"

text \<open>\<open>debugfs_ok\<close>: whether the debugfs directory could be created.\<close>

definition gxfp_trace_init :: "bool \<Rightarrow> gxfp_trace \<Rightarrow> int \<times> gxfp_trace" where
  "gxfp_trace_init debugfs_ok t =
    (if tr_inited t then (0, t)
     else (0, \<lparr>tr_inited = True, tr_enabled = GXFP_TRACE_DEFAULT_ENABLE, tr_seq = 0, tr_head = 0,
               tr_count = 0, tr_lines = replicate GXFP_TRACE_RING_SIZE [], tr_dir = debugfs_ok\<rparr>))"

definition gxfp_trace_exit :: "gxfp_trace \<Rightarrow> gxfp_trace" where
  "gxfp_trace_exit t = (if \<not> tr_inited t then t else t\<lparr>tr_dir := False, tr_inited := False\<rparr>)"

section \<open>The log a reader sees\<close>

text \<open>A log that keeps the last \<open>n\<close> lines, each in the form \<open>keep\<close> gives it.\<close>

locale bounded_log =
  fixes n :: nat
    and wf :: "'s \<Rightarrow> bool"
    and view :: "'s \<Rightarrow> 'l list"
    and keep :: "'m \<Rightarrow> 'l"
    and add :: "'m \<Rightarrow> 's \<Rightarrow> 's"
    and clear :: "'s \<Rightarrow> 's"
  assumes add_wf: "wf s \<Longrightarrow> wf (add l s)"
    and clear_wf: "wf s \<Longrightarrow> wf (clear s)"
    and add_view: "wf s \<Longrightarrow>
      view (add l s) = (if length (view s) < n then view s else tl (view s)) @ [keep l]"
    and clear_view: "wf s \<Longrightarrow> view (clear s) = []"
    and n_pos: "0 < n"
begin

lemma fold_wf: "wf s \<Longrightarrow> wf (fold add ls s)"
  by (induction ls arbitrary: s) (auto simp: add_wf)

lemma add_last:
  assumes "wf s" and "view s = drop (length xs - n) xs"
  shows "view (add l s) = drop (length (xs @ [keep l]) - n) (xs @ [keep l])"
proof (cases "length xs < n")
  case True
  then show ?thesis using assms by (simp add: add_view)
next
  case False
  then have "length (view s) = n" using assms(2) by simp
  moreover have "tl (drop (length xs - n) xs) = drop (Suc (length xs) - n) xs"
    using False by (simp add: tl_drop drop_Suc Suc_diff_le)
  ultimately show ?thesis
    using assms False n_pos by (simp add: add_view)
qed

lemma view_fold:
  assumes "wf s" and "view s = drop (length xs - n) xs"
  shows "view (fold add ls s) = drop (length xs + length ls - n) (xs @ map keep ls)"
  using assms
proof (induction ls arbitrary: s xs)
  case Nil
  then show ?case by simp
next
  case (Cons l ls)
  show ?case
    using Cons.IH [OF add_wf [OF Cons.prems(1)] add_last [OF Cons.prems]] by simp
qed

lemma shows_last_lines:
  assumes "wf s"
  shows "view (fold add ls (clear s)) = drop (length ls - n) (map keep ls)"
  using view_fold [OF clear_wf [OF assms], of "[]"] by (simp add: clear_view assms)

end

section \<open>The ring provides it\<close>

definition ring_wf :: "gxfp_trace \<Rightarrow> bool" where
  "ring_wf t \<longleftrightarrow> length (tr_lines t) = 1024 \<and> tr_head t < 1024 \<and> tr_count t \<le> 1024 \<and>
     (\<forall>l \<in> set (tr_lines t). length l < 192)"

definition ring_view :: "gxfp_trace \<Rightarrow> string list" where
  "ring_view t = map (\<lambda>i. tr_lines t ! ((tr_head t + 1024 - tr_count t + i) mod 1024)) [0..<tr_count t]"

text \<open>A line as the log keeps it.\<close>

definition ring_add :: "string \<Rightarrow> gxfp_trace \<Rightarrow> gxfp_trace" where
  "ring_add l t = gxfp_trace_push_locked (Some l) t"

lemma length_ring_view [simp]: "length (ring_view t) = tr_count t"
  by (simp add: ring_view_def)

lemma ring_view_nth:
  "i < tr_count t \<Longrightarrow> ring_view t ! i = tr_lines t ! ((tr_head t + 1024 - tr_count t + i) mod 1024)"
  by (simp add: ring_view_def)

lemma snapshot_view: "ring_wf t \<Longrightarrow> trace_snapshot t = ring_view t"
proof -
  assume wf: "ring_wf t"
  have "strscpy (tr_lines t ! ((a mod 1024 + i) mod 1024)) 192 = tr_lines t ! ((a + i) mod 1024)"
    for a i
  proof -
    have "(a mod 1024 + i) mod 1024 = (a + i) mod 1024" by (rule mod_add_left_eq)
    moreover have "(a + i) mod 1024 < length (tr_lines t)" using wf by (simp add: ring_wf_def)
    then have "length (tr_lines t ! ((a + i) mod 1024)) < 192"
      using wf nth_mem unfolding ring_wf_def by blast
    ultimately show ?thesis by (simp add: strscpy_def)
  qed
  then show ?thesis
    by (simp add: trace_snapshot_def ring_view_def Let_def GXFP_TRACE_RING_SIZE_def
        GXFP_TRACE_LINE_MAX_def)
qed

lemma ring_slot:
  assumes "h < 1024" and "c \<le> (1024 :: nat)" and "i < c" and "(h + 1024 - c + i) mod 1024 = h"
  shows "c = 1024 \<and> i = 0"
proof -
  let ?x = "h + 1024 - c + i"
  have b: "?x < 2048" using assms(1-3) by simp
  show ?thesis
  proof (cases "?x < 1024")
    case True
    then have "?x = h" using assms(4) by simp
    then show ?thesis using assms(2,3) by linarith
  next
    case False
    then have "?x mod 1024 = (?x - 1024) mod 1024" by (simp only: le_mod_geq not_less)
    moreover have "?x - 1024 < 1024" using b False by linarith
    ultimately have "?x - 1024 = h" using assms(4) by (simp only: mod_less)
    then show ?thesis using assms(1-3) False by linarith
  qed
qed

lemma ring_shift:
  "c < 1024 \<Longrightarrow> ((h + 1) mod 1024 + 1024 - Suc c + i) mod 1024 = (h + 1024 - c + i) mod (1024 :: nat)"
proof -
  assume c: "c < 1024"
  have e1: "(h + 1) mod 1024 + 1024 - Suc c + i = (h + 1) mod 1024 + (1023 - c + i)"
    using c by linarith
  have e2: "((h + 1) mod 1024 + (1023 - c + i)) mod 1024 = (h + 1 + (1023 - c + i)) mod 1024"
    by (rule mod_add_left_eq)
  have e3: "h + 1 + (1023 - c + i) = h + 1024 - c + i" using c by linarith
  show ?thesis by (simp only: e1 e2 e3)
qed

lemma ring_add_sel:
  "tr_lines (ring_add l t) = (tr_lines t)[tr_head t := take 191 l]"
  "tr_head (ring_add l t) = (tr_head t + 1) mod 1024"
  "tr_count (ring_add l t) = (if tr_count t < 1024 then tr_count t + 1 else tr_count t)"
  by (simp_all add: ring_add_def gxfp_trace_push_locked_def Let_def GXFP_TRACE_RING_SIZE_def
      GXFP_TRACE_LINE_MAX_def strscpy_def)

lemma ring_add_wf: "ring_wf t \<Longrightarrow> ring_wf (ring_add l t)"
  by (auto simp: ring_wf_def ring_add_sel dest!: set_update_subset_insert [THEN subsetD])

lemma ring_add_view:
  assumes "ring_wf t"
  shows "ring_view (ring_add l t) =
    (if tr_count t < 1024 then ring_view t @ [take 191 l] else tl (ring_view t) @ [take 191 l])"
proof (cases "tr_count t < 1024")
  case True
  have wf: "tr_head t < 1024" "length (tr_lines t) = 1024" using assms by (simp_all add: ring_wf_def)
  have old: "tr_lines (ring_add l t) ! ((tr_head t + 1024 - tr_count t + i) mod 1024) =
      tr_lines t ! ((tr_head t + 1024 - tr_count t + i) mod 1024)" if "i < tr_count t" for i
  proof -
    have "(tr_head t + 1024 - tr_count t + i) mod 1024 \<noteq> tr_head t"
      using ring_slot [OF wf(1), of "tr_count t" i] True that by linarith
    then show ?thesis unfolding ring_add_sel by (metis nth_list_update_neq)
  qed
  have new: "tr_lines (ring_add l t) ! ((tr_head t + 1024 - tr_count t + tr_count t) mod 1024) = take 191 l"
    using True wf by (simp add: ring_add_sel)
  have sh: "((tr_head t + 1) mod 1024 + 1024 - Suc (tr_count t) + i) mod 1024 =
      (tr_head t + 1024 - tr_count t + i) mod 1024" for i by (rule ring_shift [OF True])
  have nth: "ring_view (ring_add l t) ! i =
      tr_lines (ring_add l t) ! ((tr_head t + 1024 - tr_count t + i) mod 1024)" if "i < Suc (tr_count t)" for i
  proof -
    have "ring_view (ring_add l t) ! i = tr_lines (ring_add l t) !
        ((tr_head (ring_add l t) + 1024 - tr_count (ring_add l t) + i) mod 1024)"
      by (rule ring_view_nth) (use that True in \<open>simp add: ring_add_sel(3)\<close>)
    then show ?thesis using True by (simp only: ring_add_sel(2,3) if_True Suc_eq_plus1 [symmetric] sh [unfolded Suc_eq_plus1 [symmetric]])
  qed
  show ?thesis
  proof (rule nth_equalityI)
    show "length (ring_view (ring_add l t)) = length (if tr_count t < 1024
        then ring_view t @ [take 191 l] else tl (ring_view t) @ [take 191 l])"
      using True by (simp add: ring_add_sel)
    fix i assume "i < length (ring_view (ring_add l t))"
    then have i: "i < Suc (tr_count t)" using True by (simp add: ring_add_sel)
    show "ring_view (ring_add l t) ! i = (if tr_count t < 1024
        then ring_view t @ [take 191 l] else tl (ring_view t) @ [take 191 l]) ! i"
    proof (cases "i < tr_count t")
      case lt: True
      have "ring_view t ! i = tr_lines t ! ((tr_head t + 1024 - tr_count t + i) mod 1024)"
        by (rule ring_view_nth [OF lt])
      then show ?thesis unfolding nth [OF i] old [OF lt] using True lt by (simp add: nth_append)
    next
      case F: False
      then have "i = tr_count t" using i by simp
      then show ?thesis unfolding nth [OF i] using new True by (simp add: nth_append)
    qed
  qed
next
  case False
  then have c: "tr_count t = 1024" using assms by (simp add: ring_wf_def)
  have wf: "tr_head t < 1024" "length (tr_lines t) = 1024" using assms by (simp_all add: ring_wf_def)
  have v: "ring_view t = map (\<lambda>i. tr_lines t ! ((tr_head t + i) mod 1024)) [0..<1024]"
    by (simp add: ring_view_def c)
  show ?thesis
  proof (rule nth_equalityI)
    show "length (ring_view (ring_add l t)) = length (if tr_count t < 1024
        then ring_view t @ [take 191 l] else tl (ring_view t) @ [take 191 l])"
      by (simp add: ring_add_sel c)
    fix i assume "i < length (ring_view (ring_add l t))"
    then have i: "i < 1024" by (simp add: ring_add_sel c)
    have m: "((tr_head t + 1) mod 1024 + i) mod 1024 = (tr_head t + 1 + i) mod 1024"
      by (rule mod_add_left_eq)
    have l: "ring_view (ring_add l t) ! i =
        (tr_lines t)[tr_head t := take 191 l] ! ((tr_head t + 1 + i) mod 1024)"
      using i m by (simp add: ring_view_def ring_add_sel c)
    show "ring_view (ring_add l t) ! i = (if tr_count t < 1024
        then ring_view t @ [take 191 l] else tl (ring_view t) @ [take 191 l]) ! i"
    proof (cases "i = 1023")
      case True
      then show ?thesis unfolding l using wf c by (simp add: nth_append)
    next
      case F: False
      then have "(tr_head t + 1 + i) mod 1024 \<noteq> tr_head t"
        using ring_slot [OF wf(1), of 1024 "Suc i"] i by auto
      then show ?thesis unfolding l using F i c by (simp add: nth_append nth_tl v)
    qed
  qed
qed


lemma ring_clear: "ring_wf t \<Longrightarrow> ring_wf (gxfp_trace_clear t)" "ring_view (gxfp_trace_clear t) = []"
  by (simp_all add: ring_wf_def ring_view_def gxfp_trace_clear_def)

interpretation ring: bounded_log 1024 ring_wf ring_view "take 191" ring_add gxfp_trace_clear
  by unfold_locales (simp_all add: ring_add_wf ring_add_view ring_clear)

section \<open>Logging\<close>

lemma logf_enabled:
  assumes "tr_inited t" and "tr_enabled t"
  shows "gxfp_trace_logf (Some full) ts t =
    ring_add (trace_line (tr_seq t + 1) ts (strscpy full 128)) (t\<lparr>tr_seq := tr_seq t + 1\<rparr>)"
  using assms by (simp add: gxfp_trace_logf_def ring_add_def Let_def)

lemma push_keeps:
  "tr_inited (ring_add l t) = tr_inited t" "tr_enabled (ring_add l t) = tr_enabled t"
  "tr_seq (ring_add l t) = tr_seq t"
  by (simp_all add: ring_add_def gxfp_trace_push_locked_def Let_def)

text \<open>The lines a sequence of log calls writes, numbered from the current sequence number on.\<close>

fun log_lines :: "u32 \<Rightarrow> (string \<times> u64) list \<Rightarrow> string list" where
  "log_lines q [] = []"
| "log_lines q ((full, ts) # ms) = trace_line (q + 1) ts (strscpy full 128) # log_lines (q + 1) ms"

lemma ring_add_seq: "ring_add l (t\<lparr>tr_seq := q\<rparr>) = (ring_add l t)\<lparr>tr_seq := q\<rparr>"
  by (simp add: ring_add_def gxfp_trace_push_locked_def Let_def)

lemma fold_logf:
  assumes "tr_inited t" and "tr_enabled t"
  shows "\<exists>q. fold (\<lambda>(full, ts). gxfp_trace_logf (Some full) ts) ms t =
    (fold ring_add (log_lines (tr_seq t) ms) t)\<lparr>tr_seq := q\<rparr>"
  using assms
proof (induction ms arbitrary: t)
  case Nil
  then show ?case by (intro exI [of _ "tr_seq t"]) simp
next
  case (Cons m ms)
  obtain full ts where m: "m = (full, ts)" by force
  let ?q = "tr_seq t + 1"
  let ?l = "trace_line ?q ts (strscpy full 128)"
  have f: "fold ring_add ls (u\<lparr>tr_seq := q\<rparr>) = (fold ring_add ls u)\<lparr>tr_seq := q\<rparr>" for ls u q
    by (induction ls arbitrary: u) (simp_all add: ring_add_seq)
  have "\<exists>q. fold (\<lambda>(full, ts). gxfp_trace_logf (Some full) ts) ms ((ring_add ?l t)\<lparr>tr_seq := ?q\<rparr>) =
      (fold ring_add (log_lines ?q ms) ((ring_add ?l t)\<lparr>tr_seq := ?q\<rparr>))\<lparr>tr_seq := q\<rparr>"
    using Cons.IH [of "(ring_add ?l t)\<lparr>tr_seq := ?q\<rparr>"] Cons.prems by (simp add: push_keeps)
  then show ?case
    using logf_enabled [OF Cons.prems, of full ts] by (simp add: m ring_add_seq f)
qed

lemma ring_view_seq [simp]: "ring_view (t\<lparr>tr_seq := q\<rparr>) = ring_view t" "ring_wf (t\<lparr>tr_seq := q\<rparr>) = ring_wf t"
  by (simp_all add: ring_view_def ring_wf_def)

lemma trace_line_short: "length (trace_line q ts m) < 192" "take 191 (trace_line q ts m) = trace_line q ts m"
  by (simp_all add: trace_line_def strscpy_def GXFP_TRACE_LINE_MAX_def del: take_append)

lemma log_lines_take: "map (take 191) (log_lines q ms) = log_lines q ms"
  by (induction q ms rule: log_lines.induct) (simp_all add: trace_line_short)

lemma length_log_lines [simp]: "length (log_lines q ms) = length ms"
  by (induction q ms rule: log_lines.induct) simp_all

section \<open>Properties\<close>

text \<open>The trace ring refines a log of the last 1024 lines. After clearing an enabled trace and
  any number of log calls, the dump prints the header and then exactly the last (at most 1024)
  lines, oldest first, with consecutive 32-bit sequence numbers that wrap.\<close>

theorem trace_dump_shows_last_lines:
  assumes "ring_wf t" and "tr_inited t" and "tr_enabled t"
  shows "gxfp_trace_dump_show True (fold (\<lambda>(full, ts). gxfp_trace_logf (Some full) ts) ms (gxfp_trace_clear t)) =
    (0, ''enabled=1 ring_size=1024 count='' @ dec (min (length ms) 1024) @ [CHR 0x0A] @
        ''# seq ts_ns message'' @ [CHR 0x0A] @
        concat (map (\<lambda>l. l @ [CHR 0x0A]) (drop (length ms - 1024) (log_lines (tr_seq t) ms))))"
proof -
  let ?c = "gxfp_trace_clear t" and ?ls = "log_lines (tr_seq t) ms"
  have c: "tr_inited ?c" "tr_enabled ?c" "tr_seq ?c = tr_seq t"
    using assms by (simp_all add: gxfp_trace_clear_def)
  obtain q where f: "fold (\<lambda>(full, ts). gxfp_trace_logf (Some full) ts) ms ?c =
      (fold ring_add ?ls ?c)\<lparr>tr_seq := q\<rparr>"
    using fold_logf [OF c(1,2), of ms] c(3) by auto
  let ?u = "(fold ring_add ?ls ?c)\<lparr>tr_seq := q\<rparr>"
  have wf: "ring_wf ?u" using ring.fold_wf [OF ring.clear_wf [OF assms(1)]] by simp
  have v: "ring_view ?u = drop (length ms - 1024) ?ls"
    using ring.shows_last_lines [OF assms(1), of ?ls] by (simp add: log_lines_take)
  have "tr_enabled (fold ring_add xs u) = tr_enabled u" for xs u
    by (induction xs arbitrary: u) (simp_all add: push_keeps)
  then have e: "tr_enabled ?u" using c(2) by simp
  have n: "tr_count ?u = min (length ms) 1024"
    using arg_cong [OF v, of length] by (simp del: ring_view_seq)
  have d: "dec (Suc 0) = ''1''" "dec 1024 = ''1024''"
    by (simp_all add: dec.simps digit_def)
  show ?thesis
    unfolding f gxfp_trace_dump_show_def snapshot_view [OF wf] v n
    using e by (simp add: d GXFP_TRACE_RING_SIZE_def del: ring_view_seq)
qed

theorem trace_dump_shows_last_lines_witness:
  "gxfp_trace_dump_show True (gxfp_trace_logf (Some ''cmd_ok'') 42
     (gxfp_trace_clear ((snd (gxfp_trace_init True \<lparr>tr_inited = False, tr_enabled = False, tr_seq = 0,
        tr_head = 0, tr_count = 0, tr_lines = [], tr_dir = False\<rparr>))\<lparr>tr_enabled := True\<rparr>))) =
   (0, ''enabled=1 ring_size=1024 count=1'' @ [CHR 0x0A] @ ''# seq ts_ns message'' @ [CHR 0x0A] @
       ''1 42 cmd_ok'' @ [CHR 0x0A])"
proof -
  let ?t = "(snd (gxfp_trace_init True \<lparr>tr_inited = False, tr_enabled = False, tr_seq = 0,
        tr_head = 0, tr_count = 0, tr_lines = [], tr_dir = False\<rparr>))\<lparr>tr_enabled := True\<rparr>"
  have wf: "ring_wf ?t" "tr_inited ?t" "tr_enabled ?t" "tr_seq ?t = 0"
    by (simp_all add: gxfp_trace_init_def ring_wf_def GXFP_TRACE_RING_SIZE_def)
  have d: "dec (Suc 0) = ''1''" "dec 42 = ''42''" by (simp_all add: dec.simps digit_def)
  show ?thesis
    using trace_dump_shows_last_lines [OF wf(1-3), of "[(''cmd_ok'', 42)]"]
    by (simp add: wf(4) trace_line_def strscpy_def d GXFP_TRACE_LINE_MAX_def)
qed

end
