(* ===== verification/Kernel_Platform.thy ===== *)
theory Kernel_Platform
  imports Kernel_Uapi
begin

unbundle bit_operations_syntax

text \<open>
  Bringing the device up and down: the ACPI resource scan (\<open>hw/gxfp_acpi.c\<close>), the platform probe
  and removal (\<open>driver/gxfp_platform.c\<close>), the start-up and shut-down sequences of
  \<open>gxfp_main.c\<close> and the sysfs attribute of \<open>driver/gxfp_uapi_misc.c\<close>. What ACPI, the GPIO,
  interrupt and device-managed allocation interfaces of the kernel answer are fields of
  \<open>plat_env\<close>. The theory shows that a successful probe establishes the invariant on which the
  character device works, that a failed one gives everything back, and that the resource scan
  picks the right pins.
\<close>

section \<open>ACPI (\<open>gxfp_acpi.c\<close>)\<close>

datatype gpio_conn = GpioInt | GpioIo | GpioOther

datatype acpi_resource = AcpiGpio gpio_conn "u16 list" u8 | AcpiOther

record gxfp_acpi_res_state =
  rs_dev :: bool
  gpio_seen :: int
  gpio_io_seen :: nat
  gpio_io_pin :: "u16 list"
  gpio_io_pol :: "u8 list"
  gpio_io_crs_index :: "int list"
  gpio_int_seen :: int
  gpio_int_crs_index :: int

definition gxfp_acpi_res_cb ::
  "acpi_resource option \<Rightarrow> gxfp_acpi_res_state \<Rightarrow> int \<times> gxfp_acpi_res_state" where
  "gxfp_acpi_res_cb ares st =
    (case ares of
       None \<Rightarrow> (0, st)
     | Some a \<Rightarrow>
         if \<not> rs_dev st then (0, st)
         else
           (case a of
              AcpiGpio conn pins polarity \<Rightarrow>
                let st = st\<lparr>gpio_seen := gpio_seen st + 1\<rparr>
                in if length pins < 1 then (0, st)
                   else
                     let pin0 = pins ! 0
                     in (case conn of
                           GpioInt \<Rightarrow>
                             let st = st\<lparr>gpio_int_seen := gpio_int_seen st + 1\<rparr>
                             in if gpio_int_seen st = 1
                                then (0, st\<lparr>gpio_int_crs_index := gpio_seen st - 1\<rparr>)
                                else (0, st)
                         | GpioIo \<Rightarrow>
                             if gpio_io_seen st < 2 then
                               let k = gpio_io_seen st;
                                   st = st\<lparr>gpio_io_pin := (gpio_io_pin st)[k := pin0]\<rparr>;
                                   st = st\<lparr>gpio_io_pol := (gpio_io_pol st)[k := polarity]\<rparr>;
                                   st = st\<lparr>gpio_io_crs_index := (gpio_io_crs_index st)[k := gpio_seen st - 1]\<rparr>
                               in (0, st\<lparr>gpio_io_seen := k + 1\<rparr>)
                             else (0, st)
                         | GpioOther \<Rightarrow> (0, st))
            | AcpiOther \<Rightarrow> (0, st)))"

text \<open>The ACPI companion: \<open>acpi_dev_get_resources\<close> walks its resources with a callback.\<close>

record acpi_companion =
  get_resources :: "(acpi_resource option \<Rightarrow> gxfp_acpi_res_state \<Rightarrow> int \<times> gxfp_acpi_res_state) \<Rightarrow>
    gxfp_acpi_res_state \<Rightarrow> int \<times> gxfp_acpi_res_state"
  device_hid :: "bytes option"

definition gxfp_acpi_get_gpio_crs_indexes ::
  "bool \<Rightarrow> acpi_companion option \<Rightarrow> int + (int \<times> (int \<times> int) \<times> bool)" where
  "gxfp_acpi_get_gpio_crs_indexes dev adev =
    (if \<not> dev then Inl (- EINVAL)
     else
       (case adev of
          None \<Rightarrow> Inl (- ENODEV)
        | Some a \<Rightarrow>
            let st = \<lparr>rs_dev = dev, gpio_seen = 0, gpio_io_seen = 0, gpio_io_pin = [0, 0],
                      gpio_io_pol = [0, 0], gpio_io_crs_index = [-1, -1], gpio_int_seen = 0,
                      gpio_int_crs_index = -1\<rparr>;
                (rc, st) = get_resources a gxfp_acpi_res_cb st
            in if rc \<le> 0 then Inl (- ENOENT)
               else if gpio_int_seen st < 1 \<or> gpio_int_crs_index st < 0 then Inl (- ENOENT)
               else if gpio_io_seen st < 2 \<or> gpio_io_crs_index st ! 0 < 0 \<or> gpio_io_crs_index st ! 1 < 0
                 then Inl (- ENOENT)
               else
                 let p0 = (gpio_io_pol st ! 0 \<noteq> 0);
                     p1 = (gpio_io_pol st ! 1 \<noteq> 0)
                 in if p0 \<noteq> p1 then Inl (- EINVAL)
                    else Inr (gpio_int_crs_index st,
                              (gpio_io_crs_index st ! 0, gpio_io_crs_index st ! 1), p0)))"

text \<open>\<open>device_hid\<close> is the string without its terminator; the buffer receives it with one.\<close>

definition gxfp_acpi_get_hid :: "bool \<Rightarrow> acpi_companion option \<Rightarrow> ptr \<Rightarrow> nat \<Rightarrow> int \<times> ptr" where
  "gxfp_acpi_get_hid dev adev buf bufsz =
    (case buf of
       None \<Rightarrow> (- EINVAL, buf)
     | Some b \<Rightarrow>
         if \<not> dev \<or> bufsz < 2 then (- EINVAL, buf)
         else
           (case adev of
              None \<Rightarrow> (- ENODEV, buf)
            | Some a \<Rightarrow>
                (case device_hid a of
                   None \<Rightarrow> (- ENOENT, buf)
                 | Some hid \<Rightarrow>
                     if hid = [] then (- ENOENT, buf)
                     else if length hid \<ge> bufsz then (- ENOSPC, buf)
                     else (0, Some (memcpy_at b 0 (hid @ [0]))))))"

text \<open>The sysfs attribute: what \<open>sysfs_emit\<close> writes. \<open>m\<close>: the misc device is there.\<close>

definition acpi_id_show :: "bool \<Rightarrow> bool \<Rightarrow> acpi_companion option \<Rightarrow> bytes \<Rightarrow> int + bytes" where
  "acpi_id_show m dev adev garbage16 =
    (if \<not> m then Inl (- ENODEV)
     else if \<not> dev then Inl (- ENODEV)
     else
       (case gxfp_acpi_get_hid dev adev (Some garbage16) 16 of
          (rc, buf) \<Rightarrow>
            if rc \<noteq> 0 then Inr [0x0A]
            else Inr (takeWhile (\<lambda>c. c \<noteq> 0) (the buf) @ [0x0A])))"

section \<open>Platform probe (\<open>gxfp_platform.c\<close>)\<close>

definition GXFP_IRQ_RX_CAP :: nat where "GXFP_IRQ_RX_CAP = 0x20000"
definition GXFP_ESPI_SEQ16_INIT :: u32 where "GXFP_ESPI_SEQ16_INIT = 0x8881"

datatype gpio_name = IrqGpios | WriteDoneGpios | ReadDoneGpios

text \<open>One entry of the ACPI GPIO mapping: name, \<open>_CRS\<close> index, line index, polarity.\<close>

type_synonym gpio_map = "(gpio_name \<times> int \<times> nat \<times> bool) list"

record plat_env =
  pl_kenv :: kenv
  pl_acpi :: "acpi_companion option"
  pl_kzalloc :: bool
  pl_resource :: "nat option"
  pl_ioremap :: "int + bool"
  pl_devm_kcalloc :: "nat \<Rightarrow> bool"
  pl_add_driver_gpios :: "gpio_map \<Rightarrow> int"
  pl_gpiod_get :: "gpio_map option \<Rightarrow> gpio_name \<Rightarrow> int + bool"
  pl_devm_kmalloc :: "nat \<Rightarrow> bool"
  pl_gpiod_to_irq :: int
  pl_trigger_none :: bool
  pl_request_irq :: int

record pst = kst +
  pl_map :: "gpio_map option"
  pl_drvdata :: bool

text \<open>Running a function of the device state inside the platform state.\<close>

definition on_kst :: "(kst \<Rightarrow> 'a \<times> kst) \<Rightarrow> pst \<Rightarrow> 'a \<times> pst" where
  "on_kst f p =
    (case f (kst.truncate p) of (r, s) \<Rightarrow> (r, p\<lparr>kdev := kdev s, kev := kev s\<rparr>))"

definition upd_kst :: "(kst \<Rightarrow> kst) \<Rightarrow> pst \<Rightarrow> pst" where
  "upd_kst f p = snd (on_kst (\<lambda>s. ((), f s)) p)"

definition gxfp_platform_add_acpi_driver_gpios :: "plat_env \<Rightarrow> pst \<Rightarrow> int \<times> pst" where
  "gxfp_platform_add_acpi_driver_gpios env p =
    (if \<not> pl_drvdata p then (- EINVAL, p)
     else
       (case gxfp_acpi_get_gpio_crs_indexes True (pl_acpi env) of
          Inl rc \<Rightarrow> (rc, p)
        | Inr (irq_idx, (done0, done1), done_active_low) \<Rightarrow>
            if \<not> pl_devm_kcalloc env 3 \<or> \<not> pl_devm_kcalloc env 4 then (- ENOMEM, p)
            else
              let map = [(IrqGpios, irq_idx, 0, False), (WriteDoneGpios, done0, 0, done_active_low),
                         (ReadDoneGpios, done1, 0, done_active_low)];
                  rc = pl_add_driver_gpios env map
              in if rc \<noteq> 0 then (rc, p) else (0, p\<lparr>pl_map := Some map\<rparr>)))"

text \<open>\<open>devm_gpiod_get\<close> with the fallback to the driver's own mapping: the descriptor (or error),
  whether the mapping has been tried, and the state.\<close>

definition get_gpio :: "plat_env \<Rightarrow> gpio_name \<Rightarrow> bool \<Rightarrow> pst \<Rightarrow> ((int + bool) \<times> bool) \<times> pst" where
  "get_gpio env name added_map p =
    (let d = pl_gpiod_get env (pl_map p) name
     in if \<not> added_map \<and> d = Inl (- ENOENT) then
          let (_, p) = gxfp_platform_add_acpi_driver_gpios env p
          in ((pl_gpiod_get env (pl_map p) name, True), p)
        else ((d, added_map), p))"

definition gxfp_platform_init_gpios :: "plat_env \<Rightarrow> pst \<Rightarrow> int \<times> pst" where
  "gxfp_platform_init_gpios env p =
    (case get_gpio env WriteDoneGpios False p of
       ((Inl e, _), p) \<Rightarrow> (e, p)
     | ((Inr wd, added_map), p) \<Rightarrow>
    (case get_gpio env ReadDoneGpios added_map (p\<lparr>kdev := (kdev p)\<lparr>gpio_write_done := wd\<rparr>\<rparr>) of
       ((Inl e, _), p) \<Rightarrow> (e, p)
     | ((Inr rd, added_map), p) \<Rightarrow>
    (case get_gpio env IrqGpios added_map (p\<lparr>kdev := (kdev p)\<lparr>gpio_read_done := rd\<rparr>\<rparr>) of
       ((Inl e, _), p) \<Rightarrow> (e, p)
     | ((Inr irq, added_map), p) \<Rightarrow>
         let p = p\<lparr>kdev := (kdev p)\<lparr>gpio_irq := irq\<rparr>\<rparr>
         in if \<not> gpio_write_done (kdev p) \<or> \<not> gpio_read_done (kdev p) \<or> \<not> gpio_irq (kdev p)
            then (- EINVAL, p)
            else (0, upd_kst gxfp_gpio_force_done_deassert p))))"

text \<open>\<open>gxfp_trace_init\<close> and \<open>gxfp_trace_exit\<close> as the probe calls them.\<close>

definition probe_unwind :: "pst \<Rightarrow> pst" where
  "probe_unwind p = upd_kst (\<lambda>s. ev EvTraceExit (gxfp_uapi_unregister s)) p"

definition zero_dev :: gxfp_dev where
  "zero_dev = \<lparr>mailbox_seq16 = 0, mailbox_mmio = False, mailbox_size = 0, gpio_write_done = False,
     gpio_read_done = False, gpio_irq = False, hw_irq = 0, irq_rx_buf = None, irq_rx_cap = 0,
     irq_rx_tmp = None, assem_active = False, assem_total = 0, assem_copied = 0,
     misc_registered = False, rxq_fifo = [], rxq_buf = False, rxq_inited = False,
     rxq_reader_open = False\<rparr>"

text \<open>The interrupt part of the probe, after the misc device has been registered.\<close>

definition probe_irq :: "plat_env \<Rightarrow> pst \<Rightarrow> int \<times> pst" where
  "probe_irq env p =
    (let p = p\<lparr>kdev := (kdev p)\<lparr>irq_rx_cap := GXFP_IRQ_RX_CAP\<rparr>\<rparr>
     in if \<not> pl_devm_kmalloc env GXFP_IRQ_RX_CAP then (- ENOMEM, probe_unwind p)
        else
          let p = p\<lparr>kdev := (kdev p)\<lparr>irq_rx_buf := Some (fresh (pl_kenv env) (kev p) GXFP_IRQ_RX_CAP)\<rparr>\<rparr>
          in if \<not> pl_devm_kmalloc env GXFP_ESPI_CHUNK_MAX then (- ENOMEM, probe_unwind p)
             else
               let p = p\<lparr>kdev := (kdev p)\<lparr>irq_rx_tmp :=
                           Some (fresh (pl_kenv env) (kev p) GXFP_ESPI_CHUNK_MAX)\<rparr>\<rparr>;
                   p = p\<lparr>kdev := (kdev p)\<lparr>hw_irq := pl_gpiod_to_irq env\<rparr>\<rparr>
               in if hw_irq (kdev p) < 0 then (hw_irq (kdev p), probe_unwind p)
                  else
                    let p = (if pl_trigger_none env
                             then upd_kst (ev (EvIrqSetType (hw_irq (kdev p)))) p else p);
                        ret = pl_request_irq env
                    in if ret \<noteq> 0
                       then (ret, probe_unwind (p\<lparr>kdev := (kdev p)\<lparr>hw_irq := 0\<rparr>\<rparr>))
                       else (0, upd_kst (ev (EvIrqRequest (hw_irq (kdev p)))) p))"

definition gxfp_platform_probe :: "plat_env \<Rightarrow> pst \<Rightarrow> int \<times> pst" where
  "gxfp_platform_probe env p =
    (if \<not> pl_kzalloc env then (- ENOMEM, p)
     else
       let p = p\<lparr>kdev := zero_dev\<lparr>mailbox_seq16 := GXFP_ESPI_SEQ16_INIT\<rparr>\<rparr>
       in (case pl_resource env of
             None \<Rightarrow> (- ENODEV, p)
           | Some sz \<Rightarrow>
               let p = p\<lparr>kdev := (kdev p)\<lparr>mailbox_size := sz\<rparr>\<rparr>
               in (case pl_ioremap env of
                     Inl e \<Rightarrow> (e, p)
                   | Inr mm \<Rightarrow>
                       let p = p\<lparr>kdev := (kdev p)\<lparr>mailbox_mmio := mm\<rparr>, pl_drvdata := True\<rparr>;
                           p = upd_kst (ev EvTraceInit) p
                       in (case gxfp_platform_init_gpios env p of
                             (gpio_rc, p) \<Rightarrow>
                               if gpio_rc \<noteq> 0 then (gpio_rc, upd_kst (ev EvTraceExit) p)
                               else
                                 (case on_kst (gxfp_uapi_register (pl_kenv env)) p of
                                    (ret, p) \<Rightarrow>
                                      if ret \<noteq> 0 then (ret, upd_kst (ev EvTraceExit) p)
                                      else probe_irq env p)))))"

definition gxfp_platform_remove :: "pst \<Rightarrow> pst" where
  "gxfp_platform_remove p =
    (let p = (if pl_drvdata p \<and> hw_irq (kdev p) > 0
              then upd_kst (\<lambda>s. ev (EvIrqSync (hw_irq (kdev s))) (ev (EvIrqDisable (hw_irq (kdev s))) s)) p
              else p);
         p = upd_kst (ev EvTraceExit) p
     in if pl_drvdata p then upd_kst gxfp_uapi_unregister p else p)"

section \<open>Start-up and shut-down (\<open>gxfp_main.c\<close>)\<close>

fun version_tries ::
  "kenv \<Rightarrow> nat \<Rightarrow> gxfp_get_version_result \<Rightarrow> kst \<Rightarrow> gxfp_get_version_result \<times> kst" where
  "version_tries env 0 ver s = (ver, s)"
| "version_tries env (Suc n) ver s =
     (case gxfp_cmd_get_version env s of
        ((rc, ver), s) \<Rightarrow>
          if rc = 0 then (ver, s)
          else version_tries env n ver (if n \<noteq> 0 then ev (EvMsleep 20) s else s))"

definition gxfp_startup_sequence :: "kenv \<Rightarrow> kst \<Rightarrow> int \<times> kst" where
  "gxfp_startup_sequence env s =
    (let s = ev (EvMsleep 150) s;
         s = lock DevLock s;
         (ver, s) = version_tries env 3 version_zero s;
         (_, s) = gxfp_cmd_query_mcu_state env (Some mcu_state_zero) s;
         (ver, s) = (if gv_status ver \<noteq> 0 then
                       let (_, s) = gxfp_cmd_recover_session env True s;
                           ((_, ver), s) = gxfp_cmd_get_version env s
                       in (ver, s)
                     else (ver, s));
         s = unlock DevLock s
     in if gv_status ver \<noteq> 0 then (sint (gv_status ver), s) else (0, s))"

definition gxfp_shutdown_sequence :: "kenv \<Rightarrow> kst \<Rightarrow> kst" where
  "gxfp_shutdown_sequence env s =
    (let s = lock DevLock s;
         (_, s) = gxfp_cmd_notify_power_state env 1 s;
         (_, s) = gxfp_cmd_sleep_cleanup env 0 s
     in unlock DevLock s)"

definition gxfp_probe :: "plat_env \<Rightarrow> pst \<Rightarrow> int \<times> pst" where
  "gxfp_probe env p =
    (case gxfp_platform_probe env p of
       (ret, p) \<Rightarrow>
         if ret \<noteq> 0 then (ret, p)
         else
           (case (if pl_drvdata p then on_kst (gxfp_startup_sequence (pl_kenv env)) p else (- ENODEV, p)) of
              (ret, p) \<Rightarrow>
                if ret \<noteq> 0 then (ret, gxfp_platform_remove p)
                else (0, if pl_drvdata p \<and> hw_irq (kdev p) > 0
                         then upd_kst (\<lambda>s. ev (EvIrqEnable (hw_irq (kdev s))) s) p else p)))"

definition gxfp_remove :: "plat_env \<Rightarrow> pst \<Rightarrow> pst" where
  "gxfp_remove env p =
    gxfp_platform_remove
      (if pl_drvdata p then upd_kst (gxfp_shutdown_sequence (pl_kenv env)) p else p)"


section \<open>Lemmas\<close>

lemma on_kst_sel [simp]:
  "fst (on_kst f p) = fst (f (kst.truncate p))"
  "kdev (snd (on_kst f p)) = kdev (snd (f (kst.truncate p)))"
  "kev (snd (on_kst f p)) = kev (snd (f (kst.truncate p)))"
  "pl_drvdata (snd (on_kst f p)) = pl_drvdata p"
  by (simp_all add: on_kst_def split: prod.split)

lemma upd_kst_sel [simp]:
  "kdev (upd_kst f p) = kdev (f (kst.truncate p))"
  "kev (upd_kst f p) = kev (f (kst.truncate p))"
  "pl_drvdata (upd_kst f p) = pl_drvdata p"
  by (simp_all add: upd_kst_def)

lemma truncate_sel [simp]:
  "kdev (kst.truncate p) = kdev p" "kev (kst.truncate p) = kev p"
  by (simp_all add: kst.truncate_def)

lemma truncate_snd_on_kst: "kst.truncate (snd (on_kst f p)) = snd (f (kst.truncate p))"
  by (rule kst.equality) simp_all

text \<open>The start-up sequence is made of commands: it frames the device as each of them does.\<close>

lemma get_version_frame: "kframe s (snd (gxfp_cmd_get_version env s))"
  using kframe_cmd_xfer [of s env GXFP_CMD_FIRMWARE_VERSION "Some [0x01]" 1 GXFP_CMD_FIRMWARE_VERSION
      "Some (fresh env (kev s) GXFP_MAX_VERSION_RAW)" GXFP_MAX_VERSION_RAW GXFP_DEFAULT_RETRY_COUNT
      GXFP_DEFAULT_TIMEOUT_US]
  unfolding gxfp_cmd_get_version_def gxfp_do_get_version_def Let_def
  by (auto split: prod.split)

lemma query_mcu_state_frame: "kframe s (snd (gxfp_cmd_query_mcu_state env out s))"
  using kframe_cmd_xfer [of s env GXFP_CMD_TRIGGER_MCU_STATE
      "Some (mcu_trigger_payload (env_real_ts env (kev s)))" 5 GXFP_CMD_QUERY_MCU_STATE
      "Some (fresh env (kev s) GXFP_MAX_MCU_STATE_PAYLOAD)" GXFP_MAX_MCU_STATE_PAYLOAD
      GXFP_DEFAULT_RETRY_COUNT GXFP_DEFAULT_TIMEOUT_US]
  unfolding gxfp_cmd_query_mcu_state_def gxfp_do_query_mcu_state_def
  by (auto split: prod.split option.split)

lemma version_tries_frame: "kframe s (snd (version_tries env n ver s))"
proof (induction n arbitrary: ver s)
  case 0
  then show ?case by simp
next
  case (Suc n)
  obtain rc v s1 where x: "gxfp_cmd_get_version env s = ((rc, v), s1)" by (metis surj_pair)
  have a: "kframe s s1" using get_version_frame [of s env] by (simp add: x)
  have b: "kframe s1 (if n \<noteq> 0 then ev (EvMsleep 20) s1 else s1)" by simp
  show ?case
    using a kframe_trans [OF kframe_trans [OF a b] Suc.IH] by (simp add: x)
qed

lemma startup_frame: "kframe s (snd (gxfp_startup_sequence env s))"
proof -
  let ?s0 = "lock DevLock (ev (EvMsleep 150) s)"
  obtain v1 s1 where x1: "version_tries env 3 version_zero ?s0 = (v1, s1)" by (metis surj_pair)
  obtain m s2 where x2: "gxfp_cmd_query_mcu_state env (Some mcu_state_zero) s1 = (m, s2)"
    by (metis surj_pair)
  obtain r s3 where x3: "gxfp_cmd_recover_session env True s2 = (r, s3)" by (metis surj_pair)
  obtain q v2 s4 where x4: "gxfp_cmd_get_version env s3 = ((q, v2), s4)" by (metis surj_pair)
  have f0: "kframe s ?s0" by (rule kframe_kdev) (simp_all add: lock_def)
  have f1: "kframe ?s0 s1" using version_tries_frame [of ?s0 env 3 version_zero] by (simp add: x1)
  have f2: "kframe s1 s2" using query_mcu_state_frame [of s1 env "Some mcu_state_zero"] by (simp add: x2)
  have f3: "kframe s2 s3" using recover_session.cmd_frame [of s2 env True] by (simp add: x3)
  have f4: "kframe s3 s4" using get_version_frame [of s3 env] by (simp add: x4)
  have u: "kframe t (unlock DevLock t)" for t by (rule kframe_kdev) (simp_all add: unlock_def)
  note a = kframe_trans [OF kframe_trans [OF f0 f1] f2]
  note b = kframe_trans [OF kframe_trans [OF a f3] f4]
  show ?thesis
    using kframe_trans [OF a u] kframe_trans [OF b u]
    by (cases "gv_status v1 = 0") (simp_all add: gxfp_startup_sequence_def x1 x2 x3 x4 Let_def)
qed

text \<open>Looking the lines up changes nothing but the three descriptors.\<close>

definition lines_of :: "gxfp_dev \<Rightarrow> gxfp_dev \<Rightarrow> bool" where
  "lines_of d d' \<longleftrightarrow> 
     d'\<lparr>gpio_write_done := False, gpio_read_done := False, gpio_irq := False\<rparr> =
       d\<lparr>gpio_write_done := False, gpio_read_done := False, gpio_irq := False\<rparr>"

lemma add_gpios_sel [simp]:
  "kdev (snd (gxfp_platform_add_acpi_driver_gpios env p)) = kdev p"
  "kev (snd (gxfp_platform_add_acpi_driver_gpios env p)) = kev p"
  "pl_drvdata (snd (gxfp_platform_add_acpi_driver_gpios env p)) = pl_drvdata p"
  by (auto simp: gxfp_platform_add_acpi_driver_gpios_def Let_def split: sum.split prod.split)

lemma get_gpio_sel [simp]:
  "kdev (snd (get_gpio env name am p)) = kdev p"
  "kev (snd (get_gpio env name am p)) = kev p"
  "pl_drvdata (snd (get_gpio env name am p)) = pl_drvdata p"
  by (simp_all add: get_gpio_def Let_def split: prod.split) (metis add_gpios_sel snd_conv)+

text \<open>An error pointer carries a non-zero code.\<close>

definition errptr_ok :: "plat_env \<Rightarrow> bool" where
  "errptr_ok env \<longleftrightarrow> pl_ioremap env \<noteq> Inl 0 \<and> (\<forall>m n. pl_gpiod_get env m n \<noteq> Inl 0)"

lemma get_gpio_result:
  assumes "errptr_ok env"
  shows "get_gpio env name am p \<noteq> ((Inl 0, am'), p')"
  using assms by (auto simp: get_gpio_def errptr_ok_def Let_def split: prod.split)

lemma lines_of_upd [simp]:
  "lines_of d d"
  "lines_of d d' \<Longrightarrow> lines_of d (d'\<lparr>gpio_write_done := w\<rparr>)"
  "lines_of d d' \<Longrightarrow> lines_of d (d'\<lparr>gpio_read_done := w\<rparr>)"
  "lines_of d d' \<Longrightarrow> lines_of d (d'\<lparr>gpio_irq := w\<rparr>)"
  by (simp_all add: lines_of_def)

lemma force_deassert_sel [simp]:
  "kdev (gxfp_gpio_force_done_deassert s) = kdev s"
  "live_blocks (kev (gxfp_gpio_force_done_deassert s)) = live_blocks (kev s)"
  by (simp_all add: gxfp_gpio_force_done_deassert_def gpiod_set_read_done_def gpiod_set_write_done_def)

lemma init_gpios_frame:
  assumes ok: "errptr_ok env" and res: "gxfp_platform_init_gpios env p = (rc, p')"
  shows "lines_of (kdev p) (kdev p') \<and> live_blocks (kev p') = live_blocks (kev p) \<and>
    pl_drvdata p' = pl_drvdata p \<and>
    (rc = 0 \<longrightarrow> gpio_write_done (kdev p') \<and> gpio_read_done (kdev p') \<and> gpio_irq (kdev p'))"
    (is "?P rc p'")
proof -
  note nz = get_gpio_result [OF ok]
  obtain d1 m1 p1 where x1: "get_gpio env WriteDoneGpios False p = ((d1, m1), p1)" by (metis surj_pair)
  note k1 = get_gpio_sel [of env WriteDoneGpios False p, unfolded x1 snd_conv]
  show ?thesis
  proof (cases d1)
    case (Inl e)
    then show ?thesis
      using res k1 nz [of WriteDoneGpios False p m1 p1] by (auto simp: gxfp_platform_init_gpios_def x1)
  next
    case i1: (Inr w)
    let ?q1 = "p1\<lparr>kdev := (kdev p1)\<lparr>gpio_write_done := w\<rparr>\<rparr>"
    obtain d2 m2 p2 where x2: "get_gpio env ReadDoneGpios m1 ?q1 = ((d2, m2), p2)" by (metis surj_pair)
    note k2 = get_gpio_sel [of env ReadDoneGpios m1 ?q1, unfolded x2 snd_conv]
    show ?thesis
    proof (cases d2)
      case (Inl e)
      have "rc = e" "p' = p2" using res by (simp_all add: gxfp_platform_init_gpios_def x1 x2 i1 Inl)
      then show ?thesis
        using k1 k2 i1 x2 Inl nz [of ReadDoneGpios m1 ?q1 m2 p2] by simp
    next
      case i2: (Inr r)
      let ?q2 = "p2\<lparr>kdev := (kdev p2)\<lparr>gpio_read_done := r\<rparr>\<rparr>"
      obtain d3 m3 p3 where x3: "get_gpio env IrqGpios m2 ?q2 = ((d3, m3), p3)" by (metis surj_pair)
      note k3 = get_gpio_sel [of env IrqGpios m2 ?q2, unfolded x3 snd_conv]
      show ?thesis
      proof (cases d3)
        case (Inl e)
        have "rc = e" "p' = p3"
          using res by (simp_all add: gxfp_platform_init_gpios_def x1 x2 x3 i1 i2 Inl)
        then show ?thesis
          using k1 k2 k3 x3 Inl nz [of IrqGpios m2 ?q2 m3 p3] by simp
      next
        case (Inr i)
        let ?q3 = "p3\<lparr>kdev := (kdev p3)\<lparr>gpio_irq := i\<rparr>\<rparr>"
        have "(rc, p') = (if \<not> gpio_write_done (kdev ?q3) \<or> \<not> gpio_read_done (kdev ?q3) \<or> \<not> gpio_irq (kdev ?q3)
            then (- EINVAL, ?q3) else (0, upd_kst gxfp_gpio_force_done_deassert ?q3))"
          using res by (simp add: gxfp_platform_init_gpios_def x1 x2 x3 i1 i2 Inr Let_def)
        then show ?thesis using k1 k2 k3 by (simp split: if_splits)
      qed
    qed
  qed
qed

text \<open>The device is on the air: registered, with an empty, initialised queue nobody reads.\<close>

definition registered :: "gxfp_dev \<Rightarrow> bool" where
  "registered d \<longleftrightarrow> misc_registered d \<and> rxq_inited d \<and> rxq_buf d \<and> \<not> rxq_reader_open d \<and> rxq_fifo d = []"

definition withdrawn :: "gxfp_dev \<Rightarrow> bool" where
  "withdrawn d \<longleftrightarrow> \<not> misc_registered d \<and> \<not> rxq_inited d \<and> \<not> rxq_buf d \<and> \<not> rxq_reader_open d"

lemmas registration_defs = registered_def withdrawn_def

lemma unregister_registered:
  assumes "misc_registered (kdev s)" "rxq_inited (kdev s)"
  shows "withdrawn (kdev (gxfp_uapi_unregister s))"
    "live_blocks (kev (gxfp_uapi_unregister s)) = live_blocks (kev s) - 1"
  using assms
  by (simp_all add: gxfp_uapi_unregister_def Let_def withdrawn_def lock_def unlock_def)

lemma register_fresh:
  assumes "withdrawn (kdev s)" and "gxfp_uapi_register env s = (rc, s')"
  shows "if rc = 0
         then registered (kdev s') \<and> live_blocks (kev s') = live_blocks (kev s) + 1 \<and>
           assem_active (kdev s') = assem_active (kdev s)
         else withdrawn (kdev s') \<and> live_blocks (kev s') = live_blocks (kev s)"
  using assms
  by (auto simp: gxfp_uapi_register_def kmalloc_def Let_def registration_defs split: if_splits)

lemma probe_unwind_registered:
  assumes "misc_registered (kdev p)" "rxq_inited (kdev p)"
  shows "withdrawn (kdev (probe_unwind p))"
    "live_blocks (kev (probe_unwind p)) = live_blocks (kev p) - 1"
  using unregister_registered [of "kst.truncate p"] assms by (simp_all add: probe_unwind_def)

lemma probe_irq_outcome:
  assumes "registered (kdev p)" and "\<not> assem_active (kdev p)" and res: "probe_irq env p = (rc, p')"
  shows "if rc = 0
         then registered (kdev p') \<and> irq_inv (kdev p') \<and> live_blocks (kev p') = live_blocks (kev p) \<and>
           pl_drvdata p' = pl_drvdata p
         else withdrawn (kdev p') \<and> live_blocks (kev p') = live_blocks (kev p) - 1"
proof -
  have m: "misc_registered (kdev p)" "rxq_inited (kdev p)" using assms by (simp_all add: registered_def)
  note u = probe_unwind_registered
  show ?thesis
  proof (cases "rc = 0")
    case True
    then show ?thesis
      using assms
      by (auto simp: probe_irq_def Let_def registered_def irq_inv_def assem_ok_def GXFP_IRQ_RX_CAP_def
          split: if_splits)
  next
    case False
    then show ?thesis
      using res m by (auto simp: probe_irq_def Let_def u split: if_splits)
  qed
qed

lemma lines_of_fields:
  assumes "lines_of d d'"
  shows "withdrawn d' = withdrawn d" "assem_active d' = assem_active d"
    "mailbox_mmio d' = mailbox_mmio d" "mailbox_size d' = mailbox_size d"
  using arg_cong [OF assms [unfolded lines_of_def], of withdrawn]
    arg_cong [OF assms [unfolded lines_of_def], of assem_active]
    arg_cong [OF assms [unfolded lines_of_def], of mailbox_mmio]
    arg_cong [OF assms [unfolded lines_of_def], of mailbox_size]
  by (simp_all add: withdrawn_def)

text \<open>The probe up to the lookup of the lines: the mailbox is mapped, or the probe has ended.\<close>

definition mapped_dev :: "nat \<Rightarrow> bool \<Rightarrow> gxfp_dev" where
  "mapped_dev sz mm = zero_dev\<lparr>mailbox_seq16 := GXFP_ESPI_SEQ16_INIT, mailbox_size := sz, mailbox_mmio := mm\<rparr>"

lemma withdrawn_mapped [simp]:
  "withdrawn (mapped_dev sz mm)" "\<not> assem_active (mapped_dev sz mm)"
  "withdrawn (zero_dev\<lparr>mailbox_seq16 := q\<rparr>)" "withdrawn (zero_dev\<lparr>mailbox_seq16 := q, mailbox_size := sz\<rparr>)"
  by (simp_all add: mapped_dev_def withdrawn_def zero_dev_def)

lemma platform_probe_outcome:
  assumes ok: "errptr_ok env" and w: "withdrawn (kdev p)" and res: "gxfp_platform_probe env p = (rc, p')"
  shows "if rc = 0
         then registered (kdev p') \<and> irq_inv (kdev p') \<and> pl_drvdata p' \<and>
           live_blocks (kev p') = live_blocks (kev p) + 1
         else withdrawn (kdev p') \<and> live_blocks (kev p') = live_blocks (kev p)"
proof (cases "pl_kzalloc env \<and> pl_resource env \<noteq> None \<and> (\<exists>mm. pl_ioremap env = Inr mm)")
  case False
  then show ?thesis
    using res w ok
    by (auto simp: gxfp_platform_probe_def Let_def errptr_ok_def split: option.splits sum.splits if_splits)
next
  case True
  then obtain sz mm where r: "pl_kzalloc env" "pl_resource env = Some sz" "pl_ioremap env = Inr mm" by auto
  define q where "q = upd_kst (ev EvTraceInit) (p\<lparr>kdev := mapped_dev sz mm, pl_drvdata := True\<rparr>)"
  have q: "kdev q = mapped_dev sz mm" "live_blocks (kev q) = live_blocks (kev p)" "pl_drvdata q"
    by (simp_all add: q_def)
  obtain g p1 where x1: "gxfp_platform_init_gpios env q = (g, p1)" by (metis surj_pair)
  obtain r2 p2 where x2: "on_kst (gxfp_uapi_register (pl_kenv env)) p1 = (r2, p2)" by (metis surj_pair)
  note f1 = init_gpios_frame [OF ok x1]
  have w1: "withdrawn (kdev p1)" "\<not> assem_active (kdev p1)"
    using lines_of_fields f1 q by (metis withdrawn_mapped)+
  have eq: "(rc, p') = (if g \<noteq> 0 then (g, upd_kst (ev EvTraceExit) p1)
      else if r2 \<noteq> 0 then (r2, upd_kst (ev EvTraceExit) p2) else probe_irq env p2)"
    using res x1 x2 r
    by (simp add: gxfp_platform_probe_def Let_def q_def mapped_dev_def split: if_splits)
  show ?thesis
  proof (cases "g = 0")
    case False
    then show ?thesis using eq w1 f1 q by simp
  next
    case g0: True
    obtain s2 where s2: "gxfp_uapi_register (pl_kenv env) (kst.truncate p1) = (r2, s2)"
      "kdev p2 = kdev s2" "kev p2 = kev s2" "pl_drvdata p2 = pl_drvdata p1"
      using x2 on_kst_sel [of "gxfp_uapi_register (pl_kenv env)" p1] by (metis fst_conv prod.collapse snd_conv)
    note reg = register_fresh [OF _ s2(1)]
    show ?thesis
    proof (cases "r2 = 0")
      case False
      then show ?thesis using eq g0 reg w1 s2 f1 q by simp
    next
      case True
      have p2: "registered (kdev p2)" "\<not> assem_active (kdev p2)"
        "live_blocks (kev p2) = live_blocks (kev p) + 1"
        using reg w1 s2 True f1 q by simp_all
      have "probe_irq env p2 = (rc, p')" using eq g0 True by simp
      from probe_irq_outcome [OF p2(1,2) this] show ?thesis using p2 s2(4) f1 q by simp
    qed
  qed
qed

lemma remove_registered:
  assumes "misc_registered (kdev p)" "rxq_inited (kdev p)" "pl_drvdata p"
  shows "withdrawn (kdev (gxfp_platform_remove p))"
    "live_blocks (kev (gxfp_platform_remove p)) = live_blocks (kev p) - 1"
proof -
  define q where "q = (if 0 < hw_irq (kdev p)
     then upd_kst (\<lambda>s. ev (EvIrqSync (hw_irq (kdev s))) (ev (EvIrqDisable (hw_irq (kdev s))) s)) p else p)"
  have q: "kdev q = kdev p" "live_blocks (kev q) = live_blocks (kev p)" "pl_drvdata q"
    using assms by (simp_all add: q_def)
  have eq: "gxfp_platform_remove p = upd_kst gxfp_uapi_unregister (upd_kst (ev EvTraceExit) q)"
    using assms(3) q(3) by (simp add: gxfp_platform_remove_def Let_def q_def)
  show "withdrawn (kdev (gxfp_platform_remove p))"
    "live_blocks (kev (gxfp_platform_remove p)) = live_blocks (kev p) - 1"
    unfolding eq using unregister_registered [of "kst.truncate (upd_kst (ev EvTraceExit) q)"] q assms
    by simp_all
qed

text \<open>The fields of the device the commands of the start-up and shut-down sequences leave alone.\<close>

lemma kframe_registered:
  assumes "kframe s s'"
  shows "registered (kdev s') = registered (kdev s)" "irq_inv (kdev s') = irq_inv (kdev s)"
    "live_blocks (kev s') = live_blocks (kev s)" "hw_irq (kdev s') = hw_irq (kdev s)"
    "misc_registered (kdev s') = misc_registered (kdev s)" "rxq_inited (kdev s') = rxq_inited (kdev s)"
proof -
  have d: "(kdev s')\<lparr>mailbox_seq16 := 0, irq_rx_tmp := None\<rparr> =
      (kdev s)\<lparr>mailbox_seq16 := 0, irq_rx_tmp := None\<rparr>" using assms by (simp add: kframe_def)
  show "registered (kdev s') = registered (kdev s)"
    using arg_cong [OF d, of registered] by (simp add: registered_def)
  show "irq_inv (kdev s') = irq_inv (kdev s)"
    using arg_cong [OF d, of irq_inv] by (simp add: irq_inv_def assem_ok_def)
  show "live_blocks (kev s') = live_blocks (kev s)" using assms by (simp add: kframe_def)
  show "hw_irq (kdev s') = hw_irq (kdev s)" "misc_registered (kdev s') = misc_registered (kdev s)"
    "rxq_inited (kdev s') = rxq_inited (kdev s)"
    using arg_cong [OF d, of hw_irq] arg_cong [OF d, of misc_registered] arg_cong [OF d, of rxq_inited]
    by simp_all
qed

lemma registered_sys_inv:
  "registered (kdev s) \<Longrightarrow> irq_inv (kdev s) \<Longrightarrow> sys_inv \<lparr>sys_st = s, sys_files = []\<rparr>"
  using rxq_inv_empty [of s] by (simp add: registered_def sys_inv_def readers_def)

section \<open>The resource scan\<close>

text \<open>Walking a list of resources with a callback, as \<open>acpi_dev_get_resources\<close> does while the
  callback answers 0; the result is the number of resources.\<close>

definition acpi_walk :: "acpi_resource list \<Rightarrow>
    (acpi_resource option \<Rightarrow> gxfp_acpi_res_state \<Rightarrow> int \<times> gxfp_acpi_res_state) \<Rightarrow>
    gxfp_acpi_res_state \<Rightarrow> int \<times> gxfp_acpi_res_state" where
  "acpi_walk rs cb st = (int (length rs), fold (\<lambda>r st. snd (cb (Some r) st)) rs st)"

fun is_gpio :: "acpi_resource \<Rightarrow> bool" where
  "is_gpio (AcpiGpio c ps pol) = True"
| "is_gpio AcpiOther = False"

fun is_line :: "gpio_conn \<Rightarrow> acpi_resource \<Rightarrow> bool" where
  "is_line c (AcpiGpio c' ps pol) = (c' = c \<and> ps \<noteq> [])"
| "is_line c AcpiOther = False"

fun polarity_of :: "acpi_resource \<Rightarrow> u8" where
  "polarity_of (AcpiGpio c ps pol) = pol"
| "polarity_of AcpiOther = 0"

text \<open>The indices, among the GPIO resources, of the lines of one kind.\<close>

definition line_indices :: "gpio_conn \<Rightarrow> acpi_resource list \<Rightarrow> nat list" where
  "line_indices c rs = (let gs = filter is_gpio rs in filter (\<lambda>n. is_line c (gs ! n)) [0..<length gs])"

lemma line_indices_snoc:
  "line_indices c (rs @ [r]) =
     line_indices c rs @ (if is_line c r then [length (filter is_gpio rs)] else [])"
proof (cases r)
  case (AcpiGpio c' ps pol)
  let ?gs = "filter is_gpio rs"
  have "filter (\<lambda>n. is_line c ((?gs @ [r]) ! n)) [0..<length ?gs] = filter (\<lambda>n. is_line c (?gs ! n)) [0..<length ?gs]"
    by (rule filter_cong) (simp_all add: nth_append)
  then show ?thesis using AcpiGpio by (simp add: line_indices_def Let_def)
next
  case AcpiOther
  then show ?thesis by (simp add: line_indices_def)
qed

definition scan_start :: gxfp_acpi_res_state where
  "scan_start = \<lparr>rs_dev = True, gpio_seen = 0, gpio_io_seen = 0, gpio_io_pin = [0, 0],
     gpio_io_pol = [0, 0], gpio_io_crs_index = [-1, -1], gpio_int_seen = 0, gpio_int_crs_index = -1\<rparr>"

definition scan_inv :: "acpi_resource list \<Rightarrow> gxfp_acpi_res_state \<Rightarrow> bool" where
  "scan_inv rs st \<longleftrightarrow>
     (let gs = filter is_gpio rs; ints = line_indices GpioInt rs; ios = line_indices GpioIo rs
      in rs_dev st \<and> gpio_seen st = int (length gs) \<and> gpio_int_seen st = int (length ints) \<and>
         gpio_int_crs_index st = (case ints of [] \<Rightarrow> -1 | i # _ \<Rightarrow> int i) \<and>
         gpio_io_seen st = min 2 (length ios) \<and>
         gpio_io_crs_index st = take 2 (map int (take 2 ios) @ [-1, -1]) \<and>
         gpio_io_pol st = take 2 (map (\<lambda>i. polarity_of (gs ! i)) (take 2 ios) @ [0, 0]))"

lemma line_indices_bound: "n \<in> set (line_indices c rs) \<Longrightarrow> n < length (filter is_gpio rs)"
  by (simp add: line_indices_def Let_def)

lemma take_2_snoc_full: "2 \<le> length xs \<Longrightarrow> take 2 (xs @ ys) = take 2 xs"
  by simp

lemma scan_inv_step:
  assumes inv: "scan_inv rs st"
  shows "scan_inv (rs @ [r]) (snd (gxfp_acpi_res_cb (Some r) st))"
proof (cases r)
  case AcpiOther
  then show ?thesis
    using inv by (simp add: scan_inv_def gxfp_acpi_res_cb_def line_indices_snoc Let_def)
next
  case (AcpiGpio c ps pol)
  let ?gs = "filter is_gpio rs"
  have keep: "map (\<lambda>i. polarity_of ((?gs @ [r]) ! i)) (take 2 (line_indices GpioIo rs)) =
      map (\<lambda>i. polarity_of (?gs ! i)) (take 2 (line_indices GpioIo rs))"
    using line_indices_bound in_set_takeD by (force simp: nth_append)
  note unf = scan_inv_def gxfp_acpi_res_cb_def Let_def line_indices_snoc
  have g: "filter is_gpio (rs @ [r]) = ?gs @ [r]" "is_gpio r" using AcpiGpio by simp_all
  show ?thesis
  proof (cases "ps = [] \<or> c = GpioOther")
    case True
    then have "\<not> is_line GpioInt r" "\<not> is_line GpioIo r" using AcpiGpio by auto
    then show ?thesis
      using inv True keep AcpiGpio by (cases c; cases "ps = []") (simp_all add: unf Suc_le_eq)
  next
    case False
    show ?thesis
    proof (cases c)
      case GpioInt
      then show ?thesis
        using inv False keep AcpiGpio
        by (cases "line_indices GpioInt rs") (simp_all add: unf Suc_le_eq)
    next
      case GpioIo
      consider (none) "line_indices GpioIo rs = []" | (one) a where "line_indices GpioIo rs = [a]"
        | (two) a b ks where "line_indices GpioIo rs = a # b # ks"
        by (metis list.exhaust)
      then show ?thesis
      proof cases
        case none
        then show ?thesis
          using inv False AcpiGpio GpioIo by (simp add: unf Suc_le_eq nth_append)
      next
        case one
        then show ?thesis
          using inv False keep AcpiGpio GpioIo by (simp add: unf Suc_le_eq nth_append numeral_2_eq_2)
      next
        case two
        then show ?thesis
          using inv False keep AcpiGpio GpioIo by (simp add: unf Suc_le_eq numeral_2_eq_2)
      qed
    next
      case GpioOther
      then show ?thesis using False by simp
    qed
  qed
qed

lemma scan_inv_walk: "scan_inv rs (snd (acpi_walk rs gxfp_acpi_res_cb scan_start))"
proof (induction rs rule: rev_induct)
  case Nil
  then show ?case by (simp add: acpi_walk_def scan_inv_def scan_start_def line_indices_def)
next
  case (snoc r rs)
  then show ?case using scan_inv_step by (simp add: acpi_walk_def)
qed


definition scan_result ::
  "acpi_resource list \<Rightarrow> gxfp_acpi_res_state \<Rightarrow> int + (int \<times> (int \<times> int) \<times> bool)" where
  "scan_result rs st =
      (if rs = [] then Inl (- ENOENT)
       else if gpio_int_seen st < 1 \<or> gpio_int_crs_index st < 0 then Inl (- ENOENT)
       else if gpio_io_seen st < 2 \<or> gpio_io_crs_index st ! 0 < 0 \<or> gpio_io_crs_index st ! 1 < 0
         then Inl (- ENOENT)
       else if (gpio_io_pol st ! 0 \<noteq> 0) \<noteq> (gpio_io_pol st ! 1 \<noteq> 0) then Inl (- EINVAL)
       else Inr (gpio_int_crs_index st, (gpio_io_crs_index st ! 0, gpio_io_crs_index st ! 1),
                 gpio_io_pol st ! 0 \<noteq> 0))"

lemma scan_run:
  assumes "get_resources a = acpi_walk rs"
  shows "\<exists>st. scan_inv rs st \<and> gxfp_acpi_get_gpio_crs_indexes True (Some a) = scan_result rs st"
proof -
  obtain st where st: "acpi_walk rs gxfp_acpi_res_cb scan_start = (int (length rs), st)"
    by (simp add: acpi_walk_def)
  have "scan_inv rs st" using scan_inv_walk [of rs] by (simp add: st)
  moreover have "gxfp_acpi_get_gpio_crs_indexes True (Some a) = scan_result rs st"
    using assms st [unfolded scan_start_def]
    by (simp add: gxfp_acpi_get_gpio_crs_indexes_def scan_result_def Let_def)
  ultimately show ?thesis by blast
qed

section \<open>Properties\<close>

text \<open>C15: Probing is all or nothing. A probe that succeeds leaves the driver in a state that
  satisfies the invariant of the character device with no file open, registered, owning exactly
  one block more than before; a probe that fails at any stage leaves the device withdrawn with
  every block given back.\<close>

theorem probe_all_or_nothing:
  assumes ok: "errptr_ok env" and w: "withdrawn (kdev p)" and res: "gxfp_probe env p = (rc, p')"
  shows "if rc = 0
         then sys_inv \<lparr>sys_st = kst.truncate p', sys_files = []\<rparr> \<and> registered (kdev p') \<and> pl_drvdata p' \<and>
           live_blocks (kev p') = live_blocks (kev p) + 1
         else withdrawn (kdev p') \<and> live_blocks (kev p') = live_blocks (kev p)"
proof -
  obtain r1 p1 where x1: "gxfp_platform_probe env p = (r1, p1)" by (metis surj_pair)
  note o1 = platform_probe_outcome [OF ok w x1]
  show ?thesis
  proof (cases "r1 = 0")
    case False
    then show ?thesis using o1 res by (simp add: gxfp_probe_def x1)
  next
    case True
    obtain r2 p2 where x2: "on_kst (gxfp_startup_sequence (pl_kenv env)) p1 = (r2, p2)" by (metis surj_pair)
    note k = on_kst_sel [of "gxfp_startup_sequence (pl_kenv env)" p1, unfolded x2 fst_conv snd_conv]
    note fr = kframe_registered [OF startup_frame [of "kst.truncate p1" "pl_kenv env"]]
    have p2: "registered (kdev p2)" "irq_inv (kdev p2)" "pl_drvdata p2"
      "live_blocks (kev p2) = live_blocks (kev p) + 1"
      using True o1 k fr by simp_all
    then have m: "misc_registered (kdev p2)" "rxq_inited (kdev p2)" by (simp_all add: registered_def)
    have eq: "(rc, p') = (if r2 \<noteq> 0 then (r2, gxfp_platform_remove p2)
        else (0, if 0 < hw_irq (kdev p2) then upd_kst (\<lambda>s. ev (EvIrqEnable (hw_irq (kdev s))) s) p2 else p2))"
      using res True o1 p2(3) by (simp add: gxfp_probe_def x1 x2 split: if_splits)
    show ?thesis
    proof (cases "r2 = 0")
      case False
      then show ?thesis using eq remove_registered [OF m p2(3)] p2(4) by simp
    next
      case True
      then have "kdev p' = kdev p2" "live_blocks (kev p') = live_blocks (kev p2)" "pl_drvdata p'" "rc = 0"
        using eq p2(3) by (simp_all split: if_splits)
      then show ?thesis using registered_sys_inv [of "kst.truncate p'"] p2 by simp
    qed
  qed
qed

text \<open>The ACPI scan names the right pins. When it succeeds on a list of resources, the interrupt
  index is that of the first interrupt line among the GPIO resources, the two done indices are those
  of the first two output lines, in order, and both lines have the polarity it reports; it succeeds
  exactly when there are such lines and the two polarities agree.\<close>

theorem acpi_scan_selects_lines:
  assumes "get_resources a = acpi_walk rs"
  shows "case gxfp_acpi_get_gpio_crs_indexes True (Some a) of
      Inr (irq, (d0, d1), low) \<Rightarrow>
        (\<exists>i ms j k ks. line_indices GpioInt rs = i # ms \<and> line_indices GpioIo rs = j # k # ks \<and>
           irq = int i \<and> d0 = int j \<and> d1 = int k \<and>
           low = (polarity_of (filter is_gpio rs ! j) \<noteq> 0) \<and> low = (polarity_of (filter is_gpio rs ! k) \<noteq> 0))
    | Inl e \<Rightarrow>
        line_indices GpioInt rs = [] \<and> e = - ENOENT \<or> length (line_indices GpioIo rs) < 2 \<and> e = - ENOENT \<or>
        e = - EINVAL \<and>
        (\<exists>j k ks. line_indices GpioIo rs = j # k # ks \<and>
           (polarity_of (filter is_gpio rs ! j) \<noteq> 0) \<noteq> (polarity_of (filter is_gpio rs ! k) \<noteq> 0))"
proof -
  obtain st where inv: "scan_inv rs st" and run: "gxfp_acpi_get_gpio_crs_indexes True (Some a) = scan_result rs st"
    using scan_run [OF assms] by blast
  note run = run [unfolded scan_result_def]
  show ?thesis
  proof (cases "line_indices GpioInt rs")
    case Nil
    then show ?thesis
      unfolding run using inv by (cases "rs = []") (simp_all add: scan_inv_def Let_def)
  next
    case ints: (Cons i ms)
    then have ne: "rs \<noteq> []" by (auto simp: line_indices_def)
    consider (few) "length (line_indices GpioIo rs) < 2" | (two) j k ks where "line_indices GpioIo rs = j # k # ks"
      by (cases "line_indices GpioIo rs" rule: list.exhaust; cases "tl (line_indices GpioIo rs)") auto
    then show ?thesis
    proof cases
      case few
      then show ?thesis unfolding run using inv ints ne by (simp add: scan_inv_def Let_def)
    next
      case two
      then show ?thesis unfolding run using inv ints ne by (simp add: scan_inv_def Let_def numeral_2_eq_2)
    qed
  qed
qed

definition sim_crs :: "acpi_resource list" where
  "sim_crs = [AcpiOther, AcpiGpio GpioIo [12] 1, AcpiGpio GpioInt [7] 0, AcpiGpio GpioIo [13] 1]"

definition sim_companion :: acpi_companion where
  "sim_companion = \<lparr>get_resources = acpi_walk sim_crs, device_hid = None\<rparr>"

lemma sim_crs_lines: "line_indices GpioInt sim_crs = [1]" "line_indices GpioIo sim_crs = [0, 2]"
proof -
  have u: "[0..<Suc (Suc (Suc 0))] = [0, 1, 2]" by (simp add: numeral_2_eq_2)
  show "line_indices GpioInt sim_crs = [1]" "line_indices GpioIo sim_crs = [0, 2]"
    by (simp_all add: line_indices_def sim_crs_def u del: upt_Suc)
qed

lemma sim_scan: "gxfp_acpi_get_gpio_crs_indexes True (Some sim_companion) = Inr (1, (0, 2), True)"
proof -
  obtain st where "scan_inv sim_crs st"
    "gxfp_acpi_get_gpio_crs_indexes True (Some sim_companion) = scan_result sim_crs st"
    using scan_run [of sim_companion sim_crs] by (auto simp: sim_companion_def)
  then show ?thesis
    by (simp add: scan_inv_def scan_result_def sim_crs_lines Let_def) (simp add: sim_crs_def)
qed

theorem acpi_scan_selects_lines_witness:
  "gxfp_acpi_get_gpio_crs_indexes True (Some sim_companion) = Inr (1, (0, 2), True) \<and>
   (\<exists>i ms j k ks. line_indices GpioInt sim_crs = i # ms \<and> line_indices GpioIo sim_crs = j # k # ks \<and>
      1 = int i \<and> 0 = int j \<and> 2 = int k)"
proof -
  have "get_resources sim_companion = acpi_walk sim_crs" by (simp add: sim_companion_def)
  from acpi_scan_selects_lines [OF this] show ?thesis by (simp add: sim_scan)
qed

text \<open>A platform with the resources of the device whose interrupt cannot be mapped: the probe gets
  as far as registering the character device and has to give it back.\<close>

definition sim_plat :: plat_env where
  "sim_plat = \<lparr>pl_kenv = sim_env (\<lambda>j. zeros 0xe00), pl_acpi = Some sim_companion, pl_kzalloc = True,
     pl_resource = Some 0x1000, pl_ioremap = Inr True, pl_devm_kcalloc = (\<lambda>n. True),
     pl_add_driver_gpios = (\<lambda>m. 0),
     pl_gpiod_get = (\<lambda>m n. if m = None then Inl (- ENOENT) else Inr True),
     pl_devm_kmalloc = (\<lambda>n. True), pl_gpiod_to_irq = - EINVAL, pl_trigger_none = True, pl_request_irq = 0\<rparr>"

definition sim_pst :: pst where
  "sim_pst = \<lparr>kdev = zero_dev, kev = [], pl_map = None, pl_drvdata = False\<rparr>"

definition sim_map :: gpio_map where
  "sim_map = [(IrqGpios, 1, 0, False), (WriteDoneGpios, 0, 0, True), (ReadDoneGpios, 2, 0, True)]"

lemma sim_get_gpio:
  "pl_map p = None \<Longrightarrow> pl_drvdata p \<Longrightarrow>
     get_gpio sim_plat n False p = ((Inr True, True), p\<lparr>pl_map := Some sim_map\<rparr>)"
  "pl_map p = Some m \<Longrightarrow> get_gpio sim_plat n am p = ((Inr True, am), p)"
  by (simp_all add: get_gpio_def gxfp_platform_add_acpi_driver_gpios_def sim_plat_def sim_scan sim_map_def)

lemma sim_init_gpios:
  assumes "pl_map p = None" "pl_drvdata p"
  shows "\<exists>p'. gxfp_platform_init_gpios sim_plat p = (0, p')"
  using assms by (simp add: gxfp_platform_init_gpios_def sim_get_gpio Let_def)

lemma sim_register:
  assumes "withdrawn (kdev s)"
  shows "\<exists>s'. gxfp_uapi_register (sim_env W) s = (0, s') \<and> EvMiscRegister \<in> set (kev s')"
  using assms by (simp add: withdrawn_def gxfp_uapi_register_def sim_env_def kmalloc_def Let_def)

lemma unregister_keeps_history: "set (kev s) \<subseteq> set (kev (gxfp_uapi_unregister s))"
  by (auto simp: gxfp_uapi_unregister_def Let_def lock_def unlock_def kfree_def)

lemma sim_probe_irq: "fst (probe_irq sim_plat p) = - EINVAL" "set (kev p) \<subseteq> set (kev (snd (probe_irq sim_plat p)))"
proof -
  obtain q where q: "probe_irq sim_plat p = (- EINVAL, probe_unwind q)" "kev q = kev p"
    by (simp add: probe_irq_def sim_plat_def)
  show "fst (probe_irq sim_plat p) = - EINVAL" "set (kev p) \<subseteq> set (kev (snd (probe_irq sim_plat p)))"
    using unregister_keeps_history [of "kst.truncate q"] by (simp_all add: q probe_unwind_def) blast
qed

theorem probe_all_or_nothing_witness:
  "\<exists>p'. gxfp_probe sim_plat sim_pst = (- EINVAL, p') \<and> withdrawn (kdev p') \<and> live_blocks (kev p') = 0 \<and>
     EvMiscRegister \<in> set (kev p')"
proof -
  have ok: "errptr_ok sim_plat" "withdrawn (kdev sim_pst)"
    by (simp_all add: errptr_ok_def sim_plat_def sim_pst_def withdrawn_def zero_dev_def)
  define q where "q = upd_kst (ev EvTraceInit) (sim_pst\<lparr>kdev := mapped_dev 0x1000 True, pl_drvdata := True\<rparr>)"
  have q: "pl_map q = None" "pl_drvdata q" "kdev q = mapped_dev 0x1000 True"
    by (simp_all add: q_def sim_pst_def upd_kst_def on_kst_def)
  obtain p1 where x1: "gxfp_platform_init_gpios sim_plat q = (0, p1)" using sim_init_gpios [OF q(1,2)] by blast
  have w1: "withdrawn (kdev p1)" using lines_of_fields(1) init_gpios_frame [OF ok(1) x1] q(3) by (metis withdrawn_mapped(1))
  obtain r2 p2 where x2: "on_kst (gxfp_uapi_register (pl_kenv sim_plat)) p1 = (r2, p2)" by (metis surj_pair)
  have r2: "r2 = 0" "EvMiscRegister \<in> set (kev p2)"
    using sim_register [of "kst.truncate p1" "\<lambda>j. zeros 0xe00"] w1 x2
      on_kst_sel [of "gxfp_uapi_register (pl_kenv sim_plat)" p1]
    by (auto simp: sim_plat_def)
  have "gxfp_platform_probe sim_plat sim_pst = probe_irq sim_plat p2"
    using x1 x2 r2
    by (simp add: gxfp_platform_probe_def Let_def q_def mapped_dev_def) (simp add: sim_plat_def)
  then obtain p' where x: "gxfp_probe sim_plat sim_pst = (- EINVAL, p')" "EvMiscRegister \<in> set (kev p')"
    using sim_probe_irq [of p2] r2(2) by (cases "probe_irq sim_plat p2") (auto simp: gxfp_probe_def)
  then show ?thesis using probe_all_or_nothing [OF ok x(1)] by (simp add: sim_pst_def)
qed

end
