(* ===== verification/Uapi_Concurrency.thy ===== *)
theory Uapi_Concurrency
  imports Gxfp_Prelude
begin

text \<open>
  The receive queue under concurrency: a thread inside \<open>gxfp_uapi_read\<close>
  (\<open>driver/gxfp_uapi_fifo.c\<close>), the interrupt thread that pushes packets, a thread inside \<open>gxfp_uapi_poll\<close>, and the thread that
  removes the driver (\<open>gxfp_platform_remove\<close>, \<open>gxfp_uapi_unregister\<close>, and the release of the
  device-managed memory after it). One step is one section between two synchronisation points: a
  spin-locked section, the acquisition or release of \<open>rxq_mutex\<close>, one evaluation of the wait
  condition. \<open>Kernel_Uapi\<close> has the sequential behaviour of the same functions; here a record is
  only its bytes. The theory shows what the locks guarantee, and two schedules they do not cover.
\<close>

section \<open>Threads\<close>

datatype cthread = Reader | Remover

text \<open>Where the reader is. \<open>RIdle\<close>: outside \<open>read\<close>, with the file open. \<open>RFault\<close>: it has followed
  a pointer to the device structure after that was freed.\<close>

datatype rpc = RIdle | RLock | RCheck | RSleep | RPeek | RPop | RUnlock int | RFault

datatype upc = UStart | UDeregister | ULock | UClear | UFree | UUnlock | UReturned | UGone

record csys =
  c_owner :: "cthread option"
  c_inited :: bool
  c_buf :: bool
  c_fifo :: "bytes list"
  c_irq :: bool
  c_gdev :: bool
  c_sig :: bool
  c_bad :: bool
  c_reader :: rpc
  c_remover :: upc

abbreviation ERESTARTSYS :: int where "ERESTARTSYS \<equiv> 512"

text \<open>Every call of a \<open>kfifo\<close> function works on the queue, whatever was checked before; \<open>c_bad\<close> records one that was made after the memory of
  the queue had been freed.\<close>

definition touch :: "csys \<Rightarrow> csys" where
  "touch x = (if c_buf x then x else x\<lparr>c_bad := True\<rparr>)"

text \<open>One step of \<open>gxfp_uapi_read\<close>; \<open>None\<close> when the thread is blocked. \<open>nonblock\<close> and \<open>count\<close> are
  those of the call, \<open>mem\<close> says whether \<open>kmalloc\<close> succeeds.\<close>

definition read_step :: "bool \<Rightarrow> nat \<Rightarrow> bool \<Rightarrow> csys \<Rightarrow> csys option" where
  "read_step nonblock count mem x =
    (if c_reader x = RFault then None
     else if \<not> c_gdev x then Some (x\<lparr>c_reader := RFault\<rparr>)
     else
       (case c_reader x of
          RIdle \<Rightarrow> if \<not> c_inited x \<or> count = 0 then Some x else Some (x\<lparr>c_reader := RLock\<rparr>)
        | RLock \<Rightarrow>
            if c_owner x = None then Some (x\<lparr>c_owner := Some Reader, c_reader := RCheck\<rparr>)
            else if c_sig x then Some (x\<lparr>c_sig := False, c_reader := RIdle\<rparr>)
            else None
        | RCheck \<Rightarrow>
            if \<not> c_inited x then Some (x\<lparr>c_reader := RUnlock (- ENODEV)\<rparr>)
            else if c_fifo x \<noteq> [] then Some ((touch x)\<lparr>c_reader := RPeek\<rparr>)
            else if nonblock then Some ((touch x)\<lparr>c_reader := RUnlock (- EAGAIN)\<rparr>)
            else Some ((touch x)\<lparr>c_reader := RSleep\<rparr>)
        | RSleep \<Rightarrow>
            if c_inited x \<and> c_fifo x \<noteq> [] then Some ((touch x)\<lparr>c_reader := RCheck\<rparr>)
            else if \<not> c_inited x then Some (x\<lparr>c_reader := RCheck\<rparr>)
            else if c_sig x then Some (x\<lparr>c_sig := False, c_reader := RUnlock (- ERESTARTSYS)\<rparr>)
            else None
        | RPeek \<Rightarrow>
            if \<not> c_inited x then Some (x\<lparr>c_reader := RUnlock (- ENODEV)\<rparr>)
            else if c_fifo x = [] then Some ((touch x)\<lparr>c_reader := RUnlock (- EIO)\<rparr>)
            else if count < length (hd (c_fifo x)) then Some ((touch x)\<lparr>c_reader := RUnlock (- EMSGSIZE)\<rparr>)
            else if \<not> mem then Some ((touch x)\<lparr>c_reader := RUnlock (- ENOMEM)\<rparr>)
            else Some ((touch x)\<lparr>c_reader := RPop\<rparr>)
        | RPop \<Rightarrow>
            if \<not> c_inited x then Some (x\<lparr>c_reader := RUnlock (- ENODEV)\<rparr>)
            else if c_fifo x = [] then Some ((touch x)\<lparr>c_reader := RUnlock (- EIO)\<rparr>)
            else Some ((touch x)\<lparr>c_reader := RUnlock (int (length (hd (c_fifo x)))), c_fifo := tl (c_fifo x)\<rparr>)
        | RUnlock r \<Rightarrow> Some (x\<lparr>c_owner := None, c_reader := RIdle\<rparr>)
        | RFault \<Rightarrow> None))"

text \<open>One step of the removal: the interrupt is disabled, the misc device deregistered, the queue
  torn down under \<open>rxq_mutex\<close>; after the driver has returned, the device-managed structure goes.\<close>

definition remove_step :: "csys \<Rightarrow> csys option" where
  "remove_step x =
    (case c_remover x of
       UStart \<Rightarrow> Some (x\<lparr>c_irq := False, c_remover := UDeregister\<rparr>)
     | UDeregister \<Rightarrow>
         if c_inited x then Some (x\<lparr>c_remover := ULock\<rparr>) else Some (x\<lparr>c_remover := UReturned\<rparr>)
     | ULock \<Rightarrow>
         if c_owner x = None then Some (x\<lparr>c_owner := Some Remover, c_remover := UClear\<rparr>) else None
     | UClear \<Rightarrow> Some (x\<lparr>c_inited := False, c_fifo := [], c_remover := UFree\<rparr>)
     | UFree \<Rightarrow> Some (x\<lparr>c_buf := False, c_remover := UUnlock\<rparr>)
     | UUnlock \<Rightarrow> Some (x\<lparr>c_owner := None, c_remover := UReturned\<rparr>)
     | UReturned \<Rightarrow> Some (x\<lparr>c_gdev := False, c_remover := UGone\<rparr>)
     | UGone \<Rightarrow> None)"

text \<open>The interrupt thread pushes a record when the queue is there; a full queue drops it.\<close>

definition push_step :: "bytes \<Rightarrow> bool \<Rightarrow> csys \<Rightarrow> csys" where
  "push_step r room x =
    (if \<not> c_inited x then x else if room then (touch x)\<lparr>c_fifo := c_fifo x @ [r]\<rparr> else touch x)"

inductive cstep :: "bool \<Rightarrow> csys \<Rightarrow> csys \<Rightarrow> bool" for signals where
  Read: "read_step nonblock count mem x = Some y \<Longrightarrow> cstep signals x y"
| Remove: "remove_step x = Some y \<Longrightarrow> cstep signals x y"
| Irq: "c_irq x \<Longrightarrow> cstep signals x (push_step r room x)"
| Signal: "signals \<Longrightarrow> cstep signals x (x\<lparr>c_sig := True\<rparr>)"

inductive_cases cstepE: "cstep signals x y"
inductive_simps cstep_no_signal: "cstep False x y"

definition bound_dev :: csys where
  "bound_dev = \<lparr>c_owner = None, c_inited = True, c_buf = True, c_fifo = [], c_irq = True, c_gdev = True,
     c_sig = False, c_bad = False, c_reader = RIdle, c_remover = UStart\<rparr>"

section \<open>What the locks guarantee\<close>

fun in_read :: "rpc \<Rightarrow> bool" where
  "in_read RIdle = False"
| "in_read RLock = False"
| "in_read RFault = False"
| "in_read _ = True"

fun in_teardown :: "upc \<Rightarrow> bool" where
  "in_teardown UClear = True"
| "in_teardown UFree = True"
| "in_teardown UUnlock = True"
| "in_teardown _ = False"

text \<open>The queue is cleared by the step that leaves \<open>UClear\<close>.\<close>

fun before_clear :: "upc \<Rightarrow> bool" where
  "before_clear UStart = True"
| "before_clear UDeregister = True"
| "before_clear ULock = True"
| "before_clear UClear = True"
| "before_clear _ = False"

definition owner_ok :: "rpc \<Rightarrow> upc \<Rightarrow> cthread option \<Rightarrow> bool" where
  "owner_ok r u ow =
    (if in_read r then ow = Some Reader \<and> \<not> in_teardown u
     else if in_teardown u then ow = Some Remover
     else ow = (if r = RFault \<and> ow \<noteq> None then Some Reader else None))"

definition cinv :: "csys \<Rightarrow> bool" where
  "cinv x \<longleftrightarrow> owner_ok (c_reader x) (c_remover x) (c_owner x) \<and>
     c_inited x = before_clear (c_remover x) \<and> (before_clear (c_remover x) \<longrightarrow> c_buf x) \<and>
     \<not> c_bad x \<and> c_gdev x = (c_remover x \<noteq> UGone) \<and> (c_reader x = RFault \<longrightarrow> c_remover x = UGone)"

lemma touch_alive: "cinv x \<Longrightarrow> c_inited x \<Longrightarrow> touch x = x"
  by (simp add: cinv_def touch_def)

lemma cinv_start: "cinv bound_dev"
  by (simp add: cinv_def owner_ok_def bound_dev_def)

lemma cinv_read_option:
  assumes "cinv x"
  shows "pred_option cinv (read_step nb n mem x)"
proof (cases "c_gdev x")
  case False
  then show ?thesis
    using assms
    by (cases "in_read (c_reader x)") (simp_all add: read_step_def cinv_def owner_ok_def split: if_split_asm)
next
  case True
  then show ?thesis
    using assms touch_alive [OF assms]
    by (cases "c_inited x"; cases "c_reader x") (simp_all add: read_step_def cinv_def owner_ok_def split: if_split_asm)
qed

lemma cinv_remove_option:
  assumes "cinv x"
  shows "pred_option cinv (remove_step x)"
  using assms
  by (cases "c_remover x"; cases "in_read (c_reader x)")
     (simp_all add: remove_step_def cinv_def owner_ok_def split: if_split_asm)

lemma cinv_read: "cinv x \<Longrightarrow> read_step nb n mem x = Some y \<Longrightarrow> cinv y"
  using cinv_read_option [of x nb n mem] by simp

lemma cinv_remove: "cinv x \<Longrightarrow> remove_step x = Some y \<Longrightarrow> cinv y"
  using cinv_remove_option [of x] by simp

lemma cinv_push: "cinv x \<Longrightarrow> cinv (push_step r room x)"
  using touch_alive [of x] by (auto simp: push_step_def cinv_def)

lemma cinv_signal: "cinv x \<Longrightarrow> cinv (x\<lparr>c_sig := b\<rparr>)"
  by (simp add: cinv_def)

lemma cinv_step: "cstep signals x y \<Longrightarrow> cinv x \<Longrightarrow> cinv y"
  by (erule cstepE) (auto intro: cinv_read cinv_remove cinv_push cinv_signal)

lemma cinv_reachable: "(cstep signals)\<^sup>*\<^sup>* bound_dev y \<Longrightarrow> cinv y"
  by (induction rule: rtranclp_induct) (simp_all add: cinv_start cinv_step)

subsection \<open>Polling\<close>

text \<open>\<open>gxfp_uapi_poll\<close> takes no mutex: between its first look at \<open>rxq_inited\<close> and the spin-locked section the queue may be torn
  down.\<close>

datatype ppc = PIdle | PQueue | PFault

definition poll_step :: "csys \<times> ppc \<Rightarrow> (csys \<times> ppc) option" where
  "poll_step xp =
    (case xp of (x, p) \<Rightarrow>
       if p = PFault then None
       else if \<not> c_gdev x then Some (x, PFault)
       else
         (case p of
            PIdle \<Rightarrow> Some (x, if c_inited x then PQueue else PIdle)
          | PQueue \<Rightarrow> if \<not> c_inited x then Some (x, PIdle) else Some (touch x, PIdle)
          | PFault \<Rightarrow> None))"

inductive pstep :: "bool \<Rightarrow> csys \<times> ppc \<Rightarrow> csys \<times> ppc \<Rightarrow> bool" for signals where
  Others: "cstep signals x y \<Longrightarrow> pstep signals (x, p) (y, p)"
| Poll: "poll_step xp = Some yp \<Longrightarrow> pstep signals xp yp"

definition pinv :: "csys \<times> ppc \<Rightarrow> bool" where
  "pinv xp \<longleftrightarrow> cinv (fst xp) \<and> (snd xp = PFault \<longrightarrow> c_remover (fst xp) = UGone)"

lemma gone_stays: "cstep signals x y \<Longrightarrow> c_remover x = UGone \<Longrightarrow> c_remover y = UGone"
  by (erule cstepE) (auto simp: read_step_def remove_step_def push_step_def touch_def split: if_splits rpc.splits)

lemma pinv_step: "pstep signals xp yp \<Longrightarrow> pinv xp \<Longrightarrow> pinv yp"
proof (induction rule: pstep.induct)
  case (Others x y p)
  then show ?case using cinv_step gone_stays by (auto simp: pinv_def)
next
  case (Poll xp yp)
  then show ?case
    using touch_alive [of "fst xp"] by (auto simp: poll_step_def pinv_def cinv_def split: prod.splits if_splits ppc.splits)
qed

lemma pinv_reachable: "(pstep signals)\<^sup>*\<^sup>* (bound_dev, PIdle) yp \<Longrightarrow> pinv yp"
  by (induction rule: rtranclp_induct) (simp_all add: pinv_def cinv_start pinv_step [unfolded pinv_def])

section \<open>Schedules\<close>

text \<open>A schedule picks the thread of every step; replaying it yields a run of the step relation.\<close>

datatype move = DoRead bool nat bool | DoRemove | DoSignal

fun move_step :: "move \<Rightarrow> csys \<Rightarrow> csys option" where
  "move_step (DoRead nb n mem) x = read_step nb n mem x"
| "move_step DoRemove x = remove_step x"
| "move_step DoSignal x = Some (x\<lparr>c_sig := True\<rparr>)"

fun replay :: "move list \<Rightarrow> csys \<Rightarrow> csys option" where
  "replay [] x = Some x"
| "replay (m # ms) x = Option.bind (move_step m x) (replay ms)"

lemma move_cstep:
  "move_step m x = Some y \<Longrightarrow> m = DoSignal \<longrightarrow> signals \<Longrightarrow> cstep signals x y"
  by (cases m) (auto intro: cstep.intros)

lemma replay_run:
  "replay ms x = Some y \<Longrightarrow> DoSignal \<in> set ms \<longrightarrow> signals \<Longrightarrow> (cstep signals)\<^sup>*\<^sup>* x y"
proof (induction ms arbitrary: x)
  case Nil
  then show ?case by simp
next
  case (Cons m ms)
  then obtain z where "move_step m x = Some z" "replay ms z = Some y" by (auto simp: bind_eq_Some_conv)
  then show ?case
    using Cons move_cstep [of m x z signals] by (auto intro: converse_rtranclp_into_rtranclp)
qed

lemmas replay_simps = read_step_def remove_step_def bound_dev_def touch_def

text \<open>The reader sleeps on an empty queue holding the mutex the removal wants.\<close>

definition stuck_state :: csys where
  "stuck_state = bound_dev\<lparr>c_owner := Some Reader, c_reader := RSleep, c_irq := False, c_remover := ULock\<rparr>"

lemma stuck_reachable: "(cstep signals)\<^sup>*\<^sup>* bound_dev stuck_state"
  by (rule replay_run [where ms = "replicate 3 (DoRead False 4096 True) @ replicate 2 DoRemove"])
     (simp_all add: replay_simps stuck_state_def numeral_eq_Suc)

lemma stuck_no_step: "\<not> cstep False stuck_state z"
  by (simp add: cstep_no_signal stuck_state_def touch_def bound_dev_def read_step_def remove_step_def)

lemma signal_frees: "\<exists>z. (cstep True)\<^sup>*\<^sup>* stuck_state z \<and> c_remover z = UReturned"
proof (intro exI conjI)
  let ?z = "bound_dev\<lparr>c_irq := False, c_inited := False, c_buf := False, c_remover := UReturned\<rparr>"
  show "(cstep True)\<^sup>*\<^sup>* stuck_state ?z"
    by (rule replay_run [where ms = "DoSignal # replicate 2 (DoRead False 4096 True) @ replicate 4 DoRemove"])
       (simp_all add: replay_simps stuck_state_def numeral_eq_Suc)
qed simp

section \<open>Properties\<close>

text \<open>C21: In every state a reader, a poller, the interrupt thread and the removal can reach together, in any
  interleaving and with any signals: a section of the read that holds \<open>rxq_mutex\<close> excludes the
  teardown; no call of a \<open>kfifo\<close> function, by whichever thread, was ever made on a queue whose memory had been freed; and neither reader nor poller has
  followed a pointer to the freed device as long as the removal has not finished. For the reader this rests on the mutex and the check of
  \<open>rxq_inited\<close> after taking it, for the poller on the check inside the spin-locked section, for the interrupt thread on the order of
  the removal.\<close>

theorem queue_guarded:
  assumes "(pstep signals)\<^sup>*\<^sup>* (bound_dev, PIdle) (y, p)"
  shows "\<not> (in_read (c_reader y) \<and> in_teardown (c_remover y)) \<and> \<not> c_bad y \<and>
    (c_remover y \<noteq> UGone \<longrightarrow> c_reader y \<noteq> RFault \<and> p \<noteq> PFault)"
  using pinv_reachable [OF assms] by (auto simp: pinv_def cinv_def owner_ok_def)

definition torn_down :: csys where
  "torn_down = bound_dev\<lparr>c_irq := False, c_inited := False, c_buf := False, c_owner := Some Remover, c_remover := UUnlock\<rparr>"

text \<open>The poller looks at \<open>rxq_inited\<close>, the queue is torn down, and the poller goes on.\<close>

theorem queue_guarded_witness:
  "(pstep False)\<^sup>*\<^sup>* (bound_dev, PIdle) (torn_down, PQueue) \<and> (pstep False)\<^sup>*\<^sup>* (bound_dev, PIdle) (torn_down, PIdle) \<and>
   \<not> c_bad torn_down \<and> \<not> in_read (c_reader torn_down)"
proof -
  have others: "(pstep False)\<^sup>*\<^sup>* (x, PQueue) (y, PQueue)" if "(cstep False)\<^sup>*\<^sup>* x y" for x y
    using that by (induction rule: rtranclp_induct) (auto intro: pstep.Others rtranclp.rtrancl_into_rtrancl)
  have "pstep False (bound_dev, PIdle) (bound_dev, PQueue)" by (rule pstep.Poll) (simp add: poll_step_def bound_dev_def)
  moreover have "(cstep False)\<^sup>*\<^sup>* bound_dev torn_down"
    by (rule replay_run [where ms = "replicate 5 DoRemove"]) (simp_all add: replay_simps torn_down_def numeral_eq_Suc)
  ultimately have one: "(pstep False)\<^sup>*\<^sup>* (bound_dev, PIdle) (torn_down, PQueue)"
    using others by (meson converse_rtranclp_into_rtranclp)
  have "pstep False (torn_down, PQueue) (torn_down, PIdle)" by (rule pstep.Poll) (simp add: poll_step_def torn_down_def bound_dev_def)
  then have two: "(pstep False)\<^sup>*\<^sup>* (bound_dev, PIdle) (torn_down, PIdle)" using one by (rule rtranclp.rtrancl_into_rtrancl [rotated])
  show ?thesis using queue_guarded [OF two] one two by (simp add: torn_down_def)
qed

text \<open>C22: The removal can deadlock with a blocking read. A reader that waits on the empty queue keeps
  \<open>rxq_mutex\<close>; the removal, which has already silenced the interrupt, waits for that mutex before
  it clears \<open>rxq_inited\<close> and wakes the reader. In the state they reach no thread can take a step;
  only a signal to the reading process gets the removal going again.\<close>

theorem remove_deadlocks_with_blocked_reader:
  "(cstep False)\<^sup>*\<^sup>* bound_dev stuck_state \<and> c_remover stuck_state = ULock \<and>
   (\<forall>z. \<not> cstep False stuck_state z) \<and>
   (\<exists>z. (cstep True)\<^sup>*\<^sup>* stuck_state z \<and> c_remover z = UReturned)"
  using stuck_reachable stuck_no_step signal_frees by (simp add: stuck_state_def)

text \<open>An open file outlives the device. The device structure is freed when the driver is unbound,
  the file keeps pointing to it, and a read on that file after the removal follows the freed pointer.\<close>

theorem read_after_remove_faults:
  "\<exists>y. (cstep False)\<^sup>*\<^sup>* bound_dev y \<and> c_reader y = RFault"
proof (intro exI conjI)
  let ?z = "bound_dev\<lparr>c_irq := False, c_inited := False, c_buf := False, c_gdev := False,
      c_remover := UGone, c_reader := RFault\<rparr>"
  show "(cstep False)\<^sup>*\<^sup>* bound_dev ?z"
    by (rule replay_run [where ms = "replicate 7 DoRemove @ [DoRead False 4096 True]"])
       (simp_all add: replay_simps numeral_eq_Suc)
qed simp

end
