(* ===== verification/User_Sys.thy ===== *)
theory User_Sys
  imports Gxfp_Prelude
begin

unbundle bit_operations_syntax

text \<open>
  The ground of the userspace library: the operating system as its code sees it, and the helpers of
  \<open>userspace/src/algo/common.c\<close>.

  As in the kernel theories, what the code does to the world is an event in a history (newest
  first), and what the world answers is an oracle of \<open>uenv\<close> that may depend on that history. A
  system call that fails answers \<open>Inl e\<close> with the value of \<open>errno\<close>. A function of the library is a
  function of its arguments and the history that returns its result and the next history.
\<close>

section \<open>The operating system\<close>

datatype uevent =
    UOpen string int
  | UClose int
  | UGetfl int
  | USetfl int int
  | UPoll int int
  | URead int nat
  | UWrite int bytes
  | UIoctl int u32
  | UClock
  | URealtime
  | UMalloc nat
  | URealloc nat
  | UFree
  | UFopen string
  | UFread
  | UFclose
  | UFcreate string
  | UFwrite string bytes
  | UFflush string bool
  | UTls string

type_synonym uhist = "uevent list"

record uenv =
  sys_open :: "uhist \<Rightarrow> string \<Rightarrow> int \<Rightarrow> int + int"
  sys_getfl :: "uhist \<Rightarrow> int \<Rightarrow> int + int"
  sys_setfl :: "uhist \<Rightarrow> int \<Rightarrow> int \<Rightarrow> int"
  sys_poll :: "uhist \<Rightarrow> int \<Rightarrow> int \<Rightarrow> int + nat \<times> int"
  sys_read :: "uhist \<Rightarrow> int \<Rightarrow> nat \<Rightarrow> int + bytes"
  sys_write :: "uhist \<Rightarrow> int \<Rightarrow> bytes \<Rightarrow> int + nat"
  sys_ioctl :: "uhist \<Rightarrow> int \<Rightarrow> u32 \<Rightarrow> int"
  sys_clock :: "uhist \<Rightarrow> int \<times> int"
  sys_realtime :: "uhist \<Rightarrow> int \<times> int"
  sys_malloc :: "uhist \<Rightarrow> nat \<Rightarrow> bool"
  sys_garbage :: "uhist \<Rightarrow> nat \<Rightarrow> u8"
  sys_fopen :: "uhist \<Rightarrow> string \<Rightarrow> int"
  sys_fread :: "uhist \<Rightarrow> bytes"
  sys_ferror :: "uhist \<Rightarrow> bool"
  sys_fcreate :: "uhist \<Rightarrow> string \<Rightarrow> int"
  sys_fwrite :: "uhist \<Rightarrow> bytes \<Rightarrow> nat"
  sys_fflush :: "uhist \<Rightarrow> string \<Rightarrow> bool"

text \<open>Fresh memory.\<close>

definition ufresh :: "uenv \<Rightarrow> uhist \<Rightarrow> nat \<Rightarrow> bytes" where
  "ufresh env h n = map (sys_garbage env h) [0..<n]"

definition malloc :: "uenv \<Rightarrow> nat \<Rightarrow> uhist \<Rightarrow> ptr \<times> uhist" where
  "malloc env n h = (if sys_malloc env h n then (Some (ufresh env h n), UMalloc n # h) else (None, h))"

text \<open>\<open>realloc\<close>: the block keeps its bytes and grows by fresh ones; on failure it stays.\<close>

definition realloc :: "uenv \<Rightarrow> bytes \<Rightarrow> nat \<Rightarrow> uhist \<Rightarrow> ptr \<times> uhist" where
  "realloc env b n h =
    (if sys_malloc env h n
     then (Some (take n (b @ drop (length b) (ufresh env h n))), URealloc n # h)
     else (None, h))"

definition ufree :: "uhist \<Rightarrow> uhist" where
  "ufree h = UFree # h"

text \<open>Blocks allocated and not yet freed.\<close>

fun ulive :: "uhist \<Rightarrow> int" where
  "ulive [] = 0"
| "ulive (UMalloc n # h) = ulive h + 1"
| "ulive (UFree # h) = ulive h - 1"
| "ulive (_ # h) = ulive h"

lemma length_ufresh [simp]: "length (ufresh env h n) = n"
  by (simp add: ufresh_def)

lemma ulive_ufree [simp]: "ulive (ufree h) = ulive h - 1"
  by (simp add: ufree_def)

lemma malloc_cases:
  obtains (null) "malloc env n h = (None, h)"
  | (block) b where "malloc env n h = (Some b, UMalloc n # h)" "length b = n"
  by (cases "sys_malloc env h n") (simp_all add: malloc_def)

section \<open>Helpers (\<open>common.c\<close>)\<close>

definition gxfp_le16 :: "bytes \<Rightarrow> u16" where
  "gxfp_le16 p = ucast (p ! 0) OR push_bit 8 (ucast (p ! 1))"

definition gxfp_le32 :: "bytes \<Rightarrow> u32" where
  "gxfp_le32 p = ucast (p ! 0) OR push_bit 8 (ucast (p ! 1)) OR
                 push_bit 16 (ucast (p ! 2)) OR push_bit 24 (ucast (p ! 3))"

text \<open>The four bytes \<open>gxfp_le32enc\<close> stores.\<close>

definition gxfp_le32enc :: "u32 \<Rightarrow> bytes" where
  "gxfp_le32enc v = [ucast (v AND 0xff), ucast (drop_bit 8 v AND 0xff),
                     ucast (drop_bit 16 v AND 0xff), ucast (drop_bit 24 v AND 0xff)]"

definition gxfp_monotonic_ms :: "uenv \<Rightarrow> uhist \<Rightarrow> int \<times> uhist" where
  "gxfp_monotonic_ms env h =
    (let (sec, nsec) = sys_clock env h in (sec * 1000 + nsec div 1000000, UClock # h))"

text \<open>The doubling of the buffer: \<open>Some None\<close> when it would pass the limit.\<close>

partial_function (option) grow_cap :: "nat \<Rightarrow> nat \<Rightarrow> nat option option" where
  "grow_cap new_cap need =
    (if new_cap < need then
       if new_cap > 64 * 1024 * 1024 then Some None else grow_cap (new_cap * 2) need
     else Some (Some new_cap))"

text \<open>\<open>fread\<close> into the 1024 byte chunk.\<close>

definition fread_chunk :: "uenv \<Rightarrow> uhist \<Rightarrow> bytes \<times> uhist" where
  "fread_chunk env h = (take 1024 (sys_fread env h), UFread # h)"

text \<open>The read loop: \<open>Inl\<close> when the function returns an error (block and file are released), \<open>Inr\<close>
  with the buffer and the length at the end of the file.\<close>

partial_function (option) read_file_loop ::
  "uenv \<Rightarrow> bytes \<Rightarrow> nat \<Rightarrow> nat \<Rightarrow> uhist \<Rightarrow> ((int + bytes \<times> nat) \<times> uhist) option" where
  "read_file_loop env buf cap len h =
    (case fread_chunk env h of
       (tmp, h) \<Rightarrow>
         if tmp = [] then Some (Inr (buf, len), h)
         else if len + length tmp > cap then
           (case grow_cap cap (len + length tmp) of
              None \<Rightarrow> None
            | Some None \<Rightarrow> Some (Inl (- EOVERFLOW), UFclose # ufree h)
            | Some (Some new_cap) \<Rightarrow>
                (case realloc env buf new_cap h of
                   (None, h) \<Rightarrow> Some (Inl (- ENOMEM), UFclose # ufree h)
                 | (Some p, h) \<Rightarrow>
                     read_file_loop env (memcpy_at p len tmp) new_cap (len + length tmp) h))
         else read_file_loop env (memcpy_at buf len tmp) cap (len + length tmp) h)"

definition gxfp_read_file_all ::
  "uenv \<Rightarrow> string option \<Rightarrow> uhist \<Rightarrow> ((int \<times> (bytes \<times> nat) option) \<times> uhist) option" where
  "gxfp_read_file_all env path h =
    (case path of
       None \<Rightarrow> Some ((- EINVAL, None), h)
     | Some pth \<Rightarrow>
         let e = sys_fopen env h pth
         in if e \<noteq> 0 then Some ((- e, None), h)
            else
              (case malloc env 4096 (UFopen pth # h) of
                 (None, h) \<Rightarrow> Some ((- ENOMEM, None), UFclose # h)
               | (Some buf, h) \<Rightarrow>
                   (case read_file_loop env buf 4096 0 h of
                      None \<Rightarrow> None
                    | Some (Inl rc, h) \<Rightarrow> Some ((rc, None), h)
                    | Some (Inr (buf, len), h) \<Rightarrow>
                        if sys_ferror env h then Some ((- EIO, None), UFclose # ufree h)
                        else Some ((0, Some (buf, len)), UFclose # h))))"

text \<open>\<open>blob\<close> and \<open>len\<close> are the two in-out parameters; the block holds exactly \<open>*len\<close> bytes.
  The mask \<open>~3u\<close> has 32 bits, so it also clears the upper half of a \<open>size_t\<close>.\<close>

definition gxfp_align_blob ::
  "uenv \<Rightarrow> ptr option \<Rightarrow> nat option \<Rightarrow> uhist \<Rightarrow> (int \<times> ptr option \<times> nat option) \<times> uhist" where
  "gxfp_align_blob env blob len h =
    (case (blob, len) of
       (Some (Some b), Some n) \<Rightarrow>
         if n = 0 then ((- EINVAL, blob, len), h)
         else
           let len_aligned = (n + 3) mod 2 ^ 32 div 4 * 4
           in if len_aligned = n then ((0, blob, len), h)
              else if len_aligned > 0xFFFF then ((- EMSGSIZE, blob, len), h)
              else
                (case realloc env b len_aligned h of
                   (None, h) \<Rightarrow> ((- ENOMEM, blob, len), h)
                 | (Some nb, h) \<Rightarrow>
                     ((0, Some (Some (memcpy_at nb n (zeros (len_aligned - n)))), Some len_aligned), h))
     | _ \<Rightarrow> ((- EINVAL, blob, len), h))"

section \<open>Lemmas\<close>

lemma gxfp_le32_eq: "gxfp_le32 p = le32 p"
  by (simp add: gxfp_le32_def le32_def)

lemma gxfp_le32enc_eq: "gxfp_le32enc v = le32enc v"
  by (simp add: gxfp_le32enc_def le32enc_def)

lemma gxfp_le16_eq: "gxfp_le16 p = le16 (p ! 0) (p ! 1)"
  by (simp add: gxfp_le16_def le16_def)

lemma length_gxfp_le32enc [simp]: "length (gxfp_le32enc v) = 4"
  by (simp add: gxfp_le32enc_def)

lemma gxfp_le32_le32enc [simp]: "gxfp_le32 (gxfp_le32enc v @ r) = v"
  by (simp add: gxfp_le32_eq gxfp_le32enc_eq)

text \<open>Doubling from a positive capacity ends, in the needed capacity or at the limit.\<close>

lemma grow_cap_returns:
  "0 < c \<Longrightarrow> c \<le> 2 ^ 27 \<Longrightarrow>
     grow_cap c n = Some None \<or> (\<exists>c'. grow_cap c n = Some (Some c') \<and> n \<le> c' \<and> c \<le> c' \<and> c' \<le> 2 ^ 27)"
proof (induction "n - c" arbitrary: c rule: less_induct)
  case less
  show ?case
  proof (cases "c < n \<and> c \<le> 64 * 1024 * 1024")
    case True
    have "n - c * 2 < n - c" using True less.prems by linarith
    moreover have "c * 2 \<le> 2 ^ 27" using True by simp
    ultimately have "grow_cap (c * 2) n = Some None \<or>
        (\<exists>c'. grow_cap (c * 2) n = Some (Some c') \<and> n \<le> c' \<and> c * 2 \<le> c' \<and> c' \<le> 2 ^ 27)"
      using less by simp
    then show ?thesis using True by (auto simp: grow_cap.simps [of c n])
  next
    case False
    then show ?thesis using less.prems by (auto simp: grow_cap.simps [of c n])
  qed
qed

lemma fread_chunk_sel: "fread_chunk env h = (tmp, h') \<Longrightarrow> length tmp \<le> 1024 \<and> h' = UFread # h"
  by (auto simp: fread_chunk_def)

lemma length_realloc: "realloc env b n h = (Some p, h') \<Longrightarrow> length b \<le> n \<Longrightarrow> length p = n \<and> take (length b) p = b"
  by (auto simp: realloc_def split: if_splits)

text \<open>One round of the loop: it ends, or goes on with a longer prefix in a buffer that holds it.\<close>

lemma read_file_step:
  assumes "len \<le> cap" "0 < cap" "cap \<le> 2 ^ 27" "length buf = cap"
    and "fread_chunk env h = (tmp, h1)" "tmp \<noteq> []"
  obtains (stop) e h' where "read_file_loop env buf cap len h = Some (Inl e, h')" "e < 0" "ulive h' = ulive h - 1"
  | (go) buf' cap' h' where
      "read_file_loop env buf cap len h = read_file_loop env buf' cap' (len + length tmp) h'"
      "len + length tmp \<le> cap'" "cap' \<le> 2 ^ 27" "length buf' = cap'" "0 < cap'"
      "take (len + length tmp) buf' = take len buf @ tmp"
      "h' = h1 \<or> h' = URealloc cap' # h1"
proof -
  have h1: "h1 = UFread # h" using fread_chunk_sel [OF assms(5)] by simp
  have realloc_live: "ulive h2 = ulive h1" if "realloc env b c h1 = (p, h2)" for b c p h2
    using that by (auto simp: realloc_def split: if_splits)
  show thesis
proof (cases "len + length tmp > cap")
  case False
  have "read_file_loop env buf cap len h =
      read_file_loop env (memcpy_at buf len tmp) cap (len + length tmp) h1"
    using False assms(5,6) by (simp add: read_file_loop.simps [of env buf])
  then show ?thesis
    using False assms by (intro go [of "memcpy_at buf len tmp" cap h1]) (simp_all add: take_memcpy_at_end)
next
  case True
  consider (over) "grow_cap cap (len + length tmp) = Some None"
    | (ok) c where "grow_cap cap (len + length tmp) = Some (Some c)" "len + length tmp \<le> c" "cap \<le> c" "c \<le> 2 ^ 27"
    using grow_cap_returns [OF assms(2,3)] by blast
  then show ?thesis
  proof cases
    case over
    then show ?thesis
      using True assms(5,6)
      by (intro stop [of "- EOVERFLOW" "UFclose # ufree h1"]) (simp_all add: read_file_loop.simps [of env buf] h1)
  next
    case ok
    show ?thesis
    proof (cases "realloc env buf c h1")
      case (Pair p h2)
      show ?thesis
      proof (cases p)
        case None
        then show ?thesis
          using True ok(1) assms(5,6) Pair
          by (intro stop [of "- ENOMEM" "UFclose # ufree h2"])
             (simp_all add: read_file_loop.simps [of env buf] realloc_live [OF Pair], simp add: h1)
      next
        case (Some b)
        have b: "length b = c" "take cap b = buf"
          using length_realloc [of env buf c h1 b h2] Pair Some assms(4) ok(3) by simp_all
        have h2: "h2 = URealloc c # h1" using Pair Some by (simp add: realloc_def split: if_splits)
        have "take len b = take len buf" using b(2) assms(1) by (metis min.absorb1 take_take)
        moreover have "read_file_loop env buf cap len h =
            read_file_loop env (memcpy_at b len tmp) c (len + length tmp) h2"
          using True ok(1) assms(5,6) Pair Some by (simp add: read_file_loop.simps [of env buf])
        ultimately show ?thesis
          using ok b(1) h2 assms(1,2) by (intro go [of "memcpy_at b len tmp" c h2]) (simp_all add: take_memcpy_at_end)
      qed
    qed
  qed
qed
qed

lemma read_file_loop_returns:
  "len \<le> cap \<Longrightarrow> 0 < cap \<Longrightarrow> cap \<le> 2 ^ 27 \<Longrightarrow> length buf = cap \<Longrightarrow>
     \<exists>x h'. read_file_loop env buf cap len h = Some (x, h') \<and>
       (case x of Inl e \<Rightarrow> e < 0 \<and> ulive h' = ulive h - 1 | Inr (b, n) \<Rightarrow> ulive h' = ulive h \<and> n \<le> length b)"
proof (induction "2 ^ 27 - len" arbitrary: buf cap len h rule: less_induct)
  case less
  obtain tmp h1 where c: "fread_chunk env h = (tmp, h1)" by (metis surj_pair)
  show ?case
  proof (cases "tmp = []")
    case True
    then show ?thesis using c fread_chunk_sel [OF c] less.prems by (simp add: read_file_loop.simps [of env buf])
  next
    case False
    from less.prems c False show ?thesis
    proof (cases rule: read_file_step)
      case (stop e h')
      then show ?thesis by simp
    next
      case (go buf' cap' h')
      have "2 ^ 27 - (len + length tmp) < 2 ^ 27 - len" using False go(2,3) by (cases tmp) auto
      then obtain x h2 where "read_file_loop env buf' cap' (len + length tmp) h' = Some (x, h2)"
        "case x of Inl e \<Rightarrow> e < 0 \<and> ulive h2 = ulive h' - 1 | Inr (b, n) \<Rightarrow> ulive h2 = ulive h' \<and> n \<le> length b"
        using less(1) [of "len + length tmp" cap' buf' h'] go by blast
      moreover have "ulive h' = ulive h" using go(7) fread_chunk_sel [OF c] by auto
      ultimately show ?thesis using go(1) by (cases x) (auto split: prod.splits)
    qed
  qed
qed

text \<open>Reading a file returns a block that holds what was read, or an error and no block.\<close>

lemma read_file_returns:
  obtains rc out h' where "gxfp_read_file_all env (Some path) h = Some ((rc, out), h')"
    "ulive h' = ulive h + (if out = None then 0 else 1)" "case out of None \<Rightarrow> rc < 0 \<or> sys_fopen env h path < 0 | Some (b, n) \<Rightarrow> rc = 0 \<and> n \<le> length b"
proof (cases "sys_fopen env h path = 0")
  case False
  then show thesis using that [of "- sys_fopen env h path" None h] by (simp add: gxfp_read_file_all_def) linarith
next
  case open_ok: True
  show thesis
  proof (cases env "4096 :: nat" "UFopen path # h" rule: malloc_cases)
    case null
    then show thesis using that [of "- ENOMEM" None "UFclose # UFopen path # h"] open_ok by (simp add: gxfp_read_file_all_def)
  next
    case (block b)
    let ?h = "UMalloc 4096 # UFopen path # h"
    obtain x h' where r: "read_file_loop env b 4096 0 ?h = Some (x, h')"
      "case x of Inl e \<Rightarrow> e < 0 \<and> ulive h' = ulive ?h - 1 | Inr (b, n) \<Rightarrow> ulive h' = ulive ?h \<and> n \<le> length b"
      using read_file_loop_returns [of 0 4096 b env ?h] block(2) by auto
    have "\<exists>rc out h'. gxfp_read_file_all env (Some path) h = Some ((rc, out), h') \<and> ulive h' = ulive h + (if out = None then 0 else 1) \<and>
        (case out of None \<Rightarrow> rc < 0 | Some (b, n) \<Rightarrow> rc = 0 \<and> n \<le> length b)"
      using open_ok block r by (cases x) (auto simp: gxfp_read_file_all_def)
    then show thesis using that by (auto split: option.splits)
  qed
qed

text \<open>The stream that hands out a file in order.\<close>

fun freads :: "uhist \<Rightarrow> nat" where
  "freads [] = 0"
| "freads (UFread # h) = Suc (freads h)"
| "freads (_ # h) = freads h"

definition serves_file :: "uenv \<Rightarrow> uhist \<Rightarrow> bytes \<Rightarrow> bool" where
  "serves_file env h0 file \<longleftrightarrow>
     (\<forall>h. freads h0 \<le> freads h \<longrightarrow> sys_fread env h = drop (1024 * (freads h - freads h0)) file)"

lemma read_file_loop_content:
  "len \<le> cap \<Longrightarrow> 0 < cap \<Longrightarrow> cap \<le> 2 ^ 27 \<Longrightarrow> length buf = cap \<Longrightarrow> serves_file env h0 file \<Longrightarrow>
   freads h = freads h0 + k \<Longrightarrow> len = min (1024 * k) (length file) \<Longrightarrow> take len buf = take len file \<Longrightarrow>
   read_file_loop env buf cap len h = Some (Inr (b, n), h') \<Longrightarrow> n = length file \<and> take n b = file"
proof (induction "2 ^ 27 - len" arbitrary: buf cap len h k rule: less_induct)
  case less
  obtain tmp h1 where c: "fread_chunk env h = (tmp, h1)" by (metis surj_pair)
  have tmp: "tmp = take 1024 (drop (1024 * k) file)"
    using c less.prems(5,6) by (auto simp: fread_chunk_def serves_file_def)
  show ?case
  proof (cases "tmp = []")
    case True
    then have "len = length file" using less.prems(7) tmp by auto
    then show ?thesis using True c less.prems(8,9) by (simp add: read_file_loop.simps [of env buf])
  next
    case False
    then have k: "1024 * k < length file" using tmp by auto
    from less.prems(1-4) c False show ?thesis
    proof (cases rule: read_file_step)
      case (stop e h')
      then show ?thesis using less.prems(9) by simp
    next
      case (go buf' cap' h'')
      have "2 ^ 27 - (len + length tmp) < 2 ^ 27 - len" using False go(2,3) by (cases tmp) auto
      moreover have "freads h'' = freads h0 + Suc k"
        using go(7) fread_chunk_sel [OF c] less.prems(6) by auto
      moreover have "len + length tmp = min (1024 * Suc k) (length file)"
        using less.prems(7) k tmp by simp
      moreover have "take (len + length tmp) buf' = take (len + length tmp) file"
      proof -
        have "len = 1024 * k" using less.prems(7) k by simp
        moreover have "take (length tmp) (drop (1024 * k) file) = tmp"
          unfolding tmp by (metis append_eq_conv_conj append_take_drop_id)
        ultimately show ?thesis using go(6) less.prems(8) by (simp add: take_add [of "1024 * k"])
      qed
      moreover have "read_file_loop env buf' cap' (len + length tmp) h'' = Some (Inr (b, n), h')"
        using go(1) less.prems(9) by simp
      ultimately show ?thesis using less(1) [of "len + length tmp" cap' buf' h'' "Suc k"] go(2-5) less.prems(5) by blast
    qed
  qed
qed

section \<open>Properties\<close>

text \<open>\<open>gxfp_read_file_all\<close> always returns, whatever the stream delivers (also a stream that never
  ends: the doubling stops at 128 MiB). When it reports success on a stream that serves a file, it
  returns exactly the contents of the file; in every other case it has released its buffer.\<close>

theorem read_file_all_total:
  assumes "serves_file env h file"
  shows "\<exists>rc out h'. gxfp_read_file_all env (Some path) h = Some ((rc, out), h') \<and>
    (if rc = 0 then (\<exists>b n. out = Some (b, n) \<and> n = length file \<and> take n b = file)
     else out = None \<and> ulive h' = ulive h)"
proof (cases "sys_fopen env h path = 0")
  case False
  then show ?thesis by (simp add: gxfp_read_file_all_def)
next
  case open_ok: True
  show ?thesis
  proof (cases env "4096 :: nat" "UFopen path # h" rule: malloc_cases)
    case null
    then show ?thesis using open_ok by (simp add: gxfp_read_file_all_def)
  next
    case (block b)
    let ?h = "UMalloc 4096 # UFopen path # h"
    obtain x h' where r: "read_file_loop env b 4096 0 ?h = Some (x, h')"
      "case x of Inl e \<Rightarrow> e < 0 \<and> ulive h' = ulive ?h - 1 | Inr (b, n) \<Rightarrow> ulive h' = ulive ?h \<and> n \<le> length b"
      using read_file_loop_returns [of 0 4096 b env ?h] block(2) by auto
    show ?thesis
    proof (cases x)
      case (Inl e)
      then show ?thesis using open_ok block(1) r by (simp add: gxfp_read_file_all_def)
    next
      case (Inr y)
      obtain c n where y: "y = (c, n)" by (metis surj_pair)
      have c: "n = length file \<and> take n c = file"
        by (rule read_file_loop_content [where h = ?h and k = 0 and len = 0 and buf = b and cap = 4096 and ?h0.0 = h])
           (use r(1) Inr y block(2) assms in simp_all)
      show ?thesis
        using conjunct1 [OF c] conjunct2 [OF c] open_ok block(1) r Inr y by (simp add: gxfp_read_file_all_def)
    qed
  qed
qed

definition sim_uenv :: uenv where
  "sim_uenv = \<lparr>sys_open = (\<lambda>h p f. Inr 3), sys_getfl = (\<lambda>h fd. Inr 2), sys_setfl = (\<lambda>h fd f. 0),
     sys_poll = (\<lambda>h fd t. Inr (0, 0)), sys_read = (\<lambda>h fd n. Inl EAGAIN), sys_write = (\<lambda>h fd b. Inr (length b)),
     sys_ioctl = (\<lambda>h fd c. 0), sys_clock = (\<lambda>h. (int (length h), 0)), sys_realtime = (\<lambda>h. (61, 5000000)),
     sys_malloc = (\<lambda>h n. True), sys_garbage = (\<lambda>h i. 0x5a), sys_fopen = (\<lambda>h p. 0),
     sys_fread = (\<lambda>h. drop (1024 * freads h) [1, 2, 3]), sys_ferror = (\<lambda>h. False),
     sys_fcreate = (\<lambda>h p. 0), sys_fwrite = (\<lambda>h b. length b), sys_fflush = (\<lambda>h p. True)\<rparr>"

theorem read_file_all_total_witness:
  "\<exists>rc out h'. gxfp_read_file_all sim_uenv (Some ''psk.bin'') [] = Some ((rc, out), h') \<and>
    (if rc = 0 then (\<exists>b n. out = Some (b, n) \<and> n = length [1, 2, 3 :: u8] \<and> take n b = [1, 2, 3])
     else out = None \<and> ulive h' = ulive [])"
proof -
  have "serves_file sim_uenv [] [1, 2, 3]" by (simp add: serves_file_def sim_uenv_def)
  then show ?thesis by (rule read_file_all_total)
qed

end
