(* ===== verification/Sensor_Cfg.thy ===== *)
theory Sensor_Cfg
  imports User_Sys
begin

unbundle bit_operations_syntax

text \<open>
  The sensor configuration (\<open>userspace/src/algo/sensor_cfg.c\<close>): the OTP calibration record, the
  configuration template, and the patching of registers in a configuration blob with its checksum.
  A blob is the list of its bytes. The theory shows that patching always returns, changes nothing but
  the register and the checksum, and leaves a blob whose checksum holds; and that the template
  accepts every calibration the OTP record can carry.
\<close>

section \<open>Definitions\<close>

definition GXFP_MILANL_CFG_LEN :: nat where "GXFP_MILANL_CFG_LEN = 0xE0"
definition GXFP_MILANL_OTP_IDX_TCODE :: nat where "GXFP_MILANL_OTP_IDX_TCODE = 0x16"
definition GXFP_MILANL_OTP_IDX_TCODE_NEG :: nat where "GXFP_MILANL_OTP_IDX_TCODE_NEG = 0x17"
definition GXFP_MILANL_OTP_IDX_DAC :: nat where "GXFP_MILANL_OTP_IDX_DAC = 0x1f"
definition GXFP_MILANL_DEFAULT_TCODE :: u16 where "GXFP_MILANL_DEFAULT_TCODE = 0x80"
definition GXFP_MILANL_DEFAULT_FDT_DELTA :: u16 where "GXFP_MILANL_DEFAULT_FDT_DELTA = 0x15"
definition GXFP_CFG_CHECKSUM_WORDS :: nat where "GXFP_CFG_CHECKSUM_WORDS = 0x6f"
definition GXFP_CFG_CHECKSUM_OFF :: nat where "GXFP_CFG_CHECKSUM_OFF = 0xde"

lemmas cfg_consts = GXFP_MILANL_CFG_LEN_def GXFP_MILANL_OTP_IDX_TCODE_def
  GXFP_MILANL_OTP_IDX_TCODE_NEG_def GXFP_MILANL_OTP_IDX_DAC_def GXFP_MILANL_DEFAULT_TCODE_def
  GXFP_MILANL_DEFAULT_FDT_DELTA_def GXFP_CFG_CHECKSUM_WORDS_def GXFP_CFG_CHECKSUM_OFF_def

record gxfp_milanl_otp_cfg =
  oc_tcode :: u16
  oc_fdt_delta :: u16
  oc_dac :: u16
  oc_has_dac :: bool
  oc_has_tcode_delta :: bool

definition otp_cfg_zero :: gxfp_milanl_otp_cfg where
  "otp_cfg_zero = \<lparr>oc_tcode = 0, oc_fdt_delta = 0, oc_dac = 0, oc_has_dac = False, oc_has_tcode_delta = False\<rparr>"

definition gxfp_le16_at :: "bytes \<Rightarrow> nat \<Rightarrow> u16" where
  "gxfp_le16_at cfg off = ucast (cfg ! off) OR push_bit 8 (ucast (cfg ! (off + 1)))"

text \<open>The \<open>int16_t\<close> arithmetic of the checksum wraps, as that of 16-bit words does.\<close>

definition gxfp_cfg_recalc_checksum :: "bytes \<Rightarrow> nat \<Rightarrow> bytes" where
  "gxfp_cfg_recalc_checksum cfg cfg_len =
    (if cfg_len < GXFP_MILANL_CFG_LEN then cfg
     else
       let sum = fold (\<lambda>i sum. sum + gxfp_le16_at cfg (i * 2)) [0..<GXFP_CFG_CHECKSUM_WORDS] (0xa5a5 :: u16);
           sum = - sum
       in cfg[GXFP_CFG_CHECKSUM_OFF := ucast (sum AND 0xff),
              GXFP_CFG_CHECKSUM_OFF + 1 := ucast (drop_bit 8 sum AND 0xff)])"

text \<open>The search loop; \<open>step\<close> is a \<open>uint8_t\<close> and wraps.\<close>

partial_function (option) patch_loop ::
  "nat \<Rightarrow> u16 \<Rightarrow> u16 \<Rightarrow> nat \<Rightarrow> u8 \<Rightarrow> u8 \<Rightarrow> u8 \<Rightarrow> bytes \<Rightarrow> (int \<times> bytes) option" where
  "patch_loop cfg_len reg val section_off section_len write_mode step cfg =
    (if step < section_len then
       let off = section_off + unat step
       in if off + 4 > cfg_len then Some (- EBADMSG, cfg)
          else if gxfp_le16_at cfg off \<noteq> reg
          then patch_loop cfg_len reg val section_off section_len write_mode (step + 4) cfg
          else
            let cfg = (if write_mode = 0 \<or> write_mode = 1 then cfg[off + 2 := ucast (val AND 0xff)] else cfg);
                cfg = (if write_mode = 0 \<or> write_mode = 2
                       then cfg[off + 3 := ucast (drop_bit 8 val AND 0xff)] else cfg)
            in Some (0, gxfp_cfg_recalc_checksum cfg cfg_len)
     else Some (- ENOENT, cfg))"

definition gxfp_cfg_patch_reg ::
  "bytes \<Rightarrow> nat \<Rightarrow> u16 \<Rightarrow> u16 \<Rightarrow> u8 \<Rightarrow> u8 \<Rightarrow> (int \<times> bytes) option" where
  "gxfp_cfg_patch_reg cfg cfg_len reg val section_idx write_mode =
    (if cfg_len \<noteq> GXFP_MILANL_CFG_LEN then Some (- EINVAL, cfg)
     else if section_idx > 7 then Some (- EINVAL, cfg)
     else
       let section_off = cfg ! (1 + unat section_idx * 2);
           section_len = cfg ! (2 + unat section_idx * 2)
       in if unat section_off + unat section_len > cfg_len then Some (- EBADMSG, cfg)
          else patch_loop cfg_len reg val (unat section_off) section_len write_mode 0 cfg)"

definition gxfp_milanl_cfg_template :: bytes where
  "gxfp_milanl_cfg_template =
    [0x30, 0x11, 0x64, 0x75, 0x00, 0x75, 0x2c, 0xa1, 0x1c, 0xbd, 0x18, 0xd5, 0x00, 0xd5, 0x00, 0xd5,
     0x00, 0xba, 0x00, 0x00, 0x80, 0xca, 0x00, 0x06, 0x00, 0x84, 0x00, 0xbe, 0xb2, 0x86, 0x00, 0xc5,
     0xb9, 0x88, 0x00, 0xb5, 0xad, 0x8a, 0x00, 0x9d, 0x95, 0x8c, 0x00, 0x00, 0xbe, 0x8e, 0x00, 0x00,
     0xc5, 0x90, 0x00, 0x00, 0xb5, 0x92, 0x00, 0x00, 0x9d, 0x94, 0x00, 0x00, 0xaf, 0x96, 0x00, 0x00,
     0xbf, 0x98, 0x00, 0x00, 0xb6, 0x9a, 0x00, 0x00, 0xa7, 0xd2, 0x00, 0x00, 0x00, 0xd4, 0x00, 0x00,
     0x00, 0xd6, 0x00, 0x00, 0x00, 0xd8, 0x00, 0x00, 0x00, 0x12, 0x00, 0x03, 0x04, 0xd0, 0x00, 0x00,
     0x00, 0x70, 0x00, 0x00, 0x00, 0x72, 0x00, 0x78, 0x56, 0x74, 0x00, 0x34, 0x12, 0x20, 0x00, 0x10,
     0x40, 0x20, 0x02, 0x08, 0x10, 0x2a, 0x01, 0x82, 0x03, 0x22, 0x00, 0x01, 0x20, 0x24, 0x00, 0x14,
     0x00, 0x80, 0x00, 0x01, 0x04, 0x5c, 0x00, 0x00, 0x01, 0x56, 0x00, 0x0c, 0x24, 0x58, 0x00, 0x05,
     0x00, 0x32, 0x00, 0x08, 0x02, 0x66, 0x00, 0x00, 0x02, 0x7c, 0x00, 0x00, 0x38, 0x82, 0x00, 0x80,
     0x15, 0x2a, 0x01, 0x08, 0x00, 0x5c, 0x00, 0x80, 0x00, 0x54, 0x00, 0x00, 0x01, 0x62, 0x00, 0x38,
     0x04, 0x64, 0x00, 0x10, 0x00, 0x66, 0x00, 0x00, 0x02, 0x7c, 0x00, 0x01, 0x38, 0x2a, 0x01, 0x08,
     0x00, 0x5c, 0x00, 0x80, 0x00, 0x52, 0x00, 0x08, 0x00, 0x54, 0x00, 0x00, 0x01, 0x66, 0x00, 0x00,
     0x02, 0x7c, 0x00, 0x01, 0x38, 0x00, 0x00, 0x00, 0x00, 0x00, 0x00, 0x00, 0x00, 0x00, 0x00, 0x00]"

definition gxfp_milanl_parse_otp ::
  "ptr \<Rightarrow> nat \<Rightarrow> gxfp_milanl_otp_cfg option \<Rightarrow> int \<times> gxfp_milanl_otp_cfg option" where
  "gxfp_milanl_parse_otp otp otp_len out =
    (case (otp, out) of
       (Some ob, Some _) \<Rightarrow>
         if otp_len \<le> GXFP_MILANL_OTP_IDX_DAC then (- EBADMSG, out)
         else
           let cfg = otp_cfg_zero\<lparr>oc_tcode := GXFP_MILANL_DEFAULT_TCODE,
                                   oc_fdt_delta := GXFP_MILANL_DEFAULT_FDT_DELTA,
                                   oc_dac := push_bit 4 (ucast (ob ! GXFP_MILANL_OTP_IDX_DAC)) OR 0x0008,
                                   oc_has_dac := True\<rparr>;
               raw_tcode = ob ! GXFP_MILANL_OTP_IDX_TCODE
           in if raw_tcode \<noteq> 0 \<and> raw_tcode + ob ! GXFP_MILANL_OTP_IDX_TCODE_NEG = 0xff then
                let tcode = (ucast (drop_bit 4 raw_tcode) + 1) * (0x10 :: u16)
                in if tcode \<noteq> 0 then
                     let fdt_delta = drop_bit 4
                           ((ucast (raw_tcode AND 0x0f) + 2) * 0x6400 div ucast tcode div (3 :: u32))
                     in (0, Some (cfg\<lparr>oc_tcode := tcode, oc_fdt_delta := ucast (fdt_delta AND 0xffff),
                                      oc_has_tcode_delta := True\<rparr>))
                   else (0, Some cfg)
              else (0, Some cfg)
     | _ \<Rightarrow> (- EINVAL, out))"

definition gxfp_milanl_prepare_cfg_blob :: "ptr \<Rightarrow> nat \<Rightarrow> ptr \<Rightarrow> nat \<Rightarrow> int \<times> ptr" where
  "gxfp_milanl_prepare_cfg_blob template_data template_len out_cfg out_cfg_cap =
    (case (template_data, out_cfg) of
       (Some t, Some c) \<Rightarrow>
         if template_len \<noteq> GXFP_MILANL_CFG_LEN then (- EINVAL, out_cfg)
         else if out_cfg_cap < template_len then (- EMSGSIZE, out_cfg)
         else (int template_len, Some (memcpy_at c 0 (take template_len t)))
     | _ \<Rightarrow> (- EINVAL, out_cfg))"

definition gxfp_milanl_apply_otp_patch ::
  "ptr \<Rightarrow> nat \<Rightarrow> gxfp_milanl_otp_cfg option \<Rightarrow> (int \<times> ptr) option" where
  "gxfp_milanl_apply_otp_patch cfg cfg_len otp_cfg =
    (case (cfg, otp_cfg) of
       (Some c, Some oc) \<Rightarrow>
         if cfg_len \<noteq> GXFP_MILANL_CFG_LEN then Some (- EINVAL, cfg)
         else
           (case gxfp_cfg_patch_reg c cfg_len 0x0220 (oc_dac oc) 0 0 of
              None \<Rightarrow> None
            | Some (r, c) \<Rightarrow>
                if r < 0 then Some (r, Some c)
                else if \<not> oc_has_tcode_delta oc then Some (0, Some c)
                else
                  (case gxfp_cfg_patch_reg c cfg_len 0x005c (oc_tcode oc) 4 0 of
                     None \<Rightarrow> None
                   | Some (r, c) \<Rightarrow>
                       if r < 0 then Some (r, Some c)
                       else
                         (case gxfp_cfg_patch_reg c cfg_len 0x0082 (push_bit 8 (oc_fdt_delta oc)) 2 2 of
                            None \<Rightarrow> None
                          | Some (r, c) \<Rightarrow> if r < 0 then Some (r, Some c) else Some (0, Some c))))
     | _ \<Rightarrow> Some (- EINVAL, cfg))"

definition gxfp_milanl_apply_default_patch :: "ptr \<Rightarrow> nat \<Rightarrow> (int \<times> ptr) option" where
  "gxfp_milanl_apply_default_patch cfg cfg_len =
    (case cfg of
       None \<Rightarrow> Some (- EINVAL, cfg)
     | Some _ \<Rightarrow>
         gxfp_milanl_apply_otp_patch cfg cfg_len
           (Some (otp_cfg_zero\<lparr>oc_tcode := GXFP_MILANL_DEFAULT_TCODE,
                               oc_fdt_delta := GXFP_MILANL_DEFAULT_FDT_DELTA, oc_dac := 0x0008,
                               oc_has_dac := True, oc_has_tcode_delta := True\<rparr>)))"

definition gxfp_milanl_get_default_cfg_template :: "int \<times> bytes \<times> nat" where
  "gxfp_milanl_get_default_cfg_template = (0, gxfp_milanl_cfg_template, length gxfp_milanl_cfg_template)"

section \<open>The checksum\<close>

text \<open>The sum of the first \<open>n\<close> words; a blob is sound when all its 112 words and the seed cancel.\<close>

definition cfg_sum :: "nat \<Rightarrow> bytes \<Rightarrow> u16" where
  "cfg_sum n cfg = sum_list (map (\<lambda>i. gxfp_le16_at cfg (i * 2)) [0..<n])"

definition cfg_sound :: "bytes \<Rightarrow> bool" where
  "cfg_sound cfg \<longleftrightarrow> 0xa5a5 + cfg_sum 0x70 cfg = 0"

lemma le16_at_le16: "gxfp_le16_at cfg off = le16 (cfg ! off) (cfg ! (off + 1))"
  by (simp add: gxfp_le16_at_def le16_def)

lemma fold_sum: "fold (\<lambda>i sum. sum + f i) xs (a :: u16) = a + sum_list (map f xs)"
  by (induction xs arbitrary: a) (simp_all add: algebra_simps)

lemma cfg_sum_Suc: "cfg_sum (Suc n) cfg = cfg_sum n cfg + gxfp_le16_at cfg (n * 2)"
  by (simp add: cfg_sum_def)

lemma cfg_sum_cong: "(\<And>i. i < 2 * n \<Longrightarrow> cfg ! i = cfg' ! i) \<Longrightarrow> cfg_sum n cfg = cfg_sum n cfg'"
  by (induction n) (simp_all add: cfg_sum_Suc gxfp_le16_at_def cfg_sum_def)

lemma recalc_eq:
  "gxfp_cfg_recalc_checksum cfg 0xE0 =
     (let s = - (0xa5a5 + cfg_sum 0x6f cfg) in cfg[0xde := lo8 s, 0xdf := hi8 s])"
  by (simp add: gxfp_cfg_recalc_checksum_def cfg_consts fold_sum cfg_sum_def lo8_def hi8_def Let_def)

lemma length_recalc [simp]: "length (gxfp_cfg_recalc_checksum cfg n) = length cfg"
  by (simp add: gxfp_cfg_recalc_checksum_def Let_def)

lemma recalc_nth: "i < 0xde \<Longrightarrow> gxfp_cfg_recalc_checksum cfg 0xE0 ! i = cfg ! i"
  by (simp add: recalc_eq Let_def)

lemma recalc_sound:
  assumes "length cfg = 0xE0"
  shows "cfg_sound (gxfp_cfg_recalc_checksum cfg 0xE0)"
proof -
  let ?c = "gxfp_cfg_recalc_checksum cfg 0xE0"
  have "cfg_sum 0x6f ?c = cfg_sum 0x6f cfg" by (rule cfg_sum_cong) (simp add: recalc_nth)
  moreover have "gxfp_le16_at ?c (0x6f * 2) = - (0xa5a5 + cfg_sum 0x6f cfg)"
    using assms by (simp add: le16_at_le16 recalc_eq Let_def)
  moreover have "cfg_sum 0x70 ?c = cfg_sum 0x6f ?c + gxfp_le16_at ?c (0x6f * 2)"
    using cfg_sum_Suc [of "0x6f" ?c] by simp
  ultimately show ?thesis by (simp add: cfg_sound_def)
qed

section \<open>Patching\<close>

text \<open>What writing a value in a mode does to the two value bytes of the entry at \<open>off\<close>.\<close>

definition put_val :: "u8 \<Rightarrow> u16 \<Rightarrow> nat \<Rightarrow> bytes \<Rightarrow> bytes" where
  "put_val mode val off cfg =
    (let cfg = (if mode = 0 \<or> mode = 1 then cfg[off + 2 := lo8 val] else cfg)
     in if mode = 0 \<or> mode = 2 then cfg[off + 3 := hi8 val] else cfg)"

lemma length_put_val [simp]: "length (put_val m v off cfg) = length cfg"
  by (simp add: put_val_def Let_def)

lemma put_val_other: "i \<noteq> off + 2 \<Longrightarrow> i \<noteq> off + 3 \<Longrightarrow> put_val m v off cfg ! i = cfg ! i"
  by (simp add: put_val_def Let_def)

text \<open>The search: the first entry of the section, in steps of four, that carries the register.\<close>

definition entry_at :: "bytes \<Rightarrow> u16 \<Rightarrow> nat \<Rightarrow> nat \<Rightarrow> nat \<Rightarrow> bool" where
  "entry_at cfg reg so sl off \<longleftrightarrow>
     (\<exists>k. 4 * k < sl \<and> off = so + 4 * k \<and> gxfp_le16_at cfg off = reg \<and>
        (\<forall>j<k. gxfp_le16_at cfg (so + 4 * j) \<noteq> reg))"

lemma step_plus_4:
  assumes "step < len" "unat (len :: u8) \<le> 224"
  shows "unat (step + 4) = unat step + 4"
proof -
  have "unat step < unat len" using assms(1) by (simp add: word_less_nat_alt)
  then show ?thesis using assms(2) by (simp add: unat_word_ariths)
qed

text \<open>The two ways to miss: the section ends, or an entry leaves the blob.\<close>

definition no_entry :: "bytes \<Rightarrow> u16 \<Rightarrow> nat \<Rightarrow> nat \<Rightarrow> nat \<Rightarrow> int \<Rightarrow> bool" where
  "no_entry cfg reg so sl n r \<longleftrightarrow>
     r = - ENOENT \<and> (\<forall>j. 4 * j < sl \<longrightarrow> gxfp_le16_at cfg (so + 4 * j) \<noteq> reg) \<or>
     r = - EBADMSG \<and> (\<exists>j. 4 * j < sl \<and> so + 4 * j + 4 > n \<and>
       (\<forall>i<j. gxfp_le16_at cfg (so + 4 * i) \<noteq> reg))"

lemma patch_loop_result:
  assumes "unat (sl :: u8) \<le> 224" and "unat step = 4 * k"
    and "\<And>j. j < k \<Longrightarrow> gxfp_le16_at cfg (so + 4 * j) \<noteq> reg"
  shows "(\<exists>off. entry_at cfg reg so (unat sl) off \<and> off + 4 \<le> n \<and>
            patch_loop n reg val so sl mode step cfg =
              Some (0, gxfp_cfg_recalc_checksum (put_val mode val off cfg) n)) \<or>
         (\<exists>r. no_entry cfg reg so (unat sl) n r \<and> patch_loop n reg val so sl mode step cfg = Some (r, cfg))"
  using assms
proof (induction "unat sl - unat step" arbitrary: step k rule: less_induct)
  case less
  show ?case
  proof (cases "step < sl")
    case False
    then have "unat sl \<le> 4 * k" using less.prems(2) by (simp add: word_less_nat_alt)
    then have "no_entry cfg reg so (unat sl) n (- ENOENT)"
      using less.prems(3) by (auto simp: no_entry_def)
    then show ?thesis using False by (simp add: patch_loop.simps)
  next
    case lt: True
    then have u: "unat step < unat sl" by (simp add: word_less_nat_alt)
    show ?thesis
    proof (cases "so + unat step + 4 > n")
      case True
      then have "no_entry cfg reg so (unat sl) n (- EBADMSG)"
        using less.prems(2,3) u unfolding no_entry_def by auto
      then show ?thesis using True lt by (simp add: patch_loop.simps [of n reg val so sl mode step])
    next
      case fits: False
      show ?thesis
      proof (cases "gxfp_le16_at cfg (so + unat step) = reg")
        case True
        have "entry_at cfg reg so (unat sl) (so + unat step)"
          using True less.prems(2,3) u unfolding entry_at_def by (intro exI [of _ k]) auto
        moreover have "patch_loop n reg val so sl mode step cfg =
            Some (0, gxfp_cfg_recalc_checksum (put_val mode val (so + unat step) cfg) n)"
          using True lt fits
          by (simp add: patch_loop.simps [of n reg val so sl mode step] put_val_def lo8_def hi8_def Let_def)
        ultimately show ?thesis using fits by auto
      next
        case False
        have s4: "unat (step + 4) = 4 * Suc k" using step_plus_4 [OF lt less.prems(1)] less.prems(2) by simp
        have "unat sl - unat (step + 4) < unat sl - unat step" using s4 less.prems(2) u by simp
        moreover have "gxfp_le16_at cfg (so + 4 * j) \<noteq> reg" if "j < Suc k" for j
          using that less.prems(2,3) False by (cases "j = k") auto
        ultimately have ih: "(\<exists>off. entry_at cfg reg so (unat sl) off \<and> off + 4 \<le> n \<and>
            patch_loop n reg val so sl mode (step + 4) cfg =
              Some (0, gxfp_cfg_recalc_checksum (put_val mode val off cfg) n)) \<or>
         (\<exists>r. no_entry cfg reg so (unat sl) n r \<and>
            patch_loop n reg val so sl mode (step + 4) cfg = Some (r, cfg))"
          using less.hyps [of "step + 4" "Suc k"] s4 less.prems(1) by blast
        have "patch_loop n reg val so sl mode step cfg = patch_loop n reg val so sl mode (step + 4) cfg"
          using lt fits False by (subst patch_loop.simps) simp
        then show ?thesis using ih by simp
      qed
    qed
  qed
qed

lemma entry_at_unique: "entry_at cfg reg so sl off \<Longrightarrow> entry_at cfg reg so sl off' \<Longrightarrow> off = off'"
  unfolding entry_at_def by (metis linorder_neqE_nat)

lemma entry_excludes_miss:
  assumes "entry_at cfg reg so sl off" "off + 4 \<le> n"
  shows "\<not> no_entry cfg reg so sl n r"
proof
  obtain k where k: "4 * k < sl" "off = so + 4 * k" "gxfp_le16_at cfg off = reg"
    using assms(1) by (auto simp: entry_at_def)
  assume "no_entry cfg reg so sl n r"
  then obtain j where "so + 4 * j + 4 > n" "\<And>i. i < j \<Longrightarrow> gxfp_le16_at cfg (so + 4 * i) \<noteq> reg"
    using k by (auto simp: no_entry_def)
  moreover have "k < j" using \<open>so + 4 * j + 4 > n\<close> assms(2) k(2) by linarith
  ultimately show False using k by blast
qed

lemma no_entry_neg: "no_entry cfg reg so sl n r \<Longrightarrow> r < 0"
  by (auto simp: no_entry_def)

lemma patch_reg_cases:
  assumes "length cfg = 0xE0" "sec \<le> 7"
  defines "so \<equiv> unat (cfg ! (1 + unat sec * 2))" and "sl \<equiv> unat (cfg ! (2 + unat sec * 2))"
  obtains (patched) off where "entry_at cfg reg so sl off" "off + 4 \<le> 0xE0"
      "gxfp_cfg_patch_reg cfg 0xE0 reg val sec mode =
         Some (0, gxfp_cfg_recalc_checksum (put_val mode val off cfg) 0xE0)"
  | (missed) r where "r < 0" "so + sl > 0xE0 \<or> no_entry cfg reg so sl 0xE0 r"
      "gxfp_cfg_patch_reg cfg 0xE0 reg val sec mode = Some (r, cfg)"
proof (cases "so + sl > 0xE0")
  case True
  then show ?thesis
    using assms(2) missed [of "- EBADMSG"]
    by (simp add: gxfp_cfg_patch_reg_def cfg_consts so_def sl_def Let_def not_less [symmetric])
next
  case False
  have run: "gxfp_cfg_patch_reg cfg 0xE0 reg val sec mode =
      patch_loop 0xE0 reg val so (cfg ! (2 + unat sec * 2)) mode 0 cfg"
    using False assms(2)
    by (simp add: gxfp_cfg_patch_reg_def cfg_consts so_def sl_def Let_def not_less [symmetric])
  have "unat (cfg ! (2 + unat sec * 2)) \<le> 224" using False by (simp add: sl_def)
  from patch_loop_result [OF this, of 0 0 cfg so reg "0xE0" val mode, folded sl_def run]
  consider (hit) off where "entry_at cfg reg so sl off" "off + 4 \<le> 0xE0"
      "gxfp_cfg_patch_reg cfg 0xE0 reg val sec mode =
         Some (0, gxfp_cfg_recalc_checksum (put_val mode val off cfg) 0xE0)"
    | (miss) r where "no_entry cfg reg so sl 0xE0 r" "gxfp_cfg_patch_reg cfg 0xE0 reg val sec mode = Some (r, cfg)"
    by auto
  then show ?thesis
  proof cases
    case hit
    then show ?thesis by (rule patched)
  next
    case miss
    then show ?thesis using missed [of r] no_entry_neg by blast
  qed
qed

lemma patch_reg_hit:
  assumes "length cfg = 0xE0" "sec \<le> 7" and so: "so = unat (cfg ! (1 + unat sec * 2))"
    and sl: "sl = unat (cfg ! (2 + unat sec * 2))" and "so + sl \<le> 0xE0"
    and "entry_at cfg reg so sl off" "off + 4 \<le> 0xE0"
  shows "gxfp_cfg_patch_reg cfg 0xE0 reg val sec mode =
    Some (0, gxfp_cfg_recalc_checksum (put_val mode val off cfg) 0xE0)"
  using assms(1,2)
proof (cases rule: patch_reg_cases [where reg = reg and val = val and mode = mode])
  case (patched off')
  then show ?thesis using entry_at_unique assms(6) so sl by metis
next
  case (missed r)
  then show ?thesis using entry_excludes_miss [OF assms(6,7)] assms(5) so sl by simp
qed

section \<open>The template\<close>

text \<open>A blob after one patch: a byte is that of the blob before, except in the entry and the checksum.\<close>

definition patched :: "u8 \<Rightarrow> u16 \<Rightarrow> nat \<Rightarrow> bytes \<Rightarrow> bytes" where
  "patched mode val off cfg = gxfp_cfg_recalc_checksum (put_val mode val off cfg) 0xE0"

lemma length_patched [simp]: "length (patched m v off cfg) = length cfg"
  by (simp add: patched_def)

lemma patched_nth:
  "i < 0xde \<Longrightarrow> i \<noteq> off + 2 \<Longrightarrow> i \<noteq> off + 3 \<Longrightarrow> patched m v off cfg ! i = cfg ! i"
  by (simp add: patched_def recalc_nth put_val_other)

lemma patched_value:
  assumes "off + 3 < 0xde" "length cfg = 0xE0"
  shows "gxfp_le16_at (patched 0 v off cfg) (off + 2) = v"
    "patched 2 v off cfg ! (off + 3) = hi8 v"
  using assms by (simp_all add: patched_def le16_at_le16 recalc_nth put_val_def Let_def numeral_3_eq_3)

lemma patched_sound: "length cfg = 0xE0 \<Longrightarrow> cfg_sound (patched m v off cfg)"
  by (simp add: patched_def recalc_sound)

text \<open>A patch outside the section leaves the entries of the section where they are.\<close>

lemma entry_at_patched:
  assumes "so + sl + 3 < 0xde" and "off' + 3 < so \<or> so + sl + 3 \<le> off'"
    and "entry_at cfg reg so sl off"
  shows "entry_at (patched m v off' cfg) reg so sl off"
proof -
  obtain k where k: "4 * k < sl" "off = so + 4 * k" "gxfp_le16_at cfg off = reg"
    "\<And>j. j < k \<Longrightarrow> gxfp_le16_at cfg (so + 4 * j) \<noteq> reg"
    using assms(3) by (auto simp: entry_at_def)
  have same: "gxfp_le16_at (patched m v off' cfg) (so + 4 * j) = gxfp_le16_at cfg (so + 4 * j)" if "j \<le> k" for j
  proof -
    have "so + 4 * j + 1 < 0xde" "so + 4 * j \<noteq> off' + 2" "so + 4 * j \<noteq> off' + 3"
      "so + 4 * j + 1 \<noteq> off' + 2" "so + 4 * j + 1 \<noteq> off' + 3"
      using that k(1) assms(1,2) by linarith+
    then show ?thesis by (simp add: gxfp_le16_at_def patched_nth)
  qed
  show ?thesis unfolding entry_at_def
    using k same by (intro exI [of _ k]) auto
qed

lemma length_template [simp]: "length gxfp_milanl_cfg_template = 0xE0"
  by (simp add: gxfp_milanl_cfg_template_def)

lemma template_sections:
  "gxfp_milanl_cfg_template ! Suc 0 = 17" "gxfp_milanl_cfg_template ! 2 = 100"
  "gxfp_milanl_cfg_template ! 5 = 117" "gxfp_milanl_cfg_template ! 6 = 44"
  "gxfp_milanl_cfg_template ! 9 = 189" "gxfp_milanl_cfg_template ! 10 = 24"
  by (simp_all add: gxfp_milanl_cfg_template_def)

lemma entry_atI:
  "4 * k < sl \<Longrightarrow> off = so + 4 * k \<Longrightarrow> gxfp_le16_at cfg off = reg \<Longrightarrow>
     list_all (\<lambda>j. gxfp_le16_at cfg (so + 4 * j) \<noteq> reg) [0..<k] \<Longrightarrow> entry_at cfg reg so sl off"
  unfolding entry_at_def by (intro exI [of _ k]) (auto simp: list_all_iff)

lemma template_entries:
  "entry_at gxfp_milanl_cfg_template 0x0220 17 100 113"
  "entry_at gxfp_milanl_cfg_template 0x005c 189 24 193"
  "entry_at gxfp_milanl_cfg_template 0x0082 117 44 157"
  by (rule entry_atI [where k = 24] entry_atI [where k = 1] entry_atI [where k = 10]; code_simp)+

lemma template_patch_1:
  "gxfp_cfg_patch_reg gxfp_milanl_cfg_template 0xE0 0x0220 v 0 0 = Some (0, patched 0 v 113 gxfp_milanl_cfg_template)"
  unfolding patched_def
  by (rule patch_reg_hit [where so = 17 and sl = 100]) (simp_all add: template_sections template_entries)

lemma template_patch_2:
  assumes "c = patched 0 v 113 gxfp_milanl_cfg_template"
  shows "gxfp_cfg_patch_reg c 0xE0 0x005c w 4 0 = Some (0, patched 0 w 193 c)"
  unfolding patched_def [of 0 w 193]
proof (rule patch_reg_hit [where so = 189 and sl = 24])
  show "entry_at c 0x005c 189 24 193"
    unfolding assms by (rule entry_at_patched) (simp_all add: template_entries)
qed (simp_all add: assms template_sections patched_nth)

lemma template_patch_3:
  assumes "c = patched 0 w 193 (patched 0 v 113 gxfp_milanl_cfg_template)"
  shows "gxfp_cfg_patch_reg c 0xE0 0x0082 x 2 2 = Some (0, patched 2 x 157 c)"
  unfolding patched_def [of 2 x 157]
proof (rule patch_reg_hit [where so = 117 and sl = 44])
  show "entry_at c 0x0082 117 44 157"
    unfolding assms by (intro entry_at_patched) (simp_all add: template_entries)
qed (simp_all add: assms template_sections patched_nth)

text \<open>The blob the template becomes for a calibration.\<close>

definition template_for :: "gxfp_milanl_otp_cfg \<Rightarrow> bytes" where
  "template_for oc =
    (let c = patched 0 (oc_dac oc) 113 gxfp_milanl_cfg_template
     in if oc_has_tcode_delta oc
        then patched 2 (push_bit 8 (oc_fdt_delta oc)) 157 (patched 0 (oc_tcode oc) 193 c) else c)"

lemma apply_patch_template:
  "gxfp_milanl_apply_otp_patch (Some gxfp_milanl_cfg_template) 0xE0 (Some oc) = Some (0, Some (template_for oc))"
  by (simp add: gxfp_milanl_apply_otp_patch_def cfg_consts template_patch_1 template_patch_2 template_patch_3
      template_for_def Let_def)

lemma template_for_bytes:
  "length (template_for oc) = 0xE0" "cfg_sound (template_for oc)"
  "gxfp_le16_at (template_for oc) 115 = oc_dac oc"
  "oc_has_tcode_delta oc \<Longrightarrow> gxfp_le16_at (template_for oc) 195 = oc_tcode oc"
  "oc_has_tcode_delta oc \<Longrightarrow> template_for oc ! 160 = lo8 (oc_fdt_delta oc)"
  "i < 0xde \<Longrightarrow> i \<notin> {115, 116, 159, 160, 195, 196} \<Longrightarrow> template_for oc ! i = gxfp_milanl_cfg_template ! i"
proof -
  have hi: "hi8 (push_bit 8 w) = lo8 w" for w
    by (rule bit_word_eqI) (auto simp: hi8_def lo8_def bit_simps)
  have keep: "gxfp_le16_at (patched m v off c) i = gxfp_le16_at c i"
    if "i + 1 < 0xde" "i + 1 < off + 2 \<or> off + 3 < i" for m v off c i
  proof -
    have "i < 0xde" "i + 1 < 0xde" "i \<noteq> off + 2" "i \<noteq> off + 3" "i + 1 \<noteq> off + 2" "i + 1 \<noteq> off + 3"
      using that by linarith+
    then show ?thesis by (simp add: gxfp_le16_at_def patched_nth)
  qed
  note v = patched_value(1) [of 113 gxfp_milanl_cfg_template, simplified]
    patched_value(1) [of 193, simplified] patched_value(2) [of 157, simplified]
  show "length (template_for oc) = 0xE0" "cfg_sound (template_for oc)"
    by (simp_all add: template_for_def Let_def patched_sound)
  show "gxfp_le16_at (template_for oc) 115 = oc_dac oc"
    by (simp add: template_for_def Let_def keep v)
  show "oc_has_tcode_delta oc \<Longrightarrow> gxfp_le16_at (template_for oc) 195 = oc_tcode oc"
    by (simp add: template_for_def Let_def keep v)
  show "oc_has_tcode_delta oc \<Longrightarrow> template_for oc ! 160 = lo8 (oc_fdt_delta oc)"
    by (simp add: template_for_def Let_def v hi)
  show "i < 0xde \<Longrightarrow> i \<notin> {115, 116, 159, 160, 195, 196} \<Longrightarrow> template_for oc ! i = gxfp_milanl_cfg_template ! i"
    by (simp add: template_for_def Let_def patched_nth)
qed

section \<open>The calibration record\<close>

definition tcode_of :: "u8 \<Rightarrow> u16" where
  "tcode_of raw = (ucast (drop_bit 4 raw) + 1) * 0x10"

definition delta_of :: "u8 \<Rightarrow> u16" where
  "delta_of raw =
    ucast (drop_bit 4 ((ucast (raw AND 0x0f) + 2) * 0x6400 div ucast (tcode_of raw) div (3 :: u32)) AND 0xffff)"

text \<open>The raw T-codes whose delta does not fit in a byte.\<close>

definition wide_delta :: "u8 \<Rightarrow> bool" where
  "wide_delta raw \<longleftrightarrow> 0x06 \<le> raw \<and> raw \<le> 0x0f \<or> raw = 0x1e \<or> raw = 0x1f"

text \<open>The same arithmetic on integers, where all 255 records are checked.\<close>

definition tcode_int :: "int \<Rightarrow> int" where "tcode_int r = (r div 16 + 1) * 16"
definition delta_int :: "int \<Rightarrow> int" where "delta_int r = (r mod 16 + 2) * 25600 div tcode_int r div 3 div 16"

lemma uint_u8: "0 \<le> uint (b :: u8)" "uint (b :: u8) < 256"
  using uint_bounded [of b] by simp_all

lemma uint_up:
  fixes b :: u8
  shows "uint (ucast b :: u16) = uint b" "uint (ucast b :: u32) = uint b"
  using uint_u8 [of b] by (simp_all add: unsigned_ucast_eq take_bit_int_eq_self)

lemma uint_nibbles: "uint (drop_bit 4 (raw :: u8)) = uint raw div 16" "uint ((raw :: u8) AND 15) = uint raw mod 16"
proof -
  have "drop_bit 4 raw = raw div 16" by (simp add: drop_bit_eq_div)
  then show "uint (drop_bit 4 raw) = uint raw div 16" by (simp only: uint_div) simp
  have "(15 :: u8) = mask 4" by (simp add: mask_eq_exp_minus_1)
  then have "raw AND 15 = take_bit 4 raw" by (simp add: take_bit_eq_mask)
  then show "uint (raw AND 15) = uint raw mod 16"
    by (simp only: unsigned_take_bit_eq) (simp add: take_bit_eq_mod)
qed

lemma uint_tcode: "uint (tcode_of raw) = tcode_int (uint raw)"
proof -
  have "0 \<le> uint raw div 16" "uint raw div 16 < 16" using uint_u8 [of raw] by (simp_all add: pos_imp_zdiv_nonneg_iff)
  then show ?thesis
    unfolding tcode_of_def tcode_int_def
    by (simp only: uint_word_ariths uint_up uint_nibbles) simp
qed

lemma uint_up16: "uint (ucast (w :: u16) :: u32) = uint w"
  by (simp add: unsigned_ucast_eq take_bit_int_eq_self_iff) (use uint_bounded [of w] in simp)

lemma ucast_low16: "(ucast ((w :: u32) AND 0xffff) :: u16) = ucast w"
proof -
  have m: "(0xffff :: u32) = mask 16" by (simp add: mask_eq_exp_minus_1)
  show ?thesis unfolding m by (rule bit_word_eqI) (simp add: bit_simps)
qed

lemma uint_delta: "uint (delta_of raw) = delta_int (uint raw)"
proof -
  let ?n = "(ucast (raw AND 0x0f) + 2) * 0x6400 :: u32"
  have m: "0 \<le> uint raw mod 16" "uint raw mod 16 < 16" by simp_all
  have "uint (ucast (raw AND 15) :: u32) = uint raw mod 16" by (simp only: uint_up uint_nibbles)
  then have n: "uint ?n = (uint raw mod 16 + 2) * 25600" using m by (simp add: uint_word_ariths)
  have t: "uint (ucast (tcode_of raw) :: u32) = tcode_int (uint raw)" by (simp only: uint_up16 uint_tcode)
  let ?d = "drop_bit 4 (?n div ucast (tcode_of raw) div (3 :: u32))"
  have "?d = ?n div ucast (tcode_of raw) div 3 div 16" by (simp add: drop_bit_eq_div)
  then have d: "uint ?d = delta_int (uint raw)"
    unfolding delta_int_def by (simp only: uint_div n t) simp
  have "delta_int (uint raw) < 65536 \<and> 0 \<le> delta_int (uint raw)"
  proof -
    have "list_all (\<lambda>r. delta_int r < 65536 \<and> 0 \<le> delta_int r) [0..255]" by code_simp
    moreover have "uint raw \<in> set [0..255]" using uint_u8 [of raw] by simp
    ultimately show ?thesis unfolding list_all_iff by blast
  qed
  moreover have "ucast (?d AND 0xffff) = (ucast ?d :: u16)" by (rule ucast_low16)
  ultimately show ?thesis
    unfolding delta_of_def using d by (simp add: unsigned_ucast_eq take_bit_int_eq_self)
qed

definition delta_ok :: "int \<Rightarrow> bool" where
  "delta_ok r \<longleftrightarrow> 16 \<le> tcode_int r \<and> tcode_int r \<le> 256 \<and>
     (r \<noteq> 0 \<longrightarrow> 4 \<le> delta_int r \<and> delta_int r \<le> 566 \<and>
        (255 < delta_int r \<longleftrightarrow> 6 \<le> r \<and> r \<le> 15 \<or> r = 30 \<or> r = 31))"

lemma delta_ok: "delta_ok (uint (raw :: u8))"
proof -
  have "list_all delta_ok [0..255]" by code_simp
  moreover have "uint raw \<in> set [0..255]" using uint_u8 [of raw] by simp
  ultimately show ?thesis unfolding list_all_iff by blast
qed

lemma uint_numeral_u8: "uint (6 :: u8) = 6" "uint (15 :: u8) = 15" "uint (30 :: u8) = 30" "uint (31 :: u8) = 31"
  by simp_all

lemma tcode_range: "16 \<le> tcode_of raw" "tcode_of raw \<le> 256" "unat (tcode_of raw) mod 16 = 0" "tcode_of raw \<noteq> 0"
proof -
  show "16 \<le> tcode_of raw" "tcode_of raw \<le> 256"
    using delta_ok [of raw] by (simp_all add: word_le_def delta_ok_def uint_tcode)
  then show "tcode_of raw \<noteq> 0" by auto
  have "int (unat (tcode_of raw)) mod 16 = 0" by (simp add: uint_tcode tcode_int_def)
  then show "unat (tcode_of raw) mod 16 = 0" by presburger
qed

lemma delta_range:
  assumes "raw \<noteq> 0"
  shows "4 \<le> delta_of raw" "delta_of raw \<le> 566" "255 < delta_of raw \<longleftrightarrow> wide_delta raw"
proof -
  have nz: "uint raw \<noteq> 0" using assms by (simp add: uint_0_iff)
  show "4 \<le> delta_of raw" "delta_of raw \<le> 566"
    using delta_ok [of raw] nz by (simp_all add: word_le_def delta_ok_def uint_delta)
  have "raw = 30 \<longleftrightarrow> uint raw = 30" "raw = 31 \<longleftrightarrow> uint raw = 31"
    by (metis uint_numeral_u8(3) word_eq_iff_unsigned) (metis uint_numeral_u8(4) word_eq_iff_unsigned)
  then show "255 < delta_of raw \<longleftrightarrow> wide_delta raw"
    using delta_ok [of raw] nz
    by (simp add: word_less_def word_le_def delta_ok_def uint_delta wide_delta_def)
qed

lemma parse_otp_eq:
  assumes "32 \<le> otp_len"
  shows "gxfp_milanl_parse_otp (Some otp) otp_len (Some o0) =
    (0, Some (let c = otp_cfg_zero\<lparr>oc_tcode := 0x80, oc_fdt_delta := 0x15,
                        oc_dac := push_bit 4 (ucast (otp ! 0x1f)) OR 8, oc_has_dac := True\<rparr>
              in if otp ! 0x16 \<noteq> 0 \<and> otp ! 0x16 + otp ! 0x17 = 0xff
                 then c\<lparr>oc_tcode := tcode_of (otp ! 0x16), oc_fdt_delta := delta_of (otp ! 0x16),
                         oc_has_tcode_delta := True\<rparr>
                 else c))"
  using assms tcode_range(4) [of "otp ! 0x16"]
  by (simp add: gxfp_milanl_parse_otp_def cfg_consts Let_def tcode_of_def delta_of_def)

section \<open>Properties\<close>

text \<open>C28: Patching a register of any configuration blob returns (the 8-bit loop counter does not
  wrap), and either leaves the blob alone and reports an error, or has changed nothing below the
  checksum but the value of the first matching entry of the section, and the checksum holds.\<close>

theorem cfg_patch_contract:
  assumes len: "length cfg = 0xE0" and sec: "sec \<le> 7"
  shows "case gxfp_cfg_patch_reg cfg 0xE0 reg val sec mode of
     None \<Rightarrow> False
   | Some (r, cfg') \<Rightarrow>
       if r = 0
       then length cfg' = 0xE0 \<and> cfg_sound cfg' \<and>
         (\<exists>off. entry_at cfg reg (unat (cfg ! (1 + unat sec * 2))) (unat (cfg ! (2 + unat sec * 2))) off \<and>
            (\<forall>i. i < 0xde \<longrightarrow> cfg' ! i = put_val mode val off cfg ! i))
       else r < 0 \<and> cfg' = cfg"
  using len sec
proof (cases rule: patch_reg_cases [where reg = reg and val = val and mode = mode])
  case (patched off)
  then show ?thesis using recalc_nth recalc_sound [of "put_val mode val off cfg"] len by auto
next
  case (missed r)
  then show ?thesis by simp
qed

theorem cfg_patch_contract_witness:
  "case gxfp_cfg_patch_reg gxfp_milanl_cfg_template 0xE0 0x0220 0x1238 0 0 of
     None \<Rightarrow> False
   | Some (r, cfg') \<Rightarrow> r = 0 \<and> cfg_sound cfg'"
  using cfg_patch_contract [where cfg = gxfp_milanl_cfg_template and sec = 0 and reg = "0x0220" and val = "0x1238" and mode = 0]
  by (simp add: template_patch_1 split: if_splits)

text \<open>The built-in template accepts every calibration. For every OTP record of at least 32 bytes
  the parser succeeds, the patched template carries the DAC value, the T-code and the finger
  detection delta the record asks for, its checksum holds, and no other byte below the checksum has
  changed.\<close>

theorem otp_calibrates_template:
  assumes "32 \<le> otp_len" and "otp_len \<le> length otp"
  shows "\<exists>oc c. gxfp_milanl_parse_otp (Some otp) otp_len (Some otp_cfg_zero) = (0, Some oc) \<and>
    gxfp_milanl_apply_otp_patch (Some gxfp_milanl_cfg_template) 0xE0 (Some oc) = Some (0, Some c) \<and>
    cfg_sound c \<and> gxfp_le16_at c 115 = push_bit 4 (ucast (otp ! 0x1f)) OR 8 \<and>
    (oc_has_tcode_delta oc \<longrightarrow> gxfp_le16_at c 195 = oc_tcode oc \<and> c ! 160 = lo8 (oc_fdt_delta oc)) \<and>
    (\<forall>i. i < 0xde \<longrightarrow> i \<notin> {115, 116, 159, 160, 195, 196} \<longrightarrow> c ! i = gxfp_milanl_cfg_template ! i)"
proof -
  obtain oc where oc: "gxfp_milanl_parse_otp (Some otp) otp_len (Some otp_cfg_zero) = (0, Some oc)"
    "oc_dac oc = push_bit 4 (ucast (otp ! 0x1f)) OR 8"
    using parse_otp_eq [OF assms(1), of otp otp_cfg_zero] by (simp add: Let_def)
  show ?thesis
    using oc template_for_bytes [where oc = oc] apply_patch_template [of oc] by auto
qed

theorem otp_calibrates_template_witness:
  "\<exists>oc c. gxfp_milanl_parse_otp (Some (zeros 32)) 32 (Some otp_cfg_zero) = (0, Some oc) \<and>
    gxfp_milanl_apply_otp_patch (Some gxfp_milanl_cfg_template) 0xE0 (Some oc) = Some (0, Some c) \<and> cfg_sound c"
  using otp_calibrates_template [where otp_len = 32 and otp = "zeros 32"] by auto

text \<open>The range of the calibration. A record with a valid T-code decodes to a T-code that is a
  multiple of 16 between 16 and 256 and to a delta between 4 and 566. The register holds only the low
  byte of the delta; for twelve T-codes (0x06 to 0x0f, 0x1e, 0x1f) the delta does not fit, and the
  uploaded blob carries a different delta than the one the host works with.\<close>

theorem otp_delta_range:
  assumes "32 \<le> otp_len" and "otp ! 0x16 \<noteq> 0" and "otp ! 0x16 + otp ! 0x17 = 0xff"
  shows "\<exists>oc. gxfp_milanl_parse_otp (Some otp) otp_len (Some otp_cfg_zero) = (0, Some oc) \<and>
    oc_has_tcode_delta oc \<and> unat (oc_tcode oc) mod 16 = 0 \<and> 16 \<le> oc_tcode oc \<and> oc_tcode oc \<le> 256 \<and>
    4 \<le> oc_fdt_delta oc \<and> oc_fdt_delta oc \<le> 566 \<and>
    (unat (template_for oc ! 160) = unat (oc_fdt_delta oc) \<longleftrightarrow> \<not> wide_delta (otp ! 0x16))"
proof -
  let ?raw = "otp ! 0x16"
  obtain oc where oc: "gxfp_milanl_parse_otp (Some otp) otp_len (Some otp_cfg_zero) = (0, Some oc)"
    "oc_has_tcode_delta oc" "oc_tcode oc = tcode_of ?raw" "oc_fdt_delta oc = delta_of ?raw"
    using parse_otp_eq [OF assms(1), of otp otp_cfg_zero] assms(2,3) by (simp add: Let_def)
  have lo: "unat (lo8 w) = unat w \<longleftrightarrow> \<not> 255 < w" for w :: u16
    using unat_le16 [of "lo8 w" "hi8 w"] u8_less [of "lo8 w"] by (simp add: word_less_nat_alt) linarith
  show ?thesis
    using oc tcode_range [of ?raw] delta_range [OF assms(2)] by (simp add: template_for_bytes lo)
qed

theorem otp_delta_range_witness:
  "\<exists>oc. gxfp_milanl_parse_otp (Some ((zeros 32)[0x16 := 0x0f, 0x17 := 0xf0])) 32 (Some otp_cfg_zero) = (0, Some oc) \<and>
    unat (template_for oc ! 160) \<noteq> unat (oc_fdt_delta oc)"
  using otp_delta_range [where otp_len = 32 and otp = "(zeros 32)[0x16 := 0x0f, 0x17 := 0xf0]"] by (auto simp: wide_delta_def)

end
