(* ===== verification/Image_Plain.thy ===== *)
theory Image_Plain
  imports User_Sys Goodix_Proto
begin

unbundle bit_operations_syntax

text \<open>
  Image frames in the decrypted stream (\<open>userspace/src/algo/image/plain.c\<close>): the table-driven
  CRC-32/MPEG-2 that guards an image, the sink that keeps the first good image, and the scanner that
  finds image messages among the Goodix frames of a plaintext.

  The static table of \<open>crc32_mpeg2\<close> is filled on the first call and never written again, so it is
  the constant that \<open>crc32_mpeg2_init_table\<close> computes. The CRC is proved equal to the bit-serial
  definition of the standard, and that definition to detect every burst error of up to 32 bits.
\<close>

section \<open>Definitions\<close>

subsection \<open>The CRC\<close>

primrec crc_entry_loop :: "nat \<Rightarrow> u32 \<Rightarrow> u32 \<Rightarrow> u32" where
  "crc_entry_loop 0 local_c local_crc = local_crc"
| "crc_entry_loop (Suc n) local_c local_crc =
    crc_entry_loop n (push_bit 1 local_c)
      (if (local_c XOR local_crc) AND 0x80000000 = 0 then push_bit 1 local_crc
       else push_bit 1 local_crc XOR 0x04C11DB7)"

definition crc32_mpeg2_init_table :: "u32 list" where
  "crc32_mpeg2_init_table = map (\<lambda>i. crc_entry_loop 8 (push_bit 24 (of_nat i)) 0) [0..<0x100]"

definition crc32_mpeg2 :: "bytes \<Rightarrow> nat \<Rightarrow> u32" where
  "crc32_mpeg2 buf len =
    foldl (\<lambda>crc b. crc32_mpeg2_init_table ! unat ((drop_bit 24 crc XOR ucast b) AND 0xFF) XOR push_bit 8 crc)
      0xFFFFFFFF (take len buf)"

definition gxfp_image_crc_check :: "ptr \<Rightarrow> nat \<Rightarrow> bool" where
  "gxfp_image_crc_check buf len =
    (case buf of
       None \<Rightarrow> False
     | Some b \<Rightarrow>
         if len < 4 then False
         else
           let crc = crc32_mpeg2 b (len - 4);
               expected = push_bit 24 (ucast (b ! (len - 2))) OR push_bit 16 (ucast (b ! (len - 1))) OR
                          push_bit 8 (ucast (b ! (len - 4))) OR ucast (b ! (len - 3))
           in crc = expected)"

subsection \<open>The sink\<close>

record gxfp_plain_image_sink =
  sk_hdr :: bytes
  sk_body :: ptr
  sk_body_len :: nat
  sk_have_oneframe :: bool

definition gxfp_plain_image_sink_append ::
  "uenv \<Rightarrow> gxfp_plain_image_sink option \<Rightarrow> ptr \<Rightarrow> nat \<Rightarrow> uhist \<Rightarrow>
     (int \<times> gxfp_plain_image_sink option) \<times> uhist" where
  "gxfp_plain_image_sink_append env s p n h =
    (case (s, p) of
       (Some sk, Some p) \<Rightarrow>
         if n = 0 then ((0, s), h)
         else if sk_have_oneframe sk then ((0, s), h)
         else if n < 5 then ((0, s), h)
         else
           let body = drop 5 p; body_len = n - 5
           in if \<not> gxfp_image_crc_check (Some body) body_len then ((0, s), h)
              else
                (case malloc env body_len h of
                   (None, h) \<Rightarrow> ((- ENOMEM, s), h)
                 | (Some buf, h) \<Rightarrow>
                     ((0, Some (sk\<lparr>sk_hdr := memcpy_at (sk_hdr sk) 0 (take 5 p),
                          sk_body := Some (memcpy_at buf 0 (take body_len body)),
                          sk_body_len := body_len, sk_have_oneframe := True\<rparr>)), h))
     | _ \<Rightarrow> ((0, s), h))"

text \<open>\<open>free (NULL)\<close> does nothing.\<close>

definition ufree_ptr :: "'a option \<Rightarrow> uhist \<Rightarrow> uhist" where
  "ufree_ptr p h = (case p of None \<Rightarrow> h | Some _ \<Rightarrow> ufree h)"

definition gxfp_plain_image_sink_reset ::
  "gxfp_plain_image_sink option \<Rightarrow> uhist \<Rightarrow> gxfp_plain_image_sink option \<times> uhist" where
  "gxfp_plain_image_sink_reset s h =
    (case s of
       None \<Rightarrow> (None, h)
     | Some sk \<Rightarrow>
         (Some (sk\<lparr>sk_hdr := zeros 5, sk_body := None, sk_body_len := 0, sk_have_oneframe := False\<rparr>),
          ufree_ptr (sk_body sk) h))"

text \<open>\<open>out\<close> tells whether the two mandatory output pointers are there; the result is the code, the
  header (when \<open>out_hdr\<close> is there) and the copy of the body with its length.\<close>

definition gxfp_plain_image_sink_extract ::
  "uenv \<Rightarrow> gxfp_plain_image_sink option \<Rightarrow> ptr \<Rightarrow> bool \<Rightarrow> uhist \<Rightarrow>
     (int \<times> gxfp_plain_image_sink option \<times> ptr \<times> (ptr \<times> nat) option) \<times> uhist" where
  "gxfp_plain_image_sink_extract env s out_hdr out h =
    (case s of
       None \<Rightarrow> ((- EINVAL, s, out_hdr, None), h)
     | Some sk \<Rightarrow>
         if \<not> out then ((- EINVAL, s, out_hdr, None), h)
         else
           let zero_hdr = map_option (\<lambda>oh. memcpy_at oh 0 (zeros 5)) out_hdr
           in (case sk_body sk of
                 None \<Rightarrow> ((0, s, zero_hdr, Some (None, 0)), h)
               | Some body \<Rightarrow>
                   if \<not> sk_have_oneframe sk \<or> sk_body_len sk = 0 then ((0, s, zero_hdr, Some (None, 0)), h)
                   else
                     let len = sk_body_len sk
                     in (case malloc env len h of
                           (None, h) \<Rightarrow> ((- ENOMEM, s, zero_hdr, Some (None, 0)), h)
                         | (Some copy, h) \<Rightarrow>
                             ((1, Some (sk\<lparr>sk_body := None, sk_body_len := 0, sk_have_oneframe := False\<rparr>),
                               map_option (\<lambda>oh. memcpy_at oh 0 (take 5 (sk_hdr sk))) zero_hdr,
                               Some (Some (memcpy_at copy 0 (take len body)), len)), ufree h))))"

subsection \<open>The scanner\<close>

text \<open>One round at \<open>off\<close>: the next offset (before the increment), the sink and the history.\<close>

definition scan_round ::
  "uenv \<Rightarrow> bytes \<Rightarrow> nat \<Rightarrow> nat \<Rightarrow> gxfp_plain_image_sink option \<Rightarrow> uhist \<Rightarrow>
     nat \<times> gxfp_plain_image_sink option \<times> uhist" where
  "scan_round env buf len off sink h =
    (case gxfp_parse_goodix_body (Some (drop off buf)) (len - off) (Some frame_zero) of
       (True, Some frame) \<Rightarrow>
         if \<not> fr_valid frame then (off, sink, h)
         else
           let total = unat (fr_payload_len frame) + 4;
               cmd0 = drop_bit 4 (fr_cmd frame) AND 0x0F;
               (sink, h) =
                 (if cmd0 = 2 \<and> 5 \<le> unat (fr_payload_len frame) \<and> ptr_bytes (fr_payload frame) 1 \<noteq> [0xAA]
                  then case gxfp_plain_image_sink_append env sink (fr_payload frame)
                         (unat (fr_payload_len frame)) h of ((_, sink), h) \<Rightarrow> (sink, h)
                  else (sink, h))
           in (if 0 < total \<and> off + total \<le> len then off + (total - 1) else off, sink, h)
     | _ \<Rightarrow> (off, sink, h))"

lemma scan_round_off: "scan_round env buf len off sink h = (off', sink', h') \<Longrightarrow> off \<le> off'"
  by (auto simp: scan_round_def Let_def split: prod.splits option.splits bool.splits if_splits)

function scan_loop ::
  "uenv \<Rightarrow> bytes \<Rightarrow> nat \<Rightarrow> nat \<Rightarrow> gxfp_plain_image_sink option \<Rightarrow> uhist \<Rightarrow>
     gxfp_plain_image_sink option \<times> uhist" where
  "scan_loop env buf len off sink h =
    (if off + 4 \<le> len then
       (case scan_round env buf len off sink h of
          (off, sink, h) \<Rightarrow> scan_loop env buf len (off + 1) sink h)
     else (sink, h))"
  by pat_completeness auto

termination
proof (relation "measure (\<lambda>(env, buf, len, off, sink, h). len - off)")
  fix env buf len off sink h off' y sink' h'
  assume "off + 4 \<le> len" and "(off', y) = scan_round env buf len off sink h" and "(sink', h') = y"
  then have "off \<le> off'" by (metis scan_round_off)
  then show "((env, buf, len, off' + 1, sink', h'), env, buf, len, off, sink, h)
      \<in> measure (\<lambda>(env, buf, len, off, sink, h). len - off)"
    using \<open>off + 4 \<le> len\<close> by simp
qed simp

declare scan_loop.simps [simp del]

definition gxfp_plain_scan_for_nonpov_image_chunks ::
  "uenv \<Rightarrow> ptr \<Rightarrow> nat \<Rightarrow> gxfp_plain_image_sink option \<Rightarrow> uhist \<Rightarrow> gxfp_plain_image_sink option \<times> uhist" where
  "gxfp_plain_scan_for_nonpov_image_chunks env buf len sink h =
    (case buf of
       None \<Rightarrow> (sink, h)
     | Some b \<Rightarrow> if len < 8 \<or> sink = None then (sink, h) else scan_loop env b len 0 sink h)"

section \<open>The bit-serial CRC\<close>

text \<open>CRC-32/MPEG-2 as its standard defines it: a 32-bit register fed with the message bit by bit,
  most significant bit first, no reflection and no final inversion.\<close>

definition crc_bit :: "u32 \<Rightarrow> bool \<Rightarrow> u32" where
  "crc_bit crc b = (if bit crc 31 \<noteq> b then push_bit 1 crc XOR 0x04C11DB7 else push_bit 1 crc)"

definition byte_bits :: "u8 \<Rightarrow> bool list" where
  "byte_bits b = map (\<lambda>k. bit b (7 - k)) [0..<8]"

definition msg_bits :: "bytes \<Rightarrow> bool list" where
  "msg_bits m = concat (map byte_bits m)"

definition crc32_spec :: "bytes \<Rightarrow> u32" where
  "crc32_spec m = foldl crc_bit 0xFFFFFFFF (msg_bits m)"

text \<open>The four bytes the sensor appends: the halves of the CRC swapped.\<close>

definition crc_tail :: "u32 \<Rightarrow> bytes" where
  "crc_tail c = [ucast (drop_bit 8 c), ucast c, ucast (drop_bit 24 c), ucast (drop_bit 16 c)]"

lemma length_byte_bits [simp]: "length (byte_bits b) = 8"
  by (simp add: byte_bits_def)

lemma length_crc_tail [simp]: "length (crc_tail c) = 4"
  by (simp add: crc_tail_def)

lemma msg_bits_simps [simp]:
  "msg_bits [] = []" "msg_bits (b # m) = byte_bits b @ msg_bits m"
  "msg_bits (m @ n) = msg_bits m @ msg_bits n"
  by (simp_all add: msg_bits_def)

lemma length_msg_bits [simp]: "length (msg_bits m) = 8 * length m"
  by (induction m) simp_all

lemma crc_bit_linear: "crc_bit (a XOR e) (b \<noteq> d) = crc_bit a b XOR crc_bit e d"
proof -
  have p: "push_bit 1 (a XOR e) = push_bit 1 a XOR push_bit 1 e" by (rule push_bit_xor)
  have c: "x XOR y XOR (k :: u32) = x XOR k XOR y" "x XOR k XOR (y XOR k) = x XOR y" for x y k :: u32
    by (simp_all add: xor.assoc xor.left_commute xor.commute)
  show ?thesis
    by (auto simp: crc_bit_def p bit_xor_iff c xor.assoc xor.commute xor.left_commute)
qed

lemma crc_bits_linear:
  "length xs = length ys \<Longrightarrow>
   foldl crc_bit (a XOR e) (map2 (\<noteq>) xs ys) = foldl crc_bit a xs XOR foldl crc_bit e ys"
proof (induction xs ys arbitrary: a e rule: list_induct2)
  case Nil
  then show ?case by simp
next
  case (Cons x xs y ys)
  then show ?case using crc_bit_linear [of a e x y] by simp
qed

lemma crc_bit_0 [simp]: "crc_bit 0 False = 0"
  by (simp add: crc_bit_def)

lemma crc_zeros_0 [simp]: "foldl crc_bit 0 (replicate n False) = 0"
  by (induction n) simp_all

lemma crc_zeros_linear:
  "foldl crc_bit (a XOR e) (replicate n False) =
     foldl crc_bit a (replicate n False) XOR foldl crc_bit e (replicate n False)"
  using crc_bits_linear [of "replicate n False" "replicate n False" a e] by simp

text \<open>Feeding the top bits of a word is feeding zeros to the register combined with that word.\<close>

lemma crc_bit_feed: "crc_bit s (bit c 31) = crc_bit (s XOR c) False XOR push_bit 1 c"
  by (auto simp: crc_bit_def bit_xor_iff push_bit_xor xor.assoc xor.left_commute xor.commute)

lemma top_bits_Suc:
  assumes "n \<le> 31"
  shows "map (\<lambda>k. bit (c :: u32) (31 - k)) [0..<Suc n] =
    bit c 31 # map (\<lambda>k. bit (push_bit 1 c) (31 - k)) [0..<n]"
proof (rule nth_equalityI)
  fix i assume "i < length (map (\<lambda>k. bit c (31 - k)) [0..<Suc n])"
  then have i: "i < Suc n" by simp
  have "bit (push_bit 1 c) (31 - j) = bit c (30 - j)" if "j < n" for j
    using that assms by (auto simp only: bit_push_bit_iff possible_bit_word) simp_all
  then show "map (\<lambda>k. bit c (31 - k)) [0..<Suc n] ! i =
      (bit c 31 # map (\<lambda>k. bit (push_bit 1 c) (31 - k)) [0..<n]) ! i"
    using i by (cases i) (simp_all del: upt_Suc push_bit_of_1 add: nth_append)
qed simp

lemma crc_feed:
  "n \<le> 32 \<Longrightarrow> foldl crc_bit s (map (\<lambda>k. bit c (31 - k)) [0..<n]) =
     foldl crc_bit (s XOR c) (replicate n False) XOR push_bit n c"
proof (induction n arbitrary: s c)
  case 0
  then show ?case by (simp add: xor.assoc)
next
  case (Suc n)
  have "foldl crc_bit s (map (\<lambda>k. bit c (31 - k)) [0..<Suc n]) =
      foldl crc_bit (crc_bit s (bit c 31) XOR push_bit 1 c) (replicate n False) XOR push_bit n (push_bit 1 c)"
    using Suc top_bits_Suc [of n c] by (simp del: upt_Suc)
  then show ?case by (simp add: crc_bit_feed xor.assoc push_bit_push_bit)
qed

lemma crc_entry_loop_eq:
  "n \<le> 32 \<Longrightarrow> crc_entry_loop n c crc = foldl crc_bit crc (map (\<lambda>k. bit c (31 - k)) [0..<n])"
proof (induction n arbitrary: c crc)
  case 0
  then show ?case by simp
next
  case (Suc n)
  have "(0x80000000 :: u32) = push_bit 31 1" by simp
  then have "(c XOR crc) AND 0x80000000 = 0 \<longleftrightarrow> bit c 31 = bit crc 31"
    by (simp only: and_exp_eq_0_iff_not_bit push_bit_of_1 bit_xor_iff) auto
  then have "(if (c XOR crc) AND 0x80000000 = 0 then push_bit 1 crc else push_bit 1 crc XOR 0x04C11DB7)
      = crc_bit crc (bit c 31)"
    by (auto simp: crc_bit_def)
  then show ?case using Suc top_bits_Suc [of n c] by (simp del: upt_Suc)
qed

lemma byte_bits_top: "byte_bits b = map (\<lambda>k. bit (push_bit 24 (ucast b) :: u32) (31 - k)) [0..<8]"
  by (auto simp: byte_bits_def bit_simps)

lemma crc_byte:
  "foldl crc_bit s (byte_bits b) = foldl crc_bit (s XOR push_bit 24 (ucast b)) (replicate 8 False)"
proof -
  have "push_bit 8 (push_bit 24 (ucast b :: u32)) = 0"
    by (rule bit_word_eqI) (simp add: bit_simps)
  then show ?thesis by (simp add: byte_bits_top crc_feed)
qed

lemma crc_low_bits:
  "n \<le> 32 \<Longrightarrow> \<forall>k. 32 - n \<le> k \<longrightarrow> \<not> bit x k \<Longrightarrow> foldl crc_bit x (replicate n False) = push_bit n x"
proof (induction n arbitrary: x)
  case 0
  then show ?case by simp
next
  case (Suc n)
  have "\<not> bit x 31" using Suc.prems(2) by simp
  moreover have "\<forall>k. 32 - n \<le> k \<longrightarrow> \<not> bit (push_bit 1 x) k"
    using Suc.prems by (auto simp only: bit_push_bit_iff)
  ultimately show ?case using Suc by (simp add: crc_bit_def push_bit_push_bit)
qed

lemma unat_byte_less: "unat (w AND 0xFF :: u32) < 256"
  using word_and_le1 [of w "0xFF"] by (simp add: word_le_nat_alt)

text \<open>One lookup advances the register by eight bits.\<close>

lemma crc_table_step:
  "crc32_mpeg2_init_table ! unat ((drop_bit 24 crc XOR ucast b) AND 0xFF) XOR push_bit 8 crc =
     foldl crc_bit crc (byte_bits b)"
proof -
  let ?i = "(drop_bit 24 crc XOR ucast b) AND 0xFF :: u32"
  have i: "unat ?i < 256" by (rule unat_byte_less)
  have "crc32_mpeg2_init_table ! unat ?i = crc_entry_loop 8 (push_bit 24 ?i) 0"
    using i by (simp add: crc32_mpeg2_init_table_def del: upt_Suc)
  also have "\<dots> = foldl crc_bit (push_bit 24 ?i) (replicate 8 False) XOR push_bit 8 (push_bit 24 ?i)"
    by (simp add: crc_entry_loop_eq crc_feed)
  also have "push_bit 8 (push_bit 24 ?i) = 0"
    by (rule bit_word_eqI) (simp add: bit_simps)
  finally have t: "crc32_mpeg2_init_table ! unat ?i = foldl crc_bit (push_bit 24 ?i) (replicate 8 False)"
    by simp
  have "foldl crc_bit (take_bit 24 crc) (replicate 8 False) = push_bit 8 (take_bit 24 crc)"
    by (rule crc_low_bits) (auto simp: bit_simps)
  also have "\<dots> = push_bit 8 crc"
    by (rule bit_word_eqI) (auto simp: bit_simps)
  finally have l: "push_bit 8 crc = foldl crc_bit (take_bit 24 crc) (replicate 8 False)" by simp
  have "push_bit 24 (w AND 0xFF) = push_bit 24 w" for w :: u32
    by (rule bit_word_eqI) (auto simp only: bit_push_bit_iff bit_and_iff bit_byte_mask possible_bit_word; simp)
  then have "push_bit 24 ?i XOR take_bit 24 crc = crc XOR push_bit 24 (ucast b)"
    by (simp only:) (rule bit_word_eqI, auto simp: bit_simps)
  then show ?thesis unfolding t l crc_zeros_linear [symmetric] by (simp add: crc_byte)
qed

lemma crc32_eq_spec: "crc32_mpeg2 buf len = crc32_spec (take len buf)"
proof -
  have "foldl (\<lambda>crc b. crc32_mpeg2_init_table ! unat ((drop_bit 24 crc XOR ucast b) AND 0xFF) XOR push_bit 8 crc) c m
      = foldl crc_bit c (msg_bits m)" for c m
    by (induction m arbitrary: c) (simp_all add: crc_table_step)
  then show ?thesis by (simp add: crc32_mpeg2_def crc32_spec_def)
qed

text \<open>A burst: two messages that differ in at most four neighbouring bytes have different CRCs. The
  generator has a constant term, so a zero bit at the bottom of the register shows that the last
  step did not reduce; reading the register backwards, a zero register after at most 32 bits can only
  come from zero bits.\<close>

lemma crc_bit_low: "bit (crc_bit e d) 0 \<longleftrightarrow> bit e 31 \<noteq> d"
proof -
  have "\<not> bit (push_bit 1 e) 0" and "bit (0x04C11DB7 :: u32) 0" by (simp_all add: bit_0)
  then show ?thesis by (auto simp only: crc_bit_def bit_xor_iff split: if_split)
qed

lemma crc_burst_zero:
  "length ds \<le> m \<Longrightarrow> m \<le> 32 \<Longrightarrow> \<forall>k < m. \<not> bit (foldl crc_bit 0 ds) k \<Longrightarrow> ds = replicate (length ds) False"
proof (induction ds arbitrary: m rule: rev_induct)
  case Nil
  then show ?case by simp
next
  case (snoc d ds)
  let ?e = "foldl crc_bit 0 ds"
  have "\<not> bit (crc_bit ?e d) 0" using snoc.prems by simp
  then have d: "bit ?e 31 = d" by (simp add: crc_bit_low)
  then have e: "foldl crc_bit 0 (ds @ [d]) = push_bit 1 ?e" by (simp add: crc_bit_def)
  have "\<forall>k < m - 1. \<not> bit ?e k"
  proof (intro allI impI)
    fix k assume "k < m - 1"
    then have "Suc k < m" by simp
    then have "\<not> bit (push_bit 1 ?e) (Suc k)" using snoc.prems(3) e by metis
    then show "\<not> bit ?e k"
      using \<open>Suc k < m\<close> snoc.prems(2) by (simp only: bit_push_bit_iff possible_bit_word) simp
  qed
  then have ds: "ds = replicate (length ds) False"
    using snoc.IH [of "m - 1"] snoc.prems by simp
  then have "?e = 0" by (metis crc_zeros_0)
  then have "\<not> d" using d by simp
  then show ?case using ds by (metis (full_types) length_append_singleton replicate_Suc replicate_append_same)
qed

lemma crc_bit_zero_inv: "crc_bit e False = 0 \<Longrightarrow> e = 0"
proof -
  assume z: "crc_bit e False = 0"
  then have "\<not> bit (crc_bit e False) 0" by simp
  then have top: "\<not> bit e 31" by (simp only: crc_bit_low simp_thms not_not)
  have "\<not> bit e k" if "k < 32" for k
  proof (cases "k = 31")
    case False
    then have "bit (push_bit 1 e) (Suc k) = bit e k" using that by (simp only: bit_push_bit_iff possible_bit_word) simp
    then show ?thesis using z top by (simp add: crc_bit_def)
  qed (use top in simp)
  then show ?thesis by (intro bit_word_eqI) simp
qed

lemma crc_zeros_inv: "foldl crc_bit e (replicate n False) = 0 \<Longrightarrow> e = 0"
  by (induction n arbitrary: e) (auto dest: crc_bit_zero_inv)

lemma map2_neq_same: "map2 (\<noteq>) xs xs = replicate (length xs) False"
  by (induction xs) simp_all

lemma map2_neq_replicate: "length xs = length ys \<Longrightarrow> map2 (\<noteq>) xs ys = replicate (length xs) False \<Longrightarrow> xs = ys"
  by (induction xs ys rule: list_induct2) simp_all

lemma byte_bits_inj: "byte_bits a = byte_bits b \<Longrightarrow> a = b"
proof -
  assume e: "byte_bits a = byte_bits b"
  have "byte_bits c ! (7 - k) = bit c k" if "k < 8" for c k
    using that nth_upt [of 0 "7 - k" 8] by (simp add: byte_bits_def)
  then have "bit a k = bit b k" if "k < 8" for k using that e by metis
  then show ?thesis by (intro bit_word_eqI) simp
qed

lemma msg_bits_inj: "length m = length n \<Longrightarrow> msg_bits m = msg_bits n \<Longrightarrow> m = n"
  by (induction m n rule: list_induct2) (auto dest: byte_bits_inj)

lemma crc_msg_linear:
  assumes "length p = length q"
  shows "foldl crc_bit (u XOR v) (map2 (\<noteq>) (msg_bits p) (msg_bits q)) =
    foldl crc_bit u (msg_bits p) XOR foldl crc_bit v (msg_bits q)"
  by (rule crc_bits_linear) (simp add: assms)

lemma crc_suffix_inj:
  assumes "foldl crc_bit u (msg_bits b) = foldl crc_bit v (msg_bits b)"
  shows "u XOR v = 0"
proof (rule crc_zeros_inv [of _ "8 * length b"])
  show "foldl crc_bit (u XOR v) (replicate (8 * length b) False) = 0"
    using crc_msg_linear [of b b u v, OF refl] assms by (simp only: map2_neq_same length_msg_bits xor_self_eq)
qed

lemma crc_burst_inj:
  assumes "length x = length y" "length x \<le> 4"
    and "foldl crc_bit s (msg_bits x) XOR foldl crc_bit s (msg_bits y) = 0"
  shows "x = y"
proof -
  let ?d = "map2 (\<noteq>) (msg_bits x) (msg_bits y)"
  have "foldl crc_bit 0 ?d = 0"
    using crc_msg_linear [OF assms(1), of s s] assms(3) by (simp only: xor_self_eq)
  then have "?d = replicate (length ?d) False"
    by (rule_tac crc_burst_zero [of _ 32]) (use assms in simp_all)
  then have "msg_bits x = msg_bits y" by (rule_tac map2_neq_replicate) (use assms(1) in simp_all)
  then show ?thesis by (rule msg_bits_inj [OF assms(1)])
qed

lemma crc_burst_detected:
  assumes "length x = length y" "length x \<le> 4" "x \<noteq> y"
  shows "crc32_spec (a @ x @ b) \<noteq> crc32_spec (a @ y @ b)"
proof
  assume "crc32_spec (a @ x @ b) = crc32_spec (a @ y @ b)"
  then have "foldl crc_bit (foldl crc_bit (foldl crc_bit 0xFFFFFFFF (msg_bits a)) (msg_bits x)) (msg_bits b) =
      foldl crc_bit (foldl crc_bit (foldl crc_bit 0xFFFFFFFF (msg_bits a)) (msg_bits y)) (msg_bits b)"
    by (simp only: crc32_spec_def msg_bits_simps foldl_append)
  from crc_burst_inj [OF assms(1,2) crc_suffix_inj [OF this]] show False using assms(3) by simp
qed

section \<open>The check of an image\<close>

lemma crc_tail_eq:
  "(push_bit 24 (ucast t2) OR push_bit 16 (ucast t3) OR push_bit 8 (ucast t0) OR ucast t1 :: u32) = c \<longleftrightarrow>
     [t0, t1, t2, t3 :: u8] = crc_tail c"
proof
  assume "(push_bit 24 (ucast t2) OR push_bit 16 (ucast t3) OR push_bit 8 (ucast t0) OR ucast t1 :: u32) = c"
  then have c: "c = push_bit 24 (ucast t2) OR push_bit 16 (ucast t3) OR push_bit 8 (ucast t0) OR ucast t1" by simp
  have "ucast (drop_bit 8 c) = t0" "ucast c = t1" "ucast (drop_bit 24 c) = t2" "ucast (drop_bit 16 c) = t3"
    unfolding c by (rule bit_word_eqI; auto simp: bit_simps le_simps)+
  then show "[t0, t1, t2, t3] = crc_tail c" by (simp add: crc_tail_def)
next
  assume "[t0, t1, t2, t3] = crc_tail c"
  then have t: "t0 = ucast (drop_bit 8 c)" "t1 = ucast c" "t2 = ucast (drop_bit 24 c)" "t3 = ucast (drop_bit 16 c)"
    by (simp_all add: crc_tail_def)
  show "(push_bit 24 (ucast t2) OR push_bit 16 (ucast t3) OR push_bit 8 (ucast t0) OR ucast t1 :: u32) = c"
  proof (rule bit_word_eqI)
    fix n assume "n < LENGTH(32)"
    then consider "n < 8" | "8 \<le> n" "n < 16" | "16 \<le> n" "n < 24" | "24 \<le> n" "n < 32" by force
    then show "bit (push_bit 24 (ucast t2) OR push_bit 16 (ucast t3) OR push_bit 8 (ucast t0) OR ucast t1 :: u32) n
        = bit c n"
      unfolding t by cases (auto simp: bit_simps)
  qed
qed

lemma image_crc_check_append:
  assumes "length t = 4"
  shows "gxfp_image_crc_check (Some (m @ t @ r)) (length m + 4) \<longleftrightarrow> t = crc_tail (crc32_spec m)"
proof -
  obtain t0 t1 t2 t3 where t: "t = [t0, t1, t2, t3]"
    using assms by (auto simp: numeral_eq_Suc length_Suc_conv)
  have "gxfp_image_crc_check (Some (m @ t @ r)) (length m + 4) \<longleftrightarrow>
      push_bit 24 (ucast t2) OR push_bit 16 (ucast t3) OR push_bit 8 (ucast t0) OR ucast t1 = crc32_spec m"
    by (auto simp: gxfp_image_crc_check_def t crc32_eq_spec nth_append)
  then show ?thesis unfolding t by (simp only: crc_tail_eq)
qed

lemma image_crc_check_prefix:
  "n \<le> length b \<Longrightarrow> gxfp_image_crc_check (Some b) n = gxfp_image_crc_check (Some (take n b)) n"
  by (simp add: gxfp_image_crc_check_def crc32_mpeg2_def Let_def min_def)

lemma image_crc_check_short: "n < 4 \<Longrightarrow> \<not> gxfp_image_crc_check b n"
  by (simp add: gxfp_image_crc_check_def split: option.split)

section \<open>The sink\<close>

text \<open>A well-formed sink is empty or holds one checked image in a block of its own.\<close>

definition sink_ok :: "gxfp_plain_image_sink \<Rightarrow> bool" where
  "sink_ok s \<longleftrightarrow> length (sk_hdr s) = 5 \<and>
    (case sk_body s of
       None \<Rightarrow> \<not> sk_have_oneframe s \<and> sk_body_len s = 0
     | Some b \<Rightarrow> sk_have_oneframe s \<and> length b = sk_body_len s \<and> gxfp_image_crc_check (Some b) (sk_body_len s))"

definition sink_view :: "gxfp_plain_image_sink option \<Rightarrow> (bytes \<times> bytes) option" where
  "sink_view s = Option.bind s (\<lambda>sk. map_option (\<lambda>b. (sk_hdr sk, b)) (sk_body sk))"

definition sink_blocks :: "gxfp_plain_image_sink option \<Rightarrow> int" where
  "sink_blocks s = (case sink_view s of None \<Rightarrow> 0 | Some _ \<Rightarrow> 1)"

definition image_of :: "bytes \<Rightarrow> (bytes \<times> bytes) option" where
  "image_of p =
    (if 5 \<le> length p \<and> gxfp_image_crc_check (Some (drop 5 p)) (length p - 5)
     then Some (take 5 p, drop 5 p) else None)"

lemma sink_append_full:
  assumes "sink_ok sk" "sink_view (Some sk) = Some v"
  shows "gxfp_plain_image_sink_append env (Some sk) p n h = ((0, Some sk), h)"
  using assms
  by (auto simp: sink_ok_def sink_view_def gxfp_plain_image_sink_append_def split: option.splits)

lemma sink_append_empty:
  assumes "sink_ok sk" "sink_view (Some sk) = None" "n \<le> length p"
  shows "(image_of (take n p) = None \<longrightarrow>
      gxfp_plain_image_sink_append env (Some sk) (Some p) n h = ((0, Some sk), h)) \<and>
    (\<forall>v. image_of (take n p) = Some v \<longrightarrow>
      (if sys_malloc env h (n - 5)
       then \<exists>sk'. gxfp_plain_image_sink_append env (Some sk) (Some p) n h = ((0, Some sk'), UMalloc (n - 5) # h) \<and>
              sink_ok sk' \<and> sink_view (Some sk') = Some v
       else gxfp_plain_image_sink_append env (Some sk) (Some p) n h = ((- ENOMEM, Some sk), h)))"
proof -
  have b: "sk_body sk = None" "\<not> sk_have_oneframe sk" "length (sk_hdr sk) = 5"
    using assms(1,2) by (auto simp: sink_ok_def sink_view_def split: option.splits)
  have c: "gxfp_image_crc_check (Some (drop 5 p)) (n - 5) = gxfp_image_crc_check (Some (drop 5 (take n p))) (n - 5)"
    using assms(3) image_crc_check_prefix [of "n - 5" "drop 5 p"] by (simp add: drop_take)
  show ?thesis
  proof (cases "5 \<le> n \<and> gxfp_image_crc_check (Some (drop 5 (take n p))) (n - 5)")
    case True
    then have i: "image_of (take n p) = Some (take 5 p, drop 5 (take n p))"
      using assms(3) by (simp add: image_of_def min.absorb2)
    have "length (drop 5 (take n p)) = n - 5" using assms(3) by simp
    then show ?thesis
      using True assms(3) b i c
      by (auto simp: gxfp_plain_image_sink_append_def malloc_def sink_ok_def sink_view_def memcpy_at_0
          Let_def drop_take)
  next
    case False
    then have "image_of (take n p) = None" using assms(3) by (auto simp: image_of_def min_def)
    then show ?thesis
      using False b c by (auto simp: gxfp_plain_image_sink_append_def Let_def)
  qed
qed

text \<open>What an operation on the sink owes: the sink stays well-formed and owns the blocks it took.\<close>

definition sink_kept :: "gxfp_plain_image_sink \<Rightarrow> uhist \<Rightarrow> gxfp_plain_image_sink \<Rightarrow> uhist \<Rightarrow> bool" where
  "sink_kept sk h sk' h' \<longleftrightarrow>
     sink_ok sk' \<and> ulive h' - sink_blocks (Some sk') = ulive h - sink_blocks (Some sk)"

lemma sink_kept_refl: "sink_ok sk \<Longrightarrow> sink_kept sk h sk h"
  by (simp add: sink_kept_def)

lemma sink_kept_trans: "sink_kept a h b h' \<Longrightarrow> sink_kept b h' c h'' \<Longrightarrow> sink_kept a h c h''"
  by (simp add: sink_kept_def)

lemma sink_append_kept:
  assumes "sink_ok sk" "n \<le> length p"
  obtains rc sk' h' where "gxfp_plain_image_sink_append env (Some sk) (Some p) n h = ((rc, Some sk'), h')"
    "sink_kept sk h sk' h'"
    "\<forall>h n. sys_malloc env h n \<Longrightarrow> sink_view (Some sk') =
       (case sink_view (Some sk) of None \<Rightarrow> image_of (take n p) | v \<Rightarrow> v)"
proof (cases "sink_view (Some sk)")
  case (Some v)
  then show ?thesis
    using assms(1) sink_append_full [of sk v env "Some p" n h] by (intro that [of 0 sk h]) (simp_all add: sink_kept_refl)
next
  case None
  note e = sink_append_empty [OF assms(1) None assms(2), of env h]
  show ?thesis
  proof (cases "image_of (take n p)")
    case i: None
    then show ?thesis using e None assms(1) by (intro that [of 0 sk h]) (simp_all add: sink_kept_refl)
  next
    case (Some v)
    show ?thesis
    proof (cases "sys_malloc env h (n - 5)")
      case True
      then obtain sk' where "gxfp_plain_image_sink_append env (Some sk) (Some p) n h = ((0, Some sk'), UMalloc (n - 5) # h)"
        "sink_ok sk'" "sink_view (Some sk') = Some v"
        using e Some by auto
      then show ?thesis
        using None Some by (intro that [of 0 sk' "UMalloc (n - 5) # h"]) (simp_all add: sink_kept_def sink_blocks_def)
    next
      case False
      then show ?thesis
        using e Some assms(1) by (intro that [of "- ENOMEM" sk h]) (simp_all add: sink_kept_refl)
    qed
  qed
qed

lemma sink_reset_kept:
  assumes "sink_ok sk"
  obtains sk' h' where "gxfp_plain_image_sink_reset (Some sk) h = (Some sk', h')" "sink_kept sk h sk' h'"
    "sink_view (Some sk') = None"
  using assms
  by (cases "sk_body sk")
     (auto simp: gxfp_plain_image_sink_reset_def sink_kept_def sink_ok_def sink_view_def sink_blocks_def ufree_ptr_def
       intro!: that)

section \<open>The scanner\<close>

definition frame_image :: "u8 \<times> bytes \<Rightarrow> (bytes \<times> bytes) option" where
  "frame_image = (\<lambda>(cmd, pl).
     if drop_bit 4 cmd AND 0x0F = 2 \<and> 5 \<le> length pl \<and> take 1 pl \<noteq> [0xAA] then image_of pl else None)"

primrec first_image :: "(u8 \<times> bytes) list \<Rightarrow> (bytes \<times> bytes) option" where
  "first_image [] = None"
| "first_image (f # fs) = (case frame_image f of None \<Rightarrow> first_image fs | v \<Rightarrow> v)"

lemma scan_round_kept:
  assumes "sink_ok sk" "len \<le> length buf"
  obtains off' sk' h' where "scan_round env buf len off (Some sk) h = (off', Some sk', h')" "sink_kept sk h sk' h'"
proof (cases "gxfp_parse_goodix_body (Some (drop off buf)) (len - off) (Some frame_zero)")
  case (Pair ok fr)
  show ?thesis
  proof (cases "ok \<and> fr \<noteq> None")
    case False
    then show ?thesis
      using Pair assms(1) by (intro that [of off sk h]) (auto simp: scan_round_def sink_kept_refl split: option.splits bool.splits)
  next
    case True
    then obtain f where f: "gxfp_parse_goodix_body (Some (drop off buf)) (len - off) (Some frame_zero) = (True, Some f)"
      using Pair by auto
    have b: "unat (fr_payload_len f) + 4 \<le> len - off" "fr_payload f = Some (drop 3 (drop off buf))"
      using ubody.accepted_in_bounds [OF f] by simp_all
    have "unat (fr_payload_len f) \<le> length (drop 3 (drop off buf))" using b(1) assms(2) by simp
    then obtain rc sk' h' where
      "gxfp_plain_image_sink_append env (Some sk) (fr_payload f) (unat (fr_payload_len f)) h = ((rc, Some sk'), h')"
      "sink_kept sk h sk' h'"
      using sink_append_kept [OF assms(1)] b(2) by metis
    then have "\<exists>off' sk' h'. scan_round env buf len off (Some sk) h = (off', Some sk', h') \<and> sink_kept sk h sk' h'"
      using assms(1) f by (auto simp: scan_round_def Let_def sink_kept_refl)
    then show ?thesis using that by blast
  qed
qed

lemma scan_loop_kept:
  "sink_ok sk \<Longrightarrow> len \<le> length buf \<Longrightarrow>
   \<exists>sk' h'. scan_loop env buf len off (Some sk) h = (Some sk', h') \<and> sink_kept sk h sk' h'"
proof (induction "len - off" arbitrary: off sk h rule: less_induct)
  case less
  show ?case
  proof (cases "off + 4 \<le> len")
    case False
    then show ?thesis using less.prems by (simp add: scan_loop.simps [of env] sink_kept_refl)
  next
    case True
    obtain off' sk' h' where r: "scan_round env buf len off (Some sk) h = (off', Some sk', h')" "sink_kept sk h sk' h'"
      using scan_round_kept [OF less.prems] by metis
    have "len - (off' + 1) < len - off" using scan_round_off [OF r(1)] True by simp
    moreover have "sink_ok sk'" using r(2) by (simp add: sink_kept_def)
    ultimately obtain sk2 h2 where "scan_loop env buf len (off' + 1) (Some sk') h' = (Some sk2, h2)" "sink_kept sk' h' sk2 h2"
      using less.hyps [of "off' + 1" sk' h'] less.prems(2) by blast
    then show ?thesis using r True sink_kept_trans by (fastforce simp: scan_loop.simps [of env _ _ off])
  qed
qed

lemma scan_round_frame:
  assumes "sink_ok sk" "length pl \<le> 0xFF00" "\<forall>h n. sys_malloc env h n" "length pre + length pl + 4 \<le> len"
  obtains sk' h' where
    "scan_round env (pre @ body_bytes cmd pl @ suf) len (length pre) (Some sk) h = (length pre + length pl + 3, Some sk', h')"
    "sink_kept sk h sk' h'" "sink_view (Some sk') = (case sink_view (Some sk) of None \<Rightarrow> frame_image (cmd, pl) | v \<Rightarrow> v)"
proof -
  let ?f = "body_frame cmd pl suf"
  have p: "gxfp_parse_goodix_body (Some (body_bytes cmd pl @ suf)) (len - length pre) (Some frame_zero) = (True, Some ?f)"
    using ubody.parse_accepts [OF body_view_bytes(2) [OF assms(2)]] body_view_bytes(1) [OF assms(2)] assms(4) by simp
  have u: "unat (of_nat (length pl) :: u16) = length pl" using assms(2) by (intro unat_of_nat_u16) simp
  have f: "fr_valid ?f" "fr_cmd ?f = cmd" "unat (fr_payload_len ?f) = length pl"
    "fr_payload ?f = Some (pl @ body_checksum cmd (of_nat (1 + length pl)) pl # suf)"
    by (simp_all add: body_frame_def Let_def u)
  obtain rc sk' h' where a: "gxfp_plain_image_sink_append env (Some sk) (fr_payload ?f) (length pl) h = ((rc, Some sk'), h')"
    "sink_kept sk h sk' h'" "sink_view (Some sk') = (case sink_view (Some sk) of None \<Rightarrow> image_of pl | v \<Rightarrow> v)"
    using sink_append_kept [OF assms(1), of "length pl" "pl @ body_checksum cmd (of_nat (1 + length pl)) pl # suf" env h]
      assms(3) f(4) by (metis append_eq_conv_conj le_add1 length_append)
  have t: "ptr_bytes (fr_payload ?f) 1 = take 1 pl" if "5 \<le> length pl" unfolding f(4) using that by (cases pl) simp_all
  show ?thesis
  proof (cases "drop_bit 4 cmd AND 0x0F = 2 \<and> 5 \<le> length pl \<and> take 1 pl \<noteq> [0xAA]")
    case True
    then have "frame_image (cmd, pl) = image_of pl" by (simp add: frame_image_def)
    then show ?thesis
      using True a p f(1,2,3) t assms(4) by (intro that [of sk' h']) (simp_all add: scan_round_def Let_def add.assoc cong: option.case_cong)
  next
    case False
    then have n: "\<not> (drop_bit 4 cmd AND 0x0F = 2 \<and> 5 \<le> length pl \<and> ptr_bytes (fr_payload ?f) 1 \<noteq> [0xAA])"
      using t by metis
    have "frame_image (cmd, pl) = None" using False by (auto simp: frame_image_def)
    then show ?thesis
      using n p f(1,2,3) assms(1,4)
      by (intro that [of sk h]) (auto simp: scan_round_def Let_def add.assoc sink_kept_refl split: option.split)
  qed
qed

lemma scan_loop_frames:
  "sink_ok sk \<Longrightarrow> \<forall>(c, p) \<in> set fs. length p \<le> 0xFF00 \<Longrightarrow> \<forall>h n. sys_malloc env h n \<Longrightarrow> length rest < 4 \<Longrightarrow>
   buf = pre @ concat (map (\<lambda>(c, p). body_bytes c p) fs) @ rest @ junk \<Longrightarrow>
   \<exists>sk' h'. scan_loop env buf (length buf - length junk) (length pre) (Some sk) h = (Some sk', h') \<and> sink_kept sk h sk' h' \<and>
     sink_view (Some sk') = (case sink_view (Some sk) of None \<Rightarrow> first_image fs | v \<Rightarrow> v)"
proof (induction fs arbitrary: pre sk h)
  case Nil
  then show ?case by (auto simp: scan_loop.simps [of env] sink_kept_refl split: option.split)
next
  case (Cons f fs)
  obtain c p where f: "f = (c, p)" by fastforce
  let ?suf = "concat (map (\<lambda>(c, p). body_bytes c p) fs) @ rest @ junk"
  let ?len = "length buf - length junk"
  have buf: "buf = pre @ body_bytes c p @ ?suf" using Cons.prems(5) f by simp
  have len: "length pre + length p + 4 \<le> ?len" unfolding buf by simp
  have p: "length p \<le> 0xFF00" using Cons.prems(2) f by simp
  obtain sk' h' where r: "scan_round env buf ?len (length pre) (Some sk) h = (length pre + length p + 3, Some sk', h')"
    "sink_kept sk h sk' h'" "sink_view (Some sk') = (case sink_view (Some sk) of None \<Rightarrow> frame_image (c, p) | v \<Rightarrow> v)"
    using scan_round_frame [OF Cons.prems(1) p Cons.prems(3) len, of c ?suf h] unfolding buf [symmetric] by metis
  have "length (pre @ body_bytes c p) = length pre + length p + 3 + 1" by simp
  moreover have "sink_ok sk'" using r(2) by (simp add: sink_kept_def)
  moreover have "buf = (pre @ body_bytes c p) @ ?suf" using buf by simp
  ultimately obtain sk2 h2 where
    "scan_loop env buf ?len (length pre + length p + 3 + 1) (Some sk') h' = (Some sk2, h2)" "sink_kept sk' h' sk2 h2"
    "sink_view (Some sk2) = (case sink_view (Some sk') of None \<Rightarrow> first_image fs | v \<Rightarrow> v)"
    using Cons.IH [of sk' "pre @ body_bytes c p" h'] Cons.prems(2,3,4) by (metis list.set_intros(2))
  moreover have "length pre + 4 \<le> ?len" using len by linarith
  ultimately show ?case
    using r sink_kept_trans [OF r(2)] f by (auto simp: scan_loop.simps [of env _ _ "length pre"] split: option.splits)
qed

lemma sink_extract_cases:
  assumes "sink_ok sk" and "length oh = 5"
  shows "(case sink_view (Some sk) of
       None \<Rightarrow> gxfp_plain_image_sink_extract env (Some sk) (Some oh) True h = ((0, Some sk, Some (zeros 5), Some (None, 0)), h)
     | Some (hdr, body) \<Rightarrow>
         if sys_malloc env h (length body)
         then \<exists>sk' h'. gxfp_plain_image_sink_extract env (Some sk) (Some oh) True h =
                  ((1, Some sk', Some hdr, Some (Some body, length body)), h') \<and>
                sink_ok sk' \<and> sink_view (Some sk') = None \<and> ulive h' = ulive h
         else gxfp_plain_image_sink_extract env (Some sk) (Some oh) True h =
                ((- ENOMEM, Some sk, Some (zeros 5), Some (None, 0)), h))"
proof -
  have z: "memcpy_at oh 0 (zeros 5) = zeros 5" using assms(2) by (simp add: memcpy_at_0)
  show ?thesis
  proof (cases "sk_body sk")
    case None
    then show ?thesis by (simp add: sink_view_def gxfp_plain_image_sink_extract_def z)
  next
    case (Some b)
    then have s: "sk_have_oneframe sk" "sk_body_len sk = length b" "length (sk_hdr sk) = 5"
      "gxfp_image_crc_check (Some b) (length b)"
      using assms(1) by (simp_all add: sink_ok_def)
    then have "length b \<noteq> 0" using image_crc_check_short [of 0 "Some b"] by (metis zero_less_numeral)
    moreover have "memcpy_at (zeros 5) 0 (sk_hdr sk) = sk_hdr sk" using s(3) by (simp add: memcpy_at_0)
    ultimately show ?thesis
      using Some s assms(2) by (auto simp: sink_view_def sink_ok_def gxfp_plain_image_sink_extract_def z Let_def malloc_def memcpy_at_0)
  qed
qed

lemma scan_chunks_kept:
  assumes "sink_ok sk" and "n \<le> length p"
  shows "\<exists>sk' h'. gxfp_plain_scan_for_nonpov_image_chunks env (Some p) n (Some sk) h = (Some sk', h') \<and> sink_kept sk h sk' h'"
  using scan_loop_kept [OF assms] sink_kept_refl [OF assms(1)]
  by (simp add: gxfp_plain_scan_for_nonpov_image_chunks_def)

lemma scan_chunks_frames:
  assumes "sink_ok sk" and "\<forall>(c, p) \<in> set fs. length p \<le> 0xFF00" and "\<forall>h n. sys_malloc env h n"
    and "length rest < 4" and "buf = concat (map (\<lambda>(c, p). body_bytes c p) fs) @ rest" and "8 \<le> length buf"
  shows "\<exists>sk' h'. gxfp_plain_scan_for_nonpov_image_chunks env (Some (buf @ junk)) (length buf) (Some sk) h = (Some sk', h') \<and>
    sink_ok sk' \<and> sink_view (Some sk') = (case sink_view (Some sk) of None \<Rightarrow> first_image fs | v \<Rightarrow> v)"
  using scan_loop_frames [OF assms(1-4), of "buf @ junk" "[]" junk h] assms(5,6)
  by (auto simp: gxfp_plain_scan_for_nonpov_image_chunks_def sink_kept_def)

section \<open>Properties\<close>

text \<open>C29: The table-driven CRC of the library is CRC-32/MPEG-2: an image is accepted exactly when the
  four bytes behind its pixels are the bit-serially defined CRC of the pixels with its halves
  swapped, wherever the buffer goes on behind it.\<close>

theorem image_crc_is_mpeg2:
  assumes "length t = 4"
  shows "crc32_mpeg2 (m @ t @ r) (length m) = crc32_spec m \<and>
    (gxfp_image_crc_check (Some (m @ t @ r)) (length m + 4) \<longleftrightarrow> t = crc_tail (crc32_spec m))"
  using image_crc_check_append [OF assms, of m r] by (simp add: crc32_eq_spec)

theorem image_crc_is_mpeg2_witness:
  "gxfp_image_crc_check (Some ([0x31] @ crc_tail (crc32_spec [0x31]) @ [])) (length [0x31 :: u8] + 4)"
  using image_crc_is_mpeg2 [of "crc_tail (crc32_spec [0x31])" "[0x31]" "[]"] by simp

text \<open>C30: An image whose pixels or whose trailer were damaged never reaches the sink: when the pixels of a message with a correct trailer are
  altered in up to four neighbouring bytes, or when the trailer behind intact pixels is altered in any way, appending the message leaves
  the sink and the heap as they were, and the scanner goes on. The header of five bytes is not covered by the CRC, and damage
  that straddles the end of the pixels can escape it, as shown below.\<close>

theorem damaged_image_refused:
  assumes "length hdr = 5"
  shows "(\<forall>a x y b. length x = length y \<and> length x \<le> 4 \<and> x \<noteq> y \<longrightarrow>
       (let msg = hdr @ (a @ y @ b) @ crc_tail (crc32_spec (a @ x @ b))
        in gxfp_plain_image_sink_append env (Some sk) (Some msg) (length msg) h = ((0, Some sk), h))) \<and>
    (\<forall>m t. length t = 4 \<and> t \<noteq> crc_tail (crc32_spec m) \<longrightarrow>
       gxfp_plain_image_sink_append env (Some sk) (Some (hdr @ m @ t)) (length (hdr @ m @ t)) h = ((0, Some sk), h))"
proof -
  have refused: "gxfp_plain_image_sink_append env (Some sk) (Some (hdr @ m @ t)) (length (hdr @ m @ t)) h = ((0, Some sk), h)"
    if "length t = 4" "t \<noteq> crc_tail (crc32_spec m)" for m t
  proof -
    have "\<not> gxfp_image_crc_check (Some (m @ t)) (length m + 4)" using image_crc_check_append [OF that(1), of m "[]"] that(2) by simp
    then show ?thesis using assms that(1) by (simp add: gxfp_plain_image_sink_append_def Let_def add.commute)
  qed
  have ne: "crc_tail (crc32_spec (a @ x @ b)) \<noteq> crc_tail (crc32_spec (a @ y @ b))" if "length x = length y \<and> length x \<le> 4 \<and> x \<noteq> y" for a x y b
    using crc_burst_detected [of x y a b] that crc_tail_eq by (metis crc_tail_def)
  show ?thesis
    unfolding Let_def by (intro conjI allI impI refused) (use ne in auto)
qed

theorem damaged_image_refused_witness:
  "gxfp_plain_image_sink_append sim_uenv
     (Some \<lparr>sk_hdr = zeros 5, sk_body = None, sk_body_len = 0, sk_have_oneframe = False\<rparr>)
     (Some (zeros 5 @ ([7] @ [9] @ [8]) @ crc_tail (crc32_spec ([7] @ [1] @ [8])))) 12 [] =
   ((0, Some \<lparr>sk_hdr = zeros 5, sk_body = None, sk_body_len = 0, sk_have_oneframe = False\<rparr>), [])"
proof -
  have l: "length (zeros 5) = 5" by simp
  have x: "length [1 :: u8] = length [9 :: u8] \<and> length [1 :: u8] \<le> 4 \<and> [1 :: u8] \<noteq> [9]" by simp
  have n: "length (zeros 5 @ ([7] @ [9] @ [8]) @ crc_tail (crc32_spec ([7] @ [1] @ [8]))) = 12" by simp
  show ?thesis
    by (rule conjunct1 [OF damaged_image_refused [OF l, of sim_uenv _ "[]"], THEN spec, THEN spec, THEN spec, THEN spec, THEN mp, OF x, of "[7]" "[8]",
      unfolded Let_def n])
qed

text \<open>The trailer has its halves swapped, so four neighbouring bytes across the end of the pixels are no burst of the CRC.\<close>

lemma straddling_damage_accepted:
  "gxfp_image_crc_check (Some ([6] @ crc_tail (crc32_spec [6]))) 5"
  "gxfp_image_crc_check (Some ([6 XOR 0x46] @ map2 (XOR) (crc_tail (crc32_spec [6])) [0x3d, 0xc5, 0x2e, 0])) 5"
proof -
  show "gxfp_image_crc_check (Some ([6] @ crc_tail (crc32_spec [6]))) 5"
    using image_crc_check_append [of "crc_tail (crc32_spec [6])" "[6]" "[]"] by simp
  have "map2 (XOR) (crc_tail (crc32_spec [6])) [0x3d, 0xc5, 0x2e, 0] = crc_tail (crc32_spec [6 XOR 0x46])" by code_simp
  then show "gxfp_image_crc_check (Some ([6 XOR 0x46] @ map2 (XOR) (crc_tail (crc32_spec [6])) [0x3d, 0xc5, 0x2e, 0])) 5"
    using image_crc_check_append [of "crc_tail (crc32_spec [6 XOR 0x46])" "[6 XOR 0x46]" "[]"] by simp
qed

text \<open>C31: The scanner finds the first good image of a plaintext. On a plaintext made of Goodix frames
  (and at most three stray bytes) an empty sink ends up with the header and pixels of the first frame
  of command class 2 that is long enough, is not a 0xAA message and passes the CRC, or stays empty
  when there is none; a sink that already holds an image keeps it.\<close>

theorem scan_finds_first_image:
  assumes "sink_ok sk" and "\<forall>(c, p) \<in> set fs. length p \<le> 0xFF00" and "\<forall>h n. sys_malloc env h n"
    and "length rest < 4" and "buf = concat (map (\<lambda>(c, p). body_bytes c p) fs) @ rest" and "8 \<le> length buf"
  shows "\<exists>sk' h'. gxfp_plain_scan_for_nonpov_image_chunks env (Some buf) (length buf) (Some sk) h = (Some sk', h') \<and>
    sink_ok sk' \<and> sink_view (Some sk') = (case sink_view (Some sk) of None \<Rightarrow> first_image fs | v \<Rightarrow> v)"
  using scan_chunks_frames [OF assms, of "[]"] by simp

definition demo_sink :: gxfp_plain_image_sink where
  "demo_sink = \<lparr>sk_hdr = zeros 5, sk_body = None, sk_body_len = 0, sk_have_oneframe = False\<rparr>"

theorem scan_finds_first_image_witness:
  "\<exists>sk' h'. gxfp_plain_scan_for_nonpov_image_chunks sim_uenv (Some (concat (map (\<lambda>(c, p). body_bytes c p)
       [(0x20, [1, 2, 3, 4, 5, 6] @ crc_tail (crc32_spec [6]))]) @ [0]))
      (length (concat (map (\<lambda>(c, p). body_bytes c p) [(0x20, [1, 2, 3, 4, 5, 6] @ crc_tail (crc32_spec [6]))]) @ [0]))
      (Some demo_sink) [] = (Some sk', h') \<and> sink_ok sk' \<and>
    sink_view (Some sk') = (case sink_view (Some demo_sink) of
       None \<Rightarrow> first_image [(0x20, [1, 2, 3, 4, 5, 6] @ crc_tail (crc32_spec [6]))] | v \<Rightarrow> v)"
  by (rule scan_finds_first_image) (simp_all add: demo_sink_def sink_ok_def sim_uenv_def)

text \<open>C32: The sink is a well-formed one-place buffer through every operation and for every input:
  appending any message, scanning any bytes and resetting keep it well-formed, whatever the
  allocator answers, and it owns exactly the one block it holds; extracting hands out a copy of the
  stored header and image and empties the sink, or reports out of memory and changes nothing, or
  reports that there is no image.\<close>

theorem sink_well_formed:
  assumes "sink_ok sk" and "n \<le> length p" and "length oh = 5"
  shows "(\<exists>rc sk' h'. gxfp_plain_image_sink_append env (Some sk) (Some p) n h = ((rc, Some sk'), h') \<and> sink_kept sk h sk' h') \<and>
    (\<exists>sk' h'. gxfp_plain_scan_for_nonpov_image_chunks env (Some p) n (Some sk) h = (Some sk', h') \<and> sink_kept sk h sk' h') \<and>
    (\<exists>sk' h'. gxfp_plain_image_sink_reset (Some sk) h = (Some sk', h') \<and> sink_kept sk h sk' h' \<and> sink_view (Some sk') = None) \<and>
    (case sink_view (Some sk) of
       None \<Rightarrow> gxfp_plain_image_sink_extract env (Some sk) (Some oh) True h = ((0, Some sk, Some (zeros 5), Some (None, 0)), h)
     | Some (hdr, body) \<Rightarrow>
         if sys_malloc env h (length body)
         then \<exists>sk' h'. gxfp_plain_image_sink_extract env (Some sk) (Some oh) True h =
                  ((1, Some sk', Some hdr, Some (Some body, length body)), h') \<and>
                sink_ok sk' \<and> sink_view (Some sk') = None \<and> ulive h' = ulive h
         else gxfp_plain_image_sink_extract env (Some sk) (Some oh) True h =
                ((- ENOMEM, Some sk, Some (zeros 5), Some (None, 0)), h))"
proof (intro conjI)
  show "\<exists>rc sk' h'. gxfp_plain_image_sink_append env (Some sk) (Some p) n h = ((rc, Some sk'), h') \<and> sink_kept sk h sk' h'"
    using sink_append_kept [OF assms(1,2)] by metis
  show "\<exists>sk' h'. gxfp_plain_image_sink_reset (Some sk) h = (Some sk', h') \<and> sink_kept sk h sk' h' \<and> sink_view (Some sk') = None"
    using sink_reset_kept [OF assms(1)] by metis
qed (rule scan_chunks_kept [OF assms(1,2)] sink_extract_cases [OF assms(1,3)])+

theorem sink_well_formed_witness:
  "\<exists>sk' h'. gxfp_plain_scan_for_nonpov_image_chunks sim_uenv (Some (zeros 20)) 20 (Some demo_sink) [] = (Some sk', h') \<and>
     sink_kept demo_sink [] sk' h'"
  using sink_well_formed [of demo_sink 20 "zeros 20" "zeros 5" sim_uenv "[]"]
  by (simp add: demo_sink_def sink_ok_def)

end
