(* ===== verification/Image_Decoder.thy ===== *)
theory Image_Decoder
  imports Image_Plain
begin

unbundle bit_operations_syntax

text \<open>
  Decoding of image bodies into 16-bit pixels (\<open>userspace/src/algo/image/decoder.c\<close>): the packed
  12-bit formats of the Milan and Chicago sensors, the plain 16-bit format, and the detection of the
  format from the length.

  Pixel arrays are lists of 16-bit words. A store behind the end of an array has no meaning in C; the
  loop that could do it is in the option type and \<open>None\<close> is that case. The results for the sizes the
  library uses are proved to be \<open>Some\<close>. The \<open>int\<close> parameters are integers; all callers pass small
  constants, so products do not leave the range of \<open>int\<close>.
\<close>

section \<open>Definitions\<close>

text \<open>Arrays of 16-bit words on the heap.\<close>

definition malloc16 :: "uenv \<Rightarrow> nat \<Rightarrow> uhist \<Rightarrow> u16 list option \<times> uhist" where
  "malloc16 env n h =
    (if sys_malloc env h (2 * n)
     then (Some (map (\<lambda>i. le16 (sys_garbage env h (2 * i)) (sys_garbage env h (2 * i + 1))) [0..<n]), UMalloc (2 * n) # h)
     else (None, h))"

definition calloc16 :: "uenv \<Rightarrow> nat \<Rightarrow> uhist \<Rightarrow> u16 list option \<times> uhist" where
  "calloc16 env n h =
    (if sys_malloc env h (2 * n) then (Some (replicate n 0), UMalloc (2 * n) # h) else (None, h))"

text \<open>Stores to consecutive cells.\<close>

definition store16 :: "u16 list \<Rightarrow> nat \<Rightarrow> u16 list \<Rightarrow> u16 list option" where
  "store16 a i vs = (if i + length vs \<le> length a then Some (memcpy_at a i vs) else None)"

record gxfp_decoded_image =
  im_pixels :: "u16 list option"
  im_rows :: int
  im_cols :: int

datatype gxfp_decode_mode =
    GXFP_DECODE_AUTO
  | GXFP_DECODE_MILANG_RAW
  | GXFP_DECODE_MILANG_NAV
  | GXFP_DECODE_CHICAGOH_RAW
  | GXFP_DECODE_CHICAGOH_NAV
  | GXFP_DECODE_CHICAGOH_RAW_U16LE
  | GXFP_DECODE_CHICAGOH_NAV_U16LE

record gxfp_decode_auto_result =
  ar_mode :: gxfp_decode_mode
  ar_payload :: ptr
  ar_payload_len :: nat

definition unpack_sample4 :: "u8 \<Rightarrow> u8 \<Rightarrow> u8 \<Rightarrow> u8 \<Rightarrow> u8 \<Rightarrow> u8 \<Rightarrow> u16 list" where
  "unpack_sample4 b0 b1 b2 b3 b4 b5 =
    [push_bit 8 (ucast (b0 AND 0x0F)) OR ucast b1,
     push_bit 4 (ucast b3) OR ucast (drop_bit 4 b0),
     push_bit 8 (ucast (b5 AND 0x0F)) OR ucast b2,
     push_bit 4 (ucast b4) OR ucast (drop_bit 4 b5)]"

subsection \<open>Milan\<close>

function milan_loop :: "nat \<Rightarrow> nat \<Rightarrow> bytes \<Rightarrow> nat \<Rightarrow> nat \<Rightarrow> nat \<Rightarrow> u16 list \<Rightarrow> (nat \<times> u16 list) option" where
  "milan_loop rows tot pu pu_len in_i out_i col_major =
    (if in_i < pu_len \<and> out_i < tot then
       if int (out_i mod rows) = int rows - 2 then
         if in_i + 4 > pu_len then Some (out_i, col_major)
         else
           let b0 = pu ! in_i; b1 = pu ! (in_i + 1); b3 = pu ! (in_i + 3)
           in (case store16 col_major out_i
                      [push_bit 8 (ucast (b0 AND 0x0F)) OR ucast b1, push_bit 4 (ucast b3) OR ucast (drop_bit 4 b0)] of
                 None \<Rightarrow> None
               | Some col_major \<Rightarrow> milan_loop rows tot pu pu_len (in_i + 4) (out_i + 2) col_major)
       else if in_i + 6 > pu_len then Some (out_i, col_major)
       else
         (case store16 col_major out_i
                 (unpack_sample4 (pu ! in_i) (pu ! (in_i + 1)) (pu ! (in_i + 2)) (pu ! (in_i + 3))
                    (pu ! (in_i + 4)) (pu ! (in_i + 5))) of
            None \<Rightarrow> None
          | Some col_major \<Rightarrow> milan_loop rows tot pu pu_len (in_i + 6) (out_i + 4) col_major)
     else Some (out_i, col_major))"
  by pat_completeness auto

termination
  by (relation "measure (\<lambda>(rows, tot, pu, pu_len, in_i, out_i, col_major). pu_len - in_i)") auto

declare milan_loop.simps [simp del]

text \<open>The transposition loop: the values in the order they are stored.\<close>

definition transpose_cols :: "nat \<Rightarrow> nat \<Rightarrow> u16 list \<Rightarrow> u16 list" where
  "transpose_cols rows cols col_major =
    concat (map (\<lambda>r. map (\<lambda>c. col_major ! (c * rows + r)) [0..<cols]) [0..<rows])"

definition gxfp_decode_milan ::
  "uenv \<Rightarrow> ptr \<Rightarrow> nat \<Rightarrow> int \<Rightarrow> int \<Rightarrow> gxfp_decoded_image option \<Rightarrow> uhist \<Rightarrow>
     ((int \<times> gxfp_decoded_image option) \<times> uhist) option" where
  "gxfp_decode_milan env payload payload_len rows_i cols_i out h =
    (case (payload, out) of
       (Some pay, Some im) \<Rightarrow>
         if rows_i \<le> 0 \<or> cols_i \<le> 0 then Some ((- EINVAL, out), h)
         else
           let rows = nat rows_i; cols = nat cols_i;
               stride = ((rows + 2) * 3) div 2;
               take_per_block = (rows * 3) div 2 + 1;
               need = stride * cols
           in if payload_len < need then Some ((- EINVAL, out), h)
              else
                let pu_len = take_per_block * cols
                in (case malloc env pu_len h of
                      (None, h) \<Rightarrow> Some ((- ENOMEM, out), h)
                    | (Some pu, h) \<Rightarrow>
                        let pu = foldl (\<lambda>pu c. memcpy_at pu (c * take_per_block) (take take_per_block (drop (c * stride) pay)))
                                   pu [0..<cols];
                            tot = rows * cols
                        in (case calloc16 env tot h of
                              (None, h) \<Rightarrow> Some ((- ENOMEM, out), ufree h)
                            | (Some col_major, h) \<Rightarrow>
                                (case milan_loop rows tot pu pu_len 0 0 col_major of
                                   None \<Rightarrow> None
                                 | Some (out_i, col_major) \<Rightarrow>
                                     let h = ufree h
                                     in if out_i \<noteq> tot then Some ((- EIO, out), ufree h)
                                        else
                                          (case malloc16 env tot h of
                                             (None, h) \<Rightarrow> Some ((- ENOMEM, out), ufree h)
                                           | (Some row_major, h) \<Rightarrow>
                                               Some ((0, Some (im\<lparr>im_pixels :=
                                                   Some (memcpy_at row_major 0 (transpose_cols rows cols col_major)),
                                                   im_rows := rows_i, im_cols := cols_i\<rparr>)), ufree h)))))
     | _ \<Rightarrow> Some ((- EINVAL, out), h))"

subsection \<open>Chicago\<close>

text \<open>The four guarded stores of one group of samples.\<close>

definition chicago_put :: "nat \<Rightarrow> nat \<Rightarrow> nat \<Rightarrow> bool \<Rightarrow> u16 list \<Rightarrow> nat \<Rightarrow> u16 \<Rightarrow> u16 list" where
  "chicago_put rows cols tot by_cols out_pixels i v =
    (if by_cols then
       let dst = (i mod rows) * cols + i div rows
       in if dst < tot then out_pixels[dst := v] else out_pixels
     else if i < tot then out_pixels[i := v] else out_pixels)"

function chicago_loop ::
  "nat \<Rightarrow> nat \<Rightarrow> nat \<Rightarrow> bool \<Rightarrow> bytes \<Rightarrow> int \<Rightarrow> nat \<Rightarrow> nat \<Rightarrow> u16 list \<Rightarrow> nat \<times> u16 list" where
  "chicago_loop rows cols tot by_cols pay plen in_off out_idx out_pixels =
    (if int in_off + 6 \<le> plen then
       let samples = unpack_sample4 (pay ! in_off) (pay ! (in_off + 1)) (pay ! (in_off + 2)) (pay ! (in_off + 3))
                       (pay ! (in_off + 4)) (pay ! (in_off + 5));
           out_pixels = foldl (\<lambda>px off. chicago_put rows cols tot by_cols px (out_idx + off) (samples ! off))
                          out_pixels [0..<4]
       in chicago_loop rows cols tot by_cols pay plen (in_off + 6) (out_idx + 4) out_pixels
     else (out_idx, out_pixels))"
  by pat_completeness auto

termination
  by (relation "measure (\<lambda>(rows, cols, tot, by_cols, pay, plen, in_off, out_idx, px). nat (plen - int in_off))")
     auto

declare chicago_loop.simps [simp del]

definition gxfp_decode_chicago ::
  "uenv \<Rightarrow> ptr \<Rightarrow> nat \<Rightarrow> int \<Rightarrow> int \<Rightarrow> bool \<Rightarrow> gxfp_decoded_image option \<Rightarrow> uhist \<Rightarrow>
     (int \<times> gxfp_decoded_image option) \<times> uhist" where
  "gxfp_decode_chicago env payload payload_len rows_i cols_i is_u16le out h =
    (case (payload, out) of
       (Some pay, Some im) \<Rightarrow>
         if rows_i \<le> 0 \<or> cols_i \<le> 0 then ((- EINVAL, out), h)
         else
           let rows = nat rows_i; cols = nat cols_i; tot = rows * cols
           in if is_u16le then
                if payload_len < tot * 2 then ((- EINVAL, out), h)
                else
                  (case malloc16 env tot h of
                     (None, h) \<Rightarrow> ((- ENOMEM, out), h)
                   | (Some pixels, h) \<Rightarrow>
                       ((0, Some (im\<lparr>im_pixels := Some (memcpy_at pixels 0
                            (map (\<lambda>i. push_bit 8 (ucast (pay ! (i * 2 + 1))) OR ucast (pay ! (i * 2))) [0..<tot])),
                          im_rows := rows_i, im_cols := cols_i\<rparr>)), h))
              else if payload_len < 6 then ((- EINVAL, out), h)
              else
                (case calloc16 env tot h of
                   (None, h) \<Rightarrow> ((- ENOMEM, out), h)
                 | (Some out_pixels, h) \<Rightarrow>
                     (case chicago_loop rows cols tot (payload_len \<noteq> 0x960) pay
                             (sint (of_nat payload_len :: u32)) 0 0 out_pixels of
                        (out_idx, out_pixels) \<Rightarrow>
                          if out_idx \<noteq> tot then ((- EIO, out), ufree h)
                          else ((0, Some (im\<lparr>im_pixels := Some out_pixels,
                                  im_rows := rows_i, im_cols := cols_i\<rparr>)), h)))
     | _ \<Rightarrow> ((- EINVAL, out), h))"

subsection \<open>The formats\<close>

definition decode_modes :: "(gxfp_decode_mode \<times> nat \<times> int \<times> int) list" where
  "decode_modes =
    [(GXFP_DECODE_MILANG_RAW, 0x39C0, 0x36, 0xB0), (GXFP_DECODE_MILANG_NAV, 0x0540, 0x36, 0x10),
     (GXFP_DECODE_CHICAGOH_RAW, 0x1E00, 0x40, 0x50), (GXFP_DECODE_CHICAGOH_NAV, 0x0960, 0x40, 0x19),
     (GXFP_DECODE_CHICAGOH_RAW_U16LE, 0x2800, 0x40, 0x50), (GXFP_DECODE_CHICAGOH_NAV_U16LE, 0x0C80, 0x40, 0x19)]"

fun detect_loop ::
  "(gxfp_decode_mode \<times> nat \<times> int \<times> int) list \<Rightarrow> bytes \<Rightarrow> nat \<Rightarrow> gxfp_decode_auto_result \<Rightarrow> int \<times> gxfp_decode_auto_result" where
  "detect_loop [] buf len res = (- ENOENT, res)"
| "detect_loop ((mode, pl, rows, cols) # modes) buf len res =
    (if len = pl then (0, res\<lparr>ar_mode := mode, ar_payload := Some buf, ar_payload_len := len\<rparr>)
     else if len = pl + 4 then (0, res\<lparr>ar_mode := mode, ar_payload := Some buf, ar_payload_len := pl\<rparr>)
     else if len = 5 + pl then (0, res\<lparr>ar_mode := mode, ar_payload := Some (drop 5 buf), ar_payload_len := pl\<rparr>)
     else if len = 5 + pl + 4 then (0, res\<lparr>ar_mode := mode, ar_payload := Some (drop 5 buf), ar_payload_len := pl\<rparr>)
     else detect_loop modes buf len res)"

definition gxfp_decode_auto_detect ::
  "ptr \<Rightarrow> nat \<Rightarrow> gxfp_decode_auto_result option \<Rightarrow> int \<times> gxfp_decode_auto_result option" where
  "gxfp_decode_auto_detect buf len res =
    (case (buf, res) of
       (Some b, Some r) \<Rightarrow> (case detect_loop decode_modes b len r of (rc, r) \<Rightarrow> (rc, Some r))
     | _ \<Rightarrow> (- EINVAL, res))"

lemma detect_loop_mode:
  "detect_loop ms b len r = (rc, r') \<Longrightarrow> GXFP_DECODE_AUTO \<notin> fst ` set ms \<Longrightarrow> rc < 0 \<or> ar_mode r' \<noteq> GXFP_DECODE_AUTO"
  by (induction ms b len r rule: detect_loop.induct) (auto split: if_splits)

lemma auto_detect_mode:
  assumes "gxfp_decode_auto_detect (Some b) len (Some r0) = (r, res)" "\<not> r < 0"
  shows "ar_mode (the res) \<noteq> GXFP_DECODE_AUTO"
proof -
  obtain r' where d: "detect_loop decode_modes b len r0 = (r, r')" "res = Some r'"
    using assms(1) by (auto simp: gxfp_decode_auto_detect_def split: prod.splits)
  have "GXFP_DECODE_AUTO \<notin> fst ` set decode_modes" by (simp add: decode_modes_def)
  then show ?thesis using detect_loop_mode [OF d(1)] d(2) assms(2) by simp
qed

text \<open>\<open>res\<close> is the uninitialised local of the automatic mode.\<close>

definition auto_res :: gxfp_decode_auto_result where
  "auto_res = \<lparr>ar_mode = GXFP_DECODE_AUTO, ar_payload = None, ar_payload_len = 0\<rparr>"

function gxfp_decode_image ::
  "uenv \<Rightarrow> ptr \<Rightarrow> nat \<Rightarrow> gxfp_decode_mode \<Rightarrow> gxfp_decoded_image option \<Rightarrow> uhist \<Rightarrow>
     ((int \<times> gxfp_decoded_image option) \<times> uhist) option" where
  "gxfp_decode_image env buf len mode out h =
    (if buf = None \<or> out = None then Some ((- EINVAL, out), h)
     else
       (case mode of
          GXFP_DECODE_AUTO \<Rightarrow>
            (case gxfp_decode_auto_detect buf len (Some auto_res) of
               (r, res) \<Rightarrow>
                 if r < 0 then Some ((r, out), h)
                 else gxfp_decode_image env (ar_payload (the res)) (ar_payload_len (the res)) (ar_mode (the res)) out h)
        | GXFP_DECODE_MILANG_RAW \<Rightarrow> gxfp_decode_milan env buf len 0x36 0xB0 out h
        | GXFP_DECODE_MILANG_NAV \<Rightarrow> gxfp_decode_milan env buf len 0x36 0x10 out h
        | GXFP_DECODE_CHICAGOH_RAW \<Rightarrow> Some (gxfp_decode_chicago env buf len 0x40 0x50 False out h)
        | GXFP_DECODE_CHICAGOH_NAV \<Rightarrow> Some (gxfp_decode_chicago env buf len 0x40 0x19 False out h)
        | GXFP_DECODE_CHICAGOH_RAW_U16LE \<Rightarrow> Some (gxfp_decode_chicago env buf len 0x40 0x50 True out h)
        | GXFP_DECODE_CHICAGOH_NAV_U16LE \<Rightarrow> Some (gxfp_decode_chicago env buf len 0x40 0x19 True out h)))"
  by pat_completeness auto

termination
proof (relation "measure (\<lambda>(env, buf, len, mode, out, h). if mode = GXFP_DECODE_AUTO then 1 else 0)")
  fix env buf len mode out h r and res :: "gxfp_decode_auto_result option"
  assume a: "\<not> (buf = None \<or> out = (None :: gxfp_decoded_image option))" "mode = GXFP_DECODE_AUTO"
    "(r, res) = gxfp_decode_auto_detect buf len (Some auto_res)" "\<not> r < 0"
  then have "ar_mode (the res) \<noteq> GXFP_DECODE_AUTO"
    using auto_detect_mode [of "the buf" len auto_res r res] by auto
  then show "((env, ar_payload (the res), ar_payload_len (the res), ar_mode (the res), out, h), env, buf, len, mode, out, h)
      \<in> measure (\<lambda>(env, buf, len, mode, out, h). if mode = GXFP_DECODE_AUTO then 1 else 0)"
    using a(2) by simp
qed simp

declare gxfp_decode_image.simps [simp del]

definition gxfp_decoded_image_free :: "gxfp_decoded_image option \<Rightarrow> uhist \<Rightarrow> gxfp_decoded_image option \<times> uhist" where
  "gxfp_decoded_image_free img h =
    (case img of
       None \<Rightarrow> (None, h)
     | Some im \<Rightarrow> (Some (im\<lparr>im_pixels := None, im_rows := 0, im_cols := 0\<rparr>), ufree_ptr (im_pixels im) h))"

section \<open>Packed samples\<close>

text \<open>The twelve-bit sample number \<open>i\<close> of a packed stream of bytes, as a number.\<close>

definition sample12 :: "(nat \<Rightarrow> u8) \<Rightarrow> nat \<Rightarrow> nat" where
  "sample12 f i =
    (let b = \<lambda>t. unat (f (6 * (i div 4) + t))
     in if i mod 4 = 0 then (b 0 mod 16) * 256 + b 1
        else if i mod 4 = 1 then b 3 * 16 + b 0 div 16
        else if i mod 4 = 2 then (b 5 mod 16) * 256 + b 2
        else b 4 * 16 + b 5 div 16)"

lemma unat_low_nibble_high: "unat (push_bit 8 (ucast (b AND 0x0F)) OR ucast c :: u16) = (unat (b :: u8) mod 16) * 256 + unat (c :: u8)"
proof -
  have m: "b AND 0x0F = take_bit 4 b" by (simp add: take_bit_eq_mask mask_eq_exp_minus_1)
  have "push_bit 8 (ucast (take_bit 4 b)) OR ucast c = push_bit 8 (ucast (take_bit 4 b)) + (ucast c :: u16)"
    by (rule disjunctive_add [symmetric]) (auto simp: bit_simps le_simps)
  moreover have "unat (take_bit 4 b) = unat b mod 16" by (simp add: unsigned_take_bit_eq take_bit_nat_def)
  moreover have "(unat b mod 16) * 256 + unat c < 2 ^ 16" using u8_less [of c] mod_less_divisor [of 16 "unat b", OF zero_less_numeral] by simp
  ultimately show ?thesis unfolding m by (simp add: unat_word_ariths push_bit_eq_mult)
qed

lemma unat_high_nibble_low: "unat (push_bit 4 (ucast c) OR ucast (drop_bit 4 b) :: u16) = unat (c :: u8) * 16 + unat (b :: u8) div 16"
proof -
  have "push_bit 4 (ucast c) OR ucast (drop_bit 4 b) = push_bit 4 (ucast c) + (ucast (drop_bit 4 b) :: u16)"
    by (rule disjunctive_add [symmetric]) (auto simp: bit_simps le_simps)
  moreover have "unat (drop_bit 4 b) = unat b div 16" by (simp add: unat_drop_bit_eq drop_bit_nat_def)
  moreover have "unat c * 16 + unat b div 16 < 2 ^ 16" using u8_less [of c] u8_less [of b] by simp
  ultimately show ?thesis by (simp add: unat_word_ariths push_bit_eq_mult)
qed

lemma sample12_less: "sample12 f i < 4096"
  unfolding sample12_def Let_def
  using u8_less [of "f (6 * (i div 4) + 1)"] u8_less [of "f (6 * (i div 4) + 2)"] u8_less [of "f (6 * (i div 4) + 3)"]
    u8_less [of "f (6 * (i div 4) + 4)"] u8_less [of "f (6 * (i div 4) + 5)"] u8_less [of "f (6 * (i div 4) + 0)"]
    mod_less_divisor [of 16 "unat (f (6 * (i div 4) + 0))"] mod_less_divisor [of 16 "unat (f (6 * (i div 4) + 5))"]
  by (simp del: mod_less_divisor) linarith

lemma unpack_sample12:
  "unpack_sample4 (f (6 * q)) (f (6 * q + 1)) (f (6 * q + 2)) (f (6 * q + 3)) (f (6 * q + 4)) (f (6 * q + 5)) =
     map (\<lambda>t. of_nat (sample12 f (4 * q + t))) [0..<4]"
proof -
  have u: "[0..<4] = [0, 1, 2, 3 :: nat]" by (simp add: upt_rec)
  have w: "x = of_nat n" if "unat x = n" for x :: u16 and n using that by (simp flip: that)
  have t: "(4 * q + 1) div 4 = q" "(4 * q + 1) mod 4 = 1" "(4 * q + 2) div 4 = q" "(4 * q + 2) mod 4 = 2"
    "(4 * q + 3) div 4 = q" "(4 * q + 3) mod 4 = 3" "(4 * q + 0) div 4 = q" "(4 * q + 0) mod 4 = 0"
    by presburger+
  have "sample12 f (4 * q + 0) = unat (f (6 * q)) mod 16 * 256 + unat (f (6 * q + 1))"
    "sample12 f (4 * q + 1) = unat (f (6 * q + 3)) * 16 + unat (f (6 * q)) div 16"
    "sample12 f (4 * q + 2) = unat (f (6 * q + 5)) mod 16 * 256 + unat (f (6 * q + 2))"
    "sample12 f (4 * q + 3) = unat (f (6 * q + 4)) * 16 + unat (f (6 * q + 5)) div 16"
    unfolding sample12_def Let_def t by simp_all
  then show ?thesis unfolding u unpack_sample4_def
    by (simp only: list.map list.inject) (intro conjI w; simp only: unat_low_nibble_high unat_high_nibble_low)
qed

lemma length_unpack_sample4 [simp]: "length (unpack_sample4 b0 b1 b2 b3 b4 b5) = 4"
  by (simp add: unpack_sample4_def)

section \<open>The Milan loops\<close>

lemma milan_gather:
  assumes "length pu = w * cols" "w \<le> stride" "stride * cols \<le> length pay" "n \<le> cols"
  shows "length (foldl (\<lambda>pu c. memcpy_at pu (c * w) (take w (drop (c * stride) pay))) pu [0..<n]) = w * cols \<and>
    (\<forall>c < n. \<forall>j < w. foldl (\<lambda>pu c. memcpy_at pu (c * w) (take w (drop (c * stride) pay))) pu [0..<n] ! (c * w + j) =
       pay ! (c * stride + j))"
  using assms(4)
proof (induction n)
  case 0
  then show ?case using assms(1) by simp
next
  case (Suc n)
  let ?f = "\<lambda>pu c. memcpy_at pu (c * w) (take w (drop (c * stride) pay))"
  let ?pu = "foldl ?f pu [0..<n]"
  have IH: "length ?pu = w * cols" "\<And>c j. c < n \<Longrightarrow> j < w \<Longrightarrow> ?pu ! (c * w + j) = pay ! (c * stride + j)"
    using Suc by auto
  have le: "Suc n * stride \<le> length pay" "Suc n * w \<le> length ?pu"
    using Suc.prems assms(3) mult_le_mono [OF Suc.prems order.refl, of stride] mult_le_mono [OF Suc.prems order.refl, of w]
    by (simp_all add: IH(1) mult.commute)
  have src: "length (take w (drop (n * stride) pay)) = w" using le(1) assms(2) by simp
  have fit: "n * w + length (take w (drop (n * stride) pay)) \<le> length ?pu" unfolding src using le(2) by simp
  have "?f ?pu n ! (c * w + j) = pay ! (c * stride + j)" if c: "c < Suc n" and j: "j < w" for c j
  proof (cases "c = n")
    case True
    then show ?thesis using j le src by (subst nth_memcpy_at [OF fit]) simp_all
  next
    case False
    then have "c < n" using c by simp
    then have "Suc c * w \<le> n * w" by (intro mult_le_mono) simp_all
    then have "c * w + j < n * w" using j by simp
    then show ?thesis using IH(2) [OF \<open>c < n\<close> j] le(2) j by (subst nth_memcpy_at [OF fit]) simp_all
  qed
  then show ?case using fit IH(1) by simp
qed

lemma take_store:
  "take i cm = map S [0..<i] \<Longrightarrow> i \<le> length cm \<Longrightarrow> vs = map (\<lambda>t. S (i + t)) [0..<length vs] \<Longrightarrow>
   take (i + length vs) (memcpy_at cm i vs) = map S [0..<i + length vs]"
proof -
  assume a: "take i cm = map S [0..<i]" "i \<le> length cm" "vs = map (\<lambda>t. S (i + t)) [0..<length vs]"
  have "map S [i..<i + length vs] = map (\<lambda>t. S (i + t)) [0..<length vs]"
    by (rule nth_equalityI) simp_all
  then have "map S [0..<i + length vs] = map S [0..<i] @ map (\<lambda>t. S (i + t)) [0..<length vs]"
    by (simp add: upt_add_eq_append [of 0])
  then show ?thesis using a by (simp add: take_memcpy_at_end)
qed

lemma milan_loop_tail:
  assumes "in_i + 4 \<le> pu_len" "out_i < tot" "int (out_i mod rows) = int rows - 2" "out_i + 2 \<le> length cm"
  shows "milan_loop rows tot pu pu_len in_i out_i cm =
    milan_loop rows tot pu pu_len (in_i + 4) (out_i + 2)
      (memcpy_at cm out_i [push_bit 8 (ucast (pu ! in_i AND 0x0F)) OR ucast (pu ! (in_i + 1)),
                           push_bit 4 (ucast (pu ! (in_i + 3))) OR ucast (drop_bit 4 (pu ! in_i))])"
  using assms by (subst milan_loop.simps) (simp add: store16_def Let_def)

lemma milan_loop_group:
  assumes "in_i + 6 \<le> pu_len" "out_i < tot" "int (out_i mod rows) \<noteq> int rows - 2" "out_i + 4 \<le> length cm"
  shows "milan_loop rows tot pu pu_len in_i out_i cm =
    milan_loop rows tot pu pu_len (in_i + 6) (out_i + 4)
      (memcpy_at cm out_i (unpack_sample4 (pu ! in_i) (pu ! (in_i + 1)) (pu ! (in_i + 2)) (pu ! (in_i + 3))
                    (pu ! (in_i + 4)) (pu ! (in_i + 5))))"
  using assms by (subst milan_loop.simps) (simp add: store16_def)

text \<open>The loop at the start of group \<open>q\<close> of column \<open>c\<close>.\<close>

lemma milan_loop_correct:
  fixes k cols :: nat and pu :: bytes
  defines "w \<equiv> 6 * k + 4" and "rows \<equiv> 4 * k + 2"
  defines "S \<equiv> \<lambda>i. of_nat (sample12 (\<lambda>j. pu ! (i div rows * w + j)) (i mod rows)) :: u16"
  assumes "c < cols \<and> q \<le> k \<or> c = cols \<and> q = 0" and "length cm = rows * cols"
    and "take (c * rows + 4 * q) cm = map S [0..<c * rows + 4 * q]"
  shows "milan_loop rows (rows * cols) pu (w * cols) (c * w + 6 * q) (c * rows + 4 * q) cm =
    Some (rows * cols, map S [0..<rows * cols])"
  using assms(4-)
proof (induction "rows * cols - (c * rows + 4 * q)" arbitrary: c q cm rule: less_induct)
  case less
  show ?case
  proof (cases "c = cols")
    case True
    then show ?thesis using less.prems by (simp add: milan_loop.simps [of rows] mult.commute)
  next
    case False
    then have c: "c < cols" "q \<le> k" using less.prems(1) by auto
    have s: "Suc c * rows \<le> rows * cols" "Suc c * w \<le> w * cols"
      using mult_le_mono [of "Suc c" cols rows rows] mult_le_mono [of "Suc c" cols w w] c(1) by (simp_all add: mult.commute)
    let ?i = "c * rows + 4 * q"
    have div: "(?i + t) div rows = c" "(?i + t) mod rows = 4 * q + t" if "4 * q + t < rows" for t
      using that by (simp_all add: add.assoc)
    have "0 < rows" by (simp add: rows_def)
    then have out: "?i < rows * cols" "?i \<le> length cm" using s c(2) less.prems(2) by (simp_all add: rows_def)
    have m: "?i mod rows = 4 * q" using div(2) [of 0] c(2) by (simp add: rows_def)
    define f where "f = (\<lambda>j. pu ! (c * w + j))"
    have u: "unpack_sample4 (f (6 * q)) (f (6 * q + 1)) (f (6 * q + 2)) (f (6 * q + 3)) (f (6 * q + 4)) (f (6 * q + 5)) =
        map (\<lambda>t. of_nat (sample12 f (4 * q + t))) [0..<4]" by (rule unpack_sample12)
    have S: "S (?i + t) = of_nat (sample12 f (4 * q + t))" if "4 * q + t < rows" for t
      unfolding S_def f_def div [OF that] ..
    show ?thesis
    proof (cases "q = k")
      case True
      let ?v = "[push_bit 8 (ucast (f (6 * q) AND 0x0F)) OR ucast (f (6 * q + 1)),
                 push_bit 4 (ucast (f (6 * q + 3))) OR ucast (drop_bit 4 (f (6 * q)))]"
      have "?v = map (\<lambda>t. S (?i + t)) [0..<length ?v]"
        using u S [of 0] S [of 1] True by (simp add: unpack_sample4_def rows_def upt_rec)
      then have t: "take (?i + 2) (memcpy_at cm ?i ?v) = map S [0..<?i + 2]"
        using take_store [OF less.prems(3) out(2), of ?v] by simp
      have fit: "?i + 2 \<le> length cm" using s less.prems(2) True by (simp add: rows_def)
      have nx: "Suc c * rows + 4 * 0 = ?i + 2" "Suc c * w + 6 * 0 = c * w + 6 * q + 4" using True by (simp_all add: rows_def w_def)
      have "milan_loop rows (rows * cols) pu (w * cols) (c * w + 6 * q) ?i cm =
          milan_loop rows (rows * cols) pu (w * cols) (c * w + 6 * q + 4) (?i + 2) (memcpy_at cm ?i ?v)"
        unfolding f_def add.assoc [symmetric]
        by (rule milan_loop_tail) (use out(1) m True fit s(2) in \<open>simp_all add: w_def rows_def\<close>)
      also have "\<dots> = Some (rows * cols, map S [0..<rows * cols])"
        using less.hyps [of "Suc c" 0 "memcpy_at cm ?i ?v", unfolded nx] t fit less.prems(2) c(1) out(1) by (cases "Suc c = cols") simp_all
      finally show ?thesis .
    next
      case False
      then have q: "q < k" using c(2) by simp
      let ?v = "unpack_sample4 (f (6 * q)) (f (6 * q + 1)) (f (6 * q + 2)) (f (6 * q + 3)) (f (6 * q + 4)) (f (6 * q + 5))"
      have "?v = map (\<lambda>t. S (?i + t)) [0..<length ?v]"
        unfolding u using S q by (simp add: rows_def)
      then have t: "take (?i + 4) (memcpy_at cm ?i ?v) = map S [0..<?i + 4]"
        using take_store [OF less.prems(3) out(2), of ?v] by simp
      have fit: "?i + 4 \<le> length cm" using s less.prems(2) q by (simp add: rows_def)
      have nx: "c * rows + 4 * Suc q = ?i + 4" "c * w + 6 * Suc q = c * w + 6 * q + 6" by simp_all
      have "milan_loop rows (rows * cols) pu (w * cols) (c * w + 6 * q) ?i cm =
          milan_loop rows (rows * cols) pu (w * cols) (c * w + 6 * q + 6) (?i + 4) (memcpy_at cm ?i ?v)"
        unfolding f_def add.assoc [symmetric]
        by (rule milan_loop_group) (use out(1) m q fit s(2) in \<open>simp_all add: w_def rows_def\<close>)
      also have "\<dots> = Some (rows * cols, map S [0..<rows * cols])"
        using less.hyps [of c "Suc q" "memcpy_at cm ?i ?v", unfolded nx] t fit less.prems(2) c(1) out(1) q by simp
      finally show ?thesis .
    qed
  qed
qed

lemma nth_transpose_cols:
  "r < rows \<Longrightarrow> c < cols \<Longrightarrow> transpose_cols rows cols cm ! (r * cols + c) = cm ! (c * rows + r)"
proof -
  assume r: "r < rows" and c: "c < cols"
  have "concat (map (\<lambda>r. map (g r) [0..<cols]) [0..<n]) ! (r * cols + c) = g r c" if "r < n" for n and g :: "nat \<Rightarrow> nat \<Rightarrow> u16"
    using that
  proof (induction n)
    case (Suc n)
    have len: "length (concat (map (\<lambda>r. map (g r) [0..<cols]) [0..<n])) = n * cols"
      by (simp add: length_concat sum_list_triv comp_def)
    show ?case
    proof (cases "r = n")
      case True
      then show ?thesis using c len by (simp add: nth_append)
    next
      case False
      then have "Suc r * cols \<le> n * cols" using Suc.prems by (intro mult_le_mono) simp_all
      then have "r * cols + c < n * cols" using c by simp
      then show ?thesis using Suc False len by (simp add: nth_append)
    qed
  qed simp
  then show ?thesis using r by (simp add: transpose_cols_def)
qed

lemma length_transpose_cols [simp]: "length (transpose_cols rows cols cm) = rows * cols"
  by (simp add: transpose_cols_def length_concat sum_list_triv comp_def)

lemma malloc16_cases:
  obtains (null) "malloc16 env n h = (None, h)" "\<not> sys_malloc env h (2 * n)"
  | (block) b where "malloc16 env n h = (Some b, UMalloc (2 * n) # h)" "length b = n"
  by (cases "sys_malloc env h (2 * n)") (simp_all add: malloc16_def)

lemma calloc16_cases:
  obtains (null) "calloc16 env n h = (None, h)" "\<not> sys_malloc env h (2 * n)"
  | (block) "calloc16 env n h = (Some (replicate n 0), UMalloc (2 * n) # h)"
  by (cases "sys_malloc env h (2 * n)") (simp_all add: calloc16_def)

lemma mult_index_less: "r < rows \<Longrightarrow> c < (cols :: nat) \<Longrightarrow> c * rows + r < rows * cols"
proof -
  assume "r < rows" "c < cols"
  then have "c * rows + r < Suc c * rows" and "Suc c * rows \<le> cols * rows" by (simp, intro mult_le_mono) simp_all
  then show ?thesis by (simp add: mult.commute)
qed

text \<open>What a decoder owes its caller: an image of the promised size in one new block, or an error
  that leaves the output and the heap alone.\<close>

definition decoded ::
  "uenv \<Rightarrow> gxfp_decoded_image \<Rightarrow> nat \<Rightarrow> nat \<Rightarrow> (nat \<Rightarrow> nat \<Rightarrow> nat) \<Rightarrow> uhist \<Rightarrow>
     (int \<times> gxfp_decoded_image option) \<times> uhist \<Rightarrow> bool" where
  "decoded env im rows cols pix h = (\<lambda>((rc, out), h').
     (rc = 0 \<and> ulive h' = ulive h + 1 \<and>
       (\<exists>px. out = Some (im\<lparr>im_pixels := Some px, im_rows := int rows, im_cols := int cols\<rparr>) \<and> length px = rows * cols \<and>
          (\<forall>r < rows. \<forall>c < cols. unat (px ! (r * cols + c)) = pix r c))) \<or>
     (rc = - ENOMEM \<and> out = Some im \<and> ulive h' = ulive h \<and> (\<exists>h n. \<not> sys_malloc env h n)))"

lemma decoded_ok:
  assumes "length px = rows * cols" "\<And>r c. r < rows \<Longrightarrow> c < cols \<Longrightarrow> unat (px ! (r * cols + c)) = pix r c"
    and "ulive h' = ulive h + 1"
  shows "decoded env im rows cols pix h
    ((0, Some (im\<lparr>im_pixels := Some px, im_rows := int rows, im_cols := int cols\<rparr>)), h')"
  using assms by (auto simp: decoded_def)

lemma decoded_cong:
  "decoded env im rows cols pix h res \<Longrightarrow> (\<And>r c. r < rows \<Longrightarrow> c < cols \<Longrightarrow> pix r c = pix' r c) \<Longrightarrow>
   decoded env im rows cols pix' h res"
  by (auto simp: decoded_def)

lemma unat_sample12 [simp]: "unat (of_nat (sample12 f i) :: u16) = sample12 f i"
  using sample12_less [of f i] by (simp add: unsigned_of_nat take_bit_nat_eq_self)

lemma sample12_cong: "(\<And>j. j < 6 * (i div 4) + 6 \<Longrightarrow> f j = g j) \<Longrightarrow> sample12 f i = sample12 g i"
  by (simp add: sample12_def Let_def)

lemma sample12_cong_tail:
  "i mod 4 < 2 \<Longrightarrow> (\<And>j. j < 6 * (i div 4) + 4 \<Longrightarrow> f j = g j) \<Longrightarrow> sample12 f i = sample12 g i"
  by (auto simp: sample12_def Let_def)

lemma milan_sample_src:
  assumes "r < 4 * k + 2" "\<And>j. j < 6 * k + 4 \<Longrightarrow> f j = g j"
  shows "sample12 f r = sample12 g r"
proof (cases "r < 4 * k")
  case True
  then have "r div 4 < k" by (simp add: div_less_iff_less_mult mult.commute)
  then have "6 * (r div 4) + 6 \<le> 6 * k" by simp
  then show ?thesis using assms(2) by (intro sample12_cong) simp
next
  case False
  then have "r mod 4 < 2" "r div 4 = k" using assms(1) by presburger+
  then show ?thesis using assms(2) by (intro sample12_cong_tail) simp_all
qed

lemma decode_milan_pixels:
  fixes k cols :: nat
  defines "rows \<equiv> 4 * k + 2" and "stride \<equiv> 6 * k + 6"
  assumes "0 < cols" and "stride * cols \<le> n" and "n \<le> length pay"
  shows "\<exists>res. gxfp_decode_milan env (Some pay) n (int rows) (int cols) (Some im) h = Some res \<and>
    decoded env im rows cols (\<lambda>r c. sample12 (\<lambda>j. pay ! (c * stride + j)) r) h res"
proof -
  let ?w = "6 * k + 4"
  have w: "(rows + 2) * 3 div 2 = stride" "rows * 3 div 2 + 1 = ?w"
    "(int rows \<le> 0 \<or> int cols \<le> 0) = False" "(n < stride * cols) = False"
    using assms(3,4) by (simp_all add: rows_def stride_def)
  note d = gxfp_decode_milan_def [of env "Some pay" n "int rows" "int cols" "Some im" h,
      unfolded option.case prod.case Let_def nat_int w if_False]
  show ?thesis
  proof (cases env "?w * cols" h rule: malloc_cases)
    case null
    then have "\<not> sys_malloc env h (?w * cols)" by (simp add: malloc_def split: if_splits)
    then show ?thesis using null by (auto simp: d decoded_def)
  next
    case (block pu0)
    let ?h1 = "UMalloc (?w * cols) # h"
    define pu where "pu = foldl (\<lambda>pu c. memcpy_at pu (c * ?w) (take ?w (drop (c * stride) pay))) pu0 [0..<cols]"
    have pu: "pu ! (c * ?w + j) = pay ! (c * stride + j)" if "c < cols" "j < ?w" for c j
      using milan_gather [of pu0 ?w cols stride pay cols] block(2) that assms(4,5) by (simp add: pu_def stride_def)
    show ?thesis
    proof (cases rule: calloc16_cases [where env = env and n = "rows * cols" and h = ?h1])
      case null
      then show ?thesis using block(1) by (auto simp: d decoded_def ufree_def)
    next
      case col: block
      let ?S = "\<lambda>i. of_nat (sample12 (\<lambda>j. pu ! (i div rows * ?w + j)) (i mod rows)) :: u16"
      let ?h2 = "ufree (UMalloc (2 * (rows * cols)) # ?h1)"
      have l: "milan_loop rows (rows * cols) pu (?w * cols) 0 0 (replicate (rows * cols) 0) =
          Some (rows * cols, map ?S [0..<rows * cols])"
        using milan_loop_correct [of 0 cols 0 k "replicate (rows * cols) 0" pu, folded rows_def] assms(3) by simp
      have run: "gxfp_decode_milan env (Some pay) n (int rows) (int cols) (Some im) h =
          (case malloc16 env (rows * cols) ?h2 of
             (None, h) \<Rightarrow> Some ((- ENOMEM, Some im), ufree h)
           | (Some row_major, h) \<Rightarrow>
               Some ((0, Some (im\<lparr>im_pixels := Some (memcpy_at row_major 0 (transpose_cols rows cols (map ?S [0..<rows * cols]))),
                  im_rows := int rows, im_cols := int cols\<rparr>)), ufree h))"
        unfolding d block(1) prod.case option.case pu_def [symmetric] col l by simp
      have px: "unat (transpose_cols rows cols (map ?S [0..<rows * cols]) ! (r * cols + c)) =
          sample12 (\<lambda>j. pay ! (c * stride + j)) r" if "r < rows" "c < cols" for r c
      proof -
        have "sample12 (\<lambda>j. pu ! (c * ?w + j)) r = sample12 (\<lambda>j. pay ! (c * stride + j)) r"
          using that pu by (intro milan_sample_src [of r k]) (simp_all add: rows_def)
        then show ?thesis
          using that mult_index_less [OF that] by (simp add: nth_transpose_cols)
      qed
      show ?thesis
      proof (cases rule: malloc16_cases [where env = env and n = "rows * cols" and h = ?h2])
        case null
        then show ?thesis unfolding run by (auto simp: decoded_def ufree_def)
      next
        case (block rm)
        then show ?thesis
          unfolding run using px by (auto simp: decoded_def ufree_def memcpy_at_0 nth_append mult_index_less mult.commute)
      qed
    qed
  qed
qed

section \<open>The Chicago loop\<close>

definition chicago_dst :: "nat \<Rightarrow> nat \<Rightarrow> bool \<Rightarrow> nat \<Rightarrow> nat" where
  "chicago_dst rows cols by_cols i = (if by_cols then (i mod rows) * cols + i div rows else i)"

lemma chicago_put_in:
  assumes "i < rows * cols"
  shows "chicago_dst rows cols by_cols i < rows * cols"
    and "chicago_put rows cols (rows * cols) by_cols px i v = px[chicago_dst rows cols by_cols i := v]"
proof -
  have "0 < rows" using assms by (cases rows) simp_all
  then have "i mod rows < rows" "i div rows < cols"
    using assms by (simp_all add: div_less_iff_less_mult mult.commute)
  then have "i mod rows * cols + i div rows < rows * cols"
    using mult_index_less [of "i div rows" cols "i mod rows" rows] by (simp add: mult.commute)
  then show "chicago_dst rows cols by_cols i < rows * cols"
    "chicago_put rows cols (rows * cols) by_cols px i v = px[chicago_dst rows cols by_cols i := v]"
    using assms by (simp_all add: chicago_dst_def chicago_put_def Let_def)
qed

lemma chicago_dst_inj:
  assumes "i < rows * cols" "j < rows * cols" "chicago_dst rows cols by_cols i = chicago_dst rows cols by_cols j"
  shows "i = j"
proof (cases by_cols)
  case True
  have "0 < rows" using assms by (cases rows) simp_all
  then have d: "i div rows < cols" "j div rows < cols"
    using assms(1,2) by (simp_all add: div_less_iff_less_mult mult.commute)
  have e: "i mod rows * cols + i div rows = j mod rows * cols + j div rows"
    using assms(3) True by (simp add: chicago_dst_def)
  then have "(i mod rows * cols + i div rows) mod cols = (j mod rows * cols + j div rows) mod cols" by simp
  then have "i div rows = j div rows" using d by simp
  moreover from this e have "i mod rows = j mod rows" using d(1) by simp
  ultimately show ?thesis by (metis div_mult_mod_eq)
qed (use assms(3) in \<open>simp add: chicago_dst_def\<close>)

lemma foldl_scatter:
  assumes "\<And>i. i < n \<Longrightarrow> D i < length px" "\<And>i j. i < n \<Longrightarrow> j < n \<Longrightarrow> D i = D j \<Longrightarrow> i = j"
  shows "length (foldl (\<lambda>px i. px[D i := s i]) px [0..<n]) = length px \<and>
    (\<forall>i < n. foldl (\<lambda>px i. px[D i := s i]) px [0..<n] ! D i = s i)"
  using assms
proof (induction n)
  case (Suc n)
  then have IH: "length (foldl (\<lambda>px i. px[D i := s i]) px [0..<n]) = length px"
    "\<forall>i < n. foldl (\<lambda>px i. px[D i := s i]) px [0..<n] ! D i = s i" by simp_all
  have "foldl (\<lambda>px i. px[D i := s i]) px [0..<Suc n] ! D i = s i" if "i < Suc n" for i
  proof (cases "i = n")
    case True
    then show ?thesis using IH(1) Suc.prems(1) by simp
  next
    case False
    then have "D n \<noteq> D i" using Suc.prems(2) [of n i] that by auto
    then show ?thesis using IH(2) False that by simp
  qed
  then show ?case using IH(1) by simp
qed simp

lemma chicago_loop_groups:
  "b \<le> B \<Longrightarrow> 6 * B \<le> n \<Longrightarrow> n < 6 * B + 6 \<Longrightarrow>
   chicago_loop rows cols tot by_cols pay (int n) (6 * b) (4 * b) px =
     (4 * B, foldl (\<lambda>px i. chicago_put rows cols tot by_cols px i (of_nat (sample12 (\<lambda>j. pay ! j) i))) px [4 * b..<4 * B])"
proof (induction "B - b" arbitrary: b px)
  case 0
  then show ?case by (simp add: chicago_loop.simps [of rows])
next
  case (Suc m)
  then have b: "b < B" by simp
  let ?s = "\<lambda>i. of_nat (sample12 (\<lambda>j. pay ! j) i) :: u16"
  let ?g = "\<lambda>px i. chicago_put rows cols tot by_cols px i (?s i)"
  have u: "unpack_sample4 (pay ! (6 * b)) (pay ! (6 * b + 1)) (pay ! (6 * b + 2)) (pay ! (6 * b + 3)) (pay ! (6 * b + 4))
      (pay ! (6 * b + 5)) = map (\<lambda>t. ?s (4 * b + t)) [0..<4]"
    by (rule unpack_sample12 [of "\<lambda>j. pay ! j"])
  have f: "foldl (\<lambda>px off. chicago_put rows cols tot by_cols px (4 * b + off) (map (\<lambda>t. ?s (4 * b + t)) [0..<4] ! off)) px [0..<4] =
      foldl ?g px [4 * b..<4 * b + 4]"
  proof -
    have m: "[4 * b..<4 * b + 4] = map (\<lambda>t. 4 * b + t) [0..<4]" by (rule nth_equalityI) simp_all
    show ?thesis unfolding m foldl_map by (rule foldl_cong) simp_all
  qed
  have "int (6 * b) + 6 \<le> int n" using b Suc.prems(2) by linarith
  then have "chicago_loop rows cols tot by_cols pay (int n) (6 * b) (4 * b) px =
      chicago_loop rows cols tot by_cols pay (int n) (6 * b + 6) (4 * b + 4) (foldl ?g px [4 * b..<4 * b + 4])"
    by (subst chicago_loop.simps) (simp only: if_True Let_def u f)
  also have "\<dots> = (4 * B, foldl ?g (foldl ?g px [4 * b..<4 * b + 4]) [4 * Suc b..<4 * B])"
    using Suc.hyps(1) [of "Suc b" "foldl ?g px [4 * b..<4 * b + 4]"] Suc.hyps(2) Suc.prems b by (simp add: add.commute)
  also have "foldl ?g (foldl ?g px [4 * b..<4 * b + 4]) [4 * Suc b..<4 * B] = foldl ?g px [4 * b..<4 * B]"
  proof -
    have "4 * Suc b \<le> 4 * B" using b by simp
    then have "[4 * b..<4 * B] = [4 * b..<4 * b + 4] @ [4 * Suc b..<4 * B]"
      by (metis le_add1 le_add_diff_inverse mult_Suc_right add.commute upt_add_eq_append)
    then show ?thesis by simp
  qed
  finally show ?case .
qed

lemma sint_length: "n < 2 ^ 31 \<Longrightarrow> sint (of_nat n :: u32) = int n"
  by (simp add: sint_uint unsigned_of_nat signed_take_bit_int_eq_self take_bit_nat_eq_self take_bit_int_eq_self)

lemma decode_chicago_packed:
  assumes "rows * cols = 4 * B" "0 < B" "6 * B \<le> n" "n < 6 * B + 6" "n < 2 ^ 31"
  shows "decoded env im rows cols (\<lambda>r c. sample12 (\<lambda>j. pay ! j) (if n = 0x960 then r * cols + c else c * rows + r)) h
    (gxfp_decode_chicago env (Some pay) n (int rows) (int cols) False (Some im) h)"
proof -
  let ?s = "\<lambda>i. of_nat (sample12 (\<lambda>j. pay ! j) i) :: u16"
  let ?D = "chicago_dst rows cols (n \<noteq> 0x960)"
  let ?z = "replicate (rows * cols) (0 :: u16)"
  define px where "px = foldl (\<lambda>px i. px[?D i := ?s i]) ?z [0..<rows * cols]"
  have pos: "0 < rows" "0 < cols" using assms(1,2) by (cases rows; cases cols; simp)+
  have fold: "chicago_loop rows cols (rows * cols) (n \<noteq> 0x960) pay (int n) 0 0 ?z = (rows * cols, px)"
  proof -
    have "px = foldl (\<lambda>px i. chicago_put rows cols (rows * cols) (n \<noteq> 0x960) px i (?s i)) ?z [0..<rows * cols]"
      unfolding px_def by (rule foldl_cong) (simp_all add: chicago_put_in(2))
    then show ?thesis
      using chicago_loop_groups [of 0 B n rows cols "rows * cols" "n \<noteq> 0x960" pay ?z] assms by simp
  qed
  have sc: "length px = rows * cols" "\<And>i. i < rows * cols \<Longrightarrow> px ! ?D i = ?s i"
    using foldl_scatter [of "rows * cols" ?D ?z ?s] chicago_put_in(1) chicago_dst_inj unfolding px_def by simp_all
  have px: "unat (px ! (r * cols + c)) = sample12 (\<lambda>j. pay ! j) (if n = 0x960 then r * cols + c else c * rows + r)"
    if "r < rows" "c < cols" for r c
  proof (cases "n = 0x960")
    case True
    then show ?thesis
      using sc(2) [of "r * cols + c"] mult_index_less [OF that(2,1)] by (simp add: chicago_dst_def mult.commute)
  next
    case False
    have "?D (c * rows + r) = r * cols + c" using that False by (simp add: chicago_dst_def)
    then show ?thesis using sc(2) [of "c * rows + r"] mult_index_less [OF that] False by simp
  qed
  have run: "gxfp_decode_chicago env (Some pay) n (int rows) (int cols) False (Some im) h =
      (case calloc16 env (rows * cols) h of
         (None, h) \<Rightarrow> ((- ENOMEM, Some im), h)
       | (Some _, h) \<Rightarrow> ((0, Some (im\<lparr>im_pixels := Some px, im_rows := int rows, im_cols := int cols\<rparr>)), h))"
    using pos assms fold
    by (cases rule: calloc16_cases [where env = env and n = "rows * cols" and h = h])
       (simp_all add: gxfp_decode_chicago_def Let_def sint_length)
  show ?thesis
    by (cases rule: calloc16_cases [where env = env and n = "rows * cols" and h = h])
       (use px sc(1) in \<open>auto simp: run decoded_def\<close>)
qed

lemma decode_chicago_u16:
  assumes "0 < rows" "0 < cols" "2 * (rows * cols) \<le> n"
  shows "decoded env im rows cols (\<lambda>r c. unat (pay ! (2 * (r * cols + c))) + 256 * unat (pay ! (2 * (r * cols + c) + 1))) h
    (gxfp_decode_chicago env (Some pay) n (int rows) (int cols) True (Some im) h)"
proof -
  have w: "unat (push_bit 8 (ucast y) OR ucast x :: u16) = unat x + 256 * unat y" for x y :: u8
    using unat_le16 [of x y] by (simp add: le16_def or.commute)
  let ?v = "map (\<lambda>i. push_bit 8 (ucast (pay ! (i * 2 + 1))) OR ucast (pay ! (i * 2)) :: u16) [0..<rows * cols]"
  have px: "unat (?v ! (r * cols + c)) = unat (pay ! (2 * (r * cols + c))) + 256 * unat (pay ! (2 * (r * cols + c) + 1))"
    if "r < rows" "c < cols" for r c
    using mult_index_less [OF that(2,1)] by (simp add: w mult.commute)
  have "\<not> n < rows * cols * 2" using assms(3) by simp
  then have run: "gxfp_decode_chicago env (Some pay) n (int rows) (int cols) True (Some im) h =
      (case malloc16 env (rows * cols) h of
         (None, h) \<Rightarrow> ((- ENOMEM, Some im), h)
       | (Some p, h) \<Rightarrow> ((0, Some (im\<lparr>im_pixels := Some (memcpy_at p 0 ?v), im_rows := int rows, im_cols := int cols\<rparr>)), h))"
    using assms(1,2) by (simp add: gxfp_decode_chicago_def Let_def)
  show ?thesis
  proof (cases rule: malloc16_cases [where env = env and n = "rows * cols" and h = h])
    case null
    then show ?thesis by (auto simp: run decoded_def)
  next
    case (block b)
    then have "memcpy_at b 0 ?v = ?v" by (simp add: memcpy_at_0)
    then show ?thesis
      unfolding run block(1) prod.case option.case by (simp only:) (rule decoded_ok; use px in simp)
  qed
qed

section \<open>The formats\<close>

text \<open>Where the pixel of row \<open>r\<close> and column \<open>c\<close> is found in the body of each format.\<close>

definition format_pixel :: "gxfp_decode_mode \<Rightarrow> bytes \<Rightarrow> nat \<Rightarrow> nat \<Rightarrow> nat" where
  "format_pixel mode body r c =
    (case mode of
       GXFP_DECODE_MILANG_RAW \<Rightarrow> sample12 (\<lambda>j. body ! (c * 84 + j)) r
     | GXFP_DECODE_MILANG_NAV \<Rightarrow> sample12 (\<lambda>j. body ! (c * 84 + j)) r
     | GXFP_DECODE_CHICAGOH_RAW \<Rightarrow> sample12 (\<lambda>j. body ! j) (c * 64 + r)
     | GXFP_DECODE_CHICAGOH_NAV \<Rightarrow> sample12 (\<lambda>j. body ! j) (r * 25 + c)
     | GXFP_DECODE_CHICAGOH_RAW_U16LE \<Rightarrow> unat (body ! (2 * (r * 80 + c))) + 256 * unat (body ! (2 * (r * 80 + c) + 1))
     | GXFP_DECODE_CHICAGOH_NAV_U16LE \<Rightarrow> unat (body ! (2 * (r * 25 + c))) + 256 * unat (body ! (2 * (r * 25 + c) + 1))
     | GXFP_DECODE_AUTO \<Rightarrow> 0)"

lemma detect_at:
  assumes "(m, pl, rows, cols) \<in> set decode_modes" "a \<in> {0, 5}" "b \<in> {0, 4}"
  shows "detect_loop decode_modes buf (a + pl + b) r0 =
    (0, r0\<lparr>ar_mode := m, ar_payload := Some (drop a buf), ar_payload_len := pl\<rparr>)"
proof -
  have "(m, pl) \<in> {(GXFP_DECODE_MILANG_RAW, 0x39C0), (GXFP_DECODE_MILANG_NAV, 0x0540), (GXFP_DECODE_CHICAGOH_RAW, 0x1E00),
      (GXFP_DECODE_CHICAGOH_NAV, 0x0960), (GXFP_DECODE_CHICAGOH_RAW_U16LE, 0x2800), (GXFP_DECODE_CHICAGOH_NAV_U16LE, 0x0C80)}"
    using assms(1) by (auto simp: decode_modes_def)
  then show ?thesis using assms(2,3) unfolding decode_modes_def by (elim insertE emptyE) simp_all
qed

lemma sample12_prefix:
  assumes "6 * (i div 4) + 6 + m \<le> length body"
  shows "sample12 (\<lambda>j. (body @ tail) ! (m + j)) i = sample12 (\<lambda>j. body ! (m + j)) i"
  using assms by (intro sample12_cong) (simp add: nth_append)

lemma format_pixel_prefix:
  assumes "(mode, pl, rows, cols) \<in> set decode_modes" "length body = pl" "int r < rows" "int c < cols"
  shows "format_pixel mode (body @ tail) r c = format_pixel mode body r c"
proof -
  have m: "6 * (r div 4) + 6 + c * 84 \<le> cols * 84" if "r < 54" "c < cols" for cols
  proof -
    have "r div 4 \<le> 13" using that(1) by linarith
    moreover have "Suc c * 84 \<le> cols * 84" using that(2) by (intro mult_le_mono) simp_all
    ultimately show ?thesis by simp
  qed
  have d: "6 * (i div 4) + 6 \<le> 6 * B" if "i < 4 * B" for i B :: nat
    using that less_mult_imp_div_less [of i B 4] by (simp add: mult.commute)
  have x: "r < 64 \<and> c < 80 \<longrightarrow> c * 64 + r < 4 * 1280 \<and> 2 * (r * 80 + c) + 1 < 10240"
    "r < 64 \<and> c < 25 \<longrightarrow> r * 25 + c < 4 * 400 \<and> 2 * (r * 25 + c) + 1 < 3200" by auto
  consider "mode = GXFP_DECODE_MILANG_RAW" "pl = 176 * 84" "r < 54" "c < 176"
    | "mode = GXFP_DECODE_MILANG_NAV" "pl = 16 * 84" "r < 54" "c < 16"
    | "mode = GXFP_DECODE_CHICAGOH_RAW" "pl = 6 * 1280" "c * 64 + r < 4 * 1280"
    | "mode = GXFP_DECODE_CHICAGOH_NAV" "pl = 6 * 400" "r * 25 + c < 4 * 400"
    | "mode = GXFP_DECODE_CHICAGOH_RAW_U16LE" "pl = 10240" "2 * (r * 80 + c) + 1 < 10240"
    | "mode = GXFP_DECODE_CHICAGOH_NAV_U16LE" "pl = 3200" "2 * (r * 25 + c) + 1 < 3200"
    using assms(1,3,4) x by (auto simp: decode_modes_def)
  then show ?thesis
  proof cases
    case 1
    then show ?thesis using m [of 176] assms(2) by (simp add: format_pixel_def sample12_prefix)
  next
    case 2
    then show ?thesis using m [of 16] assms(2) by (simp add: format_pixel_def sample12_prefix)
  next
    case 3
    then show ?thesis using d [OF 3(3)] assms(2) sample12_prefix [where m = 0] by (simp add: format_pixel_def)
  next
    case 4
    then show ?thesis using d [OF 4(3)] assms(2) sample12_prefix [where m = 0] by (simp add: format_pixel_def)
  next
    case 5
    then show ?thesis using assms(2) by (simp add: format_pixel_def nth_append)
  next
    case 6
    then show ?thesis using assms(2) by (simp add: format_pixel_def nth_append)
  qed
qed

text \<open>A format of the table: its mode decodes a body of its length to an image of its size.\<close>

locale image_format =
  fixes mode :: gxfp_decode_mode and pl rows cols :: nat
  assumes listed: "(mode, pl, int rows, int cols) \<in> set decode_modes"
    and decodes: "pl \<le> length body \<Longrightarrow> \<exists>res. gxfp_decode_image env (Some body) pl mode (Some im) h = Some res \<and>
      decoded env im rows cols (format_pixel mode body) h res"
begin

lemma detected:
  assumes "length hdr \<in> {0, 5}" "length tail \<in> {0, 4}" "length body = pl"
  shows "detect_loop decode_modes (hdr @ body @ tail) (length (hdr @ body @ tail)) r0 =
    (0, r0\<lparr>ar_mode := mode, ar_payload := Some (body @ tail), ar_payload_len := pl\<rparr>)"
  using detect_at [OF listed assms(1,2), of "hdr @ body @ tail" r0] assms(3) by (simp add: add.assoc)

lemma auto_decodes:
  assumes "length hdr \<in> {0, 5}" "length tail \<in> {0, 4}" "length body = pl"
  shows "\<exists>res. gxfp_decode_image env (Some (hdr @ body @ tail)) (length (hdr @ body @ tail)) GXFP_DECODE_AUTO (Some im) h =
      Some res \<and> decoded env im rows cols (format_pixel mode body) h res"
proof -
  have "gxfp_decode_image env (Some (hdr @ body @ tail)) (length (hdr @ body @ tail)) GXFP_DECODE_AUTO (Some im) h =
      gxfp_decode_image env (Some (body @ tail)) pl mode (Some im) h"
    using detected [OF assms, of auto_res]
    by (subst gxfp_decode_image.simps) (simp add: gxfp_decode_auto_detect_def)
  moreover obtain res where "gxfp_decode_image env (Some (body @ tail)) pl mode (Some im) h = Some res"
    "decoded env im rows cols (format_pixel mode (body @ tail)) h res"
    using decodes [of "body @ tail" env im h] assms(3) by auto
  moreover have "decoded env im rows cols (format_pixel mode body) h res"
    by (rule decoded_cong [OF calculation(3)]) (use format_pixel_prefix [OF listed assms(3)] in simp)
  ultimately show ?thesis by simp
qed

end

lemmas decode_image_mode = gxfp_decode_image.simps [of _ "Some _" _ _ "Some _"]

interpretation milang_raw: image_format GXFP_DECODE_MILANG_RAW "0x39C0" 54 176
proof unfold_locales
  fix body :: bytes and env im h assume "0x39C0 \<le> length body"
  then show "\<exists>res. gxfp_decode_image env (Some body) 0x39C0 GXFP_DECODE_MILANG_RAW (Some im) h = Some res \<and>
      decoded env im 54 176 (format_pixel GXFP_DECODE_MILANG_RAW body) h res"
    using decode_milan_pixels [of 176 13 "0x39C0" body env im h] by (simp add: decode_image_mode format_pixel_def [abs_def])
qed (simp add: decode_modes_def)

interpretation milang_nav: image_format GXFP_DECODE_MILANG_NAV "0x0540" 54 16
proof unfold_locales
  fix body :: bytes and env im h assume "0x0540 \<le> length body"
  then show "\<exists>res. gxfp_decode_image env (Some body) 0x0540 GXFP_DECODE_MILANG_NAV (Some im) h = Some res \<and>
      decoded env im 54 16 (format_pixel GXFP_DECODE_MILANG_NAV body) h res"
    using decode_milan_pixels [of 16 13 "0x0540" body env im h] by (simp add: decode_image_mode format_pixel_def [abs_def])
qed (simp add: decode_modes_def)

interpretation chicagoh_raw: image_format GXFP_DECODE_CHICAGOH_RAW "0x1E00" 64 80
proof unfold_locales
  fix body :: bytes and env im h
  show "\<exists>res. gxfp_decode_image env (Some body) 0x1E00 GXFP_DECODE_CHICAGOH_RAW (Some im) h = Some res \<and>
      decoded env im 64 80 (format_pixel GXFP_DECODE_CHICAGOH_RAW body) h res"
    using decode_chicago_packed [of 64 80 1280 "0x1E00" env im body h] by (simp add: decode_image_mode format_pixel_def [abs_def])
qed (simp add: decode_modes_def)

interpretation chicagoh_nav: image_format GXFP_DECODE_CHICAGOH_NAV "0x0960" 64 25
proof unfold_locales
  fix body :: bytes and env im h
  show "\<exists>res. gxfp_decode_image env (Some body) 0x0960 GXFP_DECODE_CHICAGOH_NAV (Some im) h = Some res \<and>
      decoded env im 64 25 (format_pixel GXFP_DECODE_CHICAGOH_NAV body) h res"
    using decode_chicago_packed [of 64 25 400 "0x0960" env im body h] by (simp add: decode_image_mode format_pixel_def [abs_def])
qed (simp add: decode_modes_def)

interpretation chicagoh_raw16: image_format GXFP_DECODE_CHICAGOH_RAW_U16LE "0x2800" 64 80
proof unfold_locales
  fix body :: bytes and env im h
  show "\<exists>res. gxfp_decode_image env (Some body) 0x2800 GXFP_DECODE_CHICAGOH_RAW_U16LE (Some im) h = Some res \<and>
      decoded env im 64 80 (format_pixel GXFP_DECODE_CHICAGOH_RAW_U16LE body) h res"
    using decode_chicago_u16 [of 64 80 "0x2800" env im body h] by (simp add: decode_image_mode format_pixel_def [abs_def])
qed (simp add: decode_modes_def)

interpretation chicagoh_nav16: image_format GXFP_DECODE_CHICAGOH_NAV_U16LE "0x0C80" 64 25
proof unfold_locales
  fix body :: bytes and env im h
  show "\<exists>res. gxfp_decode_image env (Some body) 0x0C80 GXFP_DECODE_CHICAGOH_NAV_U16LE (Some im) h = Some res \<and>
      decoded env im 64 25 (format_pixel GXFP_DECODE_CHICAGOH_NAV_U16LE body) h res"
    using decode_chicago_u16 [of 64 25 "0x0C80" env im body h] by (simp add: decode_image_mode format_pixel_def [abs_def])
qed (simp add: decode_modes_def)

section \<open>Properties\<close>

lemma detect_unknown:
  "\<forall>(m, pl, r, c) \<in> set ms. \<forall>a \<in> {0, 5}. \<forall>b \<in> {0, 4}. len \<noteq> a + pl + b \<Longrightarrow> detect_loop ms buf len r0 = (- ENOENT, r0)"
  by (induction ms buf len r0 rule: detect_loop.induct) auto

lemma auto_decode_format:
  assumes "(mode, pl, rows, cols) \<in> set decode_modes"
    and "length hdr \<in> {0, 5}" and "length tail \<in> {0, 4}" and "length body = pl"
  shows "\<exists>res. gxfp_decode_image env (Some (hdr @ body @ tail)) (length (hdr @ body @ tail)) GXFP_DECODE_AUTO (Some im) h =
      Some res \<and> decoded env im (nat rows) (nat cols) (format_pixel mode body) h res"
proof -
  consider "mode = GXFP_DECODE_MILANG_RAW" "pl = 0x39C0" "rows = 54" "cols = 176"
    | "mode = GXFP_DECODE_MILANG_NAV" "pl = 0x0540" "rows = 54" "cols = 16"
    | "mode = GXFP_DECODE_CHICAGOH_RAW" "pl = 0x1E00" "rows = 64" "cols = 80"
    | "mode = GXFP_DECODE_CHICAGOH_NAV" "pl = 0x0960" "rows = 64" "cols = 25"
    | "mode = GXFP_DECODE_CHICAGOH_RAW_U16LE" "pl = 0x2800" "rows = 64" "cols = 80"
    | "mode = GXFP_DECODE_CHICAGOH_NAV_U16LE" "pl = 0x0C80" "rows = 64" "cols = 25"
    using assms(1) by (auto simp: decode_modes_def)
  then show ?thesis
  proof cases
    case 1
    then show ?thesis using milang_raw.auto_decodes [OF assms(2,3)] assms(4) by simp
  next
    case 2
    then show ?thesis using milang_nav.auto_decodes [OF assms(2,3)] assms(4) by simp
  next
    case 3
    then show ?thesis using chicagoh_raw.auto_decodes [OF assms(2,3)] assms(4) by simp
  next
    case 4
    then show ?thesis using chicagoh_nav.auto_decodes [OF assms(2,3)] assms(4) by simp
  next
    case 5
    then show ?thesis using chicagoh_raw16.auto_decodes [OF assms(2,3)] assms(4) by simp
  next
    case 6
    then show ?thesis using chicagoh_nav16.auto_decodes [OF assms(2,3)] assms(4) by simp
  qed
qed

text \<open>Automatic decoding of any buffer: an error that changes nothing, or an image that owns its pixels.\<close>

lemma auto_decode_cases:
  obtains (failed) r h' where "gxfp_decode_image env (Some b) (length b) GXFP_DECODE_AUTO (Some im) h = Some ((r, Some im), h')"
      "r < 0" "ulive h' = ulive h"
  | (image) px rows cols h' where "gxfp_decode_image env (Some b) (length b) GXFP_DECODE_AUTO (Some im) h =
        Some ((0, Some (im\<lparr>im_pixels := Some px, im_rows := int rows, im_cols := int cols\<rparr>)), h')"
      "length px = rows * cols" "0 < rows" "0 < cols" "ulive h' = ulive h + 1"
proof (cases "\<exists>(m, pl, r, c) \<in> set decode_modes. \<exists>x \<in> {0, 5}. \<exists>y \<in> {0, 4}. length b = x + pl + y")
  case True
  then obtain m pl r c x y where f: "(m, pl, r, c) \<in> set decode_modes" "x \<in> {0, 5}" "y \<in> {0, 4}" "length b = x + pl + y" by blast
  define hdr body tail where "hdr = take x b" and "body = take pl (drop x b)" and "tail = drop pl (drop x b)"
  have b: "b = hdr @ body @ tail" by (simp only: hdr_def body_def tail_def append_take_drop_id)
  have l: "length hdr \<in> {0, 5}" "length tail \<in> {0, 4}" "length body = pl" using f by (auto simp: hdr_def body_def tail_def)
  have rc: "0 < nat r" "0 < nat c" using f(1) by (auto simp: decode_modes_def)
  obtain res where res: "gxfp_decode_image env (Some b) (length b) GXFP_DECODE_AUTO (Some im) h = Some res"
    "decoded env im (nat r) (nat c) (format_pixel m body) h res"
    using auto_decode_format [OF f(1) l, of env im h] unfolding b by blast
  obtain k out h' where k: "res = ((k, out), h')" by (metis prod.exhaust)
  show thesis using res(2) rc failed [of "- ENOMEM" h'] image [where rows = "nat r" and cols = "nat c" and h' = h'] res(1) unfolding k decoded_def by auto
next
  case False
  then have "\<forall>(m, pl, r, c) \<in> set decode_modes. \<forall>x \<in> {0, 5}. \<forall>y \<in> {0, 4}. length b \<noteq> x + pl + y" by blast
  then have "gxfp_decode_image env (Some b) (length b) GXFP_DECODE_AUTO (Some im) h = Some ((- ENOENT, Some im), h)"
    by (subst gxfp_decode_image.simps) (simp add: gxfp_decode_auto_detect_def detect_unknown)
  then show thesis by (rule failed) simp_all
qed

text \<open>C33: Automatic decoding handles every format of the table in every shape it arrives in. A body of
  the length of the format, with or without the 5-byte header and with or without the CRC trailer, is
  recognised by its length alone and decoded to an image of the size of the format in which the pixel
  of each row and column is the sample the format puts there; the image takes one new block. When an
  allocation fails the code is -ENOMEM, and output and heap are as before. No store leaves an array.\<close>

theorem decode_every_format:
  assumes "(mode, pl, rows, cols) \<in> set decode_modes"
    and "length hdr \<in> {0, 5}" and "length tail \<in> {0, 4}" and "length body = pl"
  shows "\<exists>res. gxfp_decode_image env (Some (hdr @ body @ tail)) (length (hdr @ body @ tail)) GXFP_DECODE_AUTO (Some im) h =
      Some res \<and> decoded env im (nat rows) (nat cols) (format_pixel mode body) h res"
  by (rule auto_decode_format [OF assms])

theorem decode_every_format_witness:
  "\<exists>res. gxfp_decode_image sim_uenv (Some (zeros 5 @ zeros 0x0540 @ zeros 4)) (length (zeros 5 @ zeros 0x0540 @ zeros 4))
      GXFP_DECODE_AUTO (Some \<lparr>im_pixels = None, im_rows = 0, im_cols = 0\<rparr>) [] = Some res \<and>
    decoded sim_uenv \<lparr>im_pixels = None, im_rows = 0, im_cols = 0\<rparr> (nat 54) (nat 16)
      (format_pixel GXFP_DECODE_MILANG_NAV (zeros 0x0540)) [] res"
  by (rule decode_every_format [of _ "0x0540"]) (simp_all add: decode_modes_def)

text \<open>The least length of a payload that each format does not refuse at once; a packed Chicago payload is only asked for one group.\<close>

definition least_payload :: "(gxfp_decode_mode \<times> nat) list" where
  "least_payload =
    [(GXFP_DECODE_MILANG_RAW, 0x39C0), (GXFP_DECODE_MILANG_NAV, 0x0540), (GXFP_DECODE_CHICAGOH_RAW, 6), (GXFP_DECODE_CHICAGOH_NAV, 6),
     (GXFP_DECODE_CHICAGOH_RAW_U16LE, 0x2800), (GXFP_DECODE_CHICAGOH_NAV_U16LE, 0x0C80)]"

lemma chicago_wrong_count:
  assumes "6 \<le> len" "len < 2 ^ 31" "4 * (len div 6) \<noteq> nat rows * nat cols" "0 < rows" "0 < cols"
  shows "gxfp_decode_chicago env (Some buf) len rows cols False (Some im) h =
    (if sys_malloc env h (2 * (nat rows * nat cols)) then ((- EIO, Some im), ufree (UMalloc (2 * (nat rows * nat cols)) # h)) else ((- ENOMEM, Some im), h))"
proof -
  let ?tot = "nat rows * nat cols"
  have "6 * (len div 6) \<le> len" "len < 6 * (len div 6) + 6" by linarith+
  then have "fst (chicago_loop (nat rows) (nat cols) ?tot (len \<noteq> 0x960) buf (int len) 0 0 (replicate ?tot 0)) = 4 * (len div 6)"
    using chicago_loop_groups [of 0 "len div 6" len "nat rows" "nat cols" ?tot "len \<noteq> 0x960" buf "replicate ?tot 0"] by simp
  then show ?thesis
    using assms by (auto simp: gxfp_decode_chicago_def calloc16_def sint_length Let_def split: prod.split)
qed

text \<open>C34: Decoding fails cleanly. A missing buffer or output image gives -EINVAL. In automatic mode a length that no format has in any
  shape gives -ENOENT. For each of the six formats a payload shorter than it needs gives -EINVAL, where the two packed Chicago formats need
  one group of six bytes; of these a payload with a wrong number of groups gives -EIO, or -ENOMEM when the pixels could not be
  allocated (lengths from 2 GiB on, which wrap in the code, are left out). In each case the output image is untouched and no
  memory is left allocated.\<close>

theorem decode_errors_clean:
  "gxfp_decode_image env None len mode out h = Some ((- EINVAL, out), h) \<and> gxfp_decode_image env pbuf len mode None h = Some ((- EINVAL, None), h) \<and>
    ((\<forall>(m, pl, r, c) \<in> set decode_modes. \<forall>a \<in> {0, 5}. \<forall>b \<in> {0, 4}. len \<noteq> a + pl + b) \<longrightarrow>
      gxfp_decode_image env (Some buf) len GXFP_DECODE_AUTO (Some im) h = Some ((- ENOENT, Some im), h)) \<and>
    (\<forall>(m, least) \<in> set least_payload. len < least \<longrightarrow>
      gxfp_decode_image env (Some buf) len m (Some im) h = Some ((- EINVAL, Some im), h)) \<and>
    (\<forall>(m, groups) \<in> {(GXFP_DECODE_CHICAGOH_RAW, 1280), (GXFP_DECODE_CHICAGOH_NAV, 400)}.
      6 \<le> len \<and> len < 2 ^ 31 \<and> len div 6 \<noteq> groups \<longrightarrow>
      (\<exists>h'. gxfp_decode_image env (Some buf) len m (Some im) h = Some ((if sys_malloc env h (8 * groups) then - EIO else - ENOMEM, Some im), h') \<and>
        ulive h' = ulive h))"
proof (intro conjI impI)
  show "gxfp_decode_image env None len mode out h = Some ((- EINVAL, out), h)" "gxfp_decode_image env pbuf len mode None h = Some ((- EINVAL, None), h)"
    by (subst gxfp_decode_image.simps, simp)+
next
  assume "\<forall>(m, pl, r, c) \<in> set decode_modes. \<forall>a \<in> {0, 5}. \<forall>b \<in> {0, 4}. len \<noteq> a + pl + b"
  then show "gxfp_decode_image env (Some buf) len GXFP_DECODE_AUTO (Some im) h = Some ((- ENOENT, Some im), h)"
    using detect_unknown [of decode_modes len buf auto_res]
    by (subst decode_image_mode) (simp add: gxfp_decode_auto_detect_def)
next
  show "\<forall>(m, least) \<in> set least_payload. len < least \<longrightarrow> gxfp_decode_image env (Some buf) len m (Some im) h = Some ((- EINVAL, Some im), h)"
    by (simp add: least_payload_def decode_image_mode gxfp_decode_milan_def gxfp_decode_chicago_def)
next
  have "\<exists>h'. gxfp_decode_image env (Some buf) len m (Some im) h = Some ((if sys_malloc env h (8 * groups) then - EIO else - ENOMEM, Some im), h') \<and>
      ulive h' = ulive h"
    if "(m, groups) \<in> {(GXFP_DECODE_CHICAGOH_RAW, 1280), (GXFP_DECODE_CHICAGOH_NAV, 400)}" "6 \<le> len" "len < 2 ^ 31" "len div 6 \<noteq> groups" for m groups
    using that chicago_wrong_count [of len 64 80 env buf im h] chicago_wrong_count [of len 64 25 env buf im h] by (auto simp: decode_image_mode)
  then show "\<forall>(m, groups) \<in> {(GXFP_DECODE_CHICAGOH_RAW, 1280), (GXFP_DECODE_CHICAGOH_NAV, 400)}. 6 \<le> len \<and> len < 2 ^ 31 \<and> len div 6 \<noteq> groups \<longrightarrow>
      (\<exists>h'. gxfp_decode_image env (Some buf) len m (Some im) h = Some ((if sys_malloc env h (8 * groups) then - EIO else - ENOMEM, Some im), h') \<and>
        ulive h' = ulive h)" by blast
qed

theorem decode_errors_clean_witness:
  "gxfp_decode_image sim_uenv (Some (zeros 100)) 100 GXFP_DECODE_AUTO (Some \<lparr>im_pixels = None, im_rows = 0, im_cols = 0\<rparr>) [] =
     Some ((- ENOENT, Some \<lparr>im_pixels = None, im_rows = 0, im_cols = 0\<rparr>), []) \<and>
   gxfp_decode_image sim_uenv (Some (zeros 100)) 100 GXFP_DECODE_MILANG_NAV (Some \<lparr>im_pixels = None, im_rows = 0, im_cols = 0\<rparr>) [] =
     Some ((- EINVAL, Some \<lparr>im_pixels = None, im_rows = 0, im_cols = 0\<rparr>), []) \<and>
   (\<exists>h'. gxfp_decode_image sim_uenv (Some (zeros 100)) 100 GXFP_DECODE_CHICAGOH_NAV (Some \<lparr>im_pixels = None, im_rows = 0, im_cols = 0\<rparr>) [] =
     Some ((- EIO, Some \<lparr>im_pixels = None, im_rows = 0, im_cols = 0\<rparr>), h') \<and> ulive h' = ulive [])"
proof -
  let ?im = "\<lparr>im_pixels = None, im_rows = 0, im_cols = 0\<rparr>"
  note d = decode_errors_clean [of sim_uenv 100 GXFP_DECODE_AUTO "Some ?im" "[]" "Some (zeros 100)" "zeros 100" ?im]
  have auto: "\<forall>(m, pl, r, c) \<in> set decode_modes. \<forall>a \<in> {0, 5}. \<forall>b \<in> {0, 4}. 100 \<noteq> a + pl + b" by (simp add: decode_modes_def)
  have nav: "(GXFP_DECODE_MILANG_NAV, 0x0540) \<in> set least_payload" "100 < (0x0540 :: nat)" by (simp_all add: least_payload_def)
  have m: "sys_malloc sim_uenv [] (8 * 400)" by (simp add: sim_uenv_def)
  show ?thesis using d auto nav m by fastforce
qed

text \<open>The exported decoder does not check that the rows suit the packing: with a single row the last
  group of four samples is stored behind the end of the array. No caller in the library passes such a
  size.\<close>

lemma milan_single_row_overruns:
  "gxfp_decode_milan sim_uenv (Some (zeros 12)) 12 1 3 (Some \<lparr>im_pixels = None, im_rows = 0, im_cols = 0\<rparr>) [] = None"
proof -
  have "milan_loop (Suc 0) 3 pu 6 0 0 (replicate 3 0) = None" for pu
    by (subst milan_loop.simps) (simp add: store16_def)
  then show ?thesis
    by (simp add: gxfp_decode_milan_def sim_uenv_def malloc_def calloc16_def Let_def)
qed

end
