(* ===== verification/User_Dev.thy ===== *)
theory User_Dev
  imports User_Sys Kernel_Uapi
begin

unbundle bit_operations_syntax

text \<open>
  The library's access to the character device (\<open>userspace/src/io/dev.c\<close>): opening, polling,
  reading one record, flushing and sending one packet. The layouts of \<open>struct gxfp_tap_hdr\<close> and
  \<open>struct gxfp_tx_pkt_hdr\<close> come from the header both sides share, so they are those of
  \<open>Kernel_Uapi\<close>; the theorems relate the two sides of that interface.

  \<open>struct gxfp_dev\<close> of the library holds only the file descriptor: it is \<open>udev\<close> here, to keep it
  apart from the driver's structure of the same name.
\<close>

section \<open>Definitions\<close>

definition GOODIX_MP_TYPE_CMD :: u8 where "GOODIX_MP_TYPE_CMD = 0x0A"
definition GOODIX_MP_TYPE_TLS :: u8 where "GOODIX_MP_TYPE_TLS = 0x0B"
definition GOODIX_MP_TYPE_NOTICE :: u8 where "GOODIX_MP_TYPE_NOTICE = 0x0C"
definition GOODIX_MP_FLAGS_FROM_TYPE :: "u8 \<Rightarrow> u8" where
  "GOODIX_MP_FLAGS_FROM_TYPE t = push_bit 4 (t AND 0x0F)"
definition GXFP_IOCTL_TAP_PAYLOAD_MAX :: nat where "GXFP_IOCTL_TAP_PAYLOAD_MAX = 128 * 1024"

definition O_CLOEXEC :: int where "O_CLOEXEC = 0x80000"
definition O_NONBLOCK :: int where "O_NONBLOCK = 0x800"
definition POLLERR :: int where "POLLERR = 8"
definition POLLHUP :: int where "POLLHUP = 0x10"
definition POLLNVAL :: int where "POLLNVAL = 0x20"

record udev =
  ud_fd :: int

text \<open>\<open>memcpy (&hdr, data, sizeof (hdr))\<close>.\<close>

definition tap_hdr_of :: "bytes \<Rightarrow> gxfp_tap_hdr" where
  "tap_hdr_of d = \<lparr>th_len = le32 d, th_type = le32 (drop 4 d), th_rsvd0 = le32 (drop 8 d),
     th_ts_ns = le64_word (drop 16 d), th_head16 = take 16 (drop 24 d)\<rparr>"

definition parse_tap_record :: "ptr \<Rightarrow> nat \<Rightarrow> int + gxfp_tap_hdr \<times> ptr \<times> nat" where
  "parse_tap_record data len =
    (case data of
       None \<Rightarrow> Inl (- EINVAL)
     | Some d \<Rightarrow>
         if len < TAP_HDR_SIZE then Inl (- EBADMSG)
         else
           let hdr = tap_hdr_of d;
               need = TAP_HDR_SIZE + unat (th_len hdr)
           in if need \<noteq> len then Inl (- EBADMSG)
              else Inr (hdr, Some (drop TAP_HDR_SIZE d), unat (th_len hdr)))"

definition gxfp_dev_open :: "uenv \<Rightarrow> udev option \<Rightarrow> string option \<Rightarrow> int \<Rightarrow> uhist \<Rightarrow> (int \<times> udev option) \<times> uhist" where
  "gxfp_dev_open env dev path flags h =
    (case (dev, path) of
       (Some d, Some p) \<Rightarrow>
         (case sys_open env h p (flags OR O_CLOEXEC) of
            Inl e \<Rightarrow> ((- e, Some (d\<lparr>ud_fd := -1\<rparr>)), UOpen p (flags OR O_CLOEXEC) # h)
          | Inr fd \<Rightarrow> ((0, Some (d\<lparr>ud_fd := fd\<rparr>)), UOpen p (flags OR O_CLOEXEC) # h))
     | _ \<Rightarrow> ((- EINVAL, dev), h))"

definition gxfp_dev_set_nonblock :: "uenv \<Rightarrow> udev option \<Rightarrow> bool \<Rightarrow> uhist \<Rightarrow> int \<times> uhist" where
  "gxfp_dev_set_nonblock env dev nonblock h =
    (case dev of
       None \<Rightarrow> (- EINVAL, h)
     | Some d \<Rightarrow>
         if ud_fd d < 0 then (- EINVAL, h)
         else
           (case sys_getfl env h (ud_fd d) of
              Inl e \<Rightarrow> (- e, UGetfl (ud_fd d) # h)
            | Inr flags \<Rightarrow>
                let flags = (if nonblock then flags OR O_NONBLOCK else flags AND NOT O_NONBLOCK);
                    h = UGetfl (ud_fd d) # h;
                    e = sys_setfl env h (ud_fd d) flags;
                    h = USetfl (ud_fd d) flags # h
                in if e \<noteq> 0 then (- e, h) else (0, h)))"

definition gxfp_dev_poll_readable :: "uenv \<Rightarrow> udev option \<Rightarrow> int \<Rightarrow> uhist \<Rightarrow> int \<times> uhist" where
  "gxfp_dev_poll_readable env dev timeout_ms h =
    (case dev of
       None \<Rightarrow> (- EINVAL, h)
     | Some d \<Rightarrow>
         if ud_fd d < 0 then (- EINVAL, h)
         else
           let h' = UPoll (ud_fd d) timeout_ms # h
           in (case sys_poll env h (ud_fd d) timeout_ms of
                 Inl e \<Rightarrow> (- e, h')
               | Inr (r, revents) \<Rightarrow>
                   if r = 0 then (- EAGAIN, h')
                   else if revents AND (POLLERR OR POLLHUP OR POLLNVAL) \<noteq> 0 then (- EIO, h')
                   else (0, h')))"

definition gxfp_dev_close :: "udev option \<Rightarrow> uhist \<Rightarrow> udev option \<times> uhist" where
  "gxfp_dev_close dev h =
    (case dev of
       None \<Rightarrow> (None, h)
     | Some d \<Rightarrow> (Some (d\<lparr>ud_fd := -1\<rparr>), if ud_fd d \<ge> 0 then UClose (ud_fd d) # h else h))"

text \<open>\<open>read\<close> stores what it got at the front of \<open>buf\<close>; the payload points into \<open>buf\<close>. The result is
  the code, the buffer, and on success the header with the payload and its length.\<close>

definition gxfp_dev_read_record ::
  "uenv \<Rightarrow> udev option \<Rightarrow> ptr \<Rightarrow> nat \<Rightarrow> uhist \<Rightarrow> (int \<times> ptr \<times> (gxfp_tap_hdr \<times> ptr \<times> nat) option) \<times> uhist" where
  "gxfp_dev_read_record env dev buf buf_cap h =
    (case (dev, buf) of
       (Some d, Some b) \<Rightarrow>
         if ud_fd d < 0 \<or> buf_cap = 0 then ((- EINVAL, buf, None), h)
         else
           let h' = URead (ud_fd d) buf_cap # h
           in (case sys_read env h (ud_fd d) buf_cap of
                 Inl e \<Rightarrow> ((- e, buf, None), h')
               | Inr got \<Rightarrow>
                   let got = take buf_cap got;
                       buf' = Some (memcpy_at b 0 got)
                   in if got = [] then ((- EAGAIN, buf', None), h')
                      else
                        (case parse_tap_record buf' (length got) of
                           Inl pr \<Rightarrow> ((pr, buf', None), h')
                         | Inr out \<Rightarrow> ((int (length got), buf', Some out), h')))
     | _ \<Rightarrow> ((- EINVAL, buf, None), h))"

definition gxfp_dev_flush_rxq :: "uenv \<Rightarrow> udev option \<Rightarrow> uhist \<Rightarrow> int \<times> uhist" where
  "gxfp_dev_flush_rxq env dev h =
    (case dev of
       None \<Rightarrow> (- EINVAL, h)
     | Some d \<Rightarrow>
         if ud_fd d < 0 then (- EINVAL, h)
         else
           let e = sys_ioctl env h (ud_fd d) GXFP_IOCTL_FLUSH_RXQ;
               h = UIoctl (ud_fd d) GXFP_IOCTL_FLUSH_RXQ # h
           in if e \<noteq> 0 then (- e, h) else (0, h))"

text \<open>\<open>struct gxfp_tx_pkt_hdr\<close> in memory, after \<open>memset\<close> and the two assignments.\<close>

definition tx_hdr_bytes :: "u8 \<Rightarrow> u16 \<Rightarrow> bytes" where
  "tx_hdr_bytes flags payload_len = [flags, 0, lo8 payload_len, hi8 payload_len, 0, 0, 0, 0]"

definition gxfp_dev_send_packet ::
  "uenv \<Rightarrow> udev option \<Rightarrow> u8 \<Rightarrow> ptr \<Rightarrow> u16 \<Rightarrow> uhist \<Rightarrow> int \<times> uhist" where
  "gxfp_dev_send_packet env dev mp_type payload payload_len h =
    (case dev of
       None \<Rightarrow> (- EINVAL, h)
     | Some d \<Rightarrow>
         if ud_fd d < 0 then (- EINVAL, h)
         else if payload_len \<noteq> 0 \<and> payload = None then (- EINVAL, h)
         else if unat payload_len > GXFP_IOCTL_TX_PAYLOAD_MAX then (- EMSGSIZE, h)
         else
           let tot = TX_PKT_HDR_SIZE + unat payload_len
           in (case malloc env tot h of
                 (None, h) \<Rightarrow> (- ENOMEM, h)
               | (Some buf, h) \<Rightarrow>
                   let buf = memcpy_at buf 0 (tx_hdr_bytes (GOODIX_MP_FLAGS_FROM_TYPE mp_type) payload_len);
                       buf = (if payload_len \<noteq> 0
                              then memcpy_at buf TX_PKT_HDR_SIZE (ptr_bytes payload (unat payload_len)) else buf);
                       wr = sys_write env h (ud_fd d) buf;
                       h = ufree (UWrite (ud_fd d) buf # h)
                   in (case wr of
                         Inl e \<Rightarrow> (- e, h)
                       | Inr n \<Rightarrow> if n \<noteq> tot then (- EIO, h) else (0, h))))"

section \<open>Lemmas\<close>

lemma tap_hdr_of_bytes: "length (th_head16 hdr) = 16 \<Longrightarrow> tap_hdr_of (tap_hdr_bytes hdr @ r) = hdr"
proof -
  assume h: "length (th_head16 hdr) = 16"
  have [simp]: "drop 4 (le32enc a @ x) = x" for a x by simp
  have d: "drop 8 (tap_hdr_bytes hdr @ r) = drop 4 (drop 4 (tap_hdr_bytes hdr @ r))"
    "drop 16 (tap_hdr_bytes hdr @ r) = drop 4 (drop 4 (drop 4 (drop 4 (tap_hdr_bytes hdr @ r))))"
    "drop 24 (tap_hdr_bytes hdr @ r) = drop 8 (drop 4 (drop 4 (drop 4 (drop 4 (tap_hdr_bytes hdr @ r)))))"
    by simp_all
  show ?thesis
    unfolding tap_hdr_of_def d using h by (simp add: tap_hdr_bytes_def)
qed

text \<open>A record as the driver queues it is what the library's parser takes apart.\<close>

lemma parse_driver_record:
  assumes "rec_ok r"
  shows "parse_tap_record (Some (rec_bytes r @ x)) (length (rec_bytes r)) = Inr (rec_hdr r, Some (tr_payload r @ x), length (tr_payload r))"
proof -
  have "tap_hdr_of (rec_bytes r @ x) = rec_hdr r"
    using tap_hdr_of_bytes [of "rec_hdr r"] by (simp add: rec_bytes_def)
  moreover have "unat (th_len (rec_hdr r)) = length (tr_payload r)"
    using assms by (simp add: rec_hdr_def rec_ok_def GXFP_GOODIX_MP_LEN_MAX_def unsigned_of_nat take_bit_nat_eq_self)
  ultimately show ?thesis
    by (simp add: parse_tap_record_def TAP_HDR_SIZE_def Let_def) (simp add: rec_bytes_def)
qed

lemma read_driver_record:
  assumes "dev = Some d" "0 \<le> ud_fd d" "rec_ok r" "length (rec_bytes r) \<le> cap"
    and "sys_read env h (ud_fd d) cap = Inr (rec_bytes r)"
  shows "gxfp_dev_read_record env dev (Some b) cap h =
    ((int (length (rec_bytes r)), Some (memcpy_at b 0 (rec_bytes r)),
      Some (rec_hdr r, Some (tr_payload r @ drop (length (rec_bytes r)) b), length (tr_payload r))), URead (ud_fd d) cap # h)"
proof -
  have ne: "rec_bytes r \<noteq> []" using length_rec_bytes [of r] by (metis add_is_0 list.size(3) zero_neq_numeral)
  have c: "cap \<noteq> 0" using assms(4) using length_rec_bytes [of r] by linarith
  have b: "memcpy_at b 0 (rec_bytes r) = rec_bytes r @ drop (length (rec_bytes r)) b" by (rule memcpy_at_0)
  have t: "take cap (rec_bytes r) = rec_bytes r" using assms(4) by (rule take_all)
  show ?thesis
    unfolding gxfp_dev_read_record_def assms(1) option.case prod.case Let_def assms(5) sum.case t b
      parse_driver_record [OF assms(3)]
    using assms(2) c ne by simp
qed

lemma tx_record_stores:
  assumes "length b = 8 + length pl"
  shows "memcpy_at (memcpy_at b 0 (tx_hdr_bytes f (of_nat (length pl)))) 8 pl = tx_record f pl"
proof -
  have l: "length (tx_hdr_bytes f w) = 8" for w by (simp add: tx_hdr_bytes_def)
  have "memcpy_at (memcpy_at b 0 (tx_hdr_bytes f (of_nat (length pl)))) 8 pl =
      memcpy_at b 0 (tx_hdr_bytes f (of_nat (length pl)) @ pl)"
    using memcpy_at_append [of 0 b "tx_hdr_bytes f (of_nat (length pl))" pl] by (simp add: l)
  also have "\<dots> = tx_hdr_bytes f (of_nat (length pl)) @ pl" using assms by (simp add: memcpy_at_0 l)
  finally show ?thesis by (simp add: tx_record_def tx_hdr_bytes_def)
qed

lemma send_packet_writes:
  assumes "0 \<le> ud_fd d" "length pl \<le> GXFP_IOCTL_TX_PAYLOAD_MAX" "sys_malloc env h (8 + length pl)"
  shows "gxfp_dev_send_packet env (Some d) ty (Some (pl @ y)) (of_nat (length pl)) h =
    (let h1 = UMalloc (8 + length pl) # h; rec = tx_record (GOODIX_MP_FLAGS_FROM_TYPE ty) pl
     in (case sys_write env h1 (ud_fd d) rec of Inl e \<Rightarrow> - e | Inr n \<Rightarrow> if n = 8 + length pl then 0 else - EIO,
         ufree (UWrite (ud_fd d) rec # h1)))"
proof -
  have l: "unat (of_nat (length pl) :: u16) = length pl"
    using assms(2) by (intro unat_of_nat_u16) (simp add: GXFP_IOCTL_TX_PAYLOAD_MAX_def)
  have z: "(of_nat (length pl) :: u16) = 0 \<longleftrightarrow> pl = []" by (simp only: unat_eq_zero [symmetric] l length_0_conv)
  let ?b = "ufresh env h (8 + length pl)" and ?f = "GOODIX_MP_FLAGS_FROM_TYPE ty"
  have rec: "(if (of_nat (length pl) :: u16) \<noteq> 0
       then memcpy_at (memcpy_at ?b 0 (tx_hdr_bytes ?f (of_nat (length pl)))) 8 (ptr_bytes (Some (pl @ y)) (length pl))
       else memcpy_at ?b 0 (tx_hdr_bytes ?f (of_nat (length pl)))) = tx_record ?f pl"
    using tx_record_stores [of ?b pl ?f] unfolding z by (cases "pl = []") simp_all
  have g: "(ud_fd d < 0) = False" "(length pl > GXFP_IOCTL_TX_PAYLOAD_MAX) = False" using assms(1,2) by auto
  have n: "((of_nat (length pl) :: u16) \<noteq> 0 \<and> Some (pl @ y) = None) = False" by simp
  show ?thesis
    unfolding gxfp_dev_send_packet_def option.case l g n if_False TX_PKT_HDR_SIZE_def malloc_def Let_def if_P [OF assms(3)]
      prod.case rec by (simp split: sum.split)
qed

end
