(* ===== verification/User_Xfer.thy ===== *)
theory User_Xfer
  imports User_Dev
begin

unbundle bit_operations_syntax

text \<open>
  Exchanging Goodix messages with the device (\<open>userspace/src/cmd/goodix_xfer.c\<close>): sending a command,
  waiting for the message a selector picks, and the request that repeats both.

  The wait runs until its deadline, so it is a partial function in the option type; it is proved to
  return when the monotonic clock passes every bound after enough system calls. The receive buffer
  is returned with its new contents; a response length that the C code leaves at zero is zero here.
\<close>

section \<open>Definitions\<close>

type_synonym selector = "gxfp_frame_parsed \<Rightarrow> int"

definition select_any_frame :: selector where
  "select_any_frame frame = 1"

definition gxfp_goodix_send_async :: "uenv \<Rightarrow> udev option \<Rightarrow> u8 \<Rightarrow> ptr \<Rightarrow> u16 \<Rightarrow> uhist \<Rightarrow> int \<times> uhist" where
  "gxfp_goodix_send_async env dev cmd payload payload_len h =
    (let cap = 1 + 2 + GOODIX_PAYLOAD_MAX + 1
     in (case gxfp_goodix_build_frame cmd payload (unat payload_len) (Some (ufresh env h cap)) cap of
           (frame_len, buf) \<Rightarrow>
             if frame_len < 0 then (frame_len, h)
             else gxfp_dev_send_packet env dev GOODIX_MP_TYPE_CMD buf (word_of_int frame_len) h))"

text \<open>A conversion to \<open>int\<close>.\<close>

definition c_int :: "int \<Rightarrow> int" where
  "c_int x = sint (word_of_int x :: u32)"

text \<open>What becomes of a received record: \<open>Inl\<close> when the wait returns (code, receive buffer, length),
  \<open>Inr\<close> with the record buffer when it goes on.\<close>

definition wait_accept ::
  "u8 \<Rightarrow> bytes \<Rightarrow> nat \<Rightarrow> selector \<Rightarrow> bytes \<Rightarrow> gxfp_tap_hdr \<times> ptr \<times> nat \<Rightarrow> (int \<times> bytes \<times> nat) + bytes" where
  "wait_accept expect_cmd rx rx_cap fn tap_buf = (\<lambda>(hdr, rec_payload, rec_payload_len).
    if th_type hdr \<noteq> ucast GOODIX_MP_TYPE_CMD then Inr tap_buf
    else
      (case gxfp_parse_goodix_body rec_payload rec_payload_len (Some frame_zero) of
         (ok, frame) \<Rightarrow>
           if \<not> ok \<or> \<not> fr_valid (the frame) then Inr tap_buf
           else if fr_cmd (the frame) \<noteq> expect_cmd then Inr tap_buf
           else
             let sel = fn (the frame)
             in if sel < 0 then Inl (sel, rx, 0)
                else if sel = 0 then Inr tap_buf
                else if rec_payload_len > rx_cap then Inl (- EMSGSIZE, rx, 0)
                else Inl (0, memcpy_at rx 0 (ptr_bytes rec_payload rec_payload_len), rec_payload_len)))"

text \<open>One round of the wait.\<close>

definition wait_round ::
  "uenv \<Rightarrow> udev option \<Rightarrow> u8 \<Rightarrow> bytes \<Rightarrow> nat \<Rightarrow> int \<Rightarrow> selector \<Rightarrow> bytes \<Rightarrow> uhist \<Rightarrow>
     ((int \<times> bytes \<times> nat) + bytes) \<times> uhist" where
  "wait_round env dev expect_cmd rx rx_cap deadline fn tap_buf h =
    (case gxfp_monotonic_ms env h of
       (now, h) \<Rightarrow>
         let remain = deadline - now
         in if remain \<le> 0 then (Inl (- ETIMEDOUT, rx, 0), h)
            else
              (case gxfp_dev_poll_readable env dev (c_int remain) h of
                 (r, h) \<Rightarrow>
                   if r = - EAGAIN then (Inr tap_buf, h)
                   else if r \<noteq> 0 then (Inl (r, rx, 0), h)
                   else
                     (case gxfp_dev_read_record env dev (Some tap_buf) (TAP_HDR_SIZE + GXFP_IOCTL_TAP_PAYLOAD_MAX) h of
                        ((r, tap, got), h) \<Rightarrow>
                          if r < 0 then (if r = - EAGAIN then Inr (the tap) else Inl (r, rx, 0), h)
                          else
                            (case got of
                               None \<Rightarrow> (Inr (the tap), h)
                             | Some record \<Rightarrow> (wait_accept expect_cmd rx rx_cap fn (the tap) record, h)))))"

partial_function (option) wait_loop ::
  "uenv \<Rightarrow> udev option \<Rightarrow> u8 \<Rightarrow> bytes \<Rightarrow> nat \<Rightarrow> int \<Rightarrow> selector \<Rightarrow> bytes \<Rightarrow> uhist \<Rightarrow>
     ((int \<times> bytes \<times> nat) \<times> uhist) option" where
  "wait_loop env dev expect_cmd rx rx_cap deadline fn tap_buf h =
    (case wait_round env dev expect_cmd rx rx_cap deadline fn tap_buf h of
       (Inl r, h) \<Rightarrow> Some (r, h)
     | (Inr tap_buf, h) \<Rightarrow> wait_loop env dev expect_cmd rx rx_cap deadline fn tap_buf h)"

definition gxfp_goodix_wait_selected ::
  "uenv \<Rightarrow> udev option \<Rightarrow> u8 \<Rightarrow> ptr \<Rightarrow> nat \<Rightarrow> int \<Rightarrow> selector option \<Rightarrow> uhist \<Rightarrow>
     ((int \<times> ptr \<times> nat) \<times> uhist) option" where
  "gxfp_goodix_wait_selected env dev expect_cmd rx rx_cap timeout_ms selector h =
    (let fn = (case selector of None \<Rightarrow> select_any_frame | Some f \<Rightarrow> f)
     in (case rx of
           None \<Rightarrow> Some ((- EINVAL, rx, 0), h)
         | Some b \<Rightarrow>
             if dev = None \<or> rx_cap = 0 then Some ((- EINVAL, rx, 0), h)
             else
               let tap_buf = ufresh env h (TAP_HDR_SIZE + GXFP_IOCTL_TAP_PAYLOAD_MAX)
               in (case gxfp_monotonic_ms env h of
                     (now, h) \<Rightarrow>
                       map_option (\<lambda>((r, b, n), h). ((r, Some b, n), h))
                         (wait_loop env dev expect_cmd b rx_cap (now + (if timeout_ms > 0 then timeout_ms else 1000))
                            fn tap_buf h))))"

fun request_loop ::
  "uenv \<Rightarrow> udev option \<Rightarrow> u8 \<Rightarrow> u8 \<Rightarrow> ptr \<Rightarrow> u16 \<Rightarrow> nat \<Rightarrow> int \<Rightarrow> selector option \<Rightarrow> nat \<Rightarrow> ptr \<Rightarrow> uhist \<Rightarrow>
     ((int \<times> ptr \<times> nat) \<times> uhist) option" where
  "request_loop env dev req_cmd expect_cmd payload payload_len rx_cap timeout_ms selector 0 rx h =
     Some ((- ETIMEDOUT, rx, 0), h)"
| "request_loop env dev req_cmd expect_cmd payload payload_len rx_cap timeout_ms selector (Suc n) rx h =
    (case gxfp_goodix_send_async env dev req_cmd payload payload_len h of
       (r, h) \<Rightarrow>
         if r \<noteq> 0 then Some ((r, rx, 0), h)
         else
           (case gxfp_goodix_wait_selected env dev expect_cmd rx rx_cap timeout_ms selector h of
              None \<Rightarrow> None
            | Some ((r, rx, len), h) \<Rightarrow>
                if r = - ETIMEDOUT
                then request_loop env dev req_cmd expect_cmd payload payload_len rx_cap timeout_ms selector n rx h
                else Some ((r, rx, len), h)))"

definition gxfp_goodix_request_selected ::
  "uenv \<Rightarrow> udev option \<Rightarrow> u8 \<Rightarrow> u8 \<Rightarrow> ptr \<Rightarrow> u16 \<Rightarrow> ptr \<Rightarrow> nat \<Rightarrow> int \<Rightarrow> int \<Rightarrow> selector option \<Rightarrow> uhist \<Rightarrow>
     ((int \<times> ptr \<times> nat) \<times> uhist) option" where
  "gxfp_goodix_request_selected env dev req_cmd expect_cmd payload payload_len rx rx_cap tries timeout_ms selector h =
    (if dev = None \<or> rx = None \<or> rx_cap = 0 then Some ((- EINVAL, rx, 0), h)
     else request_loop env dev req_cmd expect_cmd payload payload_len rx_cap timeout_ms selector
            (nat (if tries > 0 then tries else 1)) rx h)"

section \<open>The clock\<close>

definition clock_ms :: "uenv \<Rightarrow> uhist \<Rightarrow> int" where
  "clock_ms env h = fst (gxfp_monotonic_ms env h)"

text \<open>The monotonic clock passes every bound: after enough system calls any given time is over.\<close>

definition clock_runs :: "uenv \<Rightarrow> bool" where
  "clock_runs env \<longleftrightarrow> (\<forall>t. \<exists>n. \<forall>h. n \<le> length h \<longrightarrow> t \<le> clock_ms env h)"

lemma monotonic_ms_eq: "gxfp_monotonic_ms env h = (clock_ms env h, UClock # h)"
  by (simp add: clock_ms_def gxfp_monotonic_ms_def split: prod.split)

section \<open>What a wait does\<close>

text \<open>The system calls of a wait: it looks at the clock, polls and reads, and nothing else.\<close>

fun wait_event :: "uevent \<Rightarrow> bool" where
  "wait_event UClock = True"
| "wait_event (UPoll _ _) = True"
| "wait_event (URead _ _) = True"
| "wait_event _ = False"

definition waited :: "uhist \<Rightarrow> uhist \<Rightarrow> bool" where
  "waited h h' \<longleftrightarrow> (\<exists>es. h' = es @ h \<and> list_all wait_event es)"

lemma waited_refl [simp]: "waited h h"
  by (simp add: waited_def)

lemma waited_Cons: "waited h h' \<Longrightarrow> wait_event e \<Longrightarrow> waited h (e # h')"
  unfolding waited_def by (metis append_Cons list.pred_inject(2))

lemma waited_trans: "waited h h' \<Longrightarrow> waited h' h'' \<Longrightarrow> waited h h''"
  unfolding waited_def by (metis append.assoc list_all_append)

lemma waited_ulive: "waited h h' \<Longrightarrow> ulive h' = ulive h"
proof -
  have "list_all wait_event es \<Longrightarrow> ulive (es @ h) = ulive h" for es
  proof (induction es)
    case (Cons e es)
    then show ?case by (cases e) simp_all
  qed simp
  then show "waited h h' \<Longrightarrow> ulive h' = ulive h" by (auto simp: waited_def)
qed

lemma poll_waited: "gxfp_dev_poll_readable env dev t h = (r, h') \<Longrightarrow> waited h h' \<and> length h \<le> length h'"
  by (auto simp: gxfp_dev_poll_readable_def Let_def intro: waited_Cons
      split: option.splits if_splits sum.splits prod.splits)

lemma read_waited: "gxfp_dev_read_record env dev b n h = (r, h') \<Longrightarrow> waited h h' \<and> length h \<le> length h'"
  by (auto simp: gxfp_dev_read_record_def Let_def intro: waited_Cons
      split: option.splits if_splits sum.splits prod.splits)

text \<open>A message the caller can rely on: a Goodix body of the expected command that fits the received
  length.\<close>

definition response_ok :: "u8 \<Rightarrow> bytes \<Rightarrow> nat \<Rightarrow> bool" where
  "response_ok expect rx len \<longleftrightarrow> body_fits rx len \<and> rx ! 0 = expect"

lemma body_fits_prefix:
  "body_fits b n \<Longrightarrow> n \<le> length b \<Longrightarrow> take n c = take n b \<Longrightarrow> body_fits c n \<and> c ! 0 = b ! 0"
proof -
  assume b: "body_fits b n" "n \<le> length b" "take n c = take n b"
  then have "4 \<le> n" by (simp add: body_fits_def)
  then have "c ! i = b ! i" if "i < 4" for i
    using b(3) that by (metis le_trans less_le_trans nth_take)
  then have "c ! 0 = b ! 0" "c ! 1 = b ! 1" "c ! 2 = b ! 2" by simp_all
  then show ?thesis using b(1) by (simp add: body_fits_def)
qed

lemma read_record_got:
  assumes "gxfp_dev_read_record env dev (Some b) cap h = ((r, tap, got), h')" "cap \<le> length b"
  shows "length (the tap) = length b" and "got = Some (hdr, q, n) \<Longrightarrow> \<exists>p. q = Some p \<and> n \<le> length p"
  using assms
  by (auto simp: gxfp_dev_read_record_def parse_tap_record_def Let_def
      split: option.splits if_splits sum.splits prod.splits)

text \<open>What a wait may return: an error, or a message to rely on.\<close>

definition wait_result :: "u8 \<Rightarrow> bytes \<Rightarrow> nat \<Rightarrow> int \<times> bytes \<times> nat \<Rightarrow> bool" where
  "wait_result expect rx cap = (\<lambda>(rc, rx', n).
     length rx' = length rx \<and> (if rc = 0 then n \<le> cap \<and> response_ok expect rx' n else rx' = rx \<and> n = 0))"

lemma wait_accept_sound:
  assumes "n \<le> length b" "cap \<le> length rx"
  shows "case wait_accept expect rx cap fn tap (hdr, Some b, n) of
     Inl y \<Rightarrow> wait_result expect rx cap y | Inr t \<Rightarrow> t = tap"
proof (cases "body_fits b n")
  case False
  then show ?thesis by (simp add: wait_accept_def parse_user_eq_kernel parse_k_eq)
next
  case True
  have "take n (memcpy_at rx 0 (take n b)) = take n b" using assms(1) by (simp add: memcpy_at_0)
  then have "body_fits (memcpy_at rx 0 (take n b)) n" "memcpy_at rx 0 (take n b) ! 0 = b ! 0"
    using body_fits_prefix [OF True assms(1)] by blast+
  moreover have "fr_cmd (body_view b) = b ! 0" by (simp add: body_view_def Let_def)
  ultimately show ?thesis
    using assms by (auto simp: wait_accept_def ubody.parse_accepts [OF True] Let_def wait_result_def response_ok_def)
qed

text \<open>Every round takes a system call at least, and ends the wait once the deadline is over.\<close>

lemma wait_round_sound:
  assumes "wait_round env dev expect rx cap deadline fn tap h = (x, h')" "cap \<le> length rx"
    and "TAP_HDR_SIZE + GXFP_IOCTL_TAP_PAYLOAD_MAX \<le> length tap"
  shows "waited h h' \<and> length h < length h' \<and>
    (case x of Inl y \<Rightarrow> wait_result expect rx cap y | Inr t \<Rightarrow> length t = length tap \<and> clock_ms env h < deadline)"
proof -
  let ?cap = "TAP_HDR_SIZE + GXFP_IOCTL_TAP_PAYLOAD_MAX"
  have w1: "waited h (UClock # h)" by (rule waited_Cons) simp_all
  have err: "wait_result expect rx cap (rc, rx, 0)" if "rc \<noteq> 0" for rc using that by (simp add: wait_result_def)
  show ?thesis
  proof (cases "deadline \<le> clock_ms env h")
    case True
    then show ?thesis using assms(1) w1 err by (auto simp: wait_round_def monotonic_ms_eq)
  next
    case False
    obtain r h1 where p: "gxfp_dev_poll_readable env dev (c_int (deadline - clock_ms env h)) (UClock # h) = (r, h1)" by fastforce
    have w2: "waited h h1" "length h < length h1" using waited_trans [OF w1] poll_waited [OF p] by auto
    show ?thesis
    proof (cases "r = 0")
      case r: False
      then show ?thesis
        using assms(1) False p w2 err by (auto simp: wait_round_def monotonic_ms_eq split: if_splits)
    next
      case True
      obtain rr t got h2 where rd: "gxfp_dev_read_record env dev (Some tap) ?cap h1 = ((rr, t, got), h2)" by (metis prod.exhaust)
      have w3: "waited h h2" "length h < length h2" using w2 waited_trans [OF w2(1)] read_waited [OF rd] by auto
      have t: "length (the t) = length tap" using read_record_got(1) [OF rd assms(3)] .
      show ?thesis
      proof (cases got)
        case None
        then show ?thesis
          using assms(1) False True p rd w3 t err by (auto simp: wait_round_def monotonic_ms_eq split: if_splits)
      next
        case (Some g)
        obtain hdr q n where g: "g = (hdr, q, n)" by (cases g)
        then obtain b where b: "q = Some b" "n \<le> length b" using read_record_got(2) [OF rd assms(3)] Some by blast
        show ?thesis
          using wait_accept_sound [OF b(2) assms(2), where fn = fn and tap = "the t" and hdr = hdr and expect = expect]
            assms(1) False True p rd w3 t err Some g b(1)
          by (auto simp: wait_round_def monotonic_ms_eq split: if_splits sum.splits)
      qed
    qed
  qed
qed

lemma wait_loop_returns:
  assumes "clock_runs env" "cap \<le> length rx" "TAP_HDR_SIZE + GXFP_IOCTL_TAP_PAYLOAD_MAX \<le> length tap"
  shows "\<exists>y h'. wait_loop env dev expect rx cap deadline fn tap h = Some (y, h') \<and> waited h h' \<and> wait_result expect rx cap y"
proof -
  obtain n where n: "\<And>h. n \<le> length h \<Longrightarrow> deadline \<le> clock_ms env h"
    using assms(1) unfolding clock_runs_def by blast
  show ?thesis
    using assms(3)
  proof (induction "n - length h" arbitrary: h tap rule: less_induct)
    case less
    obtain x h1 where r: "wait_round env dev expect rx cap deadline fn tap h = (x, h1)" by fastforce
    note s = wait_round_sound [OF r assms(2) less.prems]
    show ?case
    proof (cases x)
      case (Inl y)
      then show ?thesis using s r by (simp add: wait_loop.simps [of env])
    next
      case (Inr t)
      then have "length h < n" using s n [of h] by (metis leD not_le_imp_less sum.simps(6))
      then have "n - length h1 < n - length h" using s by linarith
      then obtain y h2 where "wait_loop env dev expect rx cap deadline fn t h1 = Some (y, h2)" "waited h1 h2"
        "wait_result expect rx cap y"
        using less.hyps [of h1 t] s Inr less.prems by fastforce
      moreover from this have "waited h h2" using s waited_trans by blast
      ultimately show ?thesis using r Inr by (simp add: wait_loop.simps [of env _ _ _ _ _ _ tap])
    qed
  qed
qed

lemma wait_selected_returns:
  assumes "clock_runs env" "rx_cap \<le> length rx"
  shows "\<exists>rc rx' n h'. gxfp_goodix_wait_selected env dev expect (Some rx) rx_cap t sel h = Some ((rc, Some rx', n), h') \<and>
    waited h h' \<and> wait_result expect rx rx_cap (rc, rx', n)"
proof (cases "dev = None \<or> rx_cap = 0")
  case True
  then show ?thesis by (auto simp: gxfp_goodix_wait_selected_def wait_result_def Let_def)
next
  case False
  let ?fn = "case sel of None \<Rightarrow> select_any_frame | Some f \<Rightarrow> f"
  let ?tap = "ufresh env h (TAP_HDR_SIZE + GXFP_IOCTL_TAP_PAYLOAD_MAX)"
  obtain rc rx' n h' where w: "wait_loop env dev expect rx rx_cap (clock_ms env h + (if t > 0 then t else 1000)) ?fn ?tap (UClock # h) =
      Some ((rc, rx', n), h')" "waited (UClock # h) h'" "wait_result expect rx rx_cap (rc, rx', n)"
    using wait_loop_returns [OF assms, of ?tap dev expect "clock_ms env h + (if t > 0 then t else 1000)" ?fn "UClock # h"]
    by (metis length_ufresh order.refl prod.exhaust)
  have "waited h (UClock # h)" by (rule waited_Cons) simp_all
  then have "waited h h'" using w(2) by (rule waited_trans)
  moreover have "gxfp_goodix_wait_selected env dev expect (Some rx) rx_cap t sel h = Some ((rc, Some rx', n), h')"
    unfolding gxfp_goodix_wait_selected_def Let_def option.case monotonic_ms_eq prod.case w(1)
    using False by auto
  ultimately show ?thesis using w(3) by blast
qed

section \<open>What a request sends\<close>

text \<open>The buffers written to the device, in order.\<close>

fun sent :: "uhist \<Rightarrow> bytes list" where
  "sent [] = []"
| "sent (UWrite _ b # h) = sent h @ [b]"
| "sent (_ # h) = sent h"

lemma waited_sent: "waited h h' \<Longrightarrow> sent h' = sent h"
proof -
  have "list_all wait_event es \<Longrightarrow> sent (es @ h) = sent h" for es
  proof (induction es)
    case (Cons e es)
    then show ?case by (cases e) simp_all
  qed simp
  then show "waited h h' \<Longrightarrow> sent h' = sent h" by (auto simp: waited_def)
qed

lemma sent_ufree [simp]: "sent (ufree h) = sent h"
  by (simp add: ufree_def)

text \<open>The packet of a command.\<close>

definition cmd_packet :: "u8 \<Rightarrow> bytes \<Rightarrow> bytes" where
  "cmd_packet cmd pl = tx_record 0xA0 (body_bytes cmd pl)"

lemma flags_cmd: "GOODIX_MP_FLAGS_FROM_TYPE GOODIX_MP_TYPE_CMD = 0xA0"
  by (simp add: GOODIX_MP_FLAGS_FROM_TYPE_def GOODIX_MP_TYPE_CMD_def)

lemma send_async_eq:
  assumes "0 \<le> ud_fd d" "length pl \<le> 504"
  shows "gxfp_goodix_send_async env (Some d) cmd (Some pl) (of_nat (length pl)) h =
    (if sys_malloc env h (12 + length pl) then
       (let h1 = UMalloc (12 + length pl) # h
        in (case sys_write env h1 (ud_fd d) (cmd_packet cmd pl) of
              Inl e \<Rightarrow> - e | Inr n \<Rightarrow> if n = 12 + length pl then 0 else - EIO,
            ufree (UWrite (ud_fd d) (cmd_packet cmd pl) # h1)))
     else (- ENOMEM, h))"
proof -
  let ?c = "1 + 2 + GOODIX_PAYLOAD_MAX + 1" and ?b = "body_bytes cmd pl"
  have l: "unat (of_nat (length pl) :: u16) = length pl" using assms(2) by (intro unat_of_nat_u16) simp
  have b: "gxfp_goodix_build_frame cmd (Some pl) (length pl) (Some (ufresh env h ?c)) ?c =
      (int (length pl + 4), Some (?b @ drop (length ?b) (ufresh env h ?c)))"
    using ubody.build_frame [of pl ?c "ufresh env h ?c" cmd] assms(2)
    by (simp add: GOODIX_PAYLOAD_MAX_def memcpy_at_0)
  have w: "word_of_int (int (length pl + 4)) = (of_nat (length ?b) :: u16)" by simp
  have s: "gxfp_goodix_send_async env (Some d) cmd (Some pl) (of_nat (length pl)) h =
      gxfp_dev_send_packet env (Some d) GOODIX_MP_TYPE_CMD (Some (?b @ drop (length ?b) (ufresh env h ?c))) (of_nat (length ?b)) h"
    unfolding gxfp_goodix_send_async_def l Let_def b prod.case w by simp
  show ?thesis
  proof (cases "sys_malloc env h (12 + length pl)")
    case True
    have "sys_malloc env h (8 + length ?b)" using True by (simp add: add.commute)
    then show ?thesis
      unfolding s using send_packet_writes [OF assms(1), of ?b env h GOODIX_MP_TYPE_CMD] assms(2) True
      by (simp add: GXFP_IOCTL_TX_PAYLOAD_MAX_def flags_cmd cmd_packet_def Let_def add.commute cong: sum.case_cong)
  next
    case False
    have u: "unat (of_nat (length ?b) :: u16) = length pl + 4" using assms(2) by (subst unat_of_nat_u16) simp_all
    show ?thesis
      unfolding s gxfp_dev_send_packet_def u
      using False assms by (simp add: GXFP_IOCTL_TX_PAYLOAD_MAX_def TX_PKT_HDR_SIZE_def malloc_def Let_def add.commute)
  qed
qed

lemma send_async_sends:
  assumes "gxfp_goodix_send_async env (Some d) cmd (Some pl) (of_nat (length pl)) h = (r, h')"
    and "0 \<le> ud_fd d" "length pl \<le> 504"
  shows "ulive h' = ulive h" and "sent h' = sent h \<or> sent h' = sent h @ [cmd_packet cmd pl]"
    and "r = 0 \<Longrightarrow> sent h' = sent h @ [cmd_packet cmd pl]"
    and "(\<forall>h n. sys_malloc env h n) \<Longrightarrow> sent h' = sent h @ [cmd_packet cmd pl]"
  using assms(1) unfolding send_async_eq [OF assms(2,3)] by (auto simp: Let_def split: if_splits sum.splits)

text \<open>What a request with at most \<open>k\<close> tries owes: it returns; its code is 0 only with a message of the
  expected command in the receive buffer; it sent nothing but repetitions of its packet; it leaks
  nothing.\<close>

definition request_post ::
  "uenv \<Rightarrow> u8 \<Rightarrow> u8 \<Rightarrow> bytes \<Rightarrow> bytes \<Rightarrow> nat \<Rightarrow> nat \<Rightarrow> uhist \<Rightarrow> ((int \<times> ptr \<times> nat) \<times> uhist) option \<Rightarrow> bool" where
  "request_post env cmd expect pl rx cap k h res \<longleftrightarrow>
    (\<exists>rc rx' n h'. res = Some ((rc, Some rx', n), h') \<and> wait_result expect rx cap (rc, rx', n) \<and> ulive h' = ulive h \<and>
      (\<exists>i \<le> k. sent h' = sent h @ replicate i (cmd_packet cmd pl) \<and>
         (rc = 0 \<or> 0 < k \<and> 0 < cap \<and> (\<forall>h n. sys_malloc env h n) \<longrightarrow> 0 < i)))"

lemma request_loop_post:
  assumes "clock_runs env" "0 \<le> ud_fd d" "length pl \<le> 504" "cap \<le> length rx"
  shows "request_post env cmd expect pl rx cap k h
    (request_loop env (Some d) cmd expect (Some pl) (of_nat (length pl)) cap t sel k (Some rx) h)"
proof (induction k arbitrary: h)
  case 0
  then show ?case by (simp add: request_post_def wait_result_def)
next
  case (Suc k)
  obtain r h1 where s: "gxfp_goodix_send_async env (Some d) cmd (Some pl) (of_nat (length pl)) h = (r, h1)" by fastforce
  note ss = send_async_sends [OF s assms(2,3)]
  show ?case
  proof (cases "r = 0")
    case False
    have "\<exists>i \<le> Suc k. sent h1 = sent h @ replicate i (cmd_packet cmd pl) \<and> ((\<forall>h n. sys_malloc env h n) \<longrightarrow> 0 < i)"
      using ss(2,4) by (auto intro: exI [of _ 0] exI [of _ 1])
    then show ?thesis using s False ss(1) by (auto simp: request_post_def wait_result_def)
  next
    case True
    obtain rc rx' n h2 where w: "gxfp_goodix_wait_selected env (Some d) expect (Some rx) cap t sel h1 = Some ((rc, Some rx', n), h2)"
      "waited h1 h2" "wait_result expect rx cap (rc, rx', n)"
      using wait_selected_returns [OF assms(1,4)] by metis
    have h2: "ulive h2 = ulive h" "sent h2 = sent h @ [cmd_packet cmd pl]"
      using waited_ulive [OF w(2)] waited_sent [OF w(2)] ss(1,3) True by simp_all
    show ?thesis
    proof (cases "rc = - ETIMEDOUT")
      case False
      then show ?thesis using s True w h2 by (auto simp: request_post_def intro!: exI [of _ "Suc 0"])
    next
      case rc: True
      then have "rx' = rx" using w(3) by (simp add: wait_result_def)
      moreover obtain rc2 rx2 n2 h3 i where
        "request_loop env (Some d) cmd expect (Some pl) (of_nat (length pl)) cap t sel k (Some rx) h2 = Some ((rc2, Some rx2, n2), h3)"
        "wait_result expect rx cap (rc2, rx2, n2)" "ulive h3 = ulive h2" "i \<le> k"
        "sent h3 = sent h2 @ replicate i (cmd_packet cmd pl)"
        using Suc.IH [of h2] unfolding request_post_def by metis
      ultimately show ?thesis
        using s True w(1) rc h2 by (auto simp: request_post_def intro!: exI [of _ "Suc i"])
    qed
  qed
qed

lemma request_selected_post:
  assumes "clock_runs env" "0 \<le> ud_fd d" "length pl \<le> 504" "cap \<le> length rx"
  shows "request_post env cmd expect pl rx cap (nat (max 1 tries)) h
    (gxfp_goodix_request_selected env (Some d) cmd expect (Some pl) (of_nat (length pl)) (Some rx) cap tries t sel h)"
proof (cases "cap = 0")
  case True
  then show ?thesis by (auto simp: gxfp_goodix_request_selected_def request_post_def wait_result_def intro!: exI [of _ 0])
next
  case False
  have "nat (if tries > 0 then tries else 1) = nat (max 1 tries)" by auto
  then show ?thesis
    using request_loop_post [OF assms, of cmd expect "nat (max 1 tries)" h t sel] False
    by (simp add: gxfp_goodix_request_selected_def)
qed

section \<open>Finding the response among the queued records\<close>

fun reads :: "uhist \<Rightarrow> nat" where
  "reads [] = 0"
| "reads (URead _ _ # h) = Suc (reads h)"
| "reads (_ # h) = reads h"

text \<open>The device file serves the records \<open>rs\<close>, one per read, before the deadline.\<close>

definition device_queue :: "uenv \<Rightarrow> int \<Rightarrow> uhist \<Rightarrow> tap_rec list \<Rightarrow> int \<Rightarrow> bool" where
  "device_queue env fd h0 rs deadline \<longleftrightarrow>
    (\<forall>h. waited h0 h \<and> reads h - reads h0 < length rs \<longrightarrow>
       clock_ms env h < deadline \<and> (\<forall>t. sys_poll env h fd t = Inr (1, 1)) \<and>
       (\<forall>n. sys_read env h fd n = Inr (rec_bytes (rs ! (reads h - reads h0)))))"

definition record_matches :: "u8 \<Rightarrow> tap_rec \<Rightarrow> bool" where
  "record_matches expect r \<longleftrightarrow> tr_type r = ucast GOODIX_MP_TYPE_CMD \<and>
     body_fits (tr_payload r) (length (tr_payload r)) \<and> tr_payload r ! 0 = expect"

lemma body_fits_append: "body_fits (p @ x) (length p) = body_fits p (length p)"
proof (cases "4 \<le> length p")
  case True
  then have "(p @ x) ! 1 = p ! 1" "(p @ x) ! 2 = p ! 2" by (simp_all add: nth_append)
  then show ?thesis by (simp add: body_fits_def)
qed (simp add: body_fits_def)

lemma wait_accept_record:
  "wait_accept expect rx cap select_any_frame tap (rec_hdr r, Some (tr_payload r @ x), length (tr_payload r)) =
    (if record_matches expect r
     then if length (tr_payload r) > cap then Inl (- EMSGSIZE, rx, 0)
          else Inl (0, memcpy_at rx 0 (tr_payload r), length (tr_payload r))
     else Inr tap)"
proof (cases "body_fits (tr_payload r) (length (tr_payload r))")
  case True
  then have "fr_cmd (body_view (tr_payload r @ x)) = tr_payload r ! 0"
    by (auto simp: body_view_def Let_def body_fits_def nth_append)
  moreover have "fr_valid (body_view (tr_payload r @ x))" by (simp add: body_view_def Let_def)
  ultimately show ?thesis
    using True ubody.parse_accepts [of "tr_payload r @ x" "length (tr_payload r)"]
    by (auto simp: wait_accept_def record_matches_def rec_hdr_def body_fits_append select_any_frame_def Let_def)
next
  case False
  then show ?thesis
    by (simp add: wait_accept_def record_matches_def parse_user_eq_kernel parse_k_eq body_fits_append)
qed

lemma wait_round_record:
  assumes "device_queue env (ud_fd d) h0 rs deadline" "waited h0 h" "reads h - reads h0 < length rs" "0 \<le> ud_fd d"
    and "rec_ok r" "r = rs ! (reads h - reads h0)" "length tap = TAP_HDR_SIZE + GXFP_IOCTL_TAP_PAYLOAD_MAX"
  obtains h' x where "wait_round env (Some d) expect rx cap deadline select_any_frame tap h =
     (wait_accept expect rx cap select_any_frame (memcpy_at tap 0 (rec_bytes r))
        (rec_hdr r, Some (tr_payload r @ x), length (tr_payload r)), h')"
    "waited h0 h'" "reads h' = Suc (reads h)"
proof -
  let ?cap = "TAP_HDR_SIZE + GXFP_IOCTL_TAP_PAYLOAD_MAX"
  let ?h1 = "UClock # h" and ?t = "c_int (deadline - clock_ms env h)"
  let ?h2 = "UPoll (ud_fd d) ?t # ?h1"
  have w: "waited h0 ?h1" "waited h0 ?h2" "waited h0 (URead (ud_fd d) ?cap # ?h2)"
    using assms(2) by (auto intro!: waited_Cons)
  have q: "clock_ms env h < deadline" "sys_poll env ?h1 (ud_fd d) ?t = Inr (1, 1)"
    "sys_read env ?h2 (ud_fd d) ?cap = Inr (rec_bytes r)"
    using assms(1-3,6) w unfolding device_queue_def by simp_all
  have p: "gxfp_dev_poll_readable env (Some d) ?t ?h1 = (0, ?h2)"
    using assms(4) q(2) by (simp add: gxfp_dev_poll_readable_def POLLERR_def POLLHUP_def POLLNVAL_def)
  have "length (rec_bytes r) \<le> ?cap"
    using assms(5) by (simp add: rec_ok_def GXFP_GOODIX_MP_LEN_MAX_def TAP_HDR_SIZE_def GXFP_IOCTL_TAP_PAYLOAD_MAX_def)
  note rd = read_driver_record [OF refl assms(4,5) this q(3), of tap]
  have "wait_round env (Some d) expect rx cap deadline select_any_frame tap h =
      (wait_accept expect rx cap select_any_frame (memcpy_at tap 0 (rec_bytes r))
        (rec_hdr r, Some (tr_payload r @ drop (length (rec_bytes r)) tap), length (tr_payload r)), URead (ud_fd d) ?cap # ?h2)"
    unfolding wait_round_def monotonic_ms_eq prod.case p rd Let_def using q(1) by simp
  then show ?thesis using that w(3) by fastforce
qed

lemma wait_loop_finds:
  "device_queue env (ud_fd d) h0 (skip0 @ skip @ r # rest) deadline \<Longrightarrow> waited h0 h \<Longrightarrow> 0 \<le> ud_fd d \<Longrightarrow>
   reads h = reads h0 + length skip0 \<Longrightarrow> list_all rec_ok (skip @ [r]) \<Longrightarrow> list_all (\<lambda>r. \<not> record_matches expect r) skip \<Longrightarrow>
   record_matches expect r \<Longrightarrow> length (tr_payload r) \<le> cap \<Longrightarrow> length tap = TAP_HDR_SIZE + GXFP_IOCTL_TAP_PAYLOAD_MAX \<Longrightarrow>
   \<exists>h'. wait_loop env (Some d) expect rx cap deadline select_any_frame tap h =
       Some ((0, memcpy_at rx 0 (tr_payload r), length (tr_payload r)), h') \<and>
     reads h' = reads h + length skip + 1"
proof (induction skip arbitrary: skip0 h tap)
  case Nil
  have k: "reads h - reads h0 < length (skip0 @ [] @ r # rest)" "r = (skip0 @ [] @ r # rest) ! (reads h - reads h0)"
    "rec_ok r" using Nil.prems(4,5) by simp_all
  obtain h' x where "wait_round env (Some d) expect rx cap deadline select_any_frame tap h =
     (wait_accept expect rx cap select_any_frame (memcpy_at tap 0 (rec_bytes r))
        (rec_hdr r, Some (tr_payload r @ x), length (tr_payload r)), h')" "reads h' = Suc (reads h)"
    using wait_round_record [OF Nil.prems(1,2) k(1) Nil.prems(3) k(3,2) Nil.prems(9)] by metis
  then show ?case
    using Nil.prems(7,8) by (simp add: wait_loop.simps [of env] wait_accept_record)
next
  case (Cons s skip)
  let ?rs = "skip0 @ (s # skip) @ r # rest"
  have k: "reads h - reads h0 < length ?rs" "s = ?rs ! (reads h - reads h0)" "rec_ok s"
    using Cons.prems(4,5) by simp_all
  obtain h' x where w: "wait_round env (Some d) expect rx cap deadline select_any_frame tap h =
     (wait_accept expect rx cap select_any_frame (memcpy_at tap 0 (rec_bytes s))
        (rec_hdr s, Some (tr_payload s @ x), length (tr_payload s)), h')" "waited h0 h'" "reads h' = Suc (reads h)"
    using wait_round_record [OF Cons.prems(1,2) k(1) Cons.prems(3) k(3,2) Cons.prems(9)] by metis
  have t: "length (memcpy_at tap 0 (rec_bytes s)) = TAP_HDR_SIZE + GXFP_IOCTL_TAP_PAYLOAD_MAX"
    using Cons.prems(9) k(3) by (simp add: rec_ok_def GXFP_GOODIX_MP_LEN_MAX_def TAP_HDR_SIZE_def GXFP_IOCTL_TAP_PAYLOAD_MAX_def)
  have "device_queue env (ud_fd d) h0 ((skip0 @ [s]) @ skip @ r # rest) deadline" using Cons.prems(1) by simp
  moreover have "reads h' = reads h0 + length (skip0 @ [s])" using w(3) Cons.prems(4) by simp
  ultimately obtain h2 where "wait_loop env (Some d) expect rx cap deadline select_any_frame (memcpy_at tap 0 (rec_bytes s)) h' =
       Some ((0, memcpy_at rx 0 (tr_payload r), length (tr_payload r)), h2)" "reads h2 = reads h' + length skip + 1"
    using Cons.IH [OF _ w(2) Cons.prems(3) _ _ _ Cons.prems(7,8) t, of "skip0 @ [s]"] Cons.prems(5,6) by auto
  then show ?case
    using w(1,3) Cons.prems(6) by (simp add: wait_loop.simps [of env _ _ _ _ _ _ tap] wait_accept_record)
qed

section \<open>Properties\<close>

text \<open>C36: A request ends and reports honestly. Whenever the monotonic clock passes every bound, a
  request of up to 504 bytes returns, whatever the device sends or the system calls answer. It
  reports success only with a message of the expected command in the receive buffer, whose declared
  length fits what was received; on failure the receive buffer is as it was. It sends nothing but
  repetitions of its packet, at most as often as allowed, and at least once on success or when memory
  suffices, and leaks nothing.\<close>

theorem request_contract:
  assumes "clock_runs env" and "0 \<le> ud_fd d" and "length pl \<le> 504" and "cap \<le> length rx"
  shows "request_post env cmd expect pl rx cap (nat (max 1 tries)) h
    (gxfp_goodix_request_selected env (Some d) cmd expect (Some pl) (of_nat (length pl)) (Some rx) cap tries t sel h)"
  using assms by (rule request_selected_post)

lemma sim_clock_runs: "clock_runs sim_uenv"
  unfolding clock_runs_def
proof
  fix t :: int
  have "t \<le> clock_ms sim_uenv h" if "nat t \<le> length h" for h
    using that by (simp add: clock_ms_def gxfp_monotonic_ms_def sim_uenv_def)
  then show "\<exists>n. \<forall>h. n \<le> length h \<longrightarrow> t \<le> clock_ms sim_uenv h" by blast
qed

theorem request_contract_witness:
  "request_post sim_uenv 0xE4 0xE4 [1, 2] (zeros 64) 64 (nat (max 1 2)) []
    (gxfp_goodix_request_selected sim_uenv (Some \<lparr>ud_fd = 3\<rparr>) 0xE4 0xE4 (Some [1, 2]) (of_nat (length [1 :: u8, 2]))
       (Some (zeros 64)) 64 2 500 None [])"
  by (rule request_contract) (simp_all add: sim_clock_runs)

text \<open>C37: The wait delivers the first matching record. When the device file serves queued records
  before the deadline, the wait passes over everything that is not a well-formed message of the
  expected command, copies the payload of the first record that is, reports its length, and leaves
  the records behind it unread.\<close>

theorem wait_delivers_first_match:
  assumes "device_queue env (ud_fd d) h (skip @ r # rest) (clock_ms env h + timeout)" and "0 \<le> ud_fd d" and "0 < timeout"
    and "list_all rec_ok (skip @ [r])" and "list_all (\<lambda>r. \<not> record_matches expect r) skip" and "record_matches expect r"
    and "length (tr_payload r) \<le> cap"
  shows "\<exists>h'. gxfp_goodix_wait_selected env (Some d) expect (Some rx) cap timeout None h =
      Some ((0, Some (memcpy_at rx 0 (tr_payload r)), length (tr_payload r)), h') \<and>
    reads h' = reads h + length skip + 1"
proof -
  have c: "cap \<noteq> 0" using assms(6,7) by (auto simp: record_matches_def body_fits_def)
  have "waited h (UClock # h)" by (rule waited_Cons) simp_all
  then obtain h' where "wait_loop env (Some d) expect rx cap (clock_ms env h + timeout) select_any_frame
      (ufresh env h (TAP_HDR_SIZE + GXFP_IOCTL_TAP_PAYLOAD_MAX)) (UClock # h) =
       Some ((0, memcpy_at rx 0 (tr_payload r), length (tr_payload r)), h')" "reads h' = reads h + length skip + 1"
    using wait_loop_finds [where env = env and d = d and ?h0.0 = h and ?skip0.0 = "[]" and skip = skip and r = r and rest = rest
        and deadline = "clock_ms env h + timeout" and h = "UClock # h" and expect = expect and cap = cap and rx = rx
        and tap = "ufresh env h (TAP_HDR_SIZE + GXFP_IOCTL_TAP_PAYLOAD_MAX)"] assms by auto
  then show ?thesis
    unfolding gxfp_goodix_wait_selected_def Let_def option.case monotonic_ms_eq prod.case
    using c assms(3) by simp
qed

definition sim_queue_env :: "tap_rec list \<Rightarrow> uenv" where
  "sim_queue_env rs = sim_uenv\<lparr>sys_poll := \<lambda>h fd t. Inr (1, 1), sys_read := \<lambda>h fd n. Inr (rec_bytes (rs ! reads h)),
     sys_clock := \<lambda>h. (0, 0)\<rparr>"

definition demo_notice :: tap_rec where
  "demo_notice = \<lparr>tr_type = 0x0C, tr_ts = 0, tr_payload = [1, 2, 3]\<rparr>"

definition demo_ack :: tap_rec where
  "demo_ack = \<lparr>tr_type = 0x0A, tr_ts = 0, tr_payload = body_bytes 0xB0 [0xD4, 1]\<rparr>"

lemma sim_queue_serves: "0 < t \<Longrightarrow> device_queue (sim_queue_env rs) fd [] rs t"
  by (simp add: device_queue_def sim_queue_env_def clock_ms_def gxfp_monotonic_ms_def)

theorem wait_delivers_first_match_witness:
  "\<exists>h'. gxfp_goodix_wait_selected (sim_queue_env [demo_notice, demo_ack]) (Some \<lparr>ud_fd = 3\<rparr>) 0xB0 (Some (zeros 16)) 16 500 None [] =
      Some ((0, Some (memcpy_at (zeros 16) 0 (tr_payload demo_ack)), length (tr_payload demo_ack)), h') \<and>
    reads h' = reads [] + length [demo_notice] + 1"
proof (rule wait_delivers_first_match [where rest = "[]"])
  have "clock_ms (sim_queue_env [demo_notice, demo_ack]) [] = 0"
    by (simp add: clock_ms_def gxfp_monotonic_ms_def sim_queue_env_def)
  then show "device_queue (sim_queue_env [demo_notice, demo_ack]) (ud_fd \<lparr>ud_fd = 3\<rparr>) [] ([demo_notice] @ demo_ack # [])
      (clock_ms (sim_queue_env [demo_notice, demo_ack]) [] + 500)"
    using sim_queue_serves [of 500 "[demo_notice, demo_ack]"] by simp
  have "body_fits (tr_payload demo_ack) (length (tr_payload demo_ack))"
    using body_view_bytes(2) [of "[0xD4, 1]" 6 "0xB0" "[]"] by (simp add: demo_ack_def)
  then show "record_matches 0xB0 demo_ack"
    by (simp add: record_matches_def GOODIX_MP_TYPE_CMD_def demo_ack_def body_bytes_def Let_def)
  show "list_all (\<lambda>r. \<not> record_matches 0xB0 r) [demo_notice]"
    by (simp add: record_matches_def demo_notice_def body_fits_def)
qed (simp_all add: demo_notice_def demo_ack_def rec_ok_def GXFP_GOODIX_MP_LEN_MAX_def)

end
