(* ===== verification/User_Cmd.thy ===== *)
theory User_Cmd
  imports User_Xfer "HOL-Library.Monad_Syntax"
begin

unbundle bit_operations_syntax

text \<open>
  The commands of the library (\<open>userspace/src/cmd/\<close>: \<open>mcu_state_cmd.c\<close>, \<open>register_cmd.c\<close>,
  \<open>tls_cmd.c\<close>, \<open>sensor_cfg_cmd.c\<close>, \<open>device_recovery_cmd.c\<close>, \<open>production_cmd.c\<close>) and the recovery
  sequence built from them (\<open>userspace/src/flow/device_recovery.c\<close>). Commands that only send are
  total; the others wait for a response and are in the option type of the wait. Names the driver
  uses as well carry the suffix \<open>_u\<close>.
\<close>

section \<open>Definitions\<close>

definition GXFP_CMD_SEND_NOP :: u8 where "GXFP_CMD_SEND_NOP = 0x01"
definition GXFP_CMD_NOTIFY_POWER_STATE_u :: u8 where "GXFP_CMD_NOTIFY_POWER_STATE_u = 0x0E"
definition GXFP_CMD_RESET_DEVICE_u :: u8 where "GXFP_CMD_RESET_DEVICE_u = 0xA1"
definition GXFP_CMD_READ_OTP :: u8 where "GXFP_CMD_READ_OTP = 0xA6"
definition GXFP_CMD_FDT_DOWN :: u8 where "GXFP_CMD_FDT_DOWN = 0x32"
definition GXFP_CMD_FDT_UP :: u8 where "GXFP_CMD_FDT_UP = 0x34"
definition GXFP_CMD_FDT_MODE :: u8 where "GXFP_CMD_FDT_MODE = 0x36"
definition GXFP_CMD_FDT_STATUS :: u8 where "GXFP_CMD_FDT_STATUS = 0xDA"
definition GXFP_CMD_GET_IMAGE :: u8 where "GXFP_CMD_GET_IMAGE = 0x20"
definition GXFP_CMD_QUERY_MCU_STATE_u :: u8 where "GXFP_CMD_QUERY_MCU_STATE_u = 0xAE"
definition GXFP_CMD_TRIGGER_MCU_STATE_u :: u8 where "GXFP_CMD_TRIGGER_MCU_STATE_u = 0xAF"
definition GXFP_CMD_ACK_u :: u8 where "GXFP_CMD_ACK_u = 0xB0"
definition GXFP_CMD_UPLOAD_CONFIG_MCU_u :: u8 where "GXFP_CMD_UPLOAD_CONFIG_MCU_u = 0x90"
definition GXFP_CMD_REG_READ :: u8 where "GXFP_CMD_REG_READ = 0x82"
definition GXFP_CMD_TLS_SERVER_INIT :: u8 where "GXFP_CMD_TLS_SERVER_INIT = 0xD0"
definition GXFP_CMD_D01 :: u8 where "GXFP_CMD_D01 = 0xD1"
definition GXFP_CMD_SET_SLEEP_MODE :: u8 where "GXFP_CMD_SET_SLEEP_MODE = 0xD2"
definition GXFP_CMD_TLS_UNLOCK_u :: u8 where "GXFP_CMD_TLS_UNLOCK_u = 0xD4"
definition GXFP_CMD_TLS_UNLOCK_FORCE :: u8 where "GXFP_CMD_TLS_UNLOCK_FORCE = 0xD5"
definition GXFP_CMD_PRODUCTION_WRITE_MCU :: u8 where "GXFP_CMD_PRODUCTION_WRITE_MCU = 0xE0"
definition GXFP_CMD_PRESET_PSK_READ :: u8 where "GXFP_CMD_PRESET_PSK_READ = 0xE4"
definition GXFP_MCU_STATE_LEN :: nat where "GXFP_MCU_STATE_LEN = 20"
definition GXFP_RESET_DELAY_MAGIC :: u8 where "GXFP_RESET_DELAY_MAGIC = 0x14"
definition GXFP_RECOVERY_CMD_TIMEOUT_MS :: int where "GXFP_RECOVERY_CMD_TIMEOUT_MS = 500"

text \<open>The receive buffer the commands have on their stack.\<close>

abbreviation (input) stack_rx :: "uenv \<Rightarrow> uhist \<Rightarrow> ptr" where
  "stack_rx env h \<equiv> Some (ufresh env h GXFP_IOCTL_TAP_PAYLOAD_MAX)"

subsection \<open>State of the controller (\<open>mcu_state_cmd.c\<close>)\<close>

record gxfp_mcu_state_u =
  ms_version :: u8
  ms_b1_raw :: u8
  ms_is_pov_image_valid :: u8
  ms_is_tls_connected :: u8
  ms_is_locked :: u8
  ms_avail_img_cnt :: u8
  ms_pov_img_cnt :: u8
  ms_raw_3_8 :: bytes
  ms_ec_falling_count :: u8
  ms_flags9_pba :: u8
  ms_flags9_tls_session :: u8
  ms_flags9_bit6 :: u8
  ms_raw_10_14 :: bytes
  ms_config_down_flag :: u8
  ms_raw_16_19 :: bytes

definition mcu_zero :: gxfp_mcu_state_u where
  "mcu_zero = \<lparr>ms_version = 0, ms_b1_raw = 0, ms_is_pov_image_valid = 0, ms_is_tls_connected = 0, ms_is_locked = 0,
     ms_avail_img_cnt = 0, ms_pov_img_cnt = 0, ms_raw_3_8 = zeros 6, ms_ec_falling_count = 0, ms_flags9_pba = 0,
     ms_flags9_tls_session = 0, ms_flags9_bit6 = 0, ms_raw_10_14 = zeros 5, ms_config_down_flag = 0,
     ms_raw_16_19 = zeros 4\<rparr>"

definition gxfp_mcu_state_parse_u ::
  "ptr \<Rightarrow> nat \<Rightarrow> gxfp_mcu_state_u option \<Rightarrow> int \<times> gxfp_mcu_state_u option" where
  "gxfp_mcu_state_parse_u buf len out =
    (case (buf, out) of
       (Some b, Some _) \<Rightarrow>
         if len < GXFP_MCU_STATE_LEN then (- EBADMSG, Some mcu_zero)
         else
           (0, Some \<lparr>ms_version = b ! 0, ms_b1_raw = b ! 1,
             ms_is_pov_image_valid = drop_bit 0 (b ! 1) AND 1,
             ms_is_tls_connected = drop_bit 1 (b ! 1) AND 1,
             ms_is_locked = drop_bit 3 (b ! 1) AND 1,
             ms_avail_img_cnt = b ! 2 AND 0x0F,
             ms_pov_img_cnt = drop_bit 4 (b ! 2) AND 0x0F,
             ms_raw_3_8 = take 6 (drop 3 b),
             ms_ec_falling_count = b ! 9,
             ms_flags9_pba = drop_bit 4 (b ! 9) AND 1,
             ms_flags9_tls_session = drop_bit 5 (b ! 9) AND 1,
             ms_flags9_bit6 = drop_bit 6 (b ! 9) AND 1,
             ms_raw_10_14 = take 5 (drop 10 b),
             ms_config_down_flag = b ! 15,
             ms_raw_16_19 = take 4 (drop 16 b)\<rparr>)
     | _ \<Rightarrow> (- EINVAL, out))"

text \<open>The wall clock is after 1970, so \<open>%\<close> is \<open>mod\<close>.\<close>

definition build_trigger_payload :: "uenv \<Rightarrow> uhist \<Rightarrow> bytes \<times> uhist" where
  "build_trigger_payload env h =
    (case sys_realtime env h of
       (sec, nsec) \<Rightarrow>
         let ts = (word_of_int ((sec mod 60) * 1000 + nsec div 1000000) :: u16)
         in ([0x55, ucast (ts AND 0xff), ucast (drop_bit 8 ts AND 0xff), 0, 0], URealtime # h))"

definition gxfp_mcu_state_query ::
  "uenv \<Rightarrow> udev option \<Rightarrow> gxfp_mcu_state_u option \<Rightarrow> uhist \<Rightarrow> ((int \<times> gxfp_mcu_state_u option) \<times> uhist) option" where
  "gxfp_mcu_state_query env dev out_state h =
    (if dev = None \<or> out_state = None then Some ((- EINVAL, out_state), h)
     else
       (case malloc env 4096 h of
          (None, h) \<Rightarrow> Some ((- ENOMEM, out_state), h)
        | (Some rx, h) \<Rightarrow>
            (case build_trigger_payload env (snd (gxfp_dev_flush_rxq env dev h)) of
               (trigger, h) \<Rightarrow> do {
                 ((r, rx, rx_len), h) \<leftarrow> gxfp_goodix_request_selected env dev GXFP_CMD_TRIGGER_MCU_STATE_u
                    GXFP_CMD_QUERY_MCU_STATE_u (Some trigger) (of_nat (length trigger)) (Some rx) 4096 1 500 None h;
                 if r \<noteq> 0 then Some ((r, out_state), ufree h)
                 else
                   (case gxfp_parse_goodix_body rx rx_len (Some frame_zero) of
                      (ok, frame) \<Rightarrow>
                        if \<not> ok \<or> \<not> fr_valid (the frame) \<or> fr_cmd (the frame) \<noteq> GXFP_CMD_QUERY_MCU_STATE_u \<or>
                           fr_payload (the frame) = None \<or> unat (fr_payload_len (the frame)) < GXFP_MCU_STATE_LEN
                        then Some ((- EBADMSG, out_state), ufree h)
                        else Some (gxfp_mcu_state_parse_u (fr_payload (the frame)) (unat (fr_payload_len (the frame))) out_state,
                               ufree h)) })))"

subsection \<open>Registers (\<open>register_cmd.c\<close>)\<close>

definition gxfp_cmd_read_reg :: "uenv \<Rightarrow> udev option \<Rightarrow> u16 \<Rightarrow> ptr \<Rightarrow> u16 \<Rightarrow> uhist \<Rightarrow> ((int \<times> ptr) \<times> uhist) option" where
  "gxfp_cmd_read_reg env dev reg out out_len h =
    (if dev = None \<or> out = None \<or> out_len = 0 then Some ((- EINVAL, out), h)
     else
       let payload = [0x00, ucast (reg AND 0xff), ucast (drop_bit 8 reg AND 0xff),
                      ucast (out_len AND 0xff), ucast (drop_bit 8 out_len AND 0xff)]
       in do {
         ((rc, rx, rx_len), h) \<leftarrow> gxfp_goodix_request_selected env dev GXFP_CMD_REG_READ GXFP_CMD_REG_READ (Some payload)
            (of_nat (length payload)) (stack_rx env h) GXFP_IOCTL_TAP_PAYLOAD_MAX 3 500 None h;
         if rc \<noteq> 0 then Some ((rc, out), h)
         else
           (case gxfp_parse_goodix_body rx rx_len (Some frame_zero) of
              (ok, frame) \<Rightarrow>
                if \<not> ok then Some ((- EBADMSG, out), h)
                else if fr_payload (the frame) = None \<or> fr_payload_len (the frame) < out_len then Some ((- EBADMSG, out), h)
                else Some ((0, map_option (\<lambda>b. memcpy_at b 0 (ptr_bytes (fr_payload (the frame)) (unat out_len))) out), h)) })"

definition gxfp_cmd_read_chip_id :: "uenv \<Rightarrow> udev option \<Rightarrow> u16 option \<Rightarrow> uhist \<Rightarrow> ((int \<times> u16 option) \<times> uhist) option" where
  "gxfp_cmd_read_chip_id env dev out_chip_id h =
    (if dev = None \<or> out_chip_id = None then Some ((- EINVAL, out_chip_id), h)
     else do {
       ((rc, buf), h) \<leftarrow> gxfp_cmd_read_reg env dev 0x0000 (Some (ufresh env h 4)) 4 h;
       if rc \<noteq> 0 then Some ((rc, Some 0), h)
       else Some ((0, Some (ucast (the buf ! 1) OR push_bit 8 (ucast (the buf ! 2)))), h) })"

subsection \<open>TLS commands (\<open>tls_cmd.c\<close>)\<close>

text \<open>What both acknowledged-command helpers do with the response.\<close>

definition ack_verdict :: "ptr \<Rightarrow> nat \<Rightarrow> int" where
  "ack_verdict rx rx_len =
    (case gxfp_parse_goodix_body rx rx_len (Some frame_zero) of
       (ok, frame) \<Rightarrow>
         if \<not> ok \<or> \<not> fr_valid (the frame) then - EBADMSG
         else if fr_cmd (the frame) \<noteq> GXFP_CMD_ACK_u then - EBADMSG
         else 0)"

definition gxfp_tls_cmd_send_expect_ack ::
  "uenv \<Rightarrow> udev option \<Rightarrow> u8 \<Rightarrow> ptr \<Rightarrow> u16 \<Rightarrow> int \<Rightarrow> uhist \<Rightarrow> (int \<times> uhist) option" where
  "gxfp_tls_cmd_send_expect_ack env dev cmd payload payload_len timeout_ms h = do {
     ((rc, rx, rx_len), h) \<leftarrow> gxfp_goodix_request_selected env dev cmd GXFP_CMD_ACK_u payload payload_len
        (stack_rx env h) GXFP_IOCTL_TAP_PAYLOAD_MAX 1 timeout_ms None h;
     if rc \<noteq> 0 then Some (rc, h) else Some (ack_verdict rx rx_len, h) }"

definition gxfp_cmd_tls_server_init :: "uenv \<Rightarrow> udev option \<Rightarrow> uhist \<Rightarrow> int \<times> uhist" where
  "gxfp_cmd_tls_server_init env dev h =
    (if dev = None then (- EINVAL, h) else gxfp_goodix_send_async env dev GXFP_CMD_TLS_SERVER_INIT (Some [0x00, 0x00]) 2 h)"

definition gxfp_cmd_get_image :: "uenv \<Rightarrow> udev option \<Rightarrow> uhist \<Rightarrow> int \<times> uhist" where
  "gxfp_cmd_get_image env dev h =
    (if dev = None then (- EINVAL, h) else gxfp_goodix_send_async env dev GXFP_CMD_GET_IMAGE (Some [0x01, 0x00]) 2 h)"

definition gxfp_cmd_tls_unlock_u :: "uenv \<Rightarrow> udev option \<Rightarrow> uhist \<Rightarrow> (int \<times> uhist) option" where
  "gxfp_cmd_tls_unlock_u env dev h =
    (if dev = None then Some (- EINVAL, h)
     else gxfp_tls_cmd_send_expect_ack env dev GXFP_CMD_TLS_UNLOCK_u (Some [0x00, 0x00]) 2 500 h)"

definition gxfp_cmd_tls_unlock_force :: "uenv \<Rightarrow> udev option \<Rightarrow> uhist \<Rightarrow> int \<times> uhist" where
  "gxfp_cmd_tls_unlock_force env dev h =
    (if dev = None then (- EINVAL, h) else gxfp_goodix_send_async env dev GXFP_CMD_TLS_UNLOCK_FORCE (Some [0x00, 0x00]) 2 h)"

subsection \<open>Sensor configuration (\<open>sensor_cfg_cmd.c\<close>)\<close>

text \<open>The result is the code, the buffer and the reported length.\<close>

definition gxfp_cmd_read_otp :: "uenv \<Rightarrow> udev option \<Rightarrow> ptr \<Rightarrow> u16 \<Rightarrow> uhist \<Rightarrow> ((int \<times> ptr \<times> u16) \<times> uhist) option" where
  "gxfp_cmd_read_otp env dev otp otp_cap h =
    (if dev = None \<or> otp = None \<or> otp_cap = 0 then Some ((- EINVAL, otp, 0), h)
     else do {
       ((rc, rx, rx_len), h) \<leftarrow> gxfp_goodix_request_selected env dev GXFP_CMD_READ_OTP GXFP_CMD_READ_OTP
          (Some [0x00, 0x00]) 2 (stack_rx env h) GXFP_IOCTL_TAP_PAYLOAD_MAX 8 500 None h;
       if rc \<noteq> 0 then Some ((rc, otp, 0), h)
       else
         (case gxfp_parse_goodix_body rx rx_len (Some frame_zero) of
            (ok, frame) \<Rightarrow>
              if \<not> ok then Some ((- EBADMSG, otp, 0), h)
              else if fr_payload (the frame) = None then Some ((- EBADMSG, otp, 0), h)
              else if fr_payload_len (the frame) > otp_cap then Some ((- EMSGSIZE, otp, 0), h)
              else Some ((0, map_option (\<lambda>b. memcpy_at b 0 (ptr_bytes (fr_payload (the frame)) (unat (fr_payload_len (the frame))))) otp,
                     fr_payload_len (the frame)), h)) })"

definition gxfp_cmd_upload_config_mcu_u ::
  "uenv \<Rightarrow> udev option \<Rightarrow> ptr \<Rightarrow> u16 \<Rightarrow> uhist \<Rightarrow> ((int \<times> u8) \<times> uhist) option" where
  "gxfp_cmd_upload_config_mcu_u env dev cfg cfg_len h =
    (if dev = None \<or> cfg = None \<or> cfg_len = 0 then Some ((- EINVAL, 0xff), h)
     else do {
       ((rc, rx, rx_len), h) \<leftarrow> gxfp_goodix_request_selected env dev GXFP_CMD_UPLOAD_CONFIG_MCU_u GXFP_CMD_ACK_u cfg cfg_len
          (stack_rx env h) GXFP_IOCTL_TAP_PAYLOAD_MAX 2 2000 None h;
       if rc \<noteq> 0 then Some ((rc, 0xff), h)
       else
         (case gxfp_parse_goodix_body rx rx_len (Some frame_zero) of
            (ok, frame) \<Rightarrow>
              if \<not> ok then Some ((- EBADMSG, 0xff), h)
              else Some ((0, case fr_payload (the frame) of
                               Some p \<Rightarrow> if fr_payload_len (the frame) > 0 then p ! 0 else 0x00
                             | None \<Rightarrow> 0x00), h)) })"

subsection \<open>Recovery commands (\<open>device_recovery_cmd.c\<close>)\<close>

definition gxfp_cmd_send_expect_ack ::
  "uenv \<Rightarrow> udev option \<Rightarrow> u8 \<Rightarrow> ptr \<Rightarrow> u16 \<Rightarrow> int \<Rightarrow> int \<Rightarrow> uhist \<Rightarrow> (int \<times> uhist) option" where
  "gxfp_cmd_send_expect_ack env dev cmd payload payload_len tries timeout_ms h = do {
     ((rc, rx, rx_len), h) \<leftarrow> gxfp_goodix_request_selected env dev cmd GXFP_CMD_ACK_u payload payload_len
        (stack_rx env h) GXFP_IOCTL_TAP_PAYLOAD_MAX tries timeout_ms None h;
     if rc \<noteq> 0 then Some (rc, h) else Some (ack_verdict rx rx_len, h) }"

definition gxfp_cmd_notify_power_state_u :: "uenv \<Rightarrow> udev option \<Rightarrow> uhist \<Rightarrow> (int \<times> uhist) option" where
  "gxfp_cmd_notify_power_state_u env dev h =
    (if dev = None then Some (- EINVAL, h)
     else gxfp_cmd_send_expect_ack env dev GXFP_CMD_NOTIFY_POWER_STATE_u (Some [0x01]) 1 1 GXFP_RECOVERY_CMD_TIMEOUT_MS h)"

definition gxfp_cmd_send_nop :: "uenv \<Rightarrow> udev option \<Rightarrow> uhist \<Rightarrow> (int \<times> uhist) option" where
  "gxfp_cmd_send_nop env dev h =
    (if dev = None then Some (- EINVAL, h)
     else gxfp_cmd_send_expect_ack env dev GXFP_CMD_SEND_NOP (Some [0x00, 0x00, 0x00, 0x00]) 4 1 GXFP_RECOVERY_CMD_TIMEOUT_MS h)"

definition gxfp_cmd_set_sleep_mode :: "uenv \<Rightarrow> udev option \<Rightarrow> uhist \<Rightarrow> (int \<times> uhist) option" where
  "gxfp_cmd_set_sleep_mode env dev h =
    (if dev = None then Some (- EINVAL, h)
     else gxfp_cmd_send_expect_ack env dev GXFP_CMD_SET_SLEEP_MODE (Some [0x00, 0x00]) 2 1 GXFP_RECOVERY_CMD_TIMEOUT_MS h)"

definition gxfp_cmd_d01 :: "uenv \<Rightarrow> udev option \<Rightarrow> uhist \<Rightarrow> (int \<times> uhist) option" where
  "gxfp_cmd_d01 env dev h =
    (if dev = None then Some (- EINVAL, h)
     else gxfp_cmd_send_expect_ack env dev GXFP_CMD_D01 (Some [0x00, 0x00]) 2 1 GXFP_RECOVERY_CMD_TIMEOUT_MS h)"

definition gxfp_cmd_reset_device_u :: "uenv \<Rightarrow> udev option \<Rightarrow> u8 \<Rightarrow> uhist \<Rightarrow> (int \<times> uhist) option" where
  "gxfp_cmd_reset_device_u env dev reset_flag h =
    (if dev = None then Some (- EINVAL, h)
     else gxfp_cmd_send_expect_ack env dev GXFP_CMD_RESET_DEVICE_u (Some [reset_flag, GXFP_RESET_DELAY_MAGIC]) 2 6
            GXFP_RECOVERY_CMD_TIMEOUT_MS h)"

subsection \<open>Production data (\<open>production_cmd.c\<close>)\<close>

definition production_write_selector :: selector where
  "production_write_selector frame =
    (if fr_payload frame = None then - EBADMSG else if fr_payload_len frame < 1 then 0 else 1)"

definition preset_psk_selector :: "u32 option \<Rightarrow> selector" where
  "preset_psk_selector c frame =
    (case fr_payload frame of
       None \<Rightarrow> - EBADMSG
     | Some p \<Rightarrow>
         if fr_payload_len frame < 9 then 0
         else if p ! 0 \<noteq> 0 then - EIO
         else
           let data_type = gxfp_le32 (drop 1 p);
               data_len = gxfp_le32 (drop 5 p)
           in if data_len > ucast (fr_payload_len frame) - 9 then - EBADMSG
              else (case c of
                      Some want \<Rightarrow> if want \<noteq> 0 \<and> data_type \<noteq> want then 0 else 1
                    | None \<Rightarrow> 1))"

definition gxfp_cmd_production_write_mcu ::
  "uenv \<Rightarrow> udev option \<Rightarrow> ptr \<Rightarrow> u16 \<Rightarrow> uhist \<Rightarrow> ((int \<times> u32) \<times> uhist) option" where
  "gxfp_cmd_production_write_mcu env dev blob blob_len h =
    (if dev = None \<or> blob = None then Some ((- EINVAL, 0xffffffff), h)
     else do {
       ((rc, rx, rx_len), h) \<leftarrow> gxfp_goodix_request_selected env dev GXFP_CMD_PRODUCTION_WRITE_MCU GXFP_CMD_PRODUCTION_WRITE_MCU
          blob blob_len (stack_rx env h) GXFP_IOCTL_TAP_PAYLOAD_MAX 4 2000 (Some production_write_selector) h;
       if rc \<noteq> 0 then Some ((rc, 0xffffffff), h)
       else
         (case gxfp_parse_goodix_body rx rx_len (Some frame_zero) of
            (ok, frame) \<Rightarrow>
              if \<not> ok \<or> \<not> fr_valid (the frame) then Some ((- EBADMSG, 0xffffffff), h)
              else if fr_cmd (the frame) \<noteq> GXFP_CMD_PRODUCTION_WRITE_MCU then Some ((- EBADMSG, 0xffffffff), h)
              else
                (case fr_payload (the frame) of
                   None \<Rightarrow> Some ((- EBADMSG, 0xffffffff), h)
                 | Some p \<Rightarrow>
                     if fr_payload_len (the frame) < 1 then Some ((- EBADMSG, 0xffffffff), h)
                     else Some ((0, ucast (p ! 0)), h))) })"

text \<open>What the read does with the response; the result is the code, the data buffer and the reported
  length.\<close>

definition psk_accept :: "u32 \<Rightarrow> ptr \<Rightarrow> u32 \<Rightarrow> ptr \<Rightarrow> nat \<Rightarrow> int \<times> ptr \<times> u32" where
  "psk_accept data_type data data_cap rx rx_len =
    (case gxfp_parse_goodix_body rx rx_len (Some frame_zero) of
       (ok, frame) \<Rightarrow>
         if \<not> ok \<or> \<not> fr_valid (the frame) then (- EBADMSG, data, 0)
         else if fr_cmd (the frame) \<noteq> GXFP_CMD_PRESET_PSK_READ then (- EBADMSG, data, 0)
         else
           (case fr_payload (the frame) of
              None \<Rightarrow> (- EBADMSG, data, 0)
            | Some p \<Rightarrow>
                if fr_payload_len (the frame) < 9 then (- EBADMSG, data, 0)
                else if p ! 0 \<noteq> 0 then (- EIO, data, 0)
                else if gxfp_le32 (drop 1 p) \<noteq> data_type then (- ENODATA, data, 0)
                else
                  let payload_len = gxfp_le32 (drop 5 p)
                  in if payload_len > ucast (fr_payload_len (the frame)) - 9 then (- EBADMSG, data, 0)
                     else if payload_len > data_cap then (- EMSGSIZE, data, 0)
                     else (0, map_option (\<lambda>b. memcpy_at b 0 (take (unat payload_len) (drop 9 p))) data, payload_len)))"

definition gxfp_cmd_preset_psk_read ::
  "uenv \<Rightarrow> udev option \<Rightarrow> u32 \<Rightarrow> ptr \<Rightarrow> u32 \<Rightarrow> bool \<Rightarrow> uhist \<Rightarrow> ((int \<times> ptr \<times> u32) \<times> uhist) option" where
  "gxfp_cmd_preset_psk_read env dev data_type data data_cap out_data_len h =
    (if dev = None \<or> data = None \<or> data_cap = 0 \<or> \<not> out_data_len then Some ((- EINVAL, data, 0), h)
     else
       let req_payload = memcpy_at (zeros 8) 0 (gxfp_le32enc data_type)
       in do {
         ((rc, rx, rx_len), h) \<leftarrow> gxfp_goodix_request_selected env dev GXFP_CMD_PRESET_PSK_READ GXFP_CMD_PRESET_PSK_READ
            (Some req_payload) 8 (stack_rx env h) GXFP_IOCTL_TAP_PAYLOAD_MAX 4 2000
            (Some (preset_psk_selector (Some data_type))) h;
         if rc \<noteq> 0 then Some ((rc, data, 0), h) else Some (psk_accept data_type data data_cap rx rx_len, h) })"

subsection \<open>Recovery (\<open>device_recovery.c\<close>)\<close>

definition gxfp_device_recovery :: "uenv \<Rightarrow> udev option \<Rightarrow> bool \<Rightarrow> bool \<Rightarrow> bool \<Rightarrow> uhist \<Rightarrow> (int \<times> uhist) option" where
  "gxfp_device_recovery env dev unstick_tls reset_mcu reset_sensor h =
    (if dev = None then Some (- EINVAL, h)
     else
       let reset_flag = (if reset_mcu then 0 OR 0x02 else 0 :: u8);
           reset_flag = (if reset_sensor then reset_flag OR 0x01 else reset_flag);
           h = snd (gxfp_dev_flush_rxq env dev h)
       in do {
         (rr, h) \<leftarrow> gxfp_cmd_notify_power_state_u env dev h;
         h \<leftarrow> (if unstick_tls then do {
                  (rr, h) \<leftarrow> gxfp_cmd_d01 env dev h;
                  (rr, h) \<leftarrow> gxfp_cmd_send_nop env dev h;
                  (rr, h) \<leftarrow> gxfp_cmd_tls_unlock_u env dev h;
                  Some h }
                else Some h);
         (rr, h) \<leftarrow> gxfp_cmd_set_sleep_mode env dev h;
         (rc, h) \<leftarrow> (if reset_flag \<noteq> 0 then gxfp_cmd_reset_device_u env dev reset_flag h else Some (0, h));
         Some (rc, snd (gxfp_dev_flush_rxq env dev h)) })"

section \<open>Responses\<close>

lemma body_view_sels [simp]:
  "fr_valid (body_view b)" "fr_cmd (body_view b) = b ! 0" "fr_payload (body_view b) = Some (drop 3 b)"
  "fr_payload_len (body_view b) = le16 (b ! 1) (b ! 2) - 1"
  by (simp_all add: body_view_def Let_def)

lemma parse_response:
  "response_ok e rx n \<Longrightarrow> gxfp_parse_goodix_body (Some rx) n (Some frame_zero) = (True, Some (body_view rx)) \<and> rx ! 0 = e"
  by (simp add: response_ok_def ubody.parse_accepts)

lemma response_bounds:
  assumes "response_ok e rx n"
  shows "unat (fr_payload_len (body_view rx)) + 4 \<le> n"
  using assms unat_minus_1 [of "le16 (rx ! 1) (rx ! 2)"] by (simp add: response_ok_def body_fits_def)

text \<open>The wait has already checked what the acknowledged commands check again.\<close>

lemma ack_verdict_ok: "response_ok GXFP_CMD_ACK_u rx n \<Longrightarrow> ack_verdict (Some rx) n = 0"
  using parse_response [of GXFP_CMD_ACK_u rx n] by (simp add: ack_verdict_def)

section \<open>Acknowledged commands\<close>

text \<open>What such a command owes: it returns, leaks nothing, and sends only its packet, at most \<open>k\<close> times,
  at least once on success and whenever there is memory.\<close>

definition command_post :: "uenv \<Rightarrow> bytes \<Rightarrow> nat \<Rightarrow> int \<Rightarrow> uhist \<Rightarrow> uhist \<Rightarrow> bool" where
  "command_post env packet k rc h h' \<longleftrightarrow> ulive h' = ulive h \<and>
     (\<exists>i \<le> k. sent h' = sent h @ replicate i packet \<and> (rc = 0 \<or> (\<forall>h n. sys_malloc env h n) \<longrightarrow> 0 < i))"

lemma request_returns:
  assumes "clock_runs env" "0 \<le> ud_fd d" "length pl \<le> 504" "w = of_nat (length pl)" "k = nat (max 1 tries)"
    and "0 < cap" "length rx = cap"
  obtains rc rx' n h' where
    "gxfp_goodix_request_selected env (Some d) cmd expect (Some pl) w (Some rx) cap tries t sel h = Some ((rc, Some rx', n), h')"
    "command_post env (cmd_packet cmd pl) k rc h h'" "length rx' = cap" "rc = 0 \<longrightarrow> n \<le> cap \<and> response_ok expect rx' n"
proof -
  have "request_post env cmd expect pl rx cap k h
      (gxfp_goodix_request_selected env (Some d) cmd expect (Some pl) w (Some rx) cap tries t sel h)"
    unfolding assms(4,5) using assms(7) by (intro request_selected_post [OF assms(1-3)]) simp
  moreover have "0 < k" by (simp add: assms(5))
  ultimately have "\<exists>rc rx' n h'.
      gxfp_goodix_request_selected env (Some d) cmd expect (Some pl) w (Some rx) cap tries t sel h = Some ((rc, Some rx', n), h') \<and>
      command_post env (cmd_packet cmd pl) k rc h h' \<and> length rx' = cap \<and> (rc = 0 \<longrightarrow> n \<le> cap \<and> response_ok expect rx' n)"
    using assms(6,7) unfolding request_post_def command_post_def wait_result_def by (clarsimp split: if_splits) blast+
  then show ?thesis using that by blast
qed

lemma tap_max_pos [simp]: "0 < GXFP_IOCTL_TAP_PAYLOAD_MAX"
  by (simp add: GXFP_IOCTL_TAP_PAYLOAD_MAX_def)

lemma expect_ack_post:
  assumes "clock_runs env" "0 \<le> ud_fd d" "length pl \<le> 504" "w = of_nat (length pl)" "k = nat (max 1 tries)"
  shows "\<exists>rc h'. gxfp_cmd_send_expect_ack env (Some d) cmd (Some pl) w tries t h = Some (rc, h') \<and>
    command_post env (cmd_packet cmd pl) k rc h h'"
proof -
  obtain rc rx' n h' where
    "gxfp_goodix_request_selected env (Some d) cmd GXFP_CMD_ACK_u (Some pl) w (stack_rx env h) GXFP_IOCTL_TAP_PAYLOAD_MAX tries t None h =
      Some ((rc, Some rx', n), h')" "command_post env (cmd_packet cmd pl) k rc h h'"
    "rc = 0 \<longrightarrow> n \<le> GXFP_IOCTL_TAP_PAYLOAD_MAX \<and> response_ok GXFP_CMD_ACK_u rx' n"
    using request_returns [OF assms tap_max_pos length_ufresh] by metis
  then show ?thesis
    using ack_verdict_ok [of rx' n] by (cases "rc = 0") (simp_all add: gxfp_cmd_send_expect_ack_def)
qed

lemma tls_expect_ack_eq:
  "gxfp_tls_cmd_send_expect_ack env dev cmd payload w t h = gxfp_cmd_send_expect_ack env dev cmd payload w 1 t h"
  by (simp add: gxfp_tls_cmd_send_expect_ack_def gxfp_cmd_send_expect_ack_def)

locale ack_command =
  fixes run :: "uenv \<Rightarrow> udev option \<Rightarrow> uhist \<Rightarrow> (int \<times> uhist) option" and packet :: bytes and tries :: nat
  assumes runs: "clock_runs env \<Longrightarrow> 0 \<le> ud_fd d \<Longrightarrow>
    \<exists>rc h'. run env (Some d) h = Some (rc, h') \<and> command_post env packet tries rc h h'"
begin

text \<open>A step whose verdict is not looked at.\<close>

lemma step:
  assumes "clock_runs env" "0 \<le> ud_fd d" "\<forall>h n. sys_malloc env h n"
  obtains rc h' i where "run env (Some d) h = Some (rc, h')" "ulive h' = ulive h" "0 < i" "i \<le> tries"
    "sent h' = sent h @ replicate i packet"
  using runs [OF assms(1,2), of h] assms(3) unfolding command_post_def by blast

end

interpretation power: ack_command gxfp_cmd_notify_power_state_u "cmd_packet GXFP_CMD_NOTIFY_POWER_STATE_u [0x01]" 1
  by unfold_locales (simp add: gxfp_cmd_notify_power_state_u_def expect_ack_post)

interpretation nop: ack_command gxfp_cmd_send_nop "cmd_packet GXFP_CMD_SEND_NOP [0x00, 0x00, 0x00, 0x00]" 1
  by unfold_locales (simp add: gxfp_cmd_send_nop_def expect_ack_post)

interpretation sleepmode: ack_command gxfp_cmd_set_sleep_mode "cmd_packet GXFP_CMD_SET_SLEEP_MODE [0x00, 0x00]" 1
  by unfold_locales (simp add: gxfp_cmd_set_sleep_mode_def expect_ack_post)

interpretation d01: ack_command gxfp_cmd_d01 "cmd_packet GXFP_CMD_D01 [0x00, 0x00]" 1
  by unfold_locales (simp add: gxfp_cmd_d01_def expect_ack_post)

interpretation unlock: ack_command gxfp_cmd_tls_unlock_u "cmd_packet GXFP_CMD_TLS_UNLOCK_u [0x00, 0x00]" 1
  by unfold_locales (simp add: gxfp_cmd_tls_unlock_u_def tls_expect_ack_eq expect_ack_post)

interpretation reset: ack_command "\<lambda>env dev. gxfp_cmd_reset_device_u env dev f"
  "cmd_packet GXFP_CMD_RESET_DEVICE_u [f, GXFP_RESET_DELAY_MAGIC]" 6 for f
  by unfold_locales (simp add: gxfp_cmd_reset_device_u_def expect_ack_post)

lemma flush_quiet [simp]:
  "ulive (snd (gxfp_dev_flush_rxq env dev h)) = ulive h" "sent (snd (gxfp_dev_flush_rxq env dev h)) = sent h"
  by (simp_all add: gxfp_dev_flush_rxq_def Let_def split: option.split)

lemma psk_accept_sound:
  assumes ok: "response_ok 0xE4 rx n" "n \<le> length rx"
  shows "\<exists>rc data' m. psk_accept ty (Some data) cap (Some rx) n = (rc, Some data', m) \<and>
    (if rc = 0 then rx ! 3 = 0 \<and> le32 (drop 4 rx) = ty \<and> m = le32 (drop 8 rx) \<and> m \<le> cap \<and> 13 + unat m \<le> n \<and>
           data' = memcpy_at data 0 (take (unat m) (drop 12 rx))
     else data' = data \<and> m = 0)"
proof -
  let ?L = "fr_payload_len (body_view rx)" and ?m = "le32 (drop 8 rx)"
  have p: "gxfp_parse_goodix_body (Some rx) n (Some frame_zero) = (True, Some (body_view rx))" "rx ! 0 = 0xE4"
    using parse_response [OF ok(1)] by simp_all
  have len: "4 \<le> length rx" using ok by (simp add: response_ok_def body_fits_def)
  have in_bounds: "13 + unat ?m \<le> n" if "\<not> ?L < 9" "\<not> ucast ?L - 9 < ?m"
  proof -
    have "9 \<le> unat ?L" using that(1) by (simp add: word_less_nat_alt)
    moreover from this have "unat (ucast ?L - 9 :: u32) = unat ?L - 9"
      by (subst unat_sub) (simp_all add: word_le_nat_alt unat_ucast_up)
    ultimately show ?thesis
      using that(2) response_bounds [OF ok(1)] by (simp add: word_less_nat_alt)
  qed
  have x: "drop 3 rx ! 0 = rx ! 3" "gxfp_le32 (drop 1 (drop 3 rx)) = le32 (drop 4 rx)"
    "gxfp_le32 (drop 5 (drop 3 rx)) = ?m" "drop 9 (drop 3 rx) = drop 12 rx"
    using len by (simp_all add: gxfp_le32_eq)
  have c: "GXFP_CMD_PRESET_PSK_READ = 0xE4" by (simp add: GXFP_CMD_PRESET_PSK_READ_def)
  show ?thesis
    unfolding psk_accept_def p(1) prod.case option.sel body_view_sels(1-3) option.case x p(2) c Let_def
    using in_bounds by (simp add: not_less del: body_view_sels)
qed

section \<open>Properties\<close>

text \<open>Recovery sends its commands in order and never stops half way. When memory suffices, whatever
  the device answers or fails to answer, \<open>gxfp_device_recovery\<close> returns, having sent the power-state
  notice, then the three commands that release a stuck TLS session if asked to, then the sleep
  command, each exactly once, and then, if a reset was asked for, the reset with exactly the
  requested flags one to six times; without a reset it reports success. It leaks nothing.\<close>

theorem recovery_sequence:
  assumes "clock_runs env" and "0 \<le> ud_fd d" and "\<forall>h n. sys_malloc env h n"
  shows "\<exists>rc n h'. gxfp_device_recovery env (Some d) unstick mcu sensor h = Some (rc, h') \<and> ulive h' = ulive h \<and>
    0 < n \<and> n \<le> 6 \<and> (\<not> mcu \<and> \<not> sensor \<longrightarrow> rc = 0) \<and>
    sent h' = sent h @ [cmd_packet 0x0E [1]] @
      (if unstick then [cmd_packet 0xD1 [0, 0], cmd_packet 0x01 [0, 0, 0, 0], cmd_packet 0xD4 [0, 0]] else []) @
      [cmd_packet 0xD2 [0, 0]] @
      (if mcu \<or> sensor
       then replicate n (cmd_packet 0xA1 [(if mcu then 2 else 0) + (if sensor then 1 else 0), 0x14]) else [])"
proof -
  let ?h0 = "snd (gxfp_dev_flush_rxq env (Some d) h)"
  let ?f = "(if mcu then 2 else 0) + (if sensor then 1 else 0) :: u8"
  note codes = GXFP_CMD_NOTIFY_POWER_STATE_u_def GXFP_CMD_SEND_NOP_def GXFP_CMD_SET_SLEEP_MODE_def GXFP_CMD_D01_def
    GXFP_CMD_TLS_UNLOCK_u_def GXFP_CMD_RESET_DEVICE_u_def GXFP_RESET_DELAY_MAGIC_def
  have one: "i = 1" if "0 < i" "i \<le> 1" for i :: nat using that by simp
  have f: "(if sensor then (if mcu then 0 OR 0x02 else 0) OR 0x01 else if mcu then 0 OR 0x02 else 0) = ?f"
    "?f = 0 \<longleftrightarrow> \<not> mcu \<and> \<not> sensor" by simp_all
  obtain r1 h1 where s1: "gxfp_cmd_notify_power_state_u env (Some d) ?h0 = Some (r1, h1)" "ulive h1 = ulive h"
    "sent h1 = sent h @ [cmd_packet 0x0E [1]]"
    using power.step [OF assms, of ?h0] one by (metis codes(1) flush_quiet replicate_0 replicate_Suc One_nat_def)
  let ?un = "if unstick then [cmd_packet 0xD1 [0, 0], cmd_packet 0x01 [0, 0, 0, 0], cmd_packet 0xD4 [0, 0]] else []"
  obtain h2 where s2: "(if unstick then do {
                  (rr, h) \<leftarrow> gxfp_cmd_d01 env (Some d) h1;
                  (rr, h) \<leftarrow> gxfp_cmd_send_nop env (Some d) h;
                  (rr, h) \<leftarrow> gxfp_cmd_tls_unlock_u env (Some d) h;
                  Some h }
                else Some h1) = Some h2" "ulive h2 = ulive h" "sent h2 = sent h1 @ ?un"
  proof (cases unstick)
    case True
    obtain r2 h2 where a: "gxfp_cmd_d01 env (Some d) h1 = Some (r2, h2)" "ulive h2 = ulive h" "sent h2 = sent h1 @ [cmd_packet 0xD1 [0, 0]]"
      using d01.step [OF assms, of h1] one s1(2) by (metis codes(4) replicate_0 replicate_Suc One_nat_def)
    obtain r3 h3 where b: "gxfp_cmd_send_nop env (Some d) h2 = Some (r3, h3)" "ulive h3 = ulive h" "sent h3 = sent h2 @ [cmd_packet 0x01 [0, 0, 0, 0]]"
      using nop.step [OF assms, of h2] one a(2) by (metis codes(2) replicate_0 replicate_Suc One_nat_def)
    obtain r4 h4 where c: "gxfp_cmd_tls_unlock_u env (Some d) h3 = Some (r4, h4)" "ulive h4 = ulive h" "sent h4 = sent h3 @ [cmd_packet 0xD4 [0, 0]]"
      using unlock.step [OF assms, of h3] one b(2) by (metis codes(5) replicate_0 replicate_Suc One_nat_def)
    show ?thesis using that [of h4] True a b c by simp
  qed (use that [of h1] s1 in simp)
  obtain r5 h5 where s5: "gxfp_cmd_set_sleep_mode env (Some d) h2 = Some (r5, h5)" "ulive h5 = ulive h"
    "sent h5 = sent h2 @ [cmd_packet 0xD2 [0, 0]]"
    using sleepmode.step [OF assms, of h2] one s2(2) by (metis codes(3) replicate_0 replicate_Suc One_nat_def)
  obtain rc n h6 where s6: "(if ?f \<noteq> 0 then gxfp_cmd_reset_device_u env (Some d) ?f h5 else Some (0, h5)) = Some (rc, h6)"
    "ulive h6 = ulive h" "0 < n" "n \<le> 6" "sent h6 = sent h5 @ (if mcu \<or> sensor then replicate n (cmd_packet 0xA1 [?f, 0x14]) else [])"
    "\<not> mcu \<and> \<not> sensor \<longrightarrow> rc = 0"
  proof (cases "mcu \<or> sensor")
    case True
    obtain r6 h6 i where a: "gxfp_cmd_reset_device_u env (Some d) ?f h5 = Some (r6, h6)" "ulive h6 = ulive h5" "0 < i" "i \<le> 6"
      "sent h6 = sent h5 @ replicate i (cmd_packet GXFP_CMD_RESET_DEVICE_u [?f, GXFP_RESET_DELAY_MAGIC])"
      by (rule reset.step [OF assms, of ?f h5])
    have nz: "?f \<noteq> 0" using True f(2) by blast
    show ?thesis by (rule that [of r6 h6 i]) (use a nz True s5(2) in \<open>simp_all only: codes if_True simp_thms, blast\<close>)
  next
    case False
    then show ?thesis using that [of 0 h5 1] s5(2) by simp
  qed
  have "gxfp_device_recovery env (Some d) unstick mcu sensor h = Some (rc, snd (gxfp_dev_flush_rxq env (Some d) h6))"
    unfolding gxfp_device_recovery_def Let_def f(1) using s1(1) s2(1) s5(1) s6(1) by simp
  then show ?thesis using s1(3) s2(3) s5(3) s6(2-6) by (intro exI [of _ rc] exI [of _ n] exI [of _ "snd (gxfp_dev_flush_rxq env (Some d) h6)"]) simp
qed

theorem recovery_sequence_witness:
  "\<exists>rc n h'. gxfp_device_recovery sim_uenv (Some \<lparr>ud_fd = 3\<rparr>) False True False [] = Some (rc, h') \<and> ulive h' = ulive [] \<and>
    0 < n \<and> n \<le> 6 \<and> sent h' = [cmd_packet 0x0E [1], cmd_packet 0xD2 [0, 0]] @ replicate n (cmd_packet 0xA1 [2, 0x14])"
  using recovery_sequence [of sim_uenv "\<lparr>ud_fd = 3\<rparr>" False True False "[]"] sim_clock_runs
  by (auto simp: sim_uenv_def)

text \<open>Reading the sealed key reports honestly. \<open>gxfp_cmd_preset_psk_read\<close> returns, leaks nothing and
  sends only its own request, at most four times. It reports success only when a response with
  status zero and exactly the requested data type was received, whose data length lies inside the
  received message and inside the caller's buffer; the buffer then begins with exactly those data
  bytes and the reported length is theirs. Otherwise the buffer is untouched.\<close>

theorem psk_read_contract:
  assumes "clock_runs env" and "0 \<le> ud_fd d" and "unat cap \<le> length data" and "0 < cap"
  shows "\<exists>rc data' n h'. gxfp_cmd_preset_psk_read env (Some d) ty (Some data) cap True h = Some ((rc, Some data', n), h') \<and>
    ulive h' = ulive h \<and> (\<exists>i \<le> 4. sent h' = sent h @ replicate i (cmd_packet 0xE4 (le32enc ty @ zeros 4))) \<and>
    (if rc = 0
     then \<exists>rx len. response_ok 0xE4 rx len \<and> len \<le> length rx \<and> rx ! 3 = 0 \<and> le32 (drop 4 rx) = ty \<and> n = le32 (drop 8 rx) \<and>
            n \<le> cap \<and> 13 + unat n \<le> len \<and> data' = memcpy_at data 0 (take (unat n) (drop 12 rx))
     else data' = data \<and> n = 0)"
proof -
  let ?pl = "le32enc ty @ zeros 4" and ?sel = "Some (preset_psk_selector (Some ty))"
  have pl: "memcpy_at (zeros 8) 0 (gxfp_le32enc ty) = ?pl"
    by (simp add: memcpy_at_0 gxfp_le32enc_eq zeros_def)
  have l: "length ?pl \<le> 504" "8 = of_nat (length ?pl)" "4 = nat (max 1 4)" by simp_all
  obtain rc rx n h' where r:
    "gxfp_goodix_request_selected env (Some d) GXFP_CMD_PRESET_PSK_READ GXFP_CMD_PRESET_PSK_READ (Some ?pl) 8 (stack_rx env h)
       GXFP_IOCTL_TAP_PAYLOAD_MAX 4 2000 ?sel h = Some ((rc, Some rx, n), h')"
    "command_post env (cmd_packet GXFP_CMD_PRESET_PSK_READ ?pl) 4 rc h h'" "length rx = GXFP_IOCTL_TAP_PAYLOAD_MAX"
    "rc = 0 \<longrightarrow> n \<le> GXFP_IOCTL_TAP_PAYLOAD_MAX \<and> response_ok GXFP_CMD_PRESET_PSK_READ rx n"
    using request_returns [OF assms(1,2) l tap_max_pos length_ufresh] by metis
  have c: "GXFP_CMD_PRESET_PSK_READ = 0xE4" by (simp add: GXFP_CMD_PRESET_PSK_READ_def)
  have post: "ulive h' = ulive h" "\<exists>i \<le> 4. sent h' = sent h @ replicate i (cmd_packet 0xE4 ?pl)"
    using r(2) unfolding command_post_def c by auto
  have run: "gxfp_cmd_preset_psk_read env (Some d) ty (Some data) cap True h =
     (if rc \<noteq> 0 then Some ((rc, Some data, 0), h') else Some (psk_accept ty (Some data) cap (Some rx) n, h'))"
    using assms(4) r(1) unfolding gxfp_cmd_preset_psk_read_def pl Let_def by (auto simp: word_less_nat_alt)
  show ?thesis
  proof (cases "rc = 0")
    case False
    then show ?thesis using post unfolding run by simp
  next
    case True
    then have ok: "response_ok 0xE4 rx n" "n \<le> length rx" using r(3,4) c by simp_all
    from psk_accept_sound [OF ok, of ty data cap] obtain rc2 data2 m where
      "psk_accept ty (Some data) cap (Some rx) n = (rc2, Some data2, m)"
      "if rc2 = 0 then rx ! 3 = 0 \<and> le32 (drop 4 rx) = ty \<and> m = le32 (drop 8 rx) \<and> m \<le> cap \<and> 13 + unat m \<le> n \<and>
           data2 = memcpy_at data 0 (take (unat m) (drop 12 rx))
       else data2 = data \<and> m = 0" by blast
    then show ?thesis using True post ok unfolding run by (auto split: if_splits)
  qed
qed

theorem psk_read_contract_witness:
  "\<exists>rc data' n h'. gxfp_cmd_preset_psk_read sim_uenv (Some \<lparr>ud_fd = 3\<rparr>) 0xBB010002 (Some (zeros 64)) 64 True [] =
      Some ((rc, Some data', n), h') \<and> ulive h' = ulive []"
  using psk_read_contract [of sim_uenv "\<lparr>ud_fd = 3\<rparr>" 64 "zeros 64" "0xBB010002" "[]"] sim_clock_runs by auto

end
