(* ===== verification/Fdt_Flow.thy ===== *)
theory Fdt_Flow
  imports User_Cmd
begin

unbundle bit_operations_syntax

text \<open>
  Finger detection: the commands that arm the sensor (\<open>userspace/src/cmd/fdt_cmd.c\<close>) and the state
  machine that follows its reports, recomputes the base tables and re-arms a wait for the finger to be
  lifted (\<open>userspace/src/flow/fdt.c\<close>). The 24-byte tables are lists, an \<open>int16_t\<close> is a 16-bit word.
\<close>

section \<open>Definitions\<close>

definition GXFP_FDT_BASE_TABLE_LEN :: nat where "GXFP_FDT_BASE_TABLE_LEN = 24"
definition GXFP_FDT_BASE_UPDATE_ENTRIES :: nat where "GXFP_FDT_BASE_UPDATE_ENTRIES = 10"
definition GXFP_FDT_WIRE_TRAILER_LEN :: nat where "GXFP_FDT_WIRE_TRAILER_LEN = 8"
definition FDT_STATUS_DOWN_GET_UP_BASE :: u16 where "FDT_STATUS_DOWN_GET_UP_BASE = 0x0002"
definition FDT_STATUS_UP :: u16 where "FDT_STATUS_UP = 0x0200"
definition FDT_STATUS_IRQ_DOWN_GET_UP_BASE :: u16 where "FDT_STATUS_IRQ_DOWN_GET_UP_BASE = 0x0002"
definition FDT_STATUS_IRQ_UP_GET_DOWN_BASE :: u16 where "FDT_STATUS_IRQ_UP_GET_DOWN_BASE = 0x0200"
definition FDT_STATUS_IRQ_REVERSE_0 :: u16 where "FDT_STATUS_IRQ_REVERSE_0 = 0x0080"
definition FDT_STATUS_IRQ_REVERSE_2 :: u16 where "FDT_STATUS_IRQ_REVERSE_2 = 0x0082"
definition FDT_UP_DEFAULT_OFFSET :: u16 where "FDT_UP_DEFAULT_OFFSET = 0x15"
definition FDT_UP_NOTOUCH_FALLBACK :: u16 where "FDT_UP_NOTOUCH_FALLBACK = 0x1300"
definition FDT_WAIT_UP_RETRY_MS :: int where "FDT_WAIT_UP_RETRY_MS = 750"
definition FDT_WAIT_UP_MAX_RETRIES :: int where "FDT_WAIT_UP_MAX_RETRIES = 20"
definition GXFP_FDT_EVENT_NONE :: u32 where "GXFP_FDT_EVENT_NONE = 0"
definition GXFP_FDT_EVENT_DOWN :: u32 where "GXFP_FDT_EVENT_DOWN = 1"
definition GXFP_FDT_EVENT_UP :: u32 where "GXFP_FDT_EVENT_UP = 2"
definition GXFP_FDT_EVENT_REVERSE :: u32 where "GXFP_FDT_EVENT_REVERSE = 4"

datatype gxfp_fdt_mode = GXFP_FDT_MODE_IDLE | GXFP_FDT_MODE_WAIT_DOWN | GXFP_FDT_MODE_WAIT_UP
datatype gxfp_fdt_state = GXFP_FDT_STATE_UNKNOWN | GXFP_FDT_STATE_UP | GXFP_FDT_STATE_DOWN

record gxfp_cmd_fdt_state =
  fs_down_table_5130 :: bytes
  fs_up_table_5130 :: bytes
  fs_manual_table_5130 :: bytes
  fs_base_table_inited :: int
  fs_up_second_flag :: int
  fs_up_need_twice :: int
  fs_up_diff_use :: int
  fs_up_dac_offset :: u16
  fs_up_round :: int

record gxfp_fdt_flow =
  ff_cmd :: gxfp_cmd_fdt_state
  ff_mode :: gxfp_fdt_mode
  ff_state :: gxfp_fdt_state
  ff_last_status :: u16
  ff_armed_up_table :: bytes
  ff_last_good_up_table :: bytes
  ff_last_good_up_valid :: bool
  ff_wait_up_retries :: int
  ff_wait_up_armed_ms :: int

subsection \<open>Commands (\<open>fdt_cmd.c\<close>)\<close>

definition fdt_state_zero :: gxfp_cmd_fdt_state where
  "fdt_state_zero = \<lparr>fs_down_table_5130 = zeros 24, fs_up_table_5130 = zeros 24, fs_manual_table_5130 = zeros 24,
     fs_base_table_inited = 0, fs_up_second_flag = 0, fs_up_need_twice = 0, fs_up_diff_use = 0, fs_up_dac_offset = 0,
     fs_up_round = 0\<rparr>"

definition gxfp_cmd_fdt_state_init :: "gxfp_cmd_fdt_state option \<Rightarrow> gxfp_cmd_fdt_state option" where
  "gxfp_cmd_fdt_state_init state = map_option (\<lambda>_. fdt_state_zero\<lparr>fs_base_table_inited := 1\<rparr>) state"

definition gxfp_cmd_fdt_state_set_runtime ::
  "gxfp_cmd_fdt_state option \<Rightarrow> int \<Rightarrow> int \<Rightarrow> int \<Rightarrow> u16 \<Rightarrow> gxfp_cmd_fdt_state option" where
  "gxfp_cmd_fdt_state_set_runtime state second_flag need_fdt_up_twice diff_use dac_offset =
    map_option (\<lambda>st. st\<lparr>fs_up_second_flag := (if second_flag \<noteq> 0 then 1 else 0),
       fs_up_need_twice := (if need_fdt_up_twice \<noteq> 0 then 1 else 0),
       fs_up_diff_use := (if diff_use \<noteq> 0 then 1 else 0),
       fs_up_dac_offset := dac_offset, fs_up_round := 0\<rparr>) state"

text \<open>The three payloads: two magic bytes, the table and a trailer of zeros.\<close>

definition fdt_down_payload_build :: "gxfp_cmd_fdt_state \<Rightarrow> bytes" where
  "fdt_down_payload_build state =
    memcpy_at (memcpy_at (zeros (2 + GXFP_FDT_BASE_TABLE_LEN + GXFP_FDT_WIRE_TRAILER_LEN)) 0 [0x08, 0x01])
      2 (take GXFP_FDT_BASE_TABLE_LEN (fs_down_table_5130 state))"

definition fdt_mode_payload_build :: "gxfp_cmd_fdt_state \<Rightarrow> bytes" where
  "fdt_mode_payload_build state =
    memcpy_at (memcpy_at (zeros (2 + GXFP_FDT_BASE_TABLE_LEN + GXFP_FDT_WIRE_TRAILER_LEN)) 0 [0x09, 0x01])
      2 (take GXFP_FDT_BASE_TABLE_LEN (fs_manual_table_5130 state))"

definition fdt_up_payload_build :: "gxfp_cmd_fdt_state \<Rightarrow> bytes" where
  "fdt_up_payload_build state =
    memcpy_at (memcpy_at (zeros (2 + GXFP_FDT_BASE_TABLE_LEN + GXFP_FDT_WIRE_TRAILER_LEN)) 0 [0x0A, 0x01])
      2 (take GXFP_FDT_BASE_TABLE_LEN (fs_up_table_5130 state))"

definition gxfp_cmd_fdt_set_mode ::
  "uenv \<Rightarrow> udev option \<Rightarrow> gxfp_cmd_fdt_state option \<Rightarrow> uhist \<Rightarrow> (int \<times> gxfp_cmd_fdt_state option) \<times> uhist" where
  "gxfp_cmd_fdt_set_mode env dev state h =
    (case state of
       None \<Rightarrow> ((- EINVAL, state), h)
     | Some st \<Rightarrow>
         if dev = None then ((- EINVAL, state), h)
         else
           let st = st\<lparr>fs_manual_table_5130 :=
                 memcpy_at (fs_manual_table_5130 st) 0 (take GXFP_FDT_BASE_TABLE_LEN (fs_down_table_5130 st))\<rparr>
           in (case gxfp_goodix_send_async env dev GXFP_CMD_FDT_MODE (Some (fdt_mode_payload_build st))
                      (of_nat (2 + GXFP_FDT_BASE_TABLE_LEN + GXFP_FDT_WIRE_TRAILER_LEN)) h of
                 (r, h) \<Rightarrow> ((r, Some st), h)))"

definition gxfp_cmd_fdt_send_down :: "uenv \<Rightarrow> udev option \<Rightarrow> gxfp_cmd_fdt_state option \<Rightarrow> uhist \<Rightarrow> int \<times> uhist" where
  "gxfp_cmd_fdt_send_down env dev state h =
    (case state of
       None \<Rightarrow> (- EINVAL, h)
     | Some st \<Rightarrow>
         if dev = None then (- EINVAL, h)
         else gxfp_goodix_send_async env dev GXFP_CMD_FDT_DOWN (Some (fdt_down_payload_build st))
                (of_nat (2 + GXFP_FDT_BASE_TABLE_LEN + GXFP_FDT_WIRE_TRAILER_LEN)) h)"

definition gxfp_cmd_fdt_send_up :: "uenv \<Rightarrow> udev option \<Rightarrow> gxfp_cmd_fdt_state option \<Rightarrow> uhist \<Rightarrow> int \<times> uhist" where
  "gxfp_cmd_fdt_send_up env dev state h =
    (case state of
       None \<Rightarrow> (- EINVAL, h)
     | Some st \<Rightarrow>
         if dev = None then (- EINVAL, h)
         else gxfp_goodix_send_async env dev GXFP_CMD_FDT_UP (Some (fdt_up_payload_build st))
                (of_nat (2 + GXFP_FDT_BASE_TABLE_LEN + GXFP_FDT_WIRE_TRAILER_LEN)) h)"

subsection \<open>Base tables (\<open>fdt.c\<close>)\<close>

text \<open>Storing a 16-bit entry.\<close>

definition put_entry :: "bytes \<Rightarrow> nat \<Rightarrow> u16 \<Rightarrow> bytes" where
  "put_entry table i encoded =
    table[i * 2 + 0 := ucast (encoded AND 0xff), i * 2 + 1 := ucast (drop_bit 8 encoded AND 0xff)]"

definition fdt_downbase_from_raw :: "ptr \<Rightarrow> nat \<Rightarrow> bytes \<Rightarrow> bytes" where
  "fdt_downbase_from_raw raw_base raw_len out_table =
    (case raw_base of
       None \<Rightarrow> out_table
     | Some rb \<Rightarrow>
         if raw_len < 2 then out_table
         else
           let entries = min (raw_len div 2) GXFP_FDT_BASE_UPDATE_ENTRIES
           in foldl (\<lambda>table i.
                let raw = gxfp_le16 (drop (i * 2) rb);
                    half = drop_bit 1 raw AND 0xffff;
                    encoded = push_bit 8 half OR 0x80
                in put_entry table i encoded) out_table [0..<entries])"

text \<open>The sums are computed in \<open>int\<close> and truncated to 16 bits, as here.\<close>

definition up_entry :: "u16 \<Rightarrow> int \<Rightarrow> int \<Rightarrow> u16 \<Rightarrow> nat \<Rightarrow> u16 \<Rightarrow> u16 \<Rightarrow> u16" where
  "up_entry touchflag second_flag diff_use dac_offset i raw prev =
    (let half = drop_bit 1 raw AND 0xffff;
         offset = (if dac_offset = 0 then FDT_UP_DEFAULT_OFFSET else dac_offset);
         encoded = push_bit 8 (half + offset) OR (half + offset);
         encoded = (if second_flag = 0 \<and> drop_bit i touchflag AND 1 = 0
                    then if dac_offset = 0 then drop_bit 8 encoded OR FDT_UP_NOTOUCH_FALLBACK
                         else push_bit 8 (dac_offset - 2) OR drop_bit 8 encoded
                    else encoded)
     in if diff_use = 1 \<and> encoded > prev then prev else encoded)"

definition fdt_upbase_from_raw :: "u16 \<Rightarrow> int \<Rightarrow> int \<Rightarrow> u16 \<Rightarrow> ptr \<Rightarrow> nat \<Rightarrow> bytes \<Rightarrow> bytes" where
  "fdt_upbase_from_raw touchflag second_flag diff_use dac_offset raw_base raw_len out_table =
    (case raw_base of
       None \<Rightarrow> out_table
     | Some rb \<Rightarrow>
         if raw_len < 2 then out_table
         else
           let entries = min (raw_len div 2) GXFP_FDT_BASE_UPDATE_ENTRIES
           in foldl (\<lambda>merged i.
                put_entry merged i (up_entry touchflag second_flag diff_use dac_offset i
                  (gxfp_le16 (drop (i * 2) rb)) (gxfp_le16 (drop (i * 2) merged)))) out_table [0..<entries])"

definition fdt_base_table_update_from_frame ::
  "gxfp_cmd_fdt_state option \<Rightarrow> gxfp_frame_parsed option \<Rightarrow> gxfp_cmd_fdt_state option" where
  "fdt_base_table_update_from_frame state frame =
    (case (state, frame) of
       (Some st, Some fr) \<Rightarrow>
         let p = the (fr_payload fr);
             irq_status = gxfp_le16 p
         in if irq_status = FDT_STATUS_IRQ_DOWN_GET_UP_BASE then
              if fr_payload_len fr < 4 then state
              else
                let touchflag = gxfp_le16 (drop 2 p);
                    raw_base = Some (drop 4 p);
                    raw_len = unat (fr_payload_len fr) - 4;
                    second_flag = (if fs_up_need_twice st \<noteq> 0 then (if fs_up_round st > 0 then 1 else 0)
                                   else fs_up_second_flag st);
                    st = (if fs_up_need_twice st \<noteq> 0 then st\<lparr>fs_up_round := fs_up_round st XOR 1\<rparr> else st)
                in Some (st\<lparr>fs_up_table_5130 := fdt_upbase_from_raw touchflag second_flag (fs_up_diff_use st)
                        (fs_up_dac_offset st) raw_base raw_len (fs_up_table_5130 st)\<rparr>)
            else if irq_status = FDT_STATUS_IRQ_UP_GET_DOWN_BASE \<or> irq_status = FDT_STATUS_IRQ_REVERSE_0 \<or>
                    irq_status = FDT_STATUS_IRQ_REVERSE_2 then
              if fr_payload_len fr < 4 then state
              else
                let raw_base = Some (drop 4 p);
                    raw_len = unat (fr_payload_len fr) - 4;
                    raw_len = (if raw_len > GXFP_FDT_BASE_UPDATE_ENTRIES * 2 then GXFP_FDT_BASE_UPDATE_ENTRIES * 2 else raw_len)
                in Some (st\<lparr>fs_down_table_5130 := fdt_downbase_from_raw raw_base raw_len (fs_down_table_5130 st)\<rparr>)
            else state
     | _ \<Rightarrow> state)"

text \<open>The result is the code, the state and the status when it was set.\<close>

definition fdt_update_state_from_record ::
  "gxfp_cmd_fdt_state option \<Rightarrow> gxfp_tap_hdr option \<Rightarrow> ptr \<Rightarrow> nat \<Rightarrow> int \<times> gxfp_cmd_fdt_state option \<times> u16 option" where
  "fdt_update_state_from_record state tap_hdr payload payload_len =
    (if state = None then (- EINVAL, state, None)
     else if tap_hdr = None \<or> payload = None then (- EINVAL, state, None)
     else if th_type (the tap_hdr) \<noteq> ucast GOODIX_MP_TYPE_CMD \<and> th_type (the tap_hdr) \<noteq> ucast GOODIX_MP_TYPE_NOTICE
       then (- ENOENT, state, None)
     else
       (case gxfp_parse_goodix_body payload payload_len (Some frame_zero) of
          (ok, frame) \<Rightarrow>
            if \<not> ok \<or> \<not> fr_valid (the frame) then (- ENOENT, state, None)
            else if fr_payload_len (the frame) < 2 then (- ENOENT, state, None)
            else if fr_cmd (the frame) \<noteq> GXFP_CMD_FDT_STATUS \<and> fr_cmd (the frame) \<noteq> GXFP_CMD_FDT_DOWN \<and>
                    fr_cmd (the frame) \<noteq> GXFP_CMD_FDT_MODE \<and> fr_cmd (the frame) \<noteq> GXFP_CMD_FDT_UP
              then (- ENOENT, state, None)
            else
              let state = (if fs_base_table_inited (the state) = 0 then gxfp_cmd_fdt_state_init state else state);
                  state = fdt_base_table_update_from_frame state frame
              in (0, state, Some (gxfp_le16 (the (fr_payload (the frame)))))))"

subsection \<open>The flow (\<open>fdt.c\<close>)\<close>

definition gxfp_fdt_flow_init :: "gxfp_fdt_flow option \<Rightarrow> gxfp_fdt_flow option" where
  "gxfp_fdt_flow_init flow =
    map_option (\<lambda>_. \<lparr>ff_cmd = the (gxfp_cmd_fdt_state_init (Some fdt_state_zero)), ff_mode = GXFP_FDT_MODE_IDLE,
       ff_state = GXFP_FDT_STATE_UNKNOWN, ff_last_status = 0, ff_armed_up_table = zeros 24,
       ff_last_good_up_table = zeros 24, ff_last_good_up_valid = False, ff_wait_up_retries = 0,
       ff_wait_up_armed_ms = 0\<rparr>) flow"

definition gxfp_fdt_flow_set_mode ::
  "uenv \<Rightarrow> gxfp_fdt_flow option \<Rightarrow> udev option \<Rightarrow> gxfp_fdt_mode \<Rightarrow> uhist \<Rightarrow> (int \<times> gxfp_fdt_flow option) \<times> uhist" where
  "gxfp_fdt_flow_set_mode env flow dev mode h =
    (case flow of
       None \<Rightarrow> ((- EINVAL, flow), h)
     | Some f \<Rightarrow>
         if dev = None then ((- EINVAL, flow), h)
         else if mode = ff_mode f then ((0, flow), h)
         else
           (case mode of
              GXFP_FDT_MODE_IDLE \<Rightarrow> ((0, Some (f\<lparr>ff_mode := GXFP_FDT_MODE_IDLE\<rparr>)), h)
            | GXFP_FDT_MODE_WAIT_DOWN \<Rightarrow>
                (case gxfp_cmd_fdt_set_mode env dev (Some (ff_cmd f)) h of
                   ((r, cmd), h) \<Rightarrow>
                     let f = f\<lparr>ff_cmd := the cmd\<rparr>
                     in if r < 0 then ((r, Some f), h)
                        else
                          (case gxfp_cmd_fdt_send_down env dev (Some (ff_cmd f)) h of
                             (r, h) \<Rightarrow>
                               if r < 0 then ((r, Some f), h)
                               else ((0, Some (f\<lparr>ff_mode := GXFP_FDT_MODE_WAIT_DOWN\<rparr>)), h)))
            | GXFP_FDT_MODE_WAIT_UP \<Rightarrow>
                (case gxfp_cmd_fdt_set_mode env dev (Some (ff_cmd f)) h of
                   ((r, cmd), h) \<Rightarrow>
                     let f = f\<lparr>ff_cmd := the cmd\<rparr>
                     in if r < 0 then ((r, Some f), h)
                        else
                          (case gxfp_cmd_fdt_send_up env dev (Some (ff_cmd f)) h of
                             (r, h) \<Rightarrow>
                               if r < 0 then ((r, Some f), h)
                               else
                                 (case gxfp_monotonic_ms env h of
                                    (now, h) \<Rightarrow>
                                      ((0, Some (f\<lparr>ff_armed_up_table := fs_up_table_5130 (ff_cmd f),
                                           ff_wait_up_armed_ms := now, ff_wait_up_retries := 0,
                                           ff_mode := GXFP_FDT_MODE_WAIT_UP\<rparr>)), h))))))"

definition fdt_status_to_events :: "u16 \<Rightarrow> u32" where
  "fdt_status_to_events status =
    (if status = FDT_STATUS_DOWN_GET_UP_BASE then GXFP_FDT_EVENT_DOWN
     else if status = FDT_STATUS_UP then GXFP_FDT_EVENT_UP
     else if status = FDT_STATUS_IRQ_REVERSE_0 \<or> status = FDT_STATUS_IRQ_REVERSE_2 then GXFP_FDT_EVENT_REVERSE
     else GXFP_FDT_EVENT_NONE)"

text \<open>The end of \<open>gxfp_fdt_flow_feed_record\<close>: the events change the state of the flow.\<close>

definition fdt_apply_events :: "gxfp_fdt_flow \<Rightarrow> u32 \<Rightarrow> int \<times> gxfp_fdt_flow \<times> u32" where
  "fdt_apply_events f events =
    (let events = (if events AND GXFP_FDT_EVENT_REVERSE \<noteq> 0 \<and> ff_mode f = GXFP_FDT_MODE_WAIT_UP
                   then events OR GXFP_FDT_EVENT_UP else events);
         f = (if events AND GXFP_FDT_EVENT_DOWN \<noteq> 0 then f\<lparr>ff_state := GXFP_FDT_STATE_DOWN\<rparr> else f);
         f = (if events AND GXFP_FDT_EVENT_UP \<noteq> 0
              then f\<lparr>ff_state := GXFP_FDT_STATE_UP, ff_last_good_up_table := ff_armed_up_table f,
                     ff_last_good_up_valid := True\<rparr>
              else f)
     in (if events = GXFP_FDT_EVENT_NONE then - EAGAIN else 0, f, events))"

text \<open>The result is the code, the flow and the events.\<close>

definition gxfp_fdt_flow_feed_record ::
  "uenv \<Rightarrow> gxfp_fdt_flow option \<Rightarrow> udev option \<Rightarrow> gxfp_tap_hdr option \<Rightarrow> ptr \<Rightarrow> nat \<Rightarrow> uhist \<Rightarrow>
     (int \<times> gxfp_fdt_flow option \<times> u32) \<times> uhist" where
  "gxfp_fdt_flow_feed_record env flow dev tap_hdr payload payload_len h =
    (case flow of
       None \<Rightarrow> ((- EINVAL, flow, GXFP_FDT_EVENT_NONE), h)
     | Some f \<Rightarrow>
         if dev = None \<or> tap_hdr = None \<or> payload = None then ((- EINVAL, flow, GXFP_FDT_EVENT_NONE), h)
         else
           (case fdt_update_state_from_record (Some (ff_cmd f)) tap_hdr payload payload_len of
              (r, cmd, status) \<Rightarrow>
                let f = f\<lparr>ff_cmd := the cmd\<rparr>
                in if r < 0 then ((if r = - EAGAIN \<or> r = - ENOENT then - EAGAIN else r, Some f, GXFP_FDT_EVENT_NONE), h)
                   else
                     let f = f\<lparr>ff_last_status := the status\<rparr>;
                         events = fdt_status_to_events (the status)
                     in if events AND GXFP_FDT_EVENT_REVERSE \<noteq> 0 \<and> ff_mode f = GXFP_FDT_MODE_WAIT_DOWN then
                          (case gxfp_cmd_fdt_set_mode env dev (Some (ff_cmd f)) h of
                             ((r, cmd), h) \<Rightarrow>
                               let f = f\<lparr>ff_cmd := the cmd\<rparr>
                               in if r < 0 then ((r, Some f, GXFP_FDT_EVENT_NONE), h)
                                  else
                                    (case gxfp_cmd_fdt_send_down env dev (Some (ff_cmd f)) h of
                                       (r, h) \<Rightarrow>
                                         if r < 0 then ((r, Some f, GXFP_FDT_EVENT_NONE), h)
                                         else (case fdt_apply_events f events of (r, f, evs) \<Rightarrow> ((r, Some f, evs), h))))
                        else (case fdt_apply_events f events of (r, f, evs) \<Rightarrow> ((r, Some f, evs), h))))"

definition gxfp_fdt_flow_wait_up_retry_due :: "gxfp_fdt_flow option \<Rightarrow> int \<Rightarrow> int" where
  "gxfp_fdt_flow_wait_up_retry_due flow now_ms =
    (case flow of
       None \<Rightarrow> - EINVAL
     | Some f \<Rightarrow>
         if ff_mode f \<noteq> GXFP_FDT_MODE_WAIT_UP \<or> ff_state f = GXFP_FDT_STATE_UP then 0
         else if ff_wait_up_armed_ms f \<le> 0 \<or> now_ms < ff_wait_up_armed_ms f then 0
         else if now_ms - ff_wait_up_armed_ms f < FDT_WAIT_UP_RETRY_MS then 0
         else if ff_wait_up_retries f \<ge> FDT_WAIT_UP_MAX_RETRIES then - ETIMEDOUT
         else 1)"

definition gxfp_fdt_flow_poll ::
  "uenv \<Rightarrow> gxfp_fdt_flow option \<Rightarrow> udev option \<Rightarrow> int \<Rightarrow> uhist \<Rightarrow> (int \<times> gxfp_fdt_flow option) \<times> uhist" where
  "gxfp_fdt_flow_poll env flow dev now_ms h =
    (case flow of
       None \<Rightarrow> ((- EINVAL, flow), h)
     | Some f \<Rightarrow>
         if dev = None then ((- EINVAL, flow), h)
         else
           let due = gxfp_fdt_flow_wait_up_retry_due flow now_ms
           in if due \<le> 0 then ((due, flow), h)
              else
                let f = (if ff_last_good_up_valid f
                         then f\<lparr>ff_cmd := (ff_cmd f)\<lparr>fs_up_table_5130 := ff_last_good_up_table f\<rparr>\<rparr> else f)
                in (case gxfp_cmd_fdt_set_mode env dev (Some (ff_cmd f)) h of
                      ((r, cmd), h) \<Rightarrow>
                        let f = f\<lparr>ff_cmd := the cmd\<rparr>
                        in if r < 0 then ((r, Some f), h)
                           else
                             (case gxfp_cmd_fdt_send_up env dev (Some (ff_cmd f)) h of
                                (r, h) \<Rightarrow>
                                  if r < 0 then ((r, Some f), h)
                                  else ((0, Some (f\<lparr>ff_armed_up_table := fs_up_table_5130 (ff_cmd f),
                                          ff_wait_up_armed_ms := now_ms,
                                          ff_wait_up_retries := ff_wait_up_retries f + 1\<rparr>)), h))))"

definition gxfp_fdt_flow_get_state :: "gxfp_fdt_flow option \<Rightarrow> gxfp_fdt_state" where
  "gxfp_fdt_flow_get_state flow = (case flow of None \<Rightarrow> GXFP_FDT_STATE_UNKNOWN | Some f \<Rightarrow> ff_state f)"

section \<open>Well-formedness\<close>

text \<open>A table has room for twelve entries; reports only ever set the first ten.\<close>

definition fdt_table :: "bytes \<Rightarrow> bool" where
  "fdt_table t \<longleftrightarrow> length t = 24 \<and> drop 20 t = zeros 4"

definition fdt_cmd_ok :: "gxfp_cmd_fdt_state \<Rightarrow> bool" where
  "fdt_cmd_ok st \<longleftrightarrow> fdt_table (fs_down_table_5130 st) \<and> fdt_table (fs_up_table_5130 st) \<and>
     fdt_table (fs_manual_table_5130 st) \<and> fs_base_table_inited st = 1 \<and> fs_up_round st \<in> {0, 1}"

definition fdt_inv :: "gxfp_fdt_flow \<Rightarrow> bool" where
  "fdt_inv f \<longleftrightarrow> fdt_cmd_ok (ff_cmd f) \<and> fdt_table (ff_armed_up_table f) \<and> fdt_table (ff_last_good_up_table f) \<and>
     0 \<le> ff_wait_up_retries f \<and> ff_wait_up_retries f \<le> FDT_WAIT_UP_MAX_RETRIES"

lemma fdt_table_length: "fdt_table t \<Longrightarrow> length t = 24"
  by (simp add: fdt_table_def)

lemma fdt_table_zeros [simp]: "fdt_table (zeros 24)"
  by (simp add: fdt_table_def zeros_def)

lemma fdt_cmd_okD:
  assumes "fdt_cmd_ok st"
  shows "length (fs_down_table_5130 st) = 24" "length (fs_up_table_5130 st) = 24" "length (fs_manual_table_5130 st) = 24"
    "fs_base_table_inited st = 1" "fdt_table (fs_up_table_5130 st)" "fdt_table (fs_down_table_5130 st)"
  using assms by (simp_all add: fdt_cmd_ok_def fdt_table_def)

lemma fdt_table_put: "i < 10 \<Longrightarrow> fdt_table t \<Longrightarrow> fdt_table (put_entry t i e)"
  by (simp add: put_entry_def fdt_table_def drop_update_cancel)

lemma fdt_table_foldl: "\<forall>i \<in> set js. i < 10 \<Longrightarrow> fdt_table t \<Longrightarrow> fdt_table (foldl (\<lambda>t i. put_entry t i (g t i)) t js)"
  by (induction js arbitrary: t) (simp_all add: fdt_table_put)

lemma fdt_table_downbase [simp]: "fdt_table t \<Longrightarrow> fdt_table (fdt_downbase_from_raw rb n t)"
  by (auto simp: fdt_downbase_from_raw_def Let_def GXFP_FDT_BASE_UPDATE_ENTRIES_def intro!: fdt_table_foldl split: option.split)

lemma fdt_table_upbase [simp]: "fdt_table t \<Longrightarrow> fdt_table (fdt_upbase_from_raw tf sf du dac rb n t)"
  by (auto simp: fdt_upbase_from_raw_def Let_def GXFP_FDT_BASE_UPDATE_ENTRIES_def intro!: fdt_table_foldl split: option.split)

lemma base_update_ok: "fdt_cmd_ok st \<Longrightarrow> \<exists>st'. fdt_base_table_update_from_frame (Some st) fr = Some st' \<and> fdt_cmd_ok st'"
  by (cases fr) (auto simp: fdt_base_table_update_from_frame_def fdt_cmd_ok_def Let_def)

lemma update_from_record_ok:
  assumes "fdt_cmd_ok st" "fdt_update_state_from_record (Some st) hdr p n = (r, st', status)"
  shows "\<exists>s2. st' = Some s2 \<and> fdt_cmd_ok s2" and "r = 0 \<or> r = - EINVAL \<or> r = - ENOENT"
proof -
  have i: "fs_base_table_inited st \<noteq> 0" using assms(1) by (simp add: fdt_cmd_ok_def)
  obtain ok fr where p: "gxfp_parse_goodix_body p n (Some frame_zero) = (ok, fr)" by fastforce
  have "st' = Some st \<or> st' = fdt_base_table_update_from_frame (Some st) fr"
    using assms i p by (auto simp: fdt_update_state_from_record_def Let_def split: if_splits)
  then show "\<exists>s2. st' = Some s2 \<and> fdt_cmd_ok s2" using assms(1) base_update_ok [OF assms(1), of fr] by auto
  show "r = 0 \<or> r = - EINVAL \<or> r = - ENOENT"
    using assms(2) by (auto simp: fdt_update_state_from_record_def Let_def split: if_splits prod.splits)
qed

section \<open>Arming\<close>

text \<open>The payload of the three commands.\<close>

definition fdt_payload :: "u8 \<Rightarrow> bytes \<Rightarrow> bytes" where
  "fdt_payload magic table = [magic, 1] @ table @ zeros 8"

lemma payload_build_eq:
  assumes "fdt_cmd_ok st"
  shows "fdt_down_payload_build st = fdt_payload 0x08 (fs_down_table_5130 st)"
    "fdt_up_payload_build st = fdt_payload 0x0A (fs_up_table_5130 st)"
    "fdt_mode_payload_build st = fdt_payload 0x09 (fs_manual_table_5130 st)"
  using fdt_cmd_okD [OF assms]
  by (simp_all add: fdt_down_payload_build_def fdt_up_payload_build_def fdt_mode_payload_build_def memcpy_at_def
      GXFP_FDT_BASE_TABLE_LEN_def GXFP_FDT_WIRE_TRAILER_LEN_def fdt_payload_def zeros_def)

lemma length_fdt_payload: "fdt_table t \<Longrightarrow> length (fdt_payload m t) = 34"
  by (simp add: fdt_payload_def fdt_table_def)

definition with_manual :: "gxfp_cmd_fdt_state \<Rightarrow> gxfp_cmd_fdt_state" where
  "with_manual st = st\<lparr>fs_manual_table_5130 := fs_down_table_5130 st\<rparr>"

lemma with_manual_ok [simp]: "fdt_cmd_ok st \<Longrightarrow> fdt_cmd_ok (with_manual st)"
  by (simp add: fdt_cmd_ok_def with_manual_def)

lemma with_manual_sel [simp]:
  "fs_up_table_5130 (with_manual st) = fs_up_table_5130 st" "fs_down_table_5130 (with_manual st) = fs_down_table_5130 st"
  "fs_manual_table_5130 (with_manual st) = fs_down_table_5130 st"
  by (simp_all add: with_manual_def)

text \<open>The three commands in terms of one transmission.\<close>

definition fdt_send :: "uenv \<Rightarrow> udev \<Rightarrow> u8 \<Rightarrow> u8 \<Rightarrow> bytes \<Rightarrow> uhist \<Rightarrow> int \<times> uhist" where
  "fdt_send env d cmd magic table h =
    gxfp_goodix_send_async env (Some d) cmd (Some (fdt_payload magic table)) (of_nat (length (fdt_payload magic table))) h"

lemma fdt_commands_eq:
  assumes "fdt_cmd_ok st"
  shows "gxfp_cmd_fdt_set_mode env (Some d) (Some st) h =
      (let (r, h) = fdt_send env d GXFP_CMD_FDT_MODE 0x09 (fs_down_table_5130 st) h in ((r, Some (with_manual st)), h))"
    and "gxfp_cmd_fdt_send_down env (Some d) (Some st) h = fdt_send env d GXFP_CMD_FDT_DOWN 0x08 (fs_down_table_5130 st) h"
    and "gxfp_cmd_fdt_send_up env (Some d) (Some st) h = fdt_send env d GXFP_CMD_FDT_UP 0x0A (fs_up_table_5130 st) h"
proof -
  note l = fdt_cmd_okD [OF assms]
  have m: "st\<lparr>fs_manual_table_5130 := memcpy_at (fs_manual_table_5130 st) 0 (take GXFP_FDT_BASE_TABLE_LEN (fs_down_table_5130 st))\<rparr> =
      with_manual st"
    using l by (simp add: with_manual_def memcpy_at_0 GXFP_FDT_BASE_TABLE_LEN_def)
  have n: "2 + GXFP_FDT_BASE_TABLE_LEN + GXFP_FDT_WIRE_TRAILER_LEN = 34"
    by (simp add: GXFP_FDT_BASE_TABLE_LEN_def GXFP_FDT_WIRE_TRAILER_LEN_def)
  show "gxfp_cmd_fdt_set_mode env (Some d) (Some st) h =
      (let (r, h) = fdt_send env d GXFP_CMD_FDT_MODE 0x09 (fs_down_table_5130 st) h in ((r, Some (with_manual st)), h))"
    unfolding gxfp_cmd_fdt_set_mode_def option.case m n Let_def payload_build_eq [OF with_manual_ok [OF assms]]
    by (simp add: fdt_send_def length_fdt_payload l)
  show "gxfp_cmd_fdt_send_down env (Some d) (Some st) h = fdt_send env d GXFP_CMD_FDT_DOWN 0x08 (fs_down_table_5130 st) h"
    "gxfp_cmd_fdt_send_up env (Some d) (Some st) h = fdt_send env d GXFP_CMD_FDT_UP 0x0A (fs_up_table_5130 st) h"
    unfolding gxfp_cmd_fdt_send_down_def gxfp_cmd_fdt_send_up_def option.case n payload_build_eq [OF assms]
    by (simp_all add: fdt_send_def length_fdt_payload l)
qed

section \<open>The reachable states\<close>

text \<open>What the session does with a flow, in any order and between any other system calls.\<close>

inductive fdt_reach :: "uenv \<Rightarrow> udev \<Rightarrow> gxfp_fdt_flow \<Rightarrow> bool" for env :: uenv and d :: udev where
  Init: "gxfp_fdt_flow_init (Some f0) = Some f \<Longrightarrow> fdt_reach env d f"
| Runtime: "fdt_reach env d f \<Longrightarrow> gxfp_cmd_fdt_state_set_runtime (Some (ff_cmd f)) second twice diff dac = Some st \<Longrightarrow>
    fdt_reach env d (f\<lparr>ff_cmd := st\<rparr>)"
| Set_mode: "fdt_reach env d f \<Longrightarrow> gxfp_fdt_flow_set_mode env (Some f) (Some d) mode h = ((r, Some f'), h') \<Longrightarrow>
    fdt_reach env d f'"
| Feed: "fdt_reach env d f \<Longrightarrow>
    gxfp_fdt_flow_feed_record env (Some f) (Some d) hdr payload n h = ((r, Some f', events), h') \<Longrightarrow> fdt_reach env d f'"
| Poll: "fdt_reach env d f \<Longrightarrow> gxfp_fdt_flow_poll env (Some f) (Some d) now h = ((r, Some f'), h') \<Longrightarrow> fdt_reach env d f'"

lemma fdt_inv_cmd [simp]: "fdt_inv f \<Longrightarrow> fdt_cmd_ok st \<Longrightarrow> fdt_inv (f\<lparr>ff_cmd := st\<rparr>)"
  by (simp add: fdt_inv_def)

lemma fdt_invD:
  assumes "fdt_inv f"
  shows "fdt_cmd_ok (ff_cmd f)" "fdt_table (ff_armed_up_table f)" "fdt_table (ff_last_good_up_table f)"
  using assms by (simp_all add: fdt_inv_def)

lemma set_mode_inv:
  assumes "fdt_inv f" "gxfp_fdt_flow_set_mode env (Some f) (Some d) mode h = ((r, Some f'), h')"
  shows "fdt_inv f'"
proof (cases "mode = ff_mode f")
  case True
  then show ?thesis using assms by (simp add: gxfp_fdt_flow_set_mode_def)
next
  case False
  note c = fdt_invD(1) [OF assms(1)]
  note t = fdt_cmd_okD(5) [OF c]
  show ?thesis
    using assms False c t
    by (cases mode)
      (auto simp: gxfp_fdt_flow_set_mode_def fdt_commands_eq Let_def monotonic_ms_eq fdt_inv_def FDT_WAIT_UP_MAX_RETRIES_def
        split: prod.splits if_splits)
qed

lemma apply_events_inv: "fdt_inv f \<Longrightarrow> fdt_apply_events f events = (r, f', evs) \<Longrightarrow> fdt_inv f'"
  by (auto simp: fdt_apply_events_def Let_def fdt_inv_def split: if_splits)

lemma feed_inv:
  assumes "fdt_inv f" "gxfp_fdt_flow_feed_record env (Some f) (Some d) hdr payload n h = ((r, Some f', events), h')"
  shows "fdt_inv f'"
proof -
  obtain r1 cmd status where u: "fdt_update_state_from_record (Some (ff_cmd f)) hdr payload n = (r1, cmd, status)"
    using prod_cases3 by blast
  obtain s2 where s2: "cmd = Some s2" "fdt_cmd_ok s2" using update_from_record_ok(1) [OF fdt_invD(1) [OF assms(1)] u] by blast
  have i: "fdt_inv (f\<lparr>ff_cmd := s2\<rparr>)" "fdt_inv (f\<lparr>ff_cmd := s2, ff_last_status := the status\<rparr>)"
    "fdt_inv (f\<lparr>ff_last_status := the status, ff_cmd := with_manual s2\<rparr>)"
    using assms(1) s2(2) by (simp_all add: fdt_inv_def)
  show ?thesis
    using assms u s2 i(1,3)
    by (auto simp: gxfp_fdt_flow_feed_record_def fdt_commands_eq Let_def split: prod.splits if_splits
        dest!: apply_events_inv [OF i(2)] apply_events_inv [OF i(3)])
qed

lemma poll_inv:
  assumes "fdt_inv f" "gxfp_fdt_flow_poll env (Some f) (Some d) now h = ((r, Some f'), h')"
  shows "fdt_inv f'"
proof -
  define f1 where "f1 = (if ff_last_good_up_valid f then f\<lparr>ff_cmd := (ff_cmd f)\<lparr>fs_up_table_5130 := ff_last_good_up_table f\<rparr>\<rparr> else f)"
  have i: "fdt_inv f1" using assms(1) by (simp add: f1_def fdt_inv_def fdt_cmd_ok_def)
  note c = fdt_invD(1) [OF i]
  have k: "ff_wait_up_retries f1 = ff_wait_up_retries f" by (simp add: f1_def)
  show ?thesis
    using assms i c k fdt_cmd_okD(5) [OF c]
    unfolding gxfp_fdt_flow_poll_def option.case Let_def f1_def [symmetric]
    by (auto simp: fdt_commands_eq Let_def fdt_inv_def gxfp_fdt_flow_wait_up_retry_due_def split: prod.splits if_splits)
qed

lemma init_inv: "gxfp_fdt_flow_init (Some f0) = Some f \<Longrightarrow> fdt_inv f"
  by (auto simp: gxfp_fdt_flow_init_def gxfp_cmd_fdt_state_init_def fdt_state_zero_def fdt_inv_def fdt_cmd_ok_def
      FDT_WAIT_UP_MAX_RETRIES_def)

section \<open>Waiting for the finger to be lifted\<close>

text \<open>From arming a wait on, through any polls and records, with the times at which it was armed, the latest first: the time read when it was
  set up, and the time of each poll that counted a re-arm.\<close>

inductive lifting :: "uenv \<Rightarrow> udev \<Rightarrow> int list \<Rightarrow> gxfp_fdt_flow \<Rightarrow> bool" for env :: uenv and d :: udev where
  Arm: "fdt_inv f \<Longrightarrow> ff_mode f \<noteq> GXFP_FDT_MODE_WAIT_UP \<Longrightarrow>
    gxfp_fdt_flow_set_mode env (Some f) (Some d) GXFP_FDT_MODE_WAIT_UP h = ((0, Some f'), UClock # h') \<Longrightarrow>
    lifting env d [clock_ms env h'] f'"
| Feed: "lifting env d ts f \<Longrightarrow>
    gxfp_fdt_flow_feed_record env (Some f) (Some d) hdr payload n h = ((r, Some f', events), h') \<Longrightarrow> lifting env d ts f'"
| Poll: "lifting env d ts f \<Longrightarrow> gxfp_fdt_flow_poll env (Some f) (Some d) now h = ((r, Some f'), h') \<Longrightarrow>
    lifting env d (if ff_wait_up_retries f' \<noteq> ff_wait_up_retries f then now # ts else ts) f'"

text \<open>Times that lie at least 750 milliseconds apart.\<close>

fun apart :: "int list \<Rightarrow> bool" where
  "apart (t # u # ts) \<longleftrightarrow> u + 750 \<le> t \<and> apart (u # ts)"
| "apart _ \<longleftrightarrow> True"

lemma apart_nth: "apart ts \<Longrightarrow> Suc i < length ts \<Longrightarrow> ts ! Suc i + 750 \<le> ts ! i"
  by (induction ts arbitrary: i rule: apart.induct) (auto simp: nth_Cons split: nat.split)

lemma apart_span: "apart ts \<Longrightarrow> ts \<noteq> [] \<Longrightarrow> last ts + 750 * (int (length ts) - 1) \<le> hd ts"
  by (induction ts rule: apart.induct) auto

lemma feed_keeps_wait:
  assumes "fdt_inv f" "gxfp_fdt_flow_feed_record env (Some f) (Some d) hdr payload n h = ((r, Some f', events), h')"
  shows "ff_mode f' = ff_mode f \<and> ff_wait_up_retries f' = ff_wait_up_retries f \<and> ff_wait_up_armed_ms f' = ff_wait_up_armed_ms f"
proof -
  have a: "ff_mode f'' = ff_mode g \<and> ff_wait_up_retries f'' = ff_wait_up_retries g \<and> ff_wait_up_armed_ms f'' = ff_wait_up_armed_ms g"
    if "fdt_apply_events g e = (rr, f'', evs)" for g e rr f'' evs
    using that by (auto simp: fdt_apply_events_def Let_def split: if_splits)
  obtain r1 cmd status where u: "fdt_update_state_from_record (Some (ff_cmd f)) hdr payload n = (r1, cmd, status)"
    using prod_cases3 by blast
  obtain s2 where s2: "cmd = Some s2" "fdt_cmd_ok s2" using update_from_record_ok(1) [OF fdt_invD(1) [OF assms(1)] u] by blast
  show ?thesis
    using assms(2) u s2
    by (auto simp: gxfp_fdt_flow_feed_record_def fdt_commands_eq Let_def split: prod.splits if_splits dest!: a)
qed

lemma poll_advances:
  assumes "fdt_inv f" "gxfp_fdt_flow_poll env (Some f) (Some d) now h = ((r, Some f'), h')"
  shows "ff_mode f' = ff_mode f \<and> (ff_wait_up_retries f' = ff_wait_up_retries f \<and> ff_wait_up_armed_ms f' = ff_wait_up_armed_ms f \<or>
    ff_wait_up_retries f' = ff_wait_up_retries f + 1 \<and> ff_wait_up_armed_ms f' = now \<and> ff_wait_up_armed_ms f + 750 \<le> now)"
proof -
  define f1 where "f1 = (if ff_last_good_up_valid f then f\<lparr>ff_cmd := (ff_cmd f)\<lparr>fs_up_table_5130 := ff_last_good_up_table f\<rparr>\<rparr> else f)"
  have i: "fdt_cmd_ok (ff_cmd f1)" using assms(1) by (simp add: f1_def fdt_inv_def fdt_cmd_ok_def)
  have k: "ff_wait_up_retries f1 = ff_wait_up_retries f" "ff_wait_up_armed_ms f1 = ff_wait_up_armed_ms f" "ff_mode f1 = ff_mode f"
    by (simp_all add: f1_def)
  show ?thesis
    using assms(2) i k
    unfolding gxfp_fdt_flow_poll_def option.case Let_def f1_def [symmetric]
    by (auto simp: fdt_commands_eq Let_def gxfp_fdt_flow_wait_up_retry_due_def FDT_WAIT_UP_RETRY_MS_def split: prod.splits if_splits)
qed

lemma arm_up_result:
  assumes "fdt_inv f" "ff_mode f \<noteq> GXFP_FDT_MODE_WAIT_UP"
    and "gxfp_fdt_flow_set_mode env (Some f) (Some d) GXFP_FDT_MODE_WAIT_UP h = ((0, Some f'), UClock # h')"
  shows "f' = f\<lparr>ff_cmd := with_manual (ff_cmd f), ff_armed_up_table := fs_up_table_5130 (ff_cmd f), ff_wait_up_armed_ms := clock_ms env h',
     ff_wait_up_retries := 0, ff_mode := GXFP_FDT_MODE_WAIT_UP\<rparr>"
  using assms fdt_invD(1) [OF assms(1)]
  by (auto simp: gxfp_fdt_flow_set_mode_def fdt_commands_eq Let_def monotonic_ms_eq split: prod.splits if_splits)

lemma lifting_inv:
  assumes "lifting env d ts f"
  shows "fdt_inv f \<and> ff_mode f = GXFP_FDT_MODE_WAIT_UP \<and> ts \<noteq> [] \<and> hd ts = ff_wait_up_armed_ms f \<and>
    ff_wait_up_retries f = int (length ts) - 1 \<and> apart ts"
  using assms
proof induction
  case (Arm f h f' h')
  then show ?case using set_mode_inv [OF Arm(1,3)] arm_up_result [OF Arm] by simp
next
  case (Feed ts f hdr payload n h r f' events h')
  then show ?case using feed_inv feed_keeps_wait by metis
next
  case (Poll ts f now h r f' h')
  obtain t us where ts: "ts = t # us" using Poll.IH by (cases ts) auto
  then show ?case using Poll.IH poll_inv [OF _ Poll(2)] poll_advances [OF _ Poll(2)] by auto
qed

subsection \<open>The packets of a wait\<close>

text \<open>A device file that takes every packet.\<close>

definition device_takes :: "uenv \<Rightarrow> udev \<Rightarrow> bool" where
  "device_takes env d \<longleftrightarrow> 0 \<le> ud_fd d \<and> (\<forall>h n. sys_malloc env h n) \<and> (\<forall>h b. sys_write env h (ud_fd d) b = Inr (length b))"

lemma fdt_send_ok:
  assumes "device_takes env d" "fdt_table t"
  obtains h' where "fdt_send env d c m t h = (0, h')" "sent h' = sent h @ [cmd_packet c (fdt_payload m t)]"
proof -
  have l: "length (fdt_payload m t) = 34" by (rule length_fdt_payload [OF assms(2)])
  then have "length (cmd_packet c (fdt_payload m t)) = 46" by (simp add: cmd_packet_def tx_record_def)
  then have "\<exists>h'. fdt_send env d c m t h = (0, h') \<and> sent h' = sent h @ [cmd_packet c (fdt_payload m t)]"
    unfolding fdt_send_def using assms(1) l
    by (subst send_async_eq) (auto simp: device_takes_def Let_def)
  then show thesis using that by blast
qed

text \<open>The table a re-arm goes back to, the two packets of an arm and the flow after a re-arm.\<close>

definition rearm_table :: "gxfp_fdt_flow \<Rightarrow> bytes" where
  "rearm_table f = (if ff_last_good_up_valid f then ff_last_good_up_table f else fs_up_table_5130 (ff_cmd f))"

definition up_packets :: "bytes \<Rightarrow> bytes \<Rightarrow> bytes list" where
  "up_packets down up = [cmd_packet GXFP_CMD_FDT_MODE (fdt_payload 0x09 down), cmd_packet GXFP_CMD_FDT_UP (fdt_payload 0x0A up)]"

definition rearmed :: "gxfp_fdt_flow \<Rightarrow> int \<Rightarrow> gxfp_fdt_flow" where
  "rearmed f now = f\<lparr>ff_cmd := with_manual ((ff_cmd f)\<lparr>fs_up_table_5130 := rearm_table f\<rparr>), ff_armed_up_table := rearm_table f,
     ff_wait_up_armed_ms := now, ff_wait_up_retries := ff_wait_up_retries f + 1\<rparr>"

lemma up_table_id: "st\<lparr>fs_up_table_5130 := fs_up_table_5130 st\<rparr> = st"
  by simp

lemma poll_rearms:
  assumes "fdt_inv f" "device_takes env d" "gxfp_fdt_flow_wait_up_retry_due (Some f) now = 1"
  obtains h' where "gxfp_fdt_flow_poll env (Some f) (Some d) now h = ((0, Some (rearmed f now)), h')"
    "sent h' = sent h @ up_packets (fs_down_table_5130 (ff_cmd f)) (rearm_table f)"
proof -
  define f1 where "f1 = (if ff_last_good_up_valid f then f\<lparr>ff_cmd := (ff_cmd f)\<lparr>fs_up_table_5130 := ff_last_good_up_table f\<rparr>\<rparr> else f)"
  have f1: "f1 = f\<lparr>ff_cmd := (ff_cmd f)\<lparr>fs_up_table_5130 := rearm_table f\<rparr>\<rparr>" by (simp add: f1_def rearm_table_def)
  have t: "fdt_table (rearm_table f)" "fdt_table (fs_down_table_5130 (ff_cmd f))"
    using assms(1) by (simp_all add: rearm_table_def fdt_inv_def fdt_cmd_ok_def)
  have c: "fdt_cmd_ok ((ff_cmd f)\<lparr>fs_up_table_5130 := rearm_table f\<rparr>)" using assms(1) t by (simp add: fdt_inv_def fdt_cmd_ok_def)
  obtain h1 where h1: "fdt_send env d GXFP_CMD_FDT_MODE 0x09 (fs_down_table_5130 (ff_cmd f)) h = (0, h1)"
    "sent h1 = sent h @ [cmd_packet GXFP_CMD_FDT_MODE (fdt_payload 0x09 (fs_down_table_5130 (ff_cmd f)))]"
    by (rule fdt_send_ok [OF assms(2) t(2)])
  obtain h2 where h2: "fdt_send env d GXFP_CMD_FDT_UP 0x0A (rearm_table f) h1 = (0, h2)"
    "sent h2 = sent h1 @ [cmd_packet GXFP_CMD_FDT_UP (fdt_payload 0x0A (rearm_table f))]"
    by (rule fdt_send_ok [OF assms(2) t(1)])
  have "gxfp_fdt_flow_poll env (Some f) (Some d) now h = ((0, Some (rearmed f now)), h2)"
    unfolding gxfp_fdt_flow_poll_def option.case Let_def assms(3) f1_def [symmetric] unfolding f1
    using c h1(1) h2(1) by (simp add: fdt_commands_eq Let_def rearmed_def)
  then show thesis using that h1(2) h2(2) by (simp add: up_packets_def)
qed

lemma set_mode_arms_up:
  assumes "fdt_inv f" "device_takes env d" "ff_mode f \<noteq> GXFP_FDT_MODE_WAIT_UP"
  obtains h' where "gxfp_fdt_flow_set_mode env (Some f) (Some d) GXFP_FDT_MODE_WAIT_UP h =
      ((0, Some (f\<lparr>ff_cmd := with_manual (ff_cmd f), ff_armed_up_table := fs_up_table_5130 (ff_cmd f),
          ff_wait_up_armed_ms := clock_ms env h', ff_wait_up_retries := 0, ff_mode := GXFP_FDT_MODE_WAIT_UP\<rparr>)), UClock # h')"
    "sent h' = sent h @ up_packets (fs_down_table_5130 (ff_cmd f)) (fs_up_table_5130 (ff_cmd f))"
proof -
  note c = fdt_invD(1) [OF assms(1)]
  note t = fdt_cmd_okD(5,6) [OF c]
  obtain h1 where h1: "fdt_send env d GXFP_CMD_FDT_MODE 0x09 (fs_down_table_5130 (ff_cmd f)) h = (0, h1)"
    "sent h1 = sent h @ [cmd_packet GXFP_CMD_FDT_MODE (fdt_payload 0x09 (fs_down_table_5130 (ff_cmd f)))]"
    by (rule fdt_send_ok [OF assms(2) t(2)])
  obtain h2 where h2: "fdt_send env d GXFP_CMD_FDT_UP 0x0A (fs_up_table_5130 (ff_cmd f)) h1 = (0, h2)"
    "sent h2 = sent h1 @ [cmd_packet GXFP_CMD_FDT_UP (fdt_payload 0x0A (fs_up_table_5130 (ff_cmd f)))]"
    by (rule fdt_send_ok [OF assms(2) t(1)])
  show thesis
    using that [of h2] c h1 h2 assms(3) by (simp add: gxfp_fdt_flow_set_mode_def fdt_commands_eq Let_def monotonic_ms_eq up_packets_def)
qed

text \<open>Polling at given times, and times at which a re-arm is due each time.\<close>

fun poll_run :: "uenv \<Rightarrow> udev \<Rightarrow> gxfp_fdt_flow \<Rightarrow> int list \<Rightarrow> uhist \<Rightarrow> (int list \<times> gxfp_fdt_flow) \<times> uhist" where
  "poll_run env d f [] h = (([], f), h)"
| "poll_run env d f (now # ts) h =
    (case gxfp_fdt_flow_poll env (Some f) (Some d) now h of
       ((r, f), h) \<Rightarrow> (case poll_run env d (the f) ts h of ((rs, f), h) \<Rightarrow> ((r # rs, f), h)))"

fun spaced :: "int \<Rightarrow> int list \<Rightarrow> bool" where
  "spaced t [] \<longleftrightarrow> True"
| "spaced t (u # ts) \<longleftrightarrow> t + 750 \<le> u \<and> spaced u ts"

lemma rearmed_sel [simp]:
  "ff_mode (rearmed f t) = ff_mode f" "ff_state (rearmed f t) = ff_state f" "ff_wait_up_armed_ms (rearmed f t) = t"
  "ff_wait_up_retries (rearmed f t) = ff_wait_up_retries f + 1" "rearm_table (rearmed f t) = rearm_table f"
  "fs_down_table_5130 (ff_cmd (rearmed f t)) = fs_down_table_5130 (ff_cmd f)"
  by (simp_all add: rearmed_def rearm_table_def)

lemma poll_run_rearms:
  assumes "device_takes env d" "fdt_inv f" "ff_mode f = GXFP_FDT_MODE_WAIT_UP" "ff_state f \<noteq> GXFP_FDT_STATE_UP"
    and "0 < ff_wait_up_armed_ms f" "spaced (ff_wait_up_armed_ms f) ts" "int (length ts) = 21 - ff_wait_up_retries f"
  shows "\<exists>f' h'. poll_run env d f ts h = ((replicate (length ts - 1) 0 @ [- ETIMEDOUT], f'), h') \<and>
    sent h' = sent h @ concat (replicate (length ts - 1) (up_packets (fs_down_table_5130 (ff_cmd f)) (rearm_table f)))"
  using assms
proof (induction ts arbitrary: f h)
  case Nil
  then show ?case by (simp add: fdt_inv_def FDT_WAIT_UP_MAX_RETRIES_def)
next
  case (Cons t ts)
  let ?due = "gxfp_fdt_flow_wait_up_retry_due (Some f) t"
  have due: "?due = (if ff_wait_up_retries f \<ge> 20 then - ETIMEDOUT else 1)"
    using Cons.prems by (simp add: gxfp_fdt_flow_wait_up_retry_due_def FDT_WAIT_UP_RETRY_MS_def FDT_WAIT_UP_MAX_RETRIES_def)
  show ?case
  proof (cases ts)
    case Nil
    then have "?due = - ETIMEDOUT" using Cons.prems(7) due by simp
    then show ?thesis using Nil by (simp add: gxfp_fdt_flow_poll_def)
  next
    case (Cons t2 ts2)
    then have "?due = 1" using Cons.prems(7) due by simp
    then obtain h1 where p: "gxfp_fdt_flow_poll env (Some f) (Some d) t h = ((0, Some (rearmed f t)), h1)"
      "sent h1 = sent h @ up_packets (fs_down_table_5130 (ff_cmd f)) (rearm_table f)"
      using poll_rearms [OF Cons.prems(2,1)] by blast
    have "\<exists>f' h'. poll_run env d (rearmed f t) ts h1 = ((replicate (length ts - 1) 0 @ [- ETIMEDOUT], f'), h') \<and>
      sent h' = sent h1 @ concat (replicate (length ts - 1)
        (up_packets (fs_down_table_5130 (ff_cmd (rearmed f t))) (rearm_table (rearmed f t))))"
      using Cons.prems poll_inv [OF Cons.prems(2) p(1)] by (intro Cons.IH) simp_all
    then obtain f' h' where q: "poll_run env d (rearmed f t) ts h1 = ((replicate (length ts - 1) 0 @ [- ETIMEDOUT], f'), h')"
      "sent h' = sent h1 @ concat (replicate (length ts - 1) (up_packets (fs_down_table_5130 (ff_cmd f)) (rearm_table f)))"
      by auto
    have n: "length (t # ts) - 1 = Suc (length ts - 1)" using Cons by simp
    show ?thesis unfolding n using p q by simp
  qed
qed

section \<open>The report that the finger was lifted\<close>

definition entry_of :: "bytes \<Rightarrow> nat \<Rightarrow> u16" where
  "entry_of t i = gxfp_le16 (drop (i * 2) t)"

lemma entry_put:
  assumes "2 * i + 1 < length t" "2 * j + 1 < length t"
  shows "entry_of (put_entry t i e) j = (if j = i then e else entry_of t j)"
proof -
  have b: "ucast (e AND 0xff) = lo8 e" "ucast (drop_bit 8 e AND 0xff) = hi8 e" by (simp_all add: lo8_def hi8_def)
  have n: "entry_of t j = le16 (t ! (2 * j)) (t ! (2 * j + 1))" if "2 * j + 1 < length t" for t
    using that by (simp add: entry_of_def gxfp_le16_eq mult.commute)
  have k: "2 * i \<noteq> Suc (2 * j)" "2 * j \<noteq> Suc (2 * i)" by presburger+
  show ?thesis
    using assms n [of t] n [of "put_entry t i e"] k by (auto simp: put_entry_def b mult.commute)
qed

lemma entry_foldl:
  assumes "fdt_table t" "n \<le> 10" "j < 12"
  shows "entry_of (foldl (\<lambda>t i. put_entry t i (g i)) t [0..<n]) j = (if j < n then g j else entry_of t j)"
  using assms(2)
proof (induction n)
  case (Suc n)
  let ?t = "foldl (\<lambda>t i. put_entry t i (g i)) t [0..<n]"
  have "length ?t = 24" using fdt_table_foldl [OF _ assms(1), of "[0..<n]" "\<lambda>t i. g i"] Suc.prems by (simp add: fdt_table_def)
  then show ?case using Suc assms(3) by (auto simp: entry_put)
qed simp

text \<open>The base a report gives for each of the first ten entries.\<close>

definition down_base :: "bytes \<Rightarrow> nat \<Rightarrow> u16" where
  "down_base rb i = push_bit 8 (drop_bit 1 (entry_of rb i) AND 0xffff) OR 0x80"

lemma downbase_entries:
  assumes "fdt_table t" "j < 12"
  shows "entry_of (fdt_downbase_from_raw (Some rb) n t) j = (if j < min (n div 2) 10 then down_base rb j else entry_of t j)"
proof (cases "n < 2")
  case True
  then show ?thesis by (simp add: fdt_downbase_from_raw_def)
next
  case False
  have f: "(\<lambda>table i. let raw = gxfp_le16 (drop (i * 2) rb); half = drop_bit 1 raw AND 0xffff; encoded = push_bit 8 half OR 0x80
       in put_entry table i encoded) = (\<lambda>table i. put_entry table i (down_base rb i))"
    by (simp add: fun_eq_iff Let_def down_base_def entry_of_def)
  show ?thesis
    unfolding fdt_downbase_from_raw_def option.case if_not_P [OF False] f GXFP_FDT_BASE_UPDATE_ENTRIES_def
    by (simp only: Let_def entry_foldl [OF assms(1) min.cobounded2 assms(2)])
qed

definition up_status :: "u16 \<Rightarrow> bool" where
  "up_status s \<longleftrightarrow> s = 0x0200 \<or> s = 0x0080 \<or> s = 0x0082"

definition fdt_report :: "u16 \<Rightarrow> u16 \<Rightarrow> bytes \<Rightarrow> bytes" where
  "fdt_report status touch rb = [lo8 status, hi8 status, lo8 touch, hi8 touch] @ rb"

definition fdt_report_cmd :: "u8 \<Rightarrow> bool" where
  "fdt_report_cmd c \<longleftrightarrow> c = GXFP_CMD_FDT_STATUS \<or> c = GXFP_CMD_FDT_DOWN \<or> c = GXFP_CMD_FDT_MODE \<or> c = GXFP_CMD_FDT_UP"

lemma update_from_up_report:
  assumes "fdt_cmd_ok st" "th_type hdr = 0x0A \<or> th_type hdr = 0x0C" "fdt_report_cmd c" "up_status s" "length rb \<le> 0xFE00"
  obtains t where "fdt_update_state_from_record (Some st) (Some hdr) (Some (body_bytes c (fdt_report s touch rb)))
      (length rb + 8) = (0, Some (st\<lparr>fs_down_table_5130 := t\<rparr>), Some s)"
    "\<And>i. i < 12 \<Longrightarrow> entry_of t i = (if i < min (length rb div 2) 10 then down_base rb i else entry_of (fs_down_table_5130 st) i)"
proof -
  let ?p = "fdt_report s touch rb"
  let ?fr = "body_frame c ?p []"
  have len: "length ?p = length rb + 4" by (simp add: fdt_report_def)
  have p: "gxfp_parse_goodix_body (Some (body_bytes c ?p)) (length rb + 8) (Some frame_zero) = (True, Some ?fr)"
    using ubody.parse_accepts [of "body_bytes c ?p" "length rb + 8" frame_zero] assms(5) len
      body_view_bytes(1) [of ?p c "[]"] body_view_bytes(2) [of ?p "length rb + 8" c "[]"]
    by simp
  have n: "unat (of_nat (length rb + 4) :: u16) = length rb + 4" using assms(5) by (intro unat_of_nat_u16) simp
  have q: "fr_payload_len ?fr = of_nat (length rb + 4)" "the (fr_payload ?fr) = ?p @ [fr_proto_checksum ?fr]" "fr_valid ?fr" "fr_cmd ?fr = c"
    using len by (simp_all add: body_frame_def Let_def)
  have s: "gxfp_le16 (?p @ [fr_proto_checksum ?fr]) = s" by (simp add: gxfp_le16_eq fdt_report_def)
  have l: "\<not> (of_nat (length rb + 4) :: u16) < 4" "\<not> (of_nat (length rb + 4) :: u16) < 2" using n by (simp_all add: word_less_nat_alt)
  have st: "(s = FDT_STATUS_IRQ_DOWN_GET_UP_BASE) = False"
    "(s = FDT_STATUS_IRQ_UP_GET_DOWN_BASE \<or> s = FDT_STATUS_IRQ_REVERSE_0 \<or> s = FDT_STATUS_IRQ_REVERSE_2) = True"
    using assms(4) by (auto simp: up_status_def FDT_STATUS_IRQ_DOWN_GET_UP_BASE_def FDT_STATUS_IRQ_UP_GET_DOWN_BASE_def
        FDT_STATUS_IRQ_REVERSE_0_def FDT_STATUS_IRQ_REVERSE_2_def)
  have d: "drop 4 (?p @ [fr_proto_checksum ?fr]) = rb @ [fr_proto_checksum ?fr]" by (simp add: fdt_report_def)
  define rl where "rl = (if length rb > GXFP_FDT_BASE_UPDATE_ENTRIES * 2 then GXFP_FDT_BASE_UPDATE_ENTRIES * 2 else length rb)"
  define t where "t = fdt_downbase_from_raw (Some (rb @ [fr_proto_checksum ?fr])) rl (fs_down_table_5130 st)"
  have u: "fdt_base_table_update_from_frame (Some st) (Some ?fr) = Some (st\<lparr>fs_down_table_5130 := t\<rparr>)"
    unfolding fdt_base_table_update_from_frame_def option.case prod.case Let_def q s n st if_False if_True if_not_P [OF l(1)] d
    by (simp add: rl_def t_def)
  have e: "entry_of t i = (if i < min (length rb div 2) 10 then down_base rb i else entry_of (fs_down_table_5130 st) i)" if "i < 12" for i
  proof -
    have b: "down_base (rb @ x) i = down_base rb i" if "i < length rb div 2" for x
      using that by (simp add: down_base_def entry_of_def gxfp_le16_eq nth_append)
    have m: "min (rl div 2) 10 = min (length rb div 2) 10" by (auto simp: rl_def GXFP_FDT_BASE_UPDATE_ENTRIES_def)
    show ?thesis unfolding t_def downbase_entries [OF fdt_cmd_okD(6) [OF assms(1)] that] m using b by simp
  qed
  show thesis
    using that [of t] e p u q s l assms(2,3) fdt_cmd_okD(4) [OF assms(1)]
    by (auto simp: fdt_update_state_from_record_def fdt_report_cmd_def GOODIX_MP_TYPE_CMD_def GOODIX_MP_TYPE_NOTICE_def)
qed

lemma feed_up_report:
  assumes "fdt_inv f" "ff_mode f = GXFP_FDT_MODE_WAIT_UP" "th_type hdr = 0x0A \<or> th_type hdr = 0x0C" "fdt_report_cmd c"
    and "up_status s" "length rb \<le> 0xFE00"
  obtains t evs where "gxfp_fdt_flow_feed_record env (Some f) (Some d) (Some hdr) (Some (body_bytes c (fdt_report s touch rb)))
      (length rb + 8) h =
      ((0, Some (f\<lparr>ff_cmd := (ff_cmd f)\<lparr>fs_down_table_5130 := t\<rparr>, ff_last_status := s, ff_state := GXFP_FDT_STATE_UP,
          ff_last_good_up_table := ff_armed_up_table f, ff_last_good_up_valid := True\<rparr>), evs), h)"
    "evs AND GXFP_FDT_EVENT_UP \<noteq> 0"
    "\<And>i. i < 12 \<Longrightarrow> entry_of t i =
       (if i < min (length rb div 2) 10 then down_base rb i else entry_of (fs_down_table_5130 (ff_cmd f)) i)"
proof -
  obtain t where t: "fdt_update_state_from_record (Some (ff_cmd f)) (Some hdr) (Some (body_bytes c (fdt_report s touch rb)))
      (length rb + 8) = (0, Some ((ff_cmd f)\<lparr>fs_down_table_5130 := t\<rparr>), Some s)"
    "\<And>i. i < 12 \<Longrightarrow> entry_of t i =
       (if i < min (length rb div 2) 10 then down_base rb i else entry_of (fs_down_table_5130 (ff_cmd f)) i)"
    using update_from_up_report [OF fdt_invD(1) [OF assms(1)] assms(3-6)] by blast
  define evs where "evs = (if s = 0x0200 then GXFP_FDT_EVENT_UP else GXFP_FDT_EVENT_REVERSE OR GXFP_FDT_EVENT_UP)"
  have e: "fdt_status_to_events s = (if s = 0x0200 then GXFP_FDT_EVENT_UP else GXFP_FDT_EVENT_REVERSE)"
    using assms(5) by (auto simp: fdt_status_to_events_def up_status_def FDT_STATUS_DOWN_GET_UP_BASE_def FDT_STATUS_UP_def
        FDT_STATUS_IRQ_REVERSE_0_def FDT_STATUS_IRQ_REVERSE_2_def)
  have "fdt_apply_events g (fdt_status_to_events s) =
      (0, g\<lparr>ff_state := GXFP_FDT_STATE_UP, ff_last_good_up_table := ff_armed_up_table g, ff_last_good_up_valid := True\<rparr>, evs)"
    if "ff_mode g = GXFP_FDT_MODE_WAIT_UP" for g
    using that unfolding e
    by (simp add: fdt_apply_events_def evs_def Let_def GXFP_FDT_EVENT_UP_def GXFP_FDT_EVENT_REVERSE_def GXFP_FDT_EVENT_DOWN_def
        GXFP_FDT_EVENT_NONE_def)
  moreover have "evs AND GXFP_FDT_EVENT_UP \<noteq> 0" by (simp add: evs_def GXFP_FDT_EVENT_UP_def GXFP_FDT_EVENT_REVERSE_def)
  ultimately show thesis
    using that [of t evs] t assms(2) by (simp add: gxfp_fdt_flow_feed_record_def)
qed

section \<open>Properties\<close>

text \<open>C38: The finger detection flow keeps its invariant. Through every order of starting, changing the
  mode, setting the run-time values, feeding records and polling, whatever the device and the
  system calls answer, every table has 24 bytes of which reports only ever set the first twenty, the
  round flag is 0 or 1 and the number of re-arms stays within its budget.\<close>

theorem fdt_inv_reachable:
  assumes "fdt_reach env d f"
  shows "fdt_inv f"
  using assms
proof induction
  case (Init f0 f)
  then show ?case by (rule init_inv)
next
  case (Runtime f second twice diff dac st)
  then show ?case by (auto simp: gxfp_cmd_fdt_state_set_runtime_def fdt_inv_def fdt_cmd_ok_def)
qed (blast intro: set_mode_inv feed_inv poll_inv)+

definition demo_flow :: gxfp_fdt_flow where
  "demo_flow = the (gxfp_fdt_flow_init (Some \<lparr>ff_cmd = fdt_state_zero, ff_mode = GXFP_FDT_MODE_IDLE, ff_state = GXFP_FDT_STATE_UP,
     ff_last_status = 7, ff_armed_up_table = [], ff_last_good_up_table = [], ff_last_good_up_valid = True,
     ff_wait_up_retries = 99, ff_wait_up_armed_ms = 5\<rparr>))"

lemma demo_flow_reach: "fdt_reach env d demo_flow"
  unfolding demo_flow_def by (rule fdt_reach.Init) (simp add: gxfp_fdt_flow_init_def)

theorem fdt_inv_reachable_witness: "fdt_inv demo_flow"
  by (rule fdt_inv_reachable [OF demo_flow_reach [of sim_uenv "\<lparr>ud_fd = 3\<rparr>"]])

lemma demo_flow_inv: "fdt_inv demo_flow"
  by (rule init_inv) (simp add: demo_flow_def gxfp_fdt_flow_init_def)

lemma demo_flow_sel [simp]:
  "ff_mode demo_flow = GXFP_FDT_MODE_IDLE" "ff_state demo_flow = GXFP_FDT_STATE_UNKNOWN" "ff_armed_up_table demo_flow = zeros 24"
  by (simp_all add: demo_flow_def gxfp_fdt_flow_init_def)

text \<open>C39: The budget of a wait. While a wait for the finger to be lifted is armed, however often and however late the
  flow is polled and whatever records arrive: any two consecutive times at which it was armed lie at least 750
  milliseconds apart, there are at most twenty re-arms, and a poll within 750 milliseconds of the last arming sends nothing and changes
  nothing. The wait is given up only after twenty re-arms and another 750 milliseconds, so not before 15.75 seconds are over.\<close>

theorem wait_up_budget:
  assumes "lifting env d ts f"
  shows "ff_mode f = GXFP_FDT_MODE_WAIT_UP \<and> length ts \<le> 21 \<and> ff_wait_up_retries f = int (length ts) - 1 \<and>
    (\<forall>i. Suc i < length ts \<longrightarrow> ts ! Suc i + 750 \<le> ts ! i) \<and>
    (\<forall>now h. now < hd ts + 750 \<longrightarrow> gxfp_fdt_flow_poll env (Some f) (Some d) now h = ((0, Some f), h)) \<and>
    (\<forall>now. gxfp_fdt_flow_wait_up_retry_due (Some f) now = - ETIMEDOUT \<longrightarrow>
       length ts = 21 \<and> hd ts + 750 \<le> now \<and> last ts + 15750 \<le> now)"
proof -
  have i: "fdt_inv f" "ff_mode f = GXFP_FDT_MODE_WAIT_UP" "ts \<noteq> []" "hd ts = ff_wait_up_armed_ms f" "ff_wait_up_retries f = int (length ts) - 1" "apart ts"
    using lifting_inv [OF assms] by simp_all
  have n: "length ts \<le> 21" using i(1,5) by (simp add: fdt_inv_def FDT_WAIT_UP_MAX_RETRIES_def)
  have p: "gxfp_fdt_flow_poll env (Some f) (Some d) now h = ((0, Some f), h)" if "now < hd ts + 750" for now h
    using that i(4) by (simp add: gxfp_fdt_flow_poll_def gxfp_fdt_flow_wait_up_retry_due_def FDT_WAIT_UP_RETRY_MS_def)
  have e: "length ts = 21 \<and> hd ts + 750 \<le> now" if "gxfp_fdt_flow_wait_up_retry_due (Some f) now = - ETIMEDOUT" for now
    using that i(4,5) n
    by (auto simp: gxfp_fdt_flow_wait_up_retry_due_def FDT_WAIT_UP_RETRY_MS_def FDT_WAIT_UP_MAX_RETRIES_def split: if_splits)
  then show ?thesis using i(2,5) n p apart_nth [OF i(6)] apart_span [OF i(6,3)] by fastforce
qed

lemma sim_device_takes: "device_takes (sim_uenv\<lparr>sys_clock := c\<rparr>) \<lparr>ud_fd = 3\<rparr>"
  by (simp add: device_takes_def sim_uenv_def)

text \<open>A wait that is polled late and then at once: the second poll does not re-arm.\<close>

theorem wait_up_budget_witness:
  "\<exists>env d f h f'. lifting env d [99999, 7000] f \<and> ff_wait_up_retries f = 1 \<and>
    gxfp_fdt_flow_poll env (Some f) (Some d) 100000 h = ((0, Some f'), h) \<and> f' = f"
proof -
  define env where "env = sim_uenv\<lparr>sys_clock := \<lambda>h. (7, 0)\<rparr>"
  have t: "device_takes env \<lparr>ud_fd = 3\<rparr>" by (simp add: env_def sim_device_takes)
  obtain h' where a: "gxfp_fdt_flow_set_mode env (Some demo_flow) (Some \<lparr>ud_fd = 3\<rparr>) GXFP_FDT_MODE_WAIT_UP [] =
      ((0, Some (demo_flow\<lparr>ff_cmd := with_manual (ff_cmd demo_flow), ff_armed_up_table := fs_up_table_5130 (ff_cmd demo_flow),
          ff_wait_up_armed_ms := clock_ms env h', ff_wait_up_retries := 0, ff_mode := GXFP_FDT_MODE_WAIT_UP\<rparr>)), UClock # h')"
    (is "_ = ((0, Some ?f), _)")
    using set_mode_arms_up [OF demo_flow_inv t] by (metis demo_flow_sel(1) gxfp_fdt_mode.distinct(3))
  have c: "clock_ms env h' = 7000" by (simp add: env_def clock_ms_def gxfp_monotonic_ms_def)
  have l: "lifting env \<lparr>ud_fd = 3\<rparr> [7000] ?f" using lifting.Arm [OF demo_flow_inv _ a] c by simp
  have "gxfp_fdt_flow_wait_up_retry_due (Some ?f) 99999 = 1"
    using c by (simp add: gxfp_fdt_flow_wait_up_retry_due_def FDT_WAIT_UP_RETRY_MS_def FDT_WAIT_UP_MAX_RETRIES_def)
  then obtain h2 where "gxfp_fdt_flow_poll env (Some ?f) (Some \<lparr>ud_fd = 3\<rparr>) 99999 (UClock # h') = ((0, Some (rearmed ?f 99999)), h2)"
    using poll_rearms [OF set_mode_inv [OF demo_flow_inv a] t] by blast
  then have l2: "lifting env \<lparr>ud_fd = 3\<rparr> [99999, 7000] (rearmed ?f 99999)" using lifting.Poll [OF l] by (fastforce simp: rearmed_def)
  show ?thesis using l2 wait_up_budget [OF l2] by (intro exI [of _ env] exI [of _ "\<lparr>ud_fd = 3\<rparr>"] exI [of _ "rearmed ?f 99999"]) simp
qed

text \<open>C40: A wait ends. When no report comes and the device takes every packet, polling at least 750
  milliseconds apart re-arms the wait exactly twenty times, each time with the mode packet and the up
  packet of the last table that worked, and the twenty-first due poll reports the time-out.\<close>

theorem wait_up_ends:
  assumes "fdt_inv f" and "device_takes env d" and "ff_mode f \<noteq> GXFP_FDT_MODE_WAIT_UP" and "ff_state f \<noteq> GXFP_FDT_STATE_UP"
    and "\<And>h. 0 < clock_ms env h" and "length ts = 21"
  shows "\<exists>f1 h1. gxfp_fdt_flow_set_mode env (Some f) (Some d) GXFP_FDT_MODE_WAIT_UP h = ((0, Some f1), h1) \<and>
    (spaced (ff_wait_up_armed_ms f1) ts \<longrightarrow>
      (\<exists>f2 h2. poll_run env d f1 ts h1 = ((replicate 20 0 @ [- ETIMEDOUT], f2), h2) \<and>
        sent h2 = sent h @ up_packets (fs_down_table_5130 (ff_cmd f)) (fs_up_table_5130 (ff_cmd f)) @
          concat (replicate 20 (up_packets (fs_down_table_5130 (ff_cmd f)) (rearm_table f)))))"
proof -
  obtain h1 where a: "gxfp_fdt_flow_set_mode env (Some f) (Some d) GXFP_FDT_MODE_WAIT_UP h =
      ((0, Some (f\<lparr>ff_cmd := with_manual (ff_cmd f), ff_armed_up_table := fs_up_table_5130 (ff_cmd f),
          ff_wait_up_armed_ms := clock_ms env h1, ff_wait_up_retries := 0, ff_mode := GXFP_FDT_MODE_WAIT_UP\<rparr>)), UClock # h1)"
    "sent h1 = sent h @ up_packets (fs_down_table_5130 (ff_cmd f)) (fs_up_table_5130 (ff_cmd f))"
    using set_mode_arms_up [OF assms(1-3)] by blast
  let ?f = "f\<lparr>ff_cmd := with_manual (ff_cmd f), ff_armed_up_table := fs_up_table_5130 (ff_cmd f),
          ff_wait_up_armed_ms := clock_ms env h1, ff_wait_up_retries := 0, ff_mode := GXFP_FDT_MODE_WAIT_UP\<rparr>"
  have r: "rearm_table ?f = rearm_table f" by (simp add: rearm_table_def)
  have "\<exists>f2 h2. poll_run env d ?f ts (UClock # h1) = ((replicate (length ts - 1) 0 @ [- ETIMEDOUT], f2), h2) \<and>
      sent h2 = sent (UClock # h1) @ concat (replicate (length ts - 1) (up_packets (fs_down_table_5130 (ff_cmd ?f)) (rearm_table ?f)))"
    if "spaced (ff_wait_up_armed_ms ?f) ts"
    using that assms(2,4,5,6) set_mode_inv [OF assms(1) a(1)] by (intro poll_run_rearms) simp_all
  then show ?thesis
    using a(2) assms(6) unfolding r by (intro exI [of _ ?f] exI [of _ "UClock # h1"] conjI a(1)) auto
qed

theorem wait_up_ends_witness:
  "\<exists>env d f1 h1 f2 h2. gxfp_fdt_flow_set_mode env (Some demo_flow) (Some d) GXFP_FDT_MODE_WAIT_UP [] = ((0, Some f1), h1) \<and>
    poll_run env d f1 (map (\<lambda>k. 8000 + 800 * k) [0..20]) h1 = ((replicate 20 0 @ [- ETIMEDOUT], f2), h2)"
proof -
  define env where "env = sim_uenv\<lparr>sys_clock := \<lambda>h. (7, 0)\<rparr>"
  have c: "clock_ms env h = 7000" for h by (simp add: env_def clock_ms_def gxfp_monotonic_ms_def)
  have t: "device_takes env \<lparr>ud_fd = 3\<rparr>" by (simp add: env_def sim_device_takes)
  let ?ts = "map (\<lambda>k. 8000 + 800 * k) [0..20 :: int]"
  have "\<exists>f1 h1. gxfp_fdt_flow_set_mode env (Some demo_flow) (Some \<lparr>ud_fd = 3\<rparr>) GXFP_FDT_MODE_WAIT_UP [] = ((0, Some f1), h1) \<and>
    (spaced (ff_wait_up_armed_ms f1) ?ts \<longrightarrow>
      (\<exists>f2 h2. poll_run env \<lparr>ud_fd = 3\<rparr> f1 ?ts h1 = ((replicate 20 0 @ [- ETIMEDOUT], f2), h2) \<and>
        sent h2 = sent [] @ up_packets (fs_down_table_5130 (ff_cmd demo_flow)) (fs_up_table_5130 (ff_cmd demo_flow)) @
          concat (replicate 20 (up_packets (fs_down_table_5130 (ff_cmd demo_flow)) (rearm_table demo_flow)))))"
    by (rule wait_up_ends [OF demo_flow_inv t]) (simp_all add: c)
  then obtain f1 h1 where f1: "gxfp_fdt_flow_set_mode env (Some demo_flow) (Some \<lparr>ud_fd = 3\<rparr>) GXFP_FDT_MODE_WAIT_UP [] = ((0, Some f1), h1)"
    "spaced (ff_wait_up_armed_ms f1) ?ts \<Longrightarrow> \<exists>f2 h2. poll_run env \<lparr>ud_fd = 3\<rparr> f1 ?ts h1 = ((replicate 20 0 @ [- ETIMEDOUT], f2), h2)"
    by blast
  moreover have "ff_wait_up_armed_ms f1 = 7000"
    using f1(1) c by (auto simp: gxfp_fdt_flow_set_mode_def monotonic_ms_eq Let_def split: prod.splits if_splits)
  moreover have "spaced 7000 ?ts" by code_simp
  ultimately show ?thesis by metis
qed

text \<open>A lifted finger completes the wait. In a wait for the finger to be lifted, every report with one
  of the three lift statuses, from a command or a notice record, is accepted with the event UP: the
  flow is in the state UP, the table it was armed with becomes the one a re-arm goes back to, the base
  of each reported entry replaces the entry of the down table, and nothing is sent.\<close>

theorem finger_up_completes:
  assumes "fdt_inv f" and "ff_mode f = GXFP_FDT_MODE_WAIT_UP" and "th_type hdr = 0x0A \<or> th_type hdr = 0x0C"
    and "fdt_report_cmd c" and "up_status s" and "length rb \<le> 0xFE00"
  shows "\<exists>f' evs. gxfp_fdt_flow_feed_record env (Some f) (Some d) (Some hdr) (Some (body_bytes c (fdt_report s touch rb)))
      (length rb + 8) h = ((0, Some f', evs), h) \<and>
    evs AND GXFP_FDT_EVENT_UP \<noteq> 0 \<and> gxfp_fdt_flow_get_state (Some f') = GXFP_FDT_STATE_UP \<and>
    rearm_table f' = ff_armed_up_table f \<and>
    (\<forall>i < 12. entry_of (fs_down_table_5130 (ff_cmd f')) i =
       (if i < min (length rb div 2) 10 then down_base rb i else entry_of (fs_down_table_5130 (ff_cmd f)) i))"
proof -
  obtain t evs where "gxfp_fdt_flow_feed_record env (Some f) (Some d) (Some hdr) (Some (body_bytes c (fdt_report s touch rb)))
      (length rb + 8) h =
      ((0, Some (f\<lparr>ff_cmd := (ff_cmd f)\<lparr>fs_down_table_5130 := t\<rparr>, ff_last_status := s, ff_state := GXFP_FDT_STATE_UP,
          ff_last_good_up_table := ff_armed_up_table f, ff_last_good_up_valid := True\<rparr>), evs), h)"
    "evs AND GXFP_FDT_EVENT_UP \<noteq> 0"
    "\<And>i. i < 12 \<Longrightarrow> entry_of t i =
       (if i < min (length rb div 2) 10 then down_base rb i else entry_of (fs_down_table_5130 (ff_cmd f)) i)"
    using feed_up_report [OF assms] by blast
  then show ?thesis by (simp add: gxfp_fdt_flow_get_state_def rearm_table_def)
qed

definition demo_hdr :: gxfp_tap_hdr where
  "demo_hdr = rec_hdr \<lparr>tr_type = 0x0A, tr_ts = 0, tr_payload = []\<rparr>"

theorem finger_up_completes_witness:
  "\<exists>f' evs. gxfp_fdt_flow_feed_record sim_uenv (Some (demo_flow\<lparr>ff_mode := GXFP_FDT_MODE_WAIT_UP\<rparr>)) (Some \<lparr>ud_fd = 3\<rparr>) (Some demo_hdr)
      (Some (body_bytes GXFP_CMD_FDT_UP (fdt_report 0x0082 0 [0x10, 0x02]))) (length [0x10, 0x02 :: u8] + 8) [] = ((0, Some f', evs), []) \<and>
    evs AND GXFP_FDT_EVENT_UP \<noteq> 0 \<and> gxfp_fdt_flow_get_state (Some f') = GXFP_FDT_STATE_UP \<and>
    rearm_table f' = ff_armed_up_table (demo_flow\<lparr>ff_mode := GXFP_FDT_MODE_WAIT_UP\<rparr>) \<and>
    (\<forall>i < 12. entry_of (fs_down_table_5130 (ff_cmd f')) i =
       (if i < min (length [0x10, 0x02 :: u8] div 2) 10 then down_base [0x10, 0x02] i
        else entry_of (fs_down_table_5130 (ff_cmd (demo_flow\<lparr>ff_mode := GXFP_FDT_MODE_WAIT_UP\<rparr>))) i))"
proof (rule finger_up_completes)
  show "fdt_inv (demo_flow\<lparr>ff_mode := GXFP_FDT_MODE_WAIT_UP\<rparr>)" using demo_flow_inv by (simp add: fdt_inv_def)
qed (simp_all add: demo_hdr_def rec_hdr_def fdt_report_cmd_def up_status_def)

text \<open>The state of an earlier report is kept when a wait is armed: a flow that is already in the state UP
  is neither re-armed nor timed out, however long the wait lasts.\<close>

lemma stale_up_never_rearms:
  assumes "ff_mode f \<noteq> GXFP_FDT_MODE_WAIT_UP" and "ff_state f = GXFP_FDT_STATE_UP" and "fdt_inv f"
    and "gxfp_fdt_flow_set_mode env (Some f) (Some d) GXFP_FDT_MODE_WAIT_UP h = ((0, Some f'), UClock # h')"
  shows "gxfp_fdt_flow_poll env (Some f') (Some d) now h2 = ((0, Some f'), h2)"
  using arm_up_result [OF assms(3,1,4)] assms(2) by (simp add: gxfp_fdt_flow_poll_def gxfp_fdt_flow_wait_up_retry_due_def)

end
