(* ===== verification/Tls_Engine.thy ===== *)
theory Tls_Engine
  imports User_Dev
begin

unbundle bit_operations_syntax

text \<open>
  The TLS engine (\<open>userspace/src/tls/tls_engine_mbedtls.c\<close>): a queue of received ciphertext between the
  device and the TLS library, the two callbacks through which the library reads it and sends its
  records, and the two calls that drive a handshake and take out plaintext.

  The TLS library is not part of the sources: it is a parameter. It keeps its own state, of which nothing is
  assumed, so a library call is a function of everything the library has seen so far (\<open>ssl_event\<close>).
  A call that uses the callbacks is a tree of callback invocations (\<open>ssl_run\<close>) that ends in a result;
  running it calls \<open>bio_send\<close> and \<open>bio_recv\<close> of the engine.
\<close>

section \<open>Definitions\<close>

definition TLS_REC_HDR_LEN :: nat where "TLS_REC_HDR_LEN = 5"
definition TLS_REC_MAX_PLAIN :: nat where "TLS_REC_MAX_PLAIN = 16 * 1024"
definition GXFP5130_PSK_LEN :: nat where "GXFP5130_PSK_LEN = 32"
definition GXFP5130_PSK_IDENTITY :: string where "GXFP5130_PSK_IDENTITY = ''Client_identity''"

subsection \<open>The TLS library\<close>

datatype ssl_event =
    SslSetup bytes string uhist
  | SslSent bytes int
  | SslReceived int bytes
  | SslHandshake int
  | SslRead nat int

datatype 'r ssl_run =
    SslReturn 'r
  | SslSend bytes "int \<Rightarrow> 'r ssl_run"
  | SslRecv bytes "int \<Rightarrow> bytes \<Rightarrow> 'r ssl_run"

record tlslib =
  mbedtls_ctr_drbg_seed :: "uhist \<Rightarrow> string \<Rightarrow> int"
  mbedtls_ssl_config_defaults :: "uhist \<Rightarrow> int"
  mbedtls_ssl_conf_psk :: "uhist \<Rightarrow> bytes \<Rightarrow> string \<Rightarrow> int"
  mbedtls_ssl_setup :: "uhist \<Rightarrow> int"
  mbedtls_ssl_handshake :: "ssl_event list \<Rightarrow> int ssl_run"
  mbedtls_ssl_read :: "ssl_event list \<Rightarrow> nat \<Rightarrow> (int \<times> bytes) ssl_run"
  MBEDTLS_ERR_SSL_WANT_READ :: int
  MBEDTLS_ERR_SSL_WANT_WRITE :: int
  MBEDTLS_ERR_SSL_BAD_INPUT_DATA :: int
  MBEDTLS_ERR_SSL_INTERNAL_ERROR :: int
  sizeof_tls_engine :: nat

subsection \<open>The engine\<close>

text \<open>The callback with its context.\<close>

type_synonym send_fn = "uenv \<Rightarrow> ptr \<Rightarrow> nat \<Rightarrow> uhist \<Rightarrow> int \<times> uhist"

record gxfp_tls_engine =
  te_send_fn :: "send_fn option"
  te_rxq :: bytes
  te_rxq_cap :: nat
  te_rxq_len :: nat
  te_hs_done :: bool
  te_ssl :: "ssl_event list"

definition rxq_push :: "gxfp_tls_engine option \<Rightarrow> ptr \<Rightarrow> nat \<Rightarrow> int \<times> gxfp_tls_engine option" where
  "rxq_push e data len =
    (case (e, data) of
       (Some en, Some d) \<Rightarrow>
         if te_rxq_len en + len > te_rxq_cap en then (- ENOSPC, e)
         else (0, Some (en\<lparr>te_rxq := memcpy_at (te_rxq en) (te_rxq_len en) (take len d),
                           te_rxq_len := te_rxq_len en + len\<rparr>))
     | _ \<Rightarrow> (- EINVAL, e))"

definition rxq_pop :: "gxfp_tls_engine option \<Rightarrow> ptr \<Rightarrow> nat \<Rightarrow> int \<times> gxfp_tls_engine option \<times> ptr" where
  "rxq_pop e out out_cap =
    (case (e, out) of
       (Some en, Some b) \<Rightarrow>
         if out_cap = 0 then (- EINVAL, e, out)
         else if te_rxq_len en = 0 then (0, e, out)
         else
           let n = (if out_cap < te_rxq_len en then out_cap else te_rxq_len en);
               out = Some (memcpy_at b 0 (take n (te_rxq en)));
               rxq = (if n < te_rxq_len en
                      then memcpy_at (te_rxq en) 0 (take (te_rxq_len en - n) (drop n (te_rxq en))) else te_rxq en)
           in (int n, Some (en\<lparr>te_rxq := rxq, te_rxq_len := te_rxq_len en - n\<rparr>), out)
     | _ \<Rightarrow> (- EINVAL, e, out))"

definition bio_recv :: "tlslib \<Rightarrow> gxfp_tls_engine option \<Rightarrow> ptr \<Rightarrow> nat \<Rightarrow> int \<times> gxfp_tls_engine option \<times> ptr" where
  "bio_recv lib ctx buf len =
    (if ctx = None \<or> buf = None \<or> len = 0 then (MBEDTLS_ERR_SSL_BAD_INPUT_DATA lib, ctx, buf)
     else
       (case rxq_pop ctx buf len of
          (n, ctx, buf) \<Rightarrow>
            if n > 0 then (n, ctx, buf)
            else if n < 0 then (MBEDTLS_ERR_SSL_INTERNAL_ERROR lib, ctx, buf)
            else (MBEDTLS_ERR_SSL_WANT_READ lib, ctx, buf)))"

text \<open>The loop of \<open>bio_send\<close>: \<open>Inl\<close> when it returns a code, \<open>Inr\<close> with the offset it stopped at.\<close>

function bio_send_loop :: "uenv \<Rightarrow> tlslib \<Rightarrow> send_fn \<Rightarrow> bytes \<Rightarrow> nat \<Rightarrow> nat \<Rightarrow> uhist \<Rightarrow> (int + nat) \<times> uhist" where
  "bio_send_loop env lib send buf len off h =
    (if off + TLS_REC_HDR_LEN \<le> len then
       let rec_len = push_bit 8 (ucast (buf ! (off + 3))) OR ucast (buf ! (off + 4)) :: u16;
           tot = TLS_REC_HDR_LEN + unat rec_len
       in if off + tot > len then (Inr off, h)
          else
            (case send env (Some (drop off buf)) tot h of
               (r, h) \<Rightarrow>
                 if r < 0 then
                   (Inl (if r = - EAGAIN \<or> r = - EINTR then MBEDTLS_ERR_SSL_WANT_WRITE lib
                         else MBEDTLS_ERR_SSL_INTERNAL_ERROR lib), h)
                 else bio_send_loop env lib send buf len (off + tot) h)
     else (Inr off, h))"
  by pat_completeness auto

termination
  by (relation "measure (\<lambda>(env, lib, send, buf, len, off, h). len - off)") (auto simp: TLS_REC_HDR_LEN_def)

declare bio_send_loop.simps [simp del]

definition bio_send :: "uenv \<Rightarrow> tlslib \<Rightarrow> gxfp_tls_engine option \<Rightarrow> ptr \<Rightarrow> nat \<Rightarrow> uhist \<Rightarrow> int \<times> uhist" where
  "bio_send env lib ctx buf len h =
    (case (ctx, buf) of
       (Some e, Some b) \<Rightarrow>
         (case te_send_fn e of
            None \<Rightarrow> (MBEDTLS_ERR_SSL_BAD_INPUT_DATA lib, h)
          | Some send \<Rightarrow>
              (case bio_send_loop env lib send b len 0 h of
                 (Inl r, h) \<Rightarrow> (r, h)
               | (Inr off, h) \<Rightarrow> (if off \<noteq> len then MBEDTLS_ERR_SSL_INTERNAL_ERROR lib else int len, h)))
     | _ \<Rightarrow> (MBEDTLS_ERR_SSL_BAD_INPUT_DATA lib, h))"

text \<open>Running a call of the library: its callbacks act on the engine and are remembered.\<close>

definition ssl_log :: "ssl_event \<Rightarrow> gxfp_tls_engine \<Rightarrow> gxfp_tls_engine" where
  "ssl_log x e = e\<lparr>te_ssl := x # te_ssl e\<rparr>"

primrec run_ssl :: "uenv \<Rightarrow> tlslib \<Rightarrow> 'r ssl_run \<Rightarrow> gxfp_tls_engine \<Rightarrow> uhist \<Rightarrow> 'r \<times> gxfp_tls_engine \<times> uhist" where
  "run_ssl env lib (SslReturn r) e h = (r, e, h)"
| "run_ssl env lib (SslSend b k) e h =
    (case bio_send env lib (Some e) (Some b) (length b) h of
       (r, h) \<Rightarrow> run_ssl env lib (k r) (ssl_log (SslSent b r) e) h)"
| "run_ssl env lib (SslRecv b k) e h =
    (case bio_recv lib (Some e) (Some b) (length b) of
       (r, e, b) \<Rightarrow> run_ssl env lib (k r (the b)) (ssl_log (SslReceived r (the b)) (the e)) h)"

definition setup_ssl :: "tlslib \<Rightarrow> gxfp_tls_engine \<Rightarrow> bytes \<Rightarrow> nat \<Rightarrow> uhist \<Rightarrow> int \<times> gxfp_tls_engine" where
  "setup_ssl lib e psk psk_len h =
    (if mbedtls_ctr_drbg_seed lib h ''gxfp_tls'' \<noteq> 0 then (- EIO, e)
     else if mbedtls_ssl_config_defaults lib h \<noteq> 0 then (- EIO, e)
     else if mbedtls_ssl_conf_psk lib h (take psk_len psk) GXFP5130_PSK_IDENTITY \<noteq> 0 then (- EIO, e)
     else if mbedtls_ssl_setup lib h \<noteq> 0 then (- EIO, e)
     else (0, ssl_log (SslSetup (take psk_len psk) GXFP5130_PSK_IDENTITY h) e))"

text \<open>Freeing releases the queue and the engine; what the library frees of its own is not counted.\<close>

definition gxfp_tls_engine_free :: "gxfp_tls_engine option \<Rightarrow> uhist \<Rightarrow> uhist" where
  "gxfp_tls_engine_free e h = (case e of None \<Rightarrow> h | Some _ \<Rightarrow> ufree (ufree h))"

text \<open>\<open>out\<close> tells whether the output pointer is there.\<close>

definition gxfp_tls_engine_create ::
  "uenv \<Rightarrow> tlslib \<Rightarrow> bool \<Rightarrow> ptr \<Rightarrow> nat \<Rightarrow> send_fn option \<Rightarrow> uhist \<Rightarrow> (int \<times> gxfp_tls_engine option) \<times> uhist" where
  "gxfp_tls_engine_create env lib out psk psk_len send h =
    (case psk of
       None \<Rightarrow> ((- EINVAL, None), h)
     | Some key \<Rightarrow>
         if \<not> out \<or> psk_len \<noteq> GXFP5130_PSK_LEN \<or> send = None then ((- EINVAL, None), h)
         else
           (case malloc env (sizeof_tls_engine lib) h of
              (None, h) \<Rightarrow> ((- ENOMEM, None), h)
            | (Some _, h) \<Rightarrow>
                (case malloc env (256 * 1024) h of
                   (None, h) \<Rightarrow> ((- ENOMEM, None), ufree h)
                 | (Some rxq, h) \<Rightarrow>
                     let e = \<lparr>te_send_fn = send, te_rxq = rxq, te_rxq_cap = 256 * 1024, te_rxq_len = 0, te_hs_done = False,
                              te_ssl = []\<rparr>
                     in (case setup_ssl lib e key psk_len h of
                           (r, e) \<Rightarrow>
                             if r < 0 then ((r, None), gxfp_tls_engine_free (Some e) h)
                             else ((0, Some e), h)))))"

definition gxfp_tls_engine_feed_cipher_record ::
  "gxfp_tls_engine option \<Rightarrow> ptr \<Rightarrow> nat \<Rightarrow> int \<times> gxfp_tls_engine option" where
  "gxfp_tls_engine_feed_cipher_record e rec rec_len =
    (if e = None \<or> rec = None \<or> rec_len = 0 then (- EINVAL, e) else rxq_push e rec rec_len)"

definition gxfp_tls_engine_handshake_step ::
  "uenv \<Rightarrow> tlslib \<Rightarrow> gxfp_tls_engine option \<Rightarrow> uhist \<Rightarrow> (int \<times> gxfp_tls_engine option) \<times> uhist" where
  "gxfp_tls_engine_handshake_step env lib e h =
    (case e of
       None \<Rightarrow> ((- EINVAL, e), h)
     | Some en \<Rightarrow>
         if te_hs_done en then ((1, e), h)
         else
           (case run_ssl env lib (mbedtls_ssl_handshake lib (te_ssl en)) en h of
              (r, en, h) \<Rightarrow>
                let en = ssl_log (SslHandshake r) en
                in if r = 0 then ((1, Some (en\<lparr>te_hs_done := True\<rparr>)), h)
                   else if r = MBEDTLS_ERR_SSL_WANT_READ lib \<or> r = MBEDTLS_ERR_SSL_WANT_WRITE lib
                     then ((- EAGAIN, Some en), h)
                   else ((r, Some en), h)))"

text \<open>The result is the code, the engine, the output buffer and the length.\<close>

definition gxfp_tls_engine_pull_plain ::
  "uenv \<Rightarrow> tlslib \<Rightarrow> gxfp_tls_engine option \<Rightarrow> ptr \<Rightarrow> nat \<Rightarrow> uhist \<Rightarrow> (int \<times> gxfp_tls_engine option \<times> ptr \<times> nat) \<times> uhist" where
  "gxfp_tls_engine_pull_plain env lib e out out_cap h =
    (case (e, out) of
       (Some en, Some b) \<Rightarrow>
         if out_cap = 0 then ((- EINVAL, e, out, 0), h)
         else
           (case run_ssl env lib (mbedtls_ssl_read lib (te_ssl en) out_cap) en h of
              ((r, data), en, h) \<Rightarrow>
                let en = ssl_log (SslRead out_cap r) en; out = Some (memcpy_at b 0 (take out_cap data))
                in if r > 0 then ((1, Some en, out, nat r), h)
                   else if r = MBEDTLS_ERR_SSL_WANT_READ lib \<or> r = MBEDTLS_ERR_SSL_WANT_WRITE lib
                     then ((- EAGAIN, Some en, out, 0), h)
                   else if r = 0 then ((- EPIPE, Some en, out, 0), h)
                   else ((r, Some en, out, 0), h))
     | _ \<Rightarrow> ((- EINVAL, e, out, 0), h))"

section \<open>The queue of ciphertext\<close>

definition engine_inv :: "gxfp_tls_engine \<Rightarrow> bool" where
  "engine_inv e \<longleftrightarrow> length (te_rxq e) = te_rxq_cap e \<and> te_rxq_len e \<le> te_rxq_cap e \<and> te_send_fn e \<noteq> None"

definition rxq_view :: "gxfp_tls_engine \<Rightarrow> bytes" where
  "rxq_view e = take (te_rxq_len e) (te_rxq e)"

text \<open>What the library has received, in order.\<close>

fun received :: "ssl_event list \<Rightarrow> bytes" where
  "received [] = []"
| "received (SslReceived r b # l) = received l @ (if r > 0 then take (nat r) b else [])"
| "received (_ # l) = received l"

text \<open>The ciphertext fed so far is what the library has received followed by what is queued.\<close>

definition stream_inv :: "bytes \<Rightarrow> gxfp_tls_engine \<Rightarrow> bool" where
  "stream_inv fed e \<longleftrightarrow> engine_inv e \<and> received (te_ssl e) @ rxq_view e = fed"

lemma length_rxq_view: "engine_inv e \<Longrightarrow> length (rxq_view e) = te_rxq_len e"
  by (simp add: rxq_view_def engine_inv_def)

lemma push_view:
  assumes "engine_inv e" "n \<le> length d"
  shows "rxq_push (Some e) (Some d) n =
    (if te_rxq_len e + n > te_rxq_cap e then (- ENOSPC, Some e)
     else (0, Some (e\<lparr>te_rxq := memcpy_at (te_rxq e) (te_rxq_len e) (take n d), te_rxq_len := te_rxq_len e + n\<rparr>)))"
    and "te_rxq_len e + n \<le> te_rxq_cap e \<Longrightarrow>
      engine_inv (e\<lparr>te_rxq := memcpy_at (te_rxq e) (te_rxq_len e) (take n d), te_rxq_len := te_rxq_len e + n\<rparr>) \<and>
      rxq_view (e\<lparr>te_rxq := memcpy_at (te_rxq e) (te_rxq_len e) (take n d), te_rxq_len := te_rxq_len e + n\<rparr>) =
        rxq_view e @ take n d"
  using assms by (simp_all add: rxq_push_def engine_inv_def rxq_view_def memcpy_at_def)

lemma pop_view:
  assumes "engine_inv e" "0 < length b"
  obtains e' b' where "rxq_pop (Some e) (Some b) (length b) = (int (min (length b) (te_rxq_len e)), Some e', Some b')"
    "engine_inv e'" "length b' = length b" "te_ssl e' = te_ssl e" "te_send_fn e' = te_send_fn e" "te_hs_done e' = te_hs_done e"
    "te_rxq_cap e' = te_rxq_cap e" "rxq_view e = take (min (length b) (te_rxq_len e)) b' @ rxq_view e'"
proof (cases "te_rxq_len e = 0")
  case True
  then show thesis using that [of e b] assms by (simp add: rxq_pop_def rxq_view_def)
next
  case False
  define n where "n = min (length b) (te_rxq_len e)"
  define e' where "e' = e\<lparr>te_rxq := if n < te_rxq_len e then memcpy_at (te_rxq e) 0 (take (te_rxq_len e - n) (drop n (te_rxq e)))
      else te_rxq e, te_rxq_len := te_rxq_len e - n\<rparr>"
  have l: "n \<le> te_rxq_len e" "te_rxq_len e \<le> length (te_rxq e)" "n \<le> length b" using assms(1) by (auto simp: n_def engine_inv_def)
  have v: "rxq_view e' = drop n (rxq_view e)"
    using l by (auto simp: e'_def rxq_view_def memcpy_at_def drop_take)
  have i: "engine_inv e'" using assms(1) l by (auto simp: e'_def engine_inv_def memcpy_at_def)
  define b' where "b' = memcpy_at b 0 (take n (te_rxq e))"
  have b': "length b' = length b" "take n b' = take n (rxq_view e)"
    using l by (simp_all add: b'_def memcpy_at_def rxq_view_def)
  have m: "(if length b < te_rxq_len e then length b else te_rxq_len e) = n" by (simp add: n_def min_def)
  have p: "rxq_pop (Some e) (Some b) (length b) = (int n, Some e', Some b')"
    using assms(2) False unfolding rxq_pop_def prod.case option.case m Let_def e'_def b'_def by simp
  have f: "te_ssl e' = te_ssl e" "te_send_fn e' = te_send_fn e" "te_hs_done e' = te_hs_done e" "te_rxq_cap e' = te_rxq_cap e"
    by (simp_all add: e'_def)
  show thesis by (rule that [of e' b', folded n_def]) (use p i v b' f in simp_all)
qed

lemma ssl_log_sel [simp]:
  "te_ssl (ssl_log x e) = x # te_ssl e" "te_send_fn (ssl_log x e) = te_send_fn e" "te_hs_done (ssl_log x e) = te_hs_done e"
  "te_rxq_cap (ssl_log x e) = te_rxq_cap e" "rxq_view (ssl_log x e) = rxq_view e" "engine_inv (ssl_log x e) = engine_inv e"
  by (simp_all add: ssl_log_def rxq_view_def engine_inv_def)

lemma stream_hs_done [simp]: "stream_inv fed (e\<lparr>te_hs_done := b\<rparr>) = stream_inv fed e"
  by (simp add: stream_inv_def engine_inv_def rxq_view_def)

lemma stream_log [simp]: "received [x] = [] \<Longrightarrow> stream_inv fed (ssl_log x e) = stream_inv fed e"
  by (cases x) (auto simp: stream_inv_def split: if_splits)

lemma bio_recv_stream:
  assumes "stream_inv fed e" "bio_recv lib (Some e) (Some b) (length b) = (r, e', b')"
    and "MBEDTLS_ERR_SSL_WANT_READ lib \<le> 0" "MBEDTLS_ERR_SSL_BAD_INPUT_DATA lib \<le> 0"
  shows "\<exists>e2. e' = Some e2 \<and> stream_inv fed (ssl_log (SslReceived r (the b')) e2) \<and> te_send_fn e2 = te_send_fn e \<and>
    te_hs_done e2 = te_hs_done e \<and> te_rxq_cap e2 = te_rxq_cap e"
proof (cases "b = []")
  case True
  then show ?thesis using assms by (auto simp: bio_recv_def stream_inv_def)
next
  case False
  have i: "engine_inv e" using assms(1) by (simp add: stream_inv_def)
  from False obtain e2 b2 where p: "rxq_pop (Some e) (Some b) (length b) = (int (min (length b) (te_rxq_len e)), Some e2, Some b2)"
    "engine_inv e2" "length b2 = length b" "te_ssl e2 = te_ssl e" "te_send_fn e2 = te_send_fn e" "te_hs_done e2 = te_hs_done e"
    "te_rxq_cap e2 = te_rxq_cap e" "rxq_view e = take (min (length b) (te_rxq_len e)) b2 @ rxq_view e2"
    using pop_view [OF i, of b] by blast
  then show ?thesis
    using assms False by (auto simp: bio_recv_def stream_inv_def split: if_splits)
qed

text \<open>A call of the library only takes from the front of the queue.\<close>

lemma run_ssl_stream:
  assumes "MBEDTLS_ERR_SSL_WANT_READ lib \<le> 0" "MBEDTLS_ERR_SSL_BAD_INPUT_DATA lib \<le> 0"
  shows "run_ssl env lib t e h = (r, e', h') \<Longrightarrow> stream_inv fed e \<Longrightarrow>
    stream_inv fed e' \<and> te_send_fn e' = te_send_fn e \<and> te_hs_done e' = te_hs_done e \<and> te_rxq_cap e' = te_rxq_cap e"
proof (induction t arbitrary: e h)
  case (SslReturn x)
  then show ?case by simp
next
  case (SslSend b k)
  obtain rr h1 where b: "bio_send env lib (Some e) (Some b) (length b) h = (rr, h1)" by fastforce
  then show ?case using SslSend.IH [OF rangeI, of rr "ssl_log (SslSent b rr) e" h1] SslSend.prems by simp
next
  case (SslRecv b k)
  obtain rr e1 b1 where b: "bio_recv lib (Some e) (Some b) (length b) = (rr, e1, b1)" using prod_cases3 by blast
  obtain e2 where e2: "e1 = Some e2" "stream_inv fed (ssl_log (SslReceived rr (the b1)) e2)" "te_send_fn e2 = te_send_fn e"
    "te_hs_done e2 = te_hs_done e" "te_rxq_cap e2 = te_rxq_cap e"
    using bio_recv_stream [OF SslRecv.prems(2) b assms] by blast
  then show ?case
    using SslRecv.IH [OF rangeI rangeI, of rr "the b1" "ssl_log (SslReceived rr (the b1)) e2" h] SslRecv.prems(1) b by simp
qed

section \<open>Sending records\<close>

text \<open>A TLS record: the header ends with the length of what follows, most significant byte first.\<close>

definition tls_record :: "bytes \<Rightarrow> bool" where
  "tls_record r \<longleftrightarrow> 5 \<le> length r \<and> length r = 5 + unat (push_bit 8 (ucast (r ! 3)) OR ucast (r ! 4) :: u16)"

text \<open>Bytes that do not begin with a whole record. Every buffer is a sequence of records followed by such a rest.\<close>

definition loose :: "bytes \<Rightarrow> bool" where
  "loose x \<longleftrightarrow> 5 \<le> length x \<longrightarrow> length x < 5 + unat (push_bit 8 (ucast (x ! 3)) OR ucast (x ! 4) :: u16)"

lemma loose_Nil [simp]: "loose []"
  by (simp add: loose_def)

lemma records_of:
  obtains rs rest where "buf = concat rs @ rest" "list_all tls_record rs" "loose rest"
proof -
  have "\<exists>rs rest. buf = concat rs @ rest \<and> list_all tls_record rs \<and> loose rest"
  proof (induction buf rule: length_induct)
    case (1 b)
    show ?case
    proof (cases "loose b")
      case True
      then show ?thesis by (intro exI [of _ "[]"] exI [of _ b]) simp
    next
      case False
      let ?n = "5 + unat (push_bit 8 (ucast (b ! 3)) OR ucast (b ! 4) :: u16)"
      have n: "?n \<le> length b" "5 \<le> length b" using False by (simp_all add: loose_def)
      then have "length (drop ?n b) < length b" by simp
      then obtain rs rest where r: "drop ?n b = concat rs @ rest" "list_all tls_record rs" "loose rest" using 1 by blast
      have "tls_record (take ?n b)" using n(1) by (simp add: tls_record_def)
      moreover have "b = concat (take ?n b # rs) @ rest" using r(1) by (metis append.assoc append_take_drop_id concat.simps(2))
      ultimately show ?thesis using r(2,3) by (intro exI [of _ "take ?n b # rs"] exI [of _ rest]) simp
    qed
  qed
  then show thesis using that by blast
qed

text \<open>Sending records one by one, up to the first that fails.\<close>

fun send_each :: "uenv \<Rightarrow> send_fn \<Rightarrow> bytes list \<Rightarrow> uhist \<Rightarrow> int option \<times> uhist" where
  "send_each env send [] h = (None, h)"
| "send_each env send (r # rs) h =
    (case send env (Some r) (length r) h of (rc, h) \<Rightarrow> if rc < 0 then (Some rc, h) else send_each env send rs h)"

definition send_verdict :: "tlslib \<Rightarrow> nat \<Rightarrow> int option \<Rightarrow> int" where
  "send_verdict lib len res =
    (case res of
       None \<Rightarrow> int len
     | Some rc \<Rightarrow> if rc = - EAGAIN \<or> rc = - EINTR then MBEDTLS_ERR_SSL_WANT_WRITE lib else MBEDTLS_ERR_SSL_INTERNAL_ERROR lib)"

text \<open>What the engine relies on of its callback: it looks at the bytes of the record only, and leaves no
  memory behind.\<close>

locale record_sender =
  fixes send :: send_fn
  assumes send_prefix: "send env (Some (r @ y)) (length r) h = send env (Some r) (length r) h"
    and send_keeps: "send env p n h = (rc, h') \<Longrightarrow> ulive h' = ulive h"
begin

lemma send_each_keeps: "send_each env send rs h = (res, h') \<Longrightarrow> ulive h' = ulive h"
  by (induction rs arbitrary: h) (auto split: prod.splits if_splits dest: send_keeps)

lemma send_loop_records:
  "list_all tls_record rs \<Longrightarrow> loose rest \<Longrightarrow>
    bio_send_loop env lib send (pre @ concat rs @ rest) (length (pre @ concat rs @ rest)) (length pre) h =
      (case send_each env send rs h of
         (None, h) \<Rightarrow> (Inr (length (pre @ concat rs)), h)
       | (Some rc, h) \<Rightarrow> (Inl (send_verdict lib 0 (Some rc)), h))"
proof (induction rs arbitrary: pre h)
  case Nil
  have "(pre @ rest) ! (length pre + 3) = rest ! 3 \<and> (pre @ rest) ! (length pre + 4) = rest ! 4" by (simp add: nth_append)
  then show ?case using Nil.prems(2) by (simp add: bio_send_loop.simps TLS_REC_HDR_LEN_def loose_def Let_def)
next
  case (Cons r rs)
  let ?buf = "pre @ concat (r # rs) @ rest"
  have r: "5 \<le> length r" "length r = 5 + unat (push_bit 8 (ucast (r ! 3)) OR ucast (r ! 4) :: u16)"
    using Cons.prems by (simp_all add: tls_record_def)
  have n: "?buf ! (length pre + 3) = r ! 3" "?buf ! (length pre + 4) = r ! 4" "drop (length pre) ?buf = r @ concat rs @ rest"
    using r(1) by (simp_all add: nth_append)
  have t: "TLS_REC_HDR_LEN + unat (push_bit 8 (ucast (r ! 3)) OR ucast (r ! 4) :: u16) = length r"
    using r(2) by (simp add: TLS_REC_HDR_LEN_def)
  have c: "(length pre + TLS_REC_HDR_LEN \<le> length ?buf) = True" "(length pre + length r > length ?buf) = False"
    using r(1) by (simp_all add: TLS_REC_HDR_LEN_def)
  have b: "?buf = (pre @ r) @ concat rs @ rest" "length pre + length r = length (pre @ r)" by simp_all
  obtain rc h1 where s: "send env (Some r) (length r) h = (rc, h1)" by fastforce
  have "bio_send_loop env lib send ?buf (length ?buf) (length pre) h =
      (if rc < 0 then (Inl (send_verdict lib 0 (Some rc)), h1)
       else bio_send_loop env lib send ?buf (length ?buf) (length (pre @ r)) h1)"
    unfolding bio_send_loop.simps [of _ _ _ _ _ "length pre"] n t Let_def c if_True if_False send_prefix s prod.case
    by (simp add: send_verdict_def)
  also have "\<dots> = (case send_each env send (r # rs) h of
         (None, h) \<Rightarrow> (Inr (length (pre @ concat (r # rs))), h) | (Some rc, h) \<Rightarrow> (Inl (send_verdict lib 0 (Some rc)), h))"
    using Cons.IH [of "pre @ r" h1] Cons.prems s unfolding b(1) by (simp add: ac_simps cong: option.case_cong)
  finally show ?case .
qed

lemma bio_send_records:
  assumes "list_all tls_record rs" "loose rest" "te_send_fn e = Some send"
  shows "bio_send env lib (Some e) (Some (concat rs @ rest)) (length (concat rs @ rest)) h =
    (case send_each env send rs h of
       (res, h) \<Rightarrow> (if res = None \<and> rest \<noteq> [] then MBEDTLS_ERR_SSL_INTERNAL_ERROR lib else send_verdict lib (length (concat rs)) res, h))"
  using send_loop_records [OF assms(1,2), of env lib "[]" h] assms(3)
  by (auto simp: bio_send_def send_verdict_def split: prod.split option.split)

lemma bio_send_loop_keeps: "bio_send_loop env lib send b n off h = (r, h') \<Longrightarrow> ulive h' = ulive h"
proof (induction "n - off" arbitrary: off h rule: less_induct)
  case less
  define tot where "tot = TLS_REC_HDR_LEN + unat (push_bit 8 (ucast (b ! (off + 3))) OR ucast (b ! (off + 4)) :: u16)"
  obtain rc h1 where s: "send env (Some (drop off b)) tot h = (rc, h1)" by fastforce
  have t: "0 < tot" by (simp add: tot_def TLS_REC_HDR_LEN_def)
  show ?case
    using less.prems less.hyps [of "off + tot" h1] send_keeps [OF s] t s
    by (subst (asm) bio_send_loop.simps) (auto simp: Let_def tot_def [symmetric] split: if_splits)
qed

lemma bio_send_keeps: "te_send_fn e = Some send \<Longrightarrow> bio_send env lib (Some e) b n h = (r, h') \<Longrightarrow> ulive h' = ulive h"
  by (auto simp: bio_send_def split: option.splits prod.splits sum.splits dest: bio_send_loop_keeps)

lemma run_ssl_keeps: "run_ssl env lib t e h = (r, e', h') \<Longrightarrow> te_send_fn e = Some send \<Longrightarrow>
  ulive h' = ulive h \<and> te_send_fn e' = Some send"
proof (induction t arbitrary: e h)
  case (SslSend b k)
  obtain rr h1 where b: "bio_send env lib (Some e) (Some b) (length b) h = (rr, h1)" by fastforce
  then show ?case
    using SslSend.IH [OF rangeI, of rr "ssl_log (SslSent b rr) e" h1] SslSend.prems bio_send_keeps [OF _ b] by simp
next
  case (SslRecv b k)
  obtain rr e1 b1 where b: "bio_recv lib (Some e) (Some b) (length b) = (rr, e1, b1)" using prod_cases3 by blast
  then have "e1 \<noteq> None \<and> te_send_fn (the e1) = te_send_fn e"
    by (auto simp: bio_recv_def rxq_pop_def Let_def split: if_splits)
  then show ?case
    using SslRecv.IH [OF rangeI rangeI, of rr "the b1" "ssl_log (SslReceived rr (the b1)) (the e1)" h] SslRecv.prems b by simp
qed simp

end

section \<open>Properties\<close>

text \<open>The life of an engine, with the ciphertext that was accepted for it.\<close>

inductive engine_run :: "uenv \<Rightarrow> tlslib \<Rightarrow> bytes \<Rightarrow> gxfp_tls_engine \<Rightarrow> bool" for env :: uenv and lib :: tlslib where
  Create: "gxfp_tls_engine_create env lib True psk n send h = ((0, Some e), h') \<Longrightarrow> engine_run env lib [] e"
| Feed: "engine_run env lib fed e \<Longrightarrow> n \<le> length rec \<Longrightarrow>
    gxfp_tls_engine_feed_cipher_record (Some e) (Some rec) n = (r, Some e') \<Longrightarrow>
    engine_run env lib (if r = 0 then fed @ take n rec else fed) e'"
| Handshake: "engine_run env lib fed e \<Longrightarrow>
    gxfp_tls_engine_handshake_step env lib (Some e) h = ((r, Some e'), h') \<Longrightarrow> engine_run env lib fed e'"
| Pull: "engine_run env lib fed e \<Longrightarrow>
    gxfp_tls_engine_pull_plain env lib (Some e) out cap h = ((r, Some e', out', n), h') \<Longrightarrow> engine_run env lib fed e'"

text \<open>The error codes of the library are negative.\<close>

definition lib_codes :: "tlslib \<Rightarrow> bool" where
  "lib_codes lib \<longleftrightarrow> MBEDTLS_ERR_SSL_WANT_READ lib < 0 \<and> MBEDTLS_ERR_SSL_WANT_WRITE lib < 0 \<and>
     MBEDTLS_ERR_SSL_BAD_INPUT_DATA lib < 0 \<and> MBEDTLS_ERR_SSL_INTERNAL_ERROR lib < 0"

lemma setup_ssl_cases:
  obtains (fail) "setup_ssl lib e k n h = (- EIO, e)" | (ready) x where "setup_ssl lib e k n h = (0, ssl_log x e)" "received [x] = []"
  by (cases "setup_ssl lib e k n h") (auto simp: setup_ssl_def split: if_splits)

lemma create_cases:
  obtains (fail) r h' where "gxfp_tls_engine_create env lib out psk n send h = ((r, None), h')" "r < 0" "ulive h' = ulive h"
  | (created) e h' where "gxfp_tls_engine_create env lib out psk n send h = ((0, Some e), h')" "stream_inv [] e"
      "te_rxq_cap e = 256 * 1024" "te_send_fn e = send" "ulive h' = ulive h + 2" "n = 32" "psk \<noteq> None"
proof (cases "psk = None \<or> \<not> out \<or> n \<noteq> GXFP5130_PSK_LEN \<or> send = None")
  case True
  then have "gxfp_tls_engine_create env lib out psk n send h = ((- EINVAL, None), h)"
    by (cases psk) (simp_all add: gxfp_tls_engine_create_def)
  then show thesis using fail [of "- EINVAL" h] by simp
next
  case F: False
  then obtain key where key: "psk = Some key" by auto
  show thesis
  proof (cases rule: malloc_cases [of env "sizeof_tls_engine lib" h])
    case null
    then show thesis using F key fail [of "- ENOMEM" h] by (simp add: gxfp_tls_engine_create_def)
  next
    case (block b)
    let ?h1 = "UMalloc (sizeof_tls_engine lib) # h"
    show thesis
    proof (cases rule: malloc_cases [of env "256 * 1024" ?h1])
      case null
      then show thesis using F key block fail [of "- ENOMEM" "ufree ?h1"] by (simp add: gxfp_tls_engine_create_def)
    next
      case b2: (block q)
      define e where "e = \<lparr>te_send_fn = send, te_rxq = q, te_rxq_cap = 256 * 1024, te_rxq_len = 0, te_hs_done = False, te_ssl = []\<rparr>"
      let ?h2 = "UMalloc (256 * 1024) # ?h1"
      have eq: "gxfp_tls_engine_create env lib out psk n send h =
          (case setup_ssl lib e key n ?h2 of
             (r, e) \<Rightarrow> if r < 0 then ((r, None), gxfp_tls_engine_free (Some e) ?h2) else ((0, Some e), ?h2))"
        using F key unfolding gxfp_tls_engine_create_def option.case prod.case block(1) b2(1) Let_def e_def [symmetric] by auto
      have i: "stream_inv [] e" using b2(2) F by (simp add: e_def stream_inv_def engine_inv_def rxq_view_def)
      show thesis
      proof (cases rule: setup_ssl_cases [of lib e key n ?h2])
        case s: fail
        then show thesis using fail [of "- EIO" "gxfp_tls_engine_free (Some e) ?h2"] eq by (simp add: gxfp_tls_engine_free_def)
      next
        case (ready x)
        then show thesis using created [of "ssl_log x e" ?h2] eq i F by (simp add: GXFP5130_PSK_LEN_def e_def)
      qed
    qed
  qed
qed

lemma create_stream:
  assumes "gxfp_tls_engine_create env lib out psk n send h = ((0, Some e), h')"
  shows "stream_inv [] e \<and> te_rxq_cap e = 256 * 1024 \<and> te_send_fn e = send \<and> ulive h' = ulive h + 2"
  by (cases rule: create_cases [of env lib out psk n send h]) (use assms in auto)

lemma feed_stream:
  assumes "stream_inv fed e" "n \<le> length rec" "gxfp_tls_engine_feed_cipher_record (Some e) (Some rec) n = (r, Some e')"
  shows "stream_inv (if r = 0 then fed @ take n rec else fed) e' \<and> te_rxq_cap e' = te_rxq_cap e \<and> te_send_fn e' = te_send_fn e \<and>
    te_ssl e' = te_ssl e \<and> te_hs_done e' = te_hs_done e"
proof -
  have i: "engine_inv e" using assms(1) by (simp add: stream_inv_def)
  show ?thesis
    using assms(3) push_view [OF i assms(2)] assms(1)
    by (auto simp: gxfp_tls_engine_feed_cipher_record_def stream_inv_def split: if_splits)
qed

lemma handshake_stream:
  assumes "lib_codes lib" "stream_inv fed e" "gxfp_tls_engine_handshake_step env lib (Some e) h = ((r, Some e'), h')"
  shows "stream_inv fed e' \<and> te_rxq_cap e' = te_rxq_cap e \<and> te_send_fn e' = te_send_fn e"
proof (cases "te_hs_done e")
  case True
  then show ?thesis using assms(2,3) by (simp add: gxfp_tls_engine_handshake_step_def)
next
  case False
  obtain rr e1 h1 where s: "run_ssl env lib (mbedtls_ssl_handshake lib (te_ssl e)) e h = (rr, e1, h1)" using prod_cases3 by blast
  have "stream_inv fed e1 \<and> te_send_fn e1 = te_send_fn e \<and> te_rxq_cap e1 = te_rxq_cap e"
    using run_ssl_stream [OF _ _ s assms(2)] assms(1) by (simp add: lib_codes_def)
  moreover have "e' = ssl_log (SslHandshake rr) e1 \<or> e' = (ssl_log (SslHandshake rr) e1)\<lparr>te_hs_done := True\<rparr>"
    using assms(3) False unfolding gxfp_tls_engine_handshake_step_def option.case s prod.case Let_def by (auto split: if_splits)
  ultimately show ?thesis by (elim disjE) simp_all
qed

lemma pull_stream:
  assumes "lib_codes lib" "stream_inv fed e" "gxfp_tls_engine_pull_plain env lib (Some e) out cap h = ((r, Some e', out', n), h')"
  shows "stream_inv fed e' \<and> te_rxq_cap e' = te_rxq_cap e \<and> te_send_fn e' = te_send_fn e"
proof -
  obtain rr d e1 h1 where s: "run_ssl env lib (mbedtls_ssl_read lib (te_ssl e) cap) e h = ((rr, d), e1, h1)"
    by (metis prod.exhaust)
  have "stream_inv fed e1 \<and> te_send_fn e1 = te_send_fn e \<and> te_rxq_cap e1 = te_rxq_cap e"
    using run_ssl_stream [OF _ _ s assms(2)] assms(1) by (simp add: lib_codes_def)
  moreover have "e' = e \<or> e' = ssl_log (SslRead cap rr) e1"
    using assms(3) unfolding gxfp_tls_engine_pull_plain_def prod.case option.case s Let_def by (auto split: if_splits option.splits)
  ultimately show ?thesis using assms(2) by auto
qed

text \<open>C19: The TLS library reads the accepted ciphertext in order. Through every sequence of records,
  handshake steps and reads, whatever the library does with its callbacks, the bytes it has received
  followed by the bytes still queued are exactly the accepted records in their order of arrival. In every state so reached a
  record that fits the 256 KiB of the queue with what is waiting there is accepted and appended whole, and one that does not is refused
  whole with \<open>ENOSPC\<close>: nothing is lost without a report.\<close>

theorem ciphertext_in_order:
  assumes "lib_codes lib" and "engine_run env lib fed e"
  shows "received (te_ssl e) @ rxq_view e = fed \<and> length (rxq_view e) \<le> 256 * 1024 \<and>
    (\<forall>rec n. 0 < n \<and> n \<le> length rec \<longrightarrow>
       (if length (rxq_view e) + n \<le> 256 * 1024
        then \<exists>e'. gxfp_tls_engine_feed_cipher_record (Some e) (Some rec) n = (0, Some e') \<and>
          rxq_view e' = rxq_view e @ take n rec \<and> received (te_ssl e') = received (te_ssl e)
        else gxfp_tls_engine_feed_cipher_record (Some e) (Some rec) n = (- ENOSPC, Some e)))"
proof -
  have inv: "stream_inv fed e \<and> te_rxq_cap e = 256 * 1024"
    using assms(2)
  proof induction
    case (Create psk n send h e h')
    then show ?case using create_stream by blast
  next
    case (Feed fed e n rec r e')
    then show ?case using feed_stream by metis
  next
    case (Handshake fed e h r e' h')
    then show ?case using handshake_stream [OF assms(1)] by metis
  next
    case (Pull fed e out cap h r e' out' n h')
    then show ?case using pull_stream [OF assms(1)] by metis
  qed
  then have i: "engine_inv e" "te_rxq_cap e = 256 * 1024" "length (rxq_view e) = te_rxq_len e" by (auto simp: stream_inv_def length_rxq_view)
  show ?thesis
  proof (intro conjI allI impI)
    fix rec :: bytes and n :: nat
    assume n: "0 < n \<and> n \<le> length rec"
    then show "if length (rxq_view e) + n \<le> 256 * 1024
        then \<exists>e'. gxfp_tls_engine_feed_cipher_record (Some e) (Some rec) n = (0, Some e') \<and>
          rxq_view e' = rxq_view e @ take n rec \<and> received (te_ssl e') = received (te_ssl e)
        else gxfp_tls_engine_feed_cipher_record (Some e) (Some rec) n = (- ENOSPC, Some e)"
      using push_view [OF i(1), of n rec] i(2,3) by (simp add: gxfp_tls_engine_feed_cipher_record_def)
  qed (use inv in \<open>auto simp: stream_inv_def engine_inv_def rxq_view_def\<close>)
qed

text \<open>A library that takes five bytes and is then connected.\<close>

definition sim_lib :: tlslib where
  "sim_lib = \<lparr>mbedtls_ctr_drbg_seed = \<lambda>h p. 0, mbedtls_ssl_config_defaults = \<lambda>h. 0, mbedtls_ssl_conf_psk = \<lambda>h k i. 0,
     mbedtls_ssl_setup = \<lambda>h. 0,
     mbedtls_ssl_handshake = \<lambda>l. SslRecv (zeros 5) (\<lambda>r b. SslReturn (if r = 5 then 0 else - 26880)),
     mbedtls_ssl_read = \<lambda>l n. SslReturn (- 26880, []),
     MBEDTLS_ERR_SSL_WANT_READ = - 26880, MBEDTLS_ERR_SSL_WANT_WRITE = - 26752, MBEDTLS_ERR_SSL_BAD_INPUT_DATA = - 28928,
     MBEDTLS_ERR_SSL_INTERNAL_ERROR = - 27648, sizeof_tls_engine = 4096\<rparr>"

theorem ciphertext_in_order_witness:
  "\<exists>e. engine_run sim_uenv sim_lib [1, 2, 3, 4, 5, 6, 7] e \<and>
    received (te_ssl e) @ rxq_view e = [1, 2, 3, 4, 5, 6, 7] \<and> length (rxq_view e) \<le> 256 * 1024 \<and>
    gxfp_tls_engine_feed_cipher_record (Some e) (Some (zeros 300000)) 300000 = (- ENOSPC, Some e)"
proof -
  define rec :: bytes where "rec = [1, 2, 3, 4, 5, 6, 7]"
  obtain e h where c: "gxfp_tls_engine_create sim_uenv sim_lib True (Some (zeros 32)) 32 (Some (\<lambda>_ _ _ h. (0, h))) [] = ((0, Some e), h)"
    by (simp add: gxfp_tls_engine_create_def malloc_def sim_uenv_def sim_lib_def setup_ssl_def GXFP5130_PSK_LEN_def Let_def)
  have r: "engine_run sim_uenv sim_lib [] e" by (rule engine_run.Create [OF c])
  have i: "engine_inv e" "te_rxq_cap e = 256 * 1024" "te_rxq_len e = 0"
    using create_stream [OF c] length_rxq_view [of e] by (auto simp: stream_inv_def)
  obtain e2 where "gxfp_tls_engine_feed_cipher_record (Some e) (Some rec) (length rec) = (0, Some e2)"
    using push_view(1) [OF i(1), of "length rec" rec] i(2,3)
    by (simp add: gxfp_tls_engine_feed_cipher_record_def rec_def)
  then have r2: "engine_run sim_uenv sim_lib rec e2" using engine_run.Feed [OF r, of "length rec" rec 0 e2] by simp
  have lc: "lib_codes sim_lib" by (simp add: lib_codes_def sim_lib_def)
  obtain x e3 h3 where "gxfp_tls_engine_handshake_step sim_uenv sim_lib (Some e2) [] = ((x, Some e3), h3)"
    by (cases "gxfp_tls_engine_handshake_step sim_uenv sim_lib (Some e2) []")
      (auto simp: gxfp_tls_engine_handshake_step_def Let_def split: if_splits prod.splits)
  then have "engine_run sim_uenv sim_lib rec e3" by (rule engine_run.Handshake [OF r2])
  then have r3: "engine_run sim_uenv sim_lib [1, 2, 3, 4, 5, 6, 7] e3" unfolding rec_def .
  have "\<not> length (rxq_view e3) + 300000 \<le> 256 * 1024" by simp
  moreover have "0 < (300000 :: nat) \<and> 300000 \<le> length (zeros 300000)" by simp
  ultimately show ?thesis using ciphertext_in_order [OF lc r3] r3 by metis
qed

end
