(* ===== verification/Tls_Service.thy ===== *)
theory Tls_Service
  imports Tls_Engine User_Cmd Image_Plain
begin

unbundle bit_operations_syntax

text \<open>
  The TLS service (\<open>userspace/src/tls/tls_service.c\<close>): the state machine that connects to the sensor,
  asks for an image and collects it out of the decrypted stream.

  The service holds a pointer to the device of its owner; the device does not change while the service
  lives, so its contents are kept. A step may pull plaintext as long as the library gives some: the
  loop is a partial function in the option type and is proved to return.
\<close>

section \<open>Definitions\<close>

datatype gxfp_tls_hs_state =
    GXFP_TLS_HS_INIT | GXFP_TLS_HS_CONNECTING | GXFP_TLS_HS_CONNECTED | GXFP_TLS_HS_CAPTURING | GXFP_TLS_HS_DONE | GXFP_TLS_HS_ERROR

record gxfp_tls_hs_cfg =
  hc_timeout_ms :: u32
  hc_manual_pending_request :: bool

record gxfp_tls_service_impl =
  si_dev :: "udev option"
  si_cfg :: gxfp_tls_hs_cfg
  si_state :: gxfp_tls_hs_state
  si_err :: int
  si_pending_capture :: bool
  si_capture_sent :: bool
  si_handshake_start_ms :: int
  si_last_plain_ms :: int
  si_last_tls_rx_ms :: int
  si_engine :: "gxfp_tls_engine option"
  si_img :: gxfp_plain_image_sink

record gxfp_tls_service =
  sv_impl :: "gxfp_tls_service_impl option"

definition sink_zero :: gxfp_plain_image_sink where
  "sink_zero = \<lparr>sk_hdr = zeros 5, sk_body = None, sk_body_len = 0, sk_have_oneframe = False\<rparr>"

definition svc_mark_capture_started :: "uenv \<Rightarrow> gxfp_tls_service_impl \<Rightarrow> uhist \<Rightarrow> gxfp_tls_service_impl \<times> uhist" where
  "svc_mark_capture_started env s h =
    (case gxfp_monotonic_ms env h of
       (now, h) \<Rightarrow>
         (s\<lparr>si_capture_sent := True, si_pending_capture := False, si_state := GXFP_TLS_HS_CAPTURING, si_last_plain_ms := now,
            si_last_tls_rx_ms := now\<rparr>, h))"

definition svc_capture_timed_out :: "uenv \<Rightarrow> gxfp_tls_service_impl \<Rightarrow> uhist \<Rightarrow> bool \<times> uhist" where
  "svc_capture_timed_out env s h =
    (case gxfp_monotonic_ms env h of
       (now, h) \<Rightarrow>
         ((word_of_int (now - si_last_plain_ms s) :: u32) > hc_timeout_ms (si_cfg s) \<and>
          (word_of_int (now - si_last_tls_rx_ms s) :: u32) > hc_timeout_ms (si_cfg s), h))"

definition svc_impl_free :: "gxfp_tls_service_impl option \<Rightarrow> uhist \<Rightarrow> uhist" where
  "svc_impl_free s h =
    (case s of
       None \<Rightarrow> h
     | Some si \<Rightarrow> ufree (snd (gxfp_plain_image_sink_reset (Some (si_img si)) (gxfp_tls_engine_free (si_engine si) h))))"

text \<open>The context is the service; only its device is used.\<close>

definition send_tls_record_cb :: "udev option \<Rightarrow> send_fn" where
  "send_tls_record_cb dev env rec rec_len h =
    (if dev = None \<or> rec = None \<or> rec_len = 0 \<or> rec_len > 0xFFFF then (- EINVAL, h)
     else gxfp_dev_send_packet env dev GOODIX_MP_TYPE_TLS rec (of_nat rec_len) h)"

text \<open>\<open>sizeof (struct gxfp_tls_service_impl)\<close> on a 64-bit machine.\<close>

definition SERVICE_IMPL_SIZE :: nat where "SERVICE_IMPL_SIZE = 104"

definition gxfp_tls_service_init ::
  "uenv \<Rightarrow> tlslib \<Rightarrow> gxfp_tls_service option \<Rightarrow> udev option \<Rightarrow> gxfp_tls_hs_cfg option \<Rightarrow> ptr \<Rightarrow> nat \<Rightarrow> uhist \<Rightarrow>
     (int \<times> gxfp_tls_service option) \<times> uhist" where
  "gxfp_tls_service_init env lib svc dev cfg psk psk_len h =
    (case svc of
       None \<Rightarrow> ((- EINVAL, svc), h)
     | Some sv \<Rightarrow>
         if dev = None \<or> psk = None \<or> psk_len \<noteq> GXFP5130_PSK_LEN then ((- EINVAL, svc), h)
         else if sv_impl sv \<noteq> None then ((- EALREADY, svc), h)
         else
           (case malloc env SERVICE_IMPL_SIZE h of
              (None, h) \<Rightarrow> ((- ENOMEM, svc), h)
            | (Some _, h) \<Rightarrow>
                (case gxfp_monotonic_ms env h of
                   (now, h) \<Rightarrow>
                     let s = \<lparr>si_dev = dev,
                              si_cfg = (case cfg of Some c \<Rightarrow> c | None \<Rightarrow> \<lparr>hc_timeout_ms = 0, hc_manual_pending_request = False\<rparr>),
                              si_state = GXFP_TLS_HS_INIT, si_err = 0, si_pending_capture = False, si_capture_sent = False,
                              si_handshake_start_ms = now, si_last_plain_ms = now, si_last_tls_rx_ms = now, si_engine = None,
                              si_img = sink_zero\<rparr>
                     in (case gxfp_plain_image_sink_reset (Some (si_img s)) h of
                           (img, h) \<Rightarrow>
                             let s = s\<lparr>si_img := the img\<rparr>
                             in (case gxfp_tls_engine_create env lib True psk psk_len (Some (send_tls_record_cb (si_dev s))) h of
                                   ((r, engine), h) \<Rightarrow>
                                     let s = s\<lparr>si_engine := engine\<rparr>
                                     in if r < 0 then ((r, svc), svc_impl_free (Some s) h)
                                        else
                                          (case gxfp_dev_set_nonblock env dev True h of
                                             (_, h) \<Rightarrow>
                                          (case gxfp_dev_flush_rxq env dev h of
                                             (_, h) \<Rightarrow>
                                          (case gxfp_cmd_tls_server_init env (si_dev s) h of
                                             (r, h) \<Rightarrow>
                                               if r < 0 then ((r, svc), svc_impl_free (Some s) h)
                                               else
                                                 (case gxfp_monotonic_ms env h of
                                                    (now, h) \<Rightarrow>
                                                      ((0, Some (sv\<lparr>sv_impl := Some (s\<lparr>si_state := GXFP_TLS_HS_CONNECTING,
                                                           si_handshake_start_ms := now\<rparr>)\<rparr>)), h))))))))))"

definition gxfp_tls_service_free :: "gxfp_tls_service option \<Rightarrow> uhist \<Rightarrow> gxfp_tls_service option \<times> uhist" where
  "gxfp_tls_service_free svc h =
    (case svc of
       None \<Rightarrow> (svc, h)
     | Some sv \<Rightarrow>
         (case sv_impl sv of
            None \<Rightarrow> (svc, h)
          | Some s \<Rightarrow> (Some (sv\<lparr>sv_impl := None\<rparr>), svc_impl_free (Some s) h)))"

definition gxfp_tls_service_feed_tap_record ::
  "uenv \<Rightarrow> gxfp_tls_service option \<Rightarrow> gxfp_tap_hdr \<Rightarrow> ptr \<Rightarrow> nat \<Rightarrow> uhist \<Rightarrow> (int \<times> gxfp_tls_service option) \<times> uhist" where
  "gxfp_tls_service_feed_tap_record env svc hdr payload payload_len h =
    (case svc of
       None \<Rightarrow> ((- EINVAL, svc), h)
     | Some sv \<Rightarrow>
         (case sv_impl sv of
            None \<Rightarrow> ((- EINVAL, svc), h)
          | Some s \<Rightarrow>
              if th_type hdr = ucast GOODIX_MP_TYPE_TLS then
                (case gxfp_monotonic_ms env h of
                   (now, h) \<Rightarrow>
                     (case gxfp_tls_engine_feed_cipher_record (si_engine s) payload payload_len of
                        (r, engine) \<Rightarrow>
                          let s = s\<lparr>si_last_tls_rx_ms := now, si_engine := engine\<rparr>
                          in if r < 0 then
                               ((r, Some (sv\<lparr>sv_impl := Some (s\<lparr>si_err := r, si_state := GXFP_TLS_HS_ERROR\<rparr>)\<rparr>)), h)
                             else ((0, Some (sv\<lparr>sv_impl := Some s\<rparr>)), h)))
              else ((0, svc), h)))"

definition gxfp_tls_service_request_capture ::
  "gxfp_tls_service option \<Rightarrow> uhist \<Rightarrow> (int \<times> gxfp_tls_service option) \<times> uhist" where
  "gxfp_tls_service_request_capture svc h =
    (case svc of
       None \<Rightarrow> ((- EINVAL, svc), h)
     | Some sv \<Rightarrow>
         (case sv_impl sv of
            None \<Rightarrow> ((- EINVAL, svc), h)
          | Some s \<Rightarrow>
              if si_state s \<noteq> GXFP_TLS_HS_CONNECTED \<and> si_state s \<noteq> GXFP_TLS_HS_DONE then ((- EBUSY, svc), h)
              else
                (case gxfp_plain_image_sink_reset (Some (si_img s)) h of
                   (img, h) \<Rightarrow>
                     ((0, Some (sv\<lparr>sv_impl := Some (s\<lparr>si_pending_capture := True, si_capture_sent := False, si_img := the img,
                           si_state := GXFP_TLS_HS_CONNECTED\<rparr>)\<rparr>)), h))))"

subsection \<open>One step\<close>

text \<open>The handshake part.\<close>

definition svc_handshake :: "uenv \<Rightarrow> tlslib \<Rightarrow> gxfp_tls_service_impl \<Rightarrow> uhist \<Rightarrow> (int \<times> gxfp_tls_service_impl) \<times> uhist" where
  "svc_handshake env lib s h =
    (case gxfp_tls_engine_handshake_step env lib (si_engine s) h of
       ((r, engine), h) \<Rightarrow>
         let s = s\<lparr>si_engine := engine\<rparr>
         in if r = 1 then
              ((0, s\<lparr>si_state := GXFP_TLS_HS_CONNECTED,
                    si_pending_capture := (if \<not> hc_manual_pending_request (si_cfg s) then True else si_pending_capture s)\<rparr>), h)
            else if r = - EAGAIN then
              (case gxfp_monotonic_ms env h of
                 (now, h) \<Rightarrow>
                   if (word_of_int (now - si_handshake_start_ms s) :: u32) > hc_timeout_ms (si_cfg s)
                   then ((- ETIMEDOUT, s\<lparr>si_err := - ETIMEDOUT, si_state := GXFP_TLS_HS_ERROR\<rparr>), h)
                   else ((- EAGAIN, s), h))
            else ((r, s\<lparr>si_err := r, si_state := GXFP_TLS_HS_ERROR\<rparr>), h))"

text \<open>One round of the pull loop: \<open>Inl\<close> when the step returns, \<open>Inr True\<close> to go on, \<open>Inr False\<close> to leave the loop.\<close>

definition svc_pull_round ::
  "uenv \<Rightarrow> tlslib \<Rightarrow> gxfp_tls_service_impl \<Rightarrow> uhist \<Rightarrow> (int + bool) \<times> gxfp_tls_service_impl \<times> uhist" where
  "svc_pull_round env lib s h =
    (case gxfp_tls_engine_pull_plain env lib (si_engine s) (Some (ufresh env h TLS_REC_MAX_PLAIN)) TLS_REC_MAX_PLAIN h of
       ((r, engine, plain, plain_len), h) \<Rightarrow>
         let s = s\<lparr>si_engine := engine\<rparr>
         in if r = 1 then
              (case gxfp_plain_scan_for_nonpov_image_chunks env plain plain_len (Some (si_img s)) h of
                 (img, h) \<Rightarrow>
                   (case gxfp_monotonic_ms env h of
                      (now, h) \<Rightarrow>
                        let s = s\<lparr>si_img := the img, si_last_plain_ms := now\<rparr>
                        in if sk_have_oneframe (si_img s) then (Inl 1, s\<lparr>si_state := GXFP_TLS_HS_DONE\<rparr>, h)
                           else (Inr True, s, h)))
            else if r = - EAGAIN then (Inr False, s, h)
            else (Inl r, s\<lparr>si_err := r, si_state := GXFP_TLS_HS_ERROR\<rparr>, h))"

partial_function (option) svc_pull_loop ::
  "uenv \<Rightarrow> tlslib \<Rightarrow> gxfp_tls_service_impl \<Rightarrow> bool \<Rightarrow> uhist \<Rightarrow> ((int + bool) \<times> gxfp_tls_service_impl \<times> uhist) option" where
  "svc_pull_loop env lib s progressed h =
    (case svc_pull_round env lib s h of
       (Inl r, s, h) \<Rightarrow> Some (Inl r, s, h)
     | (Inr go, s, h) \<Rightarrow>
         if go then svc_pull_loop env lib s True h else Some (Inr progressed, s, h))"

definition svc_capture :: "uenv \<Rightarrow> tlslib \<Rightarrow> gxfp_tls_service_impl \<Rightarrow> uhist \<Rightarrow> ((int \<times> gxfp_tls_service_impl) \<times> uhist) option" where
  "svc_capture env lib s h =
    (case svc_pull_loop env lib s False h of
       None \<Rightarrow> None
     | Some (Inl r, s, h) \<Rightarrow> Some ((r, s), h)
     | Some (Inr progressed, s, h) \<Rightarrow>
         if \<not> progressed then
           (case svc_capture_timed_out env s h of
              (late, h) \<Rightarrow>
                if late then Some ((- ETIMEDOUT, s\<lparr>si_err := - ETIMEDOUT, si_state := GXFP_TLS_HS_ERROR\<rparr>), h)
                else Some ((- EAGAIN, s), h))
         else Some ((0, s), h))"

definition svc_step :: "uenv \<Rightarrow> tlslib \<Rightarrow> gxfp_tls_service_impl \<Rightarrow> uhist \<Rightarrow> ((int \<times> gxfp_tls_service_impl) \<times> uhist) option" where
  "svc_step env lib s h =
    (if si_state s = GXFP_TLS_HS_ERROR then Some ((if si_err s \<noteq> 0 then si_err s else - EIO, s), h)
     else if si_state s = GXFP_TLS_HS_CONNECTING then Some (svc_handshake env lib s h)
     else if si_state s = GXFP_TLS_HS_CONNECTED \<and> si_pending_capture s \<and> \<not> si_capture_sent s then
       (case gxfp_cmd_get_image env (si_dev s) h of
          (r, h) \<Rightarrow>
            if r < 0 then Some ((r, s\<lparr>si_err := r, si_state := GXFP_TLS_HS_ERROR\<rparr>), h)
            else (case svc_mark_capture_started env s h of (s, h) \<Rightarrow> svc_capture env lib s h))
     else if si_state s = GXFP_TLS_HS_CAPTURING then svc_capture env lib s h
     else if si_state s = GXFP_TLS_HS_DONE then Some ((1, s), h)
     else Some ((- EAGAIN, s), h))"

definition gxfp_tls_service_step ::
  "uenv \<Rightarrow> tlslib \<Rightarrow> gxfp_tls_service option \<Rightarrow> uhist \<Rightarrow> ((int \<times> gxfp_tls_service option) \<times> uhist) option" where
  "gxfp_tls_service_step env lib svc h =
    (case svc of
       None \<Rightarrow> Some ((- EINVAL, svc), h)
     | Some sv \<Rightarrow>
         (case sv_impl sv of
            None \<Rightarrow> Some ((- EINVAL, svc), h)
          | Some s \<Rightarrow> map_option (\<lambda>((r, s), h). ((r, Some (sv\<lparr>sv_impl := Some s\<rparr>)), h)) (svc_step env lib s h)))"

text \<open>The result is the code, the service, the header and the body with its length.\<close>

definition gxfp_tls_service_get_raw_image ::
  "uenv \<Rightarrow> gxfp_tls_service option \<Rightarrow> ptr \<Rightarrow> bool \<Rightarrow> uhist \<Rightarrow>
     (int \<times> gxfp_tls_service option \<times> ptr \<times> (ptr \<times> nat) option) \<times> uhist" where
  "gxfp_tls_service_get_raw_image env svc out_hdr out h =
    (case svc of
       None \<Rightarrow> ((- EINVAL, svc, out_hdr, None), h)
     | Some sv \<Rightarrow>
         (case sv_impl sv of
            None \<Rightarrow> ((- EINVAL, svc, out_hdr, None), h)
          | Some s \<Rightarrow>
              if out_hdr = None \<or> \<not> out then ((- EINVAL, svc, out_hdr, None), h)
              else if \<not> sk_have_oneframe (si_img s) then ((0, svc, out_hdr, None), h)
              else
                (case gxfp_plain_image_sink_extract env (Some (si_img s)) out_hdr out h of
                   ((r, img, out_hdr, body), h) \<Rightarrow>
                     ((r, Some (sv\<lparr>sv_impl := Some (s\<lparr>si_img := the img\<rparr>)\<rparr>), out_hdr, body), h))))"

definition gxfp_tls_service_state :: "gxfp_tls_service option \<Rightarrow> gxfp_tls_hs_state" where
  "gxfp_tls_service_state svc =
    (case svc of
       None \<Rightarrow> GXFP_TLS_HS_INIT
     | Some sv \<Rightarrow> (case sv_impl sv of None \<Rightarrow> GXFP_TLS_HS_INIT | Some s \<Rightarrow> si_state s))"

definition gxfp_tls_service_error :: "gxfp_tls_service option \<Rightarrow> int" where
  "gxfp_tls_service_error svc =
    (case svc of None \<Rightarrow> - EINVAL | Some sv \<Rightarrow> (case sv_impl sv of None \<Rightarrow> - EINVAL | Some s \<Rightarrow> si_err s))"

section \<open>The callback\<close>

lemma send_packet_keeps: "gxfp_dev_send_packet env dev ty p n h = (r, h') \<Longrightarrow> ulive h' = ulive h"
  by (auto simp: gxfp_dev_send_packet_def malloc_def Let_def split: option.splits if_splits sum.splits)

interpretation tls_cb: record_sender "send_tls_record_cb dev" for dev
proof
  fix env r y h
  show "send_tls_record_cb dev env (Some (r @ y)) (length r) h = send_tls_record_cb dev env (Some r) (length r) h"
  proof (cases "length r \<le> 0xFFFF")
    case True
    then have "unat (of_nat (length r) :: u16) = length r" by (intro unat_of_nat_u16) simp
    then have "ptr_bytes (Some (r @ y)) (unat (of_nat (length r) :: u16)) = ptr_bytes (Some r) (unat (of_nat (length r) :: u16))"
      by simp
    then show ?thesis by (simp only: send_tls_record_cb_def gxfp_dev_send_packet_def option.distinct simp_thms cong: if_cong)
  next
    case False
    then show ?thesis by (simp add: send_tls_record_cb_def)
  qed
next
  fix env p n h rc h'
  assume "send_tls_record_cb dev env p n h = (rc, h')"
  then show "ulive h' = ulive h" by (auto simp: send_tls_record_cb_def split: if_splits dest: send_packet_keeps)
qed

section \<open>The invariant\<close>

text \<open>The service of device \<open>d\<close>: a connected engine that sends through the callback, a well-formed sink,
  an error code exactly in the error state, a requested capture exactly while it runs or is over, an
  image only when it is over, and no capture before the handshake is.\<close>

definition svc_inv :: "udev \<Rightarrow> gxfp_tls_service_impl \<Rightarrow> bool" where
  "svc_inv d s \<longleftrightarrow> si_dev s = Some d \<and> sink_ok (si_img s) \<and>
     (\<exists>e. si_engine s = Some e \<and> engine_inv e \<and> te_send_fn e = Some (send_tls_record_cb (Some d)) \<and>
        (si_state s \<in> {GXFP_TLS_HS_CONNECTED, GXFP_TLS_HS_CAPTURING, GXFP_TLS_HS_DONE} \<longrightarrow> te_hs_done e)) \<and>
     si_state s \<noteq> GXFP_TLS_HS_INIT \<and> (if si_state s = GXFP_TLS_HS_ERROR then si_err s < 0 else si_err s = 0) \<and>
     (si_state s \<in> {GXFP_TLS_HS_CAPTURING, GXFP_TLS_HS_DONE} \<longrightarrow> si_capture_sent s \<and> \<not> si_pending_capture s) \<and>
     (sk_have_oneframe (si_img s) \<longrightarrow> si_state s \<in> {GXFP_TLS_HS_DONE, GXFP_TLS_HS_ERROR})"

definition svc_blocks :: "gxfp_tls_service_impl \<Rightarrow> int" where
  "svc_blocks s = 3 + sink_blocks (Some (si_img s))"

text \<open>What an operation owes: the invariant, and every block it took or released is one of the service.\<close>

definition svc_kept :: "udev \<Rightarrow> gxfp_tls_service_impl \<Rightarrow> uhist \<Rightarrow> gxfp_tls_service_impl \<Rightarrow> uhist \<Rightarrow> bool" where
  "svc_kept d s h s' h' \<longleftrightarrow> svc_inv d s' \<and> ulive h' - svc_blocks s' = ulive h - svc_blocks s"

lemma svc_kept_trans: "svc_kept d a h b h' \<Longrightarrow> svc_kept d b h' c h'' \<Longrightarrow> svc_kept d a h c h''"
  by (simp add: svc_kept_def)

lemma svc_kept_refl: "svc_inv d s \<Longrightarrow> svc_kept d s h s h"
  by (simp add: svc_kept_def)

lemma ulive_clock [simp]: "ulive (UClock # h) = ulive h"
  by simp

lemma lib_codes_le: "lib_codes lib \<Longrightarrow> MBEDTLS_ERR_SSL_WANT_READ lib \<le> 0 \<and> MBEDTLS_ERR_SSL_BAD_INPUT_DATA lib \<le> 0"
  by (simp add: lib_codes_def)

text \<open>The documented results of the library: a handshake returns zero or an error, a read returns an error or the
  number of bytes it stored, which fit the buffer.\<close>

definition lib_ok :: "tlslib \<Rightarrow> bool" where
  "lib_ok lib \<longleftrightarrow> lib_codes lib \<and> (\<forall>l. \<forall>r \<in> set_ssl_run (mbedtls_ssl_handshake lib l). r \<le> 0) \<and>
     (\<forall>l n. \<forall>(r, d) \<in> set_ssl_run (mbedtls_ssl_read lib l n). 0 < r \<longrightarrow> r = int (length d) \<and> length d \<le> n)"

lemma lib_okD:
  assumes "lib_ok lib"
  shows "lib_codes lib" "r \<in> set_ssl_run (mbedtls_ssl_handshake lib l) \<Longrightarrow> r \<le> 0"
    "(r, d) \<in> set_ssl_run (mbedtls_ssl_read lib l n) \<Longrightarrow> 0 < r \<Longrightarrow> r = int (length d) \<and> length d \<le> n"
  using assms unfolding lib_ok_def by (blast, blast, fastforce)

lemma run_ssl_result: "run_ssl env lib t e h = (r, e', h') \<Longrightarrow> r \<in> set_ssl_run t"
proof (induction t arbitrary: e h)
  case (SslSend b k)
  then show ?case by (fastforce split: prod.splits)
next
  case (SslRecv b k)
  then show ?case by (fastforce split: prod.splits)
qed simp

lemma run_engine:
  assumes "lib_codes lib" "engine_inv e" "te_send_fn e = Some (send_tls_record_cb dev)"
  obtains r e' h' where "run_ssl env lib t e h = (r, e', h')" "engine_inv e'" "te_send_fn e' = Some (send_tls_record_cb dev)"
    "te_hs_done e' = te_hs_done e" "ulive h' = ulive h"
proof -
  obtain r e' h' where s: "run_ssl env lib t e h = (r, e', h')" using prod_cases3 by blast
  have "stream_inv (received (te_ssl e) @ rxq_view e) e" using assms(2) by (simp add: stream_inv_def)
  from run_ssl_stream [OF _ _ s this] lib_codes_le [OF assms(1)]
  have "engine_inv e'" "te_hs_done e' = te_hs_done e" "te_send_fn e' = te_send_fn e" by (auto simp: stream_inv_def)
  then show thesis using that [OF s] tls_cb.run_ssl_keeps [OF s assms(3)] by simp
qed

lemma engine_inv_hs_done [simp]: "engine_inv (e\<lparr>te_hs_done := b\<rparr>) = engine_inv e"
  by (simp add: engine_inv_def)

lemma handshake_engine:
  assumes "lib_ok lib" "engine_inv e" "te_send_fn e = Some (send_tls_record_cb dev)"
  obtains r e' h' where "gxfp_tls_engine_handshake_step env lib (Some e) h = ((r, Some e'), h')" "engine_inv e'"
    "te_send_fn e' = Some (send_tls_record_cb dev)" "r = 1 \<and> te_hs_done e' \<or> r < 0" "ulive h' = ulive h"
    "te_hs_done e \<longrightarrow> te_hs_done e'"
proof (cases "te_hs_done e")
  case True
  then show thesis using that [of 1 e h] assms by (simp add: gxfp_tls_engine_handshake_step_def)
next
  case False
  obtain r e1 h1 where s: "run_ssl env lib (mbedtls_ssl_handshake lib (te_ssl e)) e h = (r, e1, h1)" "engine_inv e1"
    "te_send_fn e1 = Some (send_tls_record_cb dev)" "te_hs_done e1 = te_hs_done e" "ulive h1 = ulive h"
    by (rule run_engine [OF lib_okD(1) [OF assms(1)] assms(2,3)])
  have neg: "r \<le> 0" using lib_okD(2) [OF assms(1) run_ssl_result [OF s(1)]] .
  let ?e = "ssl_log (SslHandshake r) e1"
  have eq: "gxfp_tls_engine_handshake_step env lib (Some e) h =
    (if r = 0 then ((1, Some (?e\<lparr>te_hs_done := True\<rparr>)), h1)
     else if r = MBEDTLS_ERR_SSL_WANT_READ lib \<or> r = MBEDTLS_ERR_SSL_WANT_WRITE lib then ((- EAGAIN, Some ?e), h1)
     else ((r, Some ?e), h1))"
    using False s(1) by (simp add: gxfp_tls_engine_handshake_step_def Let_def)
  consider "r = 0" | "r \<noteq> 0" "r = MBEDTLS_ERR_SSL_WANT_READ lib \<or> r = MBEDTLS_ERR_SSL_WANT_WRITE lib"
    | "r \<noteq> 0" "\<not> (r = MBEDTLS_ERR_SSL_WANT_READ lib \<or> r = MBEDTLS_ERR_SSL_WANT_WRITE lib)" by blast
  then show thesis
  proof cases
    case 1
    then show thesis using that [of 1 "?e\<lparr>te_hs_done := True\<rparr>" h1] eq s by simp
  next
    case 2
    then show thesis using that [of "- EAGAIN" ?e h1] eq s by simp
  next
    case 3
    then show thesis using that [of r ?e h1] eq s neg by simp
  qed
qed

lemma pull_engine:
  assumes "lib_ok lib" "engine_inv e" "te_send_fn e = Some (send_tls_record_cb dev)" "length b = cap" "0 < cap"
  obtains r e' b' n h' where "gxfp_tls_engine_pull_plain env lib (Some e) (Some b) cap h = ((r, Some e', Some b', n), h')"
    "engine_inv e'" "te_send_fn e' = Some (send_tls_record_cb dev)" "te_hs_done e' = te_hs_done e" "ulive h' = ulive h"
    "r = 1 \<or> r < 0" "length b' = cap" "n \<le> cap"
    "r = 1 \<Longrightarrow> \<exists>d e1. run_ssl env lib (mbedtls_ssl_read lib (te_ssl e) cap) e h = ((int n, d), e1, h') \<and> 0 < n \<and>
       e' = ssl_log (SslRead cap (int n)) e1 \<and> n = length d \<and> b' = memcpy_at b 0 d"
proof -
  obtain rr e1 h1 where s0: "run_ssl env lib (mbedtls_ssl_read lib (te_ssl e) cap) e h = (rr, e1, h1)" "engine_inv e1"
    "te_send_fn e1 = Some (send_tls_record_cb dev)" "te_hs_done e1 = te_hs_done e" "ulive h1 = ulive h"
    by (rule run_engine [OF lib_okD(1) [OF assms(1)] assms(2,3)])
  obtain r d where rr: "rr = (r, d)" by fastforce
  note s = s0 [unfolded rr]
  let ?e = "ssl_log (SslRead cap r) e1" and ?b = "memcpy_at b 0 (take cap d)"
  have pos: "r = int (length d) \<and> length d \<le> cap" if "0 < r"
    using lib_okD(3) [OF assms(1) run_ssl_result [OF s(1)] that] .
  have l: "length ?b = cap" using assms(4) by (simp add: memcpy_at_def)
  have eq: "gxfp_tls_engine_pull_plain env lib (Some e) (Some b) cap h =
    (if r > 0 then ((1, Some ?e, Some ?b, nat r), h1)
     else if r = MBEDTLS_ERR_SSL_WANT_READ lib \<or> r = MBEDTLS_ERR_SSL_WANT_WRITE lib then ((- EAGAIN, Some ?e, Some ?b, 0), h1)
     else if r = 0 then ((- EPIPE, Some ?e, Some ?b, 0), h1)
     else ((r, Some ?e, Some ?b, 0), h1))"
    using assms(5) s(1) by (simp add: gxfp_tls_engine_pull_plain_def Let_def)
  show thesis
  proof (cases "r > 0")
    case True
    then show thesis
      using that [of 1 ?e ?b "nat r" h1] eq s l pos by auto
  next
    case False
    define c where "c = (if r = MBEDTLS_ERR_SSL_WANT_READ lib \<or> r = MBEDTLS_ERR_SSL_WANT_WRITE lib then - EAGAIN
        else if r = 0 then - EPIPE else r)"
    have "gxfp_tls_engine_pull_plain env lib (Some e) (Some b) cap h = ((c, Some ?e, Some ?b, 0), h1)" "c < 0"
      using False eq by (simp_all add: c_def)
    then show thesis using that [of c ?e ?b 0 h1] s l by simp
  qed
qed

section \<open>The operations keep the invariant\<close>

lemma svc_invD:
  assumes "svc_inv d s"
  obtains e where "si_engine s = Some e" "engine_inv e" "te_send_fn e = Some (send_tls_record_cb (Some d))" "si_dev s = Some d"
    "sink_ok (si_img s)" "si_state s \<in> {GXFP_TLS_HS_CONNECTED, GXFP_TLS_HS_CAPTURING, GXFP_TLS_HS_DONE} \<Longrightarrow> te_hs_done e"
  using assms by (auto simp: svc_inv_def)

lemma svc_handshake_kept:
  assumes "lib_ok lib" "svc_inv d s" "si_state s = GXFP_TLS_HS_CONNECTING"
  obtains r s' h' where "svc_handshake env lib s h = ((r, s'), h')" "svc_kept d s h s' h'"
    "r = 0 \<and> si_state s' = GXFP_TLS_HS_CONNECTED \<or> r = - EAGAIN \<and> si_state s' = GXFP_TLS_HS_CONNECTING \<or>
     r < 0 \<and> si_state s' = GXFP_TLS_HS_ERROR \<and> si_err s' = r"
proof -
  obtain e where e: "si_engine s = Some e" "engine_inv e" "te_send_fn e = Some (send_tls_record_cb (Some d))" "si_dev s = Some d"
    by (rule svc_invD [OF assms(2)])
  obtain r e' h1 where hs: "gxfp_tls_engine_handshake_step env lib (Some e) h = ((r, Some e'), h1)" "engine_inv e'"
    "te_send_fn e' = Some (send_tls_record_cb (Some d))" "r = 1 \<and> te_hs_done e' \<or> r < 0" "ulive h1 = ulive h"
    by (rule handshake_engine [OF assms(1) e(2,3)])
  have z: "si_err s = 0" using assms(2,3) by (auto simp: svc_inv_def)
  consider (one) "r = 1" "te_hs_done e'" | (again) "r = - EAGAIN" | (fail) "r < 0" "r \<noteq> - EAGAIN" using hs(4) by blast
  then show thesis
  proof cases
    case one
    show thesis
      by (rule that [of 0 "s\<lparr>si_engine := Some e', si_state := GXFP_TLS_HS_CONNECTED,
            si_pending_capture := (if \<not> hc_manual_pending_request (si_cfg s) then True else si_pending_capture s)\<rparr>" h1])
        (use one hs e assms(2,3) z in \<open>auto simp: svc_handshake_def Let_def svc_kept_def svc_inv_def svc_blocks_def\<close>)
  next
    case again
    show thesis
    proof (cases "(word_of_int (clock_ms env h1 - si_handshake_start_ms s) :: u32) > hc_timeout_ms (si_cfg s)")
      case True
      show thesis
        by (rule that [of "- ETIMEDOUT" "s\<lparr>si_engine := Some e', si_err := - ETIMEDOUT, si_state := GXFP_TLS_HS_ERROR\<rparr>" "UClock # h1"])
          (use True again hs e assms(2,3) in \<open>auto simp: svc_handshake_def Let_def svc_kept_def svc_inv_def svc_blocks_def monotonic_ms_eq\<close>)
    next
      case False
      show thesis
        by (rule that [of "- EAGAIN" "s\<lparr>si_engine := Some e'\<rparr>" "UClock # h1"])
          (use False again hs e assms(2,3) z in \<open>auto simp: svc_handshake_def Let_def svc_kept_def svc_inv_def svc_blocks_def monotonic_ms_eq\<close>)
    qed
  next
    case fail
    show thesis
      by (rule that [of r "s\<lparr>si_engine := Some e', si_err := r, si_state := GXFP_TLS_HS_ERROR\<rparr>" h1])
        (use fail hs e assms(2,3) in \<open>auto simp: svc_handshake_def Let_def svc_kept_def svc_inv_def svc_blocks_def\<close>)
  qed
qed

lemma pull_round_kept:
  assumes "lib_ok lib" "svc_inv d s" "si_state s = GXFP_TLS_HS_CAPTURING"
  obtains x s' h' where "svc_pull_round env lib s h = (x, s', h')" "svc_kept d s h s' h'"
    "x = Inl 1 \<and> si_state s' = GXFP_TLS_HS_DONE \<and> sk_have_oneframe (si_img s') \<or>
     (\<exists>r < 0. x = Inl r \<and> si_state s' = GXFP_TLS_HS_ERROR \<and> si_err s' = r) \<or>
     (\<exists>go. x = Inr go \<and> si_state s' = GXFP_TLS_HS_CAPTURING)"
    "x = Inr True \<Longrightarrow> \<exists>d e1 h1 n. run_ssl env lib (mbedtls_ssl_read lib (te_ssl (the (si_engine s))) TLS_REC_MAX_PLAIN)
        (the (si_engine s)) h = ((int n, d), e1, h1) \<and> 0 < n \<and> the (si_engine s') = ssl_log (SslRead TLS_REC_MAX_PLAIN (int n)) e1"
proof -
  obtain e where e: "si_engine s = Some e" "engine_inv e" "te_send_fn e = Some (send_tls_record_cb (Some d))" "si_dev s = Some d"
    "sink_ok (si_img s)" "te_hs_done e"
    using svc_invD [OF assms(2)] assms(3) by (metis insertI1 insertI2)
  let ?b = "ufresh env h TLS_REC_MAX_PLAIN"
  have tp: "0 < TLS_REC_MAX_PLAIN" by (simp add: TLS_REC_MAX_PLAIN_def)
  have z: "si_err s = 0" "si_capture_sent s" "\<not> si_pending_capture s" "\<not> sk_have_oneframe (si_img s)"
    using assms(2,3) by (auto simp: svc_inv_def)
  obtain r e' b n h1 where p: "gxfp_tls_engine_pull_plain env lib (Some e) (Some ?b) TLS_REC_MAX_PLAIN h = ((r, Some e', Some b, n), h1)"
    "engine_inv e'" "te_send_fn e' = Some (send_tls_record_cb (Some d))" "te_hs_done e' = te_hs_done e" "ulive h1 = ulive h"
    "r = 1 \<or> r < 0" "length b = TLS_REC_MAX_PLAIN" "n \<le> TLS_REC_MAX_PLAIN"
    "r = 1 \<Longrightarrow> \<exists>d e1. run_ssl env lib (mbedtls_ssl_read lib (te_ssl e) TLS_REC_MAX_PLAIN) e h = ((int n, d), e1, h1) \<and> 0 < n \<and>
       e' = ssl_log (SslRead TLS_REC_MAX_PLAIN (int n)) e1 \<and> n = length d \<and> b = memcpy_at ?b 0 d"
    using pull_engine [OF assms(1) e(2,3) length_ufresh [of env h] tp, where env = env and h = h] by blast
  consider (plain) "r = 1" | (again) "r = - EAGAIN" | (fail) "r < 0" "r \<noteq> - EAGAIN" using p(6) by blast
  then show thesis
  proof cases
    case plain
    obtain sk h2 where sc: "gxfp_plain_scan_for_nonpov_image_chunks env (Some b) n (Some (si_img s)) h1 = (Some sk, h2)"
      "sink_kept (si_img s) h1 sk h2"
      using scan_chunks_kept [OF e(5), of n b env h1] p(7,8) by auto
    let ?s = "s\<lparr>si_engine := Some e', si_img := sk, si_last_plain_ms := clock_ms env h2\<rparr>"
    have ev: "svc_pull_round env lib s h =
        (if sk_have_oneframe sk then (Inl 1, ?s\<lparr>si_state := GXFP_TLS_HS_DONE\<rparr>, UClock # h2) else (Inr True, ?s, UClock # h2))"
      unfolding svc_pull_round_def e(1) p(1) prod.case Let_def using plain sc(1) by (simp add: monotonic_ms_eq)
    show thesis
    proof (cases "sk_have_oneframe sk")
      case True
      show thesis
        by (rule that [of "Inl 1" "?s\<lparr>si_state := GXFP_TLS_HS_DONE\<rparr>" "UClock # h2"])
          (use True ev sc p e z assms(2) in \<open>auto simp: svc_kept_def svc_inv_def svc_blocks_def sink_kept_def\<close>)
    next
      case False
      show thesis
        by (rule that [of "Inr True" ?s "UClock # h2"])
          (use False ev sc p e z assms(2,3) plain in \<open>auto simp: svc_kept_def svc_inv_def svc_blocks_def sink_kept_def\<close>)
    qed
  next
    case again
    show thesis
      by (rule that [of "Inr False" "s\<lparr>si_engine := Some e'\<rparr>" h1])
        (use again p e z assms(2,3) in \<open>auto simp: svc_pull_round_def Let_def svc_kept_def svc_inv_def svc_blocks_def\<close>)
  next
    case fail
    show thesis
      by (rule that [of "Inl r" "s\<lparr>si_engine := Some e', si_err := r, si_state := GXFP_TLS_HS_ERROR\<rparr>" h1])
        (use fail p e z assms(2,3) in \<open>auto simp: svc_pull_round_def Let_def svc_kept_def svc_inv_def svc_blocks_def\<close>)
  qed
qed

text \<open>The library gives plaintext only for ciphertext it has got: some measure of what it still holds and what
  is queued gets smaller with every read that returns plaintext.\<close>

definition lib_drains :: "tlslib \<Rightarrow> bool" where
  "lib_drains lib \<longleftrightarrow>
    (\<exists>mu :: gxfp_tls_engine \<Rightarrow> nat. \<forall>env e h r p e' h'.
       run_ssl env lib (mbedtls_ssl_read lib (te_ssl e) TLS_REC_MAX_PLAIN) e h = ((r, p), e', h') \<and> 0 < r \<longrightarrow>
       mu (ssl_log (SslRead TLS_REC_MAX_PLAIN r) e') < mu e)"

lemma pull_loop_returns:
  assumes "lib_ok lib" "lib_drains lib" "svc_inv d s" "si_state s = GXFP_TLS_HS_CAPTURING"
  obtains x s' h' where "svc_pull_loop env lib s progressed h = Some (x, s', h')" "svc_kept d s h s' h'"
    "x = Inl 1 \<and> si_state s' = GXFP_TLS_HS_DONE \<and> sk_have_oneframe (si_img s') \<or>
     (\<exists>r < 0. x = Inl r \<and> si_state s' = GXFP_TLS_HS_ERROR \<and> si_err s' = r) \<or>
     (\<exists>p. x = Inr p \<and> si_state s' = GXFP_TLS_HS_CAPTURING)"
proof -
  obtain mu :: "gxfp_tls_engine \<Rightarrow> nat" where mu: "run_ssl env lib (mbedtls_ssl_read lib (te_ssl e) TLS_REC_MAX_PLAIN) e h = ((r, p), e', h') \<Longrightarrow>
      0 < r \<Longrightarrow> mu (ssl_log (SslRead TLS_REC_MAX_PLAIN r) e') < mu e" for env e h r p e' h'
    using assms(2) unfolding lib_drains_def by blast
  have "\<exists>x s' h'. svc_pull_loop env lib s progressed h = Some (x, s', h') \<and> svc_kept d s h s' h' \<and>
    (x = Inl 1 \<and> si_state s' = GXFP_TLS_HS_DONE \<and> sk_have_oneframe (si_img s') \<or>
     (\<exists>r < 0. x = Inl r \<and> si_state s' = GXFP_TLS_HS_ERROR \<and> si_err s' = r) \<or>
     (\<exists>p. x = Inr p \<and> si_state s' = GXFP_TLS_HS_CAPTURING))"
    using assms(3,4)
  proof (induction "mu (the (si_engine s))" arbitrary: s progressed h rule: less_induct)
    case less
    obtain x s1 h1 where r: "svc_pull_round env lib s h = (x, s1, h1)" "svc_kept d s h s1 h1"
      "x = Inl 1 \<and> si_state s1 = GXFP_TLS_HS_DONE \<and> sk_have_oneframe (si_img s1) \<or>
       (\<exists>r < 0. x = Inl r \<and> si_state s1 = GXFP_TLS_HS_ERROR \<and> si_err s1 = r) \<or>
       (\<exists>go. x = Inr go \<and> si_state s1 = GXFP_TLS_HS_CAPTURING)"
      "x = Inr True \<Longrightarrow> \<exists>d e1 h1 n. run_ssl env lib (mbedtls_ssl_read lib (te_ssl (the (si_engine s))) TLS_REC_MAX_PLAIN)
        (the (si_engine s)) h = ((int n, d), e1, h1) \<and> 0 < n \<and> the (si_engine s1) = ssl_log (SslRead TLS_REC_MAX_PLAIN (int n)) e1"
      using pull_round_kept [OF assms(1) less.prems, where env = env and h = h] by blast
    show ?case
    proof (cases "x = Inr True")
      case True
      then have "mu (the (si_engine s1)) < mu (the (si_engine s))" using r(4) mu by fastforce
      moreover have "svc_inv d s1" "si_state s1 = GXFP_TLS_HS_CAPTURING" using r(2,3) True by (auto simp: svc_kept_def)
      ultimately obtain x2 s2 h2 where q: "svc_pull_loop env lib s1 True h1 = Some (x2, s2, h2)" "svc_kept d s1 h1 s2 h2"
        "x2 = Inl 1 \<and> si_state s2 = GXFP_TLS_HS_DONE \<and> sk_have_oneframe (si_img s2) \<or>
         (\<exists>r < 0. x2 = Inl r \<and> si_state s2 = GXFP_TLS_HS_ERROR \<and> si_err s2 = r) \<or>
         (\<exists>p. x2 = Inr p \<and> si_state s2 = GXFP_TLS_HS_CAPTURING)"
        using less.hyps [of s1 True h1] by blast
      have "svc_pull_loop env lib s progressed h = Some (x2, s2, h2)"
        using q(1) r(1) True by (subst svc_pull_loop.simps) simp
      then show ?thesis using q svc_kept_trans [OF r(2) q(2)] by blast
    next
      case False
      have "svc_pull_loop env lib s progressed h = Some (case x of Inl r \<Rightarrow> Inl r | Inr _ \<Rightarrow> Inr progressed, s1, h1)"
        using r(1) False by (subst svc_pull_loop.simps) (auto split: sum.split)
      then show ?thesis using r(2,3) by (auto split: sum.splits)
    qed
  qed
  then show thesis using that by blast
qed

lemma svc_capture_returns:
  assumes "lib_ok lib" "lib_drains lib" "svc_inv d s" "si_state s = GXFP_TLS_HS_CAPTURING"
  obtains r s' h' where "svc_capture env lib s h = Some ((r, s'), h')" "svc_kept d s h s' h'"
    "r = 1 \<and> si_state s' = GXFP_TLS_HS_DONE \<and> sk_have_oneframe (si_img s') \<or>
     r < 0 \<and> si_state s' = GXFP_TLS_HS_ERROR \<and> si_err s' = r \<or>
     (r = 0 \<or> r = - EAGAIN) \<and> si_state s' = GXFP_TLS_HS_CAPTURING"
proof -
  obtain x s1 h1 where l: "svc_pull_loop env lib s False h = Some (x, s1, h1)" "svc_kept d s h s1 h1"
    "x = Inl 1 \<and> si_state s1 = GXFP_TLS_HS_DONE \<and> sk_have_oneframe (si_img s1) \<or>
     (\<exists>r < 0. x = Inl r \<and> si_state s1 = GXFP_TLS_HS_ERROR \<and> si_err s1 = r) \<or>
     (\<exists>p. x = Inr p \<and> si_state s1 = GXFP_TLS_HS_CAPTURING)"
    by (rule pull_loop_returns [OF assms])
  consider (one) "x = Inl 1" "si_state s1 = GXFP_TLS_HS_DONE \<and> sk_have_oneframe (si_img s1)"
    | (err) r where "r < 0" "x = Inl r" "si_state s1 = GXFP_TLS_HS_ERROR \<and> si_err s1 = r"
    | (go) "x = Inr True" "si_state s1 = GXFP_TLS_HS_CAPTURING" | (quiet) "x = Inr False" "si_state s1 = GXFP_TLS_HS_CAPTURING"
    using l(3) by (metis (full_types))
  then show thesis
  proof cases
    case one
    then show thesis using that [of 1 s1 h1] l by (simp add: svc_capture_def)
  next
    case (err r)
    then show thesis using that [of r s1 h1] l by (simp add: svc_capture_def)
  next
    case go
    then show thesis using that [of 0 s1 h1] l by (simp add: svc_capture_def)
  next
    case quiet
    obtain late where t: "svc_capture_timed_out env s1 h1 = (late, UClock # h1)"
      by (simp add: svc_capture_timed_out_def monotonic_ms_eq)
    have k: "svc_kept d s h s1 (UClock # h1)" using l(2) by (simp add: svc_kept_def)
    have k2: "svc_kept d s h (s1\<lparr>si_err := - ETIMEDOUT, si_state := GXFP_TLS_HS_ERROR\<rparr>) (UClock # h1)"
      using l(2) by (auto simp: svc_kept_def svc_inv_def svc_blocks_def)
    show thesis
    proof (cases late)
      case True
      then show thesis
        using that [of "- ETIMEDOUT" "s1\<lparr>si_err := - ETIMEDOUT, si_state := GXFP_TLS_HS_ERROR\<rparr>" "UClock # h1"] l(1) quiet t k2
        by (simp add: svc_capture_def)
    next
      case False
      then show thesis using that [of "- EAGAIN" s1 "UClock # h1"] l(1) quiet t k by (simp add: svc_capture_def)
    qed
  qed
qed

lemma get_image_keeps: "gxfp_cmd_get_image env (Some d) h = (r, h') \<Longrightarrow> ulive h' = ulive h"
  by (auto simp: gxfp_cmd_get_image_def gxfp_goodix_send_async_def Let_def split: prod.splits if_splits dest: send_packet_keeps)

text \<open>The transitions of a step.\<close>

definition step_to :: "gxfp_tls_hs_state \<Rightarrow> int \<Rightarrow> gxfp_tls_hs_state \<Rightarrow> bool" where
  "step_to st r st' \<longleftrightarrow>
    (case st of
       GXFP_TLS_HS_CONNECTING \<Rightarrow> r = 0 \<and> st' = GXFP_TLS_HS_CONNECTED \<or> r = - EAGAIN \<and> st' = GXFP_TLS_HS_CONNECTING \<or>
          r < 0 \<and> st' = GXFP_TLS_HS_ERROR
     | GXFP_TLS_HS_CONNECTED \<Rightarrow> r = - EAGAIN \<and> st' = GXFP_TLS_HS_CONNECTED \<or> r = 1 \<and> st' = GXFP_TLS_HS_DONE \<or>
          (r = 0 \<or> r = - EAGAIN) \<and> st' = GXFP_TLS_HS_CAPTURING \<or> r < 0 \<and> st' = GXFP_TLS_HS_ERROR
     | GXFP_TLS_HS_CAPTURING \<Rightarrow> r = 1 \<and> st' = GXFP_TLS_HS_DONE \<or> (r = 0 \<or> r = - EAGAIN) \<and> st' = GXFP_TLS_HS_CAPTURING \<or>
          r < 0 \<and> st' = GXFP_TLS_HS_ERROR
     | GXFP_TLS_HS_DONE \<Rightarrow> r = 1 \<and> st' = GXFP_TLS_HS_DONE
     | GXFP_TLS_HS_ERROR \<Rightarrow> r < 0 \<and> st' = GXFP_TLS_HS_ERROR
     | GXFP_TLS_HS_INIT \<Rightarrow> False)"

lemma svc_step_returns:
  assumes "lib_ok lib" "lib_drains lib" "svc_inv d s"
  obtains r s' h' where "svc_step env lib s h = Some ((r, s'), h')" "svc_kept d s h s' h'" "step_to (si_state s) r (si_state s')"
    "si_state s' = GXFP_TLS_HS_ERROR \<Longrightarrow> r = si_err s'" "r = 1 \<and> si_state s \<noteq> GXFP_TLS_HS_DONE \<Longrightarrow> sk_have_oneframe (si_img s')"
proof (cases "si_state s")
  case GXFP_TLS_HS_INIT
  then show thesis using assms(3) by (simp add: svc_inv_def)
next
  case c: GXFP_TLS_HS_CONNECTING
  obtain r s' h' where hs: "svc_handshake env lib s h = ((r, s'), h')" "svc_kept d s h s' h'"
    "r = 0 \<and> si_state s' = GXFP_TLS_HS_CONNECTED \<or> r = - EAGAIN \<and> si_state s' = GXFP_TLS_HS_CONNECTING \<or>
     r < 0 \<and> si_state s' = GXFP_TLS_HS_ERROR \<and> si_err s' = r"
    by (rule svc_handshake_kept [OF assms(1,3) c])
  then show thesis using that [of r s' h'] c by (auto simp: svc_step_def step_to_def)
next
  case c: GXFP_TLS_HS_CONNECTED
  show thesis
  proof (cases "si_pending_capture s \<and> \<not> si_capture_sent s")
    case False
    then show thesis using that [of "- EAGAIN" s h] c assms(3) by (auto simp: svc_step_def step_to_def svc_kept_refl)
  next
    case True
    have dev: "si_dev s = Some d" using assms(3) by (simp add: svc_inv_def)
    obtain r h1 where g: "gxfp_cmd_get_image env (Some d) h = (r, h1)" by fastforce
    have u: "ulive h1 = ulive h" by (rule get_image_keeps [OF g])
    show thesis
    proof (cases "r < 0")
      case neg: True
      let ?s = "s\<lparr>si_err := r, si_state := GXFP_TLS_HS_ERROR\<rparr>"
      have "svc_kept d s h ?s h1" using assms(3) neg u c by (auto simp: svc_kept_def svc_inv_def svc_blocks_def)
      then show thesis using that [of r ?s h1] c True g dev neg by (simp add: svc_step_def step_to_def)
    next
      case pos: False
      define s1 where "s1 = s\<lparr>si_capture_sent := True, si_pending_capture := False, si_state := GXFP_TLS_HS_CAPTURING,
          si_last_plain_ms := clock_ms env h1, si_last_tls_rx_ms := clock_ms env h1\<rparr>"
      have m: "svc_mark_capture_started env s h1 = (s1, UClock # h1)"
        by (simp add: svc_mark_capture_started_def monotonic_ms_eq s1_def)
      have k: "svc_kept d s h s1 (UClock # h1)" using assms(3) u c by (auto simp: s1_def svc_kept_def svc_inv_def svc_blocks_def)
      have i: "svc_inv d s1" "si_state s1 = GXFP_TLS_HS_CAPTURING" using k by (simp_all add: svc_kept_def s1_def)
      obtain r2 s2 h2 where q: "svc_capture env lib s1 (UClock # h1) = Some ((r2, s2), h2)" "svc_kept d s1 (UClock # h1) s2 h2"
        "r2 = 1 \<and> si_state s2 = GXFP_TLS_HS_DONE \<and> sk_have_oneframe (si_img s2) \<or>
         r2 < 0 \<and> si_state s2 = GXFP_TLS_HS_ERROR \<and> si_err s2 = r2 \<or>
         (r2 = 0 \<or> r2 = - EAGAIN) \<and> si_state s2 = GXFP_TLS_HS_CAPTURING"
        by (rule svc_capture_returns [OF assms(1,2) i])
      have "svc_step env lib s h = Some ((r2, s2), h2)" using q(1) c True g dev pos m by (simp add: svc_step_def)
      then show thesis using that [of r2 s2 h2] svc_kept_trans [OF k q(2)] q(3) c by (auto simp: step_to_def)
    qed
  qed
next
  case c: GXFP_TLS_HS_CAPTURING
  obtain r2 s2 h2 where "svc_capture env lib s h = Some ((r2, s2), h2)" "svc_kept d s h s2 h2"
    "r2 = 1 \<and> si_state s2 = GXFP_TLS_HS_DONE \<and> sk_have_oneframe (si_img s2) \<or>
     r2 < 0 \<and> si_state s2 = GXFP_TLS_HS_ERROR \<and> si_err s2 = r2 \<or>
     (r2 = 0 \<or> r2 = - EAGAIN) \<and> si_state s2 = GXFP_TLS_HS_CAPTURING"
    by (rule svc_capture_returns [OF assms c])
  then show thesis using that [of r2 s2 h2] c by (auto simp: svc_step_def step_to_def)
next
  case c: GXFP_TLS_HS_DONE
  then show thesis using that [of 1 s h] assms(3) by (simp add: svc_step_def step_to_def svc_kept_refl)
next
  case c: GXFP_TLS_HS_ERROR
  then have "si_err s < 0" using assms(3) by (simp add: svc_inv_def)
  then show thesis using that [of "si_err s" s h] c assms(3) by (simp add: svc_step_def step_to_def svc_kept_refl)
qed

lemma sink_full: "sink_ok sk \<Longrightarrow> sk_have_oneframe sk \<longleftrightarrow> sink_view (Some sk) \<noteq> None"
  by (auto simp: sink_ok_def sink_view_def split: option.splits)

lemma feed_kept:
  assumes "svc_inv d s" "n \<le> length p"
  obtains r s' h' where "gxfp_tls_service_feed_tap_record env (Some \<lparr>sv_impl = Some s\<rparr>) hdr (Some p) n h =
      ((r, Some \<lparr>sv_impl = Some s'\<rparr>), h')" "svc_kept d s h s' h'"
    "r = 0 \<and> si_state s' = si_state s \<or> r < 0 \<and> si_state s' = GXFP_TLS_HS_ERROR \<and> si_err s' = r"
proof (cases "th_type hdr = ucast GOODIX_MP_TYPE_TLS")
  case False
  then show thesis using that [of 0 s h] assms(1) by (simp add: gxfp_tls_service_feed_tap_record_def svc_kept_refl)
next
  case True
  obtain e where e: "si_engine s = Some e" "engine_inv e" "te_send_fn e = Some (send_tls_record_cb (Some d))" "si_dev s = Some d"
    "si_state s \<in> {GXFP_TLS_HS_CONNECTED, GXFP_TLS_HS_CAPTURING, GXFP_TLS_HS_DONE} \<Longrightarrow> te_hs_done e"
    using svc_invD [OF assms(1)] by blast
  have "\<exists>r e'. gxfp_tls_engine_feed_cipher_record (Some e) (Some p) n = (r, Some e') \<and> r \<le> 0"
    using push_view(1) [OF e(2) assms(2)] by (simp add: gxfp_tls_engine_feed_cipher_record_def)
  then obtain r e' where f: "gxfp_tls_engine_feed_cipher_record (Some e) (Some p) n = (r, Some e')" "r \<le> 0" by blast
  have st: "stream_inv (received (te_ssl e) @ rxq_view e) e" using e(2) by (simp add: stream_inv_def)
  have e': "engine_inv e'" "te_send_fn e' = te_send_fn e" "te_hs_done e' = te_hs_done e"
    using feed_stream [OF st assms(2) f(1)] by (auto simp: stream_inv_def)
  let ?s = "s\<lparr>si_last_tls_rx_ms := clock_ms env h, si_engine := Some e'\<rparr>"
  show thesis
  proof (cases "r < 0")
    case neg: True
    show thesis
      by (rule that [of r "?s\<lparr>si_err := r, si_state := GXFP_TLS_HS_ERROR\<rparr>" "UClock # h"])
        (use neg True f e e' assms(1) in \<open>auto simp: gxfp_tls_service_feed_tap_record_def monotonic_ms_eq Let_def svc_kept_def svc_inv_def
           svc_blocks_def\<close>)
  next
    case pos: False
    show thesis
      by (rule that [of 0 ?s "UClock # h"])
        (use pos True f e e' assms(1) in \<open>auto simp: gxfp_tls_service_feed_tap_record_def monotonic_ms_eq Let_def svc_kept_def svc_inv_def
           svc_blocks_def\<close>)
  qed
qed

lemma request_kept:
  assumes "svc_inv d s"
  obtains r s' h' where "gxfp_tls_service_request_capture (Some \<lparr>sv_impl = Some s\<rparr>) h = ((r, Some \<lparr>sv_impl = Some s'\<rparr>), h')"
    "svc_kept d s h s' h'"
    "if si_state s \<in> {GXFP_TLS_HS_CONNECTED, GXFP_TLS_HS_DONE}
     then r = 0 \<and> si_state s' = GXFP_TLS_HS_CONNECTED \<and> si_pending_capture s' \<and> \<not> si_capture_sent s' \<and> sink_view (Some (si_img s')) = None
     else r = - EBUSY \<and> s' = s \<and> h' = h"
proof (cases "si_state s \<in> {GXFP_TLS_HS_CONNECTED, GXFP_TLS_HS_DONE}")
  case False
  then show thesis using that [of "- EBUSY" s h] assms by (simp add: gxfp_tls_service_request_capture_def svc_kept_refl)
next
  case True
  have ok: "sink_ok (si_img s)" using assms by (simp add: svc_inv_def)
  obtain sk h1 where r: "gxfp_plain_image_sink_reset (Some (si_img s)) h = (Some sk, h1)" "sink_kept (si_img s) h sk h1"
    "sink_view (Some sk) = None"
    by (rule sink_reset_kept [OF ok])
  have n: "\<not> sk_have_oneframe sk" using sink_full [of sk] r(2,3) by (simp add: sink_kept_def)
  show thesis
    by (rule that [of 0 "s\<lparr>si_pending_capture := True, si_capture_sent := False, si_img := sk, si_state := GXFP_TLS_HS_CONNECTED\<rparr>" h1])
      (use True r n assms in \<open>auto simp: gxfp_tls_service_request_capture_def svc_kept_def svc_inv_def svc_blocks_def sink_kept_def\<close>)
qed

lemma raw_image_kept:
  assumes "svc_inv d s" "length oh = 5"
  obtains r s' h' oh' body where "gxfp_tls_service_get_raw_image env (Some \<lparr>sv_impl = Some s\<rparr>) (Some oh) True h =
      ((r, Some \<lparr>sv_impl = Some s'\<rparr>, oh', body), h')" "svc_inv d s'" "si_state s' = si_state s"
    "ulive h' - svc_blocks s' = ulive h - svc_blocks s + (if r = 1 then 1 else 0)"
    "case sink_view (Some (si_img s)) of
       None \<Rightarrow> r = 0 \<and> s' = s
     | Some (hdr, img) \<Rightarrow>
         if sys_malloc env h (length img)
         then r = 1 \<and> oh' = Some hdr \<and> body = Some (Some img, length img) \<and> sink_view (Some (si_img s')) = None
         else r = - ENOMEM \<and> s' = s"
proof -
  have ok: "sink_ok (si_img s)" using assms(1) by (simp add: svc_inv_def)
  have v: "sk_have_oneframe (si_img s) \<longleftrightarrow> sink_view (Some (si_img s)) \<noteq> None" by (rule sink_full [OF ok])
  have upd: "s\<lparr>si_img := si_img s\<rparr> = s" by simp
  show thesis
  proof (cases "sink_view (Some (si_img s))")
    case None
    then show thesis
      using that [of 0 s "Some oh" None h] v assms(1) by (simp add: gxfp_tls_service_get_raw_image_def)
  next
    case (Some hi)
    obtain hdr img where hi: "hi = (hdr, img)" by fastforce
    note x = sink_extract_cases [OF ok assms(2), of env h, unfolded Some hi option.case prod.case]
    show thesis
    proof (cases "sys_malloc env h (length img)")
      case True
      obtain sk' h' where y: "gxfp_plain_image_sink_extract env (Some (si_img s)) (Some oh) True h =
          ((1, Some sk', Some hdr, Some (Some img, length img)), h')" "sink_ok sk'" "sink_view (Some sk') = None" "ulive h' = ulive h"
        using x True by auto
      have "\<not> sk_have_oneframe sk'" using sink_full [OF y(2)] y(3) by simp
      then have i: "svc_inv d (s\<lparr>si_img := sk'\<rparr>)" using assms(1) y(2) by (auto simp: svc_inv_def)
      show thesis
        by (rule that [of 1 "s\<lparr>si_img := sk'\<rparr>" "Some hdr" "Some (Some img, length img)" h'])
          (use True Some hi y v i in \<open>simp_all add: gxfp_tls_service_get_raw_image_def svc_blocks_def sink_blocks_def\<close>)
    next
      case False
      then show thesis
        using that [of "- ENOMEM" s "Some (zeros 5)" "Some (None, 0)" h] x Some hi v assms(1)
        by (simp add: gxfp_tls_service_get_raw_image_def)
    qed
  qed
qed

lemma free_releases:
  assumes "svc_inv d s"
  obtains h' where "gxfp_tls_service_free (Some \<lparr>sv_impl = Some s\<rparr>) h = (Some \<lparr>sv_impl = None\<rparr>, h')" "ulive h' = ulive h - svc_blocks s"
proof -
  have ok: "sink_ok (si_img s)" using assms by (simp add: svc_inv_def)
  obtain e where e: "si_engine s = Some e" by (rule svc_invD [OF assms])
  obtain sk h1 where r: "gxfp_plain_image_sink_reset (Some (si_img s)) (ufree (ufree h)) = (Some sk, h1)"
    "sink_kept (si_img s) (ufree (ufree h)) sk h1" "sink_view (Some sk) = None"
    by (rule sink_reset_kept [OF ok])
  show thesis
    using that [of "ufree h1"] e r
    by (simp add: gxfp_tls_service_free_def svc_impl_free_def gxfp_tls_engine_free_def sink_kept_def svc_blocks_def sink_blocks_def)
qed

lemma send_async_keeps: "gxfp_goodix_send_async env dev c p n h = (r, h') \<Longrightarrow> ulive h' = ulive h"
  by (auto simp: gxfp_goodix_send_async_def Let_def split: prod.splits if_splits dest: send_packet_keeps)

lemma set_nonblock_keeps: "gxfp_dev_set_nonblock env dev b h = (r, h') \<Longrightarrow> ulive h' = ulive h"
  by (auto simp: gxfp_dev_set_nonblock_def Let_def split: option.splits if_splits sum.splits)

lemma flush_keeps: "gxfp_dev_flush_rxq env dev h = (r, h') \<Longrightarrow> ulive h' = ulive h"
  by (auto simp: gxfp_dev_flush_rxq_def Let_def split: option.splits if_splits)

lemma reset_zero [simp]: "gxfp_plain_image_sink_reset (Some sink_zero) h = (Some sink_zero, h)"
  by (simp add: gxfp_plain_image_sink_reset_def sink_zero_def ufree_ptr_def)

lemma svc_impl_free_zero: "si_img s = sink_zero \<Longrightarrow> ulive (svc_impl_free (Some s) h) = ulive h - (if si_engine s = None then 1 else 3)"
  by (cases "si_engine s") (simp_all add: svc_impl_free_def gxfp_tls_engine_free_def)

lemma service_init_cases:
  obtains (failed) r h' where "gxfp_tls_service_init env lib (Some \<lparr>sv_impl = None\<rparr>) (Some d) cfg psk n h = ((r, Some \<lparr>sv_impl = None\<rparr>), h')"
      "r < 0" "ulive h' = ulive h"
  | (started) s h' where "gxfp_tls_service_init env lib (Some \<lparr>sv_impl = None\<rparr>) (Some d) cfg psk n h = ((0, Some \<lparr>sv_impl = Some s\<rparr>), h')"
      "svc_inv d s" "ulive h' = ulive h + svc_blocks s" "si_state s = GXFP_TLS_HS_CONNECTING" "n = 32"
      "si_cfg s = (case cfg of Some c \<Rightarrow> c | None \<Rightarrow> \<lparr>hc_timeout_ms = 0, hc_manual_pending_request = False\<rparr>)"
      "si_pending_capture s = False" "si_capture_sent s = False"
proof (cases "psk = None \<or> n \<noteq> GXFP5130_PSK_LEN")
  case True
  then show thesis using failed [of "- EINVAL" h] by (auto simp: gxfp_tls_service_init_def)
next
  case False
  then obtain key where F: "psk = Some key" "n = GXFP5130_PSK_LEN" by auto
  show thesis
  proof (cases rule: malloc_cases [of env SERVICE_IMPL_SIZE h])
    case null
    then show thesis using failed [of "- ENOMEM" h] F by (simp add: gxfp_tls_service_init_def)
  next
    case (block b)
    let ?h1 = "UMalloc SERVICE_IMPL_SIZE # h"
    let ?cb = "Some (send_tls_record_cb (Some d))"
    define s where "s = \<lparr>si_dev = Some d,
        si_cfg = (case cfg of Some c \<Rightarrow> c | None \<Rightarrow> \<lparr>hc_timeout_ms = 0, hc_manual_pending_request = False\<rparr>),
        si_state = GXFP_TLS_HS_INIT, si_err = 0, si_pending_capture = False, si_capture_sent = False,
        si_handshake_start_ms = clock_ms env ?h1, si_last_plain_ms = clock_ms env ?h1, si_last_tls_rx_ms = clock_ms env ?h1,
        si_engine = None, si_img = sink_zero\<rparr>"
    have sel: "si_img s = sink_zero" "si_dev s = Some d" by (simp_all add: s_def)
    define go where "go = (\<lambda>s h. case gxfp_dev_set_nonblock env (Some d) True h of (_, h) \<Rightarrow>
        (case gxfp_dev_flush_rxq env (Some d) h of (_, h) \<Rightarrow>
        (case gxfp_cmd_tls_server_init env (Some d) h of (r, h) \<Rightarrow>
           if r < 0 then ((r, Some \<lparr>sv_impl = None\<rparr>), svc_impl_free (Some s) h)
           else ((0, Some \<lparr>sv_impl = Some (s\<lparr>si_state := GXFP_TLS_HS_CONNECTING, si_handshake_start_ms := clock_ms env h\<rparr>)\<rparr>),
                 UClock # h))))"
    have eq: "gxfp_tls_service_init env lib (Some \<lparr>sv_impl = None\<rparr>) (Some d) cfg psk n h =
        (case gxfp_tls_engine_create env lib True psk n ?cb (UClock # ?h1) of
           ((r, engine), h) \<Rightarrow>
             if r < 0 then ((r, Some \<lparr>sv_impl = None\<rparr>), svc_impl_free (Some (s\<lparr>si_engine := engine\<rparr>)) h)
             else go (s\<lparr>si_engine := engine\<rparr>) h)"
      using F block(1) by (simp add: gxfp_tls_service_init_def monotonic_ms_eq Let_def s_def go_def cong: prod.case_cong if_cong)
    show thesis
    proof (cases rule: create_cases [of env lib True psk n ?cb "UClock # ?h1"])
      case (fail r h')
      then show thesis
        using failed [of r "svc_impl_free (Some (s\<lparr>si_engine := None\<rparr>)) h'"] eq sel svc_impl_free_zero [of "s\<lparr>si_engine := None\<rparr>" h']
        by simp
    next
      case (created e h2)
      obtain r1 h3 where n1: "gxfp_dev_set_nonblock env (Some d) True h2 = (r1, h3)" by fastforce
      obtain r2 h4 where n2: "gxfp_dev_flush_rxq env (Some d) h3 = (r2, h4)" by fastforce
      obtain r3 h5 where n3: "gxfp_cmd_tls_server_init env (Some d) h4 = (r3, h5)" by fastforce
      have u: "ulive h5 = ulive h + 3"
        using set_nonblock_keeps [OF n1] flush_keeps [OF n2] n3 created(5)
        by (auto simp: gxfp_cmd_tls_server_init_def dest: send_async_keeps)
      let ?s = "s\<lparr>si_engine := Some e\<rparr>"
      show thesis
      proof (cases "r3 < 0")
        case True
        then show thesis
          using failed [of r3 "svc_impl_free (Some ?s) h5"] eq created(1) n1 n2 n3 sel svc_impl_free_zero [of ?s h5] u by (simp add: go_def)
      next
        case False
        let ?t = "?s\<lparr>si_state := GXFP_TLS_HS_CONNECTING, si_handshake_start_ms := clock_ms env h5\<rparr>"
        have "svc_inv d ?t"
          using created(2,4) by (auto simp: s_def svc_inv_def stream_inv_def sink_zero_def sink_ok_def)
        moreover have "svc_blocks ?t = 3" by (simp add: s_def svc_blocks_def sink_blocks_def sink_view_def sink_zero_def)
        ultimately show thesis
          using started [of ?t "UClock # h5"] eq created(1,6) n1 n2 n3 u False by (simp add: go_def s_def)
      qed
    qed
  qed
qed

section \<open>Collecting an image\<close>

text \<open>The library yields plaintexts, whatever the device and the history.\<close>

inductive yields :: "tlslib \<Rightarrow> gxfp_tls_engine \<Rightarrow> bytes list \<Rightarrow> bool" for lib :: tlslib where
  Nil: "yields lib e []"
| Cons: "(\<And>env h. \<exists>h'. run_ssl env lib (mbedtls_ssl_read lib (te_ssl e) TLS_REC_MAX_PLAIN) e h = ((int (length m), m), e1, h')) \<Longrightarrow>
    yields lib (ssl_log (SslRead TLS_REC_MAX_PLAIN (int (length m))) e1) ms \<Longrightarrow> yields lib e (m # ms)"

inductive_cases yields_ConsE: "yields lib e (m # ms)"

lemma yields_ConsD: "yields lib e (m # ms) \<Longrightarrow>
  \<exists>e1. (\<forall>env h. \<exists>h'. run_ssl env lib (mbedtls_ssl_read lib (te_ssl e) TLS_REC_MAX_PLAIN) e h = ((int (length m), m), e1, h')) \<and>
    yields lib (ssl_log (SslRead TLS_REC_MAX_PLAIN (int (length m))) e1) ms"
  by (erule yields_ConsE) blast

text \<open>A plaintext made of Goodix frames.\<close>

definition chunk :: "(u8 \<times> bytes) list \<Rightarrow> bytes \<Rightarrow> bool" where
  "chunk fs m \<longleftrightarrow> (\<exists>rest. m = concat (map (\<lambda>(c, p). body_bytes c p) fs) @ rest \<and> length rest < 4) \<and> 8 \<le> length m \<and>
     length m \<le> TLS_REC_MAX_PLAIN \<and> (\<forall>(c, p) \<in> set fs. length p \<le> 0xFF00)"

lemma pull_round_chunk:
  assumes "lib_ok lib" "svc_inv d s" "si_state s = GXFP_TLS_HS_CAPTURING" "si_engine s = Some e" "chunk fs m"
    and "\<forall>h n. sys_malloc env h n"
    and "run_ssl env lib (mbedtls_ssl_read lib (te_ssl e) TLS_REC_MAX_PLAIN) e h = ((int (length m), m), e1, h1)"
  obtains s' h' where "svc_pull_round env lib s h = (if first_image fs = None then Inr True else Inl 1, s', h')" "svc_inv d s'"
    "si_engine s' = Some (ssl_log (SslRead TLS_REC_MAX_PLAIN (int (length m))) e1)" "sink_view (Some (si_img s')) = first_image fs"
    "si_state s' = (if first_image fs = None then GXFP_TLS_HS_CAPTURING else GXFP_TLS_HS_DONE)"
proof -
  let ?b = "ufresh env h TLS_REC_MAX_PLAIN" and ?e = "ssl_log (SslRead TLS_REC_MAX_PLAIN (int (length m))) e1"
  have m: "8 \<le> length m" "length m \<le> TLS_REC_MAX_PLAIN" "\<forall>(c, p) \<in> set fs. length p \<le> 0xFF00" using assms(5) by (simp_all add: chunk_def)
  have ne: "m \<noteq> []" using m(1) by auto
  obtain rest where rest: "m = concat (map (\<lambda>(c, p). body_bytes c p) fs) @ rest" "length rest < 4" using assms(5) by (auto simp: chunk_def)
  have z: "\<not> sk_have_oneframe (si_img s)" "sink_ok (si_img s)" using assms(2,3) by (auto simp: svc_inv_def)
  then have v0: "sink_view (Some (si_img s)) = None" using sink_full by blast
  have pull: "gxfp_tls_engine_pull_plain env lib (Some e) (Some ?b) TLS_REC_MAX_PLAIN h =
      ((1, Some ?e, Some (m @ drop (length m) ?b), length m), h1)"
    using assms(7) m(2) ne by (simp add: gxfp_tls_engine_pull_plain_def TLS_REC_MAX_PLAIN_def Let_def memcpy_at_0)
  obtain sk h2 where sc: "gxfp_plain_scan_for_nonpov_image_chunks env (Some (m @ drop (length m) ?b)) (length m) (Some (si_img s)) h1 = (Some sk, h2)"
    "sink_ok sk" "sink_view (Some sk) = first_image fs"
    using scan_chunks_frames [OF z(2) m(3) assms(6) rest(2,1) m(1), of "drop (length m) ?b" h1] v0 by auto
  have o: "sk_have_oneframe sk \<longleftrightarrow> first_image fs \<noteq> None" using sink_full [OF sc(2)] sc(3) by simp
  let ?s = "s\<lparr>si_engine := Some ?e, si_img := sk, si_last_plain_ms := clock_ms env h2\<rparr>"
  have r: "svc_pull_round env lib s h =
      (if first_image fs = None then Inr True else Inl 1, if first_image fs = None then ?s else ?s\<lparr>si_state := GXFP_TLS_HS_DONE\<rparr>, UClock # h2)"
    unfolding svc_pull_round_def assms(4) pull prod.case Let_def using sc(1) o by (simp add: monotonic_ms_eq)
  obtain x s' h' where k: "svc_pull_round env lib s h = (x, s', h')" "svc_kept d s h s' h'" by (rule pull_round_kept [OF assms(1-3)])
  have "svc_inv d (if first_image fs = None then ?s else ?s\<lparr>si_state := GXFP_TLS_HS_DONE\<rparr>)" using k r by (simp add: svc_kept_def)
  then show thesis using that r sc(3) assms(3) by (cases "first_image fs") simp_all
qed

lemma pull_loop_chunks:
  "yields lib e (ms @ [m]) \<Longrightarrow> list_all (\<lambda>m. \<exists>fs. chunk fs m \<and> first_image fs = None) ms \<Longrightarrow> chunk fs m \<Longrightarrow> first_image fs = Some v \<Longrightarrow>
   lib_ok lib \<Longrightarrow> svc_inv d s \<Longrightarrow> si_state s = GXFP_TLS_HS_CAPTURING \<Longrightarrow> si_engine s = Some e \<Longrightarrow> \<forall>h n. sys_malloc env h n \<Longrightarrow>
   \<exists>s' h'. svc_pull_loop env lib s progressed h = Some (Inl 1, s', h') \<and> svc_inv d s' \<and> si_state s' = GXFP_TLS_HS_DONE \<and>
     sink_view (Some (si_img s')) = Some v"
proof (induction ms arbitrary: e s progressed h)
  case Nil
  obtain e1 h1 where x: "run_ssl env lib (mbedtls_ssl_read lib (te_ssl e) TLS_REC_MAX_PLAIN) e h = ((int (length m), m), e1, h1)"
    using yields_ConsD [of lib e m "[]"] Nil.prems(1) by fastforce
  have "\<exists>s' h'. svc_pull_round env lib s h = (Inl 1, s', h') \<and> svc_inv d s' \<and> sink_view (Some (si_img s')) = Some v \<and>
      si_state s' = GXFP_TLS_HS_DONE"
    by (rule pull_round_chunk [OF Nil.prems(5-8,3,9) x]) (use Nil.prems(4) in simp)
  then show ?case by (subst svc_pull_loop.simps) auto
next
  case (Cons m0 ms)
  obtain fs0 where c: "chunk fs0 m0" "first_image fs0 = None" using Cons.prems(2) by auto
  obtain e1 h1 where e1: "yields lib (ssl_log (SslRead TLS_REC_MAX_PLAIN (int (length m0))) e1) (ms @ [m])" and x: "run_ssl env lib (mbedtls_ssl_read lib (te_ssl e) TLS_REC_MAX_PLAIN) e h = ((int (length m0), m0), e1, h1)"
    using yields_ConsD [of lib e m0 "ms @ [m]"] Cons.prems(1) by fastforce
  have "\<exists>s1 h1. svc_pull_round env lib s h = (Inr True, s1, h1) \<and> svc_inv d s1 \<and>
      si_engine s1 = Some (ssl_log (SslRead TLS_REC_MAX_PLAIN (int (length m0))) e1) \<and> si_state s1 = GXFP_TLS_HS_CAPTURING"
    by (rule pull_round_chunk [OF Cons.prems(5-8) c(1) Cons.prems(9) x]) (use c(2) in simp)
  then obtain s1 h1 where r: "svc_pull_round env lib s h = (Inr True, s1, h1)" "svc_inv d s1"
    "si_engine s1 = Some (ssl_log (SslRead TLS_REC_MAX_PLAIN (int (length m0))) e1)" "si_state s1 = GXFP_TLS_HS_CAPTURING" by blast
  from Cons.IH [OF e1 _ Cons.prems(3-5) r(2,4,3) Cons.prems(9), of True h1] Cons.prems(2)
  obtain s' h' where "svc_pull_loop env lib s1 True h1 = Some (Inl 1, s', h')" "svc_inv d s'" "si_state s' = GXFP_TLS_HS_DONE"
    "sink_view (Some (si_img s')) = Some v" by auto
  then show ?case using r(1) by (subst svc_pull_loop.simps) simp
qed

text \<open>A request and the step that answers it.\<close>

lemma request_connects:
  assumes "svc_inv d s" "si_state s \<in> {GXFP_TLS_HS_CONNECTED, GXFP_TLS_HS_DONE}" "si_engine s = Some e"
  obtains s1 h1 where "gxfp_tls_service_request_capture (Some \<lparr>sv_impl = Some s\<rparr>) h = ((0, Some \<lparr>sv_impl = Some s1\<rparr>), h1)"
    "svc_inv d s1" "si_state s1 = GXFP_TLS_HS_CONNECTED" "si_pending_capture s1" "\<not> si_capture_sent s1" "si_engine s1 = Some e"
proof -
  have "\<exists>s1 h1. gxfp_tls_service_request_capture (Some \<lparr>sv_impl = Some s\<rparr>) h = ((0, Some \<lparr>sv_impl = Some s1\<rparr>), h1) \<and>
      svc_inv d s1 \<and> si_state s1 = GXFP_TLS_HS_CONNECTED \<and> si_pending_capture s1 \<and> \<not> si_capture_sent s1"
    by (rule request_kept [OF assms(1), of h]) (use assms(2) in \<open>auto simp: svc_kept_def\<close>)
  then obtain s1 h1 where q: "gxfp_tls_service_request_capture (Some \<lparr>sv_impl = Some s\<rparr>) h = ((0, Some \<lparr>sv_impl = Some s1\<rparr>), h1)"
    "svc_inv d s1" "si_state s1 = GXFP_TLS_HS_CONNECTED" "si_pending_capture s1" "\<not> si_capture_sent s1" by blast
  moreover have "si_engine s1 = Some e"
    using q(1) assms(2,3) by (auto simp: gxfp_tls_service_request_capture_def split: prod.splits)
  ultimately show thesis by (rule that)
qed

lemma capture_step:
  assumes "lib_ok lib" "svc_inv d s1" "si_state s1 = GXFP_TLS_HS_CONNECTED" "si_pending_capture s1" "\<not> si_capture_sent s1"
    "si_engine s1 = Some e"
    and "\<forall>h n. sys_malloc env h n" and "\<And>h. fst (gxfp_cmd_get_image env (Some d) h) = 0"
    and "yields lib e (ms @ [m])" and "list_all (\<lambda>m. \<exists>fs. chunk fs m \<and> first_image fs = None) ms" and "chunk fs m"
    and "first_image fs = Some v"
  obtains s3 h3 where "gxfp_tls_service_step env lib (Some \<lparr>sv_impl = Some s1\<rparr>) h1 = Some ((1, Some \<lparr>sv_impl = Some s3\<rparr>), h3)"
    "svc_inv d s3" "si_state s3 = GXFP_TLS_HS_DONE" "sink_view (Some (si_img s3)) = Some v"
proof -
  have dev: "si_dev s1 = Some d" using assms(2) by (simp add: svc_inv_def)
  obtain h2 where g: "gxfp_cmd_get_image env (Some d) h1 = (0, h2)" using assms(8) [of h1] by (metis prod.collapse)
  define s2 where "s2 = s1\<lparr>si_capture_sent := True, si_pending_capture := False, si_state := GXFP_TLS_HS_CAPTURING,
      si_last_plain_ms := clock_ms env h2, si_last_tls_rx_ms := clock_ms env h2\<rparr>"
  have i: "svc_inv d s2" "si_state s2 = GXFP_TLS_HS_CAPTURING" "si_engine s2 = Some e"
    using assms(2,3,6) by (auto simp: s2_def svc_inv_def)
  obtain s3 h3 where l: "svc_pull_loop env lib s2 False (UClock # h2) = Some (Inl 1, s3, h3)" "svc_inv d s3" "si_state s3 = GXFP_TLS_HS_DONE"
    "sink_view (Some (si_img s3)) = Some v"
    using pull_loop_chunks [OF assms(9-12,1) i assms(7)] by blast
  have "svc_step env lib s1 h1 = Some ((1, s3), h3)"
    using assms(3-5) dev g l(1) by (simp add: svc_step_def svc_mark_capture_started_def monotonic_ms_eq s2_def [symmetric] svc_capture_def)
  then show thesis using that l(2-4) by (simp add: gxfp_tls_service_step_def)
qed

section \<open>Properties\<close>

text \<open>C18: The TLS service keeps its invariant and its memory. A start either fails with a code, leaves the service
  empty and releases everything, or leaves a connecting service. Every later operation, whatever the
  device, the library and the allocator answer, keeps the invariant: an error code exactly in the
  error state, no capture before the handshake is over, an image only when a capture is over; a
  capture is accepted only when connected or done; fetching the image hands out exactly the stored one
  and its block; freeing gives back every block.\<close>

theorem service_invariant:
  assumes "lib_ok lib" and "lib_drains lib" and "svc_inv d s" and "n \<le> length p" and "length oh = 5"
  shows "(\<exists>r sv h'. gxfp_tls_service_init env lib (Some \<lparr>sv_impl = None\<rparr>) (Some d) cfg psk k h = ((r, Some \<lparr>sv_impl = sv\<rparr>), h') \<and>
      (case sv of None \<Rightarrow> r < 0 \<and> ulive h' = ulive h
         | Some s0 \<Rightarrow> r = 0 \<and> svc_inv d s0 \<and> si_state s0 = GXFP_TLS_HS_CONNECTING \<and> ulive h' = ulive h + svc_blocks s0)) \<and>
    (\<exists>r s' h'. gxfp_tls_service_feed_tap_record env (Some \<lparr>sv_impl = Some s\<rparr>) hdr (Some p) n h =
        ((r, Some \<lparr>sv_impl = Some s'\<rparr>), h') \<and> svc_kept d s h s' h') \<and>
    (\<exists>r s' h'. gxfp_tls_service_request_capture (Some \<lparr>sv_impl = Some s\<rparr>) h = ((r, Some \<lparr>sv_impl = Some s'\<rparr>), h') \<and>
        svc_kept d s h s' h' \<and>
        (if si_state s \<in> {GXFP_TLS_HS_CONNECTED, GXFP_TLS_HS_DONE} then r = 0 \<and> sink_view (Some (si_img s')) = None
         else r = - EBUSY \<and> s' = s)) \<and>
    (\<exists>r s' h'. gxfp_tls_service_step env lib (Some \<lparr>sv_impl = Some s\<rparr>) h = Some ((r, Some \<lparr>sv_impl = Some s'\<rparr>), h') \<and>
        svc_kept d s h s' h' \<and> step_to (si_state s) r (si_state s')) \<and>
    (\<exists>r s' h' oh' body. gxfp_tls_service_get_raw_image env (Some \<lparr>sv_impl = Some s\<rparr>) (Some oh) True h =
        ((r, Some \<lparr>sv_impl = Some s'\<rparr>, oh', body), h') \<and> svc_inv d s' \<and>
        ulive h' - svc_blocks s' = ulive h - svc_blocks s + (if r = 1 then 1 else 0) \<and>
        (r = 1 \<longrightarrow> (\<exists>ih img. sink_view (Some (si_img s)) = Some (ih, img) \<and> oh' = Some ih \<and> body = Some (Some img, length img)))) \<and>
    (\<exists>h'. gxfp_tls_service_free (Some \<lparr>sv_impl = Some s\<rparr>) h = (Some \<lparr>sv_impl = None\<rparr>, h') \<and> ulive h' = ulive h - svc_blocks s)"
proof (intro conjI)
  show "\<exists>r sv h'. gxfp_tls_service_init env lib (Some \<lparr>sv_impl = None\<rparr>) (Some d) cfg psk k h = ((r, Some \<lparr>sv_impl = sv\<rparr>), h') \<and>
      (case sv of None \<Rightarrow> r < 0 \<and> ulive h' = ulive h
         | Some s0 \<Rightarrow> r = 0 \<and> svc_inv d s0 \<and> si_state s0 = GXFP_TLS_HS_CONNECTING \<and> ulive h' = ulive h + svc_blocks s0)"
    by (cases rule: service_init_cases [of env lib d cfg psk k h]) auto
  show "\<exists>r s' h'. gxfp_tls_service_feed_tap_record env (Some \<lparr>sv_impl = Some s\<rparr>) hdr (Some p) n h =
        ((r, Some \<lparr>sv_impl = Some s'\<rparr>), h') \<and> svc_kept d s h s' h'"
    by (rule feed_kept [OF assms(3,4), of env hdr h]) blast
  show "\<exists>r s' h'. gxfp_tls_service_request_capture (Some \<lparr>sv_impl = Some s\<rparr>) h = ((r, Some \<lparr>sv_impl = Some s'\<rparr>), h') \<and>
        svc_kept d s h s' h' \<and>
        (if si_state s \<in> {GXFP_TLS_HS_CONNECTED, GXFP_TLS_HS_DONE} then r = 0 \<and> sink_view (Some (si_img s')) = None
         else r = - EBUSY \<and> s' = s)"
    by (rule request_kept [OF assms(3), of h]) (auto split: if_splits)
  show "\<exists>r s' h'. gxfp_tls_service_step env lib (Some \<lparr>sv_impl = Some s\<rparr>) h = Some ((r, Some \<lparr>sv_impl = Some s'\<rparr>), h') \<and>
        svc_kept d s h s' h' \<and> step_to (si_state s) r (si_state s')"
    by (rule svc_step_returns [OF assms(1-3), of env h]) (simp add: gxfp_tls_service_step_def)
  show "\<exists>r s' h' oh' body. gxfp_tls_service_get_raw_image env (Some \<lparr>sv_impl = Some s\<rparr>) (Some oh) True h =
        ((r, Some \<lparr>sv_impl = Some s'\<rparr>, oh', body), h') \<and> svc_inv d s' \<and>
        ulive h' - svc_blocks s' = ulive h - svc_blocks s + (if r = 1 then 1 else 0) \<and>
        (r = 1 \<longrightarrow> (\<exists>ih img. sink_view (Some (si_img s)) = Some (ih, img) \<and> oh' = Some ih \<and> body = Some (Some img, length img)))"
    by (rule raw_image_kept [OF assms(3,5), of env h]) (fastforce split: option.splits if_splits)
  show "\<exists>h'. gxfp_tls_service_free (Some \<lparr>sv_impl = Some s\<rparr>) h = (Some \<lparr>sv_impl = None\<rparr>, h') \<and> ulive h' = ulive h - svc_blocks s"
    by (rule free_releases [OF assms(3), of h]) blast
qed

text \<open>A library that is connected and gives one plaintext with an image, and a service that uses it.\<close>

definition demo_frame :: "u8 \<times> bytes" where
  "demo_frame = (0x20, [1, 2, 3, 4, 5, 6] @ crc_tail (crc32_spec [6]))"

definition demo_plain :: bytes where
  "demo_plain = (case demo_frame of (c, p) \<Rightarrow> body_bytes c p)"

definition frame_lib :: "bytes \<Rightarrow> tlslib" where
  "frame_lib m = sim_lib\<lparr>mbedtls_ssl_read := \<lambda>l n.
     SslReturn (if length m \<le> n \<and> l = [] then (int (length m), m) else (- 26880, []))\<rparr>"

definition image_lib :: tlslib where
  "image_lib = frame_lib demo_plain"

definition demo_service :: gxfp_tls_service_impl where
  "demo_service = \<lparr>si_dev = Some \<lparr>ud_fd = 3\<rparr>, si_cfg = \<lparr>hc_timeout_ms = 20000, hc_manual_pending_request = True\<rparr>,
     si_state = GXFP_TLS_HS_CONNECTED, si_err = 0, si_pending_capture = False, si_capture_sent = False, si_handshake_start_ms = 0,
     si_last_plain_ms = 0, si_last_tls_rx_ms = 0,
     si_engine = Some \<lparr>te_send_fn = Some (send_tls_record_cb (Some \<lparr>ud_fd = 3\<rparr>)), te_rxq = zeros 16, te_rxq_cap = 16, te_rxq_len = 0,
        te_hs_done = True, te_ssl = []\<rparr>,
     si_img = sink_zero\<rparr>"

definition demo_tap :: gxfp_tap_hdr where
  "demo_tap = rec_hdr \<lparr>tr_type = 0x0B, tr_ts = 0, tr_payload = []\<rparr>"

lemma demo_plain_facts: "length demo_plain = 14" "chunk [demo_frame] demo_plain"
  "first_image [demo_frame] = Some ([1, 2, 3, 4, 5], 6 # crc_tail (crc32_spec [6]))"
proof -
  have "gxfp_image_crc_check (Some ([6] @ crc_tail (crc32_spec [6]))) 5"
    using image_crc_check_append [of "crc_tail (crc32_spec [6])" "[6]" "[]"] by simp
  then show "first_image [demo_frame] = Some ([1, 2, 3, 4, 5], 6 # crc_tail (crc32_spec [6]))"
    by (simp add: demo_frame_def frame_image_def image_of_def)
qed (simp_all add: demo_plain_def demo_frame_def chunk_def TLS_REC_MAX_PLAIN_def)

lemma frame_lib_ok: "lib_ok (frame_lib m)" "lib_drains (frame_lib m)"
proof -
  have l: "lib_codes (frame_lib m)" by (simp add: lib_codes_def frame_lib_def sim_lib_def)
  have h: "r \<le> 0" if "r \<in> set_ssl_run (mbedtls_ssl_handshake (frame_lib m) l)" for l r
    using that by (auto simp: frame_lib_def sim_lib_def split: if_splits)
  show "lib_ok (frame_lib m)"
    using l h unfolding lib_ok_def by (auto simp: frame_lib_def)
  show "lib_drains (frame_lib m)"
    unfolding lib_drains_def
    by (rule exI [of _ "\<lambda>e. if te_ssl e = [] then 1 else 0"]) (auto simp: frame_lib_def split: if_splits)
qed

lemmas image_lib_ok = frame_lib_ok [of demo_plain, folded image_lib_def]

lemma demo_service_inv: "svc_inv \<lparr>ud_fd = 3\<rparr> demo_service"
  by (simp add: svc_inv_def demo_service_def sink_ok_def sink_zero_def engine_inv_def)

lemma frame_lib_yields: "te_ssl e = [] \<Longrightarrow> length m \<le> TLS_REC_MAX_PLAIN \<Longrightarrow> yields (frame_lib m) e ([] @ [m])"
  unfolding append_Nil
  by (rule yields.Cons [where ?e1.0 = e]) (simp_all add: frame_lib_def yields.Nil)

lemma image_lib_yields: "te_ssl e = [] \<Longrightarrow> yields image_lib e ([] @ [demo_plain])"
  unfolding image_lib_def by (rule frame_lib_yields) (simp_all add: demo_plain_facts TLS_REC_MAX_PLAIN_def)

theorem service_invariant_witness:
  "svc_inv \<lparr>ud_fd = 3\<rparr> demo_service \<and>
    (\<exists>r s' h'. gxfp_tls_service_feed_tap_record sim_uenv (Some \<lparr>sv_impl = Some demo_service\<rparr>) demo_tap (Some [22, 3, 3]) 3 [] =
        ((r, Some \<lparr>sv_impl = Some s'\<rparr>), h') \<and> svc_kept \<lparr>ud_fd = 3\<rparr> demo_service [] s' h') \<and>
    (\<exists>r s' h'. gxfp_tls_service_step sim_uenv image_lib (Some \<lparr>sv_impl = Some demo_service\<rparr>) [] = Some ((r, Some \<lparr>sv_impl = Some s'\<rparr>), h') \<and>
        svc_kept \<lparr>ud_fd = 3\<rparr> demo_service [] s' h' \<and> step_to (si_state demo_service) r (si_state s')) \<and>
    (\<exists>h'. gxfp_tls_service_free (Some \<lparr>sv_impl = Some demo_service\<rparr>) [] = (Some \<lparr>sv_impl = None\<rparr>, h') \<and>
        ulive h' = ulive [] - svc_blocks demo_service)"
proof -
  have "(3 :: nat) \<le> length [22, 3, 3 :: u8]" "length (zeros 5) = 5" by simp_all
  note inv = service_invariant [where env = sim_uenv and hdr = demo_tap and h = "[]", OF image_lib_ok demo_service_inv this]
  show ?thesis
    by (intro conjI demo_service_inv) (use inv in blast)+
qed

text \<open>A requested capture delivers the image. When a capture is requested of a connected service, the device
  takes the command and the library then yields plaintexts of which the last holds an image frame and
  the earlier ones do not, a single step ends the capture, and fetching the image gives exactly the
  header and the pixels of the first image frame of that plaintext.\<close>

theorem capture_delivers_image:
  assumes "lib_ok lib" and "svc_inv d s" and "si_state s = GXFP_TLS_HS_CONNECTED" and "si_engine s = Some e"
    and "\<forall>h n. sys_malloc env h n" and "\<And>h. fst (gxfp_cmd_get_image env (Some d) h) = 0"
    and "yields lib e (ms @ [m])" and "list_all (\<lambda>m. \<exists>fs. chunk fs m \<and> first_image fs = None) ms" and "chunk fs m"
    and "first_image fs = Some (hdr, img)"
  shows "\<exists>s1 h1 s2 h2 s3 h3.
    gxfp_tls_service_request_capture (Some \<lparr>sv_impl = Some s\<rparr>) h = ((0, Some s1), h1) \<and>
    gxfp_tls_service_step env lib (Some s1) h1 = Some ((1, Some s2), h2) \<and> gxfp_tls_service_state (Some s2) = GXFP_TLS_HS_DONE \<and>
    gxfp_tls_service_get_raw_image env (Some s2) (Some (zeros 5)) True h2 = ((1, Some s3, Some hdr, Some (Some img, length img)), h3)"
proof -
  have "si_state s \<in> {GXFP_TLS_HS_CONNECTED, GXFP_TLS_HS_DONE}" using assms(3) by simp
  then obtain s1 h1 where q: "gxfp_tls_service_request_capture (Some \<lparr>sv_impl = Some s\<rparr>) h = ((0, Some \<lparr>sv_impl = Some s1\<rparr>), h1)"
    "svc_inv d s1" "si_state s1 = GXFP_TLS_HS_CONNECTED" "si_pending_capture s1" "\<not> si_capture_sent s1" "si_engine s1 = Some e"
    by (rule request_connects [OF assms(2) _ assms(4)])
  obtain s3 h3 where st: "gxfp_tls_service_step env lib (Some \<lparr>sv_impl = Some s1\<rparr>) h1 = Some ((1, Some \<lparr>sv_impl = Some s3\<rparr>), h3)"
    "svc_inv d s3" "si_state s3 = GXFP_TLS_HS_DONE" "sink_view (Some (si_img s3)) = Some (hdr, img)"
    by (rule capture_step [OF assms(1) q(2-6) assms(5-10)])
  have "\<exists>s4 h4. gxfp_tls_service_get_raw_image env (Some \<lparr>sv_impl = Some s3\<rparr>) (Some (zeros 5)) True h3 =
      ((1, Some \<lparr>sv_impl = Some s4\<rparr>, Some hdr, Some (Some img, length img)), h4)"
    by (rule raw_image_kept [OF st(2), of "zeros 5" env h3]) (use st(4) assms(5) in auto)
  then show ?thesis using q(1) st(1,3) by (fastforce simp: gxfp_tls_service_state_def)
qed

lemma sim_get_image: "fst (gxfp_cmd_get_image sim_uenv (Some \<lparr>ud_fd = 3\<rparr>) h) = 0"
proof -
  have "length (cmd_packet GXFP_CMD_GET_IMAGE [1, 0]) = 14" by (simp add: cmd_packet_def tx_record_def)
  then show ?thesis
    using send_async_eq [of "\<lparr>ud_fd = 3\<rparr>" "[1, 0]" sim_uenv GXFP_CMD_GET_IMAGE h]
    by (simp add: gxfp_cmd_get_image_def sim_uenv_def Let_def)
qed

theorem capture_delivers_image_witness:
  "\<exists>s1 h1 s2 h2 s3 h3.
    gxfp_tls_service_request_capture (Some \<lparr>sv_impl = Some demo_service\<rparr>) [] = ((0, Some s1), h1) \<and>
    gxfp_tls_service_step sim_uenv image_lib (Some s1) h1 = Some ((1, Some s2), h2) \<and> gxfp_tls_service_state (Some s2) = GXFP_TLS_HS_DONE \<and>
    gxfp_tls_service_get_raw_image sim_uenv (Some s2) (Some (zeros 5)) True h2 =
      ((1, Some s3, Some [1, 2, 3, 4, 5], Some (Some (6 # crc_tail (crc32_spec [6])), length (6 # crc_tail (crc32_spec [6])))), h3)"
proof (rule capture_delivers_image [OF image_lib_ok(1) demo_service_inv])
  show "yields image_lib (the (si_engine demo_service)) ([] @ [demo_plain])"
    by (rule image_lib_yields) (simp add: demo_service_def)
  show "chunk [demo_frame] demo_plain" by (rule demo_plain_facts)
  show "fst (gxfp_cmd_get_image sim_uenv (Some \<lparr>ud_fd = 3\<rparr>) h) = 0" for h by (rule sim_get_image)
qed (simp_all add: demo_plain_facts demo_service_def sim_uenv_def del: first_image.simps)

text \<open>C20: The library's records reach the device one packet each, in order. Every buffer the library offers is a sequence of TLS records
  and a rest that does not begin with a whole record. The records go out one by one, each in one packet, up to the first that does not fit a packet of 508
  bytes. The buffer counts as sent exactly when every record fitted and there is no rest; a record that does not fit and a
  buffer that is no sequence of records, truncated in its last header or body, are reported as an internal error, in the latter case after the whole records
  went out.\<close>

theorem tls_records_one_packet_each:
  assumes "0 \<le> ud_fd d" and "\<forall>h n. sys_malloc env h n" and "\<forall>h b. sys_write env h (ud_fd d) b = Inr (length b)"
    and "te_send_fn e = Some (send_tls_record_cb (Some d))"
  shows "\<exists>rs rest h'. buf = concat rs @ rest \<and> list_all tls_record rs \<and> loose rest \<and>
    bio_send env lib (Some e) (Some buf) (length buf) h =
      (if list_all (\<lambda>r. length r \<le> 508) rs \<and> rest = [] then int (length buf) else MBEDTLS_ERR_SSL_INTERNAL_ERROR lib, h') \<and>
    sent h' = sent h @ map (tx_record 0xB0) (takeWhile (\<lambda>r. length r \<le> 508) rs)"
proof -
  obtain rs rest where buf: "buf = concat rs @ rest" "list_all tls_record rs" "loose rest" by (rule records_of)
  have one: "\<exists>h'. send_tls_record_cb (Some d) env (Some r) (length r) h = (0, h') \<and> sent h' = sent h @ [tx_record 0xB0 r]"
    if "tls_record r" "length r \<le> 508" for r h
  proof -
    have "length r \<noteq> 0" "length r \<le> 0xFFFF" using that by (auto simp: tls_record_def)
    moreover have "GOODIX_MP_FLAGS_FROM_TYPE GOODIX_MP_TYPE_TLS = 0xB0" by (simp add: GOODIX_MP_FLAGS_FROM_TYPE_def GOODIX_MP_TYPE_TLS_def)
    moreover have "length (tx_record 0xB0 r) = 8 + length r" by (simp add: tx_record_def)
    ultimately show ?thesis
      using send_packet_writes [OF assms(1), of r env h GOODIX_MP_TYPE_TLS "[]"] assms(2,3) that(2)
      by (auto simp: send_tls_record_cb_def GXFP_IOCTL_TX_PAYLOAD_MAX_def Let_def)
  qed
  have big: "send_tls_record_cb (Some d) env (Some r) (length r) h = (if length r > 0xFFFF then - EINVAL else - EMSGSIZE, h)"
    if "\<not> length r \<le> 508" for r h
  proof (cases "length r > 0xFFFF")
    case False
    then have "unat (of_nat (length r) :: u16) = length r" by (intro unat_of_nat_u16) simp
    then show ?thesis
      using that False assms(1) by (auto simp: send_tls_record_cb_def gxfp_dev_send_packet_def GXFP_IOCTL_TX_PAYLOAD_MAX_def)
  qed (use that in \<open>simp add: send_tls_record_cb_def\<close>)
  have "\<exists>res h'. send_each env (send_tls_record_cb (Some d)) rs h = (res, h') \<and>
      sent h' = sent h @ map (tx_record 0xB0) (takeWhile (\<lambda>r. length r \<le> 508) rs) \<and>
      (if list_all (\<lambda>r. length r \<le> 508) rs then res = None else res = Some (- EINVAL) \<or> res = Some (- EMSGSIZE))"
    using buf(2)
  proof (induction rs arbitrary: h)
    case (Cons r rs)
    show ?case
    proof (cases "length r \<le> 508")
      case True
      obtain h1 where "send_tls_record_cb (Some d) env (Some r) (length r) h = (0, h1)" "sent h1 = sent h @ [tx_record 0xB0 r]"
        using one [of r h] True Cons.prems by auto
      then show ?thesis using Cons.IH [of h1] Cons.prems True by auto
    next
      case False
      then show ?thesis using big [of r h] by simp
    qed
  qed simp
  then obtain res h' where s: "send_each env (send_tls_record_cb (Some d)) rs h = (res, h')"
    "sent h' = sent h @ map (tx_record 0xB0) (takeWhile (\<lambda>r. length r \<le> 508) rs)"
    "if list_all (\<lambda>r. length r \<le> 508) rs then res = None else res = Some (- EINVAL) \<or> res = Some (- EMSGSIZE)" by blast
  have "bio_send env lib (Some e) (Some buf) (length buf) h =
      (if list_all (\<lambda>r. length r \<le> 508) rs \<and> rest = [] then int (length buf) else MBEDTLS_ERR_SSL_INTERNAL_ERROR lib, h')"
    unfolding buf(1) using tls_cb.bio_send_records [OF buf(2,3) assms(4), of env lib h] s(1,3)
    by (auto simp: send_verdict_def split: if_splits)
  then show ?thesis using buf s(2) by blast
qed

lemma sim_records_split:
  assumes "[22, 3, 3, 0, 1, 7, 20, 3, 3, 0] = concat rs @ rest" "list_all tls_record rs" "loose rest"
  shows "rs = [[22, 3, 3, 0, 1, 7]]" "rest = [20, 3, 3, 0 :: u8]"
proof -
  obtain r rs' where rs: "rs = r # rs'" using assms(1,3) by (cases rs) (auto simp: loose_def)
  have r: "5 \<le> length r" "length r = 5 + unat (push_bit 8 (ucast (r ! 3)) OR ucast (r ! 4) :: u16)" using assms(2) rs by (simp_all add: tls_record_def)
  have eq: "r @ concat rs' @ rest = [22, 3, 3, 0, 1, 7, 20, 3, 3, 0]" using assms(1) rs by simp
  have "r ! 3 = 0" "r ! 4 = 1" using r(1) arg_cong [OF eq, of "\<lambda>x. x ! 3"] arg_cong [OF eq, of "\<lambda>x. x ! 4"] by (simp_all add: nth_append)
  then have l: "length r = 6" using r(2) by simp
  have r': "r = [22, 3, 3, 0, 1, 7]" "concat rs' @ rest = [20, 3, 3, 0]"
    using arg_cong [OF eq, of "take 6"] arg_cong [OF eq, of "drop 6"] l by simp_all
  have "rs' = []"
  proof (cases rs')
    case (Cons a as)
    then have "5 \<le> length (concat rs' @ rest)" using assms(2) rs by (simp add: tls_record_def)
    then show ?thesis unfolding r'(2) by simp
  qed simp
  then show "rs = [[22, 3, 3, 0, 1, 7]]" "rest = [20, 3, 3, 0]" using rs r' by simp_all
qed

theorem tls_records_one_packet_each_witness:
  "\<exists>h'. bio_send sim_uenv sim_lib (si_engine demo_service) (Some [22, 3, 3, 0, 1, 7, 20, 3, 3, 0]) 10 [] =
      (MBEDTLS_ERR_SSL_INTERNAL_ERROR sim_lib, h') \<and> sent h' = [tx_record 0xB0 [22, 3, 3, 0, 1, 7]]"
proof -
  define e where "e = the (si_engine demo_service)"
  have e: "si_engine demo_service = Some e" by (simp add: e_def demo_service_def)
  have h: "0 \<le> ud_fd \<lparr>ud_fd = 3\<rparr>" "\<forall>h n. sys_malloc sim_uenv h n" "\<forall>h b. sys_write sim_uenv h (ud_fd \<lparr>ud_fd = 3\<rparr>) b = Inr (length b)"
    "te_send_fn e = Some (send_tls_record_cb (Some \<lparr>ud_fd = 3\<rparr>))" by (simp_all add: sim_uenv_def e_def demo_service_def)
  have l: "length [22, 3, 3, 0, 1, 7, 20, 3, 3, 0 :: u8] = 10" by simp
  obtain rs rest h' where w: "[22, 3, 3, 0, 1, 7, 20, 3, 3, 0] = concat rs @ rest" "list_all tls_record rs" "loose rest"
    "bio_send sim_uenv sim_lib (Some e) (Some [22, 3, 3, 0, 1, 7, 20, 3, 3, 0]) 10 [] =
      (if list_all (\<lambda>r. length r \<le> 508) rs \<and> rest = [] then int 10 else MBEDTLS_ERR_SSL_INTERNAL_ERROR sim_lib, h')"
    "sent h' = sent [] @ map (tx_record 0xB0) (takeWhile (\<lambda>r. length r \<le> 508) rs)"
    using tls_records_one_packet_each [OF h, of "[22, 3, 3, 0, 1, 7, 20, 3, 3, 0]" sim_lib "[]", unfolded l] by blast
  show ?thesis using w(4,5) sim_records_split [OF w(1-3)] e by simp
qed

text \<open>A busy device in the middle of a buffer: the callback reports that nothing was sent, and when the library
  offers the buffer again, the records before the refused one go out a second time.\<close>

lemma busy_device_repeats_record:
  assumes "tls_record a" "tls_record b" "te_send_fn e = Some (send_tls_record_cb dev)"
    and "send_tls_record_cb dev env (Some a) (length a) h = (0, h1)" "send_tls_record_cb dev env (Some b) (length b) h1 = (- EAGAIN, h2)"
    and "send_tls_record_cb dev env (Some a) (length a) h2 = (0, h3)" "send_tls_record_cb dev env (Some b) (length b) h3 = (0, h4)"
  shows "bio_send env lib (Some e) (Some (a @ b)) (length (a @ b)) h = (MBEDTLS_ERR_SSL_WANT_WRITE lib, h2)"
    and "bio_send env lib (Some e) (Some (a @ b)) (length (a @ b)) h2 = (int (length (a @ b)), h4)"
  using tls_cb.bio_send_records [of "[a, b]" "[]" e dev env lib] assms by (simp_all add: send_verdict_def)

end
