(* ===== verification/Image_Fpn.thy ===== *)
theory Image_Fpn
  imports Complex_Main Image_Decoder
begin

text \<open>
  Correction of the fixed pattern of the sensor (\<open>userspace/src/algo/image/fpn.c\<close>): the dark frame is
  subtracted from an image and the result is stretched linearly to twelve bits.

  The stretch uses \<open>double\<close>. A double is a rational number here and every operation rounds its exact
  result to 53 significant bits, to nearest with ties to even (\<open>fl\<close>), as the SSE2 arithmetic of x86-64
  does. The range of the exponent is not modelled: all values the code forms are zero or lie between
  $2^{-5}$ and $2^{29}$, far from underflow and overflow.
\<close>

section \<open>Definitions\<close>

subsection \<open>Double arithmetic\<close>

fun bit_len :: "nat \<Rightarrow> nat" where
  "bit_len n = (if n = 0 then 0 else Suc (bit_len (n div 2)))"

declare bit_len.simps [simp del]

text \<open>The exponent of a positive number: the greatest power of two that is not above it.\<close>

definition expo :: "rat \<Rightarrow> int" where
  "expo x =
    (let (p, q) = quotient_of x; k = int (bit_len (nat p)) - int (bit_len (nat q))
     in if 2 powi k \<le> x then k else k - 1)"

definition round_even :: "rat \<Rightarrow> int" where
  "round_even y =
    (let f = \<lfloor>y\<rfloor>; r = y - of_int f
     in if r < 1 / 2 then f else if r > 1 / 2 then f + 1 else if even f then f else f + 1)"

definition fl :: "rat \<Rightarrow> rat" where
  "fl x = (if x = 0 then 0 else let u = 2 powi (expo \<bar>x\<bar> - 52) in of_int (round_even (x / u)) * u)"

subsection \<open>The correction\<close>

record gxfp_fpn_dark =
  dk_pixels :: "u16 list option"
  dk_rows :: int
  dk_cols :: int

definition gxfp_fpn_free :: "gxfp_fpn_dark option \<Rightarrow> uhist \<Rightarrow> gxfp_fpn_dark option \<times> uhist" where
  "gxfp_fpn_free dark h =
    (case dark of
       None \<Rightarrow> (None, h)
     | Some dk \<Rightarrow> (Some (dk\<lparr>dk_pixels := None, dk_rows := 0, dk_cols := 0\<rparr>), ufree_ptr (dk_pixels dk) h))"

text \<open>The subtraction loop. An access behind the end of an array is \<open>None\<close>.\<close>

definition dark_diff :: "u16 \<Rightarrow> u16 \<Rightarrow> u16" where
  "dark_diff p d = (let v = int (unat p) - int (unat d) in of_int (if v \<ge> 0 then v else - v))"

definition dark_subtract :: "nat \<Rightarrow> u16 list \<Rightarrow> u16 list \<Rightarrow> u16 list option" where
  "dark_subtract tot px dk =
    (if tot \<le> length px \<and> tot \<le> length dk
     then Some (map (\<lambda>i. dark_diff (px ! i) (dk ! i)) [0..<tot] @ drop tot px) else None)"

text \<open>The indices of the pixels that are not on the border, in the order of the two loops.\<close>

definition interior :: "nat \<Rightarrow> nat \<Rightarrow> nat list" where
  "interior rows cols = concat (map (\<lambda>y. map (\<lambda>x. y * cols + x) [1..<cols - 1]) [1..<rows - 1])"

definition min_max_step :: "u16 list \<Rightarrow> nat \<Rightarrow> u16 \<times> u16 \<Rightarrow> u16 \<times> u16" where
  "min_max_step px i = (\<lambda>(gmin, gmax). let v = px ! i in (if v < gmin then v else gmin, if v > gmax then v else gmax))"

definition min_max_loop :: "nat \<Rightarrow> nat \<Rightarrow> u16 list \<Rightarrow> u16 \<times> u16" where
  "min_max_loop rows cols px = fold (min_max_step px) (interior rows cols) (4095, 0)"

text \<open>One pixel of the stretch, with \<open>scale\<close> the double computed before the loops.\<close>

definition stretch_scale :: "u16 \<Rightarrow> u16 \<Rightarrow> rat" where
  "stretch_scale gmin gmax = fl (4095 / of_nat (unat gmax - unat gmin))"

definition stretch_pixel :: "u16 \<Rightarrow> rat \<Rightarrow> u16 \<Rightarrow> u16" where
  "stretch_pixel gmin scale p =
    (let v = fl (fl (of_nat (unat p) - of_nat (unat gmin)) * scale);
         v = (if v < 0 then 0 else v);
         v = (if v > 4095 then 4095 else v)
     in of_int \<lfloor>fl (v + 1 / 2)\<rfloor>)"

text \<open>The number of pixels is a natural number here and an \<open>int\<close> in the code, which differ from 2 to the 31 pixels on.\<close>

definition gxfp_fpn_correct ::
  "u16 list option \<Rightarrow> int \<Rightarrow> int \<Rightarrow> gxfp_fpn_dark option \<Rightarrow> (int \<times> u16 list option) option" where
  "gxfp_fpn_correct pixels rows_i cols_i dark =
    (case pixels of
       None \<Rightarrow> Some (- EINVAL, None)
     | Some px \<Rightarrow>
         if rows_i \<le> 0 \<or> cols_i \<le> 0 then Some (- EINVAL, pixels)
         else
           let rows = nat rows_i; cols = nat cols_i; tot = rows * cols;
               stretched = (\<lambda>px.
                 if length px < tot then None
                 else case min_max_loop rows cols px of
                   (gmin, gmax) \<Rightarrow>
                     if gmax > gmin
                     then Some (0, Some (map (stretch_pixel gmin (stretch_scale gmin gmax)) (take tot px) @ drop tot px))
                     else Some (0, Some px))
           in (case dark of
                 None \<Rightarrow> stretched px
               | Some dk \<Rightarrow>
                   if dk_rows dk \<noteq> rows_i \<or> dk_cols dk \<noteq> cols_i then Some (- EINVAL, pixels)
                   else (case dk_pixels dk of
                           None \<Rightarrow> Some (- EINVAL, pixels)
                         | Some d \<Rightarrow> (case dark_subtract tot px d of None \<Rightarrow> None | Some px \<Rightarrow> stretched px))))"

section \<open>Rounding\<close>

lemma bit_len_bounds:
  assumes "0 < n"
  shows "2 ^ (bit_len n - 1) \<le> n" "n < 2 ^ bit_len n" "0 < bit_len n"
proof -
  have "0 < n \<longrightarrow> 2 ^ (bit_len n - 1) \<le> n \<and> n < 2 ^ bit_len n \<and> 0 < bit_len n"
  proof (induction n rule: bit_len.induct)
    case (1 n)
    show ?case
    proof (cases "n div 2 = 0")
      case True
      then have "n = 0 \<or> n = 1" by linarith
      then show ?thesis using bit_len.simps [of n] bit_len.simps [of 0] by auto
    next
      case False
      then have ih: "2 ^ (bit_len (n div 2) - 1) \<le> n div 2" "n div 2 < 2 ^ bit_len (n div 2)" "0 < bit_len (n div 2)"
        using 1 by auto
      have e: "bit_len n = Suc (bit_len (n div 2))" using False bit_len.simps [of n] by auto
      have "(2 :: nat) ^ bit_len (n div 2) = 2 * 2 ^ (bit_len (n div 2) - 1)" using ih(3) by (cases "bit_len (n div 2)") simp_all
      then show ?thesis using ih unfolding e by simp linarith
    qed
  qed
  then show "2 ^ (bit_len n - 1) \<le> n" "n < 2 ^ bit_len n" "0 < bit_len n" using assms by simp_all
qed

lemma pow2_less [simp]: "(2 :: rat) powi m < 2 powi n \<longleftrightarrow> m < n"
  using power_int_strict_increasing [of m n "2 :: rat"] power_int_increasing [of n m "2 :: rat"] by (cases "m < n") auto

lemma pow2_add: "(2 :: rat) powi m * 2 powi n = 2 powi (m + n)"
  by (rule power_int_add [symmetric]) simp

text \<open>A positive integer between the powers of two its length gives.\<close>

lemma pow2_bit_len:
  assumes "0 < p"
  shows "(2 :: rat) powi (int (bit_len (nat p)) - 1) \<le> of_int p" "of_int p < (2 :: rat) powi int (bit_len (nat p))"
proof -
  define a where "a = bit_len (nat p)"
  have a: "2 ^ (a - 1) \<le> nat p" "nat p < 2 ^ a" "0 < a" using bit_len_bounds [of "nat p"] assms by (simp_all add: a_def)
  have "of_nat (2 ^ (a - 1)) \<le> (of_nat (nat p) :: rat)" "(of_nat (nat p) :: rat) < of_nat (2 ^ a)"
    using a by (simp_all only: of_nat_le_iff of_nat_less_iff)
  moreover have "int a - 1 = int (a - 1)" using a by simp
  ultimately show "(2 :: rat) powi (int (bit_len (nat p)) - 1) \<le> of_int p" "of_int p < (2 :: rat) powi int (bit_len (nat p))"
    unfolding a_def [symmetric]
    using assms by (simp_all only: power_int_of_nat of_nat_power of_nat_numeral of_nat_nat less_imp_le)
qed

lemma expo_bounds:
  assumes "0 < x"
  shows "2 powi expo x \<le> x" "x < 2 powi (expo x + 1)"
proof -
  obtain p q where pq: "quotient_of x = (p, q)" by fastforce
  have q: "0 < q" using quotient_of_denom_pos [OF pq] .
  have x: "x = of_int p / of_int q" using quotient_of_div [OF pq] .
  then have p: "0 < p" using assms q by (simp add: zero_less_divide_iff)
  define a b where "a = bit_len (nat p)" and "b = bit_len (nat q)"
  note ra = pow2_bit_len [OF p, folded a_def] and rb = pow2_bit_len [OF q, folded b_def]
  define k where "k = int a - int b"
  have up: "x < 2 powi (k + 1)"
  proof -
    have "of_int p < (2 :: rat) powi (k + 1) * 2 powi (int b - 1)" using ra(2) unfolding pow2_add by (simp add: k_def)
    also have "\<dots> \<le> 2 powi (k + 1) * of_int q" using rb(1) by (intro mult_left_mono) simp_all
    finally show ?thesis using q by (simp add: x divide_less_eq)
  qed
  have lo: "2 powi (k - 1) \<le> x"
  proof -
    have "(2 :: rat) powi (k - 1) * of_int q \<le> 2 powi (k - 1) * 2 powi int b" using rb(2) by (intro mult_left_mono) simp_all
    also have "\<dots> = 2 powi (int a - 1)" unfolding pow2_add by (simp add: k_def)
    finally show ?thesis using ra(1) q by (simp add: x le_divide_eq)
  qed
  have e: "expo x = (if 2 powi k \<le> x then k else k - 1)" by (simp add: expo_def pq k_def a_def b_def)
  show "2 powi expo x \<le> x" using lo by (simp add: e)
  show "x < 2 powi (expo x + 1)" using up by (simp add: e)
qed

lemma expo_mono: "0 < x \<Longrightarrow> x \<le> y \<Longrightarrow> expo x \<le> expo y"
proof -
  assume "0 < x" "x \<le> y"
  then have "(2 :: rat) powi expo x < 2 powi (expo y + 1)" using expo_bounds(1) [of x] expo_bounds(2) [of y] by linarith
  then show ?thesis unfolding pow2_less by simp
qed

lemma round_even_err: "\<bar>of_int (round_even y) - y\<bar> \<le> 1 / 2"
  unfolding round_even_def Let_def using floor_correct [of y] by (auto split: if_splits)

lemma round_even_mono:
  assumes "y \<le> z"
  shows "round_even y \<le> round_even z"
proof (cases "\<lfloor>y\<rfloor> = \<lfloor>z\<rfloor>")
  case True
  then show ?thesis using assms by (auto simp: round_even_def Let_def)
next
  case False
  then have "\<lfloor>y\<rfloor> + 1 \<le> \<lfloor>z\<rfloor>" using floor_mono [OF assms] by linarith
  then show ?thesis by (auto simp: round_even_def Let_def)
qed

lemma round_even_int [simp]: "round_even (of_int n) = n"
  by (simp add: round_even_def)

lemma fl_0 [simp]: "fl 0 = 0"
  by (simp add: fl_def)

lemma fl_scaled: "x \<noteq> 0 \<Longrightarrow> fl x = of_int (round_even (x / 2 powi (expo \<bar>x\<bar> - 52))) * 2 powi (expo \<bar>x\<bar> - 52)"
  by (simp add: fl_def Let_def)

text \<open>The relative error of one operation.\<close>

lemma fl_err: "\<bar>fl x - x\<bar> \<le> \<bar>x\<bar> / 2 ^ 53"
proof (cases "x = 0")
  case False
  define u :: rat where "u = 2 powi (expo \<bar>x\<bar> - 52)"
  have u: "0 < u" by (simp add: u_def)
  have "fl x - x = (of_int (round_even (x / u)) - x / u) * u" using False u by (simp add: fl_scaled u_def left_diff_distrib)
  then have "\<bar>fl x - x\<bar> = \<bar>of_int (round_even (x / u)) - x / u\<bar> * u" using u by (simp add: abs_mult)
  also have "\<dots> \<le> 1 / 2 * u" using round_even_err u by (intro mult_right_mono) simp_all
  also have "\<dots> = 2 powi expo \<bar>x\<bar> / 2 ^ 53" by (simp add: u_def power_int_diff)
  also have "\<dots> \<le> \<bar>x\<bar> / 2 ^ 53" using expo_bounds(1) [of "\<bar>x\<bar>"] False by (simp add: divide_right_mono)
  finally show ?thesis .
qed simp

text \<open>Numbers of at most 53 bits are not rounded.\<close>

lemma fl_exact:
  assumes "\<bar>of_int m * 2 powi k\<bar> < (2 :: rat) powi (k + 53)"
  shows "fl (of_int m * 2 powi k) = of_int m * 2 powi k"
proof (cases "m = 0")
  case False
  define x :: rat where "x = of_int m * 2 powi k"
  have x: "0 < \<bar>x\<bar>" using False by (simp add: x_def)
  have "(2 :: rat) powi expo \<bar>x\<bar> < 2 powi (k + 53)" using expo_bounds(1) [OF x] assms unfolding x_def by linarith
  then have e: "expo \<bar>x\<bar> - 52 \<le> k" by simp
  define n where "n = nat (k - (expo \<bar>x\<bar> - 52))"
  have "x / 2 powi (expo \<bar>x\<bar> - 52) = of_int m * 2 powi (k - (expo \<bar>x\<bar> - 52))"
    by (simp add: x_def power_int_diff)
  also have "k - (expo \<bar>x\<bar> - 52) = int n" using e by (simp add: n_def)
  finally have "x / 2 powi (expo \<bar>x\<bar> - 52) = of_int (m * 2 ^ n)" by simp
  then have "round_even (x / 2 powi (expo \<bar>x\<bar> - 52)) = m * 2 ^ n" by (simp only: round_even_int)
  moreover have "of_int (m * 2 ^ n) * 2 powi (expo \<bar>x\<bar> - 52) = x"
    using \<open>x / 2 powi (expo \<bar>x\<bar> - 52) = of_int (m * 2 ^ n)\<close> by (simp add: divide_eq_eq)
  ultimately show ?thesis using x by (simp add: fl_scaled x_def [symmetric])
qed simp

lemma fl_int:
  assumes "\<bar>n\<bar> < 2 ^ 53"
  shows "fl (of_int n) = of_int n"
proof -
  have "of_int \<bar>n\<bar> < (of_int (2 ^ 53) :: rat)" using assms by (simp only: of_int_less_iff)
  then have "\<bar>of_int n * 2 powi 0\<bar> < (2 :: rat) powi (0 + 53)" by simp
  then show ?thesis using fl_exact [of n 0] by simp
qed

lemma fl_half:
  assumes "\<bar>n\<bar> < 2 ^ 53"
  shows "fl (of_int n / 2) = of_int n / 2"
proof -
  have h: "of_int n * 2 powi (- 1) = (of_int n / 2 :: rat)" by (simp add: power_int_minus)
  have "of_int \<bar>n\<bar> < (of_int (2 ^ 53) :: rat)" using assms by (simp only: of_int_less_iff)
  moreover have "\<bar>of_int n / 2\<bar> = (of_int \<bar>n\<bar> / 2 :: rat)" by simp
  moreover have "(2 :: rat) powi (- 1 + 53) = of_int (2 ^ 53) / 2" by simp
  ultimately have "\<bar>of_int n * 2 powi (- 1)\<bar> < (2 :: rat) powi (- 1 + 53)" unfolding h by linarith
  then show ?thesis using fl_exact [of n "- 1"] unfolding h by simp
qed

lemma fl_nonneg: "0 \<le> x \<Longrightarrow> 0 \<le> fl x"
  using round_even_mono [of 0 "x / 2 powi (expo \<bar>x\<bar> - 52)"] round_even_int [of 0]
  by (cases "x = 0") (simp_all add: fl_scaled)

lemma fl_nonpos: "x \<le> 0 \<Longrightarrow> fl x \<le> 0"
  using round_even_mono [of "x / 2 powi (expo \<bar>x\<bar> - 52)" 0] round_even_int [of 0]
  by (cases "x = 0") (simp_all add: fl_scaled divide_nonpos_pos mult_nonpos_nonneg)

lemma fl_binade:
  assumes "0 < x"
  shows "2 powi expo x \<le> fl x" "fl x \<le> 2 powi (expo x + 1)"
proof -
  define u :: rat where "u = 2 powi (expo x - 52)"
  have u: "0 < u" by (simp add: u_def)
  have e: "2 powi expo x = 2 ^ 52 * u" "2 powi (expo x + 1) = 2 ^ 53 * u"
    by (simp_all add: u_def power_int_diff power_int_add)
  have f: "fl x = of_int (round_even (x / u)) * u" using assms by (simp add: fl_scaled u_def)
  have "round_even (of_int (2 ^ 52)) \<le> round_even (x / u)"
    by (rule round_even_mono) (use expo_bounds(1) [OF assms] u in \<open>simp add: e le_divide_eq\<close>)
  then have "2 ^ 52 \<le> round_even (x / u)" by (simp only: round_even_int)
  then have "of_int (2 ^ 52) \<le> (of_int (round_even (x / u)) :: rat)" by (simp only: of_int_le_iff)
  then show "2 powi expo x \<le> fl x" using u unfolding e f by (intro mult_right_mono) simp_all
  have "round_even (x / u) \<le> round_even (of_int (2 ^ 53))"
    by (rule round_even_mono) (use expo_bounds(2) [OF assms] u in \<open>simp add: e divide_le_eq\<close>)
  then have "round_even (x / u) \<le> 2 ^ 53" by (simp only: round_even_int)
  then have "(of_int (round_even (x / u)) :: rat) \<le> of_int (2 ^ 53)" by (simp only: of_int_le_iff)
  then show "fl x \<le> 2 powi (expo x + 1)" using u unfolding e f by (intro mult_right_mono) simp_all
qed

lemma fl_mono:
  assumes "0 \<le> x" "x \<le> y"
  shows "fl x \<le> fl y"
proof (cases "x = 0")
  case True
  then show ?thesis using fl_nonneg [of y] assms(2) by simp
next
  case False
  then have x: "0 < x" "0 < y" using assms by simp_all
  show ?thesis
  proof (cases "expo x = expo y")
    case True
    then show ?thesis using x assms by (auto simp: fl_scaled intro!: mult_right_mono round_even_mono divide_right_mono)
  next
    case False
    then have "expo x + 1 \<le> expo y" using expo_mono [OF x(1) assms(2)] by simp
    then have "(2 :: rat) powi (expo x + 1) \<le> 2 powi expo y" by (simp add: power_int_increasing)
    then show ?thesis using fl_binade(2) [OF x(1)] fl_binade(1) [OF x(2)] by linarith
  qed
qed

section \<open>The stretch\<close>

text \<open>The exact stretch of a value, clamped to twelve bits.\<close>

definition clamp12 :: "rat \<Rightarrow> rat" where
  "clamp12 v = max 0 (min 4095 v)"

definition exact_stretch :: "nat \<Rightarrow> nat \<Rightarrow> nat \<Rightarrow> rat" where
  "exact_stretch lo hi b = clamp12 ((of_nat b - of_nat lo) * 4095 / of_nat (hi - lo))"

definition stretch_raw :: "nat \<Rightarrow> nat \<Rightarrow> nat \<Rightarrow> rat" where
  "stretch_raw lo hi b = fl ((of_nat b - of_nat lo) * fl (4095 / of_nat (hi - lo)))"

lemma clamp12_range: "0 \<le> clamp12 v" "clamp12 v \<le> 4095"
  by (auto simp: clamp12_def)

lemma clamp12_mono: "v \<le> w \<Longrightarrow> clamp12 v \<le> clamp12 w"
  by (auto simp: clamp12_def)

lemma clamp12_near:
  assumes "\<bar>v - e\<bar> \<le> 3 * \<bar>e\<bar> / 2 ^ 53"
  shows "\<bar>clamp12 v - clamp12 e\<bar> \<le> 1 / 2 ^ 39"
proof -
  consider "e < 0" | "0 \<le> e" "e \<le> 4096" | "4096 < e" by linarith
  then show ?thesis
  proof cases
    case 1
    then have "v \<le> e + 3 * (- e) / 2 ^ 53" using assms by linarith
    also have "\<dots> \<le> 0" using 1 by simp
    finally show ?thesis using 1 by (simp add: clamp12_def)
  next
    case 2
    then have "\<bar>v - e\<bar> \<le> 1 / 2 ^ 39" using assms by simp
    moreover have "\<bar>clamp12 v - clamp12 e\<bar> \<le> \<bar>v - e\<bar>" by (simp add: clamp12_def)
    ultimately show ?thesis by linarith
  next
    case 3
    then have "e - 3 * e / 2 ^ 53 \<le> v" using assms by linarith
    then have "4095 \<le> v" using 3 by simp
    then show ?thesis using 3 by (simp add: clamp12_def)
  qed
qed

lemma stretch_raw_err:
  assumes "lo < hi"
  shows "\<bar>stretch_raw lo hi b - (of_nat b - of_nat lo) * 4095 / of_nat (hi - lo)\<bar>
      \<le> 3 * \<bar>(of_nat b - of_nat lo) * 4095 / of_nat (hi - lo)\<bar> / 2 ^ 53"
proof -
  define d :: rat where "d = of_nat b - of_nat lo"
  define q :: rat where "q = 4095 / of_nat (hi - lo)"
  define t :: rat where "t = d * fl q"
  have "\<bar>t - d * q\<bar> = \<bar>d\<bar> * \<bar>fl q - q\<bar>" by (simp add: t_def abs_mult flip: right_diff_distrib)
  also have "\<dots> \<le> \<bar>d\<bar> * (\<bar>q\<bar> / 2 ^ 53)" by (intro mult_left_mono fl_err) simp
  finally have t: "\<bar>t - d * q\<bar> \<le> \<bar>d * q\<bar> / 2 ^ 53" by (simp add: abs_mult)
  moreover have "\<bar>fl t - t\<bar> \<le> \<bar>t\<bar> / 2 ^ 53" by (rule fl_err)
  moreover have "\<bar>t\<bar> \<le> 2 * \<bar>d * q\<bar>"
  proof -
    have "\<bar>d * q\<bar> / 2 ^ 53 \<le> \<bar>d * q\<bar>" by simp
    then show ?thesis using t by linarith
  qed
  then have "\<bar>t\<bar> / 2 ^ 53 \<le> 2 * \<bar>d * q\<bar> / 2 ^ 53" by (rule divide_right_mono) simp
  ultimately have "\<bar>fl t - d * q\<bar> \<le> \<bar>d * q\<bar> / 2 ^ 53 + 2 * \<bar>d * q\<bar> / 2 ^ 53" by linarith
  then have "\<bar>fl t - d * q\<bar> \<le> 3 * \<bar>d * q\<bar> / 2 ^ 53" by (simp flip: add_divide_distrib)
  then show ?thesis by (simp add: stretch_raw_def t_def d_def q_def)
qed

lemma stretch_raw_mono:
  assumes "lo < hi" "b \<le> c"
  shows "clamp12 (stretch_raw lo hi b) \<le> clamp12 (stretch_raw lo hi c)"
proof -
  have s: "0 \<le> fl (4095 / of_nat (hi - lo))" by (rule fl_nonneg) simp
  show ?thesis
  proof (cases "lo \<le> b")
    case True
    have "stretch_raw lo hi b \<le> stretch_raw lo hi c"
      unfolding stretch_raw_def using s True assms by (intro fl_mono mult_right_mono) simp_all
    then show ?thesis by (rule clamp12_mono)
  next
    case False
    then have "stretch_raw lo hi b \<le> 0" unfolding stretch_raw_def by (intro fl_nonpos mult_nonpos_nonneg s) simp
    then show ?thesis using clamp12_range(1) [of "stretch_raw lo hi c"] by (simp add: clamp12_def)
  qed
qed

lemma fl_round_range:
  assumes "0 \<le> v" "v \<le> 4095"
  shows "0 \<le> \<lfloor>fl (v + 1 / 2)\<rfloor>" "\<lfloor>fl (v + 1 / 2)\<rfloor> \<le> 4095"
proof -
  show "0 \<le> \<lfloor>fl (v + 1 / 2)\<rfloor>" using fl_nonneg [of "v + 1 / 2"] assms(1) by simp
  have "fl (v + 1 / 2) \<le> fl (of_int 8191 / 2)" by (rule fl_mono) (use assms in simp_all)
  also have "\<dots> = of_int 8191 / 2" by (rule fl_half) simp
  finally show "\<lfloor>fl (v + 1 / 2)\<rfloor> \<le> 4095" by (simp add: floor_le_iff)
qed

lemma stretch_pixel_eq:
  assumes "gmin < gmax"
  shows "unat (stretch_pixel gmin (stretch_scale gmin gmax) p) =
    nat \<lfloor>fl (clamp12 (stretch_raw (unat gmin) (unat gmax) (unat p)) + 1 / 2)\<rfloor>"
proof -
  have "of_nat (unat p) - of_nat (unat gmin) = (of_int (int (unat p) - int (unat gmin)) :: rat)" by simp
  moreover have "\<bar>int (unat p) - int (unat gmin)\<bar> < 2 ^ 53"
    using u16_less [of p] u16_less [of gmin] by (simp del: of_nat_unat)
  ultimately have d: "fl (of_nat (unat p) - of_nat (unat gmin)) = of_nat (unat p) - of_nat (unat gmin)" by (metis fl_int)
  let ?v = "clamp12 (stretch_raw (unat gmin) (unat gmax) (unat p))"
  have "stretch_pixel gmin (stretch_scale gmin gmax) p = of_int \<lfloor>fl (?v + 1 / 2)\<rfloor>"
    unfolding stretch_pixel_def stretch_scale_def Let_def d stretch_raw_def clamp12_def max_def min_def
    by (simp add: not_less not_le)
  moreover have "unat (of_int k :: u16) = nat k" if "0 \<le> k" "k \<le> 4095" for k
    using that by (simp add: unat_eq_nat_uint uint_word_of_int take_bit_int_eq_self)
  ultimately show ?thesis using fl_round_range [OF clamp12_range] by simp
qed

lemma stretch_pixel_le: "gmin < gmax \<Longrightarrow> unat (stretch_pixel gmin (stretch_scale gmin gmax) p) \<le> 4095"
  using fl_round_range(2) [OF clamp12_range] by (simp only: stretch_pixel_eq nat_le_iff of_nat_numeral)

lemma stretch_pixel_mono:
  assumes "gmin < gmax" "unat p \<le> unat q"
  shows "unat (stretch_pixel gmin (stretch_scale gmin gmax) p) \<le> unat (stretch_pixel gmin (stretch_scale gmin gmax) q)"
proof -
  have "clamp12 (stretch_raw (unat gmin) (unat gmax) (unat p)) \<le> clamp12 (stretch_raw (unat gmin) (unat gmax) (unat q))"
    using assms by (intro stretch_raw_mono) (simp_all add: word_less_nat_alt)
  then have "fl (clamp12 (stretch_raw (unat gmin) (unat gmax) (unat p)) + 1 / 2) \<le>
      fl (clamp12 (stretch_raw (unat gmin) (unat gmax) (unat q)) + 1 / 2)"
    by (intro fl_mono) (simp_all add: clamp12_range(1) add_nonneg_nonneg)
  then show ?thesis using assms by (simp add: stretch_pixel_eq floor_mono nat_mono)
qed

lemma stretch_pixel_near:
  assumes "gmin < gmax"
  shows "\<bar>of_nat (unat (stretch_pixel gmin (stretch_scale gmin gmax) p)) - exact_stretch (unat gmin) (unat gmax) (unat p)\<bar>
      \<le> 1 / 2 + 1 / 2 ^ 38"
proof -
  define v where "v = clamp12 (stretch_raw (unat gmin) (unat gmax) (unat p))"
  define e where "e = exact_stretch (unat gmin) (unat gmax) (unat p)"
  have lt: "unat gmin < unat gmax" using assms by (simp add: word_less_nat_alt)
  have ve: "\<bar>v - e\<bar> \<le> 1 / 2 ^ 39"
    unfolding v_def e_def exact_stretch_def by (rule clamp12_near) (rule stretch_raw_err [OF lt])
  have v: "0 \<le> v" "v \<le> 4095" by (simp_all add: v_def clamp12_range)
  have "\<bar>fl (v + 1 / 2) - (v + 1 / 2)\<bar> \<le> \<bar>v + 1 / 2\<bar> / 2 ^ 53" by (rule fl_err)
  also have "\<dots> \<le> 1 / 2 ^ 41" using v by simp
  finally have w: "\<bar>fl (v + 1 / 2) - (v + 1 / 2)\<bar> \<le> 1 / 2 ^ 41" .
  have "of_nat (unat (stretch_pixel gmin (stretch_scale gmin gmax) p)) = (of_int \<lfloor>fl (v + 1 / 2)\<rfloor> :: rat)"
    using fl_round_range(1) [OF v] by (simp add: stretch_pixel_eq [OF assms] flip: v_def)
  moreover have "1 / 2 ^ 39 + 1 / 2 ^ 41 \<le> (1 / 2 ^ 38 :: rat)" by simp
  ultimately show ?thesis using ve w floor_correct [of "fl (v + 1 / 2)"] unfolding e_def [symmetric] by linarith
qed

lemma stretch_pixel_ends:
  assumes "gmin < gmax"
  shows "unat p \<le> unat gmin \<Longrightarrow> stretch_pixel gmin (stretch_scale gmin gmax) p = 0"
    and "unat gmax \<le> unat p \<Longrightarrow> stretch_pixel gmin (stretch_scale gmin gmax) p = 4095"
proof -
  let ?o = "stretch_pixel gmin (stretch_scale gmin gmax) p"
  have near: "\<bar>of_nat (unat ?o) - exact_stretch (unat gmin) (unat gmax) (unat p)\<bar> \<le> (1 / 2 + 1 / 2 ^ 38 :: rat)"
    by (rule stretch_pixel_near [OF assms])
  have lt: "unat gmin < unat gmax" using assms by (simp add: word_less_nat_alt)
  show "?o = 0" if "unat p \<le> unat gmin"
  proof -
    have "exact_stretch (unat gmin) (unat gmax) (unat p) = 0"
    proof -
      have "(of_nat (unat p) - of_nat (unat gmin)) * 4095 / (of_nat (unat gmax - unat gmin) :: rat) \<le> 0"
        using that by (intro divide_nonpos_nonneg mult_nonpos_nonneg)
          (simp_all only: of_nat_le_iff diff_le_0_iff_le of_nat_0_le_iff zero_le_numeral)
      then show ?thesis by (simp only: exact_stretch_def clamp12_def) simp
    qed
    then have "(of_nat (unat ?o) :: rat) < of_nat 1" using near by simp
    then have "unat ?o = 0" unfolding of_nat_less_iff by simp
    then show ?thesis by (simp add: unat_eq_0)
  qed
  show "?o = 4095" if "unat gmax \<le> unat p"
  proof -
    have "4095 \<le> (of_nat (unat p) - of_nat (unat gmin)) * 4095 / (of_nat (unat gmax - unat gmin) :: rat)"
    proof -
      have "(of_nat (unat gmax - unat gmin) :: rat) \<le> of_nat (unat p) - of_nat (unat gmin)"
        using that lt by (subst of_nat_diff) (simp_all only: of_nat_le_iff less_imp_le diff_right_mono)
      moreover have "(0 :: rat) < of_nat (unat gmax - unat gmin)" using lt by (simp only: of_nat_0_less_iff zero_less_diff)
      ultimately show ?thesis by (simp only: le_divide_eq) simp
    qed
    then have "exact_stretch (unat gmin) (unat gmax) (unat p) = 4095" by (simp only: exact_stretch_def clamp12_def)
    moreover have "1 / 2 ^ 38 < (1 / 2 :: rat)" by simp
    moreover have "(of_nat 4094 :: rat) = 4094" by simp
    ultimately have "(of_nat 4094 :: rat) < of_nat (unat ?o)" using near by linarith
    then have "unat ?o = unat (4095 :: u16)" using stretch_pixel_le [OF assms, of p] unfolding of_nat_less_iff by simp
    then show ?thesis by (rule unsigned_word_eqI)
  qed
qed

section \<open>The correction of an image\<close>

lemma min_max_fold:
  "fold (min_max_step px) js (a, b) = (fold min (map ((!) px) js) a, fold max (map ((!) px) js) b)"
  by (induction js arbitrary: a b) (auto simp: min_max_step_def Let_def min_def max_def)

lemma min_max_loop_eq:
  "min_max_loop rows cols px =
    (Min (insert 4095 ((!) px ` set (interior rows cols))), Max (insert 0 ((!) px ` set (interior rows cols))))"
  unfolding min_max_loop_def min_max_fold
  by (simp flip: Min.set_eq_fold Max.set_eq_fold)

lemma set_interior: "set (interior rows cols) = {y * cols + x |y x. 0 < y \<and> y + 1 < rows \<and> 0 < x \<and> x + 1 < cols}"
  unfolding interior_def set_concat set_map set_upt image_image
proof (intro set_eqI iffI)
  fix i
  assume "i \<in> (\<Union>y \<in> {1..<rows - 1}. (\<lambda>x. y * cols + x) ` {1..<cols - 1})"
  then obtain y x where "i = y * cols + x" "y \<in> {1..<rows - 1}" "x \<in> {1..<cols - 1}" by blast
  then have "i = y * cols + x" "0 < y \<and> y + 1 < rows \<and> 0 < x \<and> x + 1 < cols" by auto
  then show "i \<in> {y * cols + x |y x. 0 < y \<and> y + 1 < rows \<and> 0 < x \<and> x + 1 < cols}" by blast
next
  fix i
  assume "i \<in> {y * cols + x |y x. 0 < y \<and> y + 1 < rows \<and> 0 < x \<and> x + 1 < cols}"
  then obtain y x where i: "i = y * cols + x" "0 < y \<and> y + 1 < rows \<and> 0 < x \<and> x + 1 < cols" by blast
  then have "y \<in> {1..<rows - 1}" "x \<in> {1..<cols - 1}" by auto
  then show "i \<in> (\<Union>y \<in> {1..<rows - 1}. (\<lambda>x. y * cols + x) ` {1..<cols - 1})" using i(1) by blast
qed

text \<open>The brightness of a pixel after the subtraction, as a number.\<close>

definition base_level :: "u16 list \<Rightarrow> u16 list option \<Rightarrow> nat \<Rightarrow> nat" where
  "base_level px dark i =
    (case dark of None \<Rightarrow> unat (px ! i) | Some d \<Rightarrow> nat \<bar>int (unat (px ! i)) - int (unat (d ! i))\<bar>)"

definition low_level :: "nat \<Rightarrow> nat \<Rightarrow> (nat \<Rightarrow> nat) \<Rightarrow> nat" where
  "low_level rows cols f = Min (insert 4095 (f ` {y * cols + x |y x. 0 < y \<and> y + 1 < rows \<and> 0 < x \<and> x + 1 < cols}))"

definition high_level :: "nat \<Rightarrow> nat \<Rightarrow> (nat \<Rightarrow> nat) \<Rightarrow> nat" where
  "high_level rows cols f = Max (insert 0 (f ` {y * cols + x |y x. 0 < y \<and> y + 1 < rows \<and> 0 < x \<and> x + 1 < cols}))"

definition dark_fits :: "int \<Rightarrow> int \<Rightarrow> gxfp_fpn_dark option \<Rightarrow> bool" where
  "dark_fits rows cols dark =
    (case dark of
       None \<Rightarrow> True
     | Some dk \<Rightarrow> dk_rows dk = rows \<and> dk_cols dk = cols \<and>
         (case dk_pixels dk of None \<Rightarrow> False | Some d \<Rightarrow> length d = nat rows * nat cols))"

lemma unat_dark_diff: "unat (dark_diff p d) = nat \<bar>int (unat p) - int (unat d)\<bar>"
proof -
  have "unat (of_int k :: u16) = nat k" if "0 \<le> k" "k < 65536" for k
    using that by (simp add: unat_eq_nat_uint uint_word_of_int take_bit_int_eq_self)
  then show ?thesis using u16_less [of p] u16_less [of d] by (auto simp: dark_diff_def Let_def simp del: of_nat_unat)
qed

lemma unat_Min: "finite A \<Longrightarrow> A \<noteq> {} \<Longrightarrow> unat (Min A :: u16) = Min (unat ` A)"
  by (rule mono_Min_commute) (auto simp: mono_def word_le_nat_alt)

lemma unat_Max: "finite A \<Longrightarrow> A \<noteq> {} \<Longrightarrow> unat (Max A :: u16) = Max (unat ` A)"
  by (rule mono_Max_commute) (auto simp: mono_def word_le_nat_alt)

lemma levels:
  assumes "min_max_loop rows cols px = (gmin, gmax)" "\<forall>i < rows * cols. unat (px ! i) = f i"
  shows "unat gmin = low_level rows cols f" "unat gmax = high_level rows cols f"
proof -
  let ?I = "{y * cols + x |y x. 0 < y \<and> y + 1 < rows \<and> 0 < x \<and> x + 1 < cols}"
  have inside: "i < rows * cols" if i: "i \<in> ?I" for i
  proof -
    obtain y x where yx: "i = y * cols + x" "0 < y \<and> y + 1 < rows \<and> 0 < x \<and> x + 1 < cols" using i by blast
    then have "(y + 1) * cols \<le> rows * cols" by (intro mult_le_mono) simp_all
    then show ?thesis using yx by simp
  qed
  have im: "unat ` ((!) px ` ?I) = f ` ?I" using assms(2) inside by (force simp: image_image)
  have fin: "finite ((!) px ` ?I)" unfolding set_interior [symmetric] by simp
  show "unat gmin = low_level rows cols f" "unat gmax = high_level rows cols f"
    using assms(1) unat_Min [of "insert 4095 ((!) px ` ?I)"] unat_Max [of "insert 0 ((!) px ` ?I)"] fin im
    by (simp_all add: min_max_loop_eq set_interior low_level_def high_level_def)
qed

text \<open>The stretch of a whole image, with \<open>f\<close> the level of each pixel before it.\<close>

definition stretched_to :: "nat \<Rightarrow> nat \<Rightarrow> (nat \<Rightarrow> nat) \<Rightarrow> u16 list \<Rightarrow> bool" where
  "stretched_to rows cols f out \<longleftrightarrow> length out = rows * cols \<and>
    (let lo = low_level rows cols f; hi = high_level rows cols f
     in if lo < hi
        then (\<forall>i < rows * cols. unat (out ! i) \<le> 4095 \<and>
               \<bar>of_nat (unat (out ! i)) - exact_stretch lo hi (f i)\<bar> \<le> 1 / 2 + 1 / 2 ^ 38 \<and>
               (f i \<le> lo \<longrightarrow> out ! i = 0) \<and> (hi \<le> f i \<longrightarrow> out ! i = 4095) \<and>
               (\<forall>j < rows * cols. f i \<le> f j \<longrightarrow> unat (out ! i) \<le> unat (out ! j)))
        else \<forall>i < rows * cols. unat (out ! i) = f i)"

lemma stretch_image:
  assumes "length px = rows * cols" "\<forall>i < rows * cols. unat (px ! i) = f i" "min_max_loop rows cols px = (gmin, gmax)"
  shows "stretched_to rows cols f (if gmin < gmax then map (stretch_pixel gmin (stretch_scale gmin gmax)) px else px)"
proof -
  note l = levels [OF assms(3,2)]
  show ?thesis
  proof (cases "gmin < gmax")
    case True
    note facts = stretch_pixel_le [OF True] stretch_pixel_near [OF True, unfolded l] stretch_pixel_ends [OF True, unfolded l]
      stretch_pixel_mono [OF True]
    have "low_level rows cols f < high_level rows cols f" using True l by (simp add: word_less_nat_alt)
    moreover have "(let out = map (stretch_pixel gmin (stretch_scale gmin gmax)) px in
        unat (out ! i) \<le> 4095 \<and>
        \<bar>of_nat (unat (out ! i)) - exact_stretch (low_level rows cols f) (high_level rows cols f) (f i)\<bar> \<le> (1 / 2 + 1 / 2 ^ 38 :: rat) \<and>
        (f i \<le> low_level rows cols f \<longrightarrow> out ! i = 0) \<and> (high_level rows cols f \<le> f i \<longrightarrow> out ! i = 4095) \<and>
        (\<forall>j < rows * cols. f i \<le> f j \<longrightarrow> unat (out ! i) \<le> unat (out ! j)))" if i: "i < rows * cols" for i
    proof -
      have u: "unat (px ! i) = f i" using assms(2) i by blast
      have o: "map (stretch_pixel gmin (stretch_scale gmin gmax)) px ! i = stretch_pixel gmin (stretch_scale gmin gmax) (px ! i)"
        using i assms(1) by simp
      have m: "unat (stretch_pixel gmin (stretch_scale gmin gmax) (px ! i)) \<le> unat (map (stretch_pixel gmin (stretch_scale gmin gmax)) px ! j)"
        if "j < rows * cols" "f i \<le> f j" for j
        using that assms(1,2) facts(5) [of "px ! i" "px ! j"] u by simp
      show ?thesis unfolding Let_def o
        using facts(1) [of "px ! i"] facts(2) [of "px ! i", unfolded u] facts(3,4) [of "px ! i", unfolded u] m by blast
    qed
    ultimately show ?thesis using True assms(1) by (simp add: stretched_to_def Let_def)
  next
    case False
    then have "\<not> low_level rows cols f < high_level rows cols f" using l by (simp add: word_less_nat_alt)
    then show ?thesis using False assms(1,2) by (simp add: stretched_to_def Let_def)
  qed
qed

lemma fpn_correct_ok:
  assumes "0 < rows" "0 < cols" "length px = nat rows * nat cols" "dark_fits rows cols dark"
  shows "\<exists>out. gxfp_fpn_correct (Some px) rows cols dark = Some (0, Some out) \<and>
    stretched_to (nat rows) (nat cols) (base_level px (Option.bind dark dk_pixels)) out"
proof -
  let ?f = "base_level px (Option.bind dark dk_pixels)"
  define b where "b = (case Option.bind dark dk_pixels of None \<Rightarrow> px | Some d \<Rightarrow> map (\<lambda>i. dark_diff (px ! i) (d ! i)) [0..<length px])"
  have b: "length b = nat rows * nat cols" "\<forall>i < nat rows * nat cols. unat (b ! i) = ?f i"
    using assms(3) by (auto simp: b_def base_level_def unat_dark_diff split: option.splits)
  obtain gmin gmax where m: "min_max_loop (nat rows) (nat cols) b = (gmin, gmax)" by fastforce
  have "gxfp_fpn_correct (Some px) rows cols dark =
      Some (0, Some (if gmin < gmax then map (stretch_pixel gmin (stretch_scale gmin gmax)) b else b))"
    using assms m b(1)
    by (auto simp: gxfp_fpn_correct_def Let_def dark_fits_def dark_subtract_def b_def split: option.splits)
  then show ?thesis using stretch_image [OF b m] by blast
qed

text \<open>Errors: a missing image, a size that is not positive and a dark frame that does not fit give -EINVAL and leave
  the image as it is.\<close>

lemma fpn_correct_errors:
  "gxfp_fpn_correct None rows cols dark = Some (- EINVAL, None)"
  "rows \<le> 0 \<or> cols \<le> 0 \<Longrightarrow> gxfp_fpn_correct (Some px) rows cols dark = Some (- EINVAL, Some px)"
  "dk_rows dk \<noteq> rows \<or> dk_cols dk \<noteq> cols \<or> dk_pixels dk = None \<Longrightarrow>
     gxfp_fpn_correct (Some px) rows cols (Some dk) = Some (- EINVAL, Some px)"
  by (auto simp: gxfp_fpn_correct_def Let_def)

text \<open>On a well-formed image the correction always returns: it succeeds, or the dark frame has another size.\<close>

lemma fpn_correct_total:
  assumes "0 < rows" "0 < cols" "length px = nat rows * nat cols"
    and "dark_fits (dk_rows dk) (dk_cols dk) (Some dk)"
  obtains r out where "gxfp_fpn_correct (Some px) rows cols (Some dk) = Some (r, Some out)" "length out = length px" "r = 0 \<or> r = - EINVAL"
proof (cases "dk_rows dk = rows \<and> dk_cols dk = cols")
  case True
  then obtain out where "gxfp_fpn_correct (Some px) rows cols (Some dk) = Some (0, Some out)"
    "stretched_to (nat rows) (nat cols) (base_level px (Option.bind (Some dk) dk_pixels)) out"
    using fpn_correct_ok [OF assms(1-3), of "Some dk"] assms(4) by auto
  then show thesis using that assms(3) by (simp add: stretched_to_def)
next
  case False
  then show thesis by (intro that [OF fpn_correct_errors(3)]) auto
qed

text \<open>C35: The correction of the fixed pattern is the linear stretch it means to be. For an image of any size and a
  dark frame of the same size, or none, the correction succeeds and touches no memory outside the two arrays. With
  \<open>lo\<close> and \<open>hi\<close> the least and greatest level of the pixels inside the border after the subtraction, every output pixel
  has at most twelve bits and is the exact stretch of its level, rounded to an integer (the double arithmetic adds at
  most $2^{-38}$); levels at \<open>lo\<close> and \<open>hi\<close> become exactly 0 and 4095 and the order of brightness is kept. A flat image
  is only subtracted.\<close>

theorem fpn_correct_stretches:
  assumes "0 < rows" "0 < cols" "length px = nat rows * nat cols" "dark_fits rows cols dark"
  shows "\<exists>out. gxfp_fpn_correct (Some px) rows cols dark = Some (0, Some out) \<and>
    stretched_to (nat rows) (nat cols) (base_level px (Option.bind dark dk_pixels)) out"
  by (rule fpn_correct_ok [OF assms])

theorem fpn_correct_stretches_witness:
  "\<exists>out. gxfp_fpn_correct (Some [9, 9, 9, 9, 9, 5, 7, 9, 9, 9, 9, 9]) 3 4 (Some \<lparr>dk_pixels = Some (replicate 12 2), dk_rows = 3, dk_cols = 4\<rparr>) =
      Some (0, Some out) \<and>
    stretched_to (nat 3) (nat 4) (base_level [9, 9, 9, 9, 9, 5, 7, 9, 9, 9, 9, 9]
      (Option.bind (Some \<lparr>dk_pixels = Some (replicate 12 2), dk_rows = 3, dk_cols = 4\<rparr>) dk_pixels)) out"
  by (rule fpn_correct_stretches) (simp_all add: dark_fits_def)

end
