(* ===== verification/Session.thy ===== *)
theory Session
  imports Tls_Service Fdt_Flow Image_Fpn Sensor_Cfg
begin

unbundle bit_operations_syntax

text \<open>
  The session (\<open>userspace/src/flow/session.c\<close>, \<open>session_internal.h\<close>): opening the sensor, activating
  it (TLS, waiting for the finger to be off, the dark frame), waiting for a finger, capturing, and the
  events every operation reports to the driver above.

  The public functions take the session and the events as pointers that may be null; the static ones
  are only called with an existing implementation and events and take these directly. The texts of
  error messages and the log stream are not modelled. Loops and calls that wait for the device are in
  the option type; \<open>None\<close> would be a call that never returns.
\<close>

section \<open>Definitions\<close>

datatype gxfp_session_mode =
    GXFP_MODE_CLOSED | GXFP_MODE_READY | GXFP_MODE_ACTIVATING_TLS | GXFP_MODE_ACTIVATING_WAIT_UP
  | GXFP_MODE_ACTIVATING_DARK_CAPTURE | GXFP_MODE_IDLE | GXFP_MODE_WAIT_FINGER_ON | GXFP_MODE_CAPTURING
  | GXFP_MODE_WAIT_FINGER_OFF | GXFP_MODE_FAILED

datatype gxfp_session_state =
    GXFP_SESSION_STATE_INACTIVE | GXFP_SESSION_STATE_IDLE | GXFP_SESSION_STATE_AWAIT_FINGER_ON
  | GXFP_SESSION_STATE_CAPTURE | GXFP_SESSION_STATE_AWAIT_FINGER_OFF

datatype gxfp_session_error_target =
    GXFP_SESSION_ERR_TARGET_GENERIC | GXFP_SESSION_ERR_TARGET_ACTIVATE | GXFP_SESSION_ERR_TARGET_CAPTURE

record gxfp_session_events =
  ev_activate_complete :: bool
  ev_deactivate_complete :: bool
  ev_close_complete :: bool
  ev_session_error :: bool
  ev_finger_status_changed :: bool
  ev_finger_present :: bool
  ev_image_ready :: bool
  ev_request_tick :: bool
  ev_tick_delay_ms :: int
  ev_cancel_tick :: bool
  ev_error_code :: int
  ev_error_target :: gxfp_session_error_target

definition GXFP_SESSION_IO_IN :: u32 where "GXFP_SESSION_IO_IN = 1"
definition GXFP_SESSION_IO_ERR :: u32 where "GXFP_SESSION_IO_ERR = 8"
definition GXFP_SESSION_IO_HUP :: u32 where "GXFP_SESSION_IO_HUP = 16"
definition GXFP_SESSION_IO_NVAL :: u32 where "GXFP_SESSION_IO_NVAL = 32"

record gxfp_session_impl =
  ss_dev :: udev
  ss_svc :: gxfp_tls_service
  ss_fdt :: gxfp_fdt_flow
  ss_psk :: ptr
  ss_psk_len :: nat
  ss_tap_io_buf :: ptr
  ss_tap_io_cap :: nat
  ss_mode :: gxfp_session_mode
  ss_dark :: gxfp_fpn_dark
  ss_dark_loaded :: bool
  ss_pending_img :: gxfp_decoded_image
  ss_pending_img_ready :: bool
  ss_otp_tcode :: u16
  ss_otp_fdt_delta :: u16
  ss_otp_has_tcode_delta :: bool

record gxfp_session =
  se_impl :: "gxfp_session_impl option"

datatype gxfp_cleanup_goal = GXFP_CLEANUP_DEACTIVATE | GXFP_CLEANUP_CLOSE

text \<open>Zeroed memory, as \<open>calloc\<close> and \<open>memset\<close> leave it.\<close>

definition image_zero :: gxfp_decoded_image where
  "image_zero = \<lparr>im_pixels = None, im_rows = 0, im_cols = 0\<rparr>"

definition fdt_flow_zero :: gxfp_fdt_flow where
  "fdt_flow_zero = \<lparr>ff_cmd = fdt_state_zero, ff_mode = GXFP_FDT_MODE_IDLE, ff_state = GXFP_FDT_STATE_UNKNOWN,
     ff_last_status = 0, ff_armed_up_table = zeros 24, ff_last_good_up_table = zeros 24, ff_last_good_up_valid = False,
     ff_wait_up_retries = 0, ff_wait_up_armed_ms = 0\<rparr>"

definition session_zero :: gxfp_session_impl where
  "session_zero = \<lparr>ss_dev = \<lparr>ud_fd = 0\<rparr>, ss_svc = \<lparr>sv_impl = None\<rparr>, ss_fdt = fdt_flow_zero, ss_psk = None, ss_psk_len = 0,
     ss_tap_io_buf = None, ss_tap_io_cap = 0, ss_mode = GXFP_MODE_CLOSED,
     ss_dark = \<lparr>dk_pixels = None, dk_rows = 0, dk_cols = 0\<rparr>, ss_dark_loaded = False, ss_pending_img = image_zero,
     ss_pending_img_ready = False, ss_otp_tcode = 0, ss_otp_fdt_delta = 0, ss_otp_has_tcode_delta = False\<rparr>"

text \<open>\<open>sizeof (struct gxfp_session_impl)\<close> on a 64-bit machine.\<close>

definition SESSION_IMPL_SIZE :: nat where "SESSION_IMPL_SIZE = 288"

definition session_ensure_impl :: "uenv \<Rightarrow> gxfp_session option \<Rightarrow> uhist \<Rightarrow> (int \<times> gxfp_session option) \<times> uhist" where
  "session_ensure_impl env s h =
    (case s of
       None \<Rightarrow> ((- EINVAL, s), h)
     | Some ss \<Rightarrow>
         if se_impl ss \<noteq> None then ((0, s), h)
         else
           (case malloc env SESSION_IMPL_SIZE h of
              (None, h) \<Rightarrow> ((- ENOMEM, s), h)
            | (Some _, h) \<Rightarrow>
                ((0, Some (ss\<lparr>se_impl := Some (session_zero\<lparr>ss_fdt := the (gxfp_fdt_flow_init (Some (ss_fdt session_zero))),
                    ss_mode := GXFP_MODE_CLOSED\<rparr>)\<rparr>)), h)))"

definition gxfp_session_mode_has_io :: "gxfp_session_impl \<Rightarrow> bool" where
  "gxfp_session_mode_has_io s \<longleftrightarrow> ss_mode s \<noteq> GXFP_MODE_CLOSED"

definition session_set_error ::
  "uenv \<Rightarrow> gxfp_session_impl \<Rightarrow> gxfp_session_events \<Rightarrow> int \<Rightarrow> gxfp_session_error_target \<Rightarrow> uhist \<Rightarrow>
     ((gxfp_session_impl \<times> gxfp_session_events) \<times> uhist) option" where
  "session_set_error env s evs err target h = do {
     let evs = evs\<lparr>ev_session_error := True, ev_error_code := err, ev_error_target := target\<rparr>;
     h \<leftarrow> (if err \<noteq> - ECANCELED \<and>
               (target = GXFP_SESSION_ERR_TARGET_GENERIC \<or> target = GXFP_SESSION_ERR_TARGET_ACTIVATE) \<and> gxfp_session_mode_has_io s
            then do { (r, h) \<leftarrow> gxfp_device_recovery env (Some (ss_dev s)) True True False h; Some h }
            else Some h);
     Some ((s\<lparr>ss_mode := GXFP_MODE_FAILED\<rparr>, evs), h) }"

definition gxfp_session_stop_run :: "gxfp_session_impl \<Rightarrow> gxfp_session_impl" where
  "gxfp_session_stop_run s = (if ss_mode s \<noteq> GXFP_MODE_CLOSED then s\<lparr>ss_mode := GXFP_MODE_READY\<rparr> else s)"

definition session_reset_buffers :: "gxfp_session_impl \<Rightarrow> uhist \<Rightarrow> gxfp_session_impl \<times> uhist" where
  "session_reset_buffers s h =
    (case (if ss_dark_loaded s
           then (case gxfp_fpn_free (Some (ss_dark s)) h of (dk, h) \<Rightarrow> (s\<lparr>ss_dark := the dk, ss_dark_loaded := False\<rparr>, h))
           else (s, h)) of
       (s, h) \<Rightarrow>
         if ss_pending_img_ready s
         then (case gxfp_decoded_image_free (Some (ss_pending_img s)) h of
                 (im, h) \<Rightarrow> (s\<lparr>ss_pending_img := the im, ss_pending_img_ready := False\<rparr>, h))
         else (s, h))"

text \<open>The cast to \<open>int16_t\<close> keeps the sixteen bits.\<close>

definition session_apply_fdt_runtime_from_otp :: "gxfp_session_impl \<Rightarrow> gxfp_session_impl" where
  "session_apply_fdt_runtime_from_otp s =
    (let fdt_delta = (if ss_otp_has_tcode_delta s then ss_otp_fdt_delta s else 0)
     in s\<lparr>ss_fdt := (ss_fdt s)\<lparr>ff_cmd := the (gxfp_cmd_fdt_state_set_runtime (Some (ff_cmd (ss_fdt s))) 0 0 0 fdt_delta)\<rparr>\<rparr>)"

definition gxfp_session_reset_runtime :: "gxfp_session_impl \<Rightarrow> uhist \<Rightarrow> gxfp_session_impl \<times> uhist" where
  "gxfp_session_reset_runtime s h =
    (let h = (if gxfp_session_mode_has_io s
              then snd (gxfp_dev_close (Some (ss_dev s)) (snd (gxfp_tls_service_free (Some (ss_svc s)) h))) else h);
         s = s\<lparr>ss_dev := \<lparr>ud_fd = 0\<rparr>, ss_svc := \<lparr>sv_impl = None\<rparr>, ss_fdt := the (gxfp_fdt_flow_init (Some (ss_fdt s))),
               ss_otp_tcode := 0, ss_otp_fdt_delta := 0, ss_otp_has_tcode_delta := False\<rparr>;
         s = session_apply_fdt_runtime_from_otp s;
         h = ufree_ptr (ss_psk s) h;
         s = s\<lparr>ss_psk := None, ss_psk_len := 0\<rparr>
     in (case session_reset_buffers s h of (s, h) \<Rightarrow> (s\<lparr>ss_mode := GXFP_MODE_CLOSED\<rparr>, h)))"

definition session_apply_milanl_cfg ::
  "uenv \<Rightarrow> gxfp_session_impl \<Rightarrow> uhist \<Rightarrow> ((int \<times> gxfp_session_impl) \<times> uhist) option" where
  "session_apply_milanl_cfg env s h = do {
     ((r, otp, otp_len), h) \<leftarrow> gxfp_cmd_read_otp env (Some (ss_dev s)) (Some (ufresh env h 256)) 256 h;
     if r < 0 then Some ((r, s), h)
     else (case gxfp_milanl_parse_otp otp (unat otp_len) (Some otp_cfg_zero) of
             (r, otp_cfg) \<Rightarrow>
               if r < 0 then Some ((r, s), h)
               else (case gxfp_milanl_get_default_cfg_template of
                       (r, template_data, template_len) \<Rightarrow>
                         if r < 0 then Some ((r, s), h)
                         else (case gxfp_milanl_prepare_cfg_blob (Some template_data) template_len
                                      (Some (ufresh env h GXFP_MILANL_CFG_LEN)) GXFP_MILANL_CFG_LEN of
                                 (cfg_blob_len, cfg_blob) \<Rightarrow>
                                   if cfg_blob_len < 0 then Some ((cfg_blob_len, s), h)
                                   else do {
                                     (r, cfg_blob) \<leftarrow> gxfp_milanl_apply_otp_patch cfg_blob (nat cfg_blob_len) otp_cfg;
                                     if r < 0 then Some ((r, s), h)
                                     else do {
                                       ((r, ack_status), h) \<leftarrow> gxfp_cmd_upload_config_mcu_u env (Some (ss_dev s)) cfg_blob
                                          (of_int cfg_blob_len) h;
                                       if r < 0 then Some ((r, s), h)
                                       else Some ((0, session_apply_fdt_runtime_from_otp
                                              (s\<lparr>ss_otp_tcode := oc_tcode (the otp_cfg), ss_otp_fdt_delta := oc_fdt_delta (the otp_cfg),
                                                 ss_otp_has_tcode_delta := oc_has_tcode_delta (the otp_cfg)\<rparr>)), h) } }))) }"

definition session_begin_cleanup ::
  "uenv \<Rightarrow> gxfp_session_impl \<Rightarrow> gxfp_cleanup_goal \<Rightarrow> bool \<Rightarrow> gxfp_session_events \<Rightarrow> uhist \<Rightarrow>
     ((gxfp_session_impl \<times> gxfp_session_events) \<times> uhist) option" where
  "session_begin_cleanup env s goal reset_mcu evs h =
    (let s = gxfp_session_stop_run s;
         evs = evs\<lparr>ev_cancel_tick := True\<rparr>
     in if \<not> gxfp_session_mode_has_io s then
          (if goal = GXFP_CLEANUP_CLOSE then Some ((s, evs\<lparr>ev_close_complete := True\<rparr>), h)
           else Some ((s, evs\<lparr>ev_deactivate_complete := True\<rparr>), h))
        else if goal = GXFP_CLEANUP_DEACTIVATE then
          Some ((s\<lparr>ss_mode := GXFP_MODE_READY\<rparr>, evs\<lparr>ev_deactivate_complete := True\<rparr>), h)
        else do {
          h \<leftarrow> (if reset_mcu then do { (r, h) \<leftarrow> gxfp_device_recovery env (Some (ss_dev s)) True True False h; Some h } else Some h);
          (case gxfp_session_reset_runtime s h of (s, h) \<Rightarrow> Some ((s, evs\<lparr>ev_close_complete := True\<rparr>), h)) })"

definition session_ensure_tap_io_buffer :: "uenv \<Rightarrow> gxfp_session_impl \<Rightarrow> uhist \<Rightarrow> (int \<times> gxfp_session_impl) \<times> uhist" where
  "session_ensure_tap_io_buffer env s h =
    (if ss_tap_io_buf s \<noteq> None then ((0, s), h)
     else
       let cap = TAP_HDR_SIZE + GXFP_IOCTL_TAP_PAYLOAD_MAX
       in (case malloc env cap h of
             (None, h) \<Rightarrow> ((- ENOMEM, s), h)
           | (Some b, h) \<Rightarrow> ((0, s\<lparr>ss_tap_io_buf := Some b, ss_tap_io_cap := cap\<rparr>), h)))"

definition session_set_fdt_mode ::
  "uenv \<Rightarrow> gxfp_session_impl \<Rightarrow> gxfp_session_events \<Rightarrow> gxfp_fdt_mode \<Rightarrow> uhist \<Rightarrow>
     ((gxfp_session_impl \<times> gxfp_session_events) \<times> uhist) option" where
  "session_set_fdt_mode env s evs mode h =
    (if \<not> gxfp_session_mode_has_io s then Some ((s, evs), h)
     else
       (case gxfp_fdt_flow_set_mode env (Some (ss_fdt s)) (Some (ss_dev s)) mode h of
          ((r, fdt), h) \<Rightarrow>
            let s = s\<lparr>ss_fdt := the fdt\<rparr>
            in if r < 0 then session_set_error env s evs r GXFP_SESSION_ERR_TARGET_GENERIC h else Some ((s, evs), h)))"

definition session_tls_init :: "uenv \<Rightarrow> tlslib \<Rightarrow> gxfp_session_impl \<Rightarrow> uhist \<Rightarrow> (int \<times> gxfp_session_impl) \<times> uhist" where
  "session_tls_init env lib s h =
    (case gxfp_tls_service_init env lib (Some (ss_svc s)) (Some (ss_dev s))
            (Some \<lparr>hc_timeout_ms = 20000, hc_manual_pending_request = True\<rparr>) (ss_psk s) (ss_psk_len s) h of
       ((r, svc), h) \<Rightarrow> ((r, s\<lparr>ss_svc := the svc\<rparr>), h))"

definition session_rearm_tls_if_needed ::
  "uenv \<Rightarrow> tlslib \<Rightarrow> gxfp_session_impl \<Rightarrow> gxfp_session_events \<Rightarrow> uhist \<Rightarrow>
     ((gxfp_session_impl \<times> gxfp_session_events) \<times> uhist) option" where
  "session_rearm_tls_if_needed env lib s evs h =
    (let st = gxfp_tls_service_state (Some (ss_svc s))
     in if st = GXFP_TLS_HS_INIT \<or> st = GXFP_TLS_HS_CONNECTING then Some ((s, evs), h)
        else if st = GXFP_TLS_HS_CONNECTED \<or> st = GXFP_TLS_HS_CAPTURING \<or> st = GXFP_TLS_HS_DONE then Some ((s, evs), h)
        else
          (case gxfp_tls_service_free (Some (ss_svc s)) h of
             (svc, h) \<Rightarrow>
               let s = s\<lparr>ss_svc := the svc\<rparr>;
                   h = snd (gxfp_dev_flush_rxq env (Some (ss_dev s)) h)
               in (case session_tls_init env lib s h of
                     ((r, s), h) \<Rightarrow>
                       if r < 0 then session_set_error env s evs r GXFP_SESSION_ERR_TARGET_ACTIVATE h else Some ((s, evs), h))))"

definition session_set_dark_from_image ::
  "uenv \<Rightarrow> gxfp_session_impl \<Rightarrow> gxfp_decoded_image \<Rightarrow> uhist \<Rightarrow> (int \<times> gxfp_session_impl) \<times> uhist" where
  "session_set_dark_from_image env s img h =
    (case im_pixels img of
       None \<Rightarrow> ((- EINVAL, s), h)
     | Some px \<Rightarrow>
         if im_rows img \<le> 0 \<or> im_cols img \<le> 0 then ((- EINVAL, s), h)
         else
           let count = nat (im_rows img) * nat (im_cols img)
           in (case malloc16 env count h of
                 (None, h) \<Rightarrow> ((- ENOMEM, s), h)
               | (Some pixels, h) \<Rightarrow>
                   let pixels = memcpy_at pixels 0 (take count px);
                       h = (if ss_dark_loaded s then snd (gxfp_fpn_free (Some (ss_dark s)) h) else h)
                   in ((0, s\<lparr>ss_dark := \<lparr>dk_pixels = Some pixels, dk_rows = im_rows img, dk_cols = im_cols img\<rparr>,
                            ss_dark_loaded := True\<rparr>), h)))"

subsection \<open>Opening and closing\<close>

definition events_zero :: gxfp_session_events where
  "events_zero = \<lparr>ev_activate_complete = False, ev_deactivate_complete = False, ev_close_complete = False, ev_session_error = False,
     ev_finger_status_changed = False, ev_finger_present = False, ev_image_ready = False, ev_request_tick = False,
     ev_tick_delay_ms = 0, ev_cancel_tick = False, ev_error_code = 0, ev_error_target = GXFP_SESSION_ERR_TARGET_GENERIC\<rparr>"

definition gxfp_session_events_clear :: "gxfp_session_events option \<Rightarrow> gxfp_session_events option" where
  "gxfp_session_events_clear evs = map_option (\<lambda>_. events_zero\<lparr>ev_error_target := GXFP_SESSION_ERR_TARGET_GENERIC\<rparr>) evs"

definition gxfp_session_init :: "uenv \<Rightarrow> gxfp_session option \<Rightarrow> uhist \<Rightarrow> gxfp_session option \<times> uhist" where
  "gxfp_session_init env s h =
    (case s of
       None \<Rightarrow> (None, h)
     | Some _ \<Rightarrow> (case session_ensure_impl env (Some \<lparr>se_impl = None\<rparr>) h of ((r, s), h) \<Rightarrow> (s, h)))"

definition gxfp_session_dispose :: "gxfp_session option \<Rightarrow> uhist \<Rightarrow> gxfp_session option \<times> uhist" where
  "gxfp_session_dispose s h =
    (case s of
       None \<Rightarrow> (None, h)
     | Some ss \<Rightarrow>
         (case se_impl ss of
            None \<Rightarrow> (s, h)
          | Some i \<Rightarrow>
              (case gxfp_session_reset_runtime i h of
                 (i, h) \<Rightarrow> (Some (ss\<lparr>se_impl := None\<rparr>), ufree (ufree_ptr (ss_tap_io_buf i) h)))))"

text \<open>What is left to do once the device is open and the buffer is there.\<close>

definition session_open_tail ::
  "uenv \<Rightarrow> tlslib \<Rightarrow> gxfp_session_impl \<Rightarrow> bytes \<Rightarrow> nat \<Rightarrow> uhist \<Rightarrow> (int \<times> gxfp_session_impl) \<times> uhist" where
  "session_open_tail env lib s key psk_len h =
    (let failed = (\<lambda>r s h. case gxfp_session_reset_runtime s h of (s, h) \<Rightarrow> ((r, s), h))
     in (case malloc env psk_len h of
           (None, h) \<Rightarrow> failed (- ENOMEM) (s\<lparr>ss_psk := None\<rparr>) h
         | (Some b, h) \<Rightarrow>
             let s = s\<lparr>ss_psk := Some (memcpy_at b 0 (take psk_len key)), ss_psk_len := psk_len\<rparr>
             in (case session_tls_init env lib s h of
                   ((r, s), h) \<Rightarrow>
                     if r < 0 then failed r s h
                     else
                       let s = session_apply_fdt_runtime_from_otp (s\<lparr>ss_fdt := the (gxfp_fdt_flow_init (Some (ss_fdt s)))\<rparr>)
                       in ((0, s\<lparr>ss_mode := GXFP_MODE_READY\<rparr>), h))))"

definition session_open_impl ::
  "uenv \<Rightarrow> tlslib \<Rightarrow> gxfp_session_impl \<Rightarrow> string \<Rightarrow> bytes \<Rightarrow> nat \<Rightarrow> uhist \<Rightarrow> ((int \<times> gxfp_session_impl) \<times> uhist) option" where
  "session_open_impl env lib s dev_path key psk_len h =
    (let failed = (\<lambda>r s h. case gxfp_session_reset_runtime s h of (s, h) \<Rightarrow> Some ((r, s), h))
     in (case gxfp_session_reset_runtime s h of
           (s, h) \<Rightarrow>
             (case gxfp_dev_open env (Some (ss_dev s)) (Some dev_path) (2 OR O_NONBLOCK) h of
                ((r, dev), h) \<Rightarrow>
                  let s = s\<lparr>ss_dev := the dev\<rparr>
                  in if r < 0 then Some ((r, s), h)
                     else
                       let s = s\<lparr>ss_mode := GXFP_MODE_READY\<rparr>
                       in (case session_ensure_tap_io_buffer env s h of
                             ((r, s), h) \<Rightarrow>
                               if r < 0 then failed r s h
                               else
                                 let h = snd (gxfp_dev_flush_rxq env (Some (ss_dev s)) h)
                                 in do {
                                   ((r, chip_id), h) \<leftarrow> gxfp_cmd_read_chip_id env (Some (ss_dev s)) (Some 0) h;
                                   ((r, s), h) \<leftarrow> (if r = 0 \<and> the chip_id = 0x2208 then session_apply_milanl_cfg env s h
                                                       else Some ((0, s), h));
                                   if r < 0 then failed r s h
                                   else Some (session_open_tail env lib s key psk_len h) }))))"

definition gxfp_session_open ::
  "uenv \<Rightarrow> tlslib \<Rightarrow> gxfp_session option \<Rightarrow> string option \<Rightarrow> ptr \<Rightarrow> nat \<Rightarrow> uhist \<Rightarrow>
     ((int \<times> gxfp_session option) \<times> uhist) option" where
  "gxfp_session_open env lib s dev_path psk psk_len h =
    (case (s, dev_path, psk) of
       (Some ss, Some path, Some key) \<Rightarrow>
         if psk_len = 0 then Some ((- EINVAL, s), h)
         else
           (case session_ensure_impl env s h of
              ((r, s), h) \<Rightarrow>
                if r < 0 then Some ((r, s), h)
                else do {
                  ((r, i), h) \<leftarrow> session_open_impl env lib (the (se_impl (the s))) path key psk_len h;
                  Some ((r, Some (ss\<lparr>se_impl := Some i\<rparr>)), h) })
     | _ \<Rightarrow> Some ((- EINVAL, s), h))"

text \<open>The guard of the functions that report events: nothing happens without a session, its implementation and events.\<close>

definition with_impl ::
  "gxfp_session option \<Rightarrow> gxfp_session_events option \<Rightarrow> uhist \<Rightarrow>
     (gxfp_session_impl \<Rightarrow> gxfp_session_events \<Rightarrow> uhist \<Rightarrow> ((gxfp_session_impl \<times> gxfp_session_events) \<times> uhist) option) \<Rightarrow>
     ((gxfp_session option \<times> gxfp_session_events option) \<times> uhist) option" where
  "with_impl s evs h f =
    (case (s, evs) of
       (Some ss, Some e) \<Rightarrow>
         (case se_impl ss of
            None \<Rightarrow> Some ((s, evs), h)
          | Some i \<Rightarrow> do { ((i, e), h) \<leftarrow> f i e h; Some ((Some (ss\<lparr>se_impl := Some i\<rparr>), Some e), h) })
     | _ \<Rightarrow> Some ((s, evs), h))"

definition gxfp_session_request_close ::
  "uenv \<Rightarrow> gxfp_session option \<Rightarrow> bool \<Rightarrow> gxfp_session_events option \<Rightarrow> uhist \<Rightarrow>
     ((gxfp_session option \<times> gxfp_session_events option) \<times> uhist) option" where
  "gxfp_session_request_close env s reset_mcu evs h =
    with_impl s evs h (\<lambda>i e. session_begin_cleanup env i GXFP_CLEANUP_CLOSE reset_mcu e)"

definition gxfp_session_request_deactivate ::
  "uenv \<Rightarrow> gxfp_session option \<Rightarrow> gxfp_session_events option \<Rightarrow> uhist \<Rightarrow>
     ((gxfp_session option \<times> gxfp_session_events option) \<times> uhist) option" where
  "gxfp_session_request_deactivate env s evs h =
    with_impl s evs h (\<lambda>i e. session_begin_cleanup env i GXFP_CLEANUP_DEACTIVATE False e)"

subsection \<open>Activation\<close>

definition session_activate_impl ::
  "uenv \<Rightarrow> tlslib \<Rightarrow> gxfp_session_impl \<Rightarrow> gxfp_session_events \<Rightarrow> uhist \<Rightarrow>
     ((int \<times> gxfp_session_impl \<times> gxfp_session_events) \<times> uhist) option" where
  "session_activate_impl env lib s evs h =
    (if \<not> gxfp_session_mode_has_io s then Some ((- EINVAL, s, evs), h)
     else do {
       let s = (if ss_mode s = GXFP_MODE_FAILED then s\<lparr>ss_mode := GXFP_MODE_READY\<rparr> else s);
       ((s, evs), h) \<leftarrow> session_rearm_tls_if_needed env lib s evs h;
       if ev_session_error evs then Some ((if ev_error_code evs \<noteq> 0 then ev_error_code evs else - EIO, s, evs), h)
       else
         let s = session_apply_fdt_runtime_from_otp (s\<lparr>ss_fdt := the (gxfp_fdt_flow_init (Some (ss_fdt s)))\<rparr>)
         in Some ((0, s\<lparr>ss_mode := GXFP_MODE_ACTIVATING_TLS\<rparr>, evs\<lparr>ev_request_tick := True, ev_tick_delay_ms := 0\<rparr>), h) })"

definition gxfp_session_activate ::
  "uenv \<Rightarrow> tlslib \<Rightarrow> gxfp_session option \<Rightarrow> gxfp_session_events option \<Rightarrow> uhist \<Rightarrow>
     ((int \<times> gxfp_session option \<times> gxfp_session_events option) \<times> uhist) option" where
  "gxfp_session_activate env lib s evs h =
    (case (s, evs) of
       (Some ss, Some e) \<Rightarrow>
         (case se_impl ss of
            None \<Rightarrow> Some ((- EINVAL, s, evs), h)
          | Some i \<Rightarrow> do {
              ((r, i, e), h) \<leftarrow> session_activate_impl env lib i e h;
              Some ((r, Some (ss\<lparr>se_impl := Some i\<rparr>), Some e), h) })
     | _ \<Rightarrow> Some ((- EINVAL, s, evs), h))"

definition session_maybe_finish_activation ::
  "uenv \<Rightarrow> gxfp_session_impl \<Rightarrow> gxfp_session_events \<Rightarrow> uhist \<Rightarrow> ((gxfp_session_impl \<times> gxfp_session_events) \<times> uhist) option" where
  "session_maybe_finish_activation env s evs h =
    (if ss_mode s \<noteq> GXFP_MODE_ACTIVATING_TLS then Some ((s, evs), h)
     else
       let st = gxfp_tls_service_state (Some (ss_svc s))
       in if st \<noteq> GXFP_TLS_HS_CONNECTED \<and> st \<noteq> GXFP_TLS_HS_DONE then Some ((s, evs), h)
          else do {
            ((s, evs), h) \<leftarrow> session_set_fdt_mode env s evs GXFP_FDT_MODE_WAIT_UP h;
            if ev_session_error evs then Some ((s, evs), h)
            else Some ((s\<lparr>ss_mode := GXFP_MODE_ACTIVATING_WAIT_UP\<rparr>, evs\<lparr>ev_request_tick := True, ev_tick_delay_ms := 0\<rparr>), h) })"

subsection \<open>The end of a capture\<close>

text \<open>What happens with a decoded image: the dark frame in activation, a corrected image otherwise.\<close>

definition session_accept_dark ::
  "uenv \<Rightarrow> gxfp_session_impl \<Rightarrow> gxfp_session_events \<Rightarrow> gxfp_decoded_image \<Rightarrow> uhist \<Rightarrow>
     ((gxfp_session_impl \<times> gxfp_session_events) \<times> uhist) option" where
  "session_accept_dark env s evs img h =
    (case session_set_dark_from_image env s img h of
       ((r, s), h) \<Rightarrow>
         let h = snd (gxfp_decoded_image_free (Some img) h)
         in if r < 0 then session_set_error env s evs r GXFP_SESSION_ERR_TARGET_ACTIVATE h
            else do {
              ((s, evs), h) \<leftarrow> session_set_fdt_mode env s evs GXFP_FDT_MODE_IDLE h;
              if ev_session_error evs then Some ((s, evs), h)
              else Some ((s\<lparr>ss_mode := GXFP_MODE_IDLE\<rparr>, evs\<lparr>ev_activate_complete := True\<rparr>), h) })"

definition session_accept_image ::
  "uenv \<Rightarrow> gxfp_session_impl \<Rightarrow> gxfp_session_events \<Rightarrow> gxfp_decoded_image \<Rightarrow> uhist \<Rightarrow>
     ((gxfp_session_impl \<times> gxfp_session_events) \<times> uhist) option" where
  "session_accept_image env s evs img h = do {
     (r, pixels) \<leftarrow> (if ss_dark_loaded s then gxfp_fpn_correct (im_pixels img) (im_rows img) (im_cols img) (Some (ss_dark s))
                      else Some (0, im_pixels img));
     let img = img\<lparr>im_pixels := pixels\<rparr>;
     if r < 0 then session_set_error env s evs r GXFP_SESSION_ERR_TARGET_CAPTURE (snd (gxfp_decoded_image_free (Some img) h))
     else
       let h = (if ss_pending_img_ready s then snd (gxfp_decoded_image_free (Some (ss_pending_img s)) h) else h)
       in Some ((s\<lparr>ss_pending_img := img, ss_pending_img_ready := True, ss_mode := GXFP_MODE_IDLE\<rparr>, evs\<lparr>ev_image_ready := True\<rparr>), h) }"

definition session_finalize_capture ::
  "uenv \<Rightarrow> gxfp_session_impl \<Rightarrow> gxfp_session_events \<Rightarrow> gxfp_session_error_target \<Rightarrow> uhist \<Rightarrow>
     ((gxfp_session_impl \<times> gxfp_session_events) \<times> uhist) option" where
  "session_finalize_capture env s evs target h =
    (if gxfp_tls_service_state (Some (ss_svc s)) \<noteq> GXFP_TLS_HS_DONE then Some ((s, evs), h)
     else
       (case gxfp_tls_service_get_raw_image env (Some (ss_svc s)) (Some (ufresh env h 5)) True h of
          ((r, svc, hdr, body), h) \<Rightarrow>
            let s = s\<lparr>ss_svc := the svc\<rparr>
            in if r \<le> 0 then session_set_error env s evs (if r < 0 then r else - EIO) target h
               else do {
                 ((r, img), h) \<leftarrow> gxfp_decode_image env (fst (the body)) (snd (the body)) GXFP_DECODE_AUTO (Some image_zero) h;
                 let h = ufree_ptr (fst (the body)) h;
                 if r < 0 then session_set_error env s evs r target h
                 else if ss_mode s = GXFP_MODE_ACTIVATING_DARK_CAPTURE then session_accept_dark env s evs (the img) h
                 else session_accept_image env s evs (the img) h }))"

subsection \<open>Ticks\<close>

text \<open>The loop of at most 64 steps, \<open>i\<close> counting up.\<close>

fun poll_tls_loop ::
  "uenv \<Rightarrow> tlslib \<Rightarrow> nat \<Rightarrow> nat \<Rightarrow> gxfp_session_impl \<Rightarrow> gxfp_session_events \<Rightarrow> uhist \<Rightarrow>
     ((gxfp_session_impl \<times> gxfp_session_events) \<times> uhist) option" where
  "poll_tls_loop env lib i 0 s evs h = Some ((s, evs), h)"
| "poll_tls_loop env lib i (Suc n) s evs h =
    (case gxfp_tls_service_step env lib (Some (ss_svc s)) h of
       None \<Rightarrow> None
     | Some ((r, svc), h) \<Rightarrow>
         let s = s\<lparr>ss_svc := the svc\<rparr>
         in if r = - EAGAIN \<or> r = 1 then Some ((s, evs), h)
            else if r < 0 then session_set_error env s evs r GXFP_SESSION_ERR_TARGET_GENERIC h
            else
              let evs = (if i = 63 then evs\<lparr>ev_request_tick := True, ev_tick_delay_ms := 0\<rparr> else evs)
              in poll_tls_loop env lib (Suc i) n s evs h)"

definition session_poll_tls ::
  "uenv \<Rightarrow> tlslib \<Rightarrow> gxfp_session_impl \<Rightarrow> gxfp_session_events \<Rightarrow> uhist \<Rightarrow>
     ((gxfp_session_impl \<times> gxfp_session_events) \<times> uhist) option" where
  "session_poll_tls env lib s evs h = poll_tls_loop env lib 0 64 s evs h"

text \<open>The requests for another tick at the end of a pump.\<close>

definition pump_ticks :: "gxfp_session_impl \<Rightarrow> gxfp_session_events \<Rightarrow> gxfp_session_events" where
  "pump_ticks s evs =
    (let st = gxfp_tls_service_state (Some (ss_svc s));
         tick = (\<lambda>b evs. if b then evs\<lparr>ev_request_tick := True, ev_tick_delay_ms := 20\<rparr> else evs)
     in tick (ss_mode s = GXFP_MODE_WAIT_FINGER_ON \<or> ss_mode s = GXFP_MODE_WAIT_FINGER_OFF \<or> ss_mode s = GXFP_MODE_ACTIVATING_WAIT_UP)
          (tick ((ss_mode s = GXFP_MODE_ACTIVATING_DARK_CAPTURE \<or> ss_mode s = GXFP_MODE_CAPTURING) \<and>
                 st \<noteq> GXFP_TLS_HS_DONE \<and> st \<noteq> GXFP_TLS_HS_ERROR)
            (tick (ss_mode s = GXFP_MODE_ACTIVATING_TLS \<and> st \<noteq> GXFP_TLS_HS_CONNECTED \<and> st \<noteq> GXFP_TLS_HS_ERROR) evs)))"

text \<open>The poll of the finger detection inside a pump.\<close>

definition pump_fdt ::
  "uenv \<Rightarrow> gxfp_session_impl \<Rightarrow> gxfp_session_events \<Rightarrow> uhist \<Rightarrow>
     ((bool \<times> gxfp_session_impl \<times> gxfp_session_events) \<times> uhist) option" where
  "pump_fdt env s evs h =
    (if ss_mode s = GXFP_MODE_WAIT_FINGER_OFF \<or> ss_mode s = GXFP_MODE_ACTIVATING_WAIT_UP then
       (case gxfp_monotonic_ms env h of
          (now, h) \<Rightarrow>
            (case gxfp_fdt_flow_poll env (Some (ss_fdt s)) (Some (ss_dev s)) now h of
               ((r, fdt), h) \<Rightarrow>
                 let s = s\<lparr>ss_fdt := the fdt\<rparr>
                 in if r < 0 then do {
                      ((s, evs), h) \<leftarrow> session_set_error env s evs r GXFP_SESSION_ERR_TARGET_GENERIC h;
                      Some ((False, s, evs), h) }
                    else Some ((True, s, evs), h)))
     else Some ((True, s, evs), h))"

text \<open>The end of a pump.\<close>

definition pump_capture ::
  "uenv \<Rightarrow> gxfp_session_impl \<Rightarrow> gxfp_session_events \<Rightarrow> uhist \<Rightarrow> ((gxfp_session_impl \<times> gxfp_session_events) \<times> uhist) option" where
  "pump_capture env s evs h = do {
     ((s, evs), h) \<leftarrow>
       (if ss_mode s = GXFP_MODE_ACTIVATING_DARK_CAPTURE \<or> ss_mode s = GXFP_MODE_CAPTURING
        then session_finalize_capture env s evs
               (if ss_mode s = GXFP_MODE_CAPTURING then GXFP_SESSION_ERR_TARGET_CAPTURE else GXFP_SESSION_ERR_TARGET_ACTIVATE) h
        else Some ((s, evs), h));
     Some ((s, pump_ticks s evs), h) }"

definition session_pump_impl ::
  "uenv \<Rightarrow> tlslib \<Rightarrow> bool \<Rightarrow> gxfp_session_impl \<Rightarrow> gxfp_session_events \<Rightarrow> uhist \<Rightarrow>
     ((gxfp_session_impl \<times> gxfp_session_events) \<times> uhist) option" where
  "session_pump_impl env lib action_cancelled s evs h =
    (if ss_mode s = GXFP_MODE_CLOSED \<or> ss_mode s = GXFP_MODE_READY \<or> ss_mode s = GXFP_MODE_FAILED then Some ((s, evs), h)
     else if action_cancelled \<and>
       (ss_mode s = GXFP_MODE_ACTIVATING_TLS \<or> ss_mode s = GXFP_MODE_ACTIVATING_WAIT_UP \<or>
        ss_mode s = GXFP_MODE_ACTIVATING_DARK_CAPTURE \<or> ss_mode s = GXFP_MODE_CAPTURING) then do {
       ((s, evs), h) \<leftarrow> session_set_error env s evs (- ECANCELED)
          (if ss_mode s \<noteq> GXFP_MODE_CAPTURING then GXFP_SESSION_ERR_TARGET_ACTIVATE else GXFP_SESSION_ERR_TARGET_CAPTURE) h;
       Some ((s, evs\<lparr>ev_cancel_tick := True\<rparr>), h) }
     else do {
       ((s, evs), h) \<leftarrow> session_poll_tls env lib s evs h;
       if ev_session_error evs then Some ((s, evs), h)
       else do {
         ((s, evs), h) \<leftarrow> session_maybe_finish_activation env s evs h;
         if ev_session_error evs then Some ((s, evs), h)
         else do {
           ((go, s, evs), h) \<leftarrow> pump_fdt env s evs h;
           if \<not> go then Some ((s, evs), h) else pump_capture env s evs h } } })"

definition gxfp_session_pump ::
  "uenv \<Rightarrow> tlslib \<Rightarrow> gxfp_session option \<Rightarrow> bool \<Rightarrow> gxfp_session_events option \<Rightarrow> uhist \<Rightarrow>
     ((gxfp_session option \<times> gxfp_session_events option) \<times> uhist) option" where
  "gxfp_session_pump env lib s action_cancelled evs h = with_impl s evs h (session_pump_impl env lib action_cancelled)"

subsection \<open>Records from the device\<close>

text \<open>What a record does besides feeding the flow: the events of the finger and the request of the dark
  frame. The flag is false when the loop is left.\<close>

definition fd_finger_events ::
  "uenv \<Rightarrow> gxfp_session_impl \<Rightarrow> gxfp_session_events \<Rightarrow> u32 \<Rightarrow> uhist \<Rightarrow>
     ((bool \<times> gxfp_session_impl \<times> gxfp_session_events) \<times> uhist) option" where
  "fd_finger_events env s evs fdt_events h =
    (let evs = (if ss_mode s = GXFP_MODE_WAIT_FINGER_ON \<and> fdt_events AND GXFP_FDT_EVENT_DOWN \<noteq> 0
               then evs\<lparr>ev_finger_status_changed := True, ev_finger_present := True\<rparr> else evs);
         evs = (if ss_mode s = GXFP_MODE_WAIT_FINGER_OFF \<and> fdt_events AND GXFP_FDT_EVENT_UP \<noteq> 0
               then evs\<lparr>ev_finger_status_changed := True, ev_finger_present := False\<rparr> else evs)
     in if ss_mode s = GXFP_MODE_ACTIVATING_WAIT_UP \<and> fdt_events AND GXFP_FDT_EVENT_UP \<noteq> 0 then
          (case gxfp_tls_service_request_capture (Some (ss_svc s)) h of
             ((r, svc), h) \<Rightarrow>
               let s = s\<lparr>ss_svc := the svc\<rparr>
               in if r < 0 then do {
                    ((s, evs), h) \<leftarrow> session_set_error env s evs r GXFP_SESSION_ERR_TARGET_ACTIVATE h;
                    Some ((False, s, evs), h) }
                  else Some ((True, s\<lparr>ss_mode := GXFP_MODE_ACTIVATING_DARK_CAPTURE\<rparr>,
                           evs\<lparr>ev_request_tick := True, ev_tick_delay_ms := 0\<rparr>), h))
        else Some ((True, s, evs), h))"

text \<open>An error in the loop, and handing the record to the TLS service.\<close>

definition fd_failed ::
  "uenv \<Rightarrow> gxfp_session_impl \<Rightarrow> gxfp_session_events \<Rightarrow> int \<Rightarrow> uhist \<Rightarrow>
     ((bool \<times> gxfp_session_impl \<times> gxfp_session_events) \<times> uhist) option" where
  "fd_failed env s evs r h = do {
     ((s, evs), h) \<leftarrow> session_set_error env s evs r GXFP_SESSION_ERR_TARGET_GENERIC h;
     Some ((False, s, evs), h) }"

definition fd_feed_tls ::
  "uenv \<Rightarrow> gxfp_session_impl \<Rightarrow> gxfp_session_events \<Rightarrow> gxfp_tap_hdr \<Rightarrow> ptr \<Rightarrow> uhist \<Rightarrow>
     ((bool \<times> gxfp_session_impl \<times> gxfp_session_events) \<times> uhist) option" where
  "fd_feed_tls env s evs tap_hdr tap_payload h =
    (case gxfp_tls_service_feed_tap_record env (Some (ss_svc s)) tap_hdr tap_payload (unat (th_len tap_hdr)) h of
       ((r, svc), h) \<Rightarrow>
         let s = s\<lparr>ss_svc := the svc\<rparr>
         in if r < 0 then fd_failed env s evs r h else Some ((True, s, evs), h))"

text \<open>One round of the loop.\<close>

definition fd_round ::
  "uenv \<Rightarrow> gxfp_session_impl \<Rightarrow> gxfp_session_events \<Rightarrow> uhist \<Rightarrow>
     ((bool \<times> gxfp_session_impl \<times> gxfp_session_events) \<times> uhist) option" where
  "fd_round env s evs h =
    (if ss_tap_io_buf s = None \<or> ss_tap_io_cap s = 0 then fd_failed env s evs (- ENOMEM) h
     else
       (case gxfp_dev_read_record env (Some (ss_dev s)) (ss_tap_io_buf s) (ss_tap_io_cap s) h of
          ((n, buf, out), h) \<Rightarrow>
            let s = s\<lparr>ss_tap_io_buf := buf\<rparr>
            in if n < 0 then (if n = - EAGAIN then Some ((False, s, evs), h) else fd_failed env s evs n h)
               else if n = 0 then Some ((False, s, evs), h)
               else
                 (case the out of
                    (tap_hdr, tap_payload, _) \<Rightarrow>
                      (case gxfp_fdt_flow_feed_record env (Some (ss_fdt s)) (Some (ss_dev s)) (Some tap_hdr) tap_payload
                              (unat (th_len tap_hdr)) h of
                         ((r, fdt, fdt_events), h) \<Rightarrow>
                           let s = s\<lparr>ss_fdt := the fdt\<rparr>
                           in if r < 0 \<and> r \<noteq> - EAGAIN then fd_failed env s evs r h
                              else do {
                                ((go, s, evs), h) \<leftarrow> fd_finger_events env s evs fdt_events h;
                                if \<not> go then Some ((False, s, evs), h) else fd_feed_tls env s evs tap_hdr tap_payload h }))))"

partial_function (option) fd_loop ::
  "uenv \<Rightarrow> gxfp_session_impl \<Rightarrow> gxfp_session_events \<Rightarrow> uhist \<Rightarrow> ((gxfp_session_impl \<times> gxfp_session_events) \<times> uhist) option" where
  "fd_loop env s evs h =
    (case fd_round env s evs h of
       None \<Rightarrow> None
     | Some ((go, s, evs), h) \<Rightarrow> if go then fd_loop env s evs h else Some ((s, evs), h))"

definition session_on_fd_impl ::
  "uenv \<Rightarrow> tlslib \<Rightarrow> u32 \<Rightarrow> bool \<Rightarrow> gxfp_session_impl \<Rightarrow> gxfp_session_events \<Rightarrow> uhist \<Rightarrow>
     ((gxfp_session_impl \<times> gxfp_session_events) \<times> uhist) option" where
  "session_on_fd_impl env lib condition action_cancelled s evs h =
    (if ss_mode s = GXFP_MODE_CLOSED \<or> ss_mode s = GXFP_MODE_READY \<or> ss_mode s = GXFP_MODE_FAILED then Some ((s, evs), h)
     else if condition AND (GXFP_SESSION_IO_ERR OR GXFP_SESSION_IO_HUP OR GXFP_SESSION_IO_NVAL) \<noteq> 0 then
       session_set_error env s evs (- EIO) GXFP_SESSION_ERR_TARGET_GENERIC h
     else do {
       ((s, evs), h) \<leftarrow> fd_loop env s evs h;
       session_pump_impl env lib action_cancelled s evs h })"

definition gxfp_session_on_fd ::
  "uenv \<Rightarrow> tlslib \<Rightarrow> gxfp_session option \<Rightarrow> u32 \<Rightarrow> bool \<Rightarrow> gxfp_session_events option \<Rightarrow> uhist \<Rightarrow>
     ((gxfp_session option \<times> gxfp_session_events option) \<times> uhist) option" where
  "gxfp_session_on_fd env lib s condition action_cancelled evs h =
    with_impl s evs h (session_on_fd_impl env lib condition action_cancelled)"

subsection \<open>Requests of the driver\<close>

definition session_change_state_impl ::
  "uenv \<Rightarrow> gxfp_session_state \<Rightarrow> gxfp_session_impl \<Rightarrow> gxfp_session_events \<Rightarrow> uhist \<Rightarrow>
     ((gxfp_session_impl \<times> gxfp_session_events) \<times> uhist) option" where
  "session_change_state_impl env state s evs h =
    (if \<not> gxfp_session_mode_has_io s \<or> ss_mode s = GXFP_MODE_FAILED then Some ((s, evs), h)
     else
       (case state of
          GXFP_SESSION_STATE_AWAIT_FINGER_ON \<Rightarrow> do {
            ((s, evs), h) \<leftarrow> session_set_fdt_mode env (s\<lparr>ss_mode := GXFP_MODE_WAIT_FINGER_ON\<rparr>) evs GXFP_FDT_MODE_WAIT_DOWN h;
            Some ((s, if \<not> ev_session_error evs then evs\<lparr>ev_request_tick := True, ev_tick_delay_ms := 0\<rparr> else evs), h) }
        | GXFP_SESSION_STATE_CAPTURE \<Rightarrow>
            if ss_mode s \<noteq> GXFP_MODE_IDLE \<and> ss_mode s \<noteq> GXFP_MODE_WAIT_FINGER_ON
            then session_set_error env s evs (- EINVAL) GXFP_SESSION_ERR_TARGET_CAPTURE h
            else
              (case gxfp_tls_service_request_capture (Some (ss_svc s)) h of
                 ((r, svc), h) \<Rightarrow>
                   let s = s\<lparr>ss_svc := the svc\<rparr>
                   in if r < 0 then session_set_error env s evs r GXFP_SESSION_ERR_TARGET_CAPTURE h
                      else Some ((s\<lparr>ss_mode := GXFP_MODE_CAPTURING\<rparr>, evs\<lparr>ev_request_tick := True, ev_tick_delay_ms := 0\<rparr>), h))
        | GXFP_SESSION_STATE_AWAIT_FINGER_OFF \<Rightarrow> do {
            ((s, evs), h) \<leftarrow> session_set_fdt_mode env (s\<lparr>ss_mode := GXFP_MODE_WAIT_FINGER_OFF\<rparr>) evs GXFP_FDT_MODE_WAIT_UP h;
            Some ((s, if \<not> ev_session_error evs then evs\<lparr>ev_request_tick := True, ev_tick_delay_ms := 0\<rparr> else evs), h) }
        | GXFP_SESSION_STATE_IDLE \<Rightarrow> session_set_fdt_mode env (s\<lparr>ss_mode := GXFP_MODE_IDLE\<rparr>) evs GXFP_FDT_MODE_IDLE h
        | GXFP_SESSION_STATE_INACTIVE \<Rightarrow> session_set_fdt_mode env (gxfp_session_stop_run s) evs GXFP_FDT_MODE_IDLE h))"

definition gxfp_session_change_state ::
  "uenv \<Rightarrow> gxfp_session option \<Rightarrow> gxfp_session_state \<Rightarrow> gxfp_session_events option \<Rightarrow> uhist \<Rightarrow>
     ((gxfp_session option \<times> gxfp_session_events option) \<times> uhist) option" where
  "gxfp_session_change_state env s state evs h = with_impl s evs h (session_change_state_impl env state)"

text \<open>The result is the code, the session and the image of the caller.\<close>

definition gxfp_session_take_image ::
  "gxfp_session option \<Rightarrow> gxfp_decoded_image option \<Rightarrow> int \<times> gxfp_session option \<times> gxfp_decoded_image option" where
  "gxfp_session_take_image s out =
    (case (s, out) of
       (Some ss, Some _) \<Rightarrow>
         (case se_impl ss of
            None \<Rightarrow> (- EINVAL, s, out)
          | Some i \<Rightarrow>
              if \<not> ss_pending_img_ready i then (- ENOENT, s, out)
              else (0, Some (ss\<lparr>se_impl := Some (i\<lparr>ss_pending_img := image_zero, ss_pending_img_ready := False\<rparr>)\<rparr>),
                    Some (ss_pending_img i)))
     | _ \<Rightarrow> (- EINVAL, s, out))"

definition gxfp_session_poll_readable :: "uenv \<Rightarrow> gxfp_session option \<Rightarrow> int \<Rightarrow> uhist \<Rightarrow> int \<times> uhist" where
  "gxfp_session_poll_readable env s timeout_ms h =
    (case Option.bind s se_impl of
       None \<Rightarrow> (- EINVAL, h)
     | Some i \<Rightarrow> if \<not> gxfp_session_mode_has_io i then (- EINVAL, h) else gxfp_dev_poll_readable env (Some (ss_dev i)) timeout_ms h)"

end
