(* ===== verification/Session_Inv.thy ===== *)
theory Session_Inv
  imports Session
begin

unbundle bit_operations_syntax

text \<open>
  The invariant of a session: what each of its parts satisfies, which blocks of memory it owns, and that every operation
  of \<open>session.c\<close> returns, keeps the invariant and accounts for every block it takes or releases.
\<close>

section \<open>Calls into the lower layers\<close>

text \<open>The documented results of the system calls: a descriptor that is not negative or a positive error number.\<close>

definition errnos :: "uenv \<Rightarrow> bool" where
  "errnos env \<longleftrightarrow>
    (\<forall>h p f. case sys_open env h p f of Inl e \<Rightarrow> 0 < e | Inr fd \<Rightarrow> 0 \<le> fd) \<and>
    (\<forall>h fd n e. sys_read env h fd n = Inl e \<longrightarrow> 0 < e)"

lemma recovery_returns:
  assumes "clock_runs env" "0 \<le> ud_fd d"
  obtains rc h' where "gxfp_device_recovery env (Some d) unstick mcu sensor h = Some (rc, h')" "ulive h' = ulive h"
proof -
  note run = power.runs [OF assms] d01.runs [OF assms] nop.runs [OF assms] unlock.runs [OF assms] sleepmode.runs [OF assms]
    reset.runs [OF assms]
  let ?h0 = "snd (gxfp_dev_flush_rxq env (Some d) h)"
  define f :: u8 where "f = (if sensor then (if mcu then 0 OR 2 else 0) OR 1 else if mcu then 0 OR 2 else 0)"
  obtain r1 h1 where 1: "gxfp_cmd_notify_power_state_u env (Some d) ?h0 = Some (r1, h1)" "ulive h1 = ulive h"
    using run(1) [of ?h0] by (auto simp: command_post_def)
  obtain r2 h2 where 2: "gxfp_cmd_d01 env (Some d) h1 = Some (r2, h2)" "ulive h2 = ulive h"
    using run(2) [of h1] 1(2) by (auto simp: command_post_def)
  obtain r3 h3 where 3: "gxfp_cmd_send_nop env (Some d) h2 = Some (r3, h3)" "ulive h3 = ulive h"
    using run(3) [of h2] 2(2) by (auto simp: command_post_def)
  obtain r4 h4 where 4: "gxfp_cmd_tls_unlock_u env (Some d) h3 = Some (r4, h4)" "ulive h4 = ulive h"
    using run(4) [of h3] 3(2) by (auto simp: command_post_def)
  define h5 where "h5 = (if unstick then h4 else h1)"
  have "ulive h5 = ulive h" using 1(2) 4(2) by (simp add: h5_def)
  then obtain r6 h6 where 6: "gxfp_cmd_set_sleep_mode env (Some d) h5 = Some (r6, h6)" "ulive h6 = ulive h"
    using run(5) [of h5] by (auto simp: command_post_def)
  obtain r7 h7 where 7: "gxfp_cmd_reset_device_u env (Some d) f h6 = Some (r7, h7)" "ulive h7 = ulive h"
    using run(6) [of f h6] 6(2) by (auto simp: command_post_def)
  have "gxfp_device_recovery env (Some d) unstick mcu sensor h =
      Some (if f \<noteq> 0 then (r7, snd (gxfp_dev_flush_rxq env (Some d) h7)) else (0, snd (gxfp_dev_flush_rxq env (Some d) h6)))"
    unfolding gxfp_device_recovery_def Let_def f_def [symmetric] using 1(1) 2(1) 3(1) 4(1) 6(1) 7(1) by (cases unstick) (simp_all add: h5_def)
  then show thesis using that 6(2) 7(2) by (cases "f = 0") simp_all
qed

lemma read_reg_returns:
  assumes "clock_runs env" "0 \<le> ud_fd d" "length b = 4"
  obtains rc b' h' where "gxfp_cmd_read_reg env (Some d) reg (Some b) 4 h = Some ((rc, Some b'), h')" "ulive h' = ulive h"
proof -
  let ?pl = "[0x00, ucast (reg AND 0xff), ucast (drop_bit 8 reg AND 0xff), ucast ((4 :: u16) AND 0xff), ucast (drop_bit 8 (4 :: u16) AND 0xff)] :: bytes"
  have l: "length ?pl \<le> 504" "(of_nat (length ?pl) :: u16) = of_nat (length ?pl)" "3 = nat (max 1 3)" by simp_all
  obtain rc rx n h' where r:
    "gxfp_goodix_request_selected env (Some d) GXFP_CMD_REG_READ GXFP_CMD_REG_READ (Some ?pl) (of_nat (length ?pl)) (stack_rx env h)
       GXFP_IOCTL_TAP_PAYLOAD_MAX 3 500 None h = Some ((rc, Some rx, n), h')"
    "command_post env (cmd_packet GXFP_CMD_REG_READ ?pl) 3 rc h h'"
    using request_returns [OF assms(1,2) l tap_max_pos length_ufresh] by metis
  have k: "ulive h' = ulive h" using r(2) by (simp add: command_post_def)
  obtain ok frame where p: "gxfp_parse_goodix_body (Some rx) n (Some frame_zero) = (ok, frame)" by fastforce
  show thesis
    by (rule that [of "fst (fst (the (gxfp_cmd_read_reg env (Some d) reg (Some b) 4 h)))"
          "the (snd (fst (the (gxfp_cmd_read_reg env (Some d) reg (Some b) 4 h))))" h'])
       (use r(1) k p in \<open>auto simp: gxfp_cmd_read_reg_def Let_def\<close>)
qed

lemma read_chip_id_returns:
  assumes "clock_runs env" "0 \<le> ud_fd d"
  obtains rc c h' where "gxfp_cmd_read_chip_id env (Some d) (Some c0) h = Some ((rc, Some c), h')" "ulive h' = ulive h"
proof -
  have "length (ufresh env h 4) = 4" by simp
  then obtain rc b' h' where "gxfp_cmd_read_reg env (Some d) 0 (Some (ufresh env h 4)) 4 h = Some ((rc, Some b'), h')"
    "ulive h' = ulive h"
    by (rule read_reg_returns [OF assms])
  then show thesis
    using that [of rc 0 h'] that [of 0 "ucast (b' ! 1) OR push_bit 8 (ucast (b' ! 2))" h']
    by (cases "rc = 0") (simp_all add: gxfp_cmd_read_chip_id_def)
qed

lemma read_otp_returns:
  assumes "clock_runs env" "0 \<le> ud_fd d" "length b = 256"
  obtains rc b' n h' where "gxfp_cmd_read_otp env (Some d) (Some b) 256 h = Some ((rc, Some b', n), h')" "ulive h' = ulive h"
proof -
  have l: "length [0, 0 :: u8] \<le> 504" "2 = (of_nat (length [0, 0 :: u8]) :: u16)" "8 = nat (max 1 8)" by simp_all
  obtain rc rx n h' where r:
    "gxfp_goodix_request_selected env (Some d) GXFP_CMD_READ_OTP GXFP_CMD_READ_OTP (Some [0, 0]) 2 (stack_rx env h)
       GXFP_IOCTL_TAP_PAYLOAD_MAX 8 500 None h = Some ((rc, Some rx, n), h')"
    "command_post env (cmd_packet GXFP_CMD_READ_OTP [0, 0]) 8 rc h h'"
    using request_returns [OF assms(1,2) l tap_max_pos length_ufresh] by metis
  have k: "ulive h' = ulive h" using r(2) by (simp add: command_post_def)
  obtain ok frame where p: "gxfp_parse_goodix_body (Some rx) n (Some frame_zero) = (ok, frame)" by fastforce
  have "\<exists>rc b' n. gxfp_cmd_read_otp env (Some d) (Some b) 256 h = Some ((rc, Some b', n), h')"
    using r(1) p by (auto simp: gxfp_cmd_read_otp_def)
  then show thesis using that k by blast
qed

lemma upload_returns:
  assumes "clock_runs env" "0 \<le> ud_fd d" "length c = 0xE0"
  obtains rc st h' where "gxfp_cmd_upload_config_mcu_u env (Some d) (Some c) 0xE0 h = Some ((rc, st), h')" "ulive h' = ulive h"
proof -
  have l: "length c \<le> 504" "0xE0 = (of_nat (length c) :: u16)" "2 = nat (max 1 2)" using assms(3) by simp_all
  obtain rc rx n h' where r:
    "gxfp_goodix_request_selected env (Some d) GXFP_CMD_UPLOAD_CONFIG_MCU_u GXFP_CMD_ACK_u (Some c) 0xE0 (stack_rx env h)
       GXFP_IOCTL_TAP_PAYLOAD_MAX 2 2000 None h = Some ((rc, Some rx, n), h')"
    "command_post env (cmd_packet GXFP_CMD_UPLOAD_CONFIG_MCU_u c) 2 rc h h'"
    using request_returns [OF assms(1,2) l tap_max_pos length_ufresh] by metis
  have k: "ulive h' = ulive h" using r(2) by (simp add: command_post_def)
  obtain ok frame where p: "gxfp_parse_goodix_body (Some rx) n (Some frame_zero) = (ok, frame)" by fastforce
  have "\<exists>rc st. gxfp_cmd_upload_config_mcu_u env (Some d) (Some c) 0xE0 h = Some ((rc, st), h')"
    using r(1) p by (auto simp: gxfp_cmd_upload_config_mcu_u_def split: if_splits)
  then show thesis using that k by blast
qed

text \<open>Finger detection allocates nothing that outlives a call.\<close>

lemma fdt_send_live: "fdt_send env d c m t h = (r, h') \<Longrightarrow> ulive h' = ulive h"
  by (simp add: fdt_send_def send_async_keeps)

lemma fdt_set_mode_kept:
  assumes "fdt_inv f"
  obtains r f' h' where "gxfp_fdt_flow_set_mode env (Some f) (Some d) m h = ((r, Some f'), h')" "fdt_inv f'" "ulive h' = ulive h"
    "m = GXFP_FDT_MODE_IDLE \<Longrightarrow> r = 0"
proof -
  note c = fdt_invD(1) [OF assms]
  have "\<exists>r f' h'. gxfp_fdt_flow_set_mode env (Some f) (Some d) m h = ((r, Some f'), h') \<and> ulive h' = ulive h \<and>
      (m = GXFP_FDT_MODE_IDLE \<longrightarrow> r = 0)"
    using c by (auto simp: gxfp_fdt_flow_set_mode_def fdt_commands_eq Let_def monotonic_ms_eq fdt_send_live
        split: gxfp_fdt_mode.split prod.split)
  then show thesis using that set_mode_inv [OF assms] by blast
qed

lemma fdt_feed_kept:
  assumes "fdt_inv f"
  obtains r f' evs h' where "gxfp_fdt_flow_feed_record env (Some f) (Some d) hdr p n h = ((r, Some f', evs), h')" "fdt_inv f'"
    "ulive h' = ulive h"
proof -
  obtain r1 cmd status where u: "fdt_update_state_from_record (Some (ff_cmd f)) hdr p n = (r1, cmd, status)"
    using prod_cases3 by blast
  obtain s2 where s2: "cmd = Some s2" "fdt_cmd_ok s2" using update_from_record_ok(1) [OF fdt_invD(1) [OF assms] u] by blast
  have "\<exists>r f' evs h'. gxfp_fdt_flow_feed_record env (Some f) (Some d) hdr p n h = ((r, Some f', evs), h') \<and> ulive h' = ulive h"
    using u s2 by (auto simp: gxfp_fdt_flow_feed_record_def fdt_commands_eq Let_def fdt_send_live split: prod.split)
  then show thesis using that feed_inv [OF assms] by blast
qed

lemma fdt_poll_kept:
  assumes "fdt_inv f"
  obtains r f' h' where "gxfp_fdt_flow_poll env (Some f) (Some d) now h = ((r, Some f'), h')" "fdt_inv f'" "ulive h' = ulive h"
proof -
  define f1 where "f1 = (if ff_last_good_up_valid f then f\<lparr>ff_cmd := (ff_cmd f)\<lparr>fs_up_table_5130 := ff_last_good_up_table f\<rparr>\<rparr> else f)"
  have c: "fdt_cmd_ok (ff_cmd f1)" using assms by (simp add: f1_def fdt_inv_def fdt_cmd_ok_def)
  have "\<exists>r f' h'. gxfp_fdt_flow_poll env (Some f) (Some d) now h = ((r, Some f'), h') \<and> ulive h' = ulive h"
    unfolding gxfp_fdt_flow_poll_def option.case f1_def [symmetric] Let_def
    using c by (auto simp: fdt_commands_eq Let_def fdt_send_live split: prod.split)
  then show thesis using that poll_inv [OF assms] by blast
qed

section \<open>The invariant\<close>

text \<open>Blocks of a pointer and of a service.\<close>

definition blk :: "'a option \<Rightarrow> int" where
  "blk p = (case p of None \<Rightarrow> 0 | Some _ \<Rightarrow> 1)"

lemma blk_simps [simp]: "blk None = 0" "blk (Some x) = 1"
  by (simp_all add: blk_def)

lemma ulive_free_ptr [simp]: "ulive (ufree_ptr p h) = ulive h - blk p"
  by (simp add: ufree_ptr_def split: option.split)

definition svc_ok :: "udev \<Rightarrow> gxfp_tls_service \<Rightarrow> bool" where
  "svc_ok d sv = (case sv_impl sv of None \<Rightarrow> True | Some s \<Rightarrow> svc_inv d s)"

definition svc_live :: "gxfp_tls_service \<Rightarrow> int" where
  "svc_live sv = (case sv_impl sv of None \<Rightarrow> 0 | Some s \<Rightarrow> svc_blocks s)"

definition image_ok :: "gxfp_decoded_image \<Rightarrow> bool" where
  "image_ok im \<longleftrightarrow> 0 < im_rows im \<and> 0 < im_cols im \<and>
     (case im_pixels im of None \<Rightarrow> False | Some px \<Rightarrow> length px = nat (im_rows im) * nat (im_cols im))"

definition tap_ok :: "ptr \<Rightarrow> nat \<Rightarrow> bool" where
  "tap_ok buf cap = (case buf of None \<Rightarrow> cap = 0 | Some b \<Rightarrow> cap = TAP_HDR_SIZE + GXFP_IOCTL_TAP_PAYLOAD_MAX \<and> length b = cap)"

text \<open>A session owns its record buffer, key, service, dark frame and pending image; a closed one has only the buffer; an
  open one has a descriptor.\<close>

definition session_ok :: "gxfp_session_impl \<Rightarrow> bool" where
  "session_ok s \<longleftrightarrow> fdt_inv (ss_fdt s) \<and>
     tap_ok (ss_tap_io_buf s) (ss_tap_io_cap s) \<and>
     (if ss_dark_loaded s then dark_fits (dk_rows (ss_dark s)) (dk_cols (ss_dark s)) (Some (ss_dark s)) else dk_pixels (ss_dark s) = None) \<and>
     (if ss_pending_img_ready s then image_ok (ss_pending_img s) else im_pixels (ss_pending_img s) = None) \<and>
     svc_ok (ss_dev s) (ss_svc s) \<and>
     (if ss_mode s = GXFP_MODE_CLOSED
      then sv_impl (ss_svc s) = None \<and> ss_psk s = None \<and> \<not> ss_dark_loaded s \<and> \<not> ss_pending_img_ready s
      else 0 \<le> ud_fd (ss_dev s))"

definition session_blocks :: "gxfp_session_impl \<Rightarrow> int" where
  "session_blocks s = 1 + blk (ss_tap_io_buf s) + blk (ss_psk s) + svc_live (ss_svc s) + blk (dk_pixels (ss_dark s)) +
     blk (im_pixels (ss_pending_img s))"

definition session_same :: "gxfp_session_impl \<Rightarrow> uhist \<Rightarrow> gxfp_session_impl \<Rightarrow> uhist \<Rightarrow> bool" where
  "session_same s h s' h' \<longleftrightarrow> session_ok s' \<and> ss_dev s' = ss_dev s \<and> ss_mode s' \<noteq> GXFP_MODE_CLOSED \<and>
     ulive h' - session_blocks s' = ulive h - session_blocks s"

subsection \<open>The protocol of modes and events\<close>

text \<open>The part of the events that is a message to the driver.\<close>

definition signals ::
  "gxfp_session_events \<Rightarrow> (bool \<times> bool \<times> bool \<times> bool \<times> bool) \<times> (bool \<times> bool \<times> bool) \<times> int \<times> gxfp_session_error_target" where
  "signals e = ((ev_activate_complete e, ev_deactivate_complete e, ev_close_complete e, ev_session_error e, ev_image_ready e),
     (ev_finger_status_changed e, ev_finger_present e, ev_cancel_tick e), ev_error_code e, ev_error_target e)"

definition activating :: "gxfp_session_mode \<Rightarrow> bool" where
  "activating m \<longleftrightarrow> m \<in> {GXFP_MODE_ACTIVATING_TLS, GXFP_MODE_ACTIVATING_WAIT_UP, GXFP_MODE_ACTIVATING_DARK_CAPTURE}"

lemma activating_modes [simp]:
  "activating GXFP_MODE_ACTIVATING_TLS" "activating GXFP_MODE_ACTIVATING_WAIT_UP" "activating GXFP_MODE_ACTIVATING_DARK_CAPTURE"
  by (simp_all add: activating_def)

inductive progress :: "gxfp_session_mode \<times> gxfp_session_events \<Rightarrow> gxfp_session_mode \<times> gxfp_session_events \<Rightarrow> bool" where
  Tick: "signals e' = signals e \<Longrightarrow> progress (m, e) (m, e')"
| Connected: "signals e' = signals e \<Longrightarrow> progress (GXFP_MODE_ACTIVATING_TLS, e) (GXFP_MODE_ACTIVATING_WAIT_UP, e')"
| Finger_off: "signals e' = signals e \<Longrightarrow> progress (GXFP_MODE_ACTIVATING_WAIT_UP, e) (GXFP_MODE_ACTIVATING_DARK_CAPTURE, e')"
| Dark_frame: "progress (GXFP_MODE_ACTIVATING_DARK_CAPTURE, e) (GXFP_MODE_IDLE, e\<lparr>ev_activate_complete := True\<rparr>)"
| Finger_down: "progress (GXFP_MODE_WAIT_FINGER_ON, e) (GXFP_MODE_WAIT_FINGER_ON, e\<lparr>ev_finger_status_changed := True, ev_finger_present := True\<rparr>)"
| Finger_up: "progress (GXFP_MODE_WAIT_FINGER_OFF, e) (GXFP_MODE_WAIT_FINGER_OFF, e\<lparr>ev_finger_status_changed := True, ev_finger_present := False\<rparr>)"
| Image: "progress (GXFP_MODE_CAPTURING, e) (GXFP_MODE_IDLE, e\<lparr>ev_image_ready := True\<rparr>)"
| Cancel: "progress (GXFP_MODE_FAILED, e) (GXFP_MODE_FAILED, e\<lparr>ev_cancel_tick := True\<rparr>)"
| Fail: "m \<noteq> GXFP_MODE_CLOSED \<Longrightarrow> code < 0 \<Longrightarrow> target = GXFP_SESSION_ERR_TARGET_ACTIVATE \<longrightarrow> activating m \<Longrightarrow>
    progress (m, e) (GXFP_MODE_FAILED, e\<lparr>ev_session_error := True, ev_error_code := code, ev_error_target := target\<rparr>)"

definition session_post ::
  "gxfp_session_impl \<Rightarrow> gxfp_session_events \<Rightarrow> uhist \<Rightarrow> ((gxfp_session_impl \<times> gxfp_session_events) \<times> uhist) option \<Rightarrow> bool" where
  "session_post s e h res \<longleftrightarrow>
    (\<exists>s' e' h'. res = Some ((s', e'), h') \<and> session_same s h s' h' \<and> progress\<^sup>*\<^sup>* (ss_mode s, e) (ss_mode s', e'))"

lemma session_postI:
  "session_same s h s' h' \<Longrightarrow> progress\<^sup>*\<^sup>* (ss_mode s, e) (ss_mode s', e') \<Longrightarrow> session_post s e h (Some ((s', e'), h'))"
  by (auto simp: session_post_def)

lemma session_same_trans: "session_same s h s1 h1 \<Longrightarrow> session_same s1 h1 s2 h2 \<Longrightarrow> session_same s h s2 h2"
  by (simp add: session_same_def)

lemma session_same_refl: "session_ok s \<Longrightarrow> ss_mode s \<noteq> GXFP_MODE_CLOSED \<Longrightarrow> session_same s h s h"
  by (simp add: session_same_def)

lemma session_post_trans:
  "session_same s h s1 h1 \<Longrightarrow> progress\<^sup>*\<^sup>* (ss_mode s, e) (ss_mode s1, e1) \<Longrightarrow> session_post s1 e1 h1 res \<Longrightarrow> session_post s e h res"
  unfolding session_post_def using session_same_trans rtranclp_trans by fast

lemma session_post_bind:
  assumes "session_post s e h res"
    and "\<And>s' e' h'. res = Some ((s', e'), h') \<Longrightarrow> session_same s h s' h' \<Longrightarrow> session_post s' e' h' (k ((s', e'), h'))"
  shows "session_post s e h (Option.bind res k)"
proof -
  obtain s' e' h' where r: "res = Some ((s', e'), h')" "session_same s h s' h'" "progress\<^sup>*\<^sup>* (ss_mode s, e) (ss_mode s', e')"
    using assms(1) by (auto simp: session_post_def)
  then show ?thesis using session_post_trans [OF r(2,3) assms(2) [OF r(1,2)]] by simp
qed

lemma progress_tick: "signals e' = signals e \<Longrightarrow> progress\<^sup>*\<^sup>* (m, e) (m, e')"
  by (rule r_into_rtranclp) (rule Tick)

lemma signals_ticks [simp]:
  "signals (e\<lparr>ev_request_tick := b, ev_tick_delay_ms := n\<rparr>) = signals e"
  by (simp_all add: signals_def)

lemma session_ok_mode: "session_ok s \<Longrightarrow> ss_mode s \<noteq> GXFP_MODE_CLOSED \<Longrightarrow> m \<noteq> GXFP_MODE_CLOSED \<Longrightarrow> session_ok (s\<lparr>ss_mode := m\<rparr>)"
  by (simp add: session_ok_def)

lemma session_blocks_mode [simp]: "session_blocks (s\<lparr>ss_mode := m\<rparr>) = session_blocks s"
  by (simp add: session_blocks_def)

lemma session_okD:
  assumes "session_ok s"
  shows "fdt_inv (ss_fdt s)" "svc_ok (ss_dev s) (ss_svc s)" "ss_mode s \<noteq> GXFP_MODE_CLOSED \<Longrightarrow> 0 \<le> ud_fd (ss_dev s)"
  using assms by (auto simp: session_ok_def)

text \<open>Replacing the flow or the service by one that is as good.\<close>

lemma session_same_fdt:
  "session_ok s \<Longrightarrow> ss_mode s \<noteq> GXFP_MODE_CLOSED \<Longrightarrow> fdt_inv f \<Longrightarrow> ulive h' = ulive h \<Longrightarrow> session_same s h (s\<lparr>ss_fdt := f\<rparr>) h'"
  by (simp add: session_same_def session_ok_def session_blocks_def)

lemma session_same_svc:
  "session_ok s \<Longrightarrow> ss_mode s \<noteq> GXFP_MODE_CLOSED \<Longrightarrow> svc_ok (ss_dev s) sv \<Longrightarrow> ulive h' - svc_live sv = ulive h - svc_live (ss_svc s) \<Longrightarrow>
   session_same s h (s\<lparr>ss_svc := sv\<rparr>) h'"
  by (simp add: session_same_def session_ok_def session_blocks_def)

lemma session_same_mode:
  "session_same s h s' h' \<Longrightarrow> m \<noteq> GXFP_MODE_CLOSED \<Longrightarrow> session_same s h (s'\<lparr>ss_mode := m\<rparr>) h'"
  by (simp add: session_same_def session_ok_mode)

section \<open>The service of a session\<close>

lemma service_cases: "sv = \<lparr>sv_impl = None\<rparr> \<or> (\<exists>i. sv = \<lparr>sv_impl = Some i\<rparr>)"
  by (cases sv) auto

text \<open>What a call of the service owes its session.\<close>

definition svc_same :: "udev \<Rightarrow> gxfp_tls_service \<Rightarrow> uhist \<Rightarrow> gxfp_tls_service \<Rightarrow> uhist \<Rightarrow> bool" where
  "svc_same d sv h sv' h' \<longleftrightarrow> svc_ok d sv' \<and> ulive h' - svc_live sv' = ulive h - svc_live sv"

lemma svc_same_kept: "svc_kept d i h i' h' \<Longrightarrow> svc_same d \<lparr>sv_impl = Some i\<rparr> h \<lparr>sv_impl = Some i'\<rparr> h'"
  by (simp add: svc_same_def svc_kept_def svc_ok_def svc_live_def)

lemma svc_ok_impl [simp]: "svc_ok d \<lparr>sv_impl = Some i\<rparr> = svc_inv d i" "svc_ok d \<lparr>sv_impl = None\<rparr>"
  by (simp_all add: svc_ok_def)

lemma service_free_ok:
  assumes "svc_ok d sv"
  obtains h' where "gxfp_tls_service_free (Some sv) h = (Some \<lparr>sv_impl = None\<rparr>, h')" "ulive h' = ulive h - svc_live sv"
proof -
  consider "sv = \<lparr>sv_impl = None\<rparr>" | i where "sv = \<lparr>sv_impl = Some i\<rparr>" using service_cases by blast
  then show thesis
  proof cases
    case 1
    then show thesis using that [of h] by (simp add: gxfp_tls_service_free_def svc_live_def)
  next
    case 2
    then have "svc_inv d i" using assms by simp
    then show thesis by (rule free_releases [where h = h]) (use that 2 in \<open>simp add: svc_live_def\<close>)
  qed
qed

lemma service_step_ok:
  assumes "lib_ok lib" "lib_drains lib" "svc_ok d sv"
  obtains r sv' h' where "gxfp_tls_service_step env lib (Some sv) h = Some ((r, Some sv'), h')" "svc_same d sv h sv' h'" "r \<le> 1"
proof -
  consider "sv = \<lparr>sv_impl = None\<rparr>" | i where "sv = \<lparr>sv_impl = Some i\<rparr>" using service_cases by blast
  then show thesis
  proof cases
    case 1
    then show thesis using that [of "- EINVAL" sv h] by (simp add: gxfp_tls_service_step_def svc_same_def)
  next
    case 2
    then have "svc_inv d i" using assms(3) by simp
    then obtain r i' h' where x: "svc_step env lib i h = Some ((r, i'), h')" "svc_kept d i h i' h'" "step_to (si_state i) r (si_state i')"
      using svc_step_returns [OF assms(1,2), where env = env and h = h] by blast
    have "r \<le> 1" using x(3) by (auto simp: step_to_def split: gxfp_tls_hs_state.splits)
    then show thesis using that [of r "\<lparr>sv_impl = Some i'\<rparr>" h'] x(1) svc_same_kept [OF x(2)] 2 by (simp add: gxfp_tls_service_step_def)
  qed
qed

lemma service_feed_ok:
  assumes "svc_ok d sv" "n \<le> length p"
  obtains r sv' h' where "gxfp_tls_service_feed_tap_record env (Some sv) hdr (Some p) n h = ((r, Some sv'), h')" "svc_same d sv h sv' h'"
proof -
  consider "sv = \<lparr>sv_impl = None\<rparr>" | i where "sv = \<lparr>sv_impl = Some i\<rparr>" using service_cases by blast
  then show thesis
  proof cases
    case 1
    then show thesis using that [of "- EINVAL" sv h] by (simp add: gxfp_tls_service_feed_tap_record_def svc_same_def)
  next
    case 2
    then have "svc_inv d i" using assms(1) by simp
    then obtain r i' h' where "gxfp_tls_service_feed_tap_record env (Some \<lparr>sv_impl = Some i\<rparr>) hdr (Some p) n h = ((r, Some \<lparr>sv_impl = Some i'\<rparr>), h')"
      "svc_kept d i h i' h'" using feed_kept [OF _ assms(2), where env = env and hdr = hdr and h = h] by blast
    then show thesis using that svc_same_kept 2 by blast
  qed
qed

lemma service_request_ok:
  assumes "svc_ok d sv"
  obtains r sv' h' where "gxfp_tls_service_request_capture (Some sv) h = ((r, Some sv'), h')" "svc_same d sv h sv' h'"
proof -
  consider "sv = \<lparr>sv_impl = None\<rparr>" | i where "sv = \<lparr>sv_impl = Some i\<rparr>" using service_cases by blast
  then show thesis
  proof cases
    case 1
    then show thesis using that [of "- EINVAL" sv h] by (simp add: gxfp_tls_service_request_capture_def svc_same_def)
  next
    case 2
    then have "svc_inv d i" using assms by simp
    then obtain r i' h' where "gxfp_tls_service_request_capture (Some \<lparr>sv_impl = Some i\<rparr>) h = ((r, Some \<lparr>sv_impl = Some i'\<rparr>), h')"
      "svc_kept d i h i' h'" using request_kept [where h = h] by blast
    then show thesis using that svc_same_kept 2 by blast
  qed
qed

lemma service_raw_ok:
  assumes "svc_ok d sv" "length oh = 5"
  obtains (none) r sv' oh' body h' where "gxfp_tls_service_get_raw_image env (Some sv) (Some oh) True h = ((r, Some sv', oh', body), h')"
      "r \<le> 0" "svc_same d sv h sv' h'"
  | (image) sv' oh' img h' where "gxfp_tls_service_get_raw_image env (Some sv) (Some oh) True h =
        ((1, Some sv', oh', Some (Some img, length img)), h')" "svc_same d sv h sv' (ufree h')"
proof -
  consider "sv = \<lparr>sv_impl = None\<rparr>" | i where "sv = \<lparr>sv_impl = Some i\<rparr>" using service_cases by blast
  then show thesis
  proof cases
    case 1
    then show thesis using none [of "- EINVAL" sv] by (simp add: gxfp_tls_service_get_raw_image_def svc_same_def)
  next
    case 2
    then have "svc_inv d i" using assms(1) by simp
    then obtain r i' h' oh' body where x: "gxfp_tls_service_get_raw_image env (Some \<lparr>sv_impl = Some i\<rparr>) (Some oh) True h =
      ((r, Some \<lparr>sv_impl = Some i'\<rparr>, oh', body), h')" "svc_inv d i'"
      "ulive h' - svc_blocks i' = ulive h - svc_blocks i + (if r = 1 then 1 else 0)"
      "case sink_view (Some (si_img i)) of
         None \<Rightarrow> r = 0 \<and> i' = i
       | Some (hdr, img) \<Rightarrow>
           if sys_malloc env h (length img)
           then r = 1 \<and> oh' = Some hdr \<and> body = Some (Some img, length img) \<and> sink_view (Some (si_img i')) = None
           else r = - ENOMEM \<and> i' = i"
      by (rule raw_image_kept [OF _ assms(2), where env = env and h = h]) blast
    show thesis
    proof (cases "r = 1")
      case True
      then obtain img where "body = Some (Some img, length img)" using x(4) by (auto split: option.splits if_splits)
      then show thesis using image [of "\<lparr>sv_impl = Some i'\<rparr>" oh' img h'] x(1-3) True 2 by (simp add: svc_same_def svc_live_def)
    next
      case False
      then have "r \<le> 0" using x(4) by (auto split: option.splits if_splits)
      then show thesis using none [of r "\<lparr>sv_impl = Some i'\<rparr>" oh' body h'] x(1-3) False 2 by (simp add: svc_same_def svc_live_def)
    qed
  qed
qed

lemma session_same_service:
  "session_ok s \<Longrightarrow> ss_mode s \<noteq> GXFP_MODE_CLOSED \<Longrightarrow> svc_same (ss_dev s) (ss_svc s) h sv h' \<Longrightarrow> session_same s h (s\<lparr>ss_svc := sv\<rparr>) h'"
  by (simp add: session_same_svc svc_same_def)

section \<open>The steps\<close>

lemma set_error_returns:
  assumes "clock_runs env" "session_ok s" "ss_mode s \<noteq> GXFP_MODE_CLOSED"
  obtains h' where "session_set_error env s e r t h =
      Some ((s\<lparr>ss_mode := GXFP_MODE_FAILED\<rparr>, e\<lparr>ev_session_error := True, ev_error_code := r, ev_error_target := t\<rparr>), h')"
    "session_same s h (s\<lparr>ss_mode := GXFP_MODE_FAILED\<rparr>) h'"
proof -
  have fd: "0 \<le> ud_fd (ss_dev s)" by (rule session_okD(3) [OF assms(2,3)])
  obtain rc h1 where r: "gxfp_device_recovery env (Some (ss_dev s)) True True False h = Some (rc, h1)" "ulive h1 = ulive h"
    by (rule recovery_returns [OF assms(1) fd])
  have same: "session_same s h (s\<lparr>ss_mode := GXFP_MODE_FAILED\<rparr>) h'" if "ulive h' = ulive h" for h'
    using that assms(2,3) by (simp add: session_same_def session_ok_mode)
  let ?recover = "r \<noteq> - ECANCELED \<and> (t = GXFP_SESSION_ERR_TARGET_GENERIC \<or> t = GXFP_SESSION_ERR_TARGET_ACTIVATE) \<and>
    gxfp_session_mode_has_io s"
  show thesis
  proof (cases ?recover)
    case True
    show thesis by (rule that [OF _ same [OF r(2)]]) (use True r(1) in \<open>simp add: session_set_error_def Let_def\<close>)
  next
    case False
    show thesis
      unfolding session_set_error_def Let_def if_not_P [OF False] by (rule that [OF _ same [OF refl]]) (simp add: session_set_error_def Let_def if_not_P [OF False])
  qed
qed

lemma set_error_post:
  assumes "clock_runs env" "session_ok s" "ss_mode s \<noteq> GXFP_MODE_CLOSED" "r < 0" "t = GXFP_SESSION_ERR_TARGET_ACTIVATE \<longrightarrow> activating (ss_mode s)"
  shows "session_post s e h (session_set_error env s e r t h)"
proof -
  obtain h' where x: "session_set_error env s e r t h =
      Some ((s\<lparr>ss_mode := GXFP_MODE_FAILED\<rparr>, e\<lparr>ev_session_error := True, ev_error_code := r, ev_error_target := t\<rparr>), h')"
    "session_same s h (s\<lparr>ss_mode := GXFP_MODE_FAILED\<rparr>) h'"
    by (rule set_error_returns [OF assms(1-3)])
  show ?thesis unfolding x(1) by (rule session_postI [OF x(2)]) (use Fail [OF assms(3-5)] in auto)
qed

text \<open>Arming the finger detection: the flow changes, or the session fails.\<close>

lemma set_fdt_mode_cases:
  assumes "clock_runs env" "session_ok s" "ss_mode s \<noteq> GXFP_MODE_CLOSED"
  obtains (armed) f h' where "session_set_fdt_mode env s e m h = Some ((s\<lparr>ss_fdt := f\<rparr>, e), h')" "session_same s h (s\<lparr>ss_fdt := f\<rparr>) h'"
  | (failed) f r h' where "session_set_fdt_mode env s e m h = Some ((s\<lparr>ss_fdt := f, ss_mode := GXFP_MODE_FAILED\<rparr>,
        e\<lparr>ev_session_error := True, ev_error_code := r, ev_error_target := GXFP_SESSION_ERR_TARGET_GENERIC\<rparr>), h')" "r < 0"
      "session_same s h (s\<lparr>ss_fdt := f, ss_mode := GXFP_MODE_FAILED\<rparr>) h'" "m \<noteq> GXFP_FDT_MODE_IDLE"
proof -
  obtain r f h1 where f: "gxfp_fdt_flow_set_mode env (Some (ss_fdt s)) (Some (ss_dev s)) m h = ((r, Some f), h1)" "fdt_inv f"
    "ulive h1 = ulive h" "m = GXFP_FDT_MODE_IDLE \<Longrightarrow> r = 0"
    using fdt_set_mode_kept [OF session_okD(1) [OF assms(2)]] by blast
  have same: "session_same s h (s\<lparr>ss_fdt := f\<rparr>) h1" by (rule session_same_fdt [OF assms(2,3) f(2,3)])
  have eq: "session_set_fdt_mode env s e m h =
      (if r < 0 then session_set_error env (s\<lparr>ss_fdt := f\<rparr>) e r GXFP_SESSION_ERR_TARGET_GENERIC h1 else Some ((s\<lparr>ss_fdt := f\<rparr>, e), h1))"
    using f(1) assms(3) by (simp add: session_set_fdt_mode_def gxfp_session_mode_has_io_def)
  show thesis
  proof (cases "r < 0")
    case False
    then show thesis using armed [of f h1] eq same by simp
  next
    case True
    obtain h2 where x: "session_set_error env (s\<lparr>ss_fdt := f\<rparr>) e r GXFP_SESSION_ERR_TARGET_GENERIC h1 =
        Some ((s\<lparr>ss_fdt := f, ss_mode := GXFP_MODE_FAILED\<rparr>,
          e\<lparr>ev_session_error := True, ev_error_code := r, ev_error_target := GXFP_SESSION_ERR_TARGET_GENERIC\<rparr>), h2)"
      "session_same (s\<lparr>ss_fdt := f\<rparr>) h1 (s\<lparr>ss_fdt := f, ss_mode := GXFP_MODE_FAILED\<rparr>) h2"
      using set_error_returns [OF assms(1), of "s\<lparr>ss_fdt := f\<rparr>" e r GXFP_SESSION_ERR_TARGET_GENERIC h1] same
      by (auto simp: session_same_def)
    show thesis
      by (rule failed [of f r h2]) (use True eq x same f(4) session_same_trans [OF same x(2)] in auto)
  qed
qed

text \<open>Results that also say whether to go on.\<close>

definition drop_flag :: "(bool \<times> 's \<times> 'e) \<times> 'h \<Rightarrow> ('s \<times> 'e) \<times> 'h" where
  "drop_flag = (\<lambda>((go, s, e), h). ((s, e), h))"

lemma drop_flag [simp]: "drop_flag ((go, s, e), h) = ((s, e), h)"
  by (simp add: drop_flag_def)

lemma session_post_bind_flag:
  assumes "session_post s e h (map_option drop_flag res)"
    and "\<And>go s' e' h'. res = Some ((go, s', e'), h') \<Longrightarrow> session_same s h s' h' \<Longrightarrow> session_post s' e' h' (k ((go, s', e'), h'))"
  shows "session_post s e h (Option.bind res k)"
proof -
  obtain go s' e' h' where r: "res = Some ((go, s', e'), h')" "session_same s h s' h'" "progress\<^sup>*\<^sup>* (ss_mode s, e) (ss_mode s', e')"
    using assms(1) by (cases res) (auto simp: session_post_def drop_flag_def split: prod.splits)
  then show ?thesis using session_post_trans [OF r(2,3) assms(2) [OF r(1,2)]] by simp
qed

lemma session_post_flag_bind:
  assumes "session_post s e h res"
    and "\<And>s' e' h'. res = Some ((s', e'), h') \<Longrightarrow> session_same s h s' h' \<Longrightarrow> session_post s' e' h' (map_option drop_flag (k ((s', e'), h')))"
  shows "session_post s e h (map_option drop_flag (Option.bind res k))"
  using session_post_bind [OF assms] by (cases res) auto

lemma session_post_flag_bind_flag:
  assumes "session_post s e h (map_option drop_flag res)"
    and "\<And>go s' e' h'. res = Some ((go, s', e'), h') \<Longrightarrow> session_same s h s' h' \<Longrightarrow>
      session_post s' e' h' (map_option drop_flag (k ((go, s', e'), h')))"
  shows "session_post s e h (map_option drop_flag (Option.bind res k))"
  using session_post_bind_flag [OF assms] by (cases res) auto

lemma session_sameD:
  assumes "session_same s h s' h'"
  shows "session_ok s'" "ss_mode s' \<noteq> GXFP_MODE_CLOSED" "ss_dev s' = ss_dev s"
  using assms by (auto simp: session_same_def)

lemma session_post_same:
  "session_same s h s' h' \<Longrightarrow> ss_mode s' = ss_mode s \<Longrightarrow> session_post s' e h' res \<Longrightarrow> session_post s e h res"
  by (rule session_post_trans) auto

lemma session_post_tick: "session_same s h s' h' \<Longrightarrow> ss_mode s' = ss_mode s \<Longrightarrow> signals e' = signals e \<Longrightarrow> session_post s e h (Some ((s', e'), h'))"
  by (rule session_postI) (simp_all add: progress_tick)

lemma session_post_fail:
  "session_same s h s' h' \<Longrightarrow> ss_mode s' = GXFP_MODE_FAILED \<Longrightarrow> ss_mode s \<noteq> GXFP_MODE_CLOSED \<Longrightarrow> r < 0 \<Longrightarrow> t \<noteq> GXFP_SESSION_ERR_TARGET_ACTIVATE \<Longrightarrow>
   session_post s e h (Some ((s', e\<lparr>ev_session_error := True, ev_error_code := r, ev_error_target := t\<rparr>), h'))"
  by (rule session_postI) (auto intro: Fail)

text \<open>Polling TLS.\<close>

lemma poll_tls_loop_post:
  assumes "clock_runs env" "lib_ok lib" "lib_drains lib" "session_ok s" "ss_mode s \<noteq> GXFP_MODE_CLOSED"
  shows "session_post s e h (poll_tls_loop env lib i n s e h)"
  using assms(4,5)
proof (induction n arbitrary: i s e h)
  case 0
  then show ?case by (simp add: session_post_tick session_same_refl)
next
  case (Suc n)
  obtain r sv h1 where x: "gxfp_tls_service_step env lib (Some (ss_svc s)) h = Some ((r, Some sv), h1)"
    "svc_same (ss_dev s) (ss_svc s) h sv h1"
    by (rule service_step_ok [OF assms(2,3) session_okD(2) [OF Suc.prems(1)]])
  have same: "session_same s h (s\<lparr>ss_svc := sv\<rparr>) h1" by (rule session_same_service [OF Suc.prems x(2)])
  note ok = session_sameD(1,2) [OF same]
  let ?e = "if i = 63 then e\<lparr>ev_request_tick := True, ev_tick_delay_ms := 0\<rparr> else e"
  consider "r = - EAGAIN \<or> r = 1" | "\<not> (r = - EAGAIN \<or> r = 1)" "r < 0" | "\<not> (r = - EAGAIN \<or> r = 1)" "\<not> r < 0" by blast
  then show ?case
  proof cases
    case 1
    then show ?thesis using same by (simp add: x(1) session_post_tick)
  next
    case 2
    show ?thesis
      using session_post_same [OF same _ set_error_post [OF assms(1) ok 2(2)]] 2 by (simp add: x(1))
  next
    case 3
    have "session_post s e h (poll_tls_loop env lib (Suc i) n (s\<lparr>ss_svc := sv\<rparr>) ?e h1)"
      by (rule session_post_trans [OF same _ Suc.IH [OF ok]]) (simp add: progress_tick)
    then show ?thesis using 3 by (simp add: x(1) Let_def)
  qed
qed

lemmas poll_tls_post = poll_tls_loop_post [where i = 0 and n = 64, folded session_poll_tls_def]

text \<open>The end of the handshake in activation.\<close>

lemma finish_activation_post:
  assumes "clock_runs env" "session_ok s" "ss_mode s \<noteq> GXFP_MODE_CLOSED"
  shows "session_post s e h (session_maybe_finish_activation env s e h)"
proof (cases "ss_mode s = GXFP_MODE_ACTIVATING_TLS \<and> gxfp_tls_service_state (Some (ss_svc s)) \<in> {GXFP_TLS_HS_CONNECTED, GXFP_TLS_HS_DONE}")
  case False
  then show ?thesis using session_post_tick [OF session_same_refl [OF assms(2,3)], of e e] by (auto simp: session_maybe_finish_activation_def Let_def)
next
  case True
  then have eq: "session_maybe_finish_activation env s e h = Option.bind (session_set_fdt_mode env s e GXFP_FDT_MODE_WAIT_UP h)
      (\<lambda>((s, e), h). if ev_session_error e then Some ((s, e), h)
        else Some ((s\<lparr>ss_mode := GXFP_MODE_ACTIVATING_WAIT_UP\<rparr>, e\<lparr>ev_request_tick := True, ev_tick_delay_ms := 0\<rparr>), h))"
    by (auto simp: session_maybe_finish_activation_def Let_def)
  show ?thesis
    unfolding eq
  proof (cases rule: set_fdt_mode_cases [OF assms, of e GXFP_FDT_MODE_WAIT_UP h])
    case (1 f h')
    have "progress (ss_mode s, e) (GXFP_MODE_ACTIVATING_WAIT_UP, e\<lparr>ev_request_tick := True, ev_tick_delay_ms := 0\<rparr>)"
      using True by (simp add: Connected)
    then show "session_post s e h (Option.bind (session_set_fdt_mode env s e GXFP_FDT_MODE_WAIT_UP h)
      (\<lambda>((s, e), h). if ev_session_error e then Some ((s, e), h)
        else Some ((s\<lparr>ss_mode := GXFP_MODE_ACTIVATING_WAIT_UP\<rparr>, e\<lparr>ev_request_tick := True, ev_tick_delay_ms := 0\<rparr>), h)))"
      unfolding 1(1) using session_post_tick [OF 1(2), of e e] session_postI [OF session_same_mode [OF 1(2), of GXFP_MODE_ACTIVATING_WAIT_UP]]
      by auto
  next
    case (2 f r h')
    then show "session_post s e h (Option.bind (session_set_fdt_mode env s e GXFP_FDT_MODE_WAIT_UP h)
      (\<lambda>((s, e), h). if ev_session_error e then Some ((s, e), h)
        else Some ((s\<lparr>ss_mode := GXFP_MODE_ACTIVATING_WAIT_UP\<rparr>, e\<lparr>ev_request_tick := True, ev_tick_delay_ms := 0\<rparr>), h)))"
      unfolding 2(1) using session_post_fail [OF 2(3) _ assms(3) 2(2)] by simp
  qed
qed

lemma pump_fdt_post:
  assumes "clock_runs env" "session_ok s" "ss_mode s \<noteq> GXFP_MODE_CLOSED"
  shows "session_post s e h (map_option drop_flag (pump_fdt env s e h))"
proof (cases "ss_mode s = GXFP_MODE_WAIT_FINGER_OFF \<or> ss_mode s = GXFP_MODE_ACTIVATING_WAIT_UP")
  case False
  then show ?thesis using session_post_tick [OF session_same_refl [OF assms(2,3)], of e e] by (simp add: pump_fdt_def)
next
  case True
  obtain now where c: "gxfp_monotonic_ms env h = (now, UClock # h)" by (simp add: monotonic_ms_eq)
  obtain r f h1 where f: "gxfp_fdt_flow_poll env (Some (ss_fdt s)) (Some (ss_dev s)) now (UClock # h) = ((r, Some f), h1)" "fdt_inv f"
    "ulive h1 = ulive (UClock # h)" by (rule fdt_poll_kept [OF session_okD(1) [OF assms(2)]])
  have same: "session_same s h (s\<lparr>ss_fdt := f\<rparr>) h1" using f(3) by (intro session_same_fdt [OF assms(2,3) f(2)]) simp
  show ?thesis
  proof (cases "r < 0")
    case r: True
    show ?thesis
      unfolding pump_fdt_def if_P [OF True] c prod.case f(1) option.sel Let_def if_P [OF r]
      by (rule session_post_same [OF same _ session_post_flag_bind [OF set_error_post [OF assms(1) session_sameD(1,2) [OF same] r]]])
         (auto intro: session_post_tick session_same_refl dest: session_sameD)
  next
    case r: False
    show ?thesis
      unfolding pump_fdt_def if_P [OF True] c prod.case f(1) option.sel Let_def if_not_P [OF r]
      using session_post_tick [OF same, of e e] by simp
  qed
qed

text \<open>The end of a capture. The decoded image is a block of its own until the session takes or releases it.\<close>

lemma set_dark_cases:
  assumes "session_ok s" "ss_mode s \<noteq> GXFP_MODE_CLOSED" "image_ok img"
  obtains (taken) dk h' where "session_set_dark_from_image env s img h = ((0, s\<lparr>ss_dark := dk, ss_dark_loaded := True\<rparr>), h')"
      "session_same s h (s\<lparr>ss_dark := dk, ss_dark_loaded := True\<rparr>) h'" "dk = \<lparr>dk_pixels = im_pixels img, dk_rows = im_rows img, dk_cols = im_cols img\<rparr>"
  | (failed) "session_set_dark_from_image env s img h = ((- ENOMEM, s), h)"
proof -
  obtain px where px: "im_pixels img = Some px" "length px = nat (im_rows img) * nat (im_cols img)" "0 < im_rows img" "0 < im_cols img"
    using assms(3) by (auto simp: image_ok_def split: option.splits)
  let ?n = "nat (im_rows img) * nat (im_cols img)" and ?dk = "\<lparr>dk_pixels = im_pixels img, dk_rows = im_rows img, dk_cols = im_cols img\<rparr>"
  show thesis
  proof (cases "sys_malloc env h (2 * ?n)")
    case False
    then show thesis using failed px by (simp add: session_set_dark_from_image_def malloc16_def)
  next
    case True
    let ?h = "if ss_dark_loaded s then snd (gxfp_fpn_free (Some (ss_dark s)) (UMalloc (2 * ?n) # h)) else UMalloc (2 * ?n) # h"
    have l: "ulive ?h = ulive h + 1 - blk (dk_pixels (ss_dark s))"
      using assms(1) by (auto simp: gxfp_fpn_free_def session_ok_def)
    have eq: "session_set_dark_from_image env s img h = ((0, s\<lparr>ss_dark := ?dk, ss_dark_loaded := True\<rparr>), ?h)"
      using px True by (simp add: session_set_dark_from_image_def malloc16_def memcpy_at_0)
    have "session_same s h (s\<lparr>ss_dark := ?dk, ss_dark_loaded := True\<rparr>) ?h"
      using assms(1,2) px l by (simp add: session_same_def session_ok_def session_blocks_def dark_fits_def)
    then show thesis using taken [OF eq] by simp
  qed
qed

lemma accept_dark_post:
  assumes "clock_runs env" "session_ok s" "ss_mode s = GXFP_MODE_ACTIVATING_DARK_CAPTURE" "image_ok img" "ulive h0 = ulive h - 1"
  shows "session_post s e h0 (session_accept_dark env s e img h)"
proof -
  have io: "ss_mode s \<noteq> GXFP_MODE_CLOSED" using assms(3) by simp
  have free: "ulive (snd (gxfp_decoded_image_free (Some img) h')) = ulive h' - 1" for h'
    using assms(4) by (auto simp: gxfp_decoded_image_free_def image_ok_def split: option.splits)
  show ?thesis
  proof (cases rule: set_dark_cases [OF assms(2) io assms(4), where env = env and h = h])
    case (1 dk h1)
    let ?s = "s\<lparr>ss_dark := dk, ss_dark_loaded := True\<rparr>" and ?h = "snd (gxfp_decoded_image_free (Some img) h1)"
    have same: "session_same s h0 ?s ?h" using 1(2) assms(5) free [of h1] by (simp add: session_same_def)
    note ok = session_sameD(1,2) [OF same]
    have eq: "session_accept_dark env s e img h = Option.bind (session_set_fdt_mode env ?s e GXFP_FDT_MODE_IDLE ?h)
       (\<lambda>((s, e), h). if ev_session_error e then Some ((s, e), h)
          else Some ((s\<lparr>ss_mode := GXFP_MODE_IDLE\<rparr>, e\<lparr>ev_activate_complete := True\<rparr>), h))"
      using 1(1) by (simp add: session_accept_dark_def)
    show ?thesis
      unfolding eq
    proof (cases rule: set_fdt_mode_cases [OF assms(1) ok, of e GXFP_FDT_MODE_IDLE ?h])
      case (1 f h2)
      have a: "session_same s h0 (?s\<lparr>ss_fdt := f\<rparr>) h2" by (rule session_same_trans [OF same 1(2)])
      have "progress (ss_mode s, e) (GXFP_MODE_IDLE, e\<lparr>ev_activate_complete := True\<rparr>)" using assms(3) by (simp add: Dark_frame)
      then show "session_post s e h0 (Option.bind (session_set_fdt_mode env ?s e GXFP_FDT_MODE_IDLE ?h)
         (\<lambda>((s, e), h). if ev_session_error e then Some ((s, e), h)
            else Some ((s\<lparr>ss_mode := GXFP_MODE_IDLE\<rparr>, e\<lparr>ev_activate_complete := True\<rparr>), h)))"
        unfolding 1(1) using session_post_tick [OF a, of e e] session_postI [OF session_same_mode [OF a, of GXFP_MODE_IDLE]] by auto
    qed simp
  next
    case 2
    have same: "session_same s h0 s (snd (gxfp_decoded_image_free (Some img) h))"
      using session_same_refl [OF assms(2) io] assms(5) free [of h] by (simp add: session_same_def)
    show ?thesis
      using session_post_same [OF same _ set_error_post [OF assms(1,2) io, of "- ENOMEM"]] 2 assms(3) by (simp add: session_accept_dark_def)
  qed
qed

lemma accept_image_post:
  assumes "clock_runs env" "session_ok s" "ss_mode s = GXFP_MODE_CAPTURING" "image_ok img" "ulive h0 = ulive h - 1"
  shows "session_post s e h0 (session_accept_image env s e img h)"
proof -
  have io: "ss_mode s \<noteq> GXFP_MODE_CLOSED" using assms(3) by simp
  obtain px where px: "im_pixels img = Some px" "length px = nat (im_rows img) * nat (im_cols img)" "0 < im_rows img" "0 < im_cols img"
    using assms(4) by (auto simp: image_ok_def split: option.splits)
  have dark: "dark_fits (dk_rows (ss_dark s)) (dk_cols (ss_dark s)) (Some (ss_dark s))" if "ss_dark_loaded s"
    using assms(2) that by (simp add: session_ok_def)
  obtain r out where c: "(if ss_dark_loaded s then gxfp_fpn_correct (im_pixels img) (im_rows img) (im_cols img) (Some (ss_dark s))
      else Some (0, im_pixels img)) = Some (r, Some out)" "length out = length px"
  proof (cases "ss_dark_loaded s")
    case True
    obtain r out where "gxfp_fpn_correct (Some px) (im_rows img) (im_cols img) (Some (ss_dark s)) = Some (r, Some out)" "length out = length px"
      by (rule fpn_correct_total [OF px(3,4,2) dark [OF True]])
    then show thesis using that True px(1) by simp
  next
    case False
    then show thesis using that [of 0 px] px(1) by simp
  qed
  let ?img = "img\<lparr>im_pixels := Some out\<rparr>"
  have eq: "session_accept_image env s e img h =
     (if r < 0 then session_set_error env s e r GXFP_SESSION_ERR_TARGET_CAPTURE (snd (gxfp_decoded_image_free (Some ?img) h))
      else Some ((s\<lparr>ss_pending_img := ?img, ss_pending_img_ready := True, ss_mode := GXFP_MODE_IDLE\<rparr>, e\<lparr>ev_image_ready := True\<rparr>),
        if ss_pending_img_ready s then snd (gxfp_decoded_image_free (Some (ss_pending_img s)) h) else h))"
    using c(1) by (simp add: session_accept_image_def Let_def)
  show ?thesis
  proof (cases "r < 0")
    case True
    have same: "session_same s h0 s (snd (gxfp_decoded_image_free (Some ?img) h))"
      using session_same_refl [OF assms(2) io] assms(5) by (simp add: session_same_def gxfp_decoded_image_free_def)
    show ?thesis unfolding eq using True by (simp add: session_post_same [OF same _ set_error_post [OF assms(1,2) io True]])
  next
    case False
    let ?h = "if ss_pending_img_ready s then snd (gxfp_decoded_image_free (Some (ss_pending_img s)) h) else h"
    have "ulive ?h = ulive h - blk (im_pixels (ss_pending_img s))"
      using assms(2) by (auto simp: gxfp_decoded_image_free_def session_ok_def)
    then have same: "session_same s h0 (s\<lparr>ss_pending_img := ?img, ss_pending_img_ready := True, ss_mode := GXFP_MODE_IDLE\<rparr>) ?h"
      using assms(2,5) io px c(2) by (simp add: session_same_def session_ok_def session_blocks_def image_ok_def)
    have "progress (ss_mode s, e) (GXFP_MODE_IDLE, e\<lparr>ev_image_ready := True\<rparr>)" using assms(3) by (simp add: Image)
    then show ?thesis unfolding eq if_not_P [OF False] by (intro session_postI [OF same]) simp
  qed
qed

lemma finalize_post:
  assumes "clock_runs env" "session_ok s" "ss_mode s \<in> {GXFP_MODE_ACTIVATING_DARK_CAPTURE, GXFP_MODE_CAPTURING}"
    and "t = GXFP_SESSION_ERR_TARGET_ACTIVATE \<longrightarrow> activating (ss_mode s)"
  shows "session_post s e h (session_finalize_capture env s e t h)"
proof -
  have io: "ss_mode s \<noteq> GXFP_MODE_CLOSED" using assms(3) by auto
  have l5: "length (ufresh env h 5) = 5" by simp
  show ?thesis
  proof (cases "gxfp_tls_service_state (Some (ss_svc s)) = GXFP_TLS_HS_DONE")
    case False
    then show ?thesis using session_post_tick [OF session_same_refl [OF assms(2) io], of e e] by (simp add: session_finalize_capture_def)
  next
    case True
    show ?thesis
    proof (cases rule: service_raw_ok [OF session_okD(2) [OF assms(2)] l5, where env = env and h = h])
      case (1 r sv oh body h1)
      have same: "session_same s h (s\<lparr>ss_svc := sv\<rparr>) h1" by (rule session_same_service [OF assms(2) io 1(3)])
      have "(if r < 0 then r else - EIO) < 0" by simp
      from session_post_same [OF same _ set_error_post [OF assms(1) session_sameD(1,2) [OF same] this]]
      show ?thesis using 1 True assms(4) by (simp add: session_finalize_capture_def Let_def)
    next
      case (2 sv oh img h1)
      let ?s = "s\<lparr>ss_svc := sv\<rparr>"
      have same: "session_same s h ?s (ufree h1)" by (rule session_same_service [OF assms(2) io 2(2)])
      note ok = session_sameD(1,2) [OF same]
      show ?thesis
      proof (cases rule: auto_decode_cases [where env = env and b = img and im = image_zero and h = h1])
        case (failed r h2)
        have eq: "session_finalize_capture env s e t h = session_set_error env ?s e r t (ufree h2)"
          using failed 2 True by (simp add: session_finalize_capture_def Let_def ufree_ptr_def)
        have "session_same s h ?s (ufree h2)" using same failed(3) by (simp add: session_same_def)
        from session_post_same [OF this _ set_error_post [OF assms(1) ok failed(2)]] show ?thesis unfolding eq using assms(4) by simp
      next
        case (image px rows cols h2)
        let ?im = "image_zero\<lparr>im_pixels := Some px, im_rows := int rows, im_cols := int cols\<rparr>"
        have eq: "session_finalize_capture env s e t h =
            (if ss_mode s = GXFP_MODE_ACTIVATING_DARK_CAPTURE then session_accept_dark env ?s e ?im (ufree h2)
             else session_accept_image env ?s e ?im (ufree h2))"
          using image 2 True by (simp add: session_finalize_capture_def Let_def ufree_ptr_def)
        have im: "image_ok ?im" using image by (simp add: image_ok_def)
        have l: "ulive (ufree h1) = ulive (ufree h2) - 1" using image(5) by simp
        have "session_post ?s e (ufree h1) (session_accept_dark env ?s e ?im (ufree h2))" if "ss_mode s = GXFP_MODE_ACTIVATING_DARK_CAPTURE"
          by (rule accept_dark_post [OF assms(1) ok(1) _ im l]) (simp add: that)
        moreover have "session_post ?s e (ufree h1) (session_accept_image env ?s e ?im (ufree h2))" if "ss_mode s = GXFP_MODE_CAPTURING"
          by (rule accept_image_post [OF assms(1) ok(1) _ im l]) (simp add: that)
        ultimately show ?thesis unfolding eq using assms(3) session_post_same [OF same] by auto
      qed
    qed
  qed
qed

lemma signals_pump_ticks: "signals (pump_ticks s e) = signals e"
  by (simp add: pump_ticks_def Let_def)

lemma session_post_quiet: "session_ok s \<Longrightarrow> ss_mode s \<noteq> GXFP_MODE_CLOSED \<Longrightarrow> signals e' = signals e \<Longrightarrow> session_post s e h (Some ((s, e'), h))"
  by (rule session_post_tick [OF session_same_refl]) simp_all

lemma pump_capture_post:
  assumes "clock_runs env" "session_ok s" "ss_mode s \<noteq> GXFP_MODE_CLOSED"
  shows "session_post s e h (pump_capture env s e h)"
proof -
  let ?t = "if ss_mode s = GXFP_MODE_CAPTURING then GXFP_SESSION_ERR_TARGET_CAPTURE else GXFP_SESSION_ERR_TARGET_ACTIVATE"
  have "session_post s e h (if ss_mode s = GXFP_MODE_ACTIVATING_DARK_CAPTURE \<or> ss_mode s = GXFP_MODE_CAPTURING
        then session_finalize_capture env s e ?t h else Some ((s, e), h))"
    using finalize_post [OF assms(1,2)] session_post_quiet [OF assms(2,3)] by auto
  then show ?thesis
    unfolding pump_capture_def
    by (rule session_post_bind) (simp add: session_post_quiet session_sameD signals_pump_ticks)
qed

lemma set_error_fails: "session_set_error env s e r t h = Some ((s', e'), h') \<Longrightarrow> ss_mode s' = GXFP_MODE_FAILED"
  by (auto simp: session_set_error_def Let_def split: if_splits bind_splits)

lemma progress_cancel: "m = GXFP_MODE_FAILED \<Longrightarrow> progress\<^sup>*\<^sup>* (m, e) (m, e\<lparr>ev_cancel_tick := True\<rparr>)"
  by (auto intro: Cancel)

lemma pump_post:
  assumes "clock_runs env" "lib_ok lib" "lib_drains lib" "session_ok s" "ss_mode s \<noteq> GXFP_MODE_CLOSED"
  shows "session_post s e h (session_pump_impl env lib c s e h)"
proof -
  let ?t = "if ss_mode s \<noteq> GXFP_MODE_CAPTURING then GXFP_SESSION_ERR_TARGET_ACTIVATE else GXFP_SESSION_ERR_TARGET_CAPTURE"
  let ?stop = "ss_mode s = GXFP_MODE_CLOSED \<or> ss_mode s = GXFP_MODE_READY \<or> ss_mode s = GXFP_MODE_FAILED"
  let ?cancel = "c \<and> (ss_mode s = GXFP_MODE_ACTIVATING_TLS \<or> ss_mode s = GXFP_MODE_ACTIVATING_WAIT_UP \<or>
        ss_mode s = GXFP_MODE_ACTIVATING_DARK_CAPTURE \<or> ss_mode s = GXFP_MODE_CAPTURING)"
  have mid: "session_post s e h (do { ((go, s, e), h) \<leftarrow> pump_fdt env s e h; if \<not> go then Some ((s, e), h) else pump_capture env s e h })"
    if "session_ok s" "ss_mode s \<noteq> GXFP_MODE_CLOSED" for s e h
    by (rule session_post_bind_flag [OF pump_fdt_post [OF assms(1) that]])
       (auto intro: session_post_quiet pump_capture_post [OF assms(1)] dest: session_sameD)
  have fin: "session_post s e h (do {
       ((s, e), h) \<leftarrow> session_maybe_finish_activation env s e h;
       if ev_session_error e then Some ((s, e), h)
       else do { ((go, s, e), h) \<leftarrow> pump_fdt env s e h; if \<not> go then Some ((s, e), h) else pump_capture env s e h } })"
    if "session_ok s" "ss_mode s \<noteq> GXFP_MODE_CLOSED" for s e h
    by (rule session_post_bind [OF finish_activation_post [OF assms(1) that]])
       (auto intro: session_post_quiet mid dest: session_sameD)
  consider ?stop | "\<not> ?stop" ?cancel | "\<not> ?stop" "\<not> ?cancel" by blast
  then show ?thesis
  proof cases
    case 1
    show ?thesis unfolding session_pump_impl_def if_P [OF 1] by (rule session_post_quiet [OF assms(4,5)]) simp
  next
    case 2
    show ?thesis
      unfolding session_pump_impl_def if_not_P [OF 2(1)] if_P [OF 2(2)]
      by (rule session_post_bind [OF set_error_post [OF assms(1,4,5)]])
         (use 2(2) in \<open>auto simp: activating_def intro!: session_postI session_same_refl intro: progress_cancel set_error_fails
             dest: session_sameD\<close>)
  next
    case 3
    show ?thesis
      unfolding session_pump_impl_def if_not_P [OF 3(1)] if_not_P [OF 3(2)]
      by (rule session_post_bind [OF poll_tls_post [OF assms]]) (auto intro: session_post_quiet fin dest: session_sameD)
  qed
qed

section \<open>Records from the device\<close>

lemma read_record_cases:
  assumes "errnos env" "0 \<le> ud_fd d" "tap_ok (Some b) cap"
  obtains (dry) n b' h' where "gxfp_dev_read_record env (Some d) (Some b) cap h = ((n, Some b', None), h')" "n < 0" "tap_ok (Some b') cap"
      "ulive h' = ulive h"
  | (one) b' hdr p k where "gxfp_dev_read_record env (Some d) (Some b) cap h =
        ((int (Suc k), Some b', Some (hdr, Some p, unat (th_len hdr))), URead (ud_fd d) cap # h)" "tap_ok (Some b') cap" "unat (th_len hdr) \<le> length p"
      "\<exists>got. sys_read env h (ud_fd d) cap = Inr got \<and> got \<noteq> []"
proof -
  have cap: "0 < cap" "length b = cap" using assms(3) by (simp_all add: tap_ok_def TAP_HDR_SIZE_def)
  have fd: "\<not> (ud_fd d < 0 \<or> cap = 0)" using assms(2) cap by simp
  let ?h = "URead (ud_fd d) cap # h"
  have l: "ulive ?h = ulive h" by simp
  show thesis
  proof (cases "sys_read env h (ud_fd d) cap")
    case (Inl e)
    then have e: "0 < e" using assms(1) by (auto simp: errnos_def)
    have "gxfp_dev_read_record env (Some d) (Some b) cap h = ((- e, Some b, None), ?h)"
      using Inl fd by (simp add: gxfp_dev_read_record_def Let_def)
    from dry [OF this _ assms(3) l] e show thesis by simp
  next
    case (Inr g)
    define got where "got = take cap g"
    have t: "tap_ok (Some (memcpy_at b 0 got)) cap" using assms(3) cap by (auto simp: tap_ok_def memcpy_at_0 got_def)
    have eq: "gxfp_dev_read_record env (Some d) (Some b) cap h =
       (if got = [] then ((- EAGAIN, Some (memcpy_at b 0 got), None), ?h)
        else case parse_tap_record (Some (memcpy_at b 0 got)) (length got) of
               Inl pr \<Rightarrow> ((pr, Some (memcpy_at b 0 got), None), ?h)
             | Inr out \<Rightarrow> ((int (length got), Some (memcpy_at b 0 got), Some out), ?h))"
      unfolding gxfp_dev_read_record_def option.case prod.case if_not_P [OF fd] Let_def Inr sum.case got_def ..
    show thesis
    proof (cases "got = []")
      case True
      then show thesis using dry [of "- EAGAIN" "memcpy_at b 0 got" ?h] eq t by simp
    next
      case False
      then obtain k where k: "length got = Suc k" by (cases got) auto
      let ?b = "memcpy_at b 0 got"
      let ?hdr = "tap_hdr_of ?b"
      have lb: "length ?b = cap" "length got \<le> cap" using cap by (simp_all add: memcpy_at_0 got_def)
      show thesis
      proof (cases "length got < TAP_HDR_SIZE \<or> TAP_HDR_SIZE + unat (th_len ?hdr) \<noteq> length got")
        case True
        then show thesis using dry [of "- EBADMSG" ?b ?h] eq t False by (auto simp: parse_tap_record_def Let_def)
      next
        case ok: False
        then have n: "TAP_HDR_SIZE + unat (th_len ?hdr) = length got" "TAP_HDR_SIZE \<le> length got" by simp_all
        then have ln: "unat (th_len ?hdr) \<le> length (drop TAP_HDR_SIZE ?b)" unfolding length_drop lb(1) using lb(2) by linarith
        have p: "parse_tap_record (Some ?b) (length got) = Inr (?hdr, Some (drop TAP_HDR_SIZE ?b), unat (th_len ?hdr))"
          using n by (simp add: parse_tap_record_def Let_def)
        show thesis
          by (rule one [OF _ t ln]) (use eq False p k Inr in \<open>auto simp: got_def\<close>)
      qed
    qed
  qed
qed

lemma session_same_tap:
  "session_ok s \<Longrightarrow> ss_mode s \<noteq> GXFP_MODE_CLOSED \<Longrightarrow> tap_ok (Some b) (ss_tap_io_cap s) \<Longrightarrow> ss_tap_io_buf s = Some b0 \<Longrightarrow> ulive h' = ulive h \<Longrightarrow>
   session_same s h (s\<lparr>ss_tap_io_buf := Some b\<rparr>) h'"
  by (simp add: session_same_def session_ok_def session_blocks_def)

lemma finger_events_post:
  assumes "clock_runs env" "session_ok s" "ss_mode s \<noteq> GXFP_MODE_CLOSED"
  shows "session_post s e h (map_option drop_flag (fd_finger_events env s e x h))"
proof -
  define e1 where "e1 = (if ss_mode s = GXFP_MODE_WAIT_FINGER_ON \<and> x AND GXFP_FDT_EVENT_DOWN \<noteq> 0
               then e\<lparr>ev_finger_status_changed := True, ev_finger_present := True\<rparr> else e)"
  define e2 where "e2 = (if ss_mode s = GXFP_MODE_WAIT_FINGER_OFF \<and> x AND GXFP_FDT_EVENT_UP \<noteq> 0
               then e1\<lparr>ev_finger_status_changed := True, ev_finger_present := False\<rparr> else e1)"
  have sig: "ss_mode s = GXFP_MODE_ACTIVATING_WAIT_UP \<Longrightarrow> e2 = e" by (simp add: e1_def e2_def)
  have fing: "progress\<^sup>*\<^sup>* (ss_mode s, e) (ss_mode s, e2)"
    unfolding e1_def e2_def using Finger_down [of e] Finger_up [of e] by auto
  obtain r sv h1 where q: "gxfp_tls_service_request_capture (Some (ss_svc s)) h = ((r, Some sv), h1)" "svc_same (ss_dev s) (ss_svc s) h sv h1"
    by (rule service_request_ok [OF session_okD(2) [OF assms(2)]])
  have same: "session_same s h (s\<lparr>ss_svc := sv\<rparr>) h1" by (rule session_same_service [OF assms(2,3) q(2)])
  have eq: "fd_finger_events env s e x h =
     (if ss_mode s = GXFP_MODE_ACTIVATING_WAIT_UP \<and> x AND GXFP_FDT_EVENT_UP \<noteq> 0
      then if r < 0 then do {
             ((s, e), h) \<leftarrow> session_set_error env (s\<lparr>ss_svc := sv\<rparr>) e2 r GXFP_SESSION_ERR_TARGET_ACTIVATE h1; Some ((False, s, e), h) }
           else Some ((True, s\<lparr>ss_svc := sv, ss_mode := GXFP_MODE_ACTIVATING_DARK_CAPTURE\<rparr>,
               e2\<lparr>ev_request_tick := True, ev_tick_delay_ms := 0\<rparr>), h1)
      else Some ((True, s, e2), h))"
    unfolding fd_finger_events_def e1_def [symmetric] e2_def [symmetric] Let_def q(1) prod.case option.sel by simp
  consider "\<not> (ss_mode s = GXFP_MODE_ACTIVATING_WAIT_UP \<and> x AND GXFP_FDT_EVENT_UP \<noteq> 0)"
    | "ss_mode s = GXFP_MODE_ACTIVATING_WAIT_UP \<and> x AND GXFP_FDT_EVENT_UP \<noteq> 0" "r < 0"
    | "ss_mode s = GXFP_MODE_ACTIVATING_WAIT_UP \<and> x AND GXFP_FDT_EVENT_UP \<noteq> 0" "\<not> r < 0" by blast
  then show ?thesis
  proof cases
    case 1
    then show ?thesis unfolding eq if_not_P [OF 1] using session_postI [OF session_same_refl [OF assms(2,3)] fing] by simp
  next
    case 2
    show ?thesis
      unfolding eq if_P [OF 2(1)] if_P [OF 2(2)]
      by (rule session_post_trans [OF same _ session_post_flag_bind [OF set_error_post [OF assms(1) session_sameD(1,2) [OF same] 2(2)]]])
         (use fing 2(1) in \<open>auto intro: session_post_quiet dest: session_sameD\<close>)
  next
    case 3
    have "progress (ss_mode s, e) (GXFP_MODE_ACTIVATING_DARK_CAPTURE, e2\<lparr>ev_request_tick := True, ev_tick_delay_ms := 0\<rparr>)"
      using 3(1) by (simp add: Finger_off sig)
    then show ?thesis
      unfolding eq if_P [OF 3(1)] if_not_P [OF 3(2)]
      using session_postI [OF session_same_mode [OF same, of GXFP_MODE_ACTIVATING_DARK_CAPTURE]] by auto
  qed
qed

lemma fd_failed_post:
  assumes "clock_runs env" "session_ok s" "ss_mode s \<noteq> GXFP_MODE_CLOSED" "r < 0"
  shows "session_post s e h (map_option drop_flag (fd_failed env s e r h))"
  unfolding fd_failed_def
  by (rule session_post_flag_bind [OF set_error_post [OF assms]]) (simp_all add: session_post_quiet session_sameD)

lemma fd_feed_tls_post:
  assumes "clock_runs env" "session_ok s" "ss_mode s \<noteq> GXFP_MODE_CLOSED" "unat (th_len hdr) \<le> length p"
  shows "session_post s e h (map_option drop_flag (fd_feed_tls env s e hdr (Some p) h))"
proof -
  obtain r sv h1 where q: "gxfp_tls_service_feed_tap_record env (Some (ss_svc s)) hdr (Some p) (unat (th_len hdr)) h = ((r, Some sv), h1)"
    "svc_same (ss_dev s) (ss_svc s) h sv h1" by (rule service_feed_ok [OF session_okD(2) [OF assms(2)] assms(4)])
  have same: "session_same s h (s\<lparr>ss_svc := sv\<rparr>) h1" by (rule session_same_service [OF assms(2,3) q(2)])
  show ?thesis
    using q(1) session_post_tick [OF same, of e e] session_post_same [OF same _ fd_failed_post [OF assms(1) session_sameD(1,2) [OF same]]]
    by (simp add: fd_feed_tls_def Let_def)
qed

text \<open>A round reads at most one record, and goes on only after it has read one.\<close>

lemma fd_round_post:
  assumes "clock_runs env" "errnos env" "session_ok s" "ss_mode s \<noteq> GXFP_MODE_CLOSED"
  shows "session_post s e h (map_option drop_flag (fd_round env s e h))"
proof -
  have fd: "0 \<le> ud_fd (ss_dev s)" by (rule session_okD(3) [OF assms(3,4)])
  show ?thesis
  proof (cases "ss_tap_io_buf s = None \<or> ss_tap_io_cap s = 0")
    case True
    show ?thesis unfolding fd_round_def Let_def if_P [OF True] by (rule fd_failed_post [OF assms(1,3,4)]) simp
  next
    case False
    then obtain b where b: "ss_tap_io_buf s = Some b" by auto
    have t: "tap_ok (Some b) (ss_tap_io_cap s)" using assms(3) b by (simp add: session_ok_def)
    show ?thesis
    proof (cases rule: read_record_cases [OF assms(2) fd t, where h = h])
      case (1 n b' h')
      have same: "session_same s h (s\<lparr>ss_tap_io_buf := Some b'\<rparr>) h'" by (rule session_same_tap [OF assms(3,4) 1(3) b 1(4)])
      have eq: "fd_round env s e h = (if n = - EAGAIN then Some ((False, s\<lparr>ss_tap_io_buf := Some b'\<rparr>, e), h')
          else fd_failed env (s\<lparr>ss_tap_io_buf := Some b'\<rparr>) e n h')"
        using False 1(1,2) b by (simp add: fd_round_def Let_def)
      show ?thesis
        unfolding eq using session_post_tick [OF same, of e e]
          session_post_same [OF same _ fd_failed_post [OF assms(1) session_sameD(1,2) [OF same] 1(2)]] by simp
    next
      case (2 b' hdr p k)
      let ?h = "URead (ud_fd (ss_dev s)) (ss_tap_io_cap s) # h" and ?s = "s\<lparr>ss_tap_io_buf := Some b'\<rparr>"
      have same0: "session_same s h ?s ?h" by (rule session_same_tap [OF assms(3,4) 2(2) b]) simp
      obtain r f x h1 where f: "gxfp_fdt_flow_feed_record env (Some (ss_fdt s)) (Some (ss_dev s)) (Some hdr) (Some p) (unat (th_len hdr)) ?h =
          ((r, Some f, x), h1)" "fdt_inv f" "ulive h1 = ulive ?h"
        by (rule fdt_feed_kept [OF session_okD(1) [OF assms(3)]])
      let ?s1 = "?s\<lparr>ss_fdt := f\<rparr>"
      have same: "session_same s h ?s1 h1"
        by (rule session_same_trans [OF same0 session_same_fdt [OF session_sameD(1,2) [OF same0] f(2,3)]])
      note ok = session_sameD(1,2) [OF same]
      have eq: "fd_round env s e h = (if r < 0 \<and> r \<noteq> - EAGAIN then fd_failed env ?s1 e r h1
          else do {
            ((go, s, e), h) \<leftarrow> fd_finger_events env ?s1 e x h1;
            if \<not> go then Some ((False, s, e), h) else fd_feed_tls env s e hdr (Some p) h })"
        using False 2(1) b f(1) by (simp add: fd_round_def Let_def)
      have rest: "session_post ?s1 e h1 (map_option drop_flag (do {
            ((go, s, e), h) \<leftarrow> fd_finger_events env ?s1 e x h1;
            if \<not> go then Some ((False, s, e), h) else fd_feed_tls env s e hdr (Some p) h }))"
        by (rule session_post_flag_bind_flag [OF finger_events_post [OF assms(1) ok]])
           (auto intro: session_post_quiet fd_feed_tls_post [OF assms(1) _ _ 2(3)] dest: session_sameD)
      show ?thesis
        unfolding eq using session_post_same [OF same _ fd_failed_post [OF assms(1) ok]] session_post_same [OF same _ rest] by simp
    qed
  qed
qed

end
