(* ===== verification/Session_Run.thy ===== *)
theory Session_Run
  imports Session_Inv
begin

unbundle bit_operations_syntax

text \<open>
  Runs of a session: the loop that reads the records, opening, activation, closing, and the life of a session from its
  creation to its disposal.
\<close>

section \<open>The loop of records\<close>

text \<open>What follows a read without reading again.\<close>

definition unread :: "uhist \<Rightarrow> uhist \<Rightarrow> bool" where
  "unread h h' \<longleftrightarrow> (\<exists>k. h' = k @ h \<and> (\<forall>fd n. URead fd n \<notin> set k))"

lemma unread_refl [simp, intro]: "unread h h"
  by (simp add: unread_def)

lemma unread_trans: "unread h h1 \<Longrightarrow> unread h1 h2 \<Longrightarrow> unread h h2"
  by (fastforce simp: unread_def)

lemma unread_call [simp]:
  "unread h (UClock # h)" "unread h (UMalloc n # h)" "unread h (UFree # h)" "unread h (UWrite fd b # h)" "unread h (ufree h)"
  "unread h (ufree_ptr p h)"
  by (auto simp: unread_def ufree_def ufree_ptr_def split: option.split)

text \<open>A burst: a read that delivers bytes, then whatever does not read. The driver promises that a burst ends, that is, that
  sooner or later a read finds the queue empty.\<close>

definition burst :: "uenv \<Rightarrow> uhist \<Rightarrow> uhist \<Rightarrow> bool" where
  "burst env h' h \<longleftrightarrow> (\<exists>fd n got. sys_read env h fd n = Inr got \<and> got \<noteq> [] \<and> unread (URead fd n # h) h')"

definition bursts_end :: "uenv \<Rightarrow> bool" where
  "bursts_end env \<longleftrightarrow> wfp (burst env)"

lemma send_packet_unread: "gxfp_dev_send_packet env dev t p n h = (r, h') \<Longrightarrow> unread h h'"
  by (auto simp: gxfp_dev_send_packet_def Let_def malloc_def unread_def ufree_def split: option.splits if_splits sum.splits)

lemma fdt_send_unread: "fdt_send env d c m t h = (r, h') \<Longrightarrow> unread h h'"
  by (auto simp: fdt_send_def gxfp_goodix_send_async_def Let_def split: prod.splits if_splits dest: send_packet_unread)

lemma fdt_feed_unread:
  assumes "fdt_inv f" "gxfp_fdt_flow_feed_record env (Some f) (Some d) hdr p n h = ((r, f', x), h')"
  shows "unread h h'"
proof -
  obtain r1 cmd status where u: "fdt_update_state_from_record (Some (ff_cmd f)) hdr p n = (r1, cmd, status)"
    using prod_cases3 by blast
  obtain s2 where s2: "cmd = Some s2" "fdt_cmd_ok s2" using update_from_record_ok(1) [OF fdt_invD(1) [OF assms(1)] u] by blast
  then show ?thesis
    using assms(2) u by (auto simp: gxfp_fdt_flow_feed_record_def fdt_commands_eq Let_def dest!: fdt_send_unread
        split: prod.splits if_splits) (blast intro: unread_trans)+
qed

lemma request_unread: "gxfp_tls_service_request_capture sv h = ((r, sv'), h') \<Longrightarrow> unread h h'"
  by (auto simp: gxfp_tls_service_request_capture_def gxfp_plain_image_sink_reset_def split: option.splits if_splits)

lemma feed_tap_unread: "gxfp_tls_service_feed_tap_record env sv hdr p n h = ((r, sv'), h') \<Longrightarrow> unread h h'"
  by (auto simp: gxfp_tls_service_feed_tap_record_def monotonic_ms_eq Let_def split: option.splits if_splits prod.splits)

lemma finger_events_unread: "fd_finger_events env s e x h = Some ((True, s', e'), h') \<Longrightarrow> unread h h'"
  by (auto simp: fd_finger_events_def Let_def dest: request_unread split: prod.splits if_splits bind_splits)

lemma feed_tls_unread: "fd_feed_tls env s e hdr p h = Some ((True, s', e'), h') \<Longrightarrow> unread h h'"
  by (auto simp: fd_feed_tls_def fd_failed_def Let_def dest: feed_tap_unread split: prod.splits if_splits bind_splits)

lemma not_failed_on: "fd_failed env s e r h \<noteq> Some ((True, s', e'), h')"
  by (auto simp: fd_failed_def split: bind_splits)

text \<open>A round that goes on has read a record.\<close>

lemma fd_round_burst:
  assumes "errnos env" "session_ok s" "ss_mode s \<noteq> GXFP_MODE_CLOSED" "fd_round env s e h = Some ((True, s', e'), h')"
  shows "burst env h' h"
proof -
  have fd: "0 \<le> ud_fd (ss_dev s)" by (rule session_okD(3) [OF assms(2,3)])
  have b0: "\<not> (ss_tap_io_buf s = None \<or> ss_tap_io_cap s = 0)" 
  proof
    assume none: "ss_tap_io_buf s = None \<or> ss_tap_io_cap s = 0"
    show False using assms(4) not_failed_on unfolding fd_round_def if_P [OF none] by blast
  qed
  then obtain b where b: "ss_tap_io_buf s = Some b" by auto
  have t: "tap_ok (Some b) (ss_tap_io_cap s)" using assms(2) b by (simp add: session_ok_def)
  show ?thesis
  proof (cases rule: read_record_cases [OF assms(1) fd t, where h = h])
    case (1 n b' h1)
    then show ?thesis using assms(4) b0 b not_failed_on by (auto simp: fd_round_def Let_def split: if_splits)
  next
    case (2 b' hdr p k)
    let ?h = "URead (ud_fd (ss_dev s)) (ss_tap_io_cap s) # h" and ?s = "s\<lparr>ss_tap_io_buf := Some b'\<rparr>"
    obtain r f x h1 where f: "gxfp_fdt_flow_feed_record env (Some (ss_fdt s)) (Some (ss_dev s)) (Some hdr) (Some p) (unat (th_len hdr)) ?h =
        ((r, Some f, x), h1)"
      by (rule fdt_feed_kept [OF session_okD(1) [OF assms(2)]])
    note u = fdt_feed_unread [OF session_okD(1) [OF assms(2)] f]
    have "\<not> (r < 0 \<and> r \<noteq> - EAGAIN)" using assms(4) b0 b 2(1) f not_failed_on by (auto simp: fd_round_def Let_def split: if_splits)
    then have "do { ((go, s, e), h) \<leftarrow> fd_finger_events env (?s\<lparr>ss_fdt := f\<rparr>) e x h1;
        if \<not> go then Some ((False, s, e), h) else fd_feed_tls env s e hdr (Some p) h } = Some ((True, s', e'), h')"
      using assms(4) b0 b 2(1) f by (auto simp: fd_round_def Let_def)
    then obtain s2 e2 h2 where on: "fd_finger_events env (?s\<lparr>ss_fdt := f\<rparr>) e x h1 = Some ((True, s2, e2), h2)"
      "fd_feed_tls env s2 e2 hdr (Some p) h2 = Some ((True, s', e'), h')"
      by (auto split: bind_splits if_splits)
    have "unread ?h h'" by (rule unread_trans [OF u unread_trans [OF finger_events_unread [OF on(1)] feed_tls_unread [OF on(2)]]])
    then show ?thesis using 2(4) by (auto simp: burst_def)
  qed
qed

lemma fd_loop_post:
  assumes "clock_runs env" "errnos env" "bursts_end env" "session_ok s" "ss_mode s \<noteq> GXFP_MODE_CLOSED"
  shows "session_post s e h (fd_loop env s e h)"
  using assms(3) [unfolded bursts_end_def] assms(4,5)
proof (induction h arbitrary: s e rule: wfp_induct_rule)
  case (less h)
  have post: "session_post s e h (map_option drop_flag (fd_round env s e h))" by (rule fd_round_post [OF assms(1,2) less.prems])
  then obtain go s1 e1 h1 where r: "fd_round env s e h = Some ((go, s1, e1), h1)" "session_same s h s1 h1"
    "progress\<^sup>*\<^sup>* (ss_mode s, e) (ss_mode s1, e1)"
    by (auto simp: session_post_def drop_flag_def split: prod.splits)
  show ?case
  proof (cases go)
    case False
    then show ?thesis using session_postI [OF r(2,3)] by (subst fd_loop.simps) (simp add: r(1))
  next
    case True
    have "burst env h1 h" using fd_round_burst [OF assms(2) less.prems] r(1) True by simp
    from less.IH [OF this session_sameD(1,2) [OF r(2)]] have "session_post s e h (fd_loop env s1 e1 h1)"
      by (rule session_post_trans [OF r(2,3)])
    then show ?thesis using True by (subst fd_loop.simps) (simp add: r(1))
  qed
qed

lemma on_fd_post:
  assumes "clock_runs env" "errnos env" "bursts_end env" "lib_ok lib" "lib_drains lib" "session_ok s" "ss_mode s \<noteq> GXFP_MODE_CLOSED"
  shows "session_post s e h (session_on_fd_impl env lib cond c s e h)"
proof -
  have loop: "session_post s e h (do { ((s, e), h) \<leftarrow> fd_loop env s e h; session_pump_impl env lib c s e h })"
    by (rule session_post_bind [OF fd_loop_post [OF assms(1-3,6,7)]]) (auto intro: pump_post [OF assms(1,4,5)] dest: session_sameD)
  then show ?thesis
    using session_post_quiet [OF assms(6,7), of e e] set_error_post [OF assms(1,6,7), of "- EIO"]
    by (auto simp: session_on_fd_impl_def)
qed

section \<open>Requests\<close>

lemma set_fdt_mode_post:
  assumes "clock_runs env" "session_ok s" "ss_mode s \<noteq> GXFP_MODE_CLOSED"
  shows "session_post s e h (session_set_fdt_mode env s e m h)"
proof (cases rule: set_fdt_mode_cases [OF assms, of e m h])
  case (1 f h')
  then show ?thesis using session_post_tick [OF 1(2), of e e] by simp
next
  case (2 f r h')
  then show ?thesis using session_post_fail [OF 2(3) _ assms(3) 2(2)] by simp
qed

text \<open>The request of the driver: the mode it asks for, from which the session makes progress.\<close>

lemma change_state_post:
  assumes "clock_runs env" "session_ok s" "ss_mode s \<noteq> GXFP_MODE_CLOSED"
  obtains s0 h0 where "session_same s h s0 h0"
    "ss_mode s0 = ss_mode s \<or> ss_mode s \<noteq> GXFP_MODE_FAILED \<and>
       ss_mode s0 \<in> (case st of
           GXFP_SESSION_STATE_AWAIT_FINGER_ON \<Rightarrow> {GXFP_MODE_WAIT_FINGER_ON}
         | GXFP_SESSION_STATE_CAPTURE \<Rightarrow> if ss_mode s \<in> {GXFP_MODE_IDLE, GXFP_MODE_WAIT_FINGER_ON} then {GXFP_MODE_CAPTURING} else {}
         | GXFP_SESSION_STATE_AWAIT_FINGER_OFF \<Rightarrow> {GXFP_MODE_WAIT_FINGER_OFF}
         | GXFP_SESSION_STATE_IDLE \<Rightarrow> {GXFP_MODE_IDLE}
         | GXFP_SESSION_STATE_INACTIVE \<Rightarrow> {GXFP_MODE_READY})"
    "session_post s0 e h0 (session_change_state_impl env st s e h)"
proof -
  have mode: "session_same s h (s\<lparr>ss_mode := m\<rparr>) h" if "m \<noteq> GXFP_MODE_CLOSED" for m
    by (rule session_same_mode [OF session_same_refl [OF assms(2,3)] that])
  have fdt: "session_post (s\<lparr>ss_mode := m\<rparr>) e h (session_set_fdt_mode env (s\<lparr>ss_mode := m\<rparr>) e f h)" if "m \<noteq> GXFP_MODE_CLOSED" for m f
    by (rule set_fdt_mode_post [OF assms(1) session_sameD(1,2) [OF mode [OF that]]])
  have tick: "session_post (s\<lparr>ss_mode := m\<rparr>) e h (do { ((s, e), h) \<leftarrow> session_set_fdt_mode env (s\<lparr>ss_mode := m\<rparr>) e f h;
      Some ((s, if \<not> ev_session_error e then e\<lparr>ev_request_tick := True, ev_tick_delay_ms := 0\<rparr> else e), h) })"
    if "m \<noteq> GXFP_MODE_CLOSED" for m f
    by (rule session_post_bind [OF fdt [OF that]]) (auto intro: session_post_quiet dest: session_sameD)
  show thesis
  proof (cases "ss_mode s = GXFP_MODE_FAILED")
    case True
    show thesis
      by (rule that [OF session_same_refl [OF assms(2,3)]])
        (use True session_post_quiet [OF assms(2,3), of e e] in \<open>auto simp: session_change_state_impl_def\<close>)
  next
    case False
    have io: "\<not> (\<not> gxfp_session_mode_has_io s \<or> ss_mode s = GXFP_MODE_FAILED)" using False assms(3) by (simp add: gxfp_session_mode_has_io_def)
    show thesis
    proof (cases st)
      case GXFP_SESSION_STATE_INACTIVE
      show thesis
        by (rule that [OF mode [of GXFP_MODE_READY]])
          (use fdt [of GXFP_MODE_READY] GXFP_SESSION_STATE_INACTIVE io False assms(3) in
            \<open>auto simp: session_change_state_impl_def gxfp_session_stop_run_def\<close>)
    next
      case GXFP_SESSION_STATE_IDLE
      show thesis
        by (rule that [OF mode [of GXFP_MODE_IDLE]])
          (use fdt [of GXFP_MODE_IDLE] GXFP_SESSION_STATE_IDLE io False in \<open>auto simp: session_change_state_impl_def\<close>)
    next
      case GXFP_SESSION_STATE_AWAIT_FINGER_ON
      show thesis
        by (rule that [OF mode [of GXFP_MODE_WAIT_FINGER_ON]])
          (use tick [of GXFP_MODE_WAIT_FINGER_ON] GXFP_SESSION_STATE_AWAIT_FINGER_ON io False in \<open>auto simp: session_change_state_impl_def\<close>)
    next
      case GXFP_SESSION_STATE_AWAIT_FINGER_OFF
      show thesis
        by (rule that [OF mode [of GXFP_MODE_WAIT_FINGER_OFF]])
          (use tick [of GXFP_MODE_WAIT_FINGER_OFF] GXFP_SESSION_STATE_AWAIT_FINGER_OFF io False in \<open>auto simp: session_change_state_impl_def\<close>)
    next
      case GXFP_SESSION_STATE_CAPTURE
      obtain r sv h1 where q: "gxfp_tls_service_request_capture (Some (ss_svc s)) h = ((r, Some sv), h1)" "svc_same (ss_dev s) (ss_svc s) h sv h1"
        by (rule service_request_ok [OF session_okD(2) [OF assms(2)]])
      have same: "session_same s h (s\<lparr>ss_svc := sv\<rparr>) h1" by (rule session_same_service [OF assms(2,3) q(2)])
      consider "ss_mode s \<noteq> GXFP_MODE_IDLE \<and> ss_mode s \<noteq> GXFP_MODE_WAIT_FINGER_ON"
        | "\<not> (ss_mode s \<noteq> GXFP_MODE_IDLE \<and> ss_mode s \<noteq> GXFP_MODE_WAIT_FINGER_ON)" "r < 0"
        | "\<not> (ss_mode s \<noteq> GXFP_MODE_IDLE \<and> ss_mode s \<noteq> GXFP_MODE_WAIT_FINGER_ON)" "\<not> r < 0" by blast
      then show thesis
      proof cases
        case 1
        show thesis
          by (rule that [OF session_same_refl [OF assms(2,3)]])
            (use set_error_post [OF assms(1-3), of "- EINVAL"] 1 io GXFP_SESSION_STATE_CAPTURE in \<open>simp_all add: session_change_state_impl_def\<close>)
      next
        case 2
        show thesis
          by (rule that [OF same])
            (use set_error_post [OF assms(1) session_sameD(1,2) [OF same] 2(2)] 2 q(1) io GXFP_SESSION_STATE_CAPTURE in
              \<open>auto simp: session_change_state_impl_def Let_def\<close>)
      next
        case 3
        let ?s = "s\<lparr>ss_svc := sv, ss_mode := GXFP_MODE_CAPTURING\<rparr>"
        have same3: "session_same s h ?s h1" by (rule session_same_mode [OF same]) simp
        show thesis
          by (rule that [OF same3])
            (use session_post_quiet [OF session_sameD(1,2) [OF same3], of "e\<lparr>ev_request_tick := True, ev_tick_delay_ms := 0\<rparr>" e] 3 q(1) io False
              GXFP_SESSION_STATE_CAPTURE in \<open>auto simp: session_change_state_impl_def Let_def\<close>)
      qed
    qed
  qed
qed

section \<open>Opening and closing\<close>

text \<open>The ledger: the session is sound and holds the blocks that were taken since.\<close>

definition session_moved :: "gxfp_session_impl \<Rightarrow> uhist \<Rightarrow> gxfp_session_impl \<Rightarrow> uhist \<Rightarrow> bool" where
  "session_moved s h s' h' \<longleftrightarrow> session_ok s' \<and> ulive h' - session_blocks s' = ulive h - session_blocks s"

lemma session_moved_same: "session_same s h s' h' \<Longrightarrow> session_moved s h s' h'"
  by (simp add: session_same_def session_moved_def)

lemma session_moved_trans: "session_moved s h s1 h1 \<Longrightarrow> session_moved s1 h1 s2 h2 \<Longrightarrow> session_moved s h s2 h2"
  by (simp add: session_moved_def)

lemma session_moved_refl: "session_ok s \<Longrightarrow> session_moved s h s h"
  by (simp add: session_moved_def)

lemma fresh_fdt: "fdt_inv (the (gxfp_fdt_flow_init (Some f)))"
  by (rule init_inv [of f]) (simp add: gxfp_fdt_flow_init_def)

lemma runtime_fdt:
  obtains f where "session_apply_fdt_runtime_from_otp s = s\<lparr>ss_fdt := f\<rparr>" "fdt_inv (ss_fdt s) \<Longrightarrow> fdt_inv f"
  by (rule that [of "(ss_fdt s)\<lparr>ff_cmd := the (gxfp_cmd_fdt_state_set_runtime (Some (ff_cmd (ss_fdt s))) 0 0 0
        (if ss_otp_has_tcode_delta s then ss_otp_fdt_delta s else 0))\<rparr>"])
     (auto simp: session_apply_fdt_runtime_from_otp_def Let_def gxfp_cmd_fdt_state_set_runtime_def fdt_inv_def fdt_cmd_ok_def)

lemma reset_buffers_frees:
  assumes "session_ok s"
  obtains dk im h' where "session_reset_buffers s h = (s\<lparr>ss_dark := dk, ss_dark_loaded := False, ss_pending_img := im, ss_pending_img_ready := False\<rparr>, h')"
    "dk_pixels dk = None" "im_pixels im = None" "ulive h' = ulive h - blk (dk_pixels (ss_dark s)) - blk (im_pixels (ss_pending_img s))"
proof -
  have ok: "\<not> ss_dark_loaded s \<Longrightarrow> dk_pixels (ss_dark s) = None" "\<not> ss_pending_img_ready s \<Longrightarrow> im_pixels (ss_pending_img s) = None"
    using assms by (simp_all add: session_ok_def)
  have "\<exists>dk im h'. session_reset_buffers s h = (s\<lparr>ss_dark := dk, ss_dark_loaded := False, ss_pending_img := im, ss_pending_img_ready := False\<rparr>, h') \<and>
    dk_pixels dk = None \<and> im_pixels im = None \<and> ulive h' = ulive h - blk (dk_pixels (ss_dark s)) - blk (im_pixels (ss_pending_img s))"
    using ok by (cases "ss_dark_loaded s"; cases "ss_pending_img_ready s"; cases s)
      (fastforce simp: session_reset_buffers_def gxfp_fpn_free_def gxfp_decoded_image_free_def)+
  then show thesis using that by blast
qed

lemma reset_runtime_closes:
  assumes "session_ok s"
  obtains s' h' where "gxfp_session_reset_runtime s h = (s', h')" "ss_mode s' = GXFP_MODE_CLOSED" "session_moved s h s' h'"
    "ss_tap_io_buf s' = ss_tap_io_buf s" "ss_tap_io_cap s' = ss_tap_io_cap s" "session_blocks s' = 1 + blk (ss_tap_io_buf s)"
proof -
  obtain hf where f: "gxfp_tls_service_free (Some (ss_svc s)) h = (Some \<lparr>sv_impl = None\<rparr>, hf)" "ulive hf = ulive h - svc_live (ss_svc s)"
    by (rule service_free_ok [OF session_okD(2) [OF assms]])
  define h1 where "h1 = (if gxfp_session_mode_has_io s
              then snd (gxfp_dev_close (Some (ss_dev s)) (snd (gxfp_tls_service_free (Some (ss_svc s)) h))) else h)"
  have h1: "ulive h1 = ulive h - svc_live (ss_svc s)"
    using f assms by (auto simp: h1_def gxfp_dev_close_def gxfp_session_mode_has_io_def session_ok_def svc_live_def)
  define s1 where "s1 = s\<lparr>ss_dev := \<lparr>ud_fd = 0\<rparr>, ss_svc := \<lparr>sv_impl = None\<rparr>, ss_fdt := the (gxfp_fdt_flow_init (Some (ss_fdt s))),
               ss_otp_tcode := 0, ss_otp_fdt_delta := 0, ss_otp_has_tcode_delta := False\<rparr>"
  have "fdt_inv (ss_fdt s1)" by (simp add: s1_def fresh_fdt)
  then obtain fd where s2: "session_apply_fdt_runtime_from_otp s1 = s1\<lparr>ss_fdt := fd\<rparr>" "fdt_inv fd" using runtime_fdt [of s1] by blast
  let ?s3 = "s1\<lparr>ss_fdt := fd, ss_psk := None, ss_psk_len := 0\<rparr>"
  have ok3: "session_ok ?s3" using assms s2(2) by (auto simp: session_ok_def s1_def)
  obtain dk im h' where r: "session_reset_buffers ?s3 (ufree_ptr (ss_psk s) h1) =
      (?s3\<lparr>ss_dark := dk, ss_dark_loaded := False, ss_pending_img := im, ss_pending_img_ready := False\<rparr>, h')"
    "dk_pixels dk = None" "im_pixels im = None"
    "ulive h' = ulive (ufree_ptr (ss_psk s) h1) - blk (dk_pixels (ss_dark ?s3)) - blk (im_pixels (ss_pending_img ?s3))"
    by (rule reset_buffers_frees [OF ok3])
  let ?s4 = "?s3\<lparr>ss_dark := dk, ss_dark_loaded := False, ss_pending_img := im, ss_pending_img_ready := False, ss_mode := GXFP_MODE_CLOSED\<rparr>"
  have psk: "ss_psk (s1\<lparr>ss_fdt := fd\<rparr>) = ss_psk s" by (simp add: s1_def)
  have eq: "gxfp_session_reset_runtime s h = (?s4, h')"
    unfolding gxfp_session_reset_runtime_def Let_def h1_def [symmetric] s1_def [symmetric] s2(1) psk using r(1) by simp
  have "session_ok ?s4" using assms s2(2) r(2,3) by (simp add: session_ok_def s1_def)
  then have "session_moved s h ?s4 h'" using r(2-4) h1 by (simp add: session_moved_def session_blocks_def s1_def svc_live_def)
  then show thesis using that [OF eq] r(2,3) by (simp add: session_blocks_def s1_def svc_live_def)
qed

lemma close_runs:
  assumes "clock_runs env" "session_ok s"
  obtains s' h' where "session_begin_cleanup env s GXFP_CLEANUP_CLOSE reset e h = Some ((s', e\<lparr>ev_cancel_tick := True, ev_close_complete := True\<rparr>), h')"
    "ss_mode s' = GXFP_MODE_CLOSED" "session_moved s h s' h'"
proof (cases "ss_mode s = GXFP_MODE_CLOSED")
  case True
  show thesis
    by (rule that [OF _ True session_moved_refl [OF assms(2)]])
      (simp add: session_begin_cleanup_def gxfp_session_stop_run_def gxfp_session_mode_has_io_def True)
next
  case False
  let ?s = "s\<lparr>ss_mode := GXFP_MODE_READY\<rparr>"
  have same: "session_same s h ?s h" by (rule session_same_mode [OF session_same_refl [OF assms(2) False]]) simp
  have fd: "0 \<le> ud_fd (ss_dev ?s)" using session_okD(3) [OF assms(2) False] by simp
  obtain rc h1 where r: "gxfp_device_recovery env (Some (ss_dev ?s)) True True False h = Some (rc, h1)" "ulive h1 = ulive h"
    by (rule recovery_returns [OF assms(1) fd])
  define h2 where "h2 = (if reset then h1 else h)"
  have u: "ulive h2 = ulive h" using r(2) by (simp add: h2_def)
  obtain s' h' where c: "gxfp_session_reset_runtime ?s h2 = (s', h')" "ss_mode s' = GXFP_MODE_CLOSED" "session_moved ?s h2 s' h'"
    by (rule reset_runtime_closes [OF session_sameD(1) [OF same]])
  have eq: "session_begin_cleanup env s GXFP_CLEANUP_CLOSE reset e h = Some ((s', e\<lparr>ev_cancel_tick := True, ev_close_complete := True\<rparr>), h')"
    using False r(1) c(1) by (auto simp: session_begin_cleanup_def gxfp_session_stop_run_def gxfp_session_mode_has_io_def Let_def h2_def)
  show thesis by (rule that [OF eq c(2)]) (use c(3) u in \<open>simp add: session_moved_def\<close>)
qed

lemma deactivate_runs:
  assumes "session_ok s"
  obtains s' where "session_begin_cleanup env s GXFP_CLEANUP_DEACTIVATE reset e h = Some ((s', e\<lparr>ev_cancel_tick := True, ev_deactivate_complete := True\<rparr>), h)"
    "ss_mode s' = (if ss_mode s = GXFP_MODE_CLOSED then GXFP_MODE_CLOSED else GXFP_MODE_READY)" "session_moved s h s' h"
proof (cases "ss_mode s = GXFP_MODE_CLOSED")
  case True
  show thesis
    by (rule that [OF _ _ session_moved_refl [OF assms]])
      (simp_all add: session_begin_cleanup_def gxfp_session_stop_run_def gxfp_session_mode_has_io_def True)
next
  case False
  have "session_same s h (s\<lparr>ss_mode := GXFP_MODE_READY\<rparr>) h" by (rule session_same_mode [OF session_same_refl [OF assms False]]) simp
  from session_moved_same [OF this] show thesis
    by (intro that [of "s\<lparr>ss_mode := GXFP_MODE_READY\<rparr>"])
      (simp_all add: False session_begin_cleanup_def gxfp_session_stop_run_def gxfp_session_mode_has_io_def)
qed

section \<open>Starting TLS\<close>

lemma tls_init_cases:
  assumes "session_ok s" "ss_mode s \<noteq> GXFP_MODE_CLOSED" "ss_svc s = \<lparr>sv_impl = None\<rparr>"
  obtains (failed) r h' where "session_tls_init env lib s h = ((r, s), h')" "r < 0" "session_same s h s h'"
  | (started) i h' where "session_tls_init env lib s h = ((0, s\<lparr>ss_svc := \<lparr>sv_impl = Some i\<rparr>\<rparr>), h')" "si_state i = GXFP_TLS_HS_CONNECTING"
      "ss_psk_len s = 32" "session_same s h (s\<lparr>ss_svc := \<lparr>sv_impl = Some i\<rparr>\<rparr>) h'"
proof (cases rule: service_init_cases [of env lib "ss_dev s" "Some \<lparr>hc_timeout_ms = 20000, hc_manual_pending_request = True\<rparr>" "ss_psk s" "ss_psk_len s" h])
  case (failed r h')
  have "s\<lparr>ss_svc := \<lparr>sv_impl = None\<rparr>\<rparr> = s" using assms(3) by simp
  then show thesis
    using that(1) [of r h'] failed assms session_same_refl [OF assms(1,2), of h] by (simp add: session_tls_init_def session_same_def)
next
  case (started i h')
  have "session_same s h (s\<lparr>ss_svc := \<lparr>sv_impl = Some i\<rparr>\<rparr>) h'"
    by (rule session_same_svc [OF assms(1,2)]) (use started assms(3) in \<open>simp_all add: svc_live_def\<close>)
  then show thesis using that(2) [of i h'] started assms(3) by (simp add: session_tls_init_def)
qed

lemma rearm_runs:
  assumes "clock_runs env" "session_ok s" "ss_mode s \<noteq> GXFP_MODE_CLOSED"
  obtains (armed) s' h' where "session_rearm_tls_if_needed env lib s e h = Some ((s', e), h')" "session_same s h s' h'" "ss_mode s' = ss_mode s"
      "gxfp_tls_service_state (Some (ss_svc s')) \<noteq> GXFP_TLS_HS_ERROR"
  | (failed) s' r h' where "session_rearm_tls_if_needed env lib s e h = Some ((s',
        e\<lparr>ev_session_error := True, ev_error_code := r, ev_error_target := GXFP_SESSION_ERR_TARGET_ACTIVATE\<rparr>), h')" "r < 0"
      "session_same s h s' h'" "ss_mode s' = GXFP_MODE_FAILED" "sv_impl (ss_svc s') = None"
proof (cases "gxfp_tls_service_state (Some (ss_svc s)) = GXFP_TLS_HS_ERROR")
  case False
  then show thesis
    using armed [of s h] session_same_refl [OF assms(2,3), of h]
    by (cases "gxfp_tls_service_state (Some (ss_svc s))") (simp_all add: session_rearm_tls_if_needed_def)
next
  case True
  obtain h1 where f: "gxfp_tls_service_free (Some (ss_svc s)) h = (Some \<lparr>sv_impl = None\<rparr>, h1)" "ulive h1 = ulive h - svc_live (ss_svc s)"
    by (rule service_free_ok [OF session_okD(2) [OF assms(2)]])
  let ?s = "s\<lparr>ss_svc := \<lparr>sv_impl = None\<rparr>\<rparr>"
  obtain rf h2 where q: "gxfp_dev_flush_rxq env (Some (ss_dev s)) h1 = (rf, h2)" by fastforce
  have u: "ulive h2 = ulive h1" by (rule flush_keeps [OF q])
  have same: "session_same s h ?s h2" by (rule session_same_svc [OF assms(2,3)]) (use f(2) u in \<open>simp_all add: svc_live_def\<close>)
  note ok = session_sameD(1,2) [OF same]
  have eq: "session_rearm_tls_if_needed env lib s e h = (case session_tls_init env lib ?s h2 of
      ((r, s), h) \<Rightarrow> if r < 0 then session_set_error env s e r GXFP_SESSION_ERR_TARGET_ACTIVATE h else Some ((s, e), h))"
    using True f(1) q by (simp add: session_rearm_tls_if_needed_def Let_def)
  have none: "ss_svc ?s = \<lparr>sv_impl = None\<rparr>" by simp
  show thesis
  proof (cases rule: tls_init_cases [OF ok none, where env = env and lib = lib and h = h2])
    case (1 r h3)
    note same3 = session_same_trans [OF same 1(3)]
    obtain h4 where x: "session_set_error env ?s e r GXFP_SESSION_ERR_TARGET_ACTIVATE h3 = Some ((?s\<lparr>ss_mode := GXFP_MODE_FAILED\<rparr>,
        e\<lparr>ev_session_error := True, ev_error_code := r, ev_error_target := GXFP_SESSION_ERR_TARGET_ACTIVATE\<rparr>), h4)"
      "session_same ?s h3 (?s\<lparr>ss_mode := GXFP_MODE_FAILED\<rparr>) h4"
      by (rule set_error_returns [OF assms(1) ok])
    show thesis
      by (rule failed [of "?s\<lparr>ss_mode := GXFP_MODE_FAILED\<rparr>" r h4]) (use 1 eq x(1) session_same_trans [OF same3 x(2)] in simp_all)
  next
    case (2 i h3)
    show thesis
      by (rule armed [of "?s\<lparr>ss_svc := \<lparr>sv_impl = Some i\<rparr>\<rparr>" h3])
        (use 2 eq session_same_trans [OF same 2(4)] in \<open>simp_all add: gxfp_tls_service_state_def\<close>)
  qed
qed

lemma activate_runs:
  assumes "clock_runs env" "session_ok s" "ss_mode s \<noteq> GXFP_MODE_CLOSED" "\<not> ev_session_error e"
  obtains (started) s' h' where "session_activate_impl env lib s e h = Some ((0, s', e\<lparr>ev_request_tick := True, ev_tick_delay_ms := 0\<rparr>), h')"
      "session_same s h s' h'" "ss_mode s' = GXFP_MODE_ACTIVATING_TLS"
  | (failed) s' r h' where "session_activate_impl env lib s e h = Some ((r, s',
        e\<lparr>ev_session_error := True, ev_error_code := r, ev_error_target := GXFP_SESSION_ERR_TARGET_ACTIVATE\<rparr>), h')" "r < 0"
      "session_same s h s' h'" "ss_mode s' = GXFP_MODE_FAILED"
proof -
  define s0 where "s0 = (if ss_mode s = GXFP_MODE_FAILED then s\<lparr>ss_mode := GXFP_MODE_READY\<rparr> else s)"
  have same0: "session_same s h s0 h"
    using session_same_refl [OF assms(2,3)] session_same_mode [OF session_same_refl [OF assms(2,3)], of GXFP_MODE_READY] by (simp add: s0_def)
  note ok = session_sameD(1,2) [OF same0]
  have eq: "session_activate_impl env lib s e h = do {
       ((s, e), h) \<leftarrow> session_rearm_tls_if_needed env lib s0 e h;
       if ev_session_error e then Some ((if ev_error_code e \<noteq> 0 then ev_error_code e else - EIO, s, e), h)
       else
         let s = session_apply_fdt_runtime_from_otp (s\<lparr>ss_fdt := the (gxfp_fdt_flow_init (Some (ss_fdt s)))\<rparr>)
         in Some ((0, s\<lparr>ss_mode := GXFP_MODE_ACTIVATING_TLS\<rparr>, e\<lparr>ev_request_tick := True, ev_tick_delay_ms := 0\<rparr>), h) }"
    using assms(3) by (simp add: session_activate_impl_def gxfp_session_mode_has_io_def s0_def Let_def)
  show thesis
  proof (cases rule: rearm_runs [OF assms(1) ok, where lib = lib and e = e and h = h])
    case (1 s1 h1)
    let ?s2 = "s1\<lparr>ss_fdt := the (gxfp_fdt_flow_init (Some (ss_fdt s1)))\<rparr>"
    obtain f where f: "session_apply_fdt_runtime_from_otp ?s2 = ?s2\<lparr>ss_fdt := f\<rparr>" "fdt_inv f"
      using runtime_fdt [of ?s2] fresh_fdt by auto
    have a: "session_same s1 h1 (s1\<lparr>ss_fdt := f\<rparr>) h1" by (rule session_same_fdt [OF session_sameD(1,2) [OF 1(2)] f(2) refl])
    let ?s3 = "s1\<lparr>ss_fdt := f, ss_mode := GXFP_MODE_ACTIVATING_TLS\<rparr>"
    have b: "session_same s h ?s3 h1"
      by (rule session_same_mode [OF session_same_trans [OF same0 session_same_trans [OF 1(2) a]]]) simp
    show thesis by (rule started [OF _ b]) (use 1(1) eq f(1) assms(4) in simp_all)
  next
    case (2 s1 r h1)
    show thesis by (rule failed [OF _ 2(2) session_same_trans [OF same0 2(3)] 2(4)]) (use 2(1,2) eq in simp)
  qed
qed

section \<open>Opening\<close>

lemma apply_cfg_runs:
  assumes "clock_runs env" "session_ok s" "ss_mode s \<noteq> GXFP_MODE_CLOSED"
  obtains r s' h' where "session_apply_milanl_cfg env s h = Some ((r, s'), h')" "session_same s h s' h'" "ss_mode s' = ss_mode s"
    "ss_psk s' = ss_psk s" "ss_svc s' = ss_svc s"
proof -
  have fd: "0 \<le> ud_fd (ss_dev s)" by (rule session_okD(3) [OF assms(2,3)])
  obtain r otp n h1 where o1: "gxfp_cmd_read_otp env (Some (ss_dev s)) (Some (ufresh env h 256)) 256 h = Some ((r, Some otp, n), h1)"
    "ulive h1 = ulive h"
    by (rule read_otp_returns [OF assms(1) fd, of "ufresh env h 256" h]) simp_all
  have stay: "session_same s h s h'" if "ulive h' = ulive h" for h'
    using session_same_refl [OF assms(2,3), of h] that by (simp add: session_same_def)
  show thesis
  proof (cases "r < 0 \<or> unat n \<le> GXFP_MILANL_OTP_IDX_DAC")
    case True
    then show thesis
      using that [of "if r < 0 then r else - EBADMSG" s h1] o1 stay [OF o1(2)]
      by (auto simp: session_apply_milanl_cfg_def gxfp_milanl_parse_otp_def)
  next
    case False
    then have "32 \<le> unat n" "\<not> r < 0" by (simp_all add: cfg_consts)
    then obtain oc where p: "gxfp_milanl_parse_otp (Some otp) (unat n) (Some otp_cfg_zero) = (0, Some oc)" using parse_otp_eq by blast
    obtain r2 st h2 where up: "gxfp_cmd_upload_config_mcu_u env (Some (ss_dev s)) (Some (template_for oc)) 0xE0 h1 = Some ((r2, st), h2)"
      "ulive h2 = ulive h1"
      by (rule upload_returns [OF assms(1) fd template_for_bytes(1)])
    have b: "gxfp_milanl_prepare_cfg_blob (Some gxfp_milanl_cfg_template) 0xE0 (Some (ufresh env h1 0xE0)) 0xE0 = (0xE0, Some gxfp_milanl_cfg_template)"
      by (simp add: gxfp_milanl_prepare_cfg_blob_def cfg_consts memcpy_at_0)
    let ?s = "s\<lparr>ss_otp_tcode := oc_tcode oc, ss_otp_fdt_delta := oc_fdt_delta oc, ss_otp_has_tcode_delta := oc_has_tcode_delta oc\<rparr>"
    have eq: "session_apply_milanl_cfg env s h = (if r2 < 0 then Some ((r2, s), h2) else Some ((0, session_apply_fdt_runtime_from_otp ?s), h2))"
      using o1(1) \<open>\<not> r < 0\<close> p up(1) b
      by (simp add: session_apply_milanl_cfg_def gxfp_milanl_get_default_cfg_template_def apply_patch_template cfg_consts)
    show thesis
    proof (cases "r2 < 0")
      case True
      then show thesis using that [of r2 s h2] eq stay [of h2] up(2) o1(2) by simp
    next
      case False
      obtain f where f: "session_apply_fdt_runtime_from_otp ?s = ?s\<lparr>ss_fdt := f\<rparr>" "fdt_inv f"
        using runtime_fdt [of ?s] session_okD(1) [OF assms(2)] by auto
      have "session_same s h (?s\<lparr>ss_fdt := f\<rparr>) h2"
        using assms(2,3) f(2) up(2) o1(2) by (simp add: session_same_def session_ok_def session_blocks_def)
      then show thesis using that [of 0 "?s\<lparr>ss_fdt := f\<rparr>" h2] eq False f(1) by simp
    qed
  qed
qed

text \<open>What opening leaves behind: a session that is ready and connecting, or a closed one.\<close>

definition open_result :: "gxfp_session_impl \<Rightarrow> uhist \<Rightarrow> int \<Rightarrow> gxfp_session_impl \<Rightarrow> uhist \<Rightarrow> bool" where
  "open_result s h r s' h' \<longleftrightarrow> session_moved s h s' h' \<and>
     (if r = 0 then ss_mode s' = GXFP_MODE_READY \<and> gxfp_tls_service_state (Some (ss_svc s')) = GXFP_TLS_HS_CONNECTING \<and> ss_psk_len s' = 32
      else r < 0 \<and> ss_mode s' = GXFP_MODE_CLOSED)"

lemma open_result_trans: "session_moved s h s1 h1 \<Longrightarrow> open_result s1 h1 r s' h' \<Longrightarrow> open_result s h r s' h'"
  by (auto simp: open_result_def intro: session_moved_trans)

lemma open_failed:
  assumes "session_moved s0 h0 s h" "r < 0"
  obtains s' h' where "gxfp_session_reset_runtime s h = (s', h')" "open_result s0 h0 r s' h'"
proof -
  have "session_ok s" using assms(1) by (simp add: session_moved_def)
  then obtain s' h' where "gxfp_session_reset_runtime s h = (s', h')" "ss_mode s' = GXFP_MODE_CLOSED" "session_moved s h s' h'"
    by (rule reset_runtime_closes)
  then show thesis using that assms session_moved_trans by (simp add: open_result_def)
qed

lemma open_tail_runs:
  assumes "session_ok s" "ss_mode s \<noteq> GXFP_MODE_CLOSED" "ss_svc s = \<lparr>sv_impl = None\<rparr>" "ss_psk s = None"
  obtains r s' h' where "session_open_tail env lib s key n h = ((r, s'), h')" "open_result s h r s' h'"
proof (cases rule: malloc_cases [of env n h])
  case null
  have "s\<lparr>ss_psk := None\<rparr> = s" using assms(4) by simp
  moreover obtain s' h' where "gxfp_session_reset_runtime s h = (s', h')" "open_result s h (- ENOMEM) s' h'"
    using open_failed [OF session_moved_refl [OF assms(1)], of "- ENOMEM"] by auto
  ultimately show thesis using that [of "- ENOMEM"] null by (simp add: session_open_tail_def Let_def)
next
  case (block b)
  define s1 where "s1 = s\<lparr>ss_psk := Some (memcpy_at b 0 (take n key)), ss_psk_len := n\<rparr>"
  let ?h1 = "UMalloc n # h"
  have same: "session_same s h s1 ?h1"
    using assms by (simp add: session_same_def session_ok_def session_blocks_def s1_def)
  have none: "ss_svc s1 = \<lparr>sv_impl = None\<rparr>" using assms(3) by (simp add: s1_def)
  have eq: "session_open_tail env lib s key n h = (case session_tls_init env lib s1 ?h1 of
      ((r, s), h) \<Rightarrow> if r < 0 then (case gxfp_session_reset_runtime s h of (s, h) \<Rightarrow> ((r, s), h))
        else let s = session_apply_fdt_runtime_from_otp (s\<lparr>ss_fdt := the (gxfp_fdt_flow_init (Some (ss_fdt s)))\<rparr>)
             in ((0, s\<lparr>ss_mode := GXFP_MODE_READY\<rparr>), h))"
    using block(1) by (simp add: session_open_tail_def Let_def s1_def)
  show thesis
  proof (cases rule: tls_init_cases [OF session_sameD(1,2) [OF same] none, where env = env and lib = lib and h = ?h1])
    case (1 r h2)
    obtain s' h' where "gxfp_session_reset_runtime s1 h2 = (s', h')" "open_result s h r s' h'"
      by (rule open_failed [OF session_moved_same [OF session_same_trans [OF same 1(3)]] 1(2)])
    then show thesis using that eq 1(1,2) by simp
  next
    case (2 i h2)
    let ?s2 = "s1\<lparr>ss_svc := \<lparr>sv_impl = Some i\<rparr>, ss_fdt := the (gxfp_fdt_flow_init (Some (ss_fdt s1)))\<rparr>"
    obtain f where f: "session_apply_fdt_runtime_from_otp ?s2 = ?s2\<lparr>ss_fdt := f\<rparr>" "fdt_inv f"
      using runtime_fdt [of ?s2] fresh_fdt by auto
    let ?s3 = "s1\<lparr>ss_svc := \<lparr>sv_impl = Some i\<rparr>, ss_fdt := f, ss_mode := GXFP_MODE_READY\<rparr>"
    have a: "session_same s1 ?h1 (s1\<lparr>ss_svc := \<lparr>sv_impl = Some i\<rparr>, ss_fdt := f\<rparr>) h2"
      by (rule session_same_trans [OF 2(4) session_same_fdt [OF session_sameD(1,2) [OF 2(4)] f(2) refl]])
    have "session_same s h ?s3 h2" by (rule session_same_mode [OF session_same_trans [OF same a]]) simp
    then have "open_result s h 0 ?s3 h2"
      using 2(2,3) session_moved_same by (simp add: open_result_def gxfp_tls_service_state_def)
    then show thesis using that [of 0 ?s3 h2] eq 2(1) f(1) by simp
  qed
qed

lemma ensure_tap_runs:
  assumes "session_ok s" "ss_mode s \<noteq> GXFP_MODE_CLOSED"
  obtains r s' h' where "session_ensure_tap_io_buffer env s h = ((r, s'), h')" "session_same s h s' h'" "r \<le> 0" "ss_mode s' = ss_mode s"
    "ss_psk s' = ss_psk s" "ss_svc s' = ss_svc s" "r = 0 \<Longrightarrow> ss_tap_io_buf s' \<noteq> None"
proof (cases "ss_tap_io_buf s")
  case (Some b)
  then show thesis using that [of 0 s h] session_same_refl [OF assms] by (simp add: session_ensure_tap_io_buffer_def)
next
  case None
  let ?n = "TAP_HDR_SIZE + GXFP_IOCTL_TAP_PAYLOAD_MAX"
  show thesis
  proof (cases rule: malloc_cases [of env ?n h])
    case null
    then show thesis using that [of "- ENOMEM" s h] None session_same_refl [OF assms] by (simp add: session_ensure_tap_io_buffer_def)
  next
    case (block b)
    let ?s = "s\<lparr>ss_tap_io_buf := Some b, ss_tap_io_cap := ?n\<rparr>"
    have "session_same s h ?s (UMalloc ?n # h)"
      using assms block(2) None by (simp add: session_same_def session_ok_def session_blocks_def tap_ok_def)
    then show thesis using that [of 0 ?s "UMalloc ?n # h"] None block(1) by (simp add: session_ensure_tap_io_buffer_def Let_def)
  qed
qed

lemma closed_session:
  assumes "session_ok s" "ss_mode s = GXFP_MODE_CLOSED"
  shows "ss_svc s = \<lparr>sv_impl = None\<rparr>" "ss_psk s = None"
  using assms by (cases "ss_svc s"; auto simp: session_ok_def)+

lemma open_impl_runs:
  assumes "clock_runs env" "errnos env" "session_ok s"
  obtains r s' h' where "session_open_impl env lib s path key n h = Some ((r, s'), h')" "open_result s h r s' h'"
proof -
  obtain s1 h1 where r1: "gxfp_session_reset_runtime s h = (s1, h1)" "ss_mode s1 = GXFP_MODE_CLOSED" "session_moved s h s1 h1"
    by (rule reset_runtime_closes [OF assms(3)])
  have ok1: "session_ok s1" using r1(3) by (simp add: session_moved_def)
  note c1 = closed_session [OF ok1 r1(2)]
  let ?h2 = "UOpen path ((2 OR O_NONBLOCK) OR O_CLOEXEC) # h1"
  show thesis
  proof (cases "sys_open env h1 path ((2 OR O_NONBLOCK) OR O_CLOEXEC)")
    case (Inl x)
    then have x: "0 < x" using assms(2) by (fastforce simp: errnos_def split: sum.splits)
    let ?s = "s1\<lparr>ss_dev := \<lparr>ud_fd = -1\<rparr>\<rparr>"
    have "open_result s h (- x) ?s ?h2"
      using r1 ok1 c1 x by (auto simp: open_result_def session_moved_def session_ok_def session_blocks_def)
    then show thesis
      using that [of "- x" ?s ?h2] r1(1) Inl x by (cases "ss_dev s1") (simp add: session_open_impl_def gxfp_dev_open_def Let_def)
  next
    case (Inr fd)
    then have fd: "0 \<le> fd" using assms(2) by (fastforce simp: errnos_def split: sum.splits)
    define s2 where "s2 = s1\<lparr>ss_dev := \<lparr>ud_fd = fd\<rparr>, ss_mode := GXFP_MODE_READY\<rparr>"
    have s2: "session_ok s2" "ss_mode s2 \<noteq> GXFP_MODE_CLOSED" "ss_svc s2 = \<lparr>sv_impl = None\<rparr>" "ss_psk s2 = None" "session_moved s h s2 ?h2"
      using r1 ok1 c1 fd by (auto simp: s2_def session_moved_def session_ok_def session_blocks_def)
    obtain r3 s3 h3 where t: "session_ensure_tap_io_buffer env s2 ?h2 = ((r3, s3), h3)" "session_same s2 ?h2 s3 h3" "r3 \<le> 0"
      "ss_psk s3 = ss_psk s2" "ss_svc s3 = ss_svc s2"
      by (rule ensure_tap_runs [OF s2(1,2)])
    define tail where "tail = (\<lambda>s h. do {
        ((r, chip_id), h) \<leftarrow> gxfp_cmd_read_chip_id env (Some (ss_dev s)) (Some 0) h;
        ((r, s), h) \<leftarrow> (if r = 0 \<and> the chip_id = 0x2208 then session_apply_milanl_cfg env s h else Some ((0, s), h));
        if r < 0 then (case gxfp_session_reset_runtime s h of (s, h) \<Rightarrow> Some ((r, s), h))
        else Some (session_open_tail env lib s key n h) })"
    have dev: "(ss_dev s1)\<lparr>ud_fd := fd\<rparr> = \<lparr>ud_fd = fd\<rparr>" by (cases "ss_dev s1") simp
    have eq: "session_open_impl env lib s path key n h =
        (if r3 < 0 then (case gxfp_session_reset_runtime s3 h3 of (s, h) \<Rightarrow> Some ((r3, s), h))
         else tail s3 (snd (gxfp_dev_flush_rxq env (Some (ss_dev s3)) h3)))"
      using r1(1) Inr t(1) by (simp add: session_open_impl_def gxfp_dev_open_def dev Let_def s2_def [symmetric] tail_def)
    note m3 = session_moved_trans [OF s2(5) session_moved_same [OF t(2)]]
    show thesis
    proof (cases "r3 < 0")
      case True
      obtain s' h' where "gxfp_session_reset_runtime s3 h3 = (s', h')" "open_result s h r3 s' h'"
        by (rule open_failed [OF m3 True])
      then show thesis using that eq True by simp
    next
      case False
      obtain rf h4 where fl: "gxfp_dev_flush_rxq env (Some (ss_dev s3)) h3 = (rf, h4)" by fastforce
      have u4: "ulive h4 = ulive h3" by (rule flush_keeps [OF fl])
      note ok3 = session_sameD(1,2) [OF t(2)]
      have fd3: "0 \<le> ud_fd (ss_dev s3)" by (rule session_okD(3) [OF ok3])
      obtain rc cid h5 where ci: "gxfp_cmd_read_chip_id env (Some (ss_dev s3)) (Some 0) h4 = Some ((rc, Some cid), h5)" "ulive h5 = ulive h4"
        by (rule read_chip_id_returns [OF assms(1) fd3])
      obtain r6 s6 h6 where a6: "session_apply_milanl_cfg env s3 h5 = Some ((r6, s6), h6)" "session_same s3 h5 s6 h6"
        "ss_psk s6 = ss_psk s3" "ss_svc s6 = ss_svc s3"
        by (rule apply_cfg_runs [OF assms(1) ok3])
      define s7 r7 h7 where "s7 = (if rc = 0 \<and> cid = 0x2208 then s6 else s3)" and "r7 = (if rc = 0 \<and> cid = 0x2208 then r6 else 0)"
        and "h7 = (if rc = 0 \<and> cid = 0x2208 then h6 else h5)"
      have tl: "tail s3 h4 = (if r7 < 0 then (case gxfp_session_reset_runtime s7 h7 of (s, h) \<Rightarrow> Some ((r7, s), h))
          else Some (session_open_tail env lib s7 key n h7))"
        using ci(1) a6(1) by (simp add: tail_def s7_def r7_def h7_def)
      have same7: "session_same s3 h3 s7 h7"
        using a6(2) session_same_refl [OF ok3, of h3] u4 ci(2) by (auto simp: s7_def h7_def session_same_def)
      have c7: "ss_svc s7 = \<lparr>sv_impl = None\<rparr>" "ss_psk s7 = None" using a6(3,4) t(4,5) s2(3,4) by (simp_all add: s7_def)
      note m7 = session_moved_trans [OF m3 session_moved_same [OF same7]]
      show thesis
      proof (cases "r7 < 0")
        case True
        obtain s' h' where "gxfp_session_reset_runtime s7 h7 = (s', h')" "open_result s h r7 s' h'"
          by (rule open_failed [OF m7 True])
        then show thesis using that eq \<open>\<not> r3 < 0\<close> fl tl True by simp
      next
        case ok: False
        obtain r s' h' where "session_open_tail env lib s7 key n h7 = ((r, s'), h')" "open_result s7 h7 r s' h'"
          by (rule open_tail_runs [OF session_sameD(1,2) [OF same7] c7])
        then show thesis using that eq \<open>\<not> r3 < 0\<close> fl tl ok open_result_trans [OF m7] by simp
      qed
    qed
  qed
qed

section \<open>The life of a session\<close>

text \<open>The blocks a session object holds, and its invariant.\<close>

definition owned :: "gxfp_session \<Rightarrow> int" where
  "owned ss = (case se_impl ss of None \<Rightarrow> 0 | Some i \<Rightarrow> session_blocks i)"

definition session_inv :: "gxfp_session \<Rightarrow> bool" where
  "session_inv ss = (case se_impl ss of None \<Rightarrow> True | Some i \<Rightarrow> session_ok i)"

lemma ensure_impl_runs:
  assumes "session_inv ss"
  obtains (failed) "session_ensure_impl env (Some ss) h = ((- ENOMEM, Some ss), h)" "se_impl ss = None"
  | (there) i h' where "session_ensure_impl env (Some ss) h = ((0, Some (ss\<lparr>se_impl := Some i\<rparr>)), h')" "session_ok i"
      "ulive h' - session_blocks i = ulive h - owned ss"
proof (cases "se_impl ss")
  case (Some i)
  then have "ss\<lparr>se_impl := Some i\<rparr> = ss" by simp
  then show thesis using there [of i h] Some assms by (simp add: session_ensure_impl_def session_inv_def owned_def)
next
  case None
  let ?i = "session_zero\<lparr>ss_fdt := the (gxfp_fdt_flow_init (Some (ss_fdt session_zero))), ss_mode := GXFP_MODE_CLOSED\<rparr>"
  have ok: "session_ok ?i" by (simp add: session_ok_def session_zero_def image_zero_def fresh_fdt tap_ok_def svc_ok_def)
  have b: "session_blocks ?i = 1" by (simp add: session_blocks_def session_zero_def image_zero_def svc_live_def)
  show thesis
  proof (cases rule: malloc_cases [of env SESSION_IMPL_SIZE h])
    case null
    then show thesis using failed None by (simp add: session_ensure_impl_def)
  next
    case (block x)
    then show thesis using there [of ?i "UMalloc SESSION_IMPL_SIZE # h"] ok b None by (simp add: session_ensure_impl_def owned_def)
  qed
qed

lemma dispose_frees:
  assumes "session_inv ss"
  obtains h' where "gxfp_session_dispose (Some ss) h = (Some (ss\<lparr>se_impl := None\<rparr>), h')" "ulive h' = ulive h - owned ss"
proof (cases "se_impl ss")
  case None
  then have "ss\<lparr>se_impl := None\<rparr> = ss" by simp
  then show thesis using that [of h] None by (simp add: gxfp_session_dispose_def owned_def)
next
  case (Some i)
  then have "session_ok i" using assms by (simp add: session_inv_def)
  then obtain i' h1 where r: "gxfp_session_reset_runtime i h = (i', h1)" "session_moved i h i' h1" "ss_tap_io_buf i' = ss_tap_io_buf i"
    "session_blocks i' = 1 + blk (ss_tap_io_buf i)"
    by (rule reset_runtime_closes)
  show thesis
    by (rule that [of "ufree (ufree_ptr (ss_tap_io_buf i') h1)"])
      (use r Some in \<open>simp_all add: gxfp_session_dispose_def owned_def session_moved_def\<close>)
qed

text \<open>The calls a driver makes, each with cleared events; the last component is the image the call hands over.\<close>

datatype driver_call =
    Call_open "string option" ptr nat | Call_activate | Call_deactivate | Call_close bool | Call_pump bool | Call_on_fd u32 bool
  | Call_change_state gxfp_session_state | Call_take_image | Call_poll_readable int | Call_dispose

definition session_call ::
  "uenv \<Rightarrow> tlslib \<Rightarrow> driver_call \<Rightarrow> gxfp_session \<Rightarrow> uhist \<Rightarrow>
     ((gxfp_session \<times> gxfp_session_events \<times> gxfp_decoded_image option) \<times> uhist) option" where
  "session_call env lib c ss h =
    (let e = gxfp_session_events_clear (Some events_zero);
         events = map_option (\<lambda>((s, e), h). ((the s, the e, None), h))
     in (case c of
           Call_open path psk n \<Rightarrow> map_option (\<lambda>((r, s), h). ((the s, the e, None), h)) (gxfp_session_open env lib (Some ss) path psk n h)
         | Call_activate \<Rightarrow> map_option (\<lambda>((r, s, e), h). ((the s, the e, None), h)) (gxfp_session_activate env lib (Some ss) e h)
         | Call_deactivate \<Rightarrow> events (gxfp_session_request_deactivate env (Some ss) e h)
         | Call_close reset \<Rightarrow> events (gxfp_session_request_close env (Some ss) reset e h)
         | Call_pump cancelled \<Rightarrow> events (gxfp_session_pump env lib (Some ss) cancelled e h)
         | Call_on_fd cond cancelled \<Rightarrow> events (gxfp_session_on_fd env lib (Some ss) cond cancelled e h)
         | Call_change_state st \<Rightarrow> events (gxfp_session_change_state env (Some ss) st e h)
         | Call_take_image \<Rightarrow>
             (case gxfp_session_take_image (Some ss) (Some image_zero) of
                (r, s, im) \<Rightarrow> Some ((the s, the e, if r = 0 then im else None), h))
         | Call_poll_readable t \<Rightarrow> (case gxfp_session_poll_readable env (Some ss) t h of (r, h) \<Rightarrow> Some ((ss, the e, None), h))
         | Call_dispose \<Rightarrow> (case gxfp_session_dispose (Some ss) h of (s, h) \<Rightarrow> Some ((the s, the e, None), h))))"

text \<open>A run of calls, counting the images handed over.\<close>

fun session_calls :: "uenv \<Rightarrow> tlslib \<Rightarrow> driver_call list \<Rightarrow> gxfp_session \<Rightarrow> int \<Rightarrow> uhist \<Rightarrow> ((gxfp_session \<times> int) \<times> uhist) option" where
  "session_calls env lib [] ss k h = Some ((ss, k), h)"
| "session_calls env lib (c # cs) ss k h =
    (case session_call env lib c ss h of
       None \<Rightarrow> None
     | Some ((ss, _, im), h) \<Rightarrow> session_calls env lib cs ss (k + blk im) h)"

definition call_ok ::
  "gxfp_session \<Rightarrow> uhist \<Rightarrow> ((gxfp_session \<times> gxfp_session_events \<times> gxfp_decoded_image option) \<times> uhist) option \<Rightarrow> bool" where
  "call_ok ss h res \<longleftrightarrow> (\<exists>ss' e' im h'. res = Some ((ss', e', im), h') \<and> session_inv ss' \<and> ulive h' = ulive h - owned ss + owned ss' + blk im)"

lemma with_impl_ok:
  assumes "session_inv ss"
    and "\<And>i. se_impl ss = Some i \<Longrightarrow> session_ok i \<Longrightarrow> \<exists>i' e' h'. f i e h = Some ((i', e'), h') \<and> session_moved i h i' h'"
  shows "call_ok ss h (map_option (\<lambda>((s, e), h). ((the s, the e, None), h)) (with_impl (Some ss) (Some e) h f))"
proof (cases "se_impl ss")
  case None
  then show ?thesis using assms(1) by (simp add: with_impl_def call_ok_def owned_def)
next
  case (Some i)
  then obtain i' e' h' where "f i e h = Some ((i', e'), h')" "session_moved i h i' h'" using assms by (auto simp: session_inv_def)
  then show ?thesis using Some by (simp add: with_impl_def call_ok_def owned_def session_inv_def session_moved_def)
qed

lemma moved_post:
  "session_post s e h res \<Longrightarrow> \<exists>s' e' h'. res = Some ((s', e'), h') \<and> session_moved s h s' h'"
  by (auto simp: session_post_def dest: session_moved_same)

lemma closed_idle:
  assumes "session_ok i" "ss_mode i = GXFP_MODE_CLOSED"
  shows "\<exists>i' e' h'. session_pump_impl env lib c i e h = Some ((i', e'), h') \<and> session_moved i h i' h'"
    "\<exists>i' e' h'. session_on_fd_impl env lib cond c i e h = Some ((i', e'), h') \<and> session_moved i h i' h'"
    "\<exists>i' e' h'. session_change_state_impl env st i e h = Some ((i', e'), h') \<and> session_moved i h i' h'"
  using assms
  by (simp_all add: session_pump_impl_def session_on_fd_impl_def session_change_state_impl_def gxfp_session_mode_has_io_def session_moved_refl)

definition world_ok :: "uenv \<Rightarrow> tlslib \<Rightarrow> bool" where
  "world_ok env lib \<longleftrightarrow> clock_runs env \<and> errnos env \<and> bursts_end env \<and> lib_ok lib \<and> lib_drains lib"

lemma world_okD:
  assumes "world_ok env lib"
  shows "clock_runs env" "errnos env" "bursts_end env" "lib_ok lib" "lib_drains lib"
  using assms by (auto simp: world_ok_def)

lemma moved_runs:
  assumes "world_ok env lib" "session_ok i"
  shows "\<exists>i' e' h'. session_pump_impl env lib c i e h = Some ((i', e'), h') \<and> session_moved i h i' h'"
    "\<exists>i' e' h'. session_on_fd_impl env lib cond c i e h = Some ((i', e'), h') \<and> session_moved i h i' h'"
    "\<exists>i' e' h'. session_change_state_impl env st i e h = Some ((i', e'), h') \<and> session_moved i h i' h'"
proof -
  note w = world_okD [OF assms(1)]
  show "\<exists>i' e' h'. session_pump_impl env lib c i e h = Some ((i', e'), h') \<and> session_moved i h i' h'"
    using closed_idle(1) [OF assms(2)] moved_post [OF pump_post [OF w(1,4,5) assms(2)]] by blast
  show "\<exists>i' e' h'. session_on_fd_impl env lib cond c i e h = Some ((i', e'), h') \<and> session_moved i h i' h'"
    using closed_idle(2) [OF assms(2)] moved_post [OF on_fd_post [OF w assms(2)]] by blast
  show "\<exists>i' e' h'. session_change_state_impl env st i e h = Some ((i', e'), h') \<and> session_moved i h i' h'"
  proof (cases "ss_mode i = GXFP_MODE_CLOSED")
    case True
    then show ?thesis by (rule closed_idle(3) [OF assms(2)])
  next
    case False
    obtain s0 h0 where "session_same i h s0 h0" "session_post s0 e h0 (session_change_state_impl env st i e h)"
      by (rule change_state_post [OF w(1) assms(2) False])
    then show ?thesis using moved_post session_moved_trans [OF session_moved_same] by metis
  qed
qed

lemma session_upd_impl: "se_impl ss = Some i \<Longrightarrow> ss\<lparr>se_impl := Some i\<rparr> = ss"
  by simp

lemma open_ok:
  assumes "world_ok env lib" "session_inv ss"
  shows "call_ok ss h (session_call env lib (Call_open path psk n) ss h)"
proof (cases "path = None \<or> psk = None \<or> n = 0")
  case True
  then have "gxfp_session_open env lib (Some ss) path psk n h = Some ((- EINVAL, Some ss), h)"
    by (auto simp: gxfp_session_open_def split: option.split)
  then show ?thesis using assms(2) by (simp add: session_call_def call_ok_def)
next
  case False
  then obtain p key where F: "path = Some p" "psk = Some key" "n \<noteq> 0" by auto
  note w = world_okD [OF assms(1)]
  show ?thesis
  proof (cases rule: ensure_impl_runs [OF assms(2), where env = env and h = h])
    case 1
    then show ?thesis using F assms(2) by (simp add: session_call_def call_ok_def gxfp_session_open_def)
  next
    case (2 i h1)
    obtain r i' h' where o1: "session_open_impl env lib i p key n h1 = Some ((r, i'), h')" "open_result i h1 r i' h'"
      by (rule open_impl_runs [OF w(1,2) 2(2)])
    then show ?thesis
      using F 2 by (simp add: session_call_def call_ok_def gxfp_session_open_def open_result_def session_moved_def session_inv_def owned_def)
  qed
qed

lemma events_clear: "gxfp_session_events_clear (Some events_zero) = Some events_zero" "\<not> ev_session_error events_zero"
  by (simp_all add: gxfp_session_events_clear_def events_zero_def)

lemma activate_ok:
  assumes "world_ok env lib" "session_inv ss"
  shows "call_ok ss h (session_call env lib Call_activate ss h)"
proof (cases "se_impl ss")
  case None
  then show ?thesis using assms(2) by (simp add: session_call_def call_ok_def gxfp_session_activate_def events_clear)
next
  case (Some i)
  then have ok: "session_ok i" using assms(2) by (simp add: session_inv_def)
  show ?thesis
  proof (cases "ss_mode i = GXFP_MODE_CLOSED")
    case True
    then show ?thesis
      using Some assms(2)
      by (simp add: session_call_def call_ok_def gxfp_session_activate_def events_clear session_activate_impl_def gxfp_session_mode_has_io_def
          session_upd_impl)
  next
    case False
    have "\<exists>r i' e' h'. session_activate_impl env lib i events_zero h = Some ((r, i', e'), h') \<and> session_same i h i' h'"
      by (rule activate_runs [OF world_okD(1) [OF assms(1)] ok False events_clear(2), where lib = lib and h = h]) blast+
    then show ?thesis
      using Some by (auto simp: session_call_def call_ok_def gxfp_session_activate_def events_clear session_inv_def owned_def session_same_def)
  qed
qed

lemma take_image_ok:
  assumes "session_inv ss"
  shows "call_ok ss h (session_call env lib Call_take_image ss h)"
proof (cases "se_impl ss")
  case None
  then show ?thesis using assms by (simp add: session_call_def call_ok_def gxfp_session_take_image_def)
next
  case (Some i)
  then show ?thesis
    using assms
    by (auto simp: session_call_def call_ok_def gxfp_session_take_image_def session_inv_def owned_def session_ok_def session_blocks_def
        image_zero_def image_ok_def blk_def split: option.splits if_splits)
qed

lemma poll_readable_keeps: "gxfp_session_poll_readable env s t h = (r, h') \<Longrightarrow> ulive h' = ulive h"
  by (auto simp: gxfp_session_poll_readable_def gxfp_dev_poll_readable_def Let_def split: option.splits if_splits sum.splits prod.splits)

lemma call_runs:
  assumes "world_ok env lib" "session_inv ss"
  shows "call_ok ss h (session_call env lib c ss h)"
proof (cases c)
  case (Call_open p k n)
  then show ?thesis using open_ok [OF assms] by simp
next
  case Call_activate
  then show ?thesis using activate_ok [OF assms] by simp
next
  case Call_deactivate
  show ?thesis
    unfolding Call_deactivate session_call_def driver_call.case Let_def events_clear(1) gxfp_session_request_deactivate_def
    by (rule with_impl_ok [OF assms(2)]) (metis deactivate_runs)
next
  case (Call_close reset)
  show ?thesis
    unfolding Call_close session_call_def driver_call.case Let_def events_clear(1) gxfp_session_request_close_def
    by (rule with_impl_ok [OF assms(2)]) (metis close_runs [OF world_okD(1) [OF assms(1)]])
next
  case (Call_pump b)
  show ?thesis
    unfolding Call_pump session_call_def driver_call.case Let_def events_clear(1) gxfp_session_pump_def
    by (rule with_impl_ok [OF assms(2)]) (rule moved_runs(1) [OF assms(1)])
next
  case (Call_on_fd cond b)
  show ?thesis
    unfolding Call_on_fd session_call_def driver_call.case Let_def events_clear(1) gxfp_session_on_fd_def
    by (rule with_impl_ok [OF assms(2)]) (rule moved_runs(2) [OF assms(1)])
next
  case (Call_change_state st)
  show ?thesis
    unfolding Call_change_state session_call_def driver_call.case Let_def events_clear(1) gxfp_session_change_state_def
    by (rule with_impl_ok [OF assms(2)]) (rule moved_runs(3) [OF assms(1)])
next
  case Call_take_image
  then show ?thesis using take_image_ok [OF assms(2)] by simp
next
  case (Call_poll_readable t)
  then show ?thesis
    using poll_readable_keeps [of env "Some ss" t h] assms(2) by (auto simp: session_call_def call_ok_def split: prod.split)
next
  case Call_dispose
  obtain h' where "gxfp_session_dispose (Some ss) h = (Some (ss\<lparr>se_impl := None\<rparr>), h')" "ulive h' = ulive h - owned ss"
    by (rule dispose_frees [OF assms(2)])
  then show ?thesis using Call_dispose by (simp add: session_call_def call_ok_def session_inv_def owned_def)
qed

lemma calls_run:
  assumes "world_ok env lib" "session_inv ss"
  shows "\<exists>ss' k' h'. session_calls env lib cs ss k h = Some ((ss', k'), h') \<and> session_inv ss' \<and>
    ulive h' - owned ss' - k' = ulive h - owned ss - k"
  using assms(2)
proof (induction cs arbitrary: ss k h)
  case Nil
  then show ?case by simp
next
  case (Cons c cs)
  obtain s1 e1 im h1 where c: "session_call env lib c ss h = Some ((s1, e1, im), h1)" "session_inv s1"
    "ulive h1 = ulive h - owned ss + owned s1 + blk im"
    using call_runs [OF assms(1) Cons.prems, of h c] by (auto simp: call_ok_def)
  show ?case using Cons.IH [OF c(2), of "k + blk im" h1] c(1,3) by (auto simp: algebra_simps)
qed

section \<open>Ticks\<close>

text \<open>The modes in which the session waits for the device. A tick or a batch of records that leaves it in one of them has
  asked for the next tick, unless the TLS service has failed.\<close>

definition ticking :: "gxfp_session_mode \<Rightarrow> bool" where
  "ticking m \<longleftrightarrow> m \<notin> {GXFP_MODE_CLOSED, GXFP_MODE_READY, GXFP_MODE_IDLE, GXFP_MODE_FAILED}"

lemma set_error_signals: "session_set_error env s e r t h = Some ((s', e'), h') \<Longrightarrow> ev_session_error e'"
  by (auto simp: session_set_error_def Let_def split: if_splits bind_splits)

lemma set_fdt_mode_keeps:
  "session_set_fdt_mode env s e m h = Some ((s', e'), h') \<Longrightarrow> ev_session_error e' \<or> e' = e \<and> ss_mode s' = ss_mode s \<and> ss_svc s' = ss_svc s"
  by (auto simp: session_set_fdt_mode_def Let_def dest: set_error_signals split: if_splits prod.splits)

lemma finish_activation_moves:
  assumes "session_maybe_finish_activation env s e h = Some ((s', e'), h')" "\<not> ev_session_error e'" "ss_mode s' = GXFP_MODE_ACTIVATING_TLS"
  shows "gxfp_tls_service_state (Some (ss_svc s')) \<notin> {GXFP_TLS_HS_CONNECTED, GXFP_TLS_HS_DONE}"
  using assms by (auto simp: session_maybe_finish_activation_def Let_def split: if_splits bind_splits)

lemma accept_dark_idle:
  "session_accept_dark env s e img h = Some ((s', e'), h') \<Longrightarrow> \<not> ev_session_error e' \<Longrightarrow> ss_mode s' = GXFP_MODE_IDLE"
  by (auto simp: session_accept_dark_def Let_def dest: set_error_signals split: if_splits bind_splits prod.splits)

lemma accept_image_idle:
  "session_accept_image env s e img h = Some ((s', e'), h') \<Longrightarrow> \<not> ev_session_error e' \<Longrightarrow> ss_mode s' = GXFP_MODE_IDLE"
  by (auto simp: session_accept_image_def Let_def dest: set_error_signals split: if_splits bind_splits prod.splits)

lemma finalize_moves:
  assumes "session_finalize_capture env s e t h = Some ((s', e'), h')" "\<not> ev_session_error e'" "ss_mode s' \<noteq> GXFP_MODE_IDLE"
  shows "s' = s \<and> gxfp_tls_service_state (Some (ss_svc s')) \<noteq> GXFP_TLS_HS_DONE"
  using assms
  by (auto simp: session_finalize_capture_def Let_def dest: set_error_signals accept_dark_idle accept_image_idle
      split: if_splits bind_splits prod.splits)

lemma pump_ticks_error [simp]: "ev_session_error (pump_ticks s e) = ev_session_error e"
  by (simp add: pump_ticks_def Let_def)

lemma pump_fdt_go: "pump_fdt env s e h = Some ((True, s', e'), h') \<Longrightarrow> ss_mode s' = ss_mode s \<and> ss_svc s' = ss_svc s"
  by (auto simp: pump_fdt_def Let_def split: if_splits bind_splits prod.splits)

lemma pump_fdt_stop: "pump_fdt env s e h = Some ((False, s', e'), h') \<Longrightarrow> ev_session_error e'"
  by (auto simp: pump_fdt_def Let_def dest: set_error_signals split: if_splits bind_splits prod.splits)

lemma pump_ticks_on:
  assumes "ticking (ss_mode s)" "st = gxfp_tls_service_state (Some (ss_svc s))" "st \<noteq> GXFP_TLS_HS_ERROR"
    and "ss_mode s = GXFP_MODE_ACTIVATING_TLS \<longrightarrow> st \<noteq> GXFP_TLS_HS_CONNECTED"
    and "ss_mode s \<in> {GXFP_MODE_ACTIVATING_DARK_CAPTURE, GXFP_MODE_CAPTURING} \<longrightarrow> st \<noteq> GXFP_TLS_HS_DONE"
  shows "ev_request_tick (pump_ticks s e)"
  using assms by (cases "ss_mode s") (simp_all add: pump_ticks_def Let_def ticking_def)

lemma pump_capture_ticks:
  assumes "pump_capture env s e h = Some ((s', e'), h')" "\<not> ev_session_error e'" "ticking (ss_mode s')"
    and "ss_mode s = GXFP_MODE_ACTIVATING_TLS \<longrightarrow> gxfp_tls_service_state (Some (ss_svc s)) \<noteq> GXFP_TLS_HS_CONNECTED"
  shows "ev_request_tick e' \<or> gxfp_tls_service_state (Some (ss_svc s')) = GXFP_TLS_HS_ERROR"
proof -
  let ?b = "ss_mode s = GXFP_MODE_ACTIVATING_DARK_CAPTURE \<or> ss_mode s = GXFP_MODE_CAPTURING"
  have idle: "ss_mode s' \<noteq> GXFP_MODE_IDLE" using assms(3) by (auto simp: ticking_def)
  obtain t e1 where e1: "e' = pump_ticks s' e1"
    "(if ?b then session_finalize_capture env s e t h else Some ((s, e), h)) = Some ((s', e1), h')"
    using assms(1) by (auto simp: pump_capture_def split: bind_splits)
  have "s' = s \<and> (?b \<longrightarrow> gxfp_tls_service_state (Some (ss_svc s')) \<noteq> GXFP_TLS_HS_DONE)"
    using e1 assms(2) finalize_moves [of env s e t h s' e1 h'] idle by (cases ?b) auto
  then show ?thesis using pump_ticks_on [OF assms(3) refl, of e1] assms(4) e1(1) by auto
qed

lemma pump_keeps_ticking:
  assumes "session_pump_impl env lib c s e h = Some ((s', e'), h')" "\<not> ev_session_error e'" "ticking (ss_mode s')"
  shows "ev_request_tick e' \<or> gxfp_tls_service_state (Some (ss_svc s')) = GXFP_TLS_HS_ERROR"
proof -
  have go: "\<not> (ss_mode s = GXFP_MODE_CLOSED \<or> ss_mode s = GXFP_MODE_READY \<or> ss_mode s = GXFP_MODE_FAILED)"
    using assms by (auto simp: session_pump_impl_def ticking_def split: if_splits)
  obtain s1 e1 h1 s2 e2 h2 s3 e3 h3 where p:
    "session_maybe_finish_activation env s1 e1 h1 = Some ((s2, e2), h2)" "\<not> ev_session_error e2"
    "pump_fdt env s2 e2 h2 = Some ((True, s3, e3), h3)" "pump_capture env s3 e3 h3 = Some ((s', e'), h')"
    using assms(1,2) unfolding session_pump_impl_def if_not_P [OF go]
    by (auto dest!: set_error_signals pump_fdt_stop split: if_splits bind_splits)
  show ?thesis
    by (rule pump_capture_ticks [OF p(4) assms(2,3)]) (use finish_activation_moves [OF p(1,2)] pump_fdt_go [OF p(3)] in auto)
qed

lemma on_fd_keeps_ticking:
  assumes "session_on_fd_impl env lib cond c s e h = Some ((s', e'), h')" "\<not> ev_session_error e'" "ticking (ss_mode s')"
  shows "ev_request_tick e' \<or> gxfp_tls_service_state (Some (ss_svc s')) = GXFP_TLS_HS_ERROR"
proof -
  have go: "\<not> (ss_mode s = GXFP_MODE_CLOSED \<or> ss_mode s = GXFP_MODE_READY \<or> ss_mode s = GXFP_MODE_FAILED)"
    using assms by (auto simp: session_on_fd_impl_def ticking_def split: if_splits)
  obtain s1 e1 h1 where "session_pump_impl env lib c s1 e1 h1 = Some ((s', e'), h')"
    using assms(1,2) unfolding session_on_fd_impl_def if_not_P [OF go]
    by (auto dest!: set_error_signals split: if_splits bind_splits)
  then show ?thesis by (rule pump_keeps_ticking [OF _ assms(2,3)])
qed

end
