(* ===== verification/Session_Props.thy ===== *)
theory Session_Props
  imports Session_Run
begin

unbundle bit_operations_syntax

text \<open>
  What the session promises its driver: it returns and accounts for its memory over any run of calls, its events agree with
  its modes, opening is all or nothing, a capture delivers the corrected image.
\<close>

section \<open>Events and modes\<close>

text \<open>The messages of a call that starts with cleared events: which of them can be set, and what the mode then is.\<close>

definition messages_fit :: "gxfp_session_mode \<Rightarrow> gxfp_session_mode \<Rightarrow> gxfp_session_events \<Rightarrow> bool" where
  "messages_fit m m' e \<longleftrightarrow>
    \<not> ev_close_complete e \<and> \<not> ev_deactivate_complete e \<and>
    (ev_session_error e \<longleftrightarrow> m' = GXFP_MODE_FAILED) \<and> (ev_session_error e \<longrightarrow> ev_error_code e < 0) \<and>
    (ev_session_error e \<and> ev_error_target e = GXFP_SESSION_ERR_TARGET_ACTIVATE \<longrightarrow> activating m) \<and>
    (ev_cancel_tick e \<longrightarrow> m' = GXFP_MODE_FAILED) \<and>
    (ev_activate_complete e \<longrightarrow> activating m \<and> m' \<in> {GXFP_MODE_IDLE, GXFP_MODE_FAILED}) \<and>
    (ev_image_ready e \<longrightarrow> m = GXFP_MODE_CAPTURING \<and> m' \<in> {GXFP_MODE_IDLE, GXFP_MODE_FAILED}) \<and>
    (ev_finger_status_changed e \<longrightarrow>
       m = (if ev_finger_present e then GXFP_MODE_WAIT_FINGER_ON else GXFP_MODE_WAIT_FINGER_OFF) \<and> m' \<in> {m, GXFP_MODE_FAILED}) \<and>
    (m' \<noteq> m \<longrightarrow> m' = GXFP_MODE_FAILED \<or> m' = GXFP_MODE_IDLE \<and> (ev_activate_complete e \<or> ev_image_ready e) \<or>
       activating m \<and> activating m')"

text \<open>Progress keeps the messages in line with the modes.\<close>

lemma signals_eq:
  "signals e' = signals e \<longleftrightarrow> ev_activate_complete e' = ev_activate_complete e \<and> ev_deactivate_complete e' = ev_deactivate_complete e \<and>
     ev_close_complete e' = ev_close_complete e \<and> ev_session_error e' = ev_session_error e \<and> ev_image_ready e' = ev_image_ready e \<and>
     ev_finger_status_changed e' = ev_finger_status_changed e \<and> ev_finger_present e' = ev_finger_present e \<and>
     ev_cancel_tick e' = ev_cancel_tick e \<and>
     ev_error_code e' = ev_error_code e \<and> ev_error_target e' = ev_error_target e"
  by (auto simp: signals_def)

lemma progress_fits: "progress (m1, e1) (m2, e2) \<Longrightarrow> messages_fit m m1 e1 \<Longrightarrow> messages_fit m m2 e2"
  by (erule progress.cases) (auto simp: messages_fit_def signals_eq activating_def split: if_splits)

lemma progress_messages:
  assumes "progress\<^sup>*\<^sup>* (m, events_zero) (m', e')" "m \<noteq> GXFP_MODE_FAILED"
  shows "messages_fit m m' e'"
proof -
  have "messages_fit m (fst x) (snd x)" if "progress\<^sup>*\<^sup>* (m, events_zero) x" for x
    using that
  proof induction
    case base
    then show ?case using assms(2) by (simp add: messages_fit_def events_zero_def)
  next
    case (step y z)
    then show ?case using progress_fits by (metis prod.collapse)
  qed
  from this [OF assms(1)] show ?thesis by simp
qed

section \<open>Properties\<close>

text \<open>C5: A session returns from every call and loses no memory. From its initialisation on, any run of calls of the driver
  (opening, activation, deactivation, closing, ticks, records, requests, taking images, disposal, in any order and with any
  arguments) terminates whatever the device, the allocator and the TLS library answer, provided that the clock runs and
  that a burst of records ends; after it the session satisfies its invariant, the live blocks are those it owns and the
  images it handed over, and disposing of it gives back everything but these images.\<close>

theorem session_life:
  assumes "world_ok env lib" and "gxfp_session_init env (Some s0) h0 = (Some ss, h)"
  shows "\<exists>ss' k h' h''. session_calls env lib cs ss 0 h = Some ((ss', k), h') \<and> session_inv ss' \<and>
    ulive h' = ulive h0 + owned ss' + k \<and>
    gxfp_session_dispose (Some ss') h' = (Some \<lparr>se_impl = None\<rparr>, h'') \<and> ulive h'' = ulive h0 + k"
proof -
  have none: "session_inv \<lparr>se_impl = None\<rparr>" by (simp add: session_inv_def)
  have start: "session_inv ss \<and> ulive h - owned ss = ulive h0"
  proof (cases rule: ensure_impl_runs [OF none, where env = env and h = h0])
    case 1
    then show ?thesis using assms(2) by (auto simp: gxfp_session_init_def session_inv_def owned_def)
  next
    case (2 i h')
    then show ?thesis using assms(2) by (auto simp: gxfp_session_init_def session_inv_def owned_def)
  qed
  obtain ss' k h' where c: "session_calls env lib cs ss 0 h = Some ((ss', k), h')" "session_inv ss'" "ulive h' - owned ss' - k = ulive h - owned ss"
    using calls_run [OF assms(1), of ss cs 0 h] start by auto
  obtain h'' where d: "gxfp_session_dispose (Some ss') h' = (Some (ss'\<lparr>se_impl := None\<rparr>), h'')" "ulive h'' = ulive h' - owned ss'"
    by (rule dispose_frees [OF c(2)])
  have "ss'\<lparr>se_impl := None\<rparr> = \<lparr>se_impl = None\<rparr>" by (cases ss') simp
  then show ?thesis using c d start by auto
qed

lemma sim_world: "world_ok sim_uenv image_lib"
  using sim_clock_runs image_lib_ok
  by (auto simp: world_ok_def errnos_def bursts_end_def burst_def sim_uenv_def wfp_def)

theorem session_life_witness:
  "\<exists>ss' k h' h''. session_calls sim_uenv image_lib
      [Call_open (Some ''/dev/gxfp'') (Some (zeros 32)) 32, Call_activate, Call_on_fd 1 False, Call_close True, Call_take_image]
      (the (fst (gxfp_session_init sim_uenv (Some \<lparr>se_impl = None\<rparr>) []))) 0 (snd (gxfp_session_init sim_uenv (Some \<lparr>se_impl = None\<rparr>) [])) =
        Some ((ss', k), h') \<and> session_inv ss' \<and> ulive h' = ulive [] + owned ss' + k \<and>
    gxfp_session_dispose (Some ss') h' = (Some \<lparr>se_impl = None\<rparr>, h'') \<and> ulive h'' = ulive [] + k"
  by (rule session_life [OF sim_world, of "\<lparr>se_impl = None\<rparr>"]) (simp add: gxfp_session_init_def session_ensure_impl_def malloc_def sim_uenv_def)

text \<open>An open session with a connected service and a dark frame of the small Milan format.\<close>

definition demo_session :: gxfp_session_impl where
  "demo_session = session_zero\<lparr>ss_dev := \<lparr>ud_fd = 3\<rparr>, ss_svc := \<lparr>sv_impl = Some demo_service\<rparr>,
     ss_fdt := the (gxfp_fdt_flow_init (Some fdt_flow_zero)), ss_mode := GXFP_MODE_IDLE,
     ss_dark := \<lparr>dk_pixels = Some (replicate 864 7), dk_rows = 54, dk_cols = 16\<rparr>, ss_dark_loaded := True\<rparr>"

lemma demo_session_ok: "session_ok demo_session"
  by (simp add: session_ok_def demo_session_def session_zero_def image_zero_def fresh_fdt tap_ok_def demo_service_inv dark_fits_def)

lemma demo_session_sel [simp]:
  "ss_mode demo_session = GXFP_MODE_IDLE" "ss_svc demo_session = \<lparr>sv_impl = Some demo_service\<rparr>" "ss_dev demo_session = \<lparr>ud_fd = 3\<rparr>"
  "ss_dark demo_session = \<lparr>dk_pixels = Some (replicate 864 7), dk_rows = 54, dk_cols = 16\<rparr>" "ss_dark_loaded demo_session"
  by (simp_all add: demo_session_def)

text \<open>C16: The events of a tick or of a batch of records say what happened to the session. Started with cleared events in a
  mode other than failed or closed, both calls return a session whose mode and events are related by steps of the protocol,
  so that an error is reported exactly when the session has failed, with a negative code; activation is reported only from
  an activating mode and an image only from capturing, and then the session is idle or failed afterwards; the mode changes
  to idle only with one of these two messages; a finger is reported down only while waiting for it and up only while waiting
  for it to be lifted; nothing else is reported.\<close>

theorem session_events_fit_modes:
  assumes "world_ok env lib" and "session_ok s" and "ss_mode s \<noteq> GXFP_MODE_CLOSED" and "ss_mode s \<noteq> GXFP_MODE_FAILED"
    and "res = gxfp_session_pump env lib (Some \<lparr>se_impl = Some s\<rparr>) cancelled (gxfp_session_events_clear (Some e)) h \<or>
      res = gxfp_session_on_fd env lib (Some \<lparr>se_impl = Some s\<rparr>) cond cancelled (gxfp_session_events_clear (Some e)) h"
  shows "\<exists>s' e' h'. res = Some ((Some \<lparr>se_impl = Some s'\<rparr>, Some e'), h') \<and> session_ok s' \<and>
    progress\<^sup>*\<^sup>* (ss_mode s, events_zero) (ss_mode s', e') \<and> messages_fit (ss_mode s) (ss_mode s') e'"
proof -
  note w = world_okD [OF assms(1)]
  have clear: "gxfp_session_events_clear (Some e) = Some events_zero" by (simp add: gxfp_session_events_clear_def events_zero_def)
  have "session_post s events_zero h (session_pump_impl env lib cancelled s events_zero h)" by (rule pump_post [OF w(1,4,5) assms(2,3)])
  moreover have "session_post s events_zero h (session_on_fd_impl env lib cond cancelled s events_zero h)" by (rule on_fd_post [OF w assms(2,3)])
  ultimately show ?thesis
    using assms(5) progress_messages [OF _ assms(4)]
    unfolding gxfp_session_pump_def gxfp_session_on_fd_def with_impl_def session_post_def clear by (auto dest: session_sameD)
qed

theorem session_events_fit_modes_witness:
  "\<exists>s' e' h'. gxfp_session_on_fd sim_uenv image_lib (Some \<lparr>se_impl = Some demo_session\<rparr>) 8 False (gxfp_session_events_clear (Some events_zero)) [] =
      Some ((Some \<lparr>se_impl = Some s'\<rparr>, Some e'), h') \<and> session_ok s' \<and>
    progress\<^sup>*\<^sup>* (ss_mode demo_session, events_zero) (ss_mode s', e') \<and> messages_fit (ss_mode demo_session) (ss_mode s') e'"
  by (rule session_events_fit_modes [OF sim_world demo_session_ok, where cancelled = False and cond = 8 and e = events_zero and h = "[]"]) simp_all

text \<open>C17: Opening is all or nothing. Whatever the arguments, the device and the allocator do, opening returns a session that
  satisfies its invariant and has accounted for its memory: with 0 it is ready, its TLS service is connecting and the key
  has 32 bytes; with a negative code the session is as before or it is closed, and a closed session holds at most its
  record buffer.\<close>

theorem session_open_all_or_nothing:
  assumes "world_ok env lib" and "session_inv ss"
  shows "\<exists>r ss' h'. gxfp_session_open env lib (Some ss) path psk n h = Some ((r, Some ss'), h') \<and> session_inv ss' \<and>
    ulive h' = ulive h - owned ss + owned ss' \<and>
    (if r = 0 then \<exists>i. se_impl ss' = Some i \<and> ss_mode i = GXFP_MODE_READY \<and> ss_psk_len i = 32 \<and>
        gxfp_tls_service_state (Some (ss_svc i)) = GXFP_TLS_HS_CONNECTING
     else r < 0 \<and> (ss' = ss \<and> h' = h \<or>
        (\<exists>i. se_impl ss' = Some i \<and> ss_mode i = GXFP_MODE_CLOSED \<and> owned ss' = 1 + blk (ss_tap_io_buf i))))"
proof (cases "path = None \<or> psk = None \<or> n = 0")
  case True
  then have "gxfp_session_open env lib (Some ss) path psk n h = Some ((- EINVAL, Some ss), h)"
    by (auto simp: gxfp_session_open_def split: option.split)
  then show ?thesis using assms(2) by simp
next
  case False
  then obtain p key where F: "path = Some p" "psk = Some key" "n \<noteq> 0" by auto
  note w = world_okD [OF assms(1)]
  show ?thesis
  proof (cases rule: ensure_impl_runs [OF assms(2), where env = env and h = h])
    case 1
    then show ?thesis using F assms(2) by (simp add: gxfp_session_open_def)
  next
    case (2 i h1)
    obtain r i' h' where o1: "session_open_impl env lib i p key n h1 = Some ((r, i'), h')" "open_result i h1 r i' h'"
      by (rule open_impl_runs [OF w(1,2) 2(2)])
    have "session_blocks i' = 1 + blk (ss_tap_io_buf i')" if "session_ok i'" "ss_mode i' = GXFP_MODE_CLOSED"
      using that closed_session [OF that] by (simp add: session_ok_def session_blocks_def svc_live_def)
    then show ?thesis
      using F 2 o1 by (auto simp: gxfp_session_open_def open_result_def session_moved_def session_inv_def owned_def)
  qed
qed

theorem session_open_all_or_nothing_witness:
  "\<exists>r ss' h'. gxfp_session_open sim_uenv image_lib (Some \<lparr>se_impl = None\<rparr>) (Some ''/dev/gxfp'') (Some (zeros 32)) 32 [] = Some ((r, Some ss'), h') \<and>
    session_inv ss' \<and> ulive h' = ulive [] - owned \<lparr>se_impl = None\<rparr> + owned ss' \<and>
    (if r = 0 then \<exists>i. se_impl ss' = Some i \<and> ss_mode i = GXFP_MODE_READY \<and> ss_psk_len i = 32 \<and>
        gxfp_tls_service_state (Some (ss_svc i)) = GXFP_TLS_HS_CONNECTING
     else r < 0 \<and> (ss' = \<lparr>se_impl = None\<rparr> \<and> h' = [] \<or>
        (\<exists>i. se_impl ss' = Some i \<and> ss_mode i = GXFP_MODE_CLOSED \<and> owned ss' = 1 + blk (ss_tap_io_buf i))))"
  by (rule session_open_all_or_nothing [OF sim_world]) (simp add: session_inv_def)

section \<open>A capture\<close>

text \<open>The end of a capture whose image has arrived.\<close>

lemma finalize_image:
  assumes "session_ok s" "ss_mode s = GXFP_MODE_CAPTURING" "ss_svc s = \<lparr>sv_impl = Some i\<rparr>" "si_state i = GXFP_TLS_HS_DONE"
    and "sink_view (Some (si_img i)) = Some (hdr, a @ body @ b)" and "\<forall>h n. sys_malloc env h n"
    and "(mode, pl, rows, cols) \<in> set decode_modes" and "length a \<in> {0, 5}" and "length b \<in> {0, 4}" and "length body = pl"
    and "ss_dark_loaded s \<longrightarrow> dk_rows (ss_dark s) = rows \<and> dk_cols (ss_dark s) = cols"
  obtains s' px out h' where "session_finalize_capture env s e t h = Some ((s', e\<lparr>ev_image_ready := True\<rparr>), h')"
    "ss_mode s' = GXFP_MODE_IDLE" "ss_pending_img_ready s'" "ss_pending_img s' = \<lparr>im_pixels = Some out, im_rows = rows, im_cols = cols\<rparr>"
    "length px = nat rows * nat cols" "\<forall>r < nat rows. \<forall>c < nat cols. unat (px ! (r * nat cols + c)) = format_pixel mode body r c"
    "if ss_dark_loaded s then stretched_to (nat rows) (nat cols) (base_level px (dk_pixels (ss_dark s))) out else out = px"
proof -
  let ?img = "a @ body @ b"
  have inv: "svc_inv (ss_dev s) i" using session_okD(2) [OF assms(1)] assms(3) by (simp add: svc_ok_def)
  have l5: "length (ufresh env h 5) = 5" by simp
  obtain i' h1 oh' where raw: "gxfp_tls_service_get_raw_image env (Some \<lparr>sv_impl = Some i\<rparr>) (Some (ufresh env h 5)) True h =
      ((1, Some \<lparr>sv_impl = Some i'\<rparr>, oh', Some (Some ?img, length ?img)), h1)"
    by (rule raw_image_kept [OF inv l5, of env h]) (use assms(5,6) in auto)
  have rc: "0 < rows" "0 < cols" using assms(7) by (auto simp: decode_modes_def)
  obtain res where res: "gxfp_decode_image env (Some ?img) (length ?img) GXFP_DECODE_AUTO (Some image_zero) h1 = Some res"
    "decoded env image_zero (nat rows) (nat cols) (format_pixel mode body) h1 res"
    using auto_decode_format [OF assms(7-10)] by blast
  obtain px h2 where px: "res = ((0, Some (image_zero\<lparr>im_pixels := Some px, im_rows := int (nat rows), im_cols := int (nat cols)\<rparr>)), h2)"
    "length px = nat rows * nat cols" "\<forall>r < nat rows. \<forall>c < nat cols. unat (px ! (r * nat cols + c)) = format_pixel mode body r c"
    using res(2) assms(6) by (auto simp: decoded_def split: prod.splits)
  let ?im = "\<lparr>im_pixels = Some px, im_rows = rows, im_cols = cols\<rparr>" and ?s = "s\<lparr>ss_svc := \<lparr>sv_impl = Some i'\<rparr>\<rparr>"
  have eq: "session_finalize_capture env s e t h = session_accept_image env ?s e ?im (ufree h2)"
    using assms(2-4) raw res(1) px(1) rc
    by (simp add: session_finalize_capture_def gxfp_tls_service_state_def image_zero_def ufree_ptr_def Let_def)
  have dark: "dark_fits rows cols (Some (ss_dark s))" if "ss_dark_loaded s"
    using assms(1,11) that by (simp add: session_ok_def)
  obtain out where c: "(if ss_dark_loaded s then gxfp_fpn_correct (Some px) rows cols (Some (ss_dark s)) else Some (0, Some px)) = Some (0, Some out)"
    "if ss_dark_loaded s then stretched_to (nat rows) (nat cols) (base_level px (dk_pixels (ss_dark s))) out else out = px"
    using fpn_correct_ok [OF rc px(2) dark] by (cases "ss_dark_loaded s") auto
  let ?s' = "?s\<lparr>ss_pending_img := ?im\<lparr>im_pixels := Some out\<rparr>, ss_pending_img_ready := True, ss_mode := GXFP_MODE_IDLE\<rparr>"
  have "\<exists>h'. session_accept_image env ?s e ?im (ufree h2) = Some ((?s', e\<lparr>ev_image_ready := True\<rparr>), h')"
    using c(1) by (cases "ss_dark_loaded s") (simp_all add: session_accept_image_def Let_def)
  then show thesis using that [of ?s'] eq px(2,3) c(2) by auto
qed

text \<open>A tick that finds the image complete.\<close>

lemma pump_image:
  assumes "ss_mode s = GXFP_MODE_CAPTURING" "\<not> ev_session_error e"
    and "gxfp_tls_service_step env lib (Some (ss_svc s)) h = Some ((1, Some sv), h1)"
    and "session_finalize_capture env (s\<lparr>ss_svc := sv\<rparr>) e GXFP_SESSION_ERR_TARGET_CAPTURE h1 = Some ((s', e'), h')"
  shows "session_pump_impl env lib False s e h = Some ((s', pump_ticks s' e'), h')"
proof -
  have "session_poll_tls env lib s e h = Some ((s\<lparr>ss_svc := sv\<rparr>, e), h1)"
    unfolding session_poll_tls_def using assms(3) by (simp add: numeral_eq_Suc)
  then show ?thesis
    using assms by (simp add: session_pump_impl_def session_maybe_finish_activation_def pump_fdt_def pump_capture_def)
qed

text \<open>C6: A capture delivers the corrected fingerprint. A session that is idle or waiting for a finger, with a connected TLS
  service, is asked for a capture; the device takes the command and the library yields plaintexts of which the last holds
  an image frame of one of the six formats. Then the request and a single tick leave the session idle with the image
  reported, and taking the image hands out the size of the format and pixels that are the linear stretch of the difference
  between the samples of the frame and the dark frame (the samples themselves without a dark frame); the session keeps
  no image.\<close>

theorem capture_delivers_corrected_image:
  assumes "lib_ok lib" and "session_ok s" and "ss_mode s \<in> {GXFP_MODE_IDLE, GXFP_MODE_WAIT_FINGER_ON}" and "\<not> ev_session_error e"
    and "ss_svc s = \<lparr>sv_impl = Some i\<rparr>" and "si_state i \<in> {GXFP_TLS_HS_CONNECTED, GXFP_TLS_HS_DONE}" and "si_engine i = Some eng"
    and "\<forall>h n. sys_malloc env h n" and "\<And>h. fst (gxfp_cmd_get_image env (Some (ss_dev s)) h) = 0"
    and "yields lib eng (ms @ [m])" and "list_all (\<lambda>m. \<exists>fs. chunk fs m \<and> first_image fs = None) ms" and "chunk fs m"
    and "first_image fs = Some (hdr, body @ tail)" and "(mode, length body, rows, cols) \<in> set decode_modes" and "length tail = 4"
    and "ss_dark_loaded s \<longrightarrow> dk_rows (ss_dark s) = rows \<and> dk_cols (ss_dark s) = cols"
  shows "\<exists>s1 e1 h1 s2 e2 h2 px out.
    gxfp_session_change_state env (Some \<lparr>se_impl = Some s\<rparr>) GXFP_SESSION_STATE_CAPTURE (Some e) h = Some ((Some s1, Some e1), h1) \<and>
    gxfp_session_pump env lib (Some s1) False (Some e1) h1 = Some ((Some \<lparr>se_impl = Some s2\<rparr>, Some e2), h2) \<and>
    ss_mode s2 = GXFP_MODE_IDLE \<and> ev_image_ready e2 \<and> \<not> ev_session_error e2 \<and>
    gxfp_session_take_image (Some \<lparr>se_impl = Some s2\<rparr>) (Some image_zero) =
      (0, Some \<lparr>se_impl = Some (s2\<lparr>ss_pending_img := image_zero, ss_pending_img_ready := False\<rparr>)\<rparr>,
       Some \<lparr>im_pixels = Some out, im_rows = rows, im_cols = cols\<rparr>) \<and>
    (\<forall>r < nat rows. \<forall>c < nat cols. unat (px ! (r * nat cols + c)) = format_pixel mode body r c) \<and>
    (if ss_dark_loaded s then stretched_to (nat rows) (nat cols) (base_level px (dk_pixels (ss_dark s))) out
     else out = px \<and> length px = nat rows * nat cols)"
proof -
  have open_s: "ss_mode s \<noteq> GXFP_MODE_CLOSED" using assms(3) by auto
  have inv: "svc_inv (ss_dev s) i" using session_okD(2) [OF assms(2)] assms(5) by (simp add: svc_ok_def)
  obtain i1 h1 where q: "gxfp_tls_service_request_capture (Some \<lparr>sv_impl = Some i\<rparr>) h = ((0, Some \<lparr>sv_impl = Some i1\<rparr>), h1)"
    "svc_inv (ss_dev s) i1" "si_state i1 = GXFP_TLS_HS_CONNECTED" "si_pending_capture i1" "\<not> si_capture_sent i1" "si_engine i1 = Some eng"
    by (rule request_connects [OF inv assms(6,7)])
  let ?s1 = "s\<lparr>ss_svc := \<lparr>sv_impl = Some i1\<rparr>, ss_mode := GXFP_MODE_CAPTURING\<rparr>" and ?e1 = "e\<lparr>ev_request_tick := True, ev_tick_delay_ms := 0\<rparr>"
  have c1: "gxfp_session_change_state env (Some \<lparr>se_impl = Some s\<rparr>) GXFP_SESSION_STATE_CAPTURE (Some e) h =
      Some ((Some \<lparr>se_impl = Some ?s1\<rparr>, Some ?e1), h1)"
    using assms(3,5) q(1) by (auto simp: gxfp_session_change_state_def with_impl_def session_change_state_impl_def gxfp_session_mode_has_io_def)
  obtain i2 h2 where st: "gxfp_tls_service_step env lib (Some \<lparr>sv_impl = Some i1\<rparr>) h1 = Some ((1, Some \<lparr>sv_impl = Some i2\<rparr>), h2)"
    "svc_inv (ss_dev s) i2" "si_state i2 = GXFP_TLS_HS_DONE" "sink_view (Some (si_img i2)) = Some (hdr, body @ tail)"
    by (rule capture_step [OF assms(1) q(2-6) assms(8-13)])
  let ?s2 = "?s1\<lparr>ss_svc := \<lparr>sv_impl = Some i2\<rparr>\<rparr>"
  have ok: "session_ok ?s2" using assms(2) open_s st(2) by (simp add: session_ok_def)
  obtain s3 px out h3 where f: "session_finalize_capture env ?s2 ?e1 GXFP_SESSION_ERR_TARGET_CAPTURE h2 = Some ((s3, ?e1\<lparr>ev_image_ready := True\<rparr>), h3)"
    "ss_mode s3 = GXFP_MODE_IDLE" "ss_pending_img_ready s3" "ss_pending_img s3 = \<lparr>im_pixels = Some out, im_rows = rows, im_cols = cols\<rparr>"
    "length px = nat rows * nat cols" "\<forall>r < nat rows. \<forall>c < nat cols. unat (px ! (r * nat cols + c)) = format_pixel mode body r c"
    "if ss_dark_loaded ?s2 then stretched_to (nat rows) (nat cols) (base_level px (dk_pixels (ss_dark ?s2))) out else out = px"
    by (rule finalize_image [where a = "[]" and body = body and b = tail and hdr = hdr and i = i2, OF ok _ _ st(3) _ assms(8,14)])
      (use st(4) assms(15,16) in simp_all)
  have p: "session_pump_impl env lib False ?s1 ?e1 h1 = Some ((s3, pump_ticks s3 (?e1\<lparr>ev_image_ready := True\<rparr>)), h3)"
    by (rule pump_image [OF _ _ _ f(1)]) (use assms(4) st(1) in simp_all)
  have e3: "ev_image_ready (pump_ticks s3 (?e1\<lparr>ev_image_ready := True\<rparr>))" "\<not> ev_session_error (pump_ticks s3 (?e1\<lparr>ev_image_ready := True\<rparr>))"
    using assms(4) by (simp_all add: pump_ticks_def Let_def)
  have p1: "gxfp_session_pump env lib (Some \<lparr>se_impl = Some ?s1\<rparr>) False (Some ?e1) h1 =
      Some ((Some \<lparr>se_impl = Some s3\<rparr>, Some (pump_ticks s3 (?e1\<lparr>ev_image_ready := True\<rparr>))), h3)"
    by (simp add: gxfp_session_pump_def with_impl_def p)
  have t: "gxfp_session_take_image (Some \<lparr>se_impl = Some s3\<rparr>) (Some image_zero) =
      (0, Some \<lparr>se_impl = Some (s3\<lparr>ss_pending_img := image_zero, ss_pending_img_ready := False\<rparr>)\<rparr>,
       Some \<lparr>im_pixels = Some out, im_rows = rows, im_cols = cols\<rparr>)"
    using f(3,4) by (simp add: gxfp_session_take_image_def)
  have r: "if ss_dark_loaded s then stretched_to (nat rows) (nat cols) (base_level px (dk_pixels (ss_dark s))) out
     else out = px \<and> length px = nat rows * nat cols"
    using f(5,7) by (cases "ss_dark_loaded s") simp_all
  show ?thesis using c1 p1 f(2) e3 t f(6) r by blast
qed

lemma demo_engine: "si_engine demo_service = Some (the (si_engine demo_service))"
  by (simp add: demo_service_def)

lemma demo_service_sel [simp]: "si_state demo_service = GXFP_TLS_HS_CONNECTED"
  "te_ssl (the (si_engine demo_service)) = []"
  by (simp_all add: demo_service_def)

definition nav_image :: bytes where
  "nav_image = zeros 0x0540"

definition nav_frame :: "u8 \<times> bytes" where
  "nav_frame = (0x20, [1, 2, 3, 4, 5] @ nav_image @ crc_tail (crc32_spec nav_image))"

definition nav_plain :: bytes where
  "nav_plain = (case nav_frame of (c, p) \<Rightarrow> body_bytes c p)"

lemma nav_facts: "length nav_image = 0x0540" "length nav_plain = 1357" "chunk [nav_frame] nav_plain"
  "first_image [nav_frame] = Some ([1, 2, 3, 4, 5], nav_image @ crc_tail (crc32_spec nav_image))"
proof -
  show l: "length nav_image = 0x0540" by (simp add: nav_image_def)
  have "gxfp_image_crc_check (Some (nav_image @ crc_tail (crc32_spec nav_image))) 1348"
    using image_crc_check_append [of "crc_tail (crc32_spec nav_image)" nav_image "[]"] l by simp
  then show "first_image [nav_frame] = Some ([1, 2, 3, 4, 5], nav_image @ crc_tail (crc32_spec nav_image))"
    using l by (simp add: nav_frame_def frame_image_def image_of_def)
  show "length nav_plain = 1357" using l by (simp add: nav_plain_def nav_frame_def)
  then show "chunk [nav_frame] nav_plain" using l by (simp add: nav_plain_def nav_frame_def chunk_def TLS_REC_MAX_PLAIN_def)
qed

theorem capture_delivers_corrected_image_witness:
  "\<exists>s1 e1 h1 s2 e2 h2 px out.
    gxfp_session_change_state sim_uenv (Some \<lparr>se_impl = Some demo_session\<rparr>) GXFP_SESSION_STATE_CAPTURE (Some events_zero) [] = Some ((Some s1, Some e1), h1) \<and>
    gxfp_session_pump sim_uenv (frame_lib nav_plain) (Some s1) False (Some e1) h1 = Some ((Some \<lparr>se_impl = Some s2\<rparr>, Some e2), h2) \<and>
    ss_mode s2 = GXFP_MODE_IDLE \<and> ev_image_ready e2 \<and> \<not> ev_session_error e2 \<and>
    gxfp_session_take_image (Some \<lparr>se_impl = Some s2\<rparr>) (Some image_zero) =
      (0, Some \<lparr>se_impl = Some (s2\<lparr>ss_pending_img := image_zero, ss_pending_img_ready := False\<rparr>)\<rparr>,
       Some \<lparr>im_pixels = Some out, im_rows = 54, im_cols = 16\<rparr>) \<and>
    (\<forall>r < nat 54. \<forall>c < nat 16. unat (px ! (r * nat 16 + c)) = format_pixel GXFP_DECODE_MILANG_NAV nav_image r c) \<and>
    (if ss_dark_loaded demo_session then stretched_to (nat 54) (nat 16) (base_level px (dk_pixels (ss_dark demo_session))) out
     else out = px \<and> length px = nat 54 * nat 16)"
proof (rule capture_delivers_corrected_image [OF frame_lib_ok(1) demo_session_ok])
  show "yields (frame_lib nav_plain) (the (si_engine demo_service)) ([] @ [nav_plain])"
    by (rule frame_lib_yields) (simp_all add: nav_facts(2) TLS_REC_MAX_PLAIN_def)
  show "si_engine demo_service = Some (the (si_engine demo_service))" by (rule demo_engine)
  show "chunk [nav_frame] nav_plain" by (rule nav_facts)
  show "first_image [nav_frame] = Some ([1, 2, 3, 4, 5], nav_image @ crc_tail (crc32_spec nav_image))" by (rule nav_facts)
  show "fst (gxfp_cmd_get_image sim_uenv (Some (ss_dev demo_session)) h) = 0" for h by (simp add: sim_get_image)
  show "(GXFP_DECODE_MILANG_NAV, length nav_image, 54, 16) \<in> set decode_modes" by (simp add: nav_facts(1) decode_modes_def)
qed (simp_all add: events_clear sim_uenv_def)

section \<open>A failed restart\<close>

text \<open>When restarting TLS fails, the service is gone, and its state reads as one that has yet to start: activation then
  neither restarts it nor reports an error, and the next tick fails with the code of a missing service, again and again
  until the session is closed.\<close>

lemma failed_restart_sticks:
  assumes "clock_runs env" "session_ok s" "ss_mode s \<noteq> GXFP_MODE_CLOSED" "ss_svc s = \<lparr>sv_impl = None\<rparr>"
  obtains s1 e1 s2 e2 h2 where "session_activate_impl env lib s events_zero h = Some ((0, s1, e1), h)" "\<not> ev_session_error e1"
    "session_pump_impl env lib False s1 events_zero h = Some ((s2, e2), h2)" "ss_mode s2 = GXFP_MODE_FAILED"
    "ev_session_error e2" "ev_error_code e2 = - EINVAL" "ss_svc s2 = \<lparr>sv_impl = None\<rparr>"
proof -
  define s0 where "s0 = (if ss_mode s = GXFP_MODE_FAILED then s\<lparr>ss_mode := GXFP_MODE_READY\<rparr> else s)"
  let ?t = "s0\<lparr>ss_fdt := the (gxfp_fdt_flow_init (Some (ss_fdt s0)))\<rparr>"
  obtain f where f: "session_apply_fdt_runtime_from_otp ?t = ?t\<lparr>ss_fdt := f\<rparr>" "fdt_inv f" using runtime_fdt [of ?t] fresh_fdt by auto
  let ?s1 = "s0\<lparr>ss_fdt := f, ss_mode := GXFP_MODE_ACTIVATING_TLS\<rparr>" and ?e1 = "events_zero\<lparr>ev_request_tick := True, ev_tick_delay_ms := 0\<rparr>"
  have a: "session_activate_impl env lib s events_zero h = Some ((0, ?s1, ?e1), h)"
    using assms(3,4) f(1) events_clear(2)
    by (simp add: session_activate_impl_def gxfp_session_mode_has_io_def session_rearm_tls_if_needed_def gxfp_tls_service_state_def s0_def [symmetric] Let_def)
       (simp add: s0_def)
  have ok: "session_ok ?s1" "ss_mode ?s1 \<noteq> GXFP_MODE_CLOSED" using assms(2-4) f(2) by (simp_all add: s0_def session_ok_def)
  have none: "ss_svc ?s1 = \<lparr>sv_impl = None\<rparr>" using assms(4) by (simp add: s0_def)
  obtain h2 where x: "session_set_error env ?s1 events_zero (- EINVAL) GXFP_SESSION_ERR_TARGET_GENERIC h =
      Some ((?s1\<lparr>ss_mode := GXFP_MODE_FAILED\<rparr>, events_zero\<lparr>ev_session_error := True, ev_error_code := - EINVAL, ev_error_target := GXFP_SESSION_ERR_TARGET_GENERIC\<rparr>), h2)"
    by (rule set_error_returns [OF assms(1) ok])
  have same: "?s1\<lparr>ss_svc := \<lparr>sv_impl = None\<rparr>\<rparr> = ?s1" using none by simp
  have "session_poll_tls env lib ?s1 events_zero h =
      session_set_error env (?s1\<lparr>ss_svc := \<lparr>sv_impl = None\<rparr>\<rparr>) events_zero (- EINVAL) GXFP_SESSION_ERR_TARGET_GENERIC h"
    unfolding session_poll_tls_def using none by (simp add: numeral_eq_Suc gxfp_tls_service_step_def)
  then have "session_pump_impl env lib False ?s1 events_zero h =
      Some ((?s1\<lparr>ss_mode := GXFP_MODE_FAILED\<rparr>, events_zero\<lparr>ev_session_error := True, ev_error_code := - EINVAL, ev_error_target := GXFP_SESSION_ERR_TARGET_GENERIC\<rparr>), h2)"
    unfolding same using x by (simp add: session_pump_impl_def)
  from that [OF a _ this] show thesis using none events_clear(2) by simp
qed

text \<open>When the device cannot take the command that requests an image, the TLS service goes to its error state with the code that
  the session takes for a pause: neither this tick nor any later one reports an error or asks for another tick.\<close>

lemma busy_request_freezes:
  assumes "ss_mode s = GXFP_MODE_CAPTURING" "ss_svc s = \<lparr>sv_impl = Some v\<rparr>" "si_state v = GXFP_TLS_HS_CONNECTED"
    and "si_pending_capture v" "\<not> si_capture_sent v" "gxfp_cmd_get_image env (si_dev v) h = (- EAGAIN, h1)"
  obtains s' where "session_pump_impl env lib False s events_zero h = Some ((s', events_zero), h1)"
    "\<And>h. session_pump_impl env lib False s' events_zero h = Some ((s', events_zero), h)"
    "gxfp_tls_service_state (Some (ss_svc s')) = GXFP_TLS_HS_ERROR" "ss_mode s' = GXFP_MODE_CAPTURING"
proof -
  let ?v = "v\<lparr>si_err := - EAGAIN, si_state := GXFP_TLS_HS_ERROR\<rparr>"
  let ?s = "s\<lparr>ss_svc := \<lparr>sv_impl = Some ?v\<rparr>\<rparr>"
  have rest: "\<not> ev_session_error events_zero" "pump_capture env ?s events_zero h = Some ((?s, events_zero), h)" for h
    using assms(1) by (simp_all add: events_zero_def pump_capture_def session_finalize_capture_def gxfp_tls_service_state_def pump_ticks_def Let_def)
  have "session_poll_tls env lib s events_zero h = Some ((?s, events_zero), h1)"
    using assms by (simp add: session_poll_tls_def numeral_eq_Suc gxfp_tls_service_step_def svc_step_def)
  moreover have "session_poll_tls env lib ?s events_zero h = Some ((?s, events_zero), h)" for h
    by (simp add: session_poll_tls_def numeral_eq_Suc gxfp_tls_service_step_def svc_step_def)
  ultimately show thesis
    using that [of ?s] assms(1) rest
    by (simp add: session_pump_impl_def session_maybe_finish_activation_def pump_fdt_def gxfp_tls_service_state_def)
qed

end
