(* ===== verification/Provision.thy ===== *)
theory Provision
  imports User_Sys
begin

unbundle bit_operations_syntax

text \<open>
  The payloads that provision the key of the sensor (\<open>userspace/src/algo/payload/provision.c\<close>): the derivation of the
  key material, the sealed white box, its hash and the blob that carries both.

  The cryptographic library is a parameter: for each call the code it returns, which may depend on the history (it
  allocates), and the bytes it stores on success. An array the code fills is the list it ends up with; an array whose
  computation fails is not read. Of the output pointers the functions take whether they are there; \<open>None\<close> among the
  results is a place that was not written.
\<close>

section \<open>Definitions\<close>

record cryptolib =
  md_info_sha256 :: "uhist \<Rightarrow> bool"
  md_hmac_rc :: "uhist \<Rightarrow> int"
  md_hmac :: "bytes \<Rightarrow> bytes \<Rightarrow> bytes"
  sha256_rc :: "uhist \<Rightarrow> int"
  sha256 :: "bytes \<Rightarrow> bytes"
  sha384_rc :: "uhist \<Rightarrow> int"
  sha384 :: "bytes \<Rightarrow> bytes"
  gcm_setkey_rc :: "uhist \<Rightarrow> int"
  gcm_encrypt_rc :: "uhist \<Rightarrow> int"
  gcm_encrypt :: "bytes \<Rightarrow> bytes \<Rightarrow> bytes \<Rightarrow> bytes \<Rightarrow> bytes \<times> bytes"

definition gxfp_payload_seed32_runtime :: bytes where
  "gxfp_payload_seed32_runtime =
    [0x5c, 0xba, 0x6e, 0x25, 0x81, 0x95, 0x18, 0xde, 0x2d, 0x53, 0xe9, 0x6d, 0xc0, 0x34, 0x7a, 0xb0,
     0xd4, 0x27, 0xd4, 0x08, 0x4b, 0xda, 0x4f, 0xae, 0x1b, 0xff, 0x2b, 0x09, 0x11, 0x2a, 0x57, 0xe5]"

definition GXFP_PSK_LEN :: nat where "GXFP_PSK_LEN = 32"
definition GXFP_BB010003_WB_HMAC_LEN :: nat where "GXFP_BB010003_WB_HMAC_LEN = 32"
definition GXFP_BB010003_HDR_LEN :: nat where "GXFP_BB010003_HDR_LEN = 6"
definition GXFP_BB010003_SEED16_LEN :: nat where "GXFP_BB010003_SEED16_LEN = 16"
definition GXFP_BB010003_TAG_LEN :: nat where "GXFP_BB010003_TAG_LEN = 16"
definition GXFP_BB010003_PAYLOAD_LEN :: nat where
  "GXFP_BB010003_PAYLOAD_LEN = GXFP_BB010003_HDR_LEN + GXFP_BB010003_SEED16_LEN + GXFP_PSK_LEN + GXFP_BB010003_TAG_LEN"
definition GXFP_BB010003_WB_LEN :: nat where
  "GXFP_BB010003_WB_LEN = GXFP_BB010003_WB_HMAC_LEN + GXFP_BB010003_PAYLOAD_LEN"

lemmas bb_lens = GXFP_PSK_LEN_def GXFP_BB010003_WB_HMAC_LEN_def GXFP_BB010003_HDR_LEN_def GXFP_BB010003_SEED16_LEN_def
  GXFP_BB010003_TAG_LEN_def GXFP_BB010003_PAYLOAD_LEN_def GXFP_BB010003_WB_LEN_def

lemma bb_values:
  "GXFP_PSK_LEN = 32" "GXFP_BB010003_WB_HMAC_LEN = 32" "GXFP_BB010003_HDR_LEN = 6" "GXFP_BB010003_SEED16_LEN = 16"
  "GXFP_BB010003_TAG_LEN = 16" "GXFP_BB010003_PAYLOAD_LEN = 70" "GXFP_BB010003_WB_LEN = 102"
  by (simp_all add: bb_lens)

definition fill_tls_gcm_aad :: "bytes \<Rightarrow> bytes" where
  "fill_tls_gcm_aad aad =
    memcpy_at (memcpy_at (memcpy_at (memcpy_at aad 0 (gxfp_le32enc 0xF0C12D52)) 4 (gxfp_le32enc 0x077D5699))
      8 (gxfp_le32enc 0xA3377FF4)) 12 (gxfp_le32enc 0x7D42842A)"

definition fill_ff02_len_hdr :: "bytes \<Rightarrow> u32 \<Rightarrow> bytes" where
  "fill_ff02_len_hdr hdr data_len = memcpy_at (hdr[0 := 0x02, 1 := 0xFF]) 2 (gxfp_le32enc data_len)"

definition hmac_sha256 :: "cryptolib \<Rightarrow> ptr \<Rightarrow> nat \<Rightarrow> bytes \<Rightarrow> nat \<Rightarrow> bytes \<Rightarrow> uhist \<Rightarrow> (int \<times> bytes) \<times> uhist" where
  "hmac_sha256 lib key key_len msg msg_len out h =
    (if \<not> md_info_sha256 lib h then ((- EIO, out), h)
     else
       let rc = md_hmac_rc lib h;
           h' = UTls ''mbedtls_md_hmac'' # h
       in if rc \<noteq> 0 then ((- EIO, out), h')
          else ((0, memcpy_at out 0 (take 32 (md_hmac lib (ptr_bytes key key_len) (take msg_len msg)))), h'))"

definition compute_bb010003_wb_hmac ::
  "uenv \<Rightarrow> cryptolib \<Rightarrow> bytes \<Rightarrow> bytes \<Rightarrow> bytes \<Rightarrow> uhist \<Rightarrow> (int \<times> bytes) \<times> uhist" where
  "compute_bb010003_wb_hmac env lib key_hmac payload out_hmac h =
    (let hmac_msg = ufresh env h (GXFP_BB010003_HDR_LEN + GXFP_PSK_LEN + GXFP_BB010003_TAG_LEN);
         hmac_msg = memcpy_at hmac_msg 0 (take GXFP_BB010003_HDR_LEN payload);
         hmac_msg = memcpy_at hmac_msg GXFP_BB010003_HDR_LEN
           (take GXFP_PSK_LEN (drop (GXFP_BB010003_HDR_LEN + GXFP_BB010003_SEED16_LEN) payload));
         hmac_msg = memcpy_at hmac_msg (GXFP_BB010003_HDR_LEN + GXFP_PSK_LEN)
           (take GXFP_BB010003_TAG_LEN (drop (GXFP_BB010003_HDR_LEN + GXFP_BB010003_SEED16_LEN + GXFP_PSK_LEN) payload))
     in hmac_sha256 lib (Some key_hmac) 32 hmac_msg (GXFP_BB010003_HDR_LEN + GXFP_PSK_LEN + GXFP_BB010003_TAG_LEN) out_hmac h)"

definition local78_from_ctr :: "u32 \<Rightarrow> bytes" where
  "local78_from_ctr ctr =
    (let uvar6 = ((ctr * 0x10000) OR drop_bit 16 ctr) AND 0xFFFFFFFF;
         local78 = (((drop_bit 8 uvar6) XOR (push_bit 8 uvar6)) AND 0x00FF00FF) XOR (push_bit 8 uvar6)
     in gxfp_le32enc local78)"

definition gxfp_payload_calc_seed16 ::
  "uenv \<Rightarrow> cryptolib \<Rightarrow> ptr \<Rightarrow> nat \<Rightarrow> ptr \<Rightarrow> uhist \<Rightarrow> (int \<times> ptr) \<times> uhist" where
  "gxfp_payload_calc_seed16 env lib psk psk_len out_seed16 h =
    (case (psk, out_seed16) of
       (Some p, Some out) \<Rightarrow>
         if psk_len = 0 then ((- EINVAL, out_seed16), h)
         else
           let prefix_len = psk_len div 4
           in (case malloc env (6 + prefix_len + 64) h of
                 (None, h) \<Rightarrow> ((- ENOMEM, out_seed16), h)
               | (Some buf, h) \<Rightarrow>
                   let buf = buf[0 := 0x02, 1 := 0xFF];
                       buf = memcpy_at buf 2 (gxfp_le32enc (of_nat psk_len));
                       buf = memcpy_at buf 6 (take prefix_len p);
                       buf = foldl (\<lambda>buf i. memcpy_at buf (6 + prefix_len + 4 * i) (gxfp_le32enc 3)) buf [0..<16];
                       off = 6 + prefix_len + 64;
                       rc = sha256_rc lib h;
                       h' = UTls ''mbedtls_sha256'' # h
                   in if rc \<noteq> 0 then ((- EIO, out_seed16), ufree h')
                      else ((0, Some (memcpy_at out 0 (take 16 (sha256 lib (take off buf))))), ufree h'))
     | _ \<Rightarrow> ((- EINVAL, out_seed16), h))"

definition derive_base :: bytes where
  "derive_base = [0x6B, 0x67, 0x6F, 0x6F, 0x64, 0x77, 0x69, 0x78, 0x67, 0x00,
     0x6B, 0x61, 0x65, 0x6C, 0x72, 0x67, 0x6E, 0x6F, 0x65, 0x72, 0x6C, 0x69, 0x74, 0x68, 0x6D, 0x00, 0x00, 0x01, 0x80]"

text \<open>The result is the code and the two keys.\<close>

definition gxfp_payload_derive_key_material ::
  "uenv \<Rightarrow> cryptolib \<Rightarrow> ptr \<Rightarrow> ptr \<Rightarrow> ptr \<Rightarrow> uhist \<Rightarrow> (int \<times> ptr \<times> ptr) \<times> uhist" where
  "gxfp_payload_derive_key_material env lib seed32 out_aes_key32 out_hmac_key32 h =
    (case (seed32, out_aes_key32, out_hmac_key32) of
       (Some _, Some aes, Some hm) \<Rightarrow>
         let msg = memcpy_at (memcpy_at (ufresh env h (4 + length derive_base)) 0 (local78_from_ctr 1)) 4 derive_base
         in (case hmac_sha256 lib seed32 32 msg (4 + length derive_base) (ufresh env h 32) h of
               ((rc, round1), h) \<Rightarrow>
                 if rc < 0 then ((rc, out_aes_key32, out_hmac_key32), h)
                 else
                   let msg = memcpy_at (memcpy_at msg 0 (local78_from_ctr 2)) 4 derive_base
                   in (case hmac_sha256 lib seed32 32 msg (4 + length derive_base) (ufresh env h 32) h of
                         ((rc, round2), h) \<Rightarrow>
                           if rc < 0 then ((rc, out_aes_key32, out_hmac_key32), h)
                           else ((0, Some (memcpy_at aes 0 (take 32 round1)),
                                 Some (memcpy_at (memcpy_at hm 0 (take 16 (drop 16 round1))) 16 (take 16 round2))), h)))
     | _ \<Rightarrow> ((- EINVAL, out_aes_key32, out_hmac_key32), h))"

text \<open>Encrypting the key; the context is released on every path.\<close>

definition gcm_seal ::
  "cryptolib \<Rightarrow> bytes \<Rightarrow> bytes \<Rightarrow> bytes \<Rightarrow> bytes \<Rightarrow> uhist \<Rightarrow> (int \<times> bytes \<times> bytes) \<times> uhist" where
  "gcm_seal lib key_aes seed16 aad psk32 h =
    (let h = UTls ''mbedtls_gcm_init'' # h;
         rc = gcm_setkey_rc lib h;
         h = UTls ''mbedtls_gcm_setkey'' # h
     in if rc \<noteq> 0 then ((- EIO, [], []), UTls ''mbedtls_gcm_free'' # h)
        else
          let rc = gcm_encrypt_rc lib h;
              h = UTls ''mbedtls_gcm_free'' # UTls ''mbedtls_gcm_crypt_and_tag'' # h
          in if rc \<noteq> 0 then ((- EIO, [], []), h)
             else (case gcm_encrypt lib key_aes seed16 aad (take GXFP_PSK_LEN psk32) of
                     (cipher, tag) \<Rightarrow> ((0, take GXFP_PSK_LEN cipher, take GXFP_BB010003_TAG_LEN tag), h)))"

text \<open>What the function stores behind its four output pointers.\<close>

record wb_out =
  wo_data :: "ptr option"
  wo_len :: "nat option"
  wo_inner :: "ptr option"
  wo_inner_len :: "nat option"

text \<open>Putting the payload and the white box together.\<close>

definition bb010003_assemble ::
  "uenv \<Rightarrow> cryptolib \<Rightarrow> bytes \<Rightarrow> bytes \<Rightarrow> bytes \<Rightarrow> bytes \<Rightarrow> bytes \<Rightarrow> bool \<Rightarrow> bool \<Rightarrow> wb_out \<Rightarrow> uhist \<Rightarrow> (int \<times> wb_out) \<times> uhist" where
  "bb010003_assemble env lib key_hmac hdr seed16 cipher tag out_inner out_inner_len out h =
    (case malloc env GXFP_BB010003_PAYLOAD_LEN h of
       (None, h) \<Rightarrow> ((- ENOMEM, out), h)
     | (Some payload, h) \<Rightarrow>
         let payload = memcpy_at payload 0 (take GXFP_BB010003_HDR_LEN hdr);
             payload = memcpy_at payload GXFP_BB010003_HDR_LEN (take GXFP_BB010003_SEED16_LEN seed16);
             payload = memcpy_at payload (GXFP_BB010003_HDR_LEN + GXFP_BB010003_SEED16_LEN) (take GXFP_PSK_LEN cipher);
             payload = memcpy_at payload (GXFP_BB010003_HDR_LEN + GXFP_BB010003_SEED16_LEN + GXFP_PSK_LEN)
               (take GXFP_BB010003_TAG_LEN tag)
         in (case compute_bb010003_wb_hmac env lib key_hmac payload (ufresh env h 32) h of
               ((rc, hmac_out), h) \<Rightarrow>
                 if rc < 0 then ((rc, out), ufree h)
                 else
                   (case malloc env GXFP_BB010003_WB_LEN h of
                      (None, h) \<Rightarrow> ((- ENOMEM, out), ufree h)
                    | (Some wb, h) \<Rightarrow>
                        let wb = memcpy_at wb 0 (take GXFP_BB010003_WB_HMAC_LEN hmac_out);
                            wb = memcpy_at wb GXFP_BB010003_WB_HMAC_LEN (take GXFP_BB010003_PAYLOAD_LEN payload);
                            out = out\<lparr>wo_data := Some (Some wb), wo_len := Some GXFP_BB010003_WB_LEN\<rparr>
                        in if out_inner
                           then ((0, out\<lparr>wo_inner := Some (Some payload),
                                   wo_inner_len := (if out_inner_len then Some GXFP_BB010003_PAYLOAD_LEN else wo_inner_len out)\<rparr>), h)
                           else ((0, out), ufree h))))"

definition gxfp_payload_build_bb010003 ::
  "uenv \<Rightarrow> cryptolib \<Rightarrow> ptr \<Rightarrow> ptr \<Rightarrow> bool \<Rightarrow> bool \<Rightarrow> bool \<Rightarrow> bool \<Rightarrow> uhist \<Rightarrow> (int \<times> wb_out) \<times> uhist" where
  "gxfp_payload_build_bb010003 env lib psk32 seed32 out_wb_data out_wb_data_len out_inner_payload out_inner_payload_len h =
    (if psk32 = None \<or> seed32 = None \<or> \<not> out_wb_data \<or> \<not> out_wb_data_len
     then ((- EINVAL, \<lparr>wo_data = None, wo_len = None, wo_inner = None, wo_inner_len = None\<rparr>), h)
     else
       let out = \<lparr>wo_data = Some None, wo_len = Some 0, wo_inner = (if out_inner_payload then Some None else None),
                  wo_inner_len = (if out_inner_payload_len then Some 0 else None)\<rparr>
       in (case gxfp_payload_derive_key_material env lib seed32 (Some (ufresh env h 32)) (Some (ufresh env h 32)) h of
             ((rc, key_aes, key_hmac), h) \<Rightarrow>
               if rc < 0 then ((rc, out), h)
               else
                 (case gxfp_payload_calc_seed16 env lib psk32 GXFP_PSK_LEN (Some (ufresh env h 16)) h of
                    ((rc, seed16), h) \<Rightarrow>
                      if rc < 0 then ((rc, out), h)
                      else
                        let hdr = fill_ff02_len_hdr (ufresh env h 6) (of_nat GXFP_PSK_LEN);
                            aad = fill_tls_gcm_aad (ufresh env h 16)
                        in (case gcm_seal lib (the key_aes) (the seed16) aad (the psk32) h of
                              ((rc, cipher, tag), h) \<Rightarrow>
                                if rc \<noteq> 0 then ((- EIO, out), h)
                                else bb010003_assemble env lib (the key_hmac) hdr (the seed16) cipher tag out_inner_payload
                                       out_inner_payload_len out h))))"

definition gxfp_payload_build_bb020003_hash_prefix ::
  "cryptolib \<Rightarrow> ptr \<Rightarrow> nat \<Rightarrow> ptr \<Rightarrow> nat \<Rightarrow> uhist \<Rightarrow> (int \<times> ptr) \<times> uhist" where
  "gxfp_payload_build_bb020003_hash_prefix lib bb010003_wb_data bb010003_wb_data_len out_hash out_hash_len h =
    (case (bb010003_wb_data, out_hash) of
       (Some wb, Some out) \<Rightarrow>
         if bb010003_wb_data_len = 0 then ((- EINVAL, out_hash), h)
         else if out_hash_len = 0 \<or> out_hash_len > 48 then ((- EINVAL, out_hash), h)
         else
           let rc = sha384_rc lib h;
               h = UTls ''mbedtls_sha512'' # h
           in if rc \<noteq> 0 then ((- EIO, out_hash), h)
              else ((0, Some (memcpy_at out 0 (take out_hash_len (sha384 lib (take bb010003_wb_data_len wb))))), h)
     | _ \<Rightarrow> ((- EINVAL, out_hash), h))"

text \<open>Lengths are \<open>size_t\<close> values; the two checks keep the sum far below \<open>2 ^ 64\<close>. The result is the code and the blob
  with its length.\<close>

definition gxfp_payload_build_bb010002 ::
  "uenv \<Rightarrow> ptr \<Rightarrow> nat \<Rightarrow> ptr \<Rightarrow> ptr \<Rightarrow> nat \<Rightarrow> bool \<Rightarrow> bool \<Rightarrow> uhist \<Rightarrow> (int \<times> (bytes \<times> nat) option) \<times> uhist" where
  "gxfp_payload_build_bb010002 env sealed_psk sealed_psk_len seed8 bb010003_wb_data bb010003_wb_data_len pad4 out h =
    (if (sealed_psk = None \<and> sealed_psk_len \<noteq> 0) \<or> seed8 = None \<or> bb010003_wb_data = None \<or> bb010003_wb_data_len = 0 \<or> \<not> out
     then ((- EINVAL, None), h)
     else if sealed_psk_len > 0xFFFFFFFF - 8 then ((- EOVERFLOW, None), h)
     else if bb010003_wb_data_len > 0xFFFFFFFF then ((- EOVERFLOW, None), h)
     else
       let out_len = 8 + sealed_psk_len + 8 + 8 + bb010003_wb_data_len;
           out_len = (if pad4 then (out_len + 3) div 4 * 4 else out_len)
       in (case malloc env out_len h of
             (None, h) \<Rightarrow> ((- ENOMEM, None), h)
           | (Some _, h) \<Rightarrow>
               let b = zeros out_len;
                   b = memcpy_at b 0 (gxfp_le32enc 0xBB010002);
                   len_field = of_nat (sealed_psk_len + 8);
                   b = memcpy_at b 4 (gxfp_le32enc len_field);
                   b = (if sealed_psk_len \<noteq> 0 then memcpy_at b 8 (ptr_bytes sealed_psk sealed_psk_len) else b);
                   b = memcpy_at b (8 + sealed_psk_len) (ptr_bytes seed8 8);
                   b = memcpy_at b (16 + sealed_psk_len) (gxfp_le32enc 0xBB010003);
                   b = memcpy_at b (20 + sealed_psk_len) (gxfp_le32enc (of_nat bb010003_wb_data_len));
                   b = memcpy_at b (24 + sealed_psk_len) (ptr_bytes bb010003_wb_data bb010003_wb_data_len)
               in ((0, Some (b, out_len)), h)))"

section \<open>Lemmas\<close>

lemma memcpy_at_front: "n = length xs \<Longrightarrow> memcpy_at (xs @ r) n ys = xs @ ys @ drop (length ys) r"
  by (simp add: memcpy_at_def)

text \<open>The counter of the key derivation goes in big-endian order: the shuffle of halves and bytes is a byte swap.\<close>

lemma local78_big_endian: "local78_from_ctr ctr = rev (le32enc ctr)"
proof -
  have byte: "(ucast ((w :: u32) AND 255) :: u8) = ucast w" for w
    by (rule bit_word_eqI) (simp add: bit_simps bit_255_int)
  have full: "w AND 0xFFFFFFFF = w" for w :: u32
  proof -
    have "(0xFFFFFFFF :: u32) = - 1" by simp
    then show ?thesis by (simp only: and.right_neutral)
  qed
  have halves: "(0x00FF00FF :: u32) = mask 8 OR push_bit 16 (mask 8)" by (simp add: mask_eq_exp_minus_1)
  have mul: "ctr * 0x10000 = push_bit 16 ctr" by (simp add: push_bit_eq_mult)
  define x where "x = push_bit 16 ctr OR drop_bit 16 ctr"
  define y where "y = ((drop_bit 8 x XOR push_bit 8 x) AND (mask 8 OR push_bit 16 (mask 8))) XOR push_bit 8 x"
  have bytes: "ucast y = (ucast (drop_bit 24 ctr) :: u8)" "ucast (drop_bit 8 y) = (ucast (drop_bit 16 ctr) :: u8)"
    "ucast (drop_bit 16 y) = (ucast (drop_bit 8 ctr) :: u8)" "ucast (drop_bit 24 y) = (ucast ctr :: u8)"
    by (rule bit_word_eqI; auto simp: y_def x_def bit_simps dest: bit_imp_le_length)+
  show ?thesis
    unfolding local78_from_ctr_def Let_def gxfp_le32enc_eq le32enc_def mul byte full halves x_def [symmetric] y_def [symmetric]
    using bytes by simp
qed

text \<open>Filling a buffer from the front.\<close>

lemma memcpy_next: "n = length xs \<Longrightarrow> memcpy_at (memcpy_at dst 0 xs) n ys = memcpy_at dst 0 (xs @ ys)"
  using memcpy_at_append [of 0 dst xs ys] by simp

lemma memcpy_full: "length xs = length dst \<Longrightarrow> memcpy_at dst 0 xs = xs"
  by (simp add: memcpy_at_def)

lemma memcpy_two: "2 \<le> length b \<Longrightarrow> b[0 := x, Suc 0 := y] = memcpy_at b 0 [x, y]"
  by (cases b; cases "tl b") (auto simp: memcpy_at_def)

lemma memcpy_repeat:
  assumes "length e = 4" "k = length xs"
  shows "foldl (\<lambda>b i. memcpy_at b (k + 4 * i) e) (memcpy_at b 0 xs) [0..<m] = memcpy_at b 0 (xs @ concat (replicate m e))"
proof (induction m)
  case (Suc m)
  have "length (concat (replicate m e)) = 4 * m" using assms(1) by (induction m) simp_all
  then show ?case using Suc assms(2) by (simp add: memcpy_next replicate_append_same [symmetric])
qed simp

definition ff02 :: "nat \<Rightarrow> bytes" where
  "ff02 n = [0x02, 0xFF] @ le32enc (of_nat n)"

definition tls_aad :: bytes where
  "tls_aad = le32enc 0xF0C12D52 @ le32enc 0x077D5699 @ le32enc 0xA3377FF4 @ le32enc 0x7D42842A"

lemma length_ff02 [simp]: "length (ff02 n) = 6"
  by (simp add: ff02_def)

lemma hdr_eq: "length b = 6 \<Longrightarrow> fill_ff02_len_hdr b (of_nat n) = ff02 n"
  by (simp add: fill_ff02_len_hdr_def memcpy_two memcpy_next memcpy_full gxfp_le32enc_eq ff02_def)

lemma aad_eq: "length b = 16 \<Longrightarrow> fill_tls_gcm_aad b = tls_aad"
  by (simp add: fill_tls_gcm_aad_def memcpy_next memcpy_full gxfp_le32enc_eq tls_aad_def)

text \<open>What the library is documented to store: digests, tags and ciphertexts of their lengths.\<close>

definition crypto_ok :: "cryptolib \<Rightarrow> bool" where
  "crypto_ok lib \<longleftrightarrow> (\<forall>k m. length (md_hmac lib k m) = 32) \<and> (\<forall>m. length (sha256 lib m) = 32) \<and> (\<forall>m. length (sha384 lib m) = 48) \<and>
    (\<forall>k iv a m. length (fst (gcm_encrypt lib k iv a m)) = length m \<and> length (snd (gcm_encrypt lib k iv a m)) = 16)"

text \<open>Contexts of the cipher that are initialised and not yet released.\<close>

fun gcm_contexts :: "uhist \<Rightarrow> int" where
  "gcm_contexts [] = 0"
| "gcm_contexts (c # h) = gcm_contexts h + (if c = UTls ''mbedtls_gcm_init'' then 1 else 0) - (if c = UTls ''mbedtls_gcm_free'' then 1 else 0)"

lemma gcm_contexts_ufree [simp]: "gcm_contexts (ufree h) = gcm_contexts h"
  by (simp add: ufree_def)

text \<open>A world in which no call fails.\<close>

definition crypto_works :: "uenv \<Rightarrow> cryptolib \<Rightarrow> bool" where
  "crypto_works env lib \<longleftrightarrow> (\<forall>h n. sys_malloc env h n) \<and> (\<forall>h. md_info_sha256 lib h \<and> md_hmac_rc lib h = 0 \<and> sha256_rc lib h = 0 \<and>
     gcm_setkey_rc lib h = 0 \<and> gcm_encrypt_rc lib h = 0)"

text \<open>The seed and the two keys.\<close>

definition seed16_of :: "cryptolib \<Rightarrow> bytes \<Rightarrow> nat \<Rightarrow> bytes" where
  "seed16_of lib p n = take 16 (sha256 lib (ff02 n @ take (n div 4) p @ concat (replicate 16 (le32enc 3))))"

definition aes_key :: "cryptolib \<Rightarrow> bytes \<Rightarrow> bytes" where
  "aes_key lib seed = md_hmac lib seed ([0, 0, 0, 1] @ derive_base)"

definition hmac_key :: "cryptolib \<Rightarrow> bytes \<Rightarrow> bytes" where
  "hmac_key lib seed = drop 16 (md_hmac lib seed ([0, 0, 0, 1] @ derive_base)) @ take 16 (md_hmac lib seed ([0, 0, 0, 2] @ derive_base))"

lemma calc_seed16_cases:
  assumes "crypto_ok lib" "0 < n" "n \<le> length p" "length out = 16"
  obtains (failed) r h' where "gxfp_payload_calc_seed16 env lib (Some p) n (Some out) h = ((r, Some out), h')" "r \<in> {- EIO, - ENOMEM}"
      "ulive h' = ulive h" "gcm_contexts h' = gcm_contexts h" "\<not> crypto_works env lib"
  | (seed) h' where "gxfp_payload_calc_seed16 env lib (Some p) n (Some out) h = ((0, Some (seed16_of lib p n)), h')" "ulive h' = ulive h" "gcm_contexts h' = gcm_contexts h"
proof -
  let ?n = "6 + n div 4 + 64"
  show thesis
  proof (cases "sys_malloc env h ?n")
    case False
    then show thesis using failed [of "- ENOMEM" h] assms(2) by (auto simp: gxfp_payload_calc_seed16_def malloc_def crypto_works_def)
  next
    case True
    let ?b = "ufresh env h ?n" and ?h = "UMalloc ?n # h"
    let ?full = "ff02 n @ take (n div 4) p @ concat (replicate 16 (le32enc 3))"
    have l: "length (take (n div 4) p) = n div 4" using assms(3) by simp
    have e: "length (le32enc 3) = 4" by simp
    have r: "length (concat (replicate 16 (le32enc 3))) = 64" by (simp add: length_concat sum_list_replicate)
    have fill: "foldl (\<lambda>b i. memcpy_at b (6 + n div 4 + 4 * i) (gxfp_le32enc 3))
        (memcpy_at (memcpy_at (?b[0 := 0x02, 1 := 0xFF]) 2 (gxfp_le32enc (of_nat n))) 6 (take (n div 4) p)) [0..<16] = ?full"
      using memcpy_repeat [OF e, of "6 + n div 4" "ff02 n @ take (n div 4) p" ?b 16] l r
      by (simp add: memcpy_two memcpy_next gxfp_le32enc_eq ff02_def memcpy_full del: concat_replicate_trivial)
    have d: "take ?n ?full = ?full" using l r by simp
    show thesis
    proof (cases "sha256_rc lib ?h = 0")
      case rc: True
      have "length (sha256 lib ?full) = 32" using assms(1) by (simp add: crypto_ok_def)
      then have m: "memcpy_at out 0 (take 16 (sha256 lib ?full)) = seed16_of lib p n"
        using assms(4) by (simp add: memcpy_full seed16_of_def)
      have "gxfp_payload_calc_seed16 env lib (Some p) n (Some out) h = ((0, Some (seed16_of lib p n)), ufree (UTls ''mbedtls_sha256'' # ?h))"
        unfolding gxfp_payload_calc_seed16_def option.case prod.case Let_def malloc_def if_P [OF True] fill d m
        using rc assms(2) by simp
      then show thesis by (rule seed) simp_all
    next
      case rc: False
      then have "gxfp_payload_calc_seed16 env lib (Some p) n (Some out) h = ((- EIO, Some out), ufree (UTls ''mbedtls_sha256'' # ?h))"
        using True assms(2) by (simp add: gxfp_payload_calc_seed16_def malloc_def Let_def)
      then show thesis by (rule failed) (use rc in \<open>auto simp: crypto_works_def\<close>)
    qed
  qed
qed

lemma hmac_cases:
  assumes "crypto_ok lib" "length out = 32" "length msg = n" "k \<le> length key"
  obtains (failed) h' where "hmac_sha256 lib (Some key) k msg n out h = ((- EIO, out), h')" "ulive h' = ulive h" "gcm_contexts h' = gcm_contexts h"
      "\<not> crypto_works env lib"
  | (mac) h' where "hmac_sha256 lib (Some key) k msg n out h = ((0, md_hmac lib (take k key) msg), h')" "ulive h' = ulive h" "gcm_contexts h' = gcm_contexts h"
proof -
  have "length (md_hmac lib (take k key) msg) = 32" using assms(1) by (simp add: crypto_ok_def)
  then have m: "memcpy_at out 0 (take 32 (md_hmac lib (take k key) msg)) = md_hmac lib (take k key) msg" using assms(2) by (simp add: memcpy_full)
  show thesis
  proof (cases "md_info_sha256 lib h \<and> md_hmac_rc lib h = 0")
    case True
    then show thesis using mac assms(3) m by (simp add: hmac_sha256_def)
  next
    case False
    then show thesis
      using failed [of h] failed [of "UTls ''mbedtls_md_hmac'' # h"] by (cases "md_info_sha256 lib h") (auto simp: hmac_sha256_def crypto_works_def)
  qed
qed

lemma derive_cases:
  assumes "crypto_ok lib" "32 \<le> length seed" "length a = 32" "length b = 32"
  obtains (failed) h' where "gxfp_payload_derive_key_material env lib (Some seed) (Some a) (Some b) h = ((- EIO, Some a, Some b), h')"
      "ulive h' = ulive h" "gcm_contexts h' = gcm_contexts h" "\<not> crypto_works env lib"
  | (keys) h' where "gxfp_payload_derive_key_material env lib (Some seed) (Some a) (Some b) h =
        ((0, Some (aes_key lib (take 32 seed)), Some (hmac_key lib (take 32 seed))), h')" "ulive h' = ulive h" "gcm_contexts h' = gcm_contexts h"
proof -
  have c: "local78_from_ctr 1 = [0, 0, 0, 1]" "local78_from_ctr 2 = [0, 0, 0, 2]"
    by (simp_all add: local78_big_endian le32enc_def)
  have lb: "length derive_base = 29" by (simp add: derive_base_def)
  define msg where "msg = (\<lambda>i :: u8. [0, 0, 0, i] @ derive_base)"
  have m1: "memcpy_at (memcpy_at x 0 [0, 0, 0, i]) 4 derive_base = msg i" if "length x = 33" for x i
    using that lb by (simp add: memcpy_next memcpy_full msg_def)
  have lm: "length (msg i) = 4 + length derive_base" for i by (simp add: msg_def)
  have lu: "length (ufresh env h 32) = 32" for h by simp
  define k1 k2 where "k1 = md_hmac lib (take 32 seed) (msg 1)" and "k2 = md_hmac lib (take 32 seed) (msg 2)"
  have lk: "length k1 = 32" "length k2 = 32" using assms(1) by (simp_all add: k1_def k2_def crypto_ok_def)
  have keys_eq: "memcpy_at a 0 (take 32 k1) = aes_key lib (take 32 seed)"
    "memcpy_at (memcpy_at b 0 (take 16 (drop 16 k1))) 16 (take 16 k2) = hmac_key lib (take 32 seed)"
    using lk assms(3,4) by (simp_all add: memcpy_next memcpy_full aes_key_def hmac_key_def k1_def k2_def msg_def)
  have a1: "memcpy_at (memcpy_at (ufresh env h (4 + length derive_base)) 0 [0, 0, 0, 1]) 4 derive_base = msg 1"
    and a2: "memcpy_at (memcpy_at (msg 1) 0 [0, 0, 0, 2]) 4 derive_base = msg 2"
    by (rule m1, simp add: lb lm)+
  have eq: "gxfp_payload_derive_key_material env lib (Some seed) (Some a) (Some b) h =
     (case hmac_sha256 lib (Some seed) 32 (msg 1) (4 + length derive_base) (ufresh env h 32) h of
        ((rc, round1), h) \<Rightarrow>
          if rc < 0 then ((rc, Some a, Some b), h)
          else (case hmac_sha256 lib (Some seed) 32 (msg 2) (4 + length derive_base) (ufresh env h 32) h of
             ((rc, round2), h) \<Rightarrow>
               if rc < 0 then ((rc, Some a, Some b), h)
               else ((0, Some (memcpy_at a 0 (take 32 round1)),
                     Some (memcpy_at (memcpy_at b 0 (take 16 (drop 16 round1))) 16 (take 16 round2))), h)))"
    unfolding gxfp_payload_derive_key_material_def option.case prod.case Let_def c a1 a2 ..
  show thesis
  proof (cases rule: hmac_cases [OF assms(1) lu [of h] lm [of 1] assms(2), where h = h and env = env])
    case (1 h1)
    then show thesis using failed [of h1] eq by simp
  next
    case 2: (2 h1)
    show thesis
    proof (cases rule: hmac_cases [OF assms(1) lu [of h1] lm [of 2] assms(2), where h = h1 and env = env])
      case (1 h2)
      then show thesis using failed [of h2] eq 2 by simp
    next
      case (2 h2)
      then show thesis using keys [of h2] eq \<open>hmac_sha256 lib (Some seed) 32 (msg 1) (4 + length derive_base) (ufresh env h 32) h = _\<close>
          \<open>ulive h1 = ulive h\<close> \<open>gcm_contexts h1 = gcm_contexts h\<close> keys_eq by (simp add: k1_def [symmetric] k2_def [symmetric])
    qed
  qed
qed

lemma seal_cases:
  assumes "crypto_ok lib" "32 \<le> length p"
  obtains (failed) h' where "gcm_seal lib k iv a p h = ((- EIO, [], []), h')" "ulive h' = ulive h" "gcm_contexts h' = gcm_contexts h"
      "\<not> crypto_works env lib"
  | (sealed) c t h' where "gcm_seal lib k iv a p h = ((0, c, t), h')" "ulive h' = ulive h" "gcm_contexts h' = gcm_contexts h"
      "gcm_encrypt lib k iv a (take 32 p) = (c, t)" "length c = 32" "length t = 16"
proof -
  obtain c t where ct: "gcm_encrypt lib k iv a (take 32 p) = (c, t)" by fastforce
  have "length (fst (gcm_encrypt lib k iv a (take 32 p))) = 32" "length (snd (gcm_encrypt lib k iv a (take 32 p))) = 16"
    using assms by (simp_all add: crypto_ok_def)
  then have l: "length c = 32" "length t = 16" using ct by simp_all
  let ?h1 = "UTls ''mbedtls_gcm_init'' # h"
  let ?h2 = "UTls ''mbedtls_gcm_setkey'' # ?h1"
  show thesis
  proof (cases "gcm_setkey_rc lib ?h1 = 0")
    case False
    then show thesis by (intro failed [of "UTls ''mbedtls_gcm_free'' # ?h2"]) (auto simp: gcm_seal_def Let_def crypto_works_def)
  next
    case key: True
    let ?h3 = "UTls ''mbedtls_gcm_free'' # UTls ''mbedtls_gcm_crypt_and_tag'' # ?h2"
    show thesis
    proof (cases "gcm_encrypt_rc lib ?h2 = 0")
      case False
      then show thesis using key by (intro failed [of ?h3]) (auto simp: gcm_seal_def Let_def crypto_works_def)
    next
      case True
      then show thesis using key ct l by (intro sealed [of c t ?h3]) (simp_all add: gcm_seal_def Let_def bb_lens)
    qed
  qed
qed

text \<open>The white box: the code over header, ciphertext and tag, then the payload.\<close>

definition wb_bytes :: "cryptolib \<Rightarrow> bytes \<Rightarrow> bytes \<Rightarrow> bytes \<Rightarrow> bytes \<Rightarrow> bytes" where
  "wb_bytes lib hk iv c t = md_hmac lib hk (ff02 32 @ c @ t) @ ff02 32 @ iv @ c @ t"

lemma wb_hmac_eq:
  assumes "length iv = 16" "length c = 32" "length t = 16"
  shows "compute_bb010003_wb_hmac env lib hk (ff02 32 @ iv @ c @ t) out h = hmac_sha256 lib (Some hk) 32 (ff02 32 @ c @ t) 54 out h"
proof -
  have d: "drop 54 (ff02 32 @ iv @ c @ t) = t" "take 32 (drop 22 (ff02 32 @ iv @ c @ t)) = c" "take 6 (ff02 32 @ iv @ c @ t) = ff02 32"
    using assms by simp_all
  show ?thesis
    using assms by (simp add: compute_bb010003_wb_hmac_def bb_lens d memcpy_next memcpy_full Let_def)
qed

lemma assemble_cases:
  assumes "crypto_ok lib" "length iv = 16" "length c = 32" "length t = 16" "length hk = 32"
  obtains (failed) r h' where "bb010003_assemble env lib hk (ff02 32) iv c t oi oil out h = ((r, out), h')" "r \<in> {- EIO, - ENOMEM}"
      "ulive h' = ulive h" "gcm_contexts h' = gcm_contexts h"
      "\<not> crypto_works env lib"
  | (made) h' where "bb010003_assemble env lib hk (ff02 32) iv c t oi oil out h =
        ((0, out\<lparr>wo_data := Some (Some (wb_bytes lib hk iv c t)), wo_len := Some 102,
           wo_inner := (if oi then Some (Some (ff02 32 @ iv @ c @ t)) else wo_inner out),
           wo_inner_len := (if oi \<and> oil then Some 70 else wo_inner_len out)\<rparr>), h')"
      "ulive h' = ulive h + 1 + (if oi then 1 else 0)" "gcm_contexts h' = gcm_contexts h"
proof -
  let ?p = "ff02 32 @ iv @ c @ t"
  have fill: "memcpy_at (memcpy_at (memcpy_at (memcpy_at b 0 (take 6 (ff02 32))) 6 (take 16 iv)) (6 + 16) (take 32 c)) (6 + 16 + 32) (take 16 t) = ?p"
    if "length b = 70" for b
    using that assms(2-4) by (simp add: memcpy_next memcpy_full)
  define tail where "tail = (\<lambda>h. case hmac_sha256 lib (Some hk) 32 (ff02 32 @ c @ t) 54 (ufresh env h 32) h of
      ((rc, hmac_out), h) \<Rightarrow>
        if rc < 0 then ((rc, out), ufree h)
        else (case malloc env 102 h of
                (None, h) \<Rightarrow> ((- ENOMEM, out), ufree h)
              | (Some wb, h) \<Rightarrow>
                  let wb = memcpy_at (memcpy_at wb 0 (take 32 hmac_out)) 32 (take 70 ?p);
                      out = out\<lparr>wo_data := Some (Some wb), wo_len := Some 102\<rparr>
                  in if oi then ((0, out\<lparr>wo_inner := Some (Some ?p), wo_inner_len := (if oil then Some 70 else wo_inner_len out)\<rparr>), h)
                     else ((0, out), ufree h)))"
  have eq: "bb010003_assemble env lib hk (ff02 32) iv c t oi oil out h =
      (if sys_malloc env h 70 then tail (UMalloc 70 # h) else ((- ENOMEM, out), h))"
    unfolding bb010003_assemble_def tail_def bb_values malloc_def [where n = 70] Let_def
    by (cases "sys_malloc env h 70")
      (simp_all only: if_True if_False option.case prod.case fill [OF length_ufresh] wb_hmac_eq [OF assms(2-4)])
  show thesis
  proof (cases "sys_malloc env h 70")
    case False
    then show thesis using failed [of "- ENOMEM" h] eq by (auto simp: crypto_works_def)
  next
    case True
    have lu: "length (ufresh env (UMalloc 70 # h) 32) = 32" by simp
    have l54: "length (ff02 32 @ c @ t) = 54" using assms(3,4) by simp
    have k: "32 \<le> length hk" using assms(5) by simp
    show thesis
    proof (cases rule: hmac_cases [OF assms(1) lu l54 k, where h = "UMalloc 70 # h" and env = env])
      case (1 h1)
      then show thesis using failed [of "- EIO" "ufree h1"] eq True by (auto simp: tail_def hmac_sha256_def ufree_def Let_def split: if_splits)
    next
      case (2 h1)
      have g: "gcm_contexts h1 = gcm_contexts h" using 2(1) by (auto simp: hmac_sha256_def Let_def split: if_splits)
      have lm: "length (md_hmac lib hk (ff02 32 @ c @ t)) = 32" using assms(1) by (simp add: crypto_ok_def)
      have wb: "memcpy_at (memcpy_at b 0 (take 32 (md_hmac lib hk (ff02 32 @ c @ t)))) 32 (take 70 ?p) = wb_bytes lib hk iv c t" if "length b = 102" for b
        using that lm assms(2-4) by (simp add: memcpy_next memcpy_full wb_bytes_def)
      show thesis
      proof (cases "sys_malloc env h1 102")
        case False
        then show thesis using failed [of "- ENOMEM" "ufree h1"] eq True 2 g assms(5) by (auto simp: tail_def malloc_def ufree_def crypto_works_def)
      next
        case m: True
        have "tail (UMalloc 70 # h) = ((0, out\<lparr>wo_data := Some (Some (wb_bytes lib hk iv c t)), wo_len := Some 102,
           wo_inner := (if oi then Some (Some (ff02 32 @ iv @ c @ t)) else wo_inner out),
           wo_inner_len := (if oi \<and> oil then Some 70 else wo_inner_len out)\<rparr>), if oi then UMalloc 102 # h1 else ufree (UMalloc 102 # h1))"
          using 2(1) m wb [of "ufresh env h1 102"] assms(5) by (simp add: tail_def malloc_def Let_def)
        then show thesis using made eq True g 2(2) by (auto simp: ufree_def)
      qed
    qed
  qed
qed

section \<open>Properties\<close>

text \<open>What the sensor does with the white box: it derives the keys from the seed, checks the code and decrypts.\<close>

definition unseal ::
  "cryptolib \<Rightarrow> (bytes \<Rightarrow> bytes \<Rightarrow> bytes \<Rightarrow> bytes \<Rightarrow> bytes \<Rightarrow> bytes option) \<Rightarrow> bytes \<Rightarrow> bytes \<Rightarrow> bytes option" where
  "unseal lib dec seed wb =
    (let mac = take 32 wb; hdr = take 6 (drop 32 wb); iv = take 16 (drop 38 wb); c = take 32 (drop 54 wb); t = drop 86 wb
     in if hdr = ff02 32 \<and> mac = md_hmac lib (hmac_key lib seed) (hdr @ c @ t) then dec (aes_key lib seed) iv tls_aad c t else None)"

lemma unseal_wb:
  assumes "crypto_ok lib" "length iv = 16" "length c = 32" "length t = 16"
  shows "unseal lib dec seed (wb_bytes lib (hmac_key lib seed) iv c t) = dec (aes_key lib seed) iv tls_aad c t"
    "length (wb_bytes lib (hmac_key lib seed) iv c t) = 102" "drop 32 (wb_bytes lib (hmac_key lib seed) iv c t) = ff02 32 @ iv @ c @ t"
proof -
  let ?m = "md_hmac lib (hmac_key lib seed) (ff02 32 @ c @ t)"
  have l: "length ?m = 32" using assms(1) by (simp add: crypto_ok_def)
  have "take 32 (wb_bytes lib (hmac_key lib seed) iv c t) = ?m" "take 6 (drop 32 (wb_bytes lib (hmac_key lib seed) iv c t)) = ff02 32"
    "take 16 (drop 38 (wb_bytes lib (hmac_key lib seed) iv c t)) = iv" "take 32 (drop 54 (wb_bytes lib (hmac_key lib seed) iv c t)) = c"
    "drop 86 (wb_bytes lib (hmac_key lib seed) iv c t) = t"
    using l assms(2-4) by (simp_all add: wb_bytes_def)
  then show "unseal lib dec seed (wb_bytes lib (hmac_key lib seed) iv c t) = dec (aes_key lib seed) iv tls_aad c t"
    by (simp add: unseal_def Let_def)
  show "length (wb_bytes lib (hmac_key lib seed) iv c t) = 102" "drop 32 (wb_bytes lib (hmac_key lib seed) iv c t) = ff02 32 @ iv @ c @ t"
    using l assms(2-4) by (simp_all add: wb_bytes_def)
qed

lemma white_box_opens:
  assumes "crypto_ok lib" and "32 \<le> length psk" and "32 \<le> length seed"
    and "\<And>k iv a m. dec k iv a (fst (gcm_encrypt lib k iv a m)) (snd (gcm_encrypt lib k iv a m)) = Some m"
  shows "\<exists>r out h'. gxfp_payload_build_bb010003 env lib (Some psk) (Some seed) True True oi oil h = ((r, out), h') \<and>
    gcm_contexts h' = gcm_contexts h \<and> (crypto_works env lib \<longrightarrow> r = 0) \<and>
    (if r = 0
     then \<exists>wb. wo_data out = Some (Some wb) \<and> wo_len out = Some 102 \<and> length wb = 102 \<and> unseal lib dec (take 32 seed) wb = Some (take 32 psk) \<and>
            wo_inner out = (if oi then Some (Some (drop 32 wb)) else None) \<and>
            wo_inner_len out = (if oil then Some (if oi then 70 else 0) else None) \<and> ulive h' = ulive h + 1 + (if oi then 1 else 0)
     else r \<in> {- EIO, - ENOMEM} \<and> wo_data out = Some None \<and> wo_len out = Some 0 \<and> wo_inner out = (if oi then Some None else None) \<and> ulive h' = ulive h)"
proof -
  let ?out = "\<lparr>wo_data = Some None, wo_len = Some 0, wo_inner = (if oi then Some None else None), wo_inner_len = (if oil then Some 0 else None)\<rparr>"
  let ?b = "gxfp_payload_build_bb010003 env lib (Some psk) (Some seed) True True oi oil h"
  let ?hk = "hmac_key lib (take 32 seed)" and ?ak = "aes_key lib (take 32 seed)"
  define iv where "iv = seed16_of lib psk 32"
  have lens: "length (ufresh env h n) = n" for h n by simp
  have iv: "length iv = 16" using assms(1) by (simp add: iv_def seed16_of_def crypto_ok_def)
  have hk: "length ?hk = 32" using assms(1) by (simp add: hmac_key_def crypto_ok_def)
  have psk: "(0 :: nat) < 32" by simp
  show ?thesis
  proof (cases rule: derive_cases [OF assms(1,3) lens [of h 32] lens [of h 32], where env = env and h = h])
    case (1 h1)
    then have "?b = ((- EIO, ?out), h1)" by (simp add: gxfp_payload_build_bb010003_def)
    then show ?thesis using 1 by simp
  next
    case d: (2 h1)
    show ?thesis
    proof (cases rule: calc_seed16_cases [OF assms(1) psk assms(2) lens [of h1 16], where env = env and h = h1])
      case (1 r h2)
      then have "?b = ((r, ?out), h2)" using d by (auto simp: gxfp_payload_build_bb010003_def bb_values)
      then show ?thesis using 1 d by auto
    next
      case q: (2 h2)
      have go: "?b = (case gcm_seal lib ?ak iv tls_aad psk h2 of
          ((rc, cipher, tag), h) \<Rightarrow> if rc \<noteq> 0 then ((- EIO, ?out), h) else bb010003_assemble env lib ?hk (ff02 32) iv cipher tag oi oil ?out h)"
        unfolding gxfp_payload_build_bb010003_def bb_values Let_def iv_def
        by (simp only: d(1) q(1) option.simps simp_thms if_False if_True prod.case less_irrefl option.sel hdr_eq [OF lens] aad_eq [OF lens])
      show ?thesis
      proof (cases rule: seal_cases [OF assms(1,2), where k = ?ak and iv = iv and a = tls_aad and h = h2 and env = env])
        case (1 h3)
        then show ?thesis using go d q by simp
      next
        case c: (2 c t h3)
        have dec: "dec ?ak iv tls_aad c t = Some (take 32 psk)" using assms(4) [of ?ak iv tls_aad "take 32 psk"] c(4) by simp
        note u = unseal_wb [OF assms(1) iv c(5,6), where seed = "take 32 seed"]
        show ?thesis
        proof (cases rule: assemble_cases [OF assms(1) iv c(5,6) hk, where env = env and oi = oi and oil = oil and out = ?out and h = h3])
          case (1 r h4)
          then show ?thesis using go d q c by auto
        next
          case (2 h4)
          then show ?thesis using go d q c u dec by auto
        qed
      qed
    qed
  qed
qed

text \<open>C24: A sealed key opens to the key. For a library whose digests and ciphertexts have their documented lengths and whose
  decryption inverts its encryption, building the white box either returns 0 and a block of 102 bytes from which a holder of
  the seed, checking the code, recovers exactly the 32 bytes of the key (with the inner payload as its last 70 bytes, when
  asked for), or reports -EIO or -ENOMEM with empty outputs; it does succeed when no call fails. No memory and no cipher
  context is left behind.\<close>

theorem sealed_key_opens:
  assumes "crypto_ok lib" and "32 \<le> length psk" and "32 \<le> length seed"
    and "\<And>k iv a m. dec k iv a (fst (gcm_encrypt lib k iv a m)) (snd (gcm_encrypt lib k iv a m)) = Some m"
  shows "\<exists>r out h'. gxfp_payload_build_bb010003 env lib (Some psk) (Some seed) True True oi oil h = ((r, out), h') \<and>
    gcm_contexts h' = gcm_contexts h \<and> (crypto_works env lib \<longrightarrow> r = 0) \<and>
    (if r = 0
     then \<exists>wb. wo_data out = Some (Some wb) \<and> wo_len out = Some 102 \<and> length wb = 102 \<and> unseal lib dec (take 32 seed) wb = Some (take 32 psk) \<and>
            wo_inner out = (if oi then Some (Some (drop 32 wb)) else None) \<and>
            wo_inner_len out = (if oil then Some (if oi then 70 else 0) else None) \<and> ulive h' = ulive h + 1 + (if oi then 1 else 0)
     else r \<in> {- EIO, - ENOMEM} \<and> wo_data out = Some None \<and> wo_len out = Some 0 \<and> wo_inner out = (if oi then Some None else None) \<and> ulive h' = ulive h)"
  by (rule white_box_opens [OF assms])

text \<open>A library whose cipher only copies, and whose digests are constant.\<close>

definition copy_lib :: cryptolib where
  "copy_lib = \<lparr>md_info_sha256 = (\<lambda>h. True), md_hmac_rc = (\<lambda>h. 0), md_hmac = (\<lambda>k m. zeros 32), sha256_rc = (\<lambda>h. 0), sha256 = (\<lambda>m. zeros 32),
     sha384_rc = (\<lambda>h. 0), sha384 = (\<lambda>m. zeros 48), gcm_setkey_rc = (\<lambda>h. 0), gcm_encrypt_rc = (\<lambda>h. 0),
     gcm_encrypt = (\<lambda>k iv a m. (m, zeros 16))\<rparr>"

theorem sealed_key_opens_witness:
  "\<exists>r out h'. gxfp_payload_build_bb010003 sim_uenv copy_lib (Some (replicate 32 7)) (Some gxfp_payload_seed32_runtime) True True True False [] =
      ((r, out), h') \<and> gcm_contexts h' = gcm_contexts [] \<and> (crypto_works sim_uenv copy_lib \<longrightarrow> r = 0) \<and>
    (if r = 0
     then \<exists>wb. wo_data out = Some (Some wb) \<and> wo_len out = Some 102 \<and> length wb = 102 \<and>
            unseal copy_lib (\<lambda>k iv a c t. Some c) (take 32 gxfp_payload_seed32_runtime) wb = Some (take 32 (replicate 32 7)) \<and>
            wo_inner out = (if True then Some (Some (drop 32 wb)) else None) \<and>
            wo_inner_len out = (if False then Some (if True then 70 else 0) else None) \<and> ulive h' = ulive [] + 1 + (if True then 1 else 0)
     else r \<in> {- EIO, - ENOMEM} \<and> wo_data out = Some None \<and> wo_len out = Some 0 \<and> wo_inner out = (if True then Some None else None) \<and> ulive h' = ulive [])"
  by (rule sealed_key_opens) (simp_all add: crypto_ok_def copy_lib_def gxfp_payload_seed32_runtime_def)

lemma copy_lib_works: "crypto_works sim_uenv copy_lib"
  by (simp add: crypto_works_def copy_lib_def sim_uenv_def)

text \<open>Reading a blob as the sensor does: a type, a length and as many bytes.\<close>

definition read_tlv :: "bytes \<Rightarrow> ((u32 \<times> bytes) \<times> bytes) option" where
  "read_tlv b = (let n = unat (le32 (drop 4 b))
     in if length b < 8 \<or> length b - 8 < n then None else Some ((le32 b, take n (drop 8 b)), drop (8 + n) b))"

lemma read_tlv_append:
  assumes "length v < 2 ^ 32"
  shows "read_tlv (le32enc t @ le32enc (of_nat (length v)) @ v @ r) = Some ((t, v), r)"
proof -
  have "unat (of_nat (length v) :: u32) = length v" using assms by (simp add: unat_of_nat take_bit_nat_eq_self)
  moreover have "drop 8 (le32enc t @ le32enc l @ x) = x" "drop (8 + n) (le32enc t @ le32enc l @ x) = drop n x" for l x n by simp_all
  ultimately show ?thesis by (simp add: read_tlv_def Let_def)
qed

text \<open>The provisioning blob reads back. Within the length limits, building the blob either fails with -ENOMEM or returns
  a block that reads as exactly two entries, the sealed key followed by the eight seed bytes under type 0xBB010002 and the
  white box under type 0xBB010003, followed by nothing, or with padding by fewer than four zero bytes up to a multiple of
  four; lengths beyond 32 bits are refused with -EOVERFLOW.\<close>

theorem blob_reads_back:
  assumes "sl \<le> length sp" and "8 \<le> length s8" and "0 < wl" and "wl \<le> length w"
  shows "if 0xFFFFFFFF - 8 < sl \<or> 0xFFFFFFFF < wl
     then gxfp_payload_build_bb010002 env (Some sp) sl (Some s8) (Some w) wl pad4 True h = ((- EOVERFLOW, None), h)
     else gxfp_payload_build_bb010002 env (Some sp) sl (Some s8) (Some w) wl pad4 True h = ((- ENOMEM, None), h) \<or>
       (\<exists>b n rest pad. gxfp_payload_build_bb010002 env (Some sp) sl (Some s8) (Some w) wl pad4 True h = ((0, Some (b, n)), UMalloc n # h) \<and>
          length b = n \<and> read_tlv b = Some ((0xBB010002, take sl sp @ take 8 s8), rest) \<and>
          read_tlv rest = Some ((0xBB010003, take wl w), pad) \<and>
          (if pad4 then n mod 4 = 0 \<and> length pad < 4 \<and> pad = zeros (length pad) else pad = []))"
proof (cases "0xFFFFFFFF - 8 < sl \<or> 0xFFFFFFFF < wl")
  case True
  then show ?thesis using assms(3) by (auto simp: gxfp_payload_build_bb010002_def)
next
  case False
  let ?v1 = "take sl sp @ take 8 s8" and ?v2 = "take wl w"
  let ?x = "le32enc 0xBB010002 @ le32enc (of_nat (length ?v1)) @ ?v1 @ le32enc 0xBB010003 @ le32enc (of_nat (length ?v2)) @ ?v2"
  let ?n0 = "24 + sl + wl"
  define n where "n = (if pad4 then (?n0 + 3) div 4 * 4 else ?n0)"
  have l: "length ?v1 = sl + 8" "length ?v2 = wl" using assms by simp_all
  have lx: "length ?x = ?n0" using l by simp
  have n: "?n0 \<le> n" "pad4 \<Longrightarrow> n mod 4 = 0 \<and> n - ?n0 < 4" "\<not> pad4 \<Longrightarrow> n = ?n0" by (auto simp: n_def)
  have r: "read_tlv (?x @ p) = Some ((0xBB010002, ?v1), le32enc 0xBB010003 @ le32enc (of_nat (length ?v2)) @ ?v2 @ p)"
    "read_tlv (le32enc 0xBB010003 @ le32enc (of_nat (length ?v2)) @ ?v2 @ p) = Some ((0xBB010003, ?v2), p)" for p
    using read_tlv_append [of ?v1 "0xBB010002" "le32enc 0xBB010003 @ le32enc (of_nat (length ?v2)) @ ?v2 @ p"]
      read_tlv_append [of ?v2 "0xBB010003" p] l False by simp_all
  have fill: "memcpy_at (memcpy_at (memcpy_at (memcpy_at (if sl \<noteq> 0 then memcpy_at (memcpy_at (memcpy_at (zeros n) 0
        (le32enc 0xBB010002)) 4 (le32enc (of_nat (sl + 8)))) 8 (take sl sp) else memcpy_at (memcpy_at (zeros n) 0
        (le32enc 0xBB010002)) 4 (le32enc (of_nat (sl + 8)))) (8 + sl) (take 8 s8)) (16 + sl) (le32enc 0xBB010003))
        (20 + sl) (le32enc (of_nat wl))) (24 + sl) (take wl w) = ?x @ zeros (n - ?n0)"
  proof -
    have "memcpy_at (zeros n) 0 ?x = ?x @ zeros (n - ?n0)" unfolding memcpy_at_0 lx by (simp add: zeros_def)
    moreover have "sl = 0 \<Longrightarrow> take sl sp = []" by simp
    ultimately show ?thesis using assms by (cases "sl = 0") (simp_all add: memcpy_next)
  qed
  show ?thesis
  proof (cases "sys_malloc env h n")
    case m: False
    then have "gxfp_payload_build_bb010002 env (Some sp) sl (Some s8) (Some w) wl pad4 True h = ((- ENOMEM, None), h)"
      using False assms(3) by (auto simp: gxfp_payload_build_bb010002_def n_def malloc_def)
    then show ?thesis using False by simp
  next
    case True
    have "gxfp_payload_build_bb010002 env (Some sp) sl (Some s8) (Some w) wl pad4 True h = ((0, Some (?x @ zeros (n - ?n0), n)), UMalloc n # h)"
      using True False assms(3) fill by (auto simp: gxfp_payload_build_bb010002_def n_def malloc_def Let_def gxfp_le32enc_eq)
    moreover have "length (?x @ zeros (n - ?n0)) = n" using lx n(1) by simp
    ultimately show ?thesis
      using False r [of "zeros (n - ?n0)"] n by (auto simp: zeros_def)
  qed
qed

theorem blob_reads_back_witness:
  "gxfp_payload_build_bb010002 sim_uenv (Some [9]) 1 (Some (zeros 8)) (Some [5, 6]) 2 True True [] = ((- ENOMEM, None), []) \<or>
    (\<exists>b n rest pad. gxfp_payload_build_bb010002 sim_uenv (Some [9]) 1 (Some (zeros 8)) (Some [5, 6]) 2 True True [] = ((0, Some (b, n)), [UMalloc n]) \<and>
       length b = n \<and> read_tlv b = Some ((0xBB010002, take 1 [9] @ take 8 (zeros 8)), rest) \<and> read_tlv rest = Some ((0xBB010003, take 2 [5, 6]), pad) \<and>
       (if True then n mod 4 = 0 \<and> length pad < 4 \<and> pad = zeros (length pad) else pad = []))"
  using blob_reads_back [of 1 "[9]" "zeros 8" 2 "[5, 6]" sim_uenv True "[]"] by simp

end
