(* ===== verification/Fp_Device.thy ===== *)
theory Fp_Device
  imports Gxfp_Prelude
begin

unbundle bit_operations_syntax

text \<open>
  The device class of libfprint as an image device sees it (\<open>libfprint/fp-device.c\<close>, \<open>fpi-device.c\<close>): the
  actions an application starts, how the driver reports on them, how they are cancelled, and how an action is
  completed and returned to the application from the main loop.

  \<open>fp_device\<close> has the fields of \<open>FpDevicePrivate\<close> that these functions use. A source of the main loop is a field
  that says whether it is attached: \<open>fp_cancel_idle\<close> for \<open>current_idle_cancel_source\<close>, \<open>fp_returns\<close> for the sources that
  \<open>fpi_device_return_task_in_idle\<close> attaches (newest first; the pointer in the C structure keeps only the newest, the
  sources stay attached). What goes out is appended to \<open>fp_log\<close>: property notifications, calls of the application's
  callbacks, returned tasks, and the diagnostics of GLib: \<open>Critical\<close> for a failed \<open>g_return_if_fail\<close>, after which the
  function returns, \<open>Warned\<close> for \<open>g_warning\<close>, \<open>Aborted\<close> for a failed \<open>g_assert\<close>, after which the process is gone and the
  rest of the state has no meaning. The callbacks of the application are taken not to call back into the library before
  they return. The device is one that udev found: it has no USB part to open, to close or to wake up, and it is never
  removed. The temperature model is outside; whether it finds the device too hot is an argument where it is asked. The
  actions are those of a probed device without storage, of a class with no methods of its own for suspending; there are no
  critical sections, since neither the image device class nor the driver enters one.
\<close>

section \<open>Data\<close>

datatype fp_device_error =
    FP_DEVICE_ERROR_GENERAL | FP_DEVICE_ERROR_NOT_SUPPORTED | FP_DEVICE_ERROR_NOT_OPEN | FP_DEVICE_ERROR_ALREADY_OPEN
  | FP_DEVICE_ERROR_BUSY | FP_DEVICE_ERROR_PROTO | FP_DEVICE_ERROR_DATA_INVALID | FP_DEVICE_ERROR_DATA_NOT_FOUND
  | FP_DEVICE_ERROR_DATA_FULL | FP_DEVICE_ERROR_DATA_DUPLICATE | FP_DEVICE_ERROR_REMOVED | FP_DEVICE_ERROR_TOO_HOT

datatype fp_device_retry =
    FP_DEVICE_RETRY_GENERAL | FP_DEVICE_RETRY_TOO_SHORT | FP_DEVICE_RETRY_CENTER_FINGER | FP_DEVICE_RETRY_REMOVE_FINGER
  | FP_DEVICE_RETRY_TOO_FAST

text \<open>The codes of \<open>G_IO_ERROR\<close> that occur; \<open>G_IO_errno\<close> is what \<open>g_io_error_from_errno\<close> makes of a number.\<close>

datatype gio_error = G_IO_ERROR_CANCELLED | G_IO_ERROR_NOT_FOUND | G_IO_ERROR_FAILED | G_IO_ERROR_INVALID_DATA | G_IO_errno int

datatype gerror = FP_DEVICE_ERROR fp_device_error | FP_DEVICE_RETRY fp_device_retry | G_IO_ERROR gio_error

fun in_retry_domain :: "gerror \<Rightarrow> bool" where
  "in_retry_domain (FP_DEVICE_RETRY _) = True"
| "in_retry_domain _ = False"

datatype FpiDeviceAction =
    FPI_DEVICE_ACTION_NONE | FPI_DEVICE_ACTION_OPEN | FPI_DEVICE_ACTION_CLOSE | FPI_DEVICE_ACTION_ENROLL
  | FPI_DEVICE_ACTION_VERIFY | FPI_DEVICE_ACTION_IDENTIFY | FPI_DEVICE_ACTION_CAPTURE

datatype FpiMatchResult = FPI_MATCH_ERROR | FPI_MATCH_FAIL | FPI_MATCH_SUCCESS

definition FP_FINGER_STATUS_NONE :: u32 where "FP_FINGER_STATUS_NONE = 0"
definition FP_FINGER_STATUS_NEEDED :: u32 where "FP_FINGER_STATUS_NEEDED = 1"
definition FP_FINGER_STATUS_PRESENT :: u32 where "FP_FINGER_STATUS_PRESENT = 2"

text \<open>\<open>struct _FpImage\<close>: eight bits per pixel.\<close>

record fp_image =
  fi_width :: int
  fi_height :: int
  fi_data :: bytes

text \<open>A print is opaque here; the enrolled one is the template the application passed.\<close>

datatype fp_object = Obj_print | Obj_image fp_image

datatype task_return = Return_int FpiMatchResult | Return_bool bool | Return_object fp_object | Return_error gerror

text \<open>The state of an image device appears in notifications.\<close>

datatype FpiImageDeviceState =
    FPI_IMAGE_DEVICE_STATE_INACTIVE | FPI_IMAGE_DEVICE_STATE_ACTIVATING | FPI_IMAGE_DEVICE_STATE_DEACTIVATING
  | FPI_IMAGE_DEVICE_STATE_IDLE | FPI_IMAGE_DEVICE_STATE_AWAIT_FINGER_ON | FPI_IMAGE_DEVICE_STATE_CAPTURE
  | FPI_IMAGE_DEVICE_STATE_AWAIT_FINGER_OFF

datatype notice =
    Critical string | Warned string | Aborted string | Bad_transition FpiImageDeviceState FpiImageDeviceState
  | Notify_finger u32 | Notify_state FpiImageDeviceState
  | Enroll_progress int bool "gerror option" | Match_found "nat option" bool "gerror option"
  | Started FpiDeviceAction | Refused gerror | Answered task_return | Task_returned FpiDeviceAction task_return
  | Power_started bool | Power_returned "gerror option"

text \<open>What a request to suspend connects to the end of the current task.\<close>

datatype completed_handler = Suspend_completed | Complete_suspend_resume

text \<open>\<open>FpMatchData\<close>: a match is the index of a print in the gallery, for a verification 0.\<close>

record fp_match_data =
  md_gallery :: nat
  md_result_reported :: bool
  md_match :: "nat option"
  md_print :: bool
  md_error :: "gerror option"

record fp_device =
  fp_is_open :: bool
  fp_action :: FpiDeviceAction
  fp_task :: bool
  fp_cancelled :: bool
  fp_cancel_handlers :: bool
  fp_cancel_idle :: bool
  fp_cancel_reason :: "gerror option"
  fp_returns :: "task_return list"
  fp_wait_for_finger :: bool
  fp_finger_status :: u32
  fp_nr_enroll_stages :: int
  fp_enroll_type_set :: bool
  fp_enroll_prints :: nat
  fp_match :: fp_match_data
  fp_is_suspended :: bool
  fp_suspend_resume_task :: bool
  fp_suspend_error :: "gerror option"
  fp_on_completed :: "completed_handler list"
  fp_log :: "notice list"

definition noted :: "notice \<Rightarrow> fp_device \<Rightarrow> fp_device" where
  "noted n d = d\<lparr>fp_log := n # fp_log d\<rparr>"

definition capture_action :: "FpiDeviceAction \<Rightarrow> bool" where
  "capture_action a \<longleftrightarrow> a = FPI_DEVICE_ACTION_ENROLL \<or> a = FPI_DEVICE_ACTION_VERIFY \<or> a = FPI_DEVICE_ACTION_IDENTIFY \<or>
     a = FPI_DEVICE_ACTION_CAPTURE"

section \<open>Reports of the driver\<close>

definition fpi_device_report_finger_status :: "u32 \<Rightarrow> fp_device \<Rightarrow> fp_device" where
  "fpi_device_report_finger_status finger_status d =
    (if fp_finger_status d = finger_status then d
     else noted (Notify_finger finger_status) (d\<lparr>fp_finger_status := finger_status\<rparr>))"

definition fpi_device_report_finger_status_changes :: "u32 \<Rightarrow> u32 \<Rightarrow> fp_device \<Rightarrow> fp_device" where
  "fpi_device_report_finger_status_changes added_status removed_status d =
    fpi_device_report_finger_status ((fp_finger_status d OR added_status) AND NOT removed_status) d"

definition fpi_device_action_is_cancelled :: "fp_device \<Rightarrow> bool \<times> fp_device" where
  "fpi_device_action_is_cancelled d =
    (if fp_action d = FPI_DEVICE_ACTION_NONE then (True, noted (Critical ''action_is_cancelled'') d)
     else (fp_cancelled d, d))"

definition fpi_device_enroll_progress :: "int \<Rightarrow> bool \<Rightarrow> gerror option \<Rightarrow> fp_device \<Rightarrow> fp_device" where
  "fpi_device_enroll_progress completed_stages print error d =
    (if fp_action d \<noteq> FPI_DEVICE_ACTION_ENROLL then noted (Critical ''enroll_progress'') d
     else if \<not> (error = None \<or> in_retry_domain (the error)) then noted (Critical ''enroll_progress'') d
     else
       let d = (if error \<noteq> None \<and> print then noted (Warned ''error and print'') d else d);
           print = (if error \<noteq> None then False else print)
       in noted (Enroll_progress completed_stages print error) d)"

text \<open>The two reports of a match. \<open>delay\<close> says that the callback is not called.\<close>

definition match_callback :: "bool \<Rightarrow> fp_device \<Rightarrow> fp_device" where
  "match_callback delay d =
    (if delay then d else noted (Match_found (md_match (fp_match d)) (md_print (fp_match d)) (md_error (fp_match d))) d)"

definition fpi_device_verify_report :: "FpiMatchResult \<Rightarrow> bool \<Rightarrow> gerror option \<Rightarrow> fp_device \<Rightarrow> fp_device" where
  "fpi_device_verify_report result print error d =
    (if fp_action d \<noteq> FPI_DEVICE_ACTION_VERIFY then noted (Critical ''verify_report'') d
     else if md_result_reported (fp_match d) then noted (Critical ''verify_report'') d
     else
       let d = d\<lparr>fp_match := (fp_match d)\<lparr>md_result_reported := True\<rparr>\<rparr>
       in if error \<noteq> None \<or> result = FPI_MATCH_ERROR then
            let d = (if result \<noteq> FPI_MATCH_ERROR then noted (Warned ''error without match error'') d else d);
                d = (if error = None then noted (Warned ''no retry code'') d else d);
                error = (case error of None \<Rightarrow> FP_DEVICE_RETRY FP_DEVICE_RETRY_GENERAL | Some e \<Rightarrow> e);
                d = (if print then noted (Warned ''print with error'') d else d);
                d = d\<lparr>fp_match := (fp_match d)\<lparr>md_error := Some error\<rparr>\<rparr>
            in if \<not> in_retry_domain error then match_callback True (noted (Warned ''delaying report'') d)
               else match_callback False d
          else
            match_callback False
              (d\<lparr>fp_match := (fp_match d)\<lparr>md_match := (if result = FPI_MATCH_SUCCESS then Some 0 else md_match (fp_match d)),
                  md_print := print\<rparr>\<rparr>))"

definition fpi_device_identify_report :: "nat option \<Rightarrow> bool \<Rightarrow> gerror option \<Rightarrow> fp_device \<Rightarrow> fp_device" where
  "fpi_device_identify_report match print error d =
    (if fp_action d \<noteq> FPI_DEVICE_ACTION_IDENTIFY then noted (Critical ''identify_report'') d
     else if md_result_reported (fp_match d) then noted (Critical ''identify_report'') d
     else
       let d = d\<lparr>fp_match := (fp_match d)\<lparr>md_result_reported := True\<rparr>\<rparr>;
           stray = (match \<noteq> None \<and> \<not> the match < md_gallery (fp_match d));
           d = (if stray then noted (Warned ''match not in gallery'') d else d);
           match = (if stray then None else match)
       in (case error of
             Some e \<Rightarrow>
               let d = (if match \<noteq> None then noted (Warned ''match with error'') d else d);
                   d = (if print then noted (Warned ''print with error'') d else d);
                   d = d\<lparr>fp_match := (fp_match d)\<lparr>md_error := Some e\<rparr>\<rparr>
               in if \<not> in_retry_domain e then match_callback True (noted (Warned ''delaying report'') d)
                  else match_callback False d
           | None \<Rightarrow>
               match_callback False
                 (d\<lparr>fp_match := (fp_match d)\<lparr>md_match := (if match \<noteq> None then match else md_match (fp_match d)),
                     md_print := (print \<or> md_print (fp_match d))\<rparr>\<rparr>)))"

section \<open>Completion of an action\<close>

definition clear_device_cancel_action :: "fp_device \<Rightarrow> fp_device" where
  "clear_device_cancel_action d = d\<lparr>fp_cancel_idle := False, fp_cancel_handlers := False\<rparr>"

definition fpi_device_return_task_in_idle :: "task_return \<Rightarrow> fp_device \<Rightarrow> fp_device" where
  "fpi_device_return_task_in_idle r d = d\<lparr>fp_returns := r # fp_returns d\<rparr>"

text \<open>What every completion does first.\<close>

definition complete_begin :: "fp_device \<Rightarrow> fp_device" where
  "complete_begin d = fpi_device_report_finger_status FP_FINGER_STATUS_NONE (clear_device_cancel_action d)"

definition fpi_device_open_complete :: "gerror option \<Rightarrow> fp_device \<Rightarrow> fp_device" where
  "fpi_device_open_complete error d =
    (if fp_action d \<noteq> FPI_DEVICE_ACTION_OPEN then noted (Critical ''open_complete'') d
     else fpi_device_return_task_in_idle (case error of None \<Rightarrow> Return_bool True | Some e \<Rightarrow> Return_error e) (complete_begin d))"

text \<open>A device found through udev has nothing of its own to close.\<close>

definition fpi_device_close_complete :: "gerror option \<Rightarrow> fp_device \<Rightarrow> fp_device" where
  "fpi_device_close_complete error d =
    (if fp_action d \<noteq> FPI_DEVICE_ACTION_CLOSE then noted (Critical ''close_complete'') d
     else fpi_device_return_task_in_idle (case error of None \<Rightarrow> Return_bool True | Some e \<Rightarrow> Return_error e) (complete_begin d))"

definition fpi_device_enroll_complete :: "bool \<Rightarrow> gerror option \<Rightarrow> fp_device \<Rightarrow> fp_device" where
  "fpi_device_enroll_complete print error d =
    (if fp_action d \<noteq> FPI_DEVICE_ACTION_ENROLL then noted (Critical ''enroll_complete'') d
     else
       let d = complete_begin d
       in (case error of
             None \<Rightarrow>
               if print then
                 if \<not> fp_enroll_type_set d
                 then fpi_device_return_task_in_idle (Return_error (FP_DEVICE_ERROR FP_DEVICE_ERROR_GENERAL)) (noted (Warned ''print type'') d)
                 else fpi_device_return_task_in_idle (Return_object Obj_print) d
               else fpi_device_return_task_in_idle (Return_error (FP_DEVICE_ERROR FP_DEVICE_ERROR_GENERAL)) (noted (Warned ''no print'') d)
           | Some e \<Rightarrow>
               let d = fpi_device_return_task_in_idle (Return_error e) d
               in if print then noted (Warned ''error and print'') d else d))"

text \<open>A verification and an identification end alike but for the value of success.\<close>

definition match_complete :: "(fp_match_data \<Rightarrow> task_return) \<Rightarrow> gerror option \<Rightarrow> fp_device \<Rightarrow> fp_device" where
  "match_complete value_of error d =
    (let d = complete_begin d
     in (case error of
           None \<Rightarrow>
             if \<not> md_result_reported (fp_match d)
             then fpi_device_return_task_in_idle (Return_error (FP_DEVICE_ERROR FP_DEVICE_ERROR_GENERAL)) (noted (Warned ''no result'') d)
             else
               (case md_error (fp_match d) of
                  Some e \<Rightarrow> fpi_device_return_task_in_idle (Return_error e) (d\<lparr>fp_match := (fp_match d)\<lparr>md_error := None\<rparr>\<rparr>)
                | None \<Rightarrow> fpi_device_return_task_in_idle (value_of (fp_match d)) d)
         | Some e \<Rightarrow>
             if in_retry_domain e
             then fpi_device_return_task_in_idle (Return_error (FP_DEVICE_ERROR FP_DEVICE_ERROR_GENERAL)) (noted (Warned ''retry error'') d)
             else fpi_device_return_task_in_idle (Return_error e) d))"

definition fpi_device_verify_complete :: "gerror option \<Rightarrow> fp_device \<Rightarrow> fp_device" where
  "fpi_device_verify_complete error d =
    (if fp_action d \<noteq> FPI_DEVICE_ACTION_VERIFY then noted (Critical ''verify_complete'') d
     else match_complete (\<lambda>m. Return_int (if md_match m \<noteq> None then FPI_MATCH_SUCCESS else FPI_MATCH_FAIL)) error d)"

definition fpi_device_identify_complete :: "gerror option \<Rightarrow> fp_device \<Rightarrow> fp_device" where
  "fpi_device_identify_complete error d =
    (if fp_action d \<noteq> FPI_DEVICE_ACTION_IDENTIFY then noted (Critical ''identify_complete'') d
     else match_complete (\<lambda>m. Return_bool True) error d)"

definition fpi_device_capture_complete :: "fp_image option \<Rightarrow> gerror option \<Rightarrow> fp_device \<Rightarrow> fp_device" where
  "fpi_device_capture_complete img error d =
    (if fp_action d \<noteq> FPI_DEVICE_ACTION_CAPTURE then noted (Critical ''capture_complete'') d
     else
       let d = complete_begin d
       in (case error of
             None \<Rightarrow>
               (case img of
                  Some i \<Rightarrow> fpi_device_return_task_in_idle (Return_object (Obj_image i)) d
                | None \<Rightarrow> fpi_device_return_task_in_idle (Return_error (FP_DEVICE_ERROR FP_DEVICE_ERROR_GENERAL)) (noted (Warned ''no error'') d))
           | Some e \<Rightarrow>
               let d = fpi_device_return_task_in_idle (Return_error e) d
               in if img \<noteq> None then noted (Warned ''error and image'') d else d))"

definition fpi_device_action_error :: "gerror option \<Rightarrow> fp_device \<Rightarrow> fp_device" where
  "fpi_device_action_error error d =
    (if fp_action d = FPI_DEVICE_ACTION_NONE then noted (Critical ''action_error'') d
     else
       let d = (if error = None then noted (Warned ''no error given'') d else d);
           error = (case error of None \<Rightarrow> Some (FP_DEVICE_ERROR FP_DEVICE_ERROR_GENERAL) | Some e \<Rightarrow> Some e)
       in (case fp_action d of
             FPI_DEVICE_ACTION_OPEN \<Rightarrow> fpi_device_open_complete error d
           | FPI_DEVICE_ACTION_CLOSE \<Rightarrow> fpi_device_close_complete error d
           | FPI_DEVICE_ACTION_ENROLL \<Rightarrow> fpi_device_enroll_complete False error d
           | FPI_DEVICE_ACTION_VERIFY \<Rightarrow> fpi_device_verify_complete error d
           | FPI_DEVICE_ACTION_IDENTIFY \<Rightarrow> fpi_device_identify_complete error d
           | FPI_DEVICE_ACTION_CAPTURE \<Rightarrow> fpi_device_capture_complete None error d
           | FPI_DEVICE_ACTION_NONE \<Rightarrow> noted (Critical ''action_error'') d))"

text \<open>A request to suspend or to resume is a task of its own, which ends at once or with the current action.\<close>

definition complete_suspend_resume_task :: "fp_device \<Rightarrow> fp_device" where
  "complete_suspend_resume_task d =
    (if \<not> fp_suspend_resume_task d then noted (Aborted ''complete_suspend_resume_task'') d
     else noted (Power_returned None) (d\<lparr>fp_suspend_resume_task := False\<rparr>))"

definition fpi_device_suspend_completed :: "fp_device \<Rightarrow> fp_device" where
  "fpi_device_suspend_completed d =
    (let task = fp_suspend_resume_task d; error = fp_suspend_error d;
         d = d\<lparr>fp_suspend_resume_task := False, fp_suspend_error := None\<rparr>
     in noted (if task then Power_returned error else Critical ''suspend_completed'') d)"

text \<open>The handlers of \<open>notify::completed\<close> of a task that has been returned. They run in the step that returns the task: nothing of
  libfprint runs between the two, although GLib may run the callback of the application and the handlers in an iteration of the
  main loop of their own.\<close>

fun completed_cb :: "completed_handler \<Rightarrow> fp_device \<Rightarrow> fp_device" where
  "completed_cb Suspend_completed d = fpi_device_suspend_completed d"
| "completed_cb Complete_suspend_resume d = complete_suspend_resume_task d"

definition notify_completed :: "fp_device \<Rightarrow> fp_device" where
  "notify_completed d = fold completed_cb (fp_on_completed d) (d\<lparr>fp_on_completed := []\<rparr>)"

text \<open>The source of the main loop that returns the task; \<open>r\<close> is its data.\<close>

definition fp_device_task_return_in_idle_cb :: "task_return \<Rightarrow> fp_device \<Rightarrow> fp_device" where
  "fp_device_task_return_in_idle_cb r d =
    (let action = fp_action d;
         cancellation_reason = fp_cancel_reason d;
         d = d\<lparr>fp_task := False, fp_action := FPI_DEVICE_ACTION_NONE, fp_cancelled := False, fp_cancel_reason := None\<rparr>;
         failed = (case r of Return_error _ \<Rightarrow> True | _ \<Rightarrow> False);
         d = (if action = FPI_DEVICE_ACTION_OPEN \<and> \<not> failed then d\<lparr>fp_is_open := True\<rparr>
              else if action = FPI_DEVICE_ACTION_CLOSE then d\<lparr>fp_is_open := False\<rparr> else d)
     in notify_completed
          (noted (Task_returned action (case (r, cancellation_reason) of (Return_error _, Some e) \<Rightarrow> Return_error e | _ \<Rightarrow> r)) d))"

section \<open>Cancellation\<close>

definition fp_device_cancelled_cb :: "fp_device \<Rightarrow> fp_device" where
  "fp_device_cancelled_cb d = d\<lparr>fp_cancel_idle := True\<rparr>"

text \<open>\<open>g_cancellable_cancel (current_cancellable)\<close>: the handler runs once, if it is connected.\<close>

definition cancel_current :: "fp_device \<Rightarrow> fp_device" where
  "cancel_current d =
    (if fp_cancelled d then d
     else
       let d = d\<lparr>fp_cancelled := True\<rparr>
       in if fp_cancel_handlers d then fp_device_cancelled_cb d else d)"

text \<open>The application cancels its own cancellable, which is connected to the internal one until the action is complete.\<close>

definition fp_device_task_cancelled_cb :: "fp_device \<Rightarrow> fp_device" where
  "fp_device_task_cancelled_cb d = (if fp_task d \<and> fp_cancel_handlers d then cancel_current d else d)"

text \<open>The temperature model finds the device hot while an action runs.\<close>

definition temperature_cancels :: "fp_device \<Rightarrow> fp_device" where
  "temperature_cancels d =
    (if capture_action (fp_action d)
     then cancel_current
       (d\<lparr>fp_cancel_reason := (case fp_cancel_reason d of None \<Rightarrow> Some (FP_DEVICE_ERROR FP_DEVICE_ERROR_TOO_HOT) | r \<Rightarrow> r)\<rparr>)
     else d)"

section \<open>Suspending\<close>

definition fpi_device_suspend_complete :: "gerror option \<Rightarrow> fp_device \<Rightarrow> fp_device" where
  "fpi_device_suspend_complete error d =
    (if \<not> fp_suspend_resume_task d then noted (Critical ''suspend_complete'') d
     else if fp_suspend_error d \<noteq> None then noted (Critical ''suspend_complete'') d
     else
       let d = d\<lparr>fp_suspend_error := error, fp_is_suspended := True\<rparr>
       in if fp_suspend_error d = None \<or> \<not> fp_task d then fpi_device_suspend_completed d
          else cancel_current
            (d\<lparr>fp_on_completed := fp_on_completed d @ [Suspend_completed],
               fp_cancel_reason := (case fp_cancel_reason d of None \<Rightarrow> Some (FP_DEVICE_ERROR FP_DEVICE_ERROR_BUSY) | r \<Rightarrow> r)\<rparr>))"

definition fpi_device_suspend :: "fp_device \<Rightarrow> fp_device" where
  "fpi_device_suspend d =
    (if fp_action d = FPI_DEVICE_ACTION_NONE then fpi_device_suspend_complete None d
     else if capture_action (fp_action d) then fpi_device_suspend_complete (Some (FP_DEVICE_ERROR FP_DEVICE_ERROR_NOT_SUPPORTED)) d
     else d\<lparr>fp_on_completed := fp_on_completed d @ [Complete_suspend_resume]\<rparr>)"

definition fpi_device_resume_complete :: "gerror option \<Rightarrow> fp_device \<Rightarrow> fp_device" where
  "fpi_device_resume_complete error d =
    (if \<not> fp_suspend_resume_task d then noted (Critical ''resume_complete'') d
     else noted (Power_returned error) (d\<lparr>fp_is_suspended := False, fp_suspend_resume_task := False\<rparr>))"

definition fpi_device_resume :: "fp_device \<Rightarrow> fp_device" where
  "fpi_device_resume d =
    (if fp_action d = FPI_DEVICE_ACTION_NONE then fpi_device_resume_complete None d
     else if capture_action (fp_action d) then fpi_device_resume_complete (Some (FP_DEVICE_ERROR FP_DEVICE_ERROR_NOT_SUPPORTED)) d
     else noted (Aborted ''resume'') d)"

definition fp_device_suspend :: "fp_device \<Rightarrow> fp_device" where
  "fp_device_suspend d =
    (if fp_suspend_resume_task d \<or> fp_is_suspended d then noted (Refused (FP_DEVICE_ERROR FP_DEVICE_ERROR_BUSY)) d
     else fpi_device_suspend (noted (Power_started True) (d\<lparr>fp_suspend_resume_task := True\<rparr>)))"

definition fp_device_resume :: "fp_device \<Rightarrow> fp_device" where
  "fp_device_resume d =
    (if fp_suspend_resume_task d \<or> \<not> fp_is_suspended d then noted (Refused (FP_DEVICE_ERROR FP_DEVICE_ERROR_BUSY)) d
     else fpi_device_resume (noted (Power_started False) (d\<lparr>fp_suspend_resume_task := True\<rparr>)))"

section \<open>Starting an action\<close>

definition setup_task_cancellable :: "fp_device \<Rightarrow> fp_device" where
  "setup_task_cancellable d = d\<lparr>fp_cancelled := False, fp_cancel_handlers := True\<rparr>"

definition refuse :: "fp_device_error \<Rightarrow> fp_device \<Rightarrow> bool \<times> fp_device" where
  "refuse e d = (False, noted (Refused (FP_DEVICE_ERROR e)) d)"

definition begin_action :: "FpiDeviceAction \<Rightarrow> fp_device \<Rightarrow> fp_device" where
  "begin_action a d = setup_task_cancellable (noted (Started a) (d\<lparr>fp_action := a, fp_task := True\<rparr>))"

text \<open>Each function refuses the request, or sets the action up; the flag says that the method of the class is called next.
  \<open>cancelled\<close> says that the cancellable of the application is cancelled already. The image device class has all the methods
  and features, so the refusals of a class without them do not occur.\<close>

definition fp_device_open :: "bool \<Rightarrow> fp_device \<Rightarrow> bool \<times> fp_device" where
  "fp_device_open cancelled d =
    (if cancelled then (False, noted (Refused (G_IO_ERROR G_IO_ERROR_CANCELLED)) d)
     else if fp_is_open d then refuse FP_DEVICE_ERROR_ALREADY_OPEN d
     else if fp_task d \<or> fp_is_suspended d then refuse FP_DEVICE_ERROR_BUSY d
     else (True, fpi_device_report_finger_status FP_FINGER_STATUS_NONE (begin_action FPI_DEVICE_ACTION_OPEN d)))"

definition fp_device_close :: "bool \<Rightarrow> fp_device \<Rightarrow> bool \<times> fp_device" where
  "fp_device_close cancelled d =
    (if cancelled then (False, noted (Refused (G_IO_ERROR G_IO_ERROR_CANCELLED)) d)
     else if \<not> fp_is_open d then refuse FP_DEVICE_ERROR_NOT_OPEN d
     else if fp_task d \<or> fp_is_suspended d then refuse FP_DEVICE_ERROR_BUSY d
     else (True, begin_action FPI_DEVICE_ACTION_CLOSE d))"

text \<open>The print the application passes for an enrolment: none, a fresh one, or one of an earlier enrolment that is
  compatible with the device or not.\<close>

datatype template_print = No_print | Fresh_print | Old_print bool

definition fp_device_enroll :: "bool \<Rightarrow> template_print \<Rightarrow> bool \<Rightarrow> fp_device \<Rightarrow> bool \<times> fp_device" where
  "fp_device_enroll cancelled template_print hot d =
    (if cancelled then (False, noted (Refused (G_IO_ERROR G_IO_ERROR_CANCELLED)) d)
     else if \<not> fp_is_open d then refuse FP_DEVICE_ERROR_NOT_OPEN d
     else if fp_task d \<or> fp_is_suspended d then refuse FP_DEVICE_ERROR_BUSY d
     else if template_print = No_print then refuse FP_DEVICE_ERROR_DATA_INVALID d
     else if template_print = Old_print False then refuse FP_DEVICE_ERROR_DATA_INVALID d
     else if hot then refuse FP_DEVICE_ERROR_TOO_HOT d
     else (True, (begin_action FPI_DEVICE_ACTION_ENROLL d)\<lparr>fp_enroll_type_set := (template_print \<noteq> Fresh_print), fp_enroll_prints := 0\<rparr>))"

definition fresh_match_data :: "nat \<Rightarrow> fp_match_data" where
  "fresh_match_data n = \<lparr>md_gallery = n, md_result_reported = False, md_match = None, md_print = False, md_error = None\<rparr>"

definition fp_device_verify :: "bool \<Rightarrow> bool \<Rightarrow> fp_device \<Rightarrow> bool \<times> fp_device" where
  "fp_device_verify cancelled hot d =
    (if cancelled then (False, noted (Refused (G_IO_ERROR G_IO_ERROR_CANCELLED)) d)
     else if \<not> fp_is_open d then refuse FP_DEVICE_ERROR_NOT_OPEN d
     else if fp_task d \<or> fp_is_suspended d then refuse FP_DEVICE_ERROR_BUSY d
     else if hot then refuse FP_DEVICE_ERROR_TOO_HOT d
     else (True, (begin_action FPI_DEVICE_ACTION_VERIFY d)\<lparr>fp_match := fresh_match_data 1\<rparr>))"

text \<open>\<open>prints\<close> is the size of the gallery, or none.\<close>

definition fp_device_identify :: "bool \<Rightarrow> nat option \<Rightarrow> bool \<Rightarrow> fp_device \<Rightarrow> bool \<times> fp_device" where
  "fp_device_identify cancelled prints hot d =
    (if cancelled then (False, noted (Refused (G_IO_ERROR G_IO_ERROR_CANCELLED)) d)
     else if \<not> fp_is_open d then refuse FP_DEVICE_ERROR_NOT_OPEN d
     else if fp_task d \<or> fp_is_suspended d then refuse FP_DEVICE_ERROR_BUSY d
     else
       (case prints of
          None \<Rightarrow> refuse FP_DEVICE_ERROR_DATA_INVALID d
        | Some n \<Rightarrow>
            if hot then refuse FP_DEVICE_ERROR_TOO_HOT d
            else (True, (begin_action FPI_DEVICE_ACTION_IDENTIFY d)\<lparr>fp_match := fresh_match_data n\<rparr>)))"

definition fp_device_capture :: "bool \<Rightarrow> bool \<Rightarrow> bool \<Rightarrow> fp_device \<Rightarrow> bool \<times> fp_device" where
  "fp_device_capture cancelled wait_for_finger hot d =
    (if cancelled then (False, noted (Refused (G_IO_ERROR G_IO_ERROR_CANCELLED)) d)
     else if \<not> fp_is_open d then refuse FP_DEVICE_ERROR_NOT_OPEN d
     else if fp_task d \<or> fp_is_suspended d then refuse FP_DEVICE_ERROR_BUSY d
     else if hot then refuse FP_DEVICE_ERROR_TOO_HOT d
     else (True, (begin_action FPI_DEVICE_ACTION_CAPTURE d)\<lparr>fp_wait_for_finger := wait_for_finger\<rparr>))"

text \<open>Requests that concern the storage of the device are answered at once: it has none.\<close>

definition fp_device_delete_print :: "bool \<Rightarrow> fp_device \<Rightarrow> fp_device" where
  "fp_device_delete_print cancelled d =
    (if cancelled then noted (Refused (G_IO_ERROR G_IO_ERROR_CANCELLED)) d
     else if \<not> fp_is_open d then noted (Refused (FP_DEVICE_ERROR FP_DEVICE_ERROR_NOT_OPEN)) d
     else if fp_task d \<or> fp_is_suspended d then noted (Refused (FP_DEVICE_ERROR FP_DEVICE_ERROR_BUSY)) d
     else noted (Answered (Return_bool True)) d)"

definition fp_device_list_prints :: "bool \<Rightarrow> fp_device \<Rightarrow> fp_device" where
  "fp_device_list_prints cancelled d =
    (if cancelled then noted (Refused (G_IO_ERROR G_IO_ERROR_CANCELLED)) d
     else if \<not> fp_is_open d then noted (Refused (FP_DEVICE_ERROR FP_DEVICE_ERROR_NOT_OPEN)) d
     else if fp_task d \<or> fp_is_suspended d then noted (Refused (FP_DEVICE_ERROR FP_DEVICE_ERROR_BUSY)) d
     else noted (Refused (FP_DEVICE_ERROR FP_DEVICE_ERROR_NOT_SUPPORTED)) d)"

definition fp_device_clear_storage :: "bool \<Rightarrow> fp_device \<Rightarrow> fp_device" where
  "fp_device_clear_storage cancelled d =
    (if cancelled then noted (Refused (G_IO_ERROR G_IO_ERROR_CANCELLED)) d
     else if \<not> fp_is_open d then noted (Refused (FP_DEVICE_ERROR FP_DEVICE_ERROR_NOT_OPEN)) d
     else if fp_task d then noted (Refused (FP_DEVICE_ERROR FP_DEVICE_ERROR_BUSY)) d
     else noted (Refused (FP_DEVICE_ERROR FP_DEVICE_ERROR_NOT_SUPPORTED)) d)"

end
