(* ===== verification/Image_Device.thy ===== *)
theory Image_Device
  imports Fp_Device "HOL-Library.Monad_Syntax"
begin

text \<open>
  The image device class of libfprint (\<open>libfprint/fp-image-device.c\<close>, \<open>fpi-image-device.c\<close>): the state machine
  between the actions of a device and a driver that delivers images. An \<open>img_device\<close> is the part of an object that the
  class and its parent own; a driver extends it with its own fields, as the C structures nest. The methods of the driver
  class are a table \<open>vt\<close> that every function which calls one takes as an argument, so the class is defined once and for
  all drivers; a method may fail to return, hence the option. \<open>w_scans\<close> holds the images whose features are being
  extracted in a thread.
\<close>

section \<open>Data\<close>

datatype FpiImageDeviceAlgorithm = FPI_DEVICE_ALGO_NBIS | FPI_DEVICE_ALGO_SIGFM

record img_priv =
  pv_state :: FpiImageDeviceState
  pv_active :: bool
  pv_finger_present :: bool
  pv_enroll_stage :: int
  pv_minutiae_scan_active :: bool
  pv_action_error :: "gerror option"
  pv_capture_image :: "fp_image option"
  pv_bz3_threshold :: int
  pv_algorithm :: FpiImageDeviceAlgorithm

record img_device =
  w_fp :: fp_device
  w_pv :: img_priv
  w_scans :: "fp_image list"

datatype img_method = Img_open | Img_close | Activate | Change_state FpiImageDeviceState | Deactivate

type_synonym 'w methods = "img_method \<Rightarrow> 'w \<Rightarrow> 'w option"

text \<open>What the extraction of features and the matching give: the error of the extraction, of adding the features to a
  print, and the result of matching with each template.\<close>

record scan_result =
  sc_finish :: "gerror option"
  sc_add :: "gerror option"
  sc_match :: "FpiImageDeviceAlgorithm \<Rightarrow> nat \<Rightarrow> int \<Rightarrow> FpiMatchResult \<times> gerror option"

definition upd_fp :: "(fp_device \<Rightarrow> fp_device) \<Rightarrow> 'a img_device_scheme \<Rightarrow> 'a img_device_scheme" where
  "upd_fp f w = w\<lparr>w_fp := f (w_fp w)\<rparr>"

definition upd_pv :: "(img_priv \<Rightarrow> img_priv) \<Rightarrow> 'a img_device_scheme \<Rightarrow> 'a img_device_scheme" where
  "upd_pv f w = w\<lparr>w_pv := f (w_pv w)\<rparr>"

abbreviation action_of :: "'a img_device_scheme \<Rightarrow> FpiDeviceAction" where
  "action_of w \<equiv> fp_action (w_fp w)"

abbreviation state_of :: "'a img_device_scheme \<Rightarrow> FpiImageDeviceState" where
  "state_of w \<equiv> pv_state (w_pv w)"

section \<open>The state machine\<close>

definition valid_transitions :: "(FpiImageDeviceState \<times> FpiImageDeviceState) list" where
  "valid_transitions =
    [(FPI_IMAGE_DEVICE_STATE_INACTIVE, FPI_IMAGE_DEVICE_STATE_ACTIVATING),
     (FPI_IMAGE_DEVICE_STATE_ACTIVATING, FPI_IMAGE_DEVICE_STATE_IDLE),
     (FPI_IMAGE_DEVICE_STATE_ACTIVATING, FPI_IMAGE_DEVICE_STATE_INACTIVE),
     (FPI_IMAGE_DEVICE_STATE_IDLE, FPI_IMAGE_DEVICE_STATE_AWAIT_FINGER_ON),
     (FPI_IMAGE_DEVICE_STATE_IDLE, FPI_IMAGE_DEVICE_STATE_CAPTURE),
     (FPI_IMAGE_DEVICE_STATE_IDLE, FPI_IMAGE_DEVICE_STATE_DEACTIVATING),
     (FPI_IMAGE_DEVICE_STATE_AWAIT_FINGER_ON, FPI_IMAGE_DEVICE_STATE_CAPTURE),
     (FPI_IMAGE_DEVICE_STATE_AWAIT_FINGER_ON, FPI_IMAGE_DEVICE_STATE_DEACTIVATING),
     (FPI_IMAGE_DEVICE_STATE_CAPTURE, FPI_IMAGE_DEVICE_STATE_AWAIT_FINGER_OFF),
     (FPI_IMAGE_DEVICE_STATE_CAPTURE, FPI_IMAGE_DEVICE_STATE_IDLE),
     (FPI_IMAGE_DEVICE_STATE_CAPTURE, FPI_IMAGE_DEVICE_STATE_DEACTIVATING),
     (FPI_IMAGE_DEVICE_STATE_AWAIT_FINGER_OFF, FPI_IMAGE_DEVICE_STATE_IDLE),
     (FPI_IMAGE_DEVICE_STATE_AWAIT_FINGER_OFF, FPI_IMAGE_DEVICE_STATE_DEACTIVATING),
     (FPI_IMAGE_DEVICE_STATE_DEACTIVATING, FPI_IMAGE_DEVICE_STATE_INACTIVE)]"

text \<open>The new state is set and announced; the signal calls the method of the driver.\<close>

definition enter_state :: "FpiImageDeviceState \<Rightarrow> 'a img_device_scheme \<Rightarrow> 'a img_device_scheme" where
  "enter_state state w =
    (let w = (if (state_of w, state) \<in> set valid_transitions then w else upd_fp (noted (Bad_transition (state_of w) state)) w)
     in upd_fp (noted (Notify_state state)) (upd_pv (\<lambda>p. p\<lparr>pv_state := state\<rparr>) w))"

definition fp_image_device_change_state ::
  "'a img_device_scheme methods \<Rightarrow> FpiImageDeviceState \<Rightarrow> 'a img_device_scheme \<Rightarrow> 'a img_device_scheme option" where
  "fp_image_device_change_state vt state w = do {
     w \<leftarrow> vt (Change_state state) (enter_state state w);
     Some (if state = FPI_IMAGE_DEVICE_STATE_AWAIT_FINGER_ON
           then upd_fp (fpi_device_report_finger_status_changes FP_FINGER_STATUS_NEEDED FP_FINGER_STATUS_NONE) w
           else if state = FPI_IMAGE_DEVICE_STATE_AWAIT_FINGER_OFF
           then upd_fp (fpi_device_report_finger_status_changes FP_FINGER_STATUS_NONE FP_FINGER_STATUS_NEEDED) w
           else w) }"

definition fpi_image_device_activate :: "'a img_device_scheme methods \<Rightarrow> 'a img_device_scheme \<Rightarrow> 'a img_device_scheme option" where
  "fpi_image_device_activate vt w =
    (if pv_active (w_pv w) then Some (upd_fp (noted (Aborted ''activate'')) w)
     else do {
       w \<leftarrow> fp_image_device_change_state vt FPI_IMAGE_DEVICE_STATE_ACTIVATING w;
       vt Activate w })"

definition fpi_image_device_deactivate ::
  "'a img_device_scheme methods \<Rightarrow> bool \<Rightarrow> 'a img_device_scheme \<Rightarrow> 'a img_device_scheme option" where
  "fpi_image_device_deactivate vt cancelling w =
    (if \<not> pv_active (w_pv w) \<or> state_of w = FPI_IMAGE_DEVICE_STATE_DEACTIVATING then Some w
     else do {
       let w = (if \<not> cancelling \<and> state_of w \<noteq> FPI_IMAGE_DEVICE_STATE_IDLE then upd_fp (noted (Warned ''not idle'')) w else w);
       w \<leftarrow> fp_image_device_change_state vt FPI_IMAGE_DEVICE_STATE_DEACTIVATING w;
       vt Deactivate w })"

definition fp_image_device_enroll_maybe_await_finger_on ::
  "'a img_device_scheme methods \<Rightarrow> 'a img_device_scheme \<Rightarrow> 'a img_device_scheme option" where
  "fp_image_device_enroll_maybe_await_finger_on vt w =
    (if pv_minutiae_scan_active (w_pv w) \<or> pv_finger_present (w_pv w) then Some w
     else fp_image_device_change_state vt FPI_IMAGE_DEVICE_STATE_AWAIT_FINGER_ON w)"

subsection \<open>Completing the action\<close>

text \<open>The first error is kept, unless it asks for a retry.\<close>

definition keep_error :: "gerror option \<Rightarrow> 'a img_device_scheme \<Rightarrow> 'a img_device_scheme" where
  "keep_error error w =
    (case error of
       None \<Rightarrow> w
     | Some e \<Rightarrow>
         (case pv_action_error (w_pv w) of
            Some e0 \<Rightarrow> if \<not> in_retry_domain e0 then upd_fp (noted (Warned ''first error is kept'')) w
                       else upd_pv (\<lambda>p. p\<lparr>pv_action_error := Some e\<rparr>) w
          | None \<Rightarrow> upd_pv (\<lambda>p. p\<lparr>pv_action_error := Some e\<rparr>) w))"

definition report_result :: "'a img_device_scheme \<Rightarrow> 'a img_device_scheme" where
  "report_result w =
    (case action_of w of
       FPI_DEVICE_ACTION_ENROLL \<Rightarrow> upd_fp (fpi_device_enroll_complete True None) w
     | FPI_DEVICE_ACTION_VERIFY \<Rightarrow> upd_fp (fpi_device_verify_complete None) w
     | FPI_DEVICE_ACTION_IDENTIFY \<Rightarrow> upd_fp (fpi_device_identify_complete None) w
     | FPI_DEVICE_ACTION_CAPTURE \<Rightarrow>
         upd_fp (fpi_device_capture_complete (pv_capture_image (w_pv w)) None) (upd_pv (\<lambda>p. p\<lparr>pv_capture_image := None\<rparr>) w)
     | _ \<Rightarrow> upd_fp (noted (Aborted ''maybe_complete_action'')) w)"

definition fp_image_device_maybe_complete_action :: "gerror option \<Rightarrow> 'a img_device_scheme \<Rightarrow> 'a img_device_scheme" where
  "fp_image_device_maybe_complete_action error w =
    (let w = keep_error error w
     in if pv_active (w_pv w) \<or> pv_minutiae_scan_active (w_pv w) then w
        else
          let w = (if pv_action_error (w_pv w) = None \<and> fp_cancelled (w_fp w)
                   then upd_pv (\<lambda>p. p\<lparr>pv_action_error := Some (G_IO_ERROR G_IO_ERROR_CANCELLED)\<rparr>) w else w)
          in (case pv_action_error (w_pv w) of
                Some e \<Rightarrow> upd_pv (\<lambda>p. p\<lparr>pv_action_error := None, pv_capture_image := None\<rparr>) (upd_fp (fpi_device_action_error (Some e)) w)
              | None \<Rightarrow> report_result w))"

subsection \<open>Features of an image\<close>

text \<open>The search for a match in the gallery: the first success, or the first error.\<close>

fun identify_loop :: "(nat \<Rightarrow> FpiMatchResult \<times> gerror option) \<Rightarrow> nat \<Rightarrow> nat \<Rightarrow> nat option \<times> gerror option" where
  "identify_loop f i 0 = (None, None)"
| "identify_loop f i (Suc n) =
    (case f i of
       (r, error) \<Rightarrow>
         if r = FPI_MATCH_SUCCESS then (Some i, error)
         else if error \<noteq> None then (None, error)
         else identify_loop f (Suc i) n)"

definition scanned_enroll ::
  "'a img_device_scheme methods \<Rightarrow> bool \<Rightarrow> gerror option \<Rightarrow> 'a img_device_scheme \<Rightarrow> 'a img_device_scheme option" where
  "scanned_enroll vt print error w =
    (let w = (if print
              then upd_pv (\<lambda>p. p\<lparr>pv_enroll_stage := pv_enroll_stage p + 1\<rparr>)
                (upd_fp (\<lambda>d. d\<lparr>fp_enroll_prints := fp_enroll_prints d + 1\<rparr>) w)
              else w);
         w = upd_fp (fpi_device_enroll_progress (pv_enroll_stage (w_pv w)) print error) w
     in if pv_enroll_stage (w_pv w) = fp_nr_enroll_stages (w_fp w)
        then fpi_image_device_deactivate vt False (fp_image_device_maybe_complete_action error w)
        else fp_image_device_enroll_maybe_await_finger_on vt w)"

definition scanned_verify :: "scan_result \<Rightarrow> bool \<Rightarrow> gerror option \<Rightarrow> 'a img_device_scheme \<Rightarrow> 'a img_device_scheme" where
  "scanned_verify scan print error w =
    (let (result, error) = (if print then sc_match scan (pv_algorithm (w_pv w)) 0 (pv_bz3_threshold (w_pv w)) else (FPI_MATCH_ERROR, error))
     in if error = None \<or> in_retry_domain (the error)
        then fp_image_device_maybe_complete_action None (upd_fp (fpi_device_verify_report result print error) w)
        else fp_image_device_maybe_complete_action error w)"

definition scanned_identify :: "scan_result \<Rightarrow> bool \<Rightarrow> gerror option \<Rightarrow> 'a img_device_scheme \<Rightarrow> 'a img_device_scheme" where
  "scanned_identify scan print error w =
    (let (result, error) =
       (if error = None
        then identify_loop (\<lambda>i. sc_match scan (pv_algorithm (w_pv w)) i (pv_bz3_threshold (w_pv w))) 0 (md_gallery (fp_match (w_fp w)))
        else (None, error))
     in if error = None \<or> in_retry_domain (the error)
        then fp_image_device_maybe_complete_action None (upd_fp (fpi_device_identify_report result print error) w)
        else fp_image_device_maybe_complete_action error w)"

text \<open>What is done with an extraction that was not cancelled.\<close>

definition minutiae_result ::
  "'a img_device_scheme methods \<Rightarrow> fp_image \<Rightarrow> scan_result \<Rightarrow> 'a img_device_scheme \<Rightarrow> 'a img_device_scheme option" where
  "minutiae_result vt img scan w =
    (let w = (if sc_finish scan \<noteq> None then upd_fp (noted (Warned ''detection failed'')) w else w);
         error = (if sc_finish scan \<noteq> None then Some (FP_DEVICE_RETRY FP_DEVICE_RETRY_GENERAL) else None)
     in if action_of w = FPI_DEVICE_ACTION_CAPTURE
        then Some (fp_image_device_maybe_complete_action error (upd_pv (\<lambda>p. p\<lparr>pv_capture_image := Some img\<rparr>) w))
        else
          let print = (error = None \<and> sc_add scan = None);
              added = (if error = None then sc_add scan else error)
          in if error = None \<and> added \<noteq> None \<and> \<not> in_retry_domain (the added)
             then fpi_image_device_deactivate vt True (fp_image_device_maybe_complete_action added w)
             else
               (case action_of w of
                  FPI_DEVICE_ACTION_ENROLL \<Rightarrow> scanned_enroll vt print added w
                | FPI_DEVICE_ACTION_VERIFY \<Rightarrow> Some (scanned_verify scan print added w)
                | FPI_DEVICE_ACTION_IDENTIFY \<Rightarrow> Some (scanned_identify scan print added w)
                | _ \<Rightarrow> Some (upd_fp (noted (Aborted ''minutiae_detected'')) w)))"

definition fpi_image_device_minutiae_detected ::
  "'a img_device_scheme methods \<Rightarrow> fp_image \<Rightarrow> scan_result \<Rightarrow> 'a img_device_scheme \<Rightarrow> 'a img_device_scheme option" where
  "fpi_image_device_minutiae_detected vt img scan w =
    (let w = upd_pv (\<lambda>p. p\<lparr>pv_minutiae_scan_active := False\<rparr>) w
     in if sc_finish scan = Some (G_IO_ERROR G_IO_ERROR_CANCELLED)
        then fpi_image_device_deactivate vt True (fp_image_device_maybe_complete_action (sc_finish scan) w)
        else minutiae_result vt img scan w)"

section \<open>Reports of the driver\<close>

definition fpi_image_device_set_bz3_threshold :: "int \<Rightarrow> 'a img_device_scheme \<Rightarrow> 'a img_device_scheme" where
  "fpi_image_device_set_bz3_threshold bz3_threshold w =
    (if \<not> bz3_threshold > 0 then upd_fp (noted (Critical ''set_bz3_threshold'')) w
     else upd_pv (\<lambda>p. p\<lparr>pv_bz3_threshold := bz3_threshold\<rparr>) w)"

definition fpi_image_device_report_finger_status ::
  "'a img_device_scheme methods \<Rightarrow> bool \<Rightarrow> 'a img_device_scheme \<Rightarrow> 'a img_device_scheme option" where
  "fpi_image_device_report_finger_status vt present w =
    (let w = upd_fp (if present then fpi_device_report_finger_status_changes FP_FINGER_STATUS_PRESENT FP_FINGER_STATUS_NONE
                     else fpi_device_report_finger_status_changes FP_FINGER_STATUS_NONE FP_FINGER_STATUS_PRESENT) w
     in if state_of w = FPI_IMAGE_DEVICE_STATE_INACTIVE then Some w
        else if action_of w = FPI_DEVICE_ACTION_OPEN \<or> action_of w = FPI_DEVICE_ACTION_CLOSE
        then Some (upd_fp (noted (Aborted ''report_finger_status'')) w)
        else
          let w = upd_pv (\<lambda>p. p\<lparr>pv_finger_present := present\<rparr>) w
          in if present \<and> state_of w = FPI_IMAGE_DEVICE_STATE_AWAIT_FINGER_ON
             then fp_image_device_change_state vt FPI_IMAGE_DEVICE_STATE_CAPTURE w
             else if \<not> present \<and> state_of w = FPI_IMAGE_DEVICE_STATE_AWAIT_FINGER_OFF then do {
               let action = action_of w;
               w \<leftarrow> fp_image_device_change_state vt FPI_IMAGE_DEVICE_STATE_IDLE w;
               if action \<noteq> FPI_DEVICE_ACTION_ENROLL then fpi_image_device_deactivate vt False w
               else fp_image_device_enroll_maybe_await_finger_on vt w }
             else Some w)"

text \<open>The extraction of features runs in a thread; its end calls \<open>fpi_image_device_minutiae_detected\<close> from the main loop.\<close>

definition fpi_image_device_image_captured ::
  "'a img_device_scheme methods \<Rightarrow> fp_image option \<Rightarrow> 'a img_device_scheme \<Rightarrow> 'a img_device_scheme option" where
  "fpi_image_device_image_captured vt img w =
    (case img of
       None \<Rightarrow> Some (upd_fp (noted (Critical ''image_captured'')) w)
     | Some i \<Rightarrow>
         if state_of w \<noteq> FPI_IMAGE_DEVICE_STATE_CAPTURE then Some (upd_fp (noted (Critical ''image_captured'')) w)
         else if \<not> capture_action (action_of w) then Some (upd_fp (noted (Critical ''image_captured'')) w)
         else fp_image_device_change_state vt FPI_IMAGE_DEVICE_STATE_AWAIT_FINGER_OFF
                (upd_pv (\<lambda>p. p\<lparr>pv_minutiae_scan_active := True\<rparr>) w\<lparr>w_scans := w_scans w @ [i]\<rparr>))"

definition fpi_image_device_retry_scan ::
  "'a img_device_scheme methods \<Rightarrow> fp_device_retry \<Rightarrow> 'a img_device_scheme \<Rightarrow> 'a img_device_scheme option" where
  "fpi_image_device_retry_scan vt retry w =
    (if state_of w = FPI_IMAGE_DEVICE_STATE_INACTIVE then Some (upd_fp (noted (Critical ''retry_scan'')) w)
     else if \<not> capture_action (action_of w) then Some (upd_fp (noted (Critical ''retry_scan'')) w)
     else
       let error = FP_DEVICE_RETRY retry
       in (case action_of w of
             FPI_DEVICE_ACTION_ENROLL \<Rightarrow>
               fp_image_device_change_state vt FPI_IMAGE_DEVICE_STATE_AWAIT_FINGER_OFF
                 (upd_fp (fpi_device_enroll_progress (pv_enroll_stage (w_pv w)) False (Some error)) w)
           | FPI_DEVICE_ACTION_VERIFY \<Rightarrow>
               fpi_image_device_deactivate vt True
                 (fp_image_device_maybe_complete_action None (upd_fp (fpi_device_verify_report FPI_MATCH_ERROR False (Some error)) w))
           | FPI_DEVICE_ACTION_IDENTIFY \<Rightarrow>
               fpi_image_device_deactivate vt True
                 (fp_image_device_maybe_complete_action None (upd_fp (fpi_device_identify_report None False (Some error)) w))
           | _ \<Rightarrow> fpi_image_device_deactivate vt True (fp_image_device_maybe_complete_action (Some error) w)))"

definition fpi_image_device_activate_complete ::
  "'a img_device_scheme methods \<Rightarrow> gerror option \<Rightarrow> 'a img_device_scheme \<Rightarrow> 'a img_device_scheme option" where
  "fpi_image_device_activate_complete vt error w =
    (if pv_active (w_pv w) then Some (upd_fp (noted (Critical ''activate_complete'')) w)
     else if state_of w \<noteq> FPI_IMAGE_DEVICE_STATE_ACTIVATING then Some (upd_fp (noted (Critical ''activate_complete'')) w)
     else if \<not> capture_action (action_of w) then Some (upd_fp (noted (Critical ''activate_complete'')) w)
     else if error \<noteq> None then Some (upd_fp (fpi_device_action_error error) w)
     else do {
       w \<leftarrow> fp_image_device_change_state vt FPI_IMAGE_DEVICE_STATE_IDLE (upd_pv (\<lambda>p. p\<lparr>pv_active := True\<rparr>) w);
       fp_image_device_change_state vt FPI_IMAGE_DEVICE_STATE_AWAIT_FINGER_ON w })"

definition fpi_image_device_session_error ::
  "'a img_device_scheme methods \<Rightarrow> gerror option \<Rightarrow> 'a img_device_scheme \<Rightarrow> 'a img_device_scheme option" where
  "fpi_image_device_session_error vt error w =
    (let w = (if error = None then upd_fp (noted (Warned ''no error given'')) w else w);
         e = (case error of None \<Rightarrow> FP_DEVICE_ERROR FP_DEVICE_ERROR_GENERAL | Some e \<Rightarrow> e);
         finish = (\<lambda>w.
           let w = (if in_retry_domain e then upd_fp (noted (Warned ''retry in session_error'')) w else w)
           in fpi_image_device_deactivate vt True (fp_image_device_maybe_complete_action (Some e) w))
     in if \<not> pv_active (w_pv w) then
          let w = upd_fp (noted (Warned ''device is inactive'')) w
          in if action_of w \<noteq> FPI_DEVICE_ACTION_NONE
             then fpi_image_device_activate_complete vt (Some e) (upd_fp (noted (Warned ''activation failure'')) w)
             else finish w
        else if e = G_IO_ERROR G_IO_ERROR_CANCELLED \<and> fp_cancelled (w_fp w) then Some w
        else if state_of w = FPI_IMAGE_DEVICE_STATE_INACTIVE then Some (upd_fp (noted (Warned ''driver bug'')) w)
        else finish w)"

definition fpi_image_device_deactivate_complete ::
  "'a img_device_scheme methods \<Rightarrow> gerror option \<Rightarrow> 'a img_device_scheme \<Rightarrow> 'a img_device_scheme option" where
  "fpi_image_device_deactivate_complete vt error w =
    (if \<not> pv_active (w_pv w) then Some (upd_fp (noted (Critical ''deactivate_complete'')) w)
     else if state_of w \<noteq> FPI_IMAGE_DEVICE_STATE_DEACTIVATING then Some (upd_fp (noted (Critical ''deactivate_complete'')) w)
     else do {
       w \<leftarrow> fp_image_device_change_state vt FPI_IMAGE_DEVICE_STATE_INACTIVE
              (upd_pv (\<lambda>p. p\<lparr>pv_active := False, pv_finger_present := False\<rparr>) w);
       Some (fp_image_device_maybe_complete_action error w) })"

definition fpi_image_device_open_complete :: "gerror option \<Rightarrow> 'a img_device_scheme \<Rightarrow> 'a img_device_scheme" where
  "fpi_image_device_open_complete error w =
    (if pv_active (w_pv w) then upd_fp (noted (Critical ''open_complete'')) w
     else if action_of w \<noteq> FPI_DEVICE_ACTION_OPEN then upd_fp (noted (Critical ''open_complete'')) w
     else
       upd_fp (fpi_device_open_complete error)
         (upd_fp (fpi_device_report_finger_status FP_FINGER_STATUS_NONE)
           (upd_fp (noted (Notify_state FPI_IMAGE_DEVICE_STATE_INACTIVE)) (upd_pv (\<lambda>p. p\<lparr>pv_state := FPI_IMAGE_DEVICE_STATE_INACTIVE\<rparr>) w))))"

definition fpi_image_device_close_complete :: "gerror option \<Rightarrow> 'a img_device_scheme \<Rightarrow> 'a img_device_scheme" where
  "fpi_image_device_close_complete error w =
    (if pv_active (w_pv w) then upd_fp (noted (Critical ''close_complete'')) w
     else if action_of w \<noteq> FPI_DEVICE_ACTION_CLOSE then upd_fp (noted (Critical ''close_complete'')) w
     else
       upd_fp (fpi_device_close_complete error)
         (upd_fp (noted (Notify_state FPI_IMAGE_DEVICE_STATE_INACTIVE)) (upd_pv (\<lambda>p. p\<lparr>pv_state := FPI_IMAGE_DEVICE_STATE_INACTIVE\<rparr>) w)))"

section \<open>Methods of the device class\<close>

definition fp_image_device_open :: "'a img_device_scheme methods \<Rightarrow> 'a img_device_scheme \<Rightarrow> 'a img_device_scheme option" where
  "fp_image_device_open vt w = vt Img_open w"

definition fp_image_device_close :: "'a img_device_scheme methods \<Rightarrow> 'a img_device_scheme \<Rightarrow> 'a img_device_scheme option" where
  "fp_image_device_close vt w =
    (if pv_active (w_pv w) then Some (upd_fp (noted (Aborted ''close'')) w) else vt Img_close w)"

definition fp_image_device_cancel_action :: "'a img_device_scheme methods \<Rightarrow> 'a img_device_scheme \<Rightarrow> 'a img_device_scheme option" where
  "fp_image_device_cancel_action vt w = (if capture_action (action_of w) then fpi_image_device_deactivate vt True w else Some w)"

definition fp_image_device_start_capture_action ::
  "'a img_device_scheme methods \<Rightarrow> 'a img_device_scheme \<Rightarrow> 'a img_device_scheme option" where
  "fp_image_device_start_capture_action vt w =
    (if action_of w = FPI_DEVICE_ACTION_CAPTURE \<and> \<not> fp_wait_for_finger (w_fp w)
     then Some (upd_fp (fpi_device_action_error (Some (FP_DEVICE_ERROR FP_DEVICE_ERROR_NOT_SUPPORTED))) w)
     else
       let w = (if action_of w = FPI_DEVICE_ACTION_ENROLL then upd_fp (\<lambda>d. d\<lparr>fp_enroll_type_set := True\<rparr>) w else w);
           w = upd_pv (\<lambda>p. p\<lparr>pv_enroll_stage := 0\<rparr>) w
       in if pv_finger_present (w_pv w) then Some (upd_fp (noted (Aborted ''finger_present'')) w)
          else if pv_minutiae_scan_active (w_pv w) then Some (upd_fp (noted (Aborted ''minutiae_scan_active'')) w)
          else fpi_image_device_activate vt w)"

definition BOZORTH3_DEFAULT_THRESHOLD :: int where "BOZORTH3_DEFAULT_THRESHOLD = 40"

text \<open>The zeroed private structure and what construction makes of it; 0 is a field the class did not set.\<close>

definition fp_image_device_constructed :: "int \<Rightarrow> FpiImageDeviceAlgorithm option \<Rightarrow> img_priv" where
  "fp_image_device_constructed bz3_threshold algorithm =
    \<lparr>pv_state = FPI_IMAGE_DEVICE_STATE_INACTIVE, pv_active = False, pv_finger_present = False, pv_enroll_stage = 0,
     pv_minutiae_scan_active = False, pv_action_error = None, pv_capture_image = None,
     pv_bz3_threshold = (if bz3_threshold > 0 then bz3_threshold else BOZORTH3_DEFAULT_THRESHOLD),
     pv_algorithm = (case algorithm of None \<Rightarrow> FPI_DEVICE_ALGO_NBIS | Some a \<Rightarrow> a)\<rparr>"

text \<open>The idle source of a cancellation.\<close>

definition fp_device_cancel_in_idle_cb ::
  "'a img_device_scheme methods \<Rightarrow> 'a img_device_scheme \<Rightarrow> 'a img_device_scheme option" where
  "fp_device_cancel_in_idle_cb vt w =
    (if action_of w = FPI_DEVICE_ACTION_NONE then Some (upd_fp (noted (Aborted ''cancel_in_idle'')) w)
     else do {
       w \<leftarrow> fp_image_device_cancel_action vt (upd_fp (\<lambda>d. d\<lparr>fp_cancel_idle := False\<rparr>) w);
       Some (upd_fp (fpi_device_report_finger_status FP_FINGER_STATUS_NONE) w) })"

end
