(* ===== verification/Gxfp_Driver.thy ===== *)
theory Gxfp_Driver
  imports Image_Device Session_Props
begin

unbundle bit_operations_syntax

text \<open>
  The driver that connects a session to libfprint (\<open>libfprint/drivers/gxfp.c\<close>), and the main loop around it. The driver
  object extends the image device with its session, its timer and the paths it opened, and carries the history of system
  calls. The driver and the image device call each other: a change of state calls a method of the driver, which asks the
  session and reports its events back to the image device, which may change its state again. The table of methods
  \<open>gxfp_vt\<close> ties this knot; it is a partial function, and that it returns is proved in the next theory.
\<close>

section \<open>Data\<close>

record gxfp_device = img_device +
  dr_sess :: gxfp_session
  dr_timer :: "int option"
  dr_dev_path :: "string option"
  dr_psk_path :: "string option"
  dr_h :: uhist

text \<open>The surroundings of the process: the path of the character device from udev and the environment variables.\<close>

record gxfp_setting =
  st_chardev_path :: "string option"
  st_getenv :: "string \<Rightarrow> string option"

definition GXFP_DEFAULT_PSK_PATH :: string where
  "GXFP_DEFAULT_PSK_PATH = ''/var/lib/fprintd/gxfp/psk_raw32.bin''"

definition DEFAULT_ENROLL_SAMPLES :: int where "DEFAULT_ENROLL_SAMPLES = 16"

section \<open>The driver\<close>

definition cancel_scheduled_pump :: "gxfp_device \<Rightarrow> gxfp_device" where
  "cancel_scheduled_pump w = (if dr_timer w = None then w else w\<lparr>dr_timer := None\<rparr>)"

definition free_paths :: "gxfp_device \<Rightarrow> gxfp_device" where
  "free_paths w = w\<lparr>dr_dev_path := None, dr_psk_path := None\<rparr>"

text \<open>\<open>fpi_device_add_timeout\<close> attaches a source; its delay is kept.\<close>

definition schedule_pump_soon :: "int \<Rightarrow> gxfp_device \<Rightarrow> gxfp_device" where
  "schedule_pump_soon delay_ms w = (if dr_timer w \<noteq> None then w else w\<lparr>dr_timer := Some delay_ms\<rparr>)"

text \<open>Sixteen bits become eight; the product is unsigned and has 32 bits.\<close>

definition scale_pixel :: "u16 \<Rightarrow> u8" where
  "scale_pixel p = ucast ((ucast p * 255 :: u32) div 4095)"

definition image_of_pixels :: "gxfp_decoded_image \<Rightarrow> fp_image" where
  "image_of_pixels img = \<lparr>fi_width = im_cols img, fi_height = im_rows img,
     fi_data = map scale_pixel (take (nat (im_rows img) * nat (im_cols img)) (the (im_pixels img)))\<rparr>"

abbreviation general_error :: gerror where
  "general_error \<equiv> FP_DEVICE_ERROR FP_DEVICE_ERROR_GENERAL"

definition emit_image_captured :: "gxfp_device methods \<Rightarrow> gxfp_device \<Rightarrow> gxfp_device option" where
  "emit_image_captured vt w =
    (case gxfp_session_take_image (Some (dr_sess w)) (Some image_zero) of
       (r, s, img) \<Rightarrow>
         let w = w\<lparr>dr_sess := the s\<rparr>
         in if r < 0 then fpi_image_device_session_error vt (Some general_error) w
            else
              let fp_img = image_of_pixels (the img);
                  w = w\<lparr>dr_h := snd (gxfp_decoded_image_free img (dr_h w))\<rparr>
              in fpi_image_device_image_captured vt (Some fp_img) w)"

definition handle_session_events :: "gxfp_device methods \<Rightarrow> gxfp_session_events \<Rightarrow> gxfp_device \<Rightarrow> gxfp_device option" where
  "handle_session_events vt evs w = do {
     let w = (if ev_cancel_tick evs then cancel_scheduled_pump w else w);
     w \<leftarrow> (if ev_finger_status_changed evs then fpi_image_device_report_finger_status vt (ev_finger_present evs) w else Some w);
     w \<leftarrow> (if ev_image_ready evs then emit_image_captured vt w else Some w);
     if ev_session_error evs then
       let w = cancel_scheduled_pump w
       in if ev_error_target evs = GXFP_SESSION_ERR_TARGET_ACTIVATE
          then fpi_image_device_activate_complete vt (Some general_error) w
          else fpi_image_device_session_error vt (Some general_error) w
     else do {
       w \<leftarrow> (if ev_activate_complete evs then fpi_image_device_activate_complete vt None w else Some w);
       w \<leftarrow> (if ev_deactivate_complete evs then fpi_image_device_deactivate_complete vt None (cancel_scheduled_pump w) else Some w);
       let w = (if ev_close_complete evs then fpi_image_device_close_complete None (free_paths (cancel_scheduled_pump w)) else w);
       Some (if ev_request_tick evs then schedule_pump_soon (ev_tick_delay_ms evs) w else w) } }"

text \<open>A call of the session with cleared events; the events it leaves are handled.\<close>

definition with_session ::
  "gxfp_device methods \<Rightarrow>
     (gxfp_session option \<Rightarrow> gxfp_session_events option \<Rightarrow> uhist \<Rightarrow> ((gxfp_session option \<times> gxfp_session_events option) \<times> uhist) option) \<Rightarrow>
     gxfp_device \<Rightarrow> gxfp_device option" where
  "with_session vt call w = do {
     ((s, evs), h) \<leftarrow> call (Some (dr_sess w)) (gxfp_session_events_clear (Some events_zero)) (dr_h w);
     handle_session_events vt (the evs) (w\<lparr>dr_sess := the s, dr_h := h\<rparr>) }"

definition gxfp_pump_timeout_cb :: "uenv \<Rightarrow> tlslib \<Rightarrow> gxfp_device methods \<Rightarrow> gxfp_device \<Rightarrow> gxfp_device option" where
  "gxfp_pump_timeout_cb env lib vt w = do {
     let w = w\<lparr>dr_timer := None\<rparr>;
     let (cancelled, d) = fpi_device_action_is_cancelled (w_fp w);
     w \<leftarrow> with_session vt (\<lambda>s. gxfp_session_pump env lib s cancelled) (w\<lparr>w_fp := d\<rparr>);
     let (stop, d) = fpi_device_action_is_cancelled (w_fp w);
     let w = w\<lparr>w_fp := d\<rparr>;
     if stop then Some w
     else
       (case gxfp_session_poll_readable env (Some (dr_sess w)) 0 (dr_h w) of
          (pr, h) \<Rightarrow>
            let w = w\<lparr>dr_h := h\<rparr>
            in if pr = 0 \<or> pr = - EAGAIN
               then with_session vt (\<lambda>s. gxfp_session_on_fd env lib s GXFP_SESSION_IO_IN cancelled) w
               else Some w) }"

definition gxfp_img_open :: "uenv \<Rightarrow> tlslib \<Rightarrow> gxfp_setting \<Rightarrow> gxfp_device \<Rightarrow> gxfp_device option" where
  "gxfp_img_open env lib cfg w =
    (case st_chardev_path cfg of
       None \<Rightarrow> Some (fpi_image_device_open_complete (Some (G_IO_ERROR G_IO_ERROR_NOT_FOUND)) w)
     | Some chardev_path \<Rightarrow>
         if chardev_path = [] then Some (fpi_image_device_open_complete (Some (G_IO_ERROR G_IO_ERROR_NOT_FOUND)) w)
         else
           let psk_env = (case st_getenv cfg ''FP_GXFP_PSK'' of None \<Rightarrow> GXFP_DEFAULT_PSK_PATH
                          | Some p \<Rightarrow> if p = [] then GXFP_DEFAULT_PSK_PATH else p);
               w = (free_paths w)\<lparr>dr_dev_path := Some chardev_path, dr_psk_path := Some psk_env\<rparr>
           in do {
             ((r, out), h) \<leftarrow> gxfp_read_file_all env (dr_psk_path w) (dr_h w);
             let w = w\<lparr>dr_h := h\<rparr>;
             if r < 0 then Some (fpi_image_device_open_complete (Some (G_IO_ERROR (G_IO_errno (- r)))) w)
             else do {
               let psk_raw = map_option fst out;
               let psk_raw_len = (case out of None \<Rightarrow> 0 | Some (_, n) \<Rightarrow> n);
               ((r, s), h) \<leftarrow> gxfp_session_open env lib (Some (dr_sess w)) (dr_dev_path w) psk_raw psk_raw_len (dr_h w);
               let w = w\<lparr>dr_sess := the s, dr_h := ufree_ptr psk_raw h\<rparr>;
               Some (fpi_image_device_open_complete (if r < 0 then Some (G_IO_ERROR (G_IO_errno (- r))) else None) w) } })"

definition gxfp_img_close :: "uenv \<Rightarrow> gxfp_device methods \<Rightarrow> gxfp_device \<Rightarrow> gxfp_device option" where
  "gxfp_img_close env vt w = with_session vt (\<lambda>s. gxfp_session_request_close env s False) (cancel_scheduled_pump w)"

definition gxfp_activate :: "uenv \<Rightarrow> tlslib \<Rightarrow> gxfp_device methods \<Rightarrow> gxfp_device \<Rightarrow> gxfp_device option" where
  "gxfp_activate env lib vt w = do {
     ((r, s, evs), h) \<leftarrow> gxfp_session_activate env lib (Some (dr_sess w)) (gxfp_session_events_clear (Some events_zero)) (dr_h w);
     w \<leftarrow> handle_session_events vt (the evs) (w\<lparr>dr_sess := the s, dr_h := h\<rparr>);
     Some (if r < 0 then w else schedule_pump_soon 0 w) }"

definition gxfp_deactivate :: "uenv \<Rightarrow> gxfp_device methods \<Rightarrow> gxfp_device \<Rightarrow> gxfp_device option" where
  "gxfp_deactivate env vt w = with_session vt (gxfp_session_request_deactivate env) (cancel_scheduled_pump w)"

fun session_state_of :: "FpiImageDeviceState \<Rightarrow> gxfp_session_state" where
  "session_state_of FPI_IMAGE_DEVICE_STATE_INACTIVE = GXFP_SESSION_STATE_INACTIVE"
| "session_state_of FPI_IMAGE_DEVICE_STATE_ACTIVATING = GXFP_SESSION_STATE_IDLE"
| "session_state_of FPI_IMAGE_DEVICE_STATE_DEACTIVATING = GXFP_SESSION_STATE_IDLE"
| "session_state_of FPI_IMAGE_DEVICE_STATE_IDLE = GXFP_SESSION_STATE_IDLE"
| "session_state_of FPI_IMAGE_DEVICE_STATE_AWAIT_FINGER_ON = GXFP_SESSION_STATE_AWAIT_FINGER_ON"
| "session_state_of FPI_IMAGE_DEVICE_STATE_CAPTURE = GXFP_SESSION_STATE_CAPTURE"
| "session_state_of FPI_IMAGE_DEVICE_STATE_AWAIT_FINGER_OFF = GXFP_SESSION_STATE_AWAIT_FINGER_OFF"

definition gxfp_change_state :: "uenv \<Rightarrow> gxfp_device methods \<Rightarrow> FpiImageDeviceState \<Rightarrow> gxfp_device \<Rightarrow> gxfp_device option" where
  "gxfp_change_state env vt state w = with_session vt (\<lambda>s. gxfp_session_change_state env s (session_state_of state)) w"

subsection \<open>The table of methods\<close>

definition fpi_device_gxfp_class ::
  "uenv \<Rightarrow> tlslib \<Rightarrow> gxfp_setting \<Rightarrow> gxfp_device methods \<Rightarrow> gxfp_device methods" where
  "fpi_device_gxfp_class env lib cfg vt m w =
    (case m of
       Img_open \<Rightarrow> gxfp_img_open env lib cfg w
     | Img_close \<Rightarrow> gxfp_img_close env vt w
     | Activate \<Rightarrow> gxfp_activate env lib vt w
     | Change_state state \<Rightarrow> gxfp_change_state env vt state w
     | Deactivate \<Rightarrow> gxfp_deactivate env vt w)"

lemma mono_change_state [partial_function_mono]:
  "(\<And>m w. mono_option (\<lambda>f. V f m w)) \<Longrightarrow> mono_option (\<lambda>f. fp_image_device_change_state (V f) st w)"
  unfolding fp_image_device_change_state_def by (intro bind_mono option.const_mono)

lemma mono_deactivate [partial_function_mono]:
  "(\<And>m w. mono_option (\<lambda>f. V f m w)) \<Longrightarrow> mono_option (\<lambda>f. fpi_image_device_deactivate (V f) c w)"
  unfolding fpi_image_device_deactivate_def Let_def by (intro bind_mono if_mono mono_change_state option.const_mono)

lemma mono_await [partial_function_mono]:
  "(\<And>m w. mono_option (\<lambda>f. V f m w)) \<Longrightarrow> mono_option (\<lambda>f. fp_image_device_enroll_maybe_await_finger_on (V f) w)"
  unfolding fp_image_device_enroll_maybe_await_finger_on_def by (intro if_mono mono_change_state option.const_mono)

lemma mono_finger [partial_function_mono]:
  "(\<And>m w. mono_option (\<lambda>f. V f m w)) \<Longrightarrow> mono_option (\<lambda>f. fpi_image_device_report_finger_status (V f) p w)"
  unfolding fpi_image_device_report_finger_status_def Let_def
  by (intro bind_mono if_mono mono_change_state mono_deactivate mono_await option.const_mono)

lemma mono_captured [partial_function_mono]:
  "(\<And>m w. mono_option (\<lambda>f. V f m w)) \<Longrightarrow> mono_option (\<lambda>f. fpi_image_device_image_captured (V f) (Some i) w)"
  unfolding fpi_image_device_image_captured_def option.case by (intro if_mono mono_change_state option.const_mono)

lemma mono_activated [partial_function_mono]:
  "(\<And>m w. mono_option (\<lambda>f. V f m w)) \<Longrightarrow> mono_option (\<lambda>f. fpi_image_device_activate_complete (V f) e w)"
  unfolding fpi_image_device_activate_complete_def by (intro bind_mono if_mono mono_change_state option.const_mono)

lemma mono_session_error [partial_function_mono]:
  "(\<And>m w. mono_option (\<lambda>f. V f m w)) \<Longrightarrow> mono_option (\<lambda>f. fpi_image_device_session_error (V f) e w)"
  unfolding fpi_image_device_session_error_def Let_def by (intro if_mono mono_activated mono_deactivate option.const_mono)

lemma mono_deactivated [partial_function_mono]:
  "(\<And>m w. mono_option (\<lambda>f. V f m w)) \<Longrightarrow> mono_option (\<lambda>f. fpi_image_device_deactivate_complete (V f) e w)"
  unfolding fpi_image_device_deactivate_complete_def by (intro bind_mono if_mono mono_change_state option.const_mono)

lemma mono_emit [partial_function_mono]:
  "(\<And>m w. mono_option (\<lambda>f. V f m w)) \<Longrightarrow> mono_option (\<lambda>f. emit_image_captured (V f) w)"
  unfolding emit_image_captured_def Let_def
  by (cases "gxfp_session_take_image (Some (dr_sess w)) (Some image_zero)")
     (simp only: prod.case, intro if_mono mono_session_error mono_captured)

lemma mono_handle [partial_function_mono]:
  "(\<And>m w. mono_option (\<lambda>f. V f m w)) \<Longrightarrow> mono_option (\<lambda>f. handle_session_events (V f) e w)"
  unfolding handle_session_events_def Let_def
  by (intro bind_mono if_mono mono_finger mono_emit mono_activated mono_session_error mono_deactivated option.const_mono)

lemma mono_with_session [partial_function_mono]:
  assumes "\<And>m w. mono_option (\<lambda>f. V f m w)"
  shows "mono_option (\<lambda>f. with_session (V f) c w)"
  unfolding with_session_def by (intro bind_mono option.const_mono) (auto split: prod.split intro!: mono_handle assms)

lemma mono_class [partial_function_mono]:
  assumes "\<And>m w. mono_option (\<lambda>f. V f m w)"
  shows "mono_option (\<lambda>f. fpi_device_gxfp_class env lib cfg (V f) m w)"
proof -
  have "mono_option (\<lambda>f. gxfp_activate env lib (V f) w)"
    unfolding gxfp_activate_def by (intro bind_mono option.const_mono) (auto split: prod.split intro!: bind_mono mono_handle assms option.const_mono)
  then show ?thesis
    using mono_with_session [OF assms] option.const_mono
    by (cases m) (simp_all add: fpi_device_gxfp_class_def gxfp_img_close_def gxfp_change_state_def gxfp_deactivate_def)
qed

partial_function (option) gxfp_vt :: "uenv \<Rightarrow> tlslib \<Rightarrow> gxfp_setting \<Rightarrow> img_method \<Rightarrow> gxfp_device \<Rightarrow> gxfp_device option" where
  "gxfp_vt env lib cfg m w = fpi_device_gxfp_class env lib cfg (gxfp_vt env lib cfg) m w"

section \<open>The main loop\<close>

text \<open>The object: zeroed private parts, a session that may have no implementation yet. \<open>fp_returns\<close> and \<open>w_scans\<close> are empty.\<close>

definition fp_device_new :: fp_device where
  "fp_device_new = \<lparr>fp_is_open = False, fp_action = FPI_DEVICE_ACTION_NONE, fp_task = False, fp_cancelled = False,
     fp_cancel_handlers = False, fp_cancel_idle = False, fp_cancel_reason = None, fp_returns = [], fp_wait_for_finger = False,
     fp_finger_status = FP_FINGER_STATUS_NONE, fp_nr_enroll_stages = DEFAULT_ENROLL_SAMPLES, fp_enroll_type_set = False, fp_enroll_prints = 0,
     fp_match = fresh_match_data 0, fp_is_suspended = False, fp_suspend_resume_task = False, fp_suspend_error = None,
     fp_on_completed = [], fp_log = []\<rparr>"

definition fpi_device_gxfp_init :: "uenv \<Rightarrow> uhist \<Rightarrow> gxfp_device" where
  "fpi_device_gxfp_init env h =
    (case gxfp_session_init env (Some \<lparr>se_impl = None\<rparr>) h of
       (s, h) \<Rightarrow>
         \<lparr>w_fp = fp_device_new, w_pv = fp_image_device_constructed 0 (Some FPI_DEVICE_ALGO_SIGFM), w_scans = [],
          dr_sess = the s, dr_timer = None, dr_dev_path = None, dr_psk_path = None, dr_h = h\<rparr>)"

definition fpi_device_gxfp_dispose :: "gxfp_device \<Rightarrow> gxfp_device" where
  "fpi_device_gxfp_dispose w =
    (let w = cancel_scheduled_pump w
     in (case gxfp_session_dispose (Some (dr_sess w)) (dr_h w) of
           (s, h) \<Rightarrow> free_paths (w\<lparr>dr_sess := the s, dr_h := h\<rparr>)))"

text \<open>What the main loop can run next: a request of the application or of the power management, a cancellation by it or by the temperature model, and
  the sources that are attached.\<close>

datatype dispatch =
    Do_open bool | Do_close bool | Do_enroll bool template_print bool | Do_verify bool bool | Do_identify bool "nat option" bool
  | Do_capture bool bool bool | Do_delete bool | Do_list bool | Do_clear_storage bool | Do_suspend | Do_resume | Do_cancel | Do_too_hot
  | On_cancel | On_timer | On_scan scan_result | On_return

definition start ::
  "(fp_device \<Rightarrow> bool \<times> fp_device) \<Rightarrow> (gxfp_device \<Rightarrow> gxfp_device option) \<Rightarrow> gxfp_device \<Rightarrow> gxfp_device option" where
  "start request method w =
    (case request (w_fp w) of (go, d) \<Rightarrow> if go then method (w\<lparr>w_fp := d\<rparr>) else Some (w\<lparr>w_fp := d\<rparr>))"

definition dispatch :: "uenv \<Rightarrow> tlslib \<Rightarrow> gxfp_setting \<Rightarrow> dispatch \<Rightarrow> gxfp_device \<Rightarrow> gxfp_device option" where
  "dispatch env lib cfg c w =
    (let vt = gxfp_vt env lib cfg; capture = fp_image_device_start_capture_action vt
     in (case c of
           Do_open cancelled \<Rightarrow> start (fp_device_open cancelled) (fp_image_device_open vt) w
         | Do_close cancelled \<Rightarrow> start (fp_device_close cancelled) (fp_image_device_close vt) w
         | Do_enroll cancelled print hot \<Rightarrow> start (fp_device_enroll cancelled print hot) capture w
         | Do_verify cancelled hot \<Rightarrow> start (fp_device_verify cancelled hot) capture w
         | Do_identify cancelled prints hot \<Rightarrow> start (fp_device_identify cancelled prints hot) capture w
         | Do_capture cancelled wait hot \<Rightarrow> start (fp_device_capture cancelled wait hot) capture w
         | Do_delete cancelled \<Rightarrow> Some (upd_fp (fp_device_delete_print cancelled) w)
         | Do_list cancelled \<Rightarrow> Some (upd_fp (fp_device_list_prints cancelled) w)
         | Do_clear_storage cancelled \<Rightarrow> Some (upd_fp (fp_device_clear_storage cancelled) w)
         | Do_suspend \<Rightarrow> Some (upd_fp fp_device_suspend w)
         | Do_resume \<Rightarrow> Some (upd_fp fp_device_resume w)
         | Do_cancel \<Rightarrow> Some (upd_fp fp_device_task_cancelled_cb w)
         | Do_too_hot \<Rightarrow> Some (upd_fp temperature_cancels w)
         | On_cancel \<Rightarrow> if fp_cancel_idle (w_fp w) then fp_device_cancel_in_idle_cb vt w else Some w
         | On_timer \<Rightarrow> if dr_timer w \<noteq> None then gxfp_pump_timeout_cb env lib vt w else Some w
         | On_scan scan \<Rightarrow>
             (case w_scans w of
                [] \<Rightarrow> Some w
              | img # rest \<Rightarrow> fpi_image_device_minutiae_detected vt img scan (w\<lparr>w_scans := rest\<rparr>))
         | On_return \<Rightarrow>
             (case rev (fp_returns (w_fp w)) of
                [] \<Rightarrow> Some w
              | r # rest \<Rightarrow> Some (upd_fp (\<lambda>d. fp_device_task_return_in_idle_cb r (d\<lparr>fp_returns := rev rest\<rparr>)) w))))"

fun dispatches :: "uenv \<Rightarrow> tlslib \<Rightarrow> gxfp_setting \<Rightarrow> dispatch list \<Rightarrow> gxfp_device \<Rightarrow> gxfp_device option" where
  "dispatches env lib cfg [] w = Some w"
| "dispatches env lib cfg (c # cs) w =
    (case dispatch env lib cfg c w of None \<Rightarrow> None | Some w \<Rightarrow> dispatches env lib cfg cs w)"

end
