(* ===== verification/Image_Contract.thy ===== *)
theory Image_Contract
  imports Image_Device
begin

text \<open>
  What the image device class needs of a driver, as a locale, and what it guarantees for every driver that keeps this
  contract: every report of the driver returns, an action that has begun is completed at most once and leaves nothing
  behind, and the state machine only takes transitions of its table.
\<close>

section \<open>Frames\<close>

text \<open>Notices that a report of the driver may leave. An action after a failed activation starts in the state that failure left,
  which the class announces as a transition outside its table.\<close>

fun harmless :: "notice \<Rightarrow> bool" where
  "harmless (Aborted _) = False"
| "harmless (Bad_transition a b) = (a = FPI_IMAGE_DEVICE_STATE_ACTIVATING \<and> b = FPI_IMAGE_DEVICE_STATE_ACTIVATING)"
| "harmless (Started _) = False"
| "harmless (Task_returned _ _) = False"
| "harmless (Power_started _) = False"
| "harmless (Power_returned _) = False"
| "harmless _ = True"

text \<open>The part that suspending and resuming own, and the reason for a cancellation, which they and the temperature model give.\<close>

definition power :: "fp_device \<Rightarrow> bool \<times> bool \<times> gerror option \<times> completed_handler list \<times> gerror option" where
  "power d = (fp_is_suspended d, fp_suspend_resume_task d, fp_suspend_error d, fp_on_completed d, fp_cancel_reason d)"

lemma power_upd [simp]:
  "power (d\<lparr>fp_action := x1\<rparr>) = power d" "power (d\<lparr>fp_task := x2\<rparr>) = power d" "power (d\<lparr>fp_is_open := x3\<rparr>) = power d"
  "power (d\<lparr>fp_cancelled := x4\<rparr>) = power d" "power (d\<lparr>fp_cancel_handlers := x5\<rparr>) = power d" "power (d\<lparr>fp_cancel_idle := x6\<rparr>) = power d"
  "power (d\<lparr>fp_returns := x8\<rparr>) = power d" "power (d\<lparr>fp_wait_for_finger := x9\<rparr>) = power d"
  "power (d\<lparr>fp_finger_status := x10\<rparr>) = power d" "power (d\<lparr>fp_enroll_type_set := x11\<rparr>) = power d" "power (d\<lparr>fp_enroll_prints := x12\<rparr>) = power d"
  "power (d\<lparr>fp_match := x13\<rparr>) = power d" "power (d\<lparr>fp_log := x14\<rparr>) = power d"
  by (simp_all add: power_def)

definition keeps :: "fp_device \<Rightarrow> fp_device \<Rightarrow> bool" where
  "keeps d d' \<longleftrightarrow> fp_action d' = fp_action d \<and> fp_task d' = fp_task d \<and> fp_is_open d' = fp_is_open d \<and> fp_cancelled d' = fp_cancelled d \<and>
     power d' = power d \<and>
     (\<exists>xs. fp_log d' = xs @ fp_log d \<and> list_all harmless xs)"

definition steady :: "fp_device \<Rightarrow> fp_device \<Rightarrow> bool" where
  "steady d d' \<longleftrightarrow> keeps d d' \<and> fp_returns d' = fp_returns d \<and> fp_cancel_idle d' = fp_cancel_idle d \<and>
     fp_cancel_handlers d' = fp_cancel_handlers d"

definition completes :: "fp_device \<Rightarrow> fp_device \<Rightarrow> bool" where
  "completes d d' \<longleftrightarrow> keeps d d' \<and> (\<exists>r. fp_returns d' = r # fp_returns d) \<and> \<not> fp_cancel_idle d' \<and> \<not> fp_cancel_handlers d'"

lemma keeps_refl [simp, intro]: "keeps d d"
  by (simp add: keeps_def)

lemma keeps_trans: "keeps d d1 \<Longrightarrow> keeps d1 d2 \<Longrightarrow> keeps d d2"
  unfolding keeps_def by (metis append.assoc list_all_append)

lemma steady_refl [simp, intro]: "steady d d"
  by (simp add: steady_def)

lemma steady_trans: "steady d d1 \<Longrightarrow> steady d1 d2 \<Longrightarrow> steady d d2"
  unfolding steady_def using keeps_trans by auto

lemma steady_completes: "steady d d1 \<Longrightarrow> completes d1 d2 \<Longrightarrow> completes d d2"
  unfolding steady_def completes_def using keeps_trans by auto

lemma completes_steady: "completes d d1 \<Longrightarrow> steady d1 d2 \<Longrightarrow> completes d d2"
  unfolding steady_def completes_def using keeps_trans by auto

lemma steady_noted: "harmless n \<Longrightarrow> steady d (noted n d)"
  by (simp add: steady_def keeps_def noted_def)

lemma steady_noted_trans: "steady d d' \<Longrightarrow> harmless n \<Longrightarrow> steady d (noted n d')"
  by (rule steady_trans [OF _ steady_noted])

lemma steady_match: "steady d d' \<Longrightarrow> steady d (d'\<lparr>fp_match := m\<rparr>)"
  by (simp add: steady_def keeps_def)

lemma steady_finger [simp, intro]:
  "steady d (fpi_device_report_finger_status x d)" "steady d (fpi_device_report_finger_status_changes a b d)"
  by (simp_all add: fpi_device_report_finger_status_changes_def fpi_device_report_finger_status_def steady_def keeps_def noted_def)

lemma steady_progress [simp, intro]: "steady d (fpi_device_enroll_progress n p e d)"
  by (simp add: fpi_device_enroll_progress_def Let_def steady_def keeps_def noted_def)

lemma steady_callback: "steady d d' \<Longrightarrow> steady d (match_callback b d')"
  by (simp add: match_callback_def steady_noted_trans)

lemma steady_verify [simp, intro]: "steady d (fpi_device_verify_report r p e d)"
  unfolding fpi_device_verify_report_def Let_def
  by (simp add: steady_noted steady_callback steady_noted_trans steady_match split: option.split)

lemma steady_identify [simp, intro]: "steady d (fpi_device_identify_report m p e d)"
  unfolding fpi_device_identify_report_def Let_def
  by (simp add: steady_noted steady_callback steady_noted_trans steady_match split: option.split)

lemma completes_return: "keeps d d' \<Longrightarrow> fp_returns d' = fp_returns d \<Longrightarrow> \<not> fp_cancel_idle d' \<Longrightarrow> \<not> fp_cancel_handlers d' \<Longrightarrow>
  completes d (fpi_device_return_task_in_idle r d')"
  by (simp add: completes_def fpi_device_return_task_in_idle_def keeps_def)

lemma complete_begin_facts:
  "keeps d (complete_begin d)" "fp_returns (complete_begin d) = fp_returns d" "\<not> fp_cancel_idle (complete_begin d)"
  "\<not> fp_cancel_handlers (complete_begin d)" "fp_match (complete_begin d) = fp_match d" "fp_enroll_type_set (complete_begin d) = fp_enroll_type_set d"
  by (simp_all add: complete_begin_def clear_device_cancel_action_def fpi_device_report_finger_status_def keeps_def noted_def)

lemma completes_begin:
  "steady (complete_begin d) d' \<Longrightarrow> completes d (fpi_device_return_task_in_idle r d')"
  using completes_return keeps_trans [OF complete_begin_facts(1)] complete_begin_facts(2-4) by (simp add: steady_def)

lemma completes_match: "completes d (match_complete v e d)"
  unfolding match_complete_def Let_def
  by (simp add: completes_begin steady_noted steady_match split: option.split)

lemma completes_enroll: "fp_action d = FPI_DEVICE_ACTION_ENROLL \<Longrightarrow> completes d (fpi_device_enroll_complete p e d)"
  by (auto simp: fpi_device_enroll_complete_def Let_def split: option.split
      intro!: completes_begin completes_steady [OF _ steady_noted] steady_noted)

lemma completes_capture: "fp_action d = FPI_DEVICE_ACTION_CAPTURE \<Longrightarrow> completes d (fpi_device_capture_complete i e d)"
  by (auto simp: fpi_device_capture_complete_def Let_def split: option.split
      intro!: completes_begin completes_steady [OF _ steady_noted] steady_noted)

lemma completes_verify: "fp_action d = FPI_DEVICE_ACTION_VERIFY \<Longrightarrow> completes d (fpi_device_verify_complete e d)"
  by (simp add: fpi_device_verify_complete_def completes_match)

lemma completes_identify: "fp_action d = FPI_DEVICE_ACTION_IDENTIFY \<Longrightarrow> completes d (fpi_device_identify_complete e d)"
  by (simp add: fpi_device_identify_complete_def completes_match)

lemmas completes_rules = completes_enroll completes_capture completes_verify completes_identify

lemma completes_error: "capture_action (fp_action d) \<Longrightarrow> completes d (fpi_device_action_error (Some e) d)"
  by (auto simp: fpi_device_action_error_def Let_def capture_action_def intro: completes_rules)

section \<open>Phases of an action\<close>

text \<open>The part of an object that the classes own.\<close>

definition same_class :: "'a img_device_scheme \<Rightarrow> 'a img_device_scheme \<Rightarrow> bool" where
  "same_class w w' \<longleftrightarrow> w_fp w' = w_fp w \<and> w_pv w' = w_pv w \<and> w_scans w' = w_scans w"

text \<open>A capture action is under way and not yet completed; a scan is pending exactly when the device says so.\<close>

definition acting :: "'a img_device_scheme \<Rightarrow> bool" where
  "acting w \<longleftrightarrow> capture_action (action_of w) \<and> fp_returns (w_fp w) = [] \<and>
     length (w_scans w) = (if pv_minutiae_scan_active (w_pv w) then 1 else 0)"

definition working_states :: "FpiImageDeviceState set" where
  "working_states = {FPI_IMAGE_DEVICE_STATE_IDLE, FPI_IMAGE_DEVICE_STATE_AWAIT_FINGER_ON, FPI_IMAGE_DEVICE_STATE_CAPTURE,
     FPI_IMAGE_DEVICE_STATE_AWAIT_FINGER_OFF}"

definition quiet_states :: "FpiImageDeviceState set" where
  "quiet_states = {FPI_IMAGE_DEVICE_STATE_INACTIVE, FPI_IMAGE_DEVICE_STATE_ACTIVATING, FPI_IMAGE_DEVICE_STATE_DEACTIVATING,
     FPI_IMAGE_DEVICE_STATE_IDLE}"

definition loud_states :: "FpiImageDeviceState set" where
  "loud_states = {FPI_IMAGE_DEVICE_STATE_AWAIT_FINGER_ON, FPI_IMAGE_DEVICE_STATE_CAPTURE, FPI_IMAGE_DEVICE_STATE_AWAIT_FINGER_OFF}"

text \<open>The device is inactive again and nothing of the action is left but its result.\<close>

definition calm :: "'a img_device_scheme \<Rightarrow> bool" where
  "calm w \<longleftrightarrow> \<not> pv_active (w_pv w) \<and> \<not> pv_finger_present (w_pv w) \<and> \<not> pv_minutiae_scan_active (w_pv w) \<and>
     pv_action_error (w_pv w) = None \<and> w_scans w = [] \<and>
     state_of w \<in> {FPI_IMAGE_DEVICE_STATE_INACTIVE, FPI_IMAGE_DEVICE_STATE_ACTIVATING}"

definition finished :: "'a img_device_scheme \<Rightarrow> bool" where
  "finished w \<longleftrightarrow> calm w \<and> length (fp_returns (w_fp w)) = 1 \<and> \<not> fp_cancel_idle (w_fp w) \<and> \<not> fp_cancel_handlers (w_fp w)"

text \<open>The device is inactive, but the features of the last image are still being extracted.\<close>

definition waiting :: "'a img_device_scheme \<Rightarrow> bool" where
  "waiting w \<longleftrightarrow> acting w \<and> \<not> pv_active (w_pv w) \<and> \<not> pv_finger_present (w_pv w) \<and> pv_minutiae_scan_active (w_pv w) \<and>
     state_of w = FPI_IMAGE_DEVICE_STATE_INACTIVE"

text \<open>\<open>good\<close> says what the driver owes in a state; in the inactive one, that it is at rest.\<close>

definition ended :: "(FpiImageDeviceState \<Rightarrow> 'a img_device_scheme \<Rightarrow> bool) \<Rightarrow> 'a img_device_scheme \<Rightarrow> bool" where
  "ended good w \<longleftrightarrow> good FPI_IMAGE_DEVICE_STATE_INACTIVE w \<and> state_of w = FPI_IMAGE_DEVICE_STATE_INACTIVE \<and> (finished w \<or> waiting w)"

lemma enter_state_sel [simp]:
  "w_pv (enter_state st w) = (w_pv w)\<lparr>pv_state := st\<rparr>" "w_scans (enter_state st w) = w_scans w"
  "img_device.more (enter_state st w) = img_device.more w"
  by (simp_all add: enter_state_def Let_def upd_fp_def upd_pv_def)

lemma enter_state_steady: "(state_of w, st) \<in> set valid_transitions \<Longrightarrow> steady (w_fp w) (w_fp (enter_state st w))"
  by (simp add: enter_state_def upd_fp_def upd_pv_def steady_noted)

lemma upd_sel [simp]:
  "w_fp (upd_fp f w) = f (w_fp w)" "w_pv (upd_fp f w) = w_pv w" "w_scans (upd_fp f w) = w_scans w"
  "w_fp (upd_pv g w) = w_fp w" "w_pv (upd_pv g w) = g (w_pv w)" "w_scans (upd_pv g w) = w_scans w"
  "img_device.more (upd_fp f w) = img_device.more w" "img_device.more (upd_pv g w) = img_device.more w"
  by (simp_all add: upd_fp_def upd_pv_def)

subsection \<open>Completing the action\<close>

lemma keep_error_sel [simp]:
  "pv_active (w_pv (keep_error e w)) = pv_active (w_pv w)" "pv_state (w_pv (keep_error e w)) = pv_state (w_pv w)"
  "pv_finger_present (w_pv (keep_error e w)) = pv_finger_present (w_pv w)"
  "pv_minutiae_scan_active (w_pv (keep_error e w)) = pv_minutiae_scan_active (w_pv w)"
  "pv_enroll_stage (w_pv (keep_error e w)) = pv_enroll_stage (w_pv w)"
  "w_scans (keep_error e w) = w_scans w" "img_device.more (keep_error e w) = img_device.more w"
  by (simp_all add: keep_error_def split: option.split)

lemma keep_error_steady [simp, intro]: "steady (w_fp w) (w_fp (keep_error e w))"
  by (simp add: keep_error_def steady_noted split: option.split)

lemma maybe_complete_pending:
  "pv_active (w_pv w) \<or> pv_minutiae_scan_active (w_pv w) \<Longrightarrow> fp_image_device_maybe_complete_action e w = keep_error e w"
  by (auto simp: fp_image_device_maybe_complete_action_def Let_def)

lemma maybe_complete_more [simp]:
  "img_device.more (fp_image_device_maybe_complete_action e w) = img_device.more w"
  "state_of (fp_image_device_maybe_complete_action e w) = state_of w"
  by (auto simp: fp_image_device_maybe_complete_action_def report_result_def Let_def split: option.split FpiDeviceAction.split)

lemma report_result_completes:
  "capture_action (action_of w) \<Longrightarrow> completes (w_fp w) (w_fp (report_result w)) \<and> w_scans (report_result w) = w_scans w \<and>
     (\<exists>i. w_pv (report_result w) = (w_pv w)\<lparr>pv_capture_image := i\<rparr>)"
  by (auto simp: capture_action_def report_result_def intro!: completes_rules)
     (metis img_priv.surjective img_priv.update_convs(7))+

lemma maybe_complete_finishes:
  assumes "acting w" "\<not> pv_active (w_pv w)" "\<not> pv_minutiae_scan_active (w_pv w)" "\<not> pv_finger_present (w_pv w)"
    "state_of w \<in> {FPI_IMAGE_DEVICE_STATE_INACTIVE, FPI_IMAGE_DEVICE_STATE_ACTIVATING}"
  shows "finished (fp_image_device_maybe_complete_action e w)" "completes (w_fp w) (w_fp (fp_image_device_maybe_complete_action e w))"
proof -
  define w1 where "w1 = keep_error e w"
  define w2 where "w2 = (if pv_action_error (w_pv w1) = None \<and> fp_cancelled (w_fp w1)
     then upd_pv (\<lambda>p. p\<lparr>pv_action_error := Some (G_IO_ERROR G_IO_ERROR_CANCELLED)\<rparr>) w1 else w1)"
  have off: "\<not> (pv_active (w_pv w1) \<or> pv_minutiae_scan_active (w_pv w1))" using assms(2,3) by (simp add: w1_def)
  have st: "steady (w_fp w) (w_fp w2)" by (simp add: w2_def w1_def)
  have a: "capture_action (action_of w2)" using st assms(1) by (simp add: acting_def steady_def keeps_def)
  have eq: "fp_image_device_maybe_complete_action e w = (case pv_action_error (w_pv w2) of
      Some e \<Rightarrow> upd_pv (\<lambda>p. p\<lparr>pv_action_error := None, pv_capture_image := None\<rparr>) (upd_fp (fpi_device_action_error (Some e)) w2)
    | None \<Rightarrow> report_result w2)"
    unfolding fp_image_device_maybe_complete_action_def Let_def w1_def [symmetric] w2_def [symmetric] if_not_P [OF off] by (rule refl)
  have pv: "pv_active (w_pv w2) = pv_active (w_pv w)" "state_of w2 = state_of w" "pv_finger_present (w_pv w2) = pv_finger_present (w_pv w)"
    "pv_minutiae_scan_active (w_pv w2) = pv_minutiae_scan_active (w_pv w)" "w_scans w2 = w_scans w"
    by (simp_all add: w2_def w1_def)
  have c: "completes (w_fp w2) (w_fp (fp_image_device_maybe_complete_action e w)) \<and> calm (fp_image_device_maybe_complete_action e w)"
    using report_result_completes [OF a] completes_error [OF a] assms pv unfolding eq
    by (auto simp: calm_def acting_def split: option.split)
  show cc: "completes (w_fp w) (w_fp (fp_image_device_maybe_complete_action e w))" using steady_completes [OF st] c by simp
  show "finished (fp_image_device_maybe_complete_action e w)" using c cc assms(1) by (auto simp: finished_def completes_def acting_def)
qed

text \<open>An active device at work.\<close>

definition running :: "(FpiImageDeviceState \<Rightarrow> 'a img_device_scheme \<Rightarrow> bool) \<Rightarrow> 'a img_device_scheme \<Rightarrow> bool" where
  "running good w \<longleftrightarrow> acting w \<and> pv_active (w_pv w) \<and> state_of w \<in> working_states \<and> good (state_of w) w \<and>
     (pv_finger_present (w_pv w) \<longleftrightarrow> state_of w \<in> {FPI_IMAGE_DEVICE_STATE_CAPTURE, FPI_IMAGE_DEVICE_STATE_AWAIT_FINGER_OFF}) \<and>
     (pv_minutiae_scan_active (w_pv w) \<longrightarrow> state_of w \<in> {FPI_IMAGE_DEVICE_STATE_AWAIT_FINGER_OFF, FPI_IMAGE_DEVICE_STATE_IDLE}) \<and>
     (state_of w = FPI_IMAGE_DEVICE_STATE_IDLE \<longrightarrow> pv_minutiae_scan_active (w_pv w) \<and> action_of w = FPI_DEVICE_ACTION_ENROLL)"

text \<open>A device that is being activated.\<close>

definition starting :: "'a img_device_scheme \<Rightarrow> bool" where
  "starting w \<longleftrightarrow> acting w \<and> calm w \<and> state_of w = FPI_IMAGE_DEVICE_STATE_ACTIVATING"

definition settled :: "(FpiImageDeviceState \<Rightarrow> 'a img_device_scheme \<Rightarrow> bool) \<Rightarrow> 'a img_device_scheme \<Rightarrow> 'a img_device_scheme \<Rightarrow> bool" where
  "settled good w w' \<longleftrightarrow> keeps (w_fp w) (w_fp w') \<and> (ended good w' \<or> running good w')"

text \<open>The extraction of features has just ended.\<close>

definition scan_over :: "(FpiImageDeviceState \<Rightarrow> 'a img_device_scheme \<Rightarrow> bool) \<Rightarrow> 'a img_device_scheme \<Rightarrow> bool" where
  "scan_over good w \<longleftrightarrow> acting w \<and> \<not> pv_minutiae_scan_active (w_pv w) \<and> good (state_of w) w \<and>
     (if pv_active (w_pv w)
      then (state_of w = FPI_IMAGE_DEVICE_STATE_AWAIT_FINGER_OFF \<and> pv_finger_present (w_pv w) \<or>
        state_of w = FPI_IMAGE_DEVICE_STATE_IDLE \<and> action_of w = FPI_DEVICE_ACTION_ENROLL \<and> \<not> pv_finger_present (w_pv w))
      else state_of w = FPI_IMAGE_DEVICE_STATE_INACTIVE \<and> \<not> pv_finger_present (w_pv w))"

text \<open>The one end of an extraction the class cannot cope with. A failure of the session deactivates the device and leaves the
  extraction to complete the action; if the action is an enrolment, and the extraction has neither been cancelled nor failed for good nor
  given the last of the stages, the class goes on to the next finger, of a device that is inactive.\<close>

definition orphaning :: "scan_result \<Rightarrow> 'a img_device_scheme \<Rightarrow> bool" where
  "orphaning scan w \<longleftrightarrow> action_of w = FPI_DEVICE_ACTION_ENROLL \<and> \<not> pv_active (w_pv w) \<and>
     sc_finish scan \<noteq> Some (G_IO_ERROR G_IO_ERROR_CANCELLED) \<and>
     \<not> (sc_finish scan = None \<and> sc_add scan \<noteq> None \<and> \<not> in_retry_domain (the (sc_add scan))) \<and>
     pv_enroll_stage (w_pv w) + (if sc_finish scan = None \<and> sc_add scan = None then 1 else 0) \<noteq> fp_nr_enroll_stages (w_fp w)"

section \<open>The contract of a driver\<close>

text \<open>\<open>ok\<close> is an invariant of the driver's part of the object, \<open>healthy\<close> says that it has not failed, \<open>good\<close> that it does what a
  state asks for. The methods for the quiet states touch nothing but the driver's part. Those for the loud states bring a
  healthy driver into line with the state, or report an error of the session; a driver that has failed ignores them. Activation is under way or has failed.
  Deactivation ends with the report of its completion, and the driver is then at rest.\<close>

locale image_driver =
  fixes vt :: "'a img_device_scheme methods"
    and ok :: "'a img_device_scheme \<Rightarrow> bool"
    and healthy :: "'a img_device_scheme \<Rightarrow> bool"
    and good :: "FpiImageDeviceState \<Rightarrow> 'a img_device_scheme \<Rightarrow> bool"
  assumes own_part: "img_device.more w' = img_device.more w \<Longrightarrow> ok w' = ok w \<and> healthy w' = healthy w \<and> good st w' = good st w"
    and good_healthy: "good st w \<Longrightarrow> st \<noteq> FPI_IMAGE_DEVICE_STATE_INACTIVE \<Longrightarrow> healthy w"
    and quiet: "ok w \<Longrightarrow> st \<in> quiet_states \<Longrightarrow>
      \<exists>w'. vt (Change_state st) w = Some w' \<and> ok w' \<and> same_class w w' \<and>
        (healthy w \<longrightarrow> healthy w' \<and> (st = FPI_IMAGE_DEVICE_STATE_IDLE \<longrightarrow> good st w')) \<and> (\<not> healthy w \<longrightarrow> \<not> healthy w') \<and>
        (st = FPI_IMAGE_DEVICE_STATE_INACTIVE \<and> good st w \<longrightarrow> good st w')"
    and loud: "ok w \<Longrightarrow> st \<in> loud_states \<Longrightarrow> healthy w \<Longrightarrow>
      \<exists>w'. ok w' \<and> same_class w w' \<and>
        (vt (Change_state st) w = Some w' \<and> good st w' \<or>
         (\<exists>e. vt (Change_state st) w = fpi_image_device_session_error vt (Some (FP_DEVICE_ERROR e)) w'))"
    and failed: "ok w \<Longrightarrow> st \<in> loud_states \<Longrightarrow> \<not> healthy w \<Longrightarrow>
      \<exists>w'. vt (Change_state st) w = Some w' \<and> ok w' \<and> \<not> healthy w' \<and> same_class w w'"
    and activation: "ok w \<Longrightarrow> \<exists>w'. ok w' \<and> same_class w w' \<and>
        (vt Activate w = Some w' \<and> good FPI_IMAGE_DEVICE_STATE_ACTIVATING w' \<or>
         good FPI_IMAGE_DEVICE_STATE_INACTIVE w' \<and> (\<exists>e. vt Activate w = fpi_image_device_activate_complete vt (Some e) w'))"
    and deactivation: "ok w \<Longrightarrow> \<exists>w'. vt Deactivate w = fpi_image_device_deactivate_complete vt None w' \<and> ok w' \<and> same_class w w' \<and>
        good FPI_IMAGE_DEVICE_STATE_INACTIVE w'"
begin

lemma own_part_upd [simp]:
  "ok (enter_state st w) = ok w" "healthy (enter_state st w) = healthy w" "good s (enter_state st w) = good s w" "ok (upd_fp f w) = ok w" "ok (upd_pv g w) = ok w"
  "healthy (upd_fp f w) = healthy w" "healthy (upd_pv g w) = healthy w" "good st (upd_fp f w) = good st w" "good st (upd_pv g w) = good st w"
  "ok (keep_error e w) = ok w" "healthy (keep_error e w) = healthy w" "good st (keep_error e w) = good st w"
  "ok (fp_image_device_maybe_complete_action e w) = ok w" "healthy (fp_image_device_maybe_complete_action e w) = healthy w"
  "good st (fp_image_device_maybe_complete_action e w) = good st w"
  by (intro own_part [THEN conjunct1] own_part [THEN conjunct2, THEN conjunct1] own_part [THEN conjunct2, THEN conjunct2]; simp)+

lemma change_state_quiet:
  assumes "ok w" "st \<in> quiet_states"
  obtains w' where "fp_image_device_change_state vt st w = Some w'" "ok w'" "w_pv w' = (w_pv w)\<lparr>pv_state := st\<rparr>" "w_scans w' = w_scans w"
    "w_fp w' = w_fp (enter_state st w)" "healthy w \<Longrightarrow> healthy w'" "healthy w \<Longrightarrow> st = FPI_IMAGE_DEVICE_STATE_IDLE \<Longrightarrow> good st w'"
    "\<not> healthy w \<Longrightarrow> \<not> healthy w'" "st = FPI_IMAGE_DEVICE_STATE_INACTIVE \<Longrightarrow> good st w \<Longrightarrow> good st w'"
proof -
  obtain w' where w': "vt (Change_state st) (enter_state st w) = Some w'" "ok w'" "same_class (enter_state st w) w'"
    "healthy w \<longrightarrow> healthy w' \<and> (st = FPI_IMAGE_DEVICE_STATE_IDLE \<longrightarrow> good st w')" "\<not> healthy w \<longrightarrow> \<not> healthy w'"
    "st = FPI_IMAGE_DEVICE_STATE_INACTIVE \<and> good st w \<longrightarrow> good st w'"
    using quiet [of "enter_state st w" st] assms by auto
  show thesis
    by (rule that [of w']) (use w' assms(2) in \<open>auto simp: fp_image_device_change_state_def same_class_def quiet_states_def\<close>)
qed

lemma ended_steady: "ended good w \<Longrightarrow> steady (w_fp w) (f (w_fp w)) \<Longrightarrow> ended good (upd_fp f w)"
  by (auto simp: ended_def finished_def waiting_def acting_def calm_def steady_def keeps_def)

lemma deactivated_ends:
  assumes "ok w" "acting w" "pv_active (w_pv w)" "state_of w = FPI_IMAGE_DEVICE_STATE_DEACTIVATING" "good FPI_IMAGE_DEVICE_STATE_INACTIVE w"
  obtains w' where "fpi_image_device_deactivate_complete vt None w = Some w'" "ok w'" "ended good w'" "keeps (w_fp w) (w_fp w')"
proof -
  let ?w = "upd_pv (\<lambda>p. p\<lparr>pv_active := False, pv_finger_present := False\<rparr>) w"
  let ?i = FPI_IMAGE_DEVICE_STATE_INACTIVE
  have "ok ?w" "?i \<in> quiet_states" using assms(1) by (simp_all add: quiet_states_def)
  then obtain w1 where w1: "fp_image_device_change_state vt ?i ?w = Some w1" "ok w1" "w_pv w1 = (w_pv ?w)\<lparr>pv_state := ?i\<rparr>"
    "w_scans w1 = w_scans ?w" "w_fp w1 = w_fp (enter_state ?i ?w)" "?i = ?i \<Longrightarrow> good ?i ?w \<Longrightarrow> good ?i w1"
    by (rule change_state_quiet) blast
  have st: "steady (w_fp w) (w_fp w1)" unfolding w1(5)
    using enter_state_steady [of ?w ?i] assms(4) by (simp add: valid_transitions_def)
  then have a: "acting w1" using assms(2) w1 by (simp add: acting_def steady_def keeps_def)
  let ?w2 = "fp_image_device_maybe_complete_action None w1"
  have eq: "fpi_image_device_deactivate_complete vt None w = Some ?w2"
    using w1(1) assms by (simp add: fpi_image_device_deactivate_complete_def)
  have rest: "good ?i w1" using w1(6) assms(5) by simp
  have "ended good ?w2 \<and> keeps (w_fp w) (w_fp ?w2)"
  proof (cases "pv_minutiae_scan_active (w_pv w)")
    case True
    then have "?w2 = w1" using maybe_complete_pending [of w1 None] w1(3) by (simp add: keep_error_def)
    then show ?thesis using True st a w1(3) rest by (simp add: ended_def waiting_def steady_def)
  next
    case False
    have "finished ?w2" "completes (w_fp w1) (w_fp ?w2)" by (rule maybe_complete_finishes [OF a]; use w1(3) False in simp)+
    then show ?thesis using st keeps_trans rest w1(3) by (auto simp: ended_def completes_def steady_def)
  qed
  then show thesis using that [OF eq] w1(2) by simp
qed

lemma deactivate_ends:
  assumes "ok w" "acting w" "pv_active (w_pv w)" "state_of w \<in> working_states"
  obtains w' where "fpi_image_device_deactivate vt c w = Some w'" "ok w'" "ended good w'" "keeps (w_fp w) (w_fp w')"
proof -
  let ?d = FPI_IMAGE_DEVICE_STATE_DEACTIVATING
  define w0 where "w0 = (if \<not> c \<and> state_of w \<noteq> FPI_IMAGE_DEVICE_STATE_IDLE then upd_fp (noted (Warned ''not idle'')) w else w)"
  have w0: "ok w0" "w_pv w0 = w_pv w" "w_scans w0 = w_scans w" "steady (w_fp w) (w_fp w0)"
    using assms(1) by (simp_all add: w0_def steady_noted)
  have "?d \<in> quiet_states" by (simp add: quiet_states_def)
  with w0(1) obtain w1 where w1: "fp_image_device_change_state vt ?d w0 = Some w1" "ok w1" "w_pv w1 = (w_pv w0)\<lparr>pv_state := ?d\<rparr>"
    "w_scans w1 = w_scans w0" "w_fp w1 = w_fp (enter_state ?d w0)" by (rule change_state_quiet) blast
  have "steady (w_fp w0) (w_fp w1)" unfolding w1(5)
    by (rule enter_state_steady) (use assms(4) w0(2) in \<open>auto simp: valid_transitions_def working_states_def\<close>)
  then have st: "steady (w_fp w) (w_fp w1)" using w0(4) steady_trans by blast
  obtain w2 where w2: "vt Deactivate w1 = fpi_image_device_deactivate_complete vt None w2" "ok w2" "same_class w1 w2" "good FPI_IMAGE_DEVICE_STATE_INACTIVE w2"
    using deactivation [OF w1(2)] by blast
  have "acting w2" "pv_active (w_pv w2)" "state_of w2 = ?d" "good FPI_IMAGE_DEVICE_STATE_INACTIVE w2"
    using w2(3,4) w1 w0 assms st by (auto simp: acting_def same_class_def steady_def keeps_def)
  with w2(2) obtain w3 where w3: "fpi_image_device_deactivate_complete vt None w2 = Some w3" "ok w3" "ended good w3" "keeps (w_fp w2) (w_fp w3)"
    by (rule deactivated_ends) blast
  have "fpi_image_device_deactivate vt c w = Some w3"
    using assms(3,4) w1(1) w2(1) w3(1) unfolding w0_def [symmetric]
    by (auto simp: fpi_image_device_deactivate_def w0_def [symmetric] working_states_def)
  then show thesis using that w3 st w2(3) keeps_trans by (metis same_class_def steady_def)
qed

subsection \<open>Errors of the session\<close>

lemma session_error_ends:
  assumes "ok w" "acting w" "pv_active (w_pv w)" "state_of w \<in> working_states"
  obtains w' where "fpi_image_device_session_error vt (Some (FP_DEVICE_ERROR e)) w = Some w'" "ok w'" "ended good w'" "keeps (w_fp w) (w_fp w')"
proof -
  let ?w = "keep_error (Some (FP_DEVICE_ERROR e)) w"
  have st: "steady (w_fp w) (w_fp ?w)" by simp
  have "ok ?w" "acting ?w" "pv_active (w_pv ?w)" "state_of ?w \<in> working_states"
    using assms st by (auto simp: acting_def steady_def keeps_def)
  then obtain w' where w': "fpi_image_device_deactivate vt True ?w = Some w'" "ok w'" "ended good w'" "keeps (w_fp ?w) (w_fp w')"
    by (rule deactivate_ends)
  have "fpi_image_device_session_error vt (Some (FP_DEVICE_ERROR e)) w = Some w'"
    using w'(1) assms(3,4) maybe_complete_pending [of w "Some (FP_DEVICE_ERROR e)"]
    by (auto simp: fpi_image_device_session_error_def Let_def working_states_def)
  then show thesis using that w'(2-4) st keeps_trans by (auto simp: steady_def)
qed

text \<open>An error after the device has been deactivated changes nothing.\<close>

lemma late_error:
  assumes "\<not> pv_active (w_pv w)" "state_of w \<noteq> FPI_IMAGE_DEVICE_STATE_ACTIVATING" "action_of w \<noteq> FPI_DEVICE_ACTION_NONE"
  obtains f where "fpi_image_device_session_error vt (Some e) w = Some (upd_fp f w)" "steady (w_fp w) (f (w_fp w))"
proof -
  let ?f = "\<lambda>d. noted (Critical ''activate_complete'') (noted (Warned ''activation failure'') (noted (Warned ''device is inactive'') d))"
  have "steady (w_fp w) (?f (w_fp w))" by (intro steady_noted_trans steady_noted) simp_all
  moreover have "fpi_image_device_session_error vt (Some e) w = Some (upd_fp ?f w)"
    using assms by (simp add: fpi_image_device_session_error_def fpi_image_device_activate_complete_def Let_def upd_fp_def noted_def)
  ultimately show thesis using that by blast
qed

lemma late_activation:
  assumes "\<not> pv_active (w_pv w)" "state_of w \<noteq> FPI_IMAGE_DEVICE_STATE_ACTIVATING"
  obtains f where "fpi_image_device_activate_complete vt e w = Some (upd_fp f w)" "steady (w_fp w) (f (w_fp w))"
  using assms that [of "noted (Critical ''activate_complete'')"] by (simp add: fpi_image_device_activate_complete_def steady_noted)

lemma activation_fails:
  assumes "starting w"
  obtains w' where "fpi_image_device_activate_complete vt (Some e) w = Some w'" "img_device.more w' = img_device.more w" "finished w'"
    "keeps (w_fp w) (w_fp w')"
proof -
  have a: "capture_action (action_of w)" using assms by (simp add: starting_def acting_def)
  let ?w = "upd_fp (fpi_device_action_error (Some e)) w"
  have c: "completes (w_fp w) (w_fp ?w)" using completes_error [OF a] by simp
  have "fpi_image_device_activate_complete vt (Some e) w = Some ?w"
    using assms a by (simp add: fpi_image_device_activate_complete_def starting_def calm_def)
  moreover have "finished ?w"
    using assms c by (auto simp: finished_def starting_def acting_def calm_def completes_def)
  ultimately show thesis using that c by (auto simp: completes_def)
qed

lemma starting_error:
  assumes "starting w"
  obtains w' where "fpi_image_device_session_error vt (Some e) w = Some w'" "img_device.more w' = img_device.more w" "finished w'"
    "keeps (w_fp w) (w_fp w')"
proof -
  let ?w = "upd_fp (noted (Warned ''activation failure'')) (upd_fp (noted (Warned ''device is inactive'')) w)"
  have st: "steady (w_fp w) (w_fp ?w)" by (simp add: steady_noted_trans steady_noted)
  have "starting ?w" using assms st by (auto simp: starting_def acting_def calm_def steady_def keeps_def)
  then obtain w' where w': "fpi_image_device_activate_complete vt (Some e) ?w = Some w'" "img_device.more w' = img_device.more ?w" "finished w'"
    "keeps (w_fp ?w) (w_fp w')" by (rule activation_fails)
  have "action_of w \<noteq> FPI_DEVICE_ACTION_NONE" using assms by (auto simp: starting_def acting_def capture_action_def)
  then have "fpi_image_device_session_error vt (Some e) w = Some w'"
    using w'(1) assms by (simp add: fpi_image_device_session_error_def Let_def starting_def calm_def noted_def)
  then show thesis using that w'(2-4) st keeps_trans by (auto simp: steady_def)
qed

subsection \<open>Changes of state\<close>

text \<open>What the end of a change of state does.\<close>

lemma change_state_reports:
  assumes "vt (Change_state st) (enter_state st w) = Some w1"
  obtains f where "fp_image_device_change_state vt st w = Some (upd_fp f w1)" "steady (w_fp w1) (f (w_fp w1))"
proof -
  let ?f = "if st = FPI_IMAGE_DEVICE_STATE_AWAIT_FINGER_ON then fpi_device_report_finger_status_changes FP_FINGER_STATUS_NEEDED FP_FINGER_STATUS_NONE
     else if st = FPI_IMAGE_DEVICE_STATE_AWAIT_FINGER_OFF then fpi_device_report_finger_status_changes FP_FINGER_STATUS_NONE FP_FINGER_STATUS_NEEDED
     else (\<lambda>d. d)"
  show thesis by (rule that [of ?f]) (use assms in \<open>auto simp: fp_image_device_change_state_def upd_fp_def\<close>)
qed

lemma change_state_loud:
  assumes "ok w" "healthy w" "acting w" "pv_active (w_pv w)" "(state_of w, st) \<in> set valid_transitions" "st \<in> loud_states"
  obtains (stop) w' where "fp_image_device_change_state vt st w = Some w'" "ok w'" "ended good w'" "keeps (w_fp w) (w_fp w')"
  | (go) w' where "fp_image_device_change_state vt st w = Some w'" "ok w'" "good st w'" "steady (w_fp w) (w_fp w')"
      "w_pv w' = (w_pv w)\<lparr>pv_state := st\<rparr>" "w_scans w' = w_scans w"
proof -
  let ?w = "enter_state st w"
  have st: "steady (w_fp w) (w_fp ?w)" by (rule enter_state_steady [OF assms(5)])
  obtain w1 where w1: "ok w1" "same_class ?w w1"
    "vt (Change_state st) ?w = Some w1 \<and> good st w1 \<or>
     (\<exists>e. vt (Change_state st) ?w = fpi_image_device_session_error vt (Some (FP_DEVICE_ERROR e)) w1)"
    using loud [of ?w st] assms by auto
  show thesis
  proof (cases "vt (Change_state st) ?w = Some w1 \<and> good st w1")
    case True
    obtain f where "fp_image_device_change_state vt st w = Some (upd_fp f w1)" "steady (w_fp w1) (f (w_fp w1))"
      by (rule change_state_reports) (use True in blast)
    then show thesis
      using go [of "upd_fp f w1"] True w1 st steady_trans [of "w_fp w" "w_fp w1"] by (auto simp: same_class_def)
  next
    case False
    then obtain e where e: "vt (Change_state st) ?w = fpi_image_device_session_error vt (Some (FP_DEVICE_ERROR e)) w1" using w1(3) by blast
    have "acting w1" "pv_active (w_pv w1)" "state_of w1 \<in> working_states"
      using w1(2) assms st by (auto simp: same_class_def acting_def steady_def keeps_def working_states_def loud_states_def)
    with w1(1) obtain w2 where w2: "fpi_image_device_session_error vt (Some (FP_DEVICE_ERROR e)) w1 = Some w2" "ok w2" "ended good w2"
      "keeps (w_fp w1) (w_fp w2)" by (rule session_error_ends)
    have "vt (Change_state st) ?w = Some w2" using e w2(1) by simp
    then obtain f where f: "fp_image_device_change_state vt st w = Some (upd_fp f w2)" "steady (w_fp w2) (f (w_fp w2))"
      by (rule change_state_reports)
    have "keeps (w_fp w) (w_fp w2)" using w2(4) w1(2) st keeps_trans by (metis same_class_def steady_def)
    then show thesis
      using stop [OF f(1)] w2(2) ended_steady [OF w2(3), of f] f(2) keeps_trans by (auto simp: steady_def)
  qed
qed

lemma change_state_failed:
  assumes "ok w" "\<not> healthy w" "(state_of w, st) \<in> set valid_transitions" "st \<in> loud_states"
  obtains w' where "fp_image_device_change_state vt st w = Some w'" "ok w'" "\<not> healthy w'" "steady (w_fp w) (w_fp w')"
      "w_pv w' = (w_pv w)\<lparr>pv_state := st\<rparr>" "w_scans w' = w_scans w"
proof -
  have st: "steady (w_fp w) (w_fp (enter_state st w))" by (rule enter_state_steady [OF assms(3)])
  obtain w1 where w1: "vt (Change_state st) (enter_state st w) = Some w1" "ok w1" "\<not> healthy w1" "same_class (enter_state st w) w1"
    using failed [of "enter_state st w" st] assms by auto
  obtain f where "fp_image_device_change_state vt st w = Some (upd_fp f w1)" "steady (w_fp w1) (f (w_fp w1))"
    by (rule change_state_reports [OF w1(1)])
  then show thesis
    using that [of "upd_fp f w1"] w1 st steady_trans [of "w_fp w" "w_fp w1"] by (auto simp: same_class_def)
qed

text \<open>Healthy or not: what a healthy driver owes, nothing of one that has failed.\<close>

definition owed :: "'a img_device_scheme \<Rightarrow> FpiImageDeviceState \<Rightarrow> 'a img_device_scheme \<Rightarrow> bool" where
  "owed w st w' \<longleftrightarrow> (healthy w \<or> st = FPI_IMAGE_DEVICE_STATE_INACTIVE \<longrightarrow> good st w')"

lemma ended_owed [simp]: "ended (owed w) w' = ended good w'"
  by (simp add: ended_def owed_def)

lemma change_state_cases:
  assumes "ok w" "acting w" "pv_active (w_pv w)" "(state_of w, st) \<in> set valid_transitions" "st \<in> loud_states"
  obtains (stop) w' where "fp_image_device_change_state vt st w = Some w'" "ok w'" "ended good w'" "keeps (w_fp w) (w_fp w')"
  | (go) w' where "fp_image_device_change_state vt st w = Some w'" "ok w'" "owed w st w'" "steady (w_fp w) (w_fp w')"
      "w_pv w' = (w_pv w)\<lparr>pv_state := st\<rparr>" "w_scans w' = w_scans w"
proof (cases "healthy w")
  case True
  show thesis
    by (rule change_state_loud [OF assms(1) True assms(2-5)]) (use stop go in \<open>auto simp: owed_def\<close>)
next
  case False
  show thesis
    by (rule change_state_failed [OF assms(1) False assms(4,5)]) (use go False assms(5) in \<open>auto simp: owed_def loud_states_def\<close>)
qed

subsection \<open>Reports on the finger and the image\<close>

lemma finger_down:
  assumes "ok w" "running (\<lambda>_ _. True) w" "state_of w = FPI_IMAGE_DEVICE_STATE_AWAIT_FINGER_ON"
  obtains w' where "fpi_image_device_report_finger_status vt True w = Some w'" "ok w'" "settled (owed w) w w'"
proof -
  let ?c = FPI_IMAGE_DEVICE_STATE_CAPTURE
  let ?d = "fpi_device_report_finger_status_changes FP_FINGER_STATUS_PRESENT FP_FINGER_STATUS_NONE"
  define w1 where "w1 = upd_pv (\<lambda>p. p\<lparr>pv_finger_present := True\<rparr>) (upd_fp ?d w)"
  have st: "steady (w_fp w) (w_fp w1)" by (simp add: w1_def)
  have a: "capture_action (action_of w)" using assms(2) by (simp add: running_def acting_def)
  have eq: "fpi_image_device_report_finger_status vt True w = fp_image_device_change_state vt ?c w1"
    using assms(3) a st by (auto simp: fpi_image_device_report_finger_status_def Let_def w1_def capture_action_def steady_def keeps_def)
  have w1: "ok w1" "acting w1" "pv_active (w_pv w1)" "(state_of w1, ?c) \<in> set valid_transitions" "?c \<in> loud_states"
    using assms st by (auto simp: w1_def running_def acting_def steady_def keeps_def valid_transitions_def loud_states_def)
  have h: "healthy w1 = healthy w" by (simp add: w1_def)
  show thesis
  proof (cases rule: change_state_cases [OF w1])
    case (1 w')
    then show thesis using that eq st keeps_trans by (auto simp: settled_def steady_def)
  next
    case (2 w')
    have "steady (w_fp w) (w_fp w')" by (rule steady_trans [OF st 2(4)])
    then have "settled (owed w) w w'"
      using assms 2 h by (auto simp: settled_def running_def acting_def w1_def owed_def working_states_def steady_def keeps_def)
    then show thesis using that eq 2(1,2) by simp
  qed
qed

lemma await_next:
  assumes "ok w" "acting w" "pv_active (w_pv w)" "state_of w = FPI_IMAGE_DEVICE_STATE_IDLE" "action_of w = FPI_DEVICE_ACTION_ENROLL"
    "\<not> pv_finger_present (w_pv w)" "owed w0 FPI_IMAGE_DEVICE_STATE_IDLE w" "healthy w0 = healthy w"
  obtains w' where "fp_image_device_enroll_maybe_await_finger_on vt w = Some w'" "ok w'" "settled (owed w0) w w'"
proof (cases "pv_minutiae_scan_active (w_pv w)")
  case True
  then have "settled (owed w0) w w" using assms by (simp add: settled_def running_def working_states_def)
  then show thesis using that True assms(1) by (simp add: fp_image_device_enroll_maybe_await_finger_on_def)
next
  case False
  let ?on = FPI_IMAGE_DEVICE_STATE_AWAIT_FINGER_ON
  have eq: "fp_image_device_enroll_maybe_await_finger_on vt w = fp_image_device_change_state vt ?on w"
    using False assms(6) by (simp add: fp_image_device_enroll_maybe_await_finger_on_def)
  have v: "(state_of w, ?on) \<in> set valid_transitions" "?on \<in> loud_states" using assms(4) by (simp_all add: valid_transitions_def loud_states_def)
  show thesis
  proof (cases rule: change_state_cases [OF assms(1-3) v])
    case (1 w')
    then show thesis using that eq by (auto simp: settled_def)
  next
    case (2 w')
    then have "settled (owed w0) w w'"
      using assms False by (auto simp: settled_def running_def acting_def owed_def working_states_def steady_def keeps_def)
    then show thesis using that eq 2(1,2) by simp
  qed
qed

lemma finger_up:
  assumes "ok w" "running (\<lambda>_ _. True) w" "state_of w = FPI_IMAGE_DEVICE_STATE_AWAIT_FINGER_OFF"
  obtains w' where "fpi_image_device_report_finger_status vt False w = Some w'" "ok w'" "settled (owed w) w w'"
proof -
  let ?i = FPI_IMAGE_DEVICE_STATE_IDLE
  let ?d = "fpi_device_report_finger_status_changes FP_FINGER_STATUS_NONE FP_FINGER_STATUS_PRESENT"
  define w1 where "w1 = upd_pv (\<lambda>p. p\<lparr>pv_finger_present := False\<rparr>) (upd_fp ?d w)"
  have st: "steady (w_fp w) (w_fp w1)" by (simp add: w1_def)
  have a: "capture_action (action_of w)" using assms(2) by (simp add: running_def acting_def)
  have a1: "action_of w1 = action_of w" using st by (simp add: steady_def keeps_def)
  have "ok w1" "?i \<in> quiet_states" using assms(1) by (simp_all add: w1_def quiet_states_def)
  then obtain w2 where w2: "fp_image_device_change_state vt ?i w1 = Some w2" "ok w2" "w_pv w2 = (w_pv w1)\<lparr>pv_state := ?i\<rparr>"
    "w_scans w2 = w_scans w1" "w_fp w2 = w_fp (enter_state ?i w1)" "healthy w1 \<Longrightarrow> healthy w2" "healthy w1 \<Longrightarrow> ?i = ?i \<Longrightarrow> good ?i w2"
    "\<not> healthy w1 \<Longrightarrow> \<not> healthy w2"
    by (rule change_state_quiet) blast
  have "steady (w_fp w1) (w_fp w2)" unfolding w2(5)
    by (rule enter_state_steady) (use assms(3) in \<open>simp add: w1_def valid_transitions_def\<close>)
  then have st2: "steady (w_fp w) (w_fp w2)" using st steady_trans by blast
  have a2: "acting w2" "pv_active (w_pv w2)" "state_of w2 = ?i" "action_of w2 = action_of w" "\<not> pv_finger_present (w_pv w2)"
    using assms(2) w2(3,4) st2 by (auto simp: running_def acting_def w1_def steady_def keeps_def)
  have h: "healthy w2 = healthy w" "owed w ?i w2" using w2(6-8) by (auto simp: w1_def owed_def)
  have eq: "fpi_image_device_report_finger_status vt False w =
      (if action_of w \<noteq> FPI_DEVICE_ACTION_ENROLL then fpi_image_device_deactivate vt False w2
       else fp_image_device_enroll_maybe_await_finger_on vt w2)"
    using assms(3) a a1 w2(1) by (auto simp: fpi_image_device_report_finger_status_def Let_def w1_def capture_action_def)
  show thesis
  proof (cases "action_of w = FPI_DEVICE_ACTION_ENROLL")
    case True
    obtain w' where "fp_image_device_enroll_maybe_await_finger_on vt w2 = Some w'" "ok w'" "settled (owed w) w2 w'"
      by (rule await_next [OF w2(2) a2(1-3) _ a2(5) h(2)]) (use True a2(4) h(1) in auto)
    then show thesis using that eq True st2 keeps_trans by (auto simp: settled_def steady_def)
  next
    case False
    have wk: "state_of w2 \<in> working_states" using a2(3) by (simp add: working_states_def)
    obtain w' where "fpi_image_device_deactivate vt False w2 = Some w'" "ok w'" "ended good w'" "keeps (w_fp w2) (w_fp w')"
      by (rule deactivate_ends [OF w2(2) a2(1,2) wk])
    then show thesis using that eq False st2 keeps_trans by (auto simp: settled_def steady_def)
  qed
qed

lemma image_captured:
  assumes "ok w" "running (\<lambda>_ _. True) w" "state_of w = FPI_IMAGE_DEVICE_STATE_CAPTURE"
  obtains w' where "fpi_image_device_image_captured vt (Some i) w = Some w'" "ok w'" "settled (owed w) w w'"
proof -
  let ?o = FPI_IMAGE_DEVICE_STATE_AWAIT_FINGER_OFF
  define w1 where "w1 = upd_pv (\<lambda>p. p\<lparr>pv_minutiae_scan_active := True\<rparr>) w\<lparr>w_scans := w_scans w @ [i]\<rparr>"
  have own: "ok w1 = ok w" "healthy w1 = healthy w" using own_part [of w1 w] by (auto simp: w1_def upd_pv_def)
  have eq: "fpi_image_device_image_captured vt (Some i) w = fp_image_device_change_state vt ?o w1"
    using assms by (simp add: fpi_image_device_image_captured_def w1_def running_def acting_def)
  have w1: "acting w1" "pv_active (w_pv w1)" "(state_of w1, ?o) \<in> set valid_transitions" "?o \<in> loud_states" "w_fp w1 = w_fp w"
    using assms by (auto simp: w1_def upd_pv_def running_def acting_def valid_transitions_def loud_states_def)
  have ok1: "ok w1" using own assms(1) by simp
  show thesis
  proof (cases rule: change_state_cases [OF ok1 w1(1-4)])
    case (1 w')
    then show thesis using that eq w1(5) by (auto simp: settled_def)
  next
    case (2 w')
    then have "settled (owed w) w w'"
      using assms own w1 by (auto simp: settled_def running_def acting_def w1_def upd_pv_def owed_def working_states_def steady_def keeps_def)
    then show thesis using that eq 2(1,2) by simp
  qed
qed

lemma activated:
  assumes "ok w" "healthy w" "starting w"
  obtains w' where "fpi_image_device_activate_complete vt None w = Some w'" "ok w'" "settled good w w'"
proof -
  let ?i = FPI_IMAGE_DEVICE_STATE_IDLE and ?on = FPI_IMAGE_DEVICE_STATE_AWAIT_FINGER_ON
  define w1 where "w1 = upd_pv (\<lambda>p. p\<lparr>pv_active := True\<rparr>) w"
  have "ok w1" "?i \<in> quiet_states" using assms(1) by (simp_all add: w1_def quiet_states_def)
  then obtain w2 where w2: "fp_image_device_change_state vt ?i w1 = Some w2" "ok w2" "w_pv w2 = (w_pv w1)\<lparr>pv_state := ?i\<rparr>"
    "w_scans w2 = w_scans w1" "w_fp w2 = w_fp (enter_state ?i w1)" "healthy w1 \<Longrightarrow> healthy w2"
    by (rule change_state_quiet) blast
  have st: "steady (w_fp w) (w_fp w2)" unfolding w2(5)
    using enter_state_steady [of w1 ?i] assms(3) by (simp add: w1_def valid_transitions_def starting_def)
  have h: "healthy w2" using w2(6) assms(2) by (simp add: w1_def)
  have a: "acting w2" "pv_active (w_pv w2)" "(state_of w2, ?on) \<in> set valid_transitions" "?on \<in> loud_states"
    using assms(3) w2(3,4) st by (auto simp: starting_def acting_def w1_def steady_def keeps_def valid_transitions_def loud_states_def)
  have eq: "fpi_image_device_activate_complete vt None w = fp_image_device_change_state vt ?on w2"
    using assms(3) w2(1) by (auto simp: fpi_image_device_activate_complete_def starting_def calm_def acting_def w1_def)
  show thesis
  proof (cases rule: change_state_cases [OF w2(2) a])
    case (1 w')
    then show thesis using that eq st keeps_trans by (auto simp: settled_def steady_def)
  next
    case (2 w')
    have "steady (w_fp w) (w_fp w')" by (rule steady_trans [OF st 2(4)])
    then have "settled good w w'"
      using assms(3) 2 h w2(3,4)
      by (auto simp: settled_def running_def starting_def calm_def acting_def w1_def owed_def working_states_def steady_def keeps_def)
    then show thesis using that eq 2(1,2) by simp
  qed
qed

subsection \<open>The end of a scan\<close>

lemma scan_over_upd:
  assumes "scan_over good w" "steady (w_fp w) d" "pv_state p = pv_state (w_pv w)" "pv_active p = pv_active (w_pv w)"
    "pv_finger_present p = pv_finger_present (w_pv w)" "pv_minutiae_scan_active p = pv_minutiae_scan_active (w_pv w)"
  shows "scan_over good (w\<lparr>w_fp := d, w_pv := p\<rparr>)"
  using assms own_part [of "w\<lparr>w_fp := d, w_pv := p\<rparr>" w] by (auto simp: scan_over_def acting_def steady_def keeps_def)

lemma scan_over_completes:
  assumes "scan_over good w" "action_of w = FPI_DEVICE_ACTION_ENROLL \<longrightarrow> \<not> pv_active (w_pv w)"
  shows "settled good w (fp_image_device_maybe_complete_action e w)"
proof (cases "pv_active (w_pv w)")
  case True
  let ?w = "keep_error e w"
  have "keeps (w_fp w) (w_fp ?w)" "fp_returns (w_fp ?w) = fp_returns (w_fp w)" "action_of ?w = action_of w"
    using keep_error_steady [of w e] by (auto simp: steady_def keeps_def)
  then show ?thesis
    using True assms maybe_complete_pending [of w e]
    by (auto simp: settled_def running_def scan_over_def acting_def working_states_def)
next
  case False
  then have a: "acting w" "\<not> pv_minutiae_scan_active (w_pv w)" "\<not> pv_finger_present (w_pv w)"
    "state_of w \<in> {FPI_IMAGE_DEVICE_STATE_INACTIVE, FPI_IMAGE_DEVICE_STATE_ACTIVATING}" using assms(1) by (auto simp: scan_over_def)
  have "good FPI_IMAGE_DEVICE_STATE_INACTIVE w" "state_of w = FPI_IMAGE_DEVICE_STATE_INACTIVE" using assms(1) False by (auto simp: scan_over_def)
  then show ?thesis using maybe_complete_finishes [OF a(1) False a(2-4), of e] by (simp add: settled_def ended_def completes_def)
qed

lemma scan_over_deactivates:
  assumes "ok w" "scan_over good w"
  obtains w' where "fpi_image_device_deactivate vt c (fp_image_device_maybe_complete_action e w) = Some w'" "ok w'" "settled good w w'"
proof (cases "pv_active (w_pv w)")
  case True
  let ?w = "keep_error e w"
  have st: "steady (w_fp w) (w_fp ?w)" by simp
  have "ok ?w" "acting ?w" "pv_active (w_pv ?w)" "state_of ?w \<in> working_states"
    using assms True st by (auto simp: scan_over_def acting_def working_states_def steady_def keeps_def)
  then obtain w' where "fpi_image_device_deactivate vt c ?w = Some w'" "ok w'" "ended good w'" "keeps (w_fp ?w) (w_fp w')"
    by (rule deactivate_ends)
  then show thesis
    using that True maybe_complete_pending [of w e] st keeps_trans by (auto simp: settled_def steady_def)
next
  case False
  let ?w = "fp_image_device_maybe_complete_action e w"
  have s: "settled good w ?w" by (rule scan_over_completes [OF assms(2)]) (use False in simp)
  have "finished ?w" using maybe_complete_finishes(1) [of w e] assms(2) False by (auto simp: scan_over_def)
  then have "fpi_image_device_deactivate vt c ?w = Some ?w" by (simp add: fpi_image_device_deactivate_def finished_def calm_def)
  then show thesis using that s assms(1) by simp
qed

lemma settled_owed: "healthy w \<Longrightarrow> settled (owed w) w1 w' = settled good w1 w'"
  by (simp add: settled_def running_def owed_def)

lemma scanned_enroll_settles:
  assumes "ok w" "scan_over good w" "action_of w = FPI_DEVICE_ACTION_ENROLL"
    and "pv_active (w_pv w) \<or> pv_enroll_stage (w_pv w) + (if p then 1 else 0) = fp_nr_enroll_stages (w_fp w)"
  obtains w' where "scanned_enroll vt p e w = Some w'" "ok w'" "settled good w w'"
proof -
  define w1 where "w1 = (if p then upd_pv (\<lambda>p. p\<lparr>pv_enroll_stage := pv_enroll_stage p + 1\<rparr>)
      (upd_fp (\<lambda>d. d\<lparr>fp_enroll_prints := fp_enroll_prints d + 1\<rparr>) w) else w)"
  define w2 where "w2 = upd_fp (fpi_device_enroll_progress (pv_enroll_stage (w_pv w1)) p e) w1"
  have st1: "steady (w_fp w) (w_fp w1)" by (simp add: w1_def steady_def keeps_def)
  have st: "steady (w_fp w) (w_fp w2)" using steady_trans [OF st1] by (simp add: w2_def)
  have eq2: "w2 = w\<lparr>w_fp := w_fp w2, w_pv := w_pv w2\<rparr>" by (simp add: w2_def w1_def upd_fp_def upd_pv_def)
  have pv: "pv_state (w_pv w2) = pv_state (w_pv w)" "pv_active (w_pv w2) = pv_active (w_pv w)"
    "pv_finger_present (w_pv w2) = pv_finger_present (w_pv w)" "pv_minutiae_scan_active (w_pv w2) = pv_minutiae_scan_active (w_pv w)"
    by (simp_all add: w2_def w1_def)
  have "scan_over good w2" using scan_over_upd [OF assms(2) st pv] by (simp only: eq2 [symmetric])
  moreover have "ok w2" using assms(1) by (simp add: w2_def w1_def)
  moreover have "action_of w2 = FPI_DEVICE_ACTION_ENROLL" using assms(3) st by (simp add: steady_def keeps_def)
  ultimately have w2: "ok w2" "scan_over good w2" "action_of w2 = FPI_DEVICE_ACTION_ENROLL" by simp_all
  have eq: "scanned_enroll vt p e w = (if pv_enroll_stage (w_pv w2) = fp_nr_enroll_stages (w_fp w2)
      then fpi_image_device_deactivate vt False (fp_image_device_maybe_complete_action e w2)
      else fp_image_device_enroll_maybe_await_finger_on vt w2)"
    unfolding scanned_enroll_def Let_def w1_def [symmetric] w2_def [symmetric] by (rule refl)
  have "\<exists>w'. scanned_enroll vt p e w = Some w' \<and> ok w' \<and> settled good w2 w'"
  proof (cases "pv_enroll_stage (w_pv w2) = fp_nr_enroll_stages (w_fp w2)")
    case True
    show ?thesis unfolding eq if_P [OF True] by (rule scan_over_deactivates [OF w2(1,2), where c = False and e = e]) blast
  next
    case False
    have "pv_enroll_stage (w_pv w2) = pv_enroll_stage (w_pv w) + (if p then 1 else 0)" "fp_nr_enroll_stages (w_fp w2) = fp_nr_enroll_stages (w_fp w)"
      by (simp_all add: w2_def w1_def fpi_device_enroll_progress_def Let_def noted_def)
    then have on: "pv_active (w_pv w)" using assms(4) False by simp
    show ?thesis
    proof (cases "pv_finger_present (w_pv w2)")
      case True
      then have "running good w2" using w2(2) on pv by (auto simp: running_def scan_over_def working_states_def)
      then show ?thesis
        using True w2(1) unfolding eq if_not_P [OF False] by (auto simp: fp_image_device_enroll_maybe_await_finger_on_def settled_def)
    next
      case up: False
      then have a: "acting w2" "pv_active (w_pv w2)" "state_of w2 = FPI_IMAGE_DEVICE_STATE_IDLE" "good FPI_IMAGE_DEVICE_STATE_IDLE w2"
        using w2(2) on pv by (auto simp: scan_over_def)
      then have h: "healthy w2" "owed w2 FPI_IMAGE_DEVICE_STATE_IDLE w2" by (auto simp: owed_def intro: good_healthy)
      show ?thesis
        unfolding eq if_not_P [OF False] using settled_owed [OF h(1)]
        by (auto intro: await_next [OF w2(1) a(1-3) w2(3) up h(2) refl])
    qed
  qed
  then show thesis using that st keeps_trans by (auto simp: settled_def steady_def)
qed

lemma scan_over_report:
  assumes "scan_over good w" "steady (w_fp w) (f (w_fp w))" "action_of w \<noteq> FPI_DEVICE_ACTION_ENROLL"
  shows "settled good w (fp_image_device_maybe_complete_action e (upd_fp f w))"
proof -
  have u: "upd_fp f w = w\<lparr>w_fp := f (w_fp w), w_pv := w_pv w\<rparr>" by (simp add: upd_fp_def)
  have "scan_over good (upd_fp f w)" unfolding u by (rule scan_over_upd [OF assms(1,2)]) simp_all
  then have "settled good (upd_fp f w) (fp_image_device_maybe_complete_action e (upd_fp f w))"
    by (rule scan_over_completes) (use assms(2,3) in \<open>auto simp: steady_def keeps_def\<close>)
  moreover have "keeps (w_fp w) (w_fp (upd_fp f w))" using assms(2) by (simp add: steady_def)
  ultimately show ?thesis unfolding settled_def using keeps_trans by blast
qed

lemma scan_over_capture:
  assumes "scan_over good w" "action_of w \<noteq> FPI_DEVICE_ACTION_ENROLL"
  shows "settled good w (fp_image_device_maybe_complete_action e (upd_pv (\<lambda>p. p\<lparr>pv_capture_image := x\<rparr>) w))"
proof -
  let ?u = "upd_pv (\<lambda>p. p\<lparr>pv_capture_image := x\<rparr>) w"
  have u: "?u = w\<lparr>w_fp := w_fp w, w_pv := (w_pv w)\<lparr>pv_capture_image := x\<rparr>\<rparr>" by (simp add: upd_pv_def)
  have "scan_over good ?u" unfolding u by (rule scan_over_upd [OF assms(1)]) simp_all
  then have "settled good ?u (fp_image_device_maybe_complete_action e ?u)" by (rule scan_over_completes) (use assms(2) in simp)
  then show ?thesis by (simp add: settled_def)
qed

lemma scanned_verify_settles:
  assumes "ok w" "scan_over good w" "action_of w \<noteq> FPI_DEVICE_ACTION_ENROLL"
  shows "ok (scanned_verify scan p e w) \<and> settled good w (scanned_verify scan p e w)"
proof -
  obtain r e' where "(if p then sc_match scan (pv_algorithm (w_pv w)) 0 (pv_bz3_threshold (w_pv w)) else (FPI_MATCH_ERROR, e)) = (r, e')" by fastforce
  then have "scanned_verify scan p e w = (if e' = None \<or> in_retry_domain (the e')
      then fp_image_device_maybe_complete_action None (upd_fp (fpi_device_verify_report r p e') w)
      else fp_image_device_maybe_complete_action e' w)"
    unfolding scanned_verify_def Let_def by (simp only: prod.case)
  then show ?thesis
    using assms(1) scan_over_report [OF assms(2) _ assms(3), of "fpi_device_verify_report r p e'" None] scan_over_completes [OF assms(2)] assms(3) by auto
qed

lemma scanned_identify_settles:
  assumes "ok w" "scan_over good w" "action_of w \<noteq> FPI_DEVICE_ACTION_ENROLL"
  shows "ok (scanned_identify scan p e w) \<and> settled good w (scanned_identify scan p e w)"
proof -
  obtain r e' where "(if e = None then identify_loop (\<lambda>i. sc_match scan (pv_algorithm (w_pv w)) i (pv_bz3_threshold (w_pv w))) 0
      (md_gallery (fp_match (w_fp w))) else (None, e)) = (r, e')" by fastforce
  then have "scanned_identify scan p e w = (if e' = None \<or> in_retry_domain (the e')
      then fp_image_device_maybe_complete_action None (upd_fp (fpi_device_identify_report r p e') w)
      else fp_image_device_maybe_complete_action e' w)"
    unfolding scanned_identify_def Let_def by (simp only: prod.case)
  then show ?thesis
    using assms(1) scan_over_report [OF assms(2) _ assms(3), of "fpi_device_identify_report r p e'" None] scan_over_completes [OF assms(2)] assms(3) by auto
qed

lemma minutiae_result_settles:
  assumes "ok w" "scan_over good w" "\<not> orphaning scan w" "sc_finish scan \<noteq> Some (G_IO_ERROR G_IO_ERROR_CANCELLED)"
  obtains w' where "minutiae_result vt i scan w = Some w'" "ok w'" "settled good w w'"
proof -
  define w1 where "w1 = (if sc_finish scan \<noteq> None then upd_fp (noted (Warned ''detection failed'')) w else w)"
  define error where "error = (if sc_finish scan \<noteq> None then Some (FP_DEVICE_RETRY FP_DEVICE_RETRY_GENERAL) else None)"
  define added where "added = (if error = None then sc_add scan else error)"
  let ?fatal = "error = None \<and> added \<noteq> None \<and> \<not> in_retry_domain (the added)"
  have st: "steady (w_fp w) (w_fp w1)" by (simp add: w1_def steady_noted)
  have act: "action_of w1 = action_of w" using st by (simp add: steady_def keeps_def)
  have eq1: "w\<lparr>w_fp := w_fp w1, w_pv := w_pv w\<rparr> = w1" by (simp add: w1_def upd_fp_def)
  have so: "scan_over good w1" using scan_over_upd [OF assms(2) st, of "w_pv w"] unfolding eq1 by simp
  have "ok w1" "pv_active (w_pv w1) = pv_active (w_pv w)" using assms(1) by (simp_all add: w1_def)
  note w1 = this(1) so this(2)
  have eq: "minutiae_result vt i scan w =
     (if action_of w1 = FPI_DEVICE_ACTION_CAPTURE
      then Some (fp_image_device_maybe_complete_action error (upd_pv (\<lambda>p. p\<lparr>pv_capture_image := Some i\<rparr>) w1))
      else if ?fatal then fpi_image_device_deactivate vt True (fp_image_device_maybe_complete_action added w1)
      else (case action_of w1 of
          FPI_DEVICE_ACTION_ENROLL \<Rightarrow> scanned_enroll vt (error = None \<and> sc_add scan = None) added w1
        | FPI_DEVICE_ACTION_VERIFY \<Rightarrow> Some (scanned_verify scan (error = None \<and> sc_add scan = None) added w1)
        | FPI_DEVICE_ACTION_IDENTIFY \<Rightarrow> Some (scanned_identify scan (error = None \<and> sc_add scan = None) added w1)
        | _ \<Rightarrow> Some (upd_fp (noted (Aborted ''minutiae_detected'')) w1)))"
    unfolding minutiae_result_def Let_def w1_def [symmetric] error_def [symmetric] added_def [symmetric] by (rule refl)
  have a: "capture_action (action_of w1)" using w1(2) by (simp add: scan_over_def acting_def)
  consider "action_of w1 = FPI_DEVICE_ACTION_CAPTURE" | "action_of w1 \<noteq> FPI_DEVICE_ACTION_CAPTURE" ?fatal
    | "action_of w1 = FPI_DEVICE_ACTION_ENROLL" "\<not> ?fatal" | "action_of w1 = FPI_DEVICE_ACTION_VERIFY" "\<not> ?fatal"
    | "action_of w1 = FPI_DEVICE_ACTION_IDENTIFY" "\<not> ?fatal"
    using a unfolding capture_action_def by blast
  then have "\<exists>w'. minutiae_result vt i scan w = Some w' \<and> ok w' \<and> settled good w1 w'"
  proof cases
    case 1
    then show ?thesis unfolding eq if_P [OF 1] using scan_over_capture [OF w1(2)] w1(1) by simp
  next
    case 2
    show ?thesis
      unfolding eq if_not_P [OF 2(1)] if_P [OF 2(2)]
      by (rule scan_over_deactivates [OF w1(1,2), where c = True and e = added]) blast
  next
    case 3
    have "w_pv w1 = w_pv w" "fp_nr_enroll_stages (w_fp w1) = fp_nr_enroll_stages (w_fp w)" by (simp_all add: w1_def noted_def)
    then have on: "pv_active (w_pv w1) \<or> pv_enroll_stage (w_pv w1) + (if error = None \<and> sc_add scan = None then 1 else 0) = fp_nr_enroll_stages (w_fp w1)"
      using assms(3,4) 3 act by (auto simp: orphaning_def error_def added_def split: if_splits)
    show ?thesis unfolding eq if_not_P [OF 3(2)]
      by (rule scanned_enroll_settles [OF w1(1,2) 3(1) on, where e = added]) (use 3(1) in simp)
  next
    case 4
    then show ?thesis unfolding eq if_not_P [OF 4(2)] using scanned_verify_settles [OF w1(1,2)] by simp
  next
    case 5
    then show ?thesis unfolding eq if_not_P [OF 5(2)] using scanned_identify_settles [OF w1(1,2)] by simp
  qed
  then show thesis using that st keeps_trans unfolding settled_def steady_def by blast
qed

lemma scan_settles:
  assumes "ok w" "running good w \<or> waiting w \<and> good FPI_IMAGE_DEVICE_STATE_INACTIVE w" "w_scans w = [i]"
    and "\<not> orphaning scan w"
  obtains w' where "fpi_image_device_minutiae_detected vt i scan (w\<lparr>w_scans := []\<rparr>) = Some w'" "ok w'" "settled good w w'"
proof -
  let ?cancel = "sc_finish scan = Some (G_IO_ERROR G_IO_ERROR_CANCELLED)"
  define w1 where "w1 = upd_pv (\<lambda>p. p\<lparr>pv_minutiae_scan_active := False\<rparr>) (w\<lparr>w_scans := []\<rparr>)"
  have own: "ok w1" "good st w1 = good st w" for st using own_part [of w1 w] assms(1) by (auto simp: w1_def upd_pv_def)
  have minutiae: "pv_minutiae_scan_active (w_pv w)" using assms(2,3) by (auto simp: running_def waiting_def acting_def split: if_splits)
  have pv: "state_of w1 = state_of w" "pv_finger_present (w_pv w1) = pv_finger_present (w_pv w)" "\<not> pv_minutiae_scan_active (w_pv w1)"
    "w_scans w1 = []" by (simp_all add: w1_def)
  have fp: "w_fp w1 = w_fp w" "pv_active (w_pv w1) = pv_active (w_pv w)" by (simp_all add: w1_def)
  have so: "scan_over good w1"
    using assms(2) minutiae pv(3) unfolding scan_over_def running_def waiting_def acting_def own(2) pv fp by auto
  have eq: "fpi_image_device_minutiae_detected vt i scan (w\<lparr>w_scans := []\<rparr>) =
      (if ?cancel then fpi_image_device_deactivate vt True (fp_image_device_maybe_complete_action (sc_finish scan) w1)
       else minutiae_result vt i scan w1)"
    unfolding fpi_image_device_minutiae_detected_def Let_def w1_def [symmetric] by (rule refl)
  have "\<exists>w'. fpi_image_device_minutiae_detected vt i scan (w\<lparr>w_scans := []\<rparr>) = Some w' \<and> ok w' \<and> settled good w1 w'"
  proof (cases ?cancel)
    case True
    show ?thesis
      unfolding eq if_P [OF True] by (rule scan_over_deactivates [OF own(1) so, where c = True and e = "sc_finish scan"]) blast
  next
    case False
    have "pv_enroll_stage (w_pv w1) = pv_enroll_stage (w_pv w)" by (simp add: w1_def)
    then have on: "\<not> orphaning scan w1" using assms(4) fp by (simp add: orphaning_def)
    show ?thesis unfolding eq if_not_P [OF False] by (rule minutiae_result_settles [OF own(1) so on False]) blast
  qed
  then show thesis using that unfolding settled_def fp(1) by blast
qed

subsection \<open>Starting and cancelling an action\<close>

lemma activate_starts:
  assumes "ok w" "acting w" "calm w"
  obtains w' where "fpi_image_device_activate vt w = Some w'" "ok w'" "keeps (w_fp w) (w_fp w')"
    "finished w' \<and> good FPI_IMAGE_DEVICE_STATE_INACTIVE w' \<or> starting w' \<and> good FPI_IMAGE_DEVICE_STATE_ACTIVATING w'"
proof -
  let ?a = FPI_IMAGE_DEVICE_STATE_ACTIVATING
  have "?a \<in> quiet_states" by (simp add: quiet_states_def)
  with assms(1) obtain w1 where w1: "fp_image_device_change_state vt ?a w = Some w1" "ok w1" "w_pv w1 = (w_pv w)\<lparr>pv_state := ?a\<rparr>"
    "w_scans w1 = w_scans w" "w_fp w1 = w_fp (enter_state ?a w)" by (rule change_state_quiet) blast
  have st: "steady (w_fp w) (w_fp w1)"
    using assms(3) unfolding w1(5)
    by (auto simp: enter_state_def calm_def valid_transitions_def steady_def keeps_def noted_def)
  have s1: "starting w1" using assms(2,3) w1(3,4) st by (auto simp: starting_def acting_def calm_def steady_def keeps_def)
  obtain w2 where w2: "ok w2" "same_class w1 w2" "vt Activate w1 = Some w2 \<and> good ?a w2 \<or>
      good FPI_IMAGE_DEVICE_STATE_INACTIVE w2 \<and> (\<exists>e. vt Activate w1 = fpi_image_device_activate_complete vt (Some e) w2)"
    using activation [OF w1(2)] by blast
  have s2: "starting w2" using s1 w2(2) by (auto simp: starting_def acting_def calm_def same_class_def)
  have eq: "fpi_image_device_activate vt w = vt Activate w1" using assms(3) w1(1) by (simp add: fpi_image_device_activate_def calm_def)
  have k: "keeps (w_fp w) (w_fp w2)" using st w2(2) by (simp add: steady_def same_class_def)
  show thesis
  proof (cases "vt Activate w1 = Some w2 \<and> good ?a w2")
    case True
    then show thesis using that [of w2] eq w2(1) k s2 by simp
  next
    case False
    then obtain e where e: "vt Activate w1 = fpi_image_device_activate_complete vt (Some e) w2" "good FPI_IMAGE_DEVICE_STATE_INACTIVE w2"
      using w2(3) by blast
    obtain w' where w': "fpi_image_device_activate_complete vt (Some e) w2 = Some w'" "img_device.more w' = img_device.more w2"
      "finished w'" "keeps (w_fp w2) (w_fp w')" by (rule activation_fails [OF s2])
    then show thesis using that [of w'] eq e own_part [OF w'(2)] w2(1) keeps_trans [OF k] by simp
  qed
qed

lemma capture_starts:
  assumes "ok w" "acting w" "calm w" "good FPI_IMAGE_DEVICE_STATE_INACTIVE w"
  obtains w' where "fp_image_device_start_capture_action vt w = Some w'" "ok w'" "keeps (w_fp w) (w_fp w')"
    "finished w' \<and> good FPI_IMAGE_DEVICE_STATE_INACTIVE w' \<or> starting w' \<and> good FPI_IMAGE_DEVICE_STATE_ACTIVATING w'"
proof (cases "action_of w = FPI_DEVICE_ACTION_CAPTURE \<and> \<not> fp_wait_for_finger (w_fp w)")
  case True
  let ?w = "upd_fp (fpi_device_action_error (Some (FP_DEVICE_ERROR FP_DEVICE_ERROR_NOT_SUPPORTED))) w"
  have c: "completes (w_fp w) (w_fp ?w)" using completes_error assms(2) by (simp add: acting_def)
  then have "finished ?w" using assms by (auto simp: finished_def calm_def acting_def completes_def)
  then show thesis using that [of ?w] True c assms(1,4) by (simp add: fp_image_device_start_capture_action_def completes_def)
next
  case False
  define w1 where "w1 = upd_pv (\<lambda>p. p\<lparr>pv_enroll_stage := 0\<rparr>)
    (if action_of w = FPI_DEVICE_ACTION_ENROLL then upd_fp (\<lambda>d. d\<lparr>fp_enroll_type_set := True\<rparr>) w else w)"
  have k: "keeps (w_fp w) (w_fp w1)" by (simp add: w1_def keeps_def)
  have w1: "ok w1" "acting w1" "calm w1" using assms by (auto simp: w1_def acting_def calm_def)
  have eq: "fp_image_device_start_capture_action vt w = fpi_image_device_activate vt w1"
    using False w1(3) unfolding fp_image_device_start_capture_action_def Let_def if_not_P [OF False] w1_def [symmetric] by (simp add: calm_def)
  show thesis by (rule activate_starts [OF w1]) (use that eq keeps_trans [OF k] in auto)
qed

lemma cancelled_settles:
  assumes "ok w" "starting w \<and> good FPI_IMAGE_DEVICE_STATE_ACTIVATING w \<or> running good w \<or> waiting w \<and> good FPI_IMAGE_DEVICE_STATE_INACTIVE w"
  obtains w' where "fp_device_cancel_in_idle_cb vt w = Some w'" "ok w'" "keeps (w_fp w) (w_fp w')"
    "starting w' \<and> good FPI_IMAGE_DEVICE_STATE_ACTIVATING w' \<or> ended good w'"
proof -
  define w1 where "w1 = upd_fp (\<lambda>d. d\<lparr>fp_cancel_idle := False\<rparr>) w"
  let ?f = "fpi_device_report_finger_status FP_FINGER_STATUS_NONE"
  have k: "keeps (w_fp w) (w_fp w1)" by (simp add: w1_def keeps_def)
  have ok1: "ok w1" using assms(1) by (simp add: w1_def)
  have a: "capture_action (action_of w)" using assms(2) by (auto simp: starting_def running_def waiting_def acting_def)
  have eq: "fp_device_cancel_in_idle_cb vt w = do { w \<leftarrow> fpi_image_device_deactivate vt True w1; Some (upd_fp ?f w) }"
    using a by (auto simp: fp_device_cancel_in_idle_cb_def fp_image_device_cancel_action_def w1_def capture_action_def)
  have f: "keeps (w_fp w) (w_fp (upd_fp ?f w'))" if "keeps (w_fp w1) (w_fp w')" for w'
    using keeps_trans [OF k that] steady_finger(1) [of "w_fp w'" FP_FINGER_STATUS_NONE] keeps_trans by (auto simp: steady_def)
  show thesis
  proof (cases "running good w")
    case True
    then have "acting w1" "pv_active (w_pv w1)" "state_of w1 \<in> working_states" by (auto simp: w1_def running_def acting_def)
    with ok1 obtain w2 where w2: "fpi_image_device_deactivate vt True w1 = Some w2" "ok w2" "ended good w2" "keeps (w_fp w1) (w_fp w2)"
      by (rule deactivate_ends)
    then show thesis using that [of "upd_fp ?f w2"] eq f [OF w2(4)] ended_steady [OF w2(3), of ?f] by simp
  next
    case False
    then have "fpi_image_device_deactivate vt True w1 = Some w1"
      using assms(2) by (auto simp: fpi_image_device_deactivate_def w1_def starting_def calm_def waiting_def)
    moreover have "starting (upd_fp ?f w1) \<and> good FPI_IMAGE_DEVICE_STATE_ACTIVATING (upd_fp ?f w1) \<or> ended good (upd_fp ?f w1)"
      using False assms(2) steady_finger(1) [of "w_fp w1" FP_FINGER_STATUS_NONE]
      by (auto simp: w1_def starting_def ended_def waiting_def acting_def calm_def steady_def keeps_def)
    ultimately show thesis using that [of "upd_fp ?f w1"] eq ok1 f [OF keeps_refl] by simp
  qed
qed

end

end
