(* ===== verification/Driver_Run.thy ===== *)
theory Driver_Run
  imports Gxfp_Driver Image_Contract
begin

text \<open>
  The driver keeps the contract of the image device class, and the main loop around both: what the session does in each
  state of the device, the interpretation of the contract on the driver's table of methods, the invariant of the main loop
  and that every dispatch keeps it.
\<close>

section \<open>The driver's part of the object\<close>

definition impl_of :: "gxfp_device \<Rightarrow> gxfp_session_impl" where
  "impl_of w = the (se_impl (dr_sess w))"

abbreviation gx_mode :: "gxfp_device \<Rightarrow> gxfp_session_mode" where
  "gx_mode w \<equiv> ss_mode (impl_of w)"

definition put_impl :: "gxfp_session_impl \<Rightarrow> uhist \<Rightarrow> gxfp_device \<Rightarrow> gxfp_device" where
  "put_impl i h w = w\<lparr>dr_sess := (dr_sess w)\<lparr>se_impl := Some i\<rparr>, dr_h := h\<rparr>"

text \<open>An open session that keeps its invariant; \<open>k\<close> is the memory that is not its own.\<close>

definition gx_ok :: "uenv \<Rightarrow> tlslib \<Rightarrow> int \<Rightarrow> gxfp_device \<Rightarrow> bool" where
  "gx_ok env lib k w \<longleftrightarrow> world_ok env lib \<and> se_impl (dr_sess w) \<noteq> None \<and> session_ok (impl_of w) \<and> gx_mode w \<noteq> GXFP_MODE_CLOSED \<and>
     ulive (dr_h w) - owned (dr_sess w) = k"

definition gx_healthy :: "gxfp_device \<Rightarrow> bool" where
  "gx_healthy w \<longleftrightarrow> gx_mode w \<noteq> GXFP_MODE_FAILED"

text \<open>The timer is set. The one exception is a TLS service that has failed with a code the session takes for a pause.\<close>

definition armed :: "gxfp_device \<Rightarrow> bool" where
  "armed w \<longleftrightarrow> dr_timer w \<noteq> None \<or> gxfp_tls_service_state (Some (ss_svc (impl_of w))) = GXFP_TLS_HS_ERROR"

definition resting :: "gxfp_session_mode \<Rightarrow> bool" where
  "resting m \<longleftrightarrow> m \<in> {GXFP_MODE_CLOSED, GXFP_MODE_READY, GXFP_MODE_FAILED}"

fun gx_good :: "FpiImageDeviceState \<Rightarrow> gxfp_device \<Rightarrow> bool" where
  "gx_good FPI_IMAGE_DEVICE_STATE_ACTIVATING w = (activating (gx_mode w) \<and> armed w)"
| "gx_good FPI_IMAGE_DEVICE_STATE_IDLE w = (gx_mode w = GXFP_MODE_IDLE)"
| "gx_good FPI_IMAGE_DEVICE_STATE_AWAIT_FINGER_ON w = (gx_mode w = GXFP_MODE_WAIT_FINGER_ON \<and> armed w)"
| "gx_good FPI_IMAGE_DEVICE_STATE_CAPTURE w = (gx_mode w = GXFP_MODE_CAPTURING \<and> armed w)"
| "gx_good FPI_IMAGE_DEVICE_STATE_AWAIT_FINGER_OFF w = (gx_mode w = GXFP_MODE_WAIT_FINGER_OFF \<and> armed w)"
| "gx_good FPI_IMAGE_DEVICE_STATE_INACTIVE w = resting (gx_mode w)"
| "gx_good FPI_IMAGE_DEVICE_STATE_DEACTIVATING w = gx_healthy w"

lemma more_sel: "img_device.more w' = img_device.more w \<Longrightarrow> dr_sess w' = dr_sess w \<and> dr_timer w' = dr_timer w \<and> dr_h w' = dr_h w"
  for w w' :: gxfp_device
  by (cases w, cases w') simp

lemma put_impl_sel [simp]:
  "impl_of (put_impl i h w) = i" "dr_timer (put_impl i h w) = dr_timer w" "dr_h (put_impl i h w) = h"
  "w_fp (put_impl i h w) = w_fp w" "w_pv (put_impl i h w) = w_pv w" "w_scans (put_impl i h w) = w_scans w"
  "se_impl (dr_sess (put_impl i h w)) = Some i" "owned (dr_sess (put_impl i h w)) = session_blocks i"
  by (simp_all add: put_impl_def impl_of_def owned_def)

lemma put_impl_ok:
  assumes "gx_ok env lib k w" "session_same (impl_of w) (dr_h w) i h"
  shows "gx_ok env lib k (put_impl i h w)"
  using assms by (auto simp: gx_ok_def session_same_def impl_of_def owned_def)

text \<open>Only the timer.\<close>

lemma timer_sel [simp]:
  "impl_of (cancel_scheduled_pump w) = impl_of w" "gx_ok env lib k (cancel_scheduled_pump w) = gx_ok env lib k w"
  "same_class w (cancel_scheduled_pump w)" "dr_timer (cancel_scheduled_pump w) = None"
  "impl_of (schedule_pump_soon n w) = impl_of w" "gx_ok env lib k (schedule_pump_soon n w) = gx_ok env lib k w"
  "same_class w (schedule_pump_soon n w)" "dr_timer (schedule_pump_soon n w) \<noteq> None"
  by (auto simp: cancel_scheduled_pump_def schedule_pump_soon_def impl_of_def gx_ok_def same_class_def)

section \<open>What the session does in a state\<close>

lemma set_error_eq:
  "session_set_error env s e r t h = Some ((s', e'), h') \<Longrightarrow>
     e' = e\<lparr>ev_session_error := True, ev_error_code := r, ev_error_target := t\<rparr> \<and> ss_mode s' = GXFP_MODE_FAILED"
  by (auto simp: session_set_error_def Let_def split: if_splits bind_splits)

lemma set_fdt_mode_eq:
  assumes "session_set_fdt_mode env s e m h = Some ((s', e'), h')"
  shows "e' = e \<and> ss_mode s' = ss_mode s \<or>
    (\<exists>r. e' = e\<lparr>ev_session_error := True, ev_error_code := r, ev_error_target := GXFP_SESSION_ERR_TARGET_GENERIC\<rparr>)"
  using assms by (auto simp: session_set_fdt_mode_def Let_def dest: set_error_eq split: if_splits prod.splits)

lemma set_fdt_idle:
  "session_set_fdt_mode env s e GXFP_FDT_MODE_IDLE h = Some ((s\<lparr>ss_fdt := (ss_fdt s)\<lparr>ff_mode := GXFP_FDT_MODE_IDLE\<rparr>\<rparr>, e), h) \<or>
   session_set_fdt_mode env s e GXFP_FDT_MODE_IDLE h = Some ((s, e), h)"
  by (auto simp: session_set_fdt_mode_def gxfp_fdt_flow_set_mode_def Let_def)

lemma change_state_same:
  assumes "world_ok env lib" "session_ok s" "ss_mode s \<noteq> GXFP_MODE_CLOSED"
  obtains s' e' h' where "session_change_state_impl env st s events_zero h = Some ((s', e'), h')" "session_same s h s' h'"
proof -
  obtain s0 h0 where "session_same s h s0 h0" "session_post s0 events_zero h0 (session_change_state_impl env st s events_zero h)"
    by (rule change_state_post [OF world_okD(1) [OF assms(1)] assms(2,3), of h st events_zero])
  then show thesis using that session_same_trans unfolding session_post_def by blast
qed

lemma change_state_stays:
  "ss_mode s = GXFP_MODE_FAILED \<Longrightarrow> session_change_state_impl env st s e h = Some ((s, e), h)"
  by (simp add: session_change_state_impl_def)

lemma change_state_idles:
  assumes "session_change_state_impl env st s e h = Some ((s', e'), h')" "ss_mode s \<noteq> GXFP_MODE_CLOSED" "ss_mode s \<noteq> GXFP_MODE_FAILED"
    and "st = GXFP_SESSION_STATE_IDLE \<or> st = GXFP_SESSION_STATE_INACTIVE"
  shows "e' = e \<and> ss_mode s' = (if st = GXFP_SESSION_STATE_IDLE then GXFP_MODE_IDLE else GXFP_MODE_READY)"
  using assms set_fdt_idle [of env "s\<lparr>ss_mode := GXFP_MODE_IDLE\<rparr>" e h] set_fdt_idle [of env "s\<lparr>ss_mode := GXFP_MODE_READY\<rparr>" e h]
  by (auto simp: session_change_state_impl_def gxfp_session_mode_has_io_def gxfp_session_stop_run_def)

text \<open>The mode a loud state asks for.\<close>

fun mode_for :: "FpiImageDeviceState \<Rightarrow> gxfp_session_mode" where
  "mode_for FPI_IMAGE_DEVICE_STATE_AWAIT_FINGER_ON = GXFP_MODE_WAIT_FINGER_ON"
| "mode_for FPI_IMAGE_DEVICE_STATE_CAPTURE = GXFP_MODE_CAPTURING"
| "mode_for FPI_IMAGE_DEVICE_STATE_AWAIT_FINGER_OFF = GXFP_MODE_WAIT_FINGER_OFF"
| "mode_for _ = GXFP_MODE_IDLE"

definition failing :: "gxfp_session_events \<Rightarrow> bool" where
  "failing e \<longleftrightarrow> (\<exists>r t. t \<noteq> GXFP_SESSION_ERR_TARGET_ACTIVATE \<and>
     e = events_zero\<lparr>ev_session_error := True, ev_error_code := r, ev_error_target := t\<rparr>)"

lemma change_state_works:
  assumes "session_change_state_impl env (session_state_of st) s events_zero h = Some ((s', e'), h')"
    and "ss_mode s \<noteq> GXFP_MODE_CLOSED" "ss_mode s \<noteq> GXFP_MODE_FAILED" "st \<in> loud_states"
  shows "failing e' \<or> e' = events_zero\<lparr>ev_request_tick := True, ev_tick_delay_ms := 0\<rparr> \<and> ss_mode s' = mode_for st"
proof -
  have fdt: "failing e2 \<or> e2 = events_zero\<lparr>ev_request_tick := True, ev_tick_delay_ms := 0\<rparr> \<and> ss_mode s2 = ss_mode s1"
    if "do { ((s, e), h) \<leftarrow> session_set_fdt_mode env s1 events_zero m h;
        Some ((s, if \<not> ev_session_error e then e\<lparr>ev_request_tick := True, ev_tick_delay_ms := 0\<rparr> else e), h) } = Some ((s2, e2), h2)" for s1 s2 e2 h2 m
    using that set_fdt_mode_eq [of env s1 events_zero m h] by (fastforce simp: failing_def events_zero_def split: bind_splits)
  have err: "failing e2" if "session_set_error env s1 events_zero r GXFP_SESSION_ERR_TARGET_CAPTURE h1 = Some ((s2, e2), h2)" for s1 r h1 s2 e2 h2
    using set_error_eq [OF that] by (auto simp: failing_def)
  show ?thesis
    using assms fdt err
    by (cases st) (fastforce simp: session_change_state_impl_def gxfp_session_mode_has_io_def Let_def loud_states_def split: if_splits prod.splits)+
qed

section \<open>Events\<close>

lemma handle_zero [simp]: "handle_session_events vt events_zero w = Some w"
  by (simp add: handle_session_events_def events_zero_def)

lemma handle_tick [simp]:
  "handle_session_events vt (events_zero\<lparr>ev_request_tick := True, ev_tick_delay_ms := n\<rparr>) w = Some (schedule_pump_soon n w)"
  by (simp add: handle_session_events_def events_zero_def)

lemma handle_failing:
  "failing e \<Longrightarrow> handle_session_events vt e w = fpi_image_device_session_error vt (Some general_error) (cancel_scheduled_pump w)"
  by (auto simp: failing_def handle_session_events_def events_zero_def)

lemma handle_activation_failed:
  "handle_session_events vt (events_zero\<lparr>ev_session_error := True, ev_error_code := r, ev_error_target := GXFP_SESSION_ERR_TARGET_ACTIVATE\<rparr>) w =
     fpi_image_device_activate_complete vt (Some general_error) (cancel_scheduled_pump w)"
  by (simp add: handle_session_events_def events_zero_def)

lemma handle_deactivated:
  "handle_session_events vt (events_zero\<lparr>ev_cancel_tick := True, ev_deactivate_complete := True\<rparr>) w =
     fpi_image_device_deactivate_complete vt None (cancel_scheduled_pump w)"
proof -
  have "cancel_scheduled_pump (cancel_scheduled_pump w) = cancel_scheduled_pump w" by (simp add: cancel_scheduled_pump_def)
  then show ?thesis by (simp add: handle_session_events_def events_zero_def)
qed

lemma with_session_impl:
  assumes "se_impl (dr_sess w) \<noteq> None" "f (impl_of w) events_zero (dr_h w) = Some ((i, e), h)"
  shows "with_session vt (\<lambda>s evs h. with_impl s evs h f) w = handle_session_events vt e (put_impl i h w)"
  using assms by (auto simp: with_session_def events_clear with_impl_def impl_of_def put_impl_def)

section \<open>The driver keeps the contract\<close>

lemma vt_change_state:
  "gxfp_vt env lib cfg (Change_state st) w =
     with_session (gxfp_vt env lib cfg) (\<lambda>s evs h. with_impl s evs h (session_change_state_impl env (session_state_of st))) w"
  by (subst gxfp_vt.simps) (simp add: fpi_device_gxfp_class_def gxfp_change_state_def gxfp_session_change_state_def [abs_def])

lemma vt_deactivate:
  "gxfp_vt env lib cfg Deactivate w = with_session (gxfp_vt env lib cfg)
     (\<lambda>s evs h. with_impl s evs h (\<lambda>i e. session_begin_cleanup env i GXFP_CLEANUP_DEACTIVATE False e)) (cancel_scheduled_pump w)"
  by (subst gxfp_vt.simps) (simp add: fpi_device_gxfp_class_def gxfp_deactivate_def gxfp_session_request_deactivate_def [abs_def])

lemma vt_activate: "gxfp_vt env lib cfg Activate w = gxfp_activate env lib (gxfp_vt env lib cfg) w"
  by (subst gxfp_vt.simps) (simp add: fpi_device_gxfp_class_def)

lemma gx_okD:
  assumes "gx_ok env lib k w"
  shows "world_ok env lib" "se_impl (dr_sess w) \<noteq> None" "session_ok (impl_of w)" "gx_mode w \<noteq> GXFP_MODE_CLOSED"
  using assms by (simp_all add: gx_ok_def)

lemma driver_state:
  assumes "gx_ok env lib k w"
  obtains i e h where "gxfp_vt env lib cfg (Change_state st) w = handle_session_events (gxfp_vt env lib cfg) e (put_impl i h w)"
    "session_change_state_impl env (session_state_of st) (impl_of w) events_zero (dr_h w) = Some ((i, e), h)" "gx_ok env lib k (put_impl i h w)"
proof -
  note k = gx_okD [OF assms]
  obtain i e h where c: "session_change_state_impl env (session_state_of st) (impl_of w) events_zero (dr_h w) = Some ((i, e), h)"
    "session_same (impl_of w) (dr_h w) i h" by (rule change_state_same [OF k(1,3,4)])
  then show thesis using that vt_change_state with_session_impl [OF k(2)] put_impl_ok [OF assms] by metis
qed

lemma same_class_put [simp]: "same_class w (put_impl i h w)"
  by (simp add: same_class_def)

lemma driver_quiet:
  assumes "gx_ok env lib k w" "st \<in> quiet_states"
  shows "\<exists>w'. gxfp_vt env lib cfg (Change_state st) w = Some w' \<and> gx_ok env lib k w' \<and> same_class w w' \<and>
    (gx_healthy w \<longrightarrow> gx_healthy w' \<and> (st = FPI_IMAGE_DEVICE_STATE_IDLE \<longrightarrow> gx_good st w')) \<and> (\<not> gx_healthy w \<longrightarrow> \<not> gx_healthy w') \<and>
    (st = FPI_IMAGE_DEVICE_STATE_INACTIVE \<and> gx_good st w \<longrightarrow> gx_good st w')"
proof -
  obtain i e h where c: "gxfp_vt env lib cfg (Change_state st) w = handle_session_events (gxfp_vt env lib cfg) e (put_impl i h w)"
    "session_change_state_impl env (session_state_of st) (impl_of w) events_zero (dr_h w) = Some ((i, e), h)" "gx_ok env lib k (put_impl i h w)"
    by (rule driver_state [OF assms(1)])
  show ?thesis
  proof (cases "gx_healthy w")
    case True
    have "session_state_of st = GXFP_SESSION_STATE_IDLE \<or> session_state_of st = GXFP_SESSION_STATE_INACTIVE"
      using assms(2) by (auto simp: quiet_states_def)
    then have "e = events_zero \<and> ss_mode i = (if session_state_of st = GXFP_SESSION_STATE_IDLE then GXFP_MODE_IDLE else GXFP_MODE_READY)"
      using change_state_idles [OF c(2) gx_okD(4) [OF assms(1)]] True by (simp add: gx_healthy_def)
    then show ?thesis using True c(1,3) by (auto simp: gx_healthy_def resting_def)
  next
    case False
    then show ?thesis using c change_state_stays [of "impl_of w"] by (auto simp: gx_healthy_def)
  qed
qed

lemma driver_loud:
  assumes "gx_ok env lib k w" "st \<in> loud_states" "gx_healthy w"
  shows "\<exists>w'. gx_ok env lib k w' \<and> same_class w w' \<and>
    (gxfp_vt env lib cfg (Change_state st) w = Some w' \<and> gx_good st w' \<or>
     (\<exists>e. gxfp_vt env lib cfg (Change_state st) w = fpi_image_device_session_error (gxfp_vt env lib cfg) (Some (FP_DEVICE_ERROR e)) w'))"
proof -
  obtain i e h where c: "gxfp_vt env lib cfg (Change_state st) w = handle_session_events (gxfp_vt env lib cfg) e (put_impl i h w)"
    "session_change_state_impl env (session_state_of st) (impl_of w) events_zero (dr_h w) = Some ((i, e), h)" "gx_ok env lib k (put_impl i h w)"
    by (rule driver_state [OF assms(1)])
  have "failing e \<or> e = events_zero\<lparr>ev_request_tick := True, ev_tick_delay_ms := 0\<rparr> \<and> ss_mode i = mode_for st"
    by (rule change_state_works [OF c(2) gx_okD(4) [OF assms(1)] _ assms(2)]) (use assms(3) in \<open>simp add: gx_healthy_def\<close>)
  then show ?thesis
  proof
    assume "failing e"
    then have "gxfp_vt env lib cfg (Change_state st) w =
        fpi_image_device_session_error (gxfp_vt env lib cfg) (Some general_error) (cancel_scheduled_pump (put_impl i h w))"
      using c(1) by (simp add: handle_failing)
    moreover have "same_class w (cancel_scheduled_pump (put_impl i h w))"
      using timer_sel(3) [of "put_impl i h w"] by (simp add: same_class_def)
    ultimately show ?thesis using c(3) by (metis timer_sel(2))
  next
    assume e: "e = events_zero\<lparr>ev_request_tick := True, ev_tick_delay_ms := 0\<rparr> \<and> ss_mode i = mode_for st"
    let ?w = "schedule_pump_soon 0 (put_impl i h w)"
    have "gx_good st ?w" using e assms(2) by (auto simp: loud_states_def armed_def)
    moreover have "same_class w ?w" using timer_sel(7) [of "put_impl i h w"] by (simp add: same_class_def)
    ultimately show ?thesis using c(1,3) e by (metis handle_tick timer_sel(6))
  qed
qed

lemma driver_failed:
  assumes "gx_ok env lib k w" "\<not> gx_healthy w"
  shows "\<exists>w'. gxfp_vt env lib cfg (Change_state st) w = Some w' \<and> gx_ok env lib k w' \<and> \<not> gx_healthy w' \<and> same_class w w'"
proof -
  obtain i e h where "gxfp_vt env lib cfg (Change_state st) w = handle_session_events (gxfp_vt env lib cfg) e (put_impl i h w)"
    "session_change_state_impl env (session_state_of st) (impl_of w) events_zero (dr_h w) = Some ((i, e), h)" "gx_ok env lib k (put_impl i h w)"
    by (rule driver_state [OF assms(1)])
  then show ?thesis using assms(2) change_state_stays [of "impl_of w"] by (auto simp: gx_healthy_def)
qed

lemma driver_activates:
  assumes "gx_ok env lib k w"
  shows "\<exists>w'. gx_ok env lib k w' \<and> same_class w w' \<and>
    (gxfp_vt env lib cfg Activate w = Some w' \<and> gx_good FPI_IMAGE_DEVICE_STATE_ACTIVATING w' \<or>
     gx_good FPI_IMAGE_DEVICE_STATE_INACTIVE w' \<and> (\<exists>e. gxfp_vt env lib cfg Activate w = fpi_image_device_activate_complete (gxfp_vt env lib cfg) (Some e) w'))"
proof -
  note k = gx_okD [OF assms]
  obtain i0 where i0: "se_impl (dr_sess w) = Some i0" "impl_of w = i0" using k(2) by (auto simp: impl_of_def)
  have no: "\<not> ev_session_error events_zero" by (simp add: events_zero_def)
  let ?vt = "gxfp_vt env lib cfg"
  show ?thesis
  proof (cases rule: activate_runs [OF world_okD(1) [OF k(1)] k(3,4) no, where lib = lib and h = "dr_h w"])
    case (1 i h)
    let ?w = "schedule_pump_soon 0 (schedule_pump_soon 0 (put_impl i h w))"
    have "?vt Activate w = Some ?w"
      using 1 i0 by (simp add: vt_activate gxfp_activate_def gxfp_session_activate_def events_clear put_impl_def [symmetric])
    moreover have "gx_good FPI_IMAGE_DEVICE_STATE_ACTIVATING ?w" using 1(3) by (simp add: armed_def activating_def)
    moreover have "gx_ok env lib k ?w" using put_impl_ok [OF assms 1(2)] by simp
    moreover have "same_class w ?w" by (simp add: same_class_def schedule_pump_soon_def)
    ultimately show ?thesis by blast
  next
    case (2 i r h)
    let ?w = "cancel_scheduled_pump (put_impl i h w)"
    have "?vt Activate w = fpi_image_device_activate_complete ?vt (Some general_error) ?w"
      using 2 i0
      by (simp add: vt_activate gxfp_activate_def gxfp_session_activate_def events_clear put_impl_def [symmetric] handle_activation_failed)
    moreover have "gx_ok env lib k ?w" using put_impl_ok [OF assms 2(3)] by simp
    moreover have "gx_good FPI_IMAGE_DEVICE_STATE_INACTIVE ?w" using 2(4) by (simp add: resting_def)
    moreover have "same_class w ?w" by (simp add: same_class_def cancel_scheduled_pump_def)
    ultimately show ?thesis by blast
  qed
qed

lemma driver_deactivates:
  assumes "gx_ok env lib k w"
  shows "\<exists>w'. gxfp_vt env lib cfg Deactivate w = fpi_image_device_deactivate_complete (gxfp_vt env lib cfg) None w' \<and>
    gx_ok env lib k w' \<and> same_class w w' \<and> gx_good FPI_IMAGE_DEVICE_STATE_INACTIVE w'"
proof -
  let ?w = "cancel_scheduled_pump w"
  have ok: "gx_ok env lib k ?w" using assms by simp
  note k = gx_okD [OF ok]
  obtain i where i: "session_begin_cleanup env (impl_of ?w) GXFP_CLEANUP_DEACTIVATE False events_zero (dr_h ?w) =
      Some ((i, events_zero\<lparr>ev_cancel_tick := True, ev_deactivate_complete := True\<rparr>), dr_h ?w)"
    "ss_mode i = GXFP_MODE_READY" "session_moved (impl_of ?w) (dr_h ?w) i (dr_h ?w)"
    using deactivate_runs [OF k(3), of env False events_zero "dr_h ?w"] k(4) by (metis (no_types))
  let ?w2 = "cancel_scheduled_pump (put_impl i (dr_h ?w) ?w)"
  have "gxfp_vt env lib cfg Deactivate w = fpi_image_device_deactivate_complete (gxfp_vt env lib cfg) None ?w2"
    using with_session_impl [where f = "\<lambda>i e. session_begin_cleanup env i GXFP_CLEANUP_DEACTIVATE False e", OF k(2)] i(1)
    by (simp add: vt_deactivate handle_deactivated)
  moreover have "gx_ok env lib k (put_impl i (dr_h ?w) ?w)"
    using ok i(2,3) k(2) by (auto simp: gx_ok_def session_moved_def impl_of_def owned_def put_impl_def)
  then have "gx_ok env lib k ?w2" by simp
  moreover have "gx_good FPI_IMAGE_DEVICE_STATE_INACTIVE ?w2" using i(2) by (simp add: resting_def)
  moreover have "same_class w ?w2" by (simp add: same_class_def cancel_scheduled_pump_def)
  ultimately show ?thesis by blast
qed

interpretation gx: image_driver "gxfp_vt env lib cfg" "gx_ok env lib k" gx_healthy gx_good for env lib cfg k
proof unfold_locales
  show "gx_ok env lib k w' = gx_ok env lib k w \<and> gx_healthy w' = gx_healthy w \<and> gx_good st w' = gx_good st w"
    if "img_device.more w' = img_device.more w" for w' w st
    using more_sel [OF that] by (cases st) (auto simp: gx_ok_def gx_healthy_def armed_def impl_of_def)
  show "gx_healthy w" if "gx_good st w" "st \<noteq> FPI_IMAGE_DEVICE_STATE_INACTIVE" for st w
    using that by (cases st) (auto simp: gx_healthy_def activating_def)
qed (rule driver_quiet driver_loud driver_failed driver_activates driver_deactivates; assumption)+

end
