(* ===== verification/Driver_Loop.thy ===== *)
theory Driver_Loop
  imports Driver_Run
begin

text \<open>
  The main loop around the driver: what a tick of the session does to the action in progress, the invariant of the object
  between two dispatches, and that every dispatch returns and keeps it.
\<close>

section \<open>Phases\<close>

text \<open>The phases of a capture action between two dispatches: activation is under way; the device is at work, with the session in
  the mode its state asks for and the next tick scheduled; the device is inactive again and waits for the features of the last
  image; or the action is complete.\<close>

definition phase :: "gxfp_device \<Rightarrow> bool" where
  "phase w \<longleftrightarrow> starting w \<and> gx_good FPI_IMAGE_DEVICE_STATE_ACTIVATING w \<or> running gx_good w \<or>
     gx_good FPI_IMAGE_DEVICE_STATE_INACTIVE w \<and> (waiting w \<or> finished w)"

lemma phase_ended: "ended gx_good w \<Longrightarrow> phase w"
  by (auto simp: phase_def ended_def)

lemma phase_settled: "settled gx_good w w' \<Longrightarrow> phase w'"
  by (auto simp: settled_def phase_ended) (simp add: phase_def)

text \<open>Scheduling a tick disturbs no phase.\<close>

lemma schedule_sel [simp]:
  "w_fp (schedule_pump_soon n w) = w_fp w" "w_pv (schedule_pump_soon n w) = w_pv w" "w_scans (schedule_pump_soon n w) = w_scans w"
  "w_fp (cancel_scheduled_pump w) = w_fp w" "w_pv (cancel_scheduled_pump w) = w_pv w" "w_scans (cancel_scheduled_pump w) = w_scans w"
  by (simp_all add: schedule_pump_soon_def cancel_scheduled_pump_def)

lemma good_schedule: "gx_good st w \<Longrightarrow> gx_good st (schedule_pump_soon n w)"
  by (cases st) (auto simp: armed_def gx_healthy_def)

lemma same_class_phases:
  assumes "same_class w w'"
  shows "starting w' = starting w" "waiting w' = waiting w" "finished w' = finished w" "acting w' = acting w"
    "running good w \<Longrightarrow> (\<And>st. good st w \<Longrightarrow> good' st w') \<Longrightarrow> running good' w'"
  using assms by (simp_all add: same_class_def starting_def waiting_def finished_def acting_def calm_def running_def)

lemma phase_schedule: "phase w \<Longrightarrow> phase (schedule_pump_soon n w)"
  unfolding phase_def same_class_phases(1-3) [OF timer_sel(7)]
  using good_schedule same_class_phases(5) [OF timer_sel(7) [of w n], of gx_good gx_good] by blast

section \<open>Events of a tick\<close>

text \<open>The mode before the tick fits the action.\<close>

definition fits :: "gxfp_session_mode \<Rightarrow> gxfp_device \<Rightarrow> bool" where
  "fits m w \<longleftrightarrow> starting w \<and> activating m \<or> running (\<lambda>st _. m = mode_for st) w"

lemma same_class_fits: "same_class w w' \<Longrightarrow> fits m w' = fits m w"
  by (simp add: fits_def same_class_def starting_def acting_def calm_def running_def)

lemma working_state:
  assumes "running (\<lambda>st _. m = mode_for st) w"
  shows "m = GXFP_MODE_WAIT_FINGER_ON \<Longrightarrow> state_of w = FPI_IMAGE_DEVICE_STATE_AWAIT_FINGER_ON"
    "m = GXFP_MODE_WAIT_FINGER_OFF \<Longrightarrow> state_of w = FPI_IMAGE_DEVICE_STATE_AWAIT_FINGER_OFF"
    "m = GXFP_MODE_CAPTURING \<Longrightarrow> state_of w = FPI_IMAGE_DEVICE_STATE_CAPTURE" "\<not> activating m"
  using assms by (auto simp: running_def working_states_def activating_def)

lemma running_mono: "running good w \<Longrightarrow> (\<And>st. good st w \<Longrightarrow> good' st w) \<Longrightarrow> running good' w"
  by (auto simp: running_def)

lemma running_weak: "running good w \<Longrightarrow> running (\<lambda>_ _. True) w"
  by (auto simp: running_def)

text \<open>The report of the finger or of the image, whatever else the tick has found.\<close>

lemma finger_settles:
  assumes "gx_ok env lib k w" "running (\<lambda>st _. m = mode_for st) w" "m = (if p then GXFP_MODE_WAIT_FINGER_ON else GXFP_MODE_WAIT_FINGER_OFF)"
  obtains w' where "fpi_image_device_report_finger_status (gxfp_vt env lib cfg) p w = Some w'" "gx_ok env lib k w'"
    "settled (gx.owed w) w w'"
proof (cases p)
  case True
  have "state_of w = FPI_IMAGE_DEVICE_STATE_AWAIT_FINGER_ON" using working_state(1) [OF assms(2)] assms(3) True by simp
  then show thesis using gx.finger_down [OF assms(1) running_weak [OF assms(2)]] that True by metis
next
  case False
  have "state_of w = FPI_IMAGE_DEVICE_STATE_AWAIT_FINGER_OFF" using working_state(2) [OF assms(2)] assms(3) False by simp
  then show thesis using gx.finger_up [OF assms(1) running_weak [OF assms(2)]] that False by metis
qed

lemma owed_same: "gx_healthy w1 = gx_healthy w \<Longrightarrow> w_fp w1 = w_fp w \<Longrightarrow> settled (gx.owed w1) w1 w' = settled (gx.owed w) w w'"
  by (simp add: settled_def running_def gx.owed_def)

lemma image_settles:
  assumes "gx_ok env lib k w" "running (\<lambda>st _. GXFP_MODE_CAPTURING = mode_for st) w"
  obtains w' where "emit_image_captured (gxfp_vt env lib cfg) w = Some w'" "gx_ok env lib k w'" "settled (gx.owed w) w w'"
proof -
  obtain i where i: "se_impl (dr_sess w) = Some i" "impl_of w = i" using gx_okD(2) [OF assms(1)] by (auto simp: impl_of_def)
  have cap: "state_of w = FPI_IMAGE_DEVICE_STATE_CAPTURE" by (rule working_state(3) [OF assms(2) refl])
  show thesis
  proof (cases "ss_pending_img_ready i")
    case False
    have "w\<lparr>dr_sess := dr_sess w\<rparr> = w" by simp
    then have eq: "emit_image_captured (gxfp_vt env lib cfg) w = fpi_image_device_session_error (gxfp_vt env lib cfg) (Some general_error) w"
      using False i by (simp add: emit_image_captured_def gxfp_session_take_image_def Let_def)
    have "acting w" "pv_active (w_pv w)" "state_of w \<in> working_states" using assms(2) by (auto simp: running_def)
    with assms(1) obtain w' where "fpi_image_device_session_error (gxfp_vt env lib cfg) (Some general_error) w = Some w'"
      "gx_ok env lib k w'" "ended gx_good w'" "keeps (w_fp w) (w_fp w')" by (rule gx.session_error_ends)
    then show thesis using that eq by (simp add: settled_def)
  next
    case True
    define w1 where "w1 = w\<lparr>dr_sess := (dr_sess w)\<lparr>se_impl := Some (i\<lparr>ss_pending_img := image_zero, ss_pending_img_ready := False\<rparr>)\<rparr>,
      dr_h := snd (gxfp_decoded_image_free (Some (ss_pending_img i)) (dr_h w))\<rparr>"
    have eq: "emit_image_captured (gxfp_vt env lib cfg) w =
        fpi_image_device_image_captured (gxfp_vt env lib cfg) (Some (image_of_pixels (ss_pending_img i))) w1"
      using True i by (simp add: emit_image_captured_def gxfp_session_take_image_def Let_def w1_def)
    have ok: "session_ok i" "gx_mode w \<noteq> GXFP_MODE_CLOSED" using gx_okD(3,4) [OF assms(1)] i(2) by simp_all
    then obtain px where px: "im_pixels (ss_pending_img i) = Some px" using True by (auto simp: session_ok_def image_ok_def split: option.splits)
    have "session_ok (i\<lparr>ss_pending_img := image_zero, ss_pending_img_ready := False\<rparr>)" using ok i(2) by (simp add: session_ok_def image_zero_def)
    moreover have "session_blocks (i\<lparr>ss_pending_img := image_zero, ss_pending_img_ready := False\<rparr>) = session_blocks i - 1"
      using px by (simp add: session_blocks_def image_zero_def)
    moreover have "ulive (snd (gxfp_decoded_image_free (Some (ss_pending_img i)) (dr_h w))) = ulive (dr_h w) - 1"
      using px by (simp add: gxfp_decoded_image_free_def)
    ultimately have "gx_ok env lib k w1" using assms(1) i by (simp add: gx_ok_def w1_def impl_of_def owned_def)
    moreover have "same_class w w1" "gx_healthy w1 = gx_healthy w" using i by (simp_all add: same_class_def w1_def gx_healthy_def impl_of_def)
    moreover have "running (\<lambda>_ _. True) w1" "state_of w1 = FPI_IMAGE_DEVICE_STATE_CAPTURE"
      using same_class_phases(5) [OF \<open>same_class w w1\<close> assms(2), of "\<lambda>_ _. True"] cap by (simp_all add: w1_def)
    ultimately show thesis using that eq gx.image_captured owed_same [of w1 w] unfolding same_class_def by metis
  qed
qed

text \<open>The report of an error after whatever came before it in the same tick.\<close>

lemma error_settles:
  assumes "gx_ok env lib k w" "capture_action (action_of w)" "starting w \<longrightarrow> resting (gx_mode w)"
    and "starting w \<or> running (\<lambda>_ _. True) w \<or> ended gx_good w" "t = GXFP_SESSION_ERR_TARGET_ACTIVATE \<longrightarrow> starting w"
  obtains w' where "(if t = GXFP_SESSION_ERR_TARGET_ACTIVATE then fpi_image_device_activate_complete (gxfp_vt env lib cfg) (Some general_error) w
      else fpi_image_device_session_error (gxfp_vt env lib cfg) (Some general_error) w) = Some w'"
    "gx_ok env lib k w'" "keeps (w_fp w) (w_fp w')" "phase w'"
proof -
  let ?vt = "gxfp_vt env lib cfg"
  have fin: "gx_ok env lib k w' \<and> phase w'" if "img_device.more w' = img_device.more w" "finished w'" "starting w" for w'
    using gx.own_part [OF that(1), of env lib k FPI_IMAGE_DEVICE_STATE_INACTIVE] assms(1,3) that(2,3) by (simp add: phase_def)
  consider "starting w" | "running (\<lambda>_ _. True) w" "\<not> starting w" | "ended gx_good w" "\<not> starting w" using assms(4) by blast
  then show thesis
  proof cases
    case 1
    obtain w1 where w1: "fpi_image_device_activate_complete ?vt (Some general_error) w = Some w1" "img_device.more w1 = img_device.more w"
      "finished w1" "keeps (w_fp w) (w_fp w1)" by (rule gx.activation_fails [OF 1])
    obtain w2 where w2: "fpi_image_device_session_error ?vt (Some general_error) w = Some w2" "img_device.more w2 = img_device.more w"
      "finished w2" "keeps (w_fp w) (w_fp w2)" by (rule gx.starting_error [OF 1])
    show thesis using that fin 1 w1 w2 by (cases "t = GXFP_SESSION_ERR_TARGET_ACTIVATE") simp_all
  next
    case 2
    then have a: "acting w" "pv_active (w_pv w)" "state_of w \<in> working_states" by (auto simp: running_def)
    obtain w' where "fpi_image_device_session_error ?vt (Some general_error) w = Some w'" "gx_ok env lib k w'" "ended gx_good w'"
      "keeps (w_fp w) (w_fp w')" by (rule gx.session_error_ends [OF assms(1) a])
    then show thesis using that 2(2) assms(5) phase_ended by auto
  next
    case 3
    then have "\<not> pv_active (w_pv w)" "state_of w \<noteq> FPI_IMAGE_DEVICE_STATE_ACTIVATING" "action_of w \<noteq> FPI_DEVICE_ACTION_NONE"
      using assms(2) by (auto simp: ended_def finished_def calm_def waiting_def capture_action_def)
    then obtain f where f: "fpi_image_device_session_error ?vt (Some general_error) w = Some (upd_fp f w)" "steady (w_fp w) (f (w_fp w))"
      by (rule gx.late_error)
    have "ended gx_good (upd_fp f w)" using gx.ended_steady [OF 3(1), of f] f(2) by simp
    then show thesis using that [of "upd_fp f w"] 3(2) assms(1,5) f phase_ended by (auto simp: steady_def)
  qed
qed

lemma reports_settle:
  assumes "gx_ok env lib k w" "fits m w" "messages_fit m (gx_mode w) e"
  obtains w1 w2 where
    "(if ev_finger_status_changed e then fpi_image_device_report_finger_status (gxfp_vt env lib cfg) (ev_finger_present e) w else Some w) = Some w1"
    "(if ev_image_ready e then emit_image_captured (gxfp_vt env lib cfg) w1 else Some w1) = Some w2"
    "w2 = w \<and> \<not> ev_finger_status_changed e \<and> \<not> ev_image_ready e \<or>
     gx_ok env lib k w2 \<and> settled (gx.owed w) w w2 \<and> \<not> activating m"
proof -
  have runs: "running (\<lambda>st _. m = mode_for st) w" if "\<not> activating m" using assms(2) that by (simp add: fits_def)
  consider "ev_finger_status_changed e" | "\<not> ev_finger_status_changed e" "ev_image_ready e" | "\<not> ev_finger_status_changed e" "\<not> ev_image_ready e"
    by blast
  then show thesis
  proof cases
    case 1
    then have m: "m = (if ev_finger_present e then GXFP_MODE_WAIT_FINGER_ON else GXFP_MODE_WAIT_FINGER_OFF)" "\<not> ev_image_ready e"
      using assms(3) by (auto simp: messages_fit_def split: if_splits)
    then have na: "\<not> activating m" by (simp add: activating_def)
    obtain w1 where "fpi_image_device_report_finger_status (gxfp_vt env lib cfg) (ev_finger_present e) w = Some w1" "gx_ok env lib k w1"
      "settled (gx.owed w) w w1" by (rule finger_settles [OF assms(1) runs [OF na] m(1)])
    then show thesis using that 1 m(2) na by simp
  next
    case 2
    then have m: "m = GXFP_MODE_CAPTURING" using assms(3) by (simp add: messages_fit_def)
    then have na: "\<not> activating m" by (simp add: activating_def)
    obtain w2 where "emit_image_captured (gxfp_vt env lib cfg) w = Some w2" "gx_ok env lib k w2" "settled (gx.owed w) w w2"
      by (rule image_settles [OF assms(1)]) (use runs [OF na] m in auto)
    then show thesis using that 2 na by simp
  next
    case 3
    then show thesis using that by simp
  qed
qed

text \<open>A tick without a message leaves the phase as it was, with the next tick scheduled.\<close>

lemma quiet_phase:
  assumes "fits m w" "messages_fit m (gx_mode w) e" "\<not> ev_session_error e" "\<not> ev_image_ready e" "\<not> ev_activate_complete e"
    and "ticking (gx_mode w) \<Longrightarrow> armed w"
  shows "phase w"
proof -
  have m: "gx_mode w = m \<or> activating m \<and> activating (gx_mode w)" using assms(2-5) by (auto simp: messages_fit_def)
  have act: "ticking x" if "activating x" for x using that by (auto simp: activating_def ticking_def)
  show ?thesis
  proof (cases "starting w \<and> activating m")
    case True
    then have "activating (gx_mode w)" using m by auto
    then show ?thesis using True assms(6) act by (simp add: phase_def)
  next
    case False
    then have r: "running (\<lambda>st _. m = mode_for st) w" using assms(1) by (auto simp: fits_def)
    then have "gx_mode w = m" using m working_state(4) [OF r] by simp
    moreover have "gx_good (state_of w) w" if "gx_mode w = mode_for (state_of w)" "state_of w \<in> working_states"
      using that assms(6) by (auto simp: working_states_def ticking_def)
    ultimately show ?thesis using r by (auto simp: phase_def running_def)
  qed
qed

text \<open>The end of the handler, for the events of a tick.\<close>

definition tick_rest :: "gxfp_device methods \<Rightarrow> gxfp_session_events \<Rightarrow> gxfp_device \<Rightarrow> gxfp_device option" where
  "tick_rest vt e w =
    (if ev_session_error e then
       if ev_error_target e = GXFP_SESSION_ERR_TARGET_ACTIVATE then fpi_image_device_activate_complete vt (Some general_error) (cancel_scheduled_pump w)
       else fpi_image_device_session_error vt (Some general_error) (cancel_scheduled_pump w)
     else do {
       w \<leftarrow> (if ev_activate_complete e then fpi_image_device_activate_complete vt None w else Some w);
       Some (if ev_request_tick e then schedule_pump_soon (ev_tick_delay_ms e) w else w) })"

lemma handle_eq:
  assumes "\<not> ev_close_complete e" "\<not> ev_deactivate_complete e"
    and "(if ev_finger_status_changed e then fpi_image_device_report_finger_status vt (ev_finger_present e)
      (if ev_cancel_tick e then cancel_scheduled_pump w else w) else Some (if ev_cancel_tick e then cancel_scheduled_pump w else w)) = Some w1"
    and "(if ev_image_ready e then emit_image_captured vt w1 else Some w1) = Some w2"
  shows "handle_session_events vt e w = tick_rest vt e w2"
  unfolding handle_session_events_def Let_def assms(3,4) Option.bind_lunit if_not_P [OF assms(1)] if_not_P [OF assms(2)] tick_rest_def
  by (rule refl)

lemma running_not_starting: "running good w \<Longrightarrow> \<not> starting w" "ended good w \<Longrightarrow> \<not> starting w"
  by (auto simp: running_def starting_def calm_def ended_def)

lemma error_rest:
  assumes "gx_ok env lib k w" "fits m w0" "messages_fit m (gx_mode w0) e" "ev_session_error e" "keeps (w_fp w0) (w_fp w)"
    and "w = w0 \<or> settled (gx.owed w0) w0 w \<and> \<not> activating m"
  obtains w' where "tick_rest (gxfp_vt env lib cfg) e w = Some w'" "gx_ok env lib k w'" "keeps (w_fp w) (w_fp w')" "phase w'"
proof -
  let ?w = "cancel_scheduled_pump w"
  have sc: "same_class w ?w" by simp
  have cap: "capture_action (action_of ?w)"
    using assms(2,5) by (auto simp: fits_def starting_def running_def acting_def keeps_def)
  have w: "starting w \<and> w = w0 \<or> running (\<lambda>_ _. True) w \<or> ended gx_good w"
    using assms(2,6) running_weak by (auto simp: fits_def settled_def)
  have "ended gx_good ?w" if "ended gx_good w" using that same_class_phases(2,3) [OF sc] by (simp add: ended_def)
  then have ph: "starting ?w \<or> running (\<lambda>_ _. True) ?w \<or> ended gx_good ?w"
    using w same_class_phases(1) [OF sc] same_class_phases(5) [OF sc, of "\<lambda>_ _. True" "\<lambda>_ _. True"] by blast
  have st: "ev_error_target e = GXFP_SESSION_ERR_TARGET_ACTIVATE \<longrightarrow> starting ?w"
  proof
    assume "ev_error_target e = GXFP_SESSION_ERR_TARGET_ACTIVATE"
    then have a: "activating m" using assms(3,4) by (simp add: messages_fit_def)
    then have "w = w0" "starting w0" using assms(2,6) working_state(4) [of m w0] by (auto simp: fits_def)
    then show "starting ?w" using same_class_phases(1) [OF sc] by simp
  qed
  have "gx_mode w0 = GXFP_MODE_FAILED" using assms(3,4) by (simp add: messages_fit_def)
  then have rest: "starting ?w \<longrightarrow> resting (gx_mode ?w)"
    using w same_class_phases(1) [OF sc] running_not_starting by (auto simp: resting_def)
  obtain w' where "(if ev_error_target e = GXFP_SESSION_ERR_TARGET_ACTIVATE then fpi_image_device_activate_complete (gxfp_vt env lib cfg) (Some general_error) ?w
      else fpi_image_device_session_error (gxfp_vt env lib cfg) (Some general_error) ?w) = Some w'" "gx_ok env lib k w'" "keeps (w_fp ?w) (w_fp w')" "phase w'"
    by (rule error_settles [where env = env and lib = lib and k = k, OF _ cap rest ph st]) (use assms(1) in simp)
  then show thesis using that assms(4) by (simp add: tick_rest_def)
qed

lemma activated_rest:
  assumes "gx_ok env lib k w" "gx_healthy w" "starting w" "\<not> ev_session_error e" "ev_activate_complete e"
  obtains w' where "tick_rest (gxfp_vt env lib cfg) e w = Some w'" "gx_ok env lib k w'" "keeps (w_fp w) (w_fp w')" "phase w'"
proof -
  obtain w1 where w1: "fpi_image_device_activate_complete (gxfp_vt env lib cfg) None w = Some w1" "gx_ok env lib k w1" "settled gx_good w w1"
    by (rule gx.activated [OF assms(1-3)])
  show thesis
    by (rule that [of "if ev_request_tick e then schedule_pump_soon (ev_tick_delay_ms e) w1 else w1"])
      (use w1 assms(4,5) phase_settled [OF w1(3)] phase_schedule in \<open>auto simp: tick_rest_def settled_def\<close>)
qed

lemma quiet_rest:
  assumes "gx_ok env lib k w" "\<not> ev_session_error e" "\<not> ev_activate_complete e" "phase w \<or> phase (schedule_pump_soon (ev_tick_delay_ms e) w) \<and> ev_request_tick e"
  obtains w' where "tick_rest vt e w = Some w'" "gx_ok env lib k w'" "keeps (w_fp w) (w_fp w')" "phase w'"
  by (rule that [of "if ev_request_tick e then schedule_pump_soon (ev_tick_delay_ms e) w else w"])
    (use assms phase_schedule in \<open>auto simp: tick_rest_def\<close>)

lemma handle_settles:
  assumes "gx_ok env lib k w" "fits m w" "messages_fit m (gx_mode w) e"
    and "\<not> ev_session_error e \<Longrightarrow> ticking (gx_mode w) \<Longrightarrow>
      ev_request_tick e \<or> gxfp_tls_service_state (Some (ss_svc (impl_of w))) = GXFP_TLS_HS_ERROR"
  obtains w' where "handle_session_events (gxfp_vt env lib cfg) e w = Some w'" "gx_ok env lib k w'" "keeps (w_fp w) (w_fp w')" "phase w'"
proof -
  let ?vt = "gxfp_vt env lib cfg"
  define w0 where "w0 = (if ev_cancel_tick e then cancel_scheduled_pump w else w)"
  have sc: "same_class w w0" "gx_ok env lib k w0" "impl_of w0 = impl_of w" using assms(1) by (simp_all add: w0_def same_class_def)
  have fit: "fits m w0" using assms(2) same_class_fits [OF sc(1)] by simp
  have mf: "messages_fit m (gx_mode w0) e" using assms(3) sc(3) by simp
  obtain w1 w2 where r:
    "(if ev_finger_status_changed e then fpi_image_device_report_finger_status ?vt (ev_finger_present e) w0 else Some w0) = Some w1"
    "(if ev_image_ready e then emit_image_captured ?vt w1 else Some w1) = Some w2"
    "w2 = w0 \<and> \<not> ev_finger_status_changed e \<and> \<not> ev_image_ready e \<or> gx_ok env lib k w2 \<and> settled (gx.owed w0) w0 w2 \<and> \<not> activating m"
    by (rule reports_settle [OF sc(2) fit mf])
  have ok: "gx_ok env lib k w2" "keeps (w_fp w0) (w_fp w2)" using r(3) sc(2) by (auto simp: settled_def)
  have eq: "handle_session_events ?vt e w = tick_rest ?vt e w2"
    by (rule handle_eq [OF _ _ r(1) [unfolded w0_def] r(2)]) (use mf in \<open>simp_all add: messages_fit_def\<close>)
  have "\<exists>w'. tick_rest ?vt e w2 = Some w' \<and> gx_ok env lib k w' \<and> keeps (w_fp w2) (w_fp w') \<and> phase w'"
  proof (cases "ev_session_error e")
    case True
    show ?thesis by (rule error_rest [OF ok(1) fit mf True ok(2)]) (use r(3) in blast)+
  next
    case False
    then have healthy: "gx_healthy w0" using mf by (simp add: gx_healthy_def messages_fit_def)
    consider "ev_activate_complete e" | "\<not> ev_activate_complete e" "w2 = w0" "\<not> ev_image_ready e" | "\<not> ev_activate_complete e" "settled (gx.owed w0) w0 w2"
      using r(3) by blast
    then show ?thesis
    proof cases
      case 1
      then have "activating m" using mf by (simp add: messages_fit_def)
      then have "w2 = w0" "starting w0" using r(3) fit working_state(4) [of m w0] by (auto simp: fits_def)
      then show ?thesis using activated_rest [OF ok(1) _ _ False 1] healthy by metis
    next
      case 2
      let ?w = "schedule_pump_soon (ev_tick_delay_ms e) w0"
      have f: "fits m ?w" using fit same_class_fits [OF timer_sel(7)] by simp
      have "phase w0 \<or> phase ?w \<and> ev_request_tick e"
      proof (cases "ev_request_tick e")
        case True
        have "phase ?w" by (rule quiet_phase [OF f _ False 2(3,1)]) (use mf in \<open>simp_all add: armed_def\<close>)
        then show ?thesis using True by simp
      next
        case no: False
        have "phase w0" by (rule quiet_phase [OF fit mf False 2(3,1)]) (use assms(4) [OF False] no sc(3) in \<open>simp add: armed_def\<close>)
        then show ?thesis by simp
      qed
      then show ?thesis using quiet_rest [OF ok(1) False 2(1)] 2(2) by metis
    next
      case 3
      then have "phase w2" using gx.settled_owed [OF healthy] phase_settled by metis
      then show ?thesis using quiet_rest [OF ok(1) False 3(1)] by metis
    qed
  qed
  then show thesis using that eq ok(2) sc(1) keeps_trans unfolding same_class_def by metis
qed

section \<open>A tick\<close>

text \<open>A session that is closed, ready or failed has nothing to do: calls with the events of a tick leave it alone.\<close>

definition dozing :: "gxfp_device \<Rightarrow> bool" where
  "dozing w \<longleftrightarrow> (case se_impl (dr_sess w) of None \<Rightarrow> True | Some i \<Rightarrow> resting (ss_mode i))"

definition tick_of :: "uenv \<Rightarrow> tlslib \<Rightarrow> (gxfp_session_impl \<Rightarrow> gxfp_session_events \<Rightarrow> uhist \<Rightarrow> ((gxfp_session_impl \<times> gxfp_session_events) \<times> uhist) option) \<Rightarrow> bool" where
  "tick_of env lib f \<longleftrightarrow> (\<exists>c. f = session_pump_impl env lib c) \<or> (\<exists>cond c. f = session_on_fd_impl env lib cond c)"

lemma tick_rests: "tick_of env lib f \<Longrightarrow> resting (ss_mode i) \<Longrightarrow> f i e h = Some ((i, e), h)"
  by (auto simp: tick_of_def resting_def session_pump_impl_def session_on_fd_impl_def)

lemma tick_works:
  assumes "world_ok env lib" "tick_of env lib f" "session_ok i" "ss_mode i \<noteq> GXFP_MODE_CLOSED" "ss_mode i \<noteq> GXFP_MODE_FAILED"
  obtains i' e h' where "f i events_zero h = Some ((i', e), h')" "session_same i h i' h'" "messages_fit (ss_mode i) (ss_mode i') e"
    "\<not> ev_session_error e \<and> ticking (ss_mode i') \<longrightarrow> ev_request_tick e \<or> gxfp_tls_service_state (Some (ss_svc i')) = GXFP_TLS_HS_ERROR"
proof -
  note w = world_okD [OF assms(1)]
  have "session_post i events_zero h (f i events_zero h)"
    using assms(2) pump_post [OF w(1,4,5) assms(3,4)] on_fd_post [OF w assms(3,4)] by (auto simp: tick_of_def)
  then obtain i' e h' where r: "f i events_zero h = Some ((i', e), h')" "session_same i h i' h'" "progress\<^sup>*\<^sup>* (ss_mode i, events_zero) (ss_mode i', e)"
    by (auto simp: session_post_def)
  have "ev_request_tick e \<or> gxfp_tls_service_state (Some (ss_svc i')) = GXFP_TLS_HS_ERROR" if "\<not> ev_session_error e" "ticking (ss_mode i')"
    using assms(2) r(1) pump_keeps_ticking [OF _ that] on_fd_keeps_ticking [OF _ that] unfolding tick_of_def by metis
  then show thesis using that [OF r(1,2) progress_messages [OF r(3) assms(5)]] by blast
qed

lemma tick_dozes:
  assumes "tick_of env lib f" "dozing w"
  shows "with_session vt (\<lambda>s evs h. with_impl s evs h f) w = Some w"
proof (cases "se_impl (dr_sess w)")
  case None
  have "w\<lparr>dr_sess := dr_sess w, dr_h := dr_h w\<rparr> = w" by simp
  then show ?thesis using None by (simp add: with_session_def events_clear with_impl_def)
next
  case (Some i)
  then have "resting (ss_mode i)" using assms(2) by (simp add: dozing_def)
  note r = tick_rests [OF assms(1) this]
  have "w\<lparr>dr_sess := (dr_sess w)\<lparr>se_impl := Some i\<rparr>, dr_h := dr_h w\<rparr> = w" using Some by simp
  then show ?thesis using Some r by (simp add: with_session_def events_clear with_impl_def)
qed

text \<open>What the timer finds: it has just fired, so nothing is armed.\<close>

definition phase0 :: "gxfp_device \<Rightarrow> bool" where
  "phase0 w \<longleftrightarrow> fits (gx_mode w) w \<or> resting (gx_mode w) \<and> (waiting w \<or> finished w)"

lemma gx_good_timer: "impl_of w' = impl_of w \<Longrightarrow> dr_timer w' = dr_timer w \<Longrightarrow> gx_good st w' = gx_good st w"
  by (cases st) (simp_all add: armed_def gx_healthy_def)

lemma good_mode: "gx_good st w \<Longrightarrow> st \<in> working_states \<Longrightarrow> gx_mode w = mode_for st"
  by (auto simp: working_states_def)

lemma phase0_phase: "phase w \<Longrightarrow> phase0 w"
  by (auto simp: phase_def phase0_def fits_def running_def good_mode)

lemma phase0_same: "same_class w w' \<Longrightarrow> impl_of w' = impl_of w \<Longrightarrow> phase0 w' = phase0 w"
  by (simp add: phase0_def same_class_fits same_class_phases(2,3) [of w w'])

lemma fits_works: "fits m w \<Longrightarrow> \<not> resting m"
  by (auto simp: fits_def activating_def resting_def running_def working_states_def)

lemma tick_settles:
  assumes "gx_ok env lib k w" "phase0 w" "tick_of env lib f"
  obtains w' where "with_session (gxfp_vt env lib cfg) (\<lambda>s evs h. with_impl s evs h f) w = Some w'" "gx_ok env lib k w'" "keeps (w_fp w) (w_fp w')"
    "phase w'"
proof (cases "resting (gx_mode w)")
  case True
  then have "dozing w" using gx_okD(2) [OF assms(1)] by (auto simp: dozing_def impl_of_def)
  moreover have "phase w" using assms(2) True fits_works by (auto simp: phase0_def phase_def)
  ultimately show thesis using that tick_dozes [OF assms(3)] assms(1) by simp
next
  case False
  note ok = gx_okD [OF assms(1)]
  have fit: "fits (gx_mode w) w" using assms(2) False by (auto simp: phase0_def)
  have nf: "gx_mode w \<noteq> GXFP_MODE_FAILED" using False by (auto simp: resting_def)
  obtain i e h where r: "f (impl_of w) events_zero (dr_h w) = Some ((i, e), h)" "session_same (impl_of w) (dr_h w) i h"
    "messages_fit (gx_mode w) (ss_mode i) e"
    "\<not> ev_session_error e \<and> ticking (ss_mode i) \<longrightarrow> ev_request_tick e \<or> gxfp_tls_service_state (Some (ss_svc i)) = GXFP_TLS_HS_ERROR"
    by (rule tick_works [where h = "dr_h w", OF ok(1) assms(3) ok(3,4) nf])
  let ?w = "put_impl i h w"
  have fit': "fits (gx_mode w) ?w" using fit same_class_fits [OF same_class_put] by simp
  have mf: "messages_fit (gx_mode w) (gx_mode ?w) e" using r(3) by simp
  obtain w' where "handle_session_events (gxfp_vt env lib cfg) e ?w = Some w'" "gx_ok env lib k w'" "keeps (w_fp ?w) (w_fp w')" "phase w'"
    by (rule handle_settles [OF put_impl_ok [OF assms(1) r(2)] fit' mf]) (use r(4) in auto)
  then show thesis using that with_session_impl [where f = f, OF ok(2) r(1)] by simp
qed

lemma pump_is_tick:
  "with_session vt (\<lambda>s. gxfp_session_pump env lib s c) w = with_session vt (\<lambda>s evs h. with_impl s evs h (session_pump_impl env lib c)) w"
  "with_session vt (\<lambda>s. gxfp_session_on_fd env lib s cond c) w = with_session vt (\<lambda>s evs h. with_impl s evs h (session_on_fd_impl env lib cond c)) w"
  by (simp_all add: gxfp_session_pump_def [abs_def] gxfp_session_on_fd_def [abs_def])

lemma tick_of_pump [simp]: "tick_of env lib (session_pump_impl env lib c)" "tick_of env lib (session_on_fd_impl env lib cond c)"
  by (auto simp: tick_of_def)

lemma timer_settles:
  assumes "gx_ok env lib k w" "phase w" "capture_action (action_of w)"
  obtains w' where "gxfp_pump_timeout_cb env lib (gxfp_vt env lib cfg) w = Some w'" "gx_ok env lib k w'" "keeps (w_fp w) (w_fp w')" "phase w'"
proof -
  let ?vt = "gxfp_vt env lib cfg" and ?c = "fp_cancelled (w_fp w)"
  let ?on_fd = "\<lambda>w. with_session ?vt (\<lambda>s evs h. with_impl s evs h (session_on_fd_impl env lib GXFP_SESSION_IO_IN ?c)) w"
  define w0 where "w0 = w\<lparr>dr_timer := None\<rparr>"
  have sc: "same_class w w0" "impl_of w0 = impl_of w" "gx_ok env lib k w0" using assms(1) by (simp_all add: w0_def same_class_def impl_of_def gx_ok_def)
  have act: "fpi_device_action_is_cancelled d = (fp_cancelled d, d)" if "fp_action d = action_of w" for d
    using assms(3) that by (auto simp: fpi_device_action_is_cancelled_def capture_action_def)
  have p0: "phase0 w0" using phase0_phase [OF assms(2)] phase0_same [OF sc(1,2)] by simp
  obtain w1 where w1: "with_session ?vt (\<lambda>s evs h. with_impl s evs h (session_pump_impl env lib ?c)) w0 = Some w1" "gx_ok env lib k w1"
    "keeps (w_fp w0) (w_fp w1)" "phase w1" by (rule tick_settles [OF sc(3) p0 tick_of_pump(1)])
  have k1: "keeps (w_fp w) (w_fp w1)" using w1(3) by (simp add: w0_def)
  obtain pr h where pr: "gxfp_session_poll_readable env (Some (dr_sess w1)) 0 (dr_h w1) = (pr, h)" by fastforce
  define w2 where "w2 = w1\<lparr>dr_h := h\<rparr>"
  have sc2: "same_class w1 w2" "impl_of w2 = impl_of w1" by (simp_all add: w2_def same_class_def impl_of_def)
  have ok2: "gx_ok env lib k w2" using w1(2) poll_readable_keeps [OF pr] by (simp add: w2_def gx_ok_def impl_of_def)
  have p2: "phase w2"
    using w1(4) same_class_phases(1-3) [OF sc2(1)] same_class_phases(5) [OF sc2(1), of gx_good gx_good] gx_good_timer [of w2 w1] sc2(2)
    by (auto simp: phase_def w2_def simp del: gx_good.simps)
  obtain w3 where w3: "?on_fd w2 = Some w3" "gx_ok env lib k w3" "keeps (w_fp w2) (w_fp w3)" "phase w3"
    by (rule tick_settles [OF ok2 phase0_phase [OF p2] tick_of_pump(2)])
  have k3: "keeps (w_fp w) (w_fp w3)" using keeps_trans [OF k1] w3(3) by (simp add: w2_def)
  have a1: "fp_action (w_fp w1) = action_of w" using k1 by (simp add: keeps_def)
  have e: "w0\<lparr>w_fp := w_fp w\<rparr> = w0" "w1\<lparr>w_fp := w_fp w1\<rparr> = w1" "w_fp w0 = w_fp w" by (simp_all add: w0_def)
  have eq: "gxfp_pump_timeout_cb env lib ?vt w =
      (if fp_cancelled (w_fp w1) then Some w1 else if pr = 0 \<or> pr = - EAGAIN then ?on_fd w2 else Some w2)"
    unfolding gxfp_pump_timeout_cb_def Let_def w0_def [symmetric] e(3) act [OF refl] prod.case e(1) pump_is_tick w1(1) Option.bind_lunit act [OF a1] e(2) pr w2_def [symmetric]
    by (rule refl)
  show thesis
    by (rule that [of "if fp_cancelled (w_fp w1) then w1 else if pr = 0 \<or> pr = - EAGAIN then w3 else w2"])
      (use eq w1 w3 ok2 p2 k1 k3 in \<open>auto simp: w2_def\<close>)
qed

lemma is_cancelled_steady: "steady d (snd (fpi_device_action_is_cancelled d))"
  by (simp add: fpi_device_action_is_cancelled_def steady_noted)

lemma timer_dozes:
  assumes "dozing w"
  obtains w' where "gxfp_pump_timeout_cb env lib vt w = Some w'" "steady (w_fp w) (w_fp w')" "w_pv w' = w_pv w" "w_scans w' = w_scans w"
    "dr_sess w' = dr_sess w" "ulive (dr_h w') = ulive (dr_h w)"
proof -
  obtain c d where c: "fpi_device_action_is_cancelled (w_fp w) = (c, d)" "steady (w_fp w) d"
    using is_cancelled_steady by (metis prod.collapse)
  obtain c' d' where c': "fpi_device_action_is_cancelled d = (c', d')" "steady d d'"
    using is_cancelled_steady by (metis prod.collapse)
  define w1 where "w1 = w\<lparr>dr_timer := None, w_fp := d'\<rparr>"
  obtain pr h where pr: "gxfp_session_poll_readable env (Some (dr_sess w)) 0 (dr_h w) = (pr, h)" by fastforce
  have doze: "dozing (w\<lparr>dr_timer := None, w_fp := d\<rparr>)" "dozing (w\<lparr>dr_timer := None, w_fp := d', dr_h := h\<rparr>)" using assms by (simp_all add: dozing_def)
  note t = tick_dozes [OF tick_of_pump(1) doze(1)] tick_dozes [OF tick_of_pump(2) doze(2)]
  have "gxfp_pump_timeout_cb env lib vt w = Some (if c' then w\<lparr>dr_timer := None, w_fp := d'\<rparr> else w\<lparr>dr_timer := None, w_fp := d', dr_h := h\<rparr>)"
    using c(1) c'(1) pr t by (simp add: gxfp_pump_timeout_cb_def Let_def pump_is_tick)
  then show thesis
    using that steady_trans [OF c(2) c'(2)] poll_readable_keeps [OF pr] by (cases c') simp_all
qed

end
