(* ===== verification/Driver_Returns.thy ===== *)
theory Driver_Returns
  imports Driver_Loop
begin

text \<open>
  Nothing the main loop runs can hang or break the session, in whatever state the device classes are. The contract of a driver
  that always answers is a locale: a method for a quiet state returns, one for any state returns or reports an error of the session,
  activating returns or reports its failure, deactivating returns or reports its end. Under it every entry of the image device
  class returns from every state of the class, also from those the state machine should never be in. The driver keeps the
  contract with any session that keeps its invariant, open or not, so that every dispatch returns and keeps it too.
\<close>

section \<open>Returning\<close>

definition returns :: "('a \<Rightarrow> bool) \<Rightarrow> 'a option \<Rightarrow> bool" where
  "returns ok r \<longleftrightarrow> (\<exists>w. r = Some w \<and> ok w)"

lemma returns_Some [simp]: "returns ok (Some w) = ok w"
  by (simp add: returns_def)

lemma returns_bind [intro]: "returns ok r \<Longrightarrow> (\<And>w. ok w \<Longrightarrow> returns ok (f w)) \<Longrightarrow> returns ok (Option.bind r f)"
  by (auto simp: returns_def)

section \<open>The current action\<close>

text \<open>Only a request of the application begins an action, and only its return ends it: everything else leaves it alone.\<close>

lemma action_report:
  "fp_action (noted n d) = fp_action d" "fp_action (fpi_device_report_finger_status x d) = fp_action d"
  "fp_action (fpi_device_report_finger_status_changes a b d) = fp_action d" "fp_action (fpi_device_enroll_progress i p e d) = fp_action d"
  "fp_action (fpi_device_verify_report r p e d) = fp_action d" "fp_action (fpi_device_identify_report m p e d) = fp_action d"
  using steady_finger [of d] steady_progress [of d i p e] steady_verify [of d r p e] steady_identify [of d m p e]
  by (simp_all add: noted_def steady_def keeps_def)

lemma action_complete:
  "fp_action (complete_begin d) = fp_action d" "fp_action (fpi_device_return_task_in_idle r d) = fp_action d"
  "fp_action (match_complete v e d) = fp_action d"
  using complete_begin_facts(1) [of d] completes_match [of d v e] by (simp_all add: keeps_def completes_def fpi_device_return_task_in_idle_def)

lemma action_completes:
  "fp_action (fpi_device_open_complete e d) = fp_action d" "fp_action (fpi_device_close_complete e d) = fp_action d"
  "fp_action (fpi_device_enroll_complete p e d) = fp_action d" "fp_action (fpi_device_verify_complete e d) = fp_action d"
  "fp_action (fpi_device_identify_complete e d) = fp_action d" "fp_action (fpi_device_capture_complete i e d) = fp_action d"
  by (auto simp: fpi_device_open_complete_def fpi_device_close_complete_def fpi_device_enroll_complete_def fpi_device_verify_complete_def
      fpi_device_identify_complete_def fpi_device_capture_complete_def Let_def action_report action_complete split: option.split)

lemma action_error: "fp_action (fpi_device_action_error e d) = fp_action d"
  by (auto simp: fpi_device_action_error_def Let_def action_report action_completes split: option.split FpiDeviceAction.split)

lemma action_asked: "fpi_device_action_is_cancelled d = (c, d') \<Longrightarrow> fp_action d' = fp_action d"
  by (auto simp: fpi_device_action_is_cancelled_def action_report split: if_splits)

lemmas action_frame = action_report action_complete action_completes action_error

lemma action_class:
  "action_of (keep_error e w) = action_of w" "action_of (report_result w) = action_of w"
  "action_of (fp_image_device_maybe_complete_action e w) = action_of w" "action_of (enter_state st w) = action_of w"
  by (auto simp: keep_error_def report_result_def fp_image_device_maybe_complete_action_def enter_state_def Let_def action_frame
      split: option.split FpiDeviceAction.split)

section \<open>A driver that answers\<close>

locale responsive_driver =
  fixes vt :: "'a img_device_scheme methods"
    and ok :: "'a img_device_scheme \<Rightarrow> bool"
  assumes own: "img_device.more w' = img_device.more w \<Longrightarrow> action_of w' = action_of w \<Longrightarrow> ok w' = ok w"
    and quiet_answer: "ok w \<Longrightarrow> st \<in> quiet_states \<Longrightarrow> returns ok (vt (Change_state st) w)"
    and state_answer: "ok w \<Longrightarrow> returns ok (vt (Change_state st) w) \<or>
      (\<exists>w' e. ok w' \<and> vt (Change_state st) w = fpi_image_device_session_error vt (Some e) w')"
    and activate_answer: "ok w \<Longrightarrow> returns ok (vt Activate w) \<or>
      (\<exists>w' e. ok w' \<and> vt Activate w = fpi_image_device_activate_complete vt (Some e) w')"
    and deactivate_answer: "ok w \<Longrightarrow> returns ok (vt Deactivate w) \<or>
      (\<exists>w'. ok w' \<and> vt Deactivate w = fpi_image_device_deactivate_complete vt None w')"
begin

lemma own_upd [simp]:
  "ok (upd_pv g w) = ok w" "ok (enter_state st w) = ok w" "ok (w\<lparr>w_scans := xs\<rparr>) = ok w" "ok (fp_image_device_maybe_complete_action e w) = ok w"
  by (rule own; simp add: action_class)+

lemma own_action [simp]: "fp_action (f (w_fp w)) = action_of w \<Longrightarrow> ok (upd_fp f w) = ok w"
  by (rule own) simp_all

lemmas frame = action_frame action_class

lemma change_state_after:
  "returns ok (vt (Change_state st) (enter_state st w)) \<Longrightarrow> returns ok (fp_image_device_change_state vt st w)"
  unfolding fp_image_device_change_state_def by (rule returns_bind) (auto simp: frame)

lemma quiet_returns: "ok w \<Longrightarrow> st \<in> quiet_states \<Longrightarrow> returns ok (fp_image_device_change_state vt st w)"
  by (rule change_state_after) (simp add: quiet_answer)

lemma deactivated_returns: "ok w \<Longrightarrow> returns ok (fpi_image_device_deactivate_complete vt e w)"
  by (auto simp: frame fpi_image_device_deactivate_complete_def quiet_states_def intro!: returns_bind quiet_returns)

lemma deactivate_returns:
  assumes "ok w"
  shows "returns ok (fpi_image_device_deactivate vt c w)"
proof -
  have "returns ok (vt Deactivate w)" if "ok w" for w
    using deactivate_answer [OF that] deactivated_returns by metis
  then show ?thesis
    using assms by (auto simp: frame fpi_image_device_deactivate_def Let_def frame quiet_states_def intro!: returns_bind quiet_returns)
qed

lemma failed_activation_returns: "ok w \<Longrightarrow> returns ok (fpi_image_device_activate_complete vt (Some e) w)"
  by (simp add: frame fpi_image_device_activate_complete_def)

lemma session_error_returns: "ok w \<Longrightarrow> returns ok (fpi_image_device_session_error vt e w)"
  by (simp add: frame fpi_image_device_session_error_def Let_def failed_activation_returns deactivate_returns)

lemma change_state_returns: "ok w \<Longrightarrow> returns ok (fp_image_device_change_state vt st w)"
  by (rule change_state_after) (use state_answer [of "enter_state st w" st] session_error_returns in \<open>auto simp: returns_def\<close>)

lemma activated_returns: "ok w \<Longrightarrow> returns ok (fpi_image_device_activate_complete vt e w)"
  by (auto simp: frame fpi_image_device_activate_complete_def intro!: returns_bind change_state_returns)

lemma activate_returns:
  assumes "ok w"
  shows "returns ok (fpi_image_device_activate vt w)"
proof -
  have "returns ok (vt Activate w)" if "ok w" for w using activate_answer [OF that] failed_activation_returns by metis
  then show ?thesis using assms by (auto simp: frame fpi_image_device_activate_def intro!: returns_bind change_state_returns)
qed

lemma await_returns: "ok w \<Longrightarrow> returns ok (fp_image_device_enroll_maybe_await_finger_on vt w)"
  by (simp add: fp_image_device_enroll_maybe_await_finger_on_def change_state_returns)

lemma finger_returns: "ok w \<Longrightarrow> returns ok (fpi_image_device_report_finger_status vt p w)"
  by (auto simp: frame fpi_image_device_report_finger_status_def Let_def
      intro!: returns_bind change_state_returns deactivate_returns await_returns)

lemma captured_returns: "ok w \<Longrightarrow> returns ok (fpi_image_device_image_captured vt i w)"
  by (auto simp: frame fpi_image_device_image_captured_def intro!: change_state_returns split: option.split)

lemma enrolled_returns: "ok w \<Longrightarrow> returns ok (scanned_enroll vt p e w)"
  by (auto simp: frame scanned_enroll_def Let_def intro!: deactivate_returns await_returns)

lemma matched_ok: "ok w \<Longrightarrow> ok (scanned_verify scan p e w)" "ok w \<Longrightarrow> ok (scanned_identify scan p e w)"
  by (simp_all add: frame scanned_verify_def scanned_identify_def Let_def split: prod.split)

lemma minutiae_returns: "ok w \<Longrightarrow> returns ok (fpi_image_device_minutiae_detected vt i scan w)"
  by (auto simp: frame fpi_image_device_minutiae_detected_def minutiae_result_def Let_def matched_ok
      intro!: deactivate_returns enrolled_returns split: FpiDeviceAction.split)

lemma cancelled_returns: "ok w \<Longrightarrow> returns ok (fp_device_cancel_in_idle_cb vt w)"
  by (auto simp: frame fp_device_cancel_in_idle_cb_def fp_image_device_cancel_action_def intro!: returns_bind deactivate_returns)

lemma capture_returns: "ok w \<Longrightarrow> returns ok (fp_image_device_start_capture_action vt w)"
  by (auto simp: frame fp_image_device_start_capture_action_def Let_def intro!: activate_returns)

end

section \<open>The driver answers\<close>

definition sound :: "uenv \<Rightarrow> tlslib \<Rightarrow> int \<Rightarrow> gxfp_device \<Rightarrow> bool" where
  "sound env lib k w \<longleftrightarrow> world_ok env lib \<and> session_inv (dr_sess w) \<and> ulive (dr_h w) - owned (dr_sess w) = k"

lemma sound_part:
  "dr_sess w' = dr_sess w \<Longrightarrow> ulive (dr_h w') = ulive (dr_h w) \<Longrightarrow> sound env lib k w' = sound env lib k w"
  by (simp add: sound_def)

lemma sound_timer [simp]:
  "sound env lib k (cancel_scheduled_pump w) = sound env lib k w" "sound env lib k (schedule_pump_soon n w) = sound env lib k w"
  "sound env lib k (free_paths w) = sound env lib k w"
  by (rule sound_part; simp add: cancel_scheduled_pump_def schedule_pump_soon_def free_paths_def)+

text \<open>The same, while the current action is \<open>a\<close>.\<close>

definition held :: "uenv \<Rightarrow> tlslib \<Rightarrow> int \<Rightarrow> FpiDeviceAction \<Rightarrow> gxfp_device \<Rightarrow> bool" where
  "held env lib k a w \<longleftrightarrow> sound env lib k w \<and> action_of w = a"

lemma held_timer [simp]:
  "held env lib k a (cancel_scheduled_pump w) = held env lib k a w" "held env lib k a (schedule_pump_soon n w) = held env lib k a w"
  "held env lib k a (free_paths w) = held env lib k a w"
  by (simp_all add: held_def) (simp add: free_paths_def)

text \<open>A call of the session from any state of the object.\<close>

lemma held_call:
  assumes "held env lib k a w"
    and "\<forall>i. session_ok i \<longrightarrow> (\<exists>i' e' h'. f i events_zero (dr_h w) = Some ((i', e'), h') \<and> session_moved i (dr_h w) i' h')"
  obtains (gone) "se_impl (dr_sess w) = None" "\<And>vt. with_session vt (\<lambda>s evs h. with_impl s evs h f) w = Some w"
  | (called) i e h where "se_impl (dr_sess w) \<noteq> None" "f (impl_of w) events_zero (dr_h w) = Some ((i, e), h)" "held env lib k a (put_impl i h w)"
      "\<And>vt. with_session vt (\<lambda>s evs h. with_impl s evs h f) w = handle_session_events vt e (put_impl i h w)"
proof (cases "se_impl (dr_sess w)")
  case None
  then show thesis using gone by (simp add: with_session_def events_clear with_impl_def)
next
  case (Some i0)
  then have i0: "impl_of w = i0" "session_ok i0" using assms(1) by (simp_all add: impl_of_def held_def sound_def session_inv_def)
  obtain i e h where c: "f i0 events_zero (dr_h w) = Some ((i, e), h)" "session_moved i0 (dr_h w) i h" using assms(2) i0(2) by blast
  have "held env lib k a (put_impl i h w)"
    using assms(1) c(2) Some by (simp add: held_def sound_def session_inv_def owned_def session_moved_def)
  then show thesis using called [of i e h] with_session_impl [of w f i e h] c(1) Some i0(1) by simp
qed

lemma held_state:
  assumes "held env lib k a w"
  shows "returns (held env lib k a) (gxfp_vt env lib cfg (Change_state st) w) \<or>
    (\<exists>w' e. held env lib k a w' \<and> gxfp_vt env lib cfg (Change_state st) w = fpi_image_device_session_error (gxfp_vt env lib cfg) (Some e) w' \<and>
      st \<in> loud_states)"
proof -
  let ?vt = "gxfp_vt env lib cfg"
  have run: "\<forall>i. session_ok i \<longrightarrow> (\<exists>i' e' h'. session_change_state_impl env (session_state_of st) i events_zero (dr_h w) = Some ((i', e'), h') \<and>
      session_moved i (dr_h w) i' h')"
    using moved_runs(3) [of env lib] assms by (simp add: held_def sound_def)
  show ?thesis
  proof (cases rule: held_call [where f = "session_change_state_impl env (session_state_of st)", OF assms run])
    case 1
    then show ?thesis using assms by (simp add: vt_change_state)
  next
    case (2 i e h)
    have eq: "?vt (Change_state st) w = handle_session_events ?vt e (put_impl i h w)" using 2(4) by (simp add: vt_change_state)
    consider (still) "e = events_zero" | (tick) "e = events_zero\<lparr>ev_request_tick := True, ev_tick_delay_ms := 0\<rparr>" | (fails) "failing e" "st \<in> loud_states"
    proof (cases "gx_mode w = GXFP_MODE_CLOSED \<or> gx_mode w = GXFP_MODE_FAILED")
      case True
      then have "e = events_zero" using 2(2) by (auto simp: session_change_state_impl_def gxfp_session_mode_has_io_def)
      then show thesis by (rule still)
    next
      case False
      show thesis
      proof (cases "st \<in> loud_states")
        case True
        then show thesis using change_state_works [OF 2(2)] False tick fails by blast
      next
        case quiet: False
        then have "session_state_of st = GXFP_SESSION_STATE_IDLE \<or> session_state_of st = GXFP_SESSION_STATE_INACTIVE"
          by (cases st) (simp_all add: loud_states_def)
        then show thesis using change_state_idles [OF 2(2)] False still by blast
      qed
    qed
    then show ?thesis
    proof cases
      case fails
      then show ?thesis using eq 2(3) held_timer(1) handle_failing by metis
    qed (use eq 2(3) in simp_all)
  qed
qed

lemma quiet_not_loud: "st \<in> quiet_states \<Longrightarrow> st \<notin> loud_states"
  by (auto simp: quiet_states_def loud_states_def)

definition opened :: "gxfp_device \<Rightarrow> bool" where
  "opened w \<longleftrightarrow> se_impl (dr_sess w) \<noteq> None \<and> gx_mode w \<noteq> GXFP_MODE_CLOSED"

lemma gx_ok_sound: "gx_ok env lib k w \<longleftrightarrow> sound env lib k w \<and> opened w"
  by (auto simp: gx_ok_def sound_def opened_def session_inv_def impl_of_def)

lemma held_activates:
  assumes "held env lib k a w"
  shows "returns (held env lib k a) (gxfp_vt env lib cfg Activate w) \<or>
    (\<exists>w' e. held env lib k a w' \<and> gxfp_vt env lib cfg Activate w = fpi_image_device_activate_complete (gxfp_vt env lib cfg) (Some e) w')"
proof (cases "opened w")
  case True
  then have "gx_ok env lib k w" "action_of w = a" using assms by (simp_all add: gx_ok_sound held_def)
  from driver_activates [OF this(1), of cfg] this(2) show ?thesis unfolding returns_def held_def gx_ok_sound same_class_def by metis
next
  case False
  have "w\<lparr>dr_sess := dr_sess w, dr_h := dr_h w\<rparr> = w" by simp
  then have "gxfp_vt env lib cfg Activate w = Some w"
    using False
    by (cases "se_impl (dr_sess w)")
       (auto simp: vt_activate gxfp_activate_def gxfp_session_activate_def events_clear opened_def impl_of_def session_activate_impl_def
          gxfp_session_mode_has_io_def session_upd_impl)
  then show ?thesis using assms by simp
qed

lemma held_deactivates:
  assumes "held env lib k a w"
  shows "returns (held env lib k a) (gxfp_vt env lib cfg Deactivate w) \<or>
    (\<exists>w'. held env lib k a w' \<and> gxfp_vt env lib cfg Deactivate w = fpi_image_device_deactivate_complete (gxfp_vt env lib cfg) None w')"
proof -
  let ?w = "cancel_scheduled_pump w"
  let ?f = "\<lambda>i e. session_begin_cleanup env i GXFP_CLEANUP_DEACTIVATE False e"
  have s: "held env lib k a ?w" using assms by simp
  have run: "\<forall>i. session_ok i \<longrightarrow> (\<exists>i' e' h'. ?f i events_zero (dr_h ?w) = Some ((i', e'), h') \<and> session_moved i (dr_h ?w) i' h')"
    by (metis deactivate_runs)
  show ?thesis
  proof (cases rule: held_call [where f = ?f, OF s run])
    case 1
    then show ?thesis using s by (simp add: vt_deactivate)
  next
    case (2 i e h)
    have "session_ok (impl_of ?w)" using 2(1) s by (auto simp: held_def sound_def session_inv_def impl_of_def)
    then have "e = events_zero\<lparr>ev_cancel_tick := True, ev_deactivate_complete := True\<rparr>"
      using 2(2) deactivate_runs [of "impl_of ?w" env False events_zero "dr_h ?w"] by (metis option.inject prod.inject)
    then show ?thesis using 2(3,4) held_timer(1) by (metis handle_deactivated vt_deactivate)
  qed
qed

interpretation rs: responsive_driver "gxfp_vt env lib cfg" "held env lib k a" for env lib cfg k a
proof unfold_locales
  show "held env lib k a w' = held env lib k a w" if "img_device.more w' = img_device.more w" "action_of w' = action_of w" for w' w
    using more_sel [OF that(1)] that(2) by (simp add: held_def sound_def)
  show "returns (held env lib k a) (gxfp_vt env lib cfg (Change_state st) w)" if "held env lib k a w" "st \<in> quiet_states" for w st
    using held_state [OF that(1)] quiet_not_loud [OF that(2)] by blast
  show "returns (held env lib k a) (gxfp_vt env lib cfg (Change_state st) w) \<or>
      (\<exists>w' e. held env lib k a w' \<and> gxfp_vt env lib cfg (Change_state st) w = fpi_image_device_session_error (gxfp_vt env lib cfg) (Some e) w')"
    if "held env lib k a w" for w st using held_state [OF that] by blast
qed (rule held_activates held_deactivates; assumption)+

section \<open>Every dispatch returns\<close>

lemma open_complete_more [simp]: "img_device.more (fpi_image_device_open_complete e w) = img_device.more w"
  "img_device.more (fpi_image_device_close_complete e w) = img_device.more w"
  by (simp_all add: fpi_image_device_open_complete_def fpi_image_device_close_complete_def)

lemma emit_returns:
  assumes "held env lib k a w"
  shows "returns (held env lib k a) (emit_image_captured (gxfp_vt env lib cfg) w)"
proof -
  obtain r ss img where t: "gxfp_session_take_image (Some (dr_sess w)) (Some image_zero) = (r, Some ss, Some img)" "session_inv ss"
    "r < 0 \<longrightarrow> ss = dr_sess w" "\<not> r < 0 \<longrightarrow> owned ss + blk (im_pixels img) = owned (dr_sess w)"
  proof (cases "se_impl (dr_sess w)")
    case None
    then show thesis using that [of "- EINVAL" "dr_sess w" image_zero] assms by (simp add: gxfp_session_take_image_def held_def sound_def)
  next
    case (Some i)
    show thesis
    proof (cases "ss_pending_img_ready i")
      case True
      then show thesis
        using that [of 0 "(dr_sess w)\<lparr>se_impl := Some (i\<lparr>ss_pending_img := image_zero, ss_pending_img_ready := False\<rparr>)\<rparr>" "ss_pending_img i"] Some assms
        by (simp add: gxfp_session_take_image_def held_def sound_def session_inv_def owned_def session_ok_def session_blocks_def image_zero_def)
    next
      case False
      then show thesis using that [of "- ENOENT" "dr_sess w" image_zero] Some assms by (simp add: gxfp_session_take_image_def held_def sound_def)
    qed
  qed
  let ?w = "w\<lparr>dr_sess := ss\<rparr>"
  let ?v = "?w\<lparr>dr_h := snd (gxfp_decoded_image_free (Some img) (dr_h w))\<rparr>"
  have f: "ulive (snd (gxfp_decoded_image_free (Some img) (dr_h w))) = ulive (dr_h w) - blk (im_pixels img)"
    by (simp add: gxfp_decoded_image_free_def)
  have eq: "emit_image_captured (gxfp_vt env lib cfg) w = (if r < 0 then fpi_image_device_session_error (gxfp_vt env lib cfg) (Some general_error) ?w
      else fpi_image_device_image_captured (gxfp_vt env lib cfg) (Some (image_of_pixels img)) ?v)"
    using t(1) by (simp add: emit_image_captured_def Let_def)
  have "r < 0 \<Longrightarrow> held env lib k a ?w" "\<not> r < 0 \<Longrightarrow> held env lib k a ?v" using assms t(2-4) f by (auto simp: held_def sound_def)
  then show ?thesis unfolding eq using rs.session_error_returns rs.captured_returns by auto
qed

lemma handle_returns:
  assumes "held env lib k a w"
  shows "returns (held env lib k a) (handle_session_events (gxfp_vt env lib cfg) e w)"
proof -
  have "held env lib k a (fpi_image_device_close_complete x w) = held env lib k a w" for x w by (rule rs.own) (simp_all add: fpi_image_device_close_complete_def action_frame)
  then show ?thesis
    using assms unfolding handle_session_events_def Let_def
    by (auto intro!: returns_bind rs.finger_returns emit_returns rs.activated_returns rs.session_error_returns rs.deactivated_returns)
qed

lemma session_returns:
  assumes "held env lib k a w"
    and "\<forall>i. session_ok i \<longrightarrow> (\<exists>i' e' h'. f i events_zero (dr_h w) = Some ((i', e'), h') \<and> session_moved i (dr_h w) i' h')"
  shows "returns (held env lib k a) (with_session (gxfp_vt env lib cfg) (\<lambda>s evs h. with_impl s evs h f) w)"
proof (cases rule: held_call [where f = f, OF assms])
  case 1
  then show ?thesis using assms(1) by simp
next
  case (2 i e h)
  then show ?thesis by (simp add: handle_returns)
qed

lemma timer_returns:
  assumes "held env lib k a w"
  shows "returns (held env lib k a) (gxfp_pump_timeout_cb env lib (gxfp_vt env lib cfg) w)"
proof -
  let ?vt = "gxfp_vt env lib cfg"
  have pump: "returns (held env lib k a) (with_session ?vt (\<lambda>s. gxfp_session_pump env lib s c) w)" if "held env lib k a w" for c w
    unfolding gxfp_session_pump_def [abs_def]
    by (rule session_returns [OF that]) (use that moved_runs(1) [of env lib] in \<open>simp add: held_def sound_def\<close>)
  have fd: "returns (held env lib k a) (with_session ?vt (\<lambda>s. gxfp_session_on_fd env lib s cond c) w)" if "held env lib k a w" for cond c w
    unfolding gxfp_session_on_fd_def [abs_def]
    by (rule session_returns [OF that]) (use that moved_runs(2) [of env lib] in \<open>simp add: held_def sound_def\<close>)
  have h: "held env lib k a (w\<lparr>w_fp := d, dr_h := h'\<rparr>) = held env lib k a w"
    if "fpi_device_action_is_cancelled (w_fp w) = (c, d)" "gxfp_session_poll_readable env (Some (dr_sess w)) t (dr_h w) = (r, h')" for w c d t r h'
    using poll_readable_keeps [OF that(2)] action_asked [OF that(1)] by (simp add: held_def sound_def)
  have d: "fpi_device_action_is_cancelled (w_fp w) = (c, x) \<Longrightarrow> held env lib k a (w\<lparr>w_fp := x\<rparr>) = held env lib k a w"
    "held env lib k a (w\<lparr>dr_timer := y\<rparr>) = held env lib k a w" for w c x y
    using action_asked [of "w_fp w"] by (simp_all add: held_def sound_def)
  show ?thesis
    unfolding gxfp_pump_timeout_cb_def Let_def
    by (auto simp: assms d h split: prod.split intro!: returns_bind pump fd)
qed

lemma vt_open: "gxfp_vt env lib cfg Img_open w = gxfp_img_open env lib cfg w"
  by (subst gxfp_vt.simps) (simp add: fpi_device_gxfp_class_def)

lemma vt_close: "gxfp_vt env lib cfg Img_close w = gxfp_img_close env (gxfp_vt env lib cfg) w"
  by (subst gxfp_vt.simps) (simp add: fpi_device_gxfp_class_def)

lemma read_key_returns:
  obtains rc out h' where "gxfp_read_file_all env (Some path) h = Some ((rc, out), h')" "ulive h' = ulive h + blk out"
proof -
  obtain rc out h' where "gxfp_read_file_all env (Some path) h = Some ((rc, out), h')" "ulive h' = ulive h + (if out = None then 0 else 1)"
    by (rule read_file_returns)
  then show thesis using that by (cases out) auto
qed

lemma session_open_returns:
  assumes "world_ok env lib" "session_inv ss"
  obtains r ss' h' where "gxfp_session_open env lib (Some ss) path psk n h = Some ((r, Some ss'), h')" "session_inv ss'"
    "ulive h' - owned ss' = ulive h - owned ss" "r < 0 \<or> (\<exists>i. se_impl ss' = Some i \<and> ss_mode i = GXFP_MODE_READY)"
    "ss' = ss \<or> (\<exists>i. se_impl ss' = Some i \<and> resting (ss_mode i))"
proof (cases "path = None \<or> psk = None \<or> n = 0")
  case True
  then have "gxfp_session_open env lib (Some ss) path psk n h = Some ((- EINVAL, Some ss), h)"
    by (auto simp: gxfp_session_open_def split: option.split)
  then show thesis using that assms(2) by simp
next
  case False
  then obtain p key where F: "path = Some p" "psk = Some key" "n \<noteq> 0" by auto
  note w = world_okD [OF assms(1)]
  show thesis
  proof (cases rule: ensure_impl_runs [OF assms(2), where env = env and h = h])
    case 1
    then show thesis using that F assms(2) by (simp add: gxfp_session_open_def)
  next
    case (2 i h1)
    obtain r i' h' where o1: "session_open_impl env lib i p key n h1 = Some ((r, i'), h')" "open_result i h1 r i' h'"
      by (rule open_impl_runs [OF w(1,2) 2(2)])
    have "gxfp_session_open env lib (Some ss) path psk n h = Some ((r, Some (ss\<lparr>se_impl := Some i'\<rparr>)), h')"
      using F 2(1) o1(1) by (simp add: gxfp_session_open_def)
    then show thesis
      by (rule that) (use o1(2) 2(3) in \<open>auto simp: open_result_def session_moved_def session_inv_def owned_def resting_def split: if_splits\<close>)
  qed
qed

text \<open>What opening does to the object before it reports its end.\<close>

definition tried :: "gxfp_device \<Rightarrow> gerror option \<Rightarrow> gxfp_device \<Rightarrow> bool" where
  "tried w e w' \<longleftrightarrow> same_class w w' \<and> session_inv (dr_sess w') \<and> ulive (dr_h w') - owned (dr_sess w') = ulive (dr_h w) - owned (dr_sess w) \<and>
     (dozing w \<longrightarrow> dozing w') \<and> (e = None \<longrightarrow> opened w')"

lemma img_open_tries:
  assumes "world_ok env lib" "session_inv (dr_sess w)"
  obtains e w' where "gxfp_img_open env lib cfg w = Some (fpi_image_device_open_complete e w')" "tried w e w'"
proof (cases "st_chardev_path cfg = None \<or> st_chardev_path cfg = Some []")
  case True
  then show thesis
    using that [of "Some (G_IO_ERROR G_IO_ERROR_NOT_FOUND)" w] assms(2) by (auto simp: gxfp_img_open_def tried_def same_class_def)
next
  case False
  then obtain chardev_path where c: "st_chardev_path cfg = Some chardev_path" "chardev_path \<noteq> []" by auto
  define psk where "psk = (case st_getenv cfg ''FP_GXFP_PSK'' of None \<Rightarrow> GXFP_DEFAULT_PSK_PATH | Some p \<Rightarrow> if p = [] then GXFP_DEFAULT_PSK_PATH else p)"
  define w1 where "w1 = (free_paths w)\<lparr>dr_dev_path := Some chardev_path, dr_psk_path := Some psk\<rparr>"
  have w1: "same_class w w1" "dr_sess w1 = dr_sess w" "dr_h w1 = dr_h w" "dr_psk_path w1 = Some psk" "dr_dev_path w1 = Some chardev_path"
    by (simp_all add: w1_def free_paths_def same_class_def)
  obtain rc out h where f: "gxfp_read_file_all env (Some psk) (dr_h w) = Some ((rc, out), h)" "ulive h = ulive (dr_h w) + blk out"
    by (rule read_key_returns)
  let ?n = "case out of None \<Rightarrow> 0 | Some (_, n) \<Rightarrow> n" and ?key = "map_option fst out"
  obtain r ss h' where o1: "gxfp_session_open env lib (Some (dr_sess w)) (Some chardev_path) ?key ?n h = Some ((r, Some ss), h')" "session_inv ss"
    "ulive h' - owned ss = ulive h - owned (dr_sess w)" "r < 0 \<or> (\<exists>i. se_impl ss = Some i \<and> ss_mode i = GXFP_MODE_READY)"
    "ss = dr_sess w \<or> (\<exists>i. se_impl ss = Some i \<and> resting (ss_mode i))" by (rule session_open_returns [OF assms(1,2)])
  have eq: "gxfp_img_open env lib cfg w =
      (if rc < 0 then Some (fpi_image_device_open_complete (Some (G_IO_ERROR (G_IO_errno (- rc)))) (w1\<lparr>dr_h := h\<rparr>))
       else Some (fpi_image_device_open_complete (if r < 0 then Some (G_IO_ERROR (G_IO_errno (- r))) else None) (w1\<lparr>dr_sess := ss, dr_h := ufree_ptr ?key h'\<rparr>)))"
    unfolding gxfp_img_open_def c(1) option.case if_not_P [OF c(2)] Let_def psk_def [symmetric] w1_def [symmetric] w1(3,4) f(1)
    using o1(1) w1(2,5) by simp
  have b: "blk ?key = blk out" by (cases out) simp_all
  show thesis
  proof (cases "rc < 0")
    case True
    have "out = None" using True f(1) by (auto simp: gxfp_read_file_all_def Let_def split: if_splits prod.splits option.splits sum.splits)
    then have "tried w (Some (G_IO_ERROR (G_IO_errno (- rc)))) (w1\<lparr>dr_h := h\<rparr>)"
      using w1 f(2) assms(2) by (simp add: tried_def same_class_def dozing_def)
    then show thesis using that eq True by simp
  next
    case ok: False
    let ?e = "if r < 0 then Some (G_IO_ERROR (G_IO_errno (- r))) else None"
    have "tried w ?e (w1\<lparr>dr_sess := ss, dr_h := ufree_ptr ?key h'\<rparr>)"
      using w1(1) o1(2-5) f(2) b by (auto simp: tried_def same_class_def dozing_def opened_def impl_of_def)
    then show thesis using that eq ok by simp
  qed
qed

lemma img_open_returns:
  assumes "held env lib k a w"
  shows "returns (held env lib k a) (gxfp_img_open env lib cfg w)"
proof -
  have s: "world_ok env lib" "session_inv (dr_sess w)" using assms by (simp_all add: held_def sound_def)
  obtain e w' where w': "gxfp_img_open env lib cfg w = Some (fpi_image_device_open_complete e w')" "tried w e w'" by (rule img_open_tries [OF s])
  have "held env lib k a w'" using assms w'(2) by (simp add: held_def sound_def tried_def same_class_def)
  then show ?thesis using w'(1) rs.own [of "fpi_image_device_open_complete e w'" w' env lib k a]
    by (simp add: fpi_image_device_open_complete_def action_frame)
qed

lemma img_close_returns:
  assumes "held env lib k a w"
  shows "returns (held env lib k a) (gxfp_img_close env (gxfp_vt env lib cfg) w)"
proof -
  have s: "held env lib k a (cancel_scheduled_pump w)" using assms by simp
  have c: "clock_runs env" using assms world_okD(1) by (auto simp: held_def sound_def)
  show ?thesis
    unfolding gxfp_img_close_def gxfp_session_request_close_def [abs_def]
    by (rule session_returns [OF s]) (metis close_runs [OF c])
qed

lemma completed_cb_frame:
  "fp_action (completed_cb c d) = fp_action d" "fp_returns (completed_cb c d) = fp_returns d" "fp_cancel_idle (completed_cb c d) = fp_cancel_idle d"
  "fp_cancel_handlers (completed_cb c d) = fp_cancel_handlers d" "fp_is_open (completed_cb c d) = fp_is_open d"
  by (cases c; simp add: fpi_device_suspend_completed_def complete_suspend_resume_task_def noted_def)+

lemma notify_completed_frame [simp]:
  "fp_action (notify_completed d) = fp_action d" "fp_returns (notify_completed d) = fp_returns d" "fp_cancel_idle (notify_completed d) = fp_cancel_idle d"
  "fp_cancel_handlers (notify_completed d) = fp_cancel_handlers d" "fp_is_open (notify_completed d) = fp_is_open d"
proof -
  have "fp_action (fold completed_cb cs d) = fp_action d \<and> fp_returns (fold completed_cb cs d) = fp_returns d \<and>
      fp_cancel_idle (fold completed_cb cs d) = fp_cancel_idle d \<and> fp_cancel_handlers (fold completed_cb cs d) = fp_cancel_handlers d \<and>
      fp_is_open (fold completed_cb cs d) = fp_is_open d" for cs d
    by (induction cs arbitrary: d) (simp_all add: completed_cb_frame)
  then show "fp_action (notify_completed d) = fp_action d" "fp_returns (notify_completed d) = fp_returns d" "fp_cancel_idle (notify_completed d) = fp_cancel_idle d"
    "fp_cancel_handlers (notify_completed d) = fp_cancel_handlers d" "fp_is_open (notify_completed d) = fp_is_open d"
    by (simp_all add: notify_completed_def)
qed

lemma cancel_current_frame:
  "fp_action (cancel_current d) = fp_action d" "fp_task (cancel_current d) = fp_task d" "fp_is_open (cancel_current d) = fp_is_open d"
  "fp_returns (cancel_current d) = fp_returns d" "fp_cancel_handlers (cancel_current d) = fp_cancel_handlers d"
  "fp_log (cancel_current d) = fp_log d" "power (cancel_current d) = power d"
  by (simp_all add: cancel_current_def fp_device_cancelled_cb_def Let_def)

lemma cancel_current_idle: "fp_cancel_idle (cancel_current d) \<Longrightarrow> fp_cancel_idle d \<or> fp_cancel_handlers d"
  by (auto simp: cancel_current_def fp_device_cancelled_cb_def Let_def split: if_splits)

lemma temperature_frame:
  "fp_action (temperature_cancels d) = fp_action d" "fp_is_open (temperature_cancels d) = fp_is_open d" "fp_returns (temperature_cancels d) = fp_returns d"
  "fp_cancel_handlers (temperature_cancels d) = fp_cancel_handlers d"
  "fp_cancel_idle (temperature_cancels d) \<Longrightarrow> fp_cancel_idle d \<or> fp_cancel_handlers d"
  by (auto simp: temperature_cancels_def cancel_current_frame dest: cancel_current_idle split: if_splits)

lemma suspend_facts:
  "fp_action (fp_device_suspend d) = fp_action d" "fp_is_open (fp_device_suspend d) = fp_is_open d" "fp_returns (fp_device_suspend d) = fp_returns d"
  "fp_cancel_handlers (fp_device_suspend d) = fp_cancel_handlers d"
  "fp_cancel_idle (fp_device_suspend d) \<Longrightarrow> fp_cancel_idle d \<or> fp_cancel_handlers d"
  by (auto simp: fp_device_suspend_def fpi_device_suspend_def fpi_device_suspend_complete_def fpi_device_suspend_completed_def Let_def noted_def
      cancel_current_frame dest: cancel_current_idle split: if_splits)

lemma resume_facts:
  "fp_action (fp_device_resume d) = fp_action d" "fp_is_open (fp_device_resume d) = fp_is_open d" "fp_returns (fp_device_resume d) = fp_returns d"
  "fp_cancel_handlers (fp_device_resume d) = fp_cancel_handlers d" "fp_cancel_idle (fp_device_resume d) = fp_cancel_idle d"
  by (auto simp: fp_device_resume_def fpi_device_resume_def fpi_device_resume_complete_def noted_def)

lemma return_facts:
  "fp_action (fp_device_task_return_in_idle_cb r d) = FPI_DEVICE_ACTION_NONE" "fp_returns (fp_device_task_return_in_idle_cb r d) = fp_returns d"
  "fp_cancel_idle (fp_device_task_return_in_idle_cb r d) = fp_cancel_idle d" "fp_cancel_handlers (fp_device_task_return_in_idle_cb r d) = fp_cancel_handlers d"
  "fp_is_open (fp_device_task_return_in_idle_cb r d) =
     (if fp_action d = FPI_DEVICE_ACTION_OPEN \<and> (\<nexists>e. r = Return_error e) then True else if fp_action d = FPI_DEVICE_ACTION_CLOSE then False else fp_is_open d)"
  by (auto simp: fp_device_task_return_in_idle_cb_def Let_def noted_def split: task_return.split)

text \<open>Whatever is dispatched returns, and an enrolment becomes the current action only by its own request.\<close>

fun enrols :: "dispatch \<Rightarrow> bool" where
  "enrols (Do_enroll _ _ _) = True"
| "enrols _ = False"

definition returned :: "uenv \<Rightarrow> tlslib \<Rightarrow> int \<Rightarrow> bool \<Rightarrow> gxfp_device \<Rightarrow> bool" where
  "returned env lib k enrolling w \<longleftrightarrow> sound env lib k w \<and> (action_of w = FPI_DEVICE_ACTION_ENROLL \<longrightarrow> enrolling)"

lemma held_returned: "returns (held env lib k a) r \<Longrightarrow> (a = FPI_DEVICE_ACTION_ENROLL \<longrightarrow> b) \<Longrightarrow> returns (returned env lib k b) r"
  by (auto simp: returns_def held_def returned_def)

lemma start_returns:
  assumes "sound env lib k w" "\<And>a w. held env lib k a w \<Longrightarrow> returns (held env lib k a) (m w)"
    and "fp_action (snd (f (w_fp w))) = FPI_DEVICE_ACTION_ENROLL \<longrightarrow> b"
  shows "returns (returned env lib k b) (start f m w)"
proof -
  obtain go d where f: "f (w_fp w) = (go, d)" by fastforce
  have h: "held env lib k (fp_action d) (w\<lparr>w_fp := d\<rparr>)" using assms(1) by (simp add: held_def sound_def)
  show ?thesis by (rule held_returned [of env lib k "fp_action d"]) (use f h assms(2,3) in \<open>auto simp: start_def\<close>)
qed

lemma request_action:
  "fp_action (snd (fp_device_open c d)) = FPI_DEVICE_ACTION_ENROLL \<Longrightarrow> fp_action d = FPI_DEVICE_ACTION_ENROLL"
  "fp_action (snd (fp_device_close c d)) = FPI_DEVICE_ACTION_ENROLL \<Longrightarrow> fp_action d = FPI_DEVICE_ACTION_ENROLL"
  "fp_action (snd (fp_device_verify c hot d)) = FPI_DEVICE_ACTION_ENROLL \<Longrightarrow> fp_action d = FPI_DEVICE_ACTION_ENROLL"
  "fp_action (snd (fp_device_identify c n hot d)) = FPI_DEVICE_ACTION_ENROLL \<Longrightarrow> fp_action d = FPI_DEVICE_ACTION_ENROLL"
  "fp_action (snd (fp_device_capture c wait hot d)) = FPI_DEVICE_ACTION_ENROLL \<Longrightarrow> fp_action d = FPI_DEVICE_ACTION_ENROLL"
  by (auto simp: fp_device_open_def fp_device_close_def fp_device_verify_def fp_device_identify_def fp_device_capture_def refuse_def begin_action_def
      setup_task_cancellable_def action_report split: if_splits option.splits)

lemma storage_action:
  "fp_action (fp_device_delete_print c d) = fp_action d" "fp_action (fp_device_list_prints c d) = fp_action d"
  "fp_action (fp_device_clear_storage c d) = fp_action d" "fp_action (fp_device_task_cancelled_cb d) = fp_action d"
  by (simp_all add: fp_device_delete_print_def fp_device_list_prints_def fp_device_clear_storage_def fp_device_task_cancelled_cb_def action_report
      cancel_current_frame)

lemma dispatch_returns:
  assumes "sound env lib k w"
  shows "returns (returned env lib k (action_of w = FPI_DEVICE_ACTION_ENROLL \<or> enrols c)) (dispatch env lib cfg c w)"
proof -
  let ?vt = "gxfp_vt env lib cfg" and ?e = "action_of w = FPI_DEVICE_ACTION_ENROLL"
  have h: "held env lib k (action_of w) w" using assms by (simp add: held_def)
  have close: "returns (held env lib k a) (fp_image_device_close ?vt w)" if "held env lib k a w" for a w
    using that img_close_returns by (simp add: fp_image_device_close_def vt_close action_frame)
  have opn: "returns (held env lib k a) (fp_image_device_open ?vt w)" if "held env lib k a w" for a w
    using that img_open_returns by (simp add: fp_image_device_open_def vt_open)
  note request = start_returns [OF assms opn] start_returns [OF assms close] start_returns [OF assms rs.capture_returns]
  note source = held_returned [of env lib k "action_of w" _ ?e]
  have kept: "returned env lib k ?e (upd_fp f w)" if "fp_action (f (w_fp w)) = action_of w" for f
    using assms that by (simp add: returned_def sound_def upd_fp_def)
  show ?thesis
  proof (cases c)
    case (On_scan scan)
    have "held env lib k (action_of w) (w\<lparr>w_scans := xs\<rparr>)" for xs using h by simp
    then show ?thesis
      using On_scan source [OF rs.minutiae_returns] assms by (auto simp: dispatch_def returned_def split: list.split)
  next
    case On_timer
    then show ?thesis using source [OF timer_returns [OF h]] assms by (auto simp: dispatch_def returned_def)
  next
    case On_cancel
    then show ?thesis using source [OF rs.cancelled_returns [OF h]] assms by (auto simp: dispatch_def returned_def)
  next
    case On_return
    then show ?thesis using assms by (auto simp: dispatch_def returned_def sound_def upd_fp_def return_facts split: list.split)
  qed (auto simp: dispatch_def intro!: request kept dest: request_action simp: storage_action suspend_facts resume_facts temperature_frame)
qed

lemma dispatches_return:
  assumes "sound env lib k w"
  shows "returns (sound env lib k) (dispatches env lib cfg cs w)"
  using assms
proof (induction cs arbitrary: w)
  case (Cons c cs)
  then show ?case using dispatch_returns [OF Cons.prems, of c cfg] by (auto simp: returns_def returned_def)
qed simp

text \<open>A sound object gives back its memory.\<close>

lemma sound_dispose:
  assumes "sound env lib k w"
  shows "ulive (dr_h (fpi_device_gxfp_dispose w)) = k"
proof -
  have s: "session_inv (dr_sess w)" "ulive (dr_h w) - owned (dr_sess w) = k" using assms by (simp_all add: sound_def)
  obtain h where "gxfp_session_dispose (Some (dr_sess w)) (dr_h w) = (Some ((dr_sess w)\<lparr>se_impl := None\<rparr>), h)"
    "ulive h = ulive (dr_h w) - owned (dr_sess w)" by (rule dispose_frees [OF s(1)])
  then show ?thesis using s(2) by (simp add: fpi_device_gxfp_dispose_def Let_def free_paths_def cancel_scheduled_pump_def)
qed

end
