(* ===== verification/Driver_Props.thy ===== *)
theory Driver_Props
  imports Driver_Returns
begin

text \<open>
  The invariant of the object between two dispatches of the main loop, and what the driver promises the application: every
  dispatch returns, no assertion of the library fails, every action that was started is completed exactly once, and an action
  that is not complete has something attached that will carry it on.
\<close>

section \<open>The log\<close>

fun accepted :: "notice \<Rightarrow> bool" where
  "accepted (Started _) = True"
| "accepted (Task_returned _ _) = True"
| "accepted (Power_started _) = True"
| "accepted (Power_returned _) = True"
| "accepted n = harmless n"

fun is_start :: "notice \<Rightarrow> bool" where
  "is_start (Started _) = True"
| "is_start _ = False"

fun is_return :: "notice \<Rightarrow> bool" where
  "is_return (Task_returned _ _) = True"
| "is_return _ = False"

fun is_power_start :: "notice \<Rightarrow> bool" where
  "is_power_start (Power_started _) = True"
| "is_power_start _ = False"

fun is_power_return :: "notice \<Rightarrow> bool" where
  "is_power_return (Power_returned _) = True"
| "is_power_return _ = False"

lemma harmless_accepted: "harmless n \<Longrightarrow> accepted n \<and> \<not> is_start n \<and> \<not> is_return n \<and> \<not> is_power_start n \<and> \<not> is_power_return n"
  by (cases n) auto

text \<open>What an action that was cancelled for suspending fails with, unless the temperature model had cancelled it before.\<close>

definition busy_reason :: "gerror option \<Rightarrow> bool" where
  "busy_reason r \<longleftrightarrow> r = Some (FP_DEVICE_ERROR FP_DEVICE_ERROR_BUSY) \<or> r = Some (FP_DEVICE_ERROR FP_DEVICE_ERROR_TOO_HOT)"

text \<open>A request to suspend that is not answered yet waits for the action that was current when it came: a capture action is
  cancelled and the device counts as suspended, opening and closing are awaited. A suspended device has no other action.\<close>

definition parked :: "fp_device \<Rightarrow> bool" where
  "parked d \<longleftrightarrow>
     fp_on_completed d = (if \<not> fp_suspend_resume_task d then []
       else if capture_action (fp_action d) then [Suspend_completed] else [Complete_suspend_resume]) \<and>
     (fp_suspend_resume_task d \<longrightarrow> fp_action d \<noteq> FPI_DEVICE_ACTION_NONE \<and> fp_is_suspended d = capture_action (fp_action d)) \<and>
     fp_suspend_error d =
       (if fp_suspend_resume_task d \<and> capture_action (fp_action d) then Some (FP_DEVICE_ERROR FP_DEVICE_ERROR_NOT_SUPPORTED) else None) \<and>
     (fp_is_suspended d \<and> \<not> fp_suspend_resume_task d \<longrightarrow> fp_action d = FPI_DEVICE_ACTION_NONE) \<and>
     (fp_suspend_resume_task d \<and> capture_action (fp_action d) \<longrightarrow> busy_reason (fp_cancel_reason d)) \<and>
     (fp_cancel_reason d = None \<or> busy_reason (fp_cancel_reason d)) \<and>
     (fp_action d = FPI_DEVICE_ACTION_NONE \<longrightarrow> fp_cancel_reason d = None)"

lemma capture_NONE [simp]: "\<not> capture_action FPI_DEVICE_ACTION_NONE"
  by (simp add: capture_action_def)

text \<open>Nothing went wrong so far, and every action but the current one has been returned once, as has every request to suspend
  or to resume but the one that is awaited.\<close>

definition ledger :: "fp_device \<Rightarrow> bool" where
  "ledger d \<longleftrightarrow> list_all accepted (fp_log d) \<and>
     length (filter is_start (fp_log d)) = length (filter is_return (fp_log d)) + (if fp_action d = FPI_DEVICE_ACTION_NONE then 0 else 1) \<and>
     length (filter is_power_start (fp_log d)) = length (filter is_power_return (fp_log d)) + (if fp_suspend_resume_task d then 1 else 0) \<and>
     (fp_task d \<longleftrightarrow> fp_action d \<noteq> FPI_DEVICE_ACTION_NONE) \<and> parked d"

lemma ledger_keeps:
  assumes "ledger d" "keeps d d'"
  shows "ledger d'"
proof -
  obtain xs where xs: "fp_log d' = xs @ fp_log d" "list_all harmless xs" using assms(2) by (auto simp: keeps_def)
  have "list_all accepted xs \<and> filter is_start xs = [] \<and> filter is_return xs = [] \<and>
      filter is_power_start xs = [] \<and> filter is_power_return xs = []"
    using xs(2) harmless_accepted by (simp add: list_all_iff filter_empty_conv)
  then show ?thesis using assms xs(1) by (simp add: ledger_def keeps_def parked_def power_def)
qed

lemma ledger_begin:
  "ledger d \<Longrightarrow> fp_action d = FPI_DEVICE_ACTION_NONE \<Longrightarrow> \<not> fp_is_suspended d \<Longrightarrow> a \<noteq> FPI_DEVICE_ACTION_NONE \<Longrightarrow> ledger (begin_action a d)"
  by (auto simp: ledger_def parked_def begin_action_def setup_task_cancellable_def noted_def)

text \<open>The end of a task answers the request to suspend that waits for it.\<close>

lemma notify_completed_eq:
  assumes "parked d0" "d = d0\<lparr>fp_action := a, fp_task := b, fp_is_open := c, fp_cancelled := x, fp_cancel_reason := y, fp_returns := z, fp_log := l\<rparr>"
  shows "notify_completed d =
    (if fp_suspend_resume_task d0
     then noted (Power_returned (fp_suspend_error d0)) (d\<lparr>fp_on_completed := [], fp_suspend_resume_task := False, fp_suspend_error := None\<rparr>) else d)"
  using assms(1) unfolding assms(2)
  by (cases "fp_suspend_resume_task d0"; cases "capture_action (fp_action d0)")
     (auto simp: notify_completed_def parked_def Let_def fpi_device_suspend_completed_def complete_suspend_resume_task_def noted_def)

lemma ledger_return:
  assumes "ledger d" "fp_action d \<noteq> FPI_DEVICE_ACTION_NONE"
  obtains y where "ledger (fp_device_task_return_in_idle_cb r (d\<lparr>fp_returns := x\<rparr>))"
    "fp_log (fp_device_task_return_in_idle_cb r (d\<lparr>fp_returns := x\<rparr>)) =
       (if fp_suspend_resume_task d then [Power_returned (fp_suspend_error d)] else []) @ Task_returned (fp_action d) y # fp_log d"
    "\<And>e. y = Return_error e \<Longrightarrow> fp_cancel_reason d \<noteq> None \<Longrightarrow> fp_cancel_reason d = Some e"
    "\<not> fp_suspend_resume_task (fp_device_task_return_in_idle_cb r (d\<lparr>fp_returns := x\<rparr>))"
    "fp_is_suspended (fp_device_task_return_in_idle_cb r (d\<lparr>fp_returns := x\<rparr>)) = fp_is_suspended d"
proof -
  let ?o = "if fp_action d = FPI_DEVICE_ACTION_OPEN \<and> \<not> (case r of Return_error _ \<Rightarrow> True | _ \<Rightarrow> False) then True
    else if fp_action d = FPI_DEVICE_ACTION_CLOSE then False else fp_is_open d"
  let ?l = "Task_returned (fp_action d) (case (r, fp_cancel_reason d) of (Return_error _, Some e) \<Rightarrow> Return_error e | _ \<Rightarrow> r) # fp_log d"
  define d1 where "d1 = d\<lparr>fp_action := FPI_DEVICE_ACTION_NONE, fp_task := False, fp_is_open := ?o, fp_cancelled := False, fp_cancel_reason := None,
    fp_returns := x, fp_log := ?l\<rparr>"
  have eq: "fp_device_task_return_in_idle_cb r (d\<lparr>fp_returns := x\<rparr>) = notify_completed d1"
    unfolding fp_device_task_return_in_idle_cb_def d1_def Let_def
    by (rule arg_cong [where f = notify_completed], rule fp_device.equality) (simp_all add: noted_def)
  have p: "parked d" using assms(1) by (simp add: ledger_def)
  note n = eq notify_completed_eq [OF p d1_def]
  show thesis
  proof (rule that, unfold n)
    show "ledger (if fp_suspend_resume_task d
        then noted (Power_returned (fp_suspend_error d)) (d1\<lparr>fp_on_completed := [], fp_suspend_resume_task := False, fp_suspend_error := None\<rparr>) else d1)"
      using assms by (auto simp: ledger_def parked_def noted_def d1_def)
  qed (auto simp: noted_def d1_def split: task_return.splits option.splits)
qed

section \<open>The invariant\<close>

text \<open>Outside a capture action the image device is inactive and the session has nothing to do; opening and closing are complete
  as soon as they have been asked for, and their result waits to be returned.\<close>

definition between :: "gxfp_device \<Rightarrow> bool" where
  "between w \<longleftrightarrow> dozing w \<and> calm w \<and> \<not> fp_cancel_idle (w_fp w) \<and> \<not> fp_cancel_handlers (w_fp w) \<and>
     length (fp_returns (w_fp w)) = (if action_of w = FPI_DEVICE_ACTION_NONE then 0 else 1) \<and>
     (action_of w = FPI_DEVICE_ACTION_OPEN \<longrightarrow> (\<forall>r \<in> set (fp_returns (w_fp w)). (\<exists>e. r = Return_error e) \<or> opened w))"

definition loop_inv :: "uenv \<Rightarrow> tlslib \<Rightarrow> int \<Rightarrow> gxfp_device \<Rightarrow> bool" where
  "loop_inv env lib k w \<longleftrightarrow> sound env lib k w \<and> ledger (w_fp w) \<and>
     (fp_is_open (w_fp w) \<and> action_of w \<noteq> FPI_DEVICE_ACTION_CLOSE \<longrightarrow> opened w) \<and>
     (if capture_action (action_of w) then fp_is_open (w_fp w) \<and> phase w else between w)"

lemma capture_inv:
  "loop_inv env lib k w \<Longrightarrow> capture_action (action_of w) \<Longrightarrow> gx_ok env lib k w \<and> phase w \<and> fp_is_open (w_fp w)"
  by (auto simp: loop_inv_def gx_ok_sound capture_action_def)

lemma capture_invI:
  assumes "loop_inv env lib k w" "capture_action (action_of w)" "gx_ok env lib k w'" "keeps (w_fp w) (w_fp w')" "phase w'"
  shows "loop_inv env lib k w'"
  using assms ledger_keeps by (auto simp: loop_inv_def gx_ok_sound keeps_def)

text \<open>Steps that only touch the device class.\<close>

lemma class_step:
  assumes "loop_inv env lib k w" "steady (w_fp w) d"
  shows "loop_inv env lib k (w\<lparr>w_fp := d\<rparr>)"
proof -
  let ?w = "w\<lparr>w_fp := d\<rparr>"
  have s: "keeps (w_fp w) d" "fp_returns d = fp_returns (w_fp w)" "fp_cancel_idle d = fp_cancel_idle (w_fp w)"
    "fp_cancel_handlers d = fp_cancel_handlers (w_fp w)" "fp_action d = action_of w" "fp_is_open d = fp_is_open (w_fp w)"
    using assms(2) by (auto simp: steady_def keeps_def)
  have m: "impl_of ?w = impl_of w" "dr_timer ?w = dr_timer w" by (simp_all add: impl_of_def)
  have p: "phase ?w = phase w"
    unfolding phase_def starting_def running_def waiting_def finished_def acting_def calm_def gx_good_timer [OF m] using s by simp
  have b: "between ?w = between w" unfolding between_def calm_def dozing_def opened_def m using s by simp
  show ?thesis
    using assms(1) s p b ledger_keeps [OF _ s(1)] unfolding loop_inv_def sound_def opened_def m by auto
qed

section \<open>The dispatches keep the invariant\<close>

text \<open>Cancelling marks the action and attaches the source that will stop the device, unless the action is complete already.\<close>

lemma cancelling_step:
  assumes "loop_inv env lib k w" "fp_action d = action_of w" "ledger d" "fp_is_open d = fp_is_open (w_fp w)"
    "fp_returns d = fp_returns (w_fp w)" "fp_cancel_handlers d = fp_cancel_handlers (w_fp w)"
    "fp_cancel_idle d \<longrightarrow> fp_cancel_idle (w_fp w) \<or> fp_cancel_handlers (w_fp w)"
  shows "loop_inv env lib k (w\<lparr>w_fp := d\<rparr>)"
proof -
  let ?w = "w\<lparr>w_fp := d\<rparr>"
  have m: "impl_of ?w = impl_of w" "dr_timer ?w = dr_timer w" by (simp_all add: impl_of_def)
  have a: "acting ?w = acting w" "calm ?w = calm w" using assms(2,5) by (simp_all add: acting_def calm_def)
  have r: "starting ?w = starting w" "running gx_good ?w = running gx_good w" "waiting ?w = waiting w"
    unfolding starting_def running_def waiting_def a gx_good_timer [OF m] using assms(2) by simp_all
  have f: "finished w \<Longrightarrow> finished ?w" unfolding finished_def a using assms(5-7) by simp
  have p: "phase w \<Longrightarrow> phase ?w" unfolding phase_def r gx_good_timer [OF m] using f by blast
  have b: "between w \<Longrightarrow> between ?w" unfolding between_def a dozing_def opened_def m using assms(2,5-7) by simp
  show ?thesis using assms(1-4) p b unfolding loop_inv_def sound_def opened_def m by auto
qed

lemma ledger_cong:
  assumes "fp_log d' = fp_log d" "fp_action d' = fp_action d" "fp_task d' = fp_task d" "power d' = power d"
  shows "ledger d' = ledger d"
  using assms by (simp add: ledger_def parked_def power_def)

lemma ledger_cancel [simp]: "ledger (cancel_current d) = ledger d"
  by (rule ledger_cong) (simp_all add: cancel_current_frame)

lemma busy_or: "r = None \<or> busy_reason r \<Longrightarrow> busy_reason (Some e) \<Longrightarrow> busy_reason (case r of None \<Rightarrow> Some e | Some x \<Rightarrow> Some x)"
  by (cases r) simp_all

lemma busy_reasons [simp]:
  "busy_reason (Some (FP_DEVICE_ERROR FP_DEVICE_ERROR_BUSY))" "busy_reason (Some (FP_DEVICE_ERROR FP_DEVICE_ERROR_TOO_HOT))" "\<not> busy_reason None"
  by (simp_all add: busy_reason_def)

lemma ledger_reason: "ledger d \<Longrightarrow> capture_action (fp_action d) \<Longrightarrow> busy_reason r \<Longrightarrow> ledger (d\<lparr>fp_cancel_reason := r\<rparr>)"
  by (auto simp: ledger_def parked_def)

lemma ledger_too_hot:
  assumes "ledger d"
  shows "ledger (temperature_cancels d)"
proof -
  have "fp_cancel_reason d = None \<or> busy_reason (fp_cancel_reason d)" using assms by (simp add: ledger_def parked_def)
  from busy_or [OF this busy_reasons(2)] show ?thesis using assms by (simp add: temperature_cancels_def ledger_reason)
qed

lemma cancel_step: "loop_inv env lib k w \<Longrightarrow> loop_inv env lib k (upd_fp fp_device_task_cancelled_cb w)"
  unfolding upd_fp_def
  by (rule cancelling_step) (auto simp: fp_device_task_cancelled_cb_def cancel_current_frame loop_inv_def dest: cancel_current_idle)

lemma too_hot_step: "loop_inv env lib k w \<Longrightarrow> loop_inv env lib k (upd_fp temperature_cancels w)"
  unfolding upd_fp_def
  by (rule cancelling_step) (auto simp: ledger_too_hot temperature_frame loop_inv_def dest: temperature_frame(5))

text \<open>A request to suspend marks the device, cancels a capture action, or waits for the end of another one. A device that can
  be resumed has no action, so resuming ends at once.\<close>

lemma ledger_refused: "ledger d \<Longrightarrow> ledger (noted (Refused e) d)"
  using ledger_keeps steady_noted by (simp add: steady_def)

lemma suspend_ledger:
  assumes "ledger d"
  shows "ledger (fp_device_suspend d)"
proof (cases "fp_suspend_resume_task d \<or> fp_is_suspended d")
  case True
  then show ?thesis using ledger_refused [OF assms] by (simp add: fp_device_suspend_def)
next
  case False
  have p: "fp_on_completed d = []" "fp_suspend_error d = None" "fp_task d \<longleftrightarrow> fp_action d \<noteq> FPI_DEVICE_ACTION_NONE"
    using assms False by (simp_all add: ledger_def parked_def)
  let ?s = "noted (Power_started True) (d\<lparr>fp_suspend_resume_task := True\<rparr>)"
  have eq: "fp_device_suspend d = fpi_device_suspend ?s" using False by (simp add: fp_device_suspend_def)
  consider (idle) "fp_action d = FPI_DEVICE_ACTION_NONE" | (capture) "capture_action (fp_action d)"
    | (short) "fp_action d \<noteq> FPI_DEVICE_ACTION_NONE" "\<not> capture_action (fp_action d)" by blast
  then show ?thesis
  proof cases
    case idle
    then show ?thesis unfolding eq using assms p
      by (simp add: fpi_device_suspend_def fpi_device_suspend_complete_def fpi_device_suspend_completed_def Let_def noted_def ledger_def parked_def)
  next
    case capture
    then have "fp_action d \<noteq> FPI_DEVICE_ACTION_NONE" by auto
    moreover have "busy_reason (case fp_cancel_reason d of None \<Rightarrow> Some (FP_DEVICE_ERROR FP_DEVICE_ERROR_BUSY) | Some x \<Rightarrow> Some x)"
      using assms by (simp add: ledger_def parked_def busy_or)
    ultimately show ?thesis unfolding eq using assms p capture False
      by (simp add: fpi_device_suspend_def fpi_device_suspend_complete_def noted_def) (simp add: ledger_def parked_def)
  next
    case short
    then show ?thesis unfolding eq using assms p False by (simp add: fpi_device_suspend_def noted_def ledger_def parked_def)
  qed
qed

lemma resume_ledger:
  assumes "ledger d"
  shows "ledger (fp_device_resume d)"
proof (cases "fp_suspend_resume_task d \<or> \<not> fp_is_suspended d")
  case True
  then show ?thesis using ledger_refused [OF assms] by (auto simp: fp_device_resume_def)
next
  case False
  then have "fp_action d = FPI_DEVICE_ACTION_NONE" using assms by (simp add: ledger_def parked_def)
  then show ?thesis
    using False assms by (simp add: fp_device_resume_def fpi_device_resume_def fpi_device_resume_complete_def noted_def ledger_def parked_def)
qed

lemma suspend_step:
  assumes "loop_inv env lib k w"
  shows "loop_inv env lib k (upd_fp fp_device_suspend w)" "loop_inv env lib k (upd_fp fp_device_resume w)"
  unfolding upd_fp_def
  by (rule cancelling_step [OF assms]; use assms in \<open>auto simp: suspend_ledger resume_ledger suspend_facts resume_facts loop_inv_def dest: suspend_facts(5)\<close>)+

lemma storage_step:
  assumes "loop_inv env lib k w"
  shows "loop_inv env lib k (upd_fp (fp_device_delete_print c) w)" "loop_inv env lib k (upd_fp (fp_device_list_prints c) w)"
    "loop_inv env lib k (upd_fp (fp_device_clear_storage c) w)"
  unfolding upd_fp_def
  by (rule class_step [OF assms]; simp add: fp_device_delete_print_def fp_device_list_prints_def fp_device_clear_storage_def steady_noted)+

text \<open>The sources of the main loop.\<close>

lemma cancelled_step:
  assumes "loop_inv env lib k w" "fp_cancel_idle (w_fp w)"
  obtains w' where "fp_device_cancel_in_idle_cb (gxfp_vt env lib cfg) w = Some w'" "loop_inv env lib k w'"
proof -
  have cap: "capture_action (action_of w)" using assms by (auto simp: loop_inv_def between_def split: if_splits)
  note c = capture_inv [OF assms(1) cap]
  have "starting w \<and> gx_good FPI_IMAGE_DEVICE_STATE_ACTIVATING w \<or> running gx_good w \<or> waiting w \<and> gx_good FPI_IMAGE_DEVICE_STATE_INACTIVE w"
    using c assms(2) by (auto simp: phase_def finished_def)
  then obtain w' where w': "fp_device_cancel_in_idle_cb (gxfp_vt env lib cfg) w = Some w'" "gx_ok env lib k w'" "keeps (w_fp w) (w_fp w')"
    "starting w' \<and> gx_good FPI_IMAGE_DEVICE_STATE_ACTIVATING w' \<or> ended gx_good w'"
    using gx.cancelled_settles c by metis
  then have "phase w'" using phase_ended by (auto simp: phase_def)
  then show thesis using that w' capture_invI [OF assms(1) cap] by blast
qed

lemma timer_step:
  assumes "loop_inv env lib k w"
  obtains w' where "gxfp_pump_timeout_cb env lib (gxfp_vt env lib cfg) w = Some w'" "loop_inv env lib k w'"
proof (cases "capture_action (action_of w)")
  case True
  note c = capture_inv [OF assms True]
  obtain w' where "gxfp_pump_timeout_cb env lib (gxfp_vt env lib cfg) w = Some w'" "gx_ok env lib k w'" "keeps (w_fp w) (w_fp w')" "phase w'"
    by (rule timer_settles [OF _ _ True]) (use c in auto)
  then show thesis using that capture_invI [OF assms True] by blast
next
  case False
  then have "dozing w" using assms by (simp add: loop_inv_def between_def)
  then obtain w' where w': "gxfp_pump_timeout_cb env lib (gxfp_vt env lib cfg) w = Some w'" "steady (w_fp w) (w_fp w')" "w_pv w' = w_pv w" "w_scans w' = w_scans w"
    "dr_sess w' = dr_sess w" "ulive (dr_h w') = ulive (dr_h w)" by (rule timer_dozes)
  have i: "loop_inv env lib k (w\<lparr>w_fp := w_fp w'\<rparr>)" by (rule class_step [OF assms w'(2)])
  have a: "\<not> capture_action (action_of w')" using False w'(2) by (simp add: steady_def keeps_def)
  have "loop_inv env lib k w'"
    using i a w'(3-6) by (simp add: loop_inv_def sound_def between_def calm_def dozing_def opened_def impl_of_def)
  then show thesis using that w'(1) by blast
qed

text \<open>The end of an extraction. The class copes with all of them but the one that orphans an enrolment.\<close>

fun orphans :: "dispatch \<Rightarrow> gxfp_device \<Rightarrow> bool" where
  "orphans (On_scan scan) w = (w_scans w \<noteq> [] \<and> orphaning scan w)"
| "orphans _ w = False"

lemma scan_step:
  assumes "loop_inv env lib k w" "\<not> orphans (On_scan scan) w" "w_scans w = img # rest"
  obtains w' where "fpi_image_device_minutiae_detected (gxfp_vt env lib cfg) img scan (w\<lparr>w_scans := rest\<rparr>) = Some w'" "loop_inv env lib k w'"
proof -
  have cap: "capture_action (action_of w)" using assms(1,3) by (auto simp: loop_inv_def between_def calm_def split: if_splits)
  note c = capture_inv [OF assms(1) cap]
  have p: "running gx_good w \<or> waiting w \<and> gx_good FPI_IMAGE_DEVICE_STATE_INACTIVE w"
    using c assms(3) by (auto simp: phase_def starting_def finished_def calm_def)
  then have one: "w_scans w = [img]" "rest = []" using assms(3) by (auto simp: running_def waiting_def acting_def split: if_splits)
  have e: "\<not> orphaning scan w" using assms(2,3) by simp
  obtain w' where "fpi_image_device_minutiae_detected (gxfp_vt env lib cfg) img scan (w\<lparr>w_scans := []\<rparr>) = Some w'" "gx_ok env lib k w'" "settled gx_good w w'"
    by (rule gx.scan_settles [OF conjunct1 [OF c] p one(1) e])
  then show thesis using that one(2) capture_invI [OF assms(1) cap] phase_settled by (auto simp: settled_def)
qed

text \<open>Returning a task to the application.\<close>

lemma return_step:
  assumes "loop_inv env lib k w" "rev (fp_returns (w_fp w)) = r # rest"
  shows "loop_inv env lib k (upd_fp (\<lambda>d. fp_device_task_return_in_idle_cb r (d\<lparr>fp_returns := rev rest\<rparr>)) w)"
proof -
  let ?d = "fp_device_task_return_in_idle_cb r ((w_fp w)\<lparr>fp_returns := rev rest\<rparr>)"
  let ?w = "w\<lparr>w_fp := ?d\<rparr>"
  have ret: "r \<in> set (fp_returns (w_fp w))" using assms(2) by (metis list.set_intros(1) set_rev)
  have act: "action_of w \<noteq> FPI_DEVICE_ACTION_NONE"
    using assms ret by (auto simp: loop_inv_def between_def capture_action_def split: if_splits)
  have w: "dozing w" "calm w" "length (fp_returns (w_fp w)) = 1" "\<not> fp_cancel_idle (w_fp w)" "\<not> fp_cancel_handlers (w_fp w)"
    using assms(1) act ret
    by (auto simp: loop_inv_def between_def phase_def starting_def running_def waiting_def acting_def finished_def dozing_def impl_of_def
        split: if_splits option.split)
  have one: "rest = []" using assms(2) w(3) by (metis Suc_length_conv length_0_conv length_rev list.inject One_nat_def)
  have m: "impl_of ?w = impl_of w" by (simp add: impl_of_def)
  have "opened ?w" if "fp_is_open ?d"
    using assms(1) that ret act unfolding return_facts(5) opened_def m
    by (auto simp: loop_inv_def between_def opened_def capture_action_def split: if_splits)
  moreover have "between ?w" unfolding between_def calm_def dozing_def
    using w one by (simp add: return_facts calm_def dozing_def)
  moreover have "ledger ?d" by (rule ledger_return) (use assms(1) act in \<open>auto simp: loop_inv_def\<close>)
  ultimately show ?thesis using assms(1) by (simp add: loop_inv_def sound_def upd_fp_def return_facts capture_action_def)
qed

subsection \<open>Requests of the application\<close>

text \<open>A request is refused, or sets its action up.\<close>

definition begun :: "FpiDeviceAction \<Rightarrow> fp_device \<Rightarrow> fp_device \<Rightarrow> bool" where
  "begun a d d' \<longleftrightarrow> \<not> fp_is_suspended d \<and> keeps (begin_action a d) d' \<and> fp_returns d' = fp_returns d \<and> fp_cancel_idle d' = fp_cancel_idle d"

definition requests :: "FpiDeviceAction \<Rightarrow> (fp_device \<Rightarrow> bool \<times> fp_device) \<Rightarrow> bool" where
  "requests a f \<longleftrightarrow> (\<forall>d. (\<exists>e. f d = (False, noted (Refused e) d)) \<or>
     \<not> fp_task d \<and> (fp_is_open d \<longleftrightarrow> a \<noteq> FPI_DEVICE_ACTION_OPEN) \<and> (\<exists>d'. f d = (True, d') \<and> begun a d d'))"

lemma begun_begin: "\<not> fp_is_suspended d \<Longrightarrow> begun a d (begin_action a d)"
  by (simp add: begun_def begin_action_def setup_task_cancellable_def noted_def)

lemma begun_upd [simp]:
  "begun a d (d'\<lparr>fp_match := m\<rparr>) = begun a d d'" "begun a d (d'\<lparr>fp_wait_for_finger := b\<rparr>) = begun a d d'"
  "begun a d (d'\<lparr>fp_enroll_type_set := b, fp_enroll_prints := n\<rparr>) = begun a d d'"
  by (simp_all add: begun_def keeps_def)

lemma begun_steady: "begun a d d' \<Longrightarrow> steady d' d'' \<Longrightarrow> begun a d d''"
  using keeps_trans by (auto simp: begun_def steady_def)

lemma begun_facts:
  "begun a d d' \<Longrightarrow> fp_action d' = a \<and> fp_is_open d' = fp_is_open d"
  by (auto simp: begun_def keeps_def begin_action_def setup_task_cancellable_def noted_def)

lemma begun_ledger: "ledger d \<Longrightarrow> fp_action d = FPI_DEVICE_ACTION_NONE \<Longrightarrow> a \<noteq> FPI_DEVICE_ACTION_NONE \<Longrightarrow> begun a d d' \<Longrightarrow> ledger d'"
  using ledger_begin ledger_keeps by (auto simp: begun_def)

lemma open_requests: "requests FPI_DEVICE_ACTION_OPEN (fp_device_open c)"
  using begun_steady [OF begun_begin] by (auto simp: requests_def fp_device_open_def refuse_def)

lemma close_requests: "requests FPI_DEVICE_ACTION_CLOSE (fp_device_close c)"
  by (auto simp: requests_def fp_device_close_def refuse_def begun_begin)

lemma capture_requests:
  "requests FPI_DEVICE_ACTION_ENROLL (fp_device_enroll c p hot)" "requests FPI_DEVICE_ACTION_VERIFY (fp_device_verify c hot)"
  "requests FPI_DEVICE_ACTION_IDENTIFY (fp_device_identify c n hot)" "requests FPI_DEVICE_ACTION_CAPTURE (fp_device_capture c wait hot)"
  by (auto simp: requests_def fp_device_enroll_def fp_device_verify_def fp_device_identify_def fp_device_capture_def refuse_def begun_begin
      split: option.split)

lemma start_step:
  assumes "loop_inv env lib k w" "requests a f"
    and "\<And>d. action_of w = FPI_DEVICE_ACTION_NONE \<Longrightarrow> fp_is_open (w_fp w) \<longleftrightarrow> a \<noteq> FPI_DEVICE_ACTION_OPEN \<Longrightarrow> begun a (w_fp w) d \<Longrightarrow>
      \<exists>w'. method (w\<lparr>w_fp := d\<rparr>) = Some w' \<and> loop_inv env lib k w'"
  shows "\<exists>w'. start f method w = Some w' \<and> loop_inv env lib k w'"
proof -
  have refused: "loop_inv env lib k (w\<lparr>w_fp := noted (Refused e) (w_fp w)\<rparr>)" for e
    by (rule class_step [OF assms(1)]) (simp add: steady_noted)
  have idle: "action_of w = FPI_DEVICE_ACTION_NONE" if "\<not> fp_task (w_fp w)" using assms(1) that by (simp add: loop_inv_def ledger_def)
  show ?thesis using assms(2) [unfolded requests_def, rule_format, of "w_fp w"] refused idle assms(3) by (auto simp: start_def)
qed

text \<open>Capture actions.\<close>

lemma scan_request_step:
  assumes "loop_inv env lib k w" "capture_action a" "action_of w = FPI_DEVICE_ACTION_NONE" "fp_is_open (w_fp w)" "begun a (w_fp w) d"
  shows "\<exists>w'. fp_image_device_start_capture_action (gxfp_vt env lib cfg) (w\<lparr>w_fp := d\<rparr>) = Some w' \<and> loop_inv env lib k w'"
proof -
  let ?w = "w\<lparr>w_fp := d\<rparr>"
  have b: "between w" "opened w" "sound env lib k w" "ledger (w_fp w)" using assms(1,3,4) by (auto simp: loop_inv_def capture_action_def)
  have m: "impl_of ?w = impl_of w" by (simp add: impl_of_def)
  have ok: "gx_ok env lib k ?w" using b m by (simp add: gx_ok_sound sound_def opened_def)
  have act: "acting ?w" "calm ?w"
    using b(1) assms(2,3,5) begun_facts [OF assms(5)] by (auto simp: acting_def calm_def between_def begun_def)
  have rest: "gx_good FPI_IMAGE_DEVICE_STATE_INACTIVE ?w"
    using b(1,2) m by (auto simp: between_def dozing_def opened_def impl_of_def)
  obtain w' where w': "fp_image_device_start_capture_action (gxfp_vt env lib cfg) ?w = Some w'" "gx_ok env lib k w'" "keeps (w_fp ?w) (w_fp w')"
    "finished w' \<and> gx_good FPI_IMAGE_DEVICE_STATE_INACTIVE w' \<or> starting w' \<and> gx_good FPI_IMAGE_DEVICE_STATE_ACTIVATING w'"
    by (rule gx.capture_starts [OF ok act rest])
  have "a \<noteq> FPI_DEVICE_ACTION_NONE" using assms(2) by (auto simp: capture_action_def)
  then have "ledger (w_fp w')" using begun_ledger [OF b(4) assms(3) _ assms(5)] ledger_keeps w'(3) by simp
  moreover have "action_of w' = a" "fp_is_open (w_fp w')" using w'(3) begun_facts [OF assms(5)] assms(4) by (simp_all add: keeps_def)
  ultimately have "loop_inv env lib k w'" using w'(2,4) assms(2) by (auto simp: loop_inv_def gx_ok_sound phase_def)
  then show ?thesis using w'(1) by blast
qed

text \<open>Opening and closing complete at once.\<close>

lemma completes_open_close:
  "fp_action d = FPI_DEVICE_ACTION_OPEN \<Longrightarrow> completes d (fpi_device_open_complete e d)"
  "fp_action d = FPI_DEVICE_ACTION_CLOSE \<Longrightarrow> completes d (fpi_device_close_complete e d)"
  by (simp_all add: fpi_device_open_complete_def fpi_device_close_complete_def completes_begin)

lemma done_inv:
  assumes "sound env lib k w" "ledger d" "a = FPI_DEVICE_ACTION_OPEN \<or> a = FPI_DEVICE_ACTION_CLOSE" "fp_action d = a" "keeps d (w_fp w)"
    and "dozing w" "finished w" "fp_is_open d \<longrightarrow> a = FPI_DEVICE_ACTION_CLOSE"
    and "a = FPI_DEVICE_ACTION_OPEN \<longrightarrow> (\<exists>e. fp_returns (w_fp w) = [Return_error e]) \<or> opened w"
  shows "loop_inv env lib k w"
proof -
  have act: "action_of w = a" "fp_is_open (w_fp w) = fp_is_open d" using assms(4,5) by (simp_all add: keeps_def)
  then have "\<not> capture_action (action_of w)" "action_of w \<noteq> FPI_DEVICE_ACTION_NONE" using assms(3) by (auto simp: capture_action_def)
  moreover have "between w" using assms(6,7,9) act calculation(2) unfolding between_def finished_def by auto
  ultimately show ?thesis using assms(1,8) act ledger_keeps [OF assms(2,5)] unfolding loop_inv_def by auto
qed

lemma open_completes:
  assumes "calm w" "action_of w = FPI_DEVICE_ACTION_OPEN" "fp_returns (w_fp w) = []"
  shows "finished (fpi_image_device_open_complete e w)" "keeps (w_fp w) (w_fp (fpi_image_device_open_complete e w))"
    "fp_returns (w_fp (fpi_image_device_open_complete e w)) = [case e of None \<Rightarrow> Return_bool True | Some x \<Rightarrow> Return_error x]"
proof -
  define w1 where "w1 = upd_fp (fpi_device_report_finger_status FP_FINGER_STATUS_NONE)
     (upd_fp (noted (Notify_state FPI_IMAGE_DEVICE_STATE_INACTIVE)) (upd_pv (\<lambda>p. p\<lparr>pv_state := FPI_IMAGE_DEVICE_STATE_INACTIVE\<rparr>) w))"
  have st: "steady (w_fp w) (w_fp w1)" by (simp add: w1_def) (rule steady_trans [OF steady_noted steady_finger(1)], simp)
  have eq: "fpi_image_device_open_complete e w = upd_fp (fpi_device_open_complete e) w1"
    using assms(1,2) by (simp add: fpi_image_device_open_complete_def w1_def calm_def)
  have a1: "action_of w1 = FPI_DEVICE_ACTION_OPEN" using st assms(2) by (simp add: steady_def keeps_def)
  have c: "completes (w_fp w) (fpi_device_open_complete e (w_fp w1))" by (rule steady_completes [OF st completes_open_close(1) [OF a1]])
  have "calm w1" using assms(1) by (simp add: calm_def w1_def)
  then show "finished (fpi_image_device_open_complete e w)" "keeps (w_fp w) (w_fp (fpi_image_device_open_complete e w))"
    unfolding eq using c assms(3) by (auto simp: finished_def completes_def calm_def)
  show "fp_returns (w_fp (fpi_image_device_open_complete e w)) = [case e of None \<Rightarrow> Return_bool True | Some x \<Rightarrow> Return_error x]"
    unfolding eq using a1 st assms(3)
    by (simp add: fpi_device_open_complete_def fpi_device_return_task_in_idle_def complete_begin_facts steady_def)
qed

lemma open_step:
  assumes "loop_inv env lib k w" "action_of w = FPI_DEVICE_ACTION_NONE" "\<not> fp_is_open (w_fp w)" "begun FPI_DEVICE_ACTION_OPEN (w_fp w) d"
  shows "\<exists>w'. fp_image_device_open (gxfp_vt env lib cfg) (w\<lparr>w_fp := d\<rparr>) = Some w' \<and> loop_inv env lib k w'"
proof -
  let ?w = "w\<lparr>w_fp := d\<rparr>"
  have b: "between w" "sound env lib k w" "ledger (w_fp w)" using assms(1,2) by (auto simp: loop_inv_def capture_action_def)
  have s: "world_ok env lib" "session_inv (dr_sess ?w)" "dozing ?w" using b by (simp_all add: sound_def between_def dozing_def)
  obtain e w1 where w1: "gxfp_img_open env lib cfg ?w = Some (fpi_image_device_open_complete e w1)" "tried ?w e w1" by (rule img_open_tries [OF s(1,2)])
  let ?w' = "fpi_image_device_open_complete e w1"
  have fp: "w_fp w1 = d" "w_pv w1 = w_pv w" "w_scans w1 = w_scans w" using w1(2) by (simp_all add: tried_def same_class_def)
  have c: "calm w1" "action_of w1 = FPI_DEVICE_ACTION_OPEN" "fp_returns (w_fp w1) = []"
    using b(1) assms(2) fp begun_facts [OF assms(4)] assms(4) by (auto simp: calm_def between_def begun_def)
  note o1 = open_completes [OF c, of e]
  have m: "dr_sess ?w' = dr_sess w1" "dr_h ?w' = dr_h w1" using more_sel [of ?w' w1] by simp_all
  have o2: "opened ?w' = opened w1" "dozing ?w' = dozing w1" "impl_of ?w' = impl_of w1" using m by (simp_all add: opened_def dozing_def impl_of_def)
  have "loop_inv env lib k ?w'"
  proof (rule done_inv)
    show "sound env lib k ?w'" using w1(2) b(2) m by (simp add: sound_def tried_def)
    show "ledger d" by (rule begun_ledger [OF b(3) assms(2) _ assms(4)]) simp
    show "fp_action d = FPI_DEVICE_ACTION_OPEN" using begun_facts [OF assms(4)] by simp
    show "keeps d (w_fp ?w')" using o1(2) fp(1) by simp
    show "dozing ?w'" using w1(2) o2 s(3) by (simp add: tried_def)
    show "fp_is_open d \<longrightarrow> FPI_DEVICE_ACTION_OPEN = FPI_DEVICE_ACTION_CLOSE" using begun_facts [OF assms(4)] assms(3) by simp
    show "FPI_DEVICE_ACTION_OPEN = FPI_DEVICE_ACTION_OPEN \<longrightarrow> (\<exists>e. fp_returns (w_fp ?w') = [Return_error e]) \<or> opened ?w'"
      using o1(3) w1(2) o2(1) by (cases e) (auto simp: tried_def)
  qed (use o1(1) in simp_all)
  then show ?thesis using w1(1) by (simp add: fp_image_device_open_def vt_open)
qed

lemma handle_closed:
  "handle_session_events vt (events_zero\<lparr>ev_cancel_tick := True, ev_close_complete := True\<rparr>) w =
     Some (fpi_image_device_close_complete None (free_paths (cancel_scheduled_pump w)))"
  by (simp add: handle_session_events_def events_zero_def cancel_scheduled_pump_def)

lemma close_step:
  assumes "loop_inv env lib k w" "action_of w = FPI_DEVICE_ACTION_NONE" "fp_is_open (w_fp w)" "begun FPI_DEVICE_ACTION_CLOSE (w_fp w) d"
  shows "\<exists>w'. fp_image_device_close (gxfp_vt env lib cfg) (w\<lparr>w_fp := d\<rparr>) = Some w' \<and> loop_inv env lib k w'"
proof -
  let ?w = "w\<lparr>w_fp := d\<rparr>" and ?vt = "gxfp_vt env lib cfg"
  let ?u = "cancel_scheduled_pump ?w"
  have b: "between w" "sound env lib k w" "ledger (w_fp w)" "opened w" using assms(1-3) by (auto simp: loop_inv_def capture_action_def)
  have fp0: "w_fp ?u = d" "w_pv ?u = w_pv w" "w_scans ?u = w_scans w" "dr_sess ?u = dr_sess w" "dr_h ?u = dr_h w"
    by (simp_all add: cancel_scheduled_pump_def)
  have ok: "se_impl (dr_sess ?u) \<noteq> None" "session_ok (impl_of ?u)" "clock_runs env"
    using b(2,4) fp0 world_okD(1) by (auto simp: opened_def sound_def session_inv_def impl_of_def)
  obtain i h where c: "session_begin_cleanup env (impl_of ?u) GXFP_CLEANUP_CLOSE False events_zero (dr_h ?u) =
      Some ((i, events_zero\<lparr>ev_cancel_tick := True, ev_close_complete := True\<rparr>), h)" "ss_mode i = GXFP_MODE_CLOSED" "session_moved (impl_of ?u) (dr_h ?u) i h"
    by (rule close_runs [OF ok(3,2)])
  define w1 where "w1 = free_paths (cancel_scheduled_pump (put_impl i h ?u))"
  have w1: "w_fp w1 = d" "w_pv w1 = w_pv w" "w_scans w1 = w_scans w" "dr_sess w1 = (dr_sess w)\<lparr>se_impl := Some i\<rparr>" "dr_h w1 = h"
    by (simp_all add: w1_def free_paths_def cancel_scheduled_pump_def put_impl_def)
  let ?w' = "fpi_image_device_close_complete None w1"
  have calm: "calm w1" "action_of w1 = FPI_DEVICE_ACTION_CLOSE" "fp_returns (w_fp w1) = []" "\<not> pv_active (w_pv ?w)"
    using b(1) assms(2,4) w1 begun_facts [OF assms(4)] by (auto simp: calm_def between_def begun_def)
  have "gxfp_img_close env ?vt ?w = Some ?w'"
    unfolding gxfp_img_close_def gxfp_session_request_close_def [abs_def]
      with_session_impl [where f = "\<lambda>i e. session_begin_cleanup env i GXFP_CLEANUP_CLOSE False e", OF ok(1) c(1)] handle_closed w1_def ..
  then have eq: "fp_image_device_close ?vt ?w = Some ?w'" using calm(4) by (simp add: fp_image_device_close_def vt_close)
  let ?v = "upd_fp (noted (Notify_state FPI_IMAGE_DEVICE_STATE_INACTIVE)) (upd_pv (\<lambda>p. p\<lparr>pv_state := FPI_IMAGE_DEVICE_STATE_INACTIVE\<rparr>) w1)"
  have w': "?w' = upd_fp (fpi_device_close_complete None) ?v" using calm by (simp add: fpi_image_device_close_complete_def calm_def)
  have st: "steady (w_fp w1) (w_fp ?v)" by (simp add: steady_noted)
  have cc: "completes (w_fp w1) (w_fp ?w')"
    unfolding w' using steady_completes [OF st completes_open_close(2)] st calm(2) by (simp add: noted_def)
  have m: "dr_sess ?w' = dr_sess w1" "dr_h ?w' = dr_h w1" using more_sel [of ?w' w1] by simp_all
  have "loop_inv env lib k ?w'"
  proof (rule done_inv)
    show "sound env lib k ?w'"
      using b(2,4) c(3) m w1 fp0 by (auto simp: sound_def session_moved_def session_inv_def owned_def opened_def impl_of_def)
    show "ledger d" by (rule begun_ledger [OF b(3) assms(2) _ assms(4)]) simp
    show "fp_action d = FPI_DEVICE_ACTION_CLOSE" using begun_facts [OF assms(4)] by simp
    show "keeps d (w_fp ?w')" using cc w1(1) by (simp add: completes_def)
    show "dozing ?w'" using c(2) m w1 by (simp add: dozing_def resting_def)
    show "finished ?w'" using cc calm(1,3) unfolding w' by (auto simp: finished_def completes_def calm_def)
  qed simp_all
  then show ?thesis using eq by blast
qed

section \<open>The main loop\<close>

lemma dispatch_step:
  assumes "loop_inv env lib k w" "\<not> orphans c w"
  obtains w' where "dispatch env lib cfg c w = Some w'" "loop_inv env lib k w'"
proof -
  let ?vt = "gxfp_vt env lib cfg"
  have cap: "\<exists>w'. start f (fp_image_device_start_capture_action ?vt) w = Some w' \<and> loop_inv env lib k w'"
    if "requests a f" "capture_action a" for a f
  proof (rule start_step [OF assms(1) that(1)])
    fix d
    assume "action_of w = FPI_DEVICE_ACTION_NONE" "fp_is_open (w_fp w) \<longleftrightarrow> a \<noteq> FPI_DEVICE_ACTION_OPEN" "begun a (w_fp w) d"
    then show "\<exists>w'. fp_image_device_start_capture_action ?vt (w\<lparr>w_fp := d\<rparr>) = Some w' \<and> loop_inv env lib k w'"
      using scan_request_step [OF assms(1) that(2)] that(2) by (auto simp: capture_action_def)
  qed
  have "\<exists>w'. dispatch env lib cfg c w = Some w' \<and> loop_inv env lib k w'"
  proof (cases c)
    case (Do_open x)
    have "\<exists>w'. start (fp_device_open x) (fp_image_device_open ?vt) w = Some w' \<and> loop_inv env lib k w'"
      by (rule start_step [OF assms(1) open_requests]) (rule open_step [OF assms(1)]; simp)
    then show ?thesis by (simp add: dispatch_def Do_open)
  next
    case (Do_close x)
    have "\<exists>w'. start (fp_device_close x) (fp_image_device_close ?vt) w = Some w' \<and> loop_inv env lib k w'"
      by (rule start_step [OF assms(1) close_requests]) (rule close_step [OF assms(1)]; simp)
    then show ?thesis by (simp add: dispatch_def Do_close)
  next
    case (Do_enroll x p hot)
    then show ?thesis using cap [OF capture_requests(1)] by (simp add: dispatch_def capture_action_def)
  next
    case (Do_verify x hot)
    then show ?thesis using cap [OF capture_requests(2)] by (simp add: dispatch_def capture_action_def)
  next
    case (Do_identify x n hot)
    then show ?thesis using cap [OF capture_requests(3)] by (simp add: dispatch_def capture_action_def)
  next
    case (Do_capture x wait hot)
    then show ?thesis using cap [OF capture_requests(4)] by (simp add: dispatch_def capture_action_def)
  next
    case (Do_delete x)
    then show ?thesis using storage_step(1) [OF assms(1)] by (simp add: dispatch_def)
  next
    case (Do_list x)
    then show ?thesis using storage_step(2) [OF assms(1)] by (simp add: dispatch_def)
  next
    case (Do_clear_storage x)
    then show ?thesis using storage_step(3) [OF assms(1)] by (simp add: dispatch_def)
  next
    case Do_suspend
    then show ?thesis using suspend_step(1) [OF assms(1)] by (simp add: dispatch_def)
  next
    case Do_resume
    then show ?thesis using suspend_step(2) [OF assms(1)] by (simp add: dispatch_def)
  next
    case Do_cancel
    then show ?thesis using cancel_step [OF assms(1)] by (simp add: dispatch_def)
  next
    case Do_too_hot
    then show ?thesis using too_hot_step [OF assms(1)] by (simp add: dispatch_def)
  next
    case On_cancel
    then show ?thesis using cancelled_step [OF assms(1)] assms(1) by (cases "fp_cancel_idle (w_fp w)") (auto simp: dispatch_def)
  next
    case On_timer
    then show ?thesis using timer_step [OF assms(1)] assms(1) by (cases "dr_timer w = None") (auto simp: dispatch_def)
  next
    case (On_scan scan)
    show ?thesis
    proof (cases "w_scans w")
      case Nil
      then show ?thesis using assms(1) by (simp add: dispatch_def On_scan)
    next
      case (Cons img rest)
      show ?thesis by (rule scan_step [OF assms(1) assms(2) [unfolded On_scan] Cons, of cfg]) (simp add: dispatch_def On_scan Cons)
    qed
  next
    case On_return
    then show ?thesis using return_step [OF assms(1)] assms(1) by (cases "rev (fp_returns (w_fp w))") (auto simp: dispatch_def)
  qed
  then show thesis using that by blast
qed

lemma fresh_driver_inv:
  assumes "world_ok env lib"
  shows "loop_inv env lib (ulive h) (fpi_device_gxfp_init env h)"
proof -
  let ?i = "session_zero\<lparr>ss_fdt := the (gxfp_fdt_flow_init (Some (ss_fdt session_zero))), ss_mode := GXFP_MODE_CLOSED\<rparr>"
  have ok: "session_ok ?i" by (simp add: session_ok_def session_zero_def image_zero_def fresh_fdt tap_ok_def svc_ok_def)
  have b: "session_blocks ?i = 1" by (simp add: session_blocks_def session_zero_def image_zero_def svc_live_def)
  obtain ss h' where s: "gxfp_session_init env (Some \<lparr>se_impl = None\<rparr>) h = (Some ss, h')" "session_inv ss" "ulive h' - owned ss = ulive h"
    "case se_impl ss of None \<Rightarrow> True | Some i \<Rightarrow> resting (ss_mode i)"
  proof (cases rule: malloc_cases [of env SESSION_IMPL_SIZE h])
    case null
    then show thesis
      using that [of "\<lparr>se_impl = None\<rparr>" h] by (simp add: gxfp_session_init_def session_ensure_impl_def session_inv_def owned_def)
  next
    case (block x)
    then show thesis using that [of "\<lparr>se_impl = Some ?i\<rparr>" "UMalloc SESSION_IMPL_SIZE # h"] ok b
      by (simp add: gxfp_session_init_def session_ensure_impl_def session_inv_def owned_def resting_def)
  qed
  show ?thesis
    using s assms
    by (simp add: fpi_device_gxfp_init_def loop_inv_def sound_def ledger_def parked_def fp_device_new_def capture_action_def between_def dozing_def calm_def
        fp_image_device_constructed_def)
qed

section \<open>Runs of the main loop\<close>

text \<open>A run in which no extraction orphans an enrolment, and what such a run keeps.\<close>

fun orphan_free :: "uenv \<Rightarrow> tlslib \<Rightarrow> gxfp_setting \<Rightarrow> dispatch list \<Rightarrow> gxfp_device \<Rightarrow> bool" where
  "orphan_free env lib cfg [] w = True"
| "orphan_free env lib cfg (c # cs) w =
    (\<not> orphans c w \<and> (case dispatch env lib cfg c w of None \<Rightarrow> True | Some w \<Rightarrow> orphan_free env lib cfg cs w))"

lemma loop_inv_run:
  assumes "loop_inv env lib k w" "orphan_free env lib cfg cs w" "dispatches env lib cfg cs w = Some w'"
  shows "loop_inv env lib k w'"
  using assms
proof (induction cs arbitrary: w)
  case (Cons c cs)
  have "\<not> orphans c w" using Cons.prems(2) by simp
  with Cons.prems(1) obtain w1 where w1: "dispatch env lib cfg c w = Some w1" "loop_inv env lib k w1" by (rule dispatch_step)
  show ?case by (rule Cons.IH [OF w1(2)]) (use Cons.prems w1(1) in simp_all)
qed simp

lemma run_inv:
  assumes "world_ok env lib" "orphan_free env lib cfg cs (fpi_device_gxfp_init env h)"
    "dispatches env lib cfg cs (fpi_device_gxfp_init env h) = Some w"
  shows "loop_inv env lib (ulive h) w"
  by (rule loop_inv_run [OF fresh_driver_inv [OF assms(1)] assms(2,3)])

text \<open>A run without an enrolment is one of them.\<close>

lemma enrolment_free:
  assumes "sound env lib k w" "action_of w \<noteq> FPI_DEVICE_ACTION_ENROLL" "list_all (\<lambda>c. \<not> enrols c) cs"
  shows "orphan_free env lib cfg cs w"
  using assms
proof (induction cs arbitrary: w)
  case (Cons c cs)
  obtain w' where w': "dispatch env lib cfg c w = Some w'" "sound env lib k w'" "action_of w' \<noteq> FPI_DEVICE_ACTION_ENROLL"
    using dispatch_returns [OF Cons.prems(1), of c cfg] Cons.prems(2,3) by (auto simp: returns_def returned_def)
  have "\<not> orphans c w" using Cons.prems(2) by (cases c) (simp_all add: orphaning_def)
  moreover have "orphan_free env lib cfg cs w'" by (rule Cons.IH [OF w'(2,3)]) (use Cons.prems(3) in simp)
  ultimately show ?case using w'(1) by simp
qed simp

lemma inv_log:
  assumes "loop_inv env lib k w"
  shows "Aborted x \<notin> set (fp_log (w_fp w))"
    "Bad_transition a b \<in> set (fp_log (w_fp w)) \<Longrightarrow> a = FPI_IMAGE_DEVICE_STATE_ACTIVATING \<and> b = FPI_IMAGE_DEVICE_STATE_ACTIVATING"
    "length (filter is_start (fp_log (w_fp w))) =
      length (filter is_return (fp_log (w_fp w))) + (if action_of w = FPI_DEVICE_ACTION_NONE then 0 else 1)"
    "length (filter is_power_start (fp_log (w_fp w))) =
      length (filter is_power_return (fp_log (w_fp w))) + (if fp_suspend_resume_task (w_fp w) then 1 else 0)"
proof -
  have acc: "accepted n" if "n \<in> set (fp_log (w_fp w))" for n
    using assms that by (auto simp: loop_inv_def ledger_def list_all_iff)
  show "Aborted x \<notin> set (fp_log (w_fp w))" using acc [of "Aborted x"] by auto
  show "a = FPI_IMAGE_DEVICE_STATE_ACTIVATING \<and> b = FPI_IMAGE_DEVICE_STATE_ACTIVATING" if "Bad_transition a b \<in> set (fp_log (w_fp w))"
    using acc [OF that] by simp
qed (use assms in \<open>simp_all add: loop_inv_def ledger_def\<close>)






section \<open>Properties\<close>

text \<open>C2: The driver under the main loop of libfprint. Whatever the application requests and cancels, in whatever order the
  sources of the main loop run, and whatever the device, the allocator, the TLS library and the extraction of features answer: every
  run returns, the session keeps its invariant, and disposing of the object gives back all its memory. If moreover no
  extraction of the run orphans an enrolment, and none does in a run without enrolments, no assertion of the library ever fails; the image device takes only
  transitions of its table, but for the one that repeats a failed activation; and of the actions that were started, all but the
  current one have been returned to the application, each once, and so have the requests to suspend and to resume, but for one
  that waits for the current action. The exception is a defect of the class (defined as \<^verbatim>\<open>orphaning\<close>, and shown by
  \<^verbatim>\<open>orphaned_enrolment\<close> below): the session has failed while the features of an image of an enrolment were being extracted, and the
  extraction then neither reports a cancellation or a fatal error nor gives the last stage.\<close>

theorem driver_main_loop:
  assumes "world_ok env lib"
  shows "\<exists>w. dispatches env lib cfg cs (fpi_device_gxfp_init env h) = Some w \<and>
    session_inv (dr_sess w) \<and> ulive (dr_h (fpi_device_gxfp_dispose w)) = ulive h \<and>
    (list_all (\<lambda>c. \<not> enrols c) cs \<longrightarrow> orphan_free env lib cfg cs (fpi_device_gxfp_init env h)) \<and>
    (orphan_free env lib cfg cs (fpi_device_gxfp_init env h) \<longrightarrow>
      (\<forall>s. Aborted s \<notin> set (fp_log (w_fp w))) \<and>
      (\<forall>a b. Bad_transition a b \<in> set (fp_log (w_fp w)) \<longrightarrow> a = FPI_IMAGE_DEVICE_STATE_ACTIVATING \<and> b = FPI_IMAGE_DEVICE_STATE_ACTIVATING) \<and>
      length (filter is_start (fp_log (w_fp w))) =
        length (filter is_return (fp_log (w_fp w))) + (if action_of w = FPI_DEVICE_ACTION_NONE then 0 else 1) \<and>
      length (filter is_power_start (fp_log (w_fp w))) =
        length (filter is_power_return (fp_log (w_fp w))) + (if fp_suspend_resume_task (w_fp w) then 1 else 0))"
proof -
  let ?w = "fpi_device_gxfp_init env h"
  have s: "sound env lib (ulive h) ?w" using fresh_driver_inv [OF assms] by (simp add: loop_inv_def)
  have "action_of ?w \<noteq> FPI_DEVICE_ACTION_ENROLL" by (simp add: fpi_device_gxfp_init_def fp_device_new_def split: prod.split)
  then have free: "list_all (\<lambda>c. \<not> enrols c) cs \<Longrightarrow> orphan_free env lib cfg cs ?w" by (rule enrolment_free [OF s])
  obtain w where w: "dispatches env lib cfg cs ?w = Some w" "sound env lib (ulive h) w"
    using dispatches_return [OF s, of cfg cs] by (auto simp: returns_def)
  have "loop_inv env lib (ulive h) w" if "orphan_free env lib cfg cs ?w" by (rule run_inv [OF assms that w(1)])
  then show ?thesis using w sound_dispose [OF w(2)] inv_log free by (auto simp: sound_def)
qed

definition demo_setting :: gxfp_setting where
  "demo_setting = \<lparr>st_chardev_path = None, st_getenv = (\<lambda>_. None)\<rparr>"

definition demo_scan :: scan_result where
  "demo_scan = \<lparr>sc_finish = None, sc_add = None, sc_match = (\<lambda>_ _ _. (FPI_MATCH_SUCCESS, None))\<rparr>"

definition demo_run :: "dispatch list" where
  "demo_run = [Do_open False, Do_suspend, On_return, Do_open False, Do_resume, Do_verify False False, Do_cancel, On_cancel, On_timer, On_scan demo_scan,
     Do_too_hot, Do_close False, On_return]"

theorem driver_main_loop_witness:
  "\<exists>w. dispatches sim_uenv image_lib demo_setting demo_run (fpi_device_gxfp_init sim_uenv []) = Some w \<and>
    session_inv (dr_sess w) \<and> ulive (dr_h (fpi_device_gxfp_dispose w)) = ulive [] \<and> (\<forall>s. Aborted s \<notin> set (fp_log (w_fp w))) \<and>
    length (filter is_start (fp_log (w_fp w))) =
      length (filter is_return (fp_log (w_fp w))) + (if action_of w = FPI_DEVICE_ACTION_NONE then 0 else 1)"
proof -
  have "list_all (\<lambda>c. \<not> enrols c) demo_run" by (simp add: demo_run_def)
  then show ?thesis using driver_main_loop [OF sim_world, where cfg = demo_setting and cs = demo_run and h = "[]"] by auto
qed

lemma demo_opens:
  obtains w where "dispatches sim_uenv image_lib demo_setting [Do_open False] (fpi_device_gxfp_init sim_uenv []) = Some w" "action_of w = FPI_DEVICE_ACTION_OPEN"
    "orphan_free sim_uenv image_lib demo_setting [Do_open False] (fpi_device_gxfp_init sim_uenv [])"
proof -
  let ?w = "fpi_device_gxfp_init sim_uenv []"
  obtain w where w: "dispatch sim_uenv image_lib demo_setting (Do_open False) ?w = Some w"
    by (rule dispatch_step [OF fresh_driver_inv [OF sim_world], of "Do_open False" "[]" demo_setting]) simp_all
  then have "action_of w = FPI_DEVICE_ACTION_OPEN"
    by (auto simp: dispatch_def start_def fpi_device_gxfp_init_def fp_device_open_def fp_device_new_def begin_action_def setup_task_cancellable_def
        noted_def fpi_device_report_finger_status_def fp_image_device_open_def vt_open gxfp_img_open_def demo_setting_def
        fpi_image_device_open_complete_def fp_image_device_constructed_def fpi_device_open_complete_def complete_begin_def clear_device_cancel_action_def
        fpi_device_return_task_in_idle_def upd_fp_def upd_pv_def split: prod.splits)
  then show thesis using that [of w] w by simp
qed

text \<open>C3: No action of the application is lost. After every run in which no extraction orphans an enrolment, an action that is not
  complete has something attached that will carry it on: its result waits to be returned, or the features of an image are being
  extracted, or the timer is set. Apart from the defect that orphans an enrolment, the one exception is a TLS service in its error
  state, which the session does not always notice.\<close>

theorem driver_never_stuck:
  assumes "world_ok env lib" and "orphan_free env lib cfg cs (fpi_device_gxfp_init env h)"
    and "dispatches env lib cfg cs (fpi_device_gxfp_init env h) = Some w" and "action_of w \<noteq> FPI_DEVICE_ACTION_NONE"
  shows "fp_returns (w_fp w) \<noteq> [] \<or> w_scans w \<noteq> [] \<or> dr_timer w \<noteq> None \<or>
    gxfp_tls_service_state (Some (ss_svc (impl_of w))) = GXFP_TLS_HS_ERROR"
proof -
  have inv: "loop_inv env lib (ulive h) w" by (rule run_inv [OF assms(1-3)])
  show ?thesis
  proof (cases "capture_action (action_of w)")
    case False
    then show ?thesis using inv assms(4) by (auto simp: loop_inv_def between_def)
  next
    case True
    then have "phase w" using inv by (simp add: loop_inv_def)
    then show ?thesis
      by (auto simp: phase_def running_def waiting_def acting_def finished_def working_states_def armed_def)
  qed
qed

theorem driver_never_stuck_witness:
  "\<exists>w. dispatches sim_uenv image_lib demo_setting [Do_open False] (fpi_device_gxfp_init sim_uenv []) = Some w \<and> action_of w = FPI_DEVICE_ACTION_OPEN \<and>
    (fp_returns (w_fp w) \<noteq> [] \<or> w_scans w \<noteq> [] \<or> dr_timer w \<noteq> None \<or> gxfp_tls_service_state (Some (ss_svc (impl_of w))) = GXFP_TLS_HS_ERROR)"
proof -
  obtain w where w: "dispatches sim_uenv image_lib demo_setting [Do_open False] (fpi_device_gxfp_init sim_uenv []) = Some w" "action_of w = FPI_DEVICE_ACTION_OPEN"
    "orphan_free sim_uenv image_lib demo_setting [Do_open False] (fpi_device_gxfp_init sim_uenv [])" by (rule demo_opens)
  show ?thesis using driver_never_stuck [OF sim_world w(3,1)] w by auto
qed





section \<open>Where the code falls short\<close>

text \<open>A suspended device answers the request to clear its storage as if it were not suspended.\<close>

lemma clear_storage_ignores_suspension:
  "fp_is_open d \<Longrightarrow> \<not> fp_task d \<Longrightarrow> fp_device_clear_storage False d = noted (Refused (FP_DEVICE_ERROR FP_DEVICE_ERROR_NOT_SUPPORTED)) d"
  by (simp add: fp_device_clear_storage_def)

text \<open>A request to suspend while the device is being opened or closed is answered with success, but nothing marks the device as
  suspended: the resumption that has to follow is refused.\<close>

lemma suspend_while_opening_forgotten:
  assumes "ledger d" "fp_action d = FPI_DEVICE_ACTION_OPEN \<or> fp_action d = FPI_DEVICE_ACTION_CLOSE" "\<not> fp_suspend_resume_task d" "\<not> fp_is_suspended d"
  obtains d' y where "fp_device_task_return_in_idle_cb r (fp_device_suspend d) = d'"
    "fp_log d' = Power_returned None # Task_returned (fp_action d) y # Power_started True # fp_log d" "\<not> fp_is_suspended d'"
    "fp_device_resume d' = noted (Refused (FP_DEVICE_ERROR FP_DEVICE_ERROR_BUSY)) d'"
proof -
  let ?s = "fp_device_suspend d"
  have l: "ledger ?s" by (rule suspend_ledger [OF assms(1)])
  have c: "\<not> capture_action (fp_action d)" "fp_action d \<noteq> FPI_DEVICE_ACTION_NONE" using assms(2) by (auto simp: capture_action_def)
  have "fp_suspend_error d = None" using assms(1,3) by (simp add: ledger_def parked_def)
  then have s: "fp_action ?s = fp_action d" "fp_suspend_resume_task ?s" "\<not> fp_is_suspended ?s" "fp_log ?s = Power_started True # fp_log d" "fp_suspend_error ?s = None"
    using c assms(3,4) by (simp_all add: fp_device_suspend_def fpi_device_suspend_def noted_def)
  have e: "?s\<lparr>fp_returns := fp_returns ?s\<rparr> = ?s" by simp
  have a: "fp_action ?s \<noteq> FPI_DEVICE_ACTION_NONE" using s(1) c(2) by simp
  obtain y where "fp_log (fp_device_task_return_in_idle_cb r ?s) =
      (if fp_suspend_resume_task ?s then [Power_returned (fp_suspend_error ?s)] else []) @ Task_returned (fp_action ?s) y # fp_log ?s"
    "fp_is_suspended (fp_device_task_return_in_idle_cb r ?s) = fp_is_suspended ?s"
    by (rule ledger_return [OF l a, of r "fp_returns ?s", unfolded e])
  then show thesis using that [OF refl, of y] s by (simp add: fp_device_resume_def)
qed

text \<open>When the session fails while the features of an image of an enrolment are being extracted, nothing cancels the extraction. If
  it succeeds and is not the last one, the class asks the inactive device for the next finger: the transition is not in its
  table, the failure that was to end the action is not reported, and since a device that is not active ignores a cancellation, nothing
  ends the action any more.\<close>

lemma orphaned_enrolment:
  assumes "waiting w" "action_of w = FPI_DEVICE_ACTION_ENROLL" "w_scans w = [img]" "sc_finish scan = None" "sc_add scan = None"
    "pv_enroll_stage (w_pv w) + 1 \<noteq> fp_nr_enroll_stages (w_fp w)"
  obtains w' where "fpi_image_device_minutiae_detected vt img scan (w\<lparr>w_scans := []\<rparr>) =
      fp_image_device_change_state vt FPI_IMAGE_DEVICE_STATE_AWAIT_FINGER_ON w'"
    "state_of w' = FPI_IMAGE_DEVICE_STATE_INACTIVE" "\<not> pv_active (w_pv w')" "w_scans w' = []" "fp_returns (w_fp w') = []"
    "action_of w' = FPI_DEVICE_ACTION_ENROLL" "pv_action_error (w_pv w') = pv_action_error (w_pv w)"
    "(state_of w', FPI_IMAGE_DEVICE_STATE_AWAIT_FINGER_ON) \<notin> set valid_transitions"
    "\<And>w''. \<not> pv_active (w_pv w'') \<Longrightarrow> fp_image_device_cancel_action vt w'' = Some w''"
proof -
  define w1 where "w1 = upd_pv (\<lambda>p. p\<lparr>pv_enroll_stage := pv_enroll_stage p + 1\<rparr>)
    (upd_fp (\<lambda>d. d\<lparr>fp_enroll_prints := fp_enroll_prints d + 1\<rparr>) (upd_pv (\<lambda>p. p\<lparr>pv_minutiae_scan_active := False\<rparr>) (w\<lparr>w_scans := []\<rparr>)))"
  define w' where "w' = upd_fp (fpi_device_enroll_progress (pv_enroll_stage (w_pv w1)) True None) w1"
  have st: "steady (w_fp w1) (w_fp w')" by (simp add: w'_def)
  have n: "fp_nr_enroll_stages (fpi_device_enroll_progress i True None d) = fp_nr_enroll_stages d" for i d
    by (simp add: fpi_device_enroll_progress_def noted_def)
  have pv: "w_pv w' = w_pv w1" "w_scans w' = []" by (simp_all add: w'_def w1_def)
  have w: "\<not> pv_active (w_pv w)" "\<not> pv_finger_present (w_pv w)" "state_of w = FPI_IMAGE_DEVICE_STATE_INACTIVE" "fp_returns (w_fp w) = []"
    using assms(1) by (simp_all add: waiting_def acting_def)
  have "fpi_image_device_minutiae_detected vt img scan (w\<lparr>w_scans := []\<rparr>) = fp_image_device_enroll_maybe_await_finger_on vt w'"
    using assms(2,4-6) by (simp add: fpi_image_device_minutiae_detected_def minutiae_result_def scanned_enroll_def Let_def w1_def w'_def n)
  then have "fpi_image_device_minutiae_detected vt img scan (w\<lparr>w_scans := []\<rparr>) = fp_image_device_change_state vt FPI_IMAGE_DEVICE_STATE_AWAIT_FINGER_ON w'"
    using w(2) by (simp add: fp_image_device_enroll_maybe_await_finger_on_def pv w1_def)
  moreover have "state_of w' = FPI_IMAGE_DEVICE_STATE_INACTIVE" "\<not> pv_active (w_pv w')" "pv_action_error (w_pv w') = pv_action_error (w_pv w)"
    using w by (simp_all add: pv w1_def)
  moreover have "fp_returns (w_fp w') = []" "action_of w' = FPI_DEVICE_ACTION_ENROLL"
    using st w(4) assms(2) by (simp_all add: steady_def keeps_def w1_def)
  moreover have "fp_image_device_cancel_action vt w'' = Some w''" if "\<not> pv_active (w_pv w'')" for w''
    using that by (simp add: fp_image_device_cancel_action_def fpi_image_device_deactivate_def)
  ultimately show thesis using that [of w'] pv(2) by (simp add: valid_transitions_def)
qed

text \<open>A failed activation leaves the image device in the state of an activation; the next action announces a transition outside
  the table.\<close>

lemma failed_activation_lingers:
  assumes "\<not> pv_active (w_pv w)" "state_of w = FPI_IMAGE_DEVICE_STATE_ACTIVATING" "capture_action (action_of w)"
  obtains w' where "fpi_image_device_activate_complete vt (Some e) w = Some w'" "state_of w' = FPI_IMAGE_DEVICE_STATE_ACTIVATING"
    "Bad_transition FPI_IMAGE_DEVICE_STATE_ACTIVATING FPI_IMAGE_DEVICE_STATE_ACTIVATING \<in> set (fp_log (w_fp (enter_state FPI_IMAGE_DEVICE_STATE_ACTIVATING w')))"
  using assms that [of "upd_fp (fpi_device_action_error (Some e)) w"]
  by (simp add: fpi_image_device_activate_complete_def enter_state_def valid_transitions_def noted_def)

text \<open>The eight bits of a pixel above the range of the sensor wrap.\<close>

lemma bright_pixel_wraps: "scale_pixel 4095 = 255" "scale_pixel 4112 = 0"
  by (simp_all add: scale_pixel_def)

end
