(* ===== verification/User_Tools.thy ===== *)
theory User_Tools
  imports Provision Session_Inv
begin

text \<open>
  Two command line tools. The one that provisions the key of the sensor (\<open>userspace/demos/psk_tool/main.c\<close>) builds the
  provisioning blob from a key and a seed, which it reads or draws at random, uploads a blob to the device, and dumps what the
  device holds; the other (\<open>userspace/demos/recovery/main.c\<close>) runs the recovery sequence. What \<open>getopt_long\<close> found is the list of
  options and arguments; messages are not modelled. The result of \<open>main\<close> is the exit code.

  A file that is written is in the history: \<open>UFcreate\<close> for \<open>fopen\<close> with mode \<open>wb\<close>, \<open>UFwrite\<close> with the bytes that
  \<open>fwrite\<close> accepted, \<open>UFflush\<close> with what became of them when \<open>fclose\<close> flushed the buffer.
\<close>

section \<open>Files\<close>

definition fclose_out :: "uenv \<Rightarrow> string \<Rightarrow> uhist \<Rightarrow> uhist" where
  "fclose_out env path h = UFclose # UFflush path (sys_fflush env h path) # h"

definition fwrite :: "uenv \<Rightarrow> string \<Rightarrow> bytes \<Rightarrow> uhist \<Rightarrow> nat \<times> uhist" where
  "fwrite env path b h = (let n = min (sys_fwrite env h b) (length b) in (n, UFwrite path (take n b) # h))"

text \<open>Creating a file with one \<open>fwrite\<close>; the flag says that all was accepted.\<close>

definition write_out :: "uenv \<Rightarrow> string \<Rightarrow> bytes \<Rightarrow> uhist \<Rightarrow> bool \<times> uhist" where
  "write_out env path b h =
    (if sys_fcreate env h path \<noteq> 0 then (False, h)
     else (case fwrite env path b (UFcreate path # h) of (n, h) \<Rightarrow> (n = length b, fclose_out env path h)))"

text \<open>What a file holds; nothing is known of one whose last flush failed.\<close>

fun file_content :: "uhist \<Rightarrow> string \<Rightarrow> bytes option" where
  "file_content [] p = None"
| "file_content (UFcreate q # h) p = (if q = p then Some [] else file_content h p)"
| "file_content (UFwrite q b # h) p = (if q = p then map_option (\<lambda>x. x @ b) (file_content h p) else file_content h p)"
| "file_content (UFflush q flushed # h) p = (if q = p \<and> \<not> flushed then None else file_content h p)"
| "file_content (_ # h) p = file_content h p"

section \<open>The provisioning tool\<close>

text \<open>The loop over \<open>/dev/urandom\<close>.\<close>

partial_function (option) fill_random_loop ::
  "uenv \<Rightarrow> int \<Rightarrow> bytes \<Rightarrow> nat \<Rightarrow> nat \<Rightarrow> uhist \<Rightarrow> ((int \<times> bytes) \<times> uhist) option" where
  "fill_random_loop env fd buf off len h =
    (if off < len then
       let h' = URead fd (len - off) # h
       in (case sys_read env h fd (len - off) of
             Inl e \<Rightarrow> if e = EINTR then fill_random_loop env fd buf off len h' else Some ((- e, buf), UClose fd # h')
           | Inr got \<Rightarrow>
               let got = take (len - off) got
               in if got = [] then Some ((- EIO, buf), UClose fd # h')
                  else fill_random_loop env fd (memcpy_at buf off got) (off + length got) len h')
     else Some ((0, buf), UClose fd # h))"

definition fill_random_bytes :: "uenv \<Rightarrow> ptr \<Rightarrow> nat \<Rightarrow> uhist \<Rightarrow> ((int \<times> ptr) \<times> uhist) option" where
  "fill_random_bytes env buf len h =
    (case buf of
       None \<Rightarrow> Some ((- EINVAL, buf), h)
     | Some b \<Rightarrow>
         if len = 0 then Some ((- EINVAL, buf), h)
         else
           (case sys_open env h ''/dev/urandom'' 0 of
              Inl e \<Rightarrow> Some ((- e, buf), UOpen ''/dev/urandom'' 0 # h)
            | Inr fd \<Rightarrow>
                map_option (\<lambda>((rc, b), h). ((rc, Some b), h)) (fill_random_loop env fd b 0 len (UOpen ''/dev/urandom'' 0 # h))))"

text \<open>The result is the code, the block and its length; both output pointers of the callers are set and hold null.\<close>

definition load_or_generate_bytes :: "uenv \<Rightarrow> string option \<Rightarrow> nat \<Rightarrow> uhist \<Rightarrow> ((int \<times> ptr \<times> nat) \<times> uhist) option" where
  "load_or_generate_bytes env path expected_len h =
    (if expected_len = 0 then Some ((- EINVAL, None, 0), h)
     else
       (case path of
          Some p \<Rightarrow> do {
            ((rc, out), h) \<leftarrow> gxfp_read_file_all env (Some p) h;
            let block = map_option fst out;
            let out_len = (case out of None \<Rightarrow> 0 | Some (_, n) \<Rightarrow> n);
            if rc < 0 then Some ((rc, block, out_len), h)
            else if out_len \<noteq> expected_len then Some ((- EINVAL, None, 0), ufree_ptr block h)
            else Some ((0, block, out_len), h) }
        | None \<Rightarrow>
            (case malloc env expected_len h of
               (None, h) \<Rightarrow> Some ((- ENOMEM, None, 0), h)
             | (Some b, h) \<Rightarrow> do {
                 ((rc, b), h) \<leftarrow> fill_random_bytes env (Some b) expected_len h;
                 if rc < 0 then Some ((rc, None, 0), ufree_ptr b h) else Some ((0, b, expected_len), h) })))"

record psk_options =
  po_build_bb010002 :: "string option"
  po_dump_bb010002 :: "string option"
  po_dump_bb010003 :: "string option"
  po_upload_bb010002 :: "string option"
  po_psk_raw32 :: "string option"
  po_out_psk_raw32 :: "string option"
  po_seed8_file :: "string option"
  po_sealed_psk_file :: "string option"
  po_no_pad4 :: bool

definition no_options :: psk_options where
  "no_options = \<lparr>po_build_bb010002 = None, po_dump_bb010002 = None, po_dump_bb010003 = None, po_upload_bb010002 = None, po_psk_raw32 = None,
     po_out_psk_raw32 = None, po_seed8_file = None, po_sealed_psk_file = None, po_no_pad4 = False\<rparr>"

text \<open>The loop over the options: \<open>Inl\<close> with the exit code.\<close>

fun psk_tool_options :: "(char \<times> string) list \<Rightarrow> psk_options \<Rightarrow> int + psk_options" where
  "psk_tool_options [] po = Inr po"
| "psk_tool_options ((c, optarg) # opts) po =
    (if c = CHR ''B'' then psk_tool_options opts (po\<lparr>po_build_bb010002 := Some optarg\<rparr>)
     else if c = CHR ''D'' then psk_tool_options opts (po\<lparr>po_dump_bb010002 := Some optarg\<rparr>)
     else if c = CHR ''E'' then psk_tool_options opts (po\<lparr>po_dump_bb010003 := Some optarg\<rparr>)
     else if c = CHR ''U'' then psk_tool_options opts (po\<lparr>po_upload_bb010002 := Some optarg\<rparr>)
     else if c = CHR ''p'' then psk_tool_options opts (po\<lparr>po_psk_raw32 := Some optarg\<rparr>)
     else if c = CHR ''s'' then psk_tool_options opts (po\<lparr>po_seed8_file := Some optarg\<rparr>)
     else if c = CHR ''S'' then psk_tool_options opts (po\<lparr>po_sealed_psk_file := Some optarg\<rparr>)
     else if c = CHR ''o'' then psk_tool_options opts (po\<lparr>po_out_psk_raw32 := Some optarg\<rparr>)
     else if c = CHR ''N'' then psk_tool_options opts (po\<lparr>po_no_pad4 := True\<rparr>)
     else if c = CHR ''h'' then Inl 0
     else Inl 2)"

text \<open>A sequence of calls of \<open>free\<close>.\<close>

definition free_all :: "ptr list \<Rightarrow> uhist \<Rightarrow> uhist" where
  "free_all ps h = fold ufree_ptr ps h"

text \<open>The sealed key from its file, if there is one.\<close>

definition load_sealed :: "uenv \<Rightarrow> string option \<Rightarrow> uhist \<Rightarrow> ((int \<times> ptr \<times> nat) \<times> uhist) option" where
  "load_sealed env path h =
    (case path of
       None \<Rightarrow> Some ((0, None, 0), h)
     | Some p \<Rightarrow> do {
         ((rc, out), h) \<leftarrow> gxfp_read_file_all env (Some p) h;
         Some ((rc, map_option fst out, case out of None \<Rightarrow> 0 | Some (_, n) \<Rightarrow> n), h) })"

text \<open>Writing the blob and, when asked for, the key; every block is released.\<close>

definition write_results :: "uenv \<Rightarrow> psk_options \<Rightarrow> string \<Rightarrow> ptr list \<Rightarrow> bytes \<times> nat \<Rightarrow> bytes \<times> nat \<Rightarrow> uhist \<Rightarrow> int \<times> uhist" where
  "write_results env po path blocks bb psk h =
    (case write_out env path (take (snd bb) (fst bb)) h of
       (ok, h) \<Rightarrow>
         if \<not> ok then (1, free_all blocks h)
         else
           (case po_out_psk_raw32 po of
              None \<Rightarrow> (0, free_all blocks h)
            | Some out_psk_raw32 \<Rightarrow>
                (case write_out env out_psk_raw32 (take (snd psk) (fst psk)) h of
                   (ok, h) \<Rightarrow> (if ok then 0 else 1, free_all blocks h))))"

definition psk_tool_build :: "uenv \<Rightarrow> cryptolib \<Rightarrow> psk_options \<Rightarrow> string \<Rightarrow> uhist \<Rightarrow> (int \<times> uhist) option" where
  "psk_tool_build env lib po path h = do {
     ((rc, psk, psk_len), h) \<leftarrow> load_or_generate_bytes env (po_psk_raw32 po) 32 h;
     if rc < 0 then Some (1, free_all [psk] h)
     else do {
       ((rc, seed8, seed8_len), h) \<leftarrow> load_or_generate_bytes env (po_seed8_file po) 8 h;
       if rc < 0 then Some (1, free_all [psk, seed8] h)
       else
         (case gxfp_payload_build_bb010003 env lib psk (Some gxfp_payload_seed32_runtime) True True True True h of
            ((rc, out), h) \<Rightarrow>
              let wb = the (wo_data out); wb_len = the (wo_len out); h = ufree_ptr (the (wo_inner out)) h
              in if rc < 0 then Some (1, free_all [psk, seed8, wb] h)
                 else do {
                   ((rc, sealed, sealed_len), h) \<leftarrow> load_sealed env (po_sealed_psk_file po) h;
                   if rc < 0 then Some (1, free_all [psk, seed8, wb] h)
                   else
                     (case gxfp_payload_build_bb010002 env sealed sealed_len seed8 wb wb_len (\<not> po_no_pad4 po) True h of
                        ((rc, bb), h) \<Rightarrow>
                          if rc < 0 then Some (1, free_all [sealed, psk, seed8, wb, map_option fst bb] h)
                          else Some (write_results env po path [sealed, psk, seed8, wb, map_option fst bb] (the bb) (the psk, psk_len) h)) }) } }"

text \<open>The actions on an open device; the structure of the device lives on the stack.\<close>

definition psk_tool_upload :: "uenv \<Rightarrow> udev \<Rightarrow> string \<Rightarrow> uhist \<Rightarrow> (int \<times> uhist) option" where
  "psk_tool_upload env dev path h = do {
     let close_dev = (\<lambda>h. snd (gxfp_dev_close (Some dev) h));
     ((rc, out), h) \<leftarrow> gxfp_read_file_all env (Some path) h;
     if rc < 0 then Some (1, close_dev h)
     else
       (case gxfp_align_blob env (Some (map_option (\<lambda>(b, n). take n b) out)) (Some (case out of None \<Rightarrow> 0 | Some (_, n) \<Rightarrow> n)) h of
          ((rc, blob, blob_len), h) \<Rightarrow>
            if rc < 0 then Some (1, close_dev (free_all [the blob] h))
            else do {
              ((rc, mcu_ret), h) \<leftarrow> gxfp_cmd_production_write_mcu env (Some dev) (the blob) (of_nat (the blob_len)) h;
              Some (if rc < 0 then 1 else if mcu_ret \<noteq> 0 then 1 else 0, close_dev (free_all [the blob] h)) }) }"

definition psk_tool_dump :: "uenv \<Rightarrow> udev \<Rightarrow> u32 \<Rightarrow> string \<Rightarrow> uhist \<Rightarrow> (int \<times> uhist) option" where
  "psk_tool_dump env dev dt outp h =
    (let close_dev = (\<lambda>h. snd (gxfp_dev_close (Some dev) h))
     in (case malloc env 0x800 h of
           (None, h) \<Rightarrow> Some (1, close_dev h)
         | (Some buf, h) \<Rightarrow> do {
             ((rc, buf, data_len), h) \<leftarrow> gxfp_cmd_preset_psk_read env (Some dev) dt (Some buf) 0x800 True h;
             if rc < 0 then Some (1, close_dev (free_all [buf] h))
             else (case write_out env outp (take (unat data_len) (the buf)) h of
                     (ok, h) \<Rightarrow> Some (if ok then 0 else 1, close_dev (free_all [buf] h))) }))"

definition GXFP_DT_BB010002 :: u32 where "GXFP_DT_BB010002 = 0xBB010002"
definition GXFP_DT_BB010003 :: u32 where "GXFP_DT_BB010003 = 0xBB010003"

definition psk_tool_main :: "uenv \<Rightarrow> cryptolib \<Rightarrow> (char \<times> string) list \<Rightarrow> uhist \<Rightarrow> (int \<times> uhist) option" where
  "psk_tool_main env lib opts h =
    (case psk_tool_options opts no_options of
       Inl code \<Rightarrow> Some (code, h)
     | Inr po \<Rightarrow>
         let action_cnt = length (filter (\<lambda>x. x \<noteq> None)
               [po_build_bb010002 po, po_dump_bb010002 po, po_dump_bb010003 po, po_upload_bb010002 po])
         in if action_cnt \<noteq> 1 then Some (2, h)
            else
              (case po_build_bb010002 po of
                 Some path \<Rightarrow> psk_tool_build env lib po path h
               | None \<Rightarrow>
                   (case gxfp_dev_open env (Some \<lparr>ud_fd = 0\<rparr>) (Some ''/dev/gxfp'') 2 h of
                      ((rc, dev), h) \<Rightarrow>
                        if rc < 0 then Some (1, h)
                        else
                          let h = snd (gxfp_dev_flush_rxq env dev h)
                          in (case po_upload_bb010002 po of
                                Some path \<Rightarrow> psk_tool_upload env (the dev) path h
                              | None \<Rightarrow>
                                  let dt = (if po_dump_bb010002 po \<noteq> None then GXFP_DT_BB010002 else GXFP_DT_BB010003);
                                      outp = (if po_dump_bb010002 po \<noteq> None then po_dump_bb010002 po else po_dump_bb010003 po)
                                  in psk_tool_dump env (the dev) dt (the outp) h))))"

section \<open>The recovery tool\<close>

text \<open>The three flags are \<open>unstick_tls\<close>, \<open>reset_mcu\<close> and \<open>reset_sensor\<close>.\<close>

fun recovery_options :: "char list \<Rightarrow> bool \<times> bool \<times> bool \<Rightarrow> int + bool \<times> bool \<times> bool" where
  "recovery_options [] flags = Inr flags"
| "recovery_options (c # opts) (unstick_tls, reset_mcu, reset_sensor) =
    (if c = CHR ''U'' then recovery_options opts (False, reset_mcu, reset_sensor)
     else if c = CHR ''M'' then recovery_options opts (unstick_tls, True, reset_sensor)
     else if c = CHR ''S'' then recovery_options opts (unstick_tls, reset_mcu, True)
     else if c = CHR ''h'' then Inl 0
     else Inl 2)"

definition recovery_main :: "uenv \<Rightarrow> char list \<Rightarrow> uhist \<Rightarrow> (int \<times> uhist) option" where
  "recovery_main env opts h =
    (case recovery_options opts (True, False, False) of
       Inl code \<Rightarrow> Some (code, h)
     | Inr (unstick_tls, reset_mcu, reset_sensor) \<Rightarrow>
         (case gxfp_dev_open env (Some \<lparr>ud_fd = 0\<rparr>) (Some ''/dev/gxfp'') (2 OR O_NONBLOCK) h of
            ((r, dev), h) \<Rightarrow>
              if r < 0 then Some (1, h)
              else do {
                (r, h) \<leftarrow> gxfp_device_recovery env dev unstick_tls reset_mcu reset_sensor h;
                Some (if r < 0 then 1 else 0, snd (gxfp_dev_close dev h)) }))"

section \<open>Memory\<close>

lemma ulive_free_all [simp]: "ulive (free_all ps h) = ulive h - sum_list (map blk ps)"
  unfolding free_all_def by (induction ps arbitrary: h) simp_all

lemma ulive_fclose [simp]: "ulive (fclose_out env p h) = ulive h"
  by (simp add: fclose_out_def)

lemma write_out_live: "write_out env p b h = (ok, h') \<Longrightarrow> ulive h' = ulive h"
  by (auto simp: write_out_def fwrite_def Let_def split: if_splits)

lemma ulive_close [simp]: "ulive (snd (gxfp_dev_close dev h)) = ulive h"
  by (simp add: gxfp_dev_close_def split: option.split)

section \<open>Random bytes\<close>

text \<open>What is documented of \<open>/dev/urandom\<close>: reads of up to 256 bytes are not interrupted. Error numbers are positive.\<close>

definition random_ready :: "uenv \<Rightarrow> bool" where
  "random_ready env \<longleftrightarrow> (\<forall>h. case sys_open env h ''/dev/urandom'' 0 of
     Inl e \<Rightarrow> 0 < e | Inr fd \<Rightarrow> (\<forall>h n e. n \<le> 256 \<longrightarrow> sys_read env h fd n = Inl e \<longrightarrow> 0 < e \<and> e \<noteq> EINTR))"

text \<open>A world in which memory suffices, random bytes are delivered and files can be written.\<close>

definition io_works :: "uenv \<Rightarrow> bool" where
  "io_works env \<longleftrightarrow> (\<forall>h n. sys_malloc env h n) \<and> (\<forall>h. \<exists>fd. sys_open env h ''/dev/urandom'' 0 = Inr fd) \<and>
     (\<forall>h fd n. \<exists>b. sys_read env h fd n = Inr b \<and> n \<le> length b) \<and> (\<forall>h p. sys_fcreate env h p = 0) \<and> (\<forall>h b. sys_fwrite env h b = length b)"

lemma fill_random_loop_returns:
  assumes "\<forall>h n e. n \<le> 256 \<longrightarrow> sys_read env h fd n = Inl e \<longrightarrow> 0 < e \<and> e \<noteq> EINTR" "len \<le> 256" "length buf = len"
  shows "\<exists>rc b h'. fill_random_loop env fd buf off len h = Some ((rc, b), h') \<and> length b = len \<and> ulive h' = ulive h \<and> rc \<le> 0 \<and>
    (io_works env \<longrightarrow> rc = 0)"
  using assms(3)
proof (induction "len - off" arbitrary: buf off h rule: less_induct)
  case less
  let ?h = "URead fd (len - off) # h"
  consider (full) "\<not> off < len" | (fails) e where "off < len" "sys_read env h fd (len - off) = Inl e"
    | (got) b where "off < len" "sys_read env h fd (len - off) = Inr b" by (cases "sys_read env h fd (len - off)") auto
  then show ?case
  proof cases
    case full
    then show ?thesis using less.prems by (subst fill_random_loop.simps) simp
  next
    case fails
    then have "0 < e" "e \<noteq> EINTR" using assms(1) [rule_format, of "len - off" h e] assms(2) by auto
    moreover have "\<not> io_works env" using fails(2) unfolding io_works_def by (metis Inl_Inr_False)
    ultimately show ?thesis using less.prems fails by (subst fill_random_loop.simps) simp
  next
    case got
    let ?b = "take (len - off) b"
    show ?thesis
    proof (cases "?b = []")
      case True
      then have "b = []" using got(1) by simp
      then have "\<not> io_works env" using got unfolding io_works_def by (metis Inr_inject diff_is_0_eq le_zero_eq list.size(3) not_le)
      then show ?thesis using less.prems got True by (subst fill_random_loop.simps) simp
    next
      case False
      then have "len - (off + length ?b) < len - off" using got(1) by (cases b) auto
      moreover have "length (memcpy_at buf off ?b) = len" using less.prems got(1) by (simp add: length_memcpy_at)
      ultimately obtain rc c h' where "fill_random_loop env fd (memcpy_at buf off ?b) (off + length ?b) len ?h = Some ((rc, c), h')"
        "length c = len" "ulive h' = ulive ?h" "rc \<le> 0" "io_works env \<longrightarrow> rc = 0" using less.hyps by blast
      then show ?thesis using got False by (subst fill_random_loop.simps) simp
    qed
  qed
qed

text \<open>Loading or generating gives a block of the expected length, or an error and no block.\<close>

lemma load_or_generate_returns:
  assumes "random_ready env" "\<And>h p. 0 \<le> sys_fopen env h p" "0 < n" "n \<le> 256"
  obtains (failed) rc h' where "load_or_generate_bytes env path n h = Some ((rc, None, 0), h')" "rc < 0" "ulive h' = ulive h"
      "path = None \<longrightarrow> \<not> io_works env"
  | (loaded) b h' where "load_or_generate_bytes env path n h = Some ((0, Some b, n), h')" "n \<le> length b" "ulive h' = ulive h + 1"
proof (cases path)
  case (Some p)
  obtain rc out h' where r: "gxfp_read_file_all env (Some p) h = Some ((rc, out), h')" "ulive h' = ulive h + (if out = None then 0 else 1)"
    "case out of None \<Rightarrow> rc < 0 \<or> sys_fopen env h p < 0 | Some (b, n) \<Rightarrow> rc = 0 \<and> n \<le> length b" by (rule read_file_returns)
  show thesis
  proof (cases out)
    case None
    then have "rc < 0" using r(3) assms(2) [of h p] by auto
    then show thesis using failed [of rc h'] r None Some assms(3) by (simp add: load_or_generate_bytes_def)
  next
    case (Some bn)
    obtain b m where bn: "bn = (b, m)" by fastforce
    show thesis
    proof (cases "m = n")
      case True
      then show thesis using loaded [of b h'] r Some bn \<open>path = Some p\<close> assms(3) by (simp add: load_or_generate_bytes_def)
    next
      case False
      then show thesis using failed [of "- EINVAL" "ufree_ptr (Some b) h'"] r Some bn \<open>path = Some p\<close> assms(3) by (simp add: load_or_generate_bytes_def)
    qed
  qed
next
  case None
  show thesis
  proof (cases rule: malloc_cases [of env n h])
    case null
    moreover have "\<not> io_works env" using null by (auto simp: io_works_def malloc_def)
    ultimately show thesis using failed [of "- ENOMEM" h] None assms(3) by (simp add: load_or_generate_bytes_def)
  next
    case (block b)
    let ?h = "UMalloc n # h" and ?u = "''/dev/urandom''"
    have "\<exists>rc c h'. fill_random_bytes env (Some b) n ?h = Some ((rc, Some c), h') \<and> length c = n \<and> ulive h' = ulive ?h \<and> rc \<le> 0 \<and> (io_works env \<longrightarrow> rc = 0)"
    proof (cases "sys_open env ?h ?u 0")
      case (Inl e)
      then have "0 < e" using assms(1) [unfolded random_ready_def, rule_format, of ?h] by simp
      moreover have "\<not> io_works env" using Inl unfolding io_works_def by (metis Inl_Inr_False)
      ultimately show ?thesis using Inl assms(3) block(2) by (simp add: fill_random_bytes_def)
    next
      case (Inr fd)
      then have fd: "\<forall>h n e. n \<le> 256 \<longrightarrow> sys_read env h fd n = Inl e \<longrightarrow> 0 < e \<and> e \<noteq> EINTR"
        using assms(1) [unfolded random_ready_def, rule_format, of ?h] by simp
      from fill_random_loop_returns [OF fd assms(4) block(2), where off = 0 and h = "UOpen ?u 0 # ?h"] show ?thesis
        using Inr assms(3) by (auto simp: fill_random_bytes_def)
    qed
    then obtain rc c h' where f: "fill_random_bytes env (Some b) n ?h = Some ((rc, Some c), h')" "length c = n" "ulive h' = ulive ?h" "rc \<le> 0"
      "io_works env \<longrightarrow> rc = 0" by blast
    show thesis
    proof (cases "rc < 0")
      case True
      then show thesis using failed [of rc "ufree_ptr (Some c) h'"] f block None assms(3) by (simp add: load_or_generate_bytes_def)
    next
      case False
      then show thesis using loaded [of c h'] f block None assms(3) by (simp add: load_or_generate_bytes_def)
    qed
  qed
qed

section \<open>Building\<close>

lemma content_free_all [simp]: "file_content (free_all ps h) q = file_content h q"
  unfolding free_all_def by (induction ps arbitrary: h) (simp_all add: ufree_ptr_def ufree_def split: option.split)

lemma write_out_content:
  assumes "write_out env p b h = (True, h')" "\<And>h. sys_fflush env h p"
  shows "file_content h' p = Some b" "q \<noteq> p \<Longrightarrow> file_content h' q = file_content h q"
  using assms by (auto simp: write_out_def fwrite_def fclose_out_def Let_def split: if_splits)

lemma write_results_spec:
  obtains code h' where "write_results env po path blocks bb psk h = (code, h')" "code \<in> {0, 1}" "ulive h' = ulive h - sum_list (map blk blocks)"
    "io_works env \<longrightarrow> code = 0"
    "code = 0 \<and> (\<forall>h p. sys_fflush env h p) \<and> po_out_psk_raw32 po \<noteq> Some path \<longrightarrow> file_content h' path = Some (take (snd bb) (fst bb)) \<and>
       (\<forall>p. po_out_psk_raw32 po = Some p \<longrightarrow> file_content h' p = Some (take (snd psk) (fst psk)))"
proof -
  obtain ok1 h1 where w1: "write_out env path (take (snd bb) (fst bb)) h = (ok1, h1)" by fastforce
  note l1 = write_out_live [OF w1]
  have works: "fst (write_out env p b h)" if "io_works env" for p b h
    using that by (simp add: io_works_def write_out_def fwrite_def Let_def)
  have ok1: "io_works env \<Longrightarrow> ok1" using works [of path "take (snd bb) (fst bb)" h] w1 by simp
  show thesis
  proof (cases "ok1 \<and> po_out_psk_raw32 po \<noteq> None")
    case False
    have eq: "write_results env po path blocks bb psk h = (if ok1 then 0 else 1, free_all blocks h1)"
      using w1 False by (auto simp: write_results_def)
    show thesis by (rule that [OF eq]) (use l1 w1 write_out_content(1) [of env path] False ok1 in auto)
  next
    case True
    then obtain p where p: "po_out_psk_raw32 po = Some p" "ok1" by auto
    obtain ok2 h2 where w2: "write_out env p (take (snd psk) (fst psk)) h1 = (ok2, h2)" by fastforce
    have eq: "write_results env po path blocks bb psk h = (if ok2 then 0 else 1, free_all blocks h2)"
      using w1 w2 p by (simp add: write_results_def)
    show thesis
    proof (rule that [OF eq])
      show "ulive (free_all blocks h2) = ulive h - sum_list (map blk blocks)" using l1 write_out_live [OF w2] by simp
      show "io_works env \<longrightarrow> (if ok2 then 0 else 1) = (0 :: int)" using works [of p "take (snd psk) (fst psk)" h1] w2 by simp
    qed (use w1 w2 p write_out_content [of env path] write_out_content [of env p] in auto)
  qed
qed

text \<open>A null pointer with its length, or a block that holds it.\<close>

definition holds :: "ptr \<Rightarrow> nat \<Rightarrow> bool" where
  "holds p n \<longleftrightarrow> (case p of None \<Rightarrow> n = 0 | Some b \<Rightarrow> n \<le> length b)"

lemma load_sealed_returns:
  assumes "\<And>h p. 0 \<le> sys_fopen env h p"
  obtains (failed) rc h' where "load_sealed env path h = Some ((rc, None, 0), h')" "rc < 0" "ulive h' = ulive h" "path \<noteq> None"
  | (loaded) p n h' where "load_sealed env path h = Some ((0, p, n), h')" "holds p n" "ulive h' = ulive h + blk p" "path = None \<longrightarrow> p = None"
proof (cases path)
  case None
  then show thesis using loaded [of None 0 h] by (simp add: load_sealed_def holds_def)
next
  case (Some p)
  obtain rc out h' where r: "gxfp_read_file_all env (Some p) h = Some ((rc, out), h')" "ulive h' = ulive h + (if out = None then 0 else 1)"
    "case out of None \<Rightarrow> rc < 0 \<or> sys_fopen env h p < 0 | Some (b, n) \<Rightarrow> rc = 0 \<and> n \<le> length b" by (rule read_file_returns)
  show thesis
  proof (cases out)
    case None
    then have "rc < 0" using r(3) assms [of h p] by auto
    then show thesis using failed [of rc h'] r None Some by (simp add: load_sealed_def)
  next
    case (Some bn)
    obtain b m where bn: "bn = (b, m)" by fastforce
    show thesis
      by (rule loaded [of "Some b" m h']) (use r Some bn \<open>path = Some p\<close> in \<open>simp_all add: load_sealed_def holds_def\<close>)
  qed
qed

lemma blob_built:
  assumes "holds p n" "8 \<le> length s8" "length wb = 102"
  obtains (failed) rc where "gxfp_payload_build_bb010002 env p n (Some s8) (Some wb) 102 pad4 True h = ((rc, None), h)" "rc < 0"
      "p = None \<longrightarrow> \<not> io_works env"
  | (built) b m rest pad where "gxfp_payload_build_bb010002 env p n (Some s8) (Some wb) 102 pad4 True h = ((0, Some (b, m)), UMalloc m # h)"
      "length b = m" "read_tlv b = Some ((0xBB010002, ptr_bytes p n @ take 8 s8), rest)" "read_tlv rest = Some ((0xBB010003, wb), pad)"
proof -
  define sp where "sp = (case p of None \<Rightarrow> [] | Some b \<Rightarrow> b)"
  have p: "n \<le> length sp" "ptr_bytes p n = take n sp" using assms(1) by (auto simp: sp_def holds_def split: option.splits)
  have eq: "gxfp_payload_build_bb010002 env p n (Some s8) (Some wb) 102 pad4 True h = gxfp_payload_build_bb010002 env (Some sp) n (Some s8) (Some wb) 102 pad4 True h"
    using assms(1) by (cases p) (simp_all add: gxfp_payload_build_bb010002_def sp_def holds_def malloc_def Let_def)
  have works: "fst (fst (gxfp_payload_build_bb010002 env (Some sp) n (Some s8) (Some wb) 102 pad4 True h)) = 0 \<or> p \<noteq> None \<or> \<not> io_works env"
    using assms(1) by (cases p; cases "io_works env") (simp_all add: gxfp_payload_build_bb010002_def io_works_def holds_def malloc_def Let_def)
  from blob_reads_back [OF p(1) assms(2), of 102 wb env pad4 h] assms(3) failed built works show thesis
    unfolding eq p(2) by (cases "0xFFFFFFFF - 8 < n") auto
qed

text \<open>The whole build: the exit code, the memory, and on success what the two files hold.\<close>

definition provisions :: "cryptolib \<Rightarrow> (bytes \<Rightarrow> bytes \<Rightarrow> bytes \<Rightarrow> bytes \<Rightarrow> bytes \<Rightarrow> bytes option) \<Rightarrow> uhist \<Rightarrow> psk_options \<Rightarrow> string \<Rightarrow> bool" where
  "provisions lib dec h po path \<longleftrightarrow> (\<exists>b psk sealed s8 wb rest pad. file_content h path = Some b \<and> length psk = 32 \<and> length s8 = 8 \<and>
     read_tlv b = Some ((0xBB010002, sealed @ s8), rest) \<and> read_tlv rest = Some ((0xBB010003, wb), pad) \<and>
     unseal lib dec gxfp_payload_seed32_runtime wb = Some psk \<and> (\<forall>p. po_out_psk_raw32 po = Some p \<longrightarrow> file_content h p = Some psk))"

lemma build_contract:
  assumes "crypto_ok lib" "\<And>k iv a m. dec k iv a (fst (gcm_encrypt lib k iv a m)) (snd (gcm_encrypt lib k iv a m)) = Some m"
    and "random_ready env" "\<And>h p. 0 \<le> sys_fopen env h p"
  obtains code h' where "psk_tool_build env lib po path h = Some (code, h')" "code \<in> {0, 1}" "ulive h' = ulive h"
    "po_psk_raw32 po = None \<and> po_seed8_file po = None \<and> po_sealed_psk_file po = None \<and> crypto_works env lib \<and> io_works env \<longrightarrow> code = 0"
    "code = 0 \<and> (\<forall>h p. sys_fflush env h p) \<and> po_out_psk_raw32 po \<noteq> Some path \<longrightarrow> provisions lib dec h' po path"
proof -
  let ?seed = gxfp_payload_seed32_runtime
  have ls: "32 \<le> length ?seed" "take 32 ?seed = ?seed" by (simp_all add: gxfp_payload_seed32_runtime_def)
  have n: "0 < (32 :: nat)" "(32 :: nat) \<le> 256" "0 < (8 :: nat)" "(8 :: nat) \<le> 256" by simp_all
  show thesis
  proof (cases rule: load_or_generate_returns [OF assms(3,4) n(1,2), where path = "po_psk_raw32 po" and h = h])
    case (1 rc h1)
    then show thesis using that [of 1 "free_all [None] h1"] by (auto simp: psk_tool_build_def)
  next
    case psk: (2 psk h1)
    show thesis
    proof (cases rule: load_or_generate_returns [OF assms(3,4) n(3,4), where path = "po_seed8_file po" and h = h1])
      case (1 rc h2)
      then show thesis using that [of 1 "free_all [Some psk, None] h2"] psk by (auto simp: psk_tool_build_def)
    next
      case s8: (2 s8 h2)
      note head = psk(1) s8(1)
      from white_box_opens [OF assms(1) psk(2) ls(1) assms(2), of env True True h2]
      obtain rc out h3 where w: "gxfp_payload_build_bb010003 env lib (Some psk) (Some ?seed) True True True True h2 = ((rc, out), h3)"
        "if rc = 0 then \<exists>wb. wo_data out = Some (Some wb) \<and> wo_len out = Some 102 \<and> length wb = 102 \<and> unseal lib dec ?seed wb = Some (take 32 psk) \<and>
            wo_inner out = Some (Some (drop 32 wb)) \<and> ulive h3 = ulive h2 + 2
         else rc \<in> {- EIO, - ENOMEM} \<and> wo_data out = Some None \<and> wo_inner out = Some None \<and> ulive h3 = ulive h2"
        "crypto_works env lib \<longrightarrow> rc = 0" unfolding ls(2) by (auto split: if_splits)
      show thesis
      proof (cases "rc = 0")
        case False
        then show thesis using that [of 1 "free_all [Some psk, Some s8, None] (ufree_ptr (None :: ptr) h3)"] w psk s8
          by (auto simp: psk_tool_build_def)
      next
        case True
        then obtain wb where wb: "wo_data out = Some (Some wb)" "wo_len out = Some 102" "length wb = 102" "unseal lib dec ?seed wb = Some (take 32 psk)"
          "wo_inner out = Some (Some (drop 32 wb))" "ulive h3 = ulive h2 + 2" using w(2) by auto
        let ?h4 = "ufree_ptr (Some (drop 32 wb)) h3"
        have h4: "ulive ?h4 = ulive h + 3" using wb(6) psk(3) s8(3) by simp
        show thesis
        proof (cases rule: load_sealed_returns [OF assms(4), where path = "po_sealed_psk_file po" and h = ?h4])
          case (1 rc h5)
          then show thesis using that [of 1 "free_all [Some psk, Some s8, Some wb] h5"] head w(1) True wb(1,2,5) h4 by (auto simp: psk_tool_build_def)
        next
          case sealed: (2 p m h5)
          show thesis
          proof (cases rule: blob_built [OF sealed(2) s8(2) wb(3), where env = env and ?pad4.0 = "\<not> po_no_pad4 po" and h = h5])
            case (1 rc)
            then show thesis using that [of 1 "free_all [p, Some psk, Some s8, Some wb, None] h5"] head w(1) True wb(1,2,5) h4 sealed
              by (auto simp: psk_tool_build_def)
          next
            case b: (2 b k rest pad)
            obtain code h' where r: "write_results env po path [p, Some psk, Some s8, Some wb, Some b] (b, k) (psk, 32) (UMalloc k # h5) = (code, h')"
              "code \<in> {0, 1}" "ulive h' = ulive (UMalloc k # h5) - sum_list (map blk [p, Some psk, Some s8, Some wb, Some b])" "io_works env \<longrightarrow> code = 0"
              "code = 0 \<and> (\<forall>h p. sys_fflush env h p) \<and> po_out_psk_raw32 po \<noteq> Some path \<longrightarrow> file_content h' path = Some (take (snd (b, k)) (fst (b, k))) \<and>
                 (\<forall>p. po_out_psk_raw32 po = Some p \<longrightarrow> file_content h' p = Some (take (snd (psk, 32 :: nat)) (fst (psk, 32 :: nat))))"
              by (rule write_results_spec)
            have "provisions lib dec h' po path" if "code = 0 \<and> (\<forall>h p. sys_fflush env h p) \<and> po_out_psk_raw32 po \<noteq> Some path"
              unfolding provisions_def
              by (rule exI [of _ b], rule exI [of _ "take 32 psk"], rule exI [of _ "ptr_bytes p m"], rule exI [of _ "take 8 s8"])
                 (use r(5) that b(2-4) wb(4) psk(2) s8(2) in auto)
            moreover have "psk_tool_build env lib po path h = Some (code, h')"
              using head w(1) True wb(1,2,5) sealed(1) b(1) r(1) by (simp add: psk_tool_build_def)
            ultimately show thesis using that r(2-4) h4 sealed(3) by simp
          qed
        qed
      qed
    qed
  qed
qed

section \<open>The device\<close>

lemma request_any_returns:
  assumes "clock_runs env" "length rx = cap"
  obtains rc rx' n h' where
    "gxfp_goodix_request_selected env dev cmd expect pl w (Some rx) cap tries t sel h = Some ((rc, Some rx', n), h')" "ulive h' = ulive h"
proof -
  have loop: "\<exists>rc rx' n h'. request_loop env dev cmd expect pl w cap t sel k (Some rx) h = Some ((rc, Some rx', n), h') \<and> ulive h' = ulive h"
    if "length rx = cap" for k rx h
    using that
  proof (induction k arbitrary: rx h)
    case (Suc k)
    obtain r h1 where s: "gxfp_goodix_send_async env dev cmd pl w h = (r, h1)" by fastforce
    obtain rc rx' n h2 where w: "gxfp_goodix_wait_selected env dev expect (Some rx) cap t sel h1 = Some ((rc, Some rx', n), h2)"
      "waited h1 h2" "wait_result expect rx cap (rc, rx', n)"
      using wait_selected_returns [OF assms(1), where rx = rx and rx_cap = cap and h = h1 and dev = dev and expect = expect and t = t and sel = sel] Suc.prems by auto
    have "length rx' = cap" using w(3) Suc.prems by (simp add: wait_result_def)
    then show ?case
      using Suc.IH [of rx' h2] s w(1) waited_ulive [OF w(2)] send_async_keeps [OF s] by (cases "r = 0"; cases "rc = - ETIMEDOUT") auto
  qed simp
  have "\<exists>rc rx' n h'. gxfp_goodix_request_selected env dev cmd expect pl w (Some rx) cap tries t sel h = Some ((rc, Some rx', n), h') \<and> ulive h' = ulive h"
    using loop [OF assms(2)] by (simp add: gxfp_goodix_request_selected_def)
  then show thesis using that by blast
qed

lemma production_write_returns:
  assumes "clock_runs env"
  obtains rc m h' where "gxfp_cmd_production_write_mcu env (Some d) (Some b) n h = Some ((rc, m), h')" "ulive h' = ulive h"
proof -
  obtain rc rx k h' where r: "gxfp_goodix_request_selected env (Some d) GXFP_CMD_PRODUCTION_WRITE_MCU GXFP_CMD_PRODUCTION_WRITE_MCU (Some b) n
      (Some (ufresh env h GXFP_IOCTL_TAP_PAYLOAD_MAX)) GXFP_IOCTL_TAP_PAYLOAD_MAX 4 2000 (Some production_write_selector) h = Some ((rc, Some rx, k), h')"
    "ulive h' = ulive h" by (rule request_any_returns [OF assms length_ufresh])
  obtain ok frame where p: "gxfp_parse_goodix_body (Some rx) k (Some frame_zero) = (ok, frame)" by fastforce
  have "\<exists>rc m. gxfp_cmd_production_write_mcu env (Some d) (Some b) n h = Some ((rc, m), h')"
    using r(1) p by (auto simp: gxfp_cmd_production_write_mcu_def split: if_splits option.split)
  then show thesis using that r(2) by blast
qed

lemma align_blob_keeps:
  obtains rc b' n' h' where "gxfp_align_blob env (Some (Some b)) (Some n) h = ((rc, Some (Some b'), Some n'), h')" "ulive h' = ulive h"
proof -
  have "\<exists>rc b' n' h'. gxfp_align_blob env (Some (Some b)) (Some n) h = ((rc, Some (Some b'), Some n'), h') \<and> ulive h' = ulive h"
    by (cases "sys_malloc env h ((n + 3) mod 2 ^ 32 div 4 * 4)") (auto simp: gxfp_align_blob_def realloc_def Let_def)
  then show thesis using that by blast
qed

lemma upload_runs:
  assumes "clock_runs env" "\<And>h p. 0 \<le> sys_fopen env h p"
  obtains code h' where "psk_tool_upload env d path h = Some (code, h')" "code \<in> {0, 1}" "ulive h' = ulive h"
proof -
  obtain rc out h1 where r: "gxfp_read_file_all env (Some path) h = Some ((rc, out), h1)" "ulive h1 = ulive h + (if out = None then 0 else 1)"
    "case out of None \<Rightarrow> rc < 0 \<or> sys_fopen env h path < 0 | Some (b, n) \<Rightarrow> rc = 0 \<and> n \<le> length b" by (rule read_file_returns)
  show thesis
  proof (cases out)
    case None
    then have "rc < 0" using r(3) assms(2) [of h path] by auto
    then show thesis using that [of 1 "snd (gxfp_dev_close (Some d) h1)"] r None by (simp add: psk_tool_upload_def)
  next
    case (Some bn)
    obtain b n where bn: "bn = (b, n)" by fastforce
    obtain rc2 b2 n2 h2 where a: "gxfp_align_blob env (Some (Some (take n b))) (Some n) h1 = ((rc2, Some (Some b2), Some n2), h2)" "ulive h2 = ulive h1"
      by (rule align_blob_keeps)
    obtain rc3 m h3 where w: "gxfp_cmd_production_write_mcu env (Some d) (Some b2) (of_nat n2) h2 = Some ((rc3, m), h3)" "ulive h3 = ulive h2"
      by (rule production_write_returns [OF assms(1)])
    have live: "ulive h2 = ulive h + 1" using r(2) a(2) Some by simp
    show thesis
    proof (cases "rc2 < 0")
      case True
      then show thesis using that [of 1 "snd (gxfp_dev_close (Some d) (free_all [Some b2] h2))"] r(1,3) Some bn a(1) live by (simp add: psk_tool_upload_def)
    next
      case False
      then show thesis
        using that [of "if rc3 < 0 then 1 else if m \<noteq> 0 then 1 else 0" "snd (gxfp_dev_close (Some d) (free_all [Some b2] h3))"] r(1,3) Some bn a(1) w live
        by (simp add: psk_tool_upload_def)
    qed
  qed
qed

lemma dump_runs:
  assumes "clock_runs env" "0 \<le> ud_fd d"
  obtains code h' where "psk_tool_dump env d ty path h = Some (code, h')" "code \<in> {0, 1}" "ulive h' = ulive h"
proof (cases rule: malloc_cases [of env "0x800" h])
  case null
  then show thesis using that [of 1 "snd (gxfp_dev_close (Some d) h)"] by (simp add: psk_tool_dump_def)
next
  case (block b)
  have c: "unat (0x800 :: u32) \<le> length b" "0 < (0x800 :: u32)" using block(2) by simp_all
  obtain rc b' n h1 where r: "gxfp_cmd_preset_psk_read env (Some d) ty (Some b) 0x800 True (UMalloc 0x800 # h) = Some ((rc, Some b', n), h1)"
    "ulive h1 = ulive h + 1" using psk_read_contract [OF assms c, of ty "UMalloc 0x800 # h"] by auto
  obtain ok h2 where w: "write_out env path (take (unat n) b') h1 = (ok, h2)" by fastforce
  show thesis
  proof (cases "rc < 0")
    case True
    then show thesis using that [of 1 "snd (gxfp_dev_close (Some d) (free_all [Some b'] h1))"] block r by (simp add: psk_tool_dump_def)
  next
    case False
    then show thesis using that [of "if ok then 0 else 1" "snd (gxfp_dev_close (Some d) (free_all [Some b'] h2))"] block r w write_out_live [OF w]
      by (simp add: psk_tool_dump_def)
  qed
qed

lemma device_action_runs:
  assumes "errnos env" "clock_runs env" "\<And>h p. 0 \<le> sys_fopen env h p"
    and "psk_tool_options opts no_options = Inr po" "po_build_bb010002 po = None"
    and "length (filter (\<lambda>x. x \<noteq> None) [po_build_bb010002 po, po_dump_bb010002 po, po_dump_bb010003 po, po_upload_bb010002 po]) = 1"
  shows "\<exists>code h'. psk_tool_main env lib opts h = Some (code, h') \<and> code \<in> {0, 1} \<and> ulive h' = ulive h"
proof (cases "sys_open env h ''/dev/gxfp'' (2 OR O_CLOEXEC)")
  case (Inl e)
  then have "0 < e" using assms(1) by (auto simp: errnos_def dest: spec [of _ h] split: sum.splits)
  then show ?thesis using assms(4-6) Inl by (simp add: psk_tool_main_def gxfp_dev_open_def)
next
  case (Inr fd)
  let ?d = "\<lparr>ud_fd = fd\<rparr>"
  let ?h = "snd (gxfp_dev_flush_rxq env (Some ?d) (UOpen ''/dev/gxfp'' (2 OR O_CLOEXEC) # h))"
  have fd: "0 \<le> ud_fd ?d" using assms(1) Inr by (auto simp: errnos_def dest: spec [of _ h] split: sum.splits)
  have live: "ulive ?h = ulive h" using flush_keeps [of env "Some ?d" "UOpen ''/dev/gxfp'' (2 OR O_CLOEXEC) # h"] by (metis prod.collapse ulive.simps(4))
  have eq: "psk_tool_main env lib opts h =
     (case po_upload_bb010002 po of
        Some path \<Rightarrow> psk_tool_upload env ?d path ?h
      | None \<Rightarrow> psk_tool_dump env ?d (if po_dump_bb010002 po \<noteq> None then GXFP_DT_BB010002 else GXFP_DT_BB010003)
          (the (if po_dump_bb010002 po \<noteq> None then po_dump_bb010002 po else po_dump_bb010003 po)) ?h)"
    using assms(4-6) Inr by (cases "po_upload_bb010002 po") (simp_all add: psk_tool_main_def gxfp_dev_open_def Let_def)
  show ?thesis
  proof (cases "po_upload_bb010002 po")
    case (Some path)
    show ?thesis by (rule upload_runs [OF assms(2,3), of ?d path ?h]) (use eq Some live in auto)
  next
    case None
    let ?ty = "if po_dump_bb010002 po \<noteq> None then GXFP_DT_BB010002 else GXFP_DT_BB010003"
    let ?out = "the (if po_dump_bb010002 po \<noteq> None then po_dump_bb010002 po else po_dump_bb010003 po)"
    show ?thesis by (rule dump_runs [OF assms(2) fd, of ?ty ?out ?h]) (use eq None live in auto)
  qed
qed

lemma recovery_main_runs:
  assumes "errnos env" "clock_runs env"
  obtains code h' where "recovery_main env opts h = Some (code, h')" "code \<in> {0, 1, 2}" "ulive h' = ulive h"
proof (cases "recovery_options opts (True, False, False)")
  case (Inl code)
  moreover have "recovery_options opts f = Inl code \<Longrightarrow> code \<in> {0, 2}" for f
    by (induction opts f rule: recovery_options.induct) (auto split: if_splits)
  ultimately show thesis using that [of code h] by (auto simp: recovery_main_def)
next
  case (Inr flags)
  obtain u m s where flags: "flags = (u, m, s)" by (cases flags)
  let ?f = "2 OR O_NONBLOCK OR O_CLOEXEC"
  show thesis
  proof (cases "sys_open env h ''/dev/gxfp'' ?f")
    case (Inl e)
    then have "0 < e" using assms(1) by (auto simp: errnos_def dest: spec [of _ h] split: sum.splits)
    then show thesis using that [of 1 "UOpen ''/dev/gxfp'' ?f # h"] Inr Inl flags by (simp add: recovery_main_def gxfp_dev_open_def ac_simps)
  next
    case fd: (Inr fd)
    have "0 \<le> ud_fd \<lparr>ud_fd = fd\<rparr>" using assms(1) fd by (auto simp: errnos_def dest: spec [of _ h] split: sum.splits)
    then obtain rc h' where "gxfp_device_recovery env (Some \<lparr>ud_fd = fd\<rparr>) u m s (UOpen ''/dev/gxfp'' ?f # h) = Some (rc, h')"
      "ulive h' = ulive (UOpen ''/dev/gxfp'' ?f # h)" by (rule recovery_returns [OF assms(2)])
    then show thesis
      using that [of "if rc < 0 then 1 else 0" "snd (gxfp_dev_close (Some \<lparr>ud_fd = fd\<rparr>) h')"] Inr fd flags
      by (simp add: recovery_main_def gxfp_dev_open_def ac_simps)
  qed
qed

section \<open>Properties\<close>

text \<open>C25: The provisioning tool. Whatever options it is given, whatever files it finds and whatever the device answers, the tool ends
  with exit code 0, 1 or 2 and has released every block; building from a key it draws itself succeeds when no call fails. When it was to build a blob and ends with 0, and the writes reach the
  disk, the output file reads as the two entries of the blob, the white box in it opens to a key of 32 bytes, and that key is
  exactly what the key file holds, if one was asked for under another name. The hypotheses are that the cryptographic
  library keeps to its documented lengths and decryption inverts encryption, that error numbers are positive, that reads
  of \<open>/dev/urandom\<close> are not interrupted, and that the clock runs.\<close>

theorem psk_tool_provisions:
  assumes "crypto_ok lib" and "\<And>k iv a m. dec k iv a (fst (gcm_encrypt lib k iv a m)) (snd (gcm_encrypt lib k iv a m)) = Some m"
    and "random_ready env" and "errnos env" and "clock_runs env" and "\<And>h p. 0 \<le> sys_fopen env h p"
  shows "\<exists>code h'. psk_tool_main env lib opts h = Some (code, h') \<and> code \<in> {0, 1, 2} \<and> ulive h' = ulive h \<and>
    (\<forall>path. opts = [(CHR ''B'', path)] \<and> crypto_works env lib \<and> io_works env \<longrightarrow> code = 0) \<and>
    (\<forall>po path. psk_tool_options opts no_options = Inr po \<and> po_build_bb010002 po = Some path \<and> code = 0 \<and>
       (\<forall>h p. sys_fflush env h p) \<and> po_out_psk_raw32 po \<noteq> Some path \<longrightarrow> provisions lib dec h' po path)"
proof (cases "psk_tool_options opts no_options")
  case (Inl code)
  moreover have "psk_tool_options opts po = Inl code \<Longrightarrow> code \<in> {0, 2}" for po
    by (induction opts po rule: psk_tool_options.induct) (auto split: if_splits)
  ultimately show ?thesis by (auto simp: psk_tool_main_def)
next
  case (Inr po)
  let ?n = "length (filter (\<lambda>x. x \<noteq> None) [po_build_bb010002 po, po_dump_bb010002 po, po_dump_bb010003 po, po_upload_bb010002 po])"
  show ?thesis
  proof (cases "?n = 1")
    case False
    then show ?thesis using Inr by (auto simp: psk_tool_main_def no_options_def)
  next
    case one: True
    show ?thesis
    proof (cases "po_build_bb010002 po")
      case (Some path)
      obtain code h' where "psk_tool_build env lib po path h = Some (code, h')" "code \<in> {0, 1}" "ulive h' = ulive h"
        "po_psk_raw32 po = None \<and> po_seed8_file po = None \<and> po_sealed_psk_file po = None \<and> crypto_works env lib \<and> io_works env \<longrightarrow> code = 0"
        "code = 0 \<and> (\<forall>h p. sys_fflush env h p) \<and> po_out_psk_raw32 po \<noteq> Some path \<longrightarrow> provisions lib dec h' po path"
        by (rule build_contract [OF assms(1-3,6)])
      then show ?thesis using Inr one Some by (auto simp: psk_tool_main_def Let_def no_options_def)
    next
      case None
      have "\<exists>code h'. psk_tool_main env lib opts h = Some (code, h') \<and> code \<in> {0, 1} \<and> ulive h' = ulive h"
        by (rule device_action_runs [OF assms(4-6) Inr None one])
      then show ?thesis using Inr None by (auto simp: no_options_def)
    qed
  qed
qed

text \<open>A source of random bytes.\<close>

definition random_env :: uenv where
  "random_env = sim_uenv\<lparr>sys_read := (\<lambda>h fd n. Inr (replicate n 7))\<rparr>"

theorem psk_tool_provisions_witness:
  "\<exists>h'. psk_tool_main random_env copy_lib [(CHR ''B'', ''bb.bin'')] [] = Some (0, h') \<and> ulive h' = ulive [] \<and>
    provisions copy_lib (\<lambda>k iv a c t. Some c) h' (no_options\<lparr>po_build_bb010002 := Some ''bb.bin''\<rparr>) ''bb.bin''"
proof -
  let ?opts = "[(CHR ''B'', ''bb.bin'')]" and ?po = "no_options\<lparr>po_build_bb010002 := Some ''bb.bin''\<rparr>"
  have lib: "crypto_ok copy_lib" by (simp add: crypto_ok_def copy_lib_def)
  have dec: "(\<lambda>k iv a c t. Some c) k iv a (fst (gcm_encrypt copy_lib k iv a m)) (snd (gcm_encrypt copy_lib k iv a m)) = Some m" for k iv a m
    by (simp add: copy_lib_def)
  have env: "random_ready random_env" "errnos random_env" "\<And>h p. 0 \<le> sys_fopen random_env h p" "\<And>h p. sys_fflush random_env h p"
    "io_works random_env" "crypto_works random_env copy_lib"
    by (simp_all add: random_ready_def errnos_def random_env_def sim_uenv_def io_works_def crypto_works_def copy_lib_def)
  have clock: "clock_runs random_env" using sim_clock_runs by (simp add: clock_runs_def clock_ms_def gxfp_monotonic_ms_def random_env_def)
  have po: "psk_tool_options ?opts no_options = Inr ?po" "po_build_bb010002 ?po = Some ''bb.bin''" "po_out_psk_raw32 ?po \<noteq> Some ''bb.bin''"
    by (simp_all add: no_options_def)
  show ?thesis
    using psk_tool_provisions [OF lib dec env(1,2) clock env(3), of ?opts "[]"] env(4-6) po by metis
qed

section \<open>Where the code falls short\<close>

text \<open>A blob that is aligned already is not checked against the sixteen bits of its length: of a file of 65540 bytes only the
  length of its first four is announced and sent.\<close>

lemma large_blob_truncated:
  "gxfp_align_blob env (Some (Some b)) (Some 65540) h = ((0, Some (Some b), Some 65540), h)" "(of_nat 65540 :: u16) = 4"
  by (simp_all add: gxfp_align_blob_def)

text \<open>The result of \<open>fclose\<close> is not looked at: a write that was accepted into the buffer and never reached the file counts as a
  success.\<close>

lemma lost_write_unnoticed:
  assumes "\<And>h p. sys_fcreate env h p = 0" "\<And>h b. sys_fwrite env h b = length b" "\<And>h p. \<not> sys_fflush env h p"
  obtains h' where "write_out env path b h = (True, h')" "file_content h' path = None"
  using assms that by (simp add: write_out_def fwrite_def fclose_out_def Let_def)

end
