(* ===== verification/Spec2Isabelle.thy ===== *)
theory Spec2Isabelle
  imports Goodix_Proto Mp_Proto Kernel_Hw Espi_Transport Kernel_Cmd Kernel_Uapi Kernel_Trace Kernel_Platform Uapi_Concurrency
    User_Sys Sensor_Cfg Image_Plain Image_Decoder User_Dev User_Xfer User_Cmd Fdt_Flow Tls_Engine Tls_Service Image_Fpn Session Session_Inv Session_Run Session_Props Provision
    Fp_Device Image_Device Gxfp_Driver Image_Contract Driver_Run Driver_Loop Driver_Returns Driver_Props User_Tools
begin

text \<open>
  Verification of the Linux driver stack of the Goodix GXFP5130 fingerprint sensor: the kernel module
  under \<^verbatim>\<open>src/kernel\<close>, the userspace library under \<^verbatim>\<open>src/userspace\<close> and the driver for libfprint
  under \<^verbatim>\<open>src/libfprint\<close>.

  \<^bold>\<open>The program.\<close> The sensor hangs on an eSPI bus and is reached through a mailbox in memory that shows one window at a time
  and three GPIO lines. The kernel module finds these resources in ACPI and probes the device
  (\<^verbatim>\<open>driver/gxfp_platform.c\<close>, \<^verbatim>\<open>hw/gxfp_acpi.c\<close>), reads and writes the mailbox window by window
  (\<^verbatim>\<open>hw/\<close>, \<^verbatim>\<open>transport/\<close>), exchanges commands with the controller of the sensor while it starts up
  (\<^verbatim>\<open>cmd/\<close>), and hands packages on to userspace through a character device with a receive queue that the
  interrupt thread fills (\<^verbatim>\<open>driver/gxfp_uapi_*.c\<close>, \<^verbatim>\<open>driver/gxfp_irq.c\<close>); a trace ring records what it does.
  A package is an MP frame (flags, length, header checksum) whose payload is a Goodix message (command,
  length, payload, checksum) or a TLS record. The library opens the character device (\<^verbatim>\<open>io/dev.c\<close>), sends
  commands and waits for their answers (\<^verbatim>\<open>cmd/\<close>), keeps a finger detection flow (\<^verbatim>\<open>flow/fdt.c\<close>) and a TLS
  connection to the sensor in which the images travel (\<^verbatim>\<open>tls/\<close>), cuts image frames out of the decrypted stream,
  decodes and corrects them (\<^verbatim>\<open>algo/image/\<close>), computes the configuration of the sensor from its calibration
  record (\<^verbatim>\<open>algo/sensor_cfg.c\<close>) and builds the blob that provisions its key (\<^verbatim>\<open>algo/payload/provision.c\<close>).
  The session (\<^verbatim>\<open>flow/session.c\<close>) drives all of this as a state machine that answers its caller with events.
  The caller is a driver of libfprint (\<^verbatim>\<open>drivers/gxfp.c\<close>), which turns the events into reports to the image device class and
  the changes of state of that class into requests to the session.

  \<^bold>\<open>Theories of the kernel module.\<close>
  \<^item> \<^verbatim>\<open>Gxfp_Prelude\<close>: byte buffers behind nullable pointers, error codes, \<^verbatim>\<open>memcpy\<close>, little-endian words; the
    collections \<^verbatim>\<open>errno_simps\<close>, \<^verbatim>\<open>mem_simps\<close> and \<^verbatim>\<open>le_simps\<close> that the component proofs use.
  \<^item> \<^verbatim>\<open>Goodix_Proto\<close>: both copies of the Goodix body codec (\<^verbatim>\<open>kernel/proto/gxfp_goodix_proto.c\<close>,
    \<^verbatim>\<open>userspace/src/proto/goodix_proto.c\<close>). \<^verbatim>\<open>Mp_Proto\<close>: the MP framing (\<^verbatim>\<open>kernel/proto/gxfp_mp_proto.c\<close>).
  \<^item> \<^verbatim>\<open>Kernel_Hw\<close>: the device structure \<^verbatim>\<open>gxfp_dev\<close> of \<^verbatim>\<open>include/gxfp_priv.h\<close>, the kernel state \<^verbatim>\<open>kst\<close>, and
    \<^verbatim>\<open>hw/gxfp_mmio.c\<close>, \<^verbatim>\<open>gxfp_gpio.c\<close>, \<^verbatim>\<open>gxfp_delay.c\<close>. \<^verbatim>\<open>Espi_Transport\<close>: \<^verbatim>\<open>transport/\<close>.
    \<^verbatim>\<open>Kernel_Cmd\<close>: \<^verbatim>\<open>cmd/\<close>. \<^verbatim>\<open>Kernel_Uapi\<close>: the character device and the interrupt thread.
    \<^verbatim>\<open>Kernel_Trace\<close>: \<^verbatim>\<open>driver/gxfp_trace.c\<close>. \<^verbatim>\<open>Kernel_Platform\<close>: the ACPI scan, probe and removal.
  \<^item> \<^verbatim>\<open>Uapi_Concurrency\<close>: reader, poller, interrupt thread and removal of the receive queue as interleaved steps
    (an inductive step relation), with the mutex, the wait and every use of the queue's memory explicit.

  \<^bold>\<open>Theories of the library.\<close>
  \<^item> \<^verbatim>\<open>User_Sys\<close>: the operating system and \<^verbatim>\<open>algo/common.c\<close>. \<^verbatim>\<open>User_Dev\<close>: \<^verbatim>\<open>io/dev.c\<close>.
    \<^verbatim>\<open>User_Xfer\<close>: \<^verbatim>\<open>cmd/goodix_xfer.c\<close>. \<^verbatim>\<open>User_Cmd\<close>: the other commands and \<^verbatim>\<open>flow/device_recovery.c\<close>.
    \<^verbatim>\<open>Fdt_Flow\<close>: \<^verbatim>\<open>cmd/fdt_cmd.c\<close> and \<^verbatim>\<open>flow/fdt.c\<close>. \<^verbatim>\<open>Sensor_Cfg\<close>: \<^verbatim>\<open>algo/sensor_cfg.c\<close>.
  \<^item> \<^verbatim>\<open>Image_Plain\<close>, \<^verbatim>\<open>Image_Decoder\<close>, \<^verbatim>\<open>Image_Fpn\<close>: \<^verbatim>\<open>algo/image/plain.c\<close> (CRC, image sink, stream scanner),
    \<^verbatim>\<open>decoder.c\<close> (pixel formats) and \<^verbatim>\<open>fpn.c\<close> (correction; a \<^verbatim>\<open>double\<close> is a rational rounded to 53 bits).
  \<^item> \<^verbatim>\<open>Tls_Engine\<close>: \<^verbatim>\<open>tls/tls_engine_mbedtls.c\<close>. \<^verbatim>\<open>Tls_Service\<close>: \<^verbatim>\<open>tls/tls_service.c\<close>.
  \<^item> \<^verbatim>\<open>Session\<close>: the operations of \<^verbatim>\<open>flow/session.c\<close>. \<^verbatim>\<open>Session_Inv\<close>: its invariant, the memory it owns and the
    relation \<^verbatim>\<open>progress\<close> between modes and events that one piece of work may take. \<^verbatim>\<open>Session_Run\<close>: the loops, the
    life of a session and sequences of driver calls. \<^verbatim>\<open>Session_Props\<close>: what the session promises.
  \<^item> \<^verbatim>\<open>Provision\<close>: \<^verbatim>\<open>algo/payload/provision.c\<close>. \<^verbatim>\<open>User_Tools\<close>: the provisioning and the recovery tool
    (\<^verbatim>\<open>demos/psk_tool/main.c\<close>, \<^verbatim>\<open>demos/recovery/main.c\<close>).

  \<^bold>\<open>Theories of the libfprint driver.\<close>
  \<^item> \<^verbatim>\<open>Fp_Device\<close>: the actions of a device, their reports, cancellation and completion, suspending and resuming
    (\<^verbatim>\<open>libfprint/fp-device.c\<close>, \<^verbatim>\<open>fpi-device.c\<close>). \<^verbatim>\<open>Image_Device\<close>: the image device class
    (\<^verbatim>\<open>fp-image-device.c\<close>, \<^verbatim>\<open>fpi-image-device.c\<close>), whose functions take the table of methods of the driver as an
    argument. \<^verbatim>\<open>Gxfp_Driver\<close>: the driver (\<^verbatim>\<open>drivers/gxfp.c\<close>), its table of methods, and the sources of the main loop.
  \<^item> \<^verbatim>\<open>Image_Contract\<close>: what the image device class needs of a driver (the locale \<^verbatim>\<open>image_driver\<close>) and guarantees in
    return. \<^verbatim>\<open>Driver_Run\<close>: the driver keeps this contract. \<^verbatim>\<open>Driver_Loop\<close>: what a tick of the timer does to the
    action in progress. \<^verbatim>\<open>Driver_Returns\<close>: whatever is dispatched in whatever state returns and leaves the session sound
    (the locale \<^verbatim>\<open>responsive_driver\<close>). \<^verbatim>\<open>Driver_Props\<close>: the invariant of the object under the main loop, and what follows from it.

  \<^bold>\<open>State, effects and errors.\<close> Every C function is a definition of the same name; where the kernel and the library
  share a name, the suffix \<^verbatim>\<open>_k\<close> or \<^verbatim>\<open>_u\<close> tells them apart. Pieces of long functions (loop bodies, stages) are
  definitions of their own that the function composes in its order. A kernel function takes the environment
  \<^verbatim>\<open>kenv\<close> and the state \<^verbatim>\<open>kst\<close> (device structure and history of events) and returns its code and the next
  state. A library function takes the environment \<^verbatim>\<open>uenv\<close> and the history \<^verbatim>\<open>uhist\<close> of system calls and returns
  its result and the longer history. What the outside answers (registers, clocks, \<^verbatim>\<open>read\<close>, \<^verbatim>\<open>malloc\<close>, the contents of
  fresh memory) is a function of the whole history, so a theorem over all environments covers every device, every
  failing allocation and every order of answers. Memory is accounted for by the history: \<^verbatim>\<open>live_blocks\<close> and
  \<^verbatim>\<open>ulive\<close> are the blocks taken and not yet released. Structures are records, an object that may be NULL is an option,
  in-out parameters are returned. Fixed-width integers are words where they wrap; sizes are naturals; codes are
  integers, negative for errors.

  \<^bold>\<open>Loops, fuel and hypotheses.\<close> There is no fuel. Bounded loops are recursive functions. Loops that end only
  because of the outside are \<^verbatim>\<open>partial_function (option)\<close> (\<^verbatim>\<open>gxfp_uapi_wait_nonempty\<close>, \<^verbatim>\<open>gxfp_vt\<close>, \<^verbatim>\<open>patch_loop\<close>,
  \<^verbatim>\<open>grow_cap\<close>, \<^verbatim>\<open>read_file_loop\<close>, \<^verbatim>\<open>wait_loop\<close>, \<^verbatim>\<open>svc_pull_loop\<close>, \<^verbatim>\<open>fd_loop\<close>, \<^verbatim>\<open>fill_random_loop\<close>), and that they return is proved, under
  named hypotheses on the outside where they are needed:
  \<^item> \<^verbatim>\<open>wait_contract\<close>: \<^verbatim>\<open>wait_event_interruptible\<close> returns 0 only when its condition holds;
  \<^item> \<^verbatim>\<open>clock_runs\<close>: the monotonic clock passes every bound as system calls are made;
  \<^item> \<^verbatim>\<open>errnos\<close>: descriptors are not negative, error numbers are positive;
  \<^item> \<^verbatim>\<open>bursts_end\<close>: the device does not deliver records for ever without an empty read between;
  \<^item> \<^verbatim>\<open>lib_ok\<close>, \<^verbatim>\<open>lib_drains\<close>: mbed TLS has negative error codes, a handshake does not return a positive
    code, a read returns as many bytes as it says and at most as many as asked, and a library that is not given new
    ciphertext runs out of plaintext;
  \<^item> \<^verbatim>\<open>crypto_ok\<close>: the lengths of digests, tags and ciphertexts;
  \<^item> \<^verbatim>\<open>random_ready\<close>: a read of at most 256 bytes from \<^verbatim>\<open>/dev/urandom\<close> is not interrupted.
  A theorem with such a hypothesis has a witness that instantiates it with a concrete environment and library. Some
  theorems on the driver speak of the runs that are \<^verbatim>\<open>orphan_free\<close>: this is no assumption on the outside but leaves out the runs
  in which a defect of the image device class strikes, which is defined (\<^verbatim>\<open>orphaning\<close>) and shown (\<^verbatim>\<open>orphaned_enrolment\<close>); runs without enrolments
  are among them.

  \<^bold>\<open>Parameters.\<close> Not defined here and passed as arguments: the device and the kernel interfaces (\<^verbatim>\<open>kenv\<close>, and the
  answers of ACPI, GPIO, interrupt and misc registration in \<^verbatim>\<open>Kernel_Platform\<close>); the system calls (\<^verbatim>\<open>uenv\<close>); mbed TLS
  (\<^verbatim>\<open>tlslib\<close>: a call is a tree of the reads and writes it makes through the callbacks, as a function of the calls before
  it); its cryptographic primitives (\<^verbatim>\<open>cryptolib\<close>).

  \<^bold>\<open>Interfaces.\<close>
  \<^item> \<^verbatim>\<open>body_codec\<close> (a builder and a parser that fit), interpreted on both copies of the codec: the two sides of the wire
    are interchangeable.
  \<^item> \<^verbatim>\<open>kernel_command\<close> (an operation that frames the driver state and returns its memory), on seven commands; the
    recovery sequence is composed from them and is one itself.
  \<^item> \<^verbatim>\<open>record_queue\<close>, on the receive queue: client lemmas on first-in first-out order.
  \<^item> \<^verbatim>\<open>bounded_log\<close>, on the trace ring: it holds the last lines in order.
  \<^item> \<^verbatim>\<open>image_format\<close>, on the six formats of the decoder. \<^verbatim>\<open>ack_command\<close>, on six commands of the library.
  \<^item> \<^verbatim>\<open>record_sender\<close>, on the callback of the TLS service: records leave in order and whole.
  \<^item> \<^verbatim>\<open>image_driver\<close> (what the methods of a driver do in each state of the device), on the table of methods of the
    driver: the reports of the driver settle every action. \<^verbatim>\<open>responsive_driver\<close> (the methods return or report), on the same
    table with any session that keeps its invariant: every entry of the class returns, in every state of the class.

  \<^bold>\<open>What is shown.\<close>
  \<^item> Wire formats: built bodies and frames parse back on the other side, a changed byte is detected, the limits agree or
    the disagreement is stated.
  \<^item> Transport and queue: packages shown window by window are reassembled into one record each; writes are all or
    nothing; the queue refines a first-in first-out queue of records; the invariant of the character device holds after
    every sequence of operations against every device; a blocking read returns unless its one wait sleeps for ever. The concurrent
    system keeps reader and teardown apart and never uses a freed queue, and its one deadlock is exhibited.
  \<^item> Commands: a retrying exchange is safe against every device and completes against an answering one; probing is all
    or nothing; recovery reports success exactly when every stage succeeded.
  \<^item> Images: the CRC is CRC-32/MPEG-2 and catches bursts; the scanner finds the first good image; decoding gives every
    pixel its place for every format and fails cleanly; the correction is a monotone stretch to the full range.
  \<^item> Finger detection: invariant over all runs, bounded re-arming, and the end of a wait.
  \<^item> TLS: accepted ciphertext reaches mbed TLS in order and without loss; records leave one packet each; the service keeps its
    invariant and its memory through every operation.
  \<^item> Session: every run of driver calls returns, keeps the invariant and accounts for every block; a tick refines the
    protocol of modes and events; opening is all or nothing; a capture delivers the decoded and corrected image of the
    first good frame.
  \<^item> Provisioning: the sealed key opens to the key with the derived keys, and the blob reads back; the provisioning
    tool ends on every input with its memory released, and what it writes when it succeeds opens to the key it writes.
  \<^item> Driver: under every order of requests, cancellations and sources of the main loop every dispatch returns although the
    calls between driver and image device nest, and disposal gives back all memory. In every run that does not meet the one defect
    of the class, no assertion of libfprint fails, the state machine of the image device takes
    only transitions of its table, every action is returned to the application exactly once, none is left without a source
    that carries it on, and a suspended device has no action and refuses requests. Where the code
    falls short of its purpose, the last section of \<^verbatim>\<open>Driver_Props\<close> shows how.

  \<^bold>\<open>Not modelled.\<close> The texts of log and error messages (calls of the kernel's trace are kept by their format tag);
  \<^verbatim>\<open>seq_file\<close> plumbing; the capture demonstration (an interactive loop around the session), build files and packaging; the other drivers
  of libfprint and its copies of NBIS and SIGFM; of the device class of libfprint, probing and removal, the actions of devices
  with storage, critical sections (which neither the image device class nor this driver enters), the temperature model and the synchronous wrappers.
\<close>

end
